(* ===== verification/Mimosa_Prelude.thy ===== *)
theory Mimosa_Prelude
imports Main "HOL-Library.Word"
begin

text \<open>
  Shared vocabulary of the development: machine integer types, the status codes of the library,
  the faults a C execution can run into (a failed assertion, a NULL dereference, an access outside
  of an allocated block, an abort, a loop that does not return), results as sums
  \<open>fault + 'a\<close>, their sequencing, and the generic lemmas on lists and words that the components
  share.  The model follows the debug build: \<open>assert\<close> is compiled in.
\<close>

unbundle bit_operations_syntax

section \<open>Proof collections\<close>

named_theorems res_simps "sequencing of results"
named_theorems size_simps "word arithmetic without wrap-around, read in nat"
named_theorems wp "partial correctness of programs, by their head symbol"

section \<open>Machine integers\<close>

type_synonym u8 = "8 word"
type_synonym u16 = "16 word"
type_synonym u32 = "32 word"
type_synonym u64 = "64 word"

section \<open>Status codes and faults\<close>

datatype dpu_offload_status_t = DO_SUCCESS | DO_ERROR | DO_NOT_APPLICABLE

datatype fault =
    Assert_failed
  | Null_deref
  | Out_of_bounds
  | Bad_list_op
  | Bad_free
  | Aborted
  | No_return

type_synonym 'a res = "fault + 'a"

definition bindE :: "'a res \<Rightarrow> ('a \<Rightarrow> 'b res) \<Rightarrow> 'b res" where
  "bindE m f = (case m of Inl e \<Rightarrow> Inl e | Inr a \<Rightarrow> f a)"

definition assertE :: "bool \<Rightarrow> unit res" where
  "assertE c = (if c then Inr () else Inl Assert_failed)"

definition guardE :: "fault \<Rightarrow> bool \<Rightarrow> unit res" where
  "guardE f c = (if c then Inr () else Inl f)"

definition derefE :: "'a option \<Rightarrow> 'a res" where
  "derefE p = (case p of None \<Rightarrow> Inl Null_deref | Some a \<Rightarrow> Inr a)"

definition nthE :: "'a list \<Rightarrow> nat \<Rightarrow> 'a res" where
  "nthE xs i = (if i < length xs then Inr (xs ! i) else Inl Out_of_bounds)"

definition updE :: "'a list \<Rightarrow> nat \<Rightarrow> 'a \<Rightarrow> 'a list res" where
  "updE xs i v = (if i < length xs then Inr (xs[i := v]) else Inl Out_of_bounds)"

primrec foldE :: "('a \<Rightarrow> 's \<Rightarrow> 's res) \<Rightarrow> 'a list \<Rightarrow> 's \<Rightarrow> 's res" where
  "foldE f [] s = Inr s"
| "foldE f (x # xs) s = bindE (f x s) (foldE f xs)"

lemma bindE_simps [simp, res_simps]:
  "bindE (Inl e) f = Inl e"
  "bindE (Inr a) f = f a"
  by (simp_all add: bindE_def)

lemma bindE_cong [fundef_cong]:
  "m = m' \<Longrightarrow> (\<And>a. m' = Inr a \<Longrightarrow> f a = g a) \<Longrightarrow> bindE m f = bindE m' g"
  by (cases m') (auto simp: bindE_def)

lemma bindE_Inr_iff [res_simps]:
  "bindE m f = Inr b \<longleftrightarrow> (\<exists>a. m = Inr a \<and> f a = Inr b)"
  by (cases m) auto

lemma bindE_Inl_iff [res_simps]:
  "bindE m f = Inl e \<longleftrightarrow> m = Inl e \<or> (\<exists>a. m = Inr a \<and> f a = Inl e)"
  by (cases m) auto

lemma bindE_assoc: "bindE (bindE m f) g = bindE m (\<lambda>a. bindE (f a) g)"
  by (cases m) auto

lemma assertE_simps [simp]:
  "assertE True = Inr ()"
  "assertE False = Inl Assert_failed"
  by (simp_all add: assertE_def)

lemma assertE_iff [res_simps]:
  "assertE c = Inr u \<longleftrightarrow> c"
  "assertE c = Inl e \<longleftrightarrow> \<not> c \<and> e = Assert_failed"
  by (auto simp: assertE_def)

lemma guardE_simps [simp]:
  "guardE f True = Inr ()"
  "guardE f False = Inl f"
  by (simp_all add: guardE_def)

lemma guardE_iff [res_simps]:
  "guardE f c = Inr u \<longleftrightarrow> c"
  "guardE f c = Inl e \<longleftrightarrow> \<not> c \<and> e = f"
  by (auto simp: guardE_def)

lemma derefE_simps [simp]:
  "derefE None = Inl Null_deref"
  "derefE (Some a) = Inr a"
  by (simp_all add: derefE_def)

lemma derefE_Inr_iff [res_simps]: "derefE p = Inr a \<longleftrightarrow> p = Some a"
  by (cases p) auto

lemma nthE_Inr_iff [res_simps]: "nthE xs i = Inr a \<longleftrightarrow> i < length xs \<and> xs ! i = a"
  by (auto simp: nthE_def)

lemma nthE_in [simp]: "i < length xs \<Longrightarrow> nthE xs i = Inr (xs ! i)"
  by (simp add: nthE_def)

lemma updE_Inr_iff [res_simps]: "updE xs i v = Inr ys \<longleftrightarrow> i < length xs \<and> ys = xs[i := v]"
  by (auto simp: updE_def)

lemma updE_in [simp]: "i < length xs \<Longrightarrow> updE xs i v = Inr (xs[i := v])"
  by (simp add: updE_def)

lemma foldE_append: "foldE f (xs @ ys) s = bindE (foldE f xs s) (foldE f ys)"
  by (induction xs arbitrary: s) (simp_all add: bindE_assoc cong: bindE_cong)

lemma foldE_cong:
  assumes "\<And>x s. x \<in> set xs \<Longrightarrow> f x s = g x s"
  shows "foldE f xs s = foldE g xs s"
  using assms by (induction xs arbitrary: s) (auto cong: bindE_cong)

lemma foldE_pure:
  assumes "\<And>x s. x \<in> set xs \<Longrightarrow> f x s = Inr (g x s)"
  shows "foldE f xs s = Inr (fold g xs s)"
  using assms by (induction xs arbitrary: s) auto

text \<open>The invariant rule of a loop: a property kept by every iteration holds at its end, and a loop
  whose iterations succeed in the states of the property succeeds.\<close>

lemma foldE_invariant:
  assumes "foldE f xs s = Inr t" and "I s"
    and "\<And>x s t. x \<in> set xs \<Longrightarrow> I s \<Longrightarrow> f x s = Inr t \<Longrightarrow> I t"
  shows "I t"
  using assms by (induction xs arbitrary: s) (auto simp: bindE_Inr_iff)

lemma foldE_total:
  assumes "I s"
    and "\<And>x s. x \<in> set xs \<Longrightarrow> I s \<Longrightarrow> \<exists>t. f x s = Inr t \<and> I t"
  shows "\<exists>t. foldE f xs s = Inr t \<and> I t"
  using assms
proof (induction xs arbitrary: s)
  case Nil
  then show ?case by simp
next
  case (Cons x xs)
  from Cons.prems(2)[of x s] Cons.prems(1) obtain t where "f x s = Inr t" "I t"
    by auto
  with Cons show ?case
    by simp
qed

section \<open>Partial correctness\<close>

text \<open>\<open>holdsE P m\<close>: if the run \<open>m\<close> ends without a fault, its result satisfies \<open>P\<close>.  The rules of \<open>wp\<close>
  take a program apart by its head symbol.\<close>

definition holdsE :: "('a \<Rightarrow> bool) \<Rightarrow> 'a res \<Rightarrow> bool" where
  "holdsE P m = (case m of Inl _ \<Rightarrow> True | Inr a \<Rightarrow> P a)"

lemma holdsE_iff: "holdsE P m \<longleftrightarrow> (\<forall>a. m = Inr a \<longrightarrow> P a)"
  by (cases m) (auto simp: holdsE_def)

lemma holdsE_mono: "holdsE Q m \<Longrightarrow> (\<And>a. m = Inr a \<Longrightarrow> Q a \<Longrightarrow> P a) \<Longrightarrow> holdsE P m"
  by (auto simp: holdsE_iff)

lemma holdsE_Inl [simp, wp]: "holdsE P (Inl f)"
  by (simp add: holdsE_def)

lemma holdsE_Inr [wp]: "P a \<Longrightarrow> holdsE P (Inr a)"
  by (simp add: holdsE_def)

lemma holdsE_bind [wp]: "holdsE (\<lambda>a. holdsE P (f a)) m \<Longrightarrow> holdsE P (bindE m f)"
  by (cases m) (auto simp: holdsE_def)

lemma holdsE_if [wp]:
  "(c \<Longrightarrow> holdsE P m) \<Longrightarrow> (\<not> c \<Longrightarrow> holdsE P n) \<Longrightarrow> holdsE P (if c then m else n)"
  by simp

lemma holdsE_prod [wp]: "(\<And>a b. p = (a, b) \<Longrightarrow> holdsE P (f a b)) \<Longrightarrow> holdsE P (case p of (a, b) \<Rightarrow> f a b)"
  by (cases p) simp

lemma holdsE_assert [wp]: "(c \<Longrightarrow> P ()) \<Longrightarrow> holdsE P (assertE c)"
  by (simp add: holdsE_iff assertE_iff)

lemma holdsE_guard [wp]: "(c \<Longrightarrow> P ()) \<Longrightarrow> holdsE P (guardE f c)"
  by (simp add: holdsE_iff guardE_iff)

lemma holdsE_deref [wp]: "(\<And>a. p = Some a \<Longrightarrow> P a) \<Longrightarrow> holdsE P (derefE p)"
  by (simp add: holdsE_iff derefE_Inr_iff)

lemma holdsE_nth [wp]: "(i < length xs \<Longrightarrow> P (xs ! i)) \<Longrightarrow> holdsE P (nthE xs i)"
  by (simp add: holdsE_iff nthE_Inr_iff)

lemma holdsE_upd [wp]: "(i < length xs \<Longrightarrow> P (xs[i := v])) \<Longrightarrow> holdsE P (updE xs i v)"
  by (simp add: holdsE_iff updE_Inr_iff)

lemma holdsE_foldE:
  assumes "I s" "\<And>x s. x \<in> set xs \<Longrightarrow> I s \<Longrightarrow> holdsE I (f x s)" "\<And>t. I t \<Longrightarrow> P t"
  shows "holdsE P (foldE f xs s)"
  using foldE_invariant[of f xs s _ I] assms by (auto simp: holdsE_iff)

section \<open>Lists\<close>

lemma count_filter_upt:
  "length (filter P [0..<n]) = card {i. i < n \<and> P i}"
  by (simp add: length_filter_conv_card cong: conj_cong)

lemma take_Suc_update:
  "n < length xs \<Longrightarrow> take (Suc n) (xs[n := v]) = take n xs @ [v]"
  by (simp add: take_Suc_conv_app_nth)

lemma sum_list_remove1:
  fixes f :: "'a \<Rightarrow> nat"
  assumes "x \<in> set xs"
  shows "sum_list (map f (remove1 x xs)) = sum_list (map f xs) - f x"
  using assms by (simp add: sum_list_map_remove1)

section \<open>Words\<close>

lemma unat_bound: "unat (w :: 'a::len word) < 2 ^ LENGTH('a)"
  by (rule unsigned_less)

lemma unat_add_nowrap [size_simps]:
  fixes a b :: "'a::len word"
  shows "unat a + unat b < 2 ^ LENGTH('a) \<Longrightarrow> unat (a + b) = unat a + unat b"
  using unat_add_lem by blast

lemma unat_mult_nowrap [size_simps]:
  fixes a b :: "'a::len word"
  shows "unat a * unat b < 2 ^ LENGTH('a) \<Longrightarrow> unat (a * b) = unat a * unat b"
  using unat_mult_lem by blast

lemma unat_of_nat_nowrap [size_simps]:
  "n < 2 ^ LENGTH('a::len) \<Longrightarrow> unat (of_nat n :: 'a word) = n"
  by (simp add: unat_of_nat take_bit_nat_eq_self)

lemma unat_Suc_nowrap [size_simps]:
  fixes a :: "'a::len word"
  shows "Suc (unat a) < 2 ^ LENGTH('a) \<Longrightarrow> unat (a + 1) = Suc (unat a)"
proof -
  assume a: "Suc (unat a) < 2 ^ LENGTH('a)"
  then have "unat (1 :: 'a word) = 1"
    by (simp add: unat_1)
  with a show ?thesis
    using unat_add_nowrap[of a 1] by simp
qed

end
