(* ===== verification/Dyn_Structs.thy ===== *)
theory Dyn_Structs
imports Mimosa_Prelude
begin

text \<open>
  The containers of \<open>src/include/dynamic_structs.h\<close>: simple lists (an intrusive list with a length
  counter), dynamic arrays and dynamic lists (pools of elements carved out of memory chunks).
  A C heap is made explicit: blocks are numbered, \<open>malloc\<close> may fail at any request and always does
  when the request does not fit the 64-bit address space, and a block can be freed only once.
\<close>

section \<open>The C heap\<close>

type_synonym blk = nat

record heap =
  h_next :: blk
  h_live :: "(blk \<times> nat) list"
  h_oom :: "blk \<Rightarrow> bool"

definition heap_bytes :: "heap \<Rightarrow> nat" where
  "heap_bytes h = sum_list (map snd (h_live h))"

definition malloc_ok :: "u64 \<Rightarrow> heap \<Rightarrow> bool" where
  "malloc_ok sz h = (\<not> h_oom h (h_next h) \<and> heap_bytes h + unat sz < 2 ^ 64)"

definition malloc :: "u64 \<Rightarrow> heap \<Rightarrow> blk option \<times> heap" where
  "malloc sz h =
     (if malloc_ok sz h
      then (Some (h_next h), h\<lparr>h_next := Suc (h_next h), h_live := (h_next h, unat sz) # h_live h\<rparr>)
      else (None, h\<lparr>h_next := Suc (h_next h)\<rparr>))"

definition free_blk :: "blk \<Rightarrow> heap \<Rightarrow> heap res" where
  "free_blk b h =
     (case map_of (h_live h) b of
        None \<Rightarrow> Inl Bad_free
      | Some sz \<Rightarrow> Inr (h\<lparr>h_live := remove1 (b, sz) (h_live h)\<rparr>))"

text \<open>\<open>realloc\<close> of a live block: on success the content moves to a new block and the old one is
  released, on failure the old block stays.\<close>

definition realloc :: "blk \<Rightarrow> u64 \<Rightarrow> heap \<Rightarrow> (blk option \<times> heap) res" where
  "realloc b sz h =
     (case map_of (h_live h) b of
        None \<Rightarrow> Inl Bad_free
      | Some _ \<Rightarrow>
          (case malloc sz h of
             (None, h1) \<Rightarrow> Inr (None, h1)
           | (Some b', h1) \<Rightarrow> bindE (free_blk b h1) (\<lambda>h2. Inr (Some b', h2))))"

section \<open>Simple lists\<close>

record 'a simple_list_t =
  internal_list :: "'a list"
  sl_length :: u64

definition SIMPLE_LIST_INIT :: "'a simple_list_t" where
  "SIMPLE_LIST_INIT = \<lparr>internal_list = [], sl_length = 0\<rparr>"

definition SIMPLE_LIST_PREPEND :: "'a \<Rightarrow> 'a simple_list_t \<Rightarrow> 'a simple_list_t" where
  "SIMPLE_LIST_PREPEND x l =
     l\<lparr>internal_list := x # internal_list l, sl_length := sl_length l + 1\<rparr>"

definition SIMPLE_LIST_APPEND :: "'a \<Rightarrow> 'a simple_list_t \<Rightarrow> 'a simple_list_t" where
  "SIMPLE_LIST_APPEND x l =
     l\<lparr>internal_list := internal_list l @ [x], sl_length := sl_length l + 1\<rparr>"

definition SIMPLE_LIST_DEL :: "'a \<Rightarrow> 'a simple_list_t \<Rightarrow> 'a simple_list_t res" where
  "SIMPLE_LIST_DEL x l =
     bindE (guardE Bad_list_op (x \<in> set (internal_list l)))
       (\<lambda>_. Inr (l\<lparr>internal_list := remove1 x (internal_list l), sl_length := sl_length l - 1\<rparr>))"

definition SIMPLE_LIST_EXTRACT_HEAD :: "'a simple_list_t \<Rightarrow> ('a \<times> 'a simple_list_t) res" where
  "SIMPLE_LIST_EXTRACT_HEAD l =
     (case internal_list l of
        [] \<Rightarrow> Inl Bad_list_op
      | x # xs \<Rightarrow> Inr (x, l\<lparr>internal_list := xs, sl_length := sl_length l - 1\<rparr>))"

definition SIMPLE_LIST_LENGTH :: "'a simple_list_t \<Rightarrow> u64" where
  "SIMPLE_LIST_LENGTH l = sl_length l"

definition SIMPLE_LIST_IS_EMPTY :: "'a simple_list_t \<Rightarrow> bool" where
  "SIMPLE_LIST_IS_EMPTY l = (sl_length l = 0)"

section \<open>Dynamic arrays\<close>

text \<open>The memory backing an array is its block and the elements that fit in it.\<close>

record 'a dyn_array_t =
  da_base :: "(blk \<times> 'a list) option"
  da_capacity :: u64
  da_allocation_size :: u64
  da_type_size :: u64
  da_element_init_fn :: "('a \<Rightarrow> 'a) option"

definition elts_in :: "u64 \<Rightarrow> u64 \<Rightarrow> nat" where
  "elts_in bytes sz = unat bytes div unat sz"

definition DYN_ARRAY_ALLOC :: "u64 \<Rightarrow> 'a \<Rightarrow> u64 \<Rightarrow> heap \<Rightarrow> ('a dyn_array_t \<times> heap) res" where
  "DYN_ARRAY_ALLOC sz zero n h =
     bindE (assertE (n \<noteq> 0)) (\<lambda>_.
     case malloc (n * sz) h of
       (None, h1) \<Rightarrow> Inl Assert_failed
     | (Some b, h1) \<Rightarrow>
         Inr (\<lparr>da_base = Some (b, replicate (elts_in (n * sz) sz) zero), da_capacity = n,
               da_allocation_size = n, da_type_size = sz, da_element_init_fn = None\<rparr>, h1))"

text \<open>\<open>element_init_fn\<close> gets a pointer to the element when an array grows.  When the array is allocated it gets the value of
  the element, so that the zeroed elements stay as they are.\<close>

definition apply_init :: "('a \<Rightarrow> 'a) \<Rightarrow> nat \<Rightarrow> 'a list \<Rightarrow> 'a list res" where
  "apply_init fn i xs = bindE (nthE xs i) (\<lambda>x. updE xs i (fn x))"

definition DYN_ARRAY_ALLOC_WITH_INIT_FN ::
    "u64 \<Rightarrow> 'a \<Rightarrow> u64 \<Rightarrow> ('a \<Rightarrow> 'a) \<Rightarrow> heap \<Rightarrow> ('a dyn_array_t \<times> heap) res" where
  "DYN_ARRAY_ALLOC_WITH_INIT_FN sz zero n fn h =
     bindE (assertE (n \<noteq> 0)) (\<lambda>_.
     case malloc (n * sz) h of
       (None, h1) \<Rightarrow> Inl Assert_failed
     | (Some b, h1) \<Rightarrow>
         Inr (\<lparr>da_base = Some (b, replicate (elts_in (n * sz) sz) zero), da_capacity = n,
               da_allocation_size = n, da_type_size = sz, da_element_init_fn = Some fn\<rparr>, h1))"

definition DYN_ARRAY_FREE :: "'a dyn_array_t \<Rightarrow> heap \<Rightarrow> ('a dyn_array_t \<times> heap) res" where
  "DYN_ARRAY_FREE a h =
     (if 0 < da_capacity a then
        bindE (case da_base a of None \<Rightarrow> Inr h | Some (b, _) \<Rightarrow> free_blk b h) (\<lambda>h1.
        Inr (\<lparr>da_base = None, da_capacity = 0, da_allocation_size = 0, da_type_size = 0,
              da_element_init_fn = None\<rparr>, h1))
      else Inr (a, h))"

text \<open>The loop that computes the new capacity.  The comparison is on byte sizes, in 64 bits.  \<open>realloc\<close> of NULL allocates.\<close>

partial_function (option) grow_num_elts :: "u64 \<Rightarrow> u64 \<Rightarrow> u64 \<Rightarrow> u64 \<Rightarrow> u64 option" where
  [code]: "grow_num_elts sz alloc idx n =
     (if n * sz \<le> idx * sz then grow_num_elts sz alloc idx (n + alloc) else Some n)"

definition DYN_ARRAY_GROW ::
    "u64 \<Rightarrow> 'a \<Rightarrow> u64 \<Rightarrow> 'a dyn_array_t \<Rightarrow> heap \<Rightarrow> ('a dyn_array_t \<times> heap) res" where
  "DYN_ARRAY_GROW sz zero idx a h =
     (let initial = da_capacity a in
      case grow_num_elts sz (da_allocation_size a) idx initial of
        None \<Rightarrow> Inl No_return
      | Some new \<Rightarrow>
          bindE (case da_base a of
                   None \<Rightarrow> (case malloc (new * sz) h of (r, h1) \<Rightarrow> Inr (r, h1, []))
                 | Some (b, xs) \<Rightarrow> bindE (realloc b (new * sz) h) (\<lambda>(r, h1). Inr (r, h1, xs))) (\<lambda>(r, h1, xs).
          case r of
            None \<Rightarrow> Inl Assert_failed
          | Some b' \<Rightarrow>
              bindE (guardE Out_of_bounds (unat initial \<le> elts_in (new * sz) sz)) (\<lambda>_.
              let ys = take (unat initial) xs
                       @ replicate (elts_in (new * sz) sz - unat initial) zero in
              bindE (case da_element_init_fn a of
                       None \<Rightarrow> Inr ys
                     | Some fn \<Rightarrow>
                         foldE (\<lambda>x. apply_init fn (unat initial + (unat initial + x)))
                           [0..<unat (new - initial)] ys) (\<lambda>zs.
              Inr (a\<lparr>da_base := Some (b', zs), da_capacity := new\<rparr>, h1)))))"

text \<open>\<open>DYN_ARRAY_GET_ELT\<close> returns a pointer into the array: the model returns the index, once it is
  known to lie in the memory of the array.\<close>

definition DYN_ARRAY_GET_ELT ::
    "u64 \<Rightarrow> 'a \<Rightarrow> u64 \<Rightarrow> 'a dyn_array_t \<Rightarrow> heap \<Rightarrow> (nat \<times> 'a dyn_array_t \<times> heap) res" where
  "DYN_ARRAY_GET_ELT sz zero idx a h =
     bindE (assertE (da_capacity a \<noteq> 0)) (\<lambda>_.
     bindE (if da_capacity a \<le> idx then DYN_ARRAY_GROW sz zero idx a h else Inr (a, h)) (\<lambda>(a1, h1).
     bindE (derefE (da_base a1)) (\<lambda>(b, xs).
     bindE (guardE Out_of_bounds (unat idx < length xs)) (\<lambda>_.
     Inr (unat idx, a1, h1)))))"

definition da_read :: "nat \<Rightarrow> 'a dyn_array_t \<Rightarrow> 'a res" where
  "da_read i a = bindE (derefE (da_base a)) (\<lambda>(b, xs). nthE xs i)"

definition da_write :: "nat \<Rightarrow> 'a \<Rightarrow> 'a dyn_array_t \<Rightarrow> 'a dyn_array_t res" where
  "da_write i v a =
     bindE (derefE (da_base a)) (\<lambda>(b, xs).
     bindE (updE xs i v) (\<lambda>ys. Inr (a\<lparr>da_base := Some (b, ys)\<rparr>)))"

definition DYN_ARRAY_SET_ELT ::
    "u64 \<Rightarrow> 'a \<Rightarrow> u64 \<Rightarrow> 'a \<Rightarrow> 'a dyn_array_t \<Rightarrow> heap \<Rightarrow> ('a dyn_array_t \<times> heap) res" where
  "DYN_ARRAY_SET_ELT sz zero idx v a h =
     bindE (if da_capacity a \<le> idx then DYN_ARRAY_GROW sz zero idx a h else Inr (a, h)) (\<lambda>(a1, h1).
     bindE (da_write (unat idx) v a1) (\<lambda>a2. Inr (a2, h1)))"

section \<open>Dynamic lists\<close>

text \<open>An element is named by the chunk it lives in and its position there; \<open>dl_elts\<close> is the memory of
  the elements.  \<open>dl_blk\<close> is the block of the \<open>dyn_list_t\<close> itself, which is allocated too.\<close>

type_synonym ptr = "blk \<times> nat"

record mem_chunk_t =
  mc_size :: u64
  mc_ptr :: "blk option"

record 'e dyn_list_t =
  dl_blk :: blk
  dl_capacity :: u64
  dl_allocation_size :: u64
  dl_list :: "ptr simple_list_t"
  dl_element_init_cb :: "('e \<Rightarrow> 'e) option"
  dl_num_mem_chunks :: u64
  dl_mem_chunks :: "mem_chunk_t dyn_array_t"
  dl_elts :: "ptr \<Rightarrow> 'e"

definition DEFAULT_MEM_CHUNKS :: u64 where
  "DEFAULT_MEM_CHUNKS = 1024"

definition sizeof_mem_chunk_t :: u64 where
  "sizeof_mem_chunk_t = 16"

definition sizeof_dyn_list_t :: u64 where
  "sizeof_dyn_list_t = 96"

definition zero_mem_chunk :: mem_chunk_t where
  "zero_mem_chunk = \<lparr>mc_size = 0, mc_ptr = None\<rparr>"

text \<open>One iteration of the loop of \<open>GROW_DYN_LIST\<close>; the element must lie within the new chunk.\<close>

definition grow_step :: "u64 \<Rightarrow> blk \<Rightarrow> u64 \<Rightarrow> nat \<Rightarrow> 'e dyn_list_t \<Rightarrow> 'e dyn_list_t res" where
  "grow_step sz b chunk_size i dl =
     bindE (guardE Out_of_bounds (Suc i * unat sz \<le> unat chunk_size)) (\<lambda>_.
     let dl1 = (case dl_element_init_cb dl of
                  None \<Rightarrow> dl
                | Some cb \<Rightarrow> dl\<lparr>dl_elts := (dl_elts dl)((b, i) := cb (dl_elts dl (b, i)))\<rparr>) in
     Inr (dl1\<lparr>dl_list := SIMPLE_LIST_PREPEND (b, i) (dl_list dl1)\<rparr>))"

definition GROW_DYN_LIST :: "u64 \<Rightarrow> 'e dyn_list_t \<Rightarrow> heap \<Rightarrow> ('e dyn_list_t \<times> heap) res" where
  "GROW_DYN_LIST sz dl h =
     (let initial_list_size = SIMPLE_LIST_LENGTH (dl_list dl);
          chunk_size = dl_allocation_size dl * sz in
      case malloc chunk_size h of
        (None, h1) \<Rightarrow> Inr (dl, h1)
      | (Some b, h1) \<Rightarrow>
          bindE (DYN_ARRAY_GET_ELT sizeof_mem_chunk_t zero_mem_chunk (dl_num_mem_chunks dl)
                   (dl_mem_chunks dl) h1) (\<lambda>(i, a1, h2).
          bindE (da_write i \<lparr>mc_size = chunk_size, mc_ptr = Some b\<rparr> a1) (\<lambda>a2.
          bindE (foldE (grow_step sz b chunk_size) [0..<unat (dl_allocation_size dl)]
                   (dl\<lparr>dl_mem_chunks := a2, dl_num_mem_chunks := dl_num_mem_chunks dl + 1\<rparr>)) (\<lambda>dl1.
          bindE (assertE (SIMPLE_LIST_LENGTH (dl_list dl1)
                            = initial_list_size + dl_allocation_size dl)) (\<lambda>_.
          bindE (assertE (0 < dl_allocation_size dl
                          \<and> unat (dl_allocation_size dl) * unat sz = unat chunk_size)) (\<lambda>_.
          Inr (dl1\<lparr>dl_capacity := dl_capacity dl1 + dl_allocation_size dl\<rparr>, h2)))))))"

definition dyn_list_alloc_with ::
    "u64 \<Rightarrow> (ptr \<Rightarrow> 'e) \<Rightarrow> u64 \<Rightarrow> ('e \<Rightarrow> 'e) option \<Rightarrow> heap \<Rightarrow> ('e dyn_list_t option \<times> heap) res" where
  "dyn_list_alloc_with sz mem n cb h =
     (case malloc sizeof_dyn_list_t h of
        (None, h1) \<Rightarrow> Inr (None, h1)
      | (Some lb, h1) \<Rightarrow>
          bindE (DYN_ARRAY_ALLOC sizeof_mem_chunk_t zero_mem_chunk DEFAULT_MEM_CHUNKS h1)
            (\<lambda>(a, h2).
          bindE (GROW_DYN_LIST sz
                   \<lparr>dl_blk = lb, dl_capacity = 0, dl_allocation_size = n,
                    dl_list = SIMPLE_LIST_INIT, dl_element_init_cb = cb,
                    dl_num_mem_chunks = 0, dl_mem_chunks = a, dl_elts = mem\<rparr> h2) (\<lambda>(dl, h3).
          Inr (Some dl, h3))))"

definition DYN_LIST_ALLOC ::
    "u64 \<Rightarrow> (ptr \<Rightarrow> 'e) \<Rightarrow> u64 \<Rightarrow> heap \<Rightarrow> ('e dyn_list_t option \<times> heap) res" where
  "DYN_LIST_ALLOC sz mem n h = dyn_list_alloc_with sz mem n None h"

definition DYN_LIST_ALLOC_WITH_INIT_CALLBACK ::
    "u64 \<Rightarrow> (ptr \<Rightarrow> 'e) \<Rightarrow> u64 \<Rightarrow> ('e \<Rightarrow> 'e) \<Rightarrow> heap \<Rightarrow> ('e dyn_list_t option \<times> heap) res" where
  "DYN_LIST_ALLOC_WITH_INIT_CALLBACK sz mem n cb h = dyn_list_alloc_with sz mem n (Some cb) h"

definition DYN_LIST_GET :: "u64 \<Rightarrow> 'e dyn_list_t \<Rightarrow> heap \<Rightarrow> (ptr \<times> 'e dyn_list_t \<times> heap) res" where
  "DYN_LIST_GET sz dl h =
     bindE (if SIMPLE_LIST_IS_EMPTY (dl_list dl) then GROW_DYN_LIST sz dl h else Inr (dl, h))
       (\<lambda>(dl1, h1).
     bindE (SIMPLE_LIST_EXTRACT_HEAD (dl_list dl1)) (\<lambda>(p, l).
     Inr (p, dl1\<lparr>dl_list := l\<rparr>, h1)))"

definition DYN_LIST_RETURN :: "ptr \<Rightarrow> 'e dyn_list_t \<Rightarrow> 'e dyn_list_t" where
  "DYN_LIST_RETURN p dl = dl\<lparr>dl_list := SIMPLE_LIST_PREPEND p (dl_list dl)\<rparr>"

text \<open>\<open>DYN_LIST_FREE\<close>: the list is emptied, then the chunks, the array of chunks and the structure
  itself are freed.\<close>

function drain_list :: "'a simple_list_t \<Rightarrow> 'a simple_list_t res" where
  "drain_list l =
     (if SIMPLE_LIST_IS_EMPTY l then Inr l
      else case internal_list l of
             [] \<Rightarrow> Inl Bad_list_op
           | x # xs \<Rightarrow> drain_list (l\<lparr>internal_list := xs, sl_length := sl_length l - 1\<rparr>))"
  by auto
termination
  by (relation "measure (\<lambda>l. length (internal_list l))") auto

definition free_chunk ::
    "nat \<Rightarrow> mem_chunk_t dyn_array_t \<times> heap \<Rightarrow> (mem_chunk_t dyn_array_t \<times> heap) res" where
  "free_chunk i s =
     (case s of (a, h) \<Rightarrow>
        bindE (DYN_ARRAY_GET_ELT sizeof_mem_chunk_t zero_mem_chunk (of_nat i) a h) (\<lambda>(j, a1, h1).
        bindE (da_read j a1) (\<lambda>c.
        bindE (case mc_ptr c of None \<Rightarrow> Inr h1 | Some b \<Rightarrow> free_blk b h1) (\<lambda>h2.
        bindE (da_write j (c\<lparr>mc_ptr := None\<rparr>) a1) (\<lambda>a2. Inr (a2, h2))))))"

definition DYN_LIST_FREE :: "'e dyn_list_t \<Rightarrow> heap \<Rightarrow> heap res" where
  "DYN_LIST_FREE dl h =
     bindE (drain_list (dl_list dl)) (\<lambda>_.
     bindE (foldE free_chunk [0..<unat (dl_num_mem_chunks dl)] (dl_mem_chunks dl, h)) (\<lambda>(a1, h1).
     bindE (DYN_ARRAY_FREE a1 h1) (\<lambda>(a2, h2).
     free_blk (dl_blk dl) h2)))"

section \<open>The heap keeps blocks apart\<close>

definition wf_heap :: "heap \<Rightarrow> bool" where
  "wf_heap h = (distinct (map fst (h_live h)) \<and> (\<forall>(b, n) \<in> set (h_live h). b < h_next h)
                \<and> heap_bytes h < 2 ^ 64)"

definition live_blks :: "heap \<Rightarrow> blk set" where
  "live_blks h = fst ` set (h_live h)"

lemma wf_heap_fresh [simp]: "wf_heap h \<Longrightarrow> h_next h \<notin> live_blks h"
  by (auto simp: wf_heap_def live_blks_def)

lemma malloc_None:
  assumes "malloc sz h = (None, h')"
  shows "\<not> malloc_ok sz h" "h' = h\<lparr>h_next := Suc (h_next h)\<rparr>"
  using assms by (auto simp: malloc_def split: if_splits)

lemma malloc_Some:
  assumes "malloc sz h = (Some b, h')"
  shows "malloc_ok sz h" "b = h_next h"
    "h' = h\<lparr>h_next := Suc (h_next h), h_live := (b, unat sz) # h_live h\<rparr>"
  using assms by (auto simp: malloc_def split: if_splits)

lemma malloc_wf: "wf_heap h \<Longrightarrow> malloc sz h = (r, h') \<Longrightarrow> wf_heap h'"
  by (fastforce simp: malloc_def malloc_ok_def wf_heap_def heap_bytes_def split: if_splits)

lemma malloc_live:
  "malloc sz h = (Some b, h') \<Longrightarrow> live_blks h' = insert b (live_blks h)"
  "malloc sz h = (None, h') \<Longrightarrow> live_blks h' = live_blks h"
  by (auto simp: malloc_def live_blks_def split: if_splits)

lemma malloc_fresh: "wf_heap h \<Longrightarrow> malloc sz h = (Some b, h') \<Longrightarrow> b \<notin> live_blks h"
  by (auto dest: malloc_Some)

lemma free_blk_live:
  assumes "wf_heap h" "b \<in> live_blks h"
  obtains sz where "(b, sz) \<in> set (h_live h)"
    "free_blk b h = Inr (h\<lparr>h_live := remove1 (b, sz) (h_live h)\<rparr>)"
proof -
  from assms(2) obtain sz where "(b, sz) \<in> set (h_live h)"
    by (auto simp: live_blks_def)
  with assms(1) show thesis
    by (intro that[of sz]) (simp_all add: wf_heap_def free_blk_def)
qed

lemma free_blk_keeps:
  assumes h: "wf_heap h" and b: "b \<in> live_blks h"
  shows "\<exists>h'. free_blk b h = Inr h' \<and> wf_heap h' \<and> live_blks h' = live_blks h - {b}
           \<and> set (h_live h') = {e \<in> set (h_live h). fst e \<noteq> b}
           \<and> h_oom h' = h_oom h \<and> h_next h' = h_next h"
proof -
  from free_blk_live[OF h b] obtain sz where
    sz: "(b, sz) \<in> set (h_live h)" "free_blk b h = Inr (h\<lparr>h_live := remove1 (b, sz) (h_live h)\<rparr>)"
    by blast
  let ?h = "h\<lparr>h_live := remove1 (b, sz) (h_live h)\<rparr>"
  from h have d: "distinct (map fst (h_live h))"
    by (simp add: wf_heap_def)
  then have d': "distinct (h_live h)" "inj_on fst (set (h_live h))"
    by (simp_all add: distinct_map)
  have s: "set (h_live ?h) = {e \<in> set (h_live h). fst e \<noteq> b}"
    using d' sz(1) by (fastforce simp: inj_on_def)
  have bytes: "heap_bytes ?h \<le> heap_bytes h"
    using sz(1) by (simp add: heap_bytes_def sum_list_remove1)
  have "distinct (map fst (remove1 (b, sz) (h_live h)))"
    using d d' by (auto simp: distinct_map inj_on_def)
  with s h bytes have "wf_heap ?h"
    by (auto simp: wf_heap_def)
  moreover have "live_blks ?h = live_blks h - {b}"
    using s by (auto simp: live_blks_def)
  ultimately show ?thesis
    using sz(2) s by simp
qed

section \<open>Growth of a dynamic array\<close>

text \<open>The growth loop returns when the byte sizes do not wrap: the new capacity is the old one plus a
  multiple of the allocation size, covers the index, and exceeds it by at most one allocation.\<close>

lemma grow_num_elts_spec:
  assumes "0 < alloc" "0 < sz" "(unat idx + unat alloc) * unat sz < 2 ^ 64"
    and "unat n \<le> unat idx + unat alloc"
  shows "\<exists>k m. grow_num_elts sz alloc idx n = Some m \<and> unat m = unat n + k * unat alloc
               \<and> unat idx < unat m \<and> unat m \<le> unat idx + unat alloc"
  using assms
proof (induction "unat idx + unat alloc - unat n" arbitrary: n rule: less_induct)
  case less
  have pos: "0 < unat alloc" "0 < unat sz"
    using less.prems(1,2) by (simp_all add: word_less_nat_alt)
  have le: "unat x * unat sz < 2 ^ 64" if "unat x \<le> unat idx + unat alloc" for x
    using that less.prems(3) by (metis le_less_trans mult_le_mono1)
  have nn: "unat (n * sz) = unat n * unat sz" and ii: "unat (idx * sz) = unat idx * unat sz"
    using le[of n] le[of idx] less.prems(4) by (simp_all add: unat_mult_nowrap)
  show ?case
  proof (cases "unat n \<le> unat idx")
    case False
    then have "\<not> n * sz \<le> idx * sz"
      using pos by (simp add: word_le_nat_alt nn ii)
    with False less.prems(4) show ?thesis
      by (intro exI[of _ 0] exI[of _ n]) (simp add: grow_num_elts.simps)
  next
    case True
    have b: "unat idx + unat alloc < 2 ^ 64"
      using less.prems(3) pos(2) by (metis le_less_trans mult.right_neutral mult_le_mono2 Suc_leI One_nat_def)
    have na: "unat (n + alloc) = unat n + unat alloc"
      using b True by (intro unat_add_nowrap) simp
    from True have "n * sz \<le> idx * sz"
      by (simp add: word_le_nat_alt nn ii)
    then have step: "grow_num_elts sz alloc idx n = grow_num_elts sz alloc idx (n + alloc)"
      by (simp add: grow_num_elts.simps[of sz alloc idx n])
    have "\<exists>k m. grow_num_elts sz alloc idx (n + alloc) = Some m
               \<and> unat m = unat (n + alloc) + k * unat alloc
               \<and> unat idx < unat m \<and> unat m \<le> unat idx + unat alloc"
      using True pos less.prems by (intro less.hyps) (simp_all add: na)
    then obtain k m where km: "grow_num_elts sz alloc idx (n + alloc) = Some m"
        "unat m = unat n + unat alloc + k * unat alloc" "unat idx < unat m"
        "unat m \<le> unat idx + unat alloc"
      by (auto simp: na)
    then show ?thesis
      by (intro exI[of _ "Suc k"] exI[of _ m]) (simp add: step)
  qed
qed

definition da_elts :: "'a dyn_array_t \<Rightarrow> 'a list" where
  "da_elts a = (case da_base a of None \<Rightarrow> [] | Some (b, xs) \<Rightarrow> xs)"

definition da_blk :: "'a dyn_array_t \<Rightarrow> blk" where
  "da_blk a = (case da_base a of None \<Rightarrow> 0 | Some (b, xs) \<Rightarrow> b)"

text \<open>A well-formed array owns a live block of exactly its capacity.\<close>

definition da_wf :: "u64 \<Rightarrow> 'a dyn_array_t \<Rightarrow> heap \<Rightarrow> bool" where
  "da_wf sz a h =
     (da_base a \<noteq> None \<and> length (da_elts a) = unat (da_capacity a)
      \<and> (da_blk a, unat (da_capacity a) * unat sz) \<in> set (h_live h)
      \<and> 0 < da_capacity a \<and> 0 < da_allocation_size a \<and> 0 < sz)"

definition other_blks :: "blk \<Rightarrow> heap \<Rightarrow> (blk \<times> nat) set" where
  "other_blks b h = {e \<in> set (h_live h). fst e \<noteq> b}"

text \<open>What an access that may grow the array keeps: the elements stay, zeroed ones are added, the
  other blocks of the heap are untouched.\<close>

definition da_extends :: "u64 \<Rightarrow> 'a \<Rightarrow> 'a dyn_array_t \<Rightarrow> heap \<Rightarrow> 'a dyn_array_t \<Rightarrow> heap \<Rightarrow> bool" where
  "da_extends sz zero a h a' h' =
     (wf_heap h' \<and> da_wf sz a' h' \<and> da_allocation_size a' = da_allocation_size a
      \<and> da_element_init_fn a' = da_element_init_fn a
      \<and> (\<exists>k. da_elts a' = da_elts a @ replicate k zero)
      \<and> other_blks (da_blk a') h' = other_blks (da_blk a) h
      \<and> (da_blk a' = da_blk a \<or> da_blk a' \<notin> live_blks h)
      \<and> h_oom h' = h_oom h \<and> h_next h \<le> h_next h')"

lemma da_extends_refl: "wf_heap h \<Longrightarrow> da_wf sz a h \<Longrightarrow> da_extends sz zero a h a h"
  by (auto simp: da_extends_def intro: exI[of _ 0])

lemma da_wf_base: "da_wf sz a h \<Longrightarrow> da_base a = Some (da_blk a, da_elts a)"
  by (auto simp: da_wf_def da_blk_def da_elts_def split: option.splits)

lemma da_wf_capacity [simp]: "da_wf sz a h \<Longrightarrow> da_capacity a \<noteq> 0"
  by (simp add: da_wf_def word_gt_0)

lemma da_wf_live: "da_wf sz a h \<Longrightarrow> da_blk a \<in> live_blks h"
  by (force simp: da_wf_def live_blks_def)

lemma live_bytes_le: "(b, n) \<in> set (h_live h) \<Longrightarrow> n \<le> heap_bytes h"
  by (auto simp: heap_bytes_def intro!: member_le_sum_list image_eqI[of _ snd "(b, n)"])

lemma live_map_of: "b \<in> live_blks h \<Longrightarrow> \<exists>n. map_of (h_live h) b = Some n"
  by (cases "map_of (h_live h) b") (auto simp: live_blks_def map_of_eq_None_iff)

lemma da_wf_nowrap:
  "wf_heap h \<Longrightarrow> da_wf sz a h \<Longrightarrow> unat (da_capacity a) * unat sz < 2 ^ 64"
  using live_bytes_le[of "da_blk a" "unat (da_capacity a) * unat sz" h]
  by (simp add: da_wf_def wf_heap_def)

lemma elts_in_mult:
  "0 < sz \<Longrightarrow> unat n * unat sz < 2 ^ 64 \<Longrightarrow> elts_in (n * sz) sz = unat n"
  by (simp add: elts_in_def unat_mult_nowrap word_less_nat_alt)

lemma realloc_spec:
  assumes h: "wf_heap h" and b: "b \<in> live_blks h"
  shows "(\<not> malloc_ok sz h \<and> (\<exists>h'. realloc b sz h = Inr (None, h')))
         \<or> (malloc_ok sz h \<and> (\<exists>h'. realloc b sz h = Inr (Some (h_next h), h') \<and> wf_heap h'
               \<and> other_blks (h_next h) h' = other_blks b h \<and> (h_next h, unat sz) \<in> set (h_live h')
               \<and> h_oom h' = h_oom h \<and> h_next h \<le> h_next h'))"
proof (cases "malloc_ok sz h")
  case False
  with live_map_of[OF b] show ?thesis
    by (auto simp: realloc_def malloc_def)
next
  case True
  let ?h1 = "h\<lparr>h_next := Suc (h_next h), h_live := (h_next h, unat sz) # h_live h\<rparr>"
  from True have m: "malloc sz h = (Some (h_next h), ?h1)"
    by (simp add: malloc_def)
  have w: "wf_heap ?h1" and bl: "b \<in> live_blks ?h1"
    using malloc_wf[OF h m] b by (simp_all add: live_blks_def)
  have nb: "b \<noteq> h_next h"
    using h b wf_heap_fresh by blast
  obtain h2 where h2: "free_blk b ?h1 = Inr h2" "wf_heap h2"
      "set (h_live h2) = {e \<in> set (h_live ?h1). fst e \<noteq> b}" "h_oom h2 = h_oom h"
      "h_next h2 = Suc (h_next h)"
    using free_blk_keeps[OF w bl] by auto
  have "realloc b sz h = Inr (Some (h_next h), h2)"
    using live_map_of[OF b] m h2(1) by (auto simp: realloc_def)
  moreover have "other_blks (h_next h) h2 = other_blks b h"
    using h2(3) wf_heap_fresh[OF h] by (force simp: other_blks_def live_blks_def)
  ultimately show ?thesis
    using True h2 nb by auto
qed

text \<open>The capacity an array grows to: the least number of whole allocations beyond its capacity that covers the index.\<close>

definition grown_capacity :: "nat \<Rightarrow> nat \<Rightarrow> nat \<Rightarrow> nat" where
  "grown_capacity c al i = (if i < c then c else c + Suc ((i - c) div al) * al)"

lemma grown_capacity_unique:
  assumes "0 < al" "c \<le> i" "m = c + k * al" "i < m" "m \<le> i + al"
  shows "m = grown_capacity c al i"
proof -
  have "(k - 1) * al \<le> i - c" "i - c < k * al" "0 < k"
    using assms by (auto simp: diff_mult_distrib intro: Nat.gr0I)
  then have "(i - c) div al = k - 1"
    using assms(1) by (intro div_nat_eqI) (simp_all add: mult.commute)
  with \<open>0 < k\<close> assms(2,3) show ?thesis
    by (simp add: grown_capacity_def)
qed

lemma DYN_ARRAY_GROW_spec:
  assumes h: "wf_heap h" and a: "da_wf sz a h" and fn: "da_element_init_fn a = None"
    and cap: "da_capacity a \<le> idx"
    and nw: "(unat idx + unat (da_allocation_size a)) * unat sz < 2 ^ 64"
  shows "DYN_ARRAY_GROW sz zero idx a h = Inl Assert_failed
           \<and> \<not> malloc_ok (of_nat (grown_capacity (unat (da_capacity a)) (unat (da_allocation_size a)) (unat idx)) * sz) h
         \<or> malloc_ok (of_nat (grown_capacity (unat (da_capacity a)) (unat (da_allocation_size a)) (unat idx)) * sz) h
           \<and> (\<exists>a' h'. DYN_ARRAY_GROW sz zero idx a h = Inr (a', h') \<and> da_extends sz zero a h a' h'
               \<and> unat idx < length (da_elts a')
               \<and> unat (da_capacity a') = grown_capacity (unat (da_capacity a)) (unat (da_allocation_size a)) (unat idx))"
proof -
  let ?al = "da_allocation_size a"
  have pos: "0 < ?al" "0 < sz" "length (da_elts a) = unat (da_capacity a)"
    using a by (simp_all add: da_wf_def)
  have capn: "unat (da_capacity a) \<le> unat idx"
    using cap by (simp add: word_le_nat_alt)
  obtain k m where m: "grow_num_elts sz ?al idx (da_capacity a) = Some m"
      "unat m = unat (da_capacity a) + k * unat ?al" "unat idx < unat m" "unat m \<le> unat idx + unat ?al"
    using grow_num_elts_spec[OF pos(1,2) nw, of "da_capacity a"] capn by auto
  have mw: "unat m * unat sz < 2 ^ 64"
    using nw m(4) by (metis le_less_trans mult_le_mono1)
  note E = elts_in_mult[OF pos(2) mw]
  have mp: "0 < m"
    using m(3) by (simp add: word_less_nat_alt)
  have mg: "unat m = grown_capacity (unat (da_capacity a)) (unat ?al) (unat idx)"
    using m(2-4) capn pos(1) by (intro grown_capacity_unique) (simp_all add: word_less_nat_alt)
  then have mm: "of_nat (grown_capacity (unat (da_capacity a)) (unat ?al) (unat idx)) = m"
    by (simp flip: mg)
  from realloc_spec[OF h da_wf_live[OF a], of "m * sz"] show ?thesis
  proof (elim disjE conjE exE)
    fix h' assume "realloc (da_blk a) (m * sz) h = Inr (None, h')" "\<not> malloc_ok (m * sz) h"
    then show ?thesis
      by (simp add: DYN_ARRAY_GROW_def m(1) da_wf_base[OF a] mm)
  next
    fix h' assume r: "realloc (da_blk a) (m * sz) h = Inr (Some (h_next h), h')" "wf_heap h'"
      "other_blks (h_next h) h' = other_blks (da_blk a) h" "(h_next h, unat (m * sz)) \<in> set (h_live h')"
      "h_oom h' = h_oom h" "h_next h \<le> h_next h'" and ok: "malloc_ok (m * sz) h"
    let ?ys = "da_elts a @ replicate (unat m - unat (da_capacity a)) zero"
    let ?a' = "a\<lparr>da_base := Some (h_next h, ?ys), da_capacity := m\<rparr>"
    have "DYN_ARRAY_GROW sz zero idx a h = Inr (?a', h')"
      using fn pos m r by (simp add: DYN_ARRAY_GROW_def da_wf_base[OF a] E Let_def)
    moreover have "da_extends sz zero a h ?a' h'"
      using r pos mp mw m(2) wf_heap_fresh[OF h]
      by (auto simp: da_extends_def da_wf_def da_elts_def da_blk_def unat_mult_nowrap)
    ultimately show ?thesis
      unfolding mm using m pos ok mg by (intro disjI2 conjI exI[of _ ?a'] exI[of _ h']) (simp_all add: da_elts_def)
  qed
qed

lemma DYN_ARRAY_GET_ELT_spec:
  assumes h: "wf_heap h" and a: "da_wf sz a h" and fn: "da_element_init_fn a = None"
    and nw: "(unat idx + unat (da_allocation_size a)) * unat sz < 2 ^ 64"
  shows "DYN_ARRAY_GET_ELT sz zero idx a h = Inl Assert_failed \<and> da_capacity a \<le> idx
         \<or> (\<exists>a' h'. DYN_ARRAY_GET_ELT sz zero idx a h = Inr (unat idx, a', h')
               \<and> da_extends sz zero a h a' h' \<and> unat idx < length (da_elts a')
               \<and> (idx < da_capacity a \<longrightarrow> a' = a \<and> h' = h))"
proof (cases "da_capacity a \<le> idx")
  case True
  from DYN_ARRAY_GROW_spec[OF h a fn True nw, of zero] show ?thesis
  proof (elim disjE exE conjE)
    assume "DYN_ARRAY_GROW sz zero idx a h = Inl Assert_failed"
    with True a show ?thesis
      by (simp add: DYN_ARRAY_GET_ELT_def)
  next
    fix a' h' assume g: "DYN_ARRAY_GROW sz zero idx a h = Inr (a', h')" "da_extends sz zero a h a' h'"
      "unat idx < length (da_elts a')"
    then have "da_base a' = Some (da_blk a', da_elts a')"
      by (auto simp: da_extends_def dest: da_wf_base)
    with True a g show ?thesis
      by (auto simp: DYN_ARRAY_GET_ELT_def)
  qed
next
  case False
  with da_wf_base[OF a] a have "DYN_ARRAY_GET_ELT sz zero idx a h = Inr (unat idx, a, h)"
    by (simp add: DYN_ARRAY_GET_ELT_def) (simp add: da_wf_def word_le_nat_alt)
  with False a show ?thesis
    using da_extends_refl[OF h a] by (auto simp: da_wf_def word_le_nat_alt word_less_nat_alt)
qed

section \<open>Simple lists refine lists\<close>

text \<open>The length counter is the number of linked elements; the counter is a \<open>size_t\<close>, so lists stay
  shorter than the address space.\<close>

definition sl_wf :: "'a simple_list_t \<Rightarrow> bool" where
  "sl_wf l = (sl_length l = of_nat (length (internal_list l)) \<and> length (internal_list l) < 2 ^ 64)"

lemma sl_wf_init [simp]: "sl_wf SIMPLE_LIST_INIT"
  by (simp add: sl_wf_def SIMPLE_LIST_INIT_def)

lemma of_nat_64_eq_0: "n < 2 ^ 64 \<Longrightarrow> (of_nat n :: u64) = 0 \<longleftrightarrow> n = 0"
  using unat_of_nat_nowrap[where 'a = 64, of n] unat_eq_0[of "of_nat n :: u64"] by simp

lemma sl_empty_iff: "sl_wf l \<Longrightarrow> SIMPLE_LIST_IS_EMPTY l \<longleftrightarrow> internal_list l = []"
  by (simp add: sl_wf_def SIMPLE_LIST_IS_EMPTY_def of_nat_64_eq_0)

lemma sl_extract_head:
  assumes "sl_wf l" "SIMPLE_LIST_EXTRACT_HEAD l = Inr (x, l')"
  shows "internal_list l = x # internal_list l' \<and> sl_wf l'"
  using assms by (auto simp: sl_wf_def SIMPLE_LIST_EXTRACT_HEAD_def split: list.splits)

lemma sl_prepend:
  "sl_wf l \<Longrightarrow> Suc (length (internal_list l)) < 2 ^ 64 \<Longrightarrow> sl_wf (SIMPLE_LIST_PREPEND x l)"
  by (simp add: sl_wf_def SIMPLE_LIST_PREPEND_def)

lemma sl_append:
  "sl_wf l \<Longrightarrow> Suc (length (internal_list l)) < 2 ^ 64 \<Longrightarrow> sl_wf (SIMPLE_LIST_APPEND x l)"
  by (simp add: sl_wf_def SIMPLE_LIST_APPEND_def)

lemma of_nat_diff_1: "0 < n \<Longrightarrow> (of_nat (n - Suc 0) :: u64) = of_nat n - 1"
  by (cases n) simp_all

lemma sl_del:
  assumes "sl_wf l" "SIMPLE_LIST_DEL x l = Inr l'"
  shows "internal_list l' = remove1 x (internal_list l) \<and> sl_wf l'"
proof -
  from assms(2) have x: "x \<in> set (internal_list l)"
    and l': "l' = l\<lparr>internal_list := remove1 x (internal_list l), sl_length := sl_length l - 1\<rparr>"
    by (auto simp: SIMPLE_LIST_DEL_def res_simps)
  then have "0 < length (internal_list l)"
    by (cases "internal_list l") auto
  with assms(1) x l' show ?thesis
    by (auto simp: sl_wf_def length_remove1 of_nat_diff_1)
qed

lemma drain_list_empties: "sl_wf l \<Longrightarrow> \<exists>l'. drain_list l = Inr l' \<and> internal_list l' = []"
proof (induction l rule: drain_list.induct)
  case (1 l)
  show ?case
  proof (cases "internal_list l")
    case Nil
    with 1 show ?thesis
      by (simp add: sl_empty_iff)
  next
    case (Cons x xs)
    let ?l = "l\<lparr>internal_list := xs, sl_length := sl_length l - 1\<rparr>"
    have ne: "\<not> SIMPLE_LIST_IS_EMPTY l"
      using 1(2) Cons by (simp add: sl_empty_iff)
    have "sl_wf ?l"
      using 1(2) Cons by (simp add: sl_wf_def)
    with 1(1)[OF ne Cons] ne Cons show ?thesis
      by simp
  qed
qed

section \<open>The pool interface\<close>

text \<open>What clients of a dynamic list rely on: a state with an invariant and a set of elements in use;
  getting an element never returns one in use, returning one makes it available again.\<close>

locale pool =
  fixes inv :: "'s \<Rightarrow> bool"
    and used :: "'s \<Rightarrow> 'p set"
    and get :: "'s \<Rightarrow> ('p \<times> 's) res"
    and ret :: "'p \<Rightarrow> 's \<Rightarrow> 's"
  assumes get_fresh: "inv s \<Longrightarrow> get s = Inr (p, s') \<Longrightarrow> p \<notin> used s"
    and get_used: "inv s \<Longrightarrow> get s = Inr (p, s') \<Longrightarrow> used s' = insert p (used s)"
    and get_inv: "inv s \<Longrightarrow> get s = Inr (p, s') \<Longrightarrow> inv s'"
    and ret_used: "inv s \<Longrightarrow> p \<in> used s \<Longrightarrow> used (ret p s) = used s - {p}"
    and ret_inv: "inv s \<Longrightarrow> p \<in> used s \<Longrightarrow> inv (ret p s)"
    and get_ret: "inv s \<Longrightarrow> p \<in> used s \<Longrightarrow> \<exists>s'. get (ret p s) = Inr (p, s')"
begin

primrec get_n :: "nat \<Rightarrow> 's \<Rightarrow> ('p list \<times> 's) res" where
  "get_n 0 s = Inr ([], s)"
| "get_n (Suc n) s = bindE (get s) (\<lambda>(p, s1). bindE (get_n n s1) (\<lambda>(ps, s2). Inr (p # ps, s2)))"

lemma get_n_distinct:
  "inv s \<Longrightarrow> get_n n s = Inr (ps, s') \<Longrightarrow>
     distinct ps \<and> length ps = n \<and> set ps \<inter> used s = {} \<and> used s' = used s \<union> set ps \<and> inv s'"
proof (induction n arbitrary: s ps)
  case 0
  then show ?case by simp
next
  case (Suc n)
  then obtain p s1 qs where g: "get s = Inr (p, s1)" and r: "get_n n s1 = Inr (qs, s')" "ps = p # qs"
    by (auto simp: res_simps split: prod.splits)
  note u = get_fresh[OF Suc.prems(1) g] get_used[OF Suc.prems(1) g] get_inv[OF Suc.prems(1) g]
  from Suc.IH[OF u(3) r(1)] u r(2) show ?case
    by auto
qed

text \<open>A history of gets and returns in which only elements in use are returned.\<close>

inductive reach :: "'s \<Rightarrow> 's \<Rightarrow> bool" where
  reach_refl: "reach s s"
| reach_get: "reach s t \<Longrightarrow> get t = Inr (p, t') \<Longrightarrow> reach s t'"
| reach_ret: "reach s t \<Longrightarrow> p \<in> used t \<Longrightarrow> reach s (ret p t)"

lemma reach_inv: "reach s t \<Longrightarrow> inv s \<Longrightarrow> inv t"
  by (induction rule: reach.induct) (auto intro: get_inv ret_inv)

lemma reach_no_double: "reach s t \<Longrightarrow> inv s \<Longrightarrow> get t = Inr (p, t') \<Longrightarrow> p \<notin> used t"
  using reach_inv get_fresh by blast

end

section \<open>Dynamic lists are pools\<close>

definition chunk_ptrs :: "'e dyn_list_t \<Rightarrow> blk option list" where
  "chunk_ptrs dl = map mc_ptr (take (unat (dl_num_mem_chunks dl)) (da_elts (dl_mem_chunks dl)))"

definition chunk_blks :: "'e dyn_list_t \<Rightarrow> blk list" where
  "chunk_blks dl = map the (chunk_ptrs dl)"

definition dl_items :: "'e dyn_list_t \<Rightarrow> ptr set" where
  "dl_items dl = set (chunk_blks dl) \<times> {i. i < unat (dl_allocation_size dl)}"

definition dl_free :: "'e dyn_list_t \<Rightarrow> ptr set" where
  "dl_free dl = set (internal_list (dl_list dl))"

definition dl_used :: "'e dyn_list_t \<Rightarrow> ptr set" where
  "dl_used dl = dl_items dl - dl_free dl"

text \<open>The chunks of the pool: recorded in the array, live, distinct and apart from the other blocks.\<close>

definition dl_chunks_wf :: "u64 \<Rightarrow> 'e dyn_list_t \<Rightarrow> heap \<Rightarrow> bool" where
  "dl_chunks_wf sz dl h =
     (da_wf sizeof_mem_chunk_t (dl_mem_chunks dl) h
      \<and> da_element_init_fn (dl_mem_chunks dl) = None
      \<and> da_allocation_size (dl_mem_chunks dl) = DEFAULT_MEM_CHUNKS
      \<and> unat (dl_num_mem_chunks dl) \<le> length (da_elts (dl_mem_chunks dl))
      \<and> None \<notin> set (chunk_ptrs dl)
      \<and> distinct (dl_blk dl # da_blk (dl_mem_chunks dl) # chunk_blks dl)
      \<and> (\<forall>b \<in> set (chunk_blks dl).
            (b, unat (dl_allocation_size dl) * unat sz) \<in> set (h_live h))
      \<and> (dl_blk dl, unat sizeof_dyn_list_t) \<in> set (h_live h))"

definition dl_wf :: "u64 \<Rightarrow> 'e dyn_list_t \<Rightarrow> heap \<Rightarrow> bool" where
  "dl_wf sz dl h =
     (wf_heap h \<and> dl_chunks_wf sz dl h
      \<and> 0 < dl_allocation_size dl \<and> 16 \<le> unat sz
      \<and> unat (dl_allocation_size dl) * unat sz < 2 ^ 64
      \<and> dl_capacity dl = dl_num_mem_chunks dl * dl_allocation_size dl
      \<and> distinct (internal_list (dl_list dl)) \<and> dl_free dl \<subseteq> dl_items dl
      \<and> sl_length (dl_list dl) = of_nat (length (internal_list (dl_list dl))))"

lemma dl_chunks_len:
  "dl_chunks_wf sz dl h \<Longrightarrow> length (chunk_blks dl) = unat (dl_num_mem_chunks dl)"
  by (simp add: dl_chunks_wf_def chunk_blks_def chunk_ptrs_def)

lemma live_sum_le:
  assumes "wf_heap h" "D \<subseteq> set (h_live h)"
  shows "sum snd D \<le> heap_bytes h"
proof -
  have "distinct (h_live h)"
    using assms(1) by (simp add: wf_heap_def distinct_map)
  then have "heap_bytes h = sum snd (set (h_live h))"
    by (simp add: heap_bytes_def sum_list_distinct_conv_sum_set)
  with assms(2) show ?thesis
    by (simp add: sum_mono2)
qed

text \<open>The pool fits the address space: its chunks and its chunk array are disjoint blocks.\<close>

lemma dl_bytes:
  assumes h: "wf_heap h" and c: "dl_chunks_wf sz dl h"
  shows "unat (dl_num_mem_chunks dl) * (unat (dl_allocation_size dl) * unat sz)
         + unat (da_capacity (dl_mem_chunks dl)) * 16 < 2 ^ 64"
proof -
  let ?n = "unat (dl_allocation_size dl) * unat sz"
  let ?a = "dl_mem_chunks dl"
  let ?C = "(\<lambda>b. (b, ?n)) ` set (chunk_blks dl)"
  have "insert (da_blk ?a, unat (da_capacity ?a) * 16) ?C \<subseteq> set (h_live h)"
    using c by (auto simp: dl_chunks_wf_def da_wf_def sizeof_mem_chunk_t_def)
  from live_sum_le[OF h this] have
    "sum snd (insert (da_blk ?a, unat (da_capacity ?a) * 16) ?C) < 2 ^ 64"
    using h by (simp add: wf_heap_def)
  moreover have "sum snd ?C = length (chunk_blks dl) * ?n"
    using c by (simp add: sum.reindex inj_on_def dl_chunks_wf_def distinct_card)
  moreover have "(da_blk ?a, unat (da_capacity ?a) * 16) \<notin> ?C"
    using c by (auto simp: dl_chunks_wf_def)
  ultimately show ?thesis
    by (simp add: dl_chunks_len[OF c])
qed

lemma dl_bounds:
  assumes "dl_wf sz dl h"
  shows "unat (dl_num_mem_chunks dl) * unat (dl_allocation_size dl) * 16 < 2 ^ 64"
    and "(unat (dl_num_mem_chunks dl) + 1024) * 16 < 2 ^ 64"
proof -
  let ?k = "unat (dl_num_mem_chunks dl)" and ?n = "unat (dl_allocation_size dl)"
  have c: "dl_chunks_wf sz dl h" and h: "wf_heap h" and s: "16 \<le> unat sz" and n: "1 \<le> ?n"
    using assms by (simp_all add: dl_wf_def word_less_nat_alt)
  note b = dl_bytes[OF h c]
  have k: "?k \<le> unat (da_capacity (dl_mem_chunks dl))"
    using c by (simp add: dl_chunks_wf_def da_wf_def)
  have m: "?k * ?n * 16 \<le> ?k * (?n * unat sz)"
    using s by (simp add: mult.assoc)
  with b show "?k * ?n * 16 < 2 ^ 64"
    by linarith
  have "?k * 16 \<le> ?k * ?n * 16"
    using n by simp
  with m have "?k * 16 \<le> ?k * (?n * unat sz)"
    by linarith
  with b k have "?k * 32 < 2 ^ 64"
    by linarith
  then show "(?k + 1024) * 16 < 2 ^ 64"
    by simp
qed

lemma dl_items_card:
  assumes "dl_wf sz dl h"
  shows "finite (dl_items dl)"
    and "card (dl_items dl) = unat (dl_num_mem_chunks dl) * unat (dl_allocation_size dl)"
  using assms dl_chunks_len[of sz dl h]
  by (simp_all add: dl_wf_def dl_items_def dl_chunks_wf_def card_cartesian_product distinct_card)

lemma dl_list_wf:
  assumes "dl_wf sz dl h"
  shows "sl_wf (dl_list dl)"
    and "length (internal_list (dl_list dl))
         \<le> unat (dl_num_mem_chunks dl) * unat (dl_allocation_size dl)"
proof -
  have "length (internal_list (dl_list dl)) = card (dl_free dl)"
    using assms by (simp add: dl_wf_def dl_free_def distinct_card)
  also have "\<dots> \<le> card (dl_items dl)"
    using assms dl_items_card[OF assms] by (intro card_mono) (simp_all add: dl_wf_def)
  finally show len: "length (internal_list (dl_list dl))
         \<le> unat (dl_num_mem_chunks dl) * unat (dl_allocation_size dl)"
    using dl_items_card[OF assms] by simp
  with dl_bounds(1)[OF assms] have "length (internal_list (dl_list dl)) < 2 ^ 64"
    by linarith
  with assms show "sl_wf (dl_list dl)"
    by (simp add: sl_wf_def dl_wf_def)
qed

text \<open>The loop of \<open>GROW_DYN_LIST\<close>: every element of the new chunk is initialised once and linked.\<close>

definition init_chunk :: "('e \<Rightarrow> 'e) option \<Rightarrow> blk \<Rightarrow> nat \<Rightarrow> (ptr \<Rightarrow> 'e) \<Rightarrow> ptr \<Rightarrow> 'e" where
  "init_chunk cb b n mem p =
     (case cb of None \<Rightarrow> mem p
      | Some f \<Rightarrow> (if fst p = b \<and> snd p < n then f (mem p) else mem p))"

lemma grow_step_fold:
  assumes "n * unat sz \<le> unat cs"
  shows "foldE (grow_step sz b cs) [0..<n] dl =
    Inr (dl\<lparr>dl_list := \<lparr>internal_list = rev (map (Pair b) [0..<n]) @ internal_list (dl_list dl),
                        sl_length = sl_length (dl_list dl) + of_nat n\<rparr>,
            dl_elts := init_chunk (dl_element_init_cb dl) b n (dl_elts dl)\<rparr>)"
  using assms
proof (induction n)
  case 0
  have "init_chunk (dl_element_init_cb dl) b 0 (dl_elts dl) = dl_elts dl"
    by (auto simp: init_chunk_def fun_eq_iff split: option.splits)
  then show ?case
    by simp
next
  case (Suc n)
  have le: "n * unat sz \<le> unat cs" "Suc n * unat sz \<le> unat cs"
    using Suc.prems by simp_all
  show ?case
    using le(2)
    by (simp add: foldE_append Suc.IH[OF le(1)])
       (auto simp: grow_step_def SIMPLE_LIST_PREPEND_def init_chunk_def fun_eq_iff split: option.splits)
qed

lemma chunk_blks_grow:
  assumes c: "dl_chunks_wf sz dl h"
    and a: "take (unat (dl_num_mem_chunks dl)) (da_elts a)
            = take (unat (dl_num_mem_chunks dl)) (da_elts (dl_mem_chunks dl))"
    and i: "unat (dl_num_mem_chunks dl) < length (da_elts a)"
    and n: "Suc (unat (dl_num_mem_chunks dl)) < 2 ^ 64"
    and a': "da_elts (dl_mem_chunks dl')
             = (da_elts a)[unat (dl_num_mem_chunks dl) := \<lparr>mc_size = s, mc_ptr = Some b\<rparr>]"
    and n': "dl_num_mem_chunks dl' = dl_num_mem_chunks dl + 1"
  shows "chunk_ptrs dl' = chunk_ptrs dl @ [Some b]" "chunk_blks dl' = chunk_blks dl @ [b]"
proof -
  have "unat (dl_num_mem_chunks dl + 1) = Suc (unat (dl_num_mem_chunks dl))"
    using n by (intro unat_Suc_nowrap) simp
  with a i show "chunk_ptrs dl' = chunk_ptrs dl @ [Some b]"
    by (simp add: chunk_ptrs_def a' n' take_Suc_update)
  then show "chunk_blks dl' = chunk_blks dl @ [b]"
    by (simp add: chunk_blks_def)
qed

lemma other_blks_mem: "other_blks b' h' = other_blks b h \<Longrightarrow> e \<in> set (h_live h) \<Longrightarrow> fst e \<noteq> b \<Longrightarrow>
    e \<in> set (h_live h') \<and> fst e \<noteq> b'"
  unfolding other_blks_def by blast

lemma dl_wf_mono_heap:
  assumes "dl_wf sz dl h" "wf_heap h'" "set (h_live h) \<subseteq> set (h_live h')"
  shows "dl_wf sz dl h'"
  using assms by (auto simp: dl_wf_def dl_chunks_wf_def da_wf_def)

text \<open>What growing a pool does: it adds a chunk of fresh elements at the head of the free list.\<close>

definition dl_grown :: "blk \<Rightarrow> 'e dyn_list_t \<Rightarrow> 'e dyn_list_t \<Rightarrow> bool" where
  "dl_grown b dl dl' =
     (b \<notin> set (chunk_blks dl)
      \<and> dl_blk dl' = dl_blk dl \<and> dl_allocation_size dl' = dl_allocation_size dl
      \<and> chunk_blks dl' = chunk_blks dl @ [b]
      \<and> internal_list (dl_list dl')
          = rev (map (Pair b) [0..<unat (dl_allocation_size dl)]) @ internal_list (dl_list dl)
      \<and> dl_elts dl'
          = init_chunk (dl_element_init_cb dl) b (unat (dl_allocation_size dl)) (dl_elts dl)
      \<and> dl_element_init_cb dl' = dl_element_init_cb dl)"

definition pool_blks :: "'e dyn_list_t \<Rightarrow> blk set" where
  "pool_blks dl = {dl_blk dl, da_blk (dl_mem_chunks dl)} \<union> set (chunk_blks dl)"

lemma other_live: "live_blks h - {b} = fst ` other_blks b h"
  by (force simp: live_blks_def other_blks_def)

lemma dl_grown_wf:
  assumes w: "dl_wf sz dl h" and m: "malloc (dl_allocation_size dl * sz) h = (Some b, h1)"
    and x: "da_extends sizeof_mem_chunk_t zero_mem_chunk (dl_mem_chunks dl) h1 a h2"
    and i: "unat (dl_num_mem_chunks dl) < length (da_elts a)"
    and dl': "dl' = dl\<lparr>
        dl_mem_chunks := a\<lparr>da_base := Some (da_blk a,
            (da_elts a)[unat (dl_num_mem_chunks dl) := \<lparr>mc_size = s, mc_ptr = Some b\<rparr>])\<rparr>,
        dl_num_mem_chunks := dl_num_mem_chunks dl + 1,
        dl_list := \<lparr>internal_list = rev (map (Pair b) [0..<unat (dl_allocation_size dl)])
                                  @ internal_list (dl_list dl),
                    sl_length = sl_length (dl_list dl)
                                + of_nat (unat (dl_allocation_size dl))\<rparr>,
        dl_elts := init_chunk (dl_element_init_cb dl) b (unat (dl_allocation_size dl)) (dl_elts dl),
        dl_capacity := dl_capacity dl + dl_allocation_size dl\<rparr>"
  shows "dl_wf sz dl' h2 \<and> dl_grown b dl dl'
         \<and> live_blks h2 - pool_blks dl' = live_blks h - pool_blks dl"
proof -
  let ?a = "dl_mem_chunks dl"
  have h: "wf_heap h" and c: "dl_chunks_wf sz dl h"
    and nw: "unat (dl_allocation_size dl) * unat sz < 2 ^ 64"
    using w by (simp_all add: dl_wf_def)
  have bl: "b \<notin> live_blks h" and h1: "set (h_live h1) = insert (b, unat (dl_allocation_size dl) * unat sz) (set (h_live h))"
    using malloc_fresh[OF h m] malloc_Some(3)[OF m] nw by (simp_all add: unat_mult_nowrap)
  have notin: "b \<notin> set (chunk_blks dl)" "b \<noteq> dl_blk dl" "b \<noteq> da_blk ?a"
    using bl c by (force simp: dl_chunks_wf_def live_blks_def da_wf_def)+
  from x obtain k where e: "da_elts a = da_elts ?a @ replicate k zero_mem_chunk"
    and ob: "other_blks (da_blk a) h2 = other_blks (da_blk ?a) h1" and h2: "wf_heap h2"
    and a: "da_wf sizeof_mem_chunk_t a h2" "da_allocation_size a = da_allocation_size ?a"
      "da_element_init_fn a = da_element_init_fn ?a"
    by (auto simp: da_extends_def)
  note keep = other_blks_mem[OF ob]
  have nc: "unat (dl_num_mem_chunks dl) \<le> length (da_elts ?a)"
    using c by (simp add: dl_chunks_wf_def)
  have bnd: "Suc (unat (dl_num_mem_chunks dl)) < 2 ^ 64"
    using dl_bounds(2)[OF w] by simp
  have un: "unat (dl_num_mem_chunks dl') = Suc (unat (dl_num_mem_chunks dl))"
    using bnd by (simp add: dl' unat_Suc_nowrap)
  have ch: "chunk_ptrs dl' = chunk_ptrs dl @ [Some b]" "chunk_blks dl' = chunk_blks dl @ [b]"
    using chunk_blks_grow[OF c _ i bnd, of dl' s b] e nc by (simp_all add: dl' da_elts_def)
  have chunks: "\<forall>b' \<in> set (chunk_blks dl').
      (b', unat (dl_allocation_size dl) * unat sz) \<in> set (h_live h2) \<and> b' \<noteq> da_blk a"
    using c keep notin by (fastforce simp: ch h1 dl_chunks_wf_def)
  have lb: "(dl_blk dl, unat sizeof_dyn_list_t) \<in> set (h_live h2)" "dl_blk dl \<noteq> da_blk a"
    using c keep by (fastforce simp: h1 dl_chunks_wf_def)+
  have "da_wf sizeof_mem_chunk_t (dl_mem_chunks dl') h2"
    using a(1) by (simp add: dl' da_wf_def da_elts_def da_blk_def)
  moreover have "unat (dl_num_mem_chunks dl') \<le> length (da_elts (dl_mem_chunks dl'))"
    using i unfolding un by (simp add: dl' da_elts_def)
  moreover have "distinct (dl_blk dl' # da_blk (dl_mem_chunks dl') # chunk_blks dl')"
    using c notin lb chunks unfolding ch by (auto simp: dl' da_blk_def dl_chunks_wf_def)
  ultimately have cw: "dl_chunks_wf sz dl' h2"
    using chunks lb c a(2,3) unfolding dl_chunks_wf_def ch by (simp add: dl')
  have items: "dl_items dl' = dl_items dl \<union> {b} \<times> {i. i < unat (dl_allocation_size dl)}"
    by (auto simp: dl_items_def ch) (auto simp: dl')
  have fr: "dl_free dl' = dl_free dl \<union> {b} \<times> {i. i < unat (dl_allocation_size dl)}"
    by (auto simp: dl_free_def dl')
  have "b \<notin> fst ` dl_free dl"
    using w notin(1) by (auto simp: dl_wf_def dl_items_def)
  then have dis: "distinct (internal_list (dl_list dl'))"
    using w by (force simp: dl' dl_wf_def dl_free_def distinct_map inj_on_def)
  have "dl_wf sz dl' h2"
    unfolding dl_wf_def using h2 cw dis items fr w
    by (auto simp: dl_wf_def) (simp_all add: dl' algebra_simps)
  moreover have "dl_grown b dl dl'"
    using notin(1) ch by (simp add: dl_grown_def dl')
  moreover have "live_blks h2 - {da_blk a} = live_blks h1 - {da_blk ?a}"
    by (simp add: other_live ob)
  moreover have "pool_blks dl' = {dl_blk dl, da_blk a, b} \<union> set (chunk_blks dl)"
    by (auto simp: pool_blks_def ch) (auto simp: dl' da_blk_def)
  ultimately show ?thesis
    using bl malloc_live(1)[OF m] by (auto simp: pool_blks_def)
qed

lemma da_write_base:
  "da_base a = Some (b, xs) \<Longrightarrow> i < length xs \<Longrightarrow>
     da_write i v a = Inr (a\<lparr>da_base := Some (b, xs[i := v])\<rparr>)"
  by (simp add: da_write_def)

lemma GROW_DYN_LIST_spec:
  assumes w: "dl_wf sz dl h"
  shows "GROW_DYN_LIST sz dl h = Inl Assert_failed
         \<or> (\<exists>h'. GROW_DYN_LIST sz dl h = Inr (dl, h') \<and> dl_wf sz dl h'
               \<and> live_blks h' = live_blks h \<and> \<not> malloc_ok (dl_allocation_size dl * sz) h)
         \<or> (\<exists>dl' h' b. GROW_DYN_LIST sz dl h = Inr (dl', h') \<and> dl_wf sz dl' h'
               \<and> dl_grown b dl dl' \<and> b \<notin> live_blks h
               \<and> live_blks h' - pool_blks dl' = live_blks h - pool_blks dl)"
proof (cases "malloc (dl_allocation_size dl * sz) h")
  case (Pair r h1)
  have h: "wf_heap h" and c: "dl_chunks_wf sz dl h"
    and nw: "unat (dl_allocation_size dl) * unat sz < 2 ^ 64" and pos: "0 < dl_allocation_size dl"
    using w by (simp_all add: dl_wf_def)
  have h1: "wf_heap h1"
    using malloc_wf[OF h Pair] .
  show ?thesis
  proof (cases r)
    case None
    with Pair have "dl_wf sz dl h1"
      using dl_wf_mono_heap[OF w h1] malloc_None(2)[of "dl_allocation_size dl * sz" h h1] by simp
    with None Pair malloc_None(1)[of "dl_allocation_size dl * sz" h h1] malloc_live(2) show ?thesis
      by (auto simp: GROW_DYN_LIST_def)
  next
    case (Some b)
    let ?a = "dl_mem_chunks dl"
    have a1: "da_wf sizeof_mem_chunk_t ?a h1" "da_element_init_fn ?a = None"
      using c malloc_Some(3)[of "dl_allocation_size dl * sz" h b h1] Pair Some
      by (auto simp: dl_chunks_wf_def da_wf_def)
    have "(unat (dl_num_mem_chunks dl) + unat (da_allocation_size ?a)) * unat sizeof_mem_chunk_t < 2 ^ 64"
      using dl_bounds(2)[OF w] c
      by (simp add: dl_chunks_wf_def DEFAULT_MEM_CHUNKS_def sizeof_mem_chunk_t_def)
    from DYN_ARRAY_GET_ELT_spec[OF h1 a1 this, of zero_mem_chunk] show ?thesis
    proof (elim disjE conjE exE)
      assume "DYN_ARRAY_GET_ELT sizeof_mem_chunk_t zero_mem_chunk (dl_num_mem_chunks dl) ?a h1
              = Inl Assert_failed"
      with Pair Some show ?thesis
        by (simp add: GROW_DYN_LIST_def)
    next
      fix a h2 assume g: "DYN_ARRAY_GET_ELT sizeof_mem_chunk_t zero_mem_chunk
          (dl_num_mem_chunks dl) ?a h1 = Inr (unat (dl_num_mem_chunks dl), a, h2)"
        and x: "da_extends sizeof_mem_chunk_t zero_mem_chunk ?a h1 a h2"
        and i: "unat (dl_num_mem_chunks dl) < length (da_elts a)"
      have base: "da_base a = Some (da_blk a, da_elts a)"
        using x by (auto simp: da_extends_def dest: da_wf_base)
      note cs = unat_mult_nowrap[where 'a = 64, simplified, OF nw[simplified]]
      have m: "malloc (dl_allocation_size dl * sz) h = (Some b, h1)"
        using Pair Some by simp
      note wg = dl_grown_wf[OF w m x i refl, of "dl_allocation_size dl * sz"]
      from m have "\<exists>dl' . GROW_DYN_LIST sz dl h = Inr (dl', h2) \<and> dl_wf sz dl' h2 \<and> dl_grown b dl dl'
          \<and> live_blks h2 - pool_blks dl' = live_blks h - pool_blks dl"
        using wg by (simp add: GROW_DYN_LIST_def g da_write_base[OF base i] grow_step_fold cs pos
              SIMPLE_LIST_LENGTH_def)
      with malloc_fresh[OF h m] show ?thesis
        by blast
    qed
  qed
qed

lemma dl_grown_items:
  assumes "dl_grown b dl dl'"
  shows "dl_items dl' = dl_items dl \<union> {b} \<times> {i. i < unat (dl_allocation_size dl)}"
    and "dl_free dl' = dl_free dl \<union> {b} \<times> {i. i < unat (dl_allocation_size dl)}"
    and "dl_free dl \<subseteq> dl_items dl \<Longrightarrow> dl_used dl' = dl_used dl"
  using assms by (auto simp: dl_grown_def dl_items_def dl_free_def dl_used_def)

lemma dl_wf_pop:
  assumes w: "dl_wf sz dl h" and e: "SIMPLE_LIST_EXTRACT_HEAD (dl_list dl) = Inr (p, l)"
  shows "dl_wf sz (dl\<lparr>dl_list := l\<rparr>) h" "p \<in> dl_free dl" "p \<in> dl_items dl"
    "dl_used (dl\<lparr>dl_list := l\<rparr>) = insert p (dl_used dl)"
proof -
  have l: "internal_list (dl_list dl) = p # internal_list l" "sl_wf l"
    using sl_extract_head[OF dl_list_wf(1)[OF w] e] by auto
  then show f: "p \<in> dl_free dl"
    by (simp add: dl_free_def)
  have d: "distinct (p # internal_list l)" "set (p # internal_list l) \<subseteq> dl_items dl"
    using w l(1) by (auto simp: dl_wf_def dl_free_def)
  then show "p \<in> dl_items dl"
    by simp
  have i: "dl_items (dl\<lparr>dl_list := l\<rparr>) = dl_items dl"
    by (simp add: dl_items_def chunk_blks_def chunk_ptrs_def)
  then show "dl_used (dl\<lparr>dl_list := l\<rparr>) = insert p (dl_used dl)"
    using d l(1) by (auto simp: dl_used_def dl_free_def)
  show "dl_wf sz (dl\<lparr>dl_list := l\<rparr>) h"
    using w d l(2) i
    by (simp add: dl_wf_def dl_chunks_wf_def dl_free_def sl_wf_def chunk_blks_def chunk_ptrs_def)
qed

lemma DYN_LIST_GET_cases:
  assumes w: "dl_wf sz dl h" and g: "DYN_LIST_GET sz dl h = Inr (p, dl', h')"
  obtains dl1 l where "dl_wf sz dl1 h'" "SIMPLE_LIST_EXTRACT_HEAD (dl_list dl1) = Inr (p, l)"
    "dl' = dl1\<lparr>dl_list := l\<rparr>" "dl_used dl1 = dl_used dl"
    "(dl1, h') = (dl, h) \<or> (\<exists>b. dl_grown b dl dl1 \<and> b \<notin> live_blks h)"
    "live_blks h' - pool_blks dl1 = live_blks h - pool_blks dl"
proof (cases "SIMPLE_LIST_IS_EMPTY (dl_list dl)")
  case False
  with g w show ?thesis
    by (auto simp: DYN_LIST_GET_def res_simps intro: that)
next
  case True
  then have nil: "internal_list (dl_list dl) = []"
    using sl_empty_iff[OF dl_list_wf(1)[OF w]] by simp
  from g True obtain dl1 l where *: "GROW_DYN_LIST sz dl h = Inr (dl1, h')"
      "SIMPLE_LIST_EXTRACT_HEAD (dl_list dl1) = Inr (p, l)" "dl' = dl1\<lparr>dl_list := l\<rparr>"
    by (auto simp: DYN_LIST_GET_def res_simps)
  then have "dl1 \<noteq> dl"
    using nil by (auto simp: SIMPLE_LIST_EXTRACT_HEAD_def)
  with GROW_DYN_LIST_spec[OF w] * obtain b where b: "dl_wf sz dl1 h'" "dl_grown b dl dl1" "b \<notin> live_blks h"
      "live_blks h' - pool_blks dl1 = live_blks h - pool_blks dl"
    by auto
  have "dl_free dl \<subseteq> dl_items dl"
    using w by (simp add: dl_wf_def)
  with b(2) have "dl_used dl1 = dl_used dl"
    by (rule dl_grown_items(3))
  with b show ?thesis
    by (intro that[OF b(1) *(2,3)]) auto
qed

text \<open>A pool state is the list and the heap it lives in.\<close>

definition dl_get :: "u64 \<Rightarrow> 'e dyn_list_t \<times> heap \<Rightarrow> (ptr \<times> 'e dyn_list_t \<times> heap) res" where
  "dl_get sz s = DYN_LIST_GET sz (fst s) (snd s)"

definition dl_ret :: "ptr \<Rightarrow> 'e dyn_list_t \<times> heap \<Rightarrow> 'e dyn_list_t \<times> heap" where
  "dl_ret p s = (DYN_LIST_RETURN p (fst s), snd s)"

lemma dl_get_spec:
  assumes "dl_wf sz (fst s) (snd s)" "dl_get sz s = Inr (p, s')"
  shows "dl_wf sz (fst s') (snd s') \<and> p \<notin> dl_used (fst s)
         \<and> dl_used (fst s') = insert p (dl_used (fst s))
         \<and> live_blks (snd s') - pool_blks (fst s') = live_blks (snd s) - pool_blks (fst s)"
proof -
  obtain dl' h' where s': "s' = (dl', h')"
    by force
  from assms(2) have "DYN_LIST_GET sz (fst s) (snd s) = Inr (p, dl', h')"
    by (simp add: dl_get_def s')
  then show ?thesis
  proof (rule DYN_LIST_GET_cases[OF assms(1)])
    fix dl1 l
    assume *: "dl_wf sz dl1 h'" "SIMPLE_LIST_EXTRACT_HEAD (dl_list dl1) = Inr (p, l)"
      "dl' = dl1\<lparr>dl_list := l\<rparr>" "dl_used dl1 = dl_used (fst s)"
      "live_blks h' - pool_blks dl1 = live_blks (snd s) - pool_blks (fst s)"
    have "pool_blks dl' = pool_blks dl1"
      by (simp add: *(3) pool_blks_def chunk_blks_def chunk_ptrs_def)
    with dl_wf_pop[OF *(1,2)] * show ?thesis
      by (auto simp: s' dl_used_def)
  qed
qed

lemma dl_ret_spec:
  assumes w: "dl_wf sz dl h" and p: "p \<in> dl_used dl"
  shows "dl_wf sz (DYN_LIST_RETURN p dl) h \<and> dl_used (DYN_LIST_RETURN p dl) = dl_used dl - {p}"
proof -
  have i: "dl_items (DYN_LIST_RETURN p dl) = dl_items dl"
    by (simp add: DYN_LIST_RETURN_def dl_items_def chunk_blks_def chunk_ptrs_def)
  have f: "dl_free (DYN_LIST_RETURN p dl) = insert p (dl_free dl)"
    by (simp add: DYN_LIST_RETURN_def SIMPLE_LIST_PREPEND_def dl_free_def)
  have "p \<notin> set (internal_list (dl_list dl))" "p \<in> dl_items dl"
    using p by (auto simp: dl_used_def dl_free_def)
  with w i f have "dl_wf sz (DYN_LIST_RETURN p dl) h"
    by (simp add: dl_wf_def)
       (simp add: DYN_LIST_RETURN_def SIMPLE_LIST_PREPEND_def dl_chunks_wf_def chunk_blks_def
          chunk_ptrs_def)
  with i f show ?thesis
    by (auto simp: dl_used_def)
qed

lemma dl_get_available:
  assumes "dl_wf sz dl h" "internal_list (dl_list dl) = p # ps"
  shows "DYN_LIST_GET sz dl h
         = Inr (p, dl\<lparr>dl_list := \<lparr>internal_list = ps, sl_length = sl_length (dl_list dl) - 1\<rparr>\<rparr>, h)"
  using assms(2) sl_empty_iff[OF dl_list_wf(1)[OF assms(1)]]
  by (simp add: DYN_LIST_GET_def SIMPLE_LIST_EXTRACT_HEAD_def)

interpretation dlp: pool "\<lambda>s. dl_wf sz (fst s) (snd s)" "\<lambda>s. dl_used (fst s)" "dl_get sz" dl_ret
  for sz
proof unfold_locales
  fix s :: "'e dyn_list_t \<times> heap" and p s'
  assume i: "dl_wf sz (fst s) (snd s)"
  show "p \<notin> dl_used (fst s)" "dl_used (fst s') = insert p (dl_used (fst s))"
    "dl_wf sz (fst s') (snd s')" if "dl_get sz s = Inr (p, s')"
    using dl_get_spec[OF i that] by auto
  assume p: "p \<in> dl_used (fst s)"
  show "dl_used (fst (dl_ret p s)) = dl_used (fst s) - {p}"
    and w: "dl_wf sz (fst (dl_ret p s)) (snd (dl_ret p s))"
    using dl_ret_spec[OF i p] by (simp_all add: dl_ret_def)
  have "internal_list (dl_list (DYN_LIST_RETURN p (fst s))) = p # internal_list (dl_list (fst s))"
    by (simp add: DYN_LIST_RETURN_def SIMPLE_LIST_PREPEND_def)
  with w show "\<exists>s'. dl_get sz (dl_ret p s) = Inr (p, s')"
    by (auto simp: dl_get_def dl_ret_def dl_get_available)
qed

section \<open>Allocation and release of a pool\<close>

lemma DYN_ARRAY_ALLOC_spec:
  assumes h: "wf_heap h" and n: "n \<noteq> 0" "0 < sz" "unat n * unat sz < 2 ^ 64"
    and a: "DYN_ARRAY_ALLOC sz zero n h = Inr (a, h')"
  shows "wf_heap h' \<and> da_wf sz a h' \<and> da_elts a = replicate (unat n) zero
         \<and> da_allocation_size a = n \<and> da_element_init_fn a = None \<and> da_blk a \<notin> live_blks h
         \<and> set (h_live h') = insert (da_blk a, unat n * unat sz) (set (h_live h))"
proof (cases "malloc (n * sz) h")
  case (Pair r h1)
  with a n obtain b where b: "r = Some b" "h' = h1"
      "a = \<lparr>da_base = Some (b, replicate (unat n) zero), da_capacity = n,
             da_allocation_size = n, da_type_size = sz, da_element_init_fn = None\<rparr>"
    by (cases r) (auto simp: DYN_ARRAY_ALLOC_def elts_in_mult)
  with Pair have m: "malloc (n * sz) h = (Some b, h')"
    by simp
  from malloc_Some(3)[OF m] malloc_wf[OF h m] malloc_fresh[OF h m] b(3) n show ?thesis
    by (auto simp: da_wf_def da_elts_def da_blk_def unat_mult_nowrap word_gt_0)
qed

lemma dyn_list_alloc_spec:
  assumes h: "wf_heap h" and n: "0 < n" "16 \<le> unat sz" "unat n * unat sz < 2 ^ 64"
    and r: "dyn_list_alloc_with sz mem n cb h = Inr (Some dl, h')"
  shows "dl_wf sz dl h' \<and> dl_used dl = {} \<and> dl_allocation_size dl = n
         \<and> live_blks h' - pool_blks dl = live_blks h \<and> dl_element_init_cb dl = cb
         \<and> (\<forall>fn. cb = Some fn \<longrightarrow> dl_elts dl ` dl_free dl \<subseteq> range fn)"
proof -
  from r obtain lb h1 a h2 where m: "malloc sizeof_dyn_list_t h = (Some lb, h1)"
    and a: "DYN_ARRAY_ALLOC sizeof_mem_chunk_t zero_mem_chunk DEFAULT_MEM_CHUNKS h1 = Inr (a, h2)"
    and g: "GROW_DYN_LIST sz \<lparr>dl_blk = lb, dl_capacity = 0, dl_allocation_size = n,
              dl_list = SIMPLE_LIST_INIT, dl_element_init_cb = cb, dl_num_mem_chunks = 0,
              dl_mem_chunks = a, dl_elts = mem\<rparr> h2 = Inr (dl, h')"
    by (auto simp: dyn_list_alloc_with_def res_simps split: prod.splits option.splits)
  let ?dl = "\<lparr>dl_blk = lb, dl_capacity = 0, dl_allocation_size = n, dl_list = SIMPLE_LIST_INIT,
              dl_element_init_cb = cb, dl_num_mem_chunks = 0, dl_mem_chunks = a, dl_elts = mem\<rparr>"
  have c: "DEFAULT_MEM_CHUNKS \<noteq> 0" "0 < sizeof_mem_chunk_t"
      "unat DEFAULT_MEM_CHUNKS * unat sizeof_mem_chunk_t < 2 ^ 64"
    by (simp_all add: DEFAULT_MEM_CHUNKS_def sizeof_mem_chunk_t_def)
  note A = DYN_ARRAY_ALLOC_spec[OF malloc_wf[OF h m] c a]
  have "lb \<noteq> da_blk a"
    using A malloc_live(1)[OF m] by auto
  then have w: "dl_wf sz ?dl h2"
    using A n malloc_Some(3)[OF m]
    by (simp add: dl_wf_def dl_chunks_wf_def chunk_ptrs_def chunk_blks_def dl_free_def
        SIMPLE_LIST_INIT_def)
  have u: "dl_used ?dl = {}"
    by (simp add: dl_used_def dl_items_def chunk_blks_def chunk_ptrs_def)
  have "live_blks h2 = insert (da_blk a) (insert lb (live_blks h))"
    using A malloc_live(1)[OF m] by (auto simp: live_blks_def)
  moreover have "pool_blks ?dl = {lb, da_blk a}"
    by (simp add: pool_blks_def chunk_blks_def chunk_ptrs_def)
  moreover have "lb \<notin> live_blks h" "da_blk a \<notin> live_blks h"
    using malloc_fresh[OF h m] malloc_live(1)[OF m] A by auto
  ultimately have fr: "live_blks h2 - pool_blks ?dl = live_blks h"
    by auto
  from GROW_DYN_LIST_spec[OF w] g show ?thesis
  proof (elim disjE exE conjE)
    fix dl1 h1 b assume G: "GROW_DYN_LIST sz ?dl h2 = Inr (dl1, h1)" "dl_wf sz dl1 h1"
      "dl_grown b ?dl dl1" "live_blks h1 - pool_blks dl1 = live_blks h2 - pool_blks ?dl"
    have "dl_used dl1 = dl_used ?dl"
      using w by (intro dl_grown_items(3)[OF G(3)]) (simp add: dl_wf_def)
    moreover have "\<forall>fn. cb = Some fn \<longrightarrow> dl_elts dl1 ` dl_free dl1 \<subseteq> range fn"
      using G(3) by (auto simp: dl_grown_def dl_free_def init_chunk_def SIMPLE_LIST_INIT_def)
    ultimately show ?thesis
      using G g u fr by (simp add: dl_grown_def)
  qed (use u w fr in \<open>auto simp: dl_free_def SIMPLE_LIST_INIT_def\<close>)
qed

lemma free_chunk_step:
  assumes h: "wf_heap h" and a: "da_wf sizeof_mem_chunk_t a h"
    and i: "i < length (da_elts a)" "mc_ptr (da_elts a ! i) = Some b"
    and b: "b \<in> live_blks h"
  shows "\<exists>h'. free_chunk i (a, h)
           = Inr (a\<lparr>da_base := Some (da_blk a,
                     (da_elts a)[i := (da_elts a ! i)\<lparr>mc_ptr := None\<rparr>])\<rparr>, h')
         \<and> wf_heap h' \<and> set (h_live h') = {e \<in> set (h_live h). fst e \<noteq> b}"
proof -
  have len: "length (da_elts a) = unat (da_capacity a)"
    using a by (simp add: da_wf_def)
  then have u: "unat (of_nat i :: u64) = i"
    using i(1) unat_bound[of "da_capacity a"] by (intro unat_of_nat_nowrap) simp
  then have "\<not> da_capacity a \<le> of_nat i"
    using i(1) len by (simp add: word_le_nat_alt)
  then have g: "DYN_ARRAY_GET_ELT sizeof_mem_chunk_t zero_mem_chunk (of_nat i) a h = Inr (i, a, h)"
    using a i(1) u by (simp add: DYN_ARRAY_GET_ELT_def da_wf_base[OF a])
  from free_blk_keeps[OF h b] g i show ?thesis
    by (auto simp: free_chunk_def da_read_def da_wf_base[OF a] da_write_base[OF da_wf_base[OF a]])
qed

text \<open>After \<open>k\<close> iterations of the release loop the first \<open>k\<close> chunks are gone and their entries cleared.\<close>

lemma free_chunks_fold:
  assumes w: "dl_wf sz dl h" and k: "k \<le> unat (dl_num_mem_chunks dl)"
  shows "\<exists>h'. foldE free_chunk [0..<k] (dl_mem_chunks dl, h)
           = Inr ((dl_mem_chunks dl)\<lparr>da_base := Some (da_blk (dl_mem_chunks dl),
                    map (\<lambda>c. c\<lparr>mc_ptr := None\<rparr>) (take k (da_elts (dl_mem_chunks dl)))
                    @ drop k (da_elts (dl_mem_chunks dl)))\<rparr>, h')
         \<and> wf_heap h'
         \<and> set (h_live h') = {e \<in> set (h_live h). fst e \<notin> set (take k (chunk_blks dl))}"
  using k
proof (induction k)
  case 0
  have "da_wf sizeof_mem_chunk_t (dl_mem_chunks dl) h" "wf_heap h"
    using w by (simp_all add: dl_wf_def dl_chunks_wf_def)
  then show ?case
    using da_wf_base by force
next
  case (Suc k)
  let ?a = "dl_mem_chunks dl" and ?n = "unat (dl_num_mem_chunks dl)"
  let ?clr = "\<lambda>k. map (\<lambda>c. c\<lparr>mc_ptr := None\<rparr>) (take k (da_elts ?a)) @ drop k (da_elts ?a)"
  let ?ak = "?a\<lparr>da_base := Some (da_blk ?a, ?clr k)\<rparr>"
  have c: "dl_chunks_wf sz dl h"
    using w by (simp add: dl_wf_def)
  have kn: "k < ?n" "k < length (da_elts ?a)" "k < length (chunk_blks dl)"
    using Suc.prems c dl_chunks_len[OF c] by (simp_all add: dl_chunks_wf_def)
  have d: "distinct (chunk_blks dl)" "da_blk ?a \<notin> set (chunk_blks dl)"
    and lv: "\<forall>b \<in> set (chunk_blks dl). (b, unat (dl_allocation_size dl) * unat sz) \<in> set (h_live h)"
    using c by (simp_all add: dl_chunks_wf_def)
  let ?b = "chunk_blks dl ! k"
  have "chunk_ptrs dl ! k \<in> set (chunk_ptrs dl)"
    using kn by (intro nth_mem) (simp add: chunk_blks_def)
  with c have "chunk_ptrs dl ! k \<noteq> None"
    unfolding dl_chunks_wf_def by metis
  then have "Some ?b = chunk_ptrs dl ! k"
    using kn by (simp add: chunk_blks_def)
  then have ptr: "mc_ptr (da_elts ?a ! k) = Some ?b"
    using kn by (simp add: chunk_ptrs_def)
  from Suc obtain h1 where h1: "foldE free_chunk [0..<k] (?a, h) = Inr (?ak, h1)" "wf_heap h1"
      "set (h_live h1) = {e \<in> set (h_live h). fst e \<notin> set (take k (chunk_blks dl))}"
    by auto
  have tk: "?b \<notin> set (take k (chunk_blks dl))" "da_blk ?a \<notin> set (take k (chunk_blks dl))"
    using d kn(3) by (auto simp: in_set_conv_nth distinct_conv_nth dest: in_set_takeD)
  have "da_wf sizeof_mem_chunk_t ?ak h1"
    using c h1(3) tk(2) by (auto simp: dl_chunks_wf_def da_wf_def da_elts_def da_blk_def)
  moreover have "?b \<in> live_blks h1"
    using lv kn(3) tk(1) h1(3) by (force simp: live_blks_def)
  ultimately obtain h2 where h2: "free_chunk k (?ak, h1)
      = Inr (?ak\<lparr>da_base := Some (da_blk ?ak, (da_elts ?ak)[k := (da_elts ?ak ! k)\<lparr>mc_ptr := None\<rparr>])\<rparr>, h2)"
      "wf_heap h2" "set (h_live h2) = {e \<in> set (h_live h1). fst e \<noteq> ?b}"
    using free_chunk_step[OF h1(2), of ?ak k ?b] kn ptr by (auto simp: da_elts_def nth_append)
  have "(?clr k)[k := (?clr k ! k)\<lparr>mc_ptr := None\<rparr>] = ?clr (Suc k)"
    using kn(2) by (simp add: list_update_append nth_append take_Suc_conv_app_nth
        Cons_nth_drop_Suc[symmetric])
  then have "foldE free_chunk [0..<Suc k] (?a, h)
      = Inr (?a\<lparr>da_base := Some (da_blk ?a, ?clr (Suc k))\<rparr>, h2)"
    using h1(1) h2(1) by (simp add: foldE_append da_elts_def da_blk_def)
  then show ?case
    using h2(2,3) h1(3) kn(3) by (auto simp: take_Suc_conv_app_nth)
qed

lemma DYN_LIST_FREE_spec:
  assumes w: "dl_wf sz dl h"
  shows "\<exists>h'. DYN_LIST_FREE dl h = Inr h' \<and> wf_heap h'
         \<and> live_blks h'
           = live_blks h - pool_blks dl"
proof -
  let ?a = "dl_mem_chunks dl" and ?n = "unat (dl_num_mem_chunks dl)"
  let ?clr = "map (\<lambda>c. c\<lparr>mc_ptr := None\<rparr>) (take ?n (da_elts ?a)) @ drop ?n (da_elts ?a)"
  have c: "dl_chunks_wf sz dl h"
    using w by (simp add: dl_wf_def)
  obtain l' where l': "drain_list (dl_list dl) = Inr l'"
    using drain_list_empties[OF dl_list_wf(1)[OF w]] by auto
  obtain h1 where h1: "foldE free_chunk [0..<?n] (?a, h)
        = Inr (?a\<lparr>da_base := Some (da_blk ?a, ?clr)\<rparr>, h1)" "wf_heap h1"
      "set (h_live h1) = {e \<in> set (h_live h). fst e \<notin> set (chunk_blks dl)}"
    using free_chunks_fold[OF w order.refl] dl_chunks_len[OF c] by auto
  have lb: "dl_blk dl \<in> live_blks h1" "da_blk ?a \<in> live_blks h1" "dl_blk dl \<noteq> da_blk ?a"
    using c h1(3) by (force simp: dl_chunks_wf_def live_blks_def da_wf_def)+
  obtain h2 where h2: "free_blk (da_blk ?a) h1 = Inr h2" "wf_heap h2"
      "live_blks h2 = live_blks h1 - {da_blk ?a}"
    using free_blk_keeps[OF h1(2) lb(2)] by auto
  obtain h3 where h3: "free_blk (dl_blk dl) h2 = Inr h3" "wf_heap h3"
      "live_blks h3 = live_blks h2 - {dl_blk dl}"
    using free_blk_keeps[OF h2(2), of "dl_blk dl"] lb h2(3) by auto
  have "0 < da_capacity ?a"
    using c by (simp add: dl_chunks_wf_def da_wf_def)
  then have "DYN_LIST_FREE dl h = Inr h3"
    using h1(1) h2(1) h3(1) l' by (simp add: DYN_LIST_FREE_def DYN_ARRAY_FREE_def)
  moreover have "live_blks h1 = live_blks h - set (chunk_blks dl)"
    using h1(3) by (force simp: live_blks_def)
  ultimately show ?thesis
    using h2 h3 by (auto simp: pool_blks_def)
qed

section \<open>Histories of a pool\<close>

text \<open>The calls clients make on a pool: gets that succeed, and returns of elements in use.\<close>

inductive dl_history :: "u64 \<Rightarrow> 'e dyn_list_t \<times> heap \<Rightarrow> 'e dyn_list_t \<times> heap \<Rightarrow> bool" for sz where
  hist_start: "dl_history sz s s"
| hist_get: "dl_history sz s (dl, h) \<Longrightarrow> DYN_LIST_GET sz dl h = Inr (p, dl', h') \<Longrightarrow>
    dl_history sz s (dl', h')"
| hist_return: "dl_history sz s (dl, h) \<Longrightarrow> p \<in> dl_used dl \<Longrightarrow>
    dl_history sz s (DYN_LIST_RETURN p dl, h)"

lemma dl_history_reach: "dl_history sz s t \<Longrightarrow> dlp.reach sz s t"
proof (induction rule: dl_history.induct)
  case (hist_start s)
  show ?case by (rule dlp.reach_refl)
next
  case (hist_get s dl h p dl' h')
  then show ?case
    by (intro dlp.reach_get[OF hist_get.IH]) (simp add: dl_get_def)
next
  case (hist_return s dl h p)
  then show ?case
    using dlp.reach_ret[OF hist_return.IH, of p] by (simp add: dl_ret_def[of p "(dl, h)"])
qed

lemma dl_history_frame:
  "dl_history sz s t \<Longrightarrow> dl_wf sz (fst s) (snd s) \<Longrightarrow>
     live_blks (snd t) - pool_blks (fst t) = live_blks (snd s) - pool_blks (fst s)"
proof (induction rule: dl_history.induct)
  case (hist_get s dl h p dl' h')
  then have "dl_wf sz dl h"
    using dlp.reach_inv[OF dl_history_reach, of sz s "(dl, h)"] by simp
  with hist_get dl_get_spec[of sz "(dl, h)" p "(dl', h')"] show ?case
    by (simp add: dl_get_def)
next
  case (hist_return s dl h p)
  then show ?case
    by (simp add: DYN_LIST_RETURN_def pool_blks_def chunk_blks_def chunk_ptrs_def)
qed simp

lemma DYN_LIST_ALLOC_spec:
  assumes "wf_heap h" "0 < n" "16 \<le> unat sz" "unat n * unat sz < 2 ^ 64"
    and "DYN_LIST_ALLOC sz mem n h = Inr (Some dl, h')"
  shows "dl_wf sz dl h'" "dl_used dl = {}" "live_blks h' - pool_blks dl = live_blks h"
  using dyn_list_alloc_spec[OF assms(1-4), of mem None dl h'] assms(5)
  by (simp_all add: DYN_LIST_ALLOC_def)

text \<open>C3: From the allocation of a pool on, whatever gets and returns follow, \<open>DYN_LIST_GET\<close> never
  hands out an element that is in use, and what it hands out belongs to the pool and is in use
  afterwards.\<close>

theorem pool_no_double_handout:
  assumes "wf_heap h" "0 < n" "16 \<le> unat sz" "unat n * unat sz < 2 ^ 64"
    and "DYN_LIST_ALLOC sz mem n h = Inr (Some dl0, h0)"
    and "dl_history sz (dl0, h0) (dl1, h1)"
    and "DYN_LIST_GET sz dl1 h1 = Inr (p, dl2, h2)"
  shows "p \<notin> dl_used dl1 \<and> p \<in> dl_items dl2 \<and> dl_used dl2 = insert p (dl_used dl1)"
proof -
  have w: "dl_wf sz (fst (dl0, h0)) (snd (dl0, h0))"
    using DYN_LIST_ALLOC_spec(1)[OF assms(1-5)] by simp
  note r = dl_history_reach[OF assms(6)]
  have g: "dl_get sz (dl1, h1) = Inr (p, dl2, h2)"
    using assms(7) by (simp add: dl_get_def)
  have u: "dl_used dl2 = insert p (dl_used dl1)"
    using dlp.get_used[OF dlp.reach_inv[OF r w] g] by simp
  with dlp.reach_no_double[OF r w g] show ?thesis
    by (auto simp: dl_used_def)
qed

definition demo_heap :: heap where
  "demo_heap = \<lparr>h_next = 0, h_live = [], h_oom = (\<lambda>_. False)\<rparr>"

text \<open>A pool of two 16-byte elements on the empty heap: block 0 is the structure, block 1 the array of
  chunks, block 2 the first chunk.\<close>

definition demo_pool :: "unit dyn_list_t" where
  "demo_pool = \<lparr>dl_blk = 0, dl_capacity = 2, dl_allocation_size = 2,
     dl_list = \<lparr>internal_list = [(2, 1), (2, 0)], sl_length = 2\<rparr>, dl_element_init_cb = None,
     dl_num_mem_chunks = 1,
     dl_mem_chunks = \<lparr>da_base = Some (1, \<lparr>mc_size = 32, mc_ptr = Some 2\<rparr>
                                           # replicate 1023 zero_mem_chunk),
        da_capacity = 1024, da_allocation_size = 1024, da_type_size = 16, da_element_init_fn = None\<rparr>,
     dl_elts = (\<lambda>_. ())\<rparr>"

definition demo_heap1 :: heap where
  "demo_heap1 = \<lparr>h_next = 3, h_live = [(2, 32), (1, 16384), (0, 96)], h_oom = (\<lambda>_. False)\<rparr>"

lemma demo_wf: "wf_heap demo_heap"
  by (simp add: wf_heap_def demo_heap_def heap_bytes_def)

lemma replicate_1024: "replicate 1024 x = x # replicate 1023 x"
  using replicate_Suc[of 1023 x] by (simp del: replicate_Suc)

lemma demo_alloc: "DYN_LIST_ALLOC 16 (\<lambda>_. ()) 2 demo_heap = Inr (Some demo_pool, demo_heap1)"
proof -
  have m: "malloc 96 demo_heap = (Some 0, \<lparr>h_next = 1, h_live = [(0, 96)], h_oom = (\<lambda>_. False)\<rparr>)"
    "malloc (1024 * 16) \<lparr>h_next = 1, h_live = [(0, 96)], h_oom = (\<lambda>_. False)\<rparr>
     = (Some 1, \<lparr>h_next = 2, h_live = [(1, 16384), (0, 96)], h_oom = (\<lambda>_. False)\<rparr>)"
    "malloc (2 * 16) \<lparr>h_next = 2, h_live = [(1, 16384), (0, 96)], h_oom = (\<lambda>_. False)\<rparr>
     = (Some 2, demo_heap1)"
    by (simp_all add: malloc_def malloc_ok_def heap_bytes_def demo_heap_def demo_heap1_def)
  show ?thesis
    by (simp add: DYN_LIST_ALLOC_def dyn_list_alloc_with_def DYN_ARRAY_ALLOC_def m[simplified]
        GROW_DYN_LIST_def DYN_ARRAY_GET_ELT_def da_write_def sizeof_dyn_list_t_def
        sizeof_mem_chunk_t_def DEFAULT_MEM_CHUNKS_def elts_in_def SIMPLE_LIST_INIT_def
        SIMPLE_LIST_LENGTH_def grow_step_def SIMPLE_LIST_PREPEND_def demo_pool_def
        upt_rec[of 0] upt_rec[of "Suc 0"] replicate_1024)
qed

theorem pool_no_double_handout_witness:
  "\<exists>dl2. DYN_LIST_GET 16 demo_pool demo_heap1 = Inr ((2, 1), dl2, demo_heap1)
     \<and> (2, 1) \<notin> dl_used demo_pool \<and> dl_used dl2 = insert (2, 1) (dl_used demo_pool)"
proof -
  let ?dl2 = "demo_pool\<lparr>dl_list := \<lparr>internal_list = [(2, 0)], sl_length = 1\<rparr>\<rparr>"
  have g: "DYN_LIST_GET 16 demo_pool demo_heap1 = Inr ((2, 1), ?dl2, demo_heap1)"
    by (simp add: DYN_LIST_GET_def SIMPLE_LIST_IS_EMPTY_def SIMPLE_LIST_EXTRACT_HEAD_def demo_pool_def)
  then show ?thesis
    using pool_no_double_handout[OF demo_wf _ _ _ demo_alloc hist_start g] by simp
qed

text \<open>C18: Freeing a pool after any history of gets and returns succeeds (no block is freed twice) and
  leaves on the heap exactly the blocks that were live before the pool was allocated.\<close>

theorem pool_alloc_free_roundtrip:
  assumes "wf_heap h" "0 < n" "16 \<le> unat sz" "unat n * unat sz < 2 ^ 64"
    and "DYN_LIST_ALLOC sz mem n h = Inr (Some dl0, h0)"
    and "dl_history sz (dl0, h0) (dl1, h1)"
  shows "\<exists>h2. DYN_LIST_FREE dl1 h1 = Inr h2 \<and> live_blks h2 = live_blks h"
proof -
  have w: "dl_wf sz (fst (dl0, h0)) (snd (dl0, h0))"
    using DYN_LIST_ALLOC_spec(1)[OF assms(1-5)] by simp
  have "dl_wf sz dl1 h1"
    using dlp.reach_inv[OF dl_history_reach[OF assms(6)] w] by simp
  then obtain h2 where "DYN_LIST_FREE dl1 h1 = Inr h2" "live_blks h2 = live_blks h1 - pool_blks dl1"
    using DYN_LIST_FREE_spec by blast
  with dl_history_frame[OF assms(6) w] DYN_LIST_ALLOC_spec(3)[OF assms(1-5)] show ?thesis
    by simp
qed

theorem pool_alloc_free_roundtrip_witness:
  "\<exists>h2. DYN_LIST_FREE demo_pool demo_heap1 = Inr h2 \<and> live_blks h2 = {}"
  using pool_alloc_free_roundtrip[OF demo_wf _ _ _ demo_alloc hist_start]
  by (simp add: live_blks_def demo_heap_def)

section \<open>Element access of a dynamic array\<close>

text \<open>C19: Writing an element of a dynamic array (one without an initialisation function, and where the size in bytes does not exceed 64
  bits) at any index ends.  It fails exactly when the array has to grow and there is no memory for the least number of whole allocations
  that covers the index.  Otherwise the array has that capacity, the element reads back, every
  element that was there keeps its value, and the ones in between are zeroed.\<close>

theorem dyn_array_set_spec:
  assumes "wf_heap h" "da_wf sz a h" "da_element_init_fn a = None"
    and "(unat idx + unat (da_allocation_size a)) * unat sz < 2 ^ 64"
    and "n = grown_capacity (unat (da_capacity a)) (unat (da_allocation_size a)) (unat idx)"
  shows "if da_capacity a \<le> idx \<and> \<not> malloc_ok (of_nat n * sz) h then DYN_ARRAY_SET_ELT sz zero idx v a h = Inl Assert_failed
         else \<exists>a' h'. DYN_ARRAY_SET_ELT sz zero idx v a h = Inr (a', h')
              \<and> da_wf sz a' h' \<and> idx < da_capacity a' \<and> unat (da_capacity a') = n
              \<and> da_read (unat idx) a' = Inr v
              \<and> (\<forall>i < unat (da_capacity a'). i \<noteq> unat idx \<longrightarrow>
                   da_read i a' = Inr (if i < unat (da_capacity a) then da_elts a ! i else zero))"
proof (cases "da_capacity a \<le> idx \<and> \<not> malloc_ok (of_nat n * sz) h")
  case True
  then have "DYN_ARRAY_GROW sz zero idx a h = Inl Assert_failed"
    using DYN_ARRAY_GROW_spec[OF assms(1-3) _ assms(4), of zero] assms(5) by auto
  with True show ?thesis
    by (simp add: DYN_ARRAY_SET_ELT_def)
next
  case False
  obtain a1 h1 where s: "(if da_capacity a \<le> idx then DYN_ARRAY_GROW sz zero idx a h else Inr (a, h)) = Inr (a1, h1)"
    and x: "da_extends sz zero a h a1 h1" and i: "unat idx < length (da_elts a1)" and n: "unat (da_capacity a1) = n"
  proof (cases "da_capacity a \<le> idx")
    case True
    with False DYN_ARRAY_GROW_spec[OF assms(1-3) _ assms(4), of zero] show thesis
      using assms(5) by (auto intro: that)
  next
    case False
    then have "unat idx < unat (da_capacity a)"
      by (simp add: word_le_nat_alt)
    moreover have "length (da_elts a) = unat (da_capacity a)"
      using assms(2) by (simp add: da_wf_def)
    ultimately show thesis
      using False assms(5) da_extends_refl[OF assms(1,2)] by (intro that[of a h]) (simp_all add: grown_capacity_def)
  qed
  let ?a = "a1\<lparr>da_base := Some (da_blk a1, (da_elts a1)[unat idx := v])\<rparr>"
  have w1: "da_wf sz a1 h1"
    using x by (simp add: da_extends_def)
  then have len: "length (da_elts a1) = unat (da_capacity a1)"
    by (simp add: da_wf_def)
  have w: "da_wf sz ?a h1"
    using w1 by (simp add: da_wf_def da_elts_def da_blk_def)
  have st: "DYN_ARRAY_SET_ELT sz zero idx v a h = Inr (?a, h1)"
    using s i by (simp add: DYN_ARRAY_SET_ELT_def da_write_base[OF da_wf_base[OF w1]])
  obtain k where k: "da_elts a1 = da_elts a @ replicate k zero"
    using x by (auto simp: da_extends_def)
  have "length (da_elts a) = unat (da_capacity a)"
    using assms(2) by (simp add: da_wf_def)
  then have rd: "da_read j ?a = Inr (if j < unat (da_capacity a) then da_elts a ! j else zero)"
    if "j < unat (da_capacity a1)" "j \<noteq> unat idx" for j
    using that len k by (simp add: da_read_def nth_append)
  show ?thesis
    using False st w i len rd n by (auto simp: da_read_def word_less_nat_alt)
qed

definition demo_array :: "nat dyn_array_t" where
  "demo_array = \<lparr>da_base = Some (0, [7, 8]), da_capacity = 2, da_allocation_size = 2,
     da_type_size = 8, da_element_init_fn = None\<rparr>"

definition demo_array_heap :: heap where
  "demo_array_heap = \<lparr>h_next = 1, h_live = [(0, 16)], h_oom = (\<lambda>_. False)\<rparr>"

lemma demo_array_wf: "wf_heap demo_array_heap" "da_wf 8 demo_array demo_array_heap"
  by (simp_all add: wf_heap_def demo_array_heap_def heap_bytes_def da_wf_def demo_array_def
      da_elts_def da_blk_def)

lemma demo_grow: "grow_num_elts 8 2 5 2 = Some 6"
  by (simp add: grow_num_elts.simps[of 8 2 5])

theorem dyn_array_set_spec_witness:
  "\<exists>a' h'. DYN_ARRAY_SET_ELT 8 0 5 9 demo_array demo_array_heap = Inr (a', h')
     \<and> da_read 5 a' = Inr 9 \<and> da_read 0 a' = Inr 7 \<and> da_read 3 a' = Inr 0"
proof -
  have n: "(6::nat) = grown_capacity (unat (da_capacity demo_array)) (unat (da_allocation_size demo_array)) (unat (5 :: u64))"
    by (simp add: grown_capacity_def demo_array_def)
  have m: "malloc_ok (of_nat 6 * 8) demo_array_heap"
    by (simp add: malloc_ok_def heap_bytes_def demo_array_heap_def)
  from dyn_array_set_spec[OF demo_array_wf _ _ n, of 0 9] m obtain a' h' where
    "DYN_ARRAY_SET_ELT 8 0 5 9 demo_array demo_array_heap = Inr (a', h')" "5 < da_capacity a'"
    "da_read 5 a' = Inr 9"
    "\<forall>i < unat (da_capacity a'). i \<noteq> 5 \<longrightarrow> da_read i a' = Inr (if i < 2 then [7, 8] ! i else 0)"
    by (auto simp: demo_array_def da_elts_def)
  then show ?thesis
    by (intro exI[of _ a'] exI[of _ h']) (auto simp: word_less_nat_alt)
qed

lemma apply_init_fold_oob:
  "\<exists>x \<in> set xs. length ys \<le> g x \<Longrightarrow> foldE (\<lambda>x. apply_init fn (g x)) xs ys = Inl Out_of_bounds"
proof (induction xs arbitrary: ys)
  case (Cons x xs)
  show ?case
  proof (cases "length ys \<le> g x")
    case False
    with Cons.prems have "\<exists>x \<in> set xs. length (ys[g x := fn (ys ! g x)]) \<le> g x"
      by simp
    with False Cons.IH[of "ys[g x := fn (ys ! g x)]"] Cons.prems show ?thesis
      by (simp add: apply_init_def)
  qed (simp add: apply_init_def nthE_def)
qed simp

text \<open>Growing a dynamic array that has an element initialisation function never succeeds: the
  loop indexes the new elements from the start of the new memory by the old capacity again, and
  leaves the array.\<close>

lemma dyn_array_grow_init_fn_out_of_bounds:
  assumes "wf_heap h" "da_wf sz a h" "da_element_init_fn a = Some fn" "da_capacity a \<le> idx"
    and "(unat idx + unat (da_allocation_size a)) * unat sz < 2 ^ 64"
  shows "DYN_ARRAY_GROW sz zero idx a h \<in> {Inl Assert_failed, Inl Out_of_bounds}"
proof -
  let ?al = "da_allocation_size a" and ?c = "unat (da_capacity a)"
  have pos: "0 < ?al" "0 < sz" "length (da_elts a) = ?c" "0 < ?c"
    using assms(2) by (simp_all add: da_wf_def word_less_nat_alt)
  have capn: "?c \<le> unat idx"
    using assms(4) by (simp add: word_le_nat_alt)
  obtain m where m: "grow_num_elts sz ?al idx (da_capacity a) = Some m"
      "unat idx < unat m" "unat m \<le> unat idx + unat ?al"
    using grow_num_elts_spec[OF pos(1,2) assms(5), of "da_capacity a"] capn by auto
  have "unat m * unat sz < 2 ^ 64"
    using assms(5) m(3) by (metis le_less_trans mult_le_mono1)
  note E = elts_in_mult[OF pos(2) this]
  have "da_capacity a \<le> m"
    using m(2) capn by (simp add: word_le_nat_alt)
  then have sub: "unat (m - da_capacity a) = unat m - ?c"
    by (simp add: unat_sub)
  let ?ys = "da_elts a @ replicate (unat m - ?c) zero"
  have oob: "foldE (\<lambda>x. apply_init fn (?c + (?c + x))) [0..<unat m - ?c] ?ys = Inl Out_of_bounds"
    using m(2) capn pos by (intro apply_init_fold_oob bexI[of _ "unat m - ?c - 1"]) auto
  from realloc_spec[OF assms(1) da_wf_live[OF assms(2)], of "m * sz"] show ?thesis
    using m capn pos oob
    by (auto simp: DYN_ARRAY_GROW_def da_wf_base[OF assms(2)] assms(3) E sub Let_def)
qed

lemma dyn_array_grow_init_fn_out_of_bounds_witness:
  "DYN_ARRAY_GROW 8 0 5 (demo_array\<lparr>da_element_init_fn := Some Suc\<rparr>) demo_array_heap
   = Inl Out_of_bounds"
proof -
  let ?a = "demo_array\<lparr>da_element_init_fn := Some Suc\<rparr>"
  have "DYN_ARRAY_GROW 8 0 5 ?a demo_array_heap \<in> {Inl Assert_failed, Inl Out_of_bounds}"
    using demo_array_wf
    by (intro dyn_array_grow_init_fn_out_of_bounds)
       (simp_all add: da_wf_def da_elts_def da_blk_def demo_array_def)
  moreover have "DYN_ARRAY_GROW 8 0 5 ?a demo_array_heap \<noteq> Inl Assert_failed"
    by (simp add: DYN_ARRAY_GROW_def demo_array_def demo_grow realloc_def malloc_def malloc_ok_def
        heap_bytes_def demo_array_heap_def free_blk_def elts_in_def upt_rec apply_init_def nthE_def)
  ultimately show ?thesis
    by simp
qed

end
