(* ===== verification/Group_Bitset.thy ===== *)
theory Group_Bitset
imports Mimosa_Prelude
begin

text \<open>
  The bitsets of \<open>src/include/dpu_offload_types.h\<close> (\<open>GROUP_CACHE_BITSET_*\<close>), which record the ranks,
  the service processes (SPs) and the hosts of a group and the ranks that revoked it.  A bitset is a
  pointer to an array of chars, \<open>None\<close> when it is not created.  Bitsets refine finite sets of numbers;
  the locale \<open>bitset\<close> is the interface the group cache relies on.
\<close>

type_synonym group_cache_bitset_t = "u8 list option"

definition CHAR_BIT :: nat where
  "CHAR_BIT = 8"

definition GROUP_CACHE_BITSET_MASK :: "nat \<Rightarrow> u8" where
  "GROUP_CACHE_BITSET_MASK i = push_bit (i mod CHAR_BIT) 1"

definition GROUP_CACHE_BITSET_SLOT :: "nat \<Rightarrow> nat" where
  "GROUP_CACHE_BITSET_SLOT i = i div CHAR_BIT"

definition GROUP_CACHE_BITSET_SET ::
    "group_cache_bitset_t \<Rightarrow> nat \<Rightarrow> group_cache_bitset_t res" where
  "GROUP_CACHE_BITSET_SET bs i =
     bindE (derefE bs) (\<lambda>xs.
     bindE (nthE xs (GROUP_CACHE_BITSET_SLOT i)) (\<lambda>w.
     bindE (updE xs (GROUP_CACHE_BITSET_SLOT i) (w OR GROUP_CACHE_BITSET_MASK i)) (\<lambda>ys.
     Inr (Some ys))))"

definition GROUP_CACHE_BITSET_CLEAR ::
    "group_cache_bitset_t \<Rightarrow> nat \<Rightarrow> group_cache_bitset_t res" where
  "GROUP_CACHE_BITSET_CLEAR bs i =
     bindE (derefE bs) (\<lambda>xs.
     bindE (nthE xs (GROUP_CACHE_BITSET_SLOT i)) (\<lambda>w.
     bindE (updE xs (GROUP_CACHE_BITSET_SLOT i) (w AND NOT (GROUP_CACHE_BITSET_MASK i))) (\<lambda>ys.
     Inr (Some ys))))"

definition GROUP_CACHE_BITSET_TEST :: "group_cache_bitset_t \<Rightarrow> nat \<Rightarrow> bool res" where
  "GROUP_CACHE_BITSET_TEST bs i =
     bindE (derefE bs) (\<lambda>xs.
     bindE (nthE xs (GROUP_CACHE_BITSET_SLOT i)) (\<lambda>w.
     Inr (w AND GROUP_CACHE_BITSET_MASK i \<noteq> 0)))"

definition GROUP_CACHE_BITSET_NSLOTS :: "nat \<Rightarrow> nat" where
  "GROUP_CACHE_BITSET_NSLOTS n = (n + CHAR_BIT - 1) div CHAR_BIT"

definition GROUP_CACHE_BITSET_CREATE ::
    "group_cache_bitset_t \<Rightarrow> nat \<Rightarrow> group_cache_bitset_t res" where
  "GROUP_CACHE_BITSET_CREATE bs n =
     (case bs of
        Some xs \<Rightarrow> Inr (Some xs)
      | None \<Rightarrow>
          bindE (assertE (0 < GROUP_CACHE_BITSET_NSLOTS n)) (\<lambda>_.
          Inr (Some (replicate (GROUP_CACHE_BITSET_NSLOTS n) 0))))"

definition GROUP_CACHE_BITSET_DESTROY :: "group_cache_bitset_t \<Rightarrow> group_cache_bitset_t" where
  "GROUP_CACHE_BITSET_DESTROY bs = None"

section \<open>Abstraction to sets\<close>

definition bs_capacity :: "group_cache_bitset_t \<Rightarrow> nat" where
  "bs_capacity bs = (case bs of None \<Rightarrow> 0 | Some xs \<Rightarrow> CHAR_BIT * length xs)"

definition bs_has :: "group_cache_bitset_t \<Rightarrow> nat \<Rightarrow> bool" where
  "bs_has bs i =
     (case bs of None \<Rightarrow> False
      | Some xs \<Rightarrow> i < CHAR_BIT * length xs \<and> bit (xs ! (i div CHAR_BIT)) (i mod CHAR_BIT))"

definition bs_elems :: "group_cache_bitset_t \<Rightarrow> nat set" where
  "bs_elems bs = {i. bs_has bs i}"

lemma slot_less: "i < CHAR_BIT * n \<longleftrightarrow> GROUP_CACHE_BITSET_SLOT i < n"
  unfolding GROUP_CACHE_BITSET_SLOT_def CHAR_BIT_def by linarith

lemma bit_mask: "bit (GROUP_CACHE_BITSET_MASK i) k \<longleftrightarrow> k = i mod CHAR_BIT"
  unfolding GROUP_CACHE_BITSET_MASK_def CHAR_BIT_def by (auto simp: bit_simps)

lemma and_mask_nonzero: "(w AND GROUP_CACHE_BITSET_MASK i \<noteq> 0) \<longleftrightarrow> bit w (i mod CHAR_BIT)"
proof -
  have m: "i mod CHAR_BIT < 8"
    by (simp add: CHAR_BIT_def)
  have "w AND GROUP_CACHE_BITSET_MASK i = 0 \<longleftrightarrow> (\<forall>k. \<not> (bit w k \<and> k = i mod CHAR_BIT))"
    unfolding bit_eq_iff[of "w AND GROUP_CACHE_BITSET_MASK i" 0] bit_and_iff bit_mask bit_0_eq
    using m by auto
  then show ?thesis
    by auto
qed

lemma slot_eq_mod: "GROUP_CACHE_BITSET_SLOT j = GROUP_CACHE_BITSET_SLOT i \<Longrightarrow>
    j mod CHAR_BIT = i mod CHAR_BIT \<longleftrightarrow> j = i"
  unfolding GROUP_CACHE_BITSET_SLOT_def by (metis div_mult_mod_eq)

lemma bs_has_Some:
  "bs_has (Some xs) i \<longleftrightarrow> GROUP_CACHE_BITSET_SLOT i < length xs
     \<and> bit (xs ! GROUP_CACHE_BITSET_SLOT i) (i mod CHAR_BIT)"
  using slot_less[of i "length xs"] by (simp add: bs_has_def GROUP_CACHE_BITSET_SLOT_def)

lemma bs_test: "i < bs_capacity bs \<Longrightarrow> GROUP_CACHE_BITSET_TEST bs i = Inr (i \<in> bs_elems bs)"
  by (cases bs)
     (simp_all add: GROUP_CACHE_BITSET_TEST_def bs_capacity_def slot_less bs_elems_def bs_has_Some
       and_mask_nonzero)

lemma bs_test_out:
  "bs_capacity bs \<le> i \<Longrightarrow> GROUP_CACHE_BITSET_TEST bs i = Inl (if bs = None then Null_deref else Out_of_bounds)"
  by (cases bs) (auto simp: GROUP_CACHE_BITSET_TEST_def bs_capacity_def nthE_def
      slot_less[symmetric])

lemma bs_set:
  assumes "i < bs_capacity bs"
  shows "\<exists>bs'. GROUP_CACHE_BITSET_SET bs i = Inr bs' \<and> bs_elems bs' = insert i (bs_elems bs)
           \<and> bs_capacity bs' = bs_capacity bs"
proof -
  from assms obtain xs where xs: "bs = Some xs" "GROUP_CACHE_BITSET_SLOT i < length xs"
    by (cases bs) (auto simp: bs_capacity_def slot_less)
  let ?ys = "xs[GROUP_CACHE_BITSET_SLOT i := xs ! GROUP_CACHE_BITSET_SLOT i OR GROUP_CACHE_BITSET_MASK i]"
  have "bs_has (Some ?ys) j \<longleftrightarrow> j = i \<or> bs_has (Some xs) j" for j
    using xs(2) slot_eq_mod[of j i]
    by (cases "GROUP_CACHE_BITSET_SLOT j = GROUP_CACHE_BITSET_SLOT i")
       (auto simp: bs_has_Some bit_or_iff bit_mask)
  with xs show ?thesis
    by (auto simp: GROUP_CACHE_BITSET_SET_def bs_elems_def bs_capacity_def)
qed

lemma bs_set_out:
  "bs_capacity bs \<le> i \<Longrightarrow> GROUP_CACHE_BITSET_SET bs i = Inl (if bs = None then Null_deref else Out_of_bounds)"
  by (cases bs) (auto simp: GROUP_CACHE_BITSET_SET_def bs_capacity_def nthE_def
      slot_less[symmetric])

lemma bs_clear:
  assumes "i < bs_capacity bs"
  shows "\<exists>bs'. GROUP_CACHE_BITSET_CLEAR bs i = Inr bs' \<and> bs_elems bs' = bs_elems bs - {i}
           \<and> bs_capacity bs' = bs_capacity bs"
proof -
  from assms obtain xs where xs: "bs = Some xs" "GROUP_CACHE_BITSET_SLOT i < length xs"
    by (cases bs) (auto simp: bs_capacity_def slot_less)
  let ?ys = "xs[GROUP_CACHE_BITSET_SLOT i
                := xs ! GROUP_CACHE_BITSET_SLOT i AND NOT (GROUP_CACHE_BITSET_MASK i)]"
  have m: "j mod CHAR_BIT < 8" for j
    by (simp add: CHAR_BIT_def)
  have "bs_has (Some ?ys) j \<longleftrightarrow> j \<noteq> i \<and> bs_has (Some xs) j" for j
    using xs(2) slot_eq_mod[of j i] m
    by (cases "GROUP_CACHE_BITSET_SLOT j = GROUP_CACHE_BITSET_SLOT i")
       (auto simp: bs_has_Some bit_and_iff bit_not_iff bit_mask)
  with xs show ?thesis
    by (auto simp: GROUP_CACHE_BITSET_CLEAR_def bs_elems_def bs_capacity_def)
qed

lemma nslots_covers: "n \<le> CHAR_BIT * GROUP_CACHE_BITSET_NSLOTS n"
  unfolding GROUP_CACHE_BITSET_NSLOTS_def CHAR_BIT_def by linarith

lemma nslots_tight: "CHAR_BIT * GROUP_CACHE_BITSET_NSLOTS n < n + CHAR_BIT"
  unfolding GROUP_CACHE_BITSET_NSLOTS_def CHAR_BIT_def by linarith

lemma nslots_pos: "0 < GROUP_CACHE_BITSET_NSLOTS n \<longleftrightarrow> 0 < n"
  unfolding GROUP_CACHE_BITSET_NSLOTS_def CHAR_BIT_def by linarith

lemma bs_create:
  "0 < n \<Longrightarrow> \<exists>bs. GROUP_CACHE_BITSET_CREATE None n = Inr bs \<and> bs_elems bs = {} \<and> n \<le> bs_capacity bs
     \<and> bs_capacity bs = CHAR_BIT * GROUP_CACHE_BITSET_NSLOTS n"
  using nslots_covers[of n]
  by (auto simp: GROUP_CACHE_BITSET_CREATE_def nslots_pos bs_elems_def bs_has_Some bs_capacity_def)

lemma bs_create_keeps: "bs \<noteq> None \<Longrightarrow> GROUP_CACHE_BITSET_CREATE bs n = Inr bs"
  by (cases bs) (auto simp: GROUP_CACHE_BITSET_CREATE_def)

lemma bs_elems_None [simp]: "bs_elems None = {}"
  by (simp add: bs_elems_def bs_has_def)

lemma bs_elems_capacity: "i \<in> bs_elems bs \<Longrightarrow> i < bs_capacity bs"
  by (auto simp: bs_elems_def bs_has_def bs_capacity_def split: option.splits)

lemma bs_capacity_pos: "0 < bs_capacity bs \<Longrightarrow> bs \<noteq> None"
  by (cases bs) (simp_all add: bs_capacity_def)

section \<open>The bitset interface\<close>

locale bitset =
  fixes capacity :: "'b \<Rightarrow> nat"
    and elems :: "'b \<Rightarrow> nat set"
    and test :: "'b \<Rightarrow> nat \<Rightarrow> bool res"
    and set_bit' :: "'b \<Rightarrow> nat \<Rightarrow> 'b res"
  assumes elems_capacity: "i \<in> elems b \<Longrightarrow> i < capacity b"
    and test_in: "i < capacity b \<Longrightarrow> test b i = Inr (i \<in> elems b)"
    and test_out: "capacity b \<le> i \<Longrightarrow> \<exists>f. test b i = Inl f"
    and set_in: "i < capacity b \<Longrightarrow>
      \<exists>b'. set_bit' b i = Inr b' \<and> elems b' = insert i (elems b) \<and> capacity b' = capacity b"
    and set_out: "capacity b \<le> i \<Longrightarrow> \<exists>f. set_bit' b i = Inl f"
begin

lemma elems_finite: "finite (elems b)"
  using elems_capacity finite_subset[of "elems b" "{..<capacity b}"] by auto

lemma test_Inr_iff: "test b i = Inr r \<longleftrightarrow> i < capacity b \<and> r = (i \<in> elems b)"
  by (cases "i < capacity b") (use test_in test_out[of b i] in \<open>auto simp: not_less\<close>)

lemma set_InrD: "set_bit' b i = Inr b' \<Longrightarrow>
    i < capacity b \<and> elems b' = insert i (elems b) \<and> capacity b' = capacity b"
  by (cases "i < capacity b") (use set_in[of i b] set_out[of b i] in auto)

text \<open>The idiom of the code that keeps a counter next to a bitset: test, and if the bit is not set,
  set it and increment the counter.  The counter stays the number of bits.\<close>

definition mark :: "nat \<Rightarrow> 'b \<times> nat \<Rightarrow> ('b \<times> nat) res" where
  "mark i s = bindE (test (fst s) i) (\<lambda>t.
     if t then Inr s else bindE (set_bit' (fst s) i) (\<lambda>b'. Inr (b', Suc (snd s))))"

lemma mark_total:
  assumes "i < capacity b"
  shows "\<exists>b'. mark i (b, n) = Inr (b', if i \<in> elems b then n else Suc n)
          \<and> elems b' = insert i (elems b) \<and> capacity b' = capacity b"
  using set_in[OF assms] assms by (auto simp: mark_def test_in insert_absorb)

lemma mark_count:
  assumes "mark i s = Inr s'" "snd s = card (elems (fst s))"
  shows "snd s' = card (elems (fst s')) \<and> elems (fst s') = insert i (elems (fst s))
         \<and> capacity (fst s') = capacity (fst s)"
  using assms elems_finite
  by (auto simp: mark_def res_simps test_Inr_iff insert_absorb dest!: set_InrD split: if_splits)

lemma mark_list_count:
  assumes "foldE mark is s = Inr s'" "snd s = card (elems (fst s))"
  shows "snd s' = card (elems (fst s')) \<and> elems (fst s') = set is \<union> elems (fst s)
         \<and> capacity (fst s') = capacity (fst s)"
  using assms
proof (induction "is" arbitrary: s)
  case (Cons i js)
  then obtain s1 where s1: "mark i s = Inr s1" "foldE mark js s1 = Inr s'"
    by (auto simp: res_simps)
  from mark_count[OF s1(1) Cons.prems(2)] Cons.IH[OF s1(2)] show ?case
    by auto
qed auto

lemma mark_list_total:
  assumes "\<forall>i \<in> set is. i < capacity b"
  shows "\<exists>b' n'. foldE mark is (b, n) = Inr (b', n')"
  using assms
proof (induction "is" arbitrary: b n)
  case (Cons i js)
  then obtain b1 n1 where "mark i (b, n) = Inr (b1, n1)" "capacity b1 = capacity b"
    using mark_total[of i b n] by auto
  with Cons show ?case
    by simp
qed auto

end

interpretation bs: bitset bs_capacity bs_elems GROUP_CACHE_BITSET_TEST GROUP_CACHE_BITSET_SET
  by unfold_locales
     (auto simp: bs_test bs_test_out bs_set_out intro: bs_elems_capacity bs_set)

section \<open>Properties\<close>

text \<open>C11: Bitsets refine finite sets: on an index within the bitset, setting and clearing a bit
  succeed and change exactly that member, for every other index \<open>GROUP_CACHE_BITSET_TEST\<close> answers as
  before, and a created bitset is empty and has room for every index below the requested size; an
  index beyond the last slot is an access out of bounds.\<close>

theorem bitset_refines_set:
  assumes "GROUP_CACHE_BITSET_CREATE None n = Inr bs0"
    and "foldE (\<lambda>(put, i) b. if put then GROUP_CACHE_BITSET_SET b i else GROUP_CACHE_BITSET_CLEAR b i)
           ops bs0 = Inr bs"
  shows "GROUP_CACHE_BITSET_TEST bs i
         = (if i < CHAR_BIT * GROUP_CACHE_BITSET_NSLOTS n
            then Inr (i \<in> fold (\<lambda>(put, j) S. if put then insert j S else S - {j}) ops {})
            else Inl Out_of_bounds)"
proof -
  let ?f = "\<lambda>(put, i) b. if put then GROUP_CACHE_BITSET_SET b i else GROUP_CACHE_BITSET_CLEAR b i"
  let ?g = "\<lambda>(put, j) S. if put then insert j S else S - {j}"
  have clr: "j < bs_capacity b \<and> bs_elems b' = bs_elems b - {j} \<and> bs_capacity b' = bs_capacity b"
    if "GROUP_CACHE_BITSET_CLEAR b j = Inr b'" for b b' j
  proof -
    have "j < bs_capacity b"
      using that by (cases b) (auto simp: GROUP_CACHE_BITSET_CLEAR_def bs_capacity_def res_simps slot_less)
    with bs_clear[OF this] that show ?thesis
      by auto
  qed
  have ops: "foldE ?f ops b = Inr b' \<Longrightarrow>
      bs_elems b' = fold ?g ops (bs_elems b) \<and> bs_capacity b' = bs_capacity b" for b b'
    by (induction ops arbitrary: b)
       (auto simp: res_simps split: if_splits dest!: bs.set_InrD clr)
  have "0 < n"
    using assms(1) by (auto simp: GROUP_CACHE_BITSET_CREATE_def res_simps nslots_pos)
  with bs_create[OF this] assms(1) have c: "bs_elems bs0 = {}"
      "bs_capacity bs0 = CHAR_BIT * GROUP_CACHE_BITSET_NSLOTS n"
    by auto
  with ops[OF assms(2)] have e: "bs_elems bs = fold ?g ops {}"
      "bs_capacity bs = CHAR_BIT * GROUP_CACHE_BITSET_NSLOTS n"
    by auto
  then have "bs \<noteq> None"
    using \<open>0 < n\<close> nslots_pos[of n] by (intro notI) (simp add: bs_capacity_def CHAR_BIT_def)
  with e show ?thesis
    by (auto simp: bs_test bs_test_out)
qed

theorem bitset_refines_set_witness:
  "\<exists>bs. foldE (\<lambda>(put, i) b. if put then GROUP_CACHE_BITSET_SET b i else GROUP_CACHE_BITSET_CLEAR b i)
          [(True, 3), (True, 9), (False, 3)] (Some [0, 0]) = Inr bs
     \<and> GROUP_CACHE_BITSET_TEST bs 9 = Inr True \<and> GROUP_CACHE_BITSET_TEST bs 3 = Inr False
     \<and> GROUP_CACHE_BITSET_TEST bs 16 = Inl Out_of_bounds"
proof -
  let ?ops = "[(True, 3), (True, 9), (False, 3 :: nat)]"
  have c: "GROUP_CACHE_BITSET_CREATE None 10 = Inr (Some [0, 0])"
    by code_simp
  have r: "foldE (\<lambda>(put, i) b. if put then GROUP_CACHE_BITSET_SET b i else GROUP_CACHE_BITSET_CLEAR b i)
        ?ops (Some [0, 0]) = Inr (Some [0, 2])"
    by code_simp
  show ?thesis
    using bitset_refines_set[OF c r, of 9] bitset_refines_set[OF c r, of 3]
      bitset_refines_set[OF c r, of 16] r
    by (auto simp: GROUP_CACHE_BITSET_NSLOTS_def CHAR_BIT_def)
qed

end
