(* ===== verification/Tags_Hashes.thy ===== *)
theory Tags_Hashes
imports Mimosa_Prelude
begin

text \<open>
  The 64-bit keys the library computes: UCP tags (\<open>src/src/dpu_offload_comms.h\<close>), the hashes of
  strings and of groups, group keys and the client/server lookup table
  (\<open>src/include/dpu_offload_types.h\<close>).
\<close>

section \<open>UCP tags\<close>

definition OFFLOAD_RESERVED_BITS :: nat where "OFFLOAD_RESERVED_BITS = 2"
definition OFFLOAD_SCOPE_BITS :: nat where "OFFLOAD_SCOPE_BITS = 3"
definition OFFLOAD_SCOPE_ID_BITS :: nat where "OFFLOAD_SCOPE_ID_BITS = 3"
definition OFFLOAD_TAG_BITS :: nat where "OFFLOAD_TAG_BITS = 16"
definition OFFLOAD_SENDER_BITS :: nat where "OFFLOAD_SENDER_BITS = 24"
definition OFFLOAD_ID_BITS :: nat where "OFFLOAD_ID_BITS = 16"

definition OFFLOAD_TAG_BITS_OFFSET :: nat where
  "OFFLOAD_TAG_BITS_OFFSET =
     OFFLOAD_ID_BITS + OFFLOAD_SENDER_BITS + OFFLOAD_SCOPE_ID_BITS + OFFLOAD_SCOPE_BITS"
definition OFFLOAD_SCOPE_BITS_OFFSET :: nat where
  "OFFLOAD_SCOPE_BITS_OFFSET = OFFLOAD_ID_BITS + OFFLOAD_SENDER_BITS + OFFLOAD_SCOPE_ID_BITS"
definition OFFLOAD_SCOPE_ID_BITS_OFFSET :: nat where
  "OFFLOAD_SCOPE_ID_BITS_OFFSET = OFFLOAD_ID_BITS + OFFLOAD_SENDER_BITS"
definition OFFLOAD_SENDER_BITS_OFFSET :: nat where
  "OFFLOAD_SENDER_BITS_OFFSET = OFFLOAD_ID_BITS"
definition OFFLOAD_ID_BITS_OFFSET :: nat where "OFFLOAD_ID_BITS_OFFSET = 0"

definition OFFLOAD_MASK :: "nat \<Rightarrow> u64" where
  "OFFLOAD_MASK i = push_bit i 1 - 1"

definition OFFLOAD_MAX_TAG :: u64 where "OFFLOAD_MAX_TAG = OFFLOAD_MASK OFFLOAD_TAG_BITS"
definition OFFLOAD_MAX_SENDER :: u64 where "OFFLOAD_MAX_SENDER = OFFLOAD_MASK OFFLOAD_SENDER_BITS"
definition OFFLOAD_MAX_ID :: u64 where "OFFLOAD_MAX_ID = OFFLOAD_MASK OFFLOAD_ID_BITS"

definition MAKE_TAG :: "u64 \<Rightarrow> u64 \<Rightarrow> u64 \<Rightarrow> u64 \<Rightarrow> u64 \<Rightarrow> u64" where
  "MAKE_TAG tag rank tid scope_id scope =
     push_bit OFFLOAD_TAG_BITS_OFFSET tag OR push_bit OFFLOAD_SENDER_BITS_OFFSET rank
     OR push_bit OFFLOAD_SCOPE_BITS_OFFSET scope OR push_bit OFFLOAD_SCOPE_ID_BITS_OFFSET scope_id
     OR push_bit OFFLOAD_ID_BITS_OFFSET tid"

definition MAKE_SEND_TAG :: "u64 \<Rightarrow> u64 \<Rightarrow> u64 \<Rightarrow> u64 \<Rightarrow> u64 \<Rightarrow> u64" where
  "MAKE_SEND_TAG tag rank tid scope_id scope = MAKE_TAG tag rank tid scope_id scope"

text \<open>The tag and the mask of a receive; the mask selects every bit.\<close>

definition MAKE_RECV_TAG :: "u64 \<Rightarrow> u64 \<Rightarrow> u64 \<Rightarrow> u64 \<Rightarrow> u64 \<Rightarrow> (u64 \<times> u64) res" where
  "MAKE_RECV_TAG tag src tid scope_id scope =
     bindE (assertE (tag \<le> OFFLOAD_MAX_TAG)) (\<lambda>_.
     bindE (assertE (src \<le> OFFLOAD_MAX_SENDER)) (\<lambda>_.
     bindE (assertE (tid \<le> OFFLOAD_MAX_ID)) (\<lambda>_.
     Inr (MAKE_TAG tag src tid scope_id scope, - 1))))"

text \<open>Matching of a posted receive against a sent tag, as UCP documents it.\<close>

definition ucp_tag_matches :: "u64 \<Rightarrow> u64 \<times> u64 \<Rightarrow> bool" where
  "ucp_tag_matches sent posted = (sent AND snd posted = fst posted AND snd posted)"

section \<open>Hashes and keys\<close>

text \<open>The characters are of type \<open>char\<close>, signed, and converted to the type of the hash.\<close>

definition HASH64_FROM_STRING :: "8 word list \<Rightarrow> u64" where
  "HASH64_FROM_STRING s = foldl (\<lambda>h c. (push_bit 5 h + h) + scast c) 5381 s"

definition HASH_HOSTNAME :: "8 word list \<Rightarrow> u64" where
  "HASH_HOSTNAME s = HASH64_FROM_STRING (takeWhile (\<lambda>c. c \<noteq> 0) s)"

definition HASH_GROUP_FROM_STRING :: "8 word list \<Rightarrow> u32" where
  "HASH_GROUP_FROM_STRING s = foldl (\<lambda>h c. (push_bit 5 h + h) + scast c) 5381 s"

definition int_bytes :: "u32 \<Rightarrow> 8 word list" where
  "int_bytes w = [ucast w, ucast (drop_bit 8 w), ucast (drop_bit 16 w), ucast (drop_bit 24 w)]"

definition HASH_GROUP :: "u32 list \<Rightarrow> u32" where
  "HASH_GROUP gp = HASH_GROUP_FROM_STRING (concat (map int_bytes gp))"

record group_id_t =
  gid_lead :: u32
  gid_id :: u32

definition GET_GROUP_KEY :: "group_id_t \<Rightarrow> u64" where
  "GET_GROUP_KEY gp = push_bit 32 (scast (gid_lead gp)) OR scast (gid_id gp)"

definition GROUP_KEY_TO_GROUP :: "u64 \<Rightarrow> group_id_t" where
  "GROUP_KEY_TO_GROUP key =
     \<lparr>gid_lead = ucast (key AND 0x00000000FFFFFFFF), gid_id = ucast (signed_drop_bit 32 key)\<rparr>"

definition HASH_CLIENT_SERVER :: "u64 \<Rightarrow> u64 \<Rightarrow> u64" where
  "HASH_CLIENT_SERVER c s =
     (let h = 5381; h = (push_bit 5 h + h) + s; h = (push_bit 5 h + h) + c in h)"

text \<open>The table is a khash from 64-bit keys to execution contexts.\<close>

definition CLIENT_SERVER_ADD :: "u64 \<Rightarrow> u64 \<Rightarrow> 'e \<Rightarrow> (u64 \<Rightarrow> 'e option) \<Rightarrow> (u64 \<Rightarrow> 'e option)" where
  "CLIENT_SERVER_ADD c s ec m =
     (let key = HASH_CLIENT_SERVER c s in
      case m key of None \<Rightarrow> m(key \<mapsto> ec) | Some _ \<Rightarrow> m)"

definition CLIENT_SERVER_LOOKUP :: "u64 \<Rightarrow> u64 \<Rightarrow> (u64 \<Rightarrow> 'e option) \<Rightarrow> 'e option" where
  "CLIENT_SERVER_LOOKUP c s m = m (HASH_CLIENT_SERVER c s)"

lemmas offload_offsets =
  OFFLOAD_RESERVED_BITS_def OFFLOAD_SCOPE_BITS_def OFFLOAD_SCOPE_ID_BITS_def OFFLOAD_TAG_BITS_def
  OFFLOAD_SENDER_BITS_def OFFLOAD_ID_BITS_def OFFLOAD_TAG_BITS_OFFSET_def
  OFFLOAD_SCOPE_BITS_OFFSET_def OFFLOAD_SCOPE_ID_BITS_OFFSET_def OFFLOAD_SENDER_BITS_OFFSET_def
  OFFLOAD_ID_BITS_OFFSET_def

section \<open>Tags have disjoint fields\<close>

text \<open>A field of a tag: \<open>n\<close> bits from bit \<open>off\<close> on.\<close>

definition tag_field :: "nat \<Rightarrow> nat \<Rightarrow> u64 \<Rightarrow> u64" where
  "tag_field off n t = take_bit n (drop_bit off t)"

lemma unat_mask_bits:
  fixes w :: "'a::len word"
  assumes "unat w < 2 ^ n" "bit w k"
  shows "k < n"
proof (rule ccontr)
  assume "\<not> k < n"
  have "take_bit n w = w"
    using assms(1) by (intro word_unat_eq_iff[THEN iffD2])
      (simp add: unsigned_take_bit_eq take_bit_nat_eq_self)
  then have "bit (take_bit n w) k"
    using assms(2) by simp
  with \<open>\<not> k < n\<close> show False
    by (simp add: bit_take_bit_iff)
qed

definition tag_args_ok :: "u64 \<Rightarrow> u64 \<Rightarrow> u64 \<Rightarrow> u64 \<Rightarrow> u64 \<Rightarrow> bool" where
  "tag_args_ok tag rank tid scope_id scope =
     (tag \<le> OFFLOAD_MAX_TAG \<and> rank \<le> OFFLOAD_MAX_SENDER \<and> tid \<le> OFFLOAD_MAX_ID
      \<and> scope_id < 8 \<and> scope < 8)"

lemma tag_args_bits:
  assumes "tag_args_ok tag rank tid scope_id scope"
  shows "bit tag k \<Longrightarrow> k < 16" "bit rank k \<Longrightarrow> k < 24" "bit tid k \<Longrightarrow> k < 16"
    "bit scope_id k \<Longrightarrow> k < 3" "bit scope k \<Longrightarrow> k < 3"
  using assms unat_mask_bits[of tag 16 k] unat_mask_bits[of rank 24 k] unat_mask_bits[of tid 16 k]
    unat_mask_bits[of scope_id 3 k] unat_mask_bits[of scope 3 k]
  by (simp_all add: tag_args_ok_def OFFLOAD_MAX_TAG_def OFFLOAD_MAX_SENDER_def OFFLOAD_MAX_ID_def
      OFFLOAD_MASK_def offload_offsets push_bit_eq_mult word_le_nat_alt word_less_nat_alt)

lemma bit_MAKE_TAG:
  "bit (MAKE_TAG tag rank tid scope_id scope) k \<longleftrightarrow> k < 64 \<and>
     (46 \<le> k \<and> bit tag (k - 46) \<or> 16 \<le> k \<and> bit rank (k - 16) \<or> 43 \<le> k \<and> bit scope (k - 43)
      \<or> 40 \<le> k \<and> bit scope_id (k - 40) \<or> bit tid k)"
  by (auto simp: MAKE_TAG_def offload_offsets bit_simps dest: bit_imp_le_length)

text \<open>C20: The fields of a tag do not overlap: from a tag made of values within their bit widths the
  message tag, the sender, the team identifier, the scope identifier and the scope read back.\<close>

theorem make_tag_roundtrip:
  assumes "tag_args_ok tag rank tid scope_id scope"
  shows "tag_field 46 16 (MAKE_TAG tag rank tid scope_id scope) = tag
       \<and> tag_field 16 24 (MAKE_TAG tag rank tid scope_id scope) = rank
       \<and> tag_field 0 16 (MAKE_TAG tag rank tid scope_id scope) = tid
       \<and> tag_field 40 3 (MAKE_TAG tag rank tid scope_id scope) = scope_id
       \<and> tag_field 43 3 (MAKE_TAG tag rank tid scope_id scope) = scope"
  using tag_args_bits[OF assms]
  by (intro conjI bit_word_eqI)
     (auto simp: tag_field_def bit_take_bit_iff bit_drop_bit_eq bit_MAKE_TAG; fastforce)+

theorem make_tag_roundtrip_witness:
  "tag_field 16 24 (MAKE_TAG 31 5 7 1 2) = 5 \<and> tag_field 0 16 (MAKE_TAG 31 5 7 1 2) = 7"
proof -
  have "tag_args_ok 31 5 7 1 2"
    by code_simp
  from make_tag_roundtrip[OF this] show ?thesis
    by simp
qed

lemma MAKE_TAG_inj:
  assumes "tag_args_ok t r i si s" "tag_args_ok t' r' i' si' s'"
  shows "MAKE_TAG t r i si s = MAKE_TAG t' r' i' si' s'
         \<longleftrightarrow> t = t' \<and> r = r' \<and> i = i' \<and> si = si' \<and> s = s'"
proof
  assume eq: "MAKE_TAG t r i si s = MAKE_TAG t' r' i' si' s'"
  have f: "tag_field o' n (MAKE_TAG t r i si s) = tag_field o' n (MAKE_TAG t' r' i' si' s')" for o' n
    by (simp add: eq)
  have fields: "tag_field 46 16 (MAKE_TAG t r i si s) = t" "tag_field 16 24 (MAKE_TAG t r i si s) = r"
    "tag_field 0 16 (MAKE_TAG t r i si s) = i" "tag_field 40 3 (MAKE_TAG t r i si s) = si"
    "tag_field 43 3 (MAKE_TAG t r i si s) = s" if "tag_args_ok t r i si s" for t r i si s
    using tag_args_bits[OF that]
    by (auto intro!: bit_word_eqI simp: tag_field_def bit_take_bit_iff bit_drop_bit_eq bit_MAKE_TAG;
        fastforce)+
  show "t = t' \<and> r = r' \<and> i = i' \<and> si = si' \<and> s = s'"
    using f[of 46 16] f[of 16 24] f[of 0 16] f[of 40 3] f[of 43 3] fields[OF assms(1)]
      fields[OF assms(2)] by simp
qed simp

text \<open>A receive posted with \<open>MAKE_RECV_TAG\<close> matches exactly the messages sent with the same
  message tag, sender, identifier, scope identifier and scope, so notifications of different
  client/server pairs are never mixed up.\<close>

lemma recv_tag_matches_only_its_send:
  assumes "scope_id < 8" "scope < 8" "MAKE_RECV_TAG tag src tid scope_id scope = Inr posted"
    and "tag_args_ok tag' src' tid' scope_id' scope'"
  shows "ucp_tag_matches (MAKE_SEND_TAG tag' src' tid' scope_id' scope') posted
         \<longleftrightarrow> tag' = tag \<and> src' = src \<and> tid' = tid \<and> scope_id' = scope_id \<and> scope' = scope"
proof -
  from assms(1-3) have "tag_args_ok tag src tid scope_id scope"
    and "posted = (MAKE_TAG tag src tid scope_id scope, - 1)"
    by (auto simp: MAKE_RECV_TAG_def res_simps tag_args_ok_def)
  then show ?thesis
    using MAKE_TAG_inj[OF assms(4)] by (simp add: ucp_tag_matches_def MAKE_SEND_TAG_def)
qed

lemma recv_tag_matches_only_its_send_witness:
  "\<exists>posted. MAKE_RECV_TAG 31 5 7 1 0 = Inr posted
     \<and> ucp_tag_matches (MAKE_SEND_TAG 31 5 7 1 0) posted
     \<and> \<not> ucp_tag_matches (MAKE_SEND_TAG 31 6 7 1 0) posted"
proof -
  have m: "MAKE_RECV_TAG 31 5 7 1 0 = Inr (MAKE_TAG 31 5 7 1 0, - 1)"
    and ok: "tag_args_ok 31 5 7 1 0" "tag_args_ok 31 6 7 1 0"
    by code_simp+
  show ?thesis
    using recv_tag_matches_only_its_send[OF _ _ m ok(1)]
      recv_tag_matches_only_its_send[OF _ _ m ok(2)] m
    by auto
qed

section \<open>Group keys\<close>

text \<open>Converting a group identifier to its key and back exchanges the identifier and the lead:
  \<open>GROUP_KEY_TO_GROUP\<close> reads the two halves of the key in the opposite order of \<open>GET_GROUP_KEY\<close>.\<close>

lemma group_key_roundtrip_swaps:
  assumes "gid_id gp < 0x80000000"
  shows "GROUP_KEY_TO_GROUP (GET_GROUP_KEY gp) = \<lparr>gid_lead = gid_id gp, gid_id = gid_lead gp\<rparr>"
proof -
  let ?k = "GET_GROUP_KEY gp"
  have n: "bit (gid_id gp) i \<Longrightarrow> i < 31" for i
    using unat_mask_bits[of "gid_id gp" 31 i] assms by (simp add: word_less_nat_alt)
  have k: "bit ?k i \<longleftrightarrow> i < 64 \<and> (if i < 32 then bit (gid_id gp) i else bit (gid_lead gp) (i - 32))" for i
  proof -
    have "31 \<le> i - 32 \<Longrightarrow> i < 64 \<Longrightarrow> i = 63"
      by simp
    then show ?thesis
      using n[of i] n[of 31]
      by (auto simp: GET_GROUP_KEY_def bit_or_iff bit_push_bit_iff bit_signed_iff min_def)
  qed
  have m: "(0x00000000FFFFFFFF :: u64) = mask 32"
    by (simp add: mask_eq_exp_minus_1)
  have "ucast (?k AND mask 32) = gid_id gp"
    by (rule bit_word_eqI) (auto simp: bit_unsigned_iff bit_and_iff bit_mask_iff k)
  moreover have "ucast (signed_drop_bit 32 ?k) = gid_lead gp"
    by (rule bit_word_eqI) (auto simp: bit_unsigned_iff bit_signed_drop_bit_iff k)
  ultimately show ?thesis
    by (simp add: GROUP_KEY_TO_GROUP_def m)
qed

lemma group_key_roundtrip_swaps_witness:
  "GROUP_KEY_TO_GROUP (GET_GROUP_KEY \<lparr>gid_lead = 3, gid_id = 42\<rparr>) = \<lparr>gid_lead = 42, gid_id = 3\<rparr>"
  using group_key_roundtrip_swaps[of "\<lparr>gid_lead = 3, gid_id = 42\<rparr>"] by simp

section \<open>The client/server lookup table\<close>

lemma HASH_CLIENT_SERVER_eq: "HASH_CLIENT_SERVER c s = 33 * s + c + 5859909"
  by (simp add: HASH_CLIENT_SERVER_def push_bit_eq_mult algebra_simps)

lemma radix_33: "33 * a + b = 33 * a' + b' \<Longrightarrow> b < 33 \<Longrightarrow> b' < 33 \<Longrightarrow> a = a' \<and> b = (b' :: nat)"
proof -
  assume a: "33 * a + b = 33 * a' + b'" "b < 33" "b' < 33"
  have "(33 * a + b) div 33 = a" "(33 * a' + b') div 33 = a'"
    using a(2,3) by simp_all
  then have "a = a'"
    using a(1) by metis
  with a(1) show ?thesis
    by simp
qed

text \<open>C21: The client/server lookup table returns the execution context that was first added for a
  client and a server as long as client identifiers stay below 33 (and server identifiers below
  \<open>2 ^ 58\<close>): on that range the hash tells all pairs apart, and adding another pair changes nothing
  for this one.\<close>

theorem client_server_lookup_sound:
  assumes "c < 33" "c' < 33" "s < 0x400000000000000" "s' < 0x400000000000000"
  shows "CLIENT_SERVER_LOOKUP c s (CLIENT_SERVER_ADD c' s' ec m)
         = (if (c, s) = (c', s') \<and> CLIENT_SERVER_LOOKUP c s m = None then Some ec
            else CLIENT_SERVER_LOOKUP c s m)"
proof -
  have u: "unat (33 * s + c) = 33 * unat s + unat c" if "c < 33" "s < 0x400000000000000" for c s :: u64
  proof -
    have "unat s < 0x400000000000000" "unat c < 33"
      using that by (simp_all add: word_less_nat_alt)
    then have "unat (33 * s) = 33 * unat s" 
      using unat_mult_nowrap[of "33 :: u64" s] by simp
    with \<open>unat c < 33\<close> \<open>unat s < 0x400000000000000\<close> show ?thesis
      using unat_add_nowrap[of "33 * s" c] by simp
  qed
  have "(c, s) = (c', s')" if "HASH_CLIENT_SERVER c s = HASH_CLIENT_SERVER c' s'"
  proof -
    have "33 * s + c = 33 * s' + c'"
      using that by (simp add: HASH_CLIENT_SERVER_eq)
    then have "33 * unat s + unat c = 33 * unat s' + unat c'"
      using u[OF assms(1,3)] u[OF assms(2,4)] by simp
    moreover have "unat c < 33" "unat c' < 33"
      using assms by (simp_all add: word_less_nat_alt)
    ultimately have "unat s = unat s' \<and> unat c = unat c'"
      by (intro radix_33)
    then show ?thesis
      by (simp add: word_unat_eq_iff)
  qed
  then show ?thesis
    by (auto simp: CLIENT_SERVER_LOOKUP_def CLIENT_SERVER_ADD_def Let_def split: option.splits)
qed

theorem client_server_lookup_sound_witness:
  "CLIENT_SERVER_LOOKUP 2 7 (CLIENT_SERVER_ADD 2 7 ''ec'' (\<lambda>_. None)) = Some ''ec''"
  using client_server_lookup_sound[of 2 2 7 7 "''ec''" "\<lambda>_. None"]
  by (simp add: CLIENT_SERVER_LOOKUP_def)

text \<open>From 33 clients on the hash is not unique: client 33 of a server and client 0 of the next
  server share their key, so the context added second is dropped and looking it up returns the
  context of the other pair.\<close>

lemma client_server_hash_collision:
  assumes "CLIENT_SERVER_LOOKUP 33 s m = None"
  shows "CLIENT_SERVER_LOOKUP 0 (s + 1) (CLIENT_SERVER_ADD 0 (s + 1) ec2 (CLIENT_SERVER_ADD 33 s ec1 m))
         = Some ec1"
proof -
  have "HASH_CLIENT_SERVER 0 (s + 1) = HASH_CLIENT_SERVER 33 s"
    by (simp add: HASH_CLIENT_SERVER_eq algebra_simps)
  with assms show ?thesis
    by (simp add: CLIENT_SERVER_LOOKUP_def CLIENT_SERVER_ADD_def)
qed

lemma client_server_hash_collision_witness:
  "CLIENT_SERVER_LOOKUP 0 1 (CLIENT_SERVER_ADD 0 1 ''b'' (CLIENT_SERVER_ADD 33 0 ''a'' (\<lambda>_. None)))
   = Some ''a''"
  using client_server_hash_collision[of 0 "\<lambda>_. None" "''b''" "''a''"]
  by (simp add: CLIENT_SERVER_LOOKUP_def)

end
