(* ===== verification/Mimosa_Types.thy ===== *)
theory Mimosa_Types
imports Mimosa_Prelude Group_Bitset "HOL-Library.AList"
begin

text \<open>
  The data of the offloading engine that the group cache and the group protocol work on
  (\<open>src/include/dpu_offload_types.h\<close>).  Pointers to group caches, SP and host entries are the keys of
  the hash tables that hold them; pointers to ranks, to SPs of the engine and to hosts of the
  configuration are indices.  A khash is an association list with distinct keys: \<open>kh_foreach\<close> visits
  it in the order of the list, which stands for the unspecified order of the hash table.
  Identifiers (\<open>uint64_t\<close>, \<open>size_t\<close>) on which no arithmetic can wrap are natural numbers.
\<close>

definition INT_MAX :: int where "INT_MAX = 2147483647"
definition UINT64_MAX :: nat where "UINT64_MAX = 18446744073709551615"
definition UINT32_MAX :: nat where "UINT32_MAX = 4294967295"
definition INVALID_RANK :: int where "INVALID_RANK = - 1"
definition GROUP_SIZE_UNKNOWN :: int where "GROUP_SIZE_UNKNOWN = - 1"
definition MAX_ADDR_LEN :: nat where "MAX_ADDR_LEN = 2048"
definition MAX_SHADOW_SERVICE_PROCS :: nat where "MAX_SHADOW_SERVICE_PROCS = 8"

section \<open>Ranks\<close>

record rank_info_t =
  ri_group_uid :: int
  ri_group_rank :: int
  ri_group_size :: int
  ri_n_local_ranks :: int
  ri_local_rank :: int
  ri_host_info :: nat
  ri_group_seq_num :: nat

definition RESET_RANK_INFO :: "rank_info_t \<Rightarrow> rank_info_t" where
  "RESET_RANK_INFO r =
     \<lparr>ri_group_uid = INT_MAX, ri_group_rank = INVALID_RANK, ri_group_size = 0, ri_n_local_ranks = 0,
      ri_local_rank = INVALID_RANK, ri_host_info = UINT64_MAX, ri_group_seq_num = 0\<rparr>"

definition COPY_RANK_INFO :: "rank_info_t \<Rightarrow> rank_info_t \<Rightarrow> rank_info_t" where
  "COPY_RANK_INFO s d =
     d\<lparr>ri_group_uid := ri_group_uid s, ri_group_rank := ri_group_rank s,
       ri_group_size := ri_group_size s, ri_n_local_ranks := ri_n_local_ranks s,
       ri_local_rank := ri_local_rank s, ri_host_info := ri_host_info s,
       ri_group_seq_num := ri_group_seq_num s\<rparr>"

record peer_data_t =
  pd_proc_info :: rank_info_t
  pd_host_info :: nat
  pd_addr_len :: nat
  pd_addr :: "u8 list"

definition RESET_PEER_DATA :: "peer_data_t \<Rightarrow> peer_data_t" where
  "RESET_PEER_DATA d =
     d\<lparr>pd_proc_info := RESET_RANK_INFO (pd_proc_info d), pd_addr_len := 0, pd_host_info := UINT64_MAX\<rparr>"

definition COPY_PEER_DATA :: "peer_data_t \<Rightarrow> peer_data_t \<Rightarrow> peer_data_t res" where
  "COPY_PEER_DATA s d =
     bindE (assertE (pd_addr_len s < MAX_ADDR_LEN)) (\<lambda>_.
     Inr (d\<lparr>pd_proc_info := COPY_RANK_INFO (pd_proc_info s) (pd_proc_info d),
            pd_host_info := pd_host_info s, pd_addr_len := pd_addr_len s,
            pd_addr := take (pd_addr_len s) (pd_addr s) @ drop (pd_addr_len s) (pd_addr d)\<rparr>))"

record peer_cache_entry_t =
  pe_set :: bool
  pe_peer :: peer_data_t
  pe_client_id :: nat
  pe_ep :: "nat option"
  pe_num_shadow_service_procs :: nat
  pe_shadow_service_procs :: "nat list"
  pe_events_initialized :: bool
  pe_events :: "nat list"

definition INIT_PEER_CACHE_ENTRY :: "peer_cache_entry_t \<Rightarrow> peer_cache_entry_t" where
  "INIT_PEER_CACHE_ENTRY e =
     e\<lparr>pe_set := False, pe_peer := RESET_PEER_DATA (pe_peer e), pe_client_id := UINT64_MAX,
       pe_ep := None,
       pe_shadow_service_procs := replicate MAX_SHADOW_SERVICE_PROCS UINT64_MAX,
       pe_num_shadow_service_procs := 0, pe_events_initialized := False\<rparr>"

text \<open>Memory that \<open>malloc\<close> returns for an entry: no field of it is read before it is set.\<close>

definition raw_peer_cache_entry :: peer_cache_entry_t where
  "raw_peer_cache_entry =
     \<lparr>pe_set = False,
      pe_peer = \<lparr>pd_proc_info = \<lparr>ri_group_uid = 0, ri_group_rank = 0, ri_group_size = 0,
                   ri_n_local_ranks = 0, ri_local_rank = 0, ri_host_info = 0, ri_group_seq_num = 0\<rparr>,
                 pd_host_info = 0, pd_addr_len = 0, pd_addr = []\<rparr>,
      pe_client_id = 0, pe_ep = None, pe_num_shadow_service_procs = 0,
      pe_shadow_service_procs = [], pe_events_initialized = False, pe_events = []\<rparr>"

text \<open>Resetting an entry hands its events to \<open>event_return\<close>; the model returns them.\<close>

definition RESET_PEER_CACHE_ENTRY :: "peer_cache_entry_t \<Rightarrow> nat list \<times> peer_cache_entry_t" where
  "RESET_PEER_CACHE_ENTRY e =
     (if pe_events_initialized e
      then (pe_events e, INIT_PEER_CACHE_ENTRY (e\<lparr>pe_events := []\<rparr>))
      else ([], INIT_PEER_CACHE_ENTRY e))"

section \<open>Topology of a group\<close>

record sp_cache_data_t =
  sd_n_ranks :: nat
  sd_gid :: nat
  sd_lid :: nat
  sd_host_uid :: nat
  sd_gp_uid :: int
  sd_ranks_bitset :: group_cache_bitset_t
  sd_ranks :: "nat list option"
  sd_ranks_initialized :: bool

definition RESET_SP_CACHE_DATA :: "sp_cache_data_t \<Rightarrow> sp_cache_data_t" where
  "RESET_SP_CACHE_DATA d =
     d\<lparr>sd_n_ranks := 0, sd_gid := UINT64_MAX, sd_lid := UINT64_MAX, sd_host_uid := UINT64_MAX,
       sd_gp_uid := 0, sd_ranks_bitset := None, sd_ranks_initialized := False\<rparr>"

record host_info_t =
  hi_hostname :: string
  hi_uid :: nat
  hi_idx :: nat

record host_cache_data_t =
  hd_config_idx :: nat
  hd_uid :: nat
  hd_num_sps :: nat
  hd_num_ranks :: nat
  hd_sps_bitset :: group_cache_bitset_t
  hd_sps :: "nat list option"
  hd_sps_initialized :: bool
  hd_ranks_bitset :: group_cache_bitset_t

definition RESET_HOST_CACHE_DATA :: "host_cache_data_t \<Rightarrow> host_cache_data_t" where
  "RESET_HOST_CACHE_DATA d =
     \<lparr>hd_config_idx = 0, hd_uid = UINT64_MAX, hd_num_sps = 0, hd_num_ranks = 0,
      hd_sps_bitset = None, hd_sps = None, hd_sps_initialized = False, hd_ranks_bitset = None\<rparr>"

section \<open>Messages of the group protocol\<close>

record group_revoke_msg_from_sp_t =
  rs_num_ranks :: nat
  rs_rank_start :: nat
  rs_ranks :: "nat list"
  rs_gp_uid :: int
  rs_group_size :: nat
  rs_gp_seq_num :: nat

record group_revoke_msg_from_rank_t =
  rr_rank_info :: rank_info_t

text \<open>A group add message is the rank that joins and the world ranks of the group.\<close>

record pending_group_add_t =
  pa_client_id :: nat
  pa_rank_info :: rank_info_t
  pa_world_ranks :: "int list"

record pending_send_group_add_t =
  ps_ev_rank_info :: rank_info_t
  ps_dest_id :: nat

record pending_recv_cache_entry_t =
  pr_gp_uid :: int
  pr_sp_gid :: nat
  pr_payload :: "peer_cache_entry_t list"

section \<open>The cache of a group\<close>

text \<open>\<open>p_final_posts\<close> is not a member of the structure: it records the lines the library logs when the messages of the final revoke
  of the group were posted, by the sequence number they report.\<close>

record group_persistent_t =
  p_initialized :: bool
  p_num :: nat
  p_sent_to_host :: nat
  p_revoke_send_to_host_posted :: nat
  p_revoke_sent_to_host :: nat
  p_pending_group_revoke_msgs_from_sps :: "group_revoke_msg_from_sp_t list"
  p_pending_group_revoke_msgs_from_ranks :: "group_revoke_msg_from_rank_t list"
  p_pending_group_add_msgs :: "pending_group_add_t list"
  p_pending_send_group_add_msgs :: "pending_send_group_add_t list"
  p_pending_recv_cache_entries :: "pending_recv_cache_entry_t list"
  p_final_posts :: "nat list"

text \<open>The array \<open>sps\<close> holds indices into the engine's list of SPs, \<open>hosts\<close> indices into the
  configuration; an entry of an allocated array that was not written yet is \<open>None\<close>.\<close>

record group_cache_t =
  gc_initialized :: bool
  gc_persistent :: group_persistent_t
  gc_engine :: bool
  gc_revokes_global :: nat
  gc_revokes_local :: nat
  gc_revokes_ranks :: group_cache_bitset_t
  gc_group_size :: nat
  gc_group_uid :: int
  gc_num_local_entries :: nat
  gc_n_local_ranks :: nat
  gc_n_local_ranks_populated :: nat
  gc_sp_ranks :: nat
  gc_ranks :: "peer_cache_entry_t list option"
  gc_hosts_hash :: "(nat \<times> host_cache_data_t) list option"
  gc_hosts_bitset :: group_cache_bitset_t
  gc_hosts :: "nat option list option"
  gc_n_hosts :: nat
  gc_sps_hash :: "(nat \<times> sp_cache_data_t) list option"
  gc_sps_bitset :: group_cache_bitset_t
  gc_sps :: "nat option list option"
  gc_n_sps :: nat
  gc_lookup_tables_populated :: bool

record cache_t =
  c_size :: nat
  c_world_group :: int
  c_data :: "(int \<times> group_cache_t) list"

section \<open>The engine\<close>

datatype econtext_type = CONTEXT_UNKOWN | CONTEXT_CLIENT | CONTEXT_SERVER | CONTEXT_SELF

datatype execution_scope_t = SCOPE_HOST_DPU | SCOPE_INTER_SERVICE_PROCS | SCOPE_SELF | SCOPE_UNKNOWN

text \<open>The execution context used to reach an SP is \<open>None\<close> when it is NULL.\<close>

record remote_service_proc_info_t =
  sp_global_id :: nat
  sp_client_id :: nat
  sp_econtext :: "econtext_type option"

record peer_info_t =
  pi_id :: nat
  pi_addr_len :: nat
  pi_addr :: "u8 list"
  pi_group_uid :: int

record offloading_config_t =
  cfg_num_hosts :: nat
  cfg_hosts_config :: "host_info_t list"
  cfg_host_lookup_table :: "(nat \<times> nat) list"
  cfg_num_service_procs_per_dpu :: nat
  cfg_local_sp_global_id :: nat
  cfg_local_sp_local_id :: nat
  cfg_local_sp_host_uid :: nat

text \<open>Destinations of a notification: a client of the server of the host, or the SP with the given global
  identifier, addressed by the given identifier of the execution context.\<close>

datatype destination = To_client nat | To_sp nat nat | To_server nat

text \<open>Calls into the event system and the callbacks of the users of the library, in order.\<close>

datatype call =
    Event_return nat
  | Complete_event nat
  | Emit_entries destination "peer_cache_entry_t list"
  | Emit_sp_data nat
  | Emit_revoke_from_sp destination group_revoke_msg_from_sp_t
  | Emit_add nat rank_info_t
  | Emit_revoke_from_rank nat rank_info_t
  | Revoke_callback int

text \<open>Meta-events whose sub-events are in progress, by what happens when they complete: the callback after
  the cache of a group was sent to the local ranks, the one after the final revoke was, or none.\<close>

datatype completion = Cache_sent int | Revoke_sent int | No_callback

record offloading_engine_t =
  e_on_dpu :: bool
  e_host_id :: nat
  e_num_service_procs :: nat
  e_num_connected_service_procs :: nat
  e_service_procs :: "remote_service_proc_info_t list"
  e_config :: offloading_config_t
  e_persistent_endpoint_cache :: bool
  e_servers :: "bool option list"
  e_num_connected_clients :: nat
  e_clients :: "peer_info_t list"
  e_ongoing_events :: "completion list"
  e_procs_cache :: cache_t
  e_free_sp_cache_hash_obj :: "sp_cache_data_t list"
  e_free_host_cache_hash_obj :: "host_cache_data_t list"
  e_calls :: "call list"

text \<open>\<open>servers.list\<close> is reduced to whether an entry is NULL and whether it is the server of the host.\<close>

section \<open>Access to the tables\<close>

definition kh_put :: "'k \<Rightarrow> 'v \<Rightarrow> ('k \<times> 'v) list \<Rightarrow> ('k \<times> 'v) list" where
  "kh_put k v m = AList.update k v m"

lemma kh_get_put [simp]: "map_of (kh_put k v m) = (map_of m)(k \<mapsto> v)"
  by (simp add: kh_put_def update_conv')

lemma kh_keys_put: "fst ` set (kh_put k v m) = insert k (fst ` set m)"
  by (metis dom_map_of_conv_image_fst kh_get_put dom_fun_upd option.distinct(1))

lemma kh_distinct_put [simp]: "distinct (map fst m) \<Longrightarrow> distinct (map fst (kh_put k v m))"
  by (simp add: kh_put_def distinct_update)

lemma kh_put_new: "k \<notin> fst ` set m \<Longrightarrow> kh_put k v m = m @ [(k, v)]"
  by (induction m) (auto simp: kh_put_def)

lemma kh_put_length: "length (kh_put k v m) = (if k \<in> fst ` set m then length m else Suc (length m))"
  by (induction m) (auto simp: kh_put_def)

lemma kh_put_keys_same: "k \<in> fst ` set m \<Longrightarrow> map fst (kh_put k v m) = map fst m"
  by (induction m) (auto simp: kh_put_def)

text \<open>Reading and replacing the group cache a pointer denotes.\<close>

definition gp_get :: "int \<Rightarrow> offloading_engine_t \<Rightarrow> group_cache_t res" where
  "gp_get k e = derefE (map_of (c_data (e_procs_cache e)) k)"

definition gp_put :: "int \<Rightarrow> group_cache_t \<Rightarrow> offloading_engine_t \<Rightarrow> offloading_engine_t" where
  "gp_put k g e = e\<lparr>e_procs_cache := (e_procs_cache e)\<lparr>c_data := kh_put k g (c_data (e_procs_cache e))\<rparr>\<rparr>"

definition gp_upd :: "int \<Rightarrow> (group_cache_t \<Rightarrow> group_cache_t) \<Rightarrow> offloading_engine_t \<Rightarrow> offloading_engine_t res" where
  "gp_upd k f e = bindE (gp_get k e) (\<lambda>g. Inr (gp_put k (f g) e))"

definition log_call :: "call \<Rightarrow> offloading_engine_t \<Rightarrow> offloading_engine_t" where
  "log_call c e = e\<lparr>e_calls := e_calls e @ [c]\<rparr>"

lemma gp_get_put [simp]: "gp_get k (gp_put k' g e) = (if k = k' then Inr g else gp_get k e)"
  by (simp add: gp_get_def gp_put_def)

lemma gp_get_log [simp]: "gp_get k (log_call c e) = gp_get k e"
  by (simp add: gp_get_def log_call_def)

lemma gp_put_config [simp]:
  "e_config (gp_put k g e) = e_config e"
  "e_on_dpu (gp_put k g e) = e_on_dpu e"
  "e_host_id (gp_put k g e) = e_host_id e"
  "e_num_service_procs (gp_put k g e) = e_num_service_procs e"
  "e_service_procs (gp_put k g e) = e_service_procs e"
  "e_calls (gp_put k g e) = e_calls e"
  "e_servers (gp_put k g e) = e_servers e"
  "e_num_connected_clients (gp_put k g e) = e_num_connected_clients e"
  "e_clients (gp_put k g e) = e_clients e"
  "e_ongoing_events (gp_put k g e) = e_ongoing_events e"
  "e_num_connected_service_procs (gp_put k g e) = e_num_connected_service_procs e"
  "e_persistent_endpoint_cache (gp_put k g e) = e_persistent_endpoint_cache e"
  "c_size (e_procs_cache (gp_put k g e)) = c_size (e_procs_cache e)"
  "c_world_group (e_procs_cache (gp_put k g e)) = c_world_group (e_procs_cache e)"
  by (simp_all add: gp_put_def)

lemma log_call_simps [simp]:
  "e_config (log_call c e) = e_config e"
  "e_on_dpu (log_call c e) = e_on_dpu e"
  "e_num_service_procs (log_call c e) = e_num_service_procs e"
  "e_num_connected_service_procs (log_call c e) = e_num_connected_service_procs e"
  "e_service_procs (log_call c e) = e_service_procs e"
  "e_servers (log_call c e) = e_servers e"
  "e_num_connected_clients (log_call c e) = e_num_connected_clients e"
  "e_clients (log_call c e) = e_clients e"
  "e_ongoing_events (log_call c e) = e_ongoing_events e"
  "e_procs_cache (log_call c e) = e_procs_cache e"
  "e_calls (log_call c e) = e_calls e @ [c]"
  by (simp_all add: log_call_def)

lemma gp_put_put [simp]: "gp_put k g (gp_put k g' e) = gp_put k g e"
proof -
  have "AList.update k g (AList.update k g' m) = AList.update k g m" for m :: "(int \<times> group_cache_t) list"
    by (induction m) auto
  then show ?thesis
    by (simp add: gp_put_def kh_put_def)
qed

end
