(* ===== verification/Group_Cache.thy ===== *)
theory Group_Cache
imports Mimosa_Types
begin

text \<open>
  The group cache of \<open>src/src/dpu_offload_group_cache.c\<close> and the macros of
  \<open>src/include/dpu_offload_types.h\<close> it is built on: lazy creation of the cache of a group, topology
  bookkeeping (which SPs and hosts serve which ranks of the group), the ordered lookup tables built
  from it, the queries on them and the reset of a revoked group.
\<close>

section \<open>Creation and lookup\<close>

definition BASIC_INIT_GROUP_CACHE :: "group_cache_t \<Rightarrow> group_cache_t" where
  "BASIC_INIT_GROUP_CACHE g =
     g\<lparr>gc_initialized := False, gc_engine := False, gc_revokes_global := 0, gc_revokes_local := 0,
       gc_revokes_ranks := None, gc_group_size := 0, gc_group_uid := INT_MAX,
       gc_num_local_entries := 0, gc_n_local_ranks := 0, gc_n_local_ranks_populated := 0,
       gc_sp_ranks := 0, gc_ranks := None, gc_hosts_hash := None, gc_hosts_bitset := None,
       gc_hosts := None, gc_n_hosts := 0, gc_sps_hash := None, gc_sps_bitset := None,
       gc_sps := None, gc_n_sps := 0, gc_lookup_tables_populated := False\<rparr>"

text \<open>The array of ranks is allocated for the given size; a negative size converts to a \<open>size_t\<close> no
  allocation can satisfy.\<close>

definition INIT_GROUP_CACHE :: "int \<Rightarrow> group_cache_t \<Rightarrow> group_cache_t res" where
  "INIT_GROUP_CACHE gp_size g =
     bindE (assertE (0 \<le> gp_size)) (\<lambda>_.
     Inr ((BASIC_INIT_GROUP_CACHE g)
       \<lparr>gc_ranks := Some (replicate (nat gp_size) (INIT_PEER_CACHE_ENTRY raw_peer_cache_entry)),
        gc_sps_hash := Some [], gc_hosts_hash := Some [], gc_initialized := True\<rparr>))"

definition raw_group_cache :: group_cache_t where
  "raw_group_cache =
     \<lparr>gc_initialized = False,
      gc_persistent = \<lparr>p_initialized = False, p_num = 0, p_sent_to_host = 0,
        p_revoke_send_to_host_posted = 0, p_revoke_sent_to_host = 0,
        p_pending_group_revoke_msgs_from_sps = [], p_pending_group_revoke_msgs_from_ranks = [],
        p_pending_group_add_msgs = [], p_pending_send_group_add_msgs = [],
        p_pending_recv_cache_entries = [], p_final_posts = []\<rparr>,
      gc_engine = False, gc_revokes_global = 0, gc_revokes_local = 0, gc_revokes_ranks = None,
      gc_group_size = 0, gc_group_uid = 0, gc_num_local_entries = 0, gc_n_local_ranks = 0,
      gc_n_local_ranks_populated = 0, gc_sp_ranks = 0, gc_ranks = None, gc_hosts_hash = None,
      gc_hosts_bitset = None, gc_hosts = None, gc_n_hosts = 0, gc_sps_hash = None,
      gc_sps_bitset = None, gc_sps = None, gc_n_sps = 0, gc_lookup_tables_populated = False\<rparr>"

definition init_persistent :: "group_persistent_t \<Rightarrow> group_persistent_t" where
  "init_persistent p =
     \<lparr>p_initialized = True, p_num = 0, p_sent_to_host = 0, p_revoke_send_to_host_posted = 0,
      p_revoke_sent_to_host = 0, p_pending_group_revoke_msgs_from_sps = [],
      p_pending_group_revoke_msgs_from_ranks = [], p_pending_group_add_msgs = [],
      p_pending_send_group_add_msgs = [], p_pending_recv_cache_entries = [], p_final_posts = []\<rparr>"

definition alloc_sps :: "offloading_engine_t \<Rightarrow> group_cache_t \<Rightarrow> group_cache_t" where
  "alloc_sps e g =
     (if 0 < e_num_service_procs e
      then g\<lparr>gc_sps := Some (replicate (e_num_service_procs e) None)\<rparr> else g)"

text \<open>The branch of \<open>GET_GROUP_CACHE_INTERNAL\<close> for a group that is not in the cache.\<close>

definition add_group :: "int \<Rightarrow> int \<Rightarrow> offloading_engine_t \<Rightarrow> offloading_engine_t res" where
  "add_group gp_uid gp_size e =
     bindE (assertE (0 < cfg_num_hosts (e_config e))) (\<lambda>_.
     bindE (assertE (0 < gp_size)) (\<lambda>_.
     bindE (INIT_GROUP_CACHE gp_size raw_group_cache) (\<lambda>g.
     let g1 = (alloc_sps e g)\<lparr>gc_engine := True, gc_group_uid := gp_uid,
                gc_persistent := init_persistent (gc_persistent g)\<rparr>;
         c = e_procs_cache e;
         c1 = c\<lparr>c_size := Suc (c_size c)\<rparr>;
         c2 = (if c_size c1 = 1 then c1\<lparr>c_world_group := gp_uid\<rparr> else c1) in
     Inr (gp_put gp_uid g1 (e\<lparr>e_procs_cache := c2\<rparr>)))))"

text \<open>The branch for a group that is known, possibly revoked since (its UID is then \<open>INT_MAX\<close>).\<close>

definition reuse_group :: "int \<Rightarrow> int \<Rightarrow> offloading_engine_t \<Rightarrow> group_cache_t \<Rightarrow> group_cache_t res" where
  "reuse_group gp_uid gp_size e g =
     bindE (if gc_group_uid g = INT_MAX
            then bindE (INIT_GROUP_CACHE gp_size g) (\<lambda>g1. Inr (g1\<lparr>gc_group_uid := gp_uid\<rparr>))
            else Inr g) (\<lambda>g1.
     let g2 = (if \<not> gc_engine g1 \<and> gc_num_local_entries g1 = 0 then g1\<lparr>gc_engine := True\<rparr> else g1) in
     bindE (assertE (gc_engine g2)) (\<lambda>_.
     bindE (assertE (gp_uid = gc_group_uid g2)) (\<lambda>_.
     bindE (assertE (p_initialized (gc_persistent g2))) (\<lambda>_.
     Inr (if gc_sps g2 = None then alloc_sps e g2 else g2)))))"

definition GET_GROUP_CACHE_INTERNAL ::
    "int \<Rightarrow> int \<Rightarrow> offloading_engine_t \<Rightarrow> offloading_engine_t res" where
  "GET_GROUP_CACHE_INTERNAL gp_uid gp_size e =
     (case map_of (c_data (e_procs_cache e)) gp_uid of
        None \<Rightarrow> add_group gp_uid gp_size e
      | Some g \<Rightarrow> bindE (reuse_group gp_uid gp_size e g) (\<lambda>g1. Inr (gp_put gp_uid g1 e)))"

definition GET_GROUP_CACHE :: "int \<Rightarrow> offloading_engine_t \<Rightarrow> offloading_engine_t res" where
  "GET_GROUP_CACHE gp_uid e = GET_GROUP_CACHE_INTERNAL gp_uid 0 e"

text \<open>The pointer to the entry of a rank: its index in the array of ranks.\<close>

definition MIMOSA_GET_RANK_FROM_GROUP_CACHE :: "group_cache_t \<Rightarrow> int \<Rightarrow> nat res" where
  "MIMOSA_GET_RANK_FROM_GROUP_CACHE g rank =
     bindE (derefE (gc_ranks g)) (\<lambda>rs.
     bindE (guardE Out_of_bounds (0 \<le> rank \<and> nat rank < length rs)) (\<lambda>_. Inr (nat rank)))"

definition GET_GROUP_RANK_CACHE_ENTRY ::
    "int \<Rightarrow> int \<Rightarrow> int \<Rightarrow> offloading_engine_t \<Rightarrow> (nat \<times> offloading_engine_t) res" where
  "GET_GROUP_RANK_CACHE_ENTRY gp_uid rank gp_size e =
     bindE (GET_GROUP_CACHE_INTERNAL gp_uid gp_size e) (\<lambda>e1.
     bindE (gp_get gp_uid e1) (\<lambda>g.
     bindE (if gc_initialized g \<and> gc_group_size g = 0 \<and> 0 \<le> gp_size then
              bindE (GROUP_CACHE_BITSET_CREATE (gc_sps_bitset g) (nat gp_size)) (\<lambda>sb.
              bindE (GROUP_CACHE_BITSET_CREATE (gc_hosts_bitset g) (cfg_num_hosts (e_config e))) (\<lambda>hb.
              bindE (GROUP_CACHE_BITSET_CREATE (gc_revokes_ranks g) (nat gp_size)) (\<lambda>rb.
              Inr (g\<lparr>gc_group_size := nat gp_size, gc_sps_bitset := sb, gc_hosts_bitset := hb,
                     gc_revokes_ranks := rb\<rparr>))))
            else Inr g) (\<lambda>g1.
     bindE (MIMOSA_GET_RANK_FROM_GROUP_CACHE g1 rank) (\<lambda>i.
     Inr (i, gp_put gp_uid g1 e1)))))"

definition rank_entry :: "int \<Rightarrow> nat \<Rightarrow> offloading_engine_t \<Rightarrow> peer_cache_entry_t res" where
  "rank_entry gp_uid i e =
     bindE (gp_get gp_uid e) (\<lambda>g. bindE (derefE (gc_ranks g)) (\<lambda>rs. nthE rs i))"

definition is_in_cache ::
    "int \<Rightarrow> int \<Rightarrow> int \<Rightarrow> offloading_engine_t \<Rightarrow> (bool \<times> offloading_engine_t) res" where
  "is_in_cache gp_uid rank gp_size e =
     bindE (GET_GROUP_RANK_CACHE_ENTRY gp_uid rank gp_size e) (\<lambda>(i, e1).
     bindE (rank_entry gp_uid i e1) (\<lambda>pe. Inr (pe_set pe, e1)))"

definition group_cache_populated ::
    "int \<Rightarrow> offloading_engine_t \<Rightarrow> (bool \<times> offloading_engine_t) res" where
  "group_cache_populated gp_uid e =
     bindE (GET_GROUP_CACHE gp_uid e) (\<lambda>e1.
     bindE (gp_get gp_uid e1) (\<lambda>g.
     Inr (gc_revokes_global g = 0 \<and> gc_group_size g = gc_num_local_entries g, e1)))"

section \<open>Hash entries\<close>

definition GET_GROUP_SP_HASH_ENTRY :: "group_cache_t \<Rightarrow> nat \<Rightarrow> sp_cache_data_t option res" where
  "GET_GROUP_SP_HASH_ENTRY g sp_gid =
     bindE (derefE (gc_sps_hash g)) (\<lambda>m. Inr (if length m \<noteq> 0 then map_of m sp_gid else None))"

definition GET_GROUP_HOST_HASH_ENTRY :: "group_cache_t \<Rightarrow> nat \<Rightarrow> host_cache_data_t option res" where
  "GET_GROUP_HOST_HASH_ENTRY g host_uid =
     bindE (derefE (gc_hosts_hash g)) (\<lambda>m. Inr (if length m \<noteq> 0 then map_of m host_uid else None))"

definition LOOKUP_HOST_CONFIG_IDX :: "offloading_engine_t \<Rightarrow> nat \<Rightarrow> nat option" where
  "LOOKUP_HOST_CONFIG_IDX e host_uid =
     (if length (cfg_host_lookup_table (e_config e)) \<noteq> 0
      then map_of (cfg_host_lookup_table (e_config e)) host_uid else None)"

definition ADD_GROUP_SP_HASH_ENTRY :: "sp_cache_data_t \<Rightarrow> group_cache_t \<Rightarrow> group_cache_t res" where
  "ADD_GROUP_SP_HASH_ENTRY d g =
     bindE (derefE (gc_sps_hash g)) (\<lambda>m.
     bindE (assertE (map_of m (sd_gid d) = None)) (\<lambda>_.
     Inr (g\<lparr>gc_sps_hash := Some (kh_put (sd_gid d) d m)\<rparr>)))"

definition ADD_GROUP_HOST_HASH_ENTRY :: "host_cache_data_t \<Rightarrow> group_cache_t \<Rightarrow> group_cache_t res" where
  "ADD_GROUP_HOST_HASH_ENTRY d g =
     bindE (derefE (gc_hosts_hash g)) (\<lambda>m.
     bindE (assertE (map_of m (hd_uid d) = None)) (\<lambda>_.
     Inr (g\<lparr>gc_hosts_hash := Some (kh_put (hd_uid d) d m)\<rparr>)))"

text \<open>Writing back the object a hash entry points to.\<close>

definition put_sp :: "nat \<Rightarrow> sp_cache_data_t \<Rightarrow> group_cache_t \<Rightarrow> group_cache_t" where
  "put_sp k d g = g\<lparr>gc_sps_hash := map_option (kh_put k d) (gc_sps_hash g)\<rparr>"

definition put_host :: "nat \<Rightarrow> host_cache_data_t \<Rightarrow> group_cache_t \<Rightarrow> group_cache_t" where
  "put_host k d g = g\<lparr>gc_hosts_hash := map_option (kh_put k d) (gc_hosts_hash g)\<rparr>"

text \<open>The pools of hash objects: a returned object comes back with the content it had; the memory of
  a new one is unspecified, here its \<open>ranks\<close> pointer is NULL.\<close>

definition raw_sp_cache_data :: sp_cache_data_t where
  "raw_sp_cache_data = \<lparr>sd_n_ranks = 0, sd_gid = 0, sd_lid = 0, sd_host_uid = 0, sd_gp_uid = 0,
     sd_ranks_bitset = None, sd_ranks = None, sd_ranks_initialized = False\<rparr>"

definition raw_host_cache_data :: host_cache_data_t where
  "raw_host_cache_data = \<lparr>hd_config_idx = 0, hd_uid = 0, hd_num_sps = 0, hd_num_ranks = 0,
     hd_sps_bitset = None, hd_sps = None, hd_sps_initialized = False, hd_ranks_bitset = None\<rparr>"

definition get_sp_obj :: "offloading_engine_t \<Rightarrow> sp_cache_data_t \<times> offloading_engine_t" where
  "get_sp_obj e =
     (case e_free_sp_cache_hash_obj e of
        [] \<Rightarrow> (raw_sp_cache_data, e)
      | d # ds \<Rightarrow> (d, e\<lparr>e_free_sp_cache_hash_obj := ds\<rparr>))"

definition get_host_obj :: "offloading_engine_t \<Rightarrow> host_cache_data_t \<times> offloading_engine_t" where
  "get_host_obj e =
     (case e_free_host_cache_hash_obj e of
        [] \<Rightarrow> (raw_host_cache_data, e)
      | d # ds \<Rightarrow> (d, e\<lparr>e_free_host_cache_hash_obj := ds\<rparr>))"

section \<open>Topology bookkeeping\<close>

text \<open>\<open>update_topology_data\<close>: the part on the SP, then the part on the host.\<close>

definition update_topology_sp ::
    "int \<Rightarrow> nat \<Rightarrow> nat \<Rightarrow> offloading_engine_t \<Rightarrow> group_cache_t \<Rightarrow> (offloading_engine_t \<times> group_cache_t) res" where
  "update_topology_sp group_rank sp_gid host_uid e g =
     bindE (GET_GROUP_SP_HASH_ENTRY g sp_gid) (\<lambda>r.
     bindE (case r of
         None \<Rightarrow>
           (case get_sp_obj e of (d0, e1) \<Rightarrow>
             let g1 = g\<lparr>gc_n_sps := Suc (gc_n_sps g)\<rparr>; d1 = RESET_SP_CACHE_DATA d0 in
             bindE (GROUP_CACHE_BITSET_CREATE (sd_ranks_bitset d1) (gc_group_size g1)) (\<lambda>rb.
             let d2 = d1\<lparr>sd_ranks_bitset := rb, sd_gid := sp_gid, sd_n_ranks := 1,
                         sd_gp_uid := gc_group_uid g1, sd_host_uid := host_uid\<rparr> in
             bindE (GROUP_CACHE_BITSET_CREATE (gc_sps_bitset g1) (gc_group_size g1)) (\<lambda>sb.
             bindE (ADD_GROUP_SP_HASH_ENTRY d2 (g1\<lparr>gc_sps_bitset := sb\<rparr>)) (\<lambda>g2.
             bindE (GROUP_CACHE_BITSET_SET (gc_sps_bitset g2) sp_gid) (\<lambda>sb2.
             Inr (d2, e1, g2\<lparr>gc_sps_bitset := sb2\<rparr>))))))
       | Some d \<Rightarrow> Inr (d\<lparr>sd_n_ranks := Suc (sd_n_ranks d)\<rparr>, e, g)) (\<lambda>(d, e1, g1).
     bindE (assertE (sd_ranks_bitset d \<noteq> None)) (\<lambda>_.
     bindE (guardE Out_of_bounds (0 \<le> group_rank)) (\<lambda>_.
     bindE (GROUP_CACHE_BITSET_SET (sd_ranks_bitset d) (nat group_rank)) (\<lambda>rb.
     Inr (e1, put_sp sp_gid (d\<lparr>sd_ranks_bitset := rb\<rparr>) g1))))))"

definition update_topology_host ::
    "int \<Rightarrow> nat \<Rightarrow> nat \<Rightarrow> offloading_engine_t \<Rightarrow> group_cache_t \<Rightarrow> (offloading_engine_t \<times> group_cache_t) res" where
  "update_topology_host group_rank sp_gid host_uid e g =
     bindE (GET_GROUP_HOST_HASH_ENTRY g host_uid) (\<lambda>r.
     bindE (case r of
         None \<Rightarrow>
           (case get_host_obj e of (d0, e1) \<Rightarrow>
             let g1 = g\<lparr>gc_n_hosts := Suc (gc_n_hosts g)\<rparr>;
                 d1 = (RESET_HOST_CACHE_DATA d0)\<lparr>hd_uid := host_uid, hd_num_ranks := 1, hd_num_sps := 1\<rparr> in
             bindE (GROUP_CACHE_BITSET_CREATE (hd_sps_bitset d1) (gc_group_size g1)) (\<lambda>sb.
             bindE (GROUP_CACHE_BITSET_SET sb sp_gid) (\<lambda>sb1.
             bindE (GROUP_CACHE_BITSET_CREATE (hd_ranks_bitset d1) (gc_group_size g1)) (\<lambda>rb.
             let d2 = d1\<lparr>hd_sps_bitset := sb1, hd_ranks_bitset := rb\<rparr> in
             bindE (ADD_GROUP_HOST_HASH_ENTRY d2 g1) (\<lambda>g2.
             bindE (assertE (LOOKUP_HOST_CONFIG_IDX e host_uid \<noteq> None)) (\<lambda>_.
             let host_idx = the (LOOKUP_HOST_CONFIG_IDX e host_uid); d3 = d2\<lparr>hd_config_idx := host_idx\<rparr> in
             bindE (GROUP_CACHE_BITSET_CREATE (gc_hosts_bitset g2) (cfg_num_hosts (e_config e))) (\<lambda>hb.
             bindE (GROUP_CACHE_BITSET_SET hb host_idx) (\<lambda>hb1.
             Inr (d3, e1, g2\<lparr>gc_hosts_bitset := hb1\<rparr>)))))))))
       | Some d \<Rightarrow>
           let d1 = d\<lparr>hd_num_ranks := Suc (hd_num_ranks d)\<rparr> in
           bindE (GROUP_CACHE_BITSET_TEST (hd_sps_bitset d1) sp_gid) (\<lambda>t.
           bindE (if \<not> t then bindE (GROUP_CACHE_BITSET_SET (hd_sps_bitset d1) sp_gid) (\<lambda>sb.
                                Inr (d1\<lparr>hd_num_sps := Suc (hd_num_sps d1), hd_sps_bitset := sb\<rparr>))
                  else Inr d1) (\<lambda>d2.
           Inr (d2, e, g)))) (\<lambda>(d, e1, g1).
     bindE (GROUP_CACHE_BITSET_SET (hd_ranks_bitset d) (nat group_rank)) (\<lambda>rb.
     Inr (e1, put_host host_uid (d\<lparr>hd_ranks_bitset := rb\<rparr>) g1))))"

definition update_topology_data ::
    "int \<Rightarrow> int \<Rightarrow> nat \<Rightarrow> nat \<Rightarrow> offloading_engine_t \<Rightarrow> offloading_engine_t res" where
  "update_topology_data gp group_rank sp_gid host_uid e =
     bindE (gp_get gp e) (\<lambda>g.
     bindE (update_topology_sp group_rank sp_gid host_uid e g) (\<lambda>(e1, g1).
     bindE (update_topology_host group_rank sp_gid host_uid e1 g1) (\<lambda>(e2, g2).
     Inr (gp_put gp g2 e2))))"

section \<open>Lookup tables\<close>

text \<open>The loop that all tables are built with: bits are visited in increasing order until \<open>n\<close> set bits
  were found, the body is run on every set bit with the number of bits found before.  A bit beyond
  the bitset is a fault, so the loop ends.\<close>

function (sequential) bits_loop ::
    "(nat \<Rightarrow> nat \<Rightarrow> 's \<Rightarrow> 's res) \<Rightarrow> group_cache_bitset_t \<Rightarrow> nat \<Rightarrow> nat \<Rightarrow> nat \<Rightarrow> 's \<Rightarrow> 's res" where
  "bits_loop body bs n cnt idx s =
     (if cnt < n then
        bindE (GROUP_CACHE_BITSET_TEST bs idx) (\<lambda>t.
          if t then bindE (body cnt idx s) (bits_loop body bs n (Suc cnt) (Suc idx))
          else bits_loop body bs n cnt (Suc idx) s)
      else Inr s)"
  by pat_completeness auto
termination
  by (relation "measure (\<lambda>(body, bs, n, cnt, idx, s). bs_capacity bs - idx)")
     (auto simp: bs.test_Inr_iff)

declare bits_loop.simps [simp del]

text \<open>Arrays that a loop fills from position 0 on are modelled by the list of what was written.\<close>

definition populate_sp_ranks :: "int \<Rightarrow> nat \<Rightarrow> offloading_engine_t \<Rightarrow> offloading_engine_t res" where
  "populate_sp_ranks gp sp_key e =
     bindE (gp_get gp e) (\<lambda>g.
     bindE (GET_GROUP_SP_HASH_ENTRY g sp_key) (\<lambda>r.
     bindE (derefE r) (\<lambda>d.
     bindE (assertE (sd_n_ranks d \<noteq> 0)) (\<lambda>_.
     bindE (bits_loop (\<lambda>idx i (ranks, e').
              bindE (GET_GROUP_RANK_CACHE_ENTRY (gc_group_uid g) (int i) (int (gc_group_size g)) e')
                (\<lambda>(rank_info, e1). Inr (ranks @ [rank_info], e1)))
              (sd_ranks_bitset d) (sd_n_ranks d) 0 0 ([], e)) (\<lambda>(ranks, e1).
     bindE (assertE (length ranks = sd_n_ranks d)) (\<lambda>_.
     gp_upd gp (put_sp sp_key (d\<lparr>sd_ranks := Some ranks\<rparr>)) e1))))))"

definition populate_host_sps :: "int \<Rightarrow> nat \<Rightarrow> offloading_engine_t \<Rightarrow> offloading_engine_t res" where
  "populate_host_sps gp host_key e =
     bindE (gp_get gp e) (\<lambda>g.
     bindE (GET_GROUP_HOST_HASH_ENTRY g host_key) (\<lambda>r.
     bindE (derefE r) (\<lambda>d.
     bindE (assertE (hd_num_sps d \<noteq> 0)) (\<lambda>_.
     bindE (bits_loop (\<lambda>idx i (sps, g').
              bindE (GET_GROUP_SP_HASH_ENTRY g' i) (\<lambda>sp.
              bindE (assertE (sp \<noteq> None)) (\<lambda>_.
              Inr (sps @ [i], put_sp i ((the sp)\<lparr>sd_lid := idx\<rparr>) g'))))
              (hd_sps_bitset d) (hd_num_sps d) 0 0 ([], g)) (\<lambda>(sps, g1).
     bindE (assertE (length sps = hd_num_sps d)) (\<lambda>_.
     Inr (gp_put gp (put_host host_key (d\<lparr>hd_sps := Some sps\<rparr>) g1) e)))))))"

text \<open>The ordered list of the SPs of the group.  The body stores a pointer to the \<open>i\<close>-th SP of the
  engine, \<open>i\<close> being the position in the table.  An index beyond the arrays of SPs and hosts of the engine is a
  fault here, where \<open>DYN_ARRAY_GET_ELT\<close> would add zeroed elements to the array and return one of them.\<close>

definition fill_sps :: "offloading_engine_t \<Rightarrow> group_cache_t \<Rightarrow> group_cache_t res" where
  "fill_sps e g =
     (let sps0 = (case gc_sps g of None \<Rightarrow> replicate (gc_n_sps g) None | Some xs \<Rightarrow> xs) in
      bindE (bits_loop (\<lambda>i idx sps.
               bindE (guardE Out_of_bounds (i < length (e_service_procs e))) (\<lambda>_.
               updE sps i (Some i)))
               (gc_sps_bitset g) (gc_n_sps g) 0 0 sps0) (\<lambda>sps.
      Inr (g\<lparr>gc_sps := Some sps\<rparr>)))"

definition fill_hosts :: "offloading_engine_t \<Rightarrow> group_cache_t \<Rightarrow> group_cache_t res" where
  "fill_hosts e g =
     (let hosts0 = (case gc_hosts g of None \<Rightarrow> replicate (gc_n_hosts g) None | Some xs \<Rightarrow> xs) in
      bindE (bits_loop (\<lambda>i idx hosts.
               bindE (guardE Out_of_bounds (idx < length (cfg_hosts_config (e_config e)))) (\<lambda>_.
               updE hosts i (Some idx)))
               (gc_hosts_bitset g) (gc_n_hosts g) 0 0 hosts0) (\<lambda>hosts.
      Inr (g\<lparr>gc_hosts := Some hosts\<rparr>)))"

definition do_populate_group_cache_lookup_table ::
    "int \<Rightarrow> offloading_engine_t \<Rightarrow> offloading_engine_t res" where
  "do_populate_group_cache_lookup_table gp e =
     bindE (gp_get gp e) (\<lambda>g.
     if gc_lookup_tables_populated g then Inr e else
     bindE (assertE (gc_n_sps g \<noteq> 0)) (\<lambda>_.
     bindE (fill_sps e g) (\<lambda>g1.
     bindE (derefE (gc_sps_hash g1)) (\<lambda>sh.
     bindE (assertE (length sh = gc_n_sps g1)) (\<lambda>_.
     bindE (foldE (populate_sp_ranks gp) (map fst sh) (gp_put gp g1 e)) (\<lambda>e1.
     bindE (gp_get gp e1) (\<lambda>g2.
     bindE (assertE (gc_n_hosts g2 \<noteq> 0)) (\<lambda>_.
     bindE (fill_hosts e1 g2) (\<lambda>g3.
     bindE (derefE (gc_hosts_hash g3)) (\<lambda>hh.
     bindE (foldE (populate_host_sps gp) (map fst hh) (gp_put gp g3 e1)) (\<lambda>e2.
     gp_upd gp (gc_lookup_tables_populated_update (\<lambda>_. True)) e2)))))))))))"

definition populate_group_cache_lookup_table ::
    "int \<Rightarrow> offloading_engine_t \<Rightarrow> offloading_engine_t res" where
  "populate_group_cache_lookup_table gp e =
     bindE (gp_get gp e) (\<lambda>g.
     bindE (group_cache_populated (gc_group_uid g) e) (\<lambda>(p, e1).
     bindE (assertE p) (\<lambda>_.
     do_populate_group_cache_lookup_table gp e1)))"

section \<open>Queries\<close>

text \<open>The common opening of the queries: look the group up and build its tables if needed.\<close>

definition with_tables :: "int \<Rightarrow> offloading_engine_t \<Rightarrow> (group_cache_t \<times> offloading_engine_t) res" where
  "with_tables gp_uid e =
     bindE (GET_GROUP_CACHE gp_uid e) (\<lambda>e1.
     bindE (gp_get gp_uid e1) (\<lambda>g.
     bindE (if \<not> gc_lookup_tables_populated g
            then do_populate_group_cache_lookup_table gp_uid e1 else Inr e1) (\<lambda>e2.
     bindE (gp_get gp_uid e2) (\<lambda>g2. Inr (g2, e2)))))"

definition MIMOSA_GET_SP_FROM_GROUP_CACHE :: "group_cache_t \<Rightarrow> nat \<Rightarrow> nat res" where
  "MIMOSA_GET_SP_FROM_GROUP_CACHE g i =
     bindE (derefE (gc_sps g)) (\<lambda>xs. bindE (nthE xs i) derefE)"

definition MIMOSA_GET_HOST_FROM_GROUP_CACHE :: "group_cache_t \<Rightarrow> nat \<Rightarrow> nat res" where
  "MIMOSA_GET_HOST_FROM_GROUP_CACHE g i =
     bindE (derefE (gc_hosts g)) (\<lambda>xs. bindE (nthE xs i) derefE)"

text \<open>The global identifier of the SP, the UID of the host such a pointer leads to.\<close>

definition sp_gid_at :: "offloading_engine_t \<Rightarrow> group_cache_t \<Rightarrow> nat \<Rightarrow> nat res" where
  "sp_gid_at e g i =
     bindE (MIMOSA_GET_SP_FROM_GROUP_CACHE g i) (\<lambda>k.
     bindE (nthE (e_service_procs e) k) (\<lambda>sp. Inr (sp_global_id sp)))"

definition host_uid_at :: "offloading_engine_t \<Rightarrow> group_cache_t \<Rightarrow> nat \<Rightarrow> nat res" where
  "host_uid_at e g i =
     bindE (MIMOSA_GET_HOST_FROM_GROUP_CACHE g i) (\<lambda>k.
     bindE (nthE (cfg_hosts_config (e_config e)) k) (\<lambda>h. Inr (hi_uid h)))"

definition host_data_at :: "offloading_engine_t \<Rightarrow> group_cache_t \<Rightarrow> nat \<Rightarrow> host_cache_data_t res" where
  "host_data_at e g i =
     bindE (host_uid_at e g i) (\<lambda>u.
     bindE (GET_GROUP_HOST_HASH_ENTRY g u) (\<lambda>r.
     bindE (assertE (r \<noteq> None)) (\<lambda>_. derefE r)))"

definition sp_data_at :: "offloading_engine_t \<Rightarrow> group_cache_t \<Rightarrow> nat \<Rightarrow> sp_cache_data_t res" where
  "sp_data_at e g i =
     bindE (sp_gid_at e g i) (\<lambda>u.
     bindE (GET_GROUP_SP_HASH_ENTRY g u) (\<lambda>r.
     bindE (assertE (r \<noteq> None)) (\<lambda>_. derefE r)))"

type_synonym 'v query = "((dpu_offload_status_t \<times> 'v option) \<times> offloading_engine_t) res"

primrec scan_sps :: "offloading_engine_t \<Rightarrow> group_cache_t \<Rightarrow> nat \<Rightarrow> nat list \<Rightarrow> bool res" where
  "scan_sps e g gid [] = Inr False"
| "scan_sps e g gid (i # is) =
     bindE (sp_gid_at e g i) (\<lambda>k. if k = gid then Inr True else scan_sps e g gid is)"

definition get_global_sp_id_by_group :: "int \<Rightarrow> offloading_engine_t \<Rightarrow> nat query" where
  "get_global_sp_id_by_group gp_uid e =
     (if \<not> e_on_dpu e then Inr ((DO_ERROR, None), e) else
      bindE (GET_GROUP_CACHE gp_uid e) (\<lambda>e1.
      bindE (gp_get gp_uid e1) (\<lambda>g.
      bindE (scan_sps e1 g (cfg_local_sp_global_id (e_config e1)) [0..<gc_n_sps g]) (\<lambda>found.
      Inr (if found then (DO_SUCCESS, Some (cfg_local_sp_global_id (e_config e1)))
           else (DO_ERROR, None), e1)))))"

text \<open>The loop that translates the position of an SP in the group to its global identifier: it leaves
  \<open>idx\<close> at the SP, or at the number of SPs when there is none.\<close>

primrec nth_set_bit :: "group_cache_bitset_t \<Rightarrow> nat \<Rightarrow> nat \<Rightarrow> nat \<Rightarrow> nat \<Rightarrow> nat res" where
  "nth_set_bit bs target 0 cnt idx = Inr idx"
| "nth_set_bit bs target (Suc fuel) cnt idx =
     bindE (GROUP_CACHE_BITSET_TEST bs idx) (\<lambda>t.
       if t then (if cnt = target then Inr idx else nth_set_bit bs target fuel (Suc cnt) (Suc idx))
       else nth_set_bit bs target fuel cnt (Suc idx))"

definition get_local_sp_id_by_group :: "int \<Rightarrow> nat \<Rightarrow> offloading_engine_t \<Rightarrow> nat query" where
  "get_local_sp_id_by_group gp_uid sp_gp_guid e =
     bindE (with_tables gp_uid e) (\<lambda>(g, e1).
     if gc_n_sps g < sp_gp_guid then Inr ((DO_ERROR, Some UINT64_MAX), e1) else
     bindE (nth_set_bit (gc_sps_bitset g) sp_gp_guid (e_num_service_procs e1) 0 0) (\<lambda>idx.
     bindE (GET_GROUP_SP_HASH_ENTRY g idx) (\<lambda>r.
     bindE (assertE (r \<noteq> None)) (\<lambda>_.
     Inr ((DO_SUCCESS, Some (sd_lid (the r))), e1)))))"

primrec scan_hosts :: "offloading_engine_t \<Rightarrow> group_cache_t \<Rightarrow> nat \<Rightarrow> nat list \<Rightarrow> nat option res" where
  "scan_hosts e g uid [] = Inr None"
| "scan_hosts e g uid (i # is) =
     bindE (host_uid_at e g i) (\<lambda>u. if u = uid then Inr (Some i) else scan_hosts e g uid is)"

definition get_host_idx_by_group :: "int \<Rightarrow> offloading_engine_t \<Rightarrow> nat query" where
  "get_host_idx_by_group gp_uid e =
     (let my_host_uid = cfg_local_sp_host_uid (e_config e) in
      bindE (with_tables gp_uid e) (\<lambda>(g, e1).
      bindE (scan_hosts e1 g my_host_uid [0..<gc_n_hosts g]) (\<lambda>r.
      Inr (case r of Some i \<Rightarrow> (DO_SUCCESS, Some i) | None \<Rightarrow> (DO_ERROR, None), e1))))"

definition get_num_sps_by_group_host_idx :: "int \<Rightarrow> nat \<Rightarrow> offloading_engine_t \<Rightarrow> nat query" where
  "get_num_sps_by_group_host_idx gp_uid host_idx e =
     bindE (with_tables gp_uid e) (\<lambda>(g, e1).
     bindE (host_data_at e1 g host_idx) (\<lambda>d. Inr ((DO_SUCCESS, Some (hd_num_sps d)), e1)))"

definition get_num_ranks_for_group_sp :: "int \<Rightarrow> nat \<Rightarrow> offloading_engine_t \<Rightarrow> nat query" where
  "get_num_ranks_for_group_sp gp_uid sp_gp_gid e =
     bindE (with_tables gp_uid e) (\<lambda>(g, e1).
     bindE (sp_data_at e1 g sp_gp_gid) (\<lambda>d. Inr ((DO_SUCCESS, Some (sd_n_ranks d)), e1)))"

text \<open>The data of the \<open>n\<close>-th SP in the table of a host.\<close>

definition host_sp_at :: "group_cache_t \<Rightarrow> host_cache_data_t \<Rightarrow> nat \<Rightarrow> sp_cache_data_t res" where
  "host_sp_at g d n =
     bindE (derefE (hd_sps d)) (\<lambda>sps.
     bindE (nthE sps n) (\<lambda>k.
     bindE (GET_GROUP_SP_HASH_ENTRY g k) derefE))"

definition get_num_ranks_for_group_host_local_sp ::
    "int \<Rightarrow> nat \<Rightarrow> nat \<Rightarrow> offloading_engine_t \<Rightarrow> nat query" where
  "get_num_ranks_for_group_host_local_sp gp_uid host_idx local_host_sp_id e =
     bindE (with_tables gp_uid e) (\<lambda>(g, e1).
     bindE (host_data_at e1 g host_idx) (\<lambda>d.
     if hd_num_sps d \<le> local_host_sp_id then Inr ((DO_ERROR, None), e1) else
     bindE (host_sp_at g d local_host_sp_id) (\<lambda>sp.
     Inr ((DO_SUCCESS, Some (sd_n_ranks sp)), e1))))"

definition get_num_ranks_for_group_host_idx :: "int \<Rightarrow> nat \<Rightarrow> offloading_engine_t \<Rightarrow> nat query" where
  "get_num_ranks_for_group_host_idx gp_uid host_idx e =
     bindE (with_tables gp_uid e) (\<lambda>(g, e1).
     bindE (host_data_at e1 g host_idx) (\<lambda>d. Inr ((DO_SUCCESS, Some (hd_num_ranks d)), e1)))"

text \<open>The position of a rank among the ranks of a host; \<open>None\<close> is \<open>SIZE_MAX\<close>.\<close>

primrec rank_index_loop :: "group_cache_bitset_t \<Rightarrow> int \<Rightarrow> nat list \<Rightarrow> nat option \<Rightarrow> nat option res" where
  "rank_index_loop bs rank [] ri = Inr ri"
| "rank_index_loop bs rank (i # is) ri =
     bindE (GROUP_CACHE_BITSET_TEST bs i) (\<lambda>t.
     let ri1 = (if t then Some (case ri of None \<Rightarrow> 0 | Some k \<Rightarrow> Suc k) else ri) in
     if int i = rank then Inr ri1 else rank_index_loop bs rank is ri1)"

definition get_rank_idx_by_group_host_idx ::
    "int \<Rightarrow> nat \<Rightarrow> int \<Rightarrow> offloading_engine_t \<Rightarrow> nat query" where
  "get_rank_idx_by_group_host_idx gp_uid host_idx rank e =
     bindE (with_tables gp_uid e) (\<lambda>(g, e1).
     bindE (host_data_at e1 g host_idx) (\<lambda>d.
     bindE (guardE Out_of_bounds (0 \<le> rank)) (\<lambda>_.
     bindE (GROUP_CACHE_BITSET_TEST (hd_ranks_bitset d) (nat rank)) (\<lambda>t.
     if \<not> t then Inr ((DO_ERROR, Some UINT64_MAX), e1) else
     bindE (rank_index_loop (hd_ranks_bitset d) rank [0..<gc_group_size g] None) (\<lambda>ri.
     Inr ((DO_SUCCESS, Some (case ri of None \<Rightarrow> UINT64_MAX | Some k \<Rightarrow> k)), e1))))))"

primrec find_rank :: "peer_cache_entry_t list \<Rightarrow> int \<Rightarrow> nat list \<Rightarrow> nat list \<Rightarrow> nat option res" where
  "find_rank rs rank ranks [] = Inr None"
| "find_rank rs rank ranks (k # ks) =
     bindE (nthE ranks k) (\<lambda>p.
     bindE (nthE rs p) (\<lambda>pe.
     if ri_group_rank (pd_proc_info (pe_peer pe)) = rank then Inr (Some k)
     else find_rank rs rank ranks ks))"

definition get_rank_idx_by_group_sp_id ::
    "int \<Rightarrow> nat \<Rightarrow> int \<Rightarrow> offloading_engine_t \<Rightarrow> nat query" where
  "get_rank_idx_by_group_sp_id gp_uid sp_gp_gid rank e =
     bindE (with_tables gp_uid e) (\<lambda>(g, e1).
     bindE (sp_data_at e1 g sp_gp_gid) (\<lambda>d.
     bindE (derefE (sd_ranks d)) (\<lambda>ranks.
     bindE (derefE (gc_ranks g)) (\<lambda>rs.
     bindE (find_rank rs rank ranks [0..<sd_n_ranks d]) (\<lambda>r.
     Inr (case r of Some k \<Rightarrow> (DO_SUCCESS, Some k) | None \<Rightarrow> (DO_ERROR, Some UINT32_MAX), e1))))))"

definition get_all_sps_by_group_host_idx ::
    "int \<Rightarrow> nat \<Rightarrow> offloading_engine_t \<Rightarrow> (nat list option \<times> nat) query" where
  "get_all_sps_by_group_host_idx gp_uid host_idx e =
     bindE (with_tables gp_uid e) (\<lambda>(g, e1).
     bindE (host_data_at e1 g host_idx) (\<lambda>d.
     Inr ((DO_SUCCESS, Some (hd_sps d, hd_num_sps d)), e1)))"

definition get_all_hosts_by_group ::
    "int \<Rightarrow> offloading_engine_t \<Rightarrow> (nat option list option \<times> nat) query" where
  "get_all_hosts_by_group gp_uid e =
     bindE (with_tables gp_uid e) (\<lambda>(g, e1). Inr ((DO_SUCCESS, Some (gc_hosts g, gc_n_hosts g)), e1))"

definition get_all_ranks_by_group_sp_gid ::
    "int \<Rightarrow> nat \<Rightarrow> offloading_engine_t \<Rightarrow> (nat list option \<times> nat) query" where
  "get_all_ranks_by_group_sp_gid gp_uid sp_group_gid e =
     bindE (with_tables gp_uid e) (\<lambda>(g, e1).
     bindE (sp_data_at e1 g sp_group_gid) (\<lambda>d.
     Inr ((DO_SUCCESS, Some (sd_ranks d, sd_n_ranks d)), e1)))"

definition get_all_ranks_by_group_sp_lid ::
    "int \<Rightarrow> nat \<Rightarrow> nat \<Rightarrow> offloading_engine_t \<Rightarrow> (nat list option \<times> nat) query" where
  "get_all_ranks_by_group_sp_lid gp_uid host_idx sp_group_lid e =
     bindE (with_tables gp_uid e) (\<lambda>(g, e1).
     bindE (host_data_at e1 g host_idx) (\<lambda>d.
     bindE (host_sp_at g d sp_group_lid) (\<lambda>sp.
     Inr ((DO_SUCCESS, Some (sd_ranks sp, sd_n_ranks sp)), e1))))"

definition get_nth_sp_by_group_host_idx ::
    "int \<Rightarrow> nat \<Rightarrow> nat \<Rightarrow> offloading_engine_t \<Rightarrow> nat query" where
  "get_nth_sp_by_group_host_idx gp_uid host_idx n e =
     bindE (with_tables gp_uid e) (\<lambda>(g, e1).
     bindE (host_uid_at e1 g host_idx) (\<lambda>u.
     bindE (GET_GROUP_HOST_HASH_ENTRY g u) (\<lambda>r.
     bindE (derefE r) (\<lambda>d.
     if hd_num_sps d \<le> n then Inr ((DO_ERROR, None), e1) else
     bindE (host_sp_at g d n) (\<lambda>sp. Inr ((DO_SUCCESS, Some (sd_gid sp)), e1))))))"

text \<open>The number of SPs of the group with a smaller identifier.\<close>

definition count_bits_below :: "group_cache_bitset_t \<Rightarrow> nat \<Rightarrow> nat res" where
  "count_bits_below bs n =
     foldE (\<lambda>i c. bindE (GROUP_CACHE_BITSET_TEST bs i) (\<lambda>t. Inr (if t then Suc c else c))) [0..<n] 0"

definition get_sp_group_gid :: "int \<Rightarrow> nat \<Rightarrow> offloading_engine_t \<Rightarrow> nat query" where
  "get_sp_group_gid gp_uid sp_gid e =
     bindE (with_tables gp_uid e) (\<lambda>(g, e1).
     bindE (if gc_sps g = None then Inr (True, e1)
            else bindE (group_cache_populated gp_uid e1) (\<lambda>(p, e2). Inr (\<not> p, e2))) (\<lambda>(incomplete, e2).
     if incomplete then Inr ((DO_ERROR, None), e2) else
     bindE (GROUP_CACHE_BITSET_TEST (gc_sps_bitset g) sp_gid) (\<lambda>sp_in_group.
     if gc_n_sps g < sp_gid \<or> \<not> sp_in_group then Inr ((DO_ERROR, Some UINT64_MAX), e2) else
     bindE (count_bits_below (gc_sps_bitset g) sp_gid) (\<lambda>n.
     Inr ((DO_SUCCESS, Some n), e2)))))"

definition get_group_ranks_on_host :: "int \<Rightarrow> nat \<Rightarrow> offloading_engine_t \<Rightarrow> nat list query" where
  "get_group_ranks_on_host gp_uid host_id e =
     bindE (with_tables gp_uid e) (\<lambda>(g, e1).
     bindE (foldE (\<lambda>i (ranks, e').
              bindE (GET_GROUP_RANK_CACHE_ENTRY gp_uid (int i) GROUP_SIZE_UNKNOWN e') (\<lambda>(p, e2).
              bindE (rank_entry gp_uid p e2) (\<lambda>pe.
              Inr (if pd_host_info (pe_peer pe) = host_id then ranks @ [i] else ranks, e2))))
              [0..<gc_group_size g] ([], e1)) (\<lambda>(ranks, e2).
     Inr ((DO_SUCCESS, Some ranks), e2)))"

definition get_group_local_sps :: "int \<Rightarrow> offloading_engine_t \<Rightarrow> nat list query" where
  "get_group_local_sps gp_uid e =
     (if \<not> e_on_dpu e then Inr ((DO_SUCCESS, Some []), e) else
      bindE (assertE (e_host_id e \<noteq> UINT64_MAX)) (\<lambda>_.
      bindE (with_tables gp_uid e) (\<lambda>(g, e1).
      bindE (foldE (\<lambda>i (sps, e').
               bindE (GET_GROUP_RANK_CACHE_ENTRY gp_uid (int i) GROUP_SIZE_UNKNOWN e') (\<lambda>(p, e2).
               bindE (rank_entry gp_uid p e2) (\<lambda>pe.
               if pd_host_info (pe_peer pe) = e_host_id e then
                 bindE (guardE Out_of_bounds
                          (pe_num_shadow_service_procs pe \<le> length (pe_shadow_service_procs pe))) (\<lambda>_.
                 Inr (sps @ take (pe_num_shadow_service_procs pe) (pe_shadow_service_procs pe), e2))
               else Inr (sps, e2))))
               [0..<gc_group_size g] ([], e1)) (\<lambda>(sps, e2).
      Inr ((DO_SUCCESS, Some sps), e2)))))"

definition get_group_rank_host :: "int \<Rightarrow> int \<Rightarrow> offloading_engine_t \<Rightarrow> nat query" where
  "get_group_rank_host gp_uid rank e =
     bindE (is_in_cache gp_uid rank (- 1) e) (\<lambda>(cached, e1).
     if cached then
       bindE (GET_GROUP_RANK_CACHE_ENTRY gp_uid rank GROUP_SIZE_UNKNOWN e1) (\<lambda>(p, e2).
       bindE (rank_entry gp_uid p e2) (\<lambda>pe.
       Inr ((DO_SUCCESS, Some (pd_host_info (pe_peer pe))), e2)))
     else Inr ((DO_ERROR, Some UINT64_MAX), e1))"

definition get_group_rank_sps ::
    "int \<Rightarrow> int \<Rightarrow> offloading_engine_t \<Rightarrow> (nat \<times> nat list option) query" where
  "get_group_rank_sps gp_uid rank e =
     bindE (with_tables gp_uid e) (\<lambda>(g, e1).
     bindE (get_group_rank_host gp_uid rank e1) (\<lambda>((rc, host), e2).
     if rc \<noteq> DO_SUCCESS then Inr ((DO_ERROR, None), e2) else
     bindE (derefE host) (\<lambda>host_id.
     bindE (gp_get gp_uid e2) (\<lambda>g2.
     bindE (GET_GROUP_HOST_HASH_ENTRY g2 host_id) (\<lambda>r.
     bindE (assertE (r \<noteq> None)) (\<lambda>_.
     Inr ((DO_SUCCESS, Some (hd_num_sps (the r), hd_sps (the r))), e2)))))))"

definition get_sp_id_by_group_rank ::
    "int \<Rightarrow> int \<Rightarrow> nat \<Rightarrow> offloading_engine_t \<Rightarrow> nat query" where
  "get_sp_id_by_group_rank gp_uid rank sp_idx e =
     bindE (is_in_cache gp_uid rank (- 1) e) (\<lambda>(cached, e1).
     if cached then
       bindE (GET_GROUP_RANK_CACHE_ENTRY gp_uid rank GROUP_SIZE_UNKNOWN e1) (\<lambda>(p, e2).
       bindE (rank_entry gp_uid p e2) (\<lambda>pe.
       bindE (nthE (pe_shadow_service_procs pe) sp_idx) (\<lambda>sp. Inr ((DO_SUCCESS, Some sp), e2))))
     else Inl Assert_failed)"

definition on_same_host :: "int \<Rightarrow> int \<Rightarrow> int \<Rightarrow> offloading_engine_t \<Rightarrow> (bool \<times> offloading_engine_t) res" where
  "on_same_host gp_uid rank1 rank2 e =
     bindE (get_group_rank_host gp_uid rank1 e) (\<lambda>((rc1, host1), e1).
     if rc1 \<noteq> DO_SUCCESS then Inr (False, e1) else
     bindE (get_group_rank_host gp_uid rank2 e1) (\<lambda>((rc2, host2), e2).
     if rc2 \<noteq> DO_SUCCESS then Inr (False, e2) else Inr (host1 = host2, e2)))"

primrec any_sp_has_rank :: "group_cache_t \<Rightarrow> nat \<Rightarrow> nat list \<Rightarrow> bool res" where
  "any_sp_has_rank g rank [] = Inr False"
| "any_sp_has_rank g rank (sp # sps) =
     bindE (GET_GROUP_SP_HASH_ENTRY g sp) (\<lambda>r.
     bindE (assertE (r \<noteq> None)) (\<lambda>_.
     bindE (GROUP_CACHE_BITSET_TEST (sd_ranks_bitset (the r)) rank) (\<lambda>t.
     if t then Inr True else any_sp_has_rank g rank sps)))"

definition on_same_sp :: "int \<Rightarrow> int \<Rightarrow> int \<Rightarrow> offloading_engine_t \<Rightarrow> (bool \<times> offloading_engine_t) res" where
  "on_same_sp gp_uid rank1 rank2 e =
     bindE (with_tables gp_uid e) (\<lambda>(g, e1).
     bindE (MIMOSA_GET_RANK_FROM_GROUP_CACHE g rank1) (\<lambda>p.
     bindE (rank_entry gp_uid p e1) (\<lambda>pe.
     bindE (guardE Out_of_bounds
              (pe_num_shadow_service_procs pe \<le> length (pe_shadow_service_procs pe) \<and> 0 \<le> rank2)) (\<lambda>_.
     bindE (any_sp_has_rank g (nat rank2)
              (take (pe_num_shadow_service_procs pe) (pe_shadow_service_procs pe))) (\<lambda>b.
     Inr (b, e1))))))"

section \<open>Adding ranks and revoking a group\<close>

definition set_rank_entry :: "nat \<Rightarrow> peer_cache_entry_t \<Rightarrow> group_cache_t \<Rightarrow> group_cache_t res" where
  "set_rank_entry i pe g =
     bindE (derefE (gc_ranks g)) (\<lambda>rs. bindE (updE rs i pe) (\<lambda>rs1. Inr (g\<lparr>gc_ranks := Some rs1\<rparr>)))"

definition host_add_local_rank_to_cache ::
    "rank_info_t \<Rightarrow> offloading_engine_t \<Rightarrow> offloading_engine_t res" where
  "host_add_local_rank_to_cache ri e =
     (let uid = ri_group_uid ri; my_sp = cfg_local_sp_global_id (e_config e) in
      bindE (GET_GROUP_RANK_CACHE_ENTRY uid (ri_group_rank ri) (ri_group_size ri) e) (\<lambda>(p, e1).
      bindE (GET_GROUP_CACHE_INTERNAL uid (ri_group_size ri) e1) (\<lambda>e2.
      bindE (rank_entry uid p e2) (\<lambda>pe.
      bindE (assertE (\<not> pe_set pe)) (\<lambda>_.
      bindE (assertE (pe_num_shadow_service_procs pe = 0)) (\<lambda>_.
      bindE (gp_get uid e2) (\<lambda>g.
      bindE (if gc_num_local_entries g = 0 then
               bindE (assertE (ri_group_seq_num ri \<noteq> 0)) (\<lambda>_.
               Inr (g\<lparr>gc_persistent := (gc_persistent g)\<lparr>p_num := ri_group_seq_num ri\<rparr>\<rparr>))
             else Inr g) (\<lambda>g1.
      bindE (updE (pe_shadow_service_procs pe) 0 my_sp) (\<lambda>shadow.
      let pinfo = (pd_proc_info (pe_peer pe))\<lparr>ri_group_uid := ri_group_uid ri,
                    ri_group_rank := ri_group_rank ri, ri_group_size := ri_group_size ri,
                    ri_n_local_ranks := ri_n_local_ranks ri\<rparr>;
          pe1 = pe\<lparr>pe_shadow_service_procs := shadow,
                  pe_peer := (pe_peer pe)\<lparr>pd_proc_info := pinfo, pd_host_info := ri_host_info ri\<rparr>,
                  pe_num_shadow_service_procs := 1, pe_set := True\<rparr> in
      bindE (set_rank_entry p pe1 g1) (\<lambda>g2.
      let e3 = gp_put uid (g2\<lparr>gc_num_local_entries := Suc (gc_num_local_entries g2)\<rparr>) e2 in
      if my_sp \<noteq> UINT64_MAX
      then update_topology_data uid (ri_group_rank ri) my_sp (ri_host_info ri) e3
      else Inr e3))))))))))"

text \<open>\<open>GROUP_CACHE_HASHES_FINI\<close>: every SP and host object goes back to its pool with its bitsets
  destroyed; the ranks of an SP are freed, the SPs of a host only when \<open>sps_initialized\<close> is set.\<close>

definition GROUP_CACHE_HASHES_FINI ::
    "group_cache_t \<Rightarrow> offloading_engine_t \<Rightarrow> (group_cache_t \<times> offloading_engine_t) res" where
  "GROUP_CACHE_HASHES_FINI g e =
     bindE (assertE (gc_sps_hash g \<noteq> None)) (\<lambda>_.
     bindE (assertE (gc_hosts_hash g \<noteq> None)) (\<lambda>_.
     let sp_objs = map (\<lambda>(k, d). d\<lparr>sd_ranks_bitset := None, sd_ranks := None\<rparr>) (the (gc_sps_hash g));
         host_objs = map (\<lambda>(k, d). d\<lparr>hd_sps_bitset := None, hd_ranks_bitset := None,
                                       hd_sps_initialized := False\<rparr>) (the (gc_hosts_hash g)) in
     Inr (g, e\<lparr>e_free_sp_cache_hash_obj := rev sp_objs @ e_free_sp_cache_hash_obj e,
               e_free_host_cache_hash_obj := rev host_objs @ e_free_host_cache_hash_obj e\<rparr>)))"

definition RESET_GROUP_CACHE ::
    "group_cache_t \<Rightarrow> offloading_engine_t \<Rightarrow> (group_cache_t \<times> offloading_engine_t) res" where
  "RESET_GROUP_CACHE g e =
     bindE (GROUP_CACHE_HASHES_FINI g e) (\<lambda>(g1, e1).
     let g2 = g1\<lparr>gc_sps := None, gc_hosts := None, gc_ranks := None,
                 gc_revokes_ranks := GROUP_CACHE_BITSET_DESTROY (gc_revokes_ranks g1)\<rparr> in
     Inr (BASIC_INIT_GROUP_CACHE g2, e1))"

text \<open>\<open>revoke_group_cache\<close> up to the handling of the pending cache entries, which belongs to the group
  protocol; the entries of the ranks give their events back.\<close>

definition reset_entries :: "nat \<Rightarrow> group_cache_t \<Rightarrow> offloading_engine_t \<Rightarrow> offloading_engine_t res" where
  "reset_entries n g e =
     foldE (\<lambda>i e'.
       bindE (derefE (gc_ranks g)) (\<lambda>rs.
       bindE (nthE rs i) (\<lambda>pe.
       Inr (foldl (\<lambda>e'' ev. log_call (Event_return ev) e'') e' (fst (RESET_PEER_CACHE_ENTRY pe))))))
       [0..<n] e"

definition revoke_group_cache_reset :: "int \<Rightarrow> offloading_engine_t \<Rightarrow> offloading_engine_t res" where
  "revoke_group_cache_reset gp_uid e =
     bindE (GET_GROUP_CACHE gp_uid e) (\<lambda>e1.
     bindE (gp_get gp_uid e1) (\<lambda>c.
     bindE (assertE (gc_group_size c \<noteq> 0)) (\<lambda>_.
     bindE (reset_entries (gc_group_size c) c e1) (\<lambda>e2.
     let c1 = c\<lparr>gc_sps_bitset := GROUP_CACHE_BITSET_DESTROY (gc_sps_bitset c),
                gc_hosts_bitset := GROUP_CACHE_BITSET_DESTROY (gc_hosts_bitset c)\<rparr> in
     bindE (RESET_GROUP_CACHE c1 e2) (\<lambda>(c2, e3).
     bindE (assertE (gc_revokes_local c2 = 0)) (\<lambda>_.
     bindE (assertE (gc_revokes_global c2 = 0)) (\<lambda>_.
     Inr (log_call (Revoke_callback gp_uid) (gp_put gp_uid c2 e3)))))))))"

end
