(* ===== verification/Group_Topology.thy ===== *)
theory Group_Topology
imports Group_Cache
begin

text \<open>
  Correctness of the topology bookkeeping: the hash tables, bitsets and counters that
  \<open>update_topology_data\<close> maintains refine the list of the (rank, SP, host) associations it was called
  with.
\<close>

section \<open>The abstract topology\<close>

type_synonym topology = "(nat \<times> nat \<times> nat) list"

definition topo_sps :: "topology \<Rightarrow> nat set" where
  "topo_sps T = (\<lambda>(r, s, h). s) ` set T"

definition topo_hosts :: "topology \<Rightarrow> nat set" where
  "topo_hosts T = (\<lambda>(r, s, h). h) ` set T"

definition ranks_of_sp :: "topology \<Rightarrow> nat \<Rightarrow> nat set" where
  "ranks_of_sp T k = {r. \<exists>h. (r, k, h) \<in> set T}"

definition ranks_of_host :: "topology \<Rightarrow> nat \<Rightarrow> nat set" where
  "ranks_of_host T k = {r. \<exists>s. (r, s, k) \<in> set T}"

definition sps_of_host :: "topology \<Rightarrow> nat \<Rightarrow> nat set" where
  "sps_of_host T k = {s. \<exists>r. (r, s, k) \<in> set T}"

lemma topo_snoc [simp]:
  "topo_sps (T @ [(r, s, h)]) = insert s (topo_sps T)"
  "topo_hosts (T @ [(r, s, h)]) = insert h (topo_hosts T)"
  "ranks_of_sp (T @ [(r, s, h)]) k = (if k = s then insert r (ranks_of_sp T k) else ranks_of_sp T k)"
  "ranks_of_host (T @ [(r, s, h)]) k = (if k = h then insert r (ranks_of_host T k) else ranks_of_host T k)"
  "sps_of_host (T @ [(r, s, h)]) k = (if k = h then insert s (sps_of_host T k) else sps_of_host T k)"
  by (auto simp: topo_sps_def topo_hosts_def ranks_of_sp_def ranks_of_host_def sps_of_host_def)

lemma topo_finite [simp]: "finite (sps_of_host T k)" "finite (topo_sps T)" "finite (topo_hosts T)"
proof -
  have "sps_of_host T k \<subseteq> (\<lambda>(r, s, h). s) ` set T"
    by (force simp: sps_of_host_def)
  then show "finite (sps_of_host T k)"
    by (rule finite_subset) simp
qed (simp_all add: topo_sps_def topo_hosts_def)

lemma topo_empty:
  "k \<notin> topo_sps T \<Longrightarrow> ranks_of_sp T k = {}"
  "k \<notin> topo_hosts T \<Longrightarrow> ranks_of_host T k = {}"
  "k \<notin> topo_hosts T \<Longrightarrow> sps_of_host T k = {}"
  by (force simp: topo_sps_def topo_hosts_def ranks_of_sp_def ranks_of_host_def sps_of_host_def)+

lemma topo_count_empty:
  "k \<notin> topo_sps T \<Longrightarrow> filter (\<lambda>(r, s, h). s = k) T = []"
  "k \<notin> topo_hosts T \<Longrightarrow> filter (\<lambda>(r, s, h). h = k) T = []"
  by (force simp: topo_sps_def topo_hosts_def filter_empty_conv)+

section \<open>The part on the SPs\<close>

definition sp_ok :: "nat \<Rightarrow> topology \<Rightarrow> nat \<Rightarrow> sp_cache_data_t \<Rightarrow> bool" where
  "sp_ok n T k d =
     (sd_gid d = k \<and> bs_elems (sd_ranks_bitset d) = ranks_of_sp T k
      \<and> bs_capacity (sd_ranks_bitset d) = CHAR_BIT * GROUP_CACHE_BITSET_NSLOTS n
      \<and> sd_n_ranks d = length (filter (\<lambda>(r, s, h). s = k) T))"

definition sp_inv :: "topology \<Rightarrow> group_cache_t \<Rightarrow> bool" where
  "sp_inv T g =
     (case gc_sps_hash g of
        None \<Rightarrow> False
      | Some m \<Rightarrow>
          distinct (map fst m) \<and> fst ` set m = topo_sps T \<and> gc_n_sps g = length m
          \<and> (\<forall>k d. map_of m k = Some d \<longrightarrow> sp_ok (gc_group_size g) T k d)
          \<and> bs_elems (gc_sps_bitset g) = topo_sps T
          \<and> (gc_sps_bitset g = None
             \<or> bs_capacity (gc_sps_bitset g) = CHAR_BIT * GROUP_CACHE_BITSET_NSLOTS (gc_group_size g)))"

lemma nslots_bit_pos: "0 < n \<Longrightarrow> 0 < CHAR_BIT * GROUP_CACHE_BITSET_NSLOTS n"
  by (simp add: nslots_pos CHAR_BIT_def)

lemma create_spec:
  assumes "0 < n" "bs = None \<or> bs_capacity bs = CHAR_BIT * GROUP_CACHE_BITSET_NSLOTS n"
  shows "\<exists>bs'. GROUP_CACHE_BITSET_CREATE bs n = Inr bs' \<and> bs_elems bs' = bs_elems bs
           \<and> bs_capacity bs' = CHAR_BIT * GROUP_CACHE_BITSET_NSLOTS n"
proof (cases bs)
  case None
  with bs_create[OF assms(1)] show ?thesis
    by auto
next
  case (Some xs)
  with assms show ?thesis
    by (simp add: bs_create_keeps)
qed

lemma map_of_None_keys: "map_of m k = None \<longleftrightarrow> k \<notin> fst ` set m"
  by (simp add: map_of_eq_None_iff)

lemma sp_entry: "gc_sps_hash g = Some m \<Longrightarrow> GET_GROUP_SP_HASH_ENTRY g k = Inr (map_of m k)"
  by (auto simp: GET_GROUP_SP_HASH_ENTRY_def)

lemma host_entry: "gc_hosts_hash g = Some m \<Longrightarrow> GET_GROUP_HOST_HASH_ENTRY g k = Inr (map_of m k)"
  by (auto simp: GET_GROUP_HOST_HASH_ENTRY_def)

lemma get_sp_obj_shape: "\<exists>d pool. get_sp_obj e = (d, e\<lparr>e_free_sp_cache_hash_obj := pool\<rparr>)"
proof (cases "e_free_sp_cache_hash_obj e")
  case Nil
  then have "get_sp_obj e = (raw_sp_cache_data, e\<lparr>e_free_sp_cache_hash_obj := []\<rparr>)"
    by (cases e) (simp add: get_sp_obj_def)
  then show ?thesis
    by blast
qed (auto simp: get_sp_obj_def)

lemma get_host_obj_shape: "\<exists>d pool. get_host_obj e = (d, e\<lparr>e_free_host_cache_hash_obj := pool\<rparr>)"
proof (cases "e_free_host_cache_hash_obj e")
  case Nil
  then have "get_host_obj e = (raw_host_cache_data, e\<lparr>e_free_host_cache_hash_obj := []\<rparr>)"
    by (cases e) (simp add: get_host_obj_def)
  then show ?thesis
    by blast
qed (auto simp: get_host_obj_def)

lemma kh_put_put: "kh_put k x (kh_put k y m) = kh_put k x m"
  by (induction m) (auto simp: kh_put_def)

lemma update_topology_sp_step:
  assumes inv: "sp_inv T g" and n: "0 < gc_group_size g" "r < gc_group_size g"
    and s: "s < CHAR_BIT * GROUP_CACHE_BITSET_NSLOTS (gc_group_size g)"
  shows "\<exists>m nsp sb pool. update_topology_sp (int r) s h e g
            = Inr (e\<lparr>e_free_sp_cache_hash_obj := pool\<rparr>,
                   g\<lparr>gc_n_sps := nsp, gc_sps_bitset := sb, gc_sps_hash := Some m\<rparr>)
          \<and> sp_inv (T @ [(r, s, h)]) (g\<lparr>gc_n_sps := nsp, gc_sps_bitset := sb, gc_sps_hash := Some m\<rparr>)"
proof -
  let ?n = "gc_group_size g" and ?N = "CHAR_BIT * GROUP_CACHE_BITSET_NSLOTS (gc_group_size g)"
  from inv obtain m where m: "gc_sps_hash g = Some m" "distinct (map fst m)" "fst ` set m = topo_sps T"
      "gc_n_sps g = length m" "\<And>k d. map_of m k = Some d \<Longrightarrow> sp_ok ?n T k d"
      "bs_elems (gc_sps_bitset g) = topo_sps T"
      "gc_sps_bitset g = None \<or> bs_capacity (gc_sps_bitset g) = ?N"
    by (auto simp: sp_inv_def split: option.splits)
  have rN: "r < ?N"
    using n(2) nslots_covers[of ?n] by simp
  show ?thesis
  proof (cases "map_of m s")
    case (Some d)
    have ok: "sp_ok ?n T s d"
      by (rule m(5)[OF Some])
    then have "r < bs_capacity (sd_ranks_bitset d)"
      using rN by (simp add: sp_ok_def)
    from bs.set_in[OF this] obtain rb where rb: "GROUP_CACHE_BITSET_SET (sd_ranks_bitset d) r = Inr rb"
        "bs_elems rb = insert r (bs_elems (sd_ranks_bitset d))"
        "bs_capacity rb = bs_capacity (sd_ranks_bitset d)"
      by auto
    have nn: "sd_ranks_bitset d \<noteq> None"
      using ok nslots_bit_pos[OF n(1)] by (intro bs_capacity_pos) (simp add: sp_ok_def)
    let ?d = "d\<lparr>sd_n_ranks := Suc (sd_n_ranks d), sd_ranks_bitset := rb\<rparr>"
    have in_s: "s \<in> topo_sps T"
      using Some m(3) by (metis map_of_None_keys option.distinct(1))
    have u: "update_topology_sp (int r) s h e g
        = Inr (e\<lparr>e_free_sp_cache_hash_obj := e_free_sp_cache_hash_obj e\<rparr>,
               g\<lparr>gc_n_sps := gc_n_sps g, gc_sps_bitset := gc_sps_bitset g,
                 gc_sps_hash := Some (kh_put s ?d m)\<rparr>)"
      using m(1) Some nn rb(1) by (simp add: update_topology_sp_def sp_entry put_sp_def)
    have "sp_inv (T @ [(r, s, h)]) (g\<lparr>gc_sps_hash := Some (kh_put s ?d m)\<rparr>)"
      using m ok rb in_s by (auto simp: sp_inv_def kh_keys_put kh_put_length sp_ok_def insert_absorb)
    with u show ?thesis
      by (intro exI) (assumption | rule conjI | simp)+
  next
    case None
    then have new: "s \<notin> topo_sps T"
      using m(3) by (simp add: map_of_None_keys)
    obtain d0 pool where obj: "get_sp_obj e = (d0, e\<lparr>e_free_sp_cache_hash_obj := pool\<rparr>)"
      using get_sp_obj_shape by blast
    from bs_create[OF n(1)] obtain rb where rb: "GROUP_CACHE_BITSET_CREATE None ?n = Inr rb"
        "bs_elems rb = {}" "bs_capacity rb = ?N"
      by auto
    from create_spec[OF n(1) m(7)] obtain sb where sb: "GROUP_CACHE_BITSET_CREATE (gc_sps_bitset g) ?n = Inr sb"
        "bs_elems sb = topo_sps T" "bs_capacity sb = ?N"
      using m(6) by auto
    from bs.set_in[of s sb] s sb obtain sb2 where sb2: "GROUP_CACHE_BITSET_SET sb s = Inr sb2"
        "bs_elems sb2 = insert s (topo_sps T)" "bs_capacity sb2 = ?N"
      by auto
    from bs.set_in[of r rb] rN rb obtain rb2 where rb2: "GROUP_CACHE_BITSET_SET rb r = Inr rb2"
        "bs_elems rb2 = {r}" "bs_capacity rb2 = ?N"
      by auto
    have nn: "rb \<noteq> None"
      using rb nslots_bit_pos[OF n(1)] by (intro bs_capacity_pos) simp
    let ?d = "(RESET_SP_CACHE_DATA d0)\<lparr>sd_gid := s, sd_n_ranks := 1,
                 sd_gp_uid := gc_group_uid g, sd_host_uid := h, sd_ranks_bitset := rb2\<rparr>"
    let ?g = "g\<lparr>gc_n_sps := Suc (gc_n_sps g), gc_sps_bitset := sb2, gc_sps_hash := Some (kh_put s ?d m)\<rparr>"
    have u: "update_topology_sp (int r) s h e g = Inr (e\<lparr>e_free_sp_cache_hash_obj := pool\<rparr>, ?g)"
      using m(1) None nn rb(1) sb(1) sb2(1) rb2(1) obj
      by (simp add: update_topology_sp_def sp_entry put_sp_def ADD_GROUP_SP_HASH_ENTRY_def
          RESET_SP_CACHE_DATA_def kh_put_put Let_def)
    have "sp_inv (T @ [(r, s, h)]) ?g"
      using m(2-5) sb2 rb2 new topo_empty(1)[OF new] topo_count_empty(1)[OF new]
      by (auto simp: sp_inv_def kh_keys_put kh_put_length sp_ok_def)
    with u show ?thesis
      by blast
  qed
qed

section \<open>The part on the hosts\<close>

definition host_ok :: "nat \<Rightarrow> (nat \<Rightarrow> nat option) \<Rightarrow> topology \<Rightarrow> nat \<Rightarrow> host_cache_data_t \<Rightarrow> bool" where
  "host_ok n tab T k d =
     (hd_uid d = k \<and> tab k = Some (hd_config_idx d)
      \<and> bs_elems (hd_sps_bitset d) = sps_of_host T k \<and> hd_num_sps d = card (sps_of_host T k)
      \<and> bs_capacity (hd_sps_bitset d) = CHAR_BIT * GROUP_CACHE_BITSET_NSLOTS n
      \<and> bs_elems (hd_ranks_bitset d) = ranks_of_host T k
      \<and> bs_capacity (hd_ranks_bitset d) = CHAR_BIT * GROUP_CACHE_BITSET_NSLOTS n
      \<and> hd_num_ranks d = length (filter (\<lambda>(r, s, h). h = k) T))"

definition host_inv :: "nat \<Rightarrow> (nat \<Rightarrow> nat option) \<Rightarrow> topology \<Rightarrow> group_cache_t \<Rightarrow> bool" where
  "host_inv nh tab T g =
     (case gc_hosts_hash g of
        None \<Rightarrow> False
      | Some m \<Rightarrow>
          distinct (map fst m) \<and> fst ` set m = topo_hosts T \<and> gc_n_hosts g = length m
          \<and> (\<forall>k d. map_of m k = Some d \<longrightarrow> host_ok (gc_group_size g) tab T k d)
          \<and> bs_elems (gc_hosts_bitset g) = (\<lambda>h. the (tab h)) ` topo_hosts T
          \<and> (gc_hosts_bitset g = None
             \<or> bs_capacity (gc_hosts_bitset g) = CHAR_BIT * GROUP_CACHE_BITSET_NSLOTS nh))"

lemma lookup_conv: "LOOKUP_HOST_CONFIG_IDX e h = map_of (cfg_host_lookup_table (e_config e)) h"
  by (auto simp: LOOKUP_HOST_CONFIG_IDX_def)

lemma update_topology_host_known:
  assumes m: "gc_hosts_hash g = Some m" "map_of m h = Some d"
    and ok: "host_ok (gc_group_size g) tab T h d"
    and r: "r < CHAR_BIT * GROUP_CACHE_BITSET_NSLOTS (gc_group_size g)"
    and s: "s < CHAR_BIT * GROUP_CACHE_BITSET_NSLOTS (gc_group_size g)"
  shows "\<exists>d'. update_topology_host (int r) s h e g = Inr (e, g\<lparr>gc_hosts_hash := Some (kh_put h d' m)\<rparr>)
          \<and> host_ok (gc_group_size g) tab (T @ [(r, s, h)]) h d'"
proof -
  let ?N = "CHAR_BIT * GROUP_CACHE_BITSET_NSLOTS (gc_group_size g)"
  from ok have caps: "bs_capacity (hd_sps_bitset d) = ?N" "bs_capacity (hd_ranks_bitset d) = ?N"
    by (simp_all add: host_ok_def)
  obtain rb where rb: "GROUP_CACHE_BITSET_SET (hd_ranks_bitset d) r = Inr rb"
      "bs_elems rb = insert r (bs_elems (hd_ranks_bitset d))" "bs_capacity rb = ?N"
    using bs.set_in[of r "hd_ranks_bitset d"] r caps by auto
  obtain sb where sb: "GROUP_CACHE_BITSET_SET (hd_sps_bitset d) s = Inr sb"
      "bs_elems sb = insert s (bs_elems (hd_sps_bitset d))" "bs_capacity sb = ?N"
    using bs.set_in[of s "hd_sps_bitset d"] s caps by auto
  have t: "GROUP_CACHE_BITSET_TEST (hd_sps_bitset d) s = Inr (s \<in> sps_of_host T h)"
    using ok s caps by (simp add: bs.test_in host_ok_def)
  note simps = update_topology_host_def host_entry[OF m(1)] m t rb(1) sb(1) put_host_def
  show ?thesis
  proof (cases "s \<in> sps_of_host T h")
    case True
    let ?d = "d\<lparr>hd_num_ranks := Suc (hd_num_ranks d), hd_ranks_bitset := rb\<rparr>"
    have "update_topology_host (int r) s h e g = Inr (e, g\<lparr>gc_hosts_hash := Some (kh_put h ?d m)\<rparr>)"
      using True by (simp add: simps)
    moreover have "host_ok (gc_group_size g) tab (T @ [(r, s, h)]) h ?d"
      using ok rb True by (simp add: host_ok_def insert_absorb)
    ultimately show ?thesis by blast
  next
    case False
    let ?d = "d\<lparr>hd_num_ranks := Suc (hd_num_ranks d), hd_num_sps := Suc (hd_num_sps d),
                hd_sps_bitset := sb, hd_ranks_bitset := rb\<rparr>"
    have "update_topology_host (int r) s h e g = Inr (e, g\<lparr>gc_hosts_hash := Some (kh_put h ?d m)\<rparr>)"
      using False by (simp add: simps)
    moreover have "host_ok (gc_group_size g) tab (T @ [(r, s, h)]) h ?d"
      using ok rb sb False by (simp add: host_ok_def)
    ultimately show ?thesis by blast
  qed
qed

lemma update_topology_host_new:
  assumes m: "gc_hosts_hash g = Some m" "map_of m h = None" and n: "0 < gc_group_size g"
    and r: "r < CHAR_BIT * GROUP_CACHE_BITSET_NSLOTS (gc_group_size g)"
    and s: "s < CHAR_BIT * GROUP_CACHE_BITSET_NSLOTS (gc_group_size g)"
    and tab: "map_of (cfg_host_lookup_table (e_config e)) h = Some idx" "idx < cfg_num_hosts (e_config e)"
    and hb: "gc_hosts_bitset g = None
             \<or> bs_capacity (gc_hosts_bitset g) = CHAR_BIT * GROUP_CACHE_BITSET_NSLOTS (cfg_num_hosts (e_config e))"
  shows "\<exists>d hb pool. update_topology_host (int r) s h e g
            = Inr (e\<lparr>e_free_host_cache_hash_obj := pool\<rparr>,
                   g\<lparr>gc_n_hosts := Suc (gc_n_hosts g), gc_hosts_bitset := hb,
                     gc_hosts_hash := Some (kh_put h d m)\<rparr>)
          \<and> hd_uid d = h \<and> hd_config_idx d = idx \<and> hd_num_sps d = 1 \<and> hd_num_ranks d = 1
          \<and> bs_elems (hd_sps_bitset d) = {s} \<and> bs_elems (hd_ranks_bitset d) = {r}
          \<and> bs_capacity (hd_sps_bitset d) = CHAR_BIT * GROUP_CACHE_BITSET_NSLOTS (gc_group_size g)
          \<and> bs_capacity (hd_ranks_bitset d) = CHAR_BIT * GROUP_CACHE_BITSET_NSLOTS (gc_group_size g)
          \<and> bs_elems hb = insert idx (bs_elems (gc_hosts_bitset g))
          \<and> bs_capacity hb = CHAR_BIT * GROUP_CACHE_BITSET_NSLOTS (cfg_num_hosts (e_config e))"
proof -
  let ?N = "CHAR_BIT * GROUP_CACHE_BITSET_NSLOTS (gc_group_size g)"
  let ?nh = "cfg_num_hosts (e_config e)"
  obtain d0 pool where obj: "get_host_obj e = (d0, e\<lparr>e_free_host_cache_hash_obj := pool\<rparr>)"
    using get_host_obj_shape by blast
  from bs_create[OF n] obtain c where c: "GROUP_CACHE_BITSET_CREATE None (gc_group_size g) = Inr c"
      "bs_elems c = {}" "bs_capacity c = ?N"
    by auto
  from bs.set_in[of s c] s c obtain sb where sb: "GROUP_CACHE_BITSET_SET c s = Inr sb"
      "bs_elems sb = {s}" "bs_capacity sb = ?N"
    by auto
  from bs.set_in[of r c] r c obtain rb where rb: "GROUP_CACHE_BITSET_SET c r = Inr rb"
      "bs_elems rb = {r}" "bs_capacity rb = ?N"
    by auto
  from create_spec[OF _ hb] tab(2) obtain h1 where h1: "GROUP_CACHE_BITSET_CREATE (gc_hosts_bitset g) ?nh = Inr h1"
      "bs_elems h1 = bs_elems (gc_hosts_bitset g)" "bs_capacity h1 = CHAR_BIT * GROUP_CACHE_BITSET_NSLOTS ?nh"
    by auto
  have "idx < bs_capacity h1"
    using tab(2) nslots_covers[of ?nh] h1(3) by simp
  from bs.set_in[OF this] h1 obtain h2 where h2: "GROUP_CACHE_BITSET_SET h1 idx = Inr h2"
      "bs_elems h2 = insert idx (bs_elems (gc_hosts_bitset g))"
      "bs_capacity h2 = CHAR_BIT * GROUP_CACHE_BITSET_NSLOTS ?nh"
    by auto
  let ?d = "\<lparr>hd_config_idx = idx, hd_uid = h, hd_num_sps = 1, hd_num_ranks = 1, hd_sps_bitset = sb,
              hd_sps = None, hd_sps_initialized = False, hd_ranks_bitset = rb\<rparr>"
  have "update_topology_host (int r) s h e g
      = Inr (e\<lparr>e_free_host_cache_hash_obj := pool\<rparr>,
             g\<lparr>gc_n_hosts := Suc (gc_n_hosts g), gc_hosts_bitset := h2,
               gc_hosts_hash := Some (kh_put h ?d m)\<rparr>)"
    by (simp add: update_topology_host_def host_entry[OF m(1)] m obj RESET_HOST_CACHE_DATA_def c(1) sb(1)
        rb(1) ADD_GROUP_HOST_HASH_ENTRY_def lookup_conv tab(1) h1(1) h2(1) put_host_def kh_put_put Let_def)
  with sb rb h2 show ?thesis
    by (intro exI[of _ ?d] exI[of _ h2] exI[of _ pool]) simp
qed

lemma update_topology_host_step:
  assumes inv: "host_inv nh tab T g" and n: "0 < gc_group_size g" "r < gc_group_size g"
    and s: "s < CHAR_BIT * GROUP_CACHE_BITSET_NSLOTS (gc_group_size g)"
    and cfg: "tab = map_of (cfg_host_lookup_table (e_config e))" "nh = cfg_num_hosts (e_config e)"
    and tab: "tab h = Some idx" "idx < nh"
  shows "\<exists>m nho hb pool. update_topology_host (int r) s h e g
            = Inr (e\<lparr>e_free_host_cache_hash_obj := pool\<rparr>,
                   g\<lparr>gc_n_hosts := nho, gc_hosts_bitset := hb, gc_hosts_hash := Some m\<rparr>)
          \<and> host_inv nh tab (T @ [(r, s, h)])
              (g\<lparr>gc_n_hosts := nho, gc_hosts_bitset := hb, gc_hosts_hash := Some m\<rparr>)"
proof -
  let ?n = "gc_group_size g" and ?N = "CHAR_BIT * GROUP_CACHE_BITSET_NSLOTS (gc_group_size g)"
  from inv obtain m where m: "gc_hosts_hash g = Some m" "distinct (map fst m)" "fst ` set m = topo_hosts T"
      "gc_n_hosts g = length m" "\<And>k d. map_of m k = Some d \<Longrightarrow> host_ok ?n tab T k d"
      "bs_elems (gc_hosts_bitset g) = (\<lambda>h. the (tab h)) ` topo_hosts T"
      "gc_hosts_bitset g = None \<or> bs_capacity (gc_hosts_bitset g) = CHAR_BIT * GROUP_CACHE_BITSET_NSLOTS nh"
    by (auto simp: host_inv_def split: option.splits)
  have rN: "r < ?N"
    using n(2) nslots_covers[of ?n] by simp
  have other: "host_ok ?n tab (T @ [(r, s, h)]) k d" if "map_of m k = Some d" "k \<noteq> h" for k d
    using m(5)[OF that(1)] that(2) by (simp add: host_ok_def)
  show ?thesis
  proof (cases "map_of m h")
    case (Some d)
    obtain d' where d': "update_topology_host (int r) s h e g = Inr (e, g\<lparr>gc_hosts_hash := Some (kh_put h d' m)\<rparr>)"
        "host_ok ?n tab (T @ [(r, s, h)]) h d'"
      using update_topology_host_known[OF m(1) Some m(5)[OF Some] rN s] by blast
    have "h \<in> topo_hosts T"
      using Some m(3) by (metis map_of_None_keys option.distinct(1))
    then have "host_inv nh tab (T @ [(r, s, h)]) (g\<lparr>gc_n_hosts := gc_n_hosts g,
        gc_hosts_bitset := gc_hosts_bitset g, gc_hosts_hash := Some (kh_put h d' m)\<rparr>)"
      using m d'(2) other by (auto simp: host_inv_def kh_keys_put kh_put_length insert_absorb)
    moreover have "update_topology_host (int r) s h e g
        = Inr (e\<lparr>e_free_host_cache_hash_obj := e_free_host_cache_hash_obj e\<rparr>, g\<lparr>gc_n_hosts := gc_n_hosts g,
            gc_hosts_bitset := gc_hosts_bitset g, gc_hosts_hash := Some (kh_put h d' m)\<rparr>)"
      using d'(1) by simp
    ultimately show ?thesis
      by blast
  next
    case None
    then have new: "h \<notin> topo_hosts T"
      using m(3) by (simp add: map_of_None_keys)
    from update_topology_host_new[OF m(1) None n(1) rN s, of e idx] cfg tab m(7) obtain d hb pool where
      u: "update_topology_host (int r) s h e g
            = Inr (e\<lparr>e_free_host_cache_hash_obj := pool\<rparr>,
                   g\<lparr>gc_n_hosts := Suc (gc_n_hosts g), gc_hosts_bitset := hb,
                     gc_hosts_hash := Some (kh_put h d m)\<rparr>)"
      and d: "hd_uid d = h" "hd_config_idx d = idx" "hd_num_sps d = 1" "hd_num_ranks d = 1"
        "bs_elems (hd_sps_bitset d) = {s}" "bs_elems (hd_ranks_bitset d) = {r}"
        "bs_capacity (hd_sps_bitset d) = ?N" "bs_capacity (hd_ranks_bitset d) = ?N"
      and hb: "bs_elems hb = insert idx (bs_elems (gc_hosts_bitset g))"
        "bs_capacity hb = CHAR_BIT * GROUP_CACHE_BITSET_NSLOTS nh"
      by auto
    have "host_ok ?n tab (T @ [(r, s, h)]) h d"
      using d tab topo_empty(2,3)[OF new] topo_count_empty(2)[OF new] by (simp add: host_ok_def)
    then have "host_inv nh tab (T @ [(r, s, h)]) (g\<lparr>gc_n_hosts := Suc (gc_n_hosts g), gc_hosts_bitset := hb,
        gc_hosts_hash := Some (kh_put h d m)\<rparr>)"
      using m(2-4,6) hb tab new other by (auto simp: host_inv_def kh_keys_put kh_put_length)
    with u show ?thesis
      by blast
  qed
qed

section \<open>The whole update\<close>

definition topo_inv :: "int \<Rightarrow> topology \<Rightarrow> offloading_engine_t \<Rightarrow> bool" where
  "topo_inv uid T e =
     (case gp_get uid e of
        Inl _ \<Rightarrow> False
      | Inr g \<Rightarrow> 0 < gc_group_size g \<and> sp_inv T g
               \<and> host_inv (cfg_num_hosts (e_config e)) (map_of (cfg_host_lookup_table (e_config e))) T g)"

text \<open>What the callers guarantee: the rank is in the group, the SP identifier fits the bitsets, which
  are sized by the group, and the host is configured.\<close>

definition topo_arg_ok :: "offloading_engine_t \<Rightarrow> nat \<Rightarrow> nat \<times> nat \<times> nat \<Rightarrow> bool" where
  "topo_arg_ok e n a =
     (case a of (r, s, h) \<Rightarrow>
        r < n \<and> s < CHAR_BIT * GROUP_CACHE_BITSET_NSLOTS n
        \<and> (case map_of (cfg_host_lookup_table (e_config e)) h of
             None \<Rightarrow> False | Some idx \<Rightarrow> idx < cfg_num_hosts (e_config e)))"

text \<open>What the topology update leaves alone in a group cache.\<close>

definition topo_frame :: "group_cache_t \<Rightarrow> group_cache_t \<Rightarrow> bool" where
  "topo_frame g g' =
     (\<exists>a b c a' b' c'. g' = g\<lparr>gc_n_sps := a, gc_sps_bitset := b, gc_sps_hash := c,
                           gc_n_hosts := a', gc_hosts_bitset := b', gc_hosts_hash := c'\<rparr>)"

lemma topo_frame_refl: "topo_frame g g"
  unfolding topo_frame_def
  by (rule exI[of _ "gc_n_sps g"], rule exI[of _ "gc_sps_bitset g"], rule exI[of _ "gc_sps_hash g"],
      rule exI[of _ "gc_n_hosts g"], rule exI[of _ "gc_hosts_bitset g"], rule exI[of _ "gc_hosts_hash g"])
     simp

lemma topo_frame_trans: "topo_frame g g1 \<Longrightarrow> topo_frame g1 g2 \<Longrightarrow> topo_frame g g2"
  by (fastforce simp: topo_frame_def)

lemma update_topology_data_step:
  assumes inv: "topo_inv uid T e" and g: "gp_get uid e = Inr g"
    and ok: "topo_arg_ok e (gc_group_size g) (r, s, h)"
  shows "\<exists>e' g'. update_topology_data uid (int r) s h e = Inr e' \<and> topo_inv uid (T @ [(r, s, h)]) e'
           \<and> gp_get uid e' = Inr g' \<and> topo_frame g g' \<and> e_config e' = e_config e
           \<and> (\<forall>k. k \<noteq> uid \<longrightarrow> gp_get k e' = gp_get k e)
           \<and> e_calls e' = e_calls e \<and> e_num_service_procs e' = e_num_service_procs e
           \<and> e_service_procs e' = e_service_procs e"
proof -
  from inv g have n: "0 < gc_group_size g" and si: "sp_inv T g"
    and hi: "host_inv (cfg_num_hosts (e_config e)) (map_of (cfg_host_lookup_table (e_config e))) T g"
    by (simp_all add: topo_inv_def)
  from ok obtain idx where ok': "r < gc_group_size g"
      "s < CHAR_BIT * GROUP_CACHE_BITSET_NSLOTS (gc_group_size g)"
      "map_of (cfg_host_lookup_table (e_config e)) h = Some idx" "idx < cfg_num_hosts (e_config e)"
    by (auto simp: topo_arg_ok_def split: option.splits)
  from update_topology_sp_step[OF si n ok'(1,2), of h e] obtain m nsp sb pool where
    u: "update_topology_sp (int r) s h e g = Inr (e\<lparr>e_free_sp_cache_hash_obj := pool\<rparr>,
          g\<lparr>gc_n_sps := nsp, gc_sps_bitset := sb, gc_sps_hash := Some m\<rparr>)"
    and si1: "sp_inv (T @ [(r, s, h)]) (g\<lparr>gc_n_sps := nsp, gc_sps_bitset := sb, gc_sps_hash := Some m\<rparr>)"
    by blast
  let ?e1 = "e\<lparr>e_free_sp_cache_hash_obj := pool\<rparr>"
  let ?g1 = "g\<lparr>gc_n_sps := nsp, gc_sps_bitset := sb, gc_sps_hash := Some m\<rparr>"
  have hi1: "host_inv (cfg_num_hosts (e_config e)) (map_of (cfg_host_lookup_table (e_config e))) T ?g1"
    using hi by (simp add: host_inv_def split: option.splits)
  from update_topology_host_step[OF hi1, of r s ?e1 h idx] n ok' obtain hm nho hb pool' where
    v: "update_topology_host (int r) s h ?e1 ?g1 = Inr (?e1\<lparr>e_free_host_cache_hash_obj := pool'\<rparr>,
          ?g1\<lparr>gc_n_hosts := nho, gc_hosts_bitset := hb, gc_hosts_hash := Some hm\<rparr>)"
    and hi2: "host_inv (cfg_num_hosts (e_config e)) (map_of (cfg_host_lookup_table (e_config e)))
          (T @ [(r, s, h)]) (?g1\<lparr>gc_n_hosts := nho, gc_hosts_bitset := hb, gc_hosts_hash := Some hm\<rparr>)"
    by auto
  let ?e2 = "?e1\<lparr>e_free_host_cache_hash_obj := pool'\<rparr>"
  let ?g2 = "?g1\<lparr>gc_n_hosts := nho, gc_hosts_bitset := hb, gc_hosts_hash := Some hm\<rparr>"
  have si2: "sp_inv (T @ [(r, s, h)]) ?g2"
    using si1 by (simp add: sp_inv_def split: option.splits)
  have res: "update_topology_data uid (int r) s h e = Inr (gp_put uid ?g2 ?e2)"
    by (simp add: update_topology_data_def g u v)
  moreover have "topo_inv uid (T @ [(r, s, h)]) (gp_put uid ?g2 ?e2)"
    using si2 hi2 n by (simp add: topo_inv_def)
  moreover have "topo_frame g ?g2"
    unfolding topo_frame_def by blast
  moreover have "\<forall>k. k \<noteq> uid \<longrightarrow> gp_get k (gp_put uid ?g2 ?e2) = gp_get k e"
    by (simp add: gp_get_def gp_put_def)
  ultimately show ?thesis
    by (intro exI[of _ "gp_put uid ?g2 ?e2"] exI[of _ ?g2]) simp
qed

lemma topo_frame_size: "topo_frame g g' \<Longrightarrow> gc_group_size g' = gc_group_size g"
  by (auto simp: topo_frame_def)

lemma topo_arg_ok_config:
  assumes "e_config e' = e_config e"
  shows "topo_arg_ok e' n a = topo_arg_ok e n a"
  unfolding topo_arg_ok_def assms ..

lemma update_topology_data_fold:
  assumes "topo_inv uid T0 e" "gp_get uid e = Inr g" "\<forall>a \<in> set T. topo_arg_ok e (gc_group_size g) a"
  shows "\<exists>e' g'. foldE (\<lambda>(r, s, h). update_topology_data uid (int r) s h) T e = Inr e'
           \<and> topo_inv uid (T0 @ T) e' \<and> gp_get uid e' = Inr g' \<and> topo_frame g g'
           \<and> e_config e' = e_config e \<and> e_service_procs e' = e_service_procs e
           \<and> e_num_service_procs e' = e_num_service_procs e"
  using assms
proof (induction T arbitrary: T0 e g)
  case Nil
  then show ?case
    using topo_frame_refl by auto
next
  case (Cons a T)
  obtain r s h where a: "a = (r, s, h)"
    by (cases a)
  with update_topology_data_step[OF Cons.prems(1,2), of r s h] Cons.prems(3) obtain e1 g1 where
    s1: "update_topology_data uid (int r) s h e = Inr e1" "topo_inv uid (T0 @ [(r, s, h)]) e1"
      "gp_get uid e1 = Inr g1" "topo_frame g g1" "e_config e1 = e_config e"
      "e_service_procs e1 = e_service_procs e" "e_num_service_procs e1 = e_num_service_procs e"
    by auto
  have "\<forall>a \<in> set T. topo_arg_ok e1 (gc_group_size g1) a"
    using Cons.prems(3) s1(4) by (simp add: topo_arg_ok_config[OF s1(5)] topo_frame_size)
  from Cons.IH[OF s1(2,3) this] s1 show ?case
    by (auto simp: a intro: topo_frame_trans)
qed

text \<open>A group cache as it is right after its creation.\<close>

definition fresh_group :: "group_cache_t \<Rightarrow> bool" where
  "fresh_group g =
     (gc_sps_hash g = Some [] \<and> gc_hosts_hash g = Some [] \<and> gc_n_sps g = 0 \<and> gc_n_hosts g = 0
      \<and> gc_sps_bitset g = None \<and> gc_hosts_bitset g = None)"

lemma fresh_topo_inv:
  "fresh_group g \<Longrightarrow> 0 < gc_group_size g \<Longrightarrow> gp_get uid e = Inr g \<Longrightarrow> topo_inv uid [] e"
  by (simp add: fresh_group_def topo_inv_def sp_inv_def host_inv_def topo_sps_def topo_hosts_def)

lemma count_eq_card:
  assumes "distinct (map (\<lambda>(r, s, h). (r, s)) T)"
  shows "length (filter (\<lambda>(r, s, h). s = k) T) = card (ranks_of_sp T k)"
proof -
  let ?F = "filter (\<lambda>(r, s, h). s = k) T"
  have inj: "inj_on (\<lambda>(r, s, h). (r, s)) (set T)" and d: "distinct T"
    using assms by (simp_all add: distinct_map)
  have "inj_on (\<lambda>(r, s, h). r) (set ?F)"
    using inj by (fastforce simp: inj_on_def)
  then have "card ((\<lambda>(r, s, h). r) ` set ?F) = card (set ?F)"
    by (rule card_image)
  moreover have "(\<lambda>(r, s, h). r) ` set ?F = ranks_of_sp T k"
    by (force simp: ranks_of_sp_def)
  moreover have "card (set ?F) = length ?F"
    by (rule distinct_card) (simp add: d)
  ultimately show ?thesis
    by simp
qed

lemma host_count_eq_card:
  assumes "distinct T"
  shows "length (filter (\<lambda>(r, s, h'). h' = h) T) = card {(r, s). (r, s, h) \<in> set T}"
proof -
  have "length (filter (\<lambda>(r, s, h'). h' = h) T) = card (set (filter (\<lambda>(r, s, h'). h' = h) T))"
    using assms by (simp only: distinct_card distinct_filter)
  also have "\<dots> = card ((\<lambda>(r, s). (r, s, h)) ` {(r, s). (r, s, h) \<in> set T})"
    by (rule arg_cong[of _ _ card]) force
  also have "\<dots> = card {(r, s). (r, s, h) \<in> set T}"
    by (rule card_image) (auto simp: inj_on_def)
  finally show ?thesis .
qed

text \<open>C1: The topology of a group is tracked: after \<open>update_topology_data\<close> was called on a new
  group for any list of (rank, SP, host) associations in which each pair of a rank and an SP occurs once, ranks and SPs fit the bitsets
  of the group and hosts are configured, the group
  counts the SPs and the hosts of the list, has an entry for exactly those, the entry of an SP holds
  exactly its ranks and their number, the entry of a host exactly its index in the configuration, its ranks, its SPs, the number of
  its SPs and, as \<open>num_ranks\<close>, the number of associations of its ranks with SPs (not of its ranks: a rank with two SPs counts twice),
  and the group's bitsets hold exactly the SPs and the configuration indices of the hosts.\<close>

theorem topology_refinement:
  assumes "gp_get uid e = Inr g" "fresh_group g" "0 < gc_group_size g"
    and "\<forall>a \<in> set T. topo_arg_ok e (gc_group_size g) a"
    and "distinct (map (\<lambda>(r, s, h). (r, s)) T)"
  shows "\<exists>e' g'. foldE (\<lambda>(r, s, h). update_topology_data uid (int r) s h) T e = Inr e'
      \<and> gp_get uid e' = Inr g'
      \<and> gc_n_sps g' = card (topo_sps T) \<and> bs_elems (gc_sps_bitset g') = topo_sps T
      \<and> gc_n_hosts g' = card (topo_hosts T)
      \<and> bs_elems (gc_hosts_bitset g')
          = (\<lambda>h. the (LOOKUP_HOST_CONFIG_IDX e h)) ` topo_hosts T
      \<and> (\<forall>k. if k \<in> topo_sps T
             then \<exists>d. GET_GROUP_SP_HASH_ENTRY g' k = Inr (Some d) \<and> sd_gid d = k
                    \<and> bs_elems (sd_ranks_bitset d) = ranks_of_sp T k
                    \<and> sd_n_ranks d = card (ranks_of_sp T k)
             else GET_GROUP_SP_HASH_ENTRY g' k = Inr None)
      \<and> (\<forall>k. if k \<in> topo_hosts T
             then \<exists>d. GET_GROUP_HOST_HASH_ENTRY g' k = Inr (Some d) \<and> hd_uid d = k
                    \<and> bs_elems (hd_ranks_bitset d) = ranks_of_host T k
                    \<and> bs_elems (hd_sps_bitset d) = sps_of_host T k
                    \<and> hd_num_sps d = card (sps_of_host T k)
                    \<and> hd_num_ranks d = card {(r, s). (r, s, k) \<in> set T}
                    \<and> LOOKUP_HOST_CONFIG_IDX e k = Some (hd_config_idx d)
             else GET_GROUP_HOST_HASH_ENTRY g' k = Inr None)"
proof -
  from update_topology_data_fold[OF fresh_topo_inv[OF assms(2,3,1)] assms(1,4)] obtain e' g' where
    f: "foldE (\<lambda>(r, s, h). update_topology_data uid (int r) s h) T e = Inr e'"
      "topo_inv uid T e'" "gp_get uid e' = Inr g'" "e_config e' = e_config e"
    by auto
  then have si: "sp_inv T g'"
    and hi: "host_inv (cfg_num_hosts (e_config e)) (map_of (cfg_host_lookup_table (e_config e))) T g'"
    by (simp_all add: topo_inv_def)
  from si obtain m where m: "gc_sps_hash g' = Some m" "distinct (map fst m)" "fst ` set m = topo_sps T"
      "gc_n_sps g' = length m" "\<And>k d. map_of m k = Some d \<Longrightarrow> sp_ok (gc_group_size g') T k d"
      "bs_elems (gc_sps_bitset g') = topo_sps T"
    by (auto simp: sp_inv_def split: option.splits)
  from hi obtain hm where hm: "gc_hosts_hash g' = Some hm" "distinct (map fst hm)"
      "fst ` set hm = topo_hosts T" "gc_n_hosts g' = length hm"
      "\<And>k d. map_of hm k = Some d \<Longrightarrow>
         host_ok (gc_group_size g') (map_of (cfg_host_lookup_table (e_config e))) T k d"
      "bs_elems (gc_hosts_bitset g')
        = (\<lambda>h. the (map_of (cfg_host_lookup_table (e_config e)) h)) ` topo_hosts T"
    by (auto simp: host_inv_def split: option.splits)
  have cards: "length m = card (topo_sps T)" "length hm = card (topo_hosts T)"
    using m(2,3) hm(2,3) by (metis distinct_card length_map list.set_map)+
  have sps: "if k \<in> topo_sps T then \<exists>d. GET_GROUP_SP_HASH_ENTRY g' k = Inr (Some d) \<and> sd_gid d = k
        \<and> bs_elems (sd_ranks_bitset d) = ranks_of_sp T k \<and> sd_n_ranks d = card (ranks_of_sp T k)
      else GET_GROUP_SP_HASH_ENTRY g' k = Inr None" for k
    using m(3) m(5)[of k] map_of_None_keys[of m k] count_eq_card[OF assms(5), of k]
    by (cases "map_of m k") (auto simp: sp_entry[OF m(1)] sp_ok_def)
  have hosts: "if k \<in> topo_hosts T then \<exists>d. GET_GROUP_HOST_HASH_ENTRY g' k = Inr (Some d) \<and> hd_uid d = k
        \<and> bs_elems (hd_ranks_bitset d) = ranks_of_host T k \<and> bs_elems (hd_sps_bitset d) = sps_of_host T k
        \<and> hd_num_sps d = card (sps_of_host T k) \<and> hd_num_ranks d = card {(r, s). (r, s, k) \<in> set T}
        \<and> LOOKUP_HOST_CONFIG_IDX e k = Some (hd_config_idx d)
      else GET_GROUP_HOST_HASH_ENTRY g' k = Inr None" for k
    using hm(3) hm(5)[of k] map_of_None_keys[of hm k] host_count_eq_card[of T k] assms(5)
    by (cases "map_of hm k") (auto simp: host_entry[OF hm(1)] host_ok_def lookup_conv distinct_map)
  show ?thesis
    by (intro exI[of _ e'] exI[of _ g'] conjI allI; (rule sps hosts | simp add: f(1,3) m(4,6) hm(4,6) cards lookup_conv))
qed

section \<open>A concrete engine\<close>

definition demo_group :: "nat \<Rightarrow> group_cache_t" where
  "demo_group n =
     (BASIC_INIT_GROUP_CACHE raw_group_cache)
       \<lparr>gc_persistent := (init_persistent (gc_persistent raw_group_cache))\<lparr>p_num := 1\<rparr>, gc_engine := True,
        gc_group_uid := 7, gc_group_size := n, gc_num_local_entries := n,
        gc_ranks := Some (map (\<lambda>i. (INIT_PEER_CACHE_ENTRY raw_peer_cache_entry)
           \<lparr>pe_set := True, pe_peer := (pe_peer raw_peer_cache_entry)\<lparr>pd_proc_info :=
               (pd_proc_info (pe_peer raw_peer_cache_entry))\<lparr>ri_group_rank := int i\<rparr>\<rparr>\<rparr>) [0..<n]),
        gc_sps_hash := Some [], gc_hosts_hash := Some [],
        gc_sps := Some [None, None, None], gc_initialized := True\<rparr>"

definition demo_engine :: "nat \<Rightarrow> offloading_engine_t" where
  "demo_engine n =
     \<lparr>e_on_dpu = True, e_host_id = 100, e_num_service_procs = 3, e_num_connected_service_procs = 2,
      e_service_procs = map (\<lambda>i. \<lparr>sp_global_id = i, sp_client_id = i, sp_econtext = Some CONTEXT_CLIENT\<rparr>) [0, 1, 2],
      e_config = \<lparr>cfg_num_hosts = 2,
        cfg_hosts_config = [\<lparr>hi_hostname = ''h0'', hi_uid = 100, hi_idx = 0\<rparr>,
                            \<lparr>hi_hostname = ''h1'', hi_uid = 200, hi_idx = 1\<rparr>],
        cfg_host_lookup_table = [(100, 0), (200, 1)], cfg_num_service_procs_per_dpu = 2,
        cfg_local_sp_global_id = 0, cfg_local_sp_local_id = 0, cfg_local_sp_host_uid = 100\<rparr>,
      e_persistent_endpoint_cache = False, e_servers = [Some True], e_num_connected_clients = 0,
      e_clients = [], e_ongoing_events = [],
      e_procs_cache = \<lparr>c_size = 1, c_world_group = 7, c_data = [(7, demo_group n)]\<rparr>,
      e_free_sp_cache_hash_obj = [], e_free_host_cache_hash_obj = [], e_calls = []\<rparr>"

lemma demo_engine_group: "gp_get 7 (demo_engine n) = Inr (demo_group n)"
  by (simp add: demo_engine_def gp_get_def)

lemma demo_group_fresh: "fresh_group (demo_group n)" "gc_group_size (demo_group n) = n"
  by (simp_all add: demo_group_def fresh_group_def BASIC_INIT_GROUP_CACHE_def raw_group_cache_def)

lemma demo_arg_ok: "h = 100 \<or> h = 200 \<Longrightarrow> r < 4 \<Longrightarrow> s < 8 \<Longrightarrow> topo_arg_ok (demo_engine 4) 4 (r, s, h)"
  by (auto simp: topo_arg_ok_def demo_engine_def GROUP_CACHE_BITSET_NSLOTS_def CHAR_BIT_def)

definition demo_topo :: topology where
  "demo_topo = [(0, 0, 100), (1, 1, 100), (2, 0, 100), (3, 2, 200)]"

lemma demo_topo_facts:
  "\<forall>a \<in> set demo_topo. topo_arg_ok (demo_engine 4) (gc_group_size (demo_group 4)) a"
  "distinct (map (\<lambda>(r, s, h). (r, s)) demo_topo)"
  "card (topo_sps demo_topo) = 3" "card (topo_hosts demo_topo) = 2"
  "ranks_of_sp demo_topo 0 = {0, 2}" "0 \<in> topo_sps demo_topo"
  by (auto simp: demo_topo_def demo_group_fresh demo_arg_ok topo_sps_def topo_hosts_def ranks_of_sp_def
      insert_commute)

theorem topology_refinement_witness:
  "\<exists>e' g' d. foldE (\<lambda>(r, s, h). update_topology_data 7 (int r) s h) demo_topo (demo_engine 4) = Inr e'
     \<and> gp_get 7 e' = Inr g' \<and> gc_n_sps g' = 3 \<and> gc_n_hosts g' = 2
     \<and> GET_GROUP_SP_HASH_ENTRY g' 0 = Inr (Some d) \<and> bs_elems (sd_ranks_bitset d) = {0, 2}"
proof -
  have "0 < gc_group_size (demo_group 4)"
    by (simp add: demo_group_fresh)
  from topology_refinement[OF demo_engine_group demo_group_fresh(1) this demo_topo_facts(1,2)]
  obtain e' g' where r: "foldE (\<lambda>(r, s, h). update_topology_data 7 (int r) s h) demo_topo (demo_engine 4) = Inr e'"
      "gp_get 7 e' = Inr g'" "gc_n_sps g' = card (topo_sps demo_topo)"
      "gc_n_hosts g' = card (topo_hosts demo_topo)"
    and sp: "\<And>k. if k \<in> topo_sps demo_topo
             then \<exists>d. GET_GROUP_SP_HASH_ENTRY g' k = Inr (Some d) \<and> sd_gid d = k
                    \<and> bs_elems (sd_ranks_bitset d) = ranks_of_sp demo_topo k
                    \<and> sd_n_ranks d = card (ranks_of_sp demo_topo k)
             else GET_GROUP_SP_HASH_ENTRY g' k = Inr None"
    by blast
  from r sp[of 0] show ?thesis
    by (auto simp: demo_topo_facts)
qed

section \<open>Two limits of the bookkeeping\<close>

text \<open>The rank count of a host counts the associations of its ranks with SPs, not its ranks: the
  counter of a host is the number of (rank, SP) pairs recorded for it, so it exceeds the number of its
  ranks as soon as a rank of it has two shadow SPs.\<close>

lemma host_num_ranks_counts_associations:
  assumes "gp_get uid e = Inr g" "fresh_group g" "0 < gc_group_size g"
    and "\<forall>a \<in> set T. topo_arg_ok e (gc_group_size g) a" and "distinct T" and "h \<in> topo_hosts T"
  shows "\<exists>e' g' d. foldE (\<lambda>(r, s, h). update_topology_data uid (int r) s h) T e = Inr e'
      \<and> gp_get uid e' = Inr g' \<and> GET_GROUP_HOST_HASH_ENTRY g' h = Inr (Some d)
      \<and> hd_num_ranks d = card {(r, s). (r, s, h) \<in> set T}"
proof -
  from update_topology_data_fold[OF fresh_topo_inv[OF assms(2,3,1)] assms(1,4)] obtain e' g' where
    f: "foldE (\<lambda>(r, s, h). update_topology_data uid (int r) s h) T e = Inr e'"
      "topo_inv uid T e'" "gp_get uid e' = Inr g'" "e_config e' = e_config e"
    by auto
  then obtain hm where hm: "gc_hosts_hash g' = Some hm" "fst ` set hm = topo_hosts T"
      "\<And>k d. map_of hm k = Some d \<Longrightarrow>
         host_ok (gc_group_size g') (map_of (cfg_host_lookup_table (e_config e))) T k d"
    by (auto simp: topo_inv_def host_inv_def split: option.splits)
  obtain d where d: "map_of hm h = Some d"
    using assms(6) hm(2) map_of_None_keys[of hm h] by (cases "map_of hm h") auto
  show ?thesis
    using f(1,3) d hm(3)[OF d] host_count_eq_card[OF assms(5)] by (auto simp: host_entry[OF hm(1)] host_ok_def)
qed

lemma host_num_ranks_counts_associations_twice:
  "\<exists>e' g' d. foldE (\<lambda>(r, s, h). update_topology_data 7 (int r) s h)
       [(0, 0, 100), (0, 1, 100)] (demo_engine 4) = Inr e'
     \<and> gp_get 7 e' = Inr g' \<and> GET_GROUP_HOST_HASH_ENTRY g' 100 = Inr (Some d) \<and> hd_num_ranks d = 2"
proof -
  let ?T = "[(0, 0, 100), (0, 1, 100)] :: topology"
  have "\<forall>a \<in> set ?T. topo_arg_ok (demo_engine 4) (gc_group_size (demo_group 4)) a"
    by (simp add: demo_group_fresh demo_arg_ok)
  note t = host_num_ranks_counts_associations[OF demo_engine_group demo_group_fresh(1) _ this]
  have "{(r, s). (r, s, 100) \<in> set ?T} = {(0, 0), (0, 1)}"
    by auto
  with t[of 100] show ?thesis
    by (simp add: demo_group_fresh topo_hosts_def numeral_2_eq_2)
qed

text \<open>The bitset of the SPs of a group is sized by the number of ranks of the group but indexed by
  the identifier of the SP: the first association with an SP whose identifier does not fit the size of
  the group is an access out of bounds.\<close>

lemma sps_bitset_overflow:
  assumes "gp_get uid e = Inr g" "fresh_group g" "0 < gc_group_size g"
    and "gc_group_size g + 7 \<le> sp_gid"
  shows "update_topology_data uid rank sp_gid host e = Inl Out_of_bounds"
proof -
  from bs_create[OF assms(3)] obtain bs where bs: "GROUP_CACHE_BITSET_CREATE None (gc_group_size g) = Inr bs"
      "bs_capacity bs = CHAR_BIT * GROUP_CACHE_BITSET_NSLOTS (gc_group_size g)"
    by auto
  have out: "bs_capacity bs \<le> sp_gid"
    using bs(2) assms(4) nslots_tight[of "gc_group_size g"] by (simp add: CHAR_BIT_def)
  have "bs \<noteq> None"
    using bs(2) nslots_bit_pos[OF assms(3)] by (intro bs_capacity_pos) simp
  then have "GROUP_CACHE_BITSET_SET bs sp_gid = Inl Out_of_bounds"
    using bs_set_out[OF out] by simp
  with bs(1) assms(1,2) show ?thesis
    by (simp add: update_topology_data_def update_topology_sp_def GET_GROUP_SP_HASH_ENTRY_def
        fresh_group_def ADD_GROUP_SP_HASH_ENTRY_def RESET_SP_CACHE_DATA_def Let_def split: prod.splits)
qed

lemma sps_bitset_overflow_witness:
  "update_topology_data 7 0 11 100 (demo_engine 4) = Inl Out_of_bounds"
  using sps_bitset_overflow[OF demo_engine_group demo_group_fresh(1), of 4 11 0 100]
  by (simp add: demo_group_fresh)

end
