(* ===== verification/Group_Tables.thy ===== *)
theory Group_Tables
imports Group_Topology
begin

text \<open>
  Correctness of the lookup tables of a group and of the queries on them: every table lists, in
  increasing order, exactly the members of the set it was built from, the loops that build them end,
  and the queries translate between positions and identifiers.
\<close>

section \<open>The loop over the bits of a bitset\<close>

definition bits_from :: "group_cache_bitset_t \<Rightarrow> nat \<Rightarrow> nat list" where
  "bits_from bs i = sorted_list_of_set {j \<in> bs_elems bs. i \<le> j}"

lemma bits_from_0: "bits_from bs 0 = sorted_list_of_set (bs_elems bs)"
  by (simp add: bits_from_def)

lemma bits_from_rec:
  "bits_from bs i = (if i \<in> bs_elems bs then i # bits_from bs (Suc i) else bits_from bs (Suc i))"
proof (cases "i \<in> bs_elems bs")
  case True
  let ?A = "{j \<in> bs_elems bs. i \<le> j}"
  have fin: "finite ?A"
    using bs.elems_finite by simp
  have "Min ?A = i"
    using True fin by (intro Min_eqI) auto
  moreover have "?A - {i} = {j \<in> bs_elems bs. Suc i \<le> j}"
    by auto
  ultimately show ?thesis
    using sorted_list_of_set_nonempty[OF fin] True by (auto simp: bits_from_def)
next
  case False
  then have "{j \<in> bs_elems bs. i \<le> j} = {j \<in> bs_elems bs. Suc i \<le> j}"
    by (auto simp: Suc_le_eq order.strict_iff_order)
  with False show ?thesis
    by (simp add: bits_from_def)
qed

lemma bits_from_nonempty: "bits_from bs i \<noteq> [] \<Longrightarrow> i < bs_capacity bs"
proof -
  assume "bits_from bs i \<noteq> []"
  then obtain j where "j \<in> bs_elems bs" "i \<le> j"
    using bs.elems_finite by (auto simp: bits_from_def sorted_list_of_set_eq_Nil_iff)
  then show ?thesis
    using bs_elems_capacity by fastforce
qed

text \<open>When as many set bits remain as the loop still looks for, it runs its body on each of them in
  increasing order, numbered from the current count on.\<close>

lemma bits_loop_fold:
  assumes "n = cnt + length (bits_from bs idx)"
  shows "bits_loop body bs n cnt idx s
         = foldE (\<lambda>(c, i). body c i) (zip [cnt..<n] (bits_from bs idx)) s"
  using assms
proof (induction body bs n cnt idx s rule: bits_loop.induct)
  case (1 body bs n cnt idx s)
  show ?case
  proof (cases "bits_from bs idx = []")
    case True
    with 1(3) show ?thesis
      by (simp add: bits_loop.simps)
  next
    case False
    have lt: "cnt < n"
      using 1(3) False by simp
    have t: "GROUP_CACHE_BITSET_TEST bs idx = Inr (idx \<in> bs_elems bs)"
      by (rule bs.test_in[OF bits_from_nonempty[OF False]])
    show ?thesis
    proof (cases "idx \<in> bs_elems bs")
      case True
      have r: "bits_from bs idx = idx # bits_from bs (Suc idx)"
        using bits_from_rec[of bs idx] True by simp
      have "bits_loop body bs n (Suc cnt) (Suc idx) s'
          = foldE (\<lambda>(c, i). body c i) (zip [Suc cnt..<n] (bits_from bs (Suc idx))) s'"
        if "body cnt idx s = Inr s'" for s'
        using 1(3) r by (intro 1(1)[OF lt t True that]) simp
      then show ?thesis
        using lt t True r
        by (simp add: bits_loop.simps[of body bs n cnt idx] upt_conv_Cons cong: bindE_cong)
    next
      case F: False
      with bits_from_rec[of bs idx] have r: "bits_from bs idx = bits_from bs (Suc idx)"
        by simp
      have "bits_loop body bs n cnt idx s = bits_loop body bs n cnt (Suc idx) s"
        using lt t F by (simp add: bits_loop.simps[of body bs n cnt idx])
      also have "\<dots> = foldE (\<lambda>(c, i). body c i) (zip [cnt..<n] (bits_from bs idx)) s"
        unfolding r using 1(3) r by (intro 1(2)[OF lt t F]) simp
      finally show ?thesis .
    qed
  qed
qed

lemma bits_loop_all:
  assumes "bs_elems bs = S" "n = card S"
  shows "bits_loop body bs n 0 0 s = foldE (\<lambda>(c, i). body c i) (zip [0..<n] (sorted_list_of_set S)) s"
  using bits_loop_fold[of n 0 bs 0 body s] assms bs.elems_finite[of bs] by (simp add: bits_from_0)

section \<open>A group that is in use\<close>

text \<open>The state of a group whose cache was created and not revoked since: looking it up changes
  nothing.\<close>

definition group_ready :: "int \<Rightarrow> group_cache_t \<Rightarrow> offloading_engine_t \<Rightarrow> bool" where
  "group_ready uid g e =
     (gp_get uid e = Inr g \<and> uid \<noteq> INT_MAX \<and> gc_group_uid g = uid \<and> gc_engine g
      \<and> p_initialized (gc_persistent g) \<and> gc_sps g \<noteq> None \<and> 0 < gc_group_size g
      \<and> gc_ranks g \<noteq> None \<and> length (the (gc_ranks g)) = gc_group_size g)"

lemma gp_put_same: "gp_get k e = Inr g \<Longrightarrow> gp_put k g e = e"
proof -
  have *: "map_of m k = Some g \<Longrightarrow> AList.update k g m = m" for m :: "(int \<times> group_cache_t) list"
    by (induction m) (auto split: if_splits)
  assume "gp_get k e = Inr g"
  then have "kh_put k g (c_data (e_procs_cache e)) = c_data (e_procs_cache e)"
    using * by (simp add: gp_get_def derefE_Inr_iff kh_put_def)
  then show ?thesis
    by (simp add: gp_put_def)
qed

lemma ready_get:
  assumes "group_ready uid g e"
  shows "GET_GROUP_CACHE_INTERNAL uid sz e = Inr e" "GET_GROUP_CACHE uid e = Inr e"
    "gp_get uid e = Inr g"
proof -
  show g: "gp_get uid e = Inr g"
    using assms by (simp add: group_ready_def)
  have "map_of (c_data (e_procs_cache e)) uid = Some g"
    using g by (simp add: gp_get_def derefE_Inr_iff)
  then show i: "GET_GROUP_CACHE_INTERNAL uid sz e = Inr e" for sz
    using assms gp_put_same[OF g]
    by (auto simp: GET_GROUP_CACHE_INTERNAL_def reuse_group_def group_ready_def)
  show "GET_GROUP_CACHE uid e = Inr e"
    by (simp add: GET_GROUP_CACHE_def i)
qed

lemma ready_rank:
  assumes "group_ready uid g e" "i < gc_group_size g"
  shows "GET_GROUP_RANK_CACHE_ENTRY uid (int i) sz e = Inr (i, e)"
proof -
  obtain rs where rs: "gc_ranks g = Some rs" "length rs = gc_group_size g"
    using assms(1) by (auto simp: group_ready_def)
  note g = ready_get(3)[OF assms(1)]
  show ?thesis
    using assms(2) rs gp_put_same[OF g]
    by (simp add: GET_GROUP_RANK_CACHE_ENTRY_def ready_get[OF assms(1)]
        MIMOSA_GET_RANK_FROM_GROUP_CACHE_def)
qed

lemma ready_put:
  assumes "group_ready uid g e" "gc_group_uid g' = gc_group_uid g" "gc_engine g' = gc_engine g"
    "gc_persistent g' = gc_persistent g" "gc_sps g' \<noteq> None" "gc_group_size g' = gc_group_size g"
    "gc_ranks g' = gc_ranks g"
  shows "group_ready uid g' (gp_put uid g' e)"
  using assms by (simp add: group_ready_def)

section \<open>Filling the arrays\<close>

lemma zip_upt_Cons: "zip [a..<a + length (i # L)] (i # L) = (a, i) # zip [Suc a..<Suc a + length L] L"
  using upt_conv_Cons[of a "a + length (i # L)"] by (simp del: upt_Suc)

lemma fill_fold:
  assumes "c + length L \<le> length xs"
    and "\<forall>(i, j) \<in> set (zip [c..<c + length L] L). P i j"
  shows "foldE (\<lambda>(i, j) ys. bindE (guardE Out_of_bounds (P i j)) (\<lambda>_. updE ys i (Some (f i j))))
           (zip [c..<c + length L] L) xs
         = Inr (take c xs @ map (\<lambda>(i, j). Some (f i j)) (zip [c..<c + length L] L)
                @ drop (c + length L) xs)"
  using assms
proof (induction L arbitrary: c xs)
  case (Cons j L)
  have P: "P c j" "\<forall>(i, j) \<in> set (zip [Suc c..<Suc c + length L] L). P i j"
    using Cons.prems(2) unfolding zip_upt_Cons by auto
  let ?ys = "xs[c := Some (f c j)]"
  have "foldE (\<lambda>(i, j) ys. bindE (guardE Out_of_bounds (P i j)) (\<lambda>_. updE ys i (Some (f i j))))
          (zip [Suc c..<Suc c + length L] L) ?ys
        = Inr (take (Suc c) ?ys @ map (\<lambda>(i, j). Some (f i j)) (zip [Suc c..<Suc c + length L] L)
               @ drop (Suc c + length L) ?ys)"
    using Cons.prems(1) by (intro Cons.IH P(2)) simp
  moreover have "take (Suc c) ?ys = take c xs @ [Some (f c j)]" "drop (Suc c + length L) ?ys = drop (Suc c + length L) xs"
    using Cons.prems(1) by (simp_all add: take_Suc_update)
  moreover have "c < length xs"
    using Cons.prems(1) by simp
  ultimately show ?case
    unfolding zip_upt_Cons using P(1) by simp
qed simp

lemma fill_sps_spec:
  assumes "bs_elems (gc_sps_bitset g) = S" "gc_n_sps g = card S"
    and "gc_sps g = Some xs" "card S \<le> length xs" "card S \<le> length (e_service_procs e)"
  shows "fill_sps e g = Inr (g\<lparr>gc_sps := Some (map Some [0..<card S] @ drop (card S) xs)\<rparr>)"
proof -
  have len: "length (sorted_list_of_set S) = card S"
    using assms(1) bs.elems_finite by auto
  have "\<forall>(i, j) \<in> set (zip [0..<card S] (sorted_list_of_set S)). i < length (e_service_procs e)"
    using assms(5) by (auto dest: set_zip_leftD)
  moreover have "map (\<lambda>(i, j). Some i) (zip [0..<card S] (sorted_list_of_set S)) = map Some [0..<card S]"
    using len by (intro nth_equalityI) auto
  ultimately show ?thesis
    using fill_fold[of 0 "sorted_list_of_set S" xs "\<lambda>i j. i < length (e_service_procs e)" "\<lambda>i j. i"]
      assms len by (simp add: fill_sps_def bits_loop_all)
qed

lemma fill_hosts_spec:
  assumes "bs_elems (gc_hosts_bitset g) = S" "gc_n_hosts g = card S" "gc_hosts g = None"
    and "\<forall>i \<in> S. i < length (cfg_hosts_config (e_config e))"
  shows "fill_hosts e g = Inr (g\<lparr>gc_hosts := Some (map Some (sorted_list_of_set S))\<rparr>)"
proof -
  have fin: "finite S" and len: "length (sorted_list_of_set S) = card S"
    using assms(1) bs.elems_finite by auto
  have "\<forall>(i, j) \<in> set (zip [0..<card S] (sorted_list_of_set S)). j < length (cfg_hosts_config (e_config e))"
    using assms(4) fin by (auto dest: set_zip_rightD)
  moreover have "map (\<lambda>(i, j). Some j) (zip [0..<card S] (sorted_list_of_set S)) = map Some (sorted_list_of_set S)"
    using len by (intro nth_equalityI) auto
  ultimately show ?thesis
    using fill_fold[of 0 "sorted_list_of_set S" "replicate (card S) None"
        "\<lambda>i j. j < length (cfg_hosts_config (e_config e))" "\<lambda>i j. j"]
      assms len by (simp add: fill_hosts_def bits_loop_all)
qed

section \<open>The ranks of the SPs\<close>

definition with_ranks :: "sp_cache_data_t \<Rightarrow> sp_cache_data_t" where
  "with_ranks d = d\<lparr>sd_ranks := Some (sorted_list_of_set (bs_elems (sd_ranks_bitset d)))\<rparr>"

definition sp_fillable :: "nat \<Rightarrow> sp_cache_data_t \<Rightarrow> bool" where
  "sp_fillable n d =
     (bs_elems (sd_ranks_bitset d) \<noteq> {} \<and> bs_elems (sd_ranks_bitset d) \<subseteq> {..<n}
      \<and> sd_n_ranks d = card (bs_elems (sd_ranks_bitset d)))"

lemma rank_lookup_fold:
  assumes "group_ready uid g e" "\<forall>i \<in> set L. i < gc_group_size g"
  shows "foldE (\<lambda>(c, i) (ranks, e').
           bindE (GET_GROUP_RANK_CACHE_ENTRY uid (int i) sz e') (\<lambda>(p, e1). Inr (ranks @ [p], e1)))
           (zip [a..<a + length L] L) (acc, e) = Inr (acc @ L, e)"
  using assms(2)
proof (induction L arbitrary: a acc)
  case (Cons i L)
  show ?case
    unfolding zip_upt_Cons using Cons.prems Cons.IH[of "Suc a" "acc @ [i]"]
    by (simp add: ready_rank[OF assms(1)] del: upt_Suc)
qed simp

lemma populate_sp_ranks_spec:
  assumes "group_ready uid g e" "gc_sps_hash g = Some m" "map_of m k = Some d"
    and "sp_fillable (gc_group_size g) d"
  shows "populate_sp_ranks uid k e = Inr (gp_put uid (g\<lparr>gc_sps_hash := Some (kh_put k (with_ranks d) m)\<rparr>) e)"
proof -
  let ?R = "bs_elems (sd_ranks_bitset d)"
  have fin: "finite ?R"
    by (rule bs.elems_finite)
  have uid: "gc_group_uid g = uid"
    using assms(1) by (simp add: group_ready_def)
  have ok: "?R \<noteq> {}" "?R \<subseteq> {..<gc_group_size g}" "sd_n_ranks d = card ?R"
    using assms(4) by (auto simp: sp_fillable_def)
  have "\<forall>i \<in> set (sorted_list_of_set ?R). i < gc_group_size g"
    using ok(2) fin by auto
  note f = rank_lookup_fold[OF assms(1) this, of "int (gc_group_size g)" 0 "[]"]
  have ne: "sd_n_ranks d \<noteq> 0"
    using ok(1,3) fin by simp
  note b = bits_loop_all[OF refl refl]
  show ?thesis
    using f ne ok(3) fin
    by (simp add: card_gt_0_iff populate_sp_ranks_def ready_get(3)[OF assms(1)] sp_entry[OF assms(2)] assms(3) b uid
        gp_upd_def put_sp_def assms(2) with_ranks_def)
qed

lemma kh_put_mid: "k \<notin> fst ` set pre \<Longrightarrow> kh_put k v (pre @ (k, d) # post) = pre @ (k, v) # post"
  by (induction pre) (auto simp: kh_put_def)

lemma populate_sp_ranks_all:
  assumes "group_ready uid g e" "distinct (map fst (pre @ post))"
    and "\<forall>(k, d) \<in> set post. sp_fillable (gc_group_size g) d"
  shows "foldE (populate_sp_ranks uid) (map fst post)
           (gp_put uid (g\<lparr>gc_sps_hash := Some (map (apsnd with_ranks) pre @ post)\<rparr>) e)
         = Inr (gp_put uid (g\<lparr>gc_sps_hash := Some (map (apsnd with_ranks) (pre @ post))\<rparr>) e)"
  using assms(2,3)
proof (induction post arbitrary: pre)
  case (Cons a post)
  obtain k d where a: "a = (k, d)"
    by (cases a)
  let ?m = "map (apsnd with_ranks) pre @ (k, d) # post"
  let ?g = "g\<lparr>gc_sps_hash := Some ?m\<rparr>"
  have new: "k \<notin> fst ` set (map (apsnd with_ranks) pre)"
    using Cons.prems(1) by (simp add: a image_image)
  have "map_of ?m k = Some d"
    using new map_of_None_keys[of "map (apsnd with_ranks) pre" k] by (simp add: map_add_def)
  moreover have "group_ready uid ?g (gp_put uid ?g e)"
    using assms(1) by (intro ready_put) (auto simp: group_ready_def)
  moreover have "sp_fillable (gc_group_size ?g) d"
    using Cons.prems(2) by (simp add: a)
  ultimately have step: "populate_sp_ranks uid k (gp_put uid ?g e)
      = Inr (gp_put uid (g\<lparr>gc_sps_hash := Some (map (apsnd with_ranks) (pre @ [(k, d)]) @ post)\<rparr>) e)"
    using populate_sp_ranks_spec[of uid ?g "gp_put uid ?g e" ?m k d] kh_put_mid[OF new] by simp
  show ?case
    using Cons.IH[of "pre @ [(k, d)]"] Cons.prems step by (simp add: a)
qed simp

section \<open>The SPs of the hosts\<close>

text \<open>Numbering the SPs of a list from a start value on.\<close>

definition set_lid :: "nat \<times> nat \<Rightarrow> (nat \<times> sp_cache_data_t) list \<Rightarrow> (nat \<times> sp_cache_data_t) list" where
  "set_lid = (\<lambda>(c, i) m. kh_put i ((the (map_of m i))\<lparr>sd_lid := c\<rparr>) m)"

definition set_lids :: "nat \<Rightarrow> nat list \<Rightarrow> (nat \<times> sp_cache_data_t) list \<Rightarrow> (nat \<times> sp_cache_data_t) list" where
  "set_lids c L m = fold set_lid (zip [c..<c + length L] L) m"

lemma set_lids_Cons: "set_lids c (i # L) m = set_lids (Suc c) L (set_lid (c, i) m)"
  unfolding set_lids_def zip_upt_Cons by simp

lemma set_lids_Nil [simp]: "set_lids c [] m = m"
  by (simp add: set_lids_def)

lemma set_lids_keys: "set L \<subseteq> fst ` set m \<Longrightarrow> map fst (set_lids c L m) = map fst m"
proof (induction L arbitrary: c m)
  case (Cons i L)
  then have k: "map fst (set_lid (c, i) m) = map fst m"
    by (simp add: set_lid_def kh_put_keys_same)
  then have "set L \<subseteq> fst ` set (set_lid (c, i) m)"
    using Cons.prems by (metis insert_subset list.set_map list.simps(15))
  with Cons.IH[of "set_lid (c, i) m" "Suc c"] k show ?case
    by (simp add: set_lids_Cons)
qed simp

lemma set_lids_other: "k \<notin> set L \<Longrightarrow> map_of (set_lids c L m) k = map_of m k"
  by (induction L arbitrary: c m) (auto simp: set_lids_Cons set_lid_def)

lemma set_lids_at:
  assumes "distinct L" "j < length L" "map_of m (L ! j) = Some d"
  shows "map_of (set_lids c L m) (L ! j) = Some (d\<lparr>sd_lid := c + j\<rparr>)"
  using assms
proof (induction L arbitrary: c m j)
  case (Cons i L)
  show ?case
  proof (cases j)
    case 0
    with Cons.prems show ?thesis
      by (simp add: set_lids_Cons set_lids_other set_lid_def)
  next
    case (Suc j')
    then have "map_of (set_lid (c, i) m) (L ! j') = Some d"
      using Cons.prems by (auto simp: set_lid_def)
    with Cons.IH[of j' "set_lid (c, i) m" "Suc c"] Cons.prems Suc show ?thesis
      by (simp add: set_lids_Cons)
  qed
qed simp

lemma host_sps_fold:
  assumes "gc_sps_hash g = Some m" "set L \<subseteq> fst ` set m"
  shows "foldE (\<lambda>(c, i) (sps, g').
           bindE (GET_GROUP_SP_HASH_ENTRY g' i) (\<lambda>sp.
           bindE (assertE (sp \<noteq> None)) (\<lambda>_. Inr (sps @ [i], put_sp i ((the sp)\<lparr>sd_lid := c\<rparr>) g'))))
           (zip [a..<a + length L] L) (acc, g)
         = Inr (acc @ L, g\<lparr>gc_sps_hash := Some (set_lids a L m)\<rparr>)"
  using assms
proof (induction L arbitrary: a acc g m)
  case (Cons i L)
  let ?m = "set_lid (a, i) m"
  have "i \<in> fst ` set m"
    using Cons.prems(2) by simp
  then have i: "map_of m i \<noteq> None"
    by (simp add: map_of_None_keys)
  have "set L \<subseteq> fst ` set ?m"
    using Cons.prems(2) by (auto simp: set_lid_def kh_keys_put)
  with Cons.IH[of "g\<lparr>gc_sps_hash := Some ?m\<rparr>" ?m "Suc a" "acc @ [i]"] i Cons.prems(1) show ?case
    unfolding zip_upt_Cons
    by (simp add: sp_entry put_sp_def set_lids_Cons del: upt_Suc) (simp add: set_lid_def del: upt_Suc)
qed simp

definition with_sps :: "host_cache_data_t \<Rightarrow> host_cache_data_t" where
  "with_sps d = d\<lparr>hd_sps := Some (sorted_list_of_set (bs_elems (hd_sps_bitset d)))\<rparr>"

definition host_fillable :: "nat set \<Rightarrow> host_cache_data_t \<Rightarrow> bool" where
  "host_fillable K d =
     (bs_elems (hd_sps_bitset d) \<noteq> {} \<and> bs_elems (hd_sps_bitset d) \<subseteq> K
      \<and> hd_num_sps d = card (bs_elems (hd_sps_bitset d)))"

lemma populate_host_sps_spec:
  assumes "gp_get uid e = Inr g" "gc_sps_hash g = Some m" "gc_hosts_hash g = Some hm"
    and "map_of hm k = Some d" "host_fillable (fst ` set m) d"
  shows "populate_host_sps uid k e
         = Inr (gp_put uid (g\<lparr>gc_sps_hash := Some (set_lids 0 (sorted_list_of_set (bs_elems (hd_sps_bitset d))) m),
                             gc_hosts_hash := Some (kh_put k (with_sps d) hm)\<rparr>) e)"
proof -
  let ?S = "bs_elems (hd_sps_bitset d)"
  have fin: "finite ?S"
    by (rule bs.elems_finite)
  have ok: "?S \<noteq> {}" "?S \<subseteq> fst ` set m" "hd_num_sps d = card ?S"
    using assms(5) by (auto simp: host_fillable_def)
  have "set (sorted_list_of_set ?S) \<subseteq> fst ` set m"
    using ok(2) fin by simp
  note f = host_sps_fold[OF assms(2) this, of 0 "[]"]
  show ?thesis
    using f ok fin
    by (simp add: populate_host_sps_def assms(1) host_entry[OF assms(3)] assms(3,4) card_gt_0_iff
        bits_loop_all[OF refl refl] put_host_def with_sps_def)
qed

text \<open>The loop over the hosts.  \<open>lids_ok\<close>: the SPs of the hosts are numbered by their position, nothing
  else of an SP changes.\<close>

definition host_sps_list :: "host_cache_data_t \<Rightarrow> nat list" where
  "host_sps_list d = sorted_list_of_set (bs_elems (hd_sps_bitset d))"

definition lids_ok :: "(nat \<times> host_cache_data_t) list \<Rightarrow> (nat \<times> sp_cache_data_t) list
    \<Rightarrow> (nat \<times> sp_cache_data_t) list \<Rightarrow> bool" where
  "lids_ok hosts m m' =
     (map fst m' = map fst m
      \<and> (\<forall>k d j s. (k, d) \<in> set hosts \<longrightarrow> j < length (host_sps_list d)
            \<longrightarrow> map_of m (host_sps_list d ! j) = Some s
            \<longrightarrow> map_of m' (host_sps_list d ! j) = Some (s\<lparr>sd_lid := j\<rparr>))
      \<and> (\<forall>i. (\<forall>(k, d) \<in> set hosts. i \<notin> set (host_sps_list d)) \<longrightarrow> map_of m' i = map_of m i))"

definition hosts_disjoint :: "(nat \<times> host_cache_data_t) list \<Rightarrow> bool" where
  "hosts_disjoint hosts =
     (distinct (map fst hosts)
      \<and> (\<forall>k d k' d'. (k, d) \<in> set hosts \<longrightarrow> (k', d') \<in> set hosts
            \<longrightarrow> k \<noteq> k' \<longrightarrow> bs_elems (hd_sps_bitset d) \<inter> bs_elems (hd_sps_bitset d') = {}))"

lemma host_sps_list_simps [simp]:
  "set (host_sps_list d) = bs_elems (hd_sps_bitset d)" "distinct (host_sps_list d)"
  by (simp_all add: host_sps_list_def bs.elems_finite)

lemma hosts_disjoint_other:
  assumes "hosts_disjoint (pre @ (k, d) # post)" "(k', d') \<in> set pre"
  shows "bs_elems (hd_sps_bitset d') \<inter> bs_elems (hd_sps_bitset d) = {}"
proof -
  have "k' \<in> fst ` set pre"
    using assms(2) by (rule rev_image_eqI) simp
  then have "k' \<noteq> k"
    using assms(1) by (auto simp: hosts_disjoint_def)
  moreover have "(k', d') \<in> set (pre @ (k, d) # post)" "(k, d) \<in> set (pre @ (k, d) # post)"
    using assms(2) by simp_all
  ultimately show ?thesis
    using assms(1) unfolding hosts_disjoint_def by blast
qed

lemma hosts_disjoint_prefix: "hosts_disjoint (xs @ ys) \<Longrightarrow> hosts_disjoint xs"
  unfolding hosts_disjoint_def by simp

lemma lids_ok_snoc:
  assumes ok: "lids_ok pre m m1" and dis: "hosts_disjoint (pre @ [(k, d)])"
    and sub: "bs_elems (hd_sps_bitset d) \<subseteq> fst ` set m"
  shows "lids_ok (pre @ [(k, d)]) m (set_lids 0 (host_sps_list d) m1)"
proof -
  let ?m = "set_lids 0 (host_sps_list d) m1"
  have keys: "fst ` set m1 = fst ` set m"
    using ok by (metis lids_ok_def list.set_map)
  have mine: "map_of m1 i = map_of m i" if "i \<in> bs_elems (hd_sps_bitset d)" for i
  proof -
    have "i \<notin> bs_elems (hd_sps_bitset d')" if "(k', d') \<in> set pre" for k' d'
      using hosts_disjoint_other[OF dis that] \<open>i \<in> bs_elems (hd_sps_bitset d)\<close> by blast
    then have "\<forall>(k', d') \<in> set pre. i \<notin> set (host_sps_list d')"
      by auto
    with ok show ?thesis
      unfolding lids_ok_def by blast
  qed
  have "map fst ?m = map fst m"
    using ok sub by (simp add: set_lids_keys keys) (simp add: lids_ok_def)
  moreover have "map_of ?m (host_sps_list d' ! j) = Some (s\<lparr>sd_lid := j\<rparr>)"
    if "(k', d') \<in> set (pre @ [(k, d)])" "j < length (host_sps_list d')"
      "map_of m (host_sps_list d' ! j) = Some s" for k' d' j s
  proof (cases "(k', d') \<in> set pre")
    case True
    have "host_sps_list d' ! j \<notin> set (host_sps_list d)"
      using hosts_disjoint_other[OF dis True] nth_mem[OF that(2)] by auto
    moreover have "map_of m1 (host_sps_list d' ! j) = Some (s\<lparr>sd_lid := j\<rparr>)"
      using ok True that(2,3) unfolding lids_ok_def by blast
    ultimately show ?thesis
      by (simp add: set_lids_other)
  next
    case False
    then have "d' = d"
      using that(1) by simp
    with that mine[of "host_sps_list d ! j"] nth_mem[OF that(2)] show ?thesis
      by (simp add: set_lids_at)
  qed
  moreover have "map_of ?m i = map_of m i" if "\<forall>(k', d') \<in> set (pre @ [(k, d)]). i \<notin> set (host_sps_list d')" for i
    using that ok by (simp add: set_lids_other lids_ok_def)
  ultimately show ?thesis
    unfolding lids_ok_def by blast
qed

lemma populate_host_sps_all:
  assumes "hosts_disjoint (pre @ post)" "\<forall>(k, d) \<in> set (pre @ post). host_fillable (fst ` set m) d"
    and "lids_ok pre m m1"
  shows "\<exists>m'. foldE (populate_host_sps uid) (map fst post)
             (gp_put uid (g\<lparr>gc_sps_hash := Some m1, gc_hosts_hash := Some (map (apsnd with_sps) pre @ post)\<rparr>) e)
           = Inr (gp_put uid (g\<lparr>gc_sps_hash := Some m', gc_hosts_hash := Some (map (apsnd with_sps) (pre @ post))\<rparr>) e)
         \<and> lids_ok (pre @ post) m m'"
  using assms
proof (induction post arbitrary: pre m1)
  case (Cons a post)
  obtain k d where a: "a = (k, d)"
    by (cases a)
  let ?hm = "map (apsnd with_sps) pre @ (k, d) # post"
  let ?g = "g\<lparr>gc_sps_hash := Some m1, gc_hosts_hash := Some ?hm\<rparr>"
  let ?m2 = "set_lids 0 (host_sps_list d) m1"
  have dis: "hosts_disjoint (pre @ [(k, d)])"
    using Cons.prems(1) hosts_disjoint_prefix[of "pre @ [(k, d)]" post] by (simp add: a)
  have "k \<notin> fst ` set pre"
    using Cons.prems(1) by (simp add: a hosts_disjoint_def)
  then have new: "k \<notin> fst ` set (map (apsnd with_sps) pre)"
    by (simp add: image_image)
  have fill: "host_fillable (fst ` set m) d"
    using Cons.prems(2) by (simp add: a)
  have keys: "fst ` set m1 = fst ` set m"
    using Cons.prems(3) by (metis lids_ok_def list.set_map)
  have "map_of ?hm k = Some d"
    using new map_of_None_keys[of "map (apsnd with_sps) pre" k] by (simp add: map_add_def)
  then have step: "populate_host_sps uid k (gp_put uid ?g e)
      = Inr (gp_put uid (g\<lparr>gc_sps_hash := Some ?m2,
             gc_hosts_hash := Some (map (apsnd with_sps) (pre @ [(k, d)]) @ post)\<rparr>) e)"
    using populate_host_sps_spec[of uid "gp_put uid ?g e" ?g m1 ?hm k d] fill kh_put_mid[OF new]
    by (simp add: keys host_sps_list_def)
  have "lids_ok (pre @ [(k, d)]) m ?m2"
    using fill by (intro lids_ok_snoc[OF Cons.prems(3) dis]) (simp add: host_fillable_def)
  with Cons.IH[of "pre @ [(k, d)]" ?m2] Cons.prems(1,2) step show ?case
    by (simp add: a)
qed auto

section \<open>All tables\<close>

definition sps_fillable :: "offloading_engine_t \<Rightarrow> group_cache_t \<Rightarrow> (nat \<times> sp_cache_data_t) list \<Rightarrow> bool" where
  "sps_fillable e g m =
     (gc_sps_hash g = Some m \<and> m \<noteq> [] \<and> distinct (map fst m) \<and> gc_n_sps g = length m
      \<and> bs_elems (gc_sps_bitset g) = fst ` set m \<and> (\<forall>(k, d) \<in> set m. sp_fillable (gc_group_size g) d)
      \<and> length m \<le> length (the (gc_sps g)) \<and> length m \<le> length (e_service_procs e))"

definition hosts_fillable :: "offloading_engine_t \<Rightarrow> group_cache_t \<Rightarrow> nat set \<Rightarrow> (nat \<times> host_cache_data_t) list \<Rightarrow> bool" where
  "hosts_fillable e g K hm =
     (gc_hosts_hash g = Some hm \<and> hm \<noteq> [] \<and> gc_hosts g = None \<and> hosts_disjoint hm
      \<and> gc_n_hosts g = length hm \<and> (\<forall>(k, d) \<in> set hm. host_fillable K d)
      \<and> card (bs_elems (gc_hosts_bitset g)) = length hm
      \<and> (\<forall>i \<in> bs_elems (gc_hosts_bitset g). i < length (cfg_hosts_config (e_config e))))"

lemma do_populate_spec:
  assumes ready: "group_ready uid g e" and np: "\<not> gc_lookup_tables_populated g"
    and sf: "sps_fillable e g m" and hf: "hosts_fillable e g (fst ` set m) hm"
  shows "\<exists>m'. do_populate_group_cache_lookup_table uid e
      = Inr (gp_put uid (g\<lparr>gc_sps := Some (map Some [0..<length m] @ drop (length m) (the (gc_sps g))),
               gc_hosts := Some (map Some (sorted_list_of_set (bs_elems (gc_hosts_bitset g)))),
               gc_sps_hash := Some m', gc_hosts_hash := Some (map (apsnd with_sps) hm),
               gc_lookup_tables_populated := True\<rparr>) e)
    \<and> lids_ok hm (map (apsnd with_ranks) m) m'"
proof -
  let ?xs = "map Some [0..<length m] @ drop (length m) (the (gc_sps g))"
  let ?hs = "map Some (sorted_list_of_set (bs_elems (gc_hosts_bitset g)))"
  let ?g1 = "g\<lparr>gc_sps := Some ?xs\<rparr>"
  let ?m1 = "map (apsnd with_ranks) m"
  have g: "gp_get uid e = Inr g" and sps: "gc_sps g = Some (the (gc_sps g))"
    using ready by (auto simp: group_ready_def)
  from sf have m: "gc_sps_hash g = Some m" "m \<noteq> []" "distinct (map fst m)" "gc_n_sps g = length m"
      "bs_elems (gc_sps_bitset g) = fst ` set m" "\<forall>(k, d) \<in> set m. sp_fillable (gc_group_size g) d"
      "length m \<le> length (the (gc_sps g))" "length m \<le> length (e_service_procs e)"
    by (auto simp: sps_fillable_def)
  from hf have h: "gc_hosts_hash g = Some hm" "hm \<noteq> []" "gc_hosts g = None" "hosts_disjoint hm"
      "gc_n_hosts g = length hm" "\<forall>(k, d) \<in> set hm. host_fillable (fst ` set m) d"
      "card (bs_elems (gc_hosts_bitset g)) = length hm"
      "\<forall>i \<in> bs_elems (gc_hosts_bitset g). i < length (cfg_hosts_config (e_config e))"
    by (auto simp: hosts_fillable_def)
  have card: "card (fst ` set m) = length m"
    using m(3) distinct_card[of "map fst m"] by simp
  have f1: "fill_sps e g = Inr ?g1"
    using fill_sps_spec[OF m(5) _ sps] m(4,7,8) card by simp
  have "group_ready uid ?g1 (gp_put uid ?g1 e)"
    by (rule ready_put[OF ready]) simp_all
  moreover have "?g1\<lparr>gc_sps_hash := Some m\<rparr> = ?g1"
    using m(1) by (cases g) simp
  ultimately
  have f2: "foldE (populate_sp_ranks uid) (map fst m) (gp_put uid ?g1 e)
      = Inr (gp_put uid (?g1\<lparr>gc_sps_hash := Some ?m1\<rparr>) e)"
    using populate_sp_ranks_all[of uid ?g1 "gp_put uid ?g1 e" "[]" m] m(3,6) by simp
  let ?g2 = "?g1\<lparr>gc_sps_hash := Some ?m1\<rparr>"
  have f3: "fill_hosts (gp_put uid ?g2 e) ?g2 = Inr (?g2\<lparr>gc_hosts := Some ?hs\<rparr>)"
    using h by (intro fill_hosts_spec) auto
  have keys: "fst ` set ?m1 = fst ` set m"
    by (simp add: image_image)
  have "lids_ok [] ?m1 ?m1"
    by (simp add: lids_ok_def)
  moreover have "?g2\<lparr>gc_hosts := Some ?hs, gc_sps_hash := Some ?m1, gc_hosts_hash := Some hm\<rparr>
      = ?g2\<lparr>gc_hosts := Some ?hs\<rparr>"
    using h(1) by (cases g) simp
  ultimately
  obtain m' where f4: "foldE (populate_host_sps uid) (map fst hm) (gp_put uid (?g2\<lparr>gc_hosts := Some ?hs\<rparr>) e)
      = Inr (gp_put uid (?g2\<lparr>gc_hosts := Some ?hs, gc_sps_hash := Some m',
              gc_hosts_hash := Some (map (apsnd with_sps) hm)\<rparr>) e)" "lids_ok hm ?m1 m'"
    using populate_host_sps_all[of "[]" hm ?m1 ?m1 uid "?g2\<lparr>gc_hosts := Some ?hs\<rparr>" e] h(4,6)
    by (auto simp only: keys append_Nil list.map(1))
  show ?thesis
    using f4 g np m(1,2,4) h(1,2,5)
    by (intro exI[of _ m'])
       (simp add: do_populate_group_cache_lookup_table_def f1 f2 f3 gp_upd_def)
qed

text \<open>What the topology has to satisfy: every association of a rank and an SP is recorded once, an SP
  serves one host only, hosts are configured under their own UID.\<close>

definition topo_wf :: "offloading_engine_t \<Rightarrow> nat \<Rightarrow> topology \<Rightarrow> bool" where
  "topo_wf e n T =
     (T \<noteq> [] \<and> distinct (map (\<lambda>(r, s, h). (r, s)) T) \<and> (\<forall>a \<in> set T. topo_arg_ok e n a)
      \<and> (\<forall>r s h r' h'. (r, s, h) \<in> set T \<longrightarrow> (r', s, h') \<in> set T \<longrightarrow> h = h')
      \<and> (\<forall>h \<in> topo_hosts T. \<exists>i. LOOKUP_HOST_CONFIG_IDX e h = Some i
            \<and> i < length (cfg_hosts_config (e_config e)) \<and> hi_uid (cfg_hosts_config (e_config e) ! i) = h))"

lemma topo_wf_facts:
  assumes "topo_wf e n T"
  shows "topo_sps T \<noteq> {}" "topo_hosts T \<noteq> {}" "ranks_of_sp T k \<subseteq> {..<n}"
    "sps_of_host T h \<subseteq> topo_sps T" "h \<noteq> h' \<Longrightarrow> sps_of_host T h \<inter> sps_of_host T h' = {}"
    "k \<in> topo_sps T \<Longrightarrow> ranks_of_sp T k \<noteq> {}" "h \<in> topo_hosts T \<Longrightarrow> sps_of_host T h \<noteq> {}"
    "inj_on (\<lambda>h. the (map_of (cfg_host_lookup_table (e_config e)) h)) (topo_hosts T)"
    "h \<in> topo_hosts T \<Longrightarrow> the (map_of (cfg_host_lookup_table (e_config e)) h) < length (cfg_hosts_config (e_config e))"
proof -
  from assms have ne: "T \<noteq> []" and ok: "\<And>a. a \<in> set T \<Longrightarrow> topo_arg_ok e n a"
    and one: "\<And>r s h r' h'. (r, s, h) \<in> set T \<Longrightarrow> (r', s, h') \<in> set T \<Longrightarrow> h = h'"
    and host: "\<And>h. h \<in> topo_hosts T \<Longrightarrow> \<exists>i. map_of (cfg_host_lookup_table (e_config e)) h = Some i
            \<and> i < length (cfg_hosts_config (e_config e)) \<and> hi_uid (cfg_hosts_config (e_config e) ! i) = h"
    unfolding topo_wf_def lookup_conv by blast+
  show "topo_sps T \<noteq> {}" "topo_hosts T \<noteq> {}"
    using ne by (simp_all add: topo_sps_def topo_hosts_def)
  show "ranks_of_sp T k \<subseteq> {..<n}"
    using ok by (force simp: ranks_of_sp_def topo_arg_ok_def)
  show "sps_of_host T h \<subseteq> topo_sps T"
    by (force simp: sps_of_host_def topo_sps_def)
  show "h \<noteq> h' \<Longrightarrow> sps_of_host T h \<inter> sps_of_host T h' = {}"
    using one unfolding sps_of_host_def by blast
  show "k \<in> topo_sps T \<Longrightarrow> ranks_of_sp T k \<noteq> {}" "h \<in> topo_hosts T \<Longrightarrow> sps_of_host T h \<noteq> {}"
    by (auto simp: topo_sps_def topo_hosts_def ranks_of_sp_def sps_of_host_def)
  from host show "h \<in> topo_hosts T \<Longrightarrow>
      the (map_of (cfg_host_lookup_table (e_config e)) h) < length (cfg_hosts_config (e_config e))"
    by fastforce
  from host show "inj_on (\<lambda>h. the (map_of (cfg_host_lookup_table (e_config e)) h)) (topo_hosts T)"
    by (metis (no_types, lifting) inj_onI option.sel)
qed

lemma sps_fillable_topo:
  assumes inv: "sp_inv T g" and wf: "topo_wf e (gc_group_size g) T"
    and "card (topo_sps T) \<le> length (the (gc_sps g))" "card (topo_sps T) \<le> length (e_service_procs e)"
  shows "\<exists>m. sps_fillable e g m \<and> fst ` set m = topo_sps T
           \<and> (\<forall>k d. map_of m k = Some d \<longrightarrow> sd_gid d = k \<and> bs_elems (sd_ranks_bitset d) = ranks_of_sp T k
                 \<and> bs_capacity (sd_ranks_bitset d) = CHAR_BIT * GROUP_CACHE_BITSET_NSLOTS (gc_group_size g))"
proof -
  from inv obtain m where m: "gc_sps_hash g = Some m" "distinct (map fst m)" "fst ` set m = topo_sps T"
      "gc_n_sps g = length m" "\<And>k d. map_of m k = Some d \<Longrightarrow> sp_ok (gc_group_size g) T k d"
      "bs_elems (gc_sps_bitset g) = topo_sps T"
    by (auto simp: sp_inv_def split: option.splits)
  have d: "distinct (map (\<lambda>(r, s, h). (r, s)) T)"
    using wf by (simp add: topo_wf_def)
  have fill: "sp_fillable (gc_group_size g) d" if "(k, d) \<in> set m" for k d
  proof -
    have "sp_ok (gc_group_size g) T k d"
      using that m(2) by (intro m(5)) simp
    moreover have "k \<in> topo_sps T"
      using that m(3) by force
    ultimately show ?thesis
      using topo_wf_facts(3,6)[OF wf] by (simp add: sp_fillable_def sp_ok_def count_eq_card[OF d])
  qed
  have len: "length m = card (topo_sps T)"
    using m(2,3) by (metis distinct_card length_map list.set_map)
  have ne: "m \<noteq> []"
    using m(3) topo_wf_facts(1)[OF wf] by auto
  have "sps_fillable e g m"
    using m(1,2,3,4,6) assms(3,4) ne len fill by (auto simp: sps_fillable_def)
  with m(3,5) show ?thesis
    by (auto simp: sp_ok_def)
qed

lemma hosts_fillable_topo:
  assumes inv: "host_inv (cfg_num_hosts (e_config e)) (map_of (cfg_host_lookup_table (e_config e))) T g"
    and wf: "topo_wf e (gc_group_size g) T" and none: "gc_hosts g = None"
  shows "\<exists>hm. hosts_fillable e g (topo_sps T) hm \<and> fst ` set hm = topo_hosts T
           \<and> (\<forall>k d. map_of hm k = Some d \<longrightarrow> hd_uid d = k \<and> hd_num_sps d = card (sps_of_host T k)
                 \<and> bs_elems (hd_sps_bitset d) = sps_of_host T k
                 \<and> bs_elems (hd_ranks_bitset d) = ranks_of_host T k
                 \<and> bs_capacity (hd_ranks_bitset d) = CHAR_BIT * GROUP_CACHE_BITSET_NSLOTS (gc_group_size g))
           \<and> bs_elems (gc_hosts_bitset g) = (\<lambda>h. the (LOOKUP_HOST_CONFIG_IDX e h)) ` topo_hosts T"
proof -
  let ?tab = "map_of (cfg_host_lookup_table (e_config e))"
  from inv obtain hm where h: "gc_hosts_hash g = Some hm" "distinct (map fst hm)" "fst ` set hm = topo_hosts T"
      "gc_n_hosts g = length hm" "\<And>k d. map_of hm k = Some d \<Longrightarrow> host_ok (gc_group_size g) ?tab T k d"
      "bs_elems (gc_hosts_bitset g) = (\<lambda>h. the (?tab h)) ` topo_hosts T"
    by (auto simp: host_inv_def split: option.splits)
  have ok: "host_ok (gc_group_size g) ?tab T k d" "k \<in> topo_hosts T" if "(k, d) \<in> set hm" for k d
    using that h(2,3) by (auto intro!: h(5) simp: rev_image_eqI)
  have fill: "host_fillable (topo_sps T) d" if "(k, d) \<in> set hm" for k d
    using ok[OF that] topo_wf_facts(4,7)[OF wf] by (auto simp: host_fillable_def host_ok_def)
  have "hosts_disjoint hm"
    unfolding hosts_disjoint_def using h(2) ok topo_wf_facts(5)[OF wf] by (auto simp: host_ok_def)
  moreover have "card (bs_elems (gc_hosts_bitset g)) = length hm"
    using h(2,3,6) card_image[OF topo_wf_facts(8)[OF wf]]
    by (metis distinct_card length_map list.set_map)
  moreover have "hm \<noteq> []"
    using h(3) topo_wf_facts(2)[OF wf] by auto
  ultimately have "hosts_fillable e g (topo_sps T) hm"
    using h(1,4,6) none fill topo_wf_facts(9)[OF wf] by (auto simp: hosts_fillable_def)
  with h(3,5,6) show ?thesis
    by (auto simp: host_ok_def lookup_conv)
qed

lemma position_in_sorted_list:
  fixes S :: "nat set"
  assumes "finite S" "j < card S"
  shows "card {s \<in> S. s < sorted_list_of_set S ! j} = j"
proof -
  let ?L = "sorted_list_of_set S"
  have w: "sorted_wrt (<) ?L" and len: "length ?L = card S" and S: "S = set ?L"
    using assms(1) by simp_all
  have lt: "?L ! i < ?L ! j \<longleftrightarrow> i < j" if "i < card S" for i
    using sorted_wrt_nth_less[OF w] that assms(2) len by (metis linorder_neqE_nat order_less_asym)
  have "{s \<in> S. s < ?L ! j} = (\<lambda>i. ?L ! i) ` {..<j}"
  proof (intro equalityI subsetI)
    fix s
    assume s: "s \<in> {s \<in> S. s < ?L ! j}"
    then obtain i where "i < card S" "s = ?L ! i"
      using assms(1) len by (metis (no_types, lifting) S in_set_conv_nth mem_Collect_eq)
    with s lt show "s \<in> (\<lambda>i. ?L ! i) ` {..<j}"
      by auto
  next
    fix s
    assume "s \<in> (\<lambda>i. ?L ! i) ` {..<j}"
    then show "s \<in> {s \<in> S. s < ?L ! j}"
      using lt assms(2) len nth_mem[of _ ?L] S by fastforce
  qed
  moreover have "inj_on (\<lambda>i. ?L ! i) {..<j}"
    using assms(2) len by (intro inj_on_nth) auto
  ultimately show ?thesis
    by (simp add: card_image)
qed

text \<open>The tables of a topology.\<close>

definition sp_table_ok :: "topology \<Rightarrow> group_cache_t \<Rightarrow> nat \<Rightarrow> bool" where
  "sp_table_ok T g k =
     (\<exists>d. GET_GROUP_SP_HASH_ENTRY g k = Inr (Some d) \<and> sd_gid d = k
        \<and> sd_ranks d = Some (sorted_list_of_set (ranks_of_sp T k)) \<and> sd_n_ranks d = card (ranks_of_sp T k)
        \<and> bs_elems (sd_ranks_bitset d) = ranks_of_sp T k
        \<and> bs_capacity (sd_ranks_bitset d) = CHAR_BIT * GROUP_CACHE_BITSET_NSLOTS (gc_group_size g)
        \<and> (\<forall>h. k \<in> sps_of_host T h \<longrightarrow> sd_lid d = card {s \<in> sps_of_host T h. s < k}))"

definition host_table_ok :: "topology \<Rightarrow> group_cache_t \<Rightarrow> nat \<Rightarrow> bool" where
  "host_table_ok T g h =
     (\<exists>d. GET_GROUP_HOST_HASH_ENTRY g h = Inr (Some d) \<and> hd_uid d = h
        \<and> hd_sps d = Some (sorted_list_of_set (sps_of_host T h)) \<and> hd_num_sps d = card (sps_of_host T h)
        \<and> bs_elems (hd_ranks_bitset d) = ranks_of_host T h
        \<and> bs_capacity (hd_ranks_bitset d) = CHAR_BIT * GROUP_CACHE_BITSET_NSLOTS (gc_group_size g))"

definition hosts_table_ok :: "offloading_engine_t \<Rightarrow> topology \<Rightarrow> group_cache_t \<Rightarrow> bool" where
  "hosts_table_ok e T g =
     (gc_n_hosts g = card (topo_hosts T)
      \<and> gc_hosts g = Some (map Some (sorted_list_of_set
           ((\<lambda>h. the (LOOKUP_HOST_CONFIG_IDX e h)) ` topo_hosts T))))"

lemma map_of_apsnd: "map_of (map (apsnd f) m) k = map_option f (map_of m k)"
  by (induction m) (auto simp: apsnd_def)

lemma sp_table_from_lids:
  assumes g: "gc_sps_hash g' = Some m'" and l: "lids_ok hm (map (apsnd with_ranks) m) m'"
    and m: "map_of m k = Some d" "sd_gid d = k" "sd_n_ranks d = card (ranks_of_sp T k)"
      "bs_elems (sd_ranks_bitset d) = ranks_of_sp T k"
      "bs_capacity (sd_ranks_bitset d) = CHAR_BIT * GROUP_CACHE_BITSET_NSLOTS (gc_group_size g')"
    and h: "map_of hm h = Some hv" "\<And>h d. map_of hm h = Some d \<Longrightarrow> bs_elems (hd_sps_bitset d) = sps_of_host T h"
    and k: "k \<in> sps_of_host T h" and one: "\<And>h'. k \<in> sps_of_host T h' \<Longrightarrow> h' = h"
  shows "sp_table_ok T g' k"
proof -
  have k2: "k \<in> set (host_sps_list hv)"
    using k h by simp
  then obtain j where j: "j < length (host_sps_list hv)" "host_sps_list hv ! j = k"
    unfolding in_set_conv_nth by blast
  have lst: "host_sps_list hv = sorted_list_of_set (sps_of_host T h)"
    using h by (simp add: host_sps_list_def)
  have "map_of (map (apsnd with_ranks) m) k = Some (with_ranks d)"
    using m(1) by (simp add: map_of_apsnd)
  then have "map_of m' k = Some ((with_ranks d)\<lparr>sd_lid := j\<rparr>)"
    using l j map_of_SomeD[OF h(1)] unfolding lids_ok_def by blast
  moreover have "j = card {s \<in> sps_of_host T h. s < k}"
    using position_in_sorted_list[of "sps_of_host T h" j] j lst by simp
  ultimately show ?thesis
    using m one by (auto simp: sp_table_ok_def sp_entry[OF g] with_ranks_def)
qed

definition tables_ok :: "offloading_engine_t \<Rightarrow> topology \<Rightarrow> group_cache_t \<Rightarrow> bool" where
  "tables_ok e T g =
     (gc_lookup_tables_populated g \<and> hosts_table_ok e T g \<and> gc_n_sps g = card (topo_sps T)
      \<and> bs_elems (gc_sps_bitset g) = topo_sps T
      \<and> bs_capacity (gc_sps_bitset g) = CHAR_BIT * GROUP_CACHE_BITSET_NSLOTS (gc_group_size g)
      \<and> (\<exists>xs. gc_sps g = Some (map Some [0..<card (topo_sps T)] @ xs))
      \<and> (\<forall>k. k \<notin> topo_sps T \<longrightarrow> GET_GROUP_SP_HASH_ENTRY g k = Inr None)
      \<and> (\<forall>k \<in> topo_sps T. sp_table_ok T g k) \<and> (\<forall>h \<in> topo_hosts T. host_table_ok T g h))"

definition tables_frame :: "group_cache_t \<Rightarrow> group_cache_t \<Rightarrow> bool" where
  "tables_frame g g' =
     (gc_ranks g' = gc_ranks g \<and> gc_group_size g' = gc_group_size g
      \<and> gc_num_local_entries g' = gc_num_local_entries g \<and> gc_revokes_global g' = gc_revokes_global g)"

lemma populate_topology:
  assumes ready: "group_ready uid g e" and np: "\<not> gc_lookup_tables_populated g" "gc_hosts g = None"
    and inv: "topo_inv uid T e" and wf: "topo_wf e (gc_group_size g) T"
    and len: "card (topo_sps T) \<le> length (the (gc_sps g))" "card (topo_sps T) \<le> length (e_service_procs e)"
  shows "\<exists>g'. do_populate_group_cache_lookup_table uid e = Inr (gp_put uid g' e) \<and> tables_ok e T g'
           \<and> group_ready uid g' (gp_put uid g' e) \<and> tables_frame g g'"
proof -
  from inv ready_get(3)[OF ready] have si: "sp_inv T g"
    and hi: "host_inv (cfg_num_hosts (e_config e)) (map_of (cfg_host_lookup_table (e_config e))) T g"
    by (simp_all add: topo_inv_def)
  from sps_fillable_topo[OF si wf len] obtain m where m: "sps_fillable e g m" "fst ` set m = topo_sps T"
      "\<And>k d. map_of m k = Some d \<Longrightarrow> sd_gid d = k \<and> bs_elems (sd_ranks_bitset d) = ranks_of_sp T k
         \<and> bs_capacity (sd_ranks_bitset d) = CHAR_BIT * GROUP_CACHE_BITSET_NSLOTS (gc_group_size g)"
    by blast
  from hosts_fillable_topo[OF hi wf np(2)] obtain hm where h: "hosts_fillable e g (fst ` set m) hm"
      "fst ` set hm = topo_hosts T"
      "\<And>k d. map_of hm k = Some d \<Longrightarrow> hd_uid d = k \<and> hd_num_sps d = card (sps_of_host T k)
         \<and> bs_elems (hd_sps_bitset d) = sps_of_host T k \<and> bs_elems (hd_ranks_bitset d) = ranks_of_host T k
         \<and> bs_capacity (hd_ranks_bitset d) = CHAR_BIT * GROUP_CACHE_BITSET_NSLOTS (gc_group_size g)"
      "bs_elems (gc_hosts_bitset g) = (\<lambda>h. the (LOOKUP_HOST_CONFIG_IDX e h)) ` topo_hosts T"
    unfolding m(2) by blast
  let ?g = "\<lambda>m'. g\<lparr>gc_sps := Some (map Some [0..<length m] @ drop (length m) (the (gc_sps g))),
               gc_hosts := Some (map Some (sorted_list_of_set (bs_elems (gc_hosts_bitset g)))),
               gc_sps_hash := Some m', gc_hosts_hash := Some (map (apsnd with_sps) hm),
               gc_lookup_tables_populated := True\<rparr>"
  from do_populate_spec[OF ready np(1) m(1) h(1)] obtain m' where
    p: "do_populate_group_cache_lookup_table uid e = Inr (gp_put uid (?g m') e)"
      "lids_ok hm (map (apsnd with_ranks) m) m'"
    by blast
  have cards: "length m = card (topo_sps T)" "length hm = card (topo_hosts T)"
    using m(1,2) h(1,2) unfolding sps_fillable_def hosts_fillable_def hosts_disjoint_def
    by (metis distinct_card length_map list.set_map)+
  have "sp_table_ok T (?g m') k" if k: "k \<in> topo_sps T" for k
  proof -
    obtain d where d: "map_of m k = Some d"
      using k m(2) map_of_None_keys[of m k] by (cases "map_of m k") auto
    then have n: "sd_n_ranks d = card (ranks_of_sp T k)"
      using m(1) m(3)[OF d] map_of_SomeD[OF d] by (auto simp: sps_fillable_def sp_fillable_def)
    obtain hu where hu: "k \<in> sps_of_host T hu" "hu \<in> topo_hosts T"
      using k by (auto simp: topo_sps_def sps_of_host_def topo_hosts_def) force
    obtain hv where hv: "map_of hm hu = Some hv"
      using hu(2) h(2) map_of_None_keys[of hm hu] by (cases "map_of hm hu") auto
    have one: "h' = hu" if "k \<in> sps_of_host T h'" for h'
      using topo_wf_facts(5)[OF wf, of h' hu] hu(1) that by blast
    show ?thesis
      by (rule sp_table_from_lids[OF _ p(2) d _ n _ _ hv _ hu(1) one]) (use m(3)[OF d] h(3) in auto)
  qed
  moreover have "GET_GROUP_SP_HASH_ENTRY (?g m') k = Inr None" if "k \<notin> topo_sps T" for k
  proof -
    have "map fst m' = map fst m"
      using p(2) by (simp add: lids_ok_def)
    then have "map_of m' k = None"
      using that m(2) by (metis map_of_None_keys list.set_map)
    then show ?thesis
      using sp_entry[of "?g m'" m' k] by simp
  qed
  moreover have "host_table_ok T (?g m') hu" if hu: "hu \<in> topo_hosts T" for hu
  proof -
    obtain hv where hv: "map_of hm hu = Some hv"
      using hu h(2) map_of_None_keys[of hm hu] by (cases "map_of hm hu") auto
    then have "map_of (map (apsnd with_sps) hm) hu = Some (with_sps hv)"
      by (simp add: map_of_apsnd)
    then show ?thesis
      using h(3)[OF hv] host_entry[of "?g m'" "map (apsnd with_sps) hm" hu]
      by (simp add: host_table_ok_def with_sps_def)
  qed
  moreover have "bs_capacity (gc_sps_bitset g) = CHAR_BIT * GROUP_CACHE_BITSET_NSLOTS (gc_group_size g)"
    using si topo_wf_facts(1)[OF wf] by (auto simp: sp_inv_def split: option.splits)
  moreover have "tables_frame g (?g m')"
    by (simp add: tables_frame_def)
  moreover have "group_ready uid (?g m') (gp_put uid (?g m') e)"
    by (rule ready_put[OF ready]) simp_all
  ultimately show ?thesis
    using p(1) m(1,2) h(1,4) cards
    by (intro exI[of _ "?g m'"]) (simp add: tables_ok_def hosts_table_ok_def sps_fillable_def hosts_fillable_def)
qed

lemma topo_frame_ready:
  assumes "group_ready uid g e" "topo_frame g g'" "gp_get uid e' = Inr g'"
  shows "group_ready uid g' e'"
  using assms by (auto simp: group_ready_def topo_frame_def)

lemma config_congs:
  assumes "e_config e' = e_config e"
  shows "topo_wf e' n T = topo_wf e n T" "tables_ok e' T g = tables_ok e T g"
  unfolding topo_wf_def topo_arg_ok_config[OF assms] tables_ok_def hosts_table_ok_def lookup_conv
    assms by (rule refl)+

lemma build_topology:
  assumes ready: "group_ready uid g e" and fresh: "fresh_group g" "\<not> gc_lookup_tables_populated g" "gc_hosts g = None"
    and wf: "topo_wf e (gc_group_size g) T"
    and len: "card (topo_sps T) \<le> length (the (gc_sps g))" "card (topo_sps T) \<le> length (e_service_procs e)"
  shows "\<exists>e1 g'. foldE (\<lambda>(r, s, h). update_topology_data uid (int r) s h) T e = Inr e1
      \<and> do_populate_group_cache_lookup_table uid e1 = Inr (gp_put uid g' e1)
      \<and> tables_ok e1 T g' \<and> group_ready uid g' (gp_put uid g' e1) \<and> tables_frame g g'
      \<and> e_config e1 = e_config e \<and> e_service_procs e1 = e_service_procs e
      \<and> e_num_service_procs e1 = e_num_service_procs e"
proof -
  note g = ready_get(3)[OF ready]
  have n: "0 < gc_group_size g"
    using ready by (simp add: group_ready_def)
  have ok: "\<forall>a \<in> set T. topo_arg_ok e (gc_group_size g) a"
    using wf by (simp add: topo_wf_def)
  from update_topology_data_fold[OF fresh_topo_inv[OF fresh(1) n g] g ok] obtain e1 g1 where
    f: "foldE (\<lambda>(r, s, h). update_topology_data uid (int r) s h) T e = Inr e1"
      "topo_inv uid T e1" "gp_get uid e1 = Inr g1" "topo_frame g g1" "e_config e1 = e_config e"
      "e_service_procs e1 = e_service_procs e" "e_num_service_procs e1 = e_num_service_procs e"
    by auto
  have g1: "\<not> gc_lookup_tables_populated g1" "gc_hosts g1 = None" "gc_sps g1 = gc_sps g"
      "gc_group_size g1 = gc_group_size g" "\<And>g'. tables_frame g1 g' = tables_frame g g'"
    using f(4) fresh(2,3) by (auto simp: topo_frame_def tables_frame_def)
  from g1 populate_topology[OF topo_frame_ready[OF ready f(4,3)] _ _ f(2)] wf len f(5,6)
  have "\<exists>g'. do_populate_group_cache_lookup_table uid e1 = Inr (gp_put uid g' e1) \<and> tables_ok e1 T g'
           \<and> group_ready uid g' (gp_put uid g' e1) \<and> tables_frame g g'"
    by (simp add: config_congs(1)[OF f(5)])
  with f(1,5-7) show ?thesis
    by blast
qed

text \<open>C8: The lookup tables of a group are built and correct: on a new group and for any well-formed list
  of (rank, SP, host) associations, building the tables after the topology was recorded returns, and the
  tables list in increasing order the configuration indices of exactly the hosts of the group, for every
  SP exactly its ranks, for every host exactly its SPs, and every SP is numbered by its position among
  the SPs of its host.\<close>

theorem lookup_tables_correct:
  assumes "group_ready uid g e" "fresh_group g" "\<not> gc_lookup_tables_populated g" "gc_hosts g = None"
    and "topo_wf e (gc_group_size g) T"
    and "card (topo_sps T) \<le> length (the (gc_sps g))" "card (topo_sps T) \<le> length (e_service_procs e)"
  shows "\<exists>e1 e2 g'. foldE (\<lambda>(r, s, h). update_topology_data uid (int r) s h) T e = Inr e1
      \<and> do_populate_group_cache_lookup_table uid e1 = Inr e2 \<and> gp_get uid e2 = Inr g'
      \<and> gc_lookup_tables_populated g'
      \<and> gc_hosts g' = Some (map Some (sorted_list_of_set ((\<lambda>h. the (LOOKUP_HOST_CONFIG_IDX e h)) ` topo_hosts T)))
      \<and> (\<forall>k \<in> topo_sps T. \<exists>d. GET_GROUP_SP_HASH_ENTRY g' k = Inr (Some d)
           \<and> sd_ranks d = Some (sorted_list_of_set (ranks_of_sp T k))
           \<and> (\<forall>h. k \<in> sps_of_host T h \<longrightarrow> sd_lid d = card {s \<in> sps_of_host T h. s < k}))
      \<and> (\<forall>h \<in> topo_hosts T. \<exists>d. GET_GROUP_HOST_HASH_ENTRY g' h = Inr (Some d)
           \<and> hd_sps d = Some (sorted_list_of_set (sps_of_host T h)))"
proof -
  from build_topology[OF assms] obtain e1 g' where
    b: "foldE (\<lambda>(r, s, h). update_topology_data uid (int r) s h) T e = Inr e1"
      "do_populate_group_cache_lookup_table uid e1 = Inr (gp_put uid g' e1)" "tables_ok e1 T g'"
      "e_config e1 = e_config e"
    by blast
  from b(3) have t: "tables_ok e T g'"
    by (simp add: config_congs(2)[OF b(4)])
  have "\<forall>k \<in> topo_sps T. \<exists>d. GET_GROUP_SP_HASH_ENTRY g' k = Inr (Some d)
           \<and> sd_ranks d = Some (sorted_list_of_set (ranks_of_sp T k))
           \<and> (\<forall>h. k \<in> sps_of_host T h \<longrightarrow> sd_lid d = card {s \<in> sps_of_host T h. s < k})"
    using t unfolding tables_ok_def sp_table_ok_def by blast
  moreover have "\<forall>h \<in> topo_hosts T. \<exists>d. GET_GROUP_HOST_HASH_ENTRY g' h = Inr (Some d)
           \<and> hd_sps d = Some (sorted_list_of_set (sps_of_host T h))"
    using t unfolding tables_ok_def host_table_ok_def by blast
  ultimately show ?thesis
    using b(1,2) t by (intro exI[of _ e1] exI[of _ "gp_put uid g' e1"] exI[of _ g'])
      (simp add: tables_ok_def hosts_table_ok_def)
qed

lemma demo_ready: "0 < n \<Longrightarrow> group_ready 7 (demo_group n) (demo_engine n)"
  by (simp add: group_ready_def demo_engine_group)
     (simp add: demo_group_def BASIC_INIT_GROUP_CACHE_def init_persistent_def INT_MAX_def)

lemma demo_unpopulated: "\<not> gc_lookup_tables_populated (demo_group n)" "gc_hosts (demo_group n) = None"
  "length (the (gc_sps (demo_group n))) = 3" "length (e_service_procs (demo_engine n)) = 3"
  by (simp_all add: demo_group_def demo_engine_def BASIC_INIT_GROUP_CACHE_def)

lemma demo_topo_wf: "topo_wf (demo_engine 4) (gc_group_size (demo_group 4)) demo_topo"
  using demo_topo_facts(1,2)
  by (simp add: topo_wf_def)
     (auto simp: demo_topo_def topo_hosts_def LOOKUP_HOST_CONFIG_IDX_def demo_engine_def)

lemmas demo_tables_pre = demo_ready[of 4] demo_group_fresh(1) demo_unpopulated(1,2) demo_topo_wf

theorem lookup_tables_correct_witness:
  "\<exists>e1 e2 g' d. foldE (\<lambda>(r, s, h). update_topology_data 7 (int r) s h) demo_topo (demo_engine 4) = Inr e1
      \<and> do_populate_group_cache_lookup_table 7 e1 = Inr e2 \<and> gp_get 7 e2 = Inr g'
      \<and> GET_GROUP_SP_HASH_ENTRY g' 0 = Inr (Some d) \<and> sd_ranks d = Some [0, 2]"
proof -
  have "sorted_list_of_set (ranks_of_sp demo_topo 0) = [0, 2]"
    by (simp add: demo_topo_facts)
  with lookup_tables_correct[of 7, OF _ demo_tables_pre(2-5)] demo_tables_pre(1) demo_unpopulated demo_topo_facts(3,6)
  show ?thesis
    by fastforce
qed

section \<open>Queries\<close>

text \<open>A group that was just created, and a topology to be recorded on it.\<close>

definition new_group :: "int \<Rightarrow> group_cache_t \<Rightarrow> offloading_engine_t \<Rightarrow> topology \<Rightarrow> bool" where
  "new_group uid g e T =
     (group_ready uid g e \<and> fresh_group g \<and> \<not> gc_lookup_tables_populated g \<and> gc_hosts g = None
      \<and> topo_wf e (gc_group_size g) T \<and> card (topo_sps T) \<le> length (the (gc_sps g))
      \<and> card (topo_sps T) \<le> length (e_service_procs e))"

definition record_topology :: "int \<Rightarrow> topology \<Rightarrow> offloading_engine_t \<Rightarrow> offloading_engine_t res" where
  "record_topology uid T e = foldE (\<lambda>(r, s, h). update_topology_data uid (int r) s h) T e"

lemma with_tables_recorded:
  assumes "new_group uid g e T"
  shows "\<exists>e1 g'. record_topology uid T e = Inr e1 \<and> with_tables uid e1 = Inr (g', gp_put uid g' e1)
      \<and> tables_ok e T g' \<and> group_ready uid g' (gp_put uid g' e1) \<and> tables_frame g g'
      \<and> e_config e1 = e_config e \<and> e_service_procs e1 = e_service_procs e
      \<and> e_num_service_procs e1 = e_num_service_procs e"
proof -
  from assms build_topology[of uid g e T] obtain e1 g' where b: "record_topology uid T e = Inr e1"
      "do_populate_group_cache_lookup_table uid e1 = Inr (gp_put uid g' e1)" "tables_ok e1 T g'"
      "group_ready uid g' (gp_put uid g' e1)" "tables_frame g g'" "e_config e1 = e_config e"
      "e_service_procs e1 = e_service_procs e" "e_num_service_procs e1 = e_num_service_procs e"
    unfolding new_group_def record_topology_def by blast
  have n: "0 < gc_group_size g" and ready: "group_ready uid g e" and fresh: "fresh_group g"
    and ok: "\<forall>a \<in> set T. topo_arg_ok e (gc_group_size g) a"
    using assms by (auto simp: new_group_def group_ready_def topo_wf_def)
  note g = ready_get(3)[OF ready]
  from update_topology_data_fold[OF fresh_topo_inv[OF fresh n g] g ok] b(1) obtain g1 where
    g1: "gp_get uid e1 = Inr g1" "topo_frame g g1"
    by (auto simp: record_topology_def)
  have r1: "group_ready uid g1 e1"
    by (rule topo_frame_ready[OF ready g1(2,1)])
  have "\<not> gc_lookup_tables_populated g1"
    using assms g1(2) by (auto simp: new_group_def topo_frame_def)
  then have "with_tables uid e1 = Inr (g', gp_put uid g' e1)"
    by (simp add: with_tables_def ready_get[OF r1] b(2))
  with b show ?thesis
    by (auto simp: config_congs(2)[OF b(6)])
qed

lemma sp_gid_at_table:
  assumes "tables_ok e T g" "i < card (topo_sps T)" "i < length (e_service_procs e')"
  shows "sp_gid_at e' g i = Inr (sp_global_id (e_service_procs e' ! i))"
  using assms by (auto simp: sp_gid_at_def MIMOSA_GET_SP_FROM_GROUP_CACHE_def tables_ok_def nth_append)

text \<open>The query for the number of ranks of an SP of a group answers correctly when the SPs of the
  group are the first SPs of the engine: it returns the number of ranks associated with the SP.\<close>

lemma get_num_ranks_for_group_sp_dense:
  assumes "new_group uid g e T" "\<forall>j < length (e_service_procs e). sp_global_id (e_service_procs e ! j) = j"
    and "topo_sps T = {..<card (topo_sps T)}" "i < card (topo_sps T)"
  shows "\<exists>e1 e2. record_topology uid T e = Inr e1
      \<and> get_num_ranks_for_group_sp uid i e1 = Inr ((DO_SUCCESS, Some (card (ranks_of_sp T i))), e2)"
proof -
  from with_tables_recorded[OF assms(1)] obtain e1 g' where w: "record_topology uid T e = Inr e1"
      "with_tables uid e1 = Inr (g', gp_put uid g' e1)" "tables_ok e T g'" "e_service_procs e1 = e_service_procs e"
    by blast
  have len: "i < length (e_service_procs e)"
    using assms(1,4) by (simp add: new_group_def)
  have "sp_table_ok T g' i"
    using w(3) assms(3,4) by (auto simp: tables_ok_def)
  then obtain d where "GET_GROUP_SP_HASH_ENTRY g' i = Inr (Some d)" "sd_n_ranks d = card (ranks_of_sp T i)"
    by (auto simp: sp_table_ok_def)
  moreover have "sp_gid_at (gp_put uid g' e1) g' i = Inr i"
    using sp_gid_at_table[OF w(3) assms(4), of "gp_put uid g' e1"] w(4) len assms(2) by simp
  ultimately show ?thesis
    using w(1,2) by (simp add: get_num_ranks_for_group_sp_def sp_data_at_def)
qed

lemma demo_new_group: "new_group 7 (demo_group 4) (demo_engine 4) demo_topo"
  using demo_tables_pre demo_unpopulated demo_topo_facts(3) by (simp add: new_group_def)

lemma demo_sp_ids:
  "\<forall>j < length (e_service_procs (demo_engine 4)). sp_global_id (e_service_procs (demo_engine 4) ! j) = j"
  by (auto simp: demo_engine_def less_Suc_eq numeral_3_eq_3)

text \<open>The table of the SPs of a group holds the first SPs of the engine, not the SPs of the group: when
  the SPs of a group leave out one of the first SPs of the engine, the query for the number of ranks of the
  SP at that position of the group fails an assertion.\<close>

lemma get_num_ranks_for_group_sp_sparse:
  assumes "new_group uid g e T" "\<forall>j < length (e_service_procs e). sp_global_id (e_service_procs e ! j) = j"
    and "i < card (topo_sps T)" "i \<notin> topo_sps T"
  shows "\<exists>e1. record_topology uid T e = Inr e1 \<and> get_num_ranks_for_group_sp uid i e1 = Inl Assert_failed"
proof -
  from with_tables_recorded[OF assms(1)] obtain e1 g' where w: "record_topology uid T e = Inr e1"
      "with_tables uid e1 = Inr (g', gp_put uid g' e1)" "tables_ok e T g'" "e_service_procs e1 = e_service_procs e"
    by blast
  have len: "i < length (e_service_procs e)"
    using assms(1,3) by (simp add: new_group_def)
  have none: "GET_GROUP_SP_HASH_ENTRY g' i = Inr None"
    using w(3) assms(4) by (simp add: tables_ok_def)
  moreover have "sp_gid_at (gp_put uid g' e1) g' i = Inr i"
    using sp_gid_at_table[OF w(3) assms(3), of "gp_put uid g' e1"] w(4) len assms(2) by simp
  ultimately show ?thesis
    using w(1,2) by (simp add: get_num_ranks_for_group_sp_def sp_data_at_def)
qed

definition sparse_topo :: topology where
  "sparse_topo = [(0, 1, 100), (1, 1, 100), (2, 2, 200), (3, 2, 200)]"

lemma sparse_sps: "topo_sps sparse_topo = {1, 2}"
  by (auto simp: topo_sps_def sparse_topo_def)

lemma sparse_new_group: "new_group 7 (demo_group 4) (demo_engine 4) sparse_topo"
proof -
  have "\<forall>a \<in> set sparse_topo. topo_arg_ok (demo_engine 4) (gc_group_size (demo_group 4)) a"
    by (simp add: demo_group_fresh sparse_topo_def demo_arg_ok)
  then have "topo_wf (demo_engine 4) (gc_group_size (demo_group 4)) sparse_topo"
    by (simp add: topo_wf_def)
       (auto simp: sparse_topo_def topo_hosts_def LOOKUP_HOST_CONFIG_IDX_def demo_engine_def)
  then show ?thesis
    using demo_tables_pre(1-4) demo_unpopulated by (simp add: new_group_def sparse_sps)
qed

lemma get_num_ranks_for_group_sp_sparse_witness:
  "\<exists>e1. record_topology 7 sparse_topo (demo_engine 4) = Inr e1
      \<and> get_num_ranks_for_group_sp 7 0 e1 = Inl Assert_failed"
  using get_num_ranks_for_group_sp_sparse[OF sparse_new_group demo_sp_ids, of 0] by (simp add: sparse_sps)

lemma nth_of_position:
  fixes S :: "nat set"
  assumes "finite S" "x \<in> S"
  shows "sorted_list_of_set S ! card {y \<in> S. y < x} = x" "card {y \<in> S. y < x} < card S"
proof -
  obtain j where j: "j < card S" "sorted_list_of_set S ! j = x"
    using assms by (metis in_set_conv_nth length_sorted_list_of_set set_sorted_list_of_set)
  from position_in_sorted_list[OF assms(1) j(1)] j
  show "sorted_list_of_set S ! card {y \<in> S. y < x} = x" "card {y \<in> S. y < x} < card S"
    by simp_all
qed

lemma count_bits_below_spec:
  assumes "n \<le> bs_capacity bs"
  shows "count_bits_below bs n = Inr (card {j \<in> bs_elems bs. j < n})"
  using assms
proof (induction n)
  case (Suc n)
  have fin: "finite {j \<in> bs_elems bs. j < n}"
    by simp
  have "{j \<in> bs_elems bs. j < Suc n} = (if n \<in> bs_elems bs then insert n {j \<in> bs_elems bs. j < n}
          else {j \<in> bs_elems bs. j < n})"
    by (auto simp: less_Suc_eq)
  then show ?case
    using Suc fin by (simp add: count_bits_below_def foldE_append bs.test_in)
qed (simp add: count_bits_below_def)

lemma nth_set_bit_spec:
  assumes "s \<in> bs_elems bs" "idx \<le> s" "s < idx + fuel"
    and "target = cnt + card {j \<in> bs_elems bs. idx \<le> j \<and> j < s}"
  shows "nth_set_bit bs target fuel cnt idx = Inr s"
  using assms(2-4)
proof (induction fuel arbitrary: cnt idx)
  case (Suc fuel)
  have "idx < bs_capacity bs"
    using Suc.prems(1) bs_elems_capacity[OF assms(1)] by simp
  then have t: "GROUP_CACHE_BITSET_TEST bs idx = Inr (idx \<in> bs_elems bs)"
    by (rule bs.test_in)
  show ?case
  proof (cases "idx = s")
    case True
    then show ?thesis
      using Suc.prems(3) t assms(1) by simp
  next
    case False
    have "{j \<in> bs_elems bs. idx \<le> j \<and> j < s} = (if idx \<in> bs_elems bs
            then insert idx {j \<in> bs_elems bs. Suc idx \<le> j \<and> j < s}
            else {j \<in> bs_elems bs. Suc idx \<le> j \<and> j < s})"
      using False Suc.prems(1) by (auto simp: le_less Suc_le_eq)
    moreover have "finite {j \<in> bs_elems bs. Suc idx \<le> j \<and> j < s}"
      by simp
    ultimately have "target = (if idx \<in> bs_elems bs then Suc cnt else cnt)
        + card {j \<in> bs_elems bs. Suc idx \<le> j \<and> j < s}"
      using Suc.prems(3) by simp
    then show ?thesis
      using Suc.IH[of "Suc idx"] Suc.prems(1,2) False t by (auto split: if_splits)
  qed
qed simp

text \<open>The identifiers of the SPs of a group are consistent: for an SP of the group, the query for its
  identifier in the group returns the number of SPs of the group below it, unless its global identifier
  exceeds the number of SPs of the group, for which the query reports an error although the SP is in the
  group; the translation back from the position in the group to the local identifier on the host gives
  the number of SPs of the group below it on its host.\<close>

lemma sp_group_ids:
  assumes "new_group uid g e T" "s \<in> topo_sps T" "s \<in> sps_of_host T h"
    and "gc_revokes_global g = 0" "gc_group_size g = gc_num_local_entries g"
    and "s < e_num_service_procs e"
  shows "\<exists>e1 e2 e3. record_topology uid T e = Inr e1
      \<and> get_sp_group_gid uid s e1
          = Inr (if s \<le> card (topo_sps T) then (DO_SUCCESS, Some (card {k \<in> topo_sps T. k < s}))
                 else (DO_ERROR, Some UINT64_MAX), e2)
      \<and> get_local_sp_id_by_group uid (card {k \<in> topo_sps T. k < s}) e1
          = Inr ((DO_SUCCESS, Some (card {k \<in> sps_of_host T h. k < s})), e3)"
proof -
  from with_tables_recorded[OF assms(1)] obtain e1 g' where w: "record_topology uid T e = Inr e1"
      "with_tables uid e1 = Inr (g', gp_put uid g' e1)" "tables_ok e T g'"
      "group_ready uid g' (gp_put uid g' e1)" "tables_frame g g'"
      "e_num_service_procs e1 = e_num_service_procs e"
    by blast
  have el: "bs_elems (gc_sps_bitset g') = topo_sps T" and n: "gc_n_sps g' = card (topo_sps T)"
    and sp: "sp_table_ok T g' s"
    using w(3) assms(2) by (auto simp: tables_ok_def)
  then obtain d where d: "GET_GROUP_SP_HASH_ENTRY g' s = Inr (Some d)"
      "sd_lid d = card {k \<in> sps_of_host T h. k < s}"
    using assms(3) by (auto simp: sp_table_ok_def)
  have cap: "s < bs_capacity (gc_sps_bitset g')"
    using assms(2) el bs_elems_capacity by blast
  have pop: "group_cache_populated uid (gp_put uid g' e1) = Inr (True, gp_put uid g' e1)"
    using w(5) assms(4,5) by (simp add: group_cache_populated_def ready_get[OF w(4)] tables_frame_def)
  have sps: "gc_sps g' \<noteq> None"
    using w(4) by (simp add: group_ready_def)
  have gid: "get_sp_group_gid uid s e1
      = Inr (if s \<le> card (topo_sps T) then (DO_SUCCESS, Some (card {k \<in> topo_sps T. k < s}))
             else (DO_ERROR, Some UINT64_MAX), gp_put uid g' e1)"
    using sps pop cap assms(2) n
    by (simp add: get_sp_group_gid_def w(2) bs.test_in el count_bits_below_spec not_less)
  have "nth_set_bit (gc_sps_bitset g') (card {k \<in> topo_sps T. k < s}) (e_num_service_procs e) 0 0 = Inr s"
    using assms(2,6) el by (intro nth_set_bit_spec) auto
  then have "get_local_sp_id_by_group uid (card {k \<in> topo_sps T. k < s}) e1
      = Inr ((DO_SUCCESS, Some (card {k \<in> sps_of_host T h. k < s})), gp_put uid g' e1)"
    using d n nth_of_position(2)[OF topo_finite(2) assms(2)]
    by (simp add: get_local_sp_id_by_group_def w(2,6))
  with gid w(1) show ?thesis
    by blast
qed

definition lonely_topo :: topology where
  "lonely_topo = [(0, 2, 200), (1, 2, 200), (2, 2, 200), (3, 2, 200)]"

lemma lonely_sps: "topo_sps lonely_topo = {2}" "sps_of_host lonely_topo 200 = {2}"
  by (auto simp: topo_sps_def lonely_topo_def sps_of_host_def)

lemma lonely_new_group: "new_group 7 (demo_group 4) (demo_engine 4) lonely_topo"
proof -
  have "\<forall>a \<in> set lonely_topo. topo_arg_ok (demo_engine 4) (gc_group_size (demo_group 4)) a"
    by (simp add: demo_group_fresh lonely_topo_def demo_arg_ok)
  then have "topo_wf (demo_engine 4) (gc_group_size (demo_group 4)) lonely_topo"
    by (simp add: topo_wf_def)
       (auto simp: lonely_topo_def topo_hosts_def LOOKUP_HOST_CONFIG_IDX_def demo_engine_def)
  then show ?thesis
    using demo_tables_pre(1-4) demo_unpopulated by (simp add: new_group_def lonely_sps)
qed

lemma demo_group_full: "gc_revokes_global (demo_group n) = 0" "gc_group_size (demo_group n) = gc_num_local_entries (demo_group n)"
  "e_num_service_procs (demo_engine n) = 3"
  by (simp_all add: demo_group_def demo_engine_def BASIC_INIT_GROUP_CACHE_def)

lemma sp_group_ids_witness:
  "(\<exists>e1 e2 e3. record_topology 7 demo_topo (demo_engine 4) = Inr e1
      \<and> get_sp_group_gid 7 1 e1 = Inr ((DO_SUCCESS, Some 1), e2)
      \<and> get_local_sp_id_by_group 7 1 e1 = Inr ((DO_SUCCESS, Some 1), e3))
   \<and> (\<exists>e1 e2. record_topology 7 lonely_topo (demo_engine 4) = Inr e1
      \<and> get_sp_group_gid 7 2 e1 = Inr ((DO_ERROR, Some UINT64_MAX), e2))"
proof
  have d: "1 \<in> topo_sps demo_topo" "1 \<in> sps_of_host demo_topo 100"
    "{k \<in> topo_sps demo_topo. k < 1} = {0}" "{k \<in> sps_of_host demo_topo 100. k < 1} = {0}"
    by (auto simp: topo_sps_def sps_of_host_def demo_topo_def)
  from sp_group_ids[OF demo_new_group d(1,2) demo_group_full(1,2)] d(3,4) demo_topo_facts(3)
  show "\<exists>e1 e2 e3. record_topology 7 demo_topo (demo_engine 4) = Inr e1
      \<and> get_sp_group_gid 7 1 e1 = Inr ((DO_SUCCESS, Some 1), e2)
      \<and> get_local_sp_id_by_group 7 1 e1 = Inr ((DO_SUCCESS, Some 1), e3)"
    by (simp add: demo_group_full)
  show "\<exists>e1 e2. record_topology 7 lonely_topo (demo_engine 4) = Inr e1
      \<and> get_sp_group_gid 7 2 e1 = Inr ((DO_ERROR, Some UINT64_MAX), e2)"
    using sp_group_ids[OF lonely_new_group _ _ demo_group_full(1,2), of 2 200]
    by (auto simp: lonely_sps demo_group_full)
qed

text \<open>The data of the host at a position of the table of hosts.\<close>

lemma host_data_at_table:
  assumes t: "tables_ok e T g" and wf: "topo_wf e n T" and h: "h \<in> topo_hosts T"
    and cfg: "e_config e' = e_config e"
  shows "\<exists>d. host_data_at e' g (card {k \<in> topo_hosts T. the (LOOKUP_HOST_CONFIG_IDX e k) < the (LOOKUP_HOST_CONFIG_IDX e h)})
             = Inr d \<and> bs_elems (hd_ranks_bitset d) = ranks_of_host T h
           \<and> bs_capacity (hd_ranks_bitset d) = CHAR_BIT * GROUP_CACHE_BITSET_NSLOTS (gc_group_size g)"
proof -
  let ?f = "\<lambda>h. the (LOOKUP_HOST_CONFIG_IDX e h)"
  let ?S = "?f ` topo_hosts T" and ?i = "card {k \<in> topo_hosts T. ?f k < ?f h}"
  have inj: "inj_on ?f (topo_hosts T)"
    using topo_wf_facts(8)[OF wf] by (simp add: lookup_conv)
  have "{y \<in> ?S. y < ?f h} = ?f ` {k \<in> topo_hosts T. ?f k < ?f h}"
    by auto
  then have "card {y \<in> ?S. y < ?f h} = ?i"
    by (simp add: card_image inj_on_subset[OF inj])
  with nth_of_position[of ?S "?f h"] h have pos: "sorted_list_of_set ?S ! ?i = ?f h" "?i < card ?S"
    by auto
  have "host_table_ok T g h"
    using t h by (simp add: tables_ok_def)
  then obtain d where d: "GET_GROUP_HOST_HASH_ENTRY g h = Inr (Some d)"
      "bs_elems (hd_ranks_bitset d) = ranks_of_host T h"
      "bs_capacity (hd_ranks_bitset d) = CHAR_BIT * GROUP_CACHE_BITSET_NSLOTS (gc_group_size g)"
    by (auto simp: host_table_ok_def)
  obtain j where j: "LOOKUP_HOST_CONFIG_IDX e h = Some j" "j < length (cfg_hosts_config (e_config e))"
      "hi_uid (cfg_hosts_config (e_config e) ! j) = h"
    using wf h unfolding topo_wf_def by blast
  have "host_uid_at e' g ?i = Inr h"
    using t pos j by (simp add: host_uid_at_def MIMOSA_GET_HOST_FROM_GROUP_CACHE_def tables_ok_def
        hosts_table_ok_def cfg)
  with d show ?thesis
    by (simp add: host_data_at_def)
qed

lemma rank_index_loop_spec:
  assumes "r \<in> bs_elems bs" "i \<le> r" "r < n"
  shows "rank_index_loop bs (int r) [i..<n] (if c = 0 then None else Some (c - 1))
         = Inr (Some (c + card {j \<in> bs_elems bs. i \<le> j \<and> j < r}))"
  using assms(2)
proof (induction "r - i" arbitrary: i c)
  case 0
  then have "i = r"
    by simp
  then show ?case
    using assms bs.test_in[OF bs_elems_capacity[OF assms(1)]] by (auto simp: upt_conv_Cons Let_def)
next
  case (Suc x)
  have lt: "i < r" "i < n"
    using Suc.hyps(2) assms(3) by simp_all
  have t: "GROUP_CACHE_BITSET_TEST bs i = Inr (i \<in> bs_elems bs)"
    using lt(1) bs_elems_capacity[OF assms(1)] by (intro bs.test_in) simp
  have *: "{j \<in> bs_elems bs. i \<le> j \<and> j < r} = (if i \<in> bs_elems bs
          then insert i {j \<in> bs_elems bs. Suc i \<le> j \<and> j < r} else {j \<in> bs_elems bs. Suc i \<le> j \<and> j < r})"
    using lt(1) by (auto simp: le_less Suc_le_eq)
  have fin: "finite {j \<in> bs_elems bs. Suc i \<le> j \<and> j < r}"
    by simp
  have IH: "rank_index_loop bs (int r) [Suc i..<n] (if c' = 0 then None else Some (c' - 1))
      = Inr (Some (c' + card {j \<in> bs_elems bs. Suc i \<le> j \<and> j < r}))" for c'
    using Suc.hyps(2) lt(1) by (intro Suc.hyps(1)) auto
  show ?case
    using lt t IH[of c] IH[of "Suc c"] fin unfolding *
    by (cases c) (auto simp: upt_conv_Cons Let_def simp del: upt_Suc)
qed

text \<open>C22: The index of a rank on its host is computed correctly: for a host of the group, given by its
  position in the table of hosts, and a rank of the group, the query returns the number of ranks of the
  group on that host below the rank, and an error when the rank is not on that host.\<close>

theorem rank_idx_by_host:
  assumes "new_group uid g e T" "h \<in> topo_hosts T" "r < gc_group_size g"
  shows "\<exists>e1 e2. record_topology uid T e = Inr e1
      \<and> get_rank_idx_by_group_host_idx uid
          (card {k \<in> topo_hosts T. the (LOOKUP_HOST_CONFIG_IDX e k) < the (LOOKUP_HOST_CONFIG_IDX e h)}) (int r) e1
        = Inr (if r \<in> ranks_of_host T h then (DO_SUCCESS, Some (card {j \<in> ranks_of_host T h. j < r}))
               else (DO_ERROR, Some UINT64_MAX), e2)"
proof -
  from with_tables_recorded[OF assms(1)] obtain e1 g' where w: "record_topology uid T e = Inr e1"
      "with_tables uid e1 = Inr (g', gp_put uid g' e1)" "tables_ok e T g'" "tables_frame g g'"
      "e_config e1 = e_config e"
    by blast
  have wf: "topo_wf e (gc_group_size g) T"
    using assms(1) by (simp add: new_group_def)
  from host_data_at_table[OF w(3) wf assms(2), of "gp_put uid g' e1"] w(5) obtain d where
    d: "host_data_at (gp_put uid g' e1) g'
          (card {k \<in> topo_hosts T. the (LOOKUP_HOST_CONFIG_IDX e k) < the (LOOKUP_HOST_CONFIG_IDX e h)}) = Inr d"
      "bs_elems (hd_ranks_bitset d) = ranks_of_host T h"
      "bs_capacity (hd_ranks_bitset d) = CHAR_BIT * GROUP_CACHE_BITSET_NSLOTS (gc_group_size g')"
    by auto
  have size: "gc_group_size g' = gc_group_size g"
    using w(4) by (simp add: tables_frame_def)
  have t: "GROUP_CACHE_BITSET_TEST (hd_ranks_bitset d) r = Inr (r \<in> ranks_of_host T h)"
    using assms(3) d(2,3) nslots_covers[of "gc_group_size g"] size by (simp add: bs.test_in)
  show ?thesis
    using w(1,2) d t rank_index_loop_spec[of r "hd_ranks_bitset d" 0 "gc_group_size g" 0] assms(3)
    by (simp add: get_rank_idx_by_group_host_idx_def size)
qed

theorem rank_idx_by_host_witness:
  "\<exists>e1 e2. record_topology 7 demo_topo (demo_engine 4) = Inr e1
      \<and> get_rank_idx_by_group_host_idx 7 0 2 e1 = Inr ((DO_SUCCESS, Some 2), e2)"
proof -
  have h: "topo_hosts demo_topo = {100, 200}" "ranks_of_host demo_topo 100 = {0, 1, 2}"
    by (auto simp: topo_hosts_def ranks_of_host_def demo_topo_def)
  have c: "card {k \<in> topo_hosts demo_topo. the (LOOKUP_HOST_CONFIG_IDX (demo_engine 4) k)
          < the (LOOKUP_HOST_CONFIG_IDX (demo_engine 4) 100)} = 0"
    by (auto simp: h LOOKUP_HOST_CONFIG_IDX_def demo_engine_def)
  have "{j \<in> ranks_of_host demo_topo 100. j < 2} = {0, 1}"
    by (auto simp: h)
  then have c2: "card {j \<in> ranks_of_host demo_topo 100. j < 2} = 2" "2 \<in> ranks_of_host demo_topo 100"
    by (simp_all add: h)
  show ?thesis
    using rank_idx_by_host[OF demo_new_group, of 100 2, unfolded c c2(1)] c2(2)
    by (simp add: h(1) demo_group_fresh)
qed

section \<open>Shared SPs\<close>

lemma any_sp_has_rank_spec:
  assumes "tables_ok e T g" "set sps \<subseteq> topo_sps T" "r < gc_group_size g"
  shows "any_sp_has_rank g r sps = Inr (\<exists>s \<in> set sps. r \<in> ranks_of_sp T s)"
  using assms(2)
proof (induction sps)
  case (Cons s sps)
  then obtain d where d: "GET_GROUP_SP_HASH_ENTRY g s = Inr (Some d)"
      "bs_elems (sd_ranks_bitset d) = ranks_of_sp T s"
      "bs_capacity (sd_ranks_bitset d) = CHAR_BIT * GROUP_CACHE_BITSET_NSLOTS (gc_group_size g)"
    using assms(1) by (auto simp: tables_ok_def sp_table_ok_def)
  then have "GROUP_CACHE_BITSET_TEST (sd_ranks_bitset d) r = Inr (r \<in> ranks_of_sp T s)"
    using assms(3) nslots_covers[of "gc_group_size g"] by (simp add: bs.test_in)
  with d Cons show ?case
    by simp
qed simp

text \<open>Whether two ranks of a group share an SP is answered correctly: for two ranks of a group whose
  topology was recorded with the shadow SPs of its ranks, the query returns true exactly when some SP
  serves both ranks.\<close>

lemma on_same_sp_correct:
  assumes "new_group uid g e T" "r1 < gc_group_size g" "r2 < gc_group_size g"
    and "gc_ranks g = Some rs"
    and "pe_num_shadow_service_procs (rs ! r1) \<le> length (pe_shadow_service_procs (rs ! r1))"
    and "set (take (pe_num_shadow_service_procs (rs ! r1)) (pe_shadow_service_procs (rs ! r1)))
         = {s. r1 \<in> ranks_of_sp T s}"
  shows "\<exists>e1 e2. record_topology uid T e = Inr e1
      \<and> on_same_sp uid (int r1) (int r2) e1 = Inr (\<exists>s. r1 \<in> ranks_of_sp T s \<and> r2 \<in> ranks_of_sp T s, e2)"
proof -
  from with_tables_recorded[OF assms(1)] obtain e1 g' where w: "record_topology uid T e = Inr e1"
      "with_tables uid e1 = Inr (g', gp_put uid g' e1)" "tables_ok e T g'" "tables_frame g g'"
      "group_ready uid g' (gp_put uid g' e1)"
    by blast
  have rs: "gc_ranks g' = Some rs" "length rs = gc_group_size g" "gc_group_size g' = gc_group_size g"
    using w(4,5) assms(4) by (auto simp: tables_frame_def group_ready_def)
  have sub: "set (take (pe_num_shadow_service_procs (rs ! r1)) (pe_shadow_service_procs (rs ! r1))) \<subseteq> topo_sps T"
    unfolding assms(6) by (force simp: ranks_of_sp_def topo_sps_def)
  note a = any_sp_has_rank_spec[OF w(3) sub, of r2]
  show ?thesis
    using w(1,2) a rs assms(2,3,5)
    by (auto simp: on_same_sp_def MIMOSA_GET_RANK_FROM_GROUP_CACHE_def rank_entry_def assms(6))
qed

text \<open>A group of two ranks that record their shadow SPs.\<close>

definition shadow_entry :: "nat \<Rightarrow> nat list \<Rightarrow> nat \<Rightarrow> peer_cache_entry_t" where
  "shadow_entry i sps h =
     raw_peer_cache_entry\<lparr>pe_set := True, pe_num_shadow_service_procs := length sps,
       pe_shadow_service_procs := sps @ replicate (MAX_SHADOW_SERVICE_PROCS - length sps) UINT64_MAX,
       pe_peer := (pe_peer raw_peer_cache_entry)\<lparr>pd_host_info := h, pd_proc_info :=
         (pd_proc_info (pe_peer raw_peer_cache_entry))\<lparr>ri_group_rank := int i\<rparr>\<rparr>\<rparr>"

definition shadow_ranks :: "peer_cache_entry_t list" where
  "shadow_ranks = [shadow_entry 0 [0] 100, shadow_entry 1 [1] 100, shadow_entry 2 [0] 100, shadow_entry 3 [2] 200]"

definition shadow_group :: group_cache_t where
  "shadow_group = (demo_group 4)\<lparr>gc_ranks := Some shadow_ranks\<rparr>"

lemma shadow_new_group: "new_group 7 shadow_group (gp_put 7 shadow_group (demo_engine 4)) demo_topo"
proof -
  have r: "group_ready 7 shadow_group (gp_put 7 shadow_group (demo_engine 4))"
    using demo_ready[of 4]
    by (simp add: group_ready_def) (simp add: shadow_group_def shadow_ranks_def demo_group_fresh)
  have wf: "topo_wf (gp_put 7 shadow_group (demo_engine 4)) (gc_group_size shadow_group) demo_topo"
    using demo_topo_wf config_congs(1)[of "gp_put 7 shadow_group (demo_engine 4)" "demo_engine 4" 4 demo_topo]
    by (simp add: shadow_group_def demo_group_fresh)
  show ?thesis
    using r wf demo_tables_pre(2-4) demo_unpopulated demo_topo_facts(3)
    by (simp add: new_group_def) (simp add: shadow_group_def fresh_group_def)
qed

lemma on_same_sp_correct_witness:
  "\<exists>e1 e2. record_topology 7 demo_topo (gp_put 7 shadow_group (demo_engine 4)) = Inr e1
      \<and> on_same_sp 7 0 2 e1 = Inr (True, e2)"
proof -
  have s: "{s. 0 \<in> ranks_of_sp demo_topo s} = {0}" "0 \<in> ranks_of_sp demo_topo 0" "2 \<in> ranks_of_sp demo_topo 0"
    by (auto simp: ranks_of_sp_def demo_topo_def)
  have r: "gc_ranks shadow_group = Some shadow_ranks" "gc_group_size shadow_group = 4"
      "shadow_ranks ! 0 = shadow_entry 0 [0] 100"
    by (simp_all add: shadow_group_def shadow_ranks_def demo_group_fresh)
  have "\<exists>s. 0 \<in> ranks_of_sp demo_topo s \<and> 2 \<in> ranks_of_sp demo_topo s"
    using s(2,3) by blast
  then show ?thesis
    using on_same_sp_correct[OF shadow_new_group _ _ r(1), of 0 2] r s(1) by (simp add: shadow_entry_def)
qed

end
