(* ===== verification/Group_Send.thy ===== *)
theory Group_Send
imports Group_Cache
begin

text \<open>
  Sending group caches and revokes (\<open>src/src/dpu_offload_utils.c\<close>,
  \<open>src/src/dpu_offload_group_cache.c\<close>): to the ranks on the local host and to the other SPs.

  What UCX decides is a parameter, the record \<open>transport\<close>: whether a notification can be posted
  (\<open>tr_emit\<close>), and what checking a meta-event for completion leads to (\<open>tr_settle\<close>): its callback runs
  right away when all its sub-events are complete, and it is queued otherwise.
\<close>

record transport =
  tr_emit :: "call \<Rightarrow> offloading_engine_t \<Rightarrow> bool"
  tr_settle :: "completion \<Rightarrow> offloading_engine_t \<Rightarrow> offloading_engine_t res"

type_synonym outcome = "(dpu_offload_status_t \<times> offloading_engine_t) res"

text \<open>\<open>CHECK_ERR_RETURN\<close> on the status of a call.\<close>

definition check_rc :: "outcome \<Rightarrow> (offloading_engine_t \<Rightarrow> outcome) \<Rightarrow> outcome" where
  "check_rc m f = bindE m (\<lambda>(rc, e). if rc \<noteq> DO_SUCCESS then Inr (DO_ERROR, e) else f e)"

primrec for_rc :: "('a \<Rightarrow> offloading_engine_t \<Rightarrow> outcome) \<Rightarrow> 'a list \<Rightarrow> offloading_engine_t \<Rightarrow> outcome" where
  "for_rc f [] e = Inr (DO_SUCCESS, e)"
| "for_rc f (x # xs) e = check_rc (f x e) (for_rc f xs)"

definition emit :: "transport \<Rightarrow> call \<Rightarrow> offloading_engine_t \<Rightarrow> outcome" where
  "emit tr c e = (if tr_emit tr c e then Inr (DO_SUCCESS, log_call c e) else Inr (DO_ERROR, e))"

definition settle :: "transport \<Rightarrow> completion \<Rightarrow> offloading_engine_t \<Rightarrow> outcome" where
  "settle tr c e = bindE (tr_settle tr c e) (\<lambda>e1. Inr (DO_SUCCESS, e1))"

text \<open>The transport on which every notification is accepted and completes later.\<close>

definition queue_event :: "completion \<Rightarrow> offloading_engine_t \<Rightarrow> offloading_engine_t" where
  "queue_event c e = e\<lparr>e_ongoing_events := e_ongoing_events e @ [c]\<rparr>"

definition async_transport :: transport where
  "async_transport = \<lparr>tr_emit = (\<lambda>_ _. True), tr_settle = (\<lambda>c e. Inr (queue_event c e))\<rparr>"

lemma check_rc_simps [simp]:
  "check_rc (Inl f) k = Inl f"
  "check_rc (Inr (DO_SUCCESS, e)) k = k e"
  "check_rc (Inr (DO_ERROR, e)) k = Inr (DO_ERROR, e)"
  by (simp_all add: check_rc_def)

section \<open>The server of the host\<close>

text \<open>The search goes down from the last server; the index is unsigned, so running out of servers is an
  access far out of bounds.\<close>

fun host_server_from :: "bool option list \<Rightarrow> nat \<Rightarrow> nat res" where
  "host_server_from sv 0 = Inl Out_of_bounds"
| "host_server_from sv (Suc i) =
     bindE (nthE sv i) (\<lambda>s. if s = Some True then Inr i else host_server_from sv i)"

definition get_server_servicing_host :: "offloading_engine_t \<Rightarrow> nat res" where
  "get_server_servicing_host e = host_server_from (e_servers e) (length (e_servers e))"

section \<open>To the local ranks\<close>

definition send_group_cache :: "transport \<Rightarrow> nat \<Rightarrow> int \<Rightarrow> offloading_engine_t \<Rightarrow> outcome" where
  "send_group_cache tr dest_id gp_uid e =
     bindE (GET_GROUP_CACHE gp_uid e) (\<lambda>e1.
     bindE (gp_get gp_uid e1) (\<lambda>g.
     bindE (assertE (gc_engine g)) (\<lambda>_.
     if \<not> gc_initialized g then Inr (DO_SUCCESS, e1) else
     bindE (assertE (0 < gc_group_size g)) (\<lambda>_.
     bindE (foldE (\<lambda>i e'.
              bindE (GET_GROUP_RANK_CACHE_ENTRY gp_uid (int i) (int (gc_group_size g)) e') (\<lambda>(p, e2).
              bindE (rank_entry gp_uid p e2) (\<lambda>pe.
              bindE (assertE (pe_set pe)) (\<lambda>_.
              bindE (assertE (0 < pe_num_shadow_service_procs pe)) (\<lambda>_.
              bindE (assertE (ri_group_seq_num (pd_proc_info (pe_peer pe)) \<noteq> 0)) (\<lambda>_.
              Inr e2)))))) [0..<gc_group_size g] e1) (\<lambda>e2.
     bindE (derefE (gc_ranks g)) (\<lambda>rs.
     emit tr (Emit_entries (To_client dest_id) (take (gc_group_size g) rs)) e2))))))"

definition send_gp_cache_to_host :: "transport \<Rightarrow> int \<Rightarrow> offloading_engine_t \<Rightarrow> outcome" where
  "send_gp_cache_to_host tr gp_uid e =
     bindE (GET_GROUP_CACHE gp_uid e) (\<lambda>e1.
     bindE (gp_get gp_uid e1) (\<lambda>g.
     bindE (assertE (gc_engine g)) (\<lambda>_.
     bindE (assertE (gc_n_sps g \<noteq> 0)) (\<lambda>_.
     if p_sent_to_host (gc_persistent g) < p_num (gc_persistent g) then
       bindE (group_cache_populated gp_uid e1) (\<lambda>(populated, e2).
       bindE (assertE populated) (\<lambda>_.
       bindE (assertE (gc_group_uid g = gp_uid)) (\<lambda>_.
       check_rc (for_rc (\<lambda>idx e'.
           bindE (nthE (e_clients e') idx) (\<lambda>c.
           check_rc (if gc_group_uid g = c_world_group (e_procs_cache e')
                     then emit tr (Emit_sp_data (pi_id c)) e' else Inr (DO_SUCCESS, e')) (\<lambda>e''.
           send_group_cache tr (pi_id c) gp_uid e'')))
           [0..<e_num_connected_clients e2] e2) (\<lambda>e3.
       bindE (populate_group_cache_lookup_table gp_uid e3) (\<lambda>e4.
       settle tr (Cache_sent gp_uid) e4)))))
     else Inr (DO_SUCCESS, e1)))))"

text \<open>\<open>send_cache\<close>: all groups to one peer.\<close>

definition send_cache :: "transport \<Rightarrow> nat \<Rightarrow> offloading_engine_t \<Rightarrow> outcome" where
  "send_cache tr dest_id e =
     for_rc (\<lambda>k. send_group_cache tr dest_id k) (map fst (c_data (e_procs_cache e))) e"

section \<open>To the other SPs\<close>

definition all_service_procs_connected :: "offloading_engine_t \<Rightarrow> bool" where
  "all_service_procs_connected e =
     (e_on_dpu e \<and> e_num_service_procs e = e_num_connected_service_procs e + 1)"

text \<open>\<open>find_range_local_ranks\<close> looks for the next range of entries of local ranks: the loop ends at the
  end of the array of ranks at the latest, beyond which an access is a fault.  Its results are the start
  of the range, the number of entries in it and the index to go on from.\<close>

function (sequential) find_range_loop ::
    "peer_cache_entry_t list \<Rightarrow> nat \<Rightarrow> nat \<Rightarrow> nat \<Rightarrow> nat \<Rightarrow> nat option \<Rightarrow> nat \<Rightarrow> (nat option \<times> nat \<times> nat) res" where
  "find_range_loop rs my_sp total_count cur_count idx start count =
     (if start = None \<or> cur_count + count \<noteq> total_count then
        bindE (nthE rs idx) (\<lambda>pe.
        if \<not> pe_set pe then find_range_loop rs my_sp total_count cur_count (Suc idx) start count else
        bindE (nthE (pe_shadow_service_procs pe) 0) (\<lambda>sp.
        let start1 = (if start = None \<and> sp = my_sp then Some idx else start) in
        if (case start1 of None \<Rightarrow> False | Some s \<Rightarrow> s < idx)
           \<and> INVALID_RANK \<noteq> ri_group_rank (pd_proc_info (pe_peer pe))
        then Inr (start1, count, idx)
        else find_range_loop rs my_sp total_count cur_count (Suc idx) start1
               (if start1 \<noteq> None \<and> sp = my_sp then Suc count else count)))
      else Inr (start, count, idx))"
  by pat_completeness auto
termination
  by (relation "measure (\<lambda>(rs, my_sp, total_count, cur_count, idx, start, count). length rs - idx)")
     (auto simp: nthE_def split: if_splits)

declare find_range_loop.simps [simp del]

definition find_range_local_ranks ::
    "int \<Rightarrow> int \<Rightarrow> nat \<Rightarrow> nat \<Rightarrow> nat \<Rightarrow> offloading_engine_t
     \<Rightarrow> ((nat option \<times> nat \<times> nat) \<times> offloading_engine_t) res" where
  "find_range_local_ranks gp_uid gp_size start_idx total_count cur_count e =
     bindE (GET_GROUP_RANK_CACHE_ENTRY gp_uid (int start_idx) gp_size e) (\<lambda>(p, e1).
     bindE (gp_get gp_uid e1) (\<lambda>g.
     bindE (derefE (gc_ranks g)) (\<lambda>rs.
     bindE (find_range_loop rs (cfg_local_sp_global_id (e_config e1)) total_count cur_count start_idx None 0) (\<lambda>r.
     Inr (r, e1)))))"

text \<open>Each iteration sends at least the entry it starts with, so the number of entries to send bounds the
  number of iterations.\<close>

primrec send_ranges :: "transport \<Rightarrow> nat \<Rightarrow> nat \<Rightarrow> int \<Rightarrow> nat \<Rightarrow> nat \<Rightarrow> nat \<Rightarrow> offloading_engine_t \<Rightarrow> outcome" where
  "send_ranges tr sp_gid dest_id gp_uid 0 count idx e =
     bindE (gp_get gp_uid e) (\<lambda>g.
     if count < gc_n_local_ranks_populated g then Inl No_return else Inr (DO_SUCCESS, e))"
| "send_ranges tr sp_gid dest_id gp_uid (Suc fuel) count idx e =
     bindE (gp_get gp_uid e) (\<lambda>g.
     if count < gc_n_local_ranks_populated g then
       bindE (find_range_local_ranks gp_uid (int (gc_group_size g)) idx
                (gc_n_local_ranks_populated g) count e) (\<lambda>((start, n, idx1), e1).
       bindE (derefE start) (\<lambda>idx_start.
       bindE (derefE (gc_ranks g)) (\<lambda>rs.
       bindE (guardE Out_of_bounds (idx_start + n \<le> length rs)) (\<lambda>_.
       check_rc (emit tr (Emit_entries (To_sp sp_gid dest_id) (take n (drop idx_start rs))) e1) (\<lambda>e2.
       send_ranges tr sp_gid dest_id gp_uid fuel (count + n) idx1 e2)))))
     else Inr (DO_SUCCESS, e))"

definition send_local_rank_group_cache ::
    "transport \<Rightarrow> nat \<Rightarrow> nat \<Rightarrow> int \<Rightarrow> offloading_engine_t \<Rightarrow> outcome" where
  "send_local_rank_group_cache tr sp_gid dest_id gp_uid e =
     bindE (GET_GROUP_CACHE gp_uid e) (\<lambda>e1.
     bindE (gp_get gp_uid e1) (\<lambda>g.
     if \<not> gc_initialized g then Inr (DO_SUCCESS, e1) else
     bindE (assertE (0 < gc_group_size g)) (\<lambda>_.
     send_ranges tr sp_gid dest_id gp_uid (gc_n_local_ranks_populated g) 0 0 e1)))"

text \<open>The loop of both broadcasts over all SPs but the local one.\<close>

definition for_each_remote_sp ::
    "transport \<Rightarrow> (nat \<Rightarrow> nat \<Rightarrow> offloading_engine_t \<Rightarrow> outcome) \<Rightarrow> offloading_engine_t \<Rightarrow> outcome" where
  "for_each_remote_sp tr send e =
     for_rc (\<lambda>sp_gid e'.
       bindE (nthE (e_service_procs e') sp_gid) (\<lambda>sp.
       if sp_gid = cfg_local_sp_global_id (e_config e') then Inr (DO_SUCCESS, e') else
       bindE (assertE (sp_econtext sp \<noteq> None)) (\<lambda>_.
       let dest_id = (if sp_econtext sp = Some CONTEXT_SERVER then sp_client_id sp else sp_gid) in
       check_rc (send sp_gid dest_id e') (settle tr No_callback))))
       [0..<e_num_service_procs e] e"

definition broadcast_group_cache :: "transport \<Rightarrow> int \<Rightarrow> offloading_engine_t \<Rightarrow> outcome" where
  "broadcast_group_cache tr gp e =
     bindE (gp_get gp e) (\<lambda>g0.
     bindE (assertE (gc_engine g0)) (\<lambda>_.
     bindE (assertE (gc_group_uid g0 \<noteq> INT_MAX)) (\<lambda>_.
     if \<not> all_service_procs_connected e then Inr (DO_SUCCESS, e) else
     if \<not> e_on_dpu e then Inr (DO_ERROR, e) else
     check_rc (if 1 < e_num_service_procs e
               then for_each_remote_sp tr (\<lambda>sp_gid dest_id.
                      send_local_rank_group_cache tr sp_gid dest_id (gc_group_uid g0)) e
               else Inr (DO_SUCCESS, e)) (\<lambda>e1.
     bindE (gp_get gp e1) (\<lambda>g.
     if gc_group_size g = gc_num_local_entries g then
       bindE (get_server_servicing_host e1) (\<lambda>_. send_gp_cache_to_host tr (gc_group_uid g) e1)
     else Inr (DO_SUCCESS, e1))))))"

text \<open>Revokes are sent in messages of at most 1024 ranks.\<close>

definition revoke_chunk :: "group_cache_t \<Rightarrow> nat \<Rightarrow> nat \<Rightarrow> group_revoke_msg_from_sp_t res" where
  "revoke_chunk g ranks_sent current_sends =
     bindE (foldE (\<lambda>i ranks.
              bindE (GROUP_CACHE_BITSET_TEST (gc_revokes_ranks g) (ranks_sent + i)) (\<lambda>t.
              Inr (ranks @ [if t then 1 else 0]))) [0..<current_sends] []) (\<lambda>ranks.
     Inr \<lparr>rs_num_ranks = current_sends, rs_rank_start = ranks_sent, rs_ranks = ranks,
          rs_gp_uid = gc_group_uid g, rs_group_size = gc_group_size g,
          rs_gp_seq_num = p_num (gc_persistent g)\<rparr>)"

function (sequential) send_revoke_chunks ::
    "transport \<Rightarrow> nat \<Rightarrow> nat \<Rightarrow> group_cache_t \<Rightarrow> nat \<Rightarrow> nat \<Rightarrow> offloading_engine_t \<Rightarrow> outcome" where
  "send_revoke_chunks tr sp_gid dest_id g ranks_sent remaining e =
     (if ranks_sent < gc_group_size g then
        let current_sends = (if remaining < 1024 then remaining else 1024) in
        if current_sends = 0 then Inl No_return else
        bindE (revoke_chunk g ranks_sent current_sends) (\<lambda>msg.
        check_rc (emit tr (Emit_revoke_from_sp (To_sp sp_gid dest_id) msg) e)
          (send_revoke_chunks tr sp_gid dest_id g (ranks_sent + current_sends) (remaining - current_sends)))
      else Inr (DO_SUCCESS, e))"
  by pat_completeness auto
termination
  by (relation "measure (\<lambda>(tr, sp_gid, dest_id, g, ranks_sent, remaining, e). gc_group_size g - ranks_sent)")
     (auto split: if_splits)

declare send_revoke_chunks.simps [simp del]

definition send_local_revoke_rank_group_cache ::
    "transport \<Rightarrow> nat \<Rightarrow> nat \<Rightarrow> int \<Rightarrow> offloading_engine_t \<Rightarrow> outcome" where
  "send_local_revoke_rank_group_cache tr sp_gid dest_id gp e =
     bindE (gp_get gp e) (\<lambda>g.
     if \<not> gc_initialized g then Inr (DO_SUCCESS, e) else
     bindE (assertE (0 < gc_group_size g)) (\<lambda>_.
     send_revoke_chunks tr sp_gid dest_id g 0 (gc_group_size g) e))"

definition broadcast_group_cache_revoke :: "transport \<Rightarrow> int \<Rightarrow> offloading_engine_t \<Rightarrow> outcome" where
  "broadcast_group_cache_revoke tr gp e =
     bindE (gp_get gp e) (\<lambda>g.
     bindE (assertE (gc_group_uid g \<noteq> INT_MAX)) (\<lambda>_.
     bindE (assertE (all_service_procs_connected e)) (\<lambda>_.
     bindE (assertE (e_on_dpu e)) (\<lambda>_.
     if e_num_service_procs e = 1 then Inr (DO_SUCCESS, e) else
     for_each_remote_sp tr (\<lambda>sp_gid dest_id. send_local_revoke_rank_group_cache tr sp_gid dest_id gp) e))))"

end
