(* ===== verification/Group_Protocol.thy ===== *)
theory Group_Protocol
imports Group_Send
begin

text \<open>
  The handlers of the group protocol (\<open>src/src/dpu_offload_event_channels.c\<close>,
  \<open>src/src/dpu_offload_group_cache.c\<close>, \<open>src/src/dpu_offload_utils.c\<close>): what an engine does when a rank
  of its host joins or revokes a group, when another SP sends cache entries or a revoke, and when the
  notifications it sent complete.  Every handler is a function of the transport.
\<close>

definition pers_upd :: "int \<Rightarrow> (group_persistent_t \<Rightarrow> group_persistent_t) \<Rightarrow> offloading_engine_t \<Rightarrow> offloading_engine_t res" where
  "pers_upd gp f = gp_upd gp (gc_persistent_update f)"

section \<open>Cache entries from other SPs\<close>

definition is_group_ready :: "group_cache_t \<Rightarrow> nat \<Rightarrow> bool res" where
  "is_group_ready g recvd_seq_num =
     (let num = p_num (gc_persistent g) in
      if 0 < num then
        Inr (if num = recvd_seq_num + 1 \<and> gc_num_local_entries g = 0 then False
             else if num \<noteq> recvd_seq_num then False else True)
      else if num \<noteq> recvd_seq_num then
        bindE (assertE (gc_n_local_ranks_populated g = 0)) (\<lambda>_. Inr True)
      else Inr True)"

text \<open>The loop over the SPs of an entry: each is appended to the SPs of the cached entry and recorded in
  the topology.\<close>

definition append_shadow ::
    "int \<Rightarrow> nat \<Rightarrow> peer_cache_entry_t \<Rightarrow> nat \<Rightarrow> offloading_engine_t \<Rightarrow> offloading_engine_t res" where
  "append_shadow uid p entry n e =
     bindE (nthE (pe_shadow_service_procs entry) n) (\<lambda>sp.
     bindE (gp_get uid e) (\<lambda>g.
     bindE (rank_entry uid p e) (\<lambda>pe.
     bindE (updE (pe_shadow_service_procs pe) (pe_num_shadow_service_procs pe + n) sp) (\<lambda>shadow.
     bindE (set_rank_entry p (pe\<lparr>pe_shadow_service_procs := shadow\<rparr>) g) (\<lambda>g1.
     update_topology_data uid (ri_group_rank (pd_proc_info (pe_peer entry))) sp
       (pd_host_info (pe_peer entry)) (gp_put uid g1 e))))))"

definition complete_entry_events :: "int \<Rightarrow> nat \<Rightarrow> offloading_engine_t \<Rightarrow> offloading_engine_t res" where
  "complete_entry_events uid p e =
     bindE (gp_get uid e) (\<lambda>g.
     bindE (rank_entry uid p e) (\<lambda>pe.
     if pe_events_initialized pe then
       bindE (set_rank_entry p (pe\<lparr>pe_events := []\<rparr>) g) (\<lambda>g1.
       Inr (foldl (\<lambda>e' ev. log_call (Event_return ev) (log_call (Complete_event ev) e'))
              (gp_put uid g1 e) (pe_events pe)))
     else Inr e))"

definition add_peer_entry :: "int \<Rightarrow> int \<Rightarrow> peer_cache_entry_t \<Rightarrow> offloading_engine_t \<Rightarrow> offloading_engine_t res" where
  "add_peer_entry uid gp_size entry e =
     (let info = pd_proc_info (pe_peer entry) in
      bindE (assertE (ri_group_seq_num info \<noteq> 0)) (\<lambda>_.
      bindE (assertE (0 < pe_num_shadow_service_procs entry)) (\<lambda>_.
      bindE (gp_get uid e) (\<lambda>g.
      let g1 = (if gc_num_local_entries g = 0
                then gc_persistent_update (\<lambda>p. p\<lparr>p_num := Suc (p_num p)\<rparr>) g else g) in
      bindE (assertE (ri_group_seq_num info = p_num (gc_persistent g1))) (\<lambda>_.
      let g2 = (if gc_group_uid g1 = INT_MAX then g1\<lparr>gc_group_uid := uid\<rparr> else g1);
          g3 = g2\<lparr>gc_num_local_entries := Suc (gc_num_local_entries g2)\<rparr> in
      bindE (GET_GROUP_RANK_CACHE_ENTRY uid (ri_group_rank info) gp_size (gp_put uid g3 e)) (\<lambda>(p, e1).
      bindE (gp_get uid e1) (\<lambda>g4.
      bindE (rank_entry uid p e1) (\<lambda>pe.
      bindE (COPY_PEER_DATA (pe_peer entry) (pe_peer pe)) (\<lambda>peer.
      bindE (set_rank_entry p (pe\<lparr>pe_set := True, pe_peer := peer\<rparr>) g4) (\<lambda>g5.
      bindE (foldE (append_shadow uid p entry) [0..<pe_num_shadow_service_procs entry] (gp_put uid g5 e1)) (\<lambda>e2.
      bindE (gp_get uid e2) (\<lambda>g6.
      bindE (rank_entry uid p e2) (\<lambda>pe2.
      bindE (set_rank_entry p (pe2\<lparr>pe_client_id := pe_client_id entry,
               pe_num_shadow_service_procs :=
                 pe_num_shadow_service_procs pe2 + pe_num_shadow_service_procs entry\<rparr>) g6) (\<lambda>g7.
      complete_entry_events uid p (gp_put uid g7 e2)))))))))))))))"

text \<open>The loop over the received entries; its result is the status, the number of new entries and the
  engine.\<close>

primrec recv_entries ::
    "int \<Rightarrow> int \<Rightarrow> peer_cache_entry_t list \<Rightarrow> nat \<Rightarrow> offloading_engine_t
     \<Rightarrow> (dpu_offload_status_t \<times> nat \<times> offloading_engine_t) res" where
  "recv_entries uid gp_size [] n e = Inr (DO_SUCCESS, n, e)"
| "recv_entries uid gp_size (entry # entries) n e =
     (let info = pd_proc_info (pe_peer entry) in
      if ri_group_uid info \<noteq> uid then Inr (DO_ERROR, n, e) else
      bindE (assertE (ri_group_size info = gp_size)) (\<lambda>_.
      bindE (is_in_cache uid (ri_group_rank info) gp_size e) (\<lambda>(cached, e1).
      if cached then recv_entries uid gp_size entries n e1
      else bindE (add_peer_entry uid gp_size entry e1) (\<lambda>e2.
           recv_entries uid gp_size entries (Suc n) e2))))"

definition handle_peer_cache_entries_recv ::
    "transport \<Rightarrow> nat \<Rightarrow> peer_cache_entry_t list \<Rightarrow> offloading_engine_t \<Rightarrow> outcome" where
  "handle_peer_cache_entries_recv tr sp_gid entries e =
     bindE (nthE entries 0) (\<lambda>first.
     let gp_size = ri_group_size (pd_proc_info (pe_peer first));
         uid = ri_group_uid (pd_proc_info (pe_peer first)) in
     bindE (GET_GROUP_CACHE_INTERNAL uid gp_size e) (\<lambda>e1.
     bindE (recv_entries uid gp_size entries 0 e1) (\<lambda>(rc, n_added, e2).
     if rc \<noteq> DO_SUCCESS then Inr (DO_ERROR, e2) else
     bindE (gp_get uid e2) (\<lambda>g.
     if e_on_dpu e2 \<and> 0 < n_added \<and> 0 < gc_group_size g
        \<and> gc_num_local_entries g = gc_group_size g
        \<and> \<not> (cfg_num_service_procs_per_dpu (e_config e2) = 1 \<and> gc_group_size g = gc_n_local_ranks g)
     then bindE (get_server_servicing_host e2) (\<lambda>_.
          check_rc (send_gp_cache_to_host tr uid e2) (\<lambda>e3. Inr (DO_SUCCESS, e3)))
     else Inr (DO_SUCCESS, e2)))))"

definition HANDLE_PENDING_CACHE_ENTRIES :: "transport \<Rightarrow> int \<Rightarrow> offloading_engine_t \<Rightarrow> outcome" where
  "HANDLE_PENDING_CACHE_ENTRIES tr gp e =
     bindE (gp_get gp e) (\<lambda>g.
     for_rc (\<lambda>pending e'.
       bindE (gp_get gp e') (\<lambda>g'.
       bindE (guardE Bad_list_op (pending \<in> set (p_pending_recv_cache_entries (gc_persistent g')))) (\<lambda>_.
       bindE (pers_upd gp (\<lambda>p. p\<lparr>p_pending_recv_cache_entries :=
                remove1 pending (p_pending_recv_cache_entries p)\<rparr>) e') (\<lambda>e1.
       handle_peer_cache_entries_recv tr (pr_sp_gid pending) (pr_payload pending) e1))))
       (p_pending_recv_cache_entries (gc_persistent g)) e)"

definition peer_cache_entries_recv_cb ::
    "transport \<Rightarrow> nat \<Rightarrow> peer_cache_entry_t list \<Rightarrow> offloading_engine_t \<Rightarrow> outcome" where
  "peer_cache_entries_recv_cb tr sp_gid entries e =
     bindE (nthE entries 0) (\<lambda>first.
     let info = pd_proc_info (pe_peer first); uid = ri_group_uid info in
     bindE (GET_GROUP_CACHE_INTERNAL uid (ri_group_size info) e) (\<lambda>e1.
     bindE (gp_get uid e1) (\<lambda>g.
     bindE (assertE (p_num (gc_persistent g) \<le> ri_group_seq_num info)) (\<lambda>_.
     bindE (is_group_ready g (ri_group_seq_num info)) (\<lambda>ready.
     if 0 < gc_revokes_global g \<or> \<not> ready then
       bindE (pers_upd uid (\<lambda>p. p\<lparr>p_pending_recv_cache_entries := p_pending_recv_cache_entries p
                @ [\<lparr>pr_gp_uid = uid, pr_sp_gid = sp_gid, pr_payload = entries\<rparr>]\<rparr>) e1) (\<lambda>e2.
       Inr (DO_SUCCESS, e2))
     else check_rc (handle_peer_cache_entries_recv tr sp_gid entries e1) (\<lambda>e2. Inr (DO_SUCCESS, e2)))))))"

definition revoke_group_cache :: "transport \<Rightarrow> int \<Rightarrow> offloading_engine_t \<Rightarrow> outcome" where
  "revoke_group_cache tr gp_uid e =
     bindE (revoke_group_cache_reset gp_uid e) (\<lambda>e1. HANDLE_PENDING_CACHE_ENTRIES tr gp_uid e1)"

section \<open>Ranks joining a group\<close>

definition get_num_connecting_ranks :: "nat \<Rightarrow> nat \<Rightarrow> nat \<Rightarrow> nat res" where
  "get_num_connecting_ranks num_service_procs_per_dpu n_local_ranks sp_lid =
     bindE (guardE Aborted (num_service_procs_per_dpu \<noteq> 0)) (\<lambda>_.
     let base = n_local_ranks div num_service_procs_per_dpu;
         rest = n_local_ranks - num_service_procs_per_dpu * base in
     Inr (if sp_lid < rest then base + 1 else base))"

text \<open>The number of local ranks is unsigned, so the last case of the macro (a negative number of local
  ranks) never applies.  The status of the broadcast is ignored.\<close>

definition GROUP_CACHE_EXCHANGE :: "transport \<Rightarrow> int \<Rightarrow> nat \<Rightarrow> offloading_engine_t \<Rightarrow> offloading_engine_t res" where
  "GROUP_CACHE_EXCHANGE tr gp_uid n_local_ranks e =
     bindE (GET_GROUP_CACHE gp_uid e) (\<lambda>e1.
     bindE (gp_get gp_uid e1) (\<lambda>g.
     let bcast = bindE (broadcast_group_cache tr gp_uid e1) (\<lambda>(rc, e2). Inr e2) in
     if c_size (e_procs_cache e1) = 1 then
       bindE (get_num_connecting_ranks (cfg_num_service_procs_per_dpu (e_config e1)) n_local_ranks
                (cfg_local_sp_local_id (e_config e1))) (\<lambda>n_connecting_ranks.
       if 0 < gc_n_local_ranks g \<and> gc_n_local_ranks_populated g = n_connecting_ranks then bcast else Inr e1)
     else if n_local_ranks = gc_n_local_ranks_populated g then bcast else Inr e1))"

definition rank_is_on_sp :: "int \<Rightarrow> offloading_engine_t \<Rightarrow> (bool \<times> offloading_engine_t) res" where
  "rank_is_on_sp world_rank e =
     (let world = c_world_group (e_procs_cache e) in
      bindE (GET_GROUP_CACHE world e) (\<lambda>e1.
      bindE (gp_get world e1) (\<lambda>c.
      bindE (MIMOSA_GET_RANK_FROM_GROUP_CACHE c world_rank) (\<lambda>i.
      bindE (rank_entry world i e1) (\<lambda>pe.
      bindE (nthE (pe_shadow_service_procs pe) 0) (\<lambda>sp.
      Inr (sp = cfg_local_sp_global_id (e_config e1), e1)))))))"

text \<open>The number of ranks of the message that are attached to the local SP, counted only as long as the
  group does not know it.\<close>

definition count_sp_ranks :: "int \<Rightarrow> int list \<Rightarrow> offloading_engine_t \<Rightarrow> (nat \<times> offloading_engine_t) res" where
  "count_sp_ranks uid world_ranks e =
     foldE (\<lambda>w (n, e').
       bindE (gp_get uid e') (\<lambda>g.
       if gc_sp_ranks g = 0 then
         bindE (rank_is_on_sp w e') (\<lambda>(b, e1). Inr (if b then Suc n else n, e1))
       else Inr (n, e'))) world_ranks (0, e)"

definition QUEUE_PENDING_GROUP_ADD_MSG ::
    "int \<Rightarrow> nat \<Rightarrow> rank_info_t \<Rightarrow> int list \<Rightarrow> offloading_engine_t \<Rightarrow> offloading_engine_t res" where
  "QUEUE_PENDING_GROUP_ADD_MSG gp client_id ri world_ranks e =
     bindE (gp_get gp e) (\<lambda>g.
     bindE (guardE Null_deref (gc_engine g)) (\<lambda>_.
     pers_upd gp (\<lambda>p. p\<lparr>p_pending_group_add_msgs := p_pending_group_add_msgs p
       @ [\<lparr>pa_client_id = client_id, pa_rank_info = ri, pa_world_ranks = world_ranks\<rparr>]\<rparr>) e))"

text \<open>The entry of the rank that joins.\<close>

definition joined_entry :: "rank_info_t \<Rightarrow> nat \<Rightarrow> nat \<Rightarrow> peer_info_t \<Rightarrow> peer_cache_entry_t \<Rightarrow> peer_cache_entry_t res" where
  "joined_entry ri client_id my_sp client pe =
     bindE (updE (pe_shadow_service_procs pe) 0 my_sp) (\<lambda>shadow.
     Inr (pe\<lparr>pe_peer := (pe_peer pe)\<lparr>
               pd_addr_len := pi_addr_len client,
               pd_addr := take (pi_addr_len client) (pi_addr client) @ drop (pi_addr_len client) (pd_addr (pe_peer pe)),
               pd_proc_info := COPY_RANK_INFO ri (pd_proc_info (pe_peer pe)),
               pd_host_info := ri_host_info ri\<rparr>,
             pe_num_shadow_service_procs := 1, pe_shadow_service_procs := shadow,
             pe_client_id := client_id, pe_set := True\<rparr>))"

definition add_group_rank ::
    "rank_info_t \<Rightarrow> nat \<Rightarrow> int list \<Rightarrow> offloading_engine_t \<Rightarrow> offloading_engine_t res" where
  "add_group_rank ri client_id world_ranks e =
     (let uid = ri_group_uid ri; my_sp = cfg_local_sp_global_id (e_config e) in
      bindE (gp_get uid e) (\<lambda>g.
      let e1 = (if gc_num_local_entries g = 0
                then gp_put uid (gc_persistent_update (\<lambda>p. p\<lparr>p_num := Suc (p_num p)\<rparr>) g) e else e) in
      bindE (get_server_servicing_host e1) (\<lambda>_.
      bindE (nthE (e_clients e1) client_id) (\<lambda>client.
      bindE (GET_GROUP_RANK_CACHE_ENTRY uid (ri_group_rank ri) (ri_group_size ri) e1) (\<lambda>(p, e2).
      bindE (gp_get uid e2) (\<lambda>g2.
      bindE (rank_entry uid p e2) (\<lambda>pe.
      bindE (joined_entry ri client_id my_sp client pe) (\<lambda>pe1.
      bindE (set_rank_entry p pe1 g2) (\<lambda>g3.
      let g4 = (if gc_group_uid g3 = 0 then g3\<lparr>gc_group_uid := uid\<rparr> else g3);
          g5 = (if gc_n_local_ranks g4 = 0 \<and> 0 \<le> ri_n_local_ranks ri
                then g4\<lparr>gc_n_local_ranks := nat (ri_n_local_ranks ri)\<rparr> else g4);
          g6 = g5\<lparr>gc_n_local_ranks_populated := Suc (gc_n_local_ranks_populated g5),
                  gc_num_local_entries := Suc (gc_num_local_entries g5)\<rparr> in
      bindE (count_sp_ranks uid world_ranks (gp_put uid g6 e2)) (\<lambda>(attached, e3).
      bindE (gp_get uid e3) (\<lambda>g7.
      let e4 = (if gc_sp_ranks g7 = 0 then gp_put uid (g7\<lparr>gc_sp_ranks := attached\<rparr>) e3 else e3) in
      update_topology_data uid (ri_group_rank ri) my_sp (cfg_local_sp_host_uid (e_config e4)) e4)))))))))))"

definition do_add_group_rank_recv_cb ::
    "transport \<Rightarrow> nat \<Rightarrow> rank_info_t \<Rightarrow> int list \<Rightarrow> offloading_engine_t \<Rightarrow> outcome" where
  "do_add_group_rank_recv_cb tr client_id ri world_ranks e =
     (let uid = ri_group_uid ri in
      bindE (assertE (ri_group_seq_num ri \<noteq> 0)) (\<lambda>_.
      bindE (get_server_servicing_host e) (\<lambda>_.
      if uid = INT_MAX \<or> ri_group_rank ri = INVALID_RANK then Inr (DO_SUCCESS, e) else
      bindE (GET_GROUP_CACHE_INTERNAL uid (ri_group_size ri) e) (\<lambda>e1.
      bindE (gp_get uid e1) (\<lambda>g.
      bindE (assertE (p_num (gc_persistent g) \<le> ri_group_seq_num ri)) (\<lambda>_.
      if 0 < gc_revokes_global g then
        bindE (QUEUE_PENDING_GROUP_ADD_MSG uid client_id ri world_ranks e1) (\<lambda>e2. Inr (DO_SUCCESS, e2))
      else
      bindE (is_in_cache uid (ri_group_rank ri) (ri_group_size ri) e1) (\<lambda>(cached, e2).
      bindE (if \<not> cached then add_group_rank ri client_id world_ranks e2 else Inr e2) (\<lambda>e3.
      check_rc (HANDLE_PENDING_CACHE_ENTRIES tr uid e3) (\<lambda>e4.
      bindE (gp_get uid e4) (\<lambda>g4.
      bindE (GROUP_CACHE_EXCHANGE tr uid (gc_sp_ranks g4) e4) (\<lambda>e5. Inr (DO_SUCCESS, e5))))))))))))"

definition handle_pending_group_cache_add_msgs :: "transport \<Rightarrow> int \<Rightarrow> offloading_engine_t \<Rightarrow> outcome" where
  "handle_pending_group_cache_add_msgs tr gp e =
     bindE (gp_get gp e) (\<lambda>g.
     bindE (assertE (gc_engine g)) (\<lambda>_.
     for_rc (\<lambda>pending e'.
       bindE (gp_get gp e') (\<lambda>g'.
       bindE (guardE Bad_list_op (pending \<in> set (p_pending_group_add_msgs (gc_persistent g')))) (\<lambda>_.
       bindE (pers_upd gp (\<lambda>p. p\<lparr>p_pending_group_add_msgs :=
                remove1 pending (p_pending_group_add_msgs p)\<rparr>) e') (\<lambda>e1.
       do_add_group_rank_recv_cb tr (pa_client_id pending) (pa_rank_info pending) (pa_world_ranks pending) e1))))
       (p_pending_group_add_msgs (gc_persistent g)) e))"

definition add_group_rank_recv_cb ::
    "transport \<Rightarrow> nat \<Rightarrow> rank_info_t \<Rightarrow> int list \<Rightarrow> offloading_engine_t \<Rightarrow> outcome" where
  "add_group_rank_recv_cb tr client_id ri world_ranks e =
     bindE (assertE (e_on_dpu e)) (\<lambda>_. do_add_group_rank_recv_cb tr client_id ri world_ranks e)"

section \<open>Revoking a group\<close>

text \<open>The final revoke of a group, sent to one client.  The handler of the host reads neither the start
  rank nor the ranks of the message, which are left as the pool of messages holds them (here 0 and
  none).\<close>

definition send_revoke_group_rank_request_through_list_ranks ::
    "transport \<Rightarrow> nat \<Rightarrow> int \<Rightarrow> nat \<Rightarrow> offloading_engine_t \<Rightarrow> outcome" where
  "send_revoke_group_rank_request_through_list_ranks tr dest_id gp_uid num_ranks e =
     (if gp_uid = INT_MAX then Inr (DO_ERROR, e) else
      bindE (GET_GROUP_CACHE gp_uid e) (\<lambda>e1.
      bindE (gp_get gp_uid e1) (\<lambda>g.
      bindE (assertE (num_ranks \<noteq> 0)) (\<lambda>_.
      bindE (assertE (gc_group_size g \<noteq> 0)) (\<lambda>_.
      emit tr (Emit_revoke_from_sp (To_client dest_id)
        \<lparr>rs_num_ranks = num_ranks, rs_rank_start = 0, rs_ranks = [], rs_gp_uid = gp_uid,
         rs_group_size = gc_group_size g, rs_gp_seq_num = p_num (gc_persistent g)\<rparr>) e1)))))"

definition send_revoke_group_to_ranks :: "transport \<Rightarrow> int \<Rightarrow> nat \<Rightarrow> offloading_engine_t \<Rightarrow> outcome" where
  "send_revoke_group_to_ranks tr gp_uid num_ranks e =
     bindE (get_server_servicing_host e) (\<lambda>_.
     bindE (assertE (num_ranks \<noteq> 0)) (\<lambda>_.
     bindE (GET_GROUP_CACHE gp_uid e) (\<lambda>e1.
     bindE (gp_get gp_uid e1) (\<lambda>g.
     bindE (assertE (Suc (p_revoke_send_to_host_posted (gc_persistent g)) = p_num (gc_persistent g))) (\<lambda>_.
     check_rc (for_rc (\<lambda>idx e'.
         bindE (nthE (e_clients e') idx) (\<lambda>c.
         bindE (assertE (pi_group_uid c \<noteq> INT_MAX)) (\<lambda>_.
         send_revoke_group_rank_request_through_list_ranks tr (pi_id c) gp_uid num_ranks e')))
         [0..<e_num_connected_clients e1] e1) (\<lambda>e2.
     bindE (pers_upd gp_uid (\<lambda>p. p\<lparr>p_revoke_send_to_host_posted := p_num p,
              p_final_posts := p_final_posts p @ [p_num p]\<rparr>) e2) (\<lambda>e3.
     settle tr (Revoke_sent gp_uid) e3)))))))"

text \<open>The completion of the final revoke; failures are only reported.\<close>

definition revoke_send_to_host_cb :: "transport \<Rightarrow> int \<Rightarrow> offloading_engine_t \<Rightarrow> offloading_engine_t res" where
  "revoke_send_to_host_cb tr gp e =
     bindE (gp_get gp e) (\<lambda>g.
     bindE (assertE (gc_engine g)) (\<lambda>_.
     bindE (pers_upd gp (\<lambda>p. p\<lparr>p_revoke_sent_to_host := p_revoke_send_to_host_posted p\<rparr>) e) (\<lambda>e1.
     bindE (revoke_group_cache tr (gc_group_uid g) e1) (\<lambda>(rc, e2).
     bindE (gp_upd gp (gc_engine_update (\<lambda>_. True)) e2) (\<lambda>e3.
     bindE (handle_pending_group_cache_add_msgs tr gp e3) (\<lambda>(rc', e4). Inr e4))))))"

text \<open>Marking the ranks of a message as revoked: the bitset and the number of ranks not marked before.\<close>

definition mark_rank :: "group_revoke_msg_from_sp_t \<Rightarrow> nat \<Rightarrow> group_cache_bitset_t \<times> nat
    \<Rightarrow> (group_cache_bitset_t \<times> nat) res" where
  "mark_rank msg rank = (\<lambda>(bs, n).
     bindE (nthE (rs_ranks msg) rank) (\<lambda>r.
     if r = 1 then
       bindE (GROUP_CACHE_BITSET_TEST bs (rs_rank_start msg + rank)) (\<lambda>t.
       if \<not> t then bindE (GROUP_CACHE_BITSET_SET bs (rs_rank_start msg + rank)) (\<lambda>bs1. Inr (bs1, Suc n))
       else Inr (bs, n))
     else Inr (bs, n)))"

definition HANDLE_PENDING_GROUP_REVOKE_MSGS_FROM_SPS ::
    "int \<Rightarrow> offloading_engine_t \<Rightarrow> (nat \<times> offloading_engine_t) res" where
  "HANDLE_PENDING_GROUP_REVOKE_MSGS_FROM_SPS gp e =
     bindE (gp_get gp e) (\<lambda>g.
     foldE (\<lambda>msg (tot, e').
       bindE (gp_get gp e') (\<lambda>g1.
       let g2 = gc_persistent_update (\<lambda>p. p\<lparr>p_pending_group_revoke_msgs_from_sps :=
                  remove1 msg (p_pending_group_revoke_msgs_from_sps p)\<rparr>) g1 in
       bindE (assertE (rs_gp_uid msg \<noteq> INT_MAX)) (\<lambda>_.
       bindE (assertE (rs_gp_seq_num msg = p_num (gc_persistent g2))) (\<lambda>_.
       bindE (if gc_revokes_ranks g2 = None then
                bindE (assertE (gc_group_size g2 \<noteq> 0)) (\<lambda>_.
                GROUP_CACHE_BITSET_CREATE (gc_revokes_ranks g2) (gc_group_size g2))
              else Inr (gc_revokes_ranks g2)) (\<lambda>bs.
       bindE (assertE (bs \<noteq> None)) (\<lambda>_.
       bindE (foldE (mark_rank msg) [0..<rs_num_ranks msg] (bs, 0)) (\<lambda>(bs1, n).
       Inr (tot + n, gp_put gp (g2\<lparr>gc_revokes_ranks := bs1,
              gc_revokes_global := gc_revokes_global g2 + n\<rparr>) e')))))))) 
       (p_pending_group_revoke_msgs_from_sps (gc_persistent g)) (0, e))"

text \<open>The completion of sending the cache of a group to the local ranks.\<close>

definition group_cache_send_to_local_ranks_cb :: "transport \<Rightarrow> int \<Rightarrow> offloading_engine_t \<Rightarrow> offloading_engine_t res" where
  "group_cache_send_to_local_ranks_cb tr gp e =
     bindE (gp_get gp e) (\<lambda>g.
     bindE (assertE (gc_engine g)) (\<lambda>_.
     bindE (assertE (gc_revokes_global g \<le> gc_group_size g)) (\<lambda>_.
     bindE (pers_upd gp (\<lambda>p. p\<lparr>p_sent_to_host := p_num p\<rparr>) e) (\<lambda>e1.
     bindE (HANDLE_PENDING_GROUP_REVOKE_MSGS_FROM_SPS gp e1) (\<lambda>(new_revokes, e2).
     bindE (gp_get gp e2) (\<lambda>g2.
     bindE (assertE (gc_revokes_global g2 \<le> gc_group_size g2)) (\<lambda>_.
     bindE (if 0 < new_revokes
               \<and> p_revoke_send_to_host_posted (gc_persistent g2) < p_num (gc_persistent g2)
               \<and> gc_revokes_global g2 = gc_group_size g2
            then bindE (assertE (gc_group_size g2 \<noteq> 0)) (\<lambda>_.
                 bindE (send_revoke_group_to_ranks tr (gc_group_uid g2) (gc_group_size g2) e2) (\<lambda>(rc, e3). Inr e3))
            else Inr e2) (\<lambda>e3.
     bindE (gp_get gp e3) (\<lambda>g3.
     bindE (assertE (gc_revokes_global g3 \<le> gc_group_size g3)) (\<lambda>_. Inr e3))))))))))"

text \<open>A revoke from another SP, on a service process.\<close>

definition handle_revoke_on_sp ::
    "transport \<Rightarrow> group_revoke_msg_from_sp_t \<Rightarrow> offloading_engine_t \<Rightarrow> group_cache_t \<Rightarrow> outcome" where
  "handle_revoke_on_sp tr msg e g =
     (let gp = rs_gp_uid msg in
      if \<not> gc_initialized g \<or> gc_group_size g \<noteq> gc_num_local_entries g
         \<or> gc_sp_ranks g \<noteq> gc_revokes_local g then
        bindE (assertE (0 < gc_n_local_ranks g \<longrightarrow> p_num (gc_persistent g) = rs_gp_seq_num msg)) (\<lambda>_.
        bindE (pers_upd gp (\<lambda>p. p\<lparr>p_pending_group_revoke_msgs_from_sps :=
                 p_pending_group_revoke_msgs_from_sps p @ [msg]\<rparr>) e) (\<lambda>e1.
        Inr (DO_SUCCESS, e1)))
      else
        bindE (if gc_group_size g = 0 then
                 bindE (assertE (gc_revokes_ranks g = None)) (\<lambda>_.
                 bindE (GROUP_CACHE_BITSET_CREATE (gc_revokes_ranks g) (rs_group_size msg)) (\<lambda>bs.
                 Inr (g\<lparr>gc_group_size := rs_group_size msg, gc_revokes_ranks := bs\<rparr>)))
               else Inr g) (\<lambda>g1.
        bindE (assertE (gc_revokes_ranks g1 \<noteq> None)) (\<lambda>_.
        bindE (assertE (gc_revokes_global g1 \<le> gc_group_size g1)) (\<lambda>_.
        bindE (foldE (\<lambda>rank s.
                 bindE (assertE (rs_rank_start msg + rank \<le> gc_group_size g1)) (\<lambda>_. mark_rank msg rank s))
                 [0..<rs_num_ranks msg] (gc_revokes_ranks g1, 0)) (\<lambda>(bs, new_revokes).
        let g2 = g1\<lparr>gc_revokes_ranks := bs, gc_revokes_global := gc_revokes_global g1 + new_revokes\<rparr>;
            e1 = gp_put gp g2 e in
        bindE (assertE (gc_revokes_global g2 \<le> gc_group_size g2)) (\<lambda>_.
        if 0 < new_revokes \<and> gc_revokes_global g2 = gc_group_size g2
           \<and> p_revoke_send_to_host_posted (gc_persistent g2) < p_num (gc_persistent g2)
        then bindE (assertE (gc_group_size g2 \<noteq> 0)) (\<lambda>_.
             check_rc (send_revoke_group_to_ranks tr gp (gc_group_size g2) e1) (\<lambda>e2. Inr (DO_SUCCESS, e2)))
        else Inr (DO_SUCCESS, e1)))))))"

text \<open>The host sends a request to join a group, now or, when the group is being revoked, once the final
  revoke arrived.\<close>

definition do_send_add_group_rank_request :: "transport \<Rightarrow> nat \<Rightarrow> rank_info_t \<Rightarrow> offloading_engine_t \<Rightarrow> outcome" where
  "do_send_add_group_rank_request tr dest_id ri e =
     (let uid = ri_group_uid ri in
      bindE (GET_GROUP_CACHE_INTERNAL uid (ri_group_size ri) e) (\<lambda>e1.
      bindE (gp_get uid e1) (\<lambda>g.
      let g1 = (if gc_num_local_entries g = 0
                then gc_persistent_update (\<lambda>p. p\<lparr>p_num := Suc (p_num p)\<rparr>) g else g);
          ri1 = ri\<lparr>ri_group_seq_num := p_num (gc_persistent g1)\<rparr> in
      bindE (is_in_cache uid (ri_group_rank ri1) (ri_group_size ri1) (gp_put uid g1 e1)) (\<lambda>(cached, e2).
      bindE (if \<not> cached then host_add_local_rank_to_cache ri1 e2 else Inr e2) (\<lambda>e3.
      emit tr (Emit_add dest_id ri1) e3)))))"

definition send_add_group_rank_request ::
    "transport \<Rightarrow> nat \<Rightarrow> nat \<Rightarrow> rank_info_t \<Rightarrow> offloading_engine_t \<Rightarrow> outcome" where
  "send_add_group_rank_request tr my_host_info dest_id ri e =
     (let ri0 = (if ri_host_info ri = UINT64_MAX then ri\<lparr>ri_host_info := my_host_info\<rparr> else ri);
          uid = ri_group_uid ri0 in
      bindE (GET_GROUP_CACHE_INTERNAL uid (ri_group_size ri0) e) (\<lambda>e1.
      bindE (gp_get uid e1) (\<lambda>g.
      if gc_revokes_global g = 0 then do_send_add_group_rank_request tr dest_id ri0 e1 else
      bindE (pers_upd uid (\<lambda>p. p\<lparr>p_pending_send_group_add_msgs := p_pending_send_group_add_msgs p
               @ [\<lparr>ps_ev_rank_info = ri0, ps_dest_id = dest_id\<rparr>]\<rparr>) e1) (\<lambda>e2.
      Inr (DO_SUCCESS, e2)))))"

definition send_revoke_group_rank_request_through_rank_info ::
    "transport \<Rightarrow> nat \<Rightarrow> rank_info_t \<Rightarrow> offloading_engine_t \<Rightarrow> outcome" where
  "send_revoke_group_rank_request_through_rank_info tr dest_id ri e =
     (let uid = ri_group_uid ri in
      if e_persistent_endpoint_cache e then Inr (DO_SUCCESS, e) else
      if ri_group_rank ri = INVALID_RANK then Inr (DO_ERROR, e) else
      bindE (assertE (uid \<noteq> INT_MAX)) (\<lambda>_.
      if uid = c_world_group (e_procs_cache e) then Inr (DO_SUCCESS, e) else
      bindE (GET_GROUP_CACHE_INTERNAL uid (ri_group_size ri) e) (\<lambda>e1.
      bindE (gp_get uid e1) (\<lambda>g.
      check_rc (emit tr (Emit_revoke_from_rank dest_id
                  (ri\<lparr>ri_group_seq_num := p_num (gc_persistent g)\<rparr>)) e1) (\<lambda>e2.
      if \<not> e_on_dpu e2 then
        bindE (gp_upd uid (\<lambda>g. g\<lparr>gc_revokes_local := Suc (gc_revokes_local g),
                 gc_revokes_global := Suc (gc_revokes_global g)\<rparr>) e2) (\<lambda>e3.
        Inr (DO_SUCCESS, e3))
      else Inr (DO_SUCCESS, e2))))))"

text \<open>The first pending request to join the group is sent, and only that one.\<close>

primrec send_first_pending ::
    "transport \<Rightarrow> int \<Rightarrow> pending_send_group_add_t list \<Rightarrow> offloading_engine_t \<Rightarrow> outcome" where
  "send_first_pending tr gp [] e = Inr (DO_SUCCESS, e)"
| "send_first_pending tr gp (ps # pss) e =
     (if gp = ri_group_uid (ps_ev_rank_info ps) then
        bindE (pers_upd gp (\<lambda>p. p\<lparr>p_pending_send_group_add_msgs :=
                 remove1 ps (p_pending_send_group_add_msgs p)\<rparr>) e) (\<lambda>e1.
        check_rc (do_send_add_group_rank_request tr (ps_dest_id ps) (ps_ev_rank_info ps) e1) (\<lambda>e2.
        Inr (DO_SUCCESS, e2)))
      else send_first_pending tr gp pss e)"

text \<open>The final revoke, on the host.\<close>

definition handle_revoke_on_host ::
    "transport \<Rightarrow> group_revoke_msg_from_sp_t \<Rightarrow> offloading_engine_t \<Rightarrow> group_cache_t \<Rightarrow> outcome" where
  "handle_revoke_on_host tr msg e g =
     (let gp = rs_gp_uid msg in
      bindE (assertE (rs_group_size msg \<noteq> 0)) (\<lambda>_.
      bindE (assertE (gc_n_local_ranks g \<noteq> 0 \<longrightarrow> rs_gp_seq_num msg = p_num (gc_persistent g))) (\<lambda>_.
      check_rc (revoke_group_cache tr gp e) (\<lambda>e1.
      bindE (gp_get gp e1) (\<lambda>g1.
      send_first_pending tr gp (p_pending_send_group_add_msgs (gc_persistent g1)) e1)))))"

definition handle_revoke_group_rank_through_list_ranks ::
    "transport \<Rightarrow> group_revoke_msg_from_sp_t \<Rightarrow> offloading_engine_t \<Rightarrow> outcome" where
  "handle_revoke_group_rank_through_list_ranks tr msg e =
     (let gp = rs_gp_uid msg in
      bindE (GET_GROUP_CACHE_INTERNAL gp (int (rs_group_size msg)) e) (\<lambda>e1.
      bindE (gp_get gp e1) (\<lambda>g0.
      bindE (assertE (gc_revokes_global g0 \<le> gc_group_size g0)) (\<lambda>_.
      bindE (if gc_group_size g0 = 0 then
               bindE (if e_on_dpu e1
                      then bindE (assertE (gc_sp_ranks g0 = 0)) (\<lambda>_. assertE (rs_group_size msg \<noteq> 0))
                      else assertE (gc_n_local_ranks g0 = 0)) (\<lambda>_.
               Inr (g0\<lparr>gc_group_size := rs_group_size msg\<rparr>))
             else Inr g0) (\<lambda>g.
      let e2 = gp_put gp g e1 in
      bindE (assertE (gc_n_local_ranks g \<noteq> 0 \<longrightarrow> rs_gp_seq_num msg = p_num (gc_persistent g))) (\<lambda>_.
      if e_on_dpu e2 then handle_revoke_on_sp tr msg e2 g else handle_revoke_on_host tr msg e2 g))))))"

text \<open>A revoke from a rank of the local host: the part that marks the rank, tells the other SPs once all
  local ranks revoked the group and posts the final revoke once all ranks did.\<close>

definition mark_local_revoke :: "rank_info_t \<Rightarrow> group_cache_t \<Rightarrow> group_cache_t res" where
  "mark_local_revoke ri g =
     bindE (assertE (ri_group_seq_num ri = p_num (gc_persistent g))) (\<lambda>_.
     bindE (GROUP_CACHE_BITSET_SET (gc_revokes_ranks g) (nat (ri_group_rank ri))) (\<lambda>bs.
     bindE (assertE (gc_revokes_global g \<le> gc_group_size g)) (\<lambda>_.
     let g1 = g\<lparr>gc_revokes_ranks := bs, gc_revokes_local := Suc (gc_revokes_local g),
                gc_revokes_global := Suc (gc_revokes_global g)\<rparr> in
     bindE (assertE (gc_revokes_global g1 \<le> gc_group_size g1 \<and> gc_engine g1 \<and> 0 < gc_sp_ranks g1
                     \<and> gc_sp_ranks g1 \<le> gc_group_size g1)) (\<lambda>_.
     Inr g1))))"

definition notify_sps_of_revoke :: "transport \<Rightarrow> int \<Rightarrow> offloading_engine_t \<Rightarrow> outcome" where
  "notify_sps_of_revoke tr gp e =
     bindE (gp_get gp e) (\<lambda>g.
     if gc_revokes_local g = gc_sp_ranks g then
       check_rc (broadcast_group_cache_revoke tr gp e) (\<lambda>e1.
       bindE (gp_get gp e1) (\<lambda>g1.
       bindE (assertE (gc_revokes_global g1 \<le> gc_group_size g1 \<and> gc_revokes_ranks g1 \<noteq> None)) (\<lambda>_.
       bindE (HANDLE_PENDING_GROUP_REVOKE_MSGS_FROM_SPS gp e1) (\<lambda>(n, e2).
       bindE (gp_get gp e2) (\<lambda>g2.
       bindE (assertE (gc_revokes_global g2 \<le> gc_group_size g2)) (\<lambda>_. Inr (DO_SUCCESS, e2)))))))
     else Inr (DO_SUCCESS, e))"

definition post_final_revoke :: "transport \<Rightarrow> int \<Rightarrow> offloading_engine_t \<Rightarrow> outcome" where
  "post_final_revoke tr gp e =
     bindE (gp_get gp e) (\<lambda>g.
     if gc_revokes_global g = gc_group_size g
        \<and> p_revoke_send_to_host_posted (gc_persistent g) < p_num (gc_persistent g)
     then bindE (assertE (gc_group_size g \<noteq> 0)) (\<lambda>_.
          send_revoke_group_to_ranks tr gp (gc_group_size g) e)
     else Inr (DO_SUCCESS, e))"

definition handle_revoke_group_rank_through_rank_info ::
    "transport \<Rightarrow> rank_info_t \<Rightarrow> offloading_engine_t \<Rightarrow> outcome" where
  "handle_revoke_group_rank_through_rank_info tr ri e =
     (let gp = ri_group_uid ri in
      bindE (assertE (e_on_dpu e)) (\<lambda>_.
      if gp = INT_MAX then Inr (DO_SUCCESS, e) else
      bindE (is_in_cache gp (ri_group_rank ri) (ri_group_size ri) e) (\<lambda>(cached, e0).
      bindE (assertE cached) (\<lambda>_.
      bindE (GET_GROUP_CACHE_INTERNAL gp (ri_group_size ri) e0) (\<lambda>e1.
      bindE (gp_get gp e1) (\<lambda>g.
      bindE (assertE (gc_initialized g \<and> 0 < gc_n_local_ranks g \<and> 0 < gc_n_local_ranks_populated g
                      \<and> gc_revokes_global g \<le> gc_group_size g \<and> gc_revokes_local g \<le> gc_n_local_ranks g
                      \<and> gc_revokes_ranks g \<noteq> None)) (\<lambda>_.
      bindE (guardE Out_of_bounds (0 \<le> ri_group_rank ri)) (\<lambda>_.
      bindE (GROUP_CACHE_BITSET_TEST (gc_revokes_ranks g) (nat (ri_group_rank ri))) (\<lambda>t.
      bindE (assertE (\<not> t)) (\<lambda>_.
      bindE (if gc_group_size g \<noteq> gc_num_local_entries g then
               bindE (pers_upd gp (\<lambda>p. p\<lparr>p_pending_group_revoke_msgs_from_ranks :=
                        p_pending_group_revoke_msgs_from_ranks p @ [\<lparr>rr_rank_info = ri\<rparr>]\<rparr>) e1) (\<lambda>e2.
               Inr (DO_SUCCESS, e2))
             else
               bindE (mark_local_revoke ri g) (\<lambda>g1.
               check_rc (notify_sps_of_revoke tr gp (gp_put gp g1 e1)) (\<lambda>e2.
               check_rc (post_final_revoke tr gp e2) (\<lambda>e3. Inr (DO_SUCCESS, e3))))) (\<lambda>(rc, e3).
      if rc \<noteq> DO_SUCCESS then Inr (rc, e3) else
      bindE (gp_get gp e3) (\<lambda>g3.
      bindE (assertE (gc_revokes_global g3 \<le> gc_group_size g3)) (\<lambda>_. Inr (DO_SUCCESS, e3))))))))))))))"

definition revoke_group_from_rank_recv_cb :: "transport \<Rightarrow> rank_info_t \<Rightarrow> offloading_engine_t \<Rightarrow> outcome" where
  "revoke_group_from_rank_recv_cb tr ri e =
     bindE (assertE (e_on_dpu e)) (\<lambda>_. handle_revoke_group_rank_through_rank_info tr ri e)"

definition revoke_group_from_sp_recv_cb ::
    "transport \<Rightarrow> group_revoke_msg_from_sp_t \<Rightarrow> offloading_engine_t \<Rightarrow> outcome" where
  "revoke_group_from_sp_recv_cb tr msg e = handle_revoke_group_rank_through_list_ranks tr msg e"

text \<open>The callback of a completed meta-event.\<close>

definition completion_cb :: "transport \<Rightarrow> completion \<Rightarrow> offloading_engine_t \<Rightarrow> offloading_engine_t res" where
  "completion_cb tr c e =
     (case c of
        Cache_sent gp \<Rightarrow> group_cache_send_to_local_ranks_cb tr gp e
      | Revoke_sent gp \<Rightarrow> revoke_send_to_host_cb tr gp e
      | No_callback \<Rightarrow> Inr e)"

text \<open>What a meta-event that is checked for completion leads to, on a transport that accepts the
  notifications \<open>f\<close> says and on which the events \<open>d\<close> says are complete when they are checked: their callbacks
  run within the handlers, nested at most \<open>n\<close> deep; the other events are queued.\<close>

primrec ucx_settle :: "(call \<Rightarrow> offloading_engine_t \<Rightarrow> bool) \<Rightarrow> (completion \<Rightarrow> offloading_engine_t \<Rightarrow> bool) \<Rightarrow> nat
    \<Rightarrow> completion \<Rightarrow> offloading_engine_t \<Rightarrow> offloading_engine_t res" where
  "ucx_settle f d 0 c e = (if d c e then Inl No_return else Inr (queue_event c e))"
| "ucx_settle f d (Suc n) c e =
     (if d c e then completion_cb \<lparr>tr_emit = f, tr_settle = ucx_settle f d n\<rparr> c e
      else Inr (queue_event c e))"

definition ucx_transport ::
    "(call \<Rightarrow> offloading_engine_t \<Rightarrow> bool) \<Rightarrow> (completion \<Rightarrow> offloading_engine_t \<Rightarrow> bool) \<Rightarrow> nat \<Rightarrow> transport" where
  "ucx_transport f d n = \<lparr>tr_emit = f, tr_settle = ucx_settle f d n\<rparr>"

text \<open>The notifications an SP receives and the callbacks \<open>register_default_notifications\<close> installs for
  them.\<close>

datatype sp_event =
    Add_gp_rank nat rank_info_t "int list"
  | Peer_cache_entries nat "peer_cache_entry_t list"
  | Revoke_gp_rank rank_info_t
  | Revoke_gp_sp group_revoke_msg_from_sp_t

definition handle_notification :: "transport \<Rightarrow> sp_event \<Rightarrow> offloading_engine_t \<Rightarrow> outcome" where
  "handle_notification tr ev =
     (case ev of
        Add_gp_rank client_id ri world_ranks \<Rightarrow> add_group_rank_recv_cb tr client_id ri world_ranks
      | Peer_cache_entries sp_gid entries \<Rightarrow> peer_cache_entries_recv_cb tr sp_gid entries
      | Revoke_gp_rank ri \<Rightarrow> revoke_group_from_rank_recv_cb tr ri
      | Revoke_gp_sp msg \<Rightarrow> revoke_group_from_sp_recv_cb tr msg)"

text \<open>Progress: an event that is complete is taken off the list of ongoing events and its callback runs.\<close>

definition progress_event :: "transport \<Rightarrow> completion \<Rightarrow> offloading_engine_t \<Rightarrow> offloading_engine_t res" where
  "progress_event tr c e =
     bindE (guardE Bad_list_op (c \<in> set (e_ongoing_events e))) (\<lambda>_.
     completion_cb tr c (e\<lparr>e_ongoing_events := remove1 c (e_ongoing_events e)\<rparr>))"

section \<open>Termination\<close>

definition GROUP_CACHE_TERMINATE_PENDING_MSGS :: "group_cache_t \<Rightarrow> group_cache_t res" where
  "GROUP_CACHE_TERMINATE_PENDING_MSGS g =
     bindE (guardE Null_deref (gc_engine g \<or> (p_pending_group_revoke_msgs_from_sps (gc_persistent g) = []
         \<and> p_pending_group_revoke_msgs_from_ranks (gc_persistent g) = []
         \<and> p_pending_group_add_msgs (gc_persistent g) = []
         \<and> p_pending_send_group_add_msgs (gc_persistent g) = []
         \<and> p_pending_recv_cache_entries (gc_persistent g) = []))) (\<lambda>_.
     Inr (gc_persistent_update (\<lambda>p. p\<lparr>p_pending_group_revoke_msgs_from_sps := [],
            p_pending_group_revoke_msgs_from_ranks := [], p_pending_group_add_msgs := [],
            p_pending_send_group_add_msgs := [], p_pending_recv_cache_entries := []\<rparr>) g))"

end
