(* ===== verification/Group_Revoke.thy ===== *)
theory Group_Revoke
imports Group_Protocol Group_Tables
begin

text \<open>
  Correctness of the revoke protocol: the messages in which an SP tells the others which ranks revoked a
  group carry exactly those ranks, the SPs that receive them count every rank once, and the final revoke
  is posted to the local ranks when the last rank revoked the group.
\<close>

section \<open>Messages\<close>

definition revoke_msg :: "group_cache_t \<Rightarrow> nat \<Rightarrow> nat \<Rightarrow> group_revoke_msg_from_sp_t" where
  "revoke_msg g s n =
     \<lparr>rs_num_ranks = n, rs_rank_start = s,
      rs_ranks = map (\<lambda>i. if s + i \<in> bs_elems (gc_revokes_ranks g) then 1 else 0) [0..<n],
      rs_gp_uid = gc_group_uid g, rs_group_size = gc_group_size g,
      rs_gp_seq_num = p_num (gc_persistent g)\<rparr>"

function revoke_msgs :: "group_cache_t \<Rightarrow> nat \<Rightarrow> group_revoke_msg_from_sp_t list" where
  "revoke_msgs g s =
     (if s < gc_group_size g
      then revoke_msg g s (min 1024 (gc_group_size g - s)) # revoke_msgs g (s + min 1024 (gc_group_size g - s))
      else [])"
  by pat_completeness auto
termination
  by (relation "measure (\<lambda>(g, s). gc_group_size g - s)") auto

declare revoke_msgs.simps [simp del]

text \<open>The bookkeeping of the ranks that revoked a group: as many as the counter says, all in the group.\<close>

definition revoke_wf :: "group_cache_t \<Rightarrow> bool" where
  "revoke_wf g =
     (0 < gc_group_size g
      \<and> bs_capacity (gc_revokes_ranks g) = CHAR_BIT * GROUP_CACHE_BITSET_NSLOTS (gc_group_size g)
      \<and> bs_elems (gc_revokes_ranks g) \<subseteq> {..<gc_group_size g}
      \<and> gc_revokes_global g = card (bs_elems (gc_revokes_ranks g)))"

lemma revoke_chunk_spec:
  assumes "s + n \<le> bs_capacity (gc_revokes_ranks g)"
  shows "revoke_chunk g s n = Inr (revoke_msg g s n)"
proof -
  let ?f = "\<lambda>i ranks. bindE (GROUP_CACHE_BITSET_TEST (gc_revokes_ranks g) (s + i)) (\<lambda>t.
              Inr (ranks @ [if t then 1 else 0 :: nat]))"
  have "foldE ?f [0..<k] [] = Inr (map (\<lambda>i. if s + i \<in> bs_elems (gc_revokes_ranks g) then 1 else 0) [0..<k])"
    if "s + k \<le> bs_capacity (gc_revokes_ranks g)" for k
    using that by (induction k) (simp_all add: foldE_append bs.test_in)
  from this[OF assms] show ?thesis
    by (simp add: revoke_chunk_def revoke_msg_def)
qed

definition log_calls :: "call list \<Rightarrow> offloading_engine_t \<Rightarrow> offloading_engine_t" where
  "log_calls cs e = e\<lparr>e_calls := e_calls e @ cs\<rparr>"

lemma log_calls_simps [simp]:
  "log_calls [] e = e"
  "log_call c e = log_calls [c] e"
  "log_calls cs' (log_calls cs e) = log_calls (cs @ cs') e"
  "gp_get k (log_calls cs e) = gp_get k e"
  "gp_put k g (log_calls cs e) = log_calls cs (gp_put k g e)"
  "e_config (log_calls cs e) = e_config e"
  "e_on_dpu (log_calls cs e) = e_on_dpu e"
  "e_num_service_procs (log_calls cs e) = e_num_service_procs e"
  "e_num_connected_service_procs (log_calls cs e) = e_num_connected_service_procs e"
  "e_service_procs (log_calls cs e) = e_service_procs e"
  "e_servers (log_calls cs e) = e_servers e"
  "e_clients (log_calls cs e) = e_clients e"
  "e_num_connected_clients (log_calls cs e) = e_num_connected_clients e"
  "e_ongoing_events (log_calls cs e) = e_ongoing_events e"
  "e_procs_cache (log_calls cs e) = e_procs_cache e"
  "e_calls (log_calls cs e) = e_calls e @ cs"
  by (simp_all add: log_calls_def log_call_def gp_get_def gp_put_def)

lemma emit_async [simp]: "emit async_transport c e = Inr (DO_SUCCESS, log_calls [c] e)"
  by (simp add: emit_def async_transport_def)

lemma settle_async [simp]: "settle async_transport c e = Inr (DO_SUCCESS, queue_event c e)"
  by (simp add: settle_def async_transport_def)

lemma send_revoke_chunks_spec:
  assumes "gc_group_size g \<le> bs_capacity (gc_revokes_ranks g)" "remaining = gc_group_size g - s"
  shows "send_revoke_chunks async_transport sp d g s remaining e
         = Inr (DO_SUCCESS, log_calls (map (Emit_revoke_from_sp (To_sp sp d)) (revoke_msgs g s)) e)"
  using assms
proof (induction g s arbitrary: remaining e rule: revoke_msgs.induct)
  case (1 g s)
  show ?case
  proof (cases "s < gc_group_size g")
    case True
    let ?n = "min 1024 (gc_group_size g - s)"
    have n: "(if remaining < 1024 then remaining else 1024) = ?n" "?n \<noteq> 0"
      using True 1(3) by auto
    have rest: "remaining - ?n = gc_group_size g - (s + ?n)"
      using 1(3) by simp
    have "revoke_chunk g s ?n = Inr (revoke_msg g s ?n)"
      using True 1(2) by (intro revoke_chunk_spec) simp
    with True n(2) have "send_revoke_chunks async_transport sp d g s remaining e
        = send_revoke_chunks async_transport sp d g (s + ?n) (remaining - ?n)
            (log_calls [Emit_revoke_from_sp (To_sp sp d) (revoke_msg g s ?n)] e)"
      by (subst send_revoke_chunks.simps) (simp only: n(1) Let_def if_True if_False bindE_simps emit_async check_rc_simps)
    moreover have "revoke_msgs g s = revoke_msg g s ?n # revoke_msgs g (s + ?n)"
      using True by (subst revoke_msgs.simps) simp
    ultimately show ?thesis
      by (simp only: 1(1)[OF True 1(2) rest] log_calls_simps list.map append_Cons append_Nil)
  next
    case False
    then show ?thesis
      by (simp add: send_revoke_chunks.simps revoke_msgs.simps)
  qed
qed

lemma revoke_wf_capacity: "revoke_wf g \<Longrightarrow> gc_group_size g \<le> bs_capacity (gc_revokes_ranks g)"
  using nslots_covers[of "gc_group_size g"] by (simp add: revoke_wf_def)

lemma send_local_revoke_spec:
  assumes "gp_get gp e = Inr g" "revoke_wf g" "gc_initialized g"
  shows "send_local_revoke_rank_group_cache async_transport sp d gp e
         = Inr (DO_SUCCESS, log_calls (map (Emit_revoke_from_sp (To_sp sp d)) (revoke_msgs g 0)) e)"
proof -
  have "0 < gc_group_size g"
    using assms(2) by (simp add: revoke_wf_def)
  then show ?thesis
    using assms send_revoke_chunks_spec[OF revoke_wf_capacity[OF assms(2)], of "gc_group_size g" 0]
    by (simp add: send_local_revoke_rank_group_cache_def)
qed

section \<open>Receiving revokes\<close>

text \<open>The ranks a message marks.\<close>

definition msg_ranks :: "group_revoke_msg_from_sp_t \<Rightarrow> nat set" where
  "msg_ranks m = {rs_rank_start m + i | i. i < rs_num_ranks m \<and> rs_ranks m ! i = 1}"

lemma mark_ranks_fold:
  assumes "n \<le> length (rs_ranks m)" "rs_rank_start m + n \<le> bs_capacity bs"
  shows "\<exists>bs'. foldE (mark_rank m) [0..<n] (bs, c)
            = Inr (bs', c + card ({rs_rank_start m + i | i. i < n \<and> rs_ranks m ! i = 1} - bs_elems bs))
          \<and> bs_elems bs' = bs_elems bs \<union> {rs_rank_start m + i | i. i < n \<and> rs_ranks m ! i = 1}
          \<and> bs_capacity bs' = bs_capacity bs"
  using assms
proof (induction n)
  case (Suc n)
  let ?M = "\<lambda>n. {rs_rank_start m + i | i. i < n \<and> rs_ranks m ! i = 1}"
  let ?r = "rs_rank_start m + n"
  from Suc obtain b where b: "foldE (mark_rank m) [0..<n] (bs, c) = Inr (b, c + card (?M n - bs_elems bs))"
      "bs_elems b = bs_elems bs \<union> ?M n" "bs_capacity b = bs_capacity bs"
    by auto
  have nth: "nthE (rs_ranks m) n = Inr (rs_ranks m ! n)"
    using Suc.prems by simp
  have t: "GROUP_CACHE_BITSET_TEST b ?r = Inr (?r \<in> bs_elems b)"
    using Suc.prems b(3) by (intro bs.test_in) simp
  obtain b' where b': "GROUP_CACHE_BITSET_SET b ?r = Inr b'" "bs_elems b' = insert ?r (bs_elems b)"
      "bs_capacity b' = bs_capacity b"
    using bs.set_in[of ?r b] Suc.prems b(3) by auto
  have M: "?M (Suc n) = (if rs_ranks m ! n = 1 then insert ?r (?M n) else ?M n)"
    by (auto simp: less_Suc_eq)
  have fresh: "?r \<notin> ?M n"
    by auto
  have fin: "finite (?M n - bs_elems bs)"
    by simp
  have step: "mark_rank m n (b, k) = Inr (if rs_ranks m ! n = 1 \<and> ?r \<notin> bs_elems b then (b', Suc k) else (b, k))" for k
    using nth t b'(1) by (simp add: mark_rank_def)
  have up: "foldE (mark_rank m) [0..<Suc n] (bs, c)
      = Inr (if rs_ranks m ! n = 1 \<and> ?r \<notin> bs_elems b then (b', Suc (c + card (?M n - bs_elems bs)))
             else (b, c + card (?M n - bs_elems bs)))"
    by (simp add: foldE_append b(1) step)
  show ?case
  proof (cases "rs_ranks m ! n = 1 \<and> ?r \<notin> bs_elems bs")
    case True
    then show ?thesis
      unfolding M using up b(2,3) b'(2,3) fresh fin by (auto simp: insert_Diff_if)
  next
    case False
    then have "?M (Suc n) - bs_elems bs = ?M n - bs_elems bs" "bs_elems bs \<union> ?M (Suc n) = bs_elems bs \<union> ?M n"
      unfolding M by auto
    moreover have "\<not> (rs_ranks m ! n = 1 \<and> ?r \<notin> bs_elems b)"
      using False b(2) by auto
    ultimately show ?thesis
      using up b(2,3) by simp
  qed
qed simp

lemma mark_msg:
  assumes "rs_num_ranks m \<le> length (rs_ranks m)" "rs_rank_start m + rs_num_ranks m \<le> bs_capacity bs"
  shows "\<exists>bs'. foldE (mark_rank m) [0..<rs_num_ranks m] (bs, 0) = Inr (bs', card (msg_ranks m - bs_elems bs))
          \<and> bs_elems bs' = bs_elems bs \<union> msg_ranks m \<and> bs_capacity bs' = bs_capacity bs"
  using mark_ranks_fold[OF assms, of 0] by (simp add: msg_ranks_def)

lemma msg_ranks_finite [simp]: "finite (msg_ranks m)"
  by (simp add: msg_ranks_def)

lemma revoke_msg_ranks:
  "msg_ranks (revoke_msg g s n) = {r \<in> bs_elems (gc_revokes_ranks g). s \<le> r \<and> r < s + n}"
  by (auto simp: msg_ranks_def revoke_msg_def le_iff_add split: if_splits)

text \<open>The messages of a revoke carry exactly the ranks that revoked the group.\<close>

lemma revoke_msgs_ranks:
  assumes "bs_elems (gc_revokes_ranks g) \<subseteq> {..<gc_group_size g}"
  shows "(\<Union>m \<in> set (revoke_msgs g s). msg_ranks m) = {r \<in> bs_elems (gc_revokes_ranks g). s \<le> r}"
  using assms
proof (induction g s rule: revoke_msgs.induct)
  case (1 g s)
  show ?case
  proof (cases "s < gc_group_size g")
    case True
    let ?n = "min 1024 (gc_group_size g - s)"
    show ?thesis
      using 1(1)[OF True 1(2)] True by (auto simp: revoke_msgs.simps[of g s] revoke_msg_ranks)
  next
    case False
    then show ?thesis
      using 1(2) by (auto simp: revoke_msgs.simps)
  qed
qed

lemma revoke_msgs_wf:
  assumes "m \<in> set (revoke_msgs g s)"
  shows "rs_num_ranks m = length (rs_ranks m)" "rs_rank_start m + rs_num_ranks m \<le> gc_group_size g"
    "rs_num_ranks m \<le> 1024" "rs_gp_uid m = gc_group_uid g" "rs_group_size m = gc_group_size g"
    "rs_gp_seq_num m = p_num (gc_persistent g)"
  using assms
  by (induction g s rule: revoke_msgs.induct; subst (asm) revoke_msgs.simps; force simp: revoke_msg_def)+

section \<open>The final revoke\<close>

lemma queue_event_simps [simp]:
  "gp_get k (queue_event c e) = gp_get k e"
  "gp_put k g (queue_event c e) = queue_event c (gp_put k g e)"
  "log_calls cs (queue_event c e) = queue_event c (log_calls cs e)"
  "e_config (queue_event c e) = e_config e"
  "e_on_dpu (queue_event c e) = e_on_dpu e"
  "e_num_service_procs (queue_event c e) = e_num_service_procs e"
  "e_num_connected_service_procs (queue_event c e) = e_num_connected_service_procs e"
  "e_service_procs (queue_event c e) = e_service_procs e"
  "e_servers (queue_event c e) = e_servers e"
  "e_clients (queue_event c e) = e_clients e"
  "e_num_connected_clients (queue_event c e) = e_num_connected_clients e"
  "e_procs_cache (queue_event c e) = e_procs_cache e"
  "e_calls (queue_event c e) = e_calls e"
  "e_ongoing_events (queue_event c e) = e_ongoing_events e @ [c]"
  by (simp_all add: queue_event_def gp_get_def gp_put_def log_calls_def)

lemma for_rc_log:
  assumes "\<And>x cs. x \<in> set xs \<Longrightarrow> f x (log_calls cs e) = Inr (DO_SUCCESS, log_calls (cs @ h x) e)"
  shows "for_rc f xs e = Inr (DO_SUCCESS, log_calls (concat (map h xs)) e)"
proof -
  have "for_rc f ys (log_calls cs e) = Inr (DO_SUCCESS, log_calls (cs @ concat (map h ys)) e)"
    if "set ys \<subseteq> set xs" for ys cs
    using that by (induction ys arbitrary: cs) (simp_all add: assms)
  from this[of xs "[]"] show ?thesis
    by simp
qed

text \<open>The server of the host is up and its clients are ranks of known groups.\<close>

definition host_side_up :: "offloading_engine_t \<Rightarrow> bool" where
  "host_side_up e =
     ((\<exists>k. get_server_servicing_host e = Inr k) \<and> e_num_connected_clients e \<le> length (e_clients e)
      \<and> (\<forall>i < e_num_connected_clients e. pi_group_uid (e_clients e ! i) \<noteq> INT_MAX))"

definition final_msg :: "int \<Rightarrow> group_cache_t \<Rightarrow> group_revoke_msg_from_sp_t" where
  "final_msg uid g =
     \<lparr>rs_num_ranks = gc_group_size g, rs_rank_start = 0, rs_ranks = [], rs_gp_uid = uid,
      rs_group_size = gc_group_size g, rs_gp_seq_num = p_num (gc_persistent g)\<rparr>"

definition final_calls :: "int \<Rightarrow> group_cache_t \<Rightarrow> offloading_engine_t \<Rightarrow> call list" where
  "final_calls uid g e =
     map (\<lambda>i. Emit_revoke_from_sp (To_client (pi_id (e_clients e ! i))) (final_msg uid g))
       [0..<e_num_connected_clients e]"

definition posted :: "group_cache_t \<Rightarrow> group_cache_t" where
  "posted g = gc_persistent_update (\<lambda>p. p\<lparr>p_revoke_send_to_host_posted := p_num p,
     p_final_posts := p_final_posts p @ [p_num p]\<rparr>) g"

lemma ready_log: "group_ready uid g e \<Longrightarrow> group_ready uid g (log_calls cs e)"
  by (simp add: group_ready_def)

lemma send_final_spec:
  assumes "group_ready uid g e" "host_side_up e"
    and "Suc (p_revoke_send_to_host_posted (gc_persistent g)) = p_num (gc_persistent g)"
  shows "send_revoke_group_to_ranks async_transport uid (gc_group_size g) e
         = Inr (DO_SUCCESS, queue_event (Revoke_sent uid)
                  (log_calls (final_calls uid g e) (gp_put uid (posted g) e)))"
proof -
  have n: "0 < gc_group_size g" "uid \<noteq> INT_MAX"
    using assms(1) by (simp_all add: group_ready_def)
  obtain k where k: "get_server_servicing_host e = Inr k"
    using assms(2) by (auto simp: host_side_up_def)
  let ?f = "\<lambda>idx e'. bindE (nthE (e_clients e') idx) (\<lambda>c.
      bindE (assertE (pi_group_uid c \<noteq> INT_MAX)) (\<lambda>_.
      send_revoke_group_rank_request_through_list_ranks async_transport (pi_id c) uid (gc_group_size g) e'))"
  let ?h = "\<lambda>i. [Emit_revoke_from_sp (To_client (pi_id (e_clients e ! i))) (final_msg uid g)]"
  have "?f i (log_calls cs e) = Inr (DO_SUCCESS, log_calls (cs @ ?h i) e)"
    if "i \<in> set [0..<e_num_connected_clients e]" for i cs
    using that assms(2) n ready_get[OF ready_log[OF assms(1), of cs]]
    by (simp add: send_revoke_group_rank_request_through_list_ranks_def host_side_up_def final_msg_def)
  then have "for_rc ?f [0..<e_num_connected_clients e] e
      = Inr (DO_SUCCESS, log_calls (concat (map ?h [0..<e_num_connected_clients e])) e)"
    by (rule for_rc_log)
  moreover have "concat (map ?h [0..<e_num_connected_clients e]) = final_calls uid g e"
    by (simp add: final_calls_def concat_map_singleton)
  ultimately show ?thesis
    using k n assms(3) ready_get[OF assms(1)]
    by (simp add: send_revoke_group_to_ranks_def pers_upd_def gp_upd_def posted_def)
qed

section \<open>Receiving all messages of a revoke\<close>

text \<open>An SP that waits for the revokes of the other SPs.\<close>

definition awaiting_revokes :: "int \<Rightarrow> group_cache_t \<Rightarrow> offloading_engine_t \<Rightarrow> bool" where
  "awaiting_revokes uid g e =
     (group_ready uid g e \<and> e_on_dpu e \<and> host_side_up e \<and> revoke_wf g \<and> gc_initialized g
      \<and> gc_group_size g = gc_num_local_entries g \<and> gc_sp_ranks g = gc_revokes_local g
      \<and> Suc (p_revoke_send_to_host_posted (gc_persistent g)) = p_num (gc_persistent g)
      \<and> bs_elems (gc_revokes_ranks g) \<noteq> {..<gc_group_size g})"

definition with_revokes :: "group_cache_t \<Rightarrow> group_cache_bitset_t \<Rightarrow> group_cache_t" where
  "with_revokes g bs = g\<lparr>gc_revokes_ranks := bs, gc_revokes_global := card (bs_elems bs)\<rparr>"

text \<open>The state of the SP once the ranks \<open>S\<close> revoked the group.\<close>

definition revoke_state :: "int \<Rightarrow> group_cache_t \<Rightarrow> offloading_engine_t \<Rightarrow> nat set \<Rightarrow> offloading_engine_t \<Rightarrow> bool" where
  "revoke_state uid g e S e' =
     (S \<subseteq> {..<gc_group_size g}
      \<and> (\<exists>bs. bs_elems bs = S \<and> bs_capacity bs = bs_capacity (gc_revokes_ranks g)
           \<and> e' = (if S = {..<gc_group_size g}
                   then queue_event (Revoke_sent uid) (log_calls (final_calls uid g e)
                          (gp_put uid (posted (with_revokes g bs)) e))
                   else gp_put uid (with_revokes g bs) e)))"

definition msg_for :: "group_cache_t \<Rightarrow> group_revoke_msg_from_sp_t \<Rightarrow> bool" where
  "msg_for g m =
     (rs_num_ranks m \<le> length (rs_ranks m) \<and> rs_rank_start m + rs_num_ranks m \<le> gc_group_size g
      \<and> rs_gp_uid m = gc_group_uid g \<and> rs_group_size m = gc_group_size g
      \<and> rs_gp_seq_num m = p_num (gc_persistent g))"

lemma msg_for_ranks: "msg_for g m \<Longrightarrow> msg_ranks m \<subseteq> {..<gc_group_size g}"
  by (auto simp: msg_for_def msg_ranks_def)

lemma posted_simps [simp]:
  "gc_group_size (posted g) = gc_group_size g" "gc_group_uid (posted g) = gc_group_uid g"
  "gc_engine (posted g) = gc_engine g" "gc_sps (posted g) = gc_sps g" "gc_ranks (posted g) = gc_ranks g"
  "gc_initialized (posted g) = gc_initialized g" "gc_num_local_entries (posted g) = gc_num_local_entries g"
  "gc_sp_ranks (posted g) = gc_sp_ranks g" "gc_revokes_local (posted g) = gc_revokes_local g"
  "gc_revokes_ranks (posted g) = gc_revokes_ranks g" "gc_revokes_global (posted g) = gc_revokes_global g"
  "gc_n_local_ranks (posted g) = gc_n_local_ranks g"
  "p_initialized (gc_persistent (posted g)) = p_initialized (gc_persistent g)"
  "p_num (gc_persistent (posted g)) = p_num (gc_persistent g)"
  "p_revoke_send_to_host_posted (gc_persistent (posted g)) = p_num (gc_persistent g)"
  by (simp_all add: posted_def)

lemma with_revokes_simps [simp]:
  "gc_group_size (with_revokes g bs) = gc_group_size g" "gc_group_uid (with_revokes g bs) = gc_group_uid g"
  "gc_engine (with_revokes g bs) = gc_engine g" "gc_sps (with_revokes g bs) = gc_sps g"
  "gc_ranks (with_revokes g bs) = gc_ranks g" "gc_initialized (with_revokes g bs) = gc_initialized g"
  "gc_num_local_entries (with_revokes g bs) = gc_num_local_entries g"
  "gc_sp_ranks (with_revokes g bs) = gc_sp_ranks g" "gc_revokes_local (with_revokes g bs) = gc_revokes_local g"
  "gc_revokes_ranks (with_revokes g bs) = bs" "gc_revokes_global (with_revokes g bs) = card (bs_elems bs)"
  "gc_n_local_ranks (with_revokes g bs) = gc_n_local_ranks g"
  "gc_persistent (with_revokes g bs) = gc_persistent g"
  by (simp_all add: with_revokes_def)

text \<open>What the handler does on an SP whose group is fully populated and revoked by all its local ranks.\<close>

lemma recv_revoke_step:
  assumes ready: "group_ready uid h e" and up: "e_on_dpu e" "host_side_up e"
    and h: "gc_initialized h" "gc_group_size h = gc_num_local_entries h" "gc_sp_ranks h = gc_revokes_local h"
    and wf: "revoke_wf h" and m: "msg_for h m"
    and p: "p_revoke_send_to_host_posted (gc_persistent h) = p_num (gc_persistent h)
            \<or> Suc (p_revoke_send_to_host_posted (gc_persistent h)) = p_num (gc_persistent h)"
  shows "\<exists>bs. bs_elems bs = bs_elems (gc_revokes_ranks h) \<union> msg_ranks m
           \<and> bs_capacity bs = bs_capacity (gc_revokes_ranks h)
           \<and> revoke_group_from_sp_recv_cb async_transport m e
             = Inr (DO_SUCCESS,
                 if \<not> msg_ranks m \<subseteq> bs_elems (gc_revokes_ranks h) \<and> bs_elems bs = {..<gc_group_size h}
                    \<and> p_revoke_send_to_host_posted (gc_persistent h) < p_num (gc_persistent h)
                 then queue_event (Revoke_sent uid) (log_calls (final_calls uid h e)
                        (gp_put uid (posted (with_revokes h bs)) e))
                 else gp_put uid (with_revokes h bs) e)"
proof -
  let ?E = "bs_elems (gc_revokes_ranks h)" and ?M = "msg_ranks m"
  have uid: "rs_gp_uid m = uid" "gc_group_size h \<noteq> 0" and seq: "rs_gp_seq_num m = p_num (gc_persistent h)"
    using m ready by (auto simp: msg_for_def group_ready_def)
  have sub: "?E \<union> ?M \<subseteq> {..<gc_group_size h}" and glob: "gc_revokes_global h = card ?E"
    using wf msg_for_ranks[OF m] by (auto simp: revoke_wf_def)
  have fits: "rs_num_ranks m \<le> length (rs_ranks m)"
      "rs_rank_start m + rs_num_ranks m \<le> bs_capacity (gc_revokes_ranks h)"
    using m revoke_wf_capacity[OF wf] by (auto simp: msg_for_def)
  from mark_msg[OF this] obtain bs where b: "foldE (mark_rank m) [0..<rs_num_ranks m] (gc_revokes_ranks h, 0)
        = Inr (bs, card (?M - ?E))" "bs_elems bs = ?E \<union> ?M" "bs_capacity bs = bs_capacity (gc_revokes_ranks h)"
    by blast
  have fold: "foldE (\<lambda>rank s. bindE (assertE (rs_rank_start m + rank \<le> gc_group_size h)) (\<lambda>_. mark_rank m rank s))
      [0..<rs_num_ranks m] (gc_revokes_ranks h, 0) = Inr (bs, card (?M - ?E))"
    unfolding b(1)[symmetric] using m by (intro foldE_cong) (simp add: msg_for_def)
  have fin: "finite ?E"
    by (rule bs.elems_finite)
  have "card ?E + card (?M - ?E) = card (?E \<union> (?M - ?E))"
    using fin by (intro card_Un_disjoint[symmetric]) auto
  then have card: "card ?E + card (?M - ?E) = card (bs_elems bs)"
    by (simp add: b(2))
  have le: "card (bs_elems bs) \<le> gc_group_size h"
    using card_mono[OF _ sub] by (simp add: b(2))
  have full: "card (bs_elems bs) = gc_group_size h \<longleftrightarrow> bs_elems bs = {..<gc_group_size h}"
    using card_subset_eq[OF finite_lessThan sub] unfolding b(2) by (metis card_lessThan)
  have new: "0 < card (?M - ?E) \<longleftrightarrow> \<not> ?M \<subseteq> ?E"
    by (auto simp: card_gt_0_iff)
  have some: "gc_revokes_ranks h \<noteq> None"
    using wf nslots_bit_pos[of "gc_group_size h"] by (intro bs_capacity_pos) (simp add: revoke_wf_def)
  have glo: "gc_revokes_global h \<le> gc_group_size h"
    using glob le card by simp
  have tot: "gc_revokes_global h + card (?M - ?E) = card (bs_elems bs)"
    by (simp add: glob card)
  have put: "gp_put uid h e = e"
    by (rule gp_put_same[OF ready_get(3)[OF ready]])
  have r2: "group_ready uid (with_revokes h bs) (gp_put uid (with_revokes h bs) e)"
    using ready by (simp add: group_ready_def)
  have up2: "host_side_up (gp_put uid (with_revokes h bs) e)"
    using up(2) by (simp add: host_side_up_def get_server_servicing_host_def)
  have fc: "final_calls uid (with_revokes h bs) (gp_put uid (with_revokes h bs) e) = final_calls uid h e"
    by (simp add: final_calls_def final_msg_def)
  have H: "revoke_group_from_sp_recv_cb async_transport m e = handle_revoke_on_sp async_transport m e h"
    unfolding revoke_group_from_sp_recv_cb_def handle_revoke_group_rank_through_list_ranks_def Let_def uid(1)
      ready_get[OF ready] bindE_simps using uid(2) glo put up(1) seq by simp
  have S: "handle_revoke_on_sp async_transport m e h
      = (if \<not> ?M \<subseteq> ?E \<and> bs_elems bs = {..<gc_group_size h}
            \<and> p_revoke_send_to_host_posted (gc_persistent h) < p_num (gc_persistent h)
         then check_rc (send_revoke_group_to_ranks async_transport uid (gc_group_size h)
                (gp_put uid (with_revokes h bs) e)) (\<lambda>e2. Inr (DO_SUCCESS, e2))
         else Inr (DO_SUCCESS, gp_put uid (with_revokes h bs) e))"
    using h(1,3) h(2)[symmetric] uid some glo fold le full new
    by (auto simp: handle_revoke_on_sp_def tot with_revokes_def Let_def)
  have F: "send_revoke_group_to_ranks async_transport uid (gc_group_size h) (gp_put uid (with_revokes h bs) e)
      = Inr (DO_SUCCESS, queue_event (Revoke_sent uid) (log_calls (final_calls uid h e)
               (gp_put uid (posted (with_revokes h bs)) e)))"
    if "p_revoke_send_to_host_posted (gc_persistent h) < p_num (gc_persistent h)"
    using send_final_spec[OF r2 up2] p that by (simp add: fc)
  show ?thesis
    using b(2,3) F by (intro exI[of _ bs]) (simp add: H S)
qed

lemma with_revokes_twice [simp]: "with_revokes (with_revokes g bs) bs' = with_revokes g bs'"
  by (simp add: with_revokes_def)

lemma with_revokes_posted: "with_revokes (posted g) bs = posted (with_revokes g bs)"
  by (simp add: with_revokes_def posted_def)

lemma revoke_stateI:
  assumes "S \<subseteq> {..<gc_group_size g}" "bs_elems bs = S" "bs_capacity bs = bs_capacity (gc_revokes_ranks g)"
    and "e' = (if S = {..<gc_group_size g}
               then queue_event (Revoke_sent uid) (log_calls (final_calls uid g e)
                      (gp_put uid (posted (with_revokes g bs)) e))
               else gp_put uid (with_revokes g bs) e)"
  shows "revoke_state uid g e S e'"
  unfolding revoke_state_def using assms by blast

lemma revoke_state_step:
  assumes aw: "awaiting_revokes uid g e" and st: "revoke_state uid g e S e1" and m: "msg_for g m"
  shows "\<exists>e2. revoke_group_from_sp_recv_cb async_transport m e1 = Inr (DO_SUCCESS, e2)
           \<and> revoke_state uid g e (S \<union> msg_ranks m) e2"
proof -
  have ready: "group_ready uid g e" and up: "e_on_dpu e" "host_side_up e"
    and g: "gc_initialized g" "gc_group_size g = gc_num_local_entries g" "gc_sp_ranks g = gc_revokes_local g"
      "revoke_wf g" "Suc (p_revoke_send_to_host_posted (gc_persistent g)) = p_num (gc_persistent g)"
    using aw by (auto simp: awaiting_revokes_def)
  obtain bs where bs: "bs_elems bs = S" "bs_capacity bs = bs_capacity (gc_revokes_ranks g)"
    and sub: "S \<subseteq> {..<gc_group_size g}"
    and e1: "e1 = (if S = {..<gc_group_size g}
                   then queue_event (Revoke_sent uid) (log_calls (final_calls uid g e)
                          (gp_put uid (posted (with_revokes g bs)) e))
                   else gp_put uid (with_revokes g bs) e)"
    using st by (auto simp: revoke_state_def)
  define h where "h = (if S = {..<gc_group_size g} then posted (with_revokes g bs) else with_revokes g bs)"
  have h: "gc_initialized h" "gc_group_size h = gc_num_local_entries h" "gc_sp_ranks h = gc_revokes_local h"
      "revoke_wf h" "msg_for h m" "gc_group_size h = gc_group_size g" "bs_elems (gc_revokes_ranks h) = S"
      "bs_capacity (gc_revokes_ranks h) = bs_capacity (gc_revokes_ranks g)"
    using g m bs sub by (simp_all add: h_def revoke_wf_def msg_for_def)
  have hp: "p_revoke_send_to_host_posted (gc_persistent h) = p_num (gc_persistent h)
            \<or> Suc (p_revoke_send_to_host_posted (gc_persistent h)) = p_num (gc_persistent h)"
    using g(5) by (simp add: h_def)
  have ready1: "group_ready uid h e1"
    using ready by (simp add: e1 h_def group_ready_def)
  have up1: "e_on_dpu e1" "host_side_up e1"
    using up by (simp_all add: e1 host_side_up_def get_server_servicing_host_def)
  note mr = msg_for_ranks[OF m]
  from recv_revoke_step[OF ready1 up1 h(1-5) hp] obtain bs' where
    bs': "bs_elems bs' = S \<union> msg_ranks m" "bs_capacity bs' = bs_capacity (gc_revokes_ranks g)"
      "revoke_group_from_sp_recv_cb async_transport m e1
       = Inr (DO_SUCCESS,
           if \<not> msg_ranks m \<subseteq> S \<and> S \<union> msg_ranks m = {..<gc_group_size g}
              \<and> p_revoke_send_to_host_posted (gc_persistent h) < p_num (gc_persistent h)
           then queue_event (Revoke_sent uid) (log_calls (final_calls uid h e1)
                  (gp_put uid (posted (with_revokes h bs')) e1))
           else gp_put uid (with_revokes h bs') e1)"
    unfolding h(6-8) by auto
  have sub': "S \<union> msg_ranks m \<subseteq> {..<gc_group_size g}"
    using sub mr by blast
  show ?thesis
  proof (cases "S = {..<gc_group_size g}")
    case True
    then have M: "msg_ranks m \<subseteq> S" and full: "S \<union> msg_ranks m = {..<gc_group_size g}"
      using mr by auto
    have "revoke_state uid g e (S \<union> msg_ranks m) (gp_put uid (with_revokes h bs') e1)"
      by (rule revoke_stateI[OF sub' bs'(1,2)]) (simp only: full if_True,
          simp add: True h_def e1 with_revokes_posted)
    with M bs'(3) show ?thesis
      by simp
  next
    case False
    have new: "\<not> msg_ranks m \<subseteq> S" if "S \<union> msg_ranks m = {..<gc_group_size g}"
      using False that by auto
    have lt: "p_revoke_send_to_host_posted (gc_persistent h) < p_num (gc_persistent h)"
      using False g(5) by (simp add: h_def)
    have fc: "final_calls uid h e1 = final_calls uid g e"
      using False by (simp add: h_def e1 final_calls_def final_msg_def)
    let ?e2 = "if S \<union> msg_ranks m = {..<gc_group_size g}
        then queue_event (Revoke_sent uid) (log_calls (final_calls uid g e)
               (gp_put uid (posted (with_revokes g bs')) e))
        else gp_put uid (with_revokes g bs') e"
    have "revoke_group_from_sp_recv_cb async_transport m e1 = Inr (DO_SUCCESS, ?e2)"
      using False new lt by (simp add: bs'(3) fc) (simp add: h_def e1)
    with revoke_stateI[OF sub' bs'(1,2) refl] show ?thesis
      by blast
  qed
qed

lemma revoke_state_msgs:
  assumes "awaiting_revokes uid g e" "revoke_state uid g e S e1" "\<forall>m \<in> set ms. msg_for g m"
  shows "\<exists>e2. for_rc (revoke_group_from_sp_recv_cb async_transport) ms e1 = Inr (DO_SUCCESS, e2)
           \<and> revoke_state uid g e (S \<union> (\<Union>m \<in> set ms. msg_ranks m)) e2"
  using assms(2,3)
proof (induction ms arbitrary: S e1)
  case (Cons m ms)
  from revoke_state_step[OF assms(1) Cons.prems(1), of m] Cons.prems(2) obtain e2 where
    "revoke_group_from_sp_recv_cb async_transport m e1 = Inr (DO_SUCCESS, e2)"
    "revoke_state uid g e (S \<union> msg_ranks m) e2"
    by auto
  with Cons.IH[of "S \<union> msg_ranks m" e2] Cons.prems(2) show ?case
    by (auto simp: Un_assoc)
qed auto

lemma revoke_state_start:
  assumes "awaiting_revokes uid g e"
  shows "revoke_state uid g e (bs_elems (gc_revokes_ranks g)) e"
proof -
  have "with_revokes g (gc_revokes_ranks g) = g"
    using assms by (cases g) (simp add: awaiting_revokes_def revoke_wf_def with_revokes_def)
  moreover have "gp_put uid g e = e"
    using assms by (intro gp_put_same) (simp add: awaiting_revokes_def group_ready_def)
  moreover have "bs_elems (gc_revokes_ranks g) \<subseteq> {..<gc_group_size g}"
      "bs_elems (gc_revokes_ranks g) \<noteq> {..<gc_group_size g}"
    using assms unfolding awaiting_revokes_def revoke_wf_def by blast+
  ultimately show ?thesis
    by (intro revoke_stateI[of _ _ "gc_revokes_ranks g"]) simp_all
qed

text \<open>C6: An SP that receives the revoke of another SP learns exactly the ranks that revoked the group
  there: the sender splits its bitset into messages of at most 1024 ranks, the receiver handles all of them
  without a fault and then has marked exactly the ranks of both sides, counts each of them once, and has
  posted the final revoke to every connected client, once, exactly when all ranks of the group revoked
  it.\<close>

theorem revoke_exchange:
  assumes "gp_get uid es = Inr gs" "revoke_wf gs" "gc_initialized gs"
    and "awaiting_revokes uid g e"
    and "gc_group_uid gs = uid" "gc_group_size gs = gc_group_size g"
      "p_num (gc_persistent gs) = p_num (gc_persistent g)"
  shows "\<exists>ms e' g'. send_local_revoke_rank_group_cache async_transport sp d uid es
        = Inr (DO_SUCCESS, log_calls (map (Emit_revoke_from_sp (To_sp sp d)) ms) es)
      \<and> (\<forall>m \<in> set ms. rs_num_ranks m \<le> 1024)
      \<and> for_rc (revoke_group_from_sp_recv_cb async_transport) ms e = Inr (DO_SUCCESS, e')
      \<and> gp_get uid e' = Inr g'
      \<and> bs_elems (gc_revokes_ranks g') = bs_elems (gc_revokes_ranks g) \<union> bs_elems (gc_revokes_ranks gs)
      \<and> gc_revokes_global g' = card (bs_elems (gc_revokes_ranks g'))
      \<and> (if bs_elems (gc_revokes_ranks g') = {..<gc_group_size g}
         then p_revoke_send_to_host_posted (gc_persistent g') = p_num (gc_persistent g)
              \<and> e_calls e' = e_calls e @ final_calls uid g e
              \<and> e_ongoing_events e' = e_ongoing_events e @ [Revoke_sent uid]
         else p_revoke_send_to_host_posted (gc_persistent g') = p_revoke_send_to_host_posted (gc_persistent g)
              \<and> e_calls e' = e_calls e \<and> e_ongoing_events e' = e_ongoing_events e)"
proof -
  let ?ms = "revoke_msgs gs 0"
  have "gc_group_uid g = uid"
    using assms(4) by (simp add: awaiting_revokes_def group_ready_def)
  then have "\<forall>m \<in> set ?ms. msg_for g m"
    using revoke_msgs_wf[of _ gs 0] assms(5-7) by (simp add: msg_for_def)
  moreover have "(\<Union>m \<in> set ?ms. msg_ranks m) = bs_elems (gc_revokes_ranks gs)"
    using revoke_msgs_ranks[of gs 0] assms(2) by (simp add: revoke_wf_def)
  ultimately obtain e' where e': "for_rc (revoke_group_from_sp_recv_cb async_transport) ?ms e = Inr (DO_SUCCESS, e')"
      "revoke_state uid g e (bs_elems (gc_revokes_ranks g) \<union> bs_elems (gc_revokes_ranks gs)) e'"
    using revoke_state_msgs[OF assms(4) revoke_state_start[OF assms(4)], of ?ms] by auto
  have send: "send_local_revoke_rank_group_cache async_transport sp d uid es
      = Inr (DO_SUCCESS, log_calls (map (Emit_revoke_from_sp (To_sp sp d)) ?ms) es)"
    by (rule send_local_revoke_spec[OF assms(1-3)])
  have len: "\<forall>m \<in> set ?ms. rs_num_ranks m \<le> 1024"
    using revoke_msgs_wf(3) by blast
  let ?S = "bs_elems (gc_revokes_ranks g) \<union> bs_elems (gc_revokes_ranks gs)"
  from e'(2) obtain bs where bs: "bs_elems bs = ?S"
      "e' = (if ?S = {..<gc_group_size g}
             then queue_event (Revoke_sent uid) (log_calls (final_calls uid g e)
                    (gp_put uid (posted (with_revokes g bs)) e))
             else gp_put uid (with_revokes g bs) e)"
    unfolding revoke_state_def by blast
  show ?thesis
    by (intro exI[of _ ?ms] exI[of _ e']
          exI[of _ "if ?S = {..<gc_group_size g} then posted (with_revokes g bs) else with_revokes g bs"])
       (simp add: send len e'(1), simp add: bs)
qed

text \<open>Two SPs of a group of four ranks: the ranks 0 and 1 of one of them and the ranks 2 and 3 of the other
  revoked the group.\<close>

definition revoked_group :: "u8 \<Rightarrow> group_cache_t" where
  "revoked_group w =
     (demo_group 4)\<lparr>gc_revokes_ranks := Some [w], gc_revokes_global := 2, gc_revokes_local := 2,
       gc_sp_ranks := 2, gc_n_local_ranks := 2\<rparr>"

definition revoked_engine :: "u8 \<Rightarrow> offloading_engine_t" where
  "revoked_engine w =
     (gp_put 7 (revoked_group w) (demo_engine 4))
       \<lparr>e_num_connected_clients := 1,
        e_clients := [\<lparr>pi_id = 5, pi_addr_len = 0, pi_addr = [], pi_group_uid = 7\<rparr>]\<rparr>"

lemma byte_elems: "bs_elems (Some [w]) = set (filter (bit w) [0..<8])"
  by (auto simp: bs_elems_def bs_has_def CHAR_BIT_def)

lemma byte_elems_demo: "bs_elems (Some [3]) = {0, 1}" "bs_elems (Some [12]) = {2, 3}"
  unfolding byte_elems by code_simp+

lemma revoked_group_get: "gp_get 7 (revoked_engine w) = Inr (revoked_group w)"
  by (simp add: revoked_engine_def gp_get_def gp_put_def)

lemma revoked_group_simps:
  "gc_group_size (revoked_group w) = 4" "gc_group_uid (revoked_group w) = 7"
  "p_num (gc_persistent (revoked_group w)) = 1" "gc_initialized (revoked_group w)"
  "gc_revokes_ranks (revoked_group w) = Some [w]" "gc_revokes_global (revoked_group w) = 2"
  "p_revoke_send_to_host_posted (gc_persistent (revoked_group w)) = 0"
  "gc_num_local_entries (revoked_group w) = 4" "gc_sp_ranks (revoked_group w) = gc_revokes_local (revoked_group w)"
  by (simp_all add: revoked_group_def demo_group_def BASIC_INIT_GROUP_CACHE_def init_persistent_def)

lemma revoked_group_wf: "card (bs_elems (Some [w])) = 2 \<Longrightarrow> bs_elems (Some [w]) \<subseteq> {..<4} \<Longrightarrow> revoke_wf (revoked_group w)"
  by (simp add: revoke_wf_def revoked_group_simps bs_capacity_def CHAR_BIT_def GROUP_CACHE_BITSET_NSLOTS_def)

lemma revoked_group_ready: "group_ready 7 (revoked_group w) (revoked_engine w)"
  using demo_ready[of 4]
  by (simp add: group_ready_def revoked_group_get revoked_group_simps) (simp add: revoked_group_def demo_group_fresh)

lemma revoked_host_up: "host_side_up (revoked_engine w)" "e_on_dpu (revoked_engine w)"
  by (simp_all add: host_side_up_def revoked_engine_def get_server_servicing_host_def demo_engine_def INT_MAX_def
      gp_put_def)

theorem revoke_exchange_witness:
  "\<exists>ms e' g'. send_local_revoke_rank_group_cache async_transport 1 1 7 (revoked_engine 12)
        = Inr (DO_SUCCESS, log_calls (map (Emit_revoke_from_sp (To_sp 1 1)) ms) (revoked_engine 12))
      \<and> for_rc (revoke_group_from_sp_recv_cb async_transport) ms (revoked_engine 3) = Inr (DO_SUCCESS, e')
      \<and> gp_get 7 e' = Inr g' \<and> bs_elems (gc_revokes_ranks g') = {0, 1, 2, 3}
      \<and> e_ongoing_events e' = [Revoke_sent 7]"
proof -
  have "2 \<in> {..<4::nat}" "2 \<notin> {0, 1::nat}"
    by simp_all
  then have ne: "bs_elems (gc_revokes_ranks (revoked_group 3)) \<noteq> {..<gc_group_size (revoked_group 3)}"
    unfolding revoked_group_simps byte_elems_demo by blast
  have wf: "revoke_wf (revoked_group 3)" "revoke_wf (revoked_group 12)"
    by (rule revoked_group_wf; simp add: byte_elems_demo)+
  have "awaiting_revokes 7 (revoked_group 3) (revoked_engine 3)"
    unfolding awaiting_revokes_def using ne wf revoked_group_ready revoked_host_up
    by (simp add: revoked_group_simps)
  note t = revoke_exchange[OF revoked_group_get wf(2) revoked_group_simps(4) this revoked_group_simps(2), of 1 1]
  have full: "{0, 1} \<union> {2, 3} = {..<4::nat}" "{0, 1, 2, 3} = {..<4::nat}"
    by auto
  have on: "e_ongoing_events (revoked_engine 3) = []"
    by (simp add: revoked_engine_def demo_engine_def gp_put_def)
  from t show ?thesis
    unfolding revoked_group_simps byte_elems_demo full on by auto
qed

end
