(* ===== verification/Group_Invariants.thy ===== *)
theory Group_Invariants
imports Group_Revoke "HOL-Library.Code_Target_Nat"
begin

text \<open>
  Invariants of an SP that hold under every interleaving of notifications and completions.  The locale
  \<open>group_invariant\<close> says what a property of the groups of an engine has to survive: the primitive changes
  the handlers make to the revoke bookkeeping and to the persistent part of a group.  Under it, every
  handler keeps the property for every group.
\<close>

section \<open>What the handlers change\<close>

text \<open>The part of a group the properties may depend on.\<close>

definition rview :: "group_cache_t \<Rightarrow> nat \<times> group_cache_bitset_t \<times> group_persistent_t" where
  "rview g = (gc_revokes_global g, gc_revokes_ranks g, gc_persistent g)"

lemma rview_update [simp]:
  "rview (gc_initialized_update fb g) = rview g"
  "rview (gc_engine_update fb g) = rview g"
  "rview (gc_revokes_local_update fn g) = rview g"
  "rview (gc_group_size_update fn g) = rview g"
  "rview (gc_group_uid_update fi g) = rview g"
  "rview (gc_num_local_entries_update fn g) = rview g"
  "rview (gc_n_local_ranks_update fn g) = rview g"
  "rview (gc_n_local_ranks_populated_update fn g) = rview g"
  "rview (gc_sp_ranks_update fn g) = rview g"
  "rview (gc_lookup_tables_populated_update fb g) = rview g"
  "rview (gc_ranks_update f0 g) = rview g"
  "rview (gc_hosts_hash_update f1 g) = rview g"
  "rview (gc_hosts_bitset_update f2 g) = rview g"
  "rview (gc_hosts_update f3 g) = rview g"
  "rview (gc_n_hosts_update f4 g) = rview g"
  "rview (gc_sps_hash_update f5 g) = rview g"
  "rview (gc_sps_bitset_update f6 g) = rview g"
  "rview (gc_sps_update f7 g) = rview g"
  "rview (gc_n_sps_update f8 g) = rview g"
  by (simp_all add: rview_def)

lemma alloc_sps_view [simp]: "rview (alloc_sps e g) = rview g"
  by (simp add: alloc_sps_def rview_def)

lemma init_group_view:
  "INIT_GROUP_CACHE n g = Inr g' \<Longrightarrow> rview g' = (0, None, gc_persistent g)"
  by (auto simp: INIT_GROUP_CACHE_def BASIC_INIT_GROUP_CACHE_def rview_def res_simps)

lemma add_group_shape:
  assumes "add_group k n e = Inr e'"
  shows "\<exists>g c p. rview g = (0, None, init_persistent p) \<and> e' = gp_put k g (e\<lparr>e_procs_cache := c\<rparr>)
           \<and> c_data c = c_data (e_procs_cache e)"
proof -
  obtain g c where g: "INIT_GROUP_CACHE n raw_group_cache = Inr g"
    and e': "e' = gp_put k ((alloc_sps e g)\<lparr>gc_engine := True, gc_group_uid := k,
           gc_persistent := init_persistent (gc_persistent g)\<rparr>) (e\<lparr>e_procs_cache := c\<rparr>)"
    and c: "c = (if c_size (e_procs_cache e) = 0
                 then (e_procs_cache e)\<lparr>c_size := Suc (c_size (e_procs_cache e)), c_world_group := k\<rparr>
                 else (e_procs_cache e)\<lparr>c_size := Suc (c_size (e_procs_cache e))\<rparr>)"
    using assms by (auto simp: add_group_def res_simps Let_def simp del: not_gr_zero)
  have "rview ((alloc_sps e g)\<lparr>gc_engine := True, gc_group_uid := k,
      gc_persistent := init_persistent (gc_persistent g)\<rparr>) = (0, None, init_persistent (gc_persistent g))"
    using init_group_view[OF g] by (simp add: rview_def alloc_sps_def)
  moreover have "c_data c = c_data (e_procs_cache e)"
    by (simp add: c)
  ultimately show ?thesis
    using e' by blast
qed

lemma get_rank_shape:
  assumes "GET_GROUP_RANK_CACHE_ENTRY k r n e = Inr (i, e')"
  shows "\<exists>e1 g g1. GET_GROUP_CACHE_INTERNAL k n e = Inr e1 \<and> gp_get k e1 = Inr g \<and> e' = gp_put k g1 e1
           \<and> (rview g1 = rview g \<or> (\<exists>rb. GROUP_CACHE_BITSET_CREATE (gc_revokes_ranks g) (nat n) = Inr rb
                 \<and> rview g1 = rview (g\<lparr>gc_revokes_ranks := rb\<rparr>)))"
proof -
  obtain e1 g where e1: "GET_GROUP_CACHE_INTERNAL k n e = Inr e1" "gp_get k e1 = Inr g"
    using assms by (auto simp: GET_GROUP_RANK_CACHE_ENTRY_def bindE_Inr_iff)
  show ?thesis
  proof (cases "gc_initialized g \<and> gc_group_size g = 0 \<and> 0 \<le> n")
    case True
    with assms e1 obtain sb hb rb where "GROUP_CACHE_BITSET_CREATE (gc_revokes_ranks g) (nat n) = Inr rb"
        "e' = gp_put k (g\<lparr>gc_group_size := nat n, gc_sps_bitset := sb, gc_hosts_bitset := hb,
                gc_revokes_ranks := rb\<rparr>) e1"
      by (auto simp: GET_GROUP_RANK_CACHE_ENTRY_def bindE_Inr_iff)
    with e1 show ?thesis
      by (auto simp: rview_def)
  next
    case False
    with assms e1 have "e' = gp_put k g e1"
      by (auto simp: GET_GROUP_RANK_CACHE_ENTRY_def bindE_Inr_iff)
    with e1 show ?thesis
      by blast
  qed
qed

lemma update_topology_sp_view:
  "update_topology_sp r s h e g = Inr (e', g') \<Longrightarrow>
     e_procs_cache e' = e_procs_cache e \<and> e_on_dpu e' = e_on_dpu e \<and> rview g' = rview g"
  by (auto simp: update_topology_sp_def res_simps rview_def put_sp_def ADD_GROUP_SP_HASH_ENTRY_def
      get_sp_obj_def Let_def split: option.splits list.splits)

lemma update_topology_host_view:
  "update_topology_host r s h e g = Inr (e', g') \<Longrightarrow>
     e_procs_cache e' = e_procs_cache e \<and> e_on_dpu e' = e_on_dpu e \<and> rview g' = rview g"
  by (auto simp: update_topology_host_def res_simps rview_def put_host_def ADD_GROUP_HOST_HASH_ENTRY_def
      get_host_obj_def Let_def split: option.splits list.splits if_splits)

lemma set_rank_entry_view: "set_rank_entry i pe g = Inr g' \<Longrightarrow> rview g' = rview g"
  by (auto simp: set_rank_entry_def res_simps rview_def)

lemma fill_view:
  "fill_sps e g = Inr g' \<Longrightarrow> rview g' = rview g"
  "fill_hosts e g = Inr g' \<Longrightarrow> rview g' = rview g"
  by (auto simp: fill_sps_def fill_hosts_def res_simps rview_def Let_def)

lemma bits_loop_invariant:
  assumes "bits_loop body bs n c i s = Inr t" "I s"
    and "\<And>c i s t. body c i s = Inr t \<Longrightarrow> I s \<Longrightarrow> I t"
  shows "I t"
  using assms
proof (induction body bs n c i s rule: bits_loop.induct)
  case (1 body bs n c i s)
  show ?case
  proof (cases "c < n")
    case True
    with 1(3) obtain b where b: "GROUP_CACHE_BITSET_TEST bs i = Inr b"
        "(if b then bindE (body c i s) (bits_loop body bs n (Suc c) (Suc i))
          else bits_loop body bs n c (Suc i) s) = Inr t"
      by (subst (asm) bits_loop.simps) (auto simp: bindE_Inr_iff)
    show ?thesis
    proof (cases b)
      case True
      with b(2) obtain s1 where "body c i s = Inr s1" "bits_loop body bs n (Suc c) (Suc i) s1 = Inr t"
        by (auto simp: bindE_Inr_iff)
      then show ?thesis
        using 1(1)[OF \<open>c < n\<close> b(1) True] 1(4,5) by blast
    next
      case False
      then show ?thesis
        using 1(2)[OF \<open>c < n\<close> b(1) False] 1(4,5) b(2) by simp
    qed
  next
    case False
    with 1(3,4) show ?thesis
      by (subst (asm) bits_loop.simps) simp
  qed
qed

lemma reuse_group_view:
  "reuse_group k n e g = Inr g' \<Longrightarrow> rview g' = rview g \<or> rview g' = (0, None, gc_persistent g)"
  by (cases "gc_group_uid g = INT_MAX")
     (auto simp: reuse_group_def Let_def bindE_Inr_iff assertE_iff dest!: init_group_view)

lemma internal_persistent:
  assumes "gp_get k e = Inr g" "GET_GROUP_CACHE_INTERNAL k n e = Inr e'"
  shows "\<exists>g'. gp_get k e' = Inr g' \<and> gc_persistent g' = gc_persistent g"
  using assms by (auto simp: GET_GROUP_CACHE_INTERNAL_def gp_get_def derefE_Inr_iff bindE_Inr_iff gp_put_def rview_def
      dest!: reuse_group_view)

lemma final_one_persistent:
  assumes "send_revoke_group_rank_request_through_list_ranks tr d k n e = Inr (rc, e')" "gp_get k e = Inr g"
  shows "\<exists>g'. gp_get k e' = Inr g' \<and> gc_persistent g' = gc_persistent g"
  using assms
  by (auto simp: send_revoke_group_rank_request_through_list_ranks_def GET_GROUP_CACHE_def emit_def bindE_Inr_iff
      split: if_splits dest!: internal_persistent[OF assms(2)])

section \<open>Steps of an SP\<close>

text \<open>An SP receives a notification or makes progress on a completed event, whatever the transport decides
  meanwhile.\<close>

inductive sp_step :: "offloading_engine_t \<Rightarrow> offloading_engine_t \<Rightarrow> bool" where
  notification: "handle_notification (ucx_transport f d n) ev e = Inr (rc, e') \<Longrightarrow> sp_step e e'"
| progress: "progress_event (ucx_transport f d n) c e = Inr e' \<Longrightarrow> sp_step e e'"

section \<open>Properties of the groups of an SP\<close>

locale group_invariant =
  fixes K :: "int set" and Q :: "int \<Rightarrow> group_cache_t \<Rightarrow> bool"
  assumes same_view: "rview g' = rview g \<Longrightarrow> Q k g \<Longrightarrow> Q k g'"
    and fresh: "k \<notin> K \<Longrightarrow> rview g = (0, None, init_persistent p) \<Longrightarrow> Q k g"
    and reset: "Q k g \<Longrightarrow> rview g' = (0, None, gc_persistent g) \<Longrightarrow> Q k g'"
    and create: "Q k g \<Longrightarrow> GROUP_CACHE_BITSET_CREATE (gc_revokes_ranks g) n = Inr bs \<Longrightarrow>
      Q k (g\<lparr>gc_revokes_ranks := bs\<rparr>)"
    and mark: "Q k g \<Longrightarrow> foldE (mark_rank m) xs (gc_revokes_ranks g, 0) = Inr (bs, c) \<Longrightarrow>
      Q k (g\<lparr>gc_revokes_ranks := bs, gc_revokes_global := gc_revokes_global g + c\<rparr>)"
    and mark_local: "Q k g \<Longrightarrow> GROUP_CACHE_BITSET_TEST (gc_revokes_ranks g) i = Inr False \<Longrightarrow>
      GROUP_CACHE_BITSET_SET (gc_revokes_ranks g) i = Inr bs \<Longrightarrow>
      Q k (g\<lparr>gc_revokes_ranks := bs, gc_revokes_global := Suc (gc_revokes_global g)\<rparr>)"
    and next_num: "Q k g \<Longrightarrow> Q k (gc_persistent_update (\<lambda>p. p\<lparr>p_num := Suc (p_num p)\<rparr>) g)"
    and post: "Q k g \<Longrightarrow> Suc (p_revoke_send_to_host_posted (gc_persistent g)) = p_num (gc_persistent g) \<Longrightarrow>
      Q k (gc_persistent_update (\<lambda>p. p\<lparr>p_revoke_send_to_host_posted := p_num p,
             p_final_posts := p_final_posts p @ [p_num p]\<rparr>) g)"
    and post_done: "Q k g \<Longrightarrow>
      Q k (gc_persistent_update (\<lambda>p. p\<lparr>p_revoke_sent_to_host := p_revoke_send_to_host_posted p\<rparr>) g)"
    and cache_sent: "Q k g \<Longrightarrow> Q k (gc_persistent_update (\<lambda>p. p\<lparr>p_sent_to_host := p_num p\<rparr>) g)"
    and queue_sps: "Q k g \<Longrightarrow>
      Q k (gc_persistent_update (\<lambda>p. p\<lparr>p_pending_group_revoke_msgs_from_sps := v p\<rparr>) g)"
    and queue_adds: "Q k g \<Longrightarrow> Q k (gc_persistent_update (\<lambda>p. p\<lparr>p_pending_group_add_msgs := w p\<rparr>) g)"
    and queue_entries: "Q k g \<Longrightarrow>
      Q k (gc_persistent_update (\<lambda>p. p\<lparr>p_pending_recv_cache_entries := x p\<rparr>) g)"
    and queue_ranks: "Q k g \<Longrightarrow>
      Q k (gc_persistent_update (\<lambda>p. p\<lparr>p_pending_group_revoke_msgs_from_ranks :=
             p_pending_group_revoke_msgs_from_ranks p @ ms\<rparr>) g)"
begin

definition inv :: "offloading_engine_t \<Rightarrow> bool" where
  "inv e = (e_on_dpu e \<and> K \<subseteq> dom (map_of (c_data (e_procs_cache e)))
            \<and> (\<forall>k g. map_of (c_data (e_procs_cache e)) k = Some g \<longrightarrow> Q k g))"

lemma inv_get: "gp_get k e = Inr g \<Longrightarrow> inv e \<Longrightarrow> Q k g"
  by (simp add: inv_def gp_get_def derefE_Inr_iff)

lemma inv_on_dpu: "inv e \<Longrightarrow> e_on_dpu e"
  by (simp add: inv_def)

lemma inv_put: "inv e \<Longrightarrow> Q k g \<Longrightarrow> inv (gp_put k g e)"
  by (auto simp: inv_def gp_put_def)

lemma inv_cong: "inv e \<Longrightarrow> e_procs_cache e' = e_procs_cache e \<Longrightarrow> e_on_dpu e' = e_on_dpu e \<Longrightarrow> inv e'"
  by (simp add: inv_def)

lemma inv_same [simp]:
  "inv (log_call c e) = inv e" "inv (log_calls cs e) = inv e" "inv (queue_event ce e) = inv e"
  by (simp_all add: inv_def)

lemma put_view: "inv e \<Longrightarrow> gp_get k e = Inr g \<Longrightarrow> rview g' = rview g \<Longrightarrow> inv (gp_put k g' e)"
  using same_view inv_get inv_put by blast

lemma Q_view: "rview g' = rview g \<Longrightarrow> Q k g' = Q k g"
  using same_view by metis

lemma Q_update [simp]:
  "Q k (gc_initialized_update fb g) = Q k g"
  "Q k (gc_engine_update fb g) = Q k g"
  "Q k (gc_revokes_local_update fn g) = Q k g"
  "Q k (gc_group_size_update fn g) = Q k g"
  "Q k (gc_group_uid_update fi g) = Q k g"
  "Q k (gc_num_local_entries_update fn g) = Q k g"
  "Q k (gc_n_local_ranks_update fn g) = Q k g"
  "Q k (gc_n_local_ranks_populated_update fn g) = Q k g"
  "Q k (gc_sp_ranks_update fn g) = Q k g"
  "Q k (gc_lookup_tables_populated_update fb g) = Q k g"
  "Q k (gc_ranks_update f0 g) = Q k g"
  "Q k (gc_hosts_hash_update f1 g) = Q k g"
  "Q k (gc_hosts_bitset_update f2 g) = Q k g"
  "Q k (gc_hosts_update f3 g) = Q k g"
  "Q k (gc_n_hosts_update f4 g) = Q k g"
  "Q k (gc_sps_hash_update f5 g) = Q k g"
  "Q k (gc_sps_bitset_update f6 g) = Q k g"
  "Q k (gc_sps_update f7 g) = Q k g"
  "Q k (gc_n_sps_update f8 g) = Q k g"
  by (rule Q_view, simp)+

lemma get_wp [wp]: "inv e \<Longrightarrow> (\<And>g. gp_get k e = Inr g \<Longrightarrow> Q k g \<Longrightarrow> P g) \<Longrightarrow> holdsE P (gp_get k e)"
  by (auto simp: holdsE_iff intro: inv_get)

lemma upd_wp [wp]:
  "inv e \<Longrightarrow> (\<And>g. Q k g \<Longrightarrow> Q k (f g)) \<Longrightarrow> (\<And>e'. inv e' \<Longrightarrow> P e') \<Longrightarrow> holdsE P (gp_upd k f e)"
  unfolding gp_upd_def by (intro wp) (auto intro: inv_put)

lemma internal_inv: "inv e \<Longrightarrow> holdsE inv (GET_GROUP_CACHE_INTERNAL k n e)"
proof (cases "map_of (c_data (e_procs_cache e)) k")
  case None
  assume inv: "inv e"
  with None have k: "k \<notin> K"
    by (auto simp: inv_def)
  have "inv e'" if "add_group k n e = Inr e'" for e'
  proof -
    from add_group_shape[OF that] obtain g c p where g: "rview g = (0, None, init_persistent p)"
        "e' = gp_put k g (e\<lparr>e_procs_cache := c\<rparr>)" "c_data c = c_data (e_procs_cache e)"
      by blast
    have "inv (e\<lparr>e_procs_cache := c\<rparr>)"
      using inv g(3) by (simp add: inv_def)
    with fresh[OF k g(1)] show ?thesis
      unfolding g(2) by (intro inv_put)
  qed
  then show ?thesis
    by (simp add: GET_GROUP_CACHE_INTERNAL_def None holdsE_iff)
next
  case (Some g)
  assume inv: "inv e"
  with Some have q: "Q k g"
    by (simp add: inv_def)
  have "Q k g'" if "reuse_group k n e g = Inr g'" for g'
    using reuse_group_view[OF that] same_view[OF _ q] reset[OF q] by blast
  then show ?thesis
    using inv by (simp add: GET_GROUP_CACHE_INTERNAL_def Some holdsE_iff bindE_Inr_iff) (blast intro: inv_put)
qed

lemma internal_wp [wp]: "inv e \<Longrightarrow> (\<And>e'. inv e' \<Longrightarrow> P e') \<Longrightarrow> holdsE P (GET_GROUP_CACHE_INTERNAL k n e)"
  by (rule holdsE_mono[OF internal_inv])

lemma group_wp [wp]: "inv e \<Longrightarrow> (\<And>e'. inv e' \<Longrightarrow> P e') \<Longrightarrow> holdsE P (GET_GROUP_CACHE k e)"
  unfolding GET_GROUP_CACHE_def by (rule internal_wp)

lemma get_rank_inv: "inv e \<Longrightarrow> holdsE (\<lambda>(i, e'). inv e') (GET_GROUP_RANK_CACHE_ENTRY k r n e)"
  unfolding holdsE_iff
proof safe
  fix i e' assume inv: "inv e" and get: "GET_GROUP_RANK_CACHE_ENTRY k r n e = Inr (i, e')"
  from get_rank_shape[OF get] obtain e1 g g1 where e1: "GET_GROUP_CACHE_INTERNAL k n e = Inr e1"
      "gp_get k e1 = Inr g" "e' = gp_put k g1 e1"
    and g1: "rview g1 = rview g \<or> (\<exists>rb. GROUP_CACHE_BITSET_CREATE (gc_revokes_ranks g) (nat n) = Inr rb
                 \<and> rview g1 = rview (g\<lparr>gc_revokes_ranks := rb\<rparr>))"
    by blast
  have i1: "inv e1"
    using internal_inv[OF inv, of k n] e1(1) by (simp add: holdsE_iff)
  have "Q k g1"
    using g1 inv_get[OF e1(2) i1] create same_view by blast
  then show "inv e'"
    unfolding e1(3) by (rule inv_put[OF i1])
qed

lemma get_rank_wp [wp]:
  "inv e \<Longrightarrow> (\<And>i e'. inv e' \<Longrightarrow> P (i, e')) \<Longrightarrow> holdsE P (GET_GROUP_RANK_CACHE_ENTRY k r n e)"
  by (rule holdsE_mono[OF get_rank_inv]) auto

lemma rank_entry_wp [wp]: "(\<And>pe. P pe) \<Longrightarrow> holdsE P (rank_entry k i e)"
  by (simp add: holdsE_iff)

lemma server_wp [wp]: "(\<And>i. P i) \<Longrightarrow> holdsE P (get_server_servicing_host e)"
  by (simp add: holdsE_iff)

lemma is_in_cache_wp [wp]:
  "inv e \<Longrightarrow> (\<And>b e'. inv e' \<Longrightarrow> P (b, e')) \<Longrightarrow> holdsE P (is_in_cache k r n e)"
  unfolding is_in_cache_def by (intro wp) auto

lemma populated_wp [wp]:
  "inv e \<Longrightarrow> (\<And>b e'. inv e' \<Longrightarrow> P (b, e')) \<Longrightarrow> holdsE P (group_cache_populated k e)"
  unfolding group_cache_populated_def by (intro wp) auto

lemma set_rank_entry_wp [wp]:
  "Q k g \<Longrightarrow> (\<And>g'. rview g' = rview g \<Longrightarrow> P g') \<Longrightarrow> holdsE P (set_rank_entry i pe g)"
  by (auto simp: holdsE_iff dest: set_rank_entry_view)

lemma topology_inv: "inv e \<Longrightarrow> holdsE inv (update_topology_data k r s h e)"
  unfolding holdsE_iff
proof safe
  fix e' assume inv: "inv e" and up: "update_topology_data k r s h e = Inr e'"
  from up obtain g e1 g1 e2 g2 where u: "gp_get k e = Inr g"
      "update_topology_sp r s h e g = Inr (e1, g1)" "update_topology_host r s h e1 g1 = Inr (e2, g2)"
      "e' = gp_put k g2 e2"
    by (auto simp: update_topology_data_def res_simps)
  have "rview g2 = rview g" "e_procs_cache e2 = e_procs_cache e" "e_on_dpu e2 = e_on_dpu e"
    using update_topology_sp_view[OF u(2)] update_topology_host_view[OF u(3)] by auto
  then show "inv e'"
    unfolding u(4) using inv_get[OF u(1) inv] inv
    by (intro inv_put inv_cong[OF inv]) (auto intro: same_view)
qed

lemma topology_wp [wp]: "inv e \<Longrightarrow> (\<And>e'. inv e' \<Longrightarrow> P e') \<Longrightarrow> holdsE P (update_topology_data k r s h e)"
  by (rule holdsE_mono[OF topology_inv])

text \<open>Tables.\<close>

lemma bits_loop_wp:
  assumes "I s" "\<And>c i s. I s \<Longrightarrow> holdsE I (body c i s)" "\<And>t. I t \<Longrightarrow> P t"
  shows "holdsE P (bits_loop body bs n c i s)"
  using bits_loop_invariant[of body bs n c i s _ I] assms by (auto simp: holdsE_iff)

lemma populate_sp_ranks_inv: "inv e \<Longrightarrow> holdsE inv (populate_sp_ranks k s e)"
  unfolding populate_sp_ranks_def GET_GROUP_SP_HASH_ENTRY_def
  by (intro wp bits_loop_wp[where I = "\<lambda>(ranks, e). inv e"]; assumption?)
     (auto intro!: wp simp: put_sp_def intro: Q_view[THEN iffD2] simp: rview_def)

lemma populate_host_sps_inv: "inv e \<Longrightarrow> holdsE inv (populate_host_sps k h e)"
  unfolding populate_host_sps_def GET_GROUP_SP_HASH_ENTRY_def GET_GROUP_HOST_HASH_ENTRY_def
  by (intro wp bits_loop_wp[where I = "\<lambda>(sps, g). Q k g"]; assumption?)
     (auto intro!: wp inv_put simp: put_sp_def put_host_def intro: Q_view[THEN iffD2] simp: rview_def)

lemma fill_wp [wp]:
  "Q k g \<Longrightarrow> (\<And>g'. Q k g' \<Longrightarrow> P g') \<Longrightarrow> holdsE P (fill_sps e g)"
  "Q k g \<Longrightarrow> (\<And>g'. Q k g' \<Longrightarrow> P g') \<Longrightarrow> holdsE P (fill_hosts e g)"
  by (auto simp: holdsE_iff dest: fill_view intro: same_view)

lemma do_populate_wp [wp]:
  "inv e \<Longrightarrow> (\<And>e'. inv e' \<Longrightarrow> P e') \<Longrightarrow> holdsE P (do_populate_group_cache_lookup_table k e)"
  unfolding do_populate_group_cache_lookup_table_def
  by (intro wp holdsE_foldE[where I = inv] populate_sp_ranks_inv populate_host_sps_inv; assumption?)
     (auto intro: inv_put)

lemma populate_table_wp [wp]:
  "inv e \<Longrightarrow> (\<And>e'. inv e' \<Longrightarrow> P e') \<Longrightarrow> holdsE P (populate_group_cache_lookup_table k e)"
  unfolding populate_group_cache_lookup_table_def by (intro wp) auto

text \<open>Sequences of calls with a status.\<close>

definition keeps :: "outcome \<Rightarrow> bool" where
  "keeps m = holdsE (\<lambda>(rc, e'). inv e') m"

lemma keeps_wp: "keeps m \<Longrightarrow> (\<And>rc e'. inv e' \<Longrightarrow> P (rc, e')) \<Longrightarrow> holdsE P m"
  unfolding keeps_def by (erule holdsE_mono) auto

lemma check_rc_wp [wp]:
  assumes "holdsE (\<lambda>(rc, e). P (DO_ERROR, e) \<and> holdsE P (f e)) m"
  shows "holdsE P (check_rc m f)"
  using assms by (cases m) (auto simp: check_rc_def holdsE_def)

lemma for_rc_inv:
  assumes "inv e" "\<And>x e. x \<in> set xs \<Longrightarrow> inv e \<Longrightarrow> keeps (f x e)"
  shows "keeps (for_rc f xs e)"
  using assms
proof (induction xs arbitrary: e)
  case (Cons x xs)
  then show ?case
    unfolding keeps_def for_rc.simps check_rc_def
    by (intro wp holdsE_mono[OF Cons.prems(2)[unfolded keeps_def, of x e]]) auto
qed (simp add: keeps_def holdsE_def)

lemma for_rc_wp [wp]:
  "inv e \<Longrightarrow> (\<And>x e. x \<in> set xs \<Longrightarrow> inv e \<Longrightarrow> holdsE (\<lambda>(rc, e'). inv e') (f x e)) \<Longrightarrow>
    (\<And>rc e'. inv e' \<Longrightarrow> P (rc, e')) \<Longrightarrow> holdsE P (for_rc f xs e)"
  by (rule keeps_wp[OF for_rc_inv]) (simp_all add: keeps_def)

lemma emit_wp [wp]: "inv e \<Longrightarrow> (\<And>rc e'. inv e' \<Longrightarrow> P (rc, e')) \<Longrightarrow> holdsE P (emit tr c e)"
  unfolding emit_def by (intro wp) auto

text \<open>A transport whose completion checks keep the invariant.\<close>

definition settles :: "transport \<Rightarrow> bool" where
  "settles tr = (\<forall>c e. inv e \<longrightarrow> holdsE inv (tr_settle tr c e))"

lemma settles_async: "settles async_transport"
  by (simp add: settles_def async_transport_def holdsE_def)

lemma settle_wp [wp]:
  "settles tr \<Longrightarrow> inv e \<Longrightarrow> (\<And>rc e'. inv e' \<Longrightarrow> P (rc, e')) \<Longrightarrow> holdsE P (settle tr c e)"
  unfolding settle_def settles_def by (auto simp: holdsE_iff bindE_Inr_iff)

text \<open>Sends.\<close>

lemma send_group_cache_wp [wp]:
  "inv e \<Longrightarrow> (\<And>rc e'. inv e' \<Longrightarrow> P (rc, e')) \<Longrightarrow> holdsE P (send_group_cache tr d k e)"
  unfolding send_group_cache_def
  by (intro wp holdsE_foldE[where I = inv]; assumption?) auto

lemma send_to_host_wp [wp]:
  "settles tr \<Longrightarrow> inv e \<Longrightarrow> (\<And>rc e'. inv e' \<Longrightarrow> P (rc, e')) \<Longrightarrow> holdsE P (send_gp_cache_to_host tr k e)"
  unfolding send_gp_cache_to_host_def
  by (intro wp; assumption?) (auto intro!: wp)

lemma find_range_wp [wp]:
  "inv e \<Longrightarrow> (\<And>r e'. inv e' \<Longrightarrow> P (r, e')) \<Longrightarrow> holdsE P (find_range_local_ranks k n i t c e)"
  unfolding find_range_local_ranks_def by (intro wp; assumption?) (auto simp: holdsE_iff bindE_Inr_iff)

lemma send_ranges_inv: "inv e \<Longrightarrow> holdsE (\<lambda>(rc, e'). inv e') (send_ranges tr sp d k fuel c i e)"
proof (induction fuel arbitrary: c i e)
  case 0
  then show ?case
    by (auto intro!: wp)
next
  case (Suc fuel)
  show ?case
    unfolding send_ranges.simps
    by (intro wp; (rule Suc.prems)?) (auto simp: Suc.prems intro!: wp Suc.IH)
qed

lemma send_local_wp [wp]:
  "inv e \<Longrightarrow> (\<And>rc e'. inv e' \<Longrightarrow> P (rc, e')) \<Longrightarrow> holdsE P (send_local_rank_group_cache tr sp d k e)"
  unfolding send_local_rank_group_cache_def
  by (intro wp; assumption?) (auto intro: holdsE_mono[OF send_ranges_inv])

lemma remote_sps_wp [wp]:
  "settles tr \<Longrightarrow> inv e \<Longrightarrow> (\<And>sp d e. inv e \<Longrightarrow> holdsE (\<lambda>(rc, e'). inv e') (send sp d e)) \<Longrightarrow>
    (\<And>rc e'. inv e' \<Longrightarrow> P (rc, e')) \<Longrightarrow> holdsE P (for_each_remote_sp tr send e)"
  unfolding for_each_remote_sp_def Let_def
  by (intro wp; assumption?) (auto intro!: wp intro: holdsE_mono[of "\<lambda>(rc, e'). inv e'"])

lemma broadcast_wp [wp]:
  "settles tr \<Longrightarrow> inv e \<Longrightarrow> (\<And>rc e'. inv e' \<Longrightarrow> P (rc, e')) \<Longrightarrow> holdsE P (broadcast_group_cache tr k e)"
  unfolding broadcast_group_cache_def
  by (intro wp; assumption?) (auto intro!: wp)

lemma send_chunks_inv: "inv e \<Longrightarrow> holdsE (\<lambda>(rc, e'). inv e') (send_revoke_chunks tr sp d g s r e)"
proof (induction tr sp d g s r e rule: send_revoke_chunks.induct)
  case (1 tr sp d g s r e)
  have chunk: "holdsE P (revoke_chunk g s n)" if "\<And>m. revoke_chunk g s n = Inr m \<Longrightarrow> P m" for P n
    using that by (simp add: holdsE_iff)
  from 1 show ?case
    by (subst send_revoke_chunks.simps) (auto simp: Let_def intro!: wp chunk)
qed

lemma send_revokes_wp [wp]:
  "inv e \<Longrightarrow> (\<And>rc e'. inv e' \<Longrightarrow> P (rc, e')) \<Longrightarrow>
    holdsE P (send_local_revoke_rank_group_cache tr sp d k e)"
  unfolding send_local_revoke_rank_group_cache_def
  by (intro wp; assumption?) (auto intro: holdsE_mono[OF send_chunks_inv])

lemma broadcast_revoke_wp [wp]:
  "settles tr \<Longrightarrow> inv e \<Longrightarrow> (\<And>rc e'. inv e' \<Longrightarrow> P (rc, e')) \<Longrightarrow>
    holdsE P (broadcast_group_cache_revoke tr k e)"
  unfolding broadcast_group_cache_revoke_def by (intro wp; assumption?) (auto intro!: wp)

text \<open>Cache entries.\<close>

lemma pers_wp [wp]:
  "inv e \<Longrightarrow> (\<And>g. Q k g \<Longrightarrow> Q k (gc_persistent_update f g)) \<Longrightarrow> (\<And>e'. inv e' \<Longrightarrow> P e') \<Longrightarrow>
    holdsE P (pers_upd k f e)"
  unfolding pers_upd_def by (rule upd_wp)

lemma is_ready_wp [wp]: "(\<And>b. P b) \<Longrightarrow> holdsE P (is_group_ready g n)"
  by (simp add: holdsE_iff)

lemma copy_wp [wp]: "(\<And>d'. P d') \<Longrightarrow> holdsE P (COPY_PEER_DATA s d)"
  by (simp add: holdsE_iff)

lemma joined_wp [wp]: "(\<And>d'. P d') \<Longrightarrow> holdsE P (joined_entry ri c my cl pe)"
  by (simp add: holdsE_iff)

lemma append_shadow_inv: "inv e \<Longrightarrow> holdsE inv (append_shadow k p entry n e)"
  unfolding append_shadow_def by (intro wp; assumption?) (auto intro: inv_put same_view)

lemma log_fold_inv: "inv e \<Longrightarrow> (\<And>x e. inv e \<Longrightarrow> inv (f e x)) \<Longrightarrow> inv (foldl f e xs)"
  by (induction xs arbitrary: e) auto

lemma complete_events_inv: "inv e \<Longrightarrow> holdsE inv (complete_entry_events k p e)"
  unfolding complete_entry_events_def
  by (intro wp log_fold_inv; assumption?) (auto intro: inv_put same_view)

lemma add_peer_entry_wp [wp]:
  "inv e \<Longrightarrow> (\<And>e'. inv e' \<Longrightarrow> P e') \<Longrightarrow> holdsE P (add_peer_entry k n entry e)"
  unfolding add_peer_entry_def Let_def
  by (intro wp holdsE_foldE[where I = inv] append_shadow_inv holdsE_mono[OF complete_events_inv]; assumption?)
     (auto intro!: inv_put intro: same_view next_num)

lemma recv_entries_inv: "inv e \<Longrightarrow> holdsE (\<lambda>(rc, m, e'). inv e') (recv_entries k n entries m e)"
proof (induction entries arbitrary: k n m e)
  case Nil
  then show ?case
    by (simp add: holdsE_def)
next
  case (Cons entry entries)
  show ?case
    unfolding recv_entries.simps Let_def
    by (intro wp; (rule Cons.prems)?) (auto simp: Cons.prems intro!: wp Cons.IH)
qed

lemma entries_recv_wp [wp]:
  "settles tr \<Longrightarrow> inv e \<Longrightarrow> (\<And>rc e'. inv e' \<Longrightarrow> P (rc, e')) \<Longrightarrow>
    holdsE P (handle_peer_cache_entries_recv tr sp entries e)"
  unfolding handle_peer_cache_entries_recv_def Let_def
  by (intro wp holdsE_mono[OF recv_entries_inv]; assumption?) (auto intro!: wp)

lemma pending_entries_wp [wp]:
  "settles tr \<Longrightarrow> inv e \<Longrightarrow> (\<And>rc e'. inv e' \<Longrightarrow> P (rc, e')) \<Longrightarrow>
    holdsE P (HANDLE_PENDING_CACHE_ENTRIES tr k e)"
  unfolding HANDLE_PENDING_CACHE_ENTRIES_def
  by (intro wp; assumption?) (auto intro!: queue_entries)

lemma entries_cb_wp [wp]:
  "settles tr \<Longrightarrow> inv e \<Longrightarrow> (\<And>rc e'. inv e' \<Longrightarrow> P (rc, e')) \<Longrightarrow>
    holdsE P (peer_cache_entries_recv_cb tr sp entries e)"
  unfolding peer_cache_entries_recv_cb_def Let_def
  by (intro wp; assumption?) (auto intro!: wp queue_entries)

lemma reset_entries_inv: "inv e \<Longrightarrow> holdsE inv (reset_entries n c e)"
  unfolding reset_entries_def
  by (intro wp holdsE_foldE[where I = inv] log_fold_inv; assumption?) auto

lemma reset_group_wp [wp]:
  assumes "Q k g" "inv e" "\<And>g' e'. Q k g' \<Longrightarrow> inv e' \<Longrightarrow> P (g', e')"
  shows "holdsE P (RESET_GROUP_CACHE g e)"
proof -
  have q: "Q k (BASIC_INIT_GROUP_CACHE (g\<lparr>gc_sps := None, gc_hosts := None, gc_ranks := None,
      gc_revokes_ranks := GROUP_CACHE_BITSET_DESTROY (gc_revokes_ranks g)\<rparr>))"
    by (rule reset[OF assms(1)]) (simp add: rview_def BASIC_INIT_GROUP_CACHE_def GROUP_CACHE_BITSET_DESTROY_def)
  have "inv (e\<lparr>e_free_sp_cache_hash_obj := a, e_free_host_cache_hash_obj := b\<rparr>)" for a b
    by (rule inv_cong[OF assms(2)]) simp_all
  then show ?thesis
    unfolding RESET_GROUP_CACHE_def GROUP_CACHE_HASHES_FINI_def Let_def
    by (intro wp) (auto intro: assms(3)[OF q])
qed

lemma reset_wp [wp]:
  "inv e \<Longrightarrow> (\<And>e'. inv e' \<Longrightarrow> P e') \<Longrightarrow> holdsE P (revoke_group_cache_reset k e)"
  unfolding revoke_group_cache_reset_def Let_def
  by (intro wp holdsE_mono[OF reset_entries_inv]; assumption?) (auto simp: inv_put)

lemma revoke_group_wp [wp]:
  "settles tr \<Longrightarrow> inv e \<Longrightarrow> (\<And>rc e'. inv e' \<Longrightarrow> P (rc, e')) \<Longrightarrow> holdsE P (revoke_group_cache tr k e)"
  unfolding revoke_group_cache_def by (intro wp)

text \<open>Ranks that join.\<close>

lemma connecting_wp [wp]: "(\<And>n. P n) \<Longrightarrow> holdsE P (get_num_connecting_ranks a b c)"
  by (simp add: holdsE_iff)

lemma exchange_wp [wp]:
  "settles tr \<Longrightarrow> inv e \<Longrightarrow> (\<And>e'. inv e' \<Longrightarrow> P e') \<Longrightarrow> holdsE P (GROUP_CACHE_EXCHANGE tr k n e)"
  unfolding GROUP_CACHE_EXCHANGE_def Let_def by (intro wp; assumption?) auto

lemma on_sp_wp [wp]:
  "inv e \<Longrightarrow> (\<And>b e'. inv e' \<Longrightarrow> P (b, e')) \<Longrightarrow> holdsE P (rank_is_on_sp w e)"
  unfolding rank_is_on_sp_def MIMOSA_GET_RANK_FROM_GROUP_CACHE_def Let_def by (intro wp; assumption?)

lemma count_wp [wp]:
  "inv e \<Longrightarrow> (\<And>n e'. inv e' \<Longrightarrow> P (n, e')) \<Longrightarrow> holdsE P (count_sp_ranks k ws e)"
  unfolding count_sp_ranks_def
  by (intro wp holdsE_foldE[where I = "\<lambda>(n, e). inv e"]) (auto intro!: wp)

lemma add_group_rank_wp [wp]:
  "inv e \<Longrightarrow> (\<And>e'. inv e' \<Longrightarrow> P e') \<Longrightarrow> holdsE P (add_group_rank ri c ws e)"
  unfolding add_group_rank_def Let_def
  by (intro wp; assumption?) (auto intro!: inv_put intro: same_view next_num)

lemma do_add_wp [wp]:
  "settles tr \<Longrightarrow> inv e \<Longrightarrow> (\<And>rc e'. inv e' \<Longrightarrow> P (rc, e')) \<Longrightarrow>
    holdsE P (do_add_group_rank_recv_cb tr c ri ws e)"
  unfolding do_add_group_rank_recv_cb_def QUEUE_PENDING_GROUP_ADD_MSG_def Let_def
  by (intro wp; assumption?) (auto intro!: wp queue_adds)

lemma pending_adds_wp [wp]:
  "settles tr \<Longrightarrow> inv e \<Longrightarrow> (\<And>rc e'. inv e' \<Longrightarrow> P (rc, e')) \<Longrightarrow>
    holdsE P (handle_pending_group_cache_add_msgs tr k e)"
  unfolding handle_pending_group_cache_add_msgs_def
  by (intro wp; assumption?) (auto intro!: queue_adds)

lemma add_cb_wp [wp]:
  "settles tr \<Longrightarrow> inv e \<Longrightarrow> (\<And>rc e'. inv e' \<Longrightarrow> P (rc, e')) \<Longrightarrow>
    holdsE P (add_group_rank_recv_cb tr c ri ws e)"
  unfolding add_group_rank_recv_cb_def by (intro wp)

text \<open>Revokes.\<close>

lemma send_final_one_wp [wp]:
  "inv e \<Longrightarrow> (\<And>rc e'. inv e' \<Longrightarrow> P (rc, e')) \<Longrightarrow>
    holdsE P (send_revoke_group_rank_request_through_list_ranks tr d k n e)"
  unfolding send_revoke_group_rank_request_through_list_ranks_def by (intro wp) auto

text \<open>The counters of the group do not change while its final revoke is sent.\<close>

definition at_post :: "int \<Rightarrow> group_persistent_t \<Rightarrow> offloading_engine_t \<Rightarrow> bool" where
  "at_post k p e = (inv e \<and> (\<exists>g. gp_get k e = Inr g \<and> gc_persistent g = p))"

lemma final_one_at: "at_post k p e \<Longrightarrow>
    holdsE (\<lambda>(rc, e'). at_post k p e') (send_revoke_group_rank_request_through_list_ranks tr d k n e)"
proof -
  assume at: "at_post k p e"
  then have "holdsE (\<lambda>(rc, e'). inv e') (send_revoke_group_rank_request_through_list_ranks tr d k n e)"
    unfolding at_post_def by (auto intro!: wp)
  with at show ?thesis
    by (auto simp: holdsE_iff at_post_def dest: final_one_persistent)
qed

lemma final_loop_at: "at_post k p e \<Longrightarrow>
    holdsE (\<lambda>(rc, e'). at_post k p e') (for_rc (\<lambda>idx e'. bindE (nthE (e_clients e') idx) (\<lambda>c.
      bindE (assertE (pi_group_uid c \<noteq> INT_MAX)) (\<lambda>_.
      send_revoke_group_rank_request_through_list_ranks tr (pi_id c) k n e'))) xs e)"
proof (induction xs arbitrary: e)
  case (Cons x xs)
  have "at_post k p e'" if "send_revoke_group_rank_request_through_list_ranks tr d k n e = Inr (rc, e')" for d rc e'
    using final_one_at[OF Cons.prems, of tr d n] that by (simp add: holdsE_iff)
  with Cons.IH show ?case
    by (fastforce simp: check_rc_def holdsE_iff bindE_Inr_iff split: if_splits)
qed (simp add: holdsE_def)

lemma send_final_wp [wp]:
  "settles tr \<Longrightarrow> inv e \<Longrightarrow> (\<And>rc e'. inv e' \<Longrightarrow> P (rc, e')) \<Longrightarrow>
    holdsE P (send_revoke_group_to_ranks tr k n e)"
  unfolding send_revoke_group_to_ranks_def
  by (intro wp holdsE_mono[OF final_loop_at]; assumption?) (auto simp: at_post_def pers_upd_def gp_upd_def intro!: wp inv_put post)

lemma final_cb_wp [wp]:
  "settles tr \<Longrightarrow> inv e \<Longrightarrow> (\<And>e'. inv e' \<Longrightarrow> P e') \<Longrightarrow> holdsE P (revoke_send_to_host_cb tr k e)"
  unfolding revoke_send_to_host_cb_def by (intro wp; assumption?) (auto intro!: wp post_done)

lemma create_wp [wp]:
  "(\<And>b. GROUP_CACHE_BITSET_CREATE bs n = Inr b \<Longrightarrow> P b) \<Longrightarrow> holdsE P (GROUP_CACHE_BITSET_CREATE bs n)"
  by (simp add: holdsE_iff)

lemma mark_wp [wp]:
  "(\<And>bs c. foldE (mark_rank m) xs s = Inr (bs, c) \<Longrightarrow> P (bs, c)) \<Longrightarrow> holdsE P (foldE (mark_rank m) xs s)"
  by (simp add: holdsE_iff)

lemma mark_pending:
  assumes "Q k g" "inv e" "foldE (mark_rank m) xs (bs, 0) = Inr (bs1, c)"
    and "gc_revokes_ranks g = bs \<or> GROUP_CACHE_BITSET_CREATE (gc_revokes_ranks g) l = Inr bs"
  shows "inv (gp_put k (gc_persistent_update (\<lambda>p. p\<lparr>p_pending_group_revoke_msgs_from_sps := v p\<rparr>) g
           \<lparr>gc_revokes_ranks := bs1, gc_revokes_global := gc_revokes_global g + c\<rparr>) e)"
proof -
  let ?h = "gc_persistent_update (\<lambda>p. p\<lparr>p_pending_group_revoke_msgs_from_sps := v p\<rparr>) g"
  have q: "Q k ?h"
    by (rule queue_sps[OF assms(1)])
  then have "Q k (?h\<lparr>gc_revokes_ranks := bs\<rparr>)"
    using assms(4) create[OF q] by auto
  from mark[OF this, of m xs bs1 c] assms(2,3) show ?thesis
    by (simp add: inv_put)
qed

lemma pending_sps_wp [wp]:
  assumes "inv e" "\<And>n e'. inv e' \<Longrightarrow> P (n, e')"
  shows "holdsE P (HANDLE_PENDING_GROUP_REVOKE_MSGS_FROM_SPS k e)"
  unfolding HANDLE_PENDING_GROUP_REVOKE_MSGS_FROM_SPS_def Let_def
  by (intro wp holdsE_foldE[where I = "\<lambda>(n, e). inv e"] assms(1))
     (auto simp: assms(1) intro!: wp assms(2) intro: mark_pending)

lemma cache_sent_wp [wp]:
  "settles tr \<Longrightarrow> inv e \<Longrightarrow> (\<And>e'. inv e' \<Longrightarrow> P e') \<Longrightarrow>
    holdsE P (group_cache_send_to_local_ranks_cb tr k e)"
  unfolding group_cache_send_to_local_ranks_cb_def by (intro wp; assumption?) (auto intro!: wp cache_sent)

lemma mark_asserted_wp [wp]:
  assumes "\<And>bs c. foldE (mark_rank m) xs s = Inr (bs, c) \<Longrightarrow> P (bs, c)"
  shows "holdsE P (foldE (\<lambda>r s. bindE (assertE (a r)) (\<lambda>_. mark_rank m r s)) xs s)"
proof -
  have "foldE (mark_rank m) xs s = Inr t"
    if "foldE (\<lambda>r s. bindE (assertE (a r)) (\<lambda>_. mark_rank m r s)) xs s = Inr t" for t
    using that by (induction xs arbitrary: s) (auto simp: bindE_Inr_iff assertE_iff)
  with assms show ?thesis
    by (force simp: holdsE_iff)
qed

lemma revoke_on_sp_wp:
  assumes "settles tr" "inv e" "Q (rs_gp_uid m) g"
  shows "holdsE (\<lambda>(rc, e'). inv e') (handle_revoke_on_sp tr m e g)"
  unfolding handle_revoke_on_sp_def Let_def
  using assms by (auto intro!: wp inv_put mark create queue_sps)

lemma revoke_from_sp_wp [wp]:
  "settles tr \<Longrightarrow> inv e \<Longrightarrow> (\<And>rc e'. inv e' \<Longrightarrow> P (rc, e')) \<Longrightarrow>
    holdsE P (revoke_group_from_sp_recv_cb tr m e)"
  unfolding revoke_group_from_sp_recv_cb_def handle_revoke_group_rank_through_list_ranks_def Let_def
  by (intro wp holdsE_mono[OF revoke_on_sp_wp]; assumption?) (auto intro: inv_put dest: inv_on_dpu)

lemma mark_local_wp [wp]:
  assumes "Q k g" "GROUP_CACHE_BITSET_TEST (gc_revokes_ranks g) (nat (ri_group_rank ri)) = Inr False"
    and "\<And>g'. Q k g' \<Longrightarrow> P g'"
  shows "holdsE P (mark_local_revoke ri g)"
proof -
  have "Q k (g\<lparr>gc_revokes_ranks := bs, gc_revokes_local := Suc (gc_revokes_local g),
      gc_revokes_global := Suc (gc_revokes_global g)\<rparr>)"
    if "GROUP_CACHE_BITSET_SET (gc_revokes_ranks g) (nat (ri_group_rank ri)) = Inr bs" for bs
    using mark_local[OF assms(1,2) that] by (rule same_view[rotated]) (simp add: rview_def)
  then show ?thesis
    unfolding mark_local_revoke_def Let_def
    by (auto simp: holdsE_iff bindE_Inr_iff intro: assms(3))
qed

lemma notify_wp [wp]:
  "settles tr \<Longrightarrow> inv e \<Longrightarrow> (\<And>rc e'. inv e' \<Longrightarrow> P (rc, e')) \<Longrightarrow> holdsE P (notify_sps_of_revoke tr k e)"
  unfolding notify_sps_of_revoke_def by (intro wp; assumption?) (auto intro!: wp)

lemma post_final_wp [wp]:
  "settles tr \<Longrightarrow> inv e \<Longrightarrow> (\<And>rc e'. inv e' \<Longrightarrow> P (rc, e')) \<Longrightarrow> holdsE P (post_final_revoke tr k e)"
  unfolding post_final_revoke_def by (intro wp; assumption?)

lemma test_wp [wp]:
  "(\<And>t. GROUP_CACHE_BITSET_TEST bs i = Inr t \<Longrightarrow> P t) \<Longrightarrow> holdsE P (GROUP_CACHE_BITSET_TEST bs i)"
  by (simp add: holdsE_iff)

lemma revoke_from_rank_wp [wp]:
  "settles tr \<Longrightarrow> inv e \<Longrightarrow> (\<And>rc e'. inv e' \<Longrightarrow> P (rc, e')) \<Longrightarrow>
    holdsE P (revoke_group_from_rank_recv_cb tr ri e)"
  unfolding revoke_group_from_rank_recv_cb_def handle_revoke_group_rank_through_rank_info_def Let_def
  by (intro wp; assumption?) (auto intro!: wp inv_put queue_ranks)

text \<open>Completions.\<close>

lemma completion_wp [wp]:
  "settles tr \<Longrightarrow> inv e \<Longrightarrow> (\<And>e'. inv e' \<Longrightarrow> P e') \<Longrightarrow> holdsE P (completion_cb tr c e)"
  unfolding completion_cb_def by (cases c) (auto intro!: wp)

lemma settles_ucx: "settles (ucx_transport f d n)"
proof (induction n)
  case 0
  then show ?case
    by (simp add: settles_def ucx_transport_def holdsE_iff)
next
  case (Suc n)
  then show ?case
    unfolding ucx_transport_def
    by (subst settles_def) (auto intro!: wp simp: holdsE_Inr)
qed

lemma progress_wp [wp]:
  "settles tr \<Longrightarrow> inv e \<Longrightarrow> (\<And>e'. inv e' \<Longrightarrow> P e') \<Longrightarrow> holdsE P (progress_event tr c e)"
  unfolding progress_event_def by (intro wp) (auto intro: inv_cong)

lemma notification_wp [wp]:
  "settles tr \<Longrightarrow> inv e \<Longrightarrow> (\<And>rc e'. inv e' \<Longrightarrow> P (rc, e')) \<Longrightarrow> holdsE P (handle_notification tr ev e)"
  unfolding handle_notification_def by (cases ev) (auto intro!: wp)

lemma step_inv: "sp_step e e' \<Longrightarrow> inv e \<Longrightarrow> inv e'"
proof (induction rule: sp_step.induct)
  case (notification f d n ev e rc e')
  have "holdsE (\<lambda>(rc, e'). inv e') (handle_notification (ucx_transport f d n) ev e)"
    by (rule notification_wp[OF settles_ucx notification(2)]) simp
  with notification(1) show ?case
    by (simp add: holdsE_iff)
next
  case (progress f d n c e e')
  have "holdsE inv (progress_event (ucx_transport f d n) c e)"
    by (rule progress_wp[OF settles_ucx progress(2)])
  with progress(1) show ?case
    by (simp add: holdsE_iff)
qed

lemma steps_inv: "sp_step\<^sup>*\<^sup>* e e' \<Longrightarrow> inv e \<Longrightarrow> inv e'"
  by (induction rule: rtranclp_induct) (auto intro: step_inv)

end

section \<open>The revoke bookkeeping\<close>

definition revoke_counted :: "group_cache_t \<Rightarrow> bool" where
  "revoke_counted g =
     (gc_revokes_global g = card (bs_elems (gc_revokes_ranks g))
      \<and> p_revoke_sent_to_host (gc_persistent g) \<le> p_revoke_send_to_host_posted (gc_persistent g)
      \<and> p_revoke_send_to_host_posted (gc_persistent g) \<le> p_num (gc_persistent g)
      \<and> p_final_posts (gc_persistent g) = [1..<Suc (p_revoke_send_to_host_posted (gc_persistent g))]
      \<and> p_sent_to_host (gc_persistent g) \<le> p_num (gc_persistent g))"

lemma test_capacity: "GROUP_CACHE_BITSET_TEST bs i = Inr t \<Longrightarrow> i < bs_capacity bs \<and> t = (i \<in> bs_elems bs)"
  using bs_test[of i bs] bs_test_out[of bs i] by (cases "i < bs_capacity bs") auto

lemma bs_elems_finite [simp]: "finite (bs_elems bs)"
  by (rule finite_subset[of _ "{..<bs_capacity bs}"]) (auto dest: bs_elems_capacity)

lemma create_elems: "GROUP_CACHE_BITSET_CREATE bs n = Inr bs' \<Longrightarrow> bs_elems bs' = bs_elems bs"
  by (cases bs) (auto simp: GROUP_CACHE_BITSET_CREATE_def bs_elems_def[of "Some _"] bs_has_Some bindE_Inr_iff)

lemma mark_rank_card:
  "mark_rank m r (bs, n) = Inr (bs', n') \<Longrightarrow> n' + card (bs_elems bs) = n + card (bs_elems bs')"
  by (auto simp: mark_rank_def bindE_Inr_iff split: if_splits dest!: test_capacity dest: bs_set)

lemma marks_card:
  assumes "foldE (mark_rank m) xs (bs, n) = Inr (bs', n')"
  shows "n' + card (bs_elems bs) = n + card (bs_elems bs')"
proof -
  have "snd t + card (bs_elems bs) = n + card (bs_elems (fst t))" if "foldE (mark_rank m) xs (bs, n) = Inr t" for t
    by (rule foldE_invariant[OF that, of "\<lambda>t. snd t + card (bs_elems bs) = n + card (bs_elems (fst t))"])
       (auto dest: mark_rank_card)
  from this[OF assms] show ?thesis
    by simp
qed

interpretation counted: group_invariant "{}" "\<lambda>k. revoke_counted"
  by unfold_locales
     (auto simp: revoke_counted_def rview_def init_persistent_def create_elems
       dest: marks_card dest!: test_capacity bs_set)

text \<open>An SP that serves a host with two ranks, before it knows any group, and the events of the life of a group
  of two ranks.\<close>

definition start_engine :: offloading_engine_t where
  "start_engine = (demo_engine 0)
     \<lparr>e_num_service_procs := 1, e_num_connected_service_procs := 0,
      e_service_procs := [\<lparr>sp_global_id = 0, sp_client_id = 0, sp_econtext = Some CONTEXT_CLIENT\<rparr>],
      e_num_connected_clients := 2,
      e_clients := [\<lparr>pi_id = 0, pi_addr_len = 0, pi_addr = [], pi_group_uid = 7\<rparr>,
                    \<lparr>pi_id = 1, pi_addr_len = 0, pi_addr = [], pi_group_uid = 7\<rparr>],
      e_procs_cache := \<lparr>c_size = 0, c_world_group = 0, c_data = []\<rparr>\<rparr>"

definition demo_rank :: "int \<Rightarrow> rank_info_t" where
  "demo_rank r = \<lparr>ri_group_uid = 7, ri_group_rank = r, ri_group_size = 2, ri_n_local_ranks = 2,
     ri_local_rank = r, ri_host_info = 100, ri_group_seq_num = 1\<rparr>"

abbreviation now_transport :: transport where
  "now_transport \<equiv> ucx_transport (\<lambda>_ _. True) (\<lambda>_ _. True) 3"

definition demo_run :: "sp_event list \<Rightarrow> offloading_engine_t \<Rightarrow> outcome" where
  "demo_run = for_rc (handle_notification now_transport)"

lemma demo_run_steps: "demo_run evs e = Inr (DO_SUCCESS, e') \<Longrightarrow> sp_step\<^sup>*\<^sup>* e e'"
proof (induction evs arbitrary: e)
  case (Cons ev evs)
  then obtain e1 where "handle_notification now_transport ev e = Inr (DO_SUCCESS, e1)"
      "demo_run evs e1 = Inr (DO_SUCCESS, e')"
    by (auto simp: demo_run_def check_rc_def bindE_Inr_iff split: if_splits)
  with Cons.IH show ?case
    by (blast intro: sp_step.notification converse_rtranclp_into_rtranclp)
qed (simp add: demo_run_def)

text \<open>The group after a run from the first engine, if it ends well.\<close>

definition group_after :: "sp_event list \<Rightarrow> group_cache_t option" where
  "group_after evs =
     (case demo_run evs start_engine of
        Inr (rc, e) \<Rightarrow> (if rc = DO_SUCCESS then map_of (c_data (e_procs_cache e)) 7 else None)
      | Inl _ \<Rightarrow> None)"

lemma group_after_run:
  assumes "group_after evs = Some g"
  shows "\<exists>e. demo_run evs start_engine = Inr (DO_SUCCESS, e) \<and> gp_get 7 e = Inr g"
proof (cases "demo_run evs start_engine")
  case (Inr b)
  with assms show ?thesis
    by (cases b) (auto simp: group_after_def gp_get_def split: if_splits)
qed (use assms in \<open>simp add: group_after_def\<close>)

lemma start_engine_facts: "e_on_dpu start_engine" "c_data (e_procs_cache start_engine) = []"
  by (simp_all add: start_engine_def demo_engine_def)

text \<open>C12: Whatever notifications an SP receives, in whatever order, and whatever the transport decides on
  posts and completions, as long as no assertion of the code fails, in every group of its cache the number of
  revokes is the number of ranks marked as revoked; the final revoke was posted exactly once for each of the first
  incarnations of the group, in order, up to the one the group records as posted, which is not beyond the current
  incarnation; it was not acknowledged for an incarnation for which it was not posted; and the cache was not sent
  to the host for a future incarnation of the group.\<close>

theorem revoke_count_invariant:
  assumes "sp_step\<^sup>*\<^sup>* e0 e" "e_on_dpu e0" "c_data (e_procs_cache e0) = []"
    and "gp_get k e = Inr g"
  shows "gc_revokes_global g = card (bs_elems (gc_revokes_ranks g))
      \<and> p_revoke_sent_to_host (gc_persistent g) \<le> p_revoke_send_to_host_posted (gc_persistent g)
      \<and> p_final_posts (gc_persistent g) = [1..<Suc (p_revoke_send_to_host_posted (gc_persistent g))]
      \<and> p_revoke_send_to_host_posted (gc_persistent g) \<le> p_num (gc_persistent g)
      \<and> p_sent_to_host (gc_persistent g) \<le> p_num (gc_persistent g)"
proof -
  have "counted.inv e0"
    using assms(2,3) by (simp add: counted.inv_def)
  from counted.inv_get[OF assms(4) counted.steps_inv[OF assms(1) this]] show ?thesis
    by (simp add: revoke_counted_def)
qed

theorem revoke_count_invariant_witness:
  "(\<exists>g. group_after [Add_gp_rank 0 (demo_rank 0) [0, 1], Add_gp_rank 1 (demo_rank 1) [0, 1],
                    Revoke_gp_rank (demo_rank 1)] = Some g
     \<and> gc_revokes_global g = 1 \<and> card (bs_elems (gc_revokes_ranks g)) = 1)
   \<and> (\<exists>g. group_after [Add_gp_rank 0 (demo_rank 0) [0, 1], Add_gp_rank 1 (demo_rank 1) [0, 1],
                    Revoke_gp_rank (demo_rank 1), Revoke_gp_rank (demo_rank 0)] = Some g
     \<and> p_revoke_send_to_host_posted (gc_persistent g) = 1 \<and> p_final_posts (gc_persistent g) = [1])"
proof -
  let ?evs = "[Add_gp_rank 0 (demo_rank 0) [0, 1], Add_gp_rank 1 (demo_rank 1) [0, 1],
               Revoke_gp_rank (demo_rank 1)]"
  note inv = revoke_count_invariant[OF demo_run_steps start_engine_facts]
  have "map_option gc_revokes_global (group_after ?evs) = Some 1"
    "map_option (\<lambda>g. p_revoke_send_to_host_posted (gc_persistent g)) (group_after (?evs @ [Revoke_gp_rank (demo_rank 0)])) = Some 1"
    by code_simp+
  then obtain g g' where g: "group_after ?evs = Some g" "gc_revokes_global g = 1"
      "group_after (?evs @ [Revoke_gp_rank (demo_rank 0)]) = Some g'" "p_revoke_send_to_host_posted (gc_persistent g') = 1"
    by auto
  from group_after_run[OF g(1)] group_after_run[OF g(3)] obtain e e' where
    "demo_run ?evs start_engine = Inr (DO_SUCCESS, e)" "gp_get 7 e = Inr g"
    "demo_run (?evs @ [Revoke_gp_rank (demo_rank 0)]) start_engine = Inr (DO_SUCCESS, e')" "gp_get 7 e' = Inr g'"
    by blast
  then have "card (bs_elems (gc_revokes_ranks g)) = 1" "p_final_posts (gc_persistent g') = [1]"
    using inv g(2,4) by (auto simp: numeral_2_eq_2)
  with g show ?thesis
    by auto
qed

section \<open>Revokes that are queued\<close>

interpretation queued: group_invariant "{k0}"
  "\<lambda>k g. k = k0 \<longrightarrow> msg \<in> set (p_pending_group_revoke_msgs_from_ranks (gc_persistent g))" for k0 msg
  by unfold_locales (auto simp: rview_def)

text \<open>C25: A revoke of a rank that was queued because the cache of the group was not complete stays queued:
  no notification and no completion ever takes it off the list.\<close>

theorem queued_rank_revoke_never_handled:
  assumes "sp_step\<^sup>*\<^sup>* e e'" "e_on_dpu e" "gp_get k e = Inr g"
    and "msg \<in> set (p_pending_group_revoke_msgs_from_ranks (gc_persistent g))"
  shows "\<exists>g'. gp_get k e' = Inr g' \<and> msg \<in> set (p_pending_group_revoke_msgs_from_ranks (gc_persistent g'))"
proof -
  have "queued.inv k msg e"
    using assms(2-4) by (auto simp: queued.inv_def gp_get_def derefE_Inr_iff)
  from queued.steps_inv[OF assms(1) this] show ?thesis
    by (auto simp: queued.inv_def gp_get_def)
qed

theorem queued_rank_revoke_never_handled_witness:
  "\<exists>g. group_after [Add_gp_rank 0 (demo_rank 0) [0, 1], Revoke_gp_rank (demo_rank 0),
                    Add_gp_rank 1 (demo_rank 1) [0, 1]] = Some g
     \<and> \<lparr>rr_rank_info = demo_rank 0\<rparr> \<in> set (p_pending_group_revoke_msgs_from_ranks (gc_persistent g))"
proof -
  let ?evs = "[Add_gp_rank 0 (demo_rank 0) [0, 1], Revoke_gp_rank (demo_rank 0)]"
  let ?ev = "Add_gp_rank 1 (demo_rank 1) [0, 1]"
  have "map_option (\<lambda>g. p_pending_group_revoke_msgs_from_ranks (gc_persistent g)) (group_after ?evs)
      = Some [\<lparr>rr_rank_info = demo_rank 0\<rparr>]"
    "map_option gc_num_local_entries (group_after (?evs @ [?ev])) = Some 2"
    by code_simp+
  then obtain g g' where g: "group_after ?evs = Some g" "group_after (?evs @ [?ev]) = Some g'"
      "p_pending_group_revoke_msgs_from_ranks (gc_persistent g) = [\<lparr>rr_rank_info = demo_rank 0\<rparr>]"
    by auto
  from group_after_run[OF g(1)] group_after_run[OF g(2)] obtain e e' where
    e: "demo_run ?evs start_engine = Inr (DO_SUCCESS, e)" "gp_get 7 e = Inr g"
      "demo_run (?evs @ [?ev]) start_engine = Inr (DO_SUCCESS, e')" "gp_get 7 e' = Inr g'"
    by blast
  have "demo_run [?ev] e = Inr (DO_SUCCESS, e')"
    using e(1,3) by (auto simp: demo_run_def check_rc_def bindE_Inr_iff split: if_splits)
  from queued_rank_revoke_never_handled[OF demo_run_steps[OF this] _ e(2)] demo_run_steps[OF e(1)]
  show ?thesis
    using counted.steps_inv[OF demo_run_steps[OF e(1)]] start_engine_facts g e(4)
    by (auto simp: counted.inv_def)
qed

end
