(* ===== verification/Group_Exchange.thy ===== *)
theory Group_Exchange
imports Group_Revoke
begin

text \<open>
  Which ranks an SP serves and what it tells the other SPs about them
  (\<open>src/src/dpu_offload_utils.c\<close>): the number of ranks that connect to an SP agrees with the SP every rank
  chooses, and the broadcast of a group cache carries exactly the entries of the local ranks.
\<close>

section \<open>Ranks of an SP\<close>

text \<open>The SP of its DPU a rank connects to (\<open>get_local_service_proc_connect_info\<close>); the rank is converted
  to an unsigned number.\<close>

definition service_proc_local_id :: "nat \<Rightarrow> int \<Rightarrow> nat res" where
  "service_proc_local_id num_service_procs_per_dpu local_rank =
     bindE (assertE (num_service_procs_per_dpu \<noteq> UINT64_MAX)) (\<lambda>_.
     bindE (assertE (0 < num_service_procs_per_dpu)) (\<lambda>_.
     Inr (if local_rank \<noteq> INVALID_RANK
          then nat (local_rank mod 2 ^ 64) mod num_service_procs_per_dpu else 0)))"

lemma service_proc_local_id_rank:
  "0 < n \<Longrightarrow> n < UINT64_MAX \<Longrightarrow> r < UINT64_MAX \<Longrightarrow> service_proc_local_id n (int r) = Inr (r mod n)"
  by (simp add: service_proc_local_id_def INVALID_RANK_def UINT64_MAX_def)

lemma residues_Suc:
  "{r. r < Suc l \<and> r mod n = s} = (if l mod n = s then insert l {r. r < l \<and> r mod n = s} else {r. r < l \<and> r mod n = s})"
  by (auto simp: less_Suc_eq)

lemma residues_card:
  assumes "s < (n::nat)"
  shows "card {r. r < l \<and> r mod n = s} = l div n + (if s < l mod n then 1 else 0)"
proof (induction l)
  case 0
  then show ?case by simp
next
  case (Suc l)
  have "card {r. r < Suc l \<and> r mod n = s} = card {r. r < l \<and> r mod n = s} + (if l mod n = s then 1 else 0)"
    by (simp add: residues_Suc)
  also have "\<dots> = Suc l div n + (if s < Suc l mod n then 1 else 0)"
    using Suc.IH assms by (auto simp: mod_Suc div_Suc)
  finally show ?case .
qed

text \<open>C24: The number of ranks an SP waits for before it broadcasts a group is the number of local ranks that
  connect to it, for every SP of the DPU, and all local ranks are counted exactly once.\<close>

theorem connecting_ranks_agree:
  assumes "0 < n" "n < UINT64_MAX" "l < UINT64_MAX"
  shows "(\<forall>lid < n. get_num_connecting_ranks n l lid
           = Inr (card {r. r < l \<and> service_proc_local_id n (int r) = Inr lid}))
    \<and> (\<exists>cs. length cs = n \<and> (\<forall>lid < n. get_num_connecting_ranks n l lid = Inr (cs ! lid)) \<and> sum_list cs = l)"
proof (intro conjI)
  have set: "{r. r < l \<and> service_proc_local_id n (int r) = Inr lid} = {r. r < l \<and> r mod n = lid}" for lid
    using assms by (auto simp: service_proc_local_id_rank)
  have num: "get_num_connecting_ranks n l lid = Inr (card {r. r < l \<and> r mod n = lid})" if "lid < n" for lid
    using assms that by (simp add: get_num_connecting_ranks_def residues_card minus_mult_div_eq_mod)
  then show "\<forall>lid < n. get_num_connecting_ranks n l lid
      = Inr (card {r. r < l \<and> service_proc_local_id n (int r) = Inr lid})"
    unfolding set by blast
  let ?cs = "map (\<lambda>lid. card {r. r < l \<and> r mod n = lid}) [0..<n]"
  have "(\<Union>lid \<in> {..<n}. {r. r < l \<and> r mod n = lid}) = {..<l}"
    using assms(1) by auto
  moreover have "card (\<Union>lid \<in> {..<n}. {r. r < l \<and> r mod n = lid}) = (\<Sum>lid<n. card {r. r < l \<and> r mod n = lid})"
    by (intro card_UN_disjoint) auto
  ultimately have "sum_list ?cs = l"
    by (simp add: interv_sum_list_conv_sum_set_nat atLeast0LessThan)
  with num show "\<exists>cs. length cs = n \<and> (\<forall>lid < n. get_num_connecting_ranks n l lid = Inr (cs ! lid)) \<and> sum_list cs = l"
    by (intro exI[of _ ?cs]) simp
qed

theorem connecting_ranks_agree_witness:
  "\<exists>cs. length cs = 3 \<and> (\<forall>lid < 3. get_num_connecting_ranks 3 8 lid = Inr (cs ! lid)) \<and> sum_list cs = 8"
  by (rule connecting_ranks_agree[THEN conjunct2]) (simp_all add: UINT64_MAX_def)

section \<open>Broadcasting the local ranks\<close>

text \<open>The entries of the ranks whose first SP is the local one.\<close>

definition local_entry :: "nat \<Rightarrow> peer_cache_entry_t \<Rightarrow> bool" where
  "local_entry my_sp pe = (pe_set pe \<and> pe_shadow_service_procs pe ! 0 = my_sp)"

text \<open>Entries that are set belong to a rank and have an SP.\<close>

definition entries_wf :: "peer_cache_entry_t list \<Rightarrow> bool" where
  "entries_wf rs = (\<forall>pe \<in> set rs. pe_set pe \<longrightarrow>
     pe_shadow_service_procs pe \<noteq> [] \<and> ri_group_rank (pd_proc_info (pe_peer pe)) \<noteq> INVALID_RANK)"

definition local_idxs :: "peer_cache_entry_t list \<Rightarrow> nat \<Rightarrow> nat \<Rightarrow> nat list" where
  "local_idxs rs my_sp i = filter (\<lambda>j. local_entry my_sp (rs ! j)) [i..<length rs]"

lemma local_idxs_rec:
  "i < length rs \<Longrightarrow> local_idxs rs my_sp i
     = (if local_entry my_sp (rs ! i) then i # local_idxs rs my_sp (Suc i) else local_idxs rs my_sp (Suc i))"
  by (simp add: local_idxs_def upt_conv_Cons)

lemma local_idxs_in:
  assumes "local_idxs rs my_sp i = j # js"
  shows "i < length rs" "j < length rs"
proof -
  have "j \<in> set (local_idxs rs my_sp i)"
    by (simp add: assms)
  then show "i < length rs" "j < length rs"
    by (auto simp: local_idxs_def)
qed

text \<open>Once a local entry was found, the search stops at the next entry that is set.\<close>

lemma find_range_rest:
  assumes "entries_wf rs" "s < idx" "local_idxs rs my_sp idx \<noteq> []" "cur + 1 \<noteq> tot"
  shows "\<exists>k. find_range_loop rs my_sp tot cur idx (Some s) 1 = Inr (Some s, 1, k)
           \<and> local_idxs rs my_sp k = local_idxs rs my_sp idx"
  using assms
proof (induction "length rs - idx" arbitrary: idx)
  case 0
  then show ?case
    by (simp add: local_idxs_def)
next
  case (Suc n)
  then have i: "idx < length rs"
    by simp
  show ?case
  proof (cases "pe_set (rs ! idx)")
    case True
    with Suc.prems(1) i have "pe_shadow_service_procs (rs ! idx) \<noteq> []"
        "ri_group_rank (pd_proc_info (pe_peer (rs ! idx))) \<noteq> INVALID_RANK"
      by (auto simp: entries_wf_def)
    then have "find_range_loop rs my_sp tot cur idx (Some s) 1 = Inr (Some s, 1, idx)"
      using True i Suc.prems(2,4) by (subst find_range_loop.simps) auto
    then show ?thesis
      by blast
  next
    case False
    have l: "local_idxs rs my_sp idx = local_idxs rs my_sp (Suc idx)"
      using False i by (simp add: local_idxs_rec local_entry_def)
    have "find_range_loop rs my_sp tot cur idx (Some s) 1 = find_range_loop rs my_sp tot cur (Suc idx) (Some s) 1"
      using False i Suc.prems(4) by (subst find_range_loop.simps) simp
    with Suc.hyps(1)[of "Suc idx"] Suc.hyps(2) Suc.prems l show ?thesis
      by auto
  qed
qed

text \<open>Every range consists of one entry.\<close>

lemma find_range_one:
  assumes "entries_wf rs" "local_idxs rs my_sp idx = j # js" "tot = cur + length (j # js)"
  shows "\<exists>k. find_range_loop rs my_sp tot cur idx None 0 = Inr (Some j, 1, k) \<and> local_idxs rs my_sp k = js"
  using assms
proof (induction "length rs - idx" arbitrary: idx)
  case 0
  then show ?case
    by (simp add: local_idxs_def)
next
  case (Suc n)
  then have i: "idx < length rs"
    by simp
  show ?case
  proof (cases "local_entry my_sp (rs ! idx)")
    case True
    then have js: "j = idx" "js = local_idxs rs my_sp (Suc idx)" "pe_set (rs ! idx)"
        "pe_shadow_service_procs (rs ! idx) ! 0 = my_sp"
      using Suc.prems(2) i by (auto simp: local_idxs_rec local_entry_def)
    then have "pe_shadow_service_procs (rs ! idx) \<noteq> []"
      using Suc.prems(1) i by (auto simp: entries_wf_def)
    then have step: "find_range_loop rs my_sp tot cur idx None 0 = find_range_loop rs my_sp tot cur (Suc idx) (Some idx) 1"
      using js i by (subst find_range_loop.simps) simp
    show ?thesis
    proof (cases "js = []")
      case True
      then have "find_range_loop rs my_sp tot cur (Suc idx) (Some idx) 1 = Inr (Some idx, 1, Suc idx)"
        using Suc.prems(3) by (subst find_range_loop.simps) simp
      with step js True show ?thesis
        by auto
    next
      case False
      then have "cur + 1 \<noteq> tot"
        using Suc.prems(3) by auto
      from find_range_rest[OF Suc.prems(1) lessI _ this, of my_sp] False js(2) step js(1) show ?thesis
        by auto
    qed
  next
    case False
    then have l: "local_idxs rs my_sp (Suc idx) = j # js"
      using Suc.prems(2) i by (simp add: local_idxs_rec)
    have "find_range_loop rs my_sp tot cur idx None 0 = find_range_loop rs my_sp tot cur (Suc idx) None 0"
    proof (cases "pe_set (rs ! idx)")
      case True
      then have "pe_shadow_service_procs (rs ! idx) \<noteq> []" "pe_shadow_service_procs (rs ! idx) ! 0 \<noteq> my_sp"
        using False Suc.prems(1) i by (auto simp: entries_wf_def local_entry_def)
      with True i show ?thesis
        by (subst find_range_loop.simps) simp
    qed (use i in \<open>subst find_range_loop.simps, simp\<close>)
    with Suc.hyps(1)[of "Suc idx"] Suc.hyps(2) Suc.prems l show ?thesis
      by auto
  qed
qed

text \<open>A group whose bookkeeping of the local ranks agrees with its entries.\<close>

definition locals_counted :: "group_cache_t \<Rightarrow> nat \<Rightarrow> bool" where
  "locals_counted g my_sp =
     (entries_wf (the (gc_ranks g)) \<and> gc_n_local_ranks_populated g = length (local_idxs (the (gc_ranks g)) my_sp 0))"

lemma send_ranges_spec:
  assumes "group_ready uid g e" "locals_counted g (cfg_local_sp_global_id (e_config e))"
    and "my_sp = cfg_local_sp_global_id (e_config e)" "rs = the (gc_ranks g)"
    and "count + length (local_idxs rs my_sp idx) = gc_n_local_ranks_populated g"
    and "length (local_idxs rs my_sp idx) \<le> fuel"
  shows "send_ranges async_transport sp d uid fuel count idx (log_calls cs e)
         = Inr (DO_SUCCESS, log_calls (cs @ map (\<lambda>i. Emit_entries (To_sp sp d) [rs ! i]) (local_idxs rs my_sp idx)) e)"
  using assms(5,6)
proof (induction fuel arbitrary: count idx cs)
  case 0
  with ready_get(3)[OF ready_log[OF assms(1), of cs]] show ?case
    by simp
next
  case (Suc fuel)
  note rd = ready_log[OF assms(1), of cs]
  have rs: "gc_ranks g = Some rs" "length rs = gc_group_size g"
    using assms(1,4) by (auto simp: group_ready_def)
  show ?case
  proof (cases "local_idxs rs my_sp idx")
    case Nil
    then show ?thesis
      using ready_get(3)[OF rd] Suc.prems(1) by simp
  next
    case (Cons j js)
    have i: "idx < length rs" "j < length rs"
      using local_idxs_in[OF Cons] .
    obtain k where k: "find_range_loop rs my_sp (gc_n_local_ranks_populated g) count idx None 0 = Inr (Some j, 1, k)"
        "local_idxs rs my_sp k = js"
      using find_range_one[of rs my_sp idx j js "gc_n_local_ranks_populated g" count] Cons Suc.prems(1) assms(2-4)
      by (auto simp: locals_counted_def)
    have "find_range_local_ranks uid (int (gc_group_size g)) idx (gc_n_local_ranks_populated g) count (log_calls cs e)
        = Inr ((Some j, 1, k), log_calls cs e)"
      using ready_rank[OF rd, of idx] ready_get(3)[OF rd] i rs k assms(3)
      by (simp add: find_range_local_ranks_def)
    moreover have "take 1 (drop j rs) = [rs ! j]"
      using i by (simp add: take_Suc_conv_app_nth hd_drop_conv_nth take_Suc)
    ultimately have "send_ranges async_transport sp d uid (Suc fuel) count idx (log_calls cs e)
        = send_ranges async_transport sp d uid fuel (count + 1) k
            (log_calls (cs @ [Emit_entries (To_sp sp d) [rs ! j]]) e)"
      using ready_get(3)[OF rd] Suc.prems(1) Cons rs i by simp
    with Suc.IH[of "count + 1" k] k(2) Suc.prems Cons show ?thesis
      by simp
  qed
qed

text \<open>C23: Broadcasting a group cache to another SP ends, does not fail and sends exactly the entries of the
  ranks the local SP serves, in the order of the ranks and one entry per message.\<close>

theorem local_ranks_broadcast:
  assumes "group_ready uid g e" "gc_initialized g" "locals_counted g (cfg_local_sp_global_id (e_config e))"
  shows "send_local_rank_group_cache async_transport sp d uid e
         = Inr (DO_SUCCESS, log_calls (map (\<lambda>pe. Emit_entries (To_sp sp d) [pe])
                  (filter (local_entry (cfg_local_sp_global_id (e_config e))) (the (gc_ranks g)))) e)"
proof -
  let ?rs = "the (gc_ranks g)" and ?my = "cfg_local_sp_global_id (e_config e)"
  have "filter (local_entry ?my) ?rs = filter (local_entry ?my) (map ((!) ?rs) [0..<length ?rs])"
    by (simp add: map_nth)
  then have f: "filter (local_entry ?my) ?rs = map ((!) ?rs) (local_idxs ?rs ?my 0)"
    by (simp add: local_idxs_def filter_map o_def)
  have "0 < gc_group_size g"
    using assms(1) by (simp add: group_ready_def)
  with send_ranges_spec[OF assms(1,3) refl refl, of 0 0 "gc_n_local_ranks_populated g" sp d "[]"] assms
  show ?thesis
    by (simp add: send_local_rank_group_cache_def ready_get[OF assms(1)] f locals_counted_def o_def)
qed

text \<open>A group of four ranks that two SPs serve in turn.\<close>

definition shared_entry :: "nat \<Rightarrow> peer_cache_entry_t" where
  "shared_entry i = (INIT_PEER_CACHE_ENTRY raw_peer_cache_entry)
     \<lparr>pe_set := True, pe_shadow_service_procs := [i mod 2],
      pe_peer := (pe_peer raw_peer_cache_entry)\<lparr>pd_proc_info :=
        (pd_proc_info (pe_peer raw_peer_cache_entry))\<lparr>ri_group_rank := int i\<rparr>\<rparr>\<rparr>"

definition shared_group :: group_cache_t where
  "shared_group = (demo_group 4)\<lparr>gc_ranks := Some (map shared_entry [0..<4]), gc_n_local_ranks_populated := 2\<rparr>"

definition shared_engine :: offloading_engine_t where
  "shared_engine = gp_put 7 shared_group (demo_engine 4)"

theorem local_ranks_broadcast_witness:
  "send_local_rank_group_cache async_transport 1 1 7 shared_engine
     = Inr (DO_SUCCESS, log_calls [Emit_entries (To_sp 1 1) [shared_entry 0],
                                   Emit_entries (To_sp 1 1) [shared_entry 2]] shared_engine)"
proof -
  have ready: "group_ready 7 shared_group shared_engine"
    using demo_ready[of 4] by (simp add: group_ready_def shared_engine_def) (simp add: shared_group_def demo_group_fresh)
  have ranks: "the (gc_ranks shared_group) = [shared_entry 0, shared_entry 1, shared_entry 2, shared_entry 3]"
    by (simp add: shared_group_def upt_rec numeral_2_eq_2 numeral_3_eq_3)
  have my: "cfg_local_sp_global_id (e_config shared_engine) = 0"
    by (simp add: shared_engine_def demo_engine_def)
  have ent: "pe_set (shared_entry i)" "pe_shadow_service_procs (shared_entry i) = [i mod 2]"
      "ri_group_rank (pd_proc_info (pe_peer (shared_entry i))) = int i" for i
    by (simp_all add: shared_entry_def)
  have "locals_counted shared_group 0"
    unfolding locals_counted_def ranks
    by (simp add: entries_wf_def local_idxs_def local_entry_def ent INVALID_RANK_def upt_rec shared_group_def)
  moreover have "gc_initialized shared_group"
    by (simp add: shared_group_def demo_group_def)
  ultimately show ?thesis
    using local_ranks_broadcast[OF ready, of 1 1] by (simp add: my ranks local_entry_def ent)
qed

end
