(* ===== verification/Event_System.thy ===== *)
theory Event_System
imports Dyn_Structs Mimosa_Types
begin

text \<open>
  The event system of an execution context (\<open>src/src/dpu_offload_event_channels.c\<close>,
  \<open>src/include/dpu_offload_event_channels.h\<close>, \<open>src/src/dpu_offload_comms.h\<close>), in the variant built on
  UCX active messages: events taken from and returned to a pool, emitted, queued on the list of ongoing
  events of the context or as sub-events of a meta-event, and progressed.  Events live in the pool of
  \<open>Dyn_Structs\<close>; a pointer to an event is its element of the pool.

  What is not code of the repository is the record \<open>ev_env\<close>: what UCX answers to a send, what the completion
  callbacks of the users do and what a notification to oneself leads to.
\<close>

section \<open>Events\<close>

record am_header_t =
  hdr_id :: nat
  hdr_type :: nat
  hdr_payload_size :: nat
  hdr_event_id :: nat
  hdr_client_id :: nat
  hdr_server_id :: nat
  hdr_scope_id :: execution_scope_t
  hdr_sender_type :: econtext_type

text \<open>Of the functions of a notification's memory pool it matters whether they are set.\<close>

record notification_info_t =
  ni_get_buf :: bool
  ni_return_buf :: bool
  ni_mem_pool :: "nat option"
  ni_element_size :: nat

datatype ucx_request = No_request | Request | Error_request

text \<open>\<open>ctx\<close> is the header, the completion flag and the callback, named by a number for the callback and its
  context; \<open>event_system\<close> is set or NULL.\<close>

record dpu_offload_event_t =
  ev_seq_num :: nat
  ev_hdr :: am_header_t
  ev_complete :: bool
  ev_completion_cb :: "nat option"
  ev_scope_id :: execution_scope_t
  ev_client_id :: nat
  ev_server_id :: nat
  ev_sub_events :: "ptr list"
  ev_sub_events_initialized :: bool
  ev_is_subevent :: bool
  ev_is_ongoing_event :: bool
  ev_was_posted :: bool
  ev_req :: ucx_request
  ev_explicit_return :: bool
  ev_manage_payload_buf :: bool
  ev_payload :: "nat option"
  ev_dest_ep :: "nat option"
  ev_dest_id :: nat
  ev_event_system :: bool
  ev_info :: notification_info_t

definition META_EVENT_TYPE :: nat where "META_EVENT_TYPE = 32"

abbreviation EVENT_HDR_TYPE :: "dpu_offload_event_t \<Rightarrow> nat" where
  "EVENT_HDR_TYPE ev \<equiv> hdr_type (ev_hdr ev)"

definition RESET_NOTIF_INFO :: "notification_info_t \<Rightarrow> notification_info_t" where
  "RESET_NOTIF_INFO i = \<lparr>ni_get_buf = False, ni_return_buf = False, ni_mem_pool = None, ni_element_size = 0\<rparr>"

definition RESET_AM_HDR :: "am_header_t \<Rightarrow> am_header_t" where
  "RESET_AM_HDR h = h\<lparr>hdr_id := 0, hdr_type := 0, hdr_payload_size := 0, hdr_scope_id := SCOPE_UNKNOWN,
     hdr_sender_type := CONTEXT_UNKOWN\<rparr>"

definition RESET_EVENT :: "dpu_offload_event_t \<Rightarrow> dpu_offload_event_t" where
  "RESET_EVENT ev =
     ev\<lparr>ev_payload := None, ev_event_system := False, ev_req := No_request,
        ev_hdr := (RESET_AM_HDR (ev_hdr ev))\<lparr>hdr_type := UINT64_MAX, hdr_id := UINT64_MAX, hdr_payload_size := 0\<rparr>,
        ev_complete := False, ev_completion_cb := None,
        ev_manage_payload_buf := False, ev_explicit_return := False, ev_dest_ep := None,
        ev_dest_id := UINT64_MAX, ev_is_subevent := False, ev_is_ongoing_event := False,
        ev_was_posted := False, ev_info := RESET_NOTIF_INFO (ev_info ev)\<rparr>"

definition CHECK_NOTIF_INFO :: "notification_info_t \<Rightarrow> bool" where
  "CHECK_NOTIF_INFO i = (\<not> ni_get_buf i \<and> \<not> ni_return_buf i \<and> ni_mem_pool i = None \<and> ni_element_size i = 0)"

definition CHECK_EVENT :: "dpu_offload_event_t \<Rightarrow> unit res" where
  "CHECK_EVENT ev =
     assertE (\<not> ev_complete ev \<and> hdr_payload_size (ev_hdr ev) = 0 \<and> hdr_type (ev_hdr ev) = UINT64_MAX
       \<and> hdr_id (ev_hdr ev) = UINT64_MAX \<and> \<not> ev_manage_payload_buf ev \<and> \<not> ev_explicit_return ev
       \<and> ev_dest_ep ev = None \<and> ev_dest_id ev = UINT64_MAX
       \<and> (ev_sub_events_initialized ev \<longrightarrow> ev_sub_events ev = [])
       \<and> \<not> ev_is_subevent ev \<and> \<not> ev_is_ongoing_event ev \<and> \<not> ev_was_posted ev \<and> CHECK_NOTIF_INFO (ev_info ev))"

definition init_event :: "dpu_offload_event_t \<Rightarrow> dpu_offload_event_t" where
  "init_event ev = (RESET_EVENT ev)\<lparr>ev_sub_events_initialized := False\<rparr>"

record dpu_offload_event_info_t =
  ei_payload_size :: nat
  ei_explicit_return :: bool
  ei_pool :: notification_info_t

section \<open>The event system and its execution context\<close>

text \<open>Payload buffers the library or a memory pool handed out and has to get back are in \<open>es_bufs\<close>.  The
  sequence number of events is a variable of the whole library.\<close>

record ev_sys_t =
  es_free_evs :: "dpu_offload_event_t dyn_list_t"
  es_heap :: heap
  es_num_used_evs :: u64
  es_posted_sends :: nat
  es_type :: econtext_type
  es_scope_id :: execution_scope_t
  es_client_id :: nat
  es_server_id :: nat
  es_ongoing_events :: "ptr list"
  es_seq_num :: nat
  es_bufs :: "nat list"
  es_next_buf :: nat

definition sizeof_event :: u64 where "sizeof_event = 264"

definition MAX_POSTED_SENDS :: nat where "MAX_POSTED_SENDS = 8"

definition ECONTEXT_ID :: "ev_sys_t \<Rightarrow> nat" where
  "ECONTEXT_ID es =
     (case es_type es of CONTEXT_CLIENT \<Rightarrow> es_client_id es | CONTEXT_SERVER \<Rightarrow> es_server_id es | _ \<Rightarrow> 0)"

definition ev_of :: "ev_sys_t \<Rightarrow> ptr \<Rightarrow> dpu_offload_event_t" where
  "ev_of es p = dl_elts (es_free_evs es) p"

definition ev_upd :: "ptr \<Rightarrow> (dpu_offload_event_t \<Rightarrow> dpu_offload_event_t) \<Rightarrow> ev_sys_t \<Rightarrow> ev_sys_t" where
  "ev_upd p f es = es\<lparr>es_free_evs := (es_free_evs es)\<lparr>dl_elts := (dl_elts (es_free_evs es))(p := f (ev_of es p))\<rparr>\<rparr>"

datatype send_result = Send_done | Send_posted | Send_failed

datatype event_state_t = EVENT_DONE | EVENT_INPROGRESS | EVENT_FAILED

record ev_env =
  env_completion :: "nat \<Rightarrow> ev_sys_t \<Rightarrow> ev_sys_t res"
  env_send :: "ptr \<Rightarrow> ev_sys_t \<Rightarrow> send_result"
  env_deliver :: "am_header_t \<Rightarrow> nat option \<Rightarrow> ev_sys_t \<Rightarrow> (bool \<times> ev_sys_t) res"

section \<open>Getting and returning events\<close>

definition new_buf :: "ev_sys_t \<Rightarrow> nat \<times> ev_sys_t" where
  "new_buf es = (es_next_buf es, es\<lparr>es_bufs := es_next_buf es # es_bufs es, es_next_buf := Suc (es_next_buf es)\<rparr>)"

text \<open>The payload buffer of a new event: from the memory pool of the user, or allocated.  A buffer of a pool
  without a return function goes back to the pool by the user.\<close>

definition get_payload :: "ptr \<Rightarrow> dpu_offload_event_info_t \<Rightarrow> ev_sys_t \<Rightarrow> ev_sys_t res" where
  "get_payload p info es =
     (let pool = ei_pool info in
      case ni_mem_pool pool of
        Some m \<Rightarrow>
          bindE (assertE (ni_get_buf pool)) (\<lambda>_.
          let (b, es1) = (if ni_return_buf pool then new_buf es
                          else (es_next_buf es, es\<lparr>es_next_buf := Suc (es_next_buf es)\<rparr>)) in
          Inr (ev_upd p (\<lambda>ev. ev\<lparr>ev_manage_payload_buf := True, ev_payload := Some b,
                 ev_info := (ev_info ev)\<lparr>ni_mem_pool := Some m, ni_get_buf := ni_get_buf pool,
                                         ni_return_buf := ni_return_buf pool\<rparr>,
                 ev_hdr := (ev_hdr ev)\<lparr>hdr_payload_size := ni_element_size pool\<rparr>\<rparr>) es1))
      | None \<Rightarrow>
          let (b, es1) = new_buf es in
          Inr (ev_upd p (\<lambda>ev. ev\<lparr>ev_manage_payload_buf := True, ev_payload := Some b,
                 ev_hdr := (ev_hdr ev)\<lparr>hdr_payload_size := ei_payload_size info\<rparr>\<rparr>) es1))"

definition setup_event :: "ptr \<Rightarrow> dpu_offload_event_info_t option \<Rightarrow> ev_sys_t \<Rightarrow> ev_sys_t res" where
  "setup_event p info es =
     (case info of
        None \<Rightarrow> Inr es
      | Some i \<Rightarrow>
          let es1 = ev_upd p (\<lambda>ev. ev\<lparr>ev_explicit_return := ei_explicit_return i\<rparr>) es in
          if ni_mem_pool (ei_pool i) = None \<and> ei_payload_size i = 0 then Inr es1 else get_payload p i es1)"

definition event_get :: "dpu_offload_event_info_t option \<Rightarrow> ev_sys_t \<Rightarrow> (ptr \<times> ev_sys_t) res" where
  "event_get info es =
     bindE (DYN_LIST_GET sizeof_event (es_free_evs es) (es_heap es)) (\<lambda>(p, dl, h).
     let es1 = es\<lparr>es_free_evs := dl, es_heap := h, es_seq_num := Suc (es_seq_num es),
                  es_num_used_evs := es_num_used_evs es + 1\<rparr>;
         es2 = ev_upd p (\<lambda>ev. RESET_EVENT (ev\<lparr>ev_seq_num := es_seq_num es\<rparr>)) es1 in
     bindE (CHECK_EVENT (ev_of es2 p)) (\<lambda>_.
     let es3 = ev_upd p (\<lambda>ev. ev\<lparr>ev_event_system := True, ev_scope_id := es_scope_id es,
                 ev_hdr := (ev_hdr ev)\<lparr>hdr_sender_type := es_type es\<rparr>\<rparr>) es2 in
     bindE (setup_event p info es3) (\<lambda>es4. Inr (p, es4))))"

text \<open>The end of a payload buffer that the library manages.\<close>

definition drop_payload :: "ptr \<Rightarrow> ev_sys_t \<Rightarrow> ev_sys_t res" where
  "drop_payload p es =
     (let ev = ev_of es p in
      case ev_payload ev of
        Some b \<Rightarrow>
          if ev_manage_payload_buf ev then
            bindE (if ni_mem_pool (ev_info ev) = None \<or> ni_return_buf (ev_info ev)
                   then bindE (guardE Bad_free (b \<in> set (es_bufs es))) (\<lambda>_.
                        Inr (es\<lparr>es_bufs := remove1 b (es_bufs es)\<rparr>))
                   else Inr es) (\<lambda>es1.
            Inr (ev_upd p (\<lambda>ev. ev\<lparr>ev_payload := None, ev_hdr := (ev_hdr ev)\<lparr>hdr_payload_size := 0\<rparr>\<rparr>) es1))
          else Inr es
      | None \<Rightarrow> Inr es)"

definition do_event_return :: "ptr \<Rightarrow> ev_sys_t \<Rightarrow> (event_state_t \<times> ev_sys_t) res" where
  "do_event_return p es =
     (let ev = ev_of es p in
      bindE (assertE (ev_event_system ev)) (\<lambda>_.
      if ev_req ev \<noteq> No_request then Inr (EVENT_INPROGRESS, es) else
      bindE (assertE (0 < EVENT_HDR_TYPE ev)) (\<lambda>_.
      bindE (assertE (EVENT_HDR_TYPE ev = META_EVENT_TYPE \<longrightarrow>
               \<not> ev_sub_events_initialized ev \<or> ev_sub_events ev = [])) (\<lambda>_.
      bindE (drop_payload p es) (\<lambda>es1.
      Inr (EVENT_DONE, es1\<lparr>es_num_used_evs := es_num_used_evs es1 - 1,
             es_free_evs := DYN_LIST_RETURN p (es_free_evs es1)\<rparr>))))))"

definition event_return :: "ptr \<Rightarrow> ev_sys_t \<Rightarrow> (dpu_offload_status_t \<times> ev_sys_t) res" where
  "event_return p es =
     (if ev_is_ongoing_event (ev_of es p) then Inr (DO_ERROR, es) else
      bindE (do_event_return p es) (\<lambda>(rc, es1).
      Inr (if rc = EVENT_INPROGRESS then DO_ERROR else DO_SUCCESS, es1)))"

section \<open>Completion\<close>

definition COMPLETE_EVENT :: "ev_env \<Rightarrow> ptr \<Rightarrow> ev_sys_t \<Rightarrow> ev_sys_t res" where
  "COMPLETE_EVENT env p es =
     (let es1 = ev_upd p (\<lambda>ev. ev\<lparr>ev_complete := True\<rparr>) es in
      case ev_completion_cb (ev_of es p) of
        None \<Rightarrow> Inr es1
      | Some cb \<Rightarrow> env_completion env cb (ev_upd p (\<lambda>ev. ev\<lparr>ev_completion_cb := None\<rparr>) es1))"

text \<open>The loop over the sub-events of a meta-event: the completed ones are returned; a failure to do so
  ends the loop (the first result is then false).\<close>

primrec collect_subevents :: "ptr \<Rightarrow> ptr list \<Rightarrow> ev_sys_t \<Rightarrow> (bool \<times> ev_sys_t) res" where
  "collect_subevents p [] es = Inr (True, es)"
| "collect_subevents p (q # qs) es =
     bindE (assertE (ev_is_subevent (ev_of es q))) (\<lambda>_.
     if ev_complete (ev_of es q) then
       let es1 = ev_upd q (\<lambda>ev. ev\<lparr>ev_is_subevent := False\<rparr>)
                   (ev_upd p (\<lambda>ev. ev\<lparr>ev_sub_events := remove1 q (ev_sub_events ev)\<rparr>) es) in
       bindE (do_event_return q es1) (\<lambda>(rc, es2).
       if rc \<noteq> EVENT_DONE then Inr (False, es2) else collect_subevents p qs es2)
     else collect_subevents p qs es)"

text \<open>A failure in the loop is reported as \<open>DO_ERROR\<close>, which the callers read as true.\<close>

definition event_completed :: "ev_env \<Rightarrow> ptr \<Rightarrow> ev_sys_t \<Rightarrow> (bool \<times> ev_sys_t) res" where
  "event_completed env p es =
     (let ev = ev_of es p in
      if EVENT_HDR_TYPE ev \<noteq> META_EVENT_TYPE \<and> ev_complete ev then
        bindE (COMPLETE_EVENT env p es) (\<lambda>es1. Inr (True, es1))
      else
      bindE (assertE (ev_event_system ev)) (\<lambda>_.
      if EVENT_HDR_TYPE ev = META_EVENT_TYPE then
        bindE (if ev_sub_events_initialized ev then collect_subevents p (ev_sub_events ev) es
               else Inr (True, es)) (\<lambda>(ok, es1).
        if \<not> ok then Inr (True, es1)
        else if \<not> ev_sub_events_initialized (ev_of es1 p) \<or> ev_sub_events (ev_of es1 p) = []
        then bindE (COMPLETE_EVENT env p es1) (\<lambda>es2. Inr (True, es2))
        else Inr (False, es1))
      else Inr (False, es)))"

definition QUEUE_EVENT :: "ptr \<Rightarrow> ev_sys_t \<Rightarrow> ev_sys_t res" where
  "QUEUE_EVENT p es =
     (let ev = ev_of es p in
      if ev_explicit_return ev \<or> ev_is_subevent ev then Inr es else
      bindE (assertE (\<not> ev_is_ongoing_event ev)) (\<lambda>_.
      Inr (ev_upd p (\<lambda>ev. ev\<lparr>ev_is_ongoing_event := True\<rparr>)
             (es\<lparr>es_ongoing_events := es_ongoing_events es @ [p]\<rparr>))))"

definition QUEUE_SUBEVENT :: "ptr \<Rightarrow> ptr \<Rightarrow> ev_sys_t \<Rightarrow> ev_sys_t res" where
  "QUEUE_SUBEVENT m p es =
     bindE (assertE (ev_is_subevent (ev_of es p))) (\<lambda>_.
     bindE (assertE (\<not> ev_is_ongoing_event (ev_of es p))) (\<lambda>_.
     Inr (ev_upd m (\<lambda>ev. ev\<lparr>ev_sub_events := (if ev_sub_events_initialized ev then ev_sub_events ev else []) @ [p],
            ev_sub_events_initialized := True\<rparr>) es)))"

text \<open>The callback UCX invokes when a posted send completes.\<close>

definition notification_emit_cb :: "ev_env \<Rightarrow> ptr \<Rightarrow> ev_sys_t \<Rightarrow> ev_sys_t res" where
  "notification_emit_cb env p es =
     bindE (COMPLETE_EVENT env p es) (\<lambda>es1.
     let es2 = ev_upd p (\<lambda>ev. ev\<lparr>ev_req := No_request\<rparr>) es1 in
     bindE (assertE (ev_event_system (ev_of es2 p))) (\<lambda>_. Inr es2))"

section \<open>Progress\<close>

definition CAN_POST :: "ev_sys_t \<Rightarrow> bool" where
  "CAN_POST es = (MAX_POSTED_SENDS \<le> 0 \<or> es_posted_sends es < MAX_POSTED_SENDS)"

definition event_posted :: "dpu_offload_event_t \<Rightarrow> bool" where
  "event_posted ev = (\<not> ev_complete ev \<and> (ev_was_posted ev \<or> ev_req ev \<noteq> No_request))"

definition do_am_send_event_msg :: "ev_env \<Rightarrow> ptr \<Rightarrow> ev_sys_t \<Rightarrow> (event_state_t \<times> ev_sys_t) res" where
  "do_am_send_event_msg env p es =
     bindE (assertE (ev_dest_ep (ev_of es p) \<noteq> None)) (\<lambda>_.
     case env_send env p es of
       Send_failed \<Rightarrow> Inr (EVENT_FAILED, ev_upd p (\<lambda>ev. ev\<lparr>ev_req := Error_request\<rparr>) es)
     | Send_done \<Rightarrow> Inr (EVENT_DONE, ev_upd p (\<lambda>ev. ev\<lparr>ev_req := No_request, ev_complete := True\<rparr>) es)
     | Send_posted \<Rightarrow> Inr (EVENT_INPROGRESS, ev_upd p (\<lambda>ev. ev\<lparr>ev_req := Request, ev_was_posted := True\<rparr>)
                       (es\<lparr>es_posted_sends := Suc (es_posted_sends es)\<rparr>)))"

text \<open>A completed event leaves the list of ongoing events and is returned.\<close>

definition unpost :: "ptr \<Rightarrow> ev_sys_t \<Rightarrow> ev_sys_t res" where
  "unpost p es =
     (if ev_was_posted (ev_of es p) then
        bindE (assertE (0 < es_posted_sends es)) (\<lambda>_.
        Inr (ev_upd p (\<lambda>ev. ev\<lparr>ev_was_posted := False\<rparr>) (es\<lparr>es_posted_sends := es_posted_sends es - 1\<rparr>)))
      else Inr es)"

definition del_ongoing :: "ptr \<Rightarrow> ev_sys_t \<Rightarrow> ev_sys_t res" where
  "del_ongoing p es =
     bindE (guardE Bad_list_op (p \<in> set (es_ongoing_events es))) (\<lambda>_.
     Inr (es\<lparr>es_ongoing_events := remove1 p (es_ongoing_events es)\<rparr>))"

definition PROGRESS_EVENT_SEND :: "ev_env \<Rightarrow> ptr \<Rightarrow> ev_sys_t \<Rightarrow> ev_sys_t res" where
  "PROGRESS_EVENT_SEND env p es =
     bindE (event_completed env p es) (\<lambda>(completed, es1).
     bindE (if \<not> completed \<and> CAN_POST es1 \<and> \<not> event_posted (ev_of es1 p)
            then bindE (do_am_send_event_msg env p es1) (\<lambda>(rc, es2). Inr es2) else Inr es1) (\<lambda>es2.
     if completed then
       bindE (del_ongoing p es2) (\<lambda>es3.
       bindE (unpost p (ev_upd p (\<lambda>ev. ev\<lparr>ev_is_ongoing_event := False, ev_is_subevent := False\<rparr>) es3)) (\<lambda>es4.
       bindE (event_return p es4) (\<lambda>(rc, es5). Inr es5)))
     else Inr es2))"

definition progress_event_body :: "ev_env \<Rightarrow> ptr \<Rightarrow> ev_sys_t \<Rightarrow> ev_sys_t res" where
  "progress_event_body env p es =
     bindE (assertE (ev_is_ongoing_event (ev_of es p))) (\<lambda>_.
     if EVENT_HDR_TYPE (ev_of es p) = META_EVENT_TYPE then
       bindE (assertE (ev_sub_events_initialized (ev_of es p))) (\<lambda>_.
       bindE (event_completed env p es) (\<lambda>(completed, es1).
       if completed then
         bindE (assertE (ev_is_ongoing_event (ev_of es1 p))) (\<lambda>_.
         bindE (del_ongoing p es1) (\<lambda>es2.
         bindE (unpost p (ev_upd p (\<lambda>ev. ev\<lparr>ev_is_ongoing_event := False\<rparr>) es2)) (\<lambda>es3.
         bindE (event_return p es3) (\<lambda>(rc, es4). Inr es4))))
       else Inr es1))
     else PROGRESS_EVENT_SEND env p es)"

text \<open>\<open>ucs_list_for_each_safe\<close> over the ongoing events: the successor of an event is read before the body
  runs.  The body may run callbacks, which may queue events, so the number of iterations is bounded by
  fuel.\<close>

fun next_in :: "'a list \<Rightarrow> 'a \<Rightarrow> 'a option" where
  "next_in (x # y # ys) p = (if x = p then Some y else next_in (y # ys) p)"
| "next_in _ p = None"

primrec progress_loop :: "ev_env \<Rightarrow> nat \<Rightarrow> ptr option \<Rightarrow> ev_sys_t \<Rightarrow> ev_sys_t res" where
  "progress_loop env 0 cur es = (if cur = None then Inr es else Inl No_return)"
| "progress_loop env (Suc n) cur es =
     (case cur of
        None \<Rightarrow> Inr es
      | Some p \<Rightarrow> bindE (progress_event_body env p es) (progress_loop env n (next_in (es_ongoing_events es) p)))"

text \<open>The scope of the context is compared with \<open>CONTEXT_SELF\<close>, a type of contexts that has the value of
  \<open>SCOPE_UNKNOWN\<close>.\<close>

definition progress_econtext_sends :: "ev_env \<Rightarrow> nat \<Rightarrow> ev_sys_t \<Rightarrow> ev_sys_t res" where
  "progress_econtext_sends env fuel es =
     (if es_scope_id es = SCOPE_UNKNOWN then Inr es
      else progress_loop env fuel (case es_ongoing_events es of [] \<Rightarrow> None | p # ps \<Rightarrow> Some p) es)"

section \<open>Emitting events\<close>

text \<open>The identifiers of the header by the type of the context; \<open>None\<close> when the type is not known.\<close>

definition emit_ids :: "dpu_offload_event_t \<Rightarrow> ev_sys_t \<Rightarrow> (nat \<times> nat) option" where
  "emit_ids ev es =
     (case es_type es of
        CONTEXT_CLIENT \<Rightarrow> Some (es_client_id es, es_server_id es)
      | CONTEXT_SERVER \<Rightarrow> Some (ev_dest_id ev, es_server_id es)
      | CONTEXT_SELF \<Rightarrow> Some (0, 0)
      | CONTEXT_UNKOWN \<Rightarrow> None)"

definition PREP_EVENT_FOR_EMIT :: "ptr \<Rightarrow> nat \<times> nat \<Rightarrow> ev_sys_t \<Rightarrow> ev_sys_t" where
  "PREP_EVENT_FOR_EMIT p ids es =
     ev_upd p (\<lambda>ev. ev\<lparr>ev_client_id := fst ids, ev_server_id := snd ids,
       ev_hdr := (ev_hdr ev)\<lparr>hdr_event_id := ev_seq_num ev, hdr_client_id := fst ids,
                             hdr_server_id := snd ids\<rparr>\<rparr>) es"

definition am_send_event_msg :: "ev_env \<Rightarrow> ptr \<Rightarrow> ev_sys_t \<Rightarrow> (event_state_t \<times> ev_sys_t) res" where
  "am_send_event_msg env p es =
     (case emit_ids (ev_of es p) es of
        None \<Rightarrow> Inr (EVENT_FAILED, es)
      | Some ids \<Rightarrow>
        let es1 = ev_upd p (\<lambda>ev. ev\<lparr>ev_hdr := (ev_hdr ev)\<lparr>hdr_scope_id := ev_scope_id ev\<rparr>\<rparr>)
                    (PREP_EVENT_FOR_EMIT p ids es) in
        bindE (do_am_send_event_msg env p es1) (\<lambda>(rc, es2).
        if rc = EVENT_DONE \<or> (rc = EVENT_INPROGRESS \<and> ev_req (ev_of es2 p) = No_request) then
          if \<not> ev_explicit_return (ev_of es2 p) then
            bindE (assertE (ev_event_system (ev_of es2 p))) (\<lambda>_.
            bindE (if rc \<noteq> EVENT_DONE
                   then bindE (assertE (0 < es_posted_sends es2)) (\<lambda>_.
                        Inr (es2\<lparr>es_posted_sends := es_posted_sends es2 - 1\<rparr>))
                   else Inr es2) (\<lambda>es3.
            bindE (event_return p es3) (\<lambda>(rc', es4).
            Inr (if rc' \<noteq> DO_SUCCESS then EVENT_FAILED else EVENT_DONE, es4))))
          else bindE (COMPLETE_EVENT env p es2) (\<lambda>es3. Inr (EVENT_INPROGRESS, es3))
        else Inr (rc, es2)))"

text \<open>The common part of both emit functions, after the header was filled in.\<close>

definition emit_prepared :: "ev_env \<Rightarrow> ptr \<Rightarrow> ev_sys_t \<Rightarrow> (event_state_t \<times> ev_sys_t) res" where
  "emit_prepared env p es =
     (if es_type es = CONTEXT_SELF then
        bindE (env_deliver env (ev_hdr (ev_of es p)) (ev_payload (ev_of es p)) es) (\<lambda>(ok, es1).
        bindE (guardE Aborted ok) (\<lambda>_.
        bindE (event_return p es1) (\<lambda>(rc, es2).
        bindE (guardE Aborted (rc = DO_SUCCESS)) (\<lambda>_. Inr (EVENT_DONE, es2)))))
      else
        bindE (am_send_event_msg env p es) (\<lambda>(rc, es1).
        if rc = EVENT_INPROGRESS then bindE (QUEUE_EVENT p es1) (\<lambda>es2. Inr (rc, es2)) else Inr (rc, es1)))"

definition event_channel_emit ::
    "ev_env \<Rightarrow> nat \<Rightarrow> ptr \<Rightarrow> nat \<Rightarrow> nat option \<Rightarrow> nat \<Rightarrow> ev_sys_t \<Rightarrow> (event_state_t \<times> ev_sys_t) res" where
  "event_channel_emit env fuel p type dest_ep dest_id es =
     bindE (if ev_is_subevent (ev_of es p) then Inr es else progress_econtext_sends env fuel es) (\<lambda>es1.
     emit_prepared env p (ev_upd p (\<lambda>ev. ev\<lparr>ev_complete := False,
       ev_hdr := (ev_hdr ev)\<lparr>hdr_type := type, hdr_id := ECONTEXT_ID es1\<rparr>,
       ev_dest_ep := dest_ep, ev_dest_id := dest_id\<rparr>) es1))"

definition event_channel_emit_with_payload ::
    "ev_env \<Rightarrow> nat \<Rightarrow> ptr \<Rightarrow> nat \<Rightarrow> nat option \<Rightarrow> nat \<Rightarrow> nat option \<Rightarrow> nat \<Rightarrow> ev_sys_t
     \<Rightarrow> (event_state_t \<times> ev_sys_t) res" where
  "event_channel_emit_with_payload env fuel p type dest_ep dest_id payload payload_size es =
     bindE (assertE (\<not> ev_manage_payload_buf (ev_of es p))) (\<lambda>_.
     bindE (if ev_is_subevent (ev_of es p) then Inr es else progress_econtext_sends env fuel es) (\<lambda>es1.
     let es2 = ev_upd p (\<lambda>ev. ev\<lparr>ev_complete := False,
           ev_hdr := (ev_hdr ev)\<lparr>hdr_type := type, hdr_id := ECONTEXT_ID es1, hdr_payload_size := payload_size\<rparr>,
           ev_payload := payload, ev_dest_ep := dest_ep, ev_dest_id := dest_id\<rparr>) es1 in
     bindE (assertE (es_type es2 = CONTEXT_SELF \<or> dest_ep \<noteq> None)) (\<lambda>_. emit_prepared env p es2)))"

section \<open>Setting up and taking down\<close>

definition ev_channels_init :: "(ptr \<Rightarrow> dpu_offload_event_t) \<Rightarrow> heap \<Rightarrow> econtext_type \<Rightarrow> execution_scope_t \<Rightarrow> ev_sys_t res" where
  "ev_channels_init mem h typ scope =
     bindE (DYN_LIST_ALLOC_WITH_INIT_CALLBACK sizeof_event mem 32 init_event h) (\<lambda>(r, h1).
     case r of
       None \<Rightarrow> Inl Assert_failed
     | Some dl \<Rightarrow> Inr \<lparr>es_free_evs = dl, es_heap = h1, es_num_used_evs = 0, es_posted_sends = 0, es_type = typ,
         es_scope_id = scope, es_client_id = 0, es_server_id = 0, es_ongoing_events = [],
         es_seq_num = 0, es_bufs = [], es_next_buf = 0\<rparr>)"

definition event_channels_fini :: "ev_sys_t \<Rightarrow> heap res" where
  "event_channels_fini es = DYN_LIST_FREE (es_free_evs es) (es_heap es)"

end
