(* ===== verification/Event_Invariants.thy ===== *)
theory Event_Invariants
imports Event_System
begin

text \<open>
  The invariant of the event system and what its operations keep of it.
\<close>

section \<open>The invariant\<close>

definition subs :: "dpu_offload_event_t \<Rightarrow> ptr list" where
  "subs ev = (if ev_sub_events_initialized ev then ev_sub_events ev else [])"

text \<open>The payload buffer an event has to give back.\<close>

definition owned :: "dpu_offload_event_t \<Rightarrow> nat set" where
  "owned ev = {b. ev_payload ev = Some b \<and> ev_manage_payload_buf ev
                  \<and> (ni_mem_pool (ev_info ev) = None \<or> ni_return_buf (ev_info ev))}"

lemma owned_update [simp]:
  "owned (ev_seq_num_update f0 ev) = owned ev"
  "owned (ev_hdr_update f1 ev) = owned ev"
  "owned (ev_complete_update f2 ev) = owned ev"
  "owned (ev_completion_cb_update f3 ev) = owned ev"
  "owned (ev_scope_id_update f4 ev) = owned ev"
  "owned (ev_client_id_update f5 ev) = owned ev"
  "owned (ev_server_id_update f6 ev) = owned ev"
  "owned (ev_is_subevent_update f7 ev) = owned ev"
  "owned (ev_is_ongoing_event_update f8 ev) = owned ev"
  "owned (ev_was_posted_update f9 ev) = owned ev"
  "owned (ev_req_update f10 ev) = owned ev"
  "owned (ev_explicit_return_update f11 ev) = owned ev"
  "owned (ev_dest_ep_update f12 ev) = owned ev"
  "owned (ev_dest_id_update f13 ev) = owned ev"
  "owned (ev_event_system_update f14 ev) = owned ev"
  "owned (ev_sub_events_update f15 ev) = owned ev"
  "owned (ev_sub_events_initialized_update f16 ev) = owned ev"
  by (simp_all add: owned_def)

lemma subs_update [simp]:
  "subs (ev_seq_num_update f0 ev) = subs ev"
  "subs (ev_hdr_update f1 ev) = subs ev"
  "subs (ev_complete_update f2 ev) = subs ev"
  "subs (ev_completion_cb_update f3 ev) = subs ev"
  "subs (ev_scope_id_update f4 ev) = subs ev"
  "subs (ev_client_id_update f5 ev) = subs ev"
  "subs (ev_server_id_update f6 ev) = subs ev"
  "subs (ev_is_subevent_update f7 ev) = subs ev"
  "subs (ev_is_ongoing_event_update f8 ev) = subs ev"
  "subs (ev_was_posted_update f9 ev) = subs ev"
  "subs (ev_req_update f10 ev) = subs ev"
  "subs (ev_explicit_return_update f11 ev) = subs ev"
  "subs (ev_dest_ep_update f12 ev) = subs ev"
  "subs (ev_dest_id_update f13 ev) = subs ev"
  "subs (ev_event_system_update f14 ev) = subs ev"
  "subs (ev_manage_payload_buf_update f15 ev) = subs ev"
  "subs (ev_payload_update f16 ev) = subs ev"
  "subs (ev_info_update f17 ev) = subs ev"
  by (simp_all add: subs_def)

definition local_ok :: "dpu_offload_event_t \<Rightarrow> bool" where
  "local_ok ev =
     (ev_event_system ev \<and> 0 < EVENT_HDR_TYPE ev \<and> (ev_complete ev \<longrightarrow> ev_req ev = No_request)
      \<and> (EVENT_HDR_TYPE ev = META_EVENT_TYPE \<longrightarrow> ev_req ev = No_request)
      \<and> (subs ev \<noteq> [] \<longrightarrow> EVENT_HDR_TYPE ev = META_EVENT_TYPE) \<and> distinct (subs ev)
      \<and> (ev_is_ongoing_event ev \<longrightarrow> \<not> ev_is_subevent ev
           \<and> (if EVENT_HDR_TYPE ev = META_EVENT_TYPE then ev_sub_events_initialized ev
              else ev_complete ev \<or> ev_was_posted ev \<or> ev_req ev \<noteq> No_request)))"

definition child_ok :: "dpu_offload_event_t \<Rightarrow> bool" where
  "child_ok ev = (ev_is_subevent ev \<and> \<not> ev_is_ongoing_event ev \<and> EVENT_HDR_TYPE ev \<noteq> META_EVENT_TYPE)"

definition ev_ok :: "ptr set \<Rightarrow> (ptr \<Rightarrow> dpu_offload_event_t) \<Rightarrow> ptr \<Rightarrow> bool" where
  "ev_ok U f p = (local_ok (f p) \<and> set (subs (f p)) \<subseteq> U \<and> (\<forall>q \<in> set (subs (f p)). child_ok (f q)))"

text \<open>The events in use, the list of ongoing events, the number of posted sends and the outstanding
  buffers.\<close>

definition evs_inv :: "ptr set \<Rightarrow> (ptr \<Rightarrow> dpu_offload_event_t) \<Rightarrow> ptr list \<Rightarrow> nat \<Rightarrow> nat list \<Rightarrow> nat \<Rightarrow> bool" where
  "evs_inv U f os ps bs nb =
     (finite U \<and> distinct os \<and> set os = {p \<in> U. ev_is_ongoing_event (f p)}
      \<and> (\<forall>p \<in> U. ev_ok U f p)
      \<and> (\<forall>p \<in> U. \<forall>q \<in> U. p \<noteq> q \<longrightarrow> set (subs (f p)) \<inter> set (subs (f q)) = {})
      \<and> distinct bs \<and> set bs = (\<Union>p \<in> U. owned (f p))
      \<and> (\<forall>p \<in> U. \<forall>q \<in> U. p \<noteq> q \<longrightarrow> owned (f p) \<inter> owned (f q) = {})
      \<and> (\<forall>b \<in> set bs. b < nb)
      \<and> card {p \<in> U. ev_was_posted (f p)} \<le> ps)"

lemma evs_invD:
  assumes "evs_inv U f os ps bs nb"
  shows "finite U" "distinct os" "set os = {p \<in> U. ev_is_ongoing_event (f p)}"
    "p \<in> U \<Longrightarrow> ev_ok U f p" "p \<in> U \<Longrightarrow> q \<in> U \<Longrightarrow> p \<noteq> q \<Longrightarrow> set (subs (f p)) \<inter> set (subs (f q)) = {}"
    "distinct bs" "set bs = (\<Union>p \<in> U. owned (f p))"
    "p \<in> U \<Longrightarrow> q \<in> U \<Longrightarrow> p \<noteq> q \<Longrightarrow> owned (f p) \<inter> owned (f q) = {}"
    "b \<in> set bs \<Longrightarrow> b < nb" "card {p \<in> U. ev_was_posted (f p)} \<le> ps"
  using assms by (simp_all add: evs_inv_def)

lemma posted_mono:
  assumes "finite U" "\<And>q. q \<in> U' \<Longrightarrow> ev_was_posted (g q) \<Longrightarrow> q \<in> U \<and> ev_was_posted (f q)"
  shows "card {p \<in> U'. ev_was_posted (g p)} \<le> card {p \<in> U. ev_was_posted (f p)}"
  using assms by (intro card_mono) auto

text \<open>Changes of an event that keep its place in the system.\<close>

lemma evs_inv_upd:
  assumes "evs_inv U f os ps bs nb" "p \<in> U" "local_ok ev" "subs ev = subs (f p)"
    and "ev_is_ongoing_event ev = ev_is_ongoing_event (f p)" "owned ev = owned (f p)"
    and "ev_was_posted ev \<longrightarrow> ev_was_posted (f p)"
    and "(child_ok (f p) \<longrightarrow> child_ok ev) \<or> (\<forall>r \<in> U. p \<notin> set (subs (f r)))"
  shows "evs_inv U (f(p := ev)) os ps bs nb"
proof -
  note i = evs_invD[OF assms(1)]
  have s: "subs ((f(p := ev)) q) = subs (f q)" "owned ((f(p := ev)) q) = owned (f q)"
      "ev_is_ongoing_event ((f(p := ev)) q) = ev_is_ongoing_event (f q)" for q
    using assms by auto
  have ok: "ev_ok U (f(p := ev)) q" if "q \<in> U" for q
    using i(4)[OF that] assms(2,3,8) that unfolding ev_ok_def s by (auto simp: assms(4))
  have "card {q \<in> U. ev_was_posted ((f(p := ev)) q)} \<le> card {q \<in> U. ev_was_posted (f q)}"
    using i(1) assms(7) by (intro posted_mono) (auto split: if_splits)
  with i(10) have "card {q \<in> U. ev_was_posted ((f(p := ev)) q)} \<le> ps"
    by (rule order_trans[rotated])
  with i ok show ?thesis
    unfolding evs_inv_def s by (intro conjI ballI impI; simp)
qed

text \<open>An event that nothing refers to leaves the system.\<close>

definition loose :: "ptr set \<Rightarrow> (ptr \<Rightarrow> dpu_offload_event_t) \<Rightarrow> ptr \<Rightarrow> bool" where
  "loose U f p = (p \<in> U \<and> \<not> ev_is_ongoing_event (f p) \<and> (\<forall>q \<in> U. p \<notin> set (subs (f q))))"

lemma evs_inv_remove:
  assumes "evs_inv U f os ps bs nb" "loose U f p" "\<And>q. q \<noteq> p \<Longrightarrow> g q = f q"
    and "distinct bs'" "set bs' = set bs - owned (f p)"
  shows "evs_inv (U - {p}) g os ps bs' nb"
proof -
  note i = evs_invD[OF assms(1)]
  have ok: "ev_ok (U - {p}) g q" if "q \<in> U - {p}" for q
  proof -
    have "p \<notin> set (subs (f q))"
      using assms(2) that by (simp add: loose_def)
    moreover have "\<forall>r \<in> set (subs (f q)). g r = f r"
      using \<open>p \<notin> set (subs (f q))\<close> assms(3) by metis
    ultimately show ?thesis
      using i(4)[of q] that assms(3)[of q] by (auto simp: ev_ok_def)
  qed
  have bufs: "set bs' = (\<Union>q \<in> U - {p}. owned (g q))"
  proof -
    have "owned (f q) \<inter> owned (f p) = {}" if "q \<in> U - {p}" for q
      using i(8)[of q p] that assms(2) by (auto simp: loose_def)
    then have "(\<Union>q \<in> U. owned (f q)) - owned (f p) = (\<Union>q \<in> U - {p}. owned (f q))"
      using assms(2) unfolding loose_def by fast
    with assms(3,5) i(7) show ?thesis
      by simp
  qed
  have os: "set os = {q \<in> U - {p}. ev_is_ongoing_event (g q)}"
  proof -
    have "q \<in> U \<and> ev_is_ongoing_event (f q) \<longleftrightarrow> q \<in> U - {p} \<and> ev_is_ongoing_event (g q)" for q
      using assms(2) assms(3)[of q] by (cases "q = p") (simp_all add: loose_def)
    then show ?thesis
      unfolding i(3) by simp
  qed
  have "card {q \<in> U - {p}. ev_was_posted (g q)} \<le> card {q \<in> U. ev_was_posted (f q)}"
    using i(1) assms(3) by (intro posted_mono) auto
  with i(10) have "card {q \<in> U - {p}. ev_was_posted (g q)} \<le> ps"
    by (rule order_trans[rotated])
  moreover have "\<forall>b \<in> set bs'. b < nb"
    using i(9) assms(5) by simp
  ultimately show ?thesis
    using i(1,2,5,8) ok bufs os assms(3,4) unfolding evs_inv_def by (intro conjI ballI impI; simp?; fast?)
qed

text \<open>A new event.\<close>

lemma evs_inv_add:
  assumes "evs_inv U f os ps bs nb" "p \<notin> U" "\<And>q. q \<in> U \<Longrightarrow> g q = f q"
    and "local_ok (g p)" "subs (g p) = []" "\<not> ev_is_ongoing_event (g p)" "\<not> ev_was_posted (g p)"
    and "distinct bs'" "set bs' = set bs \<union> owned (g p)" "\<forall>b \<in> owned (g p). nb \<le> b \<and> b < nb'" "nb \<le> nb'"
  shows "evs_inv (insert p U) g os ps bs' nb'"
proof -
  note i = evs_invD[OF assms(1)]
  have ok: "ev_ok (insert p U) g q" if "q \<in> insert p U" for q
  proof (cases "q = p")
    case True
    with assms(4,5) show ?thesis
      by (simp add: ev_ok_def)
  next
    case False
    with that i(4)[of q] have "ev_ok U f q" "g q = f q"
      using assms(3) by auto
    with assms(3) show ?thesis
      by (auto simp: ev_ok_def)
  qed
  have new: "owned (f q) \<inter> owned (g p) = {}" if "q \<in> U" for q
    using i(7,9) that assms(10) by fastforce
  have os: "set os = {q \<in> insert p U. ev_is_ongoing_event (g q)}"
    using i(3) assms(3,6) by auto
  have "{q \<in> insert p U. ev_was_posted (g q)} = {q \<in> U. ev_was_posted (f q)}"
    using assms(3,7) by auto
  moreover have "set bs' = (\<Union>q \<in> insert p U. owned (g q))"
    using i(7) assms(3,9) by auto
  moreover have "\<forall>b \<in> set bs'. b < nb'"
    using i(9) assms(9,10,11) by fastforce
  moreover have "\<forall>q \<in> insert p U. \<forall>r \<in> insert p U. q \<noteq> r \<longrightarrow> owned (g q) \<inter> owned (g r) = {}"
    using i(8) new assms(3) by (auto; blast)
  moreover have "\<forall>q \<in> insert p U. \<forall>r \<in> insert p U. q \<noteq> r \<longrightarrow> set (subs (g q)) \<inter> set (subs (g r)) = {}"
    using i(5) assms(3,5) by auto
  ultimately show ?thesis
    using i(1,2,10) ok os assms(8) unfolding evs_inv_def by simp
qed

section \<open>Elements of a pool\<close>

lemma dl_upd_elts [simp]:
  "dl_wf sz (dl_elts_update f dl) h = dl_wf sz dl h"
  "dl_used (dl_elts_update f dl) = dl_used dl" "dl_free (dl_elts_update f dl) = dl_free dl"
  by (simp_all add: dl_wf_def dl_chunks_wf_def dl_items_def dl_free_def dl_used_def chunk_blks_def chunk_ptrs_def)

lemma dl_ret_elts [simp]:
  "dl_elts (DYN_LIST_RETURN p dl) = dl_elts dl" "dl_free (DYN_LIST_RETURN p dl) = insert p (dl_free dl)"
  "dl_element_init_cb (DYN_LIST_RETURN p dl) = dl_element_init_cb dl"
  by (simp_all add: DYN_LIST_RETURN_def SIMPLE_LIST_PREPEND_def dl_free_def)

lemma dl_grown_elts:
  assumes "dl_grown b dl dl'" "dl_element_init_cb dl = Some fn" "\<And>x. F (fn x)" "\<forall>q \<in> dl_free dl. F (dl_elts dl q)"
  shows "\<forall>q \<in> dl_free dl'. F (dl_elts dl' q)" "q \<in> dl_items dl \<Longrightarrow> dl_elts dl' q = dl_elts dl q"
    "dl_element_init_cb dl' = Some fn"
  using assms by (auto simp: dl_grown_def dl_free_def dl_items_def init_chunk_def)

text \<open>What a get leaves of the elements: those in use are unchanged, and a property the initialisation
  establishes holds of the free ones and of the new one.\<close>

lemma dl_get_elts:
  assumes "dl_wf sz dl h" "DYN_LIST_GET sz dl h = Inr (p, dl', h')" "dl_element_init_cb dl = Some fn"
    and "\<And>x. F (fn x)" "\<forall>q \<in> dl_free dl. F (dl_elts dl q)"
  shows "F (dl_elts dl' p) \<and> (\<forall>q \<in> dl_free dl'. F (dl_elts dl' q))
         \<and> (\<forall>q \<in> dl_used dl. dl_elts dl' q = dl_elts dl q) \<and> dl_element_init_cb dl' = Some fn"
  using assms(1,2)
proof (rule DYN_LIST_GET_cases)
  fix dl1 l
  assume d: "SIMPLE_LIST_EXTRACT_HEAD (dl_list dl1) = Inr (p, l)" "dl' = dl1\<lparr>dl_list := l\<rparr>"
    "(dl1, h') = (dl, h) \<or> (\<exists>b. dl_grown b dl dl1 \<and> b \<notin> live_blks h)"
  have 1: "(\<forall>q \<in> dl_free dl1. F (dl_elts dl1 q)) \<and> (\<forall>q \<in> dl_items dl. dl_elts dl1 q = dl_elts dl q)
      \<and> dl_element_init_cb dl1 = Some fn"
    using d(3) assms(3-5) dl_grown_elts[of _ dl dl1 fn F] by blast
  have "p \<in> dl_free dl1" "dl_free dl' \<subseteq> dl_free dl1"
    using d(1,2) by (auto simp: SIMPLE_LIST_EXTRACT_HEAD_def dl_free_def split: list.splits)
  with 1 d(2) show ?thesis
    by (auto simp: dl_used_def)
qed

lemma dl_used_finite: "finite (dl_used dl)"
  by (simp add: dl_used_def dl_items_def)

section \<open>The event system\<close>

abbreviation used :: "ev_sys_t \<Rightarrow> ptr set" where
  "used es \<equiv> dl_used (es_free_evs es)"

definition es_wf :: "ev_sys_t \<Rightarrow> bool" where
  "es_wf es =
     (dl_wf sizeof_event (es_free_evs es) (es_heap es) \<and> dl_element_init_cb (es_free_evs es) = Some init_event
      \<and> es_num_used_evs es = of_nat (card (used es))
      \<and> (\<forall>p \<in> dl_free (es_free_evs es). subs (ev_of es p) = [])
      \<and> evs_inv (used es) (ev_of es) (es_ongoing_events es) (es_posted_sends es) (es_bufs es) (es_next_buf es))"

lemma ev_upd_simps [simp]:
  "ev_of (ev_upd p f es) = (ev_of es)(p := f (ev_of es p))"
  "es_heap (ev_upd p f es) = es_heap es" "es_num_used_evs (ev_upd p f es) = es_num_used_evs es"
  "es_ongoing_events (ev_upd p f es) = es_ongoing_events es" "es_posted_sends (ev_upd p f es) = es_posted_sends es"
  "es_bufs (ev_upd p f es) = es_bufs es" "es_next_buf (ev_upd p f es) = es_next_buf es"
  "es_type (ev_upd p f es) = es_type es" "es_scope_id (ev_upd p f es) = es_scope_id es"
  "used (ev_upd p f es) = used es" "dl_free (es_free_evs (ev_upd p f es)) = dl_free (es_free_evs es)"
  "dl_wf sizeof_event (es_free_evs (ev_upd p f es)) h = dl_wf sizeof_event (es_free_evs es) h"
  "dl_element_init_cb (es_free_evs (ev_upd p f es)) = dl_element_init_cb (es_free_evs es)"
  by (auto simp: ev_upd_def ev_of_def)

lemma ev_of_update [simp]:
  "ev_of (es_heap_update fh es) = ev_of es" "ev_of (es_num_used_evs_update fn es) = ev_of es"
  "ev_of (es_ongoing_events_update fo es) = ev_of es" "ev_of (es_posted_sends_update fp es) = ev_of es"
  "ev_of (es_bufs_update fb es) = ev_of es" "ev_of (es_next_buf_update fq es) = ev_of es"
  "ev_of (es_seq_num_update fs es) = ev_of es" "ev_of (es_free_evs_update (\<lambda>_. dl) es) = dl_elts dl"
  by (simp_all add: ev_of_def fun_eq_iff)

lemma ev_upd_twice: "ev_upd p g (ev_upd p f es) = ev_upd p (\<lambda>ev. g (f ev)) es"
  by (simp add: ev_upd_def ev_of_def)

lemma ev_upd_bufs:
  "ev_upd p f (es_bufs_update g es) = es_bufs_update g (ev_upd p f es)"
  "ev_upd p f (es_next_buf_update h es) = es_next_buf_update h (ev_upd p f es)"
  "ev_upd p f es\<lparr>es_bufs := es_bufs es\<rparr> = ev_upd p f es"
  by (simp_all add: ev_upd_def ev_of_def)

lemma free_used: "p \<in> used es \<Longrightarrow> p \<notin> dl_free (es_free_evs es)"
  by (simp add: dl_used_def)

text \<open>A change of one event in use.\<close>

lemma es_wf_upd:
  assumes "es_wf es" "p \<in> used es" "local_ok (f (ev_of es p))" "subs (f (ev_of es p)) = subs (ev_of es p)"
    and "ev_is_ongoing_event (f (ev_of es p)) = ev_is_ongoing_event (ev_of es p)"
    and "owned (f (ev_of es p)) = owned (ev_of es p)"
    and "ev_was_posted (f (ev_of es p)) \<longrightarrow> ev_was_posted (ev_of es p)"
    and "(child_ok (ev_of es p) \<longrightarrow> child_ok (f (ev_of es p))) \<or> (\<forall>r \<in> used es. p \<notin> set (subs (ev_of es r)))"
  shows "es_wf (ev_upd p f es)"
  using assms evs_inv_upd[of "used es" "ev_of es" _ _ _ _ p "f (ev_of es p)"] free_used[OF assms(2)]
  by (auto simp: es_wf_def)

section \<open>Getting and returning events\<close>

text \<open>A new event is fresh, belongs to nobody and passes the checks of \<open>event_get\<close>.\<close>

definition fresh_event :: "dpu_offload_event_t \<Rightarrow> bool" where
  "fresh_event ev =
     (local_ok ev \<and> subs ev = [] \<and> \<not> ev_is_ongoing_event ev \<and> \<not> ev_is_subevent ev \<and> \<not> ev_was_posted ev
      \<and> \<not> ev_complete ev \<and> ev_req ev = No_request \<and> ev_completion_cb ev = None
      \<and> EVENT_HDR_TYPE ev = UINT64_MAX)"

lemma reset_event_fresh:
  assumes "subs ev = []"
  shows "CHECK_EVENT (RESET_EVENT ev) = Inr ()"
    and "fresh_event ((RESET_EVENT ev)\<lparr>ev_event_system := True, ev_scope_id := sc,
           ev_hdr := h\<lparr>hdr_type := UINT64_MAX\<rparr>\<rparr>)"
    and "owned ((RESET_EVENT ev)\<lparr>ev_event_system := True, ev_scope_id := sc, ev_hdr := h\<rparr>) = {}"
proof -
  show "CHECK_EVENT (RESET_EVENT ev) = Inr ()"
    using assms by (simp add: CHECK_EVENT_def RESET_EVENT_def RESET_AM_HDR_def CHECK_NOTIF_INFO_def
        RESET_NOTIF_INFO_def subs_def split: if_splits)
qed (use assms in \<open>simp_all add: fresh_event_def local_ok_def RESET_EVENT_def subs_def owned_def UINT64_MAX_def
  META_EVENT_TYPE_def split: if_splits\<close>)

lemma evs_inv_buf:
  assumes "evs_inv U f os ps bs nb" "p \<in> U" "owned (f p) = {}" "local_ok ev" "subs ev = subs (f p)"
    and "ev_is_ongoing_event ev = ev_is_ongoing_event (f p)"
    and "ev_was_posted ev \<longrightarrow> ev_was_posted (f p)" "child_ok (f p) \<longrightarrow> child_ok ev"
    and "owned ev = {} \<and> bs' = bs \<or> owned ev = {nb} \<and> bs' = nb # bs"
  shows "evs_inv U (f(p := ev)) os ps bs' (Suc nb)"
proof -
  note i = evs_invD[OF assms(1)]
  have s: "subs ((f(p := ev)) q) = subs (f q)"
      "ev_is_ongoing_event ((f(p := ev)) q) = ev_is_ongoing_event (f q)" for q
    using assms by auto
  have ok: "ev_ok U (f(p := ev)) q" if "q \<in> U" for q
    using i(4)[OF that] assms(4,5,8) unfolding ev_ok_def s by auto
  have lt: "b < nb" if "b \<in> owned (f q)" "q \<in> U" for b q
    using i(7,9) that by blast
  have own: "owned ((f(p := ev)) q) \<inter> owned ((f(p := ev)) r) = {}" if "q \<in> U" "r \<in> U" "q \<noteq> r" for q r
    using i(8)[OF that] assms(9) lt[of nb q] lt[of nb r] that by (cases "q = p"; cases "r = p") auto
  have bufs: "set bs' = (\<Union>q \<in> U. owned ((f(p := ev)) q))"
  proof -
    have "U = insert p (U - {p})"
      using assms(2) by blast
    then have "(\<Union>q \<in> U. owned ((f(p := ev)) q)) = owned ((f(p := ev)) p) \<union> (\<Union>q \<in> U - {p}. owned ((f(p := ev)) q))"
      by (metis UN_insert)
    also have "\<dots> = owned ev \<union> (\<Union>q \<in> U - {p}. owned (f q))"
      by simp
    also have "(\<Union>q \<in> U - {p}. owned (f q)) = set bs"
      using assms(3) i(7) by blast
    finally show ?thesis
      using assms(9) by auto
  qed
  have "card {q \<in> U. ev_was_posted ((f(p := ev)) q)} \<le> card {q \<in> U. ev_was_posted (f q)}"
    using i(1) assms(7) by (intro posted_mono) (auto split: if_splits)
  with i(10) have "card {q \<in> U. ev_was_posted ((f(p := ev)) q)} \<le> ps"
    by (rule order_trans[rotated])
  moreover have "distinct bs'" "\<forall>b \<in> set bs'. b < Suc nb"
    using assms(9) i(6) by (auto dest!: i(9))
  ultimately show ?thesis
    using i(1,2,3,5) ok own bufs unfolding evs_inv_def s by (intro conjI ballI impI; simp?; fast?)
qed

lemma fresh_eventD:
  "fresh_event ev \<Longrightarrow> local_ok ev \<and> subs ev = [] \<and> \<not> ev_is_ongoing_event ev \<and> \<not> ev_was_posted ev \<and> \<not> child_ok ev"
  by (simp add: fresh_event_def child_ok_def)

lemma fresh_event_upd [simp]:
  "fresh_event (ev_explicit_return_update fb ev) = fresh_event ev"
  "fresh_event (ev_manage_payload_buf_update fb ev) = fresh_event ev"
  "fresh_event (ev_payload_update fp ev) = fresh_event ev"
  "fresh_event (ev_info_update fi ev) = fresh_event ev"
  "hdr_type h = EVENT_HDR_TYPE ev \<Longrightarrow> fresh_event (ev_hdr_update (\<lambda>_. h) ev) = fresh_event ev"
  by (simp_all add: fresh_event_def local_ok_def)

lemma setup_event_wf:
  assumes "es_wf es" "p \<in> used es" "fresh_event (ev_of es p)" "owned (ev_of es p) = {}" "ni_mem_pool (ev_info (ev_of es p)) = None"
    and "setup_event p info es = Inr es'"
  shows "es_wf es' \<and> used es' = used es \<and> fresh_event (ev_of es' p) \<and> (\<forall>q \<in> - {p}. ev_of es' q = ev_of es q)
         \<and> es_ongoing_events es' = es_ongoing_events es \<and> es_posted_sends es' = es_posted_sends es"
proof -
  note fr = fresh_eventD[OF assms(3)]
  have new: "es_wf (ev_upd p f es\<lparr>es_bufs := bs', es_next_buf := Suc (es_next_buf es)\<rparr>)"
    if "fresh_event (f (ev_of es p))"
      "owned (f (ev_of es p)) = {} \<and> bs' = es_bufs es \<or> owned (f (ev_of es p)) = {es_next_buf es} \<and> bs' = es_next_buf es # es_bufs es"
    for f bs'
    using assms(1,2,4) fr fresh_eventD[OF that(1)] that(2) free_used[OF assms(2)]
      evs_inv_buf[of "used es" "ev_of es" _ _ _ _ p "f (ev_of es p)" bs']
    by (auto simp: es_wf_def)
  show ?thesis
  proof (cases info)
    case None
    with assms show ?thesis
      by (simp add: setup_event_def)
  next
    case (Some i)
    let ?x = "\<lambda>ev. ev\<lparr>ev_explicit_return := ei_explicit_return i\<rparr>"
    have keep: "es_wf (ev_upd p ?x es)"
      using assms(1,2) fr by (intro es_wf_upd) (auto simp: local_ok_def)
    show ?thesis
    proof (cases "ni_mem_pool (ei_pool i)")
      case pool: None
      let ?f = "\<lambda>ev. ev\<lparr>ev_explicit_return := ei_explicit_return i, ev_manage_payload_buf := True,
          ev_payload := Some (es_next_buf es), ev_hdr := (ev_hdr ev)\<lparr>hdr_payload_size := ei_payload_size i\<rparr>\<rparr>"
      have "owned (?f (ev_of es p)) = {es_next_buf es}"
        using assms(5) by (simp add: owned_def)
      then have "es_wf (ev_upd p ?f es\<lparr>es_bufs := es_next_buf es # es_bufs es, es_next_buf := Suc (es_next_buf es)\<rparr>)"
        using assms(3) by (intro new) simp_all
      moreover have "es' = (if ei_payload_size i = 0 then ev_upd p ?x es else
          ev_upd p ?f es\<lparr>es_bufs := es_next_buf es # es_bufs es, es_next_buf := Suc (es_next_buf es)\<rparr>)"
        using assms(6) Some pool
        by (auto simp: setup_event_def get_payload_def new_buf_def ev_upd_bufs ev_upd_twice Let_def)
      ultimately show ?thesis
        using assms(3) keep by simp
    next
      case (Some m)
      let ?f = "\<lambda>ev. ev\<lparr>ev_explicit_return := ei_explicit_return i, ev_manage_payload_buf := True,
          ev_payload := Some (es_next_buf es),
          ev_info := (ev_info ev)\<lparr>ni_mem_pool := Some m, ni_get_buf := ni_get_buf (ei_pool i),
                                  ni_return_buf := ni_return_buf (ei_pool i)\<rparr>,
          ev_hdr := (ev_hdr ev)\<lparr>hdr_payload_size := ni_element_size (ei_pool i)\<rparr>\<rparr>"
      let ?bs = "if ni_return_buf (ei_pool i) then es_next_buf es # es_bufs es else es_bufs es"
      have "owned (?f (ev_of es p)) = (if ni_return_buf (ei_pool i) then {es_next_buf es} else {})"
        by (simp add: owned_def)
      then have "es_wf (ev_upd p ?f es\<lparr>es_bufs := ?bs, es_next_buf := Suc (es_next_buf es)\<rparr>)"
        using assms(3) by (intro new) simp_all
      moreover have "es' = ev_upd p ?f es\<lparr>es_bufs := ?bs, es_next_buf := Suc (es_next_buf es)\<rparr>"
        using assms(6) Some \<open>info = Some i\<close>
        by (auto simp: setup_event_def get_payload_def new_buf_def ev_upd_bufs ev_upd_twice Let_def bindE_Inr_iff
            split: if_splits)
      ultimately show ?thesis
        using assms(3) by simp
    qed
  qed
qed

lemma setup_event_total:
  assumes "\<And>i. info = Some i \<Longrightarrow> ni_mem_pool (ei_pool i) \<noteq> None \<Longrightarrow> ni_get_buf (ei_pool i)"
  shows "\<exists>es'. setup_event p info es = Inr es'"
proof (cases info)
  case (Some i)
  with assms[of i] show ?thesis
    by (cases "ni_mem_pool (ei_pool i)") (simp_all add: setup_event_def get_payload_def new_buf_def Let_def)
qed (simp add: setup_event_def)

lemma event_get_wf:
  assumes "es_wf es" "DYN_LIST_GET sizeof_event (es_free_evs es) (es_heap es) = Inr (p, dl, h)"
    and "\<And>i. info = Some i \<Longrightarrow> ni_mem_pool (ei_pool i) \<noteq> None \<Longrightarrow> ni_get_buf (ei_pool i)"
  shows "\<exists>es'. event_get info es = Inr (p, es') \<and> es_wf es' \<and> p \<notin> used es \<and> used es' = insert p (used es)
         \<and> fresh_event (ev_of es' p) \<and> (\<forall>q \<in> used es. ev_of es' q = ev_of es q)
         \<and> es_ongoing_events es' = es_ongoing_events es \<and> es_posted_sends es' = es_posted_sends es"
proof -
  have wf: "dl_wf sizeof_event (es_free_evs es) (es_heap es)" "dl_element_init_cb (es_free_evs es) = Some init_event"
    "\<forall>q \<in> dl_free (es_free_evs es). subs (dl_elts (es_free_evs es) q) = []"
    and inv: "evs_inv (used es) (ev_of es) (es_ongoing_events es) (es_posted_sends es) (es_bufs es) (es_next_buf es)"
    and num: "es_num_used_evs es = of_nat (card (used es))"
    using assms(1) by (simp_all add: es_wf_def ev_of_def)
  have init: "subs (init_event x) = []" for x
    by (simp add: subs_def init_event_def)
  have el: "subs (dl_elts dl p) = []" "\<forall>q \<in> dl_free dl. subs (dl_elts dl q) = []"
      "\<forall>q \<in> used es. dl_elts dl q = ev_of es q" "dl_element_init_cb dl = Some init_event"
    using dl_get_elts[OF wf(1) assms(2) wf(2), of "\<lambda>ev. subs ev = []"] init wf(3) by (simp_all add: ev_of_def)
  have pool: "dl_wf sizeof_event dl h" "p \<notin> used es" "dl_used dl = insert p (used es)"
    using dlp.get_fresh[of sizeof_event "(es_free_evs es, es_heap es)" p "(dl, h)"]
      dlp.get_used[of sizeof_event "(es_free_evs es, es_heap es)" p "(dl, h)"]
      dlp.get_inv[of sizeof_event "(es_free_evs es, es_heap es)" p "(dl, h)"] wf(1) assms(2)
    by (simp_all add: dl_get_def)
  let ?new = "\<lambda>ev. (RESET_EVENT (ev\<lparr>ev_seq_num := es_seq_num es\<rparr>))\<lparr>ev_event_system := True, ev_scope_id := es_scope_id es,
      ev_hdr := (ev_hdr (RESET_EVENT (ev\<lparr>ev_seq_num := es_seq_num es\<rparr>)))\<lparr>hdr_sender_type := es_type es\<rparr>\<rparr>"
  let ?es1 = "es\<lparr>es_free_evs := dl, es_heap := h, es_seq_num := Suc (es_seq_num es),
      es_num_used_evs := es_num_used_evs es + 1\<rparr>"
  let ?es3 = "ev_upd p ?new ?es1"
  have fresh: "fresh_event (?new ev)" "owned (?new ev) = {}" "ni_mem_pool (ev_info (?new ev)) = None"
      "CHECK_EVENT (RESET_EVENT (ev\<lparr>ev_seq_num := es_seq_num es\<rparr>)) = Inr ()"
    if "subs ev = []" for ev
    using that by (simp_all add: fresh_event_def local_ok_def RESET_EVENT_def owned_def UINT64_MAX_def
        META_EVENT_TYPE_def RESET_NOTIF_INFO_def CHECK_EVENT_def CHECK_NOTIF_INFO_def RESET_AM_HDR_def subs_def split: if_splits)
  note fr = fresh[OF el(1)]
  have "evs_inv (insert p (used es)) ((dl_elts dl)(p := ?new (dl_elts dl p))) (es_ongoing_events es)
      (es_posted_sends es) (es_bufs es) (es_next_buf es)"
    using inv pool(2) fr(1,2) fresh_eventD[OF fr(1)] el(3) evs_invD(6)[OF inv]
    by (intro evs_inv_add[OF inv pool(2)]) auto
  moreover have "p \<notin> dl_free dl"
    using pool(3) by (metis DiffD2 dl_used_def insertI1)
  ultimately have wf3: "es_wf ?es3"
    using pool el(2,4) num dl_used_finite[of "es_free_evs es"] by (auto simp: es_wf_def)
  have "ev_of ?es3 p = ?new (dl_elts dl p)"
    by simp
  with setup_event_wf[OF wf3, of p info] pool fr have st: "\<And>es'. setup_event p info ?es3 = Inr es' \<Longrightarrow>
      es_wf es' \<and> used es' = insert p (used es) \<and> fresh_event (ev_of es' p) \<and> (\<forall>q \<in> - {p}. ev_of es' q = ev_of ?es3 q)
         \<and> es_ongoing_events es' = es_ongoing_events es \<and> es_posted_sends es' = es_posted_sends es"
    by simp
  obtain es' where es': "setup_event p info ?es3 = Inr es'"
    using setup_event_total[of info p ?es3] assms(3) by blast
  have "event_get info es = Inr (p, es')"
    using assms(2) fr(4) es' by (simp add: event_get_def Let_def ev_upd_twice)
  moreover have "ev_of es' q = ev_of es q" if "q \<in> used es" for q
  proof -
    have "q \<noteq> p"
      using that pool(2) by blast
    with st[OF es'] have "ev_of es' q = ev_of ?es3 q"
      by blast
    with \<open>q \<noteq> p\<close> el(3) that show ?thesis
      by simp
  qed
  ultimately show ?thesis
    using st[OF es'] pool(2) by blast
qed

text \<open>Returning an event nothing refers to.\<close>

lemma drop_payload_spec:
  assumes "es_wf es" "p \<in> used es"
  shows "\<exists>bs f. drop_payload p es = Inr (ev_upd p f es\<lparr>es_bufs := bs\<rparr>) \<and> distinct bs
           \<and> set bs = set (es_bufs es) - owned (ev_of es p) \<and> subs (f (ev_of es p)) = subs (ev_of es p)"
proof -
  have inv: "evs_inv (used es) (ev_of es) (es_ongoing_events es) (es_posted_sends es) (es_bufs es) (es_next_buf es)"
    using assms(1) by (simp add: es_wf_def)
  have own: "owned (ev_of es p) \<subseteq> set (es_bufs es)" "distinct (es_bufs es)"
    using evs_invD(6,7)[OF inv] assms(2) by blast+
  have same: "es = ev_upd p (\<lambda>ev. ev) es\<lparr>es_bufs := es_bufs es\<rparr>"
    by (simp add: ev_upd_def ev_of_def)
  let ?f = "\<lambda>ev. ev\<lparr>ev_payload := None, ev_hdr := (ev_hdr ev)\<lparr>hdr_payload_size := 0\<rparr>\<rparr>"
  show ?thesis
  proof (cases "ev_payload (ev_of es p)")
    case None
    then have "drop_payload p es = Inr (ev_upd p (\<lambda>ev. ev) es\<lparr>es_bufs := es_bufs es\<rparr>)"
      using same by (simp add: drop_payload_def)
    with own None show ?thesis
      by (intro exI[of _ "es_bufs es"] exI[of _ "\<lambda>ev. ev"]) (simp add: owned_def)
  next
    case (Some b)
    show ?thesis
    proof (cases "ev_manage_payload_buf (ev_of es p)")
      case False
      then have "drop_payload p es = Inr (ev_upd p (\<lambda>ev. ev) es\<lparr>es_bufs := es_bufs es\<rparr>)"
        using same Some by (simp add: drop_payload_def)
      with own False show ?thesis
        by (intro exI[of _ "es_bufs es"] exI[of _ "\<lambda>ev. ev"]) (simp add: owned_def)
    next
      case True
      let ?bs = "if ni_mem_pool (ev_info (ev_of es p)) = None \<or> ni_return_buf (ev_info (ev_of es p))
                 then remove1 b (es_bufs es) else es_bufs es"
      have "drop_payload p es = Inr (ev_upd p ?f es\<lparr>es_bufs := ?bs\<rparr>)"
        using Some True own(1) by (auto simp: drop_payload_def owned_def ev_upd_bufs)
      with own Some True show ?thesis
        by (intro exI[of _ ?bs] exI[of _ ?f]) (auto simp: owned_def)
    qed
  qed
qed

lemma do_event_return_wf:
  assumes "es_wf es" "loose (used es) (ev_of es) p" "subs (ev_of es p) = []" "ev_req (ev_of es p) = No_request"
  shows "\<exists>es'. do_event_return p es = Inr (EVENT_DONE, es') \<and> es_wf es' \<and> used es' = used es - {p}
           \<and> (\<forall>q \<in> - {p}. ev_of es' q = ev_of es q) \<and> es_ongoing_events es' = es_ongoing_events es
           \<and> es_posted_sends es' = es_posted_sends es"
proof -
  have p: "p \<in> used es"
    using assms(2) by (simp add: loose_def)
  have inv: "evs_inv (used es) (ev_of es) (es_ongoing_events es) (es_posted_sends es) (es_bufs es) (es_next_buf es)"
    and wf: "dl_wf sizeof_event (es_free_evs es) (es_heap es)"
    using assms(1) by (simp_all add: es_wf_def)
  have l: "local_ok (ev_of es p)"
    using evs_invD(4)[OF inv p] by (simp add: ev_ok_def)
  obtain bs f where d: "drop_payload p es = Inr (ev_upd p f es\<lparr>es_bufs := bs\<rparr>)" "distinct bs"
      "set bs = set (es_bufs es) - owned (ev_of es p)" "subs (f (ev_of es p)) = subs (ev_of es p)"
    using drop_payload_spec[OF assms(1) p] by blast
  let ?es1 = "ev_upd p f es\<lparr>es_bufs := bs\<rparr>"
  let ?es2 = "?es1\<lparr>es_num_used_evs := es_num_used_evs ?es1 - 1, es_free_evs := DYN_LIST_RETURN p (es_free_evs ?es1)\<rparr>"
  have ret: "dl_wf sizeof_event (DYN_LIST_RETURN p (es_free_evs ?es1)) (es_heap es)"
      "dl_used (DYN_LIST_RETURN p (es_free_evs ?es1)) = used es - {p}"
    using dl_ret_spec[of sizeof_event "es_free_evs ?es1" "es_heap es" p] wf p by simp_all
  have ev2: "ev_of ?es2 = (ev_of es)(p := f (ev_of es p))"
    by (simp add: ev_of_def fun_eq_iff) (simp add: ev_upd_def ev_of_def)
  have "evs_inv (used es - {p}) ((ev_of es)(p := f (ev_of es p))) (es_ongoing_events es) (es_posted_sends es) bs (es_next_buf es)"
    using d by (intro evs_inv_remove[OF inv assms(2)]) simp_all
  moreover have "card (used es) = Suc (card (used es - {p}))"
    using p dl_used_finite by (metis card_Suc_Diff1)
  ultimately have "es_wf ?es2"
    using assms(1,3) d(4) ret ev2 by (simp add: es_wf_def)
  moreover have "do_event_return p es = Inr (EVENT_DONE, ?es2)"
    using l assms(3,4) d(1) by (auto simp: do_event_return_def local_ok_def subs_def split: if_splits)
  ultimately show ?thesis
    using ret ev2 by (intro exI[of _ ?es2]) simp
qed

lemma es_wf_inv:
  "es_wf es \<Longrightarrow> evs_inv (used es) (ev_of es) (es_ongoing_events es) (es_posted_sends es) (es_bufs es) (es_next_buf es)"
  by (simp add: es_wf_def)

lemma es_wf_ev:
  assumes "es_wf es" "p \<in> used es"
  shows "local_ok (ev_of es p)" "set (subs (ev_of es p)) \<subseteq> used es"
    "q \<in> set (subs (ev_of es p)) \<Longrightarrow> child_ok (ev_of es q)"
  using evs_invD(4)[OF es_wf_inv[OF assms(1)] assms(2)] by (simp_all add: ev_ok_def)

section \<open>Meta-events\<close>

lemma evs_inv_unsub:
  assumes "evs_inv U f os ps bs nb" "p \<in> U" "local_ok ev" "subs ev = remove1 q (subs (f p))"
    and "ev_is_ongoing_event ev = ev_is_ongoing_event (f p)" "owned ev = owned (f p)"
    and "ev_was_posted ev = ev_was_posted (f p)" "child_ok (f p) \<longrightarrow> child_ok ev"
  shows "evs_inv U (f(p := ev)) os ps bs nb"
proof -
  note i = evs_invD[OF assms(1)]
  have s: "owned ((f(p := ev)) r) = owned (f r)"
      "ev_is_ongoing_event ((f(p := ev)) r) = ev_is_ongoing_event (f r)"
      "ev_was_posted ((f(p := ev)) r) = ev_was_posted (f r)" for r
    using assms by auto
  have sub: "set (subs ((f(p := ev)) r)) \<subseteq> set (subs (f r))" for r
    using assms(4) set_remove1_subset[of q "subs (f p)"] by simp
  have ok: "ev_ok U (f(p := ev)) r" if "r \<in> U" for r
    using i(4)[OF that] assms(3,8) sub[of r] that unfolding ev_ok_def by auto
  have "set (subs ((f(p := ev)) r)) \<inter> set (subs ((f(p := ev)) t)) = {}" if "r \<in> U" "t \<in> U" "r \<noteq> t" for r t
    using i(5)[OF that] sub[of r] sub[of t] by blast
  with i ok show ?thesis
    unfolding evs_inv_def s by (intro conjI ballI impI; simp?; fast?)
qed

lemma collect_subevents_spec:
  assumes "es_wf es" "p \<in> used es" "EVENT_HDR_TYPE (ev_of es p) = META_EVENT_TYPE"
    and "ev_sub_events_initialized (ev_of es p)" "distinct qs" "set qs \<subseteq> set (subs (ev_of es p))"
  shows "\<exists>es'. collect_subevents p qs es = Inr (True, es') \<and> es_wf es'
           \<and> used es' = used es - {q \<in> set qs. ev_complete (ev_of es q)}
           \<and> ev_of es' p = (ev_of es p)\<lparr>ev_sub_events :=
               filter (\<lambda>q. q \<notin> set qs \<or> \<not> ev_complete (ev_of es q)) (subs (ev_of es p))\<rparr>
           \<and> (\<forall>q \<in> used es' - {p}. ev_of es' q = ev_of es q) \<and> es_ongoing_events es' = es_ongoing_events es
           \<and> es_posted_sends es' = es_posted_sends es"
  using assms
proof (induction qs arbitrary: es)
  case Nil
  have "ev_of es p\<lparr>ev_sub_events := subs (ev_of es p)\<rparr> = ev_of es p"
    using Nil.prems(4) by (simp add: subs_def)
  with Nil.prems show ?case
    by simp
next
  case (Cons q qs)
  have q: "q \<in> set (subs (ev_of es p))" "q \<notin> set qs" "q \<in> used es"
    using Cons.prems(5,6) es_wf_ev(2)[OF Cons.prems(1,2)] by auto
  have c: "child_ok (ev_of es q)" "local_ok (ev_of es q)" "local_ok (ev_of es p)"
    using es_wf_ev(3)[OF Cons.prems(1,2) q(1)] es_wf_ev(1)[OF Cons.prems(1) q(3)] es_wf_ev(1)[OF Cons.prems(1,2)] .
  have pq: "p \<noteq> q"
    using c(1) Cons.prems(3) by (auto simp: child_ok_def)
  show ?case
  proof (cases "ev_complete (ev_of es q)")
    case False
    from Cons.IH[OF Cons.prems(1-4)] Cons.prems(5,6) obtain es' where
      es': "collect_subevents p qs es = Inr (True, es')" "es_wf es'"
        "used es' = used es - {q \<in> set qs. ev_complete (ev_of es q)}"
        "ev_of es' p = (ev_of es p)\<lparr>ev_sub_events :=
           filter (\<lambda>q. q \<notin> set qs \<or> \<not> ev_complete (ev_of es q)) (subs (ev_of es p))\<rparr>"
        "\<forall>q \<in> used es' - {p}. ev_of es' q = ev_of es q" "es_ongoing_events es' = es_ongoing_events es"
        "es_posted_sends es' = es_posted_sends es"
      by auto
    have "r \<notin> set (q # qs) \<or> \<not> ev_complete (ev_of es r) \<longleftrightarrow> r \<notin> set qs \<or> \<not> ev_complete (ev_of es r)" for r
      using False by auto
    moreover have "{r \<in> set (q # qs). ev_complete (ev_of es r)} = {r \<in> set qs. ev_complete (ev_of es r)}"
      using False by auto
    moreover have "collect_subevents p (q # qs) es = Inr (True, es')"
      using False c(1) es'(1) by (simp add: child_ok_def)
    ultimately show ?thesis
      using es'(2-) by (intro exI[of _ es']) presburger
  next
    case True
    let ?f = "\<lambda>ev. ev\<lparr>ev_sub_events := remove1 q (ev_sub_events ev)\<rparr>"
    let ?es0 = "ev_upd p ?f es"
    let ?es1 = "ev_upd q (\<lambda>ev. ev\<lparr>ev_is_subevent := False\<rparr>) ?es0"
    have s: "subs (?f (ev_of es p)) = remove1 q (subs (ev_of es p))"
      using Cons.prems(4) by (simp add: subs_def)
    have "local_ok (?f (ev_of es p))"
      using c(3) s by (auto simp: local_ok_def)
    then have wf0: "es_wf ?es0"
      using Cons.prems(1,2) s free_used[OF Cons.prems(2)]
        evs_inv_unsub[OF es_wf_inv[OF Cons.prems(1)] Cons.prems(2), of "?f (ev_of es p)" q]
      by (auto simp: es_wf_def child_ok_def owned_def)
    have ns: "q \<notin> set (subs (ev_of ?es0 r))" if "r \<in> used es" for r
    proof (cases "r = p")
      case True
      with s c(3) show ?thesis
        by (simp add: local_ok_def)
    next
      case False
      with evs_invD(5)[OF es_wf_inv[OF Cons.prems(1)] that Cons.prems(2)] q(1) show ?thesis
        by auto
    qed
    have "ev_of ?es0 q = ev_of es q"
      using pq by simp
    then have "es_wf ?es1"
      using q(3) c(1,2) ns by (intro es_wf_upd[OF wf0]) (simp_all add: local_ok_def child_ok_def)
    moreover have "loose (used ?es1) (ev_of ?es1) q"
      using ns ns[OF q(3)] q(3) pq c(1) by (simp add: loose_def child_ok_def)
    moreover have "subs (ev_of ?es1 q) = []" "ev_req (ev_of ?es1 q) = No_request"
      using c(1,2) pq True by (auto simp: child_ok_def local_ok_def)
    ultimately obtain es2 where es2: "do_event_return q ?es1 = Inr (EVENT_DONE, es2)" "es_wf es2"
        "used es2 = used es - {q}" "\<forall>r \<in> - {q}. ev_of es2 r = ev_of ?es1 r"
        "es_ongoing_events es2 = es_ongoing_events es" "es_posted_sends es2 = es_posted_sends es"
      using do_event_return_wf[of ?es1 q] by auto
    have p2: "ev_of es2 p = ?f (ev_of es p)"
      using es2(4) pq by simp
    have other: "ev_of es2 r = ev_of es r" if "r \<noteq> p" "r \<noteq> q" for r
    proof -
      have "ev_of es2 r = ev_of ?es1 r"
        using es2(4) that(2) by blast
      with that show ?thesis
        by simp
    qed
    have "set qs \<subseteq> set (subs (ev_of es2 p))"
      using Cons.prems(5,6) s c(3) unfolding p2 by (auto simp: local_ok_def)
    then obtain es' where es': "collect_subevents p qs es2 = Inr (True, es')" "es_wf es'"
        "used es' = used es2 - {q \<in> set qs. ev_complete (ev_of es2 q)}"
        "ev_of es' p = (ev_of es2 p)\<lparr>ev_sub_events :=
           filter (\<lambda>q. q \<notin> set qs \<or> \<not> ev_complete (ev_of es2 q)) (subs (ev_of es2 p))\<rparr>"
        "\<forall>q \<in> used es' - {p}. ev_of es' q = ev_of es2 q" "es_ongoing_events es' = es_ongoing_events es2"
        "es_posted_sends es' = es_posted_sends es2"
      using Cons.IH[OF es2(2)] Cons.prems(2-5) es2(3) pq p2 by auto
    have np: "p \<notin> set (subs (ev_of es p))"
      using es_wf_ev(3)[OF Cons.prems(1,2), of p] Cons.prems(3) by (auto simp: child_ok_def)
    have "collect_subevents p (q # qs) es = Inr (True, es')"
      using True c(1) es2(1) es'(1) by (simp add: child_ok_def)
    moreover have "{r \<in> set qs. ev_complete (ev_of es2 r)} = {r \<in> set qs. ev_complete (ev_of es r)}"
      using other Cons.prems(5,6) np by (metis (mono_tags, lifting) Collect_cong distinct.simps(2) list.set_intros(2) subsetD)
    then have "used es' = used es - {r \<in> set (q # qs). ev_complete (ev_of es r)}"
      using es'(3) es2(3) True by auto
    moreover have "filter (\<lambda>r. r \<notin> set qs \<or> \<not> ev_complete (ev_of es2 r)) (remove1 q (subs (ev_of es p)))
        = filter (\<lambda>r. r \<notin> set (q # qs) \<or> \<not> ev_complete (ev_of es r)) (subs (ev_of es p))"
    proof -
      have "distinct (subs (ev_of es p))"
        using c(3) by (simp add: local_ok_def)
      then have "remove1 q (subs (ev_of es p)) = filter (\<lambda>r. r \<noteq> q) (subs (ev_of es p))"
        by (simp add: distinct_remove1_removeAll removeAll_filter_not_eq) metis
      moreover have "r \<noteq> q \<and> (r \<notin> set qs \<or> \<not> ev_complete (ev_of es2 r))
          \<longleftrightarrow> r \<notin> set (q # qs) \<or> \<not> ev_complete (ev_of es r)" if "r \<in> set (subs (ev_of es p))" for r
        using that np other[of r] True q(2) by (cases "r = q"; cases "r = p") simp_all
      ultimately show ?thesis
        by (simp only: filter_filter) (rule filter_cong[OF refl])
    qed
    then have "ev_of es' p = (ev_of es p)\<lparr>ev_sub_events :=
        filter (\<lambda>r. r \<notin> set (q # qs) \<or> \<not> ev_complete (ev_of es r)) (subs (ev_of es p))\<rparr>"
      using es'(4) p2 s by simp
    moreover have "ev_of es' r = ev_of es r" if "r \<in> used es' - {p}" for r
    proof -
      have "r \<noteq> q" "r \<noteq> p"
        using that es'(3) es2(3) by auto
      with es'(5) that other show ?thesis
        by simp
    qed
    ultimately show ?thesis
      using es'(2,6,7) es2(5,6) by (intro exI[of _ es']) simp
  qed
qed

section \<open>Completion and progress\<close>

text \<open>A completion callback, if there is one, that does not use the event system, and users none of whose
  callbacks and handlers does.\<close>

definition silent :: "ev_env \<Rightarrow> nat option \<Rightarrow> bool" where
  "silent env c = (\<forall>cb. c = Some cb \<longrightarrow> (\<forall>es. env_completion env cb es = Inr es))"

definition quiet :: "ev_env \<Rightarrow> bool" where
  "quiet env = ((\<forall>c. silent env c) \<and> (\<forall>hdr b es. env_deliver env hdr b es = Inr (True, es)))"

definition finished :: "ev_sys_t \<Rightarrow> ptr \<Rightarrow> bool" where
  "finished es p =
     (if EVENT_HDR_TYPE (ev_of es p) = META_EVENT_TYPE
      then \<forall>q \<in> set (subs (ev_of es p)). ev_complete (ev_of es q) else ev_complete (ev_of es p))"

definition done_subs :: "ev_sys_t \<Rightarrow> ptr \<Rightarrow> ptr set" where
  "done_subs es p = {q \<in> set (subs (ev_of es p)). ev_complete (ev_of es q)}"

lemma complete_silent:
  assumes "silent env (ev_completion_cb (ev_of es p))"
  shows "COMPLETE_EVENT env p es = Inr (ev_upd p (\<lambda>ev. ev\<lparr>ev_complete := True, ev_completion_cb := None\<rparr>) es)"
proof (cases "ev_completion_cb (ev_of es p)")
  case None
  then have "(ev_of es p)\<lparr>ev_complete := True\<rparr> = (ev_of es p)\<lparr>ev_complete := True, ev_completion_cb := None\<rparr>"
    by (cases "ev_of es p") simp
  with None show ?thesis
    unfolding COMPLETE_EVENT_def ev_upd_def Let_def by (simp only: option.case)
next
  case (Some cb)
  then show ?thesis
    using assms by (simp add: COMPLETE_EVENT_def silent_def ev_upd_twice Let_def)
qed

text \<open>What stays of an event that is checked for completion.\<close>

definition checked :: "dpu_offload_event_t \<Rightarrow> dpu_offload_event_t \<Rightarrow> bool" where
  "checked ev ev' =
     (ev_hdr ev' = ev_hdr ev \<and> ev_is_ongoing_event ev' = ev_is_ongoing_event ev
      \<and> ev_is_subevent ev' = ev_is_subevent ev \<and> ev_was_posted ev' = ev_was_posted ev \<and> ev_req ev' = ev_req ev
      \<and> ev_sub_events_initialized ev' = ev_sub_events_initialized ev)"

lemma complete_wf:
  assumes "es_wf es" "p \<in> used es" "ev_req (ev_of es p) = No_request"
  shows "es_wf (ev_upd p (\<lambda>ev. ev\<lparr>ev_complete := True, ev_completion_cb := None\<rparr>) es)"
  using es_wf_ev(1)[OF assms(1,2)] assms(2,3)
  by (intro es_wf_upd[OF assms(1)]) (simp_all add: local_ok_def child_ok_def)

lemma event_completed_spec:
  assumes "es_wf es" "p \<in> used es" "finished es p \<Longrightarrow> silent env (ev_completion_cb (ev_of es p))"
  shows "\<exists>es'. event_completed env p es = Inr (finished es p, es') \<and> es_wf es' \<and> used es' = used es - done_subs es p
           \<and> (\<forall>q \<in> used es' - {p}. ev_of es' q = ev_of es q) \<and> checked (ev_of es p) (ev_of es' p)
           \<and> (if finished es p then subs (ev_of es' p) = [] \<and> ev_req (ev_of es' p) = No_request
              else ev_complete (ev_of es' p) = ev_complete (ev_of es p)
                \<and> subs (ev_of es' p) = filter (\<lambda>q. \<not> ev_complete (ev_of es q)) (subs (ev_of es p)))
           \<and> es_ongoing_events es' = es_ongoing_events es \<and> es_posted_sends es' = es_posted_sends es"
proof (cases "EVENT_HDR_TYPE (ev_of es p) = META_EVENT_TYPE")
  case False
  note l = es_wf_ev(1)[OF assms(1,2)]
  have s: "subs (ev_of es p) = []"
    using l False by (auto simp: local_ok_def)
  then have d: "done_subs es p = {}"
    by (simp add: done_subs_def)
  show ?thesis
  proof (cases "ev_complete (ev_of es p)")
    case True
    let ?es = "ev_upd p (\<lambda>ev. ev\<lparr>ev_complete := True, ev_completion_cb := None\<rparr>) es"
    have "event_completed env p es = Inr (True, ?es)"
      using False True assms(3) by (simp add: event_completed_def complete_silent finished_def)
    moreover have "es_wf ?es"
      using assms l True by (intro complete_wf) (simp_all add: local_ok_def)
    ultimately show ?thesis
      using False True s d l by (intro exI[of _ ?es]) (simp add: finished_def checked_def local_ok_def)
  next
    case f: False
    have "event_completed env p es = Inr (False, es)"
      using False f l by (simp add: event_completed_def local_ok_def)
    then show ?thesis
      using False f s d assms(1) by (intro exI[of _ es]) (simp add: finished_def checked_def)
  qed
next
  case True
  note l = es_wf_ev(1)[OF assms(1,2)]
  let ?S = "filter (\<lambda>q. \<not> ev_complete (ev_of es q)) (subs (ev_of es p))"
  obtain es1 where es1: "(if ev_sub_events_initialized (ev_of es p) then collect_subevents p (ev_sub_events (ev_of es p)) es
        else Inr (True, es)) = Inr (True, es1)" "es_wf es1" "used es1 = used es - done_subs es p"
      "\<forall>q \<in> used es1 - {p}. ev_of es1 q = ev_of es q" "checked (ev_of es p) (ev_of es1 p)"
      "subs (ev_of es1 p) = ?S" "ev_complete (ev_of es1 p) = ev_complete (ev_of es p)"
      "ev_completion_cb (ev_of es1 p) = ev_completion_cb (ev_of es p)"
      "es_ongoing_events es1 = es_ongoing_events es" "es_posted_sends es1 = es_posted_sends es"
  proof (cases "ev_sub_events_initialized (ev_of es p)")
    case init: True
    have "distinct (subs (ev_of es p))"
      using l by (simp add: local_ok_def)
    from collect_subevents_spec[OF assms(1,2) True init this subset_refl] obtain es1 where
      e: "collect_subevents p (subs (ev_of es p)) es = Inr (True, es1)" "es_wf es1"
        "used es1 = used es - done_subs es p"
        "ev_of es1 p = (ev_of es p)\<lparr>ev_sub_events :=
           filter (\<lambda>q. q \<notin> set (subs (ev_of es p)) \<or> \<not> ev_complete (ev_of es q)) (subs (ev_of es p))\<rparr>"
        "\<forall>q \<in> used es1 - {p}. ev_of es1 q = ev_of es q" "es_ongoing_events es1 = es_ongoing_events es"
        "es_posted_sends es1 = es_posted_sends es"
      by (auto simp: done_subs_def)
    have "filter (\<lambda>q. q \<notin> set (subs (ev_of es p)) \<or> \<not> ev_complete (ev_of es q)) (subs (ev_of es p)) = ?S"
      by (rule filter_cong) simp_all
    with e(4) have p: "ev_of es1 p = (ev_of es p)\<lparr>ev_sub_events := ?S\<rparr>"
      by simp
    have sub: "subs (ev_of es p) = ev_sub_events (ev_of es p)"
      using init by (simp add: subs_def)
    show ?thesis
      using e(1-3,5-) init sub p by (intro that[of es1]) (simp_all add: checked_def subs_def)
  next
    case init: False
    then show ?thesis
      using assms(1) by (intro that[of es]) (auto simp: done_subs_def checked_def subs_def)
  qed
  have fin: "finished es p \<longleftrightarrow> ?S = []"
    using True by (auto simp: finished_def filter_empty_conv)
  have np: "p \<notin> done_subs es p"
    using es_wf_ev(3)[OF assms(1,2), of p] True by (auto simp: done_subs_def child_ok_def)
  have stop: "\<not> ev_sub_events_initialized (ev_of es1 p) \<or> ev_sub_events (ev_of es1 p) = [] \<longleftrightarrow> ?S = []"
    using es1(6) by (auto simp: subs_def split: if_splits)
  show ?thesis
  proof (cases "?S = []")
    case nil: True
    let ?es = "ev_upd p (\<lambda>ev. ev\<lparr>ev_complete := True, ev_completion_cb := None\<rparr>) es1"
    have req: "ev_req (ev_of es1 p) = No_request"
      using es1(5) True l by (simp add: checked_def local_ok_def)
    have "event_completed env p es = Inr (True, ?es)"
      using True l es1(1) stop nil assms(3) fin es1(8) by (simp add: event_completed_def complete_silent local_ok_def)
    moreover have "es_wf ?es"
      using es1(2,3) assms(2) np req by (intro complete_wf) simp_all
    ultimately show ?thesis
      using es1 fin nil req by (intro exI[of _ ?es]) (simp add: checked_def)
  next
    case False
    have "event_completed env p es = Inr (False, es1)"
      using True l es1(1) stop False by (simp add: event_completed_def local_ok_def)
    then show ?thesis
      using es1 fin False by (intro exI[of _ es1]) simp
  qed
qed

section \<open>Progress\<close>

text \<open>An ongoing event leaves the list and is no longer counted as posted.\<close>

lemma evs_inv_retire:
  assumes "evs_inv U f os ps bs nb" "p \<in> set os" "local_ok ev" "subs ev = subs (f p)"
    and "\<not> ev_is_ongoing_event ev" "owned ev = owned (f p)" "\<not> ev_was_posted ev"
    and "ps' = (if ev_was_posted (f p) then ps - 1 else ps)"
  shows "evs_inv U (f(p := ev)) (remove1 p os) ps' bs nb"
proof -
  note i = evs_invD[OF assms(1)]
  have p: "p \<in> U" "ev_is_ongoing_event (f p)"
    using assms(2) i(3) by auto
  have s: "subs ((f(p := ev)) q) = subs (f q)" "owned ((f(p := ev)) q) = owned (f q)" for q
    using assms by auto
  have "\<not> child_ok (f p)"
    using p(2) by (simp add: child_ok_def)
  then have ok: "ev_ok U (f(p := ev)) q" if "q \<in> U" for q
    using i(4)[OF that] assms(3) that unfolding ev_ok_def s by (auto simp: assms(4))
  have "set (remove1 p os) = {q \<in> U. ev_is_ongoing_event ((f(p := ev)) q)}"
    using i(2,3) assms(5) by auto
  moreover have "{q \<in> U. ev_was_posted ((f(p := ev)) q)} = {q \<in> U. ev_was_posted (f q)} - {p}"
    using assms(7) by auto
  then have "card {q \<in> U. ev_was_posted ((f(p := ev)) q)}
      = card {q \<in> U. ev_was_posted (f q)} - (if ev_was_posted (f p) then 1 else 0)"
    using p(1) i(1) by simp
  then have "card {q \<in> U. ev_was_posted ((f(p := ev)) q)} \<le> ps'"
    using diff_le_mono[OF i(10), of 1] i(10) assms(8) by simp
  ultimately show ?thesis
    using i ok unfolding evs_inv_def s by (intro conjI ballI impI; simp)
qed

definition retire :: "ptr \<Rightarrow> ev_sys_t \<Rightarrow> ev_sys_t res" where
  "retire p es =
     bindE (del_ongoing p es) (\<lambda>es2.
     bindE (unpost p (ev_upd p (\<lambda>ev. ev\<lparr>ev_is_ongoing_event := False\<rparr>) es2)) (\<lambda>es3.
     bindE (event_return p es3) (\<lambda>(rc, es4). Inr es4)))"

lemma es_wf_ongoing:
  assumes "es_wf es" "p \<in> set (es_ongoing_events es)"
  shows "p \<in> used es" "ev_is_ongoing_event (ev_of es p)" "\<not> ev_is_subevent (ev_of es p)"
    "r \<in> used es \<Longrightarrow> p \<notin> set (subs (ev_of es r))" "local_ok (ev_of es p)"
proof -
  show p: "p \<in> used es" "ev_is_ongoing_event (ev_of es p)"
    using evs_invD(3)[OF es_wf_inv[OF assms(1)]] assms(2) by auto
  show l: "local_ok (ev_of es p)"
    using es_wf_ev(1)[OF assms(1) p(1)] .
  then show "\<not> ev_is_subevent (ev_of es p)"
    using p(2) by (simp add: local_ok_def)
  show "p \<notin> set (subs (ev_of es r))" if "r \<in> used es"
    using es_wf_ev(3)[OF assms(1) that, of p] p(2) by (auto simp: child_ok_def)
qed

text \<open>The list of ongoing events and the counters of the system next to a change of an event.\<close>

lemma unpost_spec:
  assumes "ev_was_posted (ev_of es p) \<Longrightarrow> 0 < es_posted_sends es"
  shows "\<exists>es'. unpost p es = Inr es' \<and> es' = (ev_upd p (\<lambda>ev. ev\<lparr>ev_was_posted := False\<rparr>) es)\<lparr>es_posted_sends :=
           (if ev_was_posted (ev_of es p) then es_posted_sends es - 1 else es_posted_sends es)\<rparr>"
proof (cases "ev_was_posted (ev_of es p)")
  case True
  then show ?thesis
    using assms by (simp add: unpost_def ev_upd_def ev_of_def)
next
  case False
  then have "(ev_of es p)\<lparr>ev_was_posted := False\<rparr> = ev_of es p"
    by (cases "ev_of es p") simp
  then have "ev_upd p (\<lambda>ev. ev\<lparr>ev_was_posted := False\<rparr>) es = es"
    by (simp add: ev_upd_def) (simp add: ev_of_def)
  with False show ?thesis
    by (simp add: unpost_def)
qed

lemma retire_spec:
  assumes "es_wf es" "p \<in> set (es_ongoing_events es)" "subs (ev_of es p) = []" "ev_req (ev_of es p) = No_request"
  shows "\<exists>es'. retire p es = Inr es' \<and> es_wf es' \<and> used es' = used es - {p}
           \<and> (\<forall>q \<in> - {p}. ev_of es' q = ev_of es q) \<and> es_ongoing_events es' = remove1 p (es_ongoing_events es)
           \<and> es_posted_sends es' = es_posted_sends es - (if ev_was_posted (ev_of es p) then 1 else 0)"
proof -
  note p = es_wf_ongoing[OF assms(1,2)]
  note inv = es_wf_inv[OF assms(1)]
  let ?es1 = "ev_upd p (\<lambda>ev. ev\<lparr>ev_is_ongoing_event := False\<rparr>)
      (es\<lparr>es_ongoing_events := remove1 p (es_ongoing_events es)\<rparr>)"
  let ?ev = "(ev_of es p)\<lparr>ev_is_ongoing_event := False, ev_was_posted := False\<rparr>"
  let ?ps = "if ev_was_posted (ev_of es p) then es_posted_sends es - 1 else es_posted_sends es"
  have "0 < es_posted_sends es" if "ev_was_posted (ev_of es p)"
  proof -
    have "p \<in> {q \<in> used es. ev_was_posted (ev_of es q)}" "finite {q \<in> used es. ev_was_posted (ev_of es q)}"
      using p(1) that evs_invD(1)[OF inv] by simp_all
    then have "0 < card {q \<in> used es. ev_was_posted (ev_of es q)}"
      by (simp only: card_gt_0_iff) fast
    with evs_invD(10)[OF inv] show ?thesis
      by simp
  qed
  then obtain es2 where es2: "unpost p ?es1 = Inr es2"
      "es2 = (ev_upd p (\<lambda>ev. ev\<lparr>ev_was_posted := False\<rparr>) ?es1)\<lparr>es_posted_sends := ?ps\<rparr>"
    using unpost_spec[of ?es1 p] by (auto simp: ev_upd_def ev_of_def)
  have e2: "ev_of es2 = (ev_of es)(p := ?ev)" "used es2 = used es" "es_posted_sends es2 = ?ps"
      "es_ongoing_events es2 = remove1 p (es_ongoing_events es)"
    unfolding es2(2) by (simp_all add: ev_upd_def) (simp_all add: ev_of_def fun_eq_iff)
  have "local_ok ?ev"
    using p(5) by (simp add: local_ok_def)
  then have "evs_inv (used es) ((ev_of es)(p := ?ev)) (remove1 p (es_ongoing_events es)) ?ps (es_bufs es) (es_next_buf es)"
    by (intro evs_inv_retire[OF inv assms(2)]) simp_all
  moreover have "es_num_used_evs es2 = es_num_used_evs es" "es_bufs es2 = es_bufs es" "es_next_buf es2 = es_next_buf es"
      "dl_free (es_free_evs es2) = dl_free (es_free_evs es)" "es_heap es2 = es_heap es"
      "dl_element_init_cb (es_free_evs es2) = dl_element_init_cb (es_free_evs es)"
      "dl_wf sizeof_event (es_free_evs es2) h = dl_wf sizeof_event (es_free_evs es) h" for h
    unfolding es2(2) by (simp_all add: ev_upd_def)
  ultimately have wf2: "es_wf es2"
    using assms(1) e2 free_used[OF p(1)] unfolding es_wf_def by auto
  have lo: "loose (used es2) (ev_of es2) p" "subs (ev_of es2 p) = []" "ev_req (ev_of es2 p) = No_request"
    using p(1,4) assms(3,4) e2 by (simp_all add: loose_def)
  from do_event_return_wf[OF wf2 lo] obtain es' where es': "do_event_return p es2 = Inr (EVENT_DONE, es')" "es_wf es'"
      "used es' = used es2 - {p}" "\<forall>q \<in> - {p}. ev_of es' q = ev_of es2 q"
      "es_ongoing_events es' = es_ongoing_events es2" "es_posted_sends es' = es_posted_sends es2"
    by blast
  have "retire p es = Inr es'"
    using assms(2) es2(1) es'(1) e2(1) by (simp add: retire_def del_ongoing_def event_return_def)
  then show ?thesis
    using es' e2 by (intro exI[of _ es']) simp
qed

definition gone :: "ev_sys_t \<Rightarrow> ptr \<Rightarrow> ptr set" where
  "gone es p = done_subs es p \<union> (if finished es p then {p} else {})"

text \<open>What one iteration does after the check for completion.\<close>

lemma progress_event_body_checked:
  assumes "es_wf es" "p \<in> set (es_ongoing_events es)" "event_completed env p es = Inr (finished es p, es1)"
    and "es_wf es1" "p \<in> set (es_ongoing_events es1)" "checked (ev_of es p) (ev_of es1 p)"
    and "\<not> finished es p \<Longrightarrow> ev_complete (ev_of es1 p) = ev_complete (ev_of es p)"
  shows "progress_event_body env p es = (if finished es p then retire p es1 else Inr es1)"
proof -
  note p = es_wf_ongoing[OF assms(1,2)] and p1 = es_wf_ongoing[OF assms(4,5)]
  have flags: "ev_upd p (\<lambda>ev. ev\<lparr>ev_is_ongoing_event := False, ev_is_subevent := False\<rparr>)
        (es1\<lparr>es_ongoing_events := os\<rparr>)
      = ev_upd p (\<lambda>ev. ev\<lparr>ev_is_ongoing_event := False\<rparr>) (es1\<lparr>es_ongoing_events := os\<rparr>)" for os
    using p1(3) by (cases "ev_of es1 p") (simp add: ev_upd_def)
  have posted: "event_posted (ev_of es1 p)" if "EVENT_HDR_TYPE (ev_of es p) \<noteq> META_EVENT_TYPE" "\<not> finished es p"
    using that p1(2,5) assms(6,7) by (auto simp: local_ok_def event_posted_def finished_def checked_def)
  show ?thesis
    using p(2,5) p1(2) assms(3,5) posted flags
    by (simp add: progress_event_body_def PROGRESS_EVENT_SEND_def retire_def del_ongoing_def local_ok_def)
qed

text \<open>One iteration.\<close>

lemma progress_event_body_spec:
  assumes "es_wf es" "p \<in> set (es_ongoing_events es)"
    and "finished es p \<Longrightarrow> silent env (ev_completion_cb (ev_of es p))"
  shows "\<exists>es'. progress_event_body env p es = Inr es' \<and> es_wf es' \<and> used es' = used es - gone es p
           \<and> (\<forall>q \<in> used es' - {p}. ev_of es' q = ev_of es q)
           \<and> es_ongoing_events es' = (if finished es p then remove1 p (es_ongoing_events es) else es_ongoing_events es)
           \<and> es_posted_sends es' = es_posted_sends es - (if finished es p \<and> ev_was_posted (ev_of es p) then 1 else 0)
           \<and> (\<not> finished es p \<longrightarrow> checked (ev_of es p) (ev_of es' p)
                \<and> subs (ev_of es' p) = filter (\<lambda>q. \<not> ev_complete (ev_of es q)) (subs (ev_of es p)))"
proof -
  note p = es_wf_ongoing[OF assms(1,2)]
  from event_completed_spec[OF assms(1) p(1) assms(3)] obtain es1 where
    es1: "event_completed env p es = Inr (finished es p, es1)" "es_wf es1" "used es1 = used es - done_subs es p"
      "\<forall>q \<in> used es1 - {p}. ev_of es1 q = ev_of es q" "checked (ev_of es p) (ev_of es1 p)"
      "if finished es p then subs (ev_of es1 p) = [] \<and> ev_req (ev_of es1 p) = No_request
       else ev_complete (ev_of es1 p) = ev_complete (ev_of es p)
         \<and> subs (ev_of es1 p) = filter (\<lambda>q. \<not> ev_complete (ev_of es q)) (subs (ev_of es p))"
      "es_ongoing_events es1 = es_ongoing_events es" "es_posted_sends es1 = es_posted_sends es"
    by blast
  have on1: "p \<in> set (es_ongoing_events es1)"
    using assms(2) es1(7) by simp
  have body: "progress_event_body env p es = (if finished es p then retire p es1 else Inr es1)"
    using es1(6) by (intro progress_event_body_checked[OF assms(1,2) es1(1,2) on1 es1(5)]) simp
  show ?thesis
  proof (cases "finished es p")
    case True
    with es1(6) have "subs (ev_of es1 p) = []" "ev_req (ev_of es1 p) = No_request"
      by simp_all
    from retire_spec[OF es1(2) on1 this] obtain es' where
      "retire p es1 = Inr es'" "es_wf es'" "used es' = used es1 - {p}" "\<forall>q \<in> - {p}. ev_of es' q = ev_of es1 q"
      "es_ongoing_events es' = remove1 p (es_ongoing_events es1)"
      "es_posted_sends es' = es_posted_sends es1 - (if ev_was_posted (ev_of es1 p) then 1 else 0)"
      by blast
    with True body es1(3,4,5,7,8) show ?thesis
      by (intro exI[of _ es']) (auto simp: gone_def checked_def)
  next
    case False
    with body es1 show ?thesis
      by (intro exI[of _ es1]) (simp add: gone_def)
  qed
qed

text \<open>The events an iteration does not work on keep their state.\<close>

lemma progress_keeps:
  assumes "es_wf es" "p \<in> set (es_ongoing_events es)" "q \<in> set (es_ongoing_events es)" "p \<noteq> q"
    and "used es' = used es - gone es p" "\<forall>q \<in> used es' - {p}. ev_of es' q = ev_of es q"
  shows "ev_of es' q = ev_of es q" "finished es' q = finished es q" "gone es' q = gone es q"
    "\<forall>r \<in> set (subs (ev_of es q)). ev_of es' r = ev_of es r"
proof -
  note p = es_wf_ongoing[OF assms(1,2)] and q = es_wf_ongoing[OF assms(1,3)]
  have nd: "q \<notin> done_subs es p"
    using q(4)[OF p(1)] by (simp add: done_subs_def)
  then have "q \<in> used es' - {p}"
    using q(1) assms(4,5) by (simp add: gone_def)
  with assms(6) show e: "ev_of es' q = ev_of es q"
    by blast
  have "r \<in> used es' - {p}" if "r \<in> set (subs (ev_of es q))" for r
  proof -
    have "r \<noteq> p"
      using that p(4)[OF q(1)] by blast
    moreover have "r \<notin> done_subs es p"
      using that evs_invD(5)[OF es_wf_inv[OF assms(1)] p(1) q(1) assms(4)] by (auto simp: done_subs_def)
    ultimately show ?thesis
      using that es_wf_ev(2)[OF assms(1) q(1)] assms(5) by (auto simp: gone_def)
  qed
  with assms(6) show c: "\<forall>r \<in> set (subs (ev_of es q)). ev_of es' r = ev_of es r"
    by blast
  then show f: "finished es' q = finished es q"
    using e by (simp add: finished_def)
  have "done_subs es' q = done_subs es q"
    using c e by (auto simp: done_subs_def)
  with f show "gone es' q = gone es q"
    by (simp add: gone_def)
qed

abbreviation first_of :: "'a list \<Rightarrow> 'a option" where
  "first_of xs \<equiv> (case xs of [] \<Rightarrow> None | x # ys \<Rightarrow> Some x)"

lemma next_in_append:
  "p \<notin> set pre \<Longrightarrow> next_in (pre @ p # post) p = first_of post"
proof (induction pre)
  case Nil
  show ?case
    by (cases post) simp_all
next
  case (Cons x pre)
  then show ?case
    by (cases pre) auto
qed

definition shrunk :: "ev_sys_t \<Rightarrow> ev_sys_t \<Rightarrow> ptr \<Rightarrow> bool" where
  "shrunk es es' p =
     (checked (ev_of es p) (ev_of es' p)
      \<and> subs (ev_of es' p) = filter (\<lambda>q. \<not> ev_complete (ev_of es q)) (subs (ev_of es p)))"

lemma progress_loop_spec:
  assumes "es_wf es" "es_ongoing_events es = pre @ post"
    and "\<forall>p \<in> set post. finished es p \<longrightarrow> silent env (ev_completion_cb (ev_of es p))" "length post \<le> n"
  shows "\<exists>es'. progress_loop env n (first_of post) es = Inr es' \<and> es_wf es'
           \<and> used es' = used es - (\<Union>p \<in> set post. gone es p)
           \<and> es_ongoing_events es' = pre @ filter (\<lambda>p. \<not> finished es p) post
           \<and> es_posted_sends es' = es_posted_sends es - length (filter (\<lambda>p. finished es p \<and> ev_was_posted (ev_of es p)) post)
           \<and> (\<forall>q \<in> used es' - set post. ev_of es' q = ev_of es q)
           \<and> (\<forall>p \<in> set post. \<not> finished es p \<longrightarrow> shrunk es es' p)"
  using assms
proof (induction post arbitrary: es pre n)
  case Nil
  then show ?case
    by (cases n) simp_all
next
  case (Cons p post)
  obtain m where m: "n = Suc m" "length post \<le> m"
    using Cons.prems(4) by (cases n) simp_all
  have on: "p \<in> set (es_ongoing_events es)"
    using Cons.prems(2) by simp
  have d: "distinct (pre @ p # post)"
    using evs_invD(2)[OF es_wf_inv[OF Cons.prems(1)]] Cons.prems(2) by simp
  have "finished es p \<Longrightarrow> silent env (ev_completion_cb (ev_of es p))"
    using Cons.prems(3) by simp
  from progress_event_body_spec[OF Cons.prems(1) on this] obtain es1 where
    es1: "progress_event_body env p es = Inr es1" "es_wf es1" "used es1 = used es - gone es p"
      "\<forall>q \<in> used es1 - {p}. ev_of es1 q = ev_of es q"
      "es_ongoing_events es1 = (if finished es p then remove1 p (es_ongoing_events es) else es_ongoing_events es)"
      "es_posted_sends es1 = es_posted_sends es - (if finished es p \<and> ev_was_posted (ev_of es p) then 1 else 0)"
      "\<not> finished es p \<longrightarrow> shrunk es es1 p"
    unfolding shrunk_def by blast
  have k: "ev_of es1 q = ev_of es q" "finished es1 q = finished es q" "gone es1 q = gone es q"
      "\<forall>r \<in> set (subs (ev_of es q)). ev_of es1 r = ev_of es r" if "q \<in> set post" for q
  proof -
    have "q \<in> set (es_ongoing_events es)" "p \<noteq> q"
      using that Cons.prems(2) d by auto
    from progress_keeps[OF Cons.prems(1) on this es1(3,4)]
    show "ev_of es1 q = ev_of es q" "finished es1 q = finished es q" "gone es1 q = gone es q"
      "\<forall>r \<in> set (subs (ev_of es q)). ev_of es1 r = ev_of es r" .
  qed
  have "es_ongoing_events es1 = (if finished es p then pre else pre @ [p]) @ post"
    using es1(5) Cons.prems(2) d by (simp add: remove1_append)
  moreover have "\<forall>q \<in> set post. finished es1 q \<longrightarrow> silent env (ev_completion_cb (ev_of es1 q))"
    using Cons.prems(3) k(1,2) by simp
  ultimately obtain es' where
    es': "progress_loop env m (first_of post) es1 = Inr es'" "es_wf es'"
      "used es' = used es1 - (\<Union>p \<in> set post. gone es1 p)"
      "es_ongoing_events es' = (if finished es p then pre else pre @ [p]) @ filter (\<lambda>p. \<not> finished es1 p) post"
      "es_posted_sends es' = es_posted_sends es1 - length (filter (\<lambda>p. finished es1 p \<and> ev_was_posted (ev_of es1 p)) post)"
      "\<forall>q \<in> used es' - set post. ev_of es' q = ev_of es1 q"
      "\<forall>p \<in> set post. \<not> finished es1 p \<longrightarrow> shrunk es1 es' p"
    using Cons.IH[OF es1(2) _ _ m(2)] by blast
  have filt: "filter (\<lambda>p. \<not> finished es1 p) post = filter (\<lambda>p. \<not> finished es p) post"
      "filter (\<lambda>p. finished es1 p \<and> ev_was_posted (ev_of es1 p)) post
       = filter (\<lambda>p. finished es p \<and> ev_was_posted (ev_of es p)) post"
    using k by (auto intro!: filter_cong)
  have loop: "progress_loop env n (first_of (p # post)) es = Inr es'"
    using Cons.prems(2) d es1(1) es'(1) m(1) by (simp add: next_in_append)
  have used: "used es' = used es - (\<Union>q \<in> set (p # post). gone es q)"
    using es'(3) es1(3) k(3) by auto
  have keep: "ev_of es' q = ev_of es q" if "q \<in> used es' - set (p # post)" for q
  proof -
    have "q \<in> used es1 - {p}" "q \<in> used es' - set post"
      using that es'(3) by auto
    with es1(4) es'(6) show ?thesis
      by simp
  qed
  have sh: "shrunk es es' q" if "q \<in> set (p # post)" "\<not> finished es q" for q
  proof (cases "q = p")
    case True
    have "p \<notin> gone es r" if "r \<in> set (p # post)" for r
    proof -
      have "r \<in> used es"
        using that Cons.prems(2) es_wf_ongoing(1)[OF Cons.prems(1), of r] by auto
      then have "p \<notin> done_subs es r"
        using es_wf_ongoing(4)[OF Cons.prems(1) on] by (simp add: done_subs_def)
      then show ?thesis
        using \<open>\<not> finished es q\<close> True that d by (auto simp: gone_def)
    qed
    then have "p \<in> used es' - set post"
      using used es_wf_ongoing(1)[OF Cons.prems(1) on] d by simp
    then show ?thesis
      using True es'(6) es1(7) that(2) by (simp add: shrunk_def)
  next
    case False
    then have q: "q \<in> set post"
      using that(1) by simp
    then have "shrunk es1 es' q"
      using es'(7) k(2) that(2) by blast
    moreover have "filter (\<lambda>r. \<not> ev_complete (ev_of es1 r)) (subs (ev_of es q))
        = filter (\<lambda>r. \<not> ev_complete (ev_of es r)) (subs (ev_of es q))"
      using k(4)[OF q] by (intro filter_cong) simp_all
    ultimately show ?thesis
      using k(1)[OF q] by (simp add: shrunk_def)
  qed
  show ?case
    using loop es'(2) used es'(4,5) es1(6) filt keep sh by (intro exI[of _ es']) simp
qed

end
