(* ===== verification/Event_Steps.thy ===== *)
theory Event_Steps
imports Event_Invariants
begin

text \<open>
  Histories of the event system of a context: getting, preparing, emitting and returning events, sends that
  complete, and progress, with the invariant they keep.
\<close>

section \<open>Emitting events\<close>

text \<open>A change of an event nothing refers to, which may put it on the list of ongoing events and may count it
  as posted.\<close>

lemma evs_inv_loose:
  assumes "evs_inv U f os ps bs nb" "loose U f p" "local_ok ev" "subs ev = subs (f p)" "owned ev = owned (f p)"
    and "os' = os @ (if ev_is_ongoing_event ev then [p] else [])"
    and "ps' = ps + (if ev_was_posted ev \<and> \<not> ev_was_posted (f p) then 1 else 0)"
  shows "evs_inv U (f(p := ev)) os' ps' bs nb"
proof -
  note i = evs_invD[OF assms(1)]
  have p: "p \<in> U" "\<not> ev_is_ongoing_event (f p)" "\<forall>q \<in> U. p \<notin> set (subs (f q))"
    using assms(2) by (simp_all add: loose_def)
  have s: "subs ((f(p := ev)) q) = subs (f q)" "owned ((f(p := ev)) q) = owned (f q)" for q
    using assms by auto
  have ok: "ev_ok U (f(p := ev)) q" if "q \<in> U" for q
    using i(4)[OF that] p(3) assms(3) that unfolding ev_ok_def s by (auto simp: assms(4))
  have np: "p \<notin> set os"
    using i(3) p(2) by simp
  have os: "set os' = {q \<in> U. ev_is_ongoing_event ((f(p := ev)) q)}" "distinct os'"
    using i(2,3) p(1,2) np by (auto simp: assms(6))
  let ?P = "{q \<in> U. ev_was_posted (f q)}" and ?P' = "{q \<in> U. ev_was_posted ((f(p := ev)) q)}"
  have "?P' \<subseteq> (if ev_was_posted ev \<and> \<not> ev_was_posted (f p) then insert p ?P else ?P)"
    by auto
  then have "card ?P' \<le> card (if ev_was_posted ev \<and> \<not> ev_was_posted (f p) then insert p ?P else ?P)"
    using i(1) by (intro card_mono) simp_all
  also have "\<dots> \<le> ps'"
    using i(1,10) by (auto simp: assms(7) card_insert_if)
  finally show ?thesis
    using i ok os unfolding evs_inv_def s by (intro conjI ballI impI; simp)
qed

lemma es_wf_loose:
  assumes "es_wf es" "loose (used es) (ev_of es) p" "local_ok ev" "subs ev = subs (ev_of es p)"
    and "owned ev = owned (ev_of es p)" "ev_of es' = (ev_of es)(p := ev)"
    and "es_ongoing_events es' = es_ongoing_events es @ (if ev_is_ongoing_event ev then [p] else [])"
    and "es_posted_sends es' = es_posted_sends es + (if ev_was_posted ev \<and> \<not> ev_was_posted (ev_of es p) then 1 else 0)"
    and "es_heap es' = es_heap es" "es_bufs es' = es_bufs es" "es_next_buf es' = es_next_buf es"
    and "es_num_used_evs es' = es_num_used_evs es"
    and "es_free_evs es' = (es_free_evs es)\<lparr>dl_elts := dl_elts (es_free_evs es')\<rparr>"
  shows "es_wf es'"
proof -
  have p: "p \<in> used es" "p \<notin> dl_free (es_free_evs es)"
    using assms(2) free_used by (auto simp: loose_def)
  have dl: "used es' = used es" "dl_free (es_free_evs es') = dl_free (es_free_evs es)"
      "dl_element_init_cb (es_free_evs es') = dl_element_init_cb (es_free_evs es)"
      "dl_wf sizeof_event (es_free_evs es') h = dl_wf sizeof_event (es_free_evs es) h" for h
    by (subst assms(13), simp)+
  have "evs_inv (used es) ((ev_of es)(p := ev)) (es_ongoing_events es') (es_posted_sends es') (es_bufs es) (es_next_buf es)"
    using assms(3-5,7,8) by (intro evs_inv_loose[OF es_wf_inv[OF assms(1)] assms(2)])
  moreover have "\<forall>q \<in> dl_free (es_free_evs es). ev_of es' q = ev_of es q"
    using p(2) assms(6) by auto
  ultimately show ?thesis
    using assms(1,6,9-12) dl unfolding es_wf_def by simp
qed

lemma loose_upd:
  assumes "loose (used es) (ev_of es) p" "subs (f (ev_of es p)) = subs (ev_of es p)"
    and "\<not> ev_is_ongoing_event (f (ev_of es p))"
  shows "loose (used es) ((ev_of es)(p := f (ev_of es p))) p"
  using assms by (auto simp: loose_def)

text \<open>An event that can be emitted.\<close>

definition ready :: "ev_sys_t \<Rightarrow> ptr \<Rightarrow> bool" where
  "ready es p = (loose (used es) (ev_of es) p \<and> subs (ev_of es p) = [] \<and> \<not> ev_was_posted (ev_of es p)
     \<and> ev_req (ev_of es p) = No_request)"

lemma ready_upd:
  assumes "es_wf es" "ready es p" "local_ok (f (ev_of es p))" "subs (f (ev_of es p)) = []"
    and "owned (f (ev_of es p)) = owned (ev_of es p)" "\<not> ev_is_ongoing_event (f (ev_of es p))"
    and "\<not> ev_was_posted (f (ev_of es p))" "ev_req (f (ev_of es p)) = No_request"
  shows "es_wf (ev_upd p f es) \<and> ready (ev_upd p f es) p"
proof -
  have lo: "loose (used es) (ev_of es) p" "subs (ev_of es p) = []"
    using assms(2) by (simp_all add: ready_def)
  have "loose (used es) ((ev_of es)(p := f (ev_of es p))) p"
    using lo assms(4,6) by (intro loose_upd) simp_all
  moreover have "es_wf (ev_upd p f es)"
    using assms lo by (intro es_wf_loose[OF assms(1) lo(1), of "f (ev_of es p)"]) (simp_all, simp add: ev_upd_def)
  ultimately show ?thesis
    using assms by (simp add: ready_def)
qed

lemma event_return_ready:
  assumes "es_wf es" "ready es p"
  shows "\<exists>es'. event_return p es = Inr (DO_SUCCESS, es') \<and> es_wf es' \<and> used es' = used es - {p}
           \<and> (\<forall>q \<in> - {p}. ev_of es' q = ev_of es q) \<and> es_ongoing_events es' = es_ongoing_events es
           \<and> es_posted_sends es' = es_posted_sends es"
proof -
  have lo: "loose (used es) (ev_of es) p" "subs (ev_of es p) = []" "ev_req (ev_of es p) = No_request"
    using assms(2) by (simp_all add: ready_def)
  from do_event_return_wf[OF assms(1) lo] obtain es' where
    "do_event_return p es = Inr (EVENT_DONE, es')" "es_wf es'" "used es' = used es - {p}"
    "\<forall>q \<in> - {p}. ev_of es' q = ev_of es q" "es_ongoing_events es' = es_ongoing_events es"
    "es_posted_sends es' = es_posted_sends es"
    by blast
  with lo(1) show ?thesis
    by (intro exI[of _ es']) (simp add: event_return_def loose_def)
qed

text \<open>Sending the message of an event: either the event is given back, or it stays in use with a request or
  an error.\<close>

definition kept :: "ev_sys_t \<Rightarrow> ptr \<Rightarrow> ev_sys_t \<Rightarrow> bool" where
  "kept es p es' =
     (es_wf es' \<and> used es' = used es \<and> (\<forall>q \<in> - {p}. ev_of es' q = ev_of es q)
      \<and> subs (ev_of es' p) = [] \<and> EVENT_HDR_TYPE (ev_of es' p) = EVENT_HDR_TYPE (ev_of es p)
      \<and> ev_is_subevent (ev_of es' p) = ev_is_subevent (ev_of es p)
      \<and> ev_explicit_return (ev_of es' p) = ev_explicit_return (ev_of es p))"

definition given_back :: "ev_sys_t \<Rightarrow> ptr \<Rightarrow> ev_sys_t \<Rightarrow> bool" where
  "given_back es p es' =
     (es_wf es' \<and> used es' = used es - {p} \<and> (\<forall>q \<in> - {p}. ev_of es' q = ev_of es q)
      \<and> es_ongoing_events es' = es_ongoing_events es \<and> es_posted_sends es' = es_posted_sends es)"

lemma keptI:
  assumes "es_wf es" "ready es p" "\<forall>q \<in> - {p}. ev_of es' q = ev_of es q"
    and "local_ok (ev_of es' p)" "subs (ev_of es' p) = []"
    and "owned (ev_of es' p) = owned (ev_of es p)" "EVENT_HDR_TYPE (ev_of es' p) = EVENT_HDR_TYPE (ev_of es p)"
    and "ev_is_subevent (ev_of es' p) = ev_is_subevent (ev_of es p)"
    and "ev_explicit_return (ev_of es' p) = ev_explicit_return (ev_of es p)"
    and "es_ongoing_events es' = es_ongoing_events es @ (if ev_is_ongoing_event (ev_of es' p) then [p] else [])"
    and "es_posted_sends es' = es_posted_sends es + (if ev_was_posted (ev_of es' p) then 1 else 0)"
    and "es_heap es' = es_heap es" "es_bufs es' = es_bufs es" "es_next_buf es' = es_next_buf es"
    and "es_num_used_evs es' = es_num_used_evs es"
    and "es_free_evs es' = (es_free_evs es)\<lparr>dl_elts := dl_elts (es_free_evs es')\<rparr>"
  shows "kept es p es'"
proof -
  have r: "loose (used es) (ev_of es) p" "subs (ev_of es p) = []" "\<not> ev_was_posted (ev_of es p)"
    using assms(2) by (simp_all add: ready_def)
  have "ev_of es' = (ev_of es)(p := ev_of es' p)"
    using assms(3) by (intro ext) simp
  then have "es_wf es'"
    using assms r by (intro es_wf_loose[OF assms(1) r(1) assms(4)]) simp_all
  moreover have "used es' = used es"
    by (subst assms(16)) simp
  ultimately show ?thesis
    using assms by (simp add: kept_def)
qed

lemma am_send_event_msg_spec:
  assumes "es_wf es" "ready es p" "quiet env" "EVENT_HDR_TYPE (ev_of es p) \<noteq> META_EVENT_TYPE"
    and "ev_dest_ep (ev_of es p) \<noteq> None" "\<not> ev_complete (ev_of es p)"
  shows "\<exists>rc es'. am_send_event_msg env p es = Inr (rc, es') \<and> es_ongoing_events es' = es_ongoing_events es
           \<and> (if rc = EVENT_DONE then given_back es p es'
              else kept es p es' \<and> (rc = EVENT_INPROGRESS \<and> \<not> ev_explicit_return (ev_of es p) \<longrightarrow>
                     ev_was_posted (ev_of es' p) \<and> \<not> ev_complete (ev_of es' p)))"
proof (cases "emit_ids (ev_of es p) es")
  case None
  have r: "loose (used es) (ev_of es) p" "subs (ev_of es p) = []"
    using assms(2) by (simp_all add: ready_def)
  have "am_send_event_msg env p es = Inr (EVENT_FAILED, es)"
    using None by (simp add: am_send_event_msg_def)
  with r assms(1) show ?thesis
    by (simp add: kept_def)
next
  case (Some ids)
  let ?g = "\<lambda>ev. ev\<lparr>ev_client_id := fst ids, ev_server_id := snd ids,
      ev_hdr := (ev_hdr ev)\<lparr>hdr_event_id := ev_seq_num ev, hdr_client_id := fst ids, hdr_server_id := snd ids,
                            hdr_scope_id := ev_scope_id ev\<rparr>\<rparr>"
  let ?es1 = "ev_upd p ?g es"
  have r: "loose (used es) (ev_of es) p" "subs (ev_of es p) = []" "\<not> ev_was_posted (ev_of es p)"
      "ev_req (ev_of es p) = No_request" "\<not> ev_is_ongoing_event (ev_of es p)"
    using assms(2) by (simp_all add: ready_def loose_def)
  have l: "local_ok (ev_of es p)"
    using es_wf_ev(1)[OF assms(1)] r(1) by (simp add: loose_def)
  have am: "am_send_event_msg env p es =
      bindE (do_am_send_event_msg env p ?es1) (\<lambda>(rc, es2).
        if rc = EVENT_DONE \<or> (rc = EVENT_INPROGRESS \<and> ev_req (ev_of es2 p) = No_request) then
          if \<not> ev_explicit_return (ev_of es2 p) then
            bindE (assertE (ev_event_system (ev_of es2 p))) (\<lambda>_.
            bindE (if rc \<noteq> EVENT_DONE
                   then bindE (assertE (0 < es_posted_sends es2)) (\<lambda>_.
                        Inr (es2\<lparr>es_posted_sends := es_posted_sends es2 - 1\<rparr>))
                   else Inr es2) (\<lambda>es3.
            bindE (event_return p es3) (\<lambda>(rc', es4).
            Inr (if rc' \<noteq> DO_SUCCESS then EVENT_FAILED else EVENT_DONE, es4))))
          else bindE (COMPLETE_EVENT env p es2) (\<lambda>es3. Inr (EVENT_INPROGRESS, es3))
        else Inr (rc, es2))"
    using Some by (simp add: am_send_event_msg_def PREP_EVENT_FOR_EMIT_def ev_upd_twice Let_def)
  show ?thesis
  proof (cases "env_send env p ?es1")
    case Send_failed
    let ?es2 = "ev_upd p (\<lambda>ev. ev\<lparr>ev_req := Error_request\<rparr>) ?es1"
    have "kept es p ?es2"
      using r l assms(4,6) by (intro keptI[OF assms(1,2)]) (simp_all add: local_ok_def, simp add: ev_upd_def)
    moreover have "am_send_event_msg env p es = Inr (EVENT_FAILED, ?es2)"
      using Send_failed am assms(5) by (simp add: do_am_send_event_msg_def)
    ultimately show ?thesis
      by simp
  next
    case Send_posted
    let ?es2 = "ev_upd p (\<lambda>ev. ev\<lparr>ev_req := Request, ev_was_posted := True\<rparr>)
        (?es1\<lparr>es_posted_sends := Suc (es_posted_sends ?es1)\<rparr>)"
    have "kept es p ?es2"
      using r l assms(4,6) by (intro keptI[OF assms(1,2)]) (simp_all add: local_ok_def, simp_all add: ev_upd_def)
    moreover have "am_send_event_msg env p es = Inr (EVENT_INPROGRESS, ?es2)"
      using Send_posted am assms(5) by (simp add: do_am_send_event_msg_def)
    ultimately show ?thesis
      using assms(6) by simp
  next
    case Send_done
    let ?h = "\<lambda>ev. (?g ev)\<lparr>ev_req := No_request, ev_complete := True\<rparr>"
    let ?es2 = "ev_upd p ?h es"
    have do: "do_am_send_event_msg env p ?es1 = Inr (EVENT_DONE, ?es2)"
      using Send_done assms(5) by (simp add: do_am_send_event_msg_def ev_upd_twice)
    show ?thesis
    proof (cases "ev_explicit_return (ev_of es p)")
      case True
      let ?es3 = "ev_upd p (\<lambda>ev. ev\<lparr>ev_complete := True, ev_completion_cb := None\<rparr>) ?es2"
      have "kept es p ?es3"
        using r l assms(4) by (intro keptI[OF assms(1,2)]) (simp_all add: local_ok_def, simp add: ev_upd_def)
      moreover have "am_send_event_msg env p es = Inr (EVENT_INPROGRESS, ?es3)"
        using am do True assms(3) by (simp add: complete_silent quiet_def)
      ultimately show ?thesis
        using True by simp
    next
      case False
      have "es_wf ?es2 \<and> ready ?es2 p"
        using r l assms(4) by (intro ready_upd[OF assms(1,2)]) (simp_all add: local_ok_def)
      from event_return_ready[OF this[THEN conjunct1] this[THEN conjunct2]] obtain es' where
        es': "event_return p ?es2 = Inr (DO_SUCCESS, es')" "es_wf es'" "used es' = used es - {p}"
          "\<forall>q \<in> - {p}. ev_of es' q = ev_of ?es2 q" "es_ongoing_events es' = es_ongoing_events es"
          "es_posted_sends es' = es_posted_sends es"
        by auto
      have "am_send_event_msg env p es = Inr (EVENT_DONE, es')"
        using am do False es'(1) l by (simp add: local_ok_def)
      moreover have "given_back es p es'"
        using es' by (simp add: given_back_def)
      ultimately show ?thesis
        using es'(5) by simp
    qed
  qed
qed

text \<open>An event in use that nothing refers to after its message was sent.\<close>

lemma kept_loose:
  assumes "es_wf es" "ready es p" "kept es p es'" "es_ongoing_events es' = es_ongoing_events es"
  shows "loose (used es') (ev_of es') p"
proof -
  have lo: "p \<in> used es" "\<forall>q \<in> used es. p \<notin> set (subs (ev_of es q))" "\<not> ev_is_ongoing_event (ev_of es p)"
    using assms(2) by (simp_all add: ready_def loose_def)
  have k: "es_wf es'" "used es' = used es" "\<forall>q \<in> - {p}. ev_of es' q = ev_of es q" "subs (ev_of es' p) = []"
    using assms(3) by (simp_all add: kept_def)
  have "p \<notin> set (es_ongoing_events es')"
    using evs_invD(3)[OF es_wf_inv[OF assms(1)]] lo(3) assms(4) by simp
  then have "\<not> ev_is_ongoing_event (ev_of es' p)"
    using evs_invD(3)[OF es_wf_inv[OF k(1)]] k(2) lo(1) by simp
  moreover have "p \<notin> set (subs (ev_of es' q))" if "q \<in> used es" for q
    using that lo(2) k(3,4) by (cases "q = p") simp_all
  ultimately show ?thesis
    using k(2) lo(1) by (simp add: loose_def)
qed

lemma QUEUE_EVENT_spec:
  assumes "es_wf es" "loose (used es) (ev_of es) p"
    and "if EVENT_HDR_TYPE (ev_of es p) = META_EVENT_TYPE then ev_sub_events_initialized (ev_of es p)
         else ev_complete (ev_of es p) \<or> ev_was_posted (ev_of es p) \<or> ev_req (ev_of es p) \<noteq> No_request
           \<or> ev_explicit_return (ev_of es p) \<or> ev_is_subevent (ev_of es p)"
  shows "\<exists>es'. QUEUE_EVENT p es = Inr es' \<and> es_wf es' \<and> used es' = used es
           \<and> (\<forall>q \<in> - {p}. ev_of es' q = ev_of es q)
           \<and> (\<exists>b. ev_of es' p = (ev_of es p)\<lparr>ev_is_ongoing_event := b\<rparr>)
           \<and> es_ongoing_events es' = es_ongoing_events es
               @ (if ev_explicit_return (ev_of es p) \<or> ev_is_subevent (ev_of es p) then [] else [p])
           \<and> es_posted_sends es' = es_posted_sends es"
proof (cases "ev_explicit_return (ev_of es p) \<or> ev_is_subevent (ev_of es p)")
  case True
  have "(ev_of es p)\<lparr>ev_is_ongoing_event := ev_is_ongoing_event (ev_of es p)\<rparr> = ev_of es p"
    by simp
  with True assms(1) show ?thesis
    by (intro exI[of _ es] conjI exI[of _ "ev_is_ongoing_event (ev_of es p)"]) (auto simp: QUEUE_EVENT_def)
next
  case False
  let ?es = "ev_upd p (\<lambda>ev. ev\<lparr>ev_is_ongoing_event := True\<rparr>)
      (es\<lparr>es_ongoing_events := es_ongoing_events es @ [p]\<rparr>)"
  have "p \<in> used es"
    using assms(2) by (simp add: loose_def)
  then have "local_ok ((ev_of es p)\<lparr>ev_is_ongoing_event := True\<rparr>)"
    using es_wf_ev(1)[OF assms(1)] False assms(3) by (auto simp: local_ok_def)
  then have "es_wf ?es"
    by (intro es_wf_loose[OF assms(1,2)]) (simp_all, simp_all add: ev_upd_def)
  moreover have "QUEUE_EVENT p es = Inr ?es"
    using False assms(2) by (simp add: QUEUE_EVENT_def loose_def)
  moreover have "used ?es = used es"
    by simp
  ultimately show ?thesis
    using False by (intro exI[of _ ?es]) (simp del: ev_upd_simps(10), simp, blast)
qed

definition emitted :: "ev_sys_t \<Rightarrow> ptr \<Rightarrow> event_state_t \<Rightarrow> ev_sys_t \<Rightarrow> bool" where
  "emitted es p rc es' =
     (if rc = EVENT_DONE then given_back es p es'
      else kept es p es' \<and> es_ongoing_events es' = es_ongoing_events es
        @ (if rc = EVENT_INPROGRESS \<and> \<not> ev_explicit_return (ev_of es p) \<and> \<not> ev_is_subevent (ev_of es p) then [p] else []))"

lemma emit_prepared_spec:
  assumes "es_wf es" "ready es p" "quiet env" "EVENT_HDR_TYPE (ev_of es p) \<noteq> META_EVENT_TYPE"
    and "ev_dest_ep (ev_of es p) \<noteq> None" "\<not> ev_complete (ev_of es p)"
  shows "\<exists>rc es'. emit_prepared env p es = Inr (rc, es') \<and> emitted es p rc es'"
proof (cases "es_type es = CONTEXT_SELF")
  case True
  from event_return_ready[OF assms(1,2)] obtain es' where
    "event_return p es = Inr (DO_SUCCESS, es')" "given_back es p es'"
    unfolding given_back_def by blast
  with True assms(3) have "emit_prepared env p es = Inr (EVENT_DONE, es')" "emitted es p EVENT_DONE es'"
    by (simp_all add: emit_prepared_def quiet_def emitted_def)
  then show ?thesis
    by blast
next
  case False
  from am_send_event_msg_spec[OF assms] obtain rc es1 where
    am: "am_send_event_msg env p es = Inr (rc, es1)" "es_ongoing_events es1 = es_ongoing_events es"
      "if rc = EVENT_DONE then given_back es p es1
       else kept es p es1 \<and> (rc = EVENT_INPROGRESS \<and> \<not> ev_explicit_return (ev_of es p) \<longrightarrow>
              ev_was_posted (ev_of es1 p) \<and> \<not> ev_complete (ev_of es1 p))"
    by blast
  show ?thesis
  proof (cases "rc = EVENT_INPROGRESS")
    case prog: True
    with am(3) have k: "kept es p es1"
        "\<not> ev_explicit_return (ev_of es p) \<longrightarrow> ev_was_posted (ev_of es1 p)"
      by simp_all
    then have kd: "es_wf es1" "used es1 = used es" "\<forall>q \<in> - {p}. ev_of es1 q = ev_of es q" "subs (ev_of es1 p) = []"
        "EVENT_HDR_TYPE (ev_of es1 p) = EVENT_HDR_TYPE (ev_of es p)"
        "ev_is_subevent (ev_of es1 p) = ev_is_subevent (ev_of es p)"
        "ev_explicit_return (ev_of es1 p) = ev_explicit_return (ev_of es p)"
      by (simp_all add: kept_def)
    have "if EVENT_HDR_TYPE (ev_of es1 p) = META_EVENT_TYPE then ev_sub_events_initialized (ev_of es1 p)
         else ev_complete (ev_of es1 p) \<or> ev_was_posted (ev_of es1 p) \<or> ev_req (ev_of es1 p) \<noteq> No_request
           \<or> ev_explicit_return (ev_of es1 p) \<or> ev_is_subevent (ev_of es1 p)"
      using k(2) kd(5,7) assms(4) by auto
    from QUEUE_EVENT_spec[OF kd(1) kept_loose[OF assms(1,2) k(1) am(2)] this] obtain es' b where
      q: "QUEUE_EVENT p es1 = Inr es'" "es_wf es'" "used es' = used es1" "\<forall>q \<in> - {p}. ev_of es' q = ev_of es1 q"
        "ev_of es' p = (ev_of es1 p)\<lparr>ev_is_ongoing_event := b\<rparr>"
        "es_ongoing_events es' = es_ongoing_events es1
           @ (if ev_explicit_return (ev_of es1 p) \<or> ev_is_subevent (ev_of es1 p) then [] else [p])"
      by blast
    have "emit_prepared env p es = Inr (EVENT_INPROGRESS, es')"
      using False am(1) prog q(1) by (simp add: emit_prepared_def)
    moreover have "emitted es p EVENT_INPROGRESS es'"
      using q kd am(2) by (simp add: emitted_def kept_def)
    ultimately show ?thesis
      by blast
  next
    case np: False
    have "emit_prepared env p es = Inr (rc, es1)"
      using False am(1) np by (simp add: emit_prepared_def)
    moreover have "emitted es p rc es1"
      using np am(2,3) by (simp add: emitted_def)
    ultimately show ?thesis
      by blast
  qed
qed

text \<open>Progress gives back exactly the finished events and their completed sub-events.\<close>

lemma progress_finished:
  assumes "es_wf es" "\<forall>p \<in> set (es_ongoing_events es). finished es p \<longrightarrow> silent env (ev_completion_cb (ev_of es p))"
    and "length (es_ongoing_events es) \<le> fuel" "es_scope_id es \<noteq> SCOPE_UNKNOWN"
  shows "\<exists>es'. progress_econtext_sends env fuel es = Inr es' \<and> es_wf es'
           \<and> used es' = used es - (\<Union>p \<in> set (es_ongoing_events es). gone es p)
           \<and> es_ongoing_events es' = filter (\<lambda>p. \<not> finished es p) (es_ongoing_events es)
           \<and> es_posted_sends es' = es_posted_sends es
               - length (filter (\<lambda>p. finished es p \<and> ev_was_posted (ev_of es p)) (es_ongoing_events es))
           \<and> (\<forall>q \<in> used es' - set (es_ongoing_events es). ev_of es' q = ev_of es q)
           \<and> (\<forall>p \<in> set (es_ongoing_events es). \<not> finished es p \<longrightarrow> shrunk es es' p)"
  using progress_loop_spec[OF assms(1) append_Nil[symmetric] assms(2,3)] assms(4)
  by (simp add: progress_econtext_sends_def)

text \<open>Progress does not touch an event that can be emitted.\<close>

lemma progress_econtext_sends_spec:
  assumes "es_wf es" "quiet env" "length (es_ongoing_events es) \<le> fuel"
  shows "\<exists>es'. progress_econtext_sends env fuel es = Inr es' \<and> es_wf es'
           \<and> (\<forall>p. ready es p \<longrightarrow> ready es' p \<and> ev_of es' p = ev_of es p)"
proof (cases "es_scope_id es = SCOPE_UNKNOWN")
  case True
  with assms(1) show ?thesis
    by (simp add: progress_econtext_sends_def)
next
  case False
  let ?os = "es_ongoing_events es"
  have "\<forall>p \<in> set ?os. finished es p \<longrightarrow> silent env (ev_completion_cb (ev_of es p))"
    using assms(2) by (simp add: quiet_def)
  from progress_finished[OF assms(1) this assms(3) False] obtain es' where
    es': "progress_econtext_sends env fuel es = Inr es'" "es_wf es'"
      "used es' = used es - (\<Union>p \<in> set ?os. gone es p)"
      "es_ongoing_events es' = filter (\<lambda>p. \<not> finished es p) ?os"
      "\<forall>q \<in> used es' - set ?os. ev_of es' q = ev_of es q"
      "\<forall>p \<in> set ?os. \<not> finished es p \<longrightarrow> shrunk es es' p"
    by blast
  have "ready es' p \<and> ev_of es' p = ev_of es p" if "ready es p" for p
  proof -
    have lo: "p \<in> used es" "\<forall>q \<in> used es. p \<notin> set (subs (ev_of es q))" "\<not> ev_is_ongoing_event (ev_of es p)"
        "subs (ev_of es p) = []"
      using that by (simp_all add: ready_def loose_def)
    have no: "p \<notin> set ?os"
      using es_wf_ongoing(2)[OF assms(1), of p] lo(3) by blast
    have "p \<notin> gone es r" if "r \<in> set ?os" for r
      using that no lo(2) es_wf_ongoing(1)[OF assms(1) that] by (auto simp: gone_def done_subs_def)
    then have u: "p \<in> used es'"
      using es'(3) lo(1) by blast
    with es'(5) no have e: "ev_of es' p = ev_of es p"
      by blast
    have "p \<notin> set (subs (ev_of es' q))" if "q \<in> used es'" for q
    proof (cases "q \<in> set ?os")
      case True
      with that es'(3) have "\<not> finished es q" "q \<in> used es"
        by (auto simp: gone_def)
      with es'(6) True have "set (subs (ev_of es' q)) \<subseteq> set (subs (ev_of es q))"
        by (simp add: shrunk_def)
      with lo(2) \<open>q \<in> used es\<close> show ?thesis
        by blast
    next
      case False
      with that es'(3,5) lo(2) show ?thesis
        by simp
    qed
    with that u e show ?thesis
      by (simp add: ready_def loose_def)
  qed
  with es'(1,2) show ?thesis
    by blast
qed

lemma emit_progressed:
  assumes "es_wf es" "ready es p" "quiet env" "length (es_ongoing_events es) \<le> fuel"
  shows "\<exists>es1. (if ev_is_subevent (ev_of es p) then Inr es else progress_econtext_sends env fuel es) = Inr es1
           \<and> es_wf es1 \<and> ready es1 p \<and> ev_of es1 p = ev_of es p"
proof (cases "ev_is_subevent (ev_of es p)")
  case False
  from progress_econtext_sends_spec[OF assms(1,3,4)] assms(2) obtain es1 where
    "progress_econtext_sends env fuel es = Inr es1" "es_wf es1" "ready es1 p \<and> ev_of es1 p = ev_of es p"
    by blast
  with False show ?thesis
    by simp
qed (use assms(1,2) in simp)

lemma event_channel_emit_spec:
  assumes "es_wf es" "ready es p" "quiet env" "length (es_ongoing_events es) \<le> fuel"
    and "0 < type" "type \<noteq> META_EVENT_TYPE" "dest_ep \<noteq> None"
  shows "\<exists>rc es' es1. event_channel_emit env fuel p type dest_ep dest_id es = Inr (rc, es') \<and> es_wf es'
           \<and> (if ev_is_subevent (ev_of es p) then Inr es else progress_econtext_sends env fuel es) = Inr es1
           \<and> es_ongoing_events es' = es_ongoing_events es1
               @ (if rc = EVENT_INPROGRESS \<and> \<not> ev_explicit_return (ev_of es p) \<and> \<not> ev_is_subevent (ev_of es p)
                  then [p] else [])"
proof -
  from emit_progressed[OF assms(1-4)] obtain es1 where
    es1: "(if ev_is_subevent (ev_of es p) then Inr es else progress_econtext_sends env fuel es) = Inr es1"
      "es_wf es1" "ready es1 p" "ev_of es1 p = ev_of es p"
    by blast
  let ?g = "\<lambda>ev. ev\<lparr>ev_complete := False, ev_hdr := (ev_hdr ev)\<lparr>hdr_type := type, hdr_id := ECONTEXT_ID es1\<rparr>,
       ev_dest_ep := dest_ep, ev_dest_id := dest_id\<rparr>"
  have r: "\<not> ev_is_ongoing_event (ev_of es1 p)" "subs (ev_of es1 p) = []" "\<not> ev_was_posted (ev_of es1 p)"
      "ev_req (ev_of es1 p) = No_request" "local_ok (ev_of es1 p)"
    using es1(3) es_wf_ev(1)[OF es1(2)] by (simp_all add: ready_def loose_def)
  have w: "es_wf (ev_upd p ?g es1) \<and> ready (ev_upd p ?g es1) p"
    using r assms(5,6) by (intro ready_upd[OF es1(2,3)]) (simp_all add: local_ok_def)
  have "\<exists>rc es'. emit_prepared env p (ev_upd p ?g es1) = Inr (rc, es') \<and> emitted (ev_upd p ?g es1) p rc es'"
    using assms(6,7) by (intro emit_prepared_spec[OF w[THEN conjunct1] w[THEN conjunct2] assms(3)]) simp_all
  then obtain rc es' where e: "emit_prepared env p (ev_upd p ?g es1) = Inr (rc, es')" "emitted (ev_upd p ?g es1) p rc es'"
    by blast
  have "event_channel_emit env fuel p type dest_ep dest_id es = Inr (rc, es')"
    using es1(1) e(1) by (simp add: event_channel_emit_def)
  moreover have "es_wf es'" "es_ongoing_events es' = es_ongoing_events es1
      @ (if rc = EVENT_INPROGRESS \<and> \<not> ev_explicit_return (ev_of es p) \<and> \<not> ev_is_subevent (ev_of es p) then [p] else [])"
    using e(2) es1(4) by (auto simp: emitted_def given_back_def kept_def split: if_splits)
  ultimately show ?thesis
    using es1(1) by blast
qed

lemma event_channel_emit_with_payload_spec:
  assumes "es_wf es" "ready es p" "quiet env" "length (es_ongoing_events es) \<le> fuel"
    and "0 < type" "type \<noteq> META_EVENT_TYPE" "dest_ep \<noteq> None" "\<not> ev_manage_payload_buf (ev_of es p)"
  shows "\<exists>rc es'. event_channel_emit_with_payload env fuel p type dest_ep dest_id b n es = Inr (rc, es') \<and> es_wf es'"
proof -
  from emit_progressed[OF assms(1-4)] obtain es1 where
    es1: "(if ev_is_subevent (ev_of es p) then Inr es else progress_econtext_sends env fuel es) = Inr es1"
      "es_wf es1" "ready es1 p" "ev_of es1 p = ev_of es p"
    by blast
  let ?g = "\<lambda>ev. ev\<lparr>ev_complete := False,
      ev_hdr := (ev_hdr ev)\<lparr>hdr_type := type, hdr_id := ECONTEXT_ID es1, hdr_payload_size := n\<rparr>,
      ev_payload := b, ev_dest_ep := dest_ep, ev_dest_id := dest_id\<rparr>"
  have r: "\<not> ev_is_ongoing_event (ev_of es1 p)" "subs (ev_of es1 p) = []" "\<not> ev_was_posted (ev_of es1 p)"
      "ev_req (ev_of es1 p) = No_request" "local_ok (ev_of es1 p)" "\<not> ev_manage_payload_buf (ev_of es1 p)"
    using es1(3,4) assms(8) es_wf_ev(1)[OF es1(2), of p] by (simp_all add: ready_def loose_def)
  have w: "es_wf (ev_upd p ?g es1) \<and> ready (ev_upd p ?g es1) p"
    using r assms(5,6) by (intro ready_upd[OF es1(2,3)]) (simp_all add: local_ok_def owned_def)
  have "\<exists>rc es'. emit_prepared env p (ev_upd p ?g es1) = Inr (rc, es') \<and> emitted (ev_upd p ?g es1) p rc es'"
    using assms(6,7) by (intro emit_prepared_spec[OF w[THEN conjunct1] w[THEN conjunct2] assms(3)]) simp_all
  then show ?thesis
    using es1(1) assms(7,8)
    by (auto simp: event_channel_emit_with_payload_def emitted_def given_back_def kept_def Let_def split: if_splits)
qed

section \<open>Histories\<close>

text \<open>What the owner of an event does with it: it marks it as a sub-event, sets the callback for its
  completion, or makes it a meta-event.\<close>

fun prepare :: "dpu_offload_event_t \<Rightarrow> nat option \<Rightarrow> bool \<Rightarrow> bool \<Rightarrow> dpu_offload_event_t" where
  "prepare ev cb sub meta =
     ev\<lparr>ev_completion_cb := cb, ev_is_subevent := sub,
        ev_hdr := (ev_hdr ev)\<lparr>hdr_type := (if meta then META_EVENT_TYPE else EVENT_HDR_TYPE ev)\<rparr>\<rparr>"

text \<open>The calls of the library and of UCX into the event system of a context.  An event is emitted or made a
  sub-event by its owner, who passes it on then.\<close>

inductive ev_step :: "ev_env \<Rightarrow> ev_sys_t \<Rightarrow> ev_sys_t \<Rightarrow> bool" for env where
  Get: "event_get info es = Inr (p, es') \<Longrightarrow> ev_step env es es'"
| Prepare: "ready es p \<Longrightarrow> ev_step env es (ev_upd p (\<lambda>ev. prepare ev cb sub meta) es)"
| Emit: "\<lbrakk>ready es p; 0 < type; type \<noteq> META_EVENT_TYPE; dest_ep \<noteq> None; length (es_ongoing_events es) \<le> fuel;
    event_channel_emit env fuel p type dest_ep dest_id es = Inr (rc, es')\<rbrakk> \<Longrightarrow> ev_step env es es'"
| Emit_payload: "\<lbrakk>ready es p; 0 < type; type \<noteq> META_EVENT_TYPE; dest_ep \<noteq> None; length (es_ongoing_events es) \<le> fuel;
    event_channel_emit_with_payload env fuel p type dest_ep dest_id b n es = Inr (rc, es')\<rbrakk> \<Longrightarrow> ev_step env es es'"
| Subevent: "\<lbrakk>loose (used es) (ev_of es) p; EVENT_HDR_TYPE (ev_of es p) \<noteq> META_EVENT_TYPE; m \<in> used es;
    EVENT_HDR_TYPE (ev_of es m) = META_EVENT_TYPE; QUEUE_SUBEVENT m p es = Inr es'\<rbrakk> \<Longrightarrow> ev_step env es es'"
| Queue: "\<lbrakk>loose (used es) (ev_of es) m; EVENT_HDR_TYPE (ev_of es m) = META_EVENT_TYPE;
    ev_sub_events_initialized (ev_of es m); QUEUE_EVENT m es = Inr es'\<rbrakk> \<Longrightarrow> ev_step env es es'"
| Sent: "\<lbrakk>p \<in> used es; ev_req (ev_of es p) = Request; notification_emit_cb env p es = Inr es'\<rbrakk> \<Longrightarrow> ev_step env es es'"
| Progress: "\<lbrakk>length (es_ongoing_events es) \<le> fuel; progress_econtext_sends env fuel es = Inr es'\<rbrakk> \<Longrightarrow> ev_step env es es'"
| Return: "\<lbrakk>p \<in> used es; \<forall>q \<in> used es. p \<notin> set (subs (ev_of es q)); event_return p es = Inr (rc, es')\<rbrakk>
    \<Longrightarrow> ev_step env es es'"

lemma prepare_wf:
  assumes "es_wf es" "ready es p"
  shows "es_wf (ev_upd p (\<lambda>ev. prepare ev cb sub meta) es)"
proof -
  have r: "\<not> ev_is_ongoing_event (ev_of es p)" "subs (ev_of es p) = []" "\<not> ev_was_posted (ev_of es p)"
      "ev_req (ev_of es p) = No_request" "local_ok (ev_of es p)"
    using assms(2) es_wf_ev(1)[OF assms(1), of p] by (simp_all add: ready_def loose_def)
  then have "local_ok (prepare (ev_of es p) cb sub meta)"
    by (simp add: local_ok_def META_EVENT_TYPE_def)
  then show ?thesis
    using r by (intro ready_upd[OF assms, THEN conjunct1]) simp_all
qed

lemma evs_inv_add_sub:
  assumes "evs_inv U f os ps bs nb" "loose U f p" "child_ok (f p)" "m \<in> U" "local_ok ev"
    and "EVENT_HDR_TYPE ev = META_EVENT_TYPE" "EVENT_HDR_TYPE (f m) = META_EVENT_TYPE" "subs ev = subs (f m) @ [p]"
    and "ev_is_ongoing_event ev = ev_is_ongoing_event (f m)" "owned ev = owned (f m)" "ev_was_posted ev = ev_was_posted (f m)"
  shows "evs_inv U (f(m := ev)) os ps bs nb"
proof -
  note i = evs_invD[OF assms(1)]
  have p: "p \<in> U" "\<forall>q \<in> U. p \<notin> set (subs (f q))" "p \<noteq> m"
    using assms(2,3,7) by (auto simp: loose_def child_ok_def)
  have s: "owned ((f(m := ev)) q) = owned (f q)" "ev_is_ongoing_event ((f(m := ev)) q) = ev_is_ongoing_event (f q)"
      "ev_was_posted ((f(m := ev)) q) = ev_was_posted (f q)" for q
    using assms by auto
  have nm: "m \<notin> set (subs (f q))" if "q \<in> U" for q
    using i(4)[OF that] assms(7) by (auto simp: ev_ok_def child_ok_def)
  have ok: "ev_ok U (f(m := ev)) q" if "q \<in> U" for q
    using i(4)[OF that] nm[OF that] nm[OF assms(4)] assms(3,5,8) i(4)[OF assms(4)] p(1,3) unfolding ev_ok_def by auto
  have "set (subs ((f(m := ev)) q)) \<inter> set (subs ((f(m := ev)) r)) = {}" if "q \<in> U" "r \<in> U" "q \<noteq> r" for q r
    using i(5)[OF that] p(2) that assms(8) by (cases "q = m"; cases "r = m") auto
  with i ok show ?thesis
    unfolding evs_inv_def s by (intro conjI ballI impI; simp?; fast?)
qed

lemma QUEUE_SUBEVENT_wf:
  assumes "es_wf es" "loose (used es) (ev_of es) p" "EVENT_HDR_TYPE (ev_of es p) \<noteq> META_EVENT_TYPE" "m \<in> used es"
    and "EVENT_HDR_TYPE (ev_of es m) = META_EVENT_TYPE" "QUEUE_SUBEVENT m p es = Inr es'"
  shows "es_wf es'"
proof -
  let ?f = "\<lambda>ev. ev\<lparr>ev_sub_events := (if ev_sub_events_initialized ev then ev_sub_events ev else []) @ [p],
      ev_sub_events_initialized := True\<rparr>"
  let ?ev = "?f (ev_of es m)"
  have es': "es' = ev_upd m ?f es" "child_ok (ev_of es p)"
    using assms(3,6) by (simp_all add: QUEUE_SUBEVENT_def res_simps child_ok_def)
  have l: "local_ok (ev_of es m)"
    using es_wf_ev(1)[OF assms(1,4)] .
  have s: "subs ?ev = subs (ev_of es m) @ [p]"
    by (simp add: subs_def)
  have "p \<notin> set (subs (ev_of es m))"
    using assms(2,4) by (simp add: loose_def)
  then have "local_ok ?ev"
    using l s assms(5) by (simp add: local_ok_def split: if_splits)
  then have "evs_inv (used es) ((ev_of es)(m := ?ev)) (es_ongoing_events es) (es_posted_sends es) (es_bufs es) (es_next_buf es)"
    using assms(5) s by (intro evs_inv_add_sub[OF es_wf_inv[OF assms(1)] assms(2) es'(2) assms(4)]) simp_all
  with assms(1,4) es'(1) free_used[OF assms(4)] show ?thesis
    by (auto simp: es_wf_def)
qed

lemma event_return_wf:
  assumes "es_wf es" "p \<in> used es" "\<forall>q \<in> used es. p \<notin> set (subs (ev_of es q))" "event_return p es = Inr (rc, es')"
  shows "es_wf es'"
proof (cases "ev_is_ongoing_event (ev_of es p) \<or> ev_req (ev_of es p) \<noteq> No_request")
  case True
  have "es' = es"
    using True assms(4) by (auto simp: event_return_def do_event_return_def bindE_Inr_iff split: if_splits)
  with assms(1) show ?thesis
    by simp
next
  case False
  have "subs (ev_of es p) = []"
    using es_wf_ev(1)[OF assms(1,2)] assms(4) False
    by (auto simp: event_return_def do_event_return_def res_simps local_ok_def subs_def split: if_splits)
  then have "\<exists>es'. do_event_return p es = Inr (EVENT_DONE, es') \<and> es_wf es'"
    using do_event_return_wf[OF assms(1), of p] assms(2,3) False by (auto simp: loose_def)
  with assms(4) False show ?thesis
    by (auto simp: event_return_def)
qed

lemma event_get_pool:
  assumes "event_get info es = Inr (p, es')"
  shows "\<exists>dl h. DYN_LIST_GET sizeof_event (es_free_evs es) (es_heap es) = Inr (p, dl, h)"
    "info = Some i \<Longrightarrow> ni_mem_pool (ei_pool i) \<noteq> None \<Longrightarrow> ni_get_buf (ei_pool i)"
  using assms by (auto simp: event_get_def res_simps Let_def setup_event_def get_payload_def split: if_splits)

lemma ev_channels_init_wf:
  assumes "wf_heap h" "ev_channels_init mem h typ scope = Inr es"
  shows "es_wf es" "used es = {}"
proof -
  obtain dl h1 where a: "dyn_list_alloc_with sizeof_event mem 32 (Some init_event) h = Inr (Some dl, h1)"
      "es = \<lparr>es_free_evs = dl, es_heap = h1, es_num_used_evs = 0, es_posted_sends = 0, es_type = typ,
         es_scope_id = scope, es_client_id = 0, es_server_id = 0, es_ongoing_events = [],
         es_seq_num = 0, es_bufs = [], es_next_buf = 0\<rparr>"
    using assms(2) by (auto simp: ev_channels_init_def bindE_Inr_iff DYN_LIST_ALLOC_WITH_INIT_CALLBACK_def
        split: option.splits)
  have dl: "dl_wf sizeof_event dl h1" "dl_used dl = {}" "dl_element_init_cb dl = Some init_event"
      "dl_elts dl ` dl_free dl \<subseteq> range init_event"
    using dyn_list_alloc_spec[OF assms(1) _ _ _ a(1)] by (simp_all add: sizeof_event_def)
  show "used es = {}"
    using dl(2) a(2) by simp
  have "subs (dl_elts dl p) = []" if "p \<in> dl_free dl" for p
  proof -
    have "dl_elts dl p \<in> range init_event"
      using dl(4) that by (meson image_eqI subsetD)
    then obtain x where "dl_elts dl p = init_event x"
      by (rule imageE)
    then show ?thesis
      by (simp add: init_event_def subs_def)
  qed
  with dl a(2) show "es_wf es"
    by (simp add: es_wf_def evs_inv_def ev_of_def)
qed

end
