(* ===== verification/Event_Callbacks.thy ===== *)
theory Event_Callbacks
imports Event_Steps
begin

text \<open>
  Histories of the event system in which the callbacks of the users work on it.  A completion callback may get
  events, prepare and emit them as sub-events and queue them, as the callbacks of the group cache do; it leaves
  the events in use alone and does not progress the context.  The handler of a notification to oneself may do
  anything that keeps the invariant, progressing the context included, but leaves the event being emitted alone.
\<close>

section \<open>Callbacks that add events\<close>

text \<open>The event of a send that UCX reports as completed still has its request when its callback runs.\<close>

abbreviation without_req :: "ptr \<Rightarrow> ev_sys_t \<Rightarrow> ev_sys_t" where
  "without_req p es \<equiv> ev_upd p (\<lambda>ev. ev\<lparr>ev_req := No_request\<rparr>) es"

abbreviation completing :: "ptr \<Rightarrow> ev_sys_t \<Rightarrow> ev_sys_t" where
  "completing p es \<equiv> ev_upd p (\<lambda>ev. ev\<lparr>ev_complete := True, ev_completion_cb := None\<rparr>) es"

definition grows :: "ev_sys_t \<Rightarrow> ev_sys_t \<Rightarrow> bool" where
  "grows es es' =
     (used es \<subseteq> used es' \<and> (\<forall>q \<in> used es. ev_of es' q = ev_of es q)
      \<and> (\<forall>q \<in> used es' - used es. set (subs (ev_of es' q)) \<inter> used es = {})
      \<and> (\<exists>os. es_ongoing_events es' = es_ongoing_events es @ os))"

definition adds_events :: "ev_env \<Rightarrow> bool" where
  "adds_events env =
     ((\<forall>cb p es es'. p \<in> used es \<longrightarrow> es_wf (without_req p es) \<longrightarrow> env_completion env cb es = Inr es' \<longrightarrow>
         es_wf (without_req p es') \<and> grows es es')
      \<and> (\<forall>hdr b p es ok es'. es_wf es \<longrightarrow> ready es p \<longrightarrow> env_deliver env hdr b es = Inr (ok, es') \<longrightarrow>
           es_wf es' \<and> ready es' p))"

lemma adds_eventsD:
  assumes "adds_events env"
  shows "p \<in> used es \<Longrightarrow> es_wf (without_req p es) \<Longrightarrow> env_completion env cb es = Inr es' \<Longrightarrow>
      es_wf (without_req p es') \<and> grows es es'"
    "es_wf es \<Longrightarrow> ready es p \<Longrightarrow> env_deliver env hdr b es = Inr (ok, es') \<Longrightarrow> es_wf es' \<and> ready es' p"
  using assms unfolding adds_events_def by blast+

lemma grows_refl [simp]: "grows es es"
  by (simp add: grows_def)

lemma quiet_adds_events: "quiet env \<Longrightarrow> adds_events env"
  by (auto simp: quiet_def silent_def adds_events_def)

lemma without_req_id: "ev_req (ev_of es p) = No_request \<Longrightarrow> without_req p es = es"
proof -
  assume "ev_req (ev_of es p) = No_request"
  then have "(ev_of es p)\<lparr>ev_req := No_request\<rparr> = ev_of es p"
    by (cases "ev_of es p") simp
  then show ?thesis
    by (simp add: ev_upd_def) (simp add: ev_of_def)
qed

text \<open>The same users with callbacks that do nothing: what the code does next to the callbacks.\<close>

definition hush :: "ev_env \<Rightarrow> ev_env" where
  "hush env = env\<lparr>env_completion := (\<lambda>cb es. Inr es), env_deliver := (\<lambda>hdr b es. Inr (True, es))\<rparr>"

lemma hush_simps [simp]:
  "quiet (hush env)" "silent (hush env) c" "env_send (hush env) = env_send env"
  by (simp_all add: hush_def quiet_def silent_def)

lemma complete_adds:
  assumes "adds_events env" "p \<in> used es" "es_wf (without_req p (completing p es))" "COMPLETE_EVENT env p es = Inr es'"
  shows "COMPLETE_EVENT (hush env) p es = Inr (completing p es) \<and> grows (completing p es) es' \<and> es_wf (without_req p es')"
proof (cases "ev_completion_cb (ev_of es p)")
  case None
  then have "COMPLETE_EVENT env p es = Inr (completing p es)"
    by (intro complete_silent) (simp add: silent_def)
  with assms(3,4) show ?thesis
    by (simp add: complete_silent)
next
  case (Some cb)
  then have "env_completion env cb (completing p es) = Inr es'"
    using assms(4) by (simp add: COMPLETE_EVENT_def ev_upd_twice Let_def)
  with adds_eventsD(1)[OF assms(1) _ assms(3)] assms(2) show ?thesis
    by (simp add: complete_silent)
qed

section \<open>Events that can be emitted stay so\<close>

definition keeps_ready :: "ev_sys_t \<Rightarrow> ev_sys_t \<Rightarrow> bool" where
  "keeps_ready es es' = (\<forall>p. ready es p \<longrightarrow> ready es' p \<and> ev_of es' p = ev_of es p)"

lemma keeps_ready_refl [simp]: "keeps_ready es es"
  by (simp add: keeps_ready_def)

lemma keeps_ready_trans: "keeps_ready es es1 \<Longrightarrow> keeps_ready es1 es2 \<Longrightarrow> keeps_ready es es2"
  by (simp add: keeps_ready_def)

lemma keeps_readyI:
  assumes "\<And>p. ready es p \<Longrightarrow> p \<in> used es' \<and> ev_of es' p = ev_of es p"
    and "\<And>p q. ready es p \<Longrightarrow> q \<in> used es' \<Longrightarrow> p \<notin> set (subs (ev_of es' q))"
  shows "keeps_ready es es'"
  using assms by (simp add: keeps_ready_def ready_def loose_def)

lemma grows_keeps_ready: "grows es es' \<Longrightarrow> keeps_ready es es'"
proof (rule keeps_readyI)
  fix p q
  assume g: "grows es es'" and p: "ready es p"
  then show "p \<in> used es' \<and> ev_of es' p = ev_of es p"
    by (auto simp: grows_def ready_def loose_def)
  assume "q \<in> used es'"
  with g p show "p \<notin> set (subs (ev_of es' q))"
    by (cases "q \<in> used es") (auto simp: grows_def ready_def loose_def)
qed

lemma checked_keeps_ready:
  assumes "es_wf es" "p \<in> set (es_ongoing_events es)" "used es' = used es - done_subs es p"
    and "\<forall>q \<in> used es' - {p}. ev_of es' q = ev_of es q" "set (subs (ev_of es' p)) \<subseteq> set (subs (ev_of es p))"
  shows "keeps_ready es es'"
proof (rule keeps_readyI)
  fix r q
  assume "ready es r"
  then have r: "r \<in> used es" "\<forall>q \<in> used es. r \<notin> set (subs (ev_of es q))" "r \<noteq> p"
    using es_wf_ongoing(2)[OF assms(1,2)] by (auto simp: ready_def loose_def)
  then have "r \<notin> done_subs es p"
    using es_wf_ongoing(1)[OF assms(1,2)] by (simp add: done_subs_def)
  with r assms(3,4) show "r \<in> used es' \<and> ev_of es' r = ev_of es r"
    by simp
  assume "q \<in> used es'"
  with r assms(3-5) show "r \<notin> set (subs (ev_of es' q))"
    by (cases "q = p") auto
qed

lemma retired_keeps_ready:
  assumes "es_wf es" "p \<in> set (es_ongoing_events es)" "used es' = used es - {p}" "\<forall>q \<in> - {p}. ev_of es' q = ev_of es q"
  shows "keeps_ready es es'"
  using assms es_wf_ongoing(2)[OF assms(1,2)] by (intro keeps_readyI) (auto simp: ready_def loose_def)

section \<open>Progress\<close>

text \<open>The check for completion ends with the callback or does not depend on it.\<close>

lemma event_completed_split:
  "(\<exists>esc. \<forall>env. event_completed env p es = bindE (COMPLETE_EVENT env p esc) (\<lambda>es1. Inr (True, es1)))
   \<or> (\<exists>r. \<forall>env. event_completed env p es = r)"
proof (cases "EVENT_HDR_TYPE (ev_of es p) = META_EVENT_TYPE")
  case False
  then show ?thesis
    by (cases "ev_complete (ev_of es p)") (auto simp: event_completed_def)
next
  case True
  define c where "c = (if ev_sub_events_initialized (ev_of es p) then collect_subevents p (ev_sub_events (ev_of es p)) es
    else Inr (True, es))"
  have e: "event_completed env p es = bindE (assertE (ev_event_system (ev_of es p))) (\<lambda>_. bindE c (\<lambda>(ok, es1).
        if \<not> ok then Inr (True, es1)
        else if \<not> ev_sub_events_initialized (ev_of es1 p) \<or> ev_sub_events (ev_of es1 p) = []
        then bindE (COMPLETE_EVENT env p es1) (\<lambda>es2. Inr (True, es2)) else Inr (False, es1)))" for env
    using True by (simp add: event_completed_def c_def Let_def)
  show ?thesis
  proof (cases "ev_event_system (ev_of es p)")
    case sys: True
    show ?thesis
    proof (cases c)
      case (Inr r)
      then show ?thesis
        by (cases r) (auto simp: e sys)
    qed (simp add: e sys)
  qed (simp add: e)
qed

lemma event_completed_adds:
  assumes "adds_events env" "es_wf es" "p \<in> set (es_ongoing_events es)" "event_completed env p es = Inr (b, es')"
  shows "b = finished es p \<and> es_wf es' \<and> keeps_ready es es' \<and> checked (ev_of es p) (ev_of es' p)
     \<and> (\<exists>os. es_ongoing_events es' = es_ongoing_events es @ os)
     \<and> (if b then subs (ev_of es' p) = [] \<and> ev_req (ev_of es' p) = No_request
        else ev_complete (ev_of es' p) = ev_complete (ev_of es p))"
proof -
  note p = es_wf_ongoing[OF assms(2,3)]
  from event_completed_spec[OF assms(2) p(1), of "hush env"] obtain es1 where
    es1: "event_completed (hush env) p es = Inr (finished es p, es1)" "es_wf es1" "used es1 = used es - done_subs es p"
      "\<forall>q \<in> used es1 - {p}. ev_of es1 q = ev_of es q" "checked (ev_of es p) (ev_of es1 p)"
      "if finished es p then subs (ev_of es1 p) = [] \<and> ev_req (ev_of es1 p) = No_request
       else ev_complete (ev_of es1 p) = ev_complete (ev_of es p)
         \<and> subs (ev_of es1 p) = filter (\<lambda>q. \<not> ev_complete (ev_of es q)) (subs (ev_of es p))"
      "es_ongoing_events es1 = es_ongoing_events es"
    by auto
  have "set (subs (ev_of es1 p)) \<subseteq> set (subs (ev_of es p))"
    using es1(6) by (auto split: if_splits)
  then have k: "keeps_ready es es1"
    by (rule checked_keeps_ready[OF assms(2,3) es1(3,4)])
  have "p \<notin> done_subs es p"
    using p(4)[OF p(1)] by (simp add: done_subs_def)
  with p(1) es1(3) have u: "p \<in> used es1"
    by simp
  have "b = finished es p \<and> (es' = es1 \<or> finished es p \<and> es_wf (without_req p es') \<and> grows es1 es')"
  proof (rule disjE[OF event_completed_split[of p es]])
    assume "\<exists>esc. \<forall>env. event_completed env p es = bindE (COMPLETE_EVENT env p esc) (\<lambda>es1. Inr (True, es1))"
    then obtain esc where esc: "event_completed env p es = bindE (COMPLETE_EVENT env p esc) (\<lambda>es1. Inr (True, es1))" for env
      by blast
    then have f: "finished es p" "es1 = completing p esc"
      using es1(1) by (simp_all add: complete_silent)
    moreover have "es_wf (without_req p es1)"
      using es1(2,6) f(1) by (simp add: without_req_id)
    ultimately show ?thesis
      using complete_adds[OF assms(1), of p esc es'] u assms(4) esc by (simp add: bindE_Inr_iff)
  next
    assume "\<exists>r. \<forall>env. event_completed env p es = r"
    then have "event_completed env p es = event_completed (hush env) p es"
      by auto
    with es1(1) assms(4) show ?thesis
      by simp
  qed
  then show ?thesis
  proof (elim conjE disjE)
    assume b: "b = finished es p" and f: "finished es p" "es_wf (without_req p es')" "grows es1 es'"
    then have "ev_of es' p = ev_of es1 p" "\<exists>os. es_ongoing_events es' = es_ongoing_events es @ os"
      using u es1(7) by (simp_all add: grows_def)
    with b f es1(5,6) k show ?thesis
      using keeps_ready_trans[OF k grows_keeps_ready] without_req_id[of es' p] by simp
  qed (use es1 k in simp)
qed

text \<open>One iteration keeps the other ongoing events on the list, so the successor that was read before it is
  still there.\<close>

lemma progress_event_body_adds:
  assumes "adds_events env" "es_wf es" "p \<in> set (es_ongoing_events es)" "progress_event_body env p es = Inr es'"
  shows "es_wf es' \<and> keeps_ready es es' \<and> set (es_ongoing_events es) - {p} \<subseteq> set (es_ongoing_events es')"
proof -
  note p = es_wf_ongoing[OF assms(2,3)]
  obtain b es1 where ec: "event_completed env p es = Inr (b, es1)"
    using assms(4) p(2) by (auto simp: progress_event_body_def PROGRESS_EVENT_SEND_def res_simps split: if_splits)
  note c = event_completed_adds[OF assms(1-3) ec]
  then have es1: "b = finished es p" "es_wf es1" "keeps_ready es es1" "checked (ev_of es p) (ev_of es1 p)"
      "set (es_ongoing_events es) \<subseteq> set (es_ongoing_events es1)"
    by auto
  have on1: "p \<in> set (es_ongoing_events es1)"
    using assms(3) es1(5) by blast
  have body: "progress_event_body env p es = (if finished es p then retire p es1 else Inr es1)"
    using ec c by (intro progress_event_body_checked[OF assms(2,3) _ es1(2) on1 es1(4)]) simp_all
  show ?thesis
  proof (cases "finished es p")
    case True
    with c have "subs (ev_of es1 p) = []" "ev_req (ev_of es1 p) = No_request"
      by simp_all
    from retire_spec[OF es1(2) on1 this] body True assms(4) have
      r: "es_wf es'" "used es' = used es1 - {p}" "\<forall>q \<in> - {p}. ev_of es' q = ev_of es1 q"
        "es_ongoing_events es' = remove1 p (es_ongoing_events es1)"
      by auto
    then show ?thesis
      using keeps_ready_trans[OF es1(3) retired_keeps_ready[OF es1(2) on1 r(2,3)]] es1(5)
        evs_invD(2)[OF es_wf_inv[OF es1(2)]] by auto
  next
    case False
    with body assms(4) es1 show ?thesis
      by auto
  qed
qed

lemma next_in_set: "next_in xs p = Some q \<Longrightarrow> distinct xs \<Longrightarrow> q \<in> set xs \<and> q \<noteq> p"
  by (induction xs p rule: next_in.induct) (auto split: if_splits)

lemma progress_loop_adds:
  assumes "adds_events env"
  shows "es_wf es \<Longrightarrow> set_option cur \<subseteq> set (es_ongoing_events es) \<Longrightarrow> progress_loop env n cur es = Inr es'
    \<Longrightarrow> es_wf es' \<and> keeps_ready es es'"
proof (induction n arbitrary: cur es)
  case 0
  then show ?case
    by (simp split: if_splits)
next
  case (Suc n)
  show ?case
  proof (cases cur)
    case None
    with Suc.prems show ?thesis
      by simp
  next
    case (Some p)
    let ?q = "next_in (es_ongoing_events es) p"
    obtain es1 where es1: "progress_event_body env p es = Inr es1" "progress_loop env n ?q es1 = Inr es'"
      using Suc.prems(3) Some by (auto simp: bindE_Inr_iff)
    have "p \<in> set (es_ongoing_events es)"
      using Suc.prems(2) Some by simp
    from progress_event_body_adds[OF assms Suc.prems(1) this es1(1)]
    have b: "es_wf es1" "keeps_ready es es1" "set (es_ongoing_events es) - {p} \<subseteq> set (es_ongoing_events es1)"
      by simp_all
    have "set_option ?q \<subseteq> set (es_ongoing_events es1)"
      using next_in_set[of "es_ongoing_events es" p] evs_invD(2)[OF es_wf_inv[OF Suc.prems(1)]] b(3) by (cases ?q) auto
    from Suc.IH[OF b(1) this es1(2)] b(2) show ?thesis
      by (auto intro: keeps_ready_trans)
  qed
qed

lemma progress_adds:
  assumes "adds_events env" "es_wf es" "progress_econtext_sends env fuel es = Inr es'"
  shows "es_wf es' \<and> keeps_ready es es'"
  using assms progress_loop_adds[OF assms(1,2), of "first_of (es_ongoing_events es)" fuel es']
  by (auto simp: progress_econtext_sends_def split: if_splits list.splits)

section \<open>Emitting\<close>

lemma am_send_split:
  fixes env :: ev_env
  shows "(\<exists>esc. ev_explicit_return (ev_of esc p) \<and> (\<forall>env'. env_send env' = env_send env \<longrightarrow>
      am_send_event_msg env' p es = bindE (COMPLETE_EVENT env' p esc) (\<lambda>es3. Inr (EVENT_INPROGRESS, es3))))
   \<or> (\<exists>r. \<forall>env'. env_send env' = env_send env \<longrightarrow> am_send_event_msg env' p es = r)"
proof (cases "emit_ids (ev_of es p) es")
  case None
  then show ?thesis
    by (simp add: am_send_event_msg_def)
next
  case (Some ids)
  define es1 where "es1 = ev_upd p (\<lambda>ev. ev\<lparr>ev_hdr := (ev_hdr ev)\<lparr>hdr_scope_id := ev_scope_id ev\<rparr>\<rparr>)
    (PREP_EVENT_FOR_EMIT p ids es)"
  have do: "do_am_send_event_msg env' p es1 = do_am_send_event_msg env p es1" if "env_send env' = env_send env" for env'
    using that by (simp add: do_am_send_event_msg_def)
  define k where "k = (\<lambda>env' (rc, es2).
      if rc = EVENT_DONE \<or> (rc = EVENT_INPROGRESS \<and> ev_req (ev_of es2 p) = No_request) then
        if \<not> ev_explicit_return (ev_of es2 p) then
          bindE (assertE (ev_event_system (ev_of es2 p))) (\<lambda>_.
          bindE (if rc \<noteq> EVENT_DONE
                 then bindE (assertE (0 < es_posted_sends es2)) (\<lambda>_.
                      Inr (es2\<lparr>es_posted_sends := es_posted_sends es2 - 1\<rparr>))
                 else Inr es2) (\<lambda>es3.
          bindE (event_return p es3) (\<lambda>(rc', es4).
          Inr (if rc' \<noteq> DO_SUCCESS then EVENT_FAILED else EVENT_DONE, es4))))
        else bindE (COMPLETE_EVENT env' p es2) (\<lambda>es3. Inr (EVENT_INPROGRESS, es3))
      else Inr (rc, es2))"
  have am0: "am_send_event_msg env' p es = bindE (do_am_send_event_msg env' p es1) (k env')" for env'
    unfolding am_send_event_msg_def Some option.case Let_def k_def es1_def ..
  have am: "am_send_event_msg env' p es = bindE (do_am_send_event_msg env p es1) (k env')"
    if "env_send env' = env_send env" for env'
    unfolding am0 do[OF that] ..
  show ?thesis
  proof (cases "do_am_send_event_msg env p es1")
    case (Inl e)
    with am show ?thesis
      by simp
  next
    case (Inr r)
    obtain rc es2 where r: "r = (rc, es2)"
      by (cases r)
    have k: "am_send_event_msg env' p es = k env' (rc, es2)" if "env_send env' = env_send env" for env'
      using am[OF that] Inr r by simp
    show ?thesis
    proof (cases "(rc = EVENT_DONE \<or> rc = EVENT_INPROGRESS \<and> ev_req (ev_of es2 p) = No_request)
        \<and> ev_explicit_return (ev_of es2 p)")
      case True
      then have "am_send_event_msg env' p es = bindE (COMPLETE_EVENT env' p es2) (\<lambda>es3. Inr (EVENT_INPROGRESS, es3))"
        if "env_send env' = env_send env" for env'
        unfolding k[OF that] k_def by simp
      with True show ?thesis
        by blast
    next
      case False
      then have "k env' (rc, es2) = k env (rc, es2)" for env'
        unfolding k_def by auto
      with k show ?thesis
        by metis
    qed
  qed
qed

lemma am_send_adds:
  assumes "adds_events env" "es_wf es" "ready es p" "EVENT_HDR_TYPE (ev_of es p) \<noteq> META_EVENT_TYPE"
    and "ev_dest_ep (ev_of es p) \<noteq> None" "\<not> ev_complete (ev_of es p)" "am_send_event_msg env p es = Inr (rc, es')"
  shows "am_send_event_msg (hush env) p es = Inr (rc, es')
    \<or> rc = EVENT_INPROGRESS \<and> ev_explicit_return (ev_of es' p) \<and> es_wf es'"
proof (rule disjE[OF am_send_split[of p env es]])
  assume "\<exists>esc. ev_explicit_return (ev_of esc p) \<and> (\<forall>env'. env_send env' = env_send env \<longrightarrow>
      am_send_event_msg env' p es = bindE (COMPLETE_EVENT env' p esc) (\<lambda>es3. Inr (EVENT_INPROGRESS, es3)))"
  then obtain esc where esc: "ev_explicit_return (ev_of esc p)"
      "\<And>env'. env_send env' = env_send env \<Longrightarrow>
         am_send_event_msg env' p es = bindE (COMPLETE_EVENT env' p esc) (\<lambda>es3. Inr (EVENT_INPROGRESS, es3))"
    by blast
  have "am_send_event_msg (hush env) p es = Inr (EVENT_INPROGRESS, completing p esc)"
    using esc(2)[of "hush env"] by (simp add: complete_silent)
  with am_send_event_msg_spec[OF assms(2,3) hush_simps(1) assms(4-6), of env] have k: "kept es p (completing p esc)"
    by auto
  have u: "p \<in> used esc" and wf: "es_wf (completing p esc)"
    using k assms(3) by (auto simp: kept_def ready_def loose_def)
  moreover have "ev_req (ev_of (completing p esc) p) = No_request"
    using es_wf_ev(1)[OF wf, of p] u by (simp add: local_ok_def)
  ultimately have w: "es_wf (without_req p (completing p esc))"
    using without_req_id by metis
  have c: "COMPLETE_EVENT env p esc = Inr es'" "rc = EVENT_INPROGRESS"
    using assms(7) unfolding esc(2)[OF refl] by (auto simp: bindE_Inr_iff)
  from complete_adds[OF assms(1) u w c(1)] have g: "grows (completing p esc) es'" "es_wf (without_req p es')"
    by simp_all
  then have e: "ev_of es' p = (ev_of esc p)\<lparr>ev_complete := True, ev_completion_cb := None\<rparr>"
    using u by (simp add: grows_def)
  then have "ev_req (ev_of es' p) = No_request"
    using \<open>ev_req (ev_of (completing p esc) p) = No_request\<close> by simp
  then show ?thesis
    using g(2) e esc(1) c(2) by (simp add: without_req_id)
next
  assume "\<exists>r. \<forall>env'. env_send env' = env_send env \<longrightarrow> am_send_event_msg env' p es = r"
  then have "am_send_event_msg (hush env) p es = am_send_event_msg env p es"
    by auto
  with assms(7) show ?thesis
    by simp
qed

lemma emit_prepared_adds:
  assumes "adds_events env" "es_wf es" "ready es p" "EVENT_HDR_TYPE (ev_of es p) \<noteq> META_EVENT_TYPE"
    and "ev_dest_ep (ev_of es p) \<noteq> None" "\<not> ev_complete (ev_of es p)" "emit_prepared env p es = Inr (rc, es')"
  shows "es_wf es'"
proof (cases "es_type es = CONTEXT_SELF")
  case True
  then obtain es1 rc' where d: "env_deliver env (ev_hdr (ev_of es p)) (ev_payload (ev_of es p)) es = Inr (True, es1)"
      "event_return p es1 = Inr (rc', es')"
    using assms(7) by (auto simp: emit_prepared_def res_simps)
  from adds_eventsD(2)[OF assms(1-3) d(1)] have "es_wf es1" "ready es1 p"
    by simp_all
  from event_return_ready[OF this] d(2) show ?thesis
    by auto
next
  case False
  then obtain es1 where am: "am_send_event_msg env p es = Inr (rc, es1)"
      "(if rc = EVENT_INPROGRESS then QUEUE_EVENT p es1 else Inr es1) = Inr es'"
    using assms(7) by (auto simp: emit_prepared_def bindE_Inr_iff split: if_splits)
  from am_send_adds[OF assms(1-6) am(1)] show ?thesis
  proof (elim disjE conjE)
    assume h: "am_send_event_msg (hush env) p es = Inr (rc, es1)"
    have "emit_prepared (hush env) p es = Inr (rc, es')"
      using False h am(2) by (auto simp: emit_prepared_def split: if_splits)
    with emit_prepared_spec[OF assms(2,3) hush_simps(1) assms(4-6), of env] show ?thesis
      by (auto simp: emitted_def given_back_def kept_def split: if_splits)
  next
    assume "rc = EVENT_INPROGRESS" "ev_explicit_return (ev_of es1 p)" "es_wf es1"
    with am(2) show ?thesis
      by (simp add: QUEUE_EVENT_def)
  qed
qed

text \<open>What both emit functions do first, and the header they fill in.\<close>

lemma emit_progress_adds:
  assumes "adds_events env" "es_wf es" "ready es p"
    and "(if ev_is_subevent (ev_of es p) then Inr es else progress_econtext_sends env fuel es) = Inr es1"
  shows "es_wf es1 \<and> ready es1 p \<and> ev_of es1 p = ev_of es p"
proof (cases "ev_is_subevent (ev_of es p)")
  case True
  with assms show ?thesis
    by simp
next
  case False
  with progress_adds[OF assms(1,2), of fuel es1] assms(3,4) show ?thesis
    unfolding keeps_ready_def by metis
qed

lemma emit_header:
  assumes "es_wf es" "ready es p" "0 < type" "type \<noteq> META_EVENT_TYPE"
    and "f = (\<lambda>ev. ev\<lparr>ev_complete := False, ev_hdr := hdr ev, ev_payload := pl ev, ev_dest_ep := d, ev_dest_id := i\<rparr>)"
    and "hdr_type (hdr (ev_of es p)) = type" "ev_manage_payload_buf (ev_of es p) \<Longrightarrow> pl (ev_of es p) = ev_payload (ev_of es p)"
  shows "es_wf (ev_upd p f es) \<and> ready (ev_upd p f es) p"
proof -
  have r: "\<not> ev_is_ongoing_event (ev_of es p)" "subs (ev_of es p) = []" "\<not> ev_was_posted (ev_of es p)"
      "ev_req (ev_of es p) = No_request" "local_ok (ev_of es p)"
    using assms(2) es_wf_ev(1)[OF assms(1)] by (simp_all add: ready_def loose_def)
  have "owned (f (ev_of es p)) = owned (ev_of es p)"
    using assms(5,7) by (auto simp: owned_def)
  then show ?thesis
    using r assms(3-6) by (intro ready_upd[OF assms(1,2)]) (simp_all add: local_ok_def)
qed

lemma event_channel_emit_adds:
  assumes "adds_events env" "es_wf es" "ready es p" "0 < type" "type \<noteq> META_EVENT_TYPE" "dest_ep \<noteq> None"
    and "event_channel_emit env fuel p type dest_ep dest_id es = Inr (rc, es')"
  shows "es_wf es'"
proof -
  obtain es1 where es1: "(if ev_is_subevent (ev_of es p) then Inr es else progress_econtext_sends env fuel es) = Inr es1"
    and e: "emit_prepared env p (ev_upd p (\<lambda>ev. ev\<lparr>ev_complete := False,
       ev_hdr := (ev_hdr ev)\<lparr>hdr_type := type, hdr_id := ECONTEXT_ID es1\<rparr>, ev_payload := ev_payload ev,
       ev_dest_ep := dest_ep, ev_dest_id := dest_id\<rparr>) es1) = Inr (rc, es')"
    using assms(7) by (auto simp: event_channel_emit_def bindE_Inr_iff)
  note p = emit_progress_adds[OF assms(1-3) es1]
  from emit_header[OF _ _ assms(4,5) refl, of es1 p "\<lambda>ev. (ev_hdr ev)\<lparr>hdr_type := type, hdr_id := ECONTEXT_ID es1\<rparr>" ev_payload]
    p show ?thesis
    using emit_prepared_adds[OF assms(1) _ _ _ _ _ e] assms(5,6) by simp
qed

lemma event_channel_emit_with_payload_adds:
  assumes "adds_events env" "es_wf es" "ready es p" "0 < type" "type \<noteq> META_EVENT_TYPE" "dest_ep \<noteq> None"
    and "event_channel_emit_with_payload env fuel p type dest_ep dest_id b n es = Inr (rc, es')"
  shows "es_wf es'"
proof -
  obtain es1 where es1: "(if ev_is_subevent (ev_of es p) then Inr es else progress_econtext_sends env fuel es) = Inr es1"
    and e: "emit_prepared env p (ev_upd p (\<lambda>ev. ev\<lparr>ev_complete := False,
       ev_hdr := (ev_hdr ev)\<lparr>hdr_type := type, hdr_id := ECONTEXT_ID es1, hdr_payload_size := n\<rparr>, ev_payload := b,
       ev_dest_ep := dest_ep, ev_dest_id := dest_id\<rparr>) es1) = Inr (rc, es')"
    and m: "\<not> ev_manage_payload_buf (ev_of es p)"
    using assms(7) by (auto simp: event_channel_emit_with_payload_def res_simps Let_def)
  note p = emit_progress_adds[OF assms(1-3) es1]
  from emit_header[OF _ _ assms(4,5) refl, of es1 p
      "\<lambda>ev. (ev_hdr ev)\<lparr>hdr_type := type, hdr_id := ECONTEXT_ID es1, hdr_payload_size := n\<rparr>" "\<lambda>_. b"] p m show ?thesis
    using emit_prepared_adds[OF assms(1) _ _ _ _ _ e] assms(5,6) by simp
qed

section \<open>Histories\<close>

lemma notification_emit_cb_adds:
  assumes "adds_events env" "es_wf es" "p \<in> used es" "notification_emit_cb env p es = Inr es'"
  shows "es_wf es'"
proof -
  obtain es1 where es1: "COMPLETE_EVENT env p es = Inr es1" "es' = without_req p es1"
    using assms(4) by (auto simp: notification_emit_cb_def res_simps Let_def)
  have "es_wf (without_req p (completing p es))"
    using es_wf_ev(1)[OF assms(2,3)] assms(3) unfolding ev_upd_twice
    by (intro es_wf_upd[OF assms(2)]) (simp_all add: local_ok_def child_ok_def)
  from complete_adds[OF assms(1,3) this es1(1)] es1(2) show ?thesis
    by simp
qed

lemma ev_step_wf:
  assumes "ev_step env es es'" "es_wf es" "adds_events env"
  shows "es_wf es'"
  using assms(1)
proof cases
  case g: (Get info p)
  then obtain dl h where "DYN_LIST_GET sizeof_event (es_free_evs es) (es_heap es) = Inr (p, dl, h)"
    using event_get_pool(1)[OF g] by blast
  from event_get_wf[OF assms(2) this, of info] event_get_pool(2)[OF g] g show ?thesis
    by auto
next
  case (Prepare p cb sub meta)
  with prepare_wf[OF assms(2)] show ?thesis
    by simp
next
  case (Emit p type dest_ep fuel dest_id rc)
  with event_channel_emit_adds[OF assms(3,2)] show ?thesis
    by blast
next
  case e: (Emit_payload p type dest_ep fuel dest_id b n rc)
  with event_channel_emit_with_payload_adds[OF assms(3,2)] show ?thesis
    by blast
next
  case (Subevent p m)
  with QUEUE_SUBEVENT_wf[OF assms(2)] show ?thesis
    by blast
next
  case (Queue m)
  with QUEUE_EVENT_spec[OF assms(2), of m] show ?thesis
    by auto
next
  case (Sent p)
  with notification_emit_cb_adds[OF assms(3,2)] show ?thesis
    by blast
next
  case (Progress fuel)
  with progress_adds[OF assms(3,2)] show ?thesis
    by blast
next
  case (Return p rc)
  with event_return_wf[OF assms(2)] show ?thesis
    by blast
qed

lemma ev_steps_wf:
  "(ev_step env)\<^sup>*\<^sup>* es es' \<Longrightarrow> adds_events env \<Longrightarrow> es_wf es \<Longrightarrow> es_wf es'"
  by (induction rule: rtranclp_induct) (auto intro: ev_step_wf)


end
