(* ===== verification/Event_Properties.thy ===== *)
theory Event_Properties
imports Event_Callbacks
begin

text \<open>
  What holds of the event system of a context after any history from its set-up on.
\<close>

section \<open>A context with a pool of events\<close>

definition demo_event :: dpu_offload_event_t where
  "demo_event =
     \<lparr>ev_seq_num = 0,
      ev_hdr = \<lparr>hdr_id = 0, hdr_type = 0, hdr_payload_size = 0, hdr_event_id = 0, hdr_client_id = 0, hdr_server_id = 0,
                hdr_scope_id = SCOPE_UNKNOWN, hdr_sender_type = CONTEXT_UNKOWN\<rparr>,
      ev_complete = False, ev_completion_cb = None, ev_scope_id = SCOPE_UNKNOWN, ev_client_id = 0, ev_server_id = 0,
      ev_sub_events = [], ev_sub_events_initialized = False, ev_is_subevent = False, ev_is_ongoing_event = False,
      ev_was_posted = False, ev_req = No_request, ev_explicit_return = False, ev_manage_payload_buf = False,
      ev_payload = None, ev_dest_ep = None, ev_dest_id = 0, ev_event_system = False,
      ev_info = \<lparr>ni_get_buf = False, ni_return_buf = False, ni_mem_pool = None, ni_element_size = 0\<rparr>\<rparr>"

text \<open>Callbacks that do nothing, and a UCX that posts every send.\<close>

definition posting_env :: ev_env where
  "posting_env = \<lparr>env_completion = (\<lambda>cb es. Inr es), env_send = (\<lambda>p es. Send_posted),
     env_deliver = (\<lambda>hdr b es. Inr (True, es))\<rparr>"

lemma posting_quiet: "quiet posting_env"
  by (simp add: quiet_def silent_def posting_env_def)

lemmas posting_adds = quiet_adds_events[OF posting_quiet]

text \<open>The same UCX with a completion callback that takes an event from the pool when there is one.\<close>

definition taking_env :: ev_env where
  "taking_env = posting_env\<lparr>env_completion := (\<lambda>cb es.
     if internal_list (dl_list (es_free_evs es)) = [] then Inr es else bindE (event_get None es) (\<lambda>(q, es1). Inr es1))\<rparr>"

definition demo_es :: ev_sys_t where
  "demo_es =
     \<lparr>es_free_evs = \<lparr>dl_blk = 0, dl_capacity = 32, dl_allocation_size = 32,
        dl_list = \<lparr>internal_list = rev (map (Pair 2) [0..<32]), sl_length = 32\<rparr>,
        dl_element_init_cb = Some init_event, dl_num_mem_chunks = 1,
        dl_mem_chunks = \<lparr>da_base = Some (1, \<lparr>mc_size = 8448, mc_ptr = Some 2\<rparr> # replicate 1023 zero_mem_chunk),
           da_capacity = 1024, da_allocation_size = 1024, da_type_size = 16, da_element_init_fn = None\<rparr>,
        dl_elts = init_chunk (Some init_event) 2 32 (\<lambda>_. demo_event)\<rparr>,
      es_heap = \<lparr>h_next = 3, h_live = [(2, 8448), (1, 16384), (0, 96)], h_oom = (\<lambda>_. False)\<rparr>,
      es_num_used_evs = 0, es_posted_sends = 0, es_type = CONTEXT_CLIENT, es_scope_id = SCOPE_HOST_DPU,
      es_client_id = 0, es_server_id = 0, es_ongoing_events = [], es_seq_num = 0, es_bufs = [], es_next_buf = 0\<rparr>"

lemma demo_es_init: "ev_channels_init (\<lambda>_. demo_event) demo_heap CONTEXT_CLIENT SCOPE_HOST_DPU = Inr demo_es"
proof -
  have m: "malloc 96 demo_heap = (Some 0, \<lparr>h_next = 1, h_live = [(0, 96)], h_oom = (\<lambda>_. False)\<rparr>)"
    "malloc (1024 * 16) \<lparr>h_next = 1, h_live = [(0, 96)], h_oom = (\<lambda>_. False)\<rparr>
     = (Some 1, \<lparr>h_next = 2, h_live = [(1, 16384), (0, 96)], h_oom = (\<lambda>_. False)\<rparr>)"
    "malloc (32 * 264) \<lparr>h_next = 2, h_live = [(1, 16384), (0, 96)], h_oom = (\<lambda>_. False)\<rparr>
     = (Some 2, es_heap demo_es)"
    by (simp_all add: malloc_def malloc_ok_def heap_bytes_def demo_heap_def demo_es_def)
  show ?thesis
    by (simp add: ev_channels_init_def DYN_LIST_ALLOC_WITH_INIT_CALLBACK_def dyn_list_alloc_with_def
        DYN_ARRAY_ALLOC_def m[simplified] GROW_DYN_LIST_def DYN_ARRAY_GET_ELT_def da_write_def sizeof_dyn_list_t_def
        sizeof_mem_chunk_t_def DEFAULT_MEM_CHUNKS_def elts_in_def SIMPLE_LIST_INIT_def grow_step_fold
        SIMPLE_LIST_LENGTH_def sizeof_event_def replicate_1024 del: upt_conv_Cons)
       (simp add: demo_es_def)
qed

section \<open>Short histories\<close>

text \<open>Getting an event while the pool has one, on a context without ongoing events.\<close>

definition idle :: "ev_sys_t \<Rightarrow> ptr list \<Rightarrow> bool" where
  "idle es ps = (es_wf es \<and> es_ongoing_events es = [] \<and> es_type es = CONTEXT_CLIENT
     \<and> es_scope_id es = SCOPE_HOST_DPU \<and> internal_list (dl_list (es_free_evs es)) = ps)"

lemma idle_upd: "es_wf (ev_upd p f es) \<Longrightarrow> idle es ps \<Longrightarrow> idle (ev_upd p f es) ps"
  by (simp add: idle_def) (simp add: ev_upd_def)

lemma prepare_idle:
  assumes "idle es ps" "ready es p"
  shows "es_wf (ev_upd p (\<lambda>ev. prepare ev cb sub meta) es)" "idle (ev_upd p (\<lambda>ev. prepare ev cb sub meta) es) ps"
proof -
  show "es_wf (ev_upd p (\<lambda>ev. prepare ev cb sub meta) es)"
    using assms by (intro prepare_wf) (simp_all add: idle_def)
  then show "idle (ev_upd p (\<lambda>ev. prepare ev cb sub meta) es) ps"
    using assms(1) by (rule idle_upd)
qed

lemma event_get_ready:
  assumes "es_wf es" "es_wf es'" "p \<notin> used es" "used es' = insert p (used es)" "fresh_event (ev_of es' p)"
    and "\<forall>q \<in> used es. ev_of es' q = ev_of es q"
  shows "ready es' p"
proof -
  have "p \<notin> set (subs (ev_of es' q))" if "q \<in> used es'" for q
  proof (cases "q = p")
    case True
    with assms(5) show ?thesis
      by (simp add: fresh_event_def)
  next
    case False
    then have "q \<in> used es"
      using that assms(4) by simp
    with es_wf_ev(2)[OF assms(1) this] assms(3,6) show ?thesis
      by auto
  qed
  with assms(4,5) show ?thesis
    by (simp add: ready_def loose_def fresh_event_def)
qed

lemma get_plain:
  assumes "idle es (p # ps)"
  shows "\<exists>es'. event_get None es = Inr (p, es') \<and> idle es' ps \<and> p \<notin> used es \<and> used es' = insert p (used es) \<and> ready es' p
           \<and> \<not> ev_explicit_return (ev_of es' p) \<and> \<not> ev_is_subevent (ev_of es' p) \<and> (\<forall>q \<in> used es. ev_of es' q = ev_of es q)
           \<and> EVENT_HDR_TYPE (ev_of es' p) = UINT64_MAX \<and> es_posted_sends es' = es_posted_sends es"
proof -
  have wf: "es_wf es" "internal_list (dl_list (es_free_evs es)) = p # ps"
    using assms by (simp_all add: idle_def)
  then have i: "es_wf es" "dl_wf sizeof_event (es_free_evs es) (es_heap es)" "internal_list (dl_list (es_free_evs es)) = p # ps"
    by (simp_all add: es_wf_def)
  note g = dl_get_available[OF i(2,3)]
  have g0: "DYN_LIST_GET sizeof_event (es_free_evs es) (es_heap es) = Inr (p,
      (es_free_evs es)\<lparr>dl_list := \<lparr>internal_list = ps, sl_length = sl_length (dl_list (es_free_evs es)) - 1\<rparr>\<rparr>, es_heap es)"
    by (rule g)
  obtain es' where e: "event_get None es = Inr (p, es')" "es_wf es'" "p \<notin> used es" "used es' = insert p (used es)"
      "fresh_event (ev_of es' p)" "\<forall>q \<in> used es. ev_of es' q = ev_of es q"
      "es_ongoing_events es' = es_ongoing_events es" "es_posted_sends es' = es_posted_sends es"
    using event_get_wf[OF i(1) g0, of None] by auto
  have "es_type es' = es_type es" "es_scope_id es' = es_scope_id es" "internal_list (dl_list (es_free_evs es')) = ps"
    using e(1) g0 by (auto simp: event_get_def res_simps setup_event_def ev_upd_def Let_def)
  moreover have "\<not> ev_explicit_return (ev_of es' p)"
    using e(1) g0 by (auto simp: event_get_def res_simps setup_event_def Let_def RESET_EVENT_def)
  ultimately show ?thesis
    using e event_get_ready[OF i(1) e(2-6)] assms by (auto simp: idle_def fresh_event_def)
qed

lemma demo_idle: "idle demo_es (rev (map (Pair 2) [0..<32]))"
  using ev_channels_init_wf(1)[OF demo_wf demo_es_init] by (simp add: idle_def) (simp add: demo_es_def)

lemma demo_idle2: "idle demo_es ((2, 31) # (2, 30) # rev (map (Pair 2) [0..<30]))"
proof -
  have "[0..<32] = [0..<30] @ [30, 31]"
    by (simp add: upt_rec)
  then have "rev (map (Pair 2) [0..<32]) = (2, 31) # (2, 30) # rev (map (Pair (2 :: blk)) [0..<30])"
    by simp
  with demo_idle show ?thesis
    by simp
qed

lemma ev_upd_swap: "p \<noteq> q \<Longrightarrow> ev_upd p f (ev_upd q g es) = ev_upd q g (ev_upd p f es)"
  by (simp add: ev_upd_def ev_of_def fun_upd_twist)

text \<open>Getting an event the pool has does not depend on the events in use.\<close>

lemma get_plain_upd:
  assumes "dl_wf sizeof_event (es_free_evs es) (es_heap es)" "internal_list (dl_list (es_free_evs es)) = q # qs" "p \<noteq> q"
    and "event_get None es = Inr (r, es')"
  shows "event_get None (ev_upd p f es) = Inr (q, ev_upd p f es')" "r = q"
    "\<forall>p \<in> - {q}. ev_of es' p = ev_of es p"
proof -
  let ?L = "\<lparr>internal_list = qs, sl_length = sl_length (dl_list (es_free_evs es)) - 1\<rparr>"
  let ?X = "\<lambda>es. es\<lparr>es_free_evs := (es_free_evs es)\<lparr>dl_list := ?L\<rparr>, es_seq_num := Suc (es_seq_num es),
      es_num_used_evs := es_num_used_evs es + 1\<rparr>"
  let ?f1 = "\<lambda>ev. RESET_EVENT (ev\<lparr>ev_seq_num := es_seq_num es\<rparr>)"
  let ?f2 = "\<lambda>ev. ev\<lparr>ev_event_system := True, ev_scope_id := es_scope_id es,
      ev_hdr := (ev_hdr ev)\<lparr>hdr_sender_type := es_type es\<rparr>\<rparr>"
  have X: "?X (ev_upd p f es) = ev_upd p f (?X es)"
    by (simp add: ev_upd_def ev_of_def)
  have l: "dl_list (es_free_evs (ev_upd p f es)) = dl_list (es_free_evs es)" "es_seq_num (ev_upd p f es) = es_seq_num es"
      "dl_elts (es_free_evs (ev_upd p f es)) q = dl_elts (es_free_evs es) q"
    using assms(3) by (simp_all add: ev_upd_def)
  have g: "event_get None es' = bindE (CHECK_EVENT (ev_of (ev_upd q ?f1 (?X es')) q)) (\<lambda>_. Inr (q, ev_upd q ?f2 (ev_upd q ?f1 (?X es'))))"
    if "dl_wf sizeof_event (es_free_evs es') (es_heap es')" "dl_list (es_free_evs es') = dl_list (es_free_evs es)"
      "es_seq_num es' = es_seq_num es" "es_scope_id es' = es_scope_id es" "es_type es' = es_type es" for es'
    using dl_get_available[OF that(1), of q qs] assms(2) that(2-5) by (simp add: event_get_def setup_event_def Let_def)
  have c: "CHECK_EVENT (ev_of (ev_upd q ?f1 (?X es)) q) = Inr ()" "r = q" "es' = ev_upd q ?f2 (ev_upd q ?f1 (?X es))"
    using assms(4) g[of es] assms(1) by (auto simp: bindE_Inr_iff)
  show "r = q"
    by (rule c)
  show "\<forall>p \<in> - {q}. ev_of es' p = ev_of es p"
    using c(3) by (simp add: ev_of_def)
  have "ev_of (ev_upd q ?f1 (ev_upd p f (?X es))) q = ev_of (ev_upd q ?f1 (?X es)) q"
    using assms(3) by simp
  then have "event_get None (ev_upd p f es) = Inr (q, ev_upd q ?f2 (ev_upd q ?f1 (ev_upd p f (?X es))))"
    using g[of "ev_upd p f es"] assms(1) c(1) l X by simp
  then show "event_get None (ev_upd p f es) = Inr (q, ev_upd p f es')"
    using c(3) assms(3) by (simp add: ev_upd_swap[of p q])
qed

lemma taking_adds: "adds_events taking_env"
proof -
  have "es_wf (without_req p es') \<and> grows es es'"
    if p: "p \<in> used es" "es_wf (without_req p es)" and e: "env_completion taking_env cb es = Inr es'" for cb p es es'
  proof (cases "internal_list (dl_list (es_free_evs es))")
    case Nil
    with p(2) e show ?thesis
      by (simp add: taking_env_def)
  next
    case (Cons q qs)
    then obtain r where r: "event_get None es = Inr (r, es')"
      using e by (auto simp: taking_env_def bindE_Inr_iff)
    have dl: "dl_wf sizeof_event (es_free_evs es) (es_heap es)"
      using p(2) by (simp add: es_wf_def)
    have "q \<in> dl_free (es_free_evs es)"
      using Cons by (simp add: dl_free_def)
    then have "p \<noteq> q"
      using free_used[OF p(1)] by blast
    note c = get_plain_upd[OF dl Cons this r]
    have "internal_list (dl_list (es_free_evs (without_req p es))) = q # qs"
      using Cons by (simp add: ev_upd_def)
    note g = dl_get_available[OF _ this]
    from event_get_wf[OF p(2) g, of None] dl c(1)[of "\<lambda>ev. ev\<lparr>ev_req := No_request\<rparr>"] obtain
      w: "es_wf (without_req p es')" "used es' = insert q (used es)" "fresh_event (ev_of (without_req p es') q)"
        "\<forall>q \<in> used es. ev_of (without_req p es') q = ev_of (without_req p es) q" "q \<notin> used es"
        "es_ongoing_events es' = es_ongoing_events es"
      by auto
    have "subs (ev_of es' q) = []"
      using w(3) \<open>p \<noteq> q\<close> by (simp add: fresh_event_def)
    with w c(3) show ?thesis
      by (auto simp: grows_def)
  qed
  then show ?thesis
    unfolding adds_events_def by (auto simp: taking_env_def posting_env_def)
qed

text \<open>Emitting on such a context when UCX posts the send.\<close>

lemma emit_posted:
  assumes "idle es ps" "ready es p" "\<not> ev_explicit_return (ev_of es p)" "adds_events env" "env_send env = (\<lambda>p es. Send_posted)"
  shows "\<exists>es'. event_channel_emit env 0 p 64 (Some 0) 0 es = Inr (EVENT_INPROGRESS, es') \<and> es_wf es'
           \<and> es_ongoing_events es' = (if ev_is_subevent (ev_of es p) then [] else [p]) \<and> used es' = used es
           \<and> es_type es' = CONTEXT_CLIENT \<and> es_scope_id es' = SCOPE_HOST_DPU
           \<and> internal_list (dl_list (es_free_evs es')) = ps
           \<and> (\<forall>q \<in> - {p}. ev_of es' q = ev_of es q) \<and> ev_was_posted (ev_of es' p) \<and> ev_req (ev_of es' p) = Request
           \<and> ev_is_subevent (ev_of es' p) = ev_is_subevent (ev_of es p) \<and> subs (ev_of es' p) = []
           \<and> EVENT_HDR_TYPE (ev_of es' p) = 64 \<and> es_posted_sends es' = Suc (es_posted_sends es)
           \<and> ev_completion_cb (ev_of es' p) = ev_completion_cb (ev_of es p)"
proof -
  have i: "es_wf es" "es_ongoing_events es = []" "es_type es = CONTEXT_CLIENT" "es_scope_id es = SCOPE_HOST_DPU"
      "internal_list (dl_list (es_free_evs es)) = ps"
    using assms(1) by (simp_all add: idle_def)
  have r: "\<not> ev_is_ongoing_event (ev_of es p)" "subs (ev_of es p) = []"
    using assms(2) by (simp_all add: ready_def loose_def)
  have prog: "progress_econtext_sends env 0 es = Inr es"
    using i(2,4) by (simp add: progress_econtext_sends_def)
  let ?g = "\<lambda>ev. ev\<lparr>ev_complete := False, ev_hdr := (ev_hdr ev)\<lparr>hdr_type := 64, hdr_id := ECONTEXT_ID es\<rparr>,
       ev_dest_ep := Some 0, ev_dest_id := 0\<rparr>"
  have send: "env_send env p es' = Send_posted" for es'
    by (simp add: assms(5))
  obtain es' where e: "event_channel_emit env 0 p 64 (Some 0) 0 es = Inr (EVENT_INPROGRESS, es')"
      "es_ongoing_events es' = (if ev_is_subevent (ev_of es p) then [] else [p])" "used es' = used es"
      "es_type es' = CONTEXT_CLIENT" "es_scope_id es' = SCOPE_HOST_DPU" "internal_list (dl_list (es_free_evs es')) = ps"
      "\<forall>q \<in> - {p}. ev_of es' q = ev_of es q" "ev_was_posted (ev_of es' p)" "ev_req (ev_of es' p) = Request"
      "ev_is_subevent (ev_of es' p) = ev_is_subevent (ev_of es p)" "subs (ev_of es' p) = []"
      "EVENT_HDR_TYPE (ev_of es' p) = 64" "es_posted_sends es' = Suc (es_posted_sends es)"
      "ev_completion_cb (ev_of es' p) = ev_completion_cb (ev_of es p)"
  proof (cases "ev_is_subevent (ev_of es p)")
    case True
    show ?thesis
      by (rule that, insert True i r assms(3), simp add: event_channel_emit_def prog emit_prepared_def
          am_send_event_msg_def emit_ids_def PREP_EVENT_FOR_EMIT_def do_am_send_event_msg_def send QUEUE_EVENT_def Let_def,
          simp_all) (simp add: ev_upd_def)
  next
    case False
    show ?thesis
      by (rule that, insert False i r assms(3), simp add: event_channel_emit_def prog emit_prepared_def
          am_send_event_msg_def emit_ids_def PREP_EVENT_FOR_EMIT_def do_am_send_event_msg_def send QUEUE_EVENT_def Let_def,
          simp_all) (simp add: ev_upd_def)
  qed
  moreover have "es_wf es'"
    using event_channel_emit_adds[OF assms(4) i(1) assms(2) _ _ _ e(1)] by (simp add: META_EVENT_TYPE_def)
  ultimately show ?thesis
    by blast
qed

text \<open>A meta-event whose only sub-event was posted and has completed.\<close>

lemma demo_meta:
  "\<exists>es. (ev_step posting_env)\<^sup>*\<^sup>* demo_es es \<and> es_ongoing_events es = [(2, 31)] \<and> used es = {(2, 30), (2, 31)}
     \<and> es_scope_id es = SCOPE_HOST_DPU \<and> EVENT_HDR_TYPE (ev_of es (2, 31)) = META_EVENT_TYPE
     \<and> subs (ev_of es (2, 31)) = [(2, 30)] \<and> ev_complete (ev_of es (2, 30)) \<and> ev_was_posted (ev_of es (2, 30))
     \<and> \<not> ev_was_posted (ev_of es (2, 31)) \<and> es_posted_sends es = 1"
proof -
  let ?m = "(2, 31) :: ptr" and ?q = "(2, 30) :: ptr" and ?ps = "rev (map (Pair (2 :: blk)) [0..<30])"
  note init = ev_channels_init_wf[OF demo_wf demo_es_init]
  from get_plain[OF demo_idle2] obtain es1 where
    es1: "event_get None demo_es = Inr (?m, es1)" "idle es1 (?q # ?ps)" "used es1 = {?m}" "ready es1 ?m"
      "\<not> ev_explicit_return (ev_of es1 ?m)" "\<not> ev_is_subevent (ev_of es1 ?m)" "es_posted_sends es1 = 0"
    using init(2) by (auto simp: demo_es_def)
  let ?es2 = "ev_upd ?m (\<lambda>ev. prepare ev None False True) es1"
  note es2 = prepare_idle[OF es1(2,4), of None False True]
  from get_plain[OF es2(2)] obtain es3 where
    es3: "event_get None ?es2 = Inr (?q, es3)" "idle es3 ?ps" "used es3 = {?q, ?m}" "ready es3 ?q"
      "\<not> ev_explicit_return (ev_of es3 ?q)" "ev_of es3 ?m = ev_of ?es2 ?m" "es_posted_sends es3 = 0"
    using es1(3,7) by auto
  let ?es4 = "ev_upd ?q (\<lambda>ev. prepare ev None True False) es3"
  have "ready ?es4 ?q"
    using es3(4) by (auto simp: ready_def loose_def)
  note es4 = prepare_idle[OF es3(2,4), of None True False] this
  from emit_posted[OF es4(2,3) _ posting_adds] obtain es5 where
    es5: "event_channel_emit posting_env 0 ?q 64 (Some 0) 0 ?es4 = Inr (EVENT_INPROGRESS, es5)" "es_wf es5"
      "es_ongoing_events es5 = []" "used es5 = {?q, ?m}" "es_scope_id es5 = SCOPE_HOST_DPU"
      "ev_of es5 ?m = ev_of ?es2 ?m" "ev_was_posted (ev_of es5 ?q)" "ev_req (ev_of es5 ?q) = Request"
      "ev_is_subevent (ev_of es5 ?q)" "subs (ev_of es5 ?q) = []" "EVENT_HDR_TYPE (ev_of es5 ?q) = 64"
      "es_posted_sends es5 = 1"
    using es3(3,5,6,7) by (auto simp: posting_env_def)
  have m2: "subs (ev_of ?es2 ?m) = []" "\<not> ev_is_ongoing_event (ev_of ?es2 ?m)" "\<not> ev_was_posted (ev_of ?es2 ?m)"
      "EVENT_HDR_TYPE (ev_of ?es2 ?m) = META_EVENT_TYPE" "\<not> ev_explicit_return (ev_of ?es2 ?m)" "\<not> ev_is_subevent (ev_of ?es2 ?m)"
    using es1(4,5) by (simp_all add: ready_def loose_def)
  have q5: "loose (used es5) (ev_of es5) ?q"
    using evs_invD(3)[OF es_wf_inv[OF es5(2)]] es5(3,4,6,10) m2(1) by (auto simp: loose_def)
  let ?es6 = "ev_upd ?m (\<lambda>ev. ev\<lparr>ev_sub_events := (if ev_sub_events_initialized ev then ev_sub_events ev else []) @ [?q],
            ev_sub_events_initialized := True\<rparr>) es5"
  have q6: "QUEUE_SUBEVENT ?m ?q es5 = Inr ?es6"
    using es5(9) q5 by (simp add: QUEUE_SUBEVENT_def loose_def)
  have wf6: "es_wf ?es6"
    using QUEUE_SUBEVENT_wf[OF es5(2) q5 _ _ _ q6] es5(4,6,11) m2(4) by (simp add: META_EVENT_TYPE_def)
  have m6: "subs (ev_of ?es6 ?m) = [?q]" "EVENT_HDR_TYPE (ev_of ?es6 ?m) = META_EVENT_TYPE"
      "\<not> ev_explicit_return (ev_of ?es6 ?m)" "\<not> ev_is_subevent (ev_of ?es6 ?m)" "\<not> ev_was_posted (ev_of ?es6 ?m)"
      "\<not> ev_is_ongoing_event (ev_of ?es6 ?m)" "ev_sub_events_initialized (ev_of ?es6 ?m)"
    using es5(6) m2 by (simp_all add: subs_def split: if_splits)
  have q6': "ev_of ?es6 ?q = ev_of es5 ?q"
    by simp
  have lo6: "loose (used ?es6) (ev_of ?es6) ?m"
    unfolding loose_def ev_upd_simps(10) es5(4)
    using m6 q6' es5(10) by (auto simp del: ev_upd_simps(1))
  let ?es7 = "ev_upd ?m (\<lambda>ev. ev\<lparr>ev_is_ongoing_event := True\<rparr>) (?es6\<lparr>es_ongoing_events := [?m]\<rparr>)"
  have q7: "QUEUE_EVENT ?m ?es6 = Inr ?es7"
    using m6(3,4,6) es5(3) by (simp add: QUEUE_EVENT_def)
  let ?es8 = "ev_upd ?q (\<lambda>ev. ev\<lparr>ev_complete := True, ev_completion_cb := None, ev_req := No_request\<rparr>) ?es7"
  have "ev_event_system (ev_of es5 ?q)"
    using es_wf_ev(1)[OF es5(2), of ?q] es5(4) by (simp add: local_ok_def)
  then have q8: "notification_emit_cb posting_env ?q ?es7 = Inr ?es8"
    by (simp add: notification_emit_cb_def complete_silent posting_quiet[unfolded quiet_def] ev_upd_twice Let_def)
  have "ev_step posting_env demo_es es1" "ev_step posting_env es1 ?es2" "ev_step posting_env ?es2 es3"
      "ev_step posting_env es3 ?es4"
    by (rule ev_step.Get[OF es1(1)], rule ev_step.Prepare[OF es1(4)], rule ev_step.Get[OF es3(1)],
        rule ev_step.Prepare[OF es3(4)])
  moreover have "ev_step posting_env ?es4 es5"
    using es4(2,3) by (intro ev_step.Emit[OF _ _ _ _ _ es5(1)]) (simp_all add: META_EVENT_TYPE_def idle_def)
  moreover have "ev_step posting_env es5 ?es6"
    using es5(4,6,11) m2(4) by (intro ev_step.Subevent[OF q5 _ _ _ q6]) (simp_all add: META_EVENT_TYPE_def)
  moreover have "ev_step posting_env ?es6 ?es7"
    by (intro ev_step.Queue[OF lo6 m6(2) m6(7) q7])
  moreover have "ev_step posting_env ?es7 ?es8"
    using es5(4,8) by (intro ev_step.Sent[OF _ _ q8]) simp_all
  ultimately have "(ev_step posting_env)\<^sup>*\<^sup>* demo_es ?es8"
    by (meson rtranclp.rtrancl_into_rtrancl rtranclp.rtrancl_refl)
  then show ?thesis
    using es5(4,5,6,7,12) m2 by (intro exI[of _ ?es8]) (auto simp: subs_def)
qed

text \<open>An event whose send completes and whose callback takes another event.\<close>

lemma demo_taking:
  "\<exists>es. (ev_step taking_env)\<^sup>*\<^sup>* demo_es es \<and> es_ongoing_events es = [(2, 31)] \<and> used es = {(2, 30), (2, 31)}"
proof -
  let ?p = "(2, 31) :: ptr" and ?q = "(2, 30) :: ptr" and ?ps = "rev (map (Pair (2 :: blk)) [0..<30])"
  note init = ev_channels_init_wf[OF demo_wf demo_es_init]
  from get_plain[OF demo_idle2] obtain es1 where
    es1: "event_get None demo_es = Inr (?p, es1)" "idle es1 (?q # ?ps)" "used es1 = {?p}" "ready es1 ?p"
      "\<not> ev_explicit_return (ev_of es1 ?p)"
    using init(2) by auto
  let ?es2 = "ev_upd ?p (\<lambda>ev. prepare ev (Some 0) False False) es1"
  have "ready ?es2 ?p"
    using es1(4) by (auto simp: ready_def loose_def)
  note es2 = prepare_idle[OF es1(2,4), of "Some 0" False False] this
  have post: "env_send taking_env = (\<lambda>p es. Send_posted)"
    by (simp add: taking_env_def posting_env_def)
  from emit_posted[OF es2(2,3) _ taking_adds post] obtain es3 where
    es3: "event_channel_emit taking_env 0 ?p 64 (Some 0) 0 ?es2 = Inr (EVENT_INPROGRESS, es3)" "es_wf es3"
      "es_ongoing_events es3 = [?p]" "used es3 = {?p}" "internal_list (dl_list (es_free_evs es3)) = ?q # ?ps"
      "ev_req (ev_of es3 ?p) = Request" "ev_completion_cb (ev_of es3 ?p) = Some 0"
    using es1(3,5) by auto
  let ?es4 = "ev_upd ?p (\<lambda>ev. ev\<lparr>ev_complete := True, ev_completion_cb := None, ev_req := No_request\<rparr>) es3"
  have "local_ok (ev_of es3 ?p)"
    using es_wf_ev(1)[OF es3(2), of ?p] es3(4) by simp
  then have wf4: "es_wf ?es4"
    using es3(4) by (intro es_wf_upd[OF es3(2)]) (simp_all add: local_ok_def child_ok_def)
  have dl: "dl_wf sizeof_event (es_free_evs ?es4) (es_heap ?es4)" "internal_list (dl_list (es_free_evs ?es4)) = ?q # ?ps"
    using wf4 es3(5) by (simp_all add: es_wf_def ev_upd_def)
  obtain es5 where es5: "event_get None ?es4 = Inr (?q, es5)" "used es5 = {?q, ?p}" "es_ongoing_events es5 = [?p]"
      "ev_of es5 ?p = ev_of ?es4 ?p"
    using event_get_wf[OF wf4 dl_get_available[OF dl], of None] es3(3,4) by auto
  let ?r = "\<lambda>ev. ev\<lparr>ev_req := Request\<rparr>"
  have "(ev_of es3 ?p)\<lparr>ev_complete := True, ev_completion_cb := None, ev_req := Request\<rparr>
      = (ev_of es3 ?p)\<lparr>ev_complete := True, ev_completion_cb := None\<rparr>"
    using es3(6) by (cases "ev_of es3 ?p") simp
  then have "ev_upd ?p ?r ?es4 = completing ?p es3"
    by (simp add: ev_upd_def)
  then have g: "event_get None (completing ?p es3) = Inr (?q, ev_upd ?p ?r es5)"
    using get_plain_upd(1)[OF dl _ es5(1), of ?p ?r] by simp
  have "internal_list (dl_list (es_free_evs (completing ?p es3))) \<noteq> []"
    using es3(5) by (simp add: ev_upd_def)
  then have c: "COMPLETE_EVENT taking_env ?p es3 = Inr (ev_upd ?p ?r es5)"
    using es3(7) g by (simp add: COMPLETE_EVENT_def ev_upd_twice taking_env_def)
  have "ev_event_system (ev_of es5 ?p)"
    using es5(4) \<open>local_ok (ev_of es3 ?p)\<close> by (simp add: local_ok_def)
  then have n: "notification_emit_cb taking_env ?p es3 = Inr (without_req ?p (ev_upd ?p ?r es5))"
    using c by (simp add: notification_emit_cb_def)
  have "ev_step taking_env demo_es es1" "ev_step taking_env es1 ?es2"
    by (rule ev_step.Get[OF es1(1)], rule ev_step.Prepare[OF es1(4)])
  moreover have "ev_step taking_env ?es2 es3"
    using es2(2,3) by (intro ev_step.Emit[OF _ _ _ _ _ es3(1)]) (simp_all add: META_EVENT_TYPE_def idle_def)
  moreover have "ev_step taking_env es3 (without_req ?p (ev_upd ?p ?r es5))"
    using es3(4,6) by (intro ev_step.Sent[OF _ _ n]) simp_all
  ultimately have "(ev_step taking_env)\<^sup>*\<^sup>* demo_es (without_req ?p (ev_upd ?p ?r es5))"
    by (meson rtranclp.rtrancl_into_rtrancl rtranclp.rtrancl_refl)
  then show ?thesis
    using es5(2,3) by (intro exI[of _ "without_req ?p (ev_upd ?p ?r es5)"]) auto
qed

section \<open>Properties of all histories\<close>

lemma reachable_wf:
  assumes "wf_heap h" "ev_channels_init mem h typ scope = Inr es0" "adds_events env" "(ev_step env)\<^sup>*\<^sup>* es0 es"
  shows "es_wf es"
  using ev_steps_wf[OF assms(4,3) ev_channels_init_wf(1)[OF assms(1,2)]] .

text \<open>C2: Let the completion callbacks of the users at most add events: they may get events, emit them as
  sub-events and queue them, but leave the events in use alone and do not progress the context, and the handlers
  of notifications to oneself keep the system well-formed and leave the event being emitted alone.  Then, after
  any history of getting, preparing, emitting, queueing, completing, progressing and returning events, the counter
  of events in use is their number; the list of ongoing events has no repetitions and holds exactly the events
  marked as ongoing, none of which is a sub-event; sub-events are in use and belong to one meta-event; the
  payload buffers not yet given back are those of the events in use; and at least as many sends are counted as
  posted as there are posted events.\<close>

theorem event_system_invariant:
  assumes "wf_heap h" "ev_channels_init mem h typ scope = Inr es0" "adds_events env" "(ev_step env)\<^sup>*\<^sup>* es0 es"
  shows "es_num_used_evs es = of_nat (card (used es))
    \<and> distinct (es_ongoing_events es) \<and> set (es_ongoing_events es) = {p \<in> used es. ev_is_ongoing_event (ev_of es p)}
    \<and> (\<forall>p \<in> set (es_ongoing_events es). \<not> ev_is_subevent (ev_of es p))
    \<and> (\<forall>m \<in> used es. \<forall>p \<in> set (subs (ev_of es m)). p \<in> used es \<and> ev_is_subevent (ev_of es p)
         \<and> (\<forall>n \<in> used es. p \<in> set (subs (ev_of es n)) \<longrightarrow> n = m))
    \<and> distinct (es_bufs es) \<and> set (es_bufs es) = (\<Union>p \<in> used es. owned (ev_of es p))
    \<and> card {p \<in> used es. ev_was_posted (ev_of es p)} \<le> es_posted_sends es"
proof -
  note wf = reachable_wf[OF assms]
  note i = evs_invD[OF es_wf_inv[OF wf]]
  have "p \<in> used es \<and> ev_is_subevent (ev_of es p) \<and> (\<forall>n \<in> used es. p \<in> set (subs (ev_of es n)) \<longrightarrow> n = m)"
    if "m \<in> used es" "p \<in> set (subs (ev_of es m))" for m p
    using es_wf_ev(2)[OF wf that(1)] es_wf_ev(3)[OF wf that] that i(5)[OF that(1)] unfolding child_ok_def by blast
  moreover have "es_num_used_evs es = of_nat (card (used es))"
    using wf by (simp add: es_wf_def)
  moreover have "\<forall>p \<in> set (es_ongoing_events es). \<not> ev_is_subevent (ev_of es p)"
    using es_wf_ongoing(3)[OF wf] by blast
  ultimately show ?thesis
    using i(2,3,6,7,10) by blast
qed

theorem event_system_invariant_witness:
  "\<exists>es. (ev_step taking_env)\<^sup>*\<^sup>* demo_es es \<and> used es = {(2, 30), (2, 31)} \<and> es_num_used_evs es = 2
     \<and> set (es_ongoing_events es) = {(2, 31)}"
proof -
  obtain es where es: "(ev_step taking_env)\<^sup>*\<^sup>* demo_es es" "used es = {(2, 30), (2, 31)}" "es_ongoing_events es = [(2, 31)]"
    using demo_taking by blast
  with event_system_invariant[OF demo_wf demo_es_init taking_adds es(1)] show ?thesis
    by (intro exI[of _ es]) simp
qed

text \<open>C26: After any history with completion callbacks that at most add events, progressing a context returns
  when it may run one iteration per ongoing event and the callbacks still to be run for finished ongoing events
  do not use the event system.  It takes exactly the finished events off the list, gives them and the completed
  sub-events back to the pool, and leaves the other events where they are.\<close>

theorem progress_gives_back_finished:
  assumes "wf_heap h" "ev_channels_init mem h typ scope = Inr es0" "adds_events env" "(ev_step env)\<^sup>*\<^sup>* es0 es"
    and "\<forall>p \<in> set (es_ongoing_events es). finished es p \<longrightarrow> silent env (ev_completion_cb (ev_of es p))"
    and "length (es_ongoing_events es) \<le> fuel" "es_scope_id es \<noteq> SCOPE_UNKNOWN"
  shows "\<exists>es'. progress_econtext_sends env fuel es = Inr es'
           \<and> es_ongoing_events es' = filter (\<lambda>p. \<not> finished es p) (es_ongoing_events es)
           \<and> used es' = used es - {p \<in> set (es_ongoing_events es). finished es p}
                          - {q. ev_complete (ev_of es q) \<and> (\<exists>p \<in> set (es_ongoing_events es). q \<in> set (subs (ev_of es p)))}"
proof -
  from progress_finished[OF reachable_wf[OF assms(1-4)] assms(5-7)] obtain es' where
    "progress_econtext_sends env fuel es = Inr es'"
    "used es' = used es - (\<Union>p \<in> set (es_ongoing_events es). gone es p)"
    "es_ongoing_events es' = filter (\<lambda>p. \<not> finished es p) (es_ongoing_events es)"
    by blast
  moreover have "(\<Union>p \<in> set (es_ongoing_events es). gone es p) = {p \<in> set (es_ongoing_events es). finished es p}
      \<union> {q. ev_complete (ev_of es q) \<and> (\<exists>p \<in> set (es_ongoing_events es). q \<in> set (subs (ev_of es p)))}"
    by (auto simp: gone_def done_subs_def split: if_splits)
  ultimately show ?thesis
    by (intro exI[of _ es']) auto
qed

theorem progress_gives_back_finished_witness:
  "\<exists>es es'. (ev_step posting_env)\<^sup>*\<^sup>* demo_es es \<and> es_ongoing_events es = [(2, 31)] \<and> used es = {(2, 30), (2, 31)}
     \<and> progress_econtext_sends posting_env 1 es = Inr es' \<and> es_ongoing_events es' = [] \<and> used es' = {}"
proof -
  obtain es where es: "(ev_step posting_env)\<^sup>*\<^sup>* demo_es es" "es_ongoing_events es = [(2, 31)]"
      "used es = {(2, 30), (2, 31)}" "es_scope_id es = SCOPE_HOST_DPU"
      "EVENT_HDR_TYPE (ev_of es (2, 31)) = META_EVENT_TYPE" "subs (ev_of es (2, 31)) = [(2, 30)]"
      "ev_complete (ev_of es (2, 30))"
    using demo_meta by blast
  then have "finished es (2, 31)"
    by (simp add: finished_def)
  moreover obtain es' where "progress_econtext_sends posting_env 1 es = Inr es'"
      "es_ongoing_events es' = filter (\<lambda>p. \<not> finished es p) (es_ongoing_events es)"
      "used es' = used es - {p \<in> set (es_ongoing_events es). finished es p}
         - {q. ev_complete (ev_of es q) \<and> (\<exists>p \<in> set (es_ongoing_events es). q \<in> set (subs (ev_of es p)))}"
    using progress_gives_back_finished[OF demo_wf demo_es_init posting_adds es(1), of 1] es(2,4)
      posting_quiet[unfolded quiet_def] by auto
  ultimately show ?thesis
    using es by (intro exI[of _ es] exI[of _ es']) auto
qed

text \<open>After any history, when the pool of events has an element for it, \<open>event_get\<close> returns an event that was
  not in use; it passes the checks of a new event, is in use afterwards and no other event changes.\<close>

lemma event_get_fresh:
  assumes "wf_heap h" "ev_channels_init mem h typ scope = Inr es0" "adds_events env" "(ev_step env)\<^sup>*\<^sup>* es0 es"
    and "DYN_LIST_GET sizeof_event (es_free_evs es) (es_heap es) = Inr (p, dl, hp)"
    and "\<And>i. info = Some i \<Longrightarrow> ni_mem_pool (ei_pool i) \<noteq> None \<Longrightarrow> ni_get_buf (ei_pool i)"
  shows "\<exists>es'. event_get info es = Inr (p, es') \<and> p \<notin> used es \<and> used es' = insert p (used es) \<and> fresh_event (ev_of es' p)
           \<and> (\<forall>q \<in> used es. ev_of es' q = ev_of es q)"
  using event_get_wf[OF reachable_wf[OF assms(1-4)] assms(5,6)] by blast

lemma event_get_fresh_witness:
  "\<exists>es'. event_get None demo_es = Inr ((2, 31), es') \<and> used es' = {(2, 31)} \<and> fresh_event (ev_of es' (2, 31))"
proof -
  have "dl_wf sizeof_event (es_free_evs demo_es) (es_heap demo_es)"
    "internal_list (dl_list (es_free_evs demo_es)) = (2, 31) # (2, 30) # rev (map (Pair 2) [0..<30])"
    using demo_idle2 by (simp_all add: idle_def es_wf_def)
  note g = dl_get_available[OF this]
  show ?thesis
    using event_get_fresh[OF demo_wf demo_es_init posting_adds rtranclp.rtrancl_refl g, of None]
      ev_channels_init_wf(2)[OF demo_wf demo_es_init] by auto
qed

text \<open>Sub-events that were posted are given back without being taken off the number of posted sends: when a
  finished meta-event is the only ongoing event, progressing the context leaves the counter unchanged, whatever
  the number of sub-events it gives back.\<close>

lemma subevents_stay_counted:
  assumes "wf_heap h" "ev_channels_init mem h typ scope = Inr es0" "adds_events env" "(ev_step env)\<^sup>*\<^sup>* es0 es"
    and "es_ongoing_events es = [m]" "EVENT_HDR_TYPE (ev_of es m) = META_EVENT_TYPE" "\<not> ev_was_posted (ev_of es m)"
    and "\<forall>q \<in> set (subs (ev_of es m)). ev_complete (ev_of es q)" "es_scope_id es \<noteq> SCOPE_UNKNOWN" "1 \<le> fuel"
    and "silent env (ev_completion_cb (ev_of es m))"
  shows "\<exists>es'. progress_econtext_sends env fuel es = Inr es' \<and> used es' = used es - {m} - set (subs (ev_of es m))
           \<and> es_posted_sends es' = es_posted_sends es"
proof -
  have f: "finished es m"
    using assms(6,8) by (simp add: finished_def)
  have "gone es m = insert m (set (subs (ev_of es m)))"
    using f assms(8) by (auto simp: gone_def done_subs_def)
  then have "used es - (\<Union>p \<in> set (es_ongoing_events es). gone es p) = used es - {m} - set (subs (ev_of es m))"
    using assms(5) by auto
  with progress_finished[OF reachable_wf[OF assms(1-4)], of env fuel] assms(5,7,9-11) show ?thesis
    by auto
qed

lemma subevents_stay_counted_witness:
  "\<exists>es es'. (ev_step posting_env)\<^sup>*\<^sup>* demo_es es \<and> progress_econtext_sends posting_env 1 es = Inr es'
     \<and> used es' = {} \<and> es_posted_sends es' = 1"
proof -
  obtain es where es: "(ev_step posting_env)\<^sup>*\<^sup>* demo_es es" "es_ongoing_events es = [(2, 31)]"
      "used es = {(2, 30), (2, 31)}" "es_scope_id es = SCOPE_HOST_DPU"
      "EVENT_HDR_TYPE (ev_of es (2, 31)) = META_EVENT_TYPE" "subs (ev_of es (2, 31)) = [(2, 30)]"
      "ev_complete (ev_of es (2, 30))" "\<not> ev_was_posted (ev_of es (2, 31))" "es_posted_sends es = 1"
    using demo_meta by blast
  have "\<forall>q \<in> set (subs (ev_of es (2, 31))). ev_complete (ev_of es q)"
    using es(6,7) by simp
  from subevents_stay_counted[OF demo_wf demo_es_init posting_adds es(1,2,5,8) this, of 1] obtain es' where
    es': "progress_econtext_sends posting_env 1 es = Inr es'"
      "used es' = used es - {(2, 31)} - set (subs (ev_of es (2, 31)))" "es_posted_sends es' = es_posted_sends es"
    using es(4) posting_quiet[unfolded quiet_def] by (simp, blast)
  have "used es' = {}" "es_posted_sends es' = 1"
    using es'(2,3) es(3,6,9) by auto
  with es(1) es'(1) show ?thesis
    by blast
qed

text \<open>What an event that leaves the list of ongoing events and a collection of sub-events leave behind.\<close>

lemma event_return_flag:
  assumes "event_return p es = Inr (rc, es')"
  shows "ev_is_ongoing_event (ev_of es' p) = ev_is_ongoing_event (ev_of es p)"
proof -
  have d: "ev_is_ongoing_event (ev_of es' p) = ev_is_ongoing_event (ev_of es p)" if "drop_payload p es = Inr es'" for es'
    using that by (auto simp: drop_payload_def res_simps Let_def split: if_splits option.splits)
  have "dl_elts (DYN_LIST_RETURN p (es_free_evs es1)) = ev_of es1" for es1
    by (simp add: DYN_LIST_RETURN_def ev_of_def fun_eq_iff)
  then show ?thesis
    using assms d by (auto simp: event_return_def do_event_return_def res_simps Let_def split: if_splits)
qed

lemma retire_flag: "retire p es = Inr es' \<Longrightarrow> \<not> ev_is_ongoing_event (ev_of es' p)"
  by (auto simp: retire_def del_ongoing_def unpost_def res_simps dest!: event_return_flag split: if_splits)

lemma do_event_return_scope: "do_event_return p es = Inr (rc, es') \<Longrightarrow> es_scope_id es' = es_scope_id es"
  by (auto simp: do_event_return_def drop_payload_def res_simps Let_def split: if_splits option.splits)

lemma collect_subevents_scope: "collect_subevents p qs es = Inr (b, es') \<Longrightarrow> es_scope_id es' = es_scope_id es"
  by (induction qs arbitrary: es)
     (auto simp: res_simps Let_def dest!: do_event_return_scope split: if_splits)

text \<open>A completion callback must not progress the context, as emitting an event that is not a sub-event does
  first: when the only ongoing event is a finished meta-event with such a callback, progressing the context gives
  the event back within the callback and the assertion that it is still ongoing fails afterwards.\<close>

lemma callback_that_progresses:
  assumes "es_wf es" "es_ongoing_events es = [m]" "EVENT_HDR_TYPE (ev_of es m) = META_EVENT_TYPE" "finished es m"
    and "ev_completion_cb (ev_of es m) = Some cb" "env_completion env cb = progress_econtext_sends env' fuel"
    and "1 \<le> fuel" "es_scope_id es \<noteq> SCOPE_UNKNOWN"
  shows "progress_econtext_sends env (Suc n) es = Inl Assert_failed"
proof -
  have on: "m \<in> set (es_ongoing_events es)"
    using assms(2) by simp
  note p = es_wf_ongoing[OF assms(1) on]
  have init: "ev_sub_events_initialized (ev_of es m)" "distinct (subs (ev_of es m))" "ev_req (ev_of es m) = No_request"
    using p(2,5) assms(3) by (auto simp: local_ok_def)
  have "filter (\<lambda>q. q \<notin> set (subs (ev_of es m)) \<or> \<not> ev_complete (ev_of es q)) (subs (ev_of es m)) = []"
    using assms(3,4) by (auto simp: finished_def filter_empty_conv)
  with collect_subevents_spec[OF assms(1) p(1) assms(3) init(1,2) subset_refl] obtain es1 where
    es1: "collect_subevents m (ev_sub_events (ev_of es m)) es = Inr (True, es1)" "es_wf es1" "m \<in> used es1"
      "ev_of es1 m = (ev_of es m)\<lparr>ev_sub_events := []\<rparr>" "es_ongoing_events es1 = [m]"
    using init(1) p(1) p(4)[OF p(1)] assms(2) by (auto simp: subs_def)
  let ?es2 = "completing m es1"
  have wf2: "es_wf ?es2"
    using es1 init(3) by (intro complete_wf) simp_all
  have ev2: "es_ongoing_events ?es2 = [m]" "finished ?es2 m" "es_scope_id ?es2 \<noteq> SCOPE_UNKNOWN"
      "ev_completion_cb (ev_of ?es2 m) = None"
    using es1(4,5) assms(3,8) collect_subevents_scope[OF es1(1)] by (simp_all add: finished_def subs_def)
  have on2: "m \<in> set (es_ongoing_events ?es2)" and u2: "m \<in> used ?es2"
    using ev2(1) es1(3) by simp_all
  obtain es3 where es3: "event_completed env' m ?es2 = Inr (True, es3)" "es_wf es3" "checked (ev_of ?es2 m) (ev_of es3 m)"
      "subs (ev_of es3 m) = []" "ev_req (ev_of es3 m) = No_request" "es_ongoing_events es3 = [m]"
    using event_completed_spec[OF wf2 u2, of env'] ev2 by (auto simp: silent_def)
  have on3: "m \<in> set (es_ongoing_events es3)"
    using es3(6) by simp
  from retire_spec[OF es3(2) on3 es3(4,5)] obtain es4 where es4: "retire m es3 = Inr es4"
    by blast
  have "progress_event_body env' m ?es2 = Inr es4"
    using progress_event_body_checked[OF wf2 on2 _ es3(2) on3 es3(3)] es3(1) es4 ev2(2) by simp
  moreover obtain k where "fuel = Suc k"
    using assms(7) by (cases fuel) simp_all
  ultimately have "progress_econtext_sends env' fuel ?es2 = Inr es4"
    using ev2(1,3) by (cases k) (simp_all add: progress_econtext_sends_def)
  then have "COMPLETE_EVENT env m es1 = Inr es4"
    using es1(4) assms(5,6) by (simp add: COMPLETE_EVENT_def ev_upd_twice)
  then have "event_completed env m es = Inr (True, es4)"
    using assms(3) es1(1,4) init(1) p(5) by (simp add: event_completed_def local_ok_def)
  then have "progress_event_body env m es = Inl Assert_failed"
    using assms(3) init(1) p(2) retire_flag[OF es4] by (simp add: progress_event_body_def)
  then show ?thesis
    using assms(2,8) by (simp add: progress_econtext_sends_def)
qed

end
