(* ===== verification/Notifications.thy ===== *)
theory Notifications
imports Event_System Tags_Hashes
begin

text \<open>
  Notifications of an event system (\<open>src/src/dpu_offload_event_channels.c\<close>, \<open>src/src/dpu_offload_comms.h\<close>):
  the callbacks registered for the types of notifications, the notifications that wait for a callback, and the
  dispatch of active messages to the execution contexts.

  A callback is a number, its invocation an entry of a log.  The array of callbacks and the pool of pending
  notifications are those of \<open>Dyn_Structs\<close>, each on a heap of its own.
\<close>

section \<open>Callbacks and pending notifications\<close>

record notification_callback_entry_t =
  nc_set :: bool
  nc_ev_sys :: bool
  nc_cb :: "nat option"
  nc_info :: notification_info_t

definition no_notif_info :: notification_info_t where
  "no_notif_info = \<lparr>ni_get_buf = False, ni_return_buf = False, ni_mem_pool = None, ni_element_size = 0\<rparr>"

text \<open>The array is allocated with zeroed memory.\<close>

definition zero_cb_entry :: notification_callback_entry_t where
  "zero_cb_entry = \<lparr>nc_set = False, nc_ev_sys = False, nc_cb = None, nc_info = no_notif_info\<rparr>"

definition RESET_NOTIF_CB_ENTRY :: "notification_callback_entry_t \<Rightarrow> notification_callback_entry_t" where
  "RESET_NOTIF_CB_ENTRY en = en\<lparr>nc_set := False, nc_ev_sys := False, nc_cb := None, nc_info := RESET_NOTIF_INFO (nc_info en)\<rparr>"

definition COPY_NOTIF_INFO :: "notification_info_t \<Rightarrow> notification_info_t \<Rightarrow> notification_info_t" where
  "COPY_NOTIF_INFO src dst = dst\<lparr>ni_get_buf := ni_get_buf src, ni_return_buf := ni_return_buf src,
     ni_mem_pool := ni_mem_pool src, ni_element_size := ni_element_size src\<rparr>"

record pending_notification_t =
  pn_type :: u64
  pn_src_id :: nat
  pn_header :: "am_header_t option"
  pn_data :: "nat list option"
  pn_econtext :: "nat option"

definition RESET_PENDING_NOTIF :: "pending_notification_t \<Rightarrow> pending_notification_t" where
  "RESET_PENDING_NOTIF n = n\<lparr>pn_type := 0, pn_src_id := 0, pn_header := None, pn_data := None, pn_econtext := None\<rparr>"

text \<open>An invocation of a callback: the callback, the header and the payload.\<close>

type_synonym invocation = "nat \<times> am_header_t option \<times> nat list option"

record notif_sys_t =
  ns_callbacks :: "notification_callback_entry_t dyn_array_t"
  ns_cb_heap :: heap
  ns_free_pending :: "pending_notification_t dyn_list_t"
  ns_heap :: heap
  ns_pending :: "ptr list"
  ns_invoked :: "invocation list"

definition sizeof_cb_entry :: u64 where "sizeof_cb_entry = 64"

definition sizeof_pending_notif :: u64 where "sizeof_pending_notif = 72"

definition DEFAULT_NUM_NOTIFICATION_CALLBACKS :: u64 where "DEFAULT_NUM_NOTIFICATION_CALLBACKS = 5000"

text \<open>The part of \<open>ev_channels_init\<close> for notifications.\<close>

definition notif_init :: "(ptr \<Rightarrow> pending_notification_t) \<Rightarrow> heap \<Rightarrow> heap \<Rightarrow> notif_sys_t res" where
  "notif_init mem h hc =
     bindE (DYN_LIST_ALLOC sizeof_pending_notif mem DEFAULT_NUM_NOTIFICATION_CALLBACKS h) (\<lambda>(r, h1).
     bindE (assertE (r \<noteq> None)) (\<lambda>_.
     bindE (DYN_ARRAY_ALLOC sizeof_cb_entry zero_cb_entry DEFAULT_NUM_NOTIFICATION_CALLBACKS hc) (\<lambda>(a, hc1).
     Inr \<lparr>ns_callbacks = a, ns_cb_heap = hc1, ns_free_pending = the r, ns_heap = h1, ns_pending = [],
          ns_invoked = []\<rparr>)))"

definition get_notif_callback_entry :: "u64 \<Rightarrow> notif_sys_t \<Rightarrow> (nat \<times> notification_callback_entry_t \<times> notif_sys_t) res" where
  "get_notif_callback_entry type ns =
     bindE (DYN_ARRAY_GET_ELT sizeof_cb_entry zero_cb_entry type (ns_callbacks ns) (ns_cb_heap ns)) (\<lambda>(i, a, h).
     bindE (da_read i a) (\<lambda>en. Inr (i, en, ns\<lparr>ns_callbacks := a, ns_cb_heap := h\<rparr>)))"

definition set_entry :: "nat \<Rightarrow> notification_callback_entry_t \<Rightarrow> notif_sys_t \<Rightarrow> notif_sys_t res" where
  "set_entry i en ns = bindE (da_write i en (ns_callbacks ns)) (\<lambda>a. Inr (ns\<lparr>ns_callbacks := a\<rparr>))"

text \<open>The buffer a notification is received in: that of the memory pool of the callback, if it has one.\<close>

definition get_notif_buf :: "u64 \<Rightarrow> notif_sys_t \<Rightarrow> (nat option \<times> notif_sys_t) res" where
  "get_notif_buf type ns =
     bindE (get_notif_callback_entry type ns) (\<lambda>(i, en, ns1).
     if \<not> ni_get_buf (nc_info en) then Inr (None, ns1) else
     bindE (assertE (ni_mem_pool (nc_info en) \<noteq> None)) (\<lambda>_. Inr (ni_mem_pool (nc_info en), ns1)))"

definition pn_of :: "notif_sys_t \<Rightarrow> ptr \<Rightarrow> pending_notification_t" where
  "pn_of ns p = dl_elts (ns_free_pending ns) p"

definition pn_upd :: "ptr \<Rightarrow> (pending_notification_t \<Rightarrow> pending_notification_t) \<Rightarrow> notif_sys_t \<Rightarrow> notif_sys_t" where
  "pn_upd p f ns = ns\<lparr>ns_free_pending := (ns_free_pending ns)\<lparr>dl_elts := (dl_elts (ns_free_pending ns))(p := f (pn_of ns p))\<rparr>\<rparr>"

section \<open>Dispatch\<close>

text \<open>A notification without callback is copied and queued.\<close>

definition queue_notif :: "nat \<Rightarrow> am_header_t \<Rightarrow> nat list option \<Rightarrow> notif_sys_t \<Rightarrow> notif_sys_t res" where
  "queue_notif econtext hdr data ns =
     bindE (DYN_LIST_GET sizeof_pending_notif (ns_free_pending ns) (ns_heap ns)) (\<lambda>(p, dl, h).
     let ns1 = pn_upd p (\<lambda>n. (RESET_PENDING_NOTIF n)\<lparr>pn_type := of_nat (hdr_type hdr), pn_src_id := hdr_id hdr,
                 pn_econtext := Some econtext,
                 pn_data := (case data of None \<Rightarrow> None | Some bs \<Rightarrow> if 0 < length bs then Some bs else None),
                 pn_header := Some hdr\<rparr>)
               (ns\<lparr>ns_free_pending := dl, ns_heap := h\<rparr>) in
     Inr (ns1\<lparr>ns_pending := ns_pending ns1 @ [p]\<rparr>))"

text \<open>The result is whether the notification was accepted.  Running a callback is an entry of the list of
  invocations: a callback that works on the notifications of the context itself is not modelled, nor is a failed
  allocation of the copies of header and payload of a notification that is queued.\<close>

definition handle_notif_msg :: "nat \<Rightarrow> am_header_t \<Rightarrow> nat list option \<Rightarrow> notif_sys_t \<Rightarrow> (bool \<times> notif_sys_t) res" where
  "handle_notif_msg econtext hdr data ns =
     (if 0 < hdr_payload_size hdr \<and> data = None then Inr (False, ns) else
      bindE (get_notif_callback_entry (of_nat (hdr_type hdr)) ns) (\<lambda>(i, en, ns1).
      if \<not> nc_set en then bindE (queue_notif econtext hdr data ns1) (\<lambda>ns2. Inr (True, ns2))
      else case nc_cb en of
        None \<Rightarrow> Inr (False, ns1)
      | Some cb \<Rightarrow> Inr (True, ns1\<lparr>ns_invoked := ns_invoked ns1 @ [(cb, Some hdr, data)]\<rparr>)))"

section \<open>Registration\<close>

definition event_channel_update :: "u64 \<Rightarrow> notification_info_t option \<Rightarrow> notif_sys_t \<Rightarrow> (dpu_offload_status_t \<times> notif_sys_t) res" where
  "event_channel_update type info ns =
     (case info of
        None \<Rightarrow> Inr (DO_ERROR, ns)
      | Some i \<Rightarrow>
          bindE (get_notif_callback_entry type ns) (\<lambda>(k, en, ns1).
          if \<not> nc_set en then Inr (DO_ERROR, ns1) else
          bindE (set_entry k (en\<lparr>nc_info := COPY_NOTIF_INFO i (nc_info en)\<rparr>) ns1) (\<lambda>ns2. Inr (DO_SUCCESS, ns2))))"

text \<open>The loop over the pending notifications: those of the type leave the list and are handed to the
  callback; the copies of header and payload are freed.\<close>

primrec deliver_pending :: "u64 \<Rightarrow> nat \<Rightarrow> ptr list \<Rightarrow> notif_sys_t \<Rightarrow> notif_sys_t" where
  "deliver_pending type cb [] ns = ns"
| "deliver_pending type cb (p # ps) ns =
     deliver_pending type cb ps
       (if pn_type (pn_of ns p) = type then
          pn_upd p (\<lambda>n. n\<lparr>pn_data := None, pn_header := None\<rparr>)
            (ns\<lparr>ns_pending := remove1 p (ns_pending ns),
                ns_invoked := ns_invoked ns @ [(cb, pn_header (pn_of ns p), pn_data (pn_of ns p))]\<rparr>)
        else ns)"

definition event_channel_register ::
    "u64 \<Rightarrow> nat option \<Rightarrow> notification_info_t option \<Rightarrow> notif_sys_t \<Rightarrow> (dpu_offload_status_t \<times> notif_sys_t) res" where
  "event_channel_register type cb info ns =
     (case cb of
        None \<Rightarrow> Inr (DO_ERROR, ns)
      | Some c \<Rightarrow>
          bindE (get_notif_callback_entry type ns) (\<lambda>(k, en, ns1).
          if nc_set en then Inr (DO_SUCCESS, ns1) else
          let en1 = (RESET_NOTIF_CB_ENTRY en)\<lparr>nc_cb := Some c, nc_set := True, nc_ev_sys := True\<rparr>;
              en2 = (case info of None \<Rightarrow> en1 | Some i \<Rightarrow> en1\<lparr>nc_info := COPY_NOTIF_INFO i (nc_info en1)\<rparr>) in
          bindE (set_entry k en2 ns1) (\<lambda>ns2.
          Inr (DO_SUCCESS, deliver_pending type c (ns_pending ns2) ns2))))"

definition event_channel_deregister :: "u64 \<Rightarrow> notif_sys_t \<Rightarrow> (dpu_offload_status_t \<times> notif_sys_t) res" where
  "event_channel_deregister type ns =
     (if da_capacity (ns_callbacks ns) \<le> type then Inr (DO_ERROR, ns) else
      bindE (da_read (unat type) (ns_callbacks ns)) (\<lambda>en.
      if \<not> nc_set en then Inr (DO_ERROR, ns) else
      bindE (set_entry (unat type) (en\<lparr>nc_set := False\<rparr>) ns) (\<lambda>ns1. Inr (DO_SUCCESS, ns1))))"

section \<open>Default notifications of an engine\<close>

text \<open>The engine keeps an event system only for the callbacks every new context gets; \<open>self\<close> is the event
  system of the context of the process itself.\<close>

record notif_engine_t =
  ne_default :: notif_sys_t
  ne_self :: "notif_sys_t option"
  ne_num_default_notifications :: nat

definition engine_update_default_notification_handler ::
    "u64 \<Rightarrow> notification_info_t option \<Rightarrow> notif_engine_t \<Rightarrow> (dpu_offload_status_t \<times> notif_engine_t) res" where
  "engine_update_default_notification_handler type info ne =
     (case info of
        None \<Rightarrow> Inr (DO_SUCCESS, ne)
      | Some i \<Rightarrow>
          bindE (get_notif_callback_entry type (ne_default ne)) (\<lambda>(k, en, ns1).
          if \<not> nc_set en then Inr (DO_ERROR, ne\<lparr>ne_default := ns1\<rparr>) else
          bindE (set_entry k (en\<lparr>nc_info := COPY_NOTIF_INFO i (nc_info en)\<rparr>) ns1) (\<lambda>ns2.
          Inr (DO_SUCCESS, ne\<lparr>ne_default := ns2\<rparr>))))"

definition engine_register_default_notification_handler ::
    "u64 \<Rightarrow> nat option \<Rightarrow> notification_info_t option \<Rightarrow> notif_engine_t \<Rightarrow> (dpu_offload_status_t \<times> notif_engine_t) res" where
  "engine_register_default_notification_handler type cb info ne =
     (if cb = None then Inr (DO_ERROR, ne) else
      bindE (get_notif_callback_entry type (ne_default ne)) (\<lambda>(k, en, ns1).
      let ne1 = ne\<lparr>ne_default := ns1\<rparr> in
      if nc_set en then Inr (DO_ERROR, ne1) else
      bindE (derefE (ne_self ne1)) (\<lambda>self.
      bindE (event_channel_register type cb info self) (\<lambda>(rc, self1).
      let ne2 = ne1\<lparr>ne_self := Some self1\<rparr> in
      if rc \<noteq> DO_SUCCESS then Inr (DO_ERROR, ne2) else
      bindE (case info of
               None \<Rightarrow> Inr (nc_info en)
             | Some i \<Rightarrow>
                 if ni_mem_pool i \<noteq> None \<or> ni_get_buf i \<or> ni_return_buf i then
                   bindE (assertE (ni_mem_pool i \<noteq> None \<and> ni_get_buf i)) (\<lambda>_.
                   Inr (COPY_NOTIF_INFO i (nc_info en)))
                 else Inr (nc_info en)) (\<lambda>info1.
      bindE (set_entry k (en\<lparr>nc_cb := cb, nc_set := True, nc_ev_sys := True, nc_info := info1\<rparr>) (ne_default ne2)) (\<lambda>ns2.
      Inr (DO_SUCCESS, ne2\<lparr>ne_default := ns2,
             ne_num_default_notifications := Suc (ne_num_default_notifications ne2)\<rparr>)))))))"

text \<open>The loop of \<open>ADD_DEFAULT_ENGINE_CALLBACKS\<close> over the callbacks of the engine, from type \<open>i\<close> on with \<open>n\<close>
  callbacks registered; it stops when all of them were found.\<close>

fun add_default_loop ::
    "nat \<Rightarrow> notification_callback_entry_t list \<Rightarrow> nat \<Rightarrow> nat \<Rightarrow> notif_sys_t \<Rightarrow> (dpu_offload_status_t \<times> notif_sys_t) res" where
  "add_default_loop num [] i n ns = Inr (DO_SUCCESS, ns)"
| "add_default_loop num (en # ens) i n ns =
     bindE (if nc_set en
            then event_channel_register (of_nat i) (nc_cb en)
                   (if ni_mem_pool (nc_info en) = None then None else Some (nc_info en)) ns
            else Inr (DO_SUCCESS, ns)) (\<lambda>(rc, ns1).
     if rc \<noteq> DO_SUCCESS then Inr (DO_ERROR, ns1) else
     let n1 = (if nc_set en then Suc n else n) in
     if n1 = num then Inr (DO_SUCCESS, ns1) else add_default_loop num ens (Suc i) n1 ns1)"

definition ADD_DEFAULT_ENGINE_CALLBACKS :: "notif_engine_t \<Rightarrow> notif_sys_t \<Rightarrow> (dpu_offload_status_t \<times> notif_sys_t) res" where
  "ADD_DEFAULT_ENGINE_CALLBACKS ne ns =
     (if 0 < ne_num_default_notifications ne then
        bindE (derefE (da_base (ns_callbacks (ne_default ne)))) (\<lambda>(b, ens).
        add_default_loop (ne_num_default_notifications ne)
          (take (unat (da_capacity (ns_callbacks (ne_default ne)))) ens) 0 0 ns)
      else Inr (DO_SUCCESS, ns))"

text \<open>The notifications of the library itself, in the order they are registered; the callback of a type is
  named by the type.\<close>

definition default_notification_types :: "u64 list" where
  "default_notification_types = [33, 36, 37, 38, 39, 41, 42, 43, 44, 45, 46]"

primrec register_all :: "u64 list \<Rightarrow> notif_sys_t \<Rightarrow> (dpu_offload_status_t \<times> notif_sys_t) res" where
  "register_all [] ns = Inr (DO_SUCCESS, ns)"
| "register_all (t # ts) ns =
     bindE (event_channel_register t (Some (unat t)) None ns) (\<lambda>(rc, ns1).
     if rc \<noteq> DO_SUCCESS then Inr (DO_ERROR, ns1) else register_all ts ns1)"

definition register_default_notifications :: "notif_sys_t \<Rightarrow> (dpu_offload_status_t \<times> notif_sys_t) res" where
  "register_default_notifications ns = register_all default_notification_types ns"

section \<open>Active messages\<close>

text \<open>What of the engine decides which context a message is for: contexts are numbers, and the server that
  services the host is that of \<open>get_server_servicing_host\<close>.\<close>

record route_engine_t =
  re_on_dpu :: bool
  re_servers :: "nat list"
  re_bootstrap_econtext :: "nat option"
  re_client_lookup_table :: "u64 \<Rightarrow> nat option"
  re_global_id :: nat
  re_host_server :: "nat option"

definition get_associated_econtext :: "route_engine_t \<Rightarrow> am_header_t \<Rightarrow> (nat option) res" where
  "get_associated_econtext re hdr =
     bindE (assertE (hdr_sender_type hdr = CONTEXT_CLIENT \<or> hdr_sender_type hdr = CONTEXT_SERVER)) (\<lambda>_.
     if hdr_scope_id hdr = SCOPE_HOST_DPU then
       if re_on_dpu re then
         bindE (guardE Out_of_bounds (re_servers re \<noteq> [])) (\<lambda>_. Inr (Some (last (re_servers re))))
       else Inr (re_bootstrap_econtext re)
     else
       bindE (assertE (re_on_dpu re)) (\<lambda>_.
       if hdr_sender_type hdr = CONTEXT_SERVER then
         Inr (CLIENT_SERVER_LOOKUP (of_nat (hdr_client_id hdr)) (of_nat (hdr_server_id hdr)) (re_client_lookup_table re))
       else
         bindE (assertE (hdr_server_id hdr = re_global_id re)) (\<lambda>_.
         if hdr_scope_id hdr = SCOPE_INTER_SERVICE_PROCS
         then bindE (nthE (re_servers re) 0) (\<lambda>s. Inr (Some s))
         else Inr (re_host_server re))))"

definition AM_REVOKE_GP_RANK_MSG_ID :: nat where "AM_REVOKE_GP_RANK_MSG_ID = 44"

definition AM_REVOKE_GP_SP_MSG_ID :: nat where "AM_REVOKE_GP_SP_MSG_ID = 45"

definition AM_PEER_CACHE_ENTRIES_MSG_ID :: nat where "AM_PEER_CACHE_ENTRIES_MSG_ID = 41"

text \<open>The handler of eager messages; the event systems of the contexts are a map, a context without event
  system is not in it.  The result is whether UCX is told that the message was taken.\<close>

definition am_notification_msg_cb ::
    "route_engine_t \<Rightarrow> am_header_t \<Rightarrow> nat list \<Rightarrow> (nat \<Rightarrow> notif_sys_t option) \<Rightarrow> (bool \<times> (nat \<Rightarrow> notif_sys_t option)) res" where
  "am_notification_msg_cb re hdr data ctxs =
     bindE (get_associated_econtext re hdr) (\<lambda>ec.
     case ec of
       None \<Rightarrow>
         if hdr_type hdr = AM_REVOKE_GP_RANK_MSG_ID \<or> hdr_type hdr = AM_REVOKE_GP_SP_MSG_ID
            \<or> hdr_type hdr = AM_PEER_CACHE_ENTRIES_MSG_ID
         then Inr (True, ctxs) else Inl Assert_failed
     | Some c \<Rightarrow>
         (case ctxs c of
            None \<Rightarrow> Inr (True, ctxs)
          | Some ns \<Rightarrow>
              bindE (assertE ((of_nat (hdr_type hdr) :: u64) < da_capacity (ns_callbacks ns))) (\<lambda>_.
              bindE (handle_notif_msg c hdr (if length data = 0 then None else Some data) ns) (\<lambda>(ok, ns1).
              Inr (ok, ctxs(c \<mapsto> ns1))))))"

end
