(* ===== verification/Notification_Delivery.thy ===== *)
theory Notification_Delivery
imports Notifications
begin

text \<open>
  Notifications are delivered exactly once and in the order of their arrival, whether their callback was
  registered before or after they arrived.
\<close>

section \<open>The invariant\<close>

definition entry_at :: "u64 \<Rightarrow> notif_sys_t \<Rightarrow> notification_callback_entry_t" where
  "entry_at t ns =
     (if unat t < length (da_elts (ns_callbacks ns)) then da_elts (ns_callbacks ns) ! unat t else zero_cb_entry)"

definition cbs_wf :: "notif_sys_t \<Rightarrow> bool" where
  "cbs_wf ns =
     (wf_heap (ns_cb_heap ns) \<and> da_wf sizeof_cb_entry (ns_callbacks ns) (ns_cb_heap ns)
      \<and> da_element_init_fn (ns_callbacks ns) = None
      \<and> da_allocation_size (ns_callbacks ns) = DEFAULT_NUM_NOTIFICATION_CALLBACKS)"

definition pool_wf :: "notif_sys_t \<Rightarrow> bool" where
  "pool_wf ns =
     (dl_wf sizeof_pending_notif (ns_free_pending ns) (ns_heap ns) \<and> dl_element_init_cb (ns_free_pending ns) = None
      \<and> distinct (ns_pending ns) \<and> set (ns_pending ns) \<subseteq> dl_used (ns_free_pending ns))"

definition head_type :: "am_header_t option \<Rightarrow> u64" where
  "head_type h = (case h of None \<Rightarrow> 0 | Some hdr \<Rightarrow> of_nat (hdr_type hdr))"

definition ns_wf :: "notif_sys_t \<Rightarrow> bool" where
  "ns_wf ns =
     (cbs_wf ns \<and> pool_wf ns \<and> (\<forall>t. nc_set (entry_at t ns) \<longrightarrow> nc_cb (entry_at t ns) \<noteq> None)
      \<and> (\<forall>p \<in> set (ns_pending ns). \<not> nc_set (entry_at (pn_type (pn_of ns p)) ns)
           \<and> head_type (pn_header (pn_of ns p)) = pn_type (pn_of ns p)))"

text \<open>The messages of a type the system has taken: those handed to a callback, then those that wait.\<close>

definition pending_msgs :: "u64 \<Rightarrow> notif_sys_t \<Rightarrow> (am_header_t option \<times> nat list option) list" where
  "pending_msgs t ns =
     map (\<lambda>p. (pn_header (pn_of ns p), pn_data (pn_of ns p)))
       (filter (\<lambda>p. pn_type (pn_of ns p) = t) (ns_pending ns))"

definition delivered_msgs :: "u64 \<Rightarrow> notif_sys_t \<Rightarrow> (am_header_t option \<times> nat list option) list" where
  "delivered_msgs t ns = map snd (filter (\<lambda>i. head_type (fst (snd i)) = t) (ns_invoked ns))"

section \<open>The array of callbacks\<close>

lemma cbs_nowrap:
  "unat (t :: u64) < 2 ^ 32 \<Longrightarrow>
     (unat t + unat DEFAULT_NUM_NOTIFICATION_CALLBACKS) * unat sizeof_cb_entry < 2 ^ 64"
  by (simp add: DEFAULT_NUM_NOTIFICATION_CALLBACKS_def sizeof_cb_entry_def)

lemma get_entry_spec:
  assumes "cbs_wf ns" "unat t < 2 ^ 32" "get_notif_callback_entry t ns = Inr (i, en, ns')"
  shows "i = unat t \<and> en = entry_at t ns \<and> cbs_wf ns' \<and> unat t < length (da_elts (ns_callbacks ns'))
         \<and> (\<forall>u. entry_at u ns' = entry_at u ns) \<and> (\<exists>a h. ns' = ns\<lparr>ns_callbacks := a, ns_cb_heap := h\<rparr>)"
proof -
  have c: "wf_heap (ns_cb_heap ns)" "da_wf sizeof_cb_entry (ns_callbacks ns) (ns_cb_heap ns)"
      "da_element_init_fn (ns_callbacks ns) = None"
      "da_allocation_size (ns_callbacks ns) = DEFAULT_NUM_NOTIFICATION_CALLBACKS"
    using assms(1) by (simp_all add: cbs_wf_def)
  have nw: "(unat t + unat (da_allocation_size (ns_callbacks ns))) * unat sizeof_cb_entry < 2 ^ 64"
    using cbs_nowrap[OF assms(2)] c(4) by simp
  from assms(3) obtain a h where g: "DYN_ARRAY_GET_ELT sizeof_cb_entry zero_cb_entry t (ns_callbacks ns) (ns_cb_heap ns)
      = Inr (i, a, h)" "da_read i a = Inr en" "ns' = ns\<lparr>ns_callbacks := a, ns_cb_heap := h\<rparr>"
    by (auto simp: get_notif_callback_entry_def res_simps)
  from DYN_ARRAY_GET_ELT_spec[OF c(1-3) nw, of zero_cb_entry] g(1) have
    e: "i = unat t" "da_extends sizeof_cb_entry zero_cb_entry (ns_callbacks ns) (ns_cb_heap ns) a h"
      "unat t < length (da_elts a)"
    by auto
  obtain k where k: "da_elts a = da_elts (ns_callbacks ns) @ replicate k zero_cb_entry"
    using e(2) by (auto simp: da_extends_def)
  have at: "entry_at u ns' = entry_at u ns" for u
    using g(3) k by (simp add: entry_at_def nth_append)
  have "en = da_elts a ! unat t"
    using g(2) e by (auto simp: da_read_def da_elts_def res_simps split: option.splits prod.splits)
  then have "en = entry_at t ns'"
    using g(3) e(3) by (simp add: entry_at_def)
  with at have "en = entry_at t ns"
    by simp
  moreover have "cbs_wf ns'"
    using e(2) g(3) c(3,4) by (simp add: cbs_wf_def da_extends_def)
  ultimately show ?thesis
    using e(1,3) g(3) at by auto
qed

lemma set_entry_spec:
  assumes "cbs_wf ns" "i < length (da_elts (ns_callbacks ns))" "set_entry i en ns = Inr ns'"
  shows "cbs_wf ns' \<and> (\<forall>u. entry_at u ns' = (if unat u = i then en else entry_at u ns))
         \<and> (\<exists>a. ns' = ns\<lparr>ns_callbacks := a\<rparr>)"
proof -
  let ?a = "ns_callbacks ns"
  have c: "da_wf sizeof_cb_entry ?a (ns_cb_heap ns)"
    using assms(1) by (simp add: cbs_wf_def)
  note b = da_wf_base[OF c]
  have ns': "ns' = ns\<lparr>ns_callbacks := ?a\<lparr>da_base := Some (da_blk ?a, (da_elts ?a)[i := en])\<rparr>\<rparr>"
    using assms(2,3) b by (simp add: set_entry_def da_write_base[OF b])
  have "cbs_wf ns'"
    using assms(1) by (auto simp: ns' cbs_wf_def da_wf_def da_elts_def da_blk_def)
  moreover have "entry_at u ns' = (if unat u = i then en else entry_at u ns)" for u
    using assms(2) by (simp add: ns' entry_at_def da_elts_def nth_list_update split: option.splits)
  ultimately show ?thesis
    using ns' by blast
qed

lemma cbs_frame [simp]:
  "cbs_wf (ns_pending_update f ns) = cbs_wf ns" "cbs_wf (ns_invoked_update g ns) = cbs_wf ns"
  "cbs_wf (ns_free_pending_update k ns) = cbs_wf ns" "cbs_wf (ns_heap_update l ns) = cbs_wf ns"
  "entry_at t (ns_pending_update f ns) = entry_at t ns" "entry_at t (ns_invoked_update g ns) = entry_at t ns"
  "entry_at t (ns_free_pending_update k ns) = entry_at t ns" "entry_at t (ns_heap_update l ns) = entry_at t ns"
  "cbs_wf (pn_upd p m ns) = cbs_wf ns" "entry_at t (pn_upd p m ns) = entry_at t ns"
  by (simp_all add: cbs_wf_def entry_at_def pn_upd_def)

section \<open>Pending notifications\<close>

lemma pn_upd_simps [simp]:
  "pn_of (pn_upd p f ns) = (pn_of ns)(p := f (pn_of ns p))"
  "ns_pending (pn_upd p f ns) = ns_pending ns" "ns_invoked (pn_upd p f ns) = ns_invoked ns"
  "ns_heap (pn_upd p f ns) = ns_heap ns" "ns_callbacks (pn_upd p f ns) = ns_callbacks ns"
  "ns_cb_heap (pn_upd p f ns) = ns_cb_heap ns"
  by (auto simp: pn_upd_def pn_of_def)

lemma dl_elts_simps [simp]:
  "dl_wf sz (dl_elts_update f dl) h = dl_wf sz dl h" "dl_used (dl_elts_update f dl) = dl_used dl"
  by (simp_all add: dl_wf_def dl_chunks_wf_def dl_items_def dl_free_def dl_used_def chunk_blks_def chunk_ptrs_def)

lemma pn_frame [simp]:
  "pn_of (ns_pending_update f ns) = pn_of ns" "pn_of (ns_invoked_update g ns) = pn_of ns"
  "pn_of (ns_callbacks_update k ns) = pn_of ns" "pn_of (ns_cb_heap_update l ns) = pn_of ns"
  "pn_of (ns_heap_update l ns) = pn_of ns"
  "pool_wf (ns_callbacks_update k ns) = pool_wf ns" "pool_wf (ns_cb_heap_update l ns) = pool_wf ns"
  "pool_wf (ns_invoked_update g ns) = pool_wf ns" "pool_wf (pn_upd p m ns) = pool_wf ns"
  by (simp_all add: pn_of_def fun_eq_iff pool_wf_def pn_upd_def)

lemma pending_elts:
  assumes "dl_wf sz dl h" "DYN_LIST_GET sz dl h = Inr (p, dl', h')" "dl_element_init_cb dl = None"
  shows "dl_elts dl' = dl_elts dl \<and> dl_element_init_cb dl' = None"
  using assms(1,2)
proof (rule DYN_LIST_GET_cases)
  fix dl1 l
  assume "dl' = dl1\<lparr>dl_list := l\<rparr>" "(dl1, h') = (dl, h) \<or> (\<exists>b. dl_grown b dl dl1 \<and> b \<notin> live_blks h)"
  with assms(3) show ?thesis
    by (auto simp: dl_grown_def init_chunk_def fun_eq_iff)
qed

lemma deliver_pending_spec:
  assumes "distinct ps" "distinct (ns_pending ns)" "set ps \<subseteq> set (ns_pending ns)"
  shows "ns_invoked (deliver_pending t cb ps ns) = ns_invoked ns
           @ map (\<lambda>p. (cb, pn_header (pn_of ns p), pn_data (pn_of ns p))) (filter (\<lambda>p. pn_type (pn_of ns p) = t) ps)
       \<and> ns_pending (deliver_pending t cb ps ns)
           = filter (\<lambda>p. p \<in> set ps \<longrightarrow> pn_type (pn_of ns p) \<noteq> t) (ns_pending ns)
       \<and> (\<forall>p. (p \<in> set ps \<longrightarrow> pn_type (pn_of ns p) \<noteq> t) \<longrightarrow> pn_of (deliver_pending t cb ps ns) p = pn_of ns p)
       \<and> cbs_wf (deliver_pending t cb ps ns) = cbs_wf ns
       \<and> (\<forall>u. entry_at u (deliver_pending t cb ps ns) = entry_at u ns)
       \<and> (pool_wf ns \<longrightarrow> pool_wf (deliver_pending t cb ps ns))"
  using assms
proof (induction ps arbitrary: ns)
  case Nil
  then show ?case
    by simp
next
  case (Cons p ps)
  show ?case
  proof (cases "pn_type (pn_of ns p) = t")
    case False
    have "filter (\<lambda>q. q \<in> set (p # ps) \<longrightarrow> pn_type (pn_of ns q) \<noteq> t) (ns_pending ns)
        = filter (\<lambda>q. q \<in> set ps \<longrightarrow> pn_type (pn_of ns q) \<noteq> t) (ns_pending ns)"
      using False by (intro filter_cong) auto
    with Cons.IH[of ns] Cons.prems False show ?thesis
      by simp
  next
    case True
    let ?ns = "pn_upd p (\<lambda>n. n\<lparr>pn_data := None, pn_header := None\<rparr>)
        (ns\<lparr>ns_pending := remove1 p (ns_pending ns),
            ns_invoked := ns_invoked ns @ [(cb, pn_header (pn_of ns p), pn_data (pn_of ns p))]\<rparr>)"
    have np: "p \<notin> set ps" "set ps \<subseteq> set (ns_pending ?ns)" "distinct (ns_pending ?ns)"
      using Cons.prems by auto
    have same: "pn_of ?ns q = pn_of ns q" if "q \<in> set ps" for q
      using that np(1) by auto
    have tp: "pn_type (pn_of ?ns q) = pn_type (pn_of ns q)" for q
      by simp
    note ih = Cons.IH[of ?ns, OF _ np(3,2)]
    have inv: "map (\<lambda>q. (cb, pn_header (pn_of ?ns q), pn_data (pn_of ?ns q))) (filter (\<lambda>q. pn_type (pn_of ?ns q) = t) ps)
        = map (\<lambda>q. (cb, pn_header (pn_of ns q), pn_data (pn_of ns q))) (filter (\<lambda>q. pn_type (pn_of ns q) = t) ps)"
      unfolding tp using same by (intro map_cong) simp_all
    have pend: "filter (\<lambda>q. q \<in> set ps \<longrightarrow> pn_type (pn_of ?ns q) \<noteq> t) (remove1 p (ns_pending ns))
        = filter (\<lambda>q. q \<in> set (p # ps) \<longrightarrow> pn_type (pn_of ns q) \<noteq> t) (ns_pending ns)"
    proof -
      have "remove1 p (ns_pending ns) = filter (\<lambda>q. q \<noteq> p) (ns_pending ns)"
        using Cons.prems(2) by (simp add: distinct_remove1_removeAll removeAll_filter_not_eq) metis
      then show ?thesis
        unfolding tp using True by (simp only: filter_filter) (rule filter_cong, auto)
    qed
    have pool: "pool_wf ns \<longrightarrow> pool_wf ?ns"
      using Cons.prems(2) set_remove1_subset[of p "ns_pending ns"] by (auto simp: pool_wf_def pn_upd_def)
    have d: "deliver_pending t cb (p # ps) ns = deliver_pending t cb ps ?ns"
      using True by simp
    have keep: "pn_of ?ns q = pn_of ns q" if "q \<in> set (p # ps) \<longrightarrow> pn_type (pn_of ns q) \<noteq> t" for q
      using that True by auto
    have ih: "ns_invoked (deliver_pending t cb ps ?ns) = ns_invoked ?ns
           @ map (\<lambda>q. (cb, pn_header (pn_of ?ns q), pn_data (pn_of ?ns q))) (filter (\<lambda>q. pn_type (pn_of ?ns q) = t) ps)"
      "ns_pending (deliver_pending t cb ps ?ns)
           = filter (\<lambda>q. q \<in> set ps \<longrightarrow> pn_type (pn_of ?ns q) \<noteq> t) (ns_pending ?ns)"
      "\<forall>q. (q \<in> set ps \<longrightarrow> pn_type (pn_of ?ns q) \<noteq> t) \<longrightarrow> pn_of (deliver_pending t cb ps ?ns) q = pn_of ?ns q"
      "cbs_wf (deliver_pending t cb ps ?ns) = cbs_wf ns"
      "\<forall>u. entry_at u (deliver_pending t cb ps ?ns) = entry_at u ns"
      "pool_wf ?ns \<longrightarrow> pool_wf (deliver_pending t cb ps ?ns)"
      using ih Cons.prems(1) by (simp_all del: pn_upd_simps(1))
    show ?thesis
      unfolding d
    proof (intro conjI)
      show "ns_invoked (deliver_pending t cb ps ?ns) = ns_invoked ns
          @ map (\<lambda>q. (cb, pn_header (pn_of ns q), pn_data (pn_of ns q))) (filter (\<lambda>q. pn_type (pn_of ns q) = t) (p # ps))"
        using ih(1) inv True by simp
      show "ns_pending (deliver_pending t cb ps ?ns)
          = filter (\<lambda>q. q \<in> set (p # ps) \<longrightarrow> pn_type (pn_of ns q) \<noteq> t) (ns_pending ns)"
        using ih(2) pend by simp
      show "\<forall>q. (q \<in> set (p # ps) \<longrightarrow> pn_type (pn_of ns q) \<noteq> t) \<longrightarrow> pn_of (deliver_pending t cb ps ?ns) q = pn_of ns q"
        using ih(3) keep tp by (metis list.set_intros(2))
    qed (use ih(4-6) pool in auto)
  qed
qed

section \<open>What the operations keep\<close>

text \<open>Messages a system has taken after more messages arrived.\<close>

definition taken :: "u64 \<Rightarrow> notif_sys_t \<Rightarrow> (am_header_t option \<times> nat list option) list" where
  "taken t ns = delivered_msgs t ns @ pending_msgs t ns"

definition steps_to :: "notif_sys_t \<Rightarrow> (u64 \<Rightarrow> (am_header_t option \<times> nat list option) list) \<Rightarrow> notif_sys_t \<Rightarrow> bool" where
  "steps_to ns new ns' = (ns_wf ns' \<and> (\<forall>t. taken t ns' = taken t ns @ new t))"

lemma ns_wf_registered: "ns_wf ns \<Longrightarrow> nc_set (entry_at t ns) \<Longrightarrow> pending_msgs t ns = []"
  by (auto simp: ns_wf_def pending_msgs_def filter_empty_conv)

text \<open>Operations that only change the array of callbacks.\<close>

lemma cbs_step:
  assumes "ns_wf ns" "cbs_wf ns'" "\<exists>a h. ns' = ns\<lparr>ns_callbacks := a, ns_cb_heap := h\<rparr>"
    and "\<And>t. nc_set (entry_at t ns') \<Longrightarrow> nc_set (entry_at t ns) \<and> nc_cb (entry_at t ns') = nc_cb (entry_at t ns)"
  shows "steps_to ns (\<lambda>t. []) ns'"
proof -
  obtain a h where ns': "ns' = ns\<lparr>ns_callbacks := a, ns_cb_heap := h\<rparr>"
    using assms(3) by blast
  have "pool_wf ns'" "pn_of ns' = pn_of ns" "ns_pending ns' = ns_pending ns" "ns_invoked ns' = ns_invoked ns"
    using assms(1) by (simp_all add: ns' ns_wf_def)
  then show ?thesis
    using assms(1,2,4) by (auto simp: steps_to_def ns_wf_def taken_def delivered_msgs_def pending_msgs_def)
qed

lemma get_entry_step:
  assumes "ns_wf ns" "unat t < 2 ^ 32" "get_notif_callback_entry t ns = Inr (i, en, ns')"
  shows "steps_to ns (\<lambda>t. []) ns'" "i = unat t" "en = entry_at t ns" "\<And>u. entry_at u ns' = entry_at u ns"
    "unat t < length (da_elts (ns_callbacks ns'))"
proof -
  have g: "i = unat t \<and> en = entry_at t ns \<and> cbs_wf ns' \<and> unat t < length (da_elts (ns_callbacks ns'))
         \<and> (\<forall>u. entry_at u ns' = entry_at u ns) \<and> (\<exists>a h. ns' = ns\<lparr>ns_callbacks := a, ns_cb_heap := h\<rparr>)"
    using assms by (intro get_entry_spec) (simp_all add: ns_wf_def)
  then show "i = unat t" "en = entry_at t ns" "\<And>u. entry_at u ns' = entry_at u ns"
    "unat t < length (da_elts (ns_callbacks ns'))"
    by simp_all
  show "steps_to ns (\<lambda>t. []) ns'"
    using g by (intro cbs_step[OF assms(1)]) simp_all
qed

lemma set_entry_step:
  assumes "ns_wf ns" "i < length (da_elts (ns_callbacks ns))" "set_entry i en ns = Inr ns'"
    and "\<And>t. unat t = i \<Longrightarrow> nc_set en \<Longrightarrow> nc_set (entry_at t ns) \<and> nc_cb en = nc_cb (entry_at t ns)"
  shows "steps_to ns (\<lambda>t. []) ns'"
proof -
  have g: "cbs_wf ns' \<and> (\<forall>u. entry_at u ns' = (if unat u = i then en else entry_at u ns)) \<and> (\<exists>a. ns' = ns\<lparr>ns_callbacks := a\<rparr>)"
    using assms(1-3) by (intro set_entry_spec) (simp_all add: ns_wf_def)
  then obtain a where "ns' = ns\<lparr>ns_callbacks := a\<rparr>"
    by blast
  then have "ns' = ns\<lparr>ns_callbacks := a, ns_cb_heap := ns_cb_heap ns\<rparr>"
    by simp
  then have "\<exists>a h. ns' = ns\<lparr>ns_callbacks := a, ns_cb_heap := h\<rparr>"
    by blast
  with g assms(4) show ?thesis
    by (intro cbs_step[OF assms(1)]) (simp_all split: if_splits)
qed

lemma steps_to_trans:
  "steps_to ns f ns1 \<Longrightarrow> steps_to ns1 g ns2 \<Longrightarrow> steps_to ns (\<lambda>t. f t @ g t) ns2"
  by (simp add: steps_to_def)

lemma queue_notif_step:
  assumes "ns_wf ns" "queue_notif ec hdr data ns = Inr ns'" "\<not> nc_set (entry_at (of_nat (hdr_type hdr)) ns)" "data \<noteq> Some []"
  shows "steps_to ns (\<lambda>t. if t = of_nat (hdr_type hdr) then [(Some hdr, data)] else []) ns'"
proof -
  obtain p dl h where g: "DYN_LIST_GET sizeof_pending_notif (ns_free_pending ns) (ns_heap ns) = Inr (p, dl, h)"
    using assms(2) by (auto simp: queue_notif_def res_simps)
  let ?f = "\<lambda>n. (RESET_PENDING_NOTIF n)\<lparr>pn_type := of_nat (hdr_type hdr), pn_src_id := hdr_id hdr,
      pn_econtext := Some ec, pn_data := data, pn_header := Some hdr\<rparr>"
  let ?ns1 = "pn_upd p ?f (ns\<lparr>ns_free_pending := dl, ns_heap := h\<rparr>)"
  have "(case data of None \<Rightarrow> None | Some bs \<Rightarrow> if 0 < length bs then Some bs else None) = data"
    using assms(4) by (cases data) auto
  then have ns': "ns' = ?ns1\<lparr>ns_pending := ns_pending ns @ [p]\<rparr>"
    using assms(2) g by (simp add: queue_notif_def Let_def)
  have pool: "dl_wf sizeof_pending_notif (ns_free_pending ns) (ns_heap ns)" "dl_element_init_cb (ns_free_pending ns) = None"
      "distinct (ns_pending ns)" "set (ns_pending ns) \<subseteq> dl_used (ns_free_pending ns)"
    using assms(1) by (simp_all add: ns_wf_def pool_wf_def)
  have new: "dl_wf sizeof_pending_notif dl h" "p \<notin> dl_used (ns_free_pending ns)" "dl_used dl = insert p (dl_used (ns_free_pending ns))"
    using dlp.get_fresh[of sizeof_pending_notif "(ns_free_pending ns, ns_heap ns)" p "(dl, h)"]
      dlp.get_used[of sizeof_pending_notif "(ns_free_pending ns, ns_heap ns)" p "(dl, h)"]
      dlp.get_inv[of sizeof_pending_notif "(ns_free_pending ns, ns_heap ns)" p "(dl, h)"] pool(1) g
    by (simp_all add: dl_get_def)
  have el: "dl_elts dl = dl_elts (ns_free_pending ns)" "dl_element_init_cb dl = None"
    using pending_elts[OF pool(1) g pool(2)] by simp_all
  have of: "pn_of ns' = (pn_of ns)(p := ?f (pn_of ns p))"
    unfolding ns' by (simp add: fun_eq_iff) (simp add: pn_of_def el)
  have np: "p \<notin> set (ns_pending ns)"
    using new(2) pool(4) by blast
  then have keep: "pn_of ns' q = pn_of ns q" if "q \<in> set (ns_pending ns)" for q
    using that of by auto
  have at: "entry_at t ns' = entry_at t ns" for t
    by (simp add: ns')
  have "pool_wf ns'"
    using new el(2) pool(3,4) np by (auto simp: ns' pool_wf_def pn_upd_def)
  moreover have "cbs_wf ns'"
    using assms(1) by (simp add: ns' ns_wf_def)
  ultimately have "ns_wf ns'"
    using assms(1,3) keep of unfolding ns_wf_def at by (simp add: ns' head_type_def RESET_PENDING_NOTIF_def)
  moreover have "taken t ns' = taken t ns @ (if t = of_nat (hdr_type hdr) then [(Some hdr, data)] else [])" for t
  proof -
    have "filter (\<lambda>q. pn_type (pn_of ns' q) = t) (ns_pending ns) = filter (\<lambda>q. pn_type (pn_of ns q) = t) (ns_pending ns)"
      using keep by (intro filter_cong) simp_all
    moreover have "map (\<lambda>q. (pn_header (pn_of ns' q), pn_data (pn_of ns' q))) (filter (\<lambda>q. pn_type (pn_of ns q) = t) (ns_pending ns))
        = map (\<lambda>q. (pn_header (pn_of ns q), pn_data (pn_of ns q))) (filter (\<lambda>q. pn_type (pn_of ns q) = t) (ns_pending ns))"
      using keep by (intro map_cong) simp_all
    moreover have "ns_pending ns' = ns_pending ns @ [p]" "ns_invoked ns' = ns_invoked ns"
      by (simp_all add: ns')
    moreover have "pn_of ns' p = ?f (pn_of ns p)"
      using of by simp
    ultimately show ?thesis
      by (simp add: taken_def delivered_msgs_def pending_msgs_def)
  qed
  ultimately show ?thesis
    by (simp add: steps_to_def)
qed

lemma handle_notif_msg_step:
  assumes "ns_wf ns" "hdr_type hdr < 2 ^ 32" "handle_notif_msg ec hdr data ns = Inr (ok, ns')" "data \<noteq> Some []"
  shows "steps_to ns (\<lambda>t. if t = of_nat (hdr_type hdr) \<and> (hdr_payload_size hdr = 0 \<or> data \<noteq> None)
           then [(Some hdr, data)] else []) ns'
         \<and> ok = (hdr_payload_size hdr = 0 \<or> data \<noteq> None)"
proof (cases "0 < hdr_payload_size hdr \<and> data = None")
  case True
  with assms(1,3) show ?thesis
    by (simp add: handle_notif_msg_def steps_to_def)
next
  case False
  let ?t = "of_nat (hdr_type hdr) :: u64"
  have t: "unat ?t < 2 ^ 32"
    using assms(2) by (simp add: unat_of_nat)
  from False assms(3) obtain i en ns1 where g: "get_notif_callback_entry ?t ns = Inr (i, en, ns1)"
    by (auto simp: handle_notif_msg_def res_simps)
  note e = get_entry_step[OF assms(1) t g]
  have wf1: "ns_wf ns1"
    using e(1) by (simp add: steps_to_def)
  show ?thesis
  proof (cases "nc_set en")
    case set: False
    then obtain ns2 where q: "queue_notif ec hdr data ns1 = Inr ns2" "ns' = ns2" "ok"
      using assms(3) False g by (auto simp: handle_notif_msg_def res_simps)
    have "\<not> nc_set (entry_at ?t ns1)"
      using set e(3,4) by simp
    from steps_to_trans[OF e(1) queue_notif_step[OF wf1 q(1) this assms(4)]] q False show ?thesis
      by (simp cong: if_cong)
  next
    case set: True
    then obtain cb where cb: "nc_cb en = Some cb"
      using assms(1) e(3) by (auto simp: ns_wf_def)
    then have ns': "ns' = ns1\<lparr>ns_invoked := ns_invoked ns1 @ [(cb, Some hdr, data)]\<rparr>" "ok"
      using assms(3) False g set by (auto simp: handle_notif_msg_def res_simps)
    have "pending_msgs ?t ns1 = []"
      using ns_wf_registered[OF wf1] set e(3,4) by simp
    then have "taken t ns' = taken t ns1 @ (if t = ?t then [(Some hdr, data)] else [])" for t
      by (auto simp: ns'(1) taken_def delivered_msgs_def pending_msgs_def head_type_def)
    moreover have "ns_wf ns'"
      using wf1 by (simp add: ns'(1) ns_wf_def)
    ultimately have "steps_to ns1 (\<lambda>t. if t = ?t then [(Some hdr, data)] else []) ns'"
      by (simp add: steps_to_def)
    from steps_to_trans[OF e(1) this] ns'(2) False show ?thesis
      by (simp cong: if_cong)
  qed
qed

lemma event_channel_update_step:
  assumes "ns_wf ns" "unat t < 2 ^ 32" "event_channel_update t info ns = Inr (rc, ns')"
  shows "steps_to ns (\<lambda>t. []) ns'"
proof (cases info)
  case None
  with assms(1,3) show ?thesis
    by (simp add: event_channel_update_def steps_to_def)
next
  case (Some i)
  with assms(3) obtain k en ns1 where g: "get_notif_callback_entry t ns = Inr (k, en, ns1)"
    by (auto simp: event_channel_update_def res_simps)
  note e = get_entry_step[OF assms(1,2) g]
  show ?thesis
  proof (cases "nc_set en")
    case True
    then have s: "set_entry k (en\<lparr>nc_info := COPY_NOTIF_INFO i (nc_info en)\<rparr>) ns1 = Inr ns'"
      using Some assms(3) g by (auto simp: event_channel_update_def res_simps)
    have "ns_wf ns1" "k < length (da_elts (ns_callbacks ns1))"
      using e(1,2,5) by (simp_all add: steps_to_def)
    from set_entry_step[OF this s] have "steps_to ns1 (\<lambda>t. []) ns'"
      using e(2-4) True by (simp add: word_unat_eq_iff[symmetric])
    from steps_to_trans[OF e(1) this] show ?thesis
      by simp
  next
    case False
    with Some assms(3) g e(1) show ?thesis
      by (simp add: event_channel_update_def)
  qed
qed

lemma event_channel_deregister_step:
  assumes "ns_wf ns" "event_channel_deregister t ns = Inr (rc, ns')"
  shows "steps_to ns (\<lambda>t. []) ns'"
proof -
  have a: "length (da_elts (ns_callbacks ns)) = unat (da_capacity (ns_callbacks ns))"
    using assms(1) by (simp add: ns_wf_def cbs_wf_def da_wf_def)
  have "ns' = ns \<or> (\<exists>en. unat t < length (da_elts (ns_callbacks ns)) \<and> set_entry (unat t) (en\<lparr>nc_set := False\<rparr>) ns = Inr ns')"
    using assms(2) a by (auto simp: event_channel_deregister_def res_simps word_le_nat_alt split: if_splits)
  then show ?thesis
  proof (elim disjE exE conjE)
    assume "ns' = ns"
    with assms(1) show ?thesis
      by (simp add: steps_to_def)
  next
    fix en assume s: "unat t < length (da_elts (ns_callbacks ns))" "set_entry (unat t) (en\<lparr>nc_set := False\<rparr>) ns = Inr ns'"
    from set_entry_step[OF assms(1) s] show ?thesis
      by simp
  qed
qed

lemma deliver_step:
  assumes "cbs_wf ns" "pool_wf ns" "\<And>u. nc_set (entry_at u ns) \<Longrightarrow> nc_cb (entry_at u ns) \<noteq> None"
    and "\<And>p. p \<in> set (ns_pending ns) \<Longrightarrow> pn_type (pn_of ns p) \<noteq> t \<Longrightarrow> \<not> nc_set (entry_at (pn_type (pn_of ns p)) ns)"
    and "\<And>p. p \<in> set (ns_pending ns) \<Longrightarrow> head_type (pn_header (pn_of ns p)) = pn_type (pn_of ns p)"
  shows "steps_to ns (\<lambda>t. []) (deliver_pending t cb (ns_pending ns) ns)"
proof -
  let ?d = "deliver_pending t cb (ns_pending ns) ns"
  have dist: "distinct (ns_pending ns)"
    using assms(2) by (simp add: pool_wf_def)
  note d = deliver_pending_spec[OF dist dist subset_refl, of t cb]
  have pend: "ns_pending ?d = filter (\<lambda>p. pn_type (pn_of ns p) \<noteq> t) (ns_pending ns)"
    using d by (simp cong: filter_cong)
  have keep: "pn_of ?d p = pn_of ns p" if "p \<in> set (ns_pending ?d)" for p
  proof -
    have "p \<in> set (ns_pending ns) \<longrightarrow> pn_type (pn_of ns p) \<noteq> t"
      using that unfolding pend by simp
    with d show ?thesis
      by blast
  qed
  have inv: "ns_invoked ?d = ns_invoked ns @ map (\<lambda>p. (cb, pn_header (pn_of ns p), pn_data (pn_of ns p)))
      (filter (\<lambda>p. pn_type (pn_of ns p) = t) (ns_pending ns))"
    using d by blast
  have "ns_wf ?d"
    using assms d keep pend unfolding ns_wf_def by simp
  moreover have "taken u ?d = taken u ns" for u
  proof -
    have "map (\<lambda>p. (pn_header (pn_of ?d p), pn_data (pn_of ?d p))) (filter (\<lambda>p. pn_type (pn_of ?d p) = u) (ns_pending ?d))
        = map (\<lambda>p. (pn_header (pn_of ns p), pn_data (pn_of ns p))) (filter (\<lambda>p. pn_type (pn_of ns p) = u) (ns_pending ?d))"
      using keep by (intro map_cong filter_cong) simp_all
    also have "\<dots> = (if u = t then [] else pending_msgs u ns)"
      unfolding pend pending_msgs_def filter_filter by (auto intro: arg_cong[where f = "map _"] filter_cong simp: filter_empty_conv)
    finally have p: "pending_msgs u ?d = (if u = t then [] else pending_msgs u ns)"
      by (simp add: pending_msgs_def)
    have "filter (\<lambda>i. head_type (fst (snd i)) = u) (map (\<lambda>p. (cb, pn_header (pn_of ns p), pn_data (pn_of ns p)))
          (filter (\<lambda>p. pn_type (pn_of ns p) = t) (ns_pending ns)))
        = (if u = t then map (\<lambda>p. (cb, pn_header (pn_of ns p), pn_data (pn_of ns p)))
             (filter (\<lambda>p. pn_type (pn_of ns p) = t) (ns_pending ns)) else [])"
      using assms(5) by (auto simp: filter_empty_conv filter_id_conv)
    then have "delivered_msgs u ?d = delivered_msgs u ns @ (if u = t then pending_msgs u ns else [])"
      by (auto simp: delivered_msgs_def inv pending_msgs_def o_def)
    with p show ?thesis
      by (simp add: taken_def)
  qed
  ultimately show ?thesis
    by (simp add: steps_to_def)
qed

lemma event_channel_register_step:
  assumes "ns_wf ns" "unat t < 2 ^ 32" "event_channel_register t cb info ns = Inr (rc, ns')"
  shows "steps_to ns (\<lambda>t. []) ns'"
proof (cases cb)
  case None
  with assms(1,3) show ?thesis
    by (simp add: event_channel_register_def steps_to_def)
next
  case (Some c)
  with assms(3) obtain k en ns1 where g: "get_notif_callback_entry t ns = Inr (k, en, ns1)"
    by (auto simp: event_channel_register_def res_simps)
  note e = get_entry_step[OF assms(1,2) g]
  have wf1: "ns_wf ns1"
    using e(1) by (simp add: steps_to_def)
  show ?thesis
  proof (cases "nc_set en")
    case True
    with Some assms(3) g e(1) show ?thesis
      by (simp add: event_channel_register_def)
  next
    case False
    let ?en1 = "(RESET_NOTIF_CB_ENTRY en)\<lparr>nc_cb := Some c, nc_set := True, nc_ev_sys := True\<rparr>"
    let ?en = "case info of None \<Rightarrow> ?en1 | Some i \<Rightarrow> ?en1\<lparr>nc_info := COPY_NOTIF_INFO i (nc_info ?en1)\<rparr>"
    have en: "nc_set ?en" "nc_cb ?en = Some c"
      by (cases info; simp)+
    obtain ns2 where s: "set_entry k ?en ns1 = Inr ns2" "ns' = deliver_pending t c (ns_pending ns2) ns2"
      using Some assms(3) g False by (auto simp: event_channel_register_def res_simps Let_def)
    have at: "cbs_wf ns2 \<and> (\<forall>u. entry_at u ns2 = (if unat u = k then ?en else entry_at u ns1)) \<and> (\<exists>a. ns2 = ns1\<lparr>ns_callbacks := a\<rparr>)"
      using wf1 e(2,5) s(1) by (intro set_entry_spec) (simp_all add: ns_wf_def)
    then obtain a where ns2: "ns2 = ns1\<lparr>ns_callbacks := a\<rparr>"
      by blast
    have u: "unat u = k \<longleftrightarrow> u = t" for u :: u64
      using e(2) by (simp add: word_unat_eq_iff)
    have same: "pool_wf ns2" "pn_of ns2 = pn_of ns1" "ns_pending ns2 = ns_pending ns1" "ns_invoked ns2 = ns_invoked ns1"
      using wf1 by (simp_all add: ns2 ns_wf_def)
    have "steps_to ns2 (\<lambda>t. []) ns'"
      unfolding s(2) using at en u same wf1 by (intro deliver_step) (auto simp: ns_wf_def split: if_splits)
    moreover have "taken v ns2 = taken v ns1" for v
      using same by (simp add: taken_def delivered_msgs_def pending_msgs_def)
    ultimately have "steps_to ns1 (\<lambda>t. []) ns'"
      by (simp add: steps_to_def)
    from steps_to_trans[OF e(1) this] show ?thesis
      by simp
  qed
qed

section \<open>Histories\<close>

datatype notif_op =
    Recv nat am_header_t "nat list"
  | Register u64 nat "notification_info_t option"
  | Deregister u64
  | Update u64 "notification_info_t option"

text \<open>A message without bytes has no payload.\<close>

definition msg_data :: "nat list \<Rightarrow> nat list option" where
  "msg_data bs = (if length bs = 0 then None else Some bs)"

fun notif_do :: "notif_op \<Rightarrow> notif_sys_t \<Rightarrow> notif_sys_t res" where
  "notif_do (Recv ec hdr bs) ns = bindE (handle_notif_msg ec hdr (msg_data bs) ns) (\<lambda>(ok, ns'). Inr ns')"
| "notif_do (Register t cb info) ns = bindE (event_channel_register t (Some cb) info ns) (\<lambda>(rc, ns'). Inr ns')"
| "notif_do (Deregister t) ns = bindE (event_channel_deregister t ns) (\<lambda>(rc, ns'). Inr ns')"
| "notif_do (Update t info) ns = bindE (event_channel_update t info ns) (\<lambda>(rc, ns'). Inr ns')"

text \<open>The messages of a type that arrived with the payload their header announces.\<close>

fun arrived :: "notif_op \<Rightarrow> u64 \<Rightarrow> (am_header_t option \<times> nat list option) list" where
  "arrived (Recv ec hdr bs) t =
     (if t = of_nat (hdr_type hdr) \<and> (hdr_payload_size hdr = 0 \<or> bs \<noteq> []) then [(Some hdr, msg_data bs)] else [])"
| "arrived _ t = []"

fun small_type :: "notif_op \<Rightarrow> bool" where
  "small_type (Recv ec hdr bs) = (hdr_type hdr < 2 ^ 32)"
| "small_type (Register t cb info) = (unat t < 2 ^ 32)"
| "small_type (Deregister t) = True"
| "small_type (Update t info) = (unat t < 2 ^ 32)"

lemma notif_do_step:
  assumes "ns_wf ns" "small_type op" "notif_do op ns = Inr ns'"
  shows "steps_to ns (arrived op) ns'"
proof (cases op)
  case (Recv ec hdr bs)
  have "msg_data bs \<noteq> Some []" "msg_data bs \<noteq> None \<longleftrightarrow> bs \<noteq> []"
    by (simp_all add: msg_data_def)
  moreover have "arrived op = (\<lambda>t. if t = of_nat (hdr_type hdr) \<and> (hdr_payload_size hdr = 0 \<or> bs \<noteq> [])
      then [(Some hdr, msg_data bs)] else [])"
    by (simp add: Recv fun_eq_iff)
  ultimately show ?thesis
    using handle_notif_msg_step[OF assms(1), of hdr ec "msg_data bs"] assms(2,3) by (auto simp: Recv res_simps)
next
  case (Register t cb info)
  then have "arrived op = (\<lambda>t. [])"
    by (simp add: fun_eq_iff)
  with Register assms(2,3) event_channel_register_step[OF assms(1), of t "Some cb" info] show ?thesis
    by (auto simp: res_simps)
next
  case (Deregister t)
  then have "arrived op = (\<lambda>t. [])"
    by (simp add: fun_eq_iff)
  with Deregister assms(3) event_channel_deregister_step[OF assms(1), of t] show ?thesis
    by (auto simp: res_simps)
next
  case (Update t info)
  then have "arrived op = (\<lambda>t. [])"
    by (simp add: fun_eq_iff)
  with Update assms(2,3) event_channel_update_step[OF assms(1), of t info] show ?thesis
    by (auto simp: res_simps)
qed

lemma notif_run_steps:
  "ns_wf ns \<Longrightarrow> \<forall>op \<in> set ops. small_type op \<Longrightarrow> foldE notif_do ops ns = Inr ns' \<Longrightarrow>
     steps_to ns (\<lambda>t. concat (map (\<lambda>op. arrived op t) ops)) ns'"
proof (induction ops arbitrary: ns)
  case Nil
  then show ?case
    by (simp add: steps_to_def)
next
  case (Cons op ops)
  then obtain ns1 where 1: "notif_do op ns = Inr ns1" "foldE notif_do ops ns1 = Inr ns'"
    by (auto simp: res_simps)
  then have s: "steps_to ns (arrived op) ns1"
    using Cons.prems by (intro notif_do_step) simp_all
  moreover have "steps_to ns1 (\<lambda>t. concat (map (\<lambda>op. arrived op t) ops)) ns'"
    using Cons.IH[of ns1] Cons.prems(2) 1(2) s by (simp add: steps_to_def)
  ultimately show ?case
    using steps_to_trans by fastforce
qed

lemma notif_init_wf:
  assumes "wf_heap h" "wf_heap hc" "notif_init mem h hc = Inr ns"
  shows "ns_wf ns" "taken t ns = []"
proof -
  obtain dl h1 a hc1 where
    i: "DYN_LIST_ALLOC sizeof_pending_notif mem DEFAULT_NUM_NOTIFICATION_CALLBACKS h = Inr (Some dl, h1)"
      "DYN_ARRAY_ALLOC sizeof_cb_entry zero_cb_entry DEFAULT_NUM_NOTIFICATION_CALLBACKS hc = Inr (a, hc1)"
      "ns = \<lparr>ns_callbacks = a, ns_cb_heap = hc1, ns_free_pending = dl, ns_heap = h1, ns_pending = [], ns_invoked = []\<rparr>"
    using assms(3) by (auto simp: notif_init_def res_simps)
  have "dl_wf sizeof_pending_notif dl h1" "dl_element_init_cb dl = None"
    using dyn_list_alloc_spec[OF assms(1), of DEFAULT_NUM_NOTIFICATION_CALLBACKS sizeof_pending_notif mem None dl h1] i(1)
    by (simp_all add: DYN_LIST_ALLOC_def DEFAULT_NUM_NOTIFICATION_CALLBACKS_def sizeof_pending_notif_def)
  moreover have "wf_heap hc1 \<and> da_wf sizeof_cb_entry a hc1 \<and> da_elts a = replicate (unat DEFAULT_NUM_NOTIFICATION_CALLBACKS) zero_cb_entry
      \<and> da_allocation_size a = DEFAULT_NUM_NOTIFICATION_CALLBACKS \<and> da_element_init_fn a = None"
    using DYN_ARRAY_ALLOC_spec[OF assms(2) _ _ _ i(2)]
    by (simp add: DEFAULT_NUM_NOTIFICATION_CALLBACKS_def sizeof_cb_entry_def)
  ultimately show "ns_wf ns" "taken t ns = []"
    by (simp_all add: i(3) ns_wf_def cbs_wf_def pool_wf_def entry_at_def zero_cb_entry_def taken_def
        delivered_msgs_def pending_msgs_def)
qed

text \<open>C9: Whatever notifications arrive and whatever callbacks are registered, updated and taken back, for every
  type the messages handed to its callbacks, followed by those that wait for one, are exactly the messages that
  arrived, in the order of their arrival; while a callback is registered none waits.\<close>

theorem notifications_delivered_in_order:
  assumes "wf_heap h" "wf_heap hc" "notif_init mem h hc = Inr ns0" "\<forall>op \<in> set ops. small_type op"
    and "foldE notif_do ops ns0 = Inr ns"
  shows "delivered_msgs t ns @ pending_msgs t ns = concat (map (\<lambda>op. arrived op t) ops)
         \<and> (nc_set (entry_at t ns) \<longrightarrow> pending_msgs t ns = [])"
proof -
  have "steps_to ns0 (\<lambda>t. concat (map (\<lambda>op. arrived op t) ops)) ns"
    using notif_run_steps[OF notif_init_wf(1)[OF assms(1-3)] assms(4,5)] .
  then show ?thesis
    using notif_init_wf(2)[OF assms(1-3)] ns_wf_registered by (simp add: steps_to_def taken_def)
qed

section \<open>A short history\<close>

definition demo_pn :: pending_notification_t where
  "demo_pn = \<lparr>pn_type = 0, pn_src_id = 0, pn_header = None, pn_data = None, pn_econtext = None\<rparr>"

definition demo_cbs :: "notification_callback_entry_t list" where
  "demo_cbs = replicate 5000 zero_cb_entry"

definition demo_ns :: notif_sys_t where
  "demo_ns =
     \<lparr>ns_callbacks = \<lparr>da_base = Some (0, demo_cbs), da_capacity = 5000, da_allocation_size = 5000, da_type_size = 64,
        da_element_init_fn = None\<rparr>,
      ns_cb_heap = \<lparr>h_next = 1, h_live = [(0, 320000)], h_oom = (\<lambda>_. False)\<rparr>,
      ns_free_pending = \<lparr>dl_blk = 0, dl_capacity = 5000, dl_allocation_size = 5000,
        dl_list = \<lparr>internal_list = (2, 4999) # rev (map (Pair 2) [0..<4999]), sl_length = 5000\<rparr>,
        dl_element_init_cb = None, dl_num_mem_chunks = 1,
        dl_mem_chunks = \<lparr>da_base = Some (1, \<lparr>mc_size = 360000, mc_ptr = Some 2\<rparr> # replicate 1023 zero_mem_chunk),
           da_capacity = 1024, da_allocation_size = 1024, da_type_size = 16, da_element_init_fn = None\<rparr>,
        dl_elts = init_chunk None 2 5000 (\<lambda>_. demo_pn)\<rparr>,
      ns_heap = \<lparr>h_next = 3, h_live = [(2, 360000), (1, 16384), (0, 96)], h_oom = (\<lambda>_. False)\<rparr>,
      ns_pending = [], ns_invoked = []\<rparr>"

lemma demo_ns_init: "notif_init (\<lambda>_. demo_pn) demo_heap demo_heap = Inr demo_ns"
proof -
  have m: "malloc 96 demo_heap = (Some 0, \<lparr>h_next = 1, h_live = [(0, 96)], h_oom = (\<lambda>_. False)\<rparr>)"
    "malloc (1024 * 16) \<lparr>h_next = 1, h_live = [(0, 96)], h_oom = (\<lambda>_. False)\<rparr>
     = (Some 1, \<lparr>h_next = 2, h_live = [(1, 16384), (0, 96)], h_oom = (\<lambda>_. False)\<rparr>)"
    "malloc (5000 * 72) \<lparr>h_next = 2, h_live = [(1, 16384), (0, 96)], h_oom = (\<lambda>_. False)\<rparr>
     = (Some 2, ns_heap demo_ns)"
    "malloc (5000 * 64) demo_heap = (Some 0, ns_cb_heap demo_ns)"
    by (simp_all add: malloc_def malloc_ok_def heap_bytes_def demo_heap_def demo_ns_def)
  have l: "rev (map (Pair (2 :: blk)) [0..<5000]) = (2, 4999) # rev (map (Pair 2) [0..<4999])"
    using upt_Suc_append[of 0 4999] by (simp del: upt_conv_Cons upt_Suc)
  show ?thesis
    by (simp add: notif_init_def DYN_LIST_ALLOC_def dyn_list_alloc_with_def DYN_ARRAY_ALLOC_def m[simplified]
        GROW_DYN_LIST_def DYN_ARRAY_GET_ELT_def da_write_def sizeof_dyn_list_t_def sizeof_mem_chunk_t_def
        DEFAULT_MEM_CHUNKS_def elts_in_def SIMPLE_LIST_INIT_def grow_step_fold SIMPLE_LIST_LENGTH_def
        sizeof_pending_notif_def sizeof_cb_entry_def DEFAULT_NUM_NOTIFICATION_CALLBACKS_def replicate_1024 l
        del: upt_conv_Cons)
       (simp add: demo_ns_def demo_cbs_def)
qed

definition demo_msg :: "nat \<Rightarrow> am_header_t" where
  "demo_msg n = \<lparr>hdr_id = 0, hdr_type = 64, hdr_payload_size = n, hdr_event_id = 0, hdr_client_id = 0, hdr_server_id = 0,
     hdr_scope_id = SCOPE_HOST_DPU, hdr_sender_type = CONTEXT_CLIENT\<rparr>"

definition demo_ops :: "notif_op list" where
  "demo_ops = [Recv 0 (demo_msg 2) [7, 8], Recv 0 (demo_msg 1) [], Register 64 9 None, Recv 0 (demo_msg 0) []]"

lemma demo_cbs_nth: "length demo_cbs = 5000" "demo_cbs ! 64 = zero_cb_entry"
  by (simp_all add: demo_cbs_def)

lemma demo_ops_run:
  "\<exists>ns. foldE notif_do demo_ops demo_ns = Inr ns \<and> nc_set (entry_at 64 ns)
     \<and> ns_invoked ns = [(9, Some (demo_msg 2), Some [7, 8]), (9, Some (demo_msg 0), None)]"
  by (simp add: demo_ops_def demo_ns_def handle_notif_msg_def get_notif_callback_entry_def DYN_ARRAY_GET_ELT_def da_read_def
      nthE_def demo_cbs_nth msg_data_def demo_msg_def zero_cb_entry_def queue_notif_def DYN_LIST_GET_def SIMPLE_LIST_IS_EMPTY_def
      SIMPLE_LIST_EXTRACT_HEAD_def SIMPLE_LIST_LENGTH_def Let_def event_channel_register_def set_entry_def da_write_def updE_def
      pn_upd_def pn_of_def entry_at_def da_elts_def RESET_NOTIF_CB_ENTRY_def RESET_PENDING_NOTIF_def
      del: upt_conv_Cons upt_Suc)

theorem notifications_delivered_in_order_witness:
  "\<exists>ns. foldE notif_do demo_ops demo_ns = Inr ns \<and> pending_msgs 64 ns = []
     \<and> delivered_msgs 64 ns = [(Some (demo_msg 2), Some [7, 8]), (Some (demo_msg 0), None)]"
proof -
  obtain ns where ns: "foldE notif_do demo_ops demo_ns = Inr ns" "nc_set (entry_at 64 ns)"
    using demo_ops_run by blast
  have "\<forall>op \<in> set demo_ops. small_type op"
    by (simp add: demo_ops_def demo_msg_def)
  from notifications_delivered_in_order[OF demo_wf demo_wf demo_ns_init this ns(1), of 64] ns(2)
  have "pending_msgs 64 ns = []" "delivered_msgs 64 ns = concat (map (\<lambda>op. arrived op 64) demo_ops)"
    by auto
  moreover have "concat (map (\<lambda>op. arrived op 64) demo_ops) = [(Some (demo_msg 2), Some [7, 8]), (Some (demo_msg 0), None)]"
    by (simp add: demo_ops_def demo_msg_def msg_data_def)
  ultimately show ?thesis
    using ns(1) by auto
qed

end
