(* ===== verification/C_Strings.thy ===== *)
theory C_Strings
imports Mimosa_Prelude
begin

text \<open>
  What the sources use of the C library on strings: \<open>strtok_r\<close>, the comparison of prefixes by \<open>strncmp\<close>, and
  the conversions \<open>atoi\<close> and \<open>strtoull\<close> in base 0.  A C string is the list of its characters before the
  terminating zero.  Dynamic arrays whose capacity is not observed are lists: an access past the end extends
  them with zeroed elements, as \<open>DYN_ARRAY_GET_ELT\<close> does.
\<close>

section \<open>Arrays\<close>

definition arr_get :: "nat \<Rightarrow> 'a \<Rightarrow> 'a list \<Rightarrow> 'a" where
  "arr_get i z xs = (if i < length xs then xs ! i else z)"

definition arr_put :: "nat \<Rightarrow> 'a \<Rightarrow> 'a \<Rightarrow> 'a list \<Rightarrow> 'a list" where
  "arr_put i z v xs = (xs @ replicate (Suc i - length xs) z)[i := v]"

lemma arr_put_length [simp]: "length (arr_put i z v xs) = max (length xs) (Suc i)"
  by (simp add: arr_put_def)

lemma arr_get_put: "arr_get j z (arr_put i z v xs) = (if j = i then v else arr_get j z xs)"
  by (auto simp: arr_get_def arr_put_def nth_append nth_list_update)

lemma arr_put_end [simp]: "arr_put (length xs) z v xs = xs @ [v]"
  by (simp add: arr_put_def list_update_append)

lemma arr_put_in: "i < length xs \<Longrightarrow> arr_put i z v xs = xs[i := v]"
  by (simp add: arr_put_def)

lemma arr_get_in [simp]: "i < length xs \<Longrightarrow> arr_get i z xs = xs ! i"
  by (simp add: arr_get_def)

section \<open>Tokens\<close>

definition strtok_r :: "char \<Rightarrow> string \<Rightarrow> string option \<times> string" where
  "strtok_r d s =
     (let s1 = dropWhile (\<lambda>c. c = d) s in
      if s1 = [] then (None, []) else (Some (takeWhile (\<lambda>c. c \<noteq> d) s1), drop 1 (dropWhile (\<lambda>c. c \<noteq> d) s1)))"

lemma strtok_r_shorter: "strtok_r d s = (Some t, r) \<Longrightarrow> length r < length s"
proof -
  assume "strtok_r d s = (Some t, r)"
  then have s1: "dropWhile (\<lambda>c. c = d) s \<noteq> []" "r = drop 1 (dropWhile (\<lambda>c. c \<noteq> d) (dropWhile (\<lambda>c. c = d) s))"
    by (auto simp: strtok_r_def Let_def split: if_splits)
  have "length (dropWhile (\<lambda>c. c \<noteq> d) (dropWhile (\<lambda>c. c = d) s)) \<le> length (dropWhile (\<lambda>c. c = d) s)"
    "length (dropWhile (\<lambda>c. c = d) s) \<le> length s" "0 < length (dropWhile (\<lambda>c. c = d) s)"
    using length_dropWhile_le[of "\<lambda>c. c \<noteq> d" "dropWhile (\<lambda>c. c = d) s"] length_dropWhile_le[of "\<lambda>c. c = d" s] s1(1)
    by (blast, blast, simp)
  then show ?thesis
    unfolding s1(2) length_drop by linarith
qed

text \<open>The loop over all the tokens of a string.\<close>

function tokens :: "char \<Rightarrow> string \<Rightarrow> string list" where
  "tokens d s = (case strtok_r d s of (None, r) \<Rightarrow> [] | (Some t, r) \<Rightarrow> t # tokens d r)"
  by auto
termination
  by (relation "measure (\<lambda>(d, s). length s)") (auto dest: strtok_r_shorter[OF sym])

declare tokens.simps [simp del]

lemma takeWhile_all: "d \<notin> set t \<Longrightarrow> takeWhile (\<lambda>c. c \<noteq> d) (t @ d # s) = t"
  by (induction t) auto

lemma dropWhile_all: "d \<notin> set t \<Longrightarrow> dropWhile (\<lambda>c. c \<noteq> d) (t @ d # s) = d # s"
  by (induction t) auto

lemma strtok_r_token:
  assumes "t \<noteq> []" "d \<notin> set t"
  shows "strtok_r d (t @ d # s) = (Some t, s)" "strtok_r d t = (Some t, [])"
proof -
  obtain c u where t: "t = c # u" "c \<noteq> d"
    using assms by (cases t) auto
  then have d: "dropWhile (\<lambda>c. c = d) (t @ d # s) = t @ d # s" "dropWhile (\<lambda>c. c = d) t = t"
    by simp_all
  have w: "takeWhile (\<lambda>c. c \<noteq> d) t = t" "dropWhile (\<lambda>c. c \<noteq> d) t = []"
    using assms(2) by (auto simp: takeWhile_eq_all_conv dropWhile_eq_Nil_conv)
  show "strtok_r d (t @ d # s) = (Some t, s)"
    unfolding strtok_r_def Let_def d takeWhile_all[OF assms(2)] dropWhile_all[OF assms(2)] using assms(1) by simp
  show "strtok_r d t = (Some t, [])"
    unfolding strtok_r_def Let_def d w using assms(1) by simp
qed

lemma strtok_r_Nil [simp]: "strtok_r d [] = (None, [])"
  by (simp add: strtok_r_def)

lemma strtok_r_skip [simp]: "strtok_r d (d # s) = strtok_r d s"
  by (simp add: strtok_r_def)

text \<open>Writing words with a separator and reading them back.\<close>

fun join :: "char \<Rightarrow> string list \<Rightarrow> string" where
  "join d [] = []"
| "join d [t] = t"
| "join d (t # ts) = t @ d # join d ts"

lemma tokens_join: "\<forall>t \<in> set ts. t \<noteq> [] \<and> d \<notin> set t \<Longrightarrow> tokens d (join d ts) = ts"
proof (induction d ts rule: join.induct)
  case (1 d)
  show ?case
    by (subst tokens.simps) simp
next
  case (2 d t)
  then show ?case
    by (subst tokens.simps) (simp add: strtok_r_token, subst tokens.simps, simp)
next
  case (3 d t u ts)
  then show ?case
    by (subst tokens.simps) (simp add: strtok_r_token)
qed

lemma set_join: "set (join d ts) \<subseteq> insert d (\<Union> (set ` set ts))"
  by (induction d ts rule: join.induct) auto

section \<open>Comparison\<close>

text \<open>\<open>strncmp(a, b, n) == 0\<close>.\<close>

definition strncmp0 :: "string \<Rightarrow> string \<Rightarrow> nat \<Rightarrow> bool" where
  "strncmp0 a b n = (take n a = take n b)"

lemma strncmp0_prefix: "strncmp0 a b (length a) \<longleftrightarrow> take (length a) b = a"
  by (auto simp: strncmp0_def)

section \<open>Numbers\<close>

definition isspace :: "char \<Rightarrow> bool" where
  "isspace c = (c = CHR '' '' \<or> (9 \<le> (of_char c :: nat) \<and> (of_char c :: nat) \<le> 13))"

text \<open>The value of a digit, if it is one.\<close>

definition digit_val :: "char \<Rightarrow> nat option" where
  "digit_val c =
     (let n = (of_char c :: nat) in
      if 48 \<le> n \<and> n \<le> 57 then Some (n - 48)
      else if 65 \<le> n \<and> n \<le> 90 then Some (n - 55)
      else if 97 \<le> n \<and> n \<le> 122 then Some (n - 87) else None)"

definition is_digit :: "nat \<Rightarrow> char \<Rightarrow> bool" where
  "is_digit b c = (case digit_val c of None \<Rightarrow> False | Some v \<Rightarrow> v < b)"

definition digits_val :: "nat \<Rightarrow> string \<Rightarrow> nat" where
  "digits_val b s = foldl (\<lambda>n c. n * b + the (digit_val c)) 0 s"

definition skip_sign :: "string \<Rightarrow> bool \<times> string" where
  "skip_sign s =
     (let s1 = dropWhile isspace s in
      if s1 \<noteq> [] \<and> hd s1 = CHR ''-'' then (True, tl s1)
      else if s1 \<noteq> [] \<and> hd s1 = CHR ''+'' then (False, tl s1) else (False, s1))"

text \<open>\<open>strtol\<close> in base 10 saturates; \<open>atoi\<close> converts its result to \<open>int\<close>.\<close>

definition atoi :: "string \<Rightarrow> int" where
  "atoi s =
     (let (neg, s1) = skip_sign s;
          n = int (digits_val 10 (takeWhile (is_digit 10) s1));
          v = (if neg then max (- n) (- (2 ^ 63)) else min n (2 ^ 63 - 1)) in
      sint (word_of_int v :: u32))"

text \<open>The base 0 stands for 16 after \<open>0x\<close>, 8 after \<open>0\<close> and 10 otherwise.\<close>

definition strtoull0 :: "string \<Rightarrow> nat" where
  "strtoull0 s =
     (let (neg, s1) = skip_sign s;
          hex = 2 < length s1 \<and> s1 ! 0 = CHR ''0'' \<and> (s1 ! 1 = CHR ''x'' \<or> s1 ! 1 = CHR ''X'') \<and> is_digit 16 (s1 ! 2);
          b = (if hex then 16 else if s1 \<noteq> [] \<and> hd s1 = CHR ''0'' then 8 else 10);
          n = digits_val b (takeWhile (is_digit b) (if hex then drop 2 s1 else s1)) in
      if 2 ^ 64 \<le> n then 2 ^ 64 - 1 else if neg then (2 ^ 64 - n) mod 2 ^ 64 else n)"

text \<open>Decimal notation, and that both functions read it.\<close>

fun decimal :: "nat \<Rightarrow> string" where
  "decimal n = (if n < 10 then [char_of (n + 48)] else decimal (n div 10) @ [char_of (n mod 10 + 48)])"

declare decimal.simps [simp del]

lemma digit_char: "(n :: nat) < 10 \<Longrightarrow> (of_char (char_of (n + 48) :: char) :: nat) = n + 48"
  by simp

lemma digit_char_val [simp]: "n < 10 \<Longrightarrow> digit_val (char_of (n + 48)) = Some n"
  by (simp add: digit_val_def)

lemma digits_snoc: "digits_val b (s @ [c]) = digits_val b s * b + the (digit_val c)"
  by (simp add: digits_val_def)

lemma decimal_digits: "decimal n \<noteq> []" "\<forall>c \<in> set (decimal n). is_digit 10 c" "digits_val 10 (decimal n) = n"
proof (induction n rule: decimal.induct)
  case (1 n)
  { case 1 show ?case by (subst decimal.simps) simp }
  { case 2 then show ?case using 1 by (subst decimal.simps) (auto simp: is_digit_def) }
  { case 3 then show ?case using 1 by (subst decimal.simps) (auto simp: digits_snoc digits_val_def) }
qed

lemma digit_not_space: "is_digit 10 c \<Longrightarrow> \<not> isspace c \<and> c \<noteq> CHR ''-'' \<and> c \<noteq> CHR ''+''"
  by (auto simp: is_digit_def digit_val_def isspace_def Let_def split: if_splits option.splits)

lemma decimal_sign: "skip_sign (decimal n) = (False, decimal n)"
proof -
  obtain c s where d: "decimal n = c # s"
    using decimal_digits(1)[of n] by (cases "decimal n") auto
  then have "is_digit 10 c"
    using decimal_digits(2)[of n] by simp
  with d digit_not_space[of c] show ?thesis
    by (simp add: skip_sign_def)
qed

lemma decimal_take: "takeWhile (is_digit 10) (decimal n) = decimal n"
  using decimal_digits(2)[of n] by (simp add: takeWhile_eq_all_conv)

lemma atoi_decimal: "n < 2 ^ 31 \<Longrightarrow> atoi (decimal n) = int n"
proof -
  assume n: "n < 2 ^ 31"
  have "sint (word_of_int (int n) :: u32) = int n"
    using n by (subst sint_uint) (simp add: signed_take_bit_int_eq_self take_bit_int_eq_self uint_nat unat_of_nat)
  with n show ?thesis
    by (simp add: atoi_def decimal_sign decimal_take decimal_digits(3) Let_def)
qed

lemma decimal_hd: "0 < n \<Longrightarrow> hd (decimal n) \<noteq> CHR ''0''"
proof (induction n rule: decimal.induct)
  case (1 n)
  show ?case
  proof (cases "n < 10")
    case True
    have "char_of (n + 48) \<noteq> (CHR ''0'' :: char)"
    proof
      assume "char_of (n + 48) = (CHR ''0'' :: char)"
      then have "(of_char (char_of (n + 48) :: char) :: nat) = of_char (CHR ''0'')"
        by simp
      with True 1(2) show False
        by (simp add: digit_char)
    qed
    with True show ?thesis
      by (subst decimal.simps) simp
  next
    case False
    then have "hd (decimal (n div 10)) \<noteq> CHR ''0''"
      using 1(1) by simp
    with False decimal_digits(1)[of "n div 10"] show ?thesis
      by (subst decimal.simps) simp
  qed
qed

lemma decimal_zero: "decimal 0 = ''0''"
proof -
  have "(of_char (char_of (48 :: nat) :: char) :: nat) = of_char (CHR ''0'')"
    by simp
  then have "char_of (48 :: nat) = CHR ''0''"
    by (simp only: of_char_eq_iff)
  then show ?thesis
    by (subst decimal.simps) simp
qed

lemma strtoull0_decimal: "n < 2 ^ 64 \<Longrightarrow> strtoull0 (decimal n) = n"
proof (cases "n = 0")
  case True
  then show ?thesis
    by (simp add: decimal_zero) (simp add: strtoull0_def skip_sign_def isspace_def is_digit_def digit_val_def digits_val_def)
next
  case False
  assume n: "n < 2 ^ 64"
  have h: "hd (decimal n) \<noteq> CHR ''0''" "decimal n ! 0 \<noteq> CHR ''0''"
    using decimal_hd[of n] False hd_conv_nth[OF decimal_digits(1)[of n]] by simp_all
  with n show ?thesis
    by (simp add: strtoull0_def decimal_sign decimal_take decimal_digits(3) Let_def)
qed

end
