(* ===== verification/Config_File.thy ===== *)
theory Config_File
imports C_Strings Mimosa_Types Tags_Hashes
begin

text \<open>
  The configuration of a job (\<open>src/src/dpu_offload_utils.c\<close>): the entries of DPUs and hosts of the
  configuration file, on service processes and on hosts, and the environment variables.

  The configuration extends the one of \<open>Mimosa_Types\<close>, which is what the group cache reads.  It holds the
  engine's lists of DPUs and service processes too, which only the configuration fills.  Files and environment
  are functions from names to contents.
\<close>

section \<open>Data\<close>

record conn_params_t =
  cp_addr_str :: "string option"
  cp_port :: int

definition RESET_CONN_PARAMS :: conn_params_t where
  "RESET_CONN_PARAMS = \<lparr>cp_addr_str = None, cp_port = - 1\<rparr>"

record dpu_config_data_t =
  dc_hostname :: "string option"
  dc_addr :: "string option"
  dc_num_host_ports :: nat
  dc_host_ports :: "int list"
  dc_num_interdpu_ports :: nat
  dc_interdpu_ports :: "int list"

definition zero_dpu_config :: dpu_config_data_t where
  "zero_dpu_config = \<lparr>dc_hostname = None, dc_addr = None, dc_num_host_ports = 0, dc_host_ports = [],
     dc_num_interdpu_ports = 0, dc_interdpu_ports = []\<rparr>"

record service_proc_config_data_t =
  scf_hostname :: "string option"
  scf_host_port :: int
  scf_intersp_port :: int

definition zero_sp_config :: service_proc_config_data_t where
  "zero_sp_config = \<lparr>scf_hostname = None, scf_host_port = 0, scf_intersp_port = 0\<rparr>"

text \<open>What the configuration knows of a service process; the connection parameters it points to are its own.\<close>

record sp_conf_t =
  sc_idx :: nat
  sc_dpu_idx :: nat
  sc_local_id :: nat
  sc_global_id :: nat
  sc_conn_params :: "conn_params_t option"
  sc_ep :: "nat option"

definition zero_sp_conf :: sp_conf_t where
  "zero_sp_conf = \<lparr>sc_idx = 0, sc_dpu_idx = 0, sc_local_id = 0, sc_global_id = 0, sc_conn_params = None, sc_ep = None\<rparr>"

record remote_dpu_info_t =
  rd_idx :: nat
  rd_hostname :: "string option"
  rd_local_service_procs :: "nat list"

definition zero_dpu_info :: remote_dpu_info_t where
  "zero_dpu_info = \<lparr>rd_idx = 0, rd_hostname = None, rd_local_service_procs = []\<rparr>"

text \<open>The list of service processes to connect to is kept with its length \<open>num_connect_to\<close>.\<close>

record config_t = offloading_config_t +
  cf_list_dpus :: "string option"
  cf_config_file :: "string option"
  cf_num_service_procs_per_dpu_str :: "string option"
  cf_format_version :: int
  cf_host_index :: nat
  cf_service_proc_found :: bool
  cf_num_connecting_service_procs :: nat
  cf_sps_connect_to :: "nat list"
  cf_connect_num_dpus :: nat
  cf_num_dpus_per_host :: nat
  cf_num_dpus :: nat
  cf_num_service_procs :: nat
  cf_num_service_procs_configured :: nat
  cf_dpus_config :: "dpu_config_data_t list"
  cf_sps_config :: "service_proc_config_data_t list"
  cf_global_id_str :: "string option"
  cf_local_id_str :: "string option"
  cf_dpu :: nat
  cf_hostname :: string
  cf_inter_conn_params :: conn_params_t
  cf_host_conn_params :: conn_params_t
  cf_inter_id :: "nat option"
  cf_host_id :: "nat option"
  cf_self_ep :: "nat option"
  cf_engine_dpus :: "remote_dpu_info_t list"
  cf_engine_sps :: "sp_conf_t list"
  cf_engine_num_dpus :: nat
  cf_engine_num_service_procs :: nat

definition INIT_DPU_CONFIG_DATA :: config_t where
  "INIT_DPU_CONFIG_DATA =
     \<lparr>cfg_num_hosts = 0, cfg_hosts_config = [], cfg_host_lookup_table = [], cfg_num_service_procs_per_dpu = 0,
      cfg_local_sp_global_id = UINT64_MAX, cfg_local_sp_local_id = UINT64_MAX, cfg_local_sp_host_uid = UINT64_MAX,
      cf_list_dpus = None, cf_config_file = None, cf_num_service_procs_per_dpu_str = None, cf_format_version = 0,
      cf_host_index = 0, cf_service_proc_found = False, cf_num_connecting_service_procs = 0, cf_sps_connect_to = [],
      cf_connect_num_dpus = 0, cf_num_dpus_per_host = 0, cf_num_dpus = 0, cf_num_service_procs = 0,
      cf_num_service_procs_configured = 0, cf_dpus_config = [], cf_sps_config = [], cf_global_id_str = None,
      cf_local_id_str = None, cf_dpu = UINT64_MAX, cf_hostname = [], cf_inter_conn_params = RESET_CONN_PARAMS,
      cf_host_conn_params = RESET_CONN_PARAMS, cf_inter_id = None, cf_host_id = None, cf_self_ep = None,
      cf_engine_dpus = [], cf_engine_sps = [], cf_engine_num_dpus = 0, cf_engine_num_service_procs = 0\<rparr>"

definition host_uid_of :: "string \<Rightarrow> nat" where
  "host_uid_of s = unat (HASH_HOSTNAME (map of_char s))"

section \<open>Entries of the configuration file\<close>

definition config_file_version_token :: string where
  "config_file_version_token = ''Format version:''"

definition skip_blanks :: "string \<Rightarrow> string" where
  "skip_blanks s = dropWhile (\<lambda>c. c = CHR '' '') s"

definition check_config_file_version :: "string \<Rightarrow> config_t \<Rightarrow> dpu_offload_status_t \<times> config_t" where
  "check_config_file_version line c =
     (let s = skip_blanks line in
      if s = [] \<or> hd s \<noteq> CHR ''#'' then (DO_ERROR, c) else
      let t = skip_blanks (tl s) in
      if \<not> strncmp0 t config_file_version_token (length config_file_version_token) then (DO_ERROR, c) else
      (DO_SUCCESS, c\<lparr>cf_format_version := atoi (skip_blanks (drop (length config_file_version_token) t))\<rparr>))"

definition line_is_comment :: "string \<Rightarrow> bool" where
  "line_is_comment line = (let s = skip_blanks line in s \<noteq> [] \<and> hd s = CHR ''#'')"

definition parse_ports :: "string \<Rightarrow> int list res" where
  "parse_ports t = (let ps = map atoi (tokens (CHR ''&'') t) in bindE (assertE (ps \<noteq> [])) (\<lambda>_. Inr ps))"

text \<open>The entry of a DPU: its name, its address, the ports between service processes, the ports for ranks.
  The result is whether the entry could be parsed.\<close>

definition parse_dpu_cfg :: "string \<Rightarrow> dpu_config_data_t \<Rightarrow> (bool \<times> dpu_config_data_t) res" where
  "parse_dpu_cfg str en =
     (let en0 = en\<lparr>dc_interdpu_ports := [], dc_host_ports := []\<rparr> in
      case strtok_r (CHR '':'') str of
        (None, _) \<Rightarrow> Inl Assert_failed
      | (Some name, r1) \<Rightarrow>
          let en1 = (if dc_hostname en0 = None then en0\<lparr>dc_hostname := Some name\<rparr> else en0) in
          (case strtok_r (CHR '':'') r1 of
             (None, _) \<Rightarrow> Inl Assert_failed
           | (Some addr, r2) \<Rightarrow>
               let en2 = en1\<lparr>dc_addr := Some addr\<rparr> in
               (case strtok_r (CHR '':'') r2 of
                  (None, _) \<Rightarrow> Inr (False, en2)
                | (Some t1, r3) \<Rightarrow>
                    bindE (parse_ports t1) (\<lambda>ports.
                    case strtok_r (CHR '':'') r3 of
                      (None, _) \<Rightarrow> Inl Assert_failed
                    | (Some t2, r4) \<Rightarrow>
                        bindE (parse_ports t2) (\<lambda>hports.
                        Inr (True, en2\<lparr>dc_interdpu_ports := ports, dc_num_interdpu_ports := length ports,
                                   dc_host_ports := hports, dc_num_host_ports := length hports\<rparr>))))))"

section \<open>Lines on a service process\<close>

text \<open>Names match when one is a prefix of the other.\<close>

definition names_match :: "string \<Rightarrow> string \<Rightarrow> bool" where
  "names_match a b = strncmp0 a b (min (length a) (length b))"

primrec find_dpu_entry :: "string \<Rightarrow> dpu_config_data_t list \<Rightarrow> nat list \<Rightarrow> nat option res" where
  "find_dpu_entry token cfg [] = Inr None"
| "find_dpu_entry token cfg (i # is) =
     (case dc_hostname (arr_get i zero_dpu_config cfg) of
        None \<Rightarrow> Inl Assert_failed
      | Some h \<Rightarrow> if names_match h token then Inr (Some i) else find_dpu_entry token cfg is)"

primrec find_dpu_info :: "string \<Rightarrow> remote_dpu_info_t list \<Rightarrow> nat list \<Rightarrow> nat option res" where
  "find_dpu_info name dpus [] = Inr None"
| "find_dpu_info name dpus (i # is) =
     (case rd_hostname (arr_get i zero_dpu_info dpus) of
        None \<Rightarrow> Inl Assert_failed
      | Some h \<Rightarrow> if names_match name h then Inr (Some i) else find_dpu_info name dpus is)"

text \<open>The hosts of the job, one entry each time the DPU differs from the previous one of the line.\<close>

definition add_host :: "string \<Rightarrow> config_t \<Rightarrow> config_t" where
  "add_host name c =
     c\<lparr>cfg_hosts_config := arr_put (cfg_num_hosts c) \<lparr>hi_hostname = [], hi_uid = 0, hi_idx = 0\<rparr>
          \<lparr>hi_hostname = name, hi_uid = host_uid_of name, hi_idx = cfg_num_hosts c\<rparr> (cfg_hosts_config c),
       cfg_host_lookup_table := kh_put (host_uid_of name) (cfg_num_hosts c) (cfg_host_lookup_table c)\<rparr>"

definition port_at :: "nat \<Rightarrow> int list \<Rightarrow> int res" where
  "port_at i ps = bindE (assertE (0 < arr_get i 0 ps)) (\<lambda>_. Inr (arr_get i 0 ps))"

text \<open>The service process with the given local identifier on a DPU.\<close>

definition configure_sp :: "dpu_config_data_t \<Rightarrow> remote_dpu_info_t \<Rightarrow> nat \<Rightarrow> config_t \<Rightarrow> config_t res" where
  "configure_sp entry dpu local_sp c =
     (let gid = arr_get local_sp 0 (rd_local_service_procs dpu);
          sp = arr_get gid zero_sp_conf (cf_engine_sps c) in
      bindE (assertE (sc_conn_params sp \<noteq> None)) (\<lambda>_.
      bindE (port_at local_sp (dc_interdpu_ports entry)) (\<lambda>_.
      bindE (port_at (sc_idx sp mod cfg_num_service_procs_per_dpu c) (dc_interdpu_ports entry)) (\<lambda>intersp_port.
      bindE (port_at local_sp (dc_host_ports entry)) (\<lambda>host_port.
      Inr (c\<lparr>cf_sps_config := arr_put (cf_num_service_procs_configured c) zero_sp_config
                \<lparr>scf_hostname = dc_hostname entry, scf_host_port = host_port, scf_intersp_port = intersp_port\<rparr> (cf_sps_config c),
             cf_engine_sps := arr_put gid zero_sp_conf
                (sp\<lparr>sc_conn_params := Some \<lparr>cp_addr_str = dc_addr entry, cp_port = intersp_port\<rparr>\<rparr>) (cf_engine_sps c),
             cf_num_service_procs_configured := Suc (cf_num_service_procs_configured c)\<rparr>))))))"

text \<open>The entry of the DPU the process runs on.\<close>

definition configure_self :: "dpu_config_data_t \<Rightarrow> nat \<Rightarrow> nat \<Rightarrow> config_t \<Rightarrow> config_t res" where
  "configure_self entry dpu_idx local_host_uid c0 =
     (let c = c0\<lparr>cfg_local_sp_host_uid := local_host_uid\<rparr> in
      bindE (if cfg_local_sp_global_id c = UINT64_MAX
             then bindE (assertE (cfg_local_sp_local_id c = 0)) (\<lambda>_. Inr (c\<lparr>cfg_local_sp_global_id := dpu_idx\<rparr>))
             else Inr c) (\<lambda>c1.
      bindE (assertE (cfg_local_sp_local_id c1 \<noteq> UINT64_MAX \<and> cfg_local_sp_global_id c1 \<noteq> UINT64_MAX
               \<and> cfg_num_service_procs_per_dpu c1 \<noteq> 0 \<and> cfg_num_service_procs_per_dpu c1 \<noteq> UINT64_MAX)) (\<lambda>_.
      let gid = cfg_local_sp_global_id c1;
          c2 = c1\<lparr>cf_service_proc_found := (if gid < cfg_num_service_procs_per_dpu c1 * (dpu_idx + 1) then True
                                           else cf_service_proc_found c1),
                  cf_inter_id := Some gid, cf_host_id := Some gid\<rparr> in
      bindE (port_at (cfg_local_sp_local_id c2) (dc_interdpu_ports entry)) (\<lambda>intersp_port.
      bindE (port_at (cfg_local_sp_local_id c2) (dc_host_ports entry)) (\<lambda>host_port.
      bindE (assertE (cf_dpu c2 \<le> cf_engine_num_dpus c2)) (\<lambda>_.
      Inr (c2\<lparr>cf_inter_conn_params := \<lparr>cp_addr_str = dc_addr entry, cp_port = intersp_port\<rparr>,
              cf_host_conn_params := \<lparr>cp_addr_str = dc_addr entry, cp_port = host_port\<rparr>,
              cf_engine_sps := arr_put gid zero_sp_conf
                ((arr_get gid zero_sp_conf (cf_engine_sps c2))\<lparr>sc_ep := cf_self_ep c2\<rparr>) (cf_engine_sps c2)\<rparr>)))))))"

text \<open>An entry of a line whose DPU is used by the job; \<open>last\<close> is the hash of the previous DPU of the line that
  is.  The result is whether parsing goes on, and whether the entry is that of the process.\<close>

definition parse_target ::
    "string \<Rightarrow> string \<Rightarrow> nat \<Rightarrow> nat \<Rightarrow> config_t \<Rightarrow> (bool \<times> bool \<times> nat \<times> config_t) res" where
  "parse_target host token i last_host c =
     (let entry = arr_get i zero_dpu_config (cf_dpus_config c) in
      bindE (derefE (dc_hostname entry)) (\<lambda>dpu_name.
      let target_host = host_uid_of dpu_name;
          c1 = (if target_host \<noteq> last_host then (add_host host c)\<lparr>cfg_num_hosts := Suc (cfg_num_hosts c)\<rparr> else c) in
      bindE (find_dpu_info dpu_name (cf_engine_dpus c1) [0..<cf_num_dpus c1]) (\<lambda>d.
      case d of
        None \<Rightarrow> Inr (False, False, target_host, c1)
      | Some d \<Rightarrow>
          let dpu = arr_get d zero_dpu_info (cf_engine_dpus c1) in
          bindE (parse_dpu_cfg token entry) (\<lambda>(ok, entry1).
          let c2 = c1\<lparr>cf_dpus_config := arr_put i zero_dpu_config entry1 (cf_dpus_config c1)\<rparr> in
          if \<not> ok then Inr (False, False, target_host, c2) else
          let c3 = (if cfg_num_service_procs_per_dpu c2 = 1
                       \<and> dc_num_interdpu_ports entry1 \<noteq> cfg_num_service_procs_per_dpu c2
                    then c2\<lparr>cfg_num_service_procs_per_dpu := dc_num_interdpu_ports entry1\<rparr> else c2) in
          bindE (assertE (dc_addr entry1 \<noteq> None)) (\<lambda>_.
          bindE (foldE (configure_sp entry1 dpu) [0..<cfg_num_service_procs_per_dpu c3] c3) (\<lambda>c4.
          if strncmp0 (cf_hostname c4) dpu_name (length dpu_name)
          then bindE (configure_self entry1 i (host_uid_of host) c4) (\<lambda>c5. Inr (True, True, target_host, c5))
          else Inr (True, False, target_host, c4)))))))"

primrec parse_tokens :: "string \<Rightarrow> string list \<Rightarrow> bool \<Rightarrow> nat \<Rightarrow> config_t \<Rightarrow> (bool \<times> config_t) res" where
  "parse_tokens host [] rc last_host c = Inr (rc, c)"
| "parse_tokens host (t # ts) rc last_host c =
     bindE (find_dpu_entry t (cf_dpus_config c) [0..<cf_num_dpus c]) (\<lambda>r.
     case r of
       None \<Rightarrow> parse_tokens host ts rc last_host c
     | Some i \<Rightarrow>
         bindE (parse_target host t i last_host c) (\<lambda>(go_on, self, last1, c1).
         if \<not> go_on then Inr (False, c1) else parse_tokens host ts (rc \<or> self) last1 c1))"

definition parse_line_dpu_version_1 :: "string \<Rightarrow> config_t \<Rightarrow> (bool \<times> config_t) res" where
  "parse_line_dpu_version_1 line c =
     (case tokens (CHR '','') line of
        [] \<Rightarrow> Inl Null_deref
      | host # ts \<Rightarrow> bindE (assertE (ts \<noteq> [])) (\<lambda>_. parse_tokens host ts False UINT64_MAX c))"

definition parse_line_for_dpu_cfg :: "string \<Rightarrow> config_t \<Rightarrow> (bool \<times> config_t) res" where
  "parse_line_for_dpu_cfg line c =
     (if cf_format_version c = 1 then parse_line_dpu_version_1 line c else Inr (False, c))"

text \<open>A C string ends at the first zero.\<close>

definition cstr :: "string \<Rightarrow> string" where
  "cstr s = takeWhile (\<lambda>c. (of_char c :: nat) \<noteq> 0) s"

definition newline :: char where "newline = CHR 0x0A"

definition find_dpu_config_from_platform_configfile ::
    "(string \<Rightarrow> string option) \<Rightarrow> string \<Rightarrow> config_t \<Rightarrow> (dpu_offload_status_t \<times> config_t) res" where
  "find_dpu_config_from_platform_configfile fs filepath c =
     bindE (assertE (fs filepath \<noteq> None)) (\<lambda>_.
     let content = the (fs filepath) in
     bindE (assertE (content \<noteq> [])) (\<lambda>_.
     case tokens newline (cstr content) of
       [] \<Rightarrow> Inl Null_deref
     | l # ls \<Rightarrow>
         let (rc, c1) = check_config_file_version l c in
         if rc \<noteq> DO_SUCCESS \<or> cf_format_version c1 \<le> 0 then Inr (rc, c1) else
         bindE (foldE (\<lambda>l' c'. if line_is_comment l' then Inr c'
                              else bindE (parse_line_for_dpu_cfg l' c') (\<lambda>(b, c''). Inr c'')) ls c1) (\<lambda>c2.
         Inr (DO_SUCCESS, c2))))"

section \<open>Lines on a host\<close>

definition add_host_to_config :: "string \<Rightarrow> config_t \<Rightarrow> config_t" where
  "add_host_to_config hostname c = add_host hostname c"

text \<open>All the DPUs of the host are parsed into the first entry.  A status returned as a truth value is true.\<close>

primrec parse_host_dpus :: "string list \<Rightarrow> config_t \<Rightarrow> (bool \<times> config_t) res" where
  "parse_host_dpus [] c = Inr (True, c)"
| "parse_host_dpus (t # ts) c =
     bindE (parse_dpu_cfg t (arr_get 0 zero_dpu_config (cf_dpus_config c))) (\<lambda>(ok, en).
     let c1 = c\<lparr>cf_dpus_config := arr_put 0 zero_dpu_config en (cf_dpus_config c)\<rparr> in
     if \<not> ok then Inr (False, c1) else
     parse_host_dpus ts (c1\<lparr>cf_num_dpus := Suc (cf_num_dpus c1), cf_num_dpus_per_host := Suc (cf_num_dpus_per_host c1)\<rparr>))"

definition parse_line_version_1 :: "string \<Rightarrow> string \<Rightarrow> config_t \<Rightarrow> (bool \<times> config_t) res" where
  "parse_line_version_1 target_hostname line c =
     (case tokens (CHR '','') line of
        [] \<Rightarrow> Inl Null_deref
      | t # ts \<Rightarrow>
          let c1 = add_host_to_config t c in
          if strncmp0 t target_hostname (length t) then
            bindE (parse_host_dpus ts c1) (\<lambda>(ok, c2).
            Inr (True, if ok then c2\<lparr>cf_host_index := cfg_num_hosts c2\<rparr> else c2))
          else Inr (False, c1))"

definition parse_line :: "string \<Rightarrow> string \<Rightarrow> config_t \<Rightarrow> (bool \<times> config_t) res" where
  "parse_line target_hostname line c =
     (if cf_format_version c = 1 then parse_line_version_1 target_hostname line c else Inr (False, c))"

text \<open>The lines \<open>getline\<close> returns, with their newlines.\<close>

function getlines :: "string \<Rightarrow> string list" where
  "getlines s =
     (if s = [] then []
      else let l = takeWhile (\<lambda>c. c \<noteq> newline) s; r = dropWhile (\<lambda>c. c \<noteq> newline) s in
           (l @ take 1 r) # getlines (drop 1 r))"
  by auto
termination
proof (relation "measure length")
  fix s :: string and l r
  assume s: "s \<noteq> []" and r: "r = dropWhile (\<lambda>c. c \<noteq> newline) s"
  have "length r \<le> length s" "0 < length s"
    using r s by (simp_all add: length_dropWhile_le)
  then show "(drop 1 r, s) \<in> measure length"
    unfolding in_measure length_drop by linarith
qed simp

definition find_config_from_platform_configfile ::
    "(string \<Rightarrow> string option) \<Rightarrow> string \<Rightarrow> string \<Rightarrow> config_t \<Rightarrow> (dpu_offload_status_t \<times> config_t) res" where
  "find_config_from_platform_configfile fs filepath hostname c =
     bindE (assertE (fs filepath \<noteq> None)) (\<lambda>_.
     let lines = map cstr (getlines (the (fs filepath)));
         (rc, c1) = (if lines = [] then (DO_SUCCESS, c) else check_config_file_version (hd lines) c) in
     if lines \<noteq> [] \<and> (rc \<noteq> DO_SUCCESS \<or> cf_format_version c1 \<le> 0) then Inr (rc, c1) else
     bindE (foldE (\<lambda>l c'. if line_is_comment l then Inr c'
                         else bindE (parse_line hostname l c') (\<lambda>(b, c''). Inr (c''\<lparr>cfg_num_hosts := Suc (cfg_num_hosts c'')\<rparr>)))
              (tl lines) c1) (\<lambda>c2.
     let c3 = (if cfg_num_service_procs_per_dpu c2 = 0
               then c2\<lparr>cfg_num_service_procs_per_dpu := dc_num_host_ports (arr_get 0 zero_dpu_config (cf_dpus_config c2))\<rparr>
               else c2);
         c4 = (if cf_dpu c3 = UINT64_MAX
               then c3\<lparr>cf_dpu := (cf_num_dpus c3 + UINT64_MAX + cf_host_index c3 * cf_num_dpus_per_host c3) mod 2 ^ 64\<rparr>
               else c3) in
     Inr (DO_SUCCESS, c4)))"

section \<open>Environment\<close>

definition SERVER_PORT_ENVVAR :: string where "SERVER_PORT_ENVVAR = ''DPU_OFFLOAD_SERVER_PORT''"

definition SERVER_IP_ADDR_ENVVAR :: string where "SERVER_IP_ADDR_ENVVAR = ''DPU_OFFLOAD_SERVER_ADDR''"

definition get_env_config :: "(string \<Rightarrow> string option) \<Rightarrow> conn_params_t \<Rightarrow> dpu_offload_status_t \<times> conn_params_t" where
  "get_env_config getenv params =
     (case getenv SERVER_IP_ADDR_ENVVAR of
        None \<Rightarrow> (DO_ERROR, params)
      | Some addr \<Rightarrow>
          (case getenv SERVER_PORT_ENVVAR of
             None \<Rightarrow> (DO_ERROR, params)
           | Some p \<Rightarrow> (DO_SUCCESS, params\<lparr>cp_addr_str := Some addr, cp_port := atoi p mod 2 ^ 16\<rparr>)))"

definition CACHE_IS_PERSISTENT :: int where "CACHE_IS_PERSISTENT = 1"

text \<open>The setting \<open>persistent_endpoint_cache\<close> of the engine, a truth value.\<close>

definition engine_get_env_config :: "(string \<Rightarrow> string option) \<Rightarrow> bool" where
  "engine_get_env_config getenv =
     (case getenv ''MIMOSA_PERSISTENT_CACHE'' of None \<Rightarrow> CACHE_IS_PERSISTENT \<noteq> 0 | Some s \<Rightarrow> atoi s \<noteq> 0)"

definition OFFLOAD_CONFIG_FILE_PATH_ENVVAR :: string where
  "OFFLOAD_CONFIG_FILE_PATH_ENVVAR = ''OFFLOAD_CONFIG_FILE_PATH''"

definition DPU_OFFLOAD_CONFIG_FILE_PATH_ENVVAR :: string where
  "DPU_OFFLOAD_CONFIG_FILE_PATH_ENVVAR = ''DPU_OFFLOAD_CONFIG_FILE_PATH''"

definition INTER_DPU_ADDR_ENVVAR :: string where "INTER_DPU_ADDR_ENVVAR = ''INTER_DPU_CONN_ADDR''"

definition INTER_DPU_PORT_ENVVAR :: string where "INTER_DPU_PORT_ENVVAR = ''INTER_DPU_CONN_PORT''"

definition DEFAULT_INTER_DPU_CONNECT_PORT :: int where "DEFAULT_INTER_DPU_CONNECT_PORT = 11111"

definition default_config_file :: "(string \<Rightarrow> string option) \<Rightarrow> config_t \<Rightarrow> config_t" where
  "default_config_file getenv c =
     (if cf_config_file c = None
      then c\<lparr>cf_config_file := (case getenv OFFLOAD_CONFIG_FILE_PATH_ENVVAR of
                                 None \<Rightarrow> getenv DPU_OFFLOAD_CONFIG_FILE_PATH_ENVVAR | Some f \<Rightarrow> Some f)\<rparr>
      else c)"

text \<open>Without configuration file the parameters come from the environment.\<close>

definition config_from_env :: "(string \<Rightarrow> string option) \<Rightarrow> config_t \<Rightarrow> (dpu_offload_status_t \<times> config_t) res" where
  "config_from_env getenv c =
     (case getenv INTER_DPU_ADDR_ENVVAR of
        None \<Rightarrow> Inr (DO_ERROR, c\<lparr>cf_inter_conn_params := (cf_inter_conn_params c)\<lparr>cp_addr_str := None\<rparr>\<rparr>)
      | Some addr \<Rightarrow>
          Inr (DO_SUCCESS, c\<lparr>cf_inter_conn_params :=
            \<lparr>cp_addr_str = Some addr,
             cp_port = (case getenv INTER_DPU_PORT_ENVVAR of None \<Rightarrow> DEFAULT_INTER_DPU_CONNECT_PORT | Some p \<Rightarrow> atoi p)\<rparr>\<rparr>))"

definition get_host_config ::
    "(string \<Rightarrow> string option) \<Rightarrow> (string \<Rightarrow> string option) \<Rightarrow> string \<Rightarrow> config_t \<Rightarrow> (dpu_offload_status_t \<times> config_t) res" where
  "get_host_config getenv fs hostname c0 =
     bindE (assertE (cfg_num_hosts c0 = 0)) (\<lambda>_.
     let c = (default_config_file getenv c0)\<lparr>cf_list_dpus := None, cf_inter_id := None, cf_host_id := None\<rparr> in
     case cf_config_file c of
       None \<Rightarrow> config_from_env getenv c
     | Some f \<Rightarrow>
         bindE (find_config_from_platform_configfile fs f hostname c) (\<lambda>(rc, c1).
         if rc \<noteq> DO_SUCCESS then Inr (DO_ERROR, c1) else
         bindE (assertE (0 < cfg_num_service_procs_per_dpu c1 \<and> cfg_num_service_procs_per_dpu c1 \<noteq> UINT64_MAX)) (\<lambda>_.
         Inr (DO_SUCCESS, c1))))"

text \<open>The service process a rank connects to.\<close>

definition get_local_service_proc_connect_info ::
    "rank_info_t \<Rightarrow> config_t \<Rightarrow> (conn_params_t \<times> nat \<times> config_t) res" where
  "get_local_service_proc_connect_info ri c =
     bindE (assertE (cfg_num_service_procs_per_dpu c \<noteq> UINT64_MAX \<and> cf_dpu c \<noteq> UINT64_MAX
              \<and> 0 < cfg_num_service_procs_per_dpu c)) (\<lambda>_.
     let per = cfg_num_service_procs_per_dpu c;
         lid = (if ri_local_rank ri \<noteq> INVALID_RANK then nat (ri_local_rank ri mod 2 ^ 64) mod per else 0);
         en = arr_get 0 zero_dpu_config (cf_dpus_config c) in
     bindE (assertE (dc_addr en \<noteq> None)) (\<lambda>_.
     Inr (\<lparr>cp_addr_str = dc_addr en, cp_port = arr_get lid 0 (dc_host_ports en)\<rparr>, per,
          c\<lparr>cfg_local_sp_local_id := lid\<rparr>)))"

end
