(* ===== verification/Inter_Dpus.thy ===== *)
theory Inter_Dpus
imports Config_File
begin

text \<open>
  How the service processes of a job connect to each other (\<open>src/src/inter_dpus_comm.c\<close>): from the list of DPUs
  every service process computes which ones it connects to and how many connect to it.
\<close>

section \<open>The list of DPUs\<close>

text \<open>The service processes of a DPU, in the list of the engine and in that of the DPU.\<close>

definition add_local_sp ::
    "nat \<Rightarrow> nat \<Rightarrow> remote_dpu_info_t \<times> sp_conf_t list \<Rightarrow> (remote_dpu_info_t \<times> sp_conf_t list) res" where
  "add_local_sp per_dpu sp_index = (\<lambda>(dpu, sps).
     let sp_gid = rd_idx dpu * per_dpu + sp_index;
         sp = arr_get sp_gid zero_sp_conf sps in
     Inr (dpu\<lparr>rd_local_service_procs := arr_put sp_index 0 sp_gid (rd_local_service_procs dpu)\<rparr>,
          arr_put sp_gid zero_sp_conf
            (sp\<lparr>sc_idx := sp_gid, sc_dpu_idx := rd_idx dpu, sc_conn_params := Some RESET_CONN_PARAMS,
                sc_local_id := sp_index, sc_global_id := sp_gid\<rparr>) sps))"

definition add_local_sps_to_dpu_config ::
    "nat \<Rightarrow> remote_dpu_info_t \<Rightarrow> sp_conf_t list \<Rightarrow> (remote_dpu_info_t \<times> sp_conf_t list) res" where
  "add_local_sps_to_dpu_config per_dpu dpu sps =
     bindE (assertE (0 < per_dpu)) (\<lambda>_. foldE (add_local_sp per_dpu) [0..<per_dpu] (dpu, sps))"

definition SET_REMOTE_SP_TO_CONNECT_TO :: "nat \<Rightarrow> config_t \<Rightarrow> config_t" where
  "SET_REMOTE_SP_TO_CONNECT_TO sp_gid c = c\<lparr>cf_sps_connect_to := cf_sps_connect_to c @ [sp_gid]\<rparr>"

definition SET_SERVICE_PROC_TO_CONNECT_TO :: "remote_dpu_info_t \<Rightarrow> config_t \<Rightarrow> config_t" where
  "SET_SERVICE_PROC_TO_CONNECT_TO dpu c =
     (let c1 = fold (\<lambda>s. SET_REMOTE_SP_TO_CONNECT_TO (rd_idx dpu * cfg_num_service_procs_per_dpu c + s))
                 [0..<cfg_num_service_procs_per_dpu c] c in
      c1\<lparr>cf_connect_num_dpus := Suc (cf_connect_num_dpus c1)\<rparr>)"

text \<open>Identifiers and the number of service processes per DPU, from the environment.\<close>

definition set_ids_from_env :: "config_t \<Rightarrow> config_t res" where
  "set_ids_from_env c =
     (let c1 = (if cf_global_id_str c = None
                then c\<lparr>cfg_local_sp_global_id := UINT64_MAX, cfg_local_sp_local_id := 0, cfg_num_service_procs_per_dpu := 1\<rparr>
                else c) in
      bindE (case cf_global_id_str c1 of
               None \<Rightarrow> Inr c1
             | Some s \<Rightarrow> bindE (assertE (cf_local_id_str c1 \<noteq> None)) (\<lambda>_. Inr (c1\<lparr>cfg_local_sp_global_id := strtoull0 s\<rparr>))) (\<lambda>c2.
      bindE (case cf_local_id_str c2 of
               None \<Rightarrow> Inr c2
             | Some s \<Rightarrow> bindE (assertE (cf_num_service_procs_per_dpu_str c2 \<noteq> None)) (\<lambda>_.
                        Inr (c2\<lparr>cfg_local_sp_local_id := strtoull0 s\<rparr>))) (\<lambda>c3.
      Inr (case cf_num_service_procs_per_dpu_str c3 of
             None \<Rightarrow> c3 | Some s \<Rightarrow> c3\<lparr>cfg_num_service_procs_per_dpu := strtoull0 s\<rparr>))))"

text \<open>The difference of two sizes wraps around.\<close>

definition size_sub :: "nat \<Rightarrow> nat \<Rightarrow> nat" where
  "size_sub a b = (a + 2 ^ 64 - b mod 2 ^ 64) mod 2 ^ 64"

text \<open>A token of the list; the state is whether the DPU of the process was not met yet, the number of service
  processes that will connect to it, and the configuration.\<close>

definition parse_dpu_token :: "string \<Rightarrow> bool \<times> nat \<times> config_t \<Rightarrow> (bool \<times> nat \<times> config_t) res" where
  "parse_dpu_token token = (\<lambda>(pre, n_from, c).
     let n = cf_num_dpus c; per_dpu = cfg_num_service_procs_per_dpu c;
         dpu_config = (arr_get n zero_dpu_config (cf_dpus_config c))\<lparr>dc_hostname := Some token\<rparr>;
         d_info = (arr_get n zero_dpu_info (cf_engine_dpus c))
                    \<lparr>rd_local_service_procs := [], rd_hostname := Some token, rd_idx := n\<rparr> in
     bindE (add_local_sps_to_dpu_config per_dpu d_info (cf_engine_sps c)) (\<lambda>(d1, sps).
     let c1 = c\<lparr>cf_dpus_config := arr_put n zero_dpu_config dpu_config (cf_dpus_config c), cf_engine_sps := sps,
                cf_num_dpus := Suc n\<rparr>;
         put_dpu = (\<lambda>d c'. c'\<lparr>cf_engine_dpus := arr_put n zero_dpu_info d (cf_engine_dpus c')\<rparr>) in
     if strncmp0 token (cf_hostname c) (length token) then
       let c2 = c1\<lparr>cf_dpu := n,
                  cfg_local_sp_global_id := (if cfg_local_sp_global_id c1 = UINT64_MAX then n else cfg_local_sp_global_id c1)\<rparr>;
           n_to = size_sub (size_sub per_dpu (cfg_local_sp_local_id c2)) 1 in
       Inr (False, n_from + cfg_local_sp_local_id c2,
            put_dpu (d1\<lparr>rd_idx := n, rd_hostname := Some (cf_hostname c)\<rparr>)
              (fold (\<lambda>s. SET_REMOTE_SP_TO_CONNECT_TO (cfg_local_sp_global_id c2 + s + 1)) [0..<n_to] c2))
     else if pre then Inr (pre, n_from + per_dpu, put_dpu d1 c1)
     else Inr (pre, n_from, put_dpu d1 (SET_SERVICE_PROC_TO_CONNECT_TO d1 c1))))"

definition dpu_offload_parse_list_dpus :: "config_t \<Rightarrow> (dpu_offload_status_t \<times> config_t) res" where
  "dpu_offload_parse_list_dpus c =
     bindE (set_ids_from_env c) (\<lambda>c1.
     bindE (derefE (cf_list_dpus c1)) (\<lambda>l.
     bindE (foldE parse_dpu_token (tokens (CHR '','') l) (True, 0, c1)) (\<lambda>(pre, n_from, c2).
     let total = cf_num_dpus c2 * cfg_num_service_procs_per_dpu c2 in
     Inr (DO_SUCCESS, c2\<lparr>cf_num_connecting_service_procs := (if pre then 0 else n_from), cf_engine_num_dpus := cf_num_dpus c2,
            cf_engine_num_service_procs := total, cf_num_service_procs := total\<rparr>))))"

definition LIST_DPUS_ENVVAR :: string where "LIST_DPUS_ENVVAR = ''DPU_OFFLOAD_LIST_DPUS''"

definition DPU_OFFLOAD_SERVICE_PROCESS_LOCAL_ID_ENVVAR :: string where
  "DPU_OFFLOAD_SERVICE_PROCESS_LOCAL_ID_ENVVAR = ''DPU_OFFLOAD_SERVICE_PROCESS_LOCAL_ID''"

definition DPU_OFFLOAD_SERVICE_PROCESS_GLOBAL_ID_ENVVAR :: string where
  "DPU_OFFLOAD_SERVICE_PROCESS_GLOBAL_ID_ENVVAR = ''DPU_OFFLOAD_SERVICE_PROCESS_GLOBAL_ID''"

definition DPU_OFFLOAD_SERVICE_PROCESSES_PER_DPU_ENVVAR :: string where
  "DPU_OFFLOAD_SERVICE_PROCESSES_PER_DPU_ENVVAR = ''DPU_OFFLOAD_SERVICE_PROCESSES_PER_DPU''"

definition get_dpu_config ::
    "(string \<Rightarrow> string option) \<Rightarrow> (string \<Rightarrow> string option) \<Rightarrow> string \<Rightarrow> config_t \<Rightarrow> (dpu_offload_status_t \<times> config_t) res" where
  "get_dpu_config getenv fs hostname c0 =
     (let c = (default_config_file getenv c0)\<lparr>cf_hostname := hostname, cf_list_dpus := getenv LIST_DPUS_ENVVAR\<rparr> in
      if cf_list_dpus c = None then Inr (DO_ERROR, c) else
      let c1 = c\<lparr>cf_local_id_str := getenv DPU_OFFLOAD_SERVICE_PROCESS_LOCAL_ID_ENVVAR,
                 cf_num_service_procs_per_dpu_str := getenv DPU_OFFLOAD_SERVICE_PROCESSES_PER_DPU_ENVVAR,
                 cf_global_id_str := getenv DPU_OFFLOAD_SERVICE_PROCESS_GLOBAL_ID_ENVVAR\<rparr> in
      bindE (dpu_offload_parse_list_dpus c1) (\<lambda>(rc, c2).
      if rc = DO_ERROR then Inr (DO_ERROR, c2) else
      bindE (if cfg_num_service_procs_per_dpu c2 = 1 then Inr (c2\<lparr>cf_num_service_procs := cf_num_dpus c2\<rparr>)
             else bindE (assertE (0 < cfg_num_service_procs_per_dpu c2 \<and> cf_num_service_procs c2 \<noteq> UINT64_MAX)) (\<lambda>_.
                  Inr (c2\<lparr>cf_num_service_procs := cf_num_dpus c2 * cfg_num_service_procs_per_dpu c2\<rparr>))) (\<lambda>c3.
      bindE (case cf_config_file c3 of
               Some f \<Rightarrow> find_dpu_config_from_platform_configfile fs f c3
             | None \<Rightarrow> config_from_env getenv c3) (\<lambda>(rc, c4).
      if rc \<noteq> DO_SUCCESS then Inr (DO_ERROR, c4) else
      bindE (assertE (0 < cp_port (cf_inter_conn_params c4) \<and> 0 < cp_port (cf_host_conn_params c4))) (\<lambda>_.
      Inr (DO_SUCCESS, c4))))))"

section \<open>Connecting to a service process\<close>

text \<open>The parameters \<open>connect_to_remote_service_proc\<close> hands to \<open>client_init\<close>: the address of the service process
  and the port of the configuration.\<close>

definition prepare_connection :: "nat \<Rightarrow> config_t \<Rightarrow> (conn_params_t \<times> config_t) res" where
  "prepare_connection target_sp_gid c =
     (let sp = arr_get target_sp_gid zero_sp_conf (cf_engine_sps c);
          dpu = arr_get (sc_dpu_idx sp) zero_dpu_info (cf_engine_dpus c) in
      bindE (assertE (sc_global_id sp \<noteq> UINT64_MAX)) (\<lambda>_.
      bindE (derefE (sc_conn_params sp)) (\<lambda>conn.
      bindE (assertE (cp_addr_str conn \<noteq> None \<and> cp_port conn \<noteq> - 1 \<and> rd_hostname dpu \<noteq> None
               \<and> cfg_local_sp_global_id c \<noteq> UINT64_MAX)) (\<lambda>_.
      let port = scf_intersp_port (arr_get (sc_global_id sp) zero_sp_config (cf_sps_config c)) in
      bindE (assertE (0 < port)) (\<lambda>_.
      let conn1 = conn\<lparr>cp_port := port\<rparr> in
      Inr (conn1, c\<lparr>cf_engine_sps := arr_put target_sp_gid zero_sp_conf (sp\<lparr>sc_conn_params := Some conn1\<rparr>) (cf_engine_sps c)\<rparr>))))))"

end
