(* ===== verification/Inter_Dpus_Mesh.thy ===== *)
theory Inter_Dpus_Mesh
imports Inter_Dpus
begin

text \<open>
  The service processes of a job form a mesh: from the list of DPUs every service process computes the
  connections a reference definition gives, so that each two of them are connected exactly once.
\<close>

section \<open>The service processes of a DPU\<close>

definition mesh_sp :: "nat \<Rightarrow> nat \<Rightarrow> sp_conf_t" where
  "mesh_sp per g = \<lparr>sc_idx = g, sc_dpu_idx = g div per, sc_local_id = g mod per, sc_global_id = g,
     sc_conn_params = Some RESET_CONN_PARAMS, sc_ep = None\<rparr>"

definition mesh_dpu :: "nat \<Rightarrow> string list \<Rightarrow> nat \<Rightarrow> remote_dpu_info_t" where
  "mesh_dpu per hs i = \<lparr>rd_idx = i, rd_hostname = Some (hs ! i), rd_local_service_procs = [i * per..<Suc i * per]\<rparr>"

lemma add_local_sps_fold:
  assumes "m \<le> per" "0 < per"
  shows "foldE (add_local_sp per) [0..<m] (d\<lparr>rd_local_service_procs := [], rd_idx := i\<rparr>, map (mesh_sp per) [0..<i * per])
         = Inr (d\<lparr>rd_local_service_procs := [i * per..<i * per + m], rd_idx := i\<rparr>, map (mesh_sp per) [0..<i * per + m])"
  using assms(1)
proof (induction m)
  case 0
  then show ?case by simp
next
  case (Suc m)
  have l: "arr_put m 0 (i * per + m) [i * per..<i * per + m] = [i * per..<Suc (i * per + m)]"
    using arr_put_end[of "[i * per..<i * per + m]" 0 "i * per + m"] by simp
  have s: "arr_put (i * per + m) zero_sp_conf (mesh_sp per (i * per + m)) (map (mesh_sp per) [0..<i * per + m])
      = map (mesh_sp per) [0..<Suc (i * per + m)]"
    using arr_put_end[of "map (mesh_sp per) [0..<i * per + m]" zero_sp_conf "mesh_sp per (i * per + m)"] by simp
  have z: "zero_sp_conf\<lparr>sc_idx := i * per + m, sc_dpu_idx := i, sc_conn_params := Some RESET_CONN_PARAMS,
      sc_local_id := m, sc_global_id := i * per + m\<rparr> = mesh_sp per (i * per + m)"
    using Suc.prems assms(2) by (simp add: zero_sp_conf_def mesh_sp_def)
  have "add_local_sp per m (d\<lparr>rd_local_service_procs := [i * per..<i * per + m], rd_idx := i\<rparr>,
      map (mesh_sp per) [0..<i * per + m])
    = Inr (d\<lparr>rd_local_service_procs := [i * per..<i * per + Suc m], rd_idx := i\<rparr>, map (mesh_sp per) [0..<i * per + Suc m])"
    by (simp add: add_local_sp_def Let_def arr_get_def l s z del: upt_Suc)
  with Suc upt_Suc_append[of 0 m] show ?case
    by (simp add: foldE_append del: upt_Suc)
qed

lemma add_local_sps:
  assumes "0 < per"
  shows "add_local_sps_to_dpu_config per (d\<lparr>rd_local_service_procs := [], rd_hostname := Some (hs ! i), rd_idx := i\<rparr>)
           (map (mesh_sp per) [0..<i * per])
         = Inr (mesh_dpu per hs i, map (mesh_sp per) [0..<Suc i * per])"
proof -
  have "d\<lparr>rd_local_service_procs := [], rd_hostname := Some (hs ! i), rd_idx := i\<rparr>
      = d\<lparr>rd_hostname := Some (hs ! i)\<rparr>\<lparr>rd_local_service_procs := [], rd_idx := i\<rparr>"
    by (cases d) simp
  note eq = this
  from add_local_sps_fold[OF order_refl assms, where d = "d\<lparr>rd_hostname := Some (hs ! i)\<rparr>" and i = i] assms show ?thesis
    unfolding eq by (simp add: add_local_sps_to_dpu_config_def mesh_dpu_def add.commute)
qed

section \<open>The loop over the DPUs\<close>

text \<open>The reference: service process \<open>g\<close> connects to all those after it, and those before it connect to it.\<close>

definition named_dpu :: "string \<Rightarrow> dpu_config_data_t" where
  "named_dpu h = zero_dpu_config\<lparr>dc_hostname := Some h\<rparr>"

text \<open>The configuration after the first \<open>m\<close> DPUs, on the service process \<open>g\<close>.\<close>

definition mesh_config :: "string list \<Rightarrow> nat \<Rightarrow> nat \<Rightarrow> nat \<Rightarrow> config_t \<Rightarrow> config_t" where
  "mesh_config hs per g m c =
     c\<lparr>cf_num_dpus := m, cf_dpus_config := map named_dpu (take m hs), cf_engine_sps := map (mesh_sp per) [0..<m * per],
       cf_engine_dpus := map (mesh_dpu per hs) [0..<m], cf_sps_connect_to := [Suc g..<m * per],
       cf_connect_num_dpus := m - Suc (g div per), cf_dpu := (if g div per < m then g div per else cf_dpu c)\<rparr>"

definition reference_config :: "string list \<Rightarrow> nat \<Rightarrow> nat \<Rightarrow> config_t \<Rightarrow> config_t" where
  "reference_config hs per g c =
     (mesh_config hs per g (length hs) c)
       \<lparr>cf_num_connecting_service_procs := g, cf_engine_num_dpus := length hs,
        cf_engine_num_service_procs := length hs * per, cf_num_service_procs := length hs * per\<rparr>"

lemma connect_fold:
  "fold (\<lambda>s. SET_REMOTE_SP_TO_CONNECT_TO (f s)) xs c = c\<lparr>cf_sps_connect_to := cf_sps_connect_to c @ map f xs\<rparr>"
  by (induction xs arbitrary: c) (simp_all add: SET_REMOTE_SP_TO_CONNECT_TO_def)

lemma map_plus_upt: "map (\<lambda>s. n + s) [0..<k] = [n..<n + k]"
  by (induction k) auto

lemma upt_append: "a \<le> b \<Longrightarrow> b \<le> c \<Longrightarrow> [a..<b] @ [b..<c] = [a..<c]"
  using upt_add_eq_append[of a b "c - b"] by simp

lemma size_sub_nowrap: "b \<le> a \<Longrightarrow> a < 2 ^ 64 \<Longrightarrow> size_sub a b = a - b"
proof -
  assume "b \<le> a" "a < 2 ^ 64"
  then have "a + 2 ^ 64 - b mod 2 ^ 64 = (a - b) + 2 ^ 64"
    by simp
  with \<open>a < 2 ^ 64\<close> show ?thesis
    by (simp add: size_sub_def)
qed

text \<open>What is known on service process \<open>g\<close>: only the name of its own DPU starts the name of its host.\<close>

definition job_of :: "string list \<Rightarrow> nat \<Rightarrow> nat \<Rightarrow> config_t \<Rightarrow> bool" where
  "job_of hs per g c =
     (0 < per \<and> g < length hs * per \<and> length hs * per < 2 ^ 64 - 1
      \<and> (\<forall>i < length hs. strncmp0 (hs ! i) (cf_hostname c) (length (hs ! i)) \<longleftrightarrow> i = g div per)
      \<and> cf_hostname c = hs ! (g div per)
      \<and> cfg_num_service_procs_per_dpu c = per \<and> cfg_local_sp_global_id c = g \<and> cfg_local_sp_local_id c = g mod per
      \<and> cf_num_dpus c = 0 \<and> cf_dpus_config c = [] \<and> cf_engine_sps c = [] \<and> cf_engine_dpus c = []
      \<and> cf_sps_connect_to c = [] \<and> cf_connect_num_dpus c = 0)"

lemma parse_dpu_token_step:
  assumes job: "job_of hs per g c" and m: "m < length hs"
  shows "parse_dpu_token (hs ! m) (m \<le> g div per, if m \<le> g div per then m * per else g, mesh_config hs per g m c)
         = Inr (Suc m \<le> g div per, if Suc m \<le> g div per then Suc m * per else g, mesh_config hs per g (Suc m) c)"
proof -
  let ?k = "g div per" and ?c = "mesh_config hs per g m c"
  have j: "0 < per" "length hs * per < 2 ^ 64 - 1" "cfg_num_service_procs_per_dpu c = per"
      "cfg_local_sp_global_id c = g" "cfg_local_sp_local_id c = g mod per" "g < length hs * per"
      "cf_hostname c = hs ! ?k"
    using job[unfolded job_of_def] by blast+
  have own: "strncmp0 (hs ! m) (hs ! ?k) (length (hs ! m)) \<longleftrightarrow> m = ?k"
    using job[unfolded job_of_def] m by metis
  have g: "g = ?k * per + g mod per" "g mod per < per"
    using j(1) by simp_all
  have gu: "g \<noteq> UINT64_MAX"
    using j(2,6) by (simp add: UINT64_MAX_def)
  have l: "length (map named_dpu (take m hs)) = m" "length (map (mesh_dpu per hs) [0..<m]) = m"
    using m by simp_all
  have put: "arr_put m zero_dpu_config (named_dpu (hs ! m)) (map named_dpu (take m hs)) = map named_dpu (take (Suc m) hs)"
    using arr_put_end[of "map named_dpu (take m hs)" zero_dpu_config "named_dpu (hs ! m)"] m
    by (simp add: take_Suc_conv_app_nth)
  have putd: "arr_put m zero_dpu_info (mesh_dpu per hs m) (map (mesh_dpu per hs) [0..<m]) = map (mesh_dpu per hs) [0..<Suc m]"
    using arr_put_end[of "map (mesh_dpu per hs) [0..<m]" zero_dpu_info "mesh_dpu per hs m"] by simp
  have d: "(arr_get m zero_dpu_config (map named_dpu (take m hs)))\<lparr>dc_hostname := Some (hs ! m)\<rparr> = named_dpu (hs ! m)"
    using m by (simp add: arr_get_def named_dpu_def)
  have sps: "add_local_sps_to_dpu_config per
      ((arr_get m zero_dpu_info (map (mesh_dpu per hs) [0..<m]))
         \<lparr>rd_local_service_procs := [], rd_hostname := Some (hs ! m), rd_idx := m\<rparr>) (map (mesh_sp per) [0..<m * per])
      = Inr (mesh_dpu per hs m, map (mesh_sp per) [0..<Suc m * per])"
    using add_local_sps[OF j(1)] .
  have me: "(mesh_dpu per hs m)\<lparr>rd_idx := m, rd_hostname := Some (hs ! m)\<rparr> = mesh_dpu per hs m"
    by (simp add: mesh_dpu_def)
  consider "m < ?k" | "m = ?k" | "?k < m"
    by linarith
  then show ?thesis
  proof cases
    case 1
    then have "Suc m * per \<le> g"
      using g(1) mult_le_mono1[of "Suc m" ?k per] by linarith
    then have "[Suc g..<m * per] = []" "[Suc g..<Suc m * per] = []"
      by simp_all
    with 1 j own show ?thesis
      by (simp add: parse_dpu_token_def mesh_config_def Let_def sps d del: upt_Suc mult_Suc)
         (simp add: put putd del: upt_Suc)
  next
    case 2
    have "per < 2 ^ 64"
      using j(2) m mult_le_mono1[of 1 "length hs" per] by linarith
    then have sub: "size_sub (size_sub per (g mod per)) 1 = per - g mod per - 1"
      using g(2) by (simp add: size_sub_nowrap)
    have g2: "g = m * per + g mod per"
      using g(1) unfolding 2 .
    have "m * per \<le> g"
      using g2 by linarith
    then have none: "[Suc g..<m * per] = []"
      by simp
    have "Suc g + (per - g mod per - 1) = Suc m * per"
      using g(2) g2 mult_Suc[of m per] by linarith
    then have "map (\<lambda>s. Suc g + s) [0..<per - g mod per - 1] = [Suc g..<Suc m * per]"
      by (simp only: map_plus_upt)
    moreover have "(\<lambda>s. g + s + 1) = (\<lambda>s. Suc g + s)"
      by auto
    ultimately have to: "map (\<lambda>s. g + s + 1) [0..<per - g mod per - 1] = [Suc g..<Suc m * per]"
      by simp
    have k: "?k = m" and own2: "strncmp0 (hs ! m) (hs ! m) (length (hs ! m))"
      using 2 own by simp_all
    have "parse_dpu_token (hs ! m) (True, m * per, ?c)
        = Inr (False, m * per + g mod per, mesh_config hs per g (Suc m) c)"
      using j[unfolded k] gu me own2
      by (simp add: parse_dpu_token_def mesh_config_def Let_def sps d connect_fold k sub[simplified] none to[simplified]
          del: upt_Suc mult_Suc upt_eq_Nil_conv)
         (rule config_t.equality, simp_all add: put putd del: upt_Suc)
    with g2 k show ?thesis
      by simp
  next
    case 3
    then have "g < m * per"
      using g mult_le_mono1[of "Suc ?k" m per] mult_Suc[of ?k per] by linarith
    then have "[Suc g..<m * per] @ [m * per..<Suc m * per] = [Suc g..<Suc m * per]"
      by (intro upt_append) simp_all
    moreover have "map (\<lambda>s. m * per + s) [0..<per] = [m * per..<Suc m * per]"
      using map_plus_upt[of "m * per" per] by (simp add: add.commute)
    moreover have "rd_idx (mesh_dpu per hs m) = m" "Suc (m - Suc ?k) = Suc m - Suc ?k"
      using 3 by (simp_all add: mesh_dpu_def)
    ultimately show ?thesis
      using 3 j own
      by (simp add: parse_dpu_token_def mesh_config_def Let_def sps d connect_fold SET_SERVICE_PROC_TO_CONNECT_TO_def
          del: upt_Suc mult_Suc)
         (simp add: put putd del: upt_Suc)
  qed
qed

lemma parse_dpu_tokens:
  assumes "job_of hs per g c" "m \<le> length hs"
  shows "foldE parse_dpu_token (take m hs) (True, 0, c)
         = Inr (m \<le> g div per, if m \<le> g div per then m * per else g, mesh_config hs per g m c)"
  using assms(2)
proof (induction m)
  case 0
  have "mesh_config hs per g 0 c = c"
    using assms(1) by (intro config_t.equality) (simp_all add: mesh_config_def job_of_def)
  then show ?case
    by simp
next
  case (Suc m)
  then show ?case
    using parse_dpu_token_step[OF assms(1), of m] by (simp add: take_Suc_conv_app_nth foldE_append)
qed

lemma all_less_two: "(\<forall>i < Suc (Suc 0). P i) \<longleftrightarrow> P 0 \<and> P (Suc 0)"
  by (auto simp: less_Suc_eq)

section \<open>The configuration of a service process\<close>

text \<open>Names of DPUs: none is the beginning of another.\<close>

definition job_names :: "string list \<Rightarrow> bool" where
  "job_names hs =
     ((\<forall>h \<in> set hs. h \<noteq> [] \<and> CHR '','' \<notin> set h \<and> CHR '':'' \<notin> set h)
      \<and> (\<forall>i < length hs. \<forall>j < length hs. take (length (hs ! i)) (hs ! j) = hs ! i \<longrightarrow> i = j))"

text \<open>What the environment gives service process \<open>g\<close>.\<close>

definition job_start :: "string list \<Rightarrow> nat \<Rightarrow> nat \<Rightarrow> config_t \<Rightarrow> config_t" where
  "job_start hs per g c =
     c\<lparr>cf_list_dpus := Some (join (CHR '','') hs), cf_hostname := hs ! (g div per),
       cf_global_id_str := Some (decimal g), cf_local_id_str := Some (decimal (g mod per)),
       cf_num_service_procs_per_dpu_str := Some (decimal per)\<rparr>"

definition job_ids :: "nat \<Rightarrow> nat \<Rightarrow> config_t \<Rightarrow> config_t" where
  "job_ids per g c = c\<lparr>cfg_local_sp_global_id := g, cfg_local_sp_local_id := g mod per, cfg_num_service_procs_per_dpu := per\<rparr>"

lemma job_start_ids:
  assumes "0 < per" "g < n * per" "n * per < 2 ^ 64 - 1"
  shows "set_ids_from_env (job_start hs per g c) = Inr (job_ids per g (job_start hs per g c))"
proof -
  have "0 < n"
    using assms(2) by (cases n) simp_all
  then have "per \<le> n * per"
    by simp
  then have "g < 2 ^ 64" "g mod per < 2 ^ 64" "per < 2 ^ 64"
    using assms mod_le_divisor[OF assms(1), of g] by linarith+
  then show ?thesis
    by (simp add: set_ids_from_env_def job_start_def job_ids_def strtoull0_decimal)
qed

lemma job_start_job:
  assumes "job_names hs" "0 < per" "g < length hs * per" "length hs * per < 2 ^ 64 - 1"
  shows "job_of hs per g (job_ids per g (job_start hs per g (INIT_DPU_CONFIG_DATA\<lparr>cf_config_file := f\<rparr>)))"
proof -
  have k: "g div per < length hs"
    using assms(2,3) by (simp add: less_mult_imp_div_less)
  have "strncmp0 (hs ! i) (hs ! (g div per)) (length (hs ! i)) \<longleftrightarrow> i = g div per" if "i < length hs" for i
    using that k assms(1) unfolding job_names_def strncmp0_prefix by auto
  with assms k show ?thesis
    unfolding job_of_def by (simp add: job_ids_def job_start_def INIT_DPU_CONFIG_DATA_def)
qed

lemma parse_list_dpus_job:
  assumes "job_names hs" "0 < per" "g < length hs * per" "length hs * per < 2 ^ 64 - 1"
  shows "dpu_offload_parse_list_dpus (job_start hs per g (INIT_DPU_CONFIG_DATA\<lparr>cf_config_file := f\<rparr>))
         = Inr (DO_SUCCESS, reference_config hs per g (job_ids per g (job_start hs per g (INIT_DPU_CONFIG_DATA\<lparr>cf_config_file := f\<rparr>))))"
proof -
  let ?c = "job_ids per g (job_start hs per g (INIT_DPU_CONFIG_DATA\<lparr>cf_config_file := f\<rparr>))"
  have "g div per < length hs"
    using assms(2,3) by (simp add: less_mult_imp_div_less)
  then have "foldE parse_dpu_token hs (True, 0, ?c) = Inr (False, g, mesh_config hs per g (length hs) ?c)"
    using parse_dpu_tokens[OF job_start_job[OF assms] order_refl] by simp
  moreover have "tokens (CHR '','') (join (CHR '','') hs) = hs"
    using assms(1) by (intro tokens_join) (simp add: job_names_def)
  moreover have "cf_list_dpus ?c = Some (join (CHR '','') hs)"
    by (simp add: job_ids_def job_start_def)
  moreover have "cfg_num_service_procs_per_dpu (mesh_config hs per g (length hs) ?c) = per"
    "cf_num_dpus (mesh_config hs per g (length hs) ?c) = length hs"
    by (simp_all add: mesh_config_def job_ids_def)
  ultimately show ?thesis
    by (simp add: dpu_offload_parse_list_dpus_def job_start_ids[OF assms(2-4)] reference_config_def Let_def)
qed

lemma init_no_file: "INIT_DPU_CONFIG_DATA\<lparr>cf_config_file := None\<rparr> = INIT_DPU_CONFIG_DATA"
  by (simp add: INIT_DPU_CONFIG_DATA_def)

lemmas parse_list_dpus_init = parse_list_dpus_job[where f = None, unfolded init_no_file]

text \<open>C27: On every service process of a job the parsed list of DPUs is the reference configuration: service
  process \<open>g\<close> runs on DPU \<open>g div per\<close> with local identifier \<open>g mod per\<close>, connects to exactly the service
  processes after it, in order, and expects a connection from each of the \<open>g\<close> before it.\<close>

theorem parse_list_dpus_reference:
  assumes "job_names hs" "0 < per" "g < length hs * per" "length hs * per < 2 ^ 64 - 1"
  shows "dpu_offload_parse_list_dpus (job_start hs per g INIT_DPU_CONFIG_DATA)
         = Inr (DO_SUCCESS, reference_config hs per g (job_ids per g (job_start hs per g INIT_DPU_CONFIG_DATA)))"
  by (rule parse_list_dpus_init[OF assms])

theorem parse_list_dpus_reference_witness:
  "dpu_offload_parse_list_dpus (job_start [''dpu1'', ''dpu2''] 2 1 INIT_DPU_CONFIG_DATA)
   = Inr (DO_SUCCESS, reference_config [''dpu1'', ''dpu2''] 2 1 (job_ids 2 1 (job_start [''dpu1'', ''dpu2''] 2 1 INIT_DPU_CONFIG_DATA)))"
proof (rule parse_list_dpus_reference)
  show "job_names [''dpu1'', ''dpu2'']"
    by (simp add: job_names_def all_less_two)
qed simp_all

section \<open>The connections of a job\<close>

text \<open>The service processes that service process \<open>g\<close> connects to, and how many it waits for.\<close>

definition connects_to :: "string list \<Rightarrow> nat \<Rightarrow> nat \<Rightarrow> nat list" where
  "connects_to hs per g =
     (case dpu_offload_parse_list_dpus (job_start hs per g INIT_DPU_CONFIG_DATA) of
        Inl _ \<Rightarrow> [] | Inr (rc, c) \<Rightarrow> cf_sps_connect_to c)"

definition waits_for :: "string list \<Rightarrow> nat \<Rightarrow> nat \<Rightarrow> nat" where
  "waits_for hs per g =
     (case dpu_offload_parse_list_dpus (job_start hs per g INIT_DPU_CONFIG_DATA) of
        Inl _ \<Rightarrow> 0 | Inr (rc, c) \<Rightarrow> cf_num_connecting_service_procs c)"

text \<open>C7: Each two service processes of a job are connected exactly once: one of them connects to the other, only
  once, and not the other way round; the number of connections a service process waits for is the number of
  those that connect to it.\<close>

theorem service_procs_form_a_mesh:
  assumes "job_names hs" "0 < per" "length hs * per < 2 ^ 64 - 1"
    and "i < length hs * per" "j < length hs * per" "i \<noteq> j"
  shows "(j \<in> set (connects_to hs per i)) = (i \<notin> set (connects_to hs per j))
         \<and> distinct (connects_to hs per i)
         \<and> waits_for hs per i = card {k. k < length hs * per \<and> i \<in> set (connects_to hs per k)}"
proof -
  have p: "connects_to hs per g = [Suc g..<length hs * per]" "waits_for hs per g = g" if "g < length hs * per" for g
    using parse_list_dpus_init[OF assms(1,2) that assms(3)]
    by (simp_all add: connects_to_def waits_for_def reference_config_def mesh_config_def)
  have "{k. k < length hs * per \<and> i \<in> set (connects_to hs per k)} = {..<i}"
    using p(1) assms(4) by auto
  with p assms(4-6) show ?thesis
    by auto
qed

theorem service_procs_form_a_mesh_witness:
  "3 \<in> set (connects_to [''a'', ''b''] 2 1) \<and> 1 \<notin> set (connects_to [''a'', ''b''] 2 3)
   \<and> waits_for [''a'', ''b''] 2 1 = card {k. k < 4 \<and> 1 \<in> set (connects_to [''a'', ''b''] 2 k)}"
proof -
  have "job_names [''a'', ''b'']"
    by (simp add: job_names_def all_less_two)
  from service_procs_form_a_mesh[OF this, of 2 1 3] parse_list_dpus_init[OF this, of 2 1]
  show ?thesis
    by (simp add: connects_to_def reference_config_def mesh_config_def)
qed

section \<open>Names that start with another name\<close>

text \<open>When the name of the first DPU is the beginning of the name of the second, the service process of the
  second DPU takes itself for the one of the first: without identifiers in the environment both have the global
  identifier 0, and the first connects to a service process 1 that does not exist.\<close>

lemma dpu_name_prefix_breaks_ids:
  assumes "t \<noteq> []" "u \<noteq> []" "CHR '','' \<notin> set (t @ u)"
  defines "start \<equiv> \<lambda>h. INIT_DPU_CONFIG_DATA\<lparr>cf_list_dpus := Some (join (CHR '','') [t, t @ u]), cf_hostname := h\<rparr>"
  shows "\<exists>c1 c2. dpu_offload_parse_list_dpus (start t) = Inr (DO_SUCCESS, c1)
           \<and> dpu_offload_parse_list_dpus (start (t @ u)) = Inr (DO_SUCCESS, c2)
           \<and> cfg_local_sp_global_id c1 = 0 \<and> cfg_local_sp_global_id c2 = 0
           \<and> cf_sps_connect_to c1 = [1] \<and> cf_num_connecting_service_procs c2 = 0"
proof -
  have "tokens (CHR '','') (join (CHR '','') [t, t @ u]) = [t, t @ u]"
    using assms(1-3) by (intro tokens_join) auto
  moreover have "size_sub (size_sub (Suc 0) 0) (Suc 0) = 0"
    by (simp add: size_sub_def)
  moreover have "0 < UINT64_MAX"
    by (simp add: UINT64_MAX_def)
  ultimately show ?thesis
    using assms(2)
    by (simp add: dpu_offload_parse_list_dpus_def set_ids_from_env_def start_def INIT_DPU_CONFIG_DATA_def Let_def
        parse_dpu_token_def add_local_sps_to_dpu_config_def add_local_sp_def strncmp0_def
        SET_SERVICE_PROC_TO_CONNECT_TO_def SET_REMOTE_SP_TO_CONNECT_TO_def)
qed

lemma dpu_name_prefix_breaks_ids_witness:
  "\<exists>c. dpu_offload_parse_list_dpus (INIT_DPU_CONFIG_DATA\<lparr>cf_list_dpus := Some ''dpu1,dpu10'', cf_hostname := ''dpu10''\<rparr>)
       = Inr (DO_SUCCESS, c) \<and> cfg_local_sp_global_id c = 0"
  using dpu_name_prefix_breaks_ids[of "''dpu1''" "''0''"] by auto

end
