(* ===== verification/Config_Properties.thy ===== *)
theory Config_Properties
imports Inter_Dpus_Mesh
begin

text \<open>
  Configuration files: an entry that is written out is read back, and with a file that lists the DPUs in the
  order of the job every service process connects to the address and the port its peer listens on.
\<close>

section \<open>Entries\<close>

record dpu_desc =
  dd_name :: string
  dd_addr :: string
  dd_ports :: "nat list"
  dd_host_ports :: "nat list"

definition word_ok :: "string \<Rightarrow> bool" where
  "word_ok s = (s \<noteq> [] \<and> CHR '':'' \<notin> set s \<and> CHR '','' \<notin> set s \<and> newline \<notin> set s \<and> (\<forall>c \<in> set s. (of_char c :: nat) \<noteq> 0))"

definition ports_ok :: "nat list \<Rightarrow> bool" where
  "ports_ok ps = (ps \<noteq> [] \<and> (\<forall>p \<in> set ps. 0 < p \<and> p < 2 ^ 31))"

definition desc_ok :: "dpu_desc \<Rightarrow> bool" where
  "desc_ok d = (word_ok (dd_name d) \<and> word_ok (dd_addr d) \<and> ports_ok (dd_ports d) \<and> ports_ok (dd_host_ports d))"

definition print_ports :: "nat list \<Rightarrow> string" where
  "print_ports ps = join (CHR ''&'') (map decimal ps)"

definition print_dpu :: "dpu_desc \<Rightarrow> string" where
  "print_dpu d = dd_name d @ CHR '':'' # dd_addr d @ CHR '':'' # print_ports (dd_ports d) @ CHR '':'' # print_ports (dd_host_ports d)"

definition entry_of :: "dpu_desc \<Rightarrow> dpu_config_data_t" where
  "entry_of d = \<lparr>dc_hostname = Some (dd_name d), dc_addr = Some (dd_addr d),
     dc_num_host_ports = length (dd_host_ports d), dc_host_ports = map int (dd_host_ports d),
     dc_num_interdpu_ports = length (dd_ports d), dc_interdpu_ports = map int (dd_ports d)\<rparr>"

lemma digit_not_sep:
  "is_digit 10 c \<Longrightarrow> c \<noteq> CHR '':'' \<and> c \<noteq> CHR '','' \<and> c \<noteq> CHR ''&'' \<and> c \<noteq> newline \<and> (of_char c :: nat) \<noteq> 0"
  by (auto simp: is_digit_def digit_val_def newline_def Let_def split: if_splits option.splits)

lemma decimal_no_sep:
  assumes "c \<in> set (decimal n)"
  shows "c \<noteq> CHR '':'' \<and> c \<noteq> CHR '','' \<and> c \<noteq> CHR ''&'' \<and> c \<noteq> newline \<and> (of_char c :: nat) \<noteq> 0"
  using digit_not_sep assms decimal_digits(2)[of n] by blast

lemma join_nonempty: "ts \<noteq> [] \<Longrightarrow> hd ts \<noteq> [] \<Longrightarrow> join d ts \<noteq> []"
  by (induction d ts rule: join.induct) auto

lemma print_ports_word: "ports_ok ps \<Longrightarrow> word_ok (print_ports ps)"
proof -
  assume ps: "ports_ok ps"
  have "c \<noteq> CHR '':'' \<and> c \<noteq> CHR '','' \<and> c \<noteq> newline \<and> (of_char c :: nat) \<noteq> 0" if c: "c \<in> set (print_ports ps)" for c
  proof (cases "c = CHR ''&''")
    case True
    then show ?thesis by (simp add: newline_def)
  next
    case False
    with c set_join[of "CHR ''&''" "map decimal ps"] obtain n where "c \<in> set (decimal n)"
      by (auto simp: print_ports_def)
    then show ?thesis using decimal_no_sep by blast
  qed
  moreover have "print_ports ps \<noteq> []"
    unfolding print_ports_def using ps decimal_digits(1)
    by (intro join_nonempty) (auto simp: ports_ok_def hd_map)
  ultimately show ?thesis
    unfolding word_ok_def by blast
qed

lemma parse_print_ports: "ports_ok ps \<Longrightarrow> parse_ports (print_ports ps) = Inr (map int ps)"
proof -
  assume ps: "ports_ok ps"
  have "tokens (CHR ''&'') (print_ports ps) = map decimal ps"
    unfolding print_ports_def using decimal_digits(1) decimal_no_sep by (intro tokens_join) auto
  moreover have "map (atoi \<circ> decimal) ps = map int ps"
    using ps by (auto simp: ports_ok_def intro: atoi_decimal)
  ultimately show ?thesis
    using ps by (simp add: parse_ports_def ports_ok_def)
qed

lemma parse_print_dpu:
  assumes "desc_ok d" "dc_hostname en = None \<or> dc_hostname en = Some (dd_name d)"
  shows "parse_dpu_cfg (print_dpu d) en = Inr (True, entry_of d)"
proof -
  have w: "dd_name d \<noteq> []" "CHR '':'' \<notin> set (dd_name d)" "dd_addr d \<noteq> []" "CHR '':'' \<notin> set (dd_addr d)"
    using assms(1) by (simp_all add: desc_ok_def word_ok_def)
  have p: "ports_ok (dd_ports d)" "ports_ok (dd_host_ports d)"
    using assms(1) by (simp_all add: desc_ok_def)
  have pw: "print_ports (dd_ports d) \<noteq> []" "CHR '':'' \<notin> set (print_ports (dd_ports d))"
      "print_ports (dd_host_ports d) \<noteq> []" "CHR '':'' \<notin> set (print_ports (dd_host_ports d))"
    using print_ports_word[OF p(1)] print_ports_word[OF p(2)] by (simp_all add: word_ok_def)
  show ?thesis
    using assms(2)
    by (auto simp: parse_dpu_cfg_def print_dpu_def strtok_r_token[OF w(1,2)] strtok_r_token[OF w(3,4)]
        strtok_r_token[OF pw(1,2)] strtok_r_token[OF pw(3,4)] parse_print_ports[OF p(1)] parse_print_ports[OF p(2)]
        entry_of_def)
qed

text \<open>C28: The entry of a DPU that is written out in the format of the configuration file is read back: its name,
  its address and all its ports, in order.\<close>

theorem dpu_entry_roundtrip:
  assumes "desc_ok d"
  shows "parse_dpu_cfg (print_dpu d) zero_dpu_config = Inr (True, entry_of d)"
  using parse_print_dpu[OF assms] by (simp add: zero_dpu_config_def)

definition demo_desc :: dpu_desc where
  "demo_desc = \<lparr>dd_name = ''dpu1'', dd_addr = ''10.0.0.1'', dd_ports = [11111, 11112], dd_host_ports = [9999, 10000]\<rparr>"

lemma demo_desc_ok: "desc_ok demo_desc"
  by (simp add: desc_ok_def word_ok_def ports_ok_def demo_desc_def newline_def)

theorem dpu_entry_roundtrip_witness:
  "parse_dpu_cfg (print_dpu demo_desc) zero_dpu_config
   = Inr (True, \<lparr>dc_hostname = Some ''dpu1'', dc_addr = Some ''10.0.0.1'', dc_num_host_ports = 2, dc_host_ports = [9999, 10000],
        dc_num_interdpu_ports = 2, dc_interdpu_ports = [11111, 11112]\<rparr>)"
  using dpu_entry_roundtrip[OF demo_desc_ok] by (simp add: entry_of_def) (simp add: demo_desc_def)

section \<open>Searching for a DPU\<close>

lemma find_dpu_entry_unique:
  assumes "\<forall>i \<in> set is. \<exists>h. dc_hostname (arr_get i zero_dpu_config cfg) = Some h \<and> (names_match h token \<longleftrightarrow> i = m)" "m \<in> set is"
  shows "find_dpu_entry token cfg is = Inr (Some m)"
  using assms by (induction "is") auto

lemma find_dpu_info_unique:
  assumes "\<forall>i \<in> set is. \<exists>h. rd_hostname (arr_get i zero_dpu_info dpus) = Some h \<and> (names_match name h \<longleftrightarrow> i = m)" "m \<in> set is"
  shows "find_dpu_info name dpus is = Inr (Some m)"
  using assms by (induction "is") auto

definition job_descs :: "dpu_desc list \<Rightarrow> nat \<Rightarrow> bool" where
  "job_descs ds per =
     (job_names (map dd_name ds) \<and> 0 < per \<and> length ds * per < 2 ^ 64 - 1
      \<and> (\<forall>d \<in> set ds. desc_ok d \<and> length (dd_ports d) = per \<and> length (dd_host_ports d) = per))"

lemma names_match_names:
  assumes "job_names hs" "i < length hs" "j < length hs"
  shows "names_match (hs ! i) (hs ! j) \<longleftrightarrow> i = j"
proof -
  have "take (length (hs ! i)) (hs ! j) = hs ! i \<longrightarrow> i = j" "take (length (hs ! j)) (hs ! i) = hs ! j \<longrightarrow> j = i"
    using assms unfolding job_names_def by blast+
  then show ?thesis
    by (auto simp: names_match_def strncmp0_def min_def split: if_splits)
qed

lemma names_match_sep:
  assumes "c \<notin> set h"
  shows "names_match h (name @ c # r) \<longleftrightarrow> take (length h) name = h"
proof (cases "length h \<le> length name")
  case True
  then show ?thesis by (auto simp: names_match_def strncmp0_def min_def)
next
  case False
  let ?n = "min (length h) (length (name @ c # r))"
  have n: "length name < ?n" "?n \<le> length h"
    using False by auto
  have "take ?n h \<noteq> take ?n (name @ c # r)"
  proof
    assume t: "take ?n h = take ?n (name @ c # r)"
    have "take ?n (name @ c # r) ! length name = c"
      using n(1) by (simp only: nth_take nth_append_length)
    then have "h ! length name = c"
      using n(1) unfolding t[symmetric] by (simp only: nth_take)
    moreover have "h ! length name \<in> set h"
      using n by (intro nth_mem) linarith
    ultimately show False
      using assms by simp
  qed
  moreover have "length (take (length h) name) \<noteq> length h"
    using False by simp
  then have "take (length h) name \<noteq> h"
    by force
  ultimately show ?thesis
    by (simp add: names_match_def strncmp0_def)
qed

lemma names_match_token:
  assumes "job_names (map dd_name ds)" "i < length ds" "j < length ds"
  shows "names_match (dd_name (ds ! i)) (print_dpu (ds ! j)) \<longleftrightarrow> i = j"
proof -
  have "CHR '':'' \<notin> set (dd_name (ds ! i))"
    using assms unfolding job_names_def by (simp add: all_set_conv_all_nth)
  moreover have "take (length (dd_name (ds ! i))) (dd_name (ds ! j)) = dd_name (ds ! i) \<longleftrightarrow> i = j"
    using assms unfolding job_names_def by auto
  ultimately show ?thesis
    by (simp add: print_dpu_def names_match_sep)
qed

section \<open>Entries of the DPUs of a job\<close>

text \<open>The port of service process \<open>j\<close>, the parameters to connect to it, and its entry in the configuration.\<close>

definition port_of :: "dpu_desc list \<Rightarrow> nat \<Rightarrow> nat \<Rightarrow> int" where
  "port_of ds per j = int (dd_ports (ds ! (j div per)) ! (j mod per))"

definition host_port_of :: "dpu_desc list \<Rightarrow> nat \<Rightarrow> nat \<Rightarrow> int" where
  "host_port_of ds per j = int (dd_host_ports (ds ! (j div per)) ! (j mod per))"

definition conn_of :: "dpu_desc list \<Rightarrow> nat \<Rightarrow> nat \<Rightarrow> conn_params_t" where
  "conn_of ds per j = \<lparr>cp_addr_str = Some (dd_addr (ds ! (j div per))), cp_port = port_of ds per j\<rparr>"

definition sp_entry_of :: "dpu_desc list \<Rightarrow> nat \<Rightarrow> nat \<Rightarrow> service_proc_config_data_t" where
  "sp_entry_of ds per j = \<lparr>scf_hostname = Some (dd_name (ds ! (j div per))), scf_host_port = host_port_of ds per j,
     scf_intersp_port = port_of ds per j\<rparr>"

text \<open>The list of the engine when the service processes \<open>S\<close> are configured, and the entries of the DPUs when the
  DPUs \<open>M\<close> are.\<close>

definition sps_in :: "dpu_desc list \<Rightarrow> nat \<Rightarrow> nat set \<Rightarrow> sp_conf_t list" where
  "sps_in ds per S =
     map (\<lambda>j. if j \<in> S then (mesh_sp per j)\<lparr>sc_conn_params := Some (conn_of ds per j)\<rparr> else mesh_sp per j)
       [0..<length ds * per]"

definition dpus_in :: "dpu_desc list \<Rightarrow> nat set \<Rightarrow> dpu_config_data_t list" where
  "dpus_in ds M = map (\<lambda>i. if i \<in> M then entry_of (ds ! i) else named_dpu (dd_name (ds ! i))) [0..<length ds]"

definition dpu_entries :: "dpu_desc list \<Rightarrow> nat \<Rightarrow> nat \<Rightarrow> service_proc_config_data_t list" where
  "dpu_entries ds per m = map (sp_entry_of ds per) [m * per..<m * per + per]"

text \<open>The configuration on service process \<open>g\<close> when the entries of the DPUs \<open>order\<close> were read, in that order.\<close>

definition parsed :: "dpu_desc list \<Rightarrow> nat \<Rightarrow> nat \<Rightarrow> nat list \<Rightarrow> config_t \<Rightarrow> bool" where
  "parsed ds per g order c =
     (cf_format_version c = 1 \<and> cf_num_dpus c = length ds \<and> cfg_num_service_procs_per_dpu c = per
      \<and> cfg_local_sp_global_id c = g \<and> cfg_local_sp_local_id c = g mod per
      \<and> cf_hostname c = dd_name (ds ! (g div per)) \<and> cf_dpu c = g div per \<and> cf_engine_num_dpus c = length ds
      \<and> cf_self_ep c = None \<and> cf_engine_dpus c = map (mesh_dpu per (map dd_name ds)) [0..<length ds]
      \<and> cf_dpus_config c = dpus_in ds (set order) \<and> cf_engine_sps c = sps_in ds per {j. j div per \<in> set order}
      \<and> cf_num_service_procs_configured c = length order * per \<and> cf_sps_config c = concat (map (dpu_entries ds per) order)
      \<and> cf_sps_connect_to c = [Suc g..<length ds * per] \<and> cf_num_connecting_service_procs c = g
      \<and> (g div per \<in> set order \<longrightarrow> cf_inter_conn_params c = conn_of ds per g
            \<and> cf_host_conn_params c = (conn_of ds per g)\<lparr>cp_port := host_port_of ds per g\<rparr>))"

lemma sps_in_put:
  assumes "n < length ds * per"
  shows "arr_put n zero_sp_conf ((arr_get n zero_sp_conf (sps_in ds per S))\<lparr>sc_conn_params := Some (conn_of ds per n)\<rparr>) (sps_in ds per S)
         = sps_in ds per (insert n S)"
proof -
  have "length (sps_in ds per S) = length ds * per"
    by (simp add: sps_in_def)
  with assms show ?thesis
    by (simp add: arr_put_in) (rule nth_equalityI, auto simp: sps_in_def nth_list_update)
qed

lemma port_at_int: "i < length ps \<Longrightarrow> ports_ok ps \<Longrightarrow> port_at i (map int ps) = Inr (int (ps ! i))"
  by (simp add: port_at_def ports_ok_def all_set_conv_all_nth)

lemma job_desc:
  assumes "job_descs ds per" "m < length ds"
  shows "desc_ok (ds ! m)" "length (dd_ports (ds ! m)) = per" "length (dd_host_ports (ds ! m)) = per"
  using assms by (simp_all add: job_descs_def all_set_conv_all_nth)

lemma configure_sp_step:
  assumes ds: "job_descs ds per" "m < length ds" "s < per"
    and c: "cf_engine_sps c = sps_in ds per S" "cfg_num_service_procs_per_dpu c = per"
      "cf_num_service_procs_configured c = length xs" "cf_sps_config c = xs"
  shows "configure_sp (entry_of (ds ! m)) (mesh_dpu per hs m) s c
         = Inr (c\<lparr>cf_sps_config := xs @ [sp_entry_of ds per (m * per + s)],
                  cf_engine_sps := sps_in ds per (insert (m * per + s) S), cf_num_service_procs_configured := Suc (length xs)\<rparr>)"
proof -
  let ?n = "m * per + s"
  have "Suc m * per \<le> length ds * per"
    using ds(2) by (intro mult_le_mono1) simp
  then have n: "?n < length ds * per"
    using ds(3) mult_Suc[of m per] by linarith
  have j: "?n div per = m" "?n mod per = s"
    using ds(3) by simp_all
  have gid: "arr_get s 0 (rd_local_service_procs (mesh_dpu per hs m)) = ?n"
    using ds(3) by (simp add: mesh_dpu_def)
  let ?sp = "arr_get ?n zero_sp_conf (cf_engine_sps c)"
  have sp: "sc_conn_params ?sp \<noteq> None" "sc_idx ?sp mod per = s"
    using n j by (simp_all add: c(1) sps_in_def mesh_sp_def)
  have ok: "ports_ok (dd_ports (ds ! m))" "ports_ok (dd_host_ports (ds ! m))"
    using job_desc(1)[OF ds(1,2)] by (simp_all add: desc_ok_def)
  have p: "port_at s (dc_interdpu_ports (entry_of (ds ! m))) = Inr (port_of ds per ?n)"
      "port_at s (dc_host_ports (entry_of (ds ! m))) = Inr (host_port_of ds per ?n)"
    using port_at_int[OF _ ok(1), of s] port_at_int[OF _ ok(2), of s] job_desc(2,3)[OF ds(1,2)] ds(3) j
    by (simp_all add: entry_of_def port_of_def host_port_of_def)
  have e: "\<lparr>scf_hostname = dc_hostname (entry_of (ds ! m)), scf_host_port = host_port_of ds per ?n,
      scf_intersp_port = port_of ds per ?n\<rparr> = sp_entry_of ds per ?n"
    "\<lparr>cp_addr_str = dc_addr (entry_of (ds ! m)), cp_port = port_of ds per ?n\<rparr> = conn_of ds per ?n"
    unfolding sp_entry_of_def conn_of_def j by (simp_all add: entry_of_def)
  have "configure_sp (entry_of (ds ! m)) (mesh_dpu per hs m) s c
      = Inr (c\<lparr>cf_sps_config := arr_put (length xs) zero_sp_config (sp_entry_of ds per ?n) (cf_sps_config c),
               cf_engine_sps := arr_put ?n zero_sp_conf (?sp\<lparr>sc_conn_params := Some (conn_of ds per ?n)\<rparr>) (cf_engine_sps c),
               cf_num_service_procs_configured := Suc (length xs)\<rparr>)"
    unfolding configure_sp_def Let_def gid c(2,3) sp(2) p using sp(1) by (simp add: e)
  then show ?thesis
    using sps_in_put[OF n, of S] by (simp add: c(1,4))
qed

lemma configure_sps:
  assumes ds: "job_descs ds per" "m < length ds" "k \<le> per"
    and c: "cf_engine_sps c = sps_in ds per S" "cfg_num_service_procs_per_dpu c = per"
      "cf_num_service_procs_configured c = length xs" "cf_sps_config c = xs"
  shows "foldE (configure_sp (entry_of (ds ! m)) (mesh_dpu per hs m)) [0..<k] c
         = Inr (c\<lparr>cf_sps_config := xs @ map (sp_entry_of ds per) [m * per..<m * per + k],
                  cf_engine_sps := sps_in ds per (S \<union> {m * per..<m * per + k}), cf_num_service_procs_configured := length xs + k\<rparr>)"
  using ds(3)
proof (induction k)
  case 0
  show ?case
    using c by (simp add: config_t.equality)
next
  case (Suc k)
  let ?xs = "xs @ map (sp_entry_of ds per) [m * per..<m * per + k]" and ?S = "S \<union> {m * per..<m * per + k}"
  let ?c = "c\<lparr>cf_sps_config := ?xs, cf_engine_sps := sps_in ds per ?S, cf_num_service_procs_configured := length xs + k\<rparr>"
  have "insert (m * per + k) ?S = S \<union> {m * per..<m * per + Suc k}"
    by auto
  then have "configure_sp (entry_of (ds ! m)) (mesh_dpu per hs m) k ?c
      = Inr (c\<lparr>cf_sps_config := xs @ map (sp_entry_of ds per) [m * per..<m * per + Suc k],
               cf_engine_sps := sps_in ds per (S \<union> {m * per..<m * per + Suc k}),
               cf_num_service_procs_configured := length xs + Suc k\<rparr>)"
    using configure_sp_step[OF ds(1,2), of k ?c ?S ?xs hs] Suc.prems c(2) by simp
  with Suc show ?case
    by (simp add: foldE_append)
qed

lemma sps_in_same:
  assumes "g < length ds * per"
  shows "arr_put g zero_sp_conf ((arr_get g zero_sp_conf (sps_in ds per S))\<lparr>sc_ep := None\<rparr>) (sps_in ds per S) = sps_in ds per S"
proof -
  have "length (sps_in ds per S) = length ds * per" "(sps_in ds per S ! g)\<lparr>sc_ep := None\<rparr> = sps_in ds per S ! g"
    using assms by (simp_all add: sps_in_def mesh_sp_def)
  with assms show ?thesis
    by (simp add: arr_put_in)
qed

lemma dpu_of_sp: "0 < per \<Longrightarrow> (j :: nat) div per = m \<longleftrightarrow> m * per \<le> j \<and> j < m * per + per"
  by (auto simp: div_nat_eqI less_mult_imp_div_less dividend_less_times_div mult.commute add.commute)

lemma configure_self_spec:
  assumes ds: "job_descs ds per" "g < length ds * per"
    and c: "cfg_local_sp_global_id c = g" "cfg_local_sp_local_id c = g mod per" "cfg_num_service_procs_per_dpu c = per"
      "cf_dpu c = g div per" "cf_engine_num_dpus c = length ds" "cf_self_ep c = None" "cf_engine_sps c = sps_in ds per S"
  shows "\<exists>b. configure_self (entry_of (ds ! (g div per))) (g div per) uid c
         = Inr (c\<lparr>cfg_local_sp_host_uid := uid, cf_service_proc_found := b, cf_inter_id := Some g, cf_host_id := Some g,
                  cf_inter_conn_params := conn_of ds per g,
                  cf_host_conn_params := (conn_of ds per g)\<lparr>cp_port := host_port_of ds per g\<rparr>\<rparr>)"
proof -
  let ?k = "g div per"
  have pos: "0 < per" "length ds * per < 2 ^ 64 - 1"
    using ds(1) by (simp_all add: job_descs_def)
  have k: "?k < length ds"
    using ds(2) by (simp add: less_mult_imp_div_less)
  have ok: "ports_ok (dd_ports (ds ! ?k))" "ports_ok (dd_host_ports (ds ! ?k))"
    using job_desc(1)[OF ds(1) k] by (simp_all add: desc_ok_def)
  have r: "g mod per < per"
    using pos(1) by simp
  have p: "port_at (g mod per) (dc_interdpu_ports (entry_of (ds ! ?k))) = Inr (port_of ds per g)"
      "port_at (g mod per) (dc_host_ports (entry_of (ds ! ?k))) = Inr (host_port_of ds per g)"
    using port_at_int[OF _ ok(1), of "g mod per"] port_at_int[OF _ ok(2), of "g mod per"] job_desc(2,3)[OF ds(1) k] r
    by (simp_all add: entry_of_def port_of_def host_port_of_def)
  have "1 * per \<le> length ds * per"
    using k by (intro mult_le_mono1) linarith
  then have big: "g \<noteq> UINT64_MAX" "g mod per \<noteq> UINT64_MAX" "per \<noteq> UINT64_MAX" "per \<noteq> 0" "?k \<le> length ds"
    using pos ds(2) r k by (auto simp: UINT64_MAX_def)
  have e: "\<lparr>cp_addr_str = dc_addr (entry_of (ds ! ?k)), cp_port = port_of ds per g\<rparr> = conn_of ds per g"
    "\<lparr>cp_addr_str = dc_addr (entry_of (ds ! ?k)), cp_port = host_port_of ds per g\<rparr> = (conn_of ds per g)\<lparr>cp_port := host_port_of ds per g\<rparr>"
    by (simp_all add: entry_of_def conn_of_def)
  show ?thesis
    using big pos(1) c p e sps_in_same[OF ds(2), of S]
    by (intro exI[of _ "if g < per * (?k + 1) then True else cf_service_proc_found c"])
       (simp add: configure_self_def Let_def)
qed

lemma parse_target_step:
  assumes ds: "job_descs ds per" "g < length ds * per" "m < length ds" and c: "parsed ds per g order c"
  shows "\<exists>self l c'. parse_target host (print_dpu (ds ! m)) m last_host c = Inr (True, self, l, c') \<and> parsed ds per g (order @ [m]) c'"
proof -
  let ?d = "ds ! m" and ?k = "g div per"
  let ?uid = "host_uid_of (dd_name ?d)"
  define c1 where "c1 = (if ?uid \<noteq> last_host then (add_host host c)\<lparr>cfg_num_hosts := Suc (cfg_num_hosts c)\<rparr> else c)"
  have c1: "parsed ds per g order c1"
    using c by (simp add: c1_def parsed_def add_host_def)
  have names: "job_names (map dd_name ds)"
    using ds(1) by (simp add: job_descs_def)
  define en where "en = arr_get m zero_dpu_config (cf_dpus_config c)"
  have info: "find_dpu_info (dd_name ?d) (cf_engine_dpus c1) [0..<cf_num_dpus c1] = Inr (Some m)"
    using c1 ds(3) names_match_names[OF names]
    by (intro find_dpu_info_unique) (auto simp: parsed_def mesh_dpu_def)
  have dpu: "arr_get m zero_dpu_info (cf_engine_dpus c1) = mesh_dpu per (map dd_name ds) m"
    using c1 ds(3) by (simp add: parsed_def)
  note d = job_desc[OF ds(1,3)]
  have pr: "parse_dpu_cfg (print_dpu ?d) en = Inr (True, entry_of ?d)"
    using d(1) c ds(3) by (intro parse_print_dpu) (simp_all add: en_def parsed_def dpus_in_def named_dpu_def entry_of_def)
  have dn: "dc_hostname en = Some (dd_name ?d)" "dc_num_interdpu_ports (entry_of ?d) = per" "dc_addr (entry_of ?d) \<noteq> None"
    using d(2) c ds(3) by (simp_all add: en_def parsed_def dpus_in_def named_dpu_def entry_of_def)
  have put: "arr_put m zero_dpu_config (entry_of ?d) (cf_dpus_config c1) = dpus_in ds (set (order @ [m]))"
    using c1 ds(3)
    by (simp add: parsed_def arr_put_in dpus_in_def) (rule nth_equalityI, auto simp: nth_list_update)
  define c2 where "c2 = c1\<lparr>cf_dpus_config := dpus_in ds (set (order @ [m]))\<rparr>"
  have per2: "cfg_num_service_procs_per_dpu c2 = per"
    using c1 by (simp add: c2_def parsed_def)
  define c4 where "c4 = c2\<lparr>cf_sps_config := concat (map (dpu_entries ds per) (order @ [m])),
      cf_engine_sps := sps_in ds per {j. j div per \<in> set (order @ [m])}, cf_num_service_procs_configured := length (order @ [m]) * per\<rparr>"
  have "{j. j div per \<in> set order} \<union> {m * per..<m * per + per} = {j. j div per \<in> set (order @ [m])}"
    using ds(1) by (auto simp: job_descs_def dpu_of_sp)
  moreover have "length (concat (map (dpu_entries ds per) order)) = length order * per"
    by (induction order) (simp_all add: dpu_entries_def)
  ultimately have sps: "foldE (configure_sp (entry_of ?d) (mesh_dpu per (map dd_name ds) m)) [0..<per] c2 = Inr c4"
    using configure_sps[OF ds(1,3) order_refl, of c2 "{j. j div per \<in> set order}" "concat (map (dpu_entries ds per) order)" "map dd_name ds"] c1
    by (simp add: c4_def c2_def parsed_def dpu_entries_def add.commute)
  have t: "parse_target host (print_dpu ?d) m last_host c =
      (if strncmp0 (cf_hostname c4) (dd_name ?d) (length (dd_name ?d))
       then bindE (configure_self (entry_of ?d) m (host_uid_of host) c4) (\<lambda>c5. Inr (True, True, ?uid, c5))
       else Inr (True, False, ?uid, c4))"
    unfolding parse_target_def Let_def en_def[symmetric] dn derefE_simps bindE_simps c1_def[symmetric] info option.case dpu pr prod.case put
      c2_def[symmetric] using dn(3) sps per2 by simp
  have k: "?k < length ds"
    using ds(2) by (simp add: less_mult_imp_div_less)
  have "strncmp0 (cf_hostname c4) (dd_name ?d) (length (dd_name ?d)) \<longleftrightarrow> m = ?k"
  proof -
    have "take (length (dd_name ?d)) (dd_name (ds ! ?k)) = dd_name ?d \<longleftrightarrow> m = ?k"
      using names k ds(3) unfolding job_names_def by auto
    moreover have "cf_hostname c4 = dd_name (ds ! ?k)"
      using c1 by (simp add: c4_def c2_def parsed_def)
    ultimately show ?thesis
      by (simp add: strncmp0_def)
  qed
  note own = this
  show ?thesis
  proof (cases "m = ?k")
    case True
    have "\<exists>b. configure_self (entry_of ?d) m (host_uid_of host) c4
         = Inr (c4\<lparr>cfg_local_sp_host_uid := host_uid_of host, cf_service_proc_found := b, cf_inter_id := Some g, cf_host_id := Some g,
                  cf_inter_conn_params := conn_of ds per g,
                  cf_host_conn_params := (conn_of ds per g)\<lparr>cp_port := host_port_of ds per g\<rparr>\<rparr>)"
      unfolding True using c1
      by (intro configure_self_spec[OF ds(1,2)]) (simp_all add: c4_def c2_def parsed_def)
    with True own t c1 show ?thesis
      by (auto simp: parsed_def c4_def c2_def)
  next
    case False
    with own t c1 show ?thesis
      by (auto simp: parsed_def c4_def c2_def)
  qed
qed

lemma parse_tokens_spec:
  assumes ds: "job_descs ds per" "g < length ds * per"
  shows "parsed ds per g order c \<Longrightarrow> \<forall>i \<in> set is. i < length ds \<Longrightarrow>
    \<exists>b c'. parse_tokens host (map print_dpu (map ((!) ds) is)) rc last_host c = Inr (b, c') \<and> parsed ds per g (order @ is) c'"
proof (induction "is" arbitrary: order rc last_host c)
  case Nil
  then show ?case by simp
next
  case (Cons m "is")
  have m: "m < length ds"
    using Cons.prems(2) by simp
  have names: "job_names (map dd_name ds)"
    using ds(1) by (simp add: job_descs_def)
  have "find_dpu_entry (print_dpu (ds ! m)) (cf_dpus_config c) [0..<cf_num_dpus c] = Inr (Some m)"
    using Cons.prems(1) m names_match_token[OF names]
    by (intro find_dpu_entry_unique) (auto simp: parsed_def dpus_in_def entry_of_def named_dpu_def)
  moreover obtain self l c1 where
    t: "parse_target host (print_dpu (ds ! m)) m last_host c = Inr (True, self, l, c1)" "parsed ds per g (order @ [m]) c1"
    using parse_target_step[OF ds m Cons.prems(1), of host last_host] by blast
  ultimately show ?case
    using Cons.IH[of "order @ [m]" c1 "rc \<or> self" l] Cons.prems(2) by simp
qed

section \<open>Lines and files\<close>

type_synonym platform = "(string \<times> dpu_desc list) list"

definition print_line :: "string \<times> dpu_desc list \<Rightarrow> string" where
  "print_line l = join (CHR '','') (fst l # map print_dpu (snd l))"

definition version_line :: string where
  "version_line = ''# Format version:1''"

definition print_platform :: "platform \<Rightarrow> string" where
  "print_platform plat = join newline (version_line # map print_line plat)"

definition platform_ok :: "platform \<Rightarrow> bool" where
  "platform_ok plat = (\<forall>l \<in> set plat. word_ok (fst l) \<and> hd (fst l) \<noteq> CHR '' '' \<and> hd (fst l) \<noteq> CHR ''#'' \<and> snd l \<noteq> []
     \<and> (\<forall>d \<in> set (snd l). desc_ok d))"

lemma print_dpu_chars:
  assumes "desc_ok d"
  shows "print_dpu d \<noteq> []" "CHR '','' \<notin> set (print_dpu d)" "newline \<notin> set (print_dpu d)"
    "\<forall>c \<in> set (print_dpu d). (of_char c :: nat) \<noteq> 0"
proof -
  have w: "word_ok (dd_name d)" "word_ok (dd_addr d)" "word_ok (print_ports (dd_ports d))" "word_ok (print_ports (dd_host_ports d))"
    using assms print_ports_word by (simp_all add: desc_ok_def)
  have "newline \<noteq> CHR '':''"
    by (simp add: newline_def)
  with w show "print_dpu d \<noteq> []" "CHR '','' \<notin> set (print_dpu d)" "newline \<notin> set (print_dpu d)"
    "\<forall>c \<in> set (print_dpu d). (of_char c :: nat) \<noteq> 0"
    by (auto simp: word_ok_def print_dpu_def)
qed

lemma print_line_spec:
  assumes "word_ok h" "\<forall>d \<in> set ds. desc_ok d" "hd h \<noteq> CHR '' ''" "hd h \<noteq> CHR ''#''"
  shows "tokens (CHR '','') (print_line (h, ds)) = h # map print_dpu ds" "print_line (h, ds) \<noteq> []"
    "newline \<notin> set (print_line (h, ds))" "\<forall>c \<in> set (print_line (h, ds)). (of_char c :: nat) \<noteq> 0"
    "\<not> line_is_comment (print_line (h, ds))"
proof -
  let ?ts = "h # map print_dpu ds"
  have t: "\<forall>t \<in> set ?ts. t \<noteq> [] \<and> CHR '','' \<notin> set t \<and> newline \<notin> set t \<and> (\<forall>c \<in> set t. (of_char c :: nat) \<noteq> 0)"
    using assms(1,2) print_dpu_chars by (auto simp: word_ok_def)
  then show "tokens (CHR '','') (print_line (h, ds)) = ?ts"
    using tokens_join[of ?ts "CHR '',''"] by (simp add: print_line_def)
  show ne: "print_line (h, ds) \<noteq> []"
    using t join_nonempty[of ?ts "CHR '',''"] by (simp add: print_line_def)
  have "set (print_line (h, ds)) \<subseteq> insert (CHR '','') (\<Union> (set ` set ?ts))"
    unfolding print_line_def fst_conv snd_conv by (rule set_join)
  moreover have "newline \<noteq> CHR '',''"
    by (simp add: newline_def)
  ultimately show "newline \<notin> set (print_line (h, ds))" "\<forall>c \<in> set (print_line (h, ds)). (of_char c :: nat) \<noteq> 0"
    using t by (auto dest!: subsetD)
  have "h \<noteq> []"
    using assms(1) by (simp add: word_ok_def)
  then have "hd (print_line (h, ds)) = hd h"
    by (cases ds) (simp_all add: print_line_def)
  with ne assms(3,4) show "\<not> line_is_comment (print_line (h, ds))"
    by (cases "print_line (h, ds)") (simp_all add: line_is_comment_def skip_blanks_def)
qed

lemma parse_line_spec:
  assumes ds: "job_descs ds per" "g < length ds * per" and c: "parsed ds per g order c"
    and "is": "\<forall>i \<in> set is. i < length ds" "is \<noteq> []"
    and h: "word_ok h" "hd h \<noteq> CHR '' ''" "hd h \<noteq> CHR ''#''"
  shows "\<exists>b c'. parse_line_for_dpu_cfg (print_line (h, map ((!) ds) is)) c = Inr (b, c') \<and> parsed ds per g (order @ is) c'"
proof -
  have "\<forall>d \<in> set (map ((!) ds) is). desc_ok d"
    using ds(1) "is"(1) by (auto simp: job_descs_def)
  then have "tokens (CHR '','') (print_line (h, map ((!) ds) is)) = h # map print_dpu (map ((!) ds) is)"
    using print_line_spec(1)[OF h(1)] h(2,3) by blast
  moreover have "map print_dpu (map ((!) ds) is) \<noteq> []"
    using "is"(2) by simp
  moreover have "cf_format_version c = 1"
    using c(1) by (simp add: parsed_def)
  ultimately show ?thesis
    using parse_tokens_spec[OF ds c "is"(1), of h False UINT64_MAX]
    by (simp add: parse_line_for_dpu_cfg_def parse_line_dpu_version_1_def del: map_is_Nil_conv map_map)
qed

lemma parse_lines_spec:
  assumes ds: "job_descs ds per" "g < length ds * per"
  shows "parsed ds per g order c \<Longrightarrow> platform_ok plat \<Longrightarrow> map ((!) ds) is = concat (map snd plat) \<Longrightarrow> \<forall>i \<in> set is. i < length ds \<Longrightarrow>
    \<exists>c'. foldE (\<lambda>l' c'. if line_is_comment l' then Inr c'
                       else bindE (parse_line_for_dpu_cfg l' c') (\<lambda>(b, c''). Inr c'')) (map print_line plat) c = Inr c'
         \<and> parsed ds per g (order @ is) c'"
proof (induction plat arbitrary: order "is" c)
  case Nil
  then show ?case by simp
next
  case (Cons l plat)
  obtain h es where l: "l = (h, es)"
    by (cases l)
  have h: "word_ok h" "hd h \<noteq> CHR '' ''" "hd h \<noteq> CHR ''#''" "es \<noteq> []" "\<forall>d \<in> set es. desc_ok d" "platform_ok plat"
    using Cons.prems(2) by (simp_all add: platform_ok_def l)
  obtain i1 i2 where i: "is = i1 @ i2" "map ((!) ds) i1 = es" "map ((!) ds) i2 = concat (map snd plat)"
    using Cons.prems(3) by (auto simp: l map_eq_append_conv)
  then have lt: "\<forall>i \<in> set i1. i < length ds" "\<forall>i \<in> set i2. i < length ds" "i1 \<noteq> []"
    using Cons.prems(4) h(4) by auto
  obtain b c1 where p: "parse_line_for_dpu_cfg (print_line (h, es)) c = Inr (b, c1)" "parsed ds per g (order @ i1) c1"
    using parse_line_spec[OF ds Cons.prems(1) lt(1,3) h(1-3)] i(2) by auto
  have "\<not> line_is_comment (print_line (h, es))"
    using print_line_spec(5)[OF h(1,5,2,3)] .
  with p Cons.IH[OF p(2) h(6) i(3) lt(2)] show ?case
    by (simp add: l i(1))
qed

lemma version_line_parsed:
  "check_config_file_version version_line c = (DO_SUCCESS, c\<lparr>cf_format_version := 1\<rparr>)"
proof -
  have "atoi ''1'' = 1"
    by (simp add: atoi_def skip_sign_def isspace_def is_digit_def digit_val_def digits_val_def)
  then show ?thesis
    by (simp add: check_config_file_version_def version_line_def skip_blanks_def strncmp0_def config_file_version_token_def)
qed

lemma find_dpu_config_spec:
  assumes ds: "job_descs ds per" "g < length ds * per" and plat: "platform_ok plat" "concat (map snd plat) = map ((!) ds) order" "\<forall>i \<in> set order. i < length ds"
    and c: "parsed ds per g [] (c\<lparr>cf_format_version := 1\<rparr>)" and fs: "fs path = Some (print_platform plat)"
  shows "\<exists>c'. find_dpu_config_from_platform_configfile fs path c = Inr (DO_SUCCESS, c') \<and> parsed ds per g order c'"
proof -
  have v: "version_line \<noteq> []" "newline \<notin> set version_line" "\<forall>c \<in> set version_line. (of_char c :: nat) \<noteq> 0"
    by (simp_all add: version_line_def newline_def)
  have "t \<noteq> [] \<and> newline \<notin> set t \<and> (\<forall>c \<in> set t. (of_char c :: nat) \<noteq> 0)" if t: "t \<in> set (map print_line plat)" for t
  proof -
    obtain l where l: "l \<in> set plat" "t = print_line l"
      using t unfolding set_map by blast
    then have "word_ok (fst l)" "\<forall>d \<in> set (snd l). desc_ok d" "hd (fst l) \<noteq> CHR '' ''" "hd (fst l) \<noteq> CHR ''#''"
      using plat(1) unfolding platform_ok_def by blast+
    from print_line_spec(2-4)[OF this] show ?thesis
      by (simp add: l(2))
  qed
  with v have t: "\<forall>t \<in> set (version_line # map print_line plat). t \<noteq> [] \<and> newline \<notin> set t \<and> (\<forall>c \<in> set t. (of_char c :: nat) \<noteq> 0)"
    by auto
  then have toks: "tokens newline (print_platform plat) = version_line # map print_line plat"
    unfolding print_platform_def by (intro tokens_join) blast
  have "set (print_platform plat) \<subseteq> insert newline (\<Union> (set ` set (version_line # map print_line plat)))"
    unfolding print_platform_def by (rule set_join)
  moreover have "(of_char newline :: nat) \<noteq> 0"
    by (simp add: newline_def)
  ultimately have "\<forall>c \<in> set (print_platform plat). (of_char c :: nat) \<noteq> 0"
    using t by blast
  then have "cstr (print_platform plat) = print_platform plat"
    by (simp add: cstr_def takeWhile_eq_all_conv)
  moreover have "print_platform plat \<noteq> []"
    using t unfolding print_platform_def by (intro join_nonempty) simp_all
  moreover note parse_lines_spec[OF ds c plat(1) plat(2)[symmetric] plat(3)]
  ultimately show ?thesis
    by (auto simp: find_dpu_config_from_platform_configfile_def fs toks version_line_parsed simp del: foldE.simps)
qed

section \<open>The configuration of a job\<close>

text \<open>The environment of service process \<open>g\<close> of a job.\<close>

definition job_env :: "string \<Rightarrow> string list \<Rightarrow> nat \<Rightarrow> nat \<Rightarrow> string \<Rightarrow> string option" where
  "job_env path hs per g v =
     (if v = OFFLOAD_CONFIG_FILE_PATH_ENVVAR then Some path
      else if v = LIST_DPUS_ENVVAR then Some (join (CHR '','') hs)
      else if v = DPU_OFFLOAD_SERVICE_PROCESS_GLOBAL_ID_ENVVAR then Some (decimal g)
      else if v = DPU_OFFLOAD_SERVICE_PROCESS_LOCAL_ID_ENVVAR then Some (decimal (g mod per))
      else if v = DPU_OFFLOAD_SERVICE_PROCESSES_PER_DPU_ENVVAR then Some (decimal per) else None)"

lemma job_env_simps [simp]:
  "job_env path hs per g OFFLOAD_CONFIG_FILE_PATH_ENVVAR = Some path"
  "job_env path hs per g LIST_DPUS_ENVVAR = Some (join (CHR '','') hs)"
  "job_env path hs per g DPU_OFFLOAD_SERVICE_PROCESS_GLOBAL_ID_ENVVAR = Some (decimal g)"
  "job_env path hs per g DPU_OFFLOAD_SERVICE_PROCESS_LOCAL_ID_ENVVAR = Some (decimal (g mod per))"
  "job_env path hs per g DPU_OFFLOAD_SERVICE_PROCESSES_PER_DPU_ENVVAR = Some (decimal per)"
  by (simp_all add: job_env_def OFFLOAD_CONFIG_FILE_PATH_ENVVAR_def LIST_DPUS_ENVVAR_def
      DPU_OFFLOAD_SERVICE_PROCESS_GLOBAL_ID_ENVVAR_def DPU_OFFLOAD_SERVICE_PROCESS_LOCAL_ID_ENVVAR_def
      DPU_OFFLOAD_SERVICE_PROCESSES_PER_DPU_ENVVAR_def)

lemma get_dpu_config_spec:
  assumes ds: "job_descs ds per" "g < length ds * per" and plat: "platform_ok plat" "concat (map snd plat) = map ((!) ds) order" "set order = {..<length ds}"
    and fs: "fs path = Some (print_platform plat)"
  shows "\<exists>c. get_dpu_config (job_env path (map dd_name ds) per g) fs (dd_name (ds ! (g div per))) INIT_DPU_CONFIG_DATA
             = Inr (DO_SUCCESS, c) \<and> parsed ds per g order c"
proof -
  let ?hs = "map dd_name ds" and ?i = "INIT_DPU_CONFIG_DATA\<lparr>cf_config_file := Some path\<rparr>"
  have j: "job_names ?hs" "0 < per" "length ds * per < 2 ^ 64 - 1"
    using ds(1) by (simp_all add: job_descs_def)
  have k: "g div per < length ds"
    using ds(2) by (simp add: less_mult_imp_div_less)
  let ?c = "reference_config ?hs per g (job_ids per g (job_start ?hs per g ?i))"
  have p: "dpu_offload_parse_list_dpus (job_start ?hs per g ?i) = Inr (DO_SUCCESS, ?c)"
    using parse_list_dpus_job[OF j(1,2), of g "Some path"] ds(2) j(3) by simp
  have start: "(default_config_file (job_env path ?hs per g) INIT_DPU_CONFIG_DATA)
      \<lparr>cf_hostname := dd_name (ds ! (g div per)), cf_list_dpus := job_env path ?hs per g LIST_DPUS_ENVVAR,
       cf_local_id_str := job_env path ?hs per g DPU_OFFLOAD_SERVICE_PROCESS_LOCAL_ID_ENVVAR,
       cf_num_service_procs_per_dpu_str := job_env path ?hs per g DPU_OFFLOAD_SERVICE_PROCESSES_PER_DPU_ENVVAR,
       cf_global_id_str := job_env path ?hs per g DPU_OFFLOAD_SERVICE_PROCESS_GLOBAL_ID_ENVVAR\<rparr> = job_start ?hs per g ?i"
    using k by (simp add: default_config_file_def job_start_def INIT_DPU_CONFIG_DATA_def)
  have np: "\<not> length ds * per = UINT64_MAX" "cf_config_file ?c = Some path" "cfg_num_service_procs_per_dpu ?c = per"
      "cf_num_dpus ?c = length ds" "cf_num_service_procs ?c = length ds * per"
    using j(3) by (simp_all add: UINT64_MAX_def reference_config_def mesh_config_def job_ids_def job_start_def)
  define c3 where "c3 = ?c\<lparr>cf_num_service_procs := length ds * per\<rparr>"
  have c3: "(if per = 1 then Inr (?c\<lparr>cf_num_service_procs := length ds\<rparr>)
     else bindE (assertE (0 < per \<and> length ds * per \<noteq> UINT64_MAX)) (\<lambda>_. Inr (?c\<lparr>cf_num_service_procs := length ds * per\<rparr>))) = Inr c3"
    using np(1) j(2) by (simp add: c3_def)
  have "parsed ds per g [] (c3\<lparr>cf_format_version := 1\<rparr>)"
    using k j(2)
    by (simp add: parsed_def c3_def reference_config_def mesh_config_def job_ids_def job_start_def dpus_in_def sps_in_def
        INIT_DPU_CONFIG_DATA_def) (simp add: map_nth map_map[symmetric] comp_def map_equality_iff)
  from find_dpu_config_spec[OF ds plat(1,2) _ this, of fs path] fs plat(3) obtain c where
    f: "find_dpu_config_from_platform_configfile fs path c3 = Inr (DO_SUCCESS, c)" "parsed ds per g order c"
    by auto
  have "desc_ok (ds ! (g div per))" "length (dd_ports (ds ! (g div per))) = per" "length (dd_host_ports (ds ! (g div per))) = per"
    using job_desc[OF ds(1) k] by blast+
  then have "0 < port_of ds per g" "0 < host_port_of ds per g"
    using j(2) by (simp_all add: port_of_def host_port_of_def desc_ok_def ports_ok_def)
  then have ports: "0 < cp_port (cf_inter_conn_params c) \<and> 0 < cp_port (cf_host_conn_params c)"
    using f(2) k plat(3) by (simp add: parsed_def conn_of_def)
  have cf: "cf_config_file c3 = Some path"
    using np(2) by (simp add: c3_def)
  have "get_dpu_config (job_env path ?hs per g) fs (dd_name (ds ! (g div per))) INIT_DPU_CONFIG_DATA = Inr (DO_SUCCESS, c)"
    unfolding get_dpu_config_def Let_def start p bindE_simps prod.case np(3-5) c3 cf option.case f(1)
    using ports by simp
  with f(2) show ?thesis
    by blast
qed

lemma nth_concat_same:
  assumes "\<forall>xs \<in> set xss. length xs = per" "j < length xss * per"
  shows "concat xss ! j = xss ! (j div per) ! (j mod per)"
  using assms
proof (induction xss arbitrary: j)
  case Nil
  then show ?case by simp
next
  case (Cons xs xss)
  show ?case
  proof (cases "j < per")
    case True
    with Cons.prems show ?thesis by (simp add: nth_append)
  next
    case False
    have per: "0 < per"
      using Cons.prems(2) by (cases per) simp_all
    have "j div per = Suc ((j - per) div per)" "(j - per) mod per = j mod per"
      using False per by (simp_all add: le_div_geq le_mod_geq)
    moreover have "j - per < length xss * per"
      using False Cons.prems(2) by simp
    ultimately show ?thesis
      using Cons False by (simp add: nth_append)
  qed
qed

text \<open>The parameters of a connection: the address of the DPU, and the port of the DPU at its place in the file.\<close>

lemma prepare_connection_parsed:
  assumes ds: "job_descs ds per" "g < length ds * per" "j < length ds * per" and c: "parsed ds per g order c"
    and order: "set order = {..<length ds}" "distinct order"
  shows "\<exists>c'. prepare_connection j c
         = Inr ((conn_of ds per j)\<lparr>cp_port := port_of ds per (order ! (j div per) * per + j mod per)\<rparr>, c')"
proof -
  have j: "j div per < length ds" "0 < per" "length ds * per < 2 ^ 64 - 1"
    using ds(1,3) by (simp_all add: less_mult_imp_div_less job_descs_def)
  have len: "length order = length ds"
    using order distinct_card by fastforce
  let ?m = "order ! (j div per)"
  have m: "?m < length ds"
    using len j(1) order(1) nth_mem[of "j div per" order] by auto
  let ?p = "?m * per + j mod per"
  have cat: "concat (map (dpu_entries ds per) order) ! j = sp_entry_of ds per ?p"
    using nth_concat_same[of "map (dpu_entries ds per) order" per j] ds(3) len j(1,2)
    by (simp add: dpu_entries_def)
  have total: "length (concat (map (dpu_entries ds per) order)) = length ds * per"
    unfolding len[symmetric] by (induction order) (simp_all add: dpu_entries_def)
  have pm: "?p div per = ?m" "?p mod per = j mod per"
    using j(2) by simp_all
  have "0 < port_of ds per ?p"
    unfolding port_of_def pm using job_desc(1,2)[OF ds(1) m] j(2) by (simp add: desc_ok_def ports_ok_def)
  moreover have "port_of ds per j \<noteq> - 1"
    by (simp add: port_of_def)
  moreover have "j \<noteq> UINT64_MAX" "g \<noteq> UINT64_MAX"
    using ds(2,3) j(3) by (auto simp: UINT64_MAX_def)
  ultimately show ?thesis
    using c ds(3) j(1) order(1) cat total
    by (simp add: prepare_connection_def parsed_def sps_in_def mesh_sp_def mesh_dpu_def Let_def conn_of_def
        sp_entry_of_def[of ds per ?p])
qed

text \<open>C13: With a configuration file that lists the DPUs in the order of the job, the service process with the lower
  identifier connects to the one with the higher identifier, with the address and the port that one listens on.\<close>

theorem peers_agree_on_ports:
  assumes "job_descs ds per" "platform_ok plat" "concat (map snd plat) = ds" "fs path = Some (print_platform plat)"
    and "i < j" "j < length ds * per"
  defines "config \<equiv> \<lambda>g. get_dpu_config (job_env path (map dd_name ds) per g) fs (dd_name (ds ! (g div per))) INIT_DPU_CONFIG_DATA"
  shows "\<exists>ci cj c'. config i = Inr (DO_SUCCESS, ci) \<and> config j = Inr (DO_SUCCESS, cj) \<and> j \<in> set (cf_sps_connect_to ci)
           \<and> prepare_connection j ci = Inr (cf_inter_conn_params cj, c')"
proof -
  let ?o = "[0..<length ds]"
  have i: "i < length ds * per" and jd: "j div per < length ds"
    using assms(5,6) by (simp_all add: less_mult_imp_div_less)
  have o: "concat (map snd plat) = map ((!) ds) ?o" "set ?o = {..<length ds}"
    using assms(3) by (auto simp: map_nth)
  obtain ci cj where c: "config i = Inr (DO_SUCCESS, ci)" "parsed ds per i ?o ci"
    "config j = Inr (DO_SUCCESS, cj)" "parsed ds per j ?o cj"
    using get_dpu_config_spec[OF assms(1) i assms(2) o, of fs path] get_dpu_config_spec[OF assms(1,6,2) o, of fs path] assms(4)
    unfolding config_def by blast
  have "(conn_of ds per j)\<lparr>cp_port := port_of ds per (?o ! (j div per) * per + j mod per)\<rparr> = conn_of ds per j"
    using jd by (simp add: conn_of_def)
  then have "\<exists>c'. prepare_connection j ci = Inr (conn_of ds per j, c')"
    using prepare_connection_parsed[OF assms(1) i assms(6) c(2) o(2)] by simp
  moreover have "cf_inter_conn_params cj = conn_of ds per j" "j \<in> set (cf_sps_connect_to ci)"
    using c(2,4) assms(5,6) jd by (simp_all add: parsed_def)
  ultimately show ?thesis
    using c(1,3) by auto
qed

definition demo_desc2 :: dpu_desc where
  "demo_desc2 = \<lparr>dd_name = ''dpu2'', dd_addr = ''10.0.0.2'', dd_ports = [11113, 11114], dd_host_ports = [9999, 10000]\<rparr>"

definition demo_platform :: platform where
  "demo_platform = [(''host1'', [demo_desc]), (''host2'', [demo_desc2])]"

lemma demo_platform_ok: "platform_ok demo_platform" "job_descs [demo_desc, demo_desc2] 2"
  by (simp_all add: platform_ok_def demo_platform_def desc_ok_def word_ok_def ports_ok_def demo_desc_def demo_desc2_def
      newline_def job_descs_def job_names_def all_less_two)

theorem peers_agree_on_ports_witness:
  "\<exists>ci cj c'. get_dpu_config (job_env ''cfg'' [''dpu1'', ''dpu2''] 2 1) (\<lambda>_. Some (print_platform demo_platform)) ''dpu1'' INIT_DPU_CONFIG_DATA
       = Inr (DO_SUCCESS, ci)
     \<and> get_dpu_config (job_env ''cfg'' [''dpu1'', ''dpu2''] 2 3) (\<lambda>_. Some (print_platform demo_platform)) ''dpu2'' INIT_DPU_CONFIG_DATA
       = Inr (DO_SUCCESS, cj)
     \<and> 3 \<in> set (cf_sps_connect_to ci) \<and> prepare_connection 3 ci = Inr (cf_inter_conn_params cj, c')"
proof -
  have "concat (map snd demo_platform) = [demo_desc, demo_desc2]"
    by (simp add: demo_platform_def)
  from peers_agree_on_ports[OF demo_platform_ok(2,1) this, of "\<lambda>_. Some (print_platform demo_platform)" "''cfg''" 1 3]
  show ?thesis
    by (simp add: demo_desc_def demo_desc2_def)
qed

section \<open>Files in another order\<close>

text \<open>C29: When the file lists the DPUs in another order, the service process connects to the right address but with
  the port of another service process: the one of the DPU at the place of the peer's DPU in the file, while the
  peer listens on the port of its own DPU.\<close>

theorem file_order_decides_ports:
  assumes "job_descs ds per" "platform_ok plat" "concat (map snd plat) = map ((!) ds) order" "fs path = Some (print_platform plat)"
    and "set order = {..<length ds}" "distinct order" "i < j" "j < length ds * per"
  defines "config \<equiv> \<lambda>g. get_dpu_config (job_env path (map dd_name ds) per g) fs (dd_name (ds ! (g div per))) INIT_DPU_CONFIG_DATA"
  shows "\<exists>ci cj conn c'. config i = Inr (DO_SUCCESS, ci) \<and> config j = Inr (DO_SUCCESS, cj)
           \<and> prepare_connection j ci = Inr (conn, c') \<and> cp_addr_str conn = cp_addr_str (cf_inter_conn_params cj)
           \<and> cp_port conn = int (dd_ports (ds ! (order ! (j div per))) ! (j mod per))
           \<and> cp_port (cf_inter_conn_params cj) = int (dd_ports (ds ! (j div per)) ! (j mod per))"
proof -
  have i: "i < length ds * per" and jd: "j div per < length ds" and per: "0 < per"
    using assms(1,7,8) by (simp_all add: less_mult_imp_div_less job_descs_def)
  obtain ci cj where c: "config i = Inr (DO_SUCCESS, ci)" "parsed ds per i order ci"
    "config j = Inr (DO_SUCCESS, cj)" "parsed ds per j order cj"
    using get_dpu_config_spec[OF assms(1) i assms(2,3,5), of fs path] get_dpu_config_spec[OF assms(1,8,2,3,5), of fs path] assms(4)
    unfolding config_def by blast
  have "cf_inter_conn_params cj = conn_of ds per j"
    using c(4) jd assms(5) by (simp add: parsed_def)
  with c(1,3) prepare_connection_parsed[OF assms(1) i assms(8) c(2) assms(5,6)] per show ?thesis
    by (auto simp: conn_of_def port_of_def)
qed

definition swapped_platform :: platform where
  "swapped_platform = [(''host2'', [demo_desc2]), (''host1'', [demo_desc])]"

theorem file_order_decides_ports_witness:
  "\<exists>ci cj conn c'. get_dpu_config (job_env ''cfg'' [''dpu1'', ''dpu2''] 2 1) (\<lambda>_. Some (print_platform swapped_platform)) ''dpu1'' INIT_DPU_CONFIG_DATA
       = Inr (DO_SUCCESS, ci)
     \<and> get_dpu_config (job_env ''cfg'' [''dpu1'', ''dpu2''] 2 3) (\<lambda>_. Some (print_platform swapped_platform)) ''dpu2'' INIT_DPU_CONFIG_DATA
       = Inr (DO_SUCCESS, cj)
     \<and> prepare_connection 3 ci = Inr (conn, c') \<and> cp_port conn = 11112 \<and> cp_port (cf_inter_conn_params cj) = 11114"
proof -
  have "concat (map snd swapped_platform) = map ((!) [demo_desc, demo_desc2]) [1, 0]" "platform_ok swapped_platform"
    using demo_platform_ok(1) by (simp_all add: swapped_platform_def demo_platform_def platform_ok_def)
  from file_order_decides_ports[OF demo_platform_ok(2) this(2,1), of "\<lambda>_. Some (print_platform swapped_platform)" "''cfg''" 1 3]
  show ?thesis
    by (fastforce simp: demo_desc_def demo_desc2_def)
qed

end
