(* ===== verification/Bootstrap.thy ===== *)
theory Bootstrap
imports Group_Protocol Event_System C_Strings
begin

text \<open>
  Connections between clients and servers (\<open>src/src/dpu_offload_service_daemon.c\<close>): the exchange over the socket,
  the steps of the exchange over UCX on both sides, the end of a connection attempt with its effect on the group
  cache, and the end of a connection.

  What UCX answers to a send or a receive is a parameter of the steps: the operation completes at once, stays in
  progress, or fails.  The callback that UCX invokes when an operation completes is \<open>oob_recv_generic_handler\<close>
  or \<open>ucx_client_bootstrap_send_cb\<close>.  The messages that were sent and received are logs.
\<close>

section \<open>Data\<close>

datatype bootstrap_phase_t = BOOTSTRAP_NOT_INITIATED | OOB_CONNECT_DONE | UCX_CONNECT_DONE | BOOTSTRAP_DONE | DISCONNECTED
  | BOOTSTRAP_PHASE_UNKNOWN

text \<open>Of the contexts of the operations only \<open>complete\<close> is used.\<close>

record bootstrapping_t =
  b_phase :: bootstrap_phase_t
  b_addr_size_request :: ucx_request
  b_addr_size_complete :: bool
  b_addr_request :: ucx_request
  b_addr_complete :: bool
  b_rank_request :: ucx_request
  b_rank_complete :: bool
  b_step4_posted :: bool
  b_step4_request :: ucx_request
  b_step4_complete :: bool

definition RESET_BOOTSTRAPPING :: bootstrapping_t where
  "RESET_BOOTSTRAPPING =
     \<lparr>b_phase = BOOTSTRAP_NOT_INITIATED, b_addr_size_request = No_request, b_addr_size_complete = False,
      b_addr_request = No_request, b_addr_complete = False, b_rank_request = No_request, b_rank_complete = False,
      b_step4_posted = False, b_step4_request = No_request, b_step4_complete = False\<rparr>"

text \<open>Of \<open>service_proc_t\<close> the identifiers are kept.\<close>

record service_proc_t =
  spr_local_id :: nat
  spr_global_id :: nat

datatype boot_msg = Addr_size nat | Addr "u8 list" | Rank rank_info_t | Sp_data service_proc_t

datatype 'm answer = Now 'm | Later | Failed

text \<open>What a server knows of a client; the array for cache entries is allocated or not.\<close>

record client_info_t =
  ci_boot :: bootstrapping_t
  ci_id :: nat
  ci_addr_len :: nat
  ci_addr :: "u8 list option"
  ci_ep :: bool
  ci_rank_data :: rank_info_t
  ci_index_allocated :: bool
  ci_index :: "int \<times> int \<times> int"
  ci_received :: "boot_msg list"
  ci_sent :: "boot_msg list"

definition zero_rank_info :: rank_info_t where
  "zero_rank_info = \<lparr>ri_group_uid = 0, ri_group_rank = 0, ri_group_size = 0, ri_n_local_ranks = 0, ri_local_rank = 0,
     ri_host_info = 0, ri_group_seq_num = 0\<rparr>"

definition zero_client_info :: client_info_t where
  "zero_client_info = \<lparr>ci_boot = RESET_BOOTSTRAPPING, ci_id = 0, ci_addr_len = 0, ci_addr = None, ci_ep = False,
     ci_rank_data = zero_rank_info, ci_index_allocated = False, ci_index = (0, 0, 0), ci_received = [], ci_sent = []\<rparr>"

text \<open>The callbacks of the library for the end of a connection attempt.\<close>

datatype connected_cb_t = No_connected_cb | Local_rank_cb | Service_proc_cb

record server_t =
  sv_id :: nat
  sv_scope :: execution_scope_t
  sv_num_total_connected_clients :: nat
  sv_num_connected_clients :: nat
  sv_num_ongoing_connections :: nat
  sv_clients :: "client_info_t list"
  sv_connected_cb :: connected_cb_t
  sv_local_addr :: "u8 list"
  sv_done :: bool

type_synonym server_state = "server_t \<times> offloading_engine_t"

definition DEFAULT_MAX_NUM_CLIENTS :: nat where "DEFAULT_MAX_NUM_CLIENTS = 256"

definition server_init_context :: "nat \<Rightarrow> execution_scope_t \<Rightarrow> connected_cb_t \<Rightarrow> u8 list \<Rightarrow> server_t" where
  "server_init_context server_id scope cb addr =
     \<lparr>sv_id = server_id, sv_scope = scope, sv_num_total_connected_clients = 0, sv_num_connected_clients = 0,
      sv_num_ongoing_connections = 0,
      sv_clients = replicate DEFAULT_MAX_NUM_CLIENTS (zero_client_info\<lparr>ci_index_allocated := True\<rparr>),
      sv_connected_cb = cb, sv_local_addr = addr, sv_done = False\<rparr>"

definition client_at :: "nat \<Rightarrow> server_t \<Rightarrow> client_info_t" where
  "client_at i sv = arr_get i zero_client_info (sv_clients sv)"

definition put_client :: "nat \<Rightarrow> client_info_t \<Rightarrow> server_t \<Rightarrow> server_t" where
  "put_client i ci sv = sv\<lparr>sv_clients := arr_put i zero_client_info ci (sv_clients sv)\<rparr>"

section \<open>The exchange over UCX on the server\<close>

text \<open>The answers of UCX in one pass over a client: to the three receives, to the creation of the endpoint and to
  the send of the data about the service process; and whether memory can be allocated for the address.\<close>

record server_answers =
  sa_size :: "nat answer"
  sa_malloc :: bool
  sa_addr :: "u8 list answer"
  sa_ep_create :: bool
  sa_rank :: "rank_info_t answer"
  sa_sp_data :: "unit answer"

definition boot_upd :: "(bootstrapping_t \<Rightarrow> bootstrapping_t) \<Rightarrow> client_info_t \<Rightarrow> client_info_t" where
  "boot_upd f ci = ci\<lparr>ci_boot := f (ci_boot ci)\<rparr>"

text \<open>What a receive stores when it completes.\<close>

definition got_size :: "nat \<Rightarrow> client_info_t \<Rightarrow> client_info_t" where
  "got_size n ci = (boot_upd (b_addr_size_complete_update (\<lambda>_. True)) ci)
     \<lparr>ci_addr_len := n, ci_received := ci_received ci @ [Addr_size n]\<rparr>"

definition got_addr :: "u8 list \<Rightarrow> client_info_t \<Rightarrow> client_info_t" where
  "got_addr a ci = (boot_upd (b_addr_complete_update (\<lambda>_. True)) ci)
     \<lparr>ci_addr := Some a, ci_received := ci_received ci @ [Addr a]\<rparr>"

definition got_rank :: "rank_info_t \<Rightarrow> client_info_t \<Rightarrow> client_info_t" where
  "got_rank r ci = (boot_upd (b_rank_complete_update (\<lambda>_. True)) ci)
     \<lparr>ci_rank_data := r, ci_received := ci_received ci @ [Rank r]\<rparr>"

definition oob_server_ucx_client_connection_step1 :: "server_answers \<Rightarrow> client_info_t \<Rightarrow> (dpu_offload_status_t \<times> client_info_t) res" where
  "oob_server_ucx_client_connection_step1 sa ci =
     bindE (assertE (\<not> b_addr_size_complete (ci_boot ci))) (\<lambda>_.
     case sa_size sa of
       Failed \<Rightarrow> Inr (DO_ERROR, boot_upd (b_addr_size_request_update (\<lambda>_. Error_request)) ci)
     | Now n \<Rightarrow> Inr (DO_SUCCESS, got_size n (boot_upd (b_addr_size_request_update (\<lambda>_. No_request)) ci))
     | Later \<Rightarrow> Inr (DO_SUCCESS, boot_upd (b_addr_size_request_update (\<lambda>_. Request)) ci))"

definition oob_server_ucx_client_connection_step2 :: "server_answers \<Rightarrow> client_info_t \<Rightarrow> (dpu_offload_status_t \<times> client_info_t) res" where
  "oob_server_ucx_client_connection_step2 sa ci =
     bindE (assertE (0 < ci_addr_len ci)) (\<lambda>_.
     if \<not> sa_malloc sa then Inr (DO_ERROR, ci\<lparr>ci_addr := None\<rparr>) else
     let ci1 = ci\<lparr>ci_addr := Some (replicate (ci_addr_len ci) 0)\<rparr> in
     case sa_addr sa of
       Failed \<Rightarrow> Inr (DO_ERROR, boot_upd (b_addr_request_update (\<lambda>_. Error_request)) ci1)
     | Now a \<Rightarrow> Inr (DO_SUCCESS, got_addr a (boot_upd (b_addr_request_update (\<lambda>_. No_request)) ci1))
     | Later \<Rightarrow> Inr (DO_SUCCESS, boot_upd (b_addr_request_update (\<lambda>_. Request)) ci1))"

definition oob_server_ucx_client_connection_step3 :: "server_answers \<Rightarrow> client_info_t \<Rightarrow> dpu_offload_status_t \<times> client_info_t" where
  "oob_server_ucx_client_connection_step3 sa ci =
     (if \<not> sa_ep_create sa then (DO_ERROR, ci) else
      let ci1 = ci\<lparr>ci_ep := True\<rparr> in
      case sa_rank sa of
        Failed \<Rightarrow> (DO_ERROR, boot_upd (b_rank_request_update (\<lambda>_. Error_request)) ci1)
      | Now r \<Rightarrow> (DO_SUCCESS, got_rank r (boot_upd (b_rank_request_update (\<lambda>_. No_request)) ci1))
      | Later \<Rightarrow> (DO_SUCCESS, boot_upd (b_rank_request_update (\<lambda>_. Request)) ci1))"

definition local_service_proc :: "offloading_engine_t \<Rightarrow> service_proc_t" where
  "local_service_proc e = \<lparr>spr_local_id = cfg_local_sp_local_id (e_config e),
     spr_global_id = cfg_local_sp_global_id (e_config e)\<rparr>"

definition oob_server_ucx_client_connection_step4 ::
    "server_answers \<Rightarrow> offloading_engine_t \<Rightarrow> client_info_t \<Rightarrow> (dpu_offload_status_t \<times> client_info_t) res" where
  "oob_server_ucx_client_connection_step4 sa e ci =
     bindE (assertE (ci_ep ci)) (\<lambda>_.
     let sent = ci\<lparr>ci_sent := ci_sent ci @ [Sp_data (local_service_proc e)]\<rparr> in
     case sa_sp_data sa of
       Failed \<Rightarrow> Inr (DO_ERROR, boot_upd (b_step4_request_update (\<lambda>_. Error_request)) ci)
     | Now _ \<Rightarrow> Inr (DO_SUCCESS, boot_upd (\<lambda>b. b\<lparr>b_step4_request := No_request, b_step4_complete := True\<rparr>) sent)
     | Later \<Rightarrow> Inr (DO_SUCCESS, boot_upd (b_step4_request_update (\<lambda>_. Request)) sent))"

section \<open>The end of a connection attempt\<close>

text \<open>The server of the host shares its clients with the group cache.\<close>

definition peer_of :: "client_info_t \<Rightarrow> peer_info_t" where
  "peer_of ci = \<lparr>pi_id = ci_id ci, pi_addr_len = ci_addr_len ci,
     pi_addr = (case ci_addr ci of None \<Rightarrow> [] | Some a \<Rightarrow> a), pi_group_uid = ri_group_uid (ci_rank_data ci)\<rparr>"

definition share_clients :: "server_t \<Rightarrow> offloading_engine_t \<Rightarrow> offloading_engine_t" where
  "share_clients sv e =
     (if sv_scope sv = SCOPE_HOST_DPU
      then e\<lparr>e_num_connected_clients := sv_num_connected_clients sv, e_clients := map peer_of (sv_clients sv)\<rparr> else e)"

text \<open>The entry of the group cache for a rank that connected.\<close>

definition connected_entry :: "client_info_t \<Rightarrow> nat \<Rightarrow> peer_cache_entry_t \<Rightarrow> peer_cache_entry_t res" where
  "connected_entry ci my_id pe =
     bindE (updE (pe_shadow_service_procs pe) 0 my_id) (\<lambda>shadow.
     bindE (assertE (pe_ep pe = None)) (\<lambda>_.
     bindE (assertE (ci_addr ci \<noteq> None \<longrightarrow> ci_addr_len ci < MAX_ADDR_LEN)) (\<lambda>_.
     Inr (pe\<lparr>pe_peer := (pe_peer pe)\<lparr>pd_proc_info := COPY_RANK_INFO (ci_rank_data ci) (pd_proc_info (pe_peer pe)),
                pd_host_info := ri_host_info (ci_rank_data ci), pd_addr_len := ci_addr_len ci,
                pd_addr := (case ci_addr ci of None \<Rightarrow> pd_addr (pe_peer pe)
                            | Some a \<Rightarrow> take (ci_addr_len ci) a @ drop (ci_addr_len ci) (pd_addr (pe_peer pe)))\<rparr>,
             pe_client_id := ci_id ci, pe_num_shadow_service_procs := 1, pe_shadow_service_procs := shadow, pe_set := True\<rparr>))))"

definition add_cache_entry_for_new_client :: "nat \<Rightarrow> server_state \<Rightarrow> server_state res" where
  "add_cache_entry_for_new_client idx = (\<lambda>(sv, e).
     let ci = client_at idx sv; ri = ci_rank_data ci; uid = ri_group_uid ri in
     if uid = INT_MAX \<or> ri_group_rank ri = INVALID_RANK then Inr (sv, e) else
     bindE (GET_GROUP_CACHE_INTERNAL uid (ri_group_size ri) e) (\<lambda>e1.
     bindE (gp_get uid e1) (\<lambda>g.
     bindE (assertE (p_num (gc_persistent g) = 0 \<or> p_num (gc_persistent g) = 1)) (\<lambda>_.
     let e2 = (if p_num (gc_persistent g) = 0
               then gp_put uid (gc_persistent_update (\<lambda>p. p\<lparr>p_num := 1\<rparr>) g) e1 else e1) in
     bindE (GET_GROUP_RANK_CACHE_ENTRY uid (ri_group_rank ri) (ri_group_size ri) e2) (\<lambda>(p, e3).
     bindE (rank_entry uid p e3) (\<lambda>pe.
     bindE (connected_entry ci (if e_on_dpu e3 then cfg_local_sp_global_id (e_config e3) else sv_id sv) pe) (\<lambda>pe1.
     bindE (gp_get uid e3) (\<lambda>g3.
     bindE (set_rank_entry p pe1 g3) (\<lambda>g4.
     let g5 = (if gc_n_local_ranks g4 = 0 \<and> 0 \<le> ri_n_local_ranks ri
               then g4\<lparr>gc_n_local_ranks := nat (ri_n_local_ranks ri)\<rparr> else g4);
         g6 = g5\<lparr>gc_n_local_ranks_populated := Suc (gc_n_local_ranks_populated g5),
                 gc_num_local_entries := Suc (gc_num_local_entries g5)\<rparr>;
         e4 = gp_put uid g6 e3 in
     bindE (assertE (ci_index_allocated ci)) (\<lambda>_.
     let sv1 = put_client idx (ci\<lparr>ci_index := (uid, ri_group_rank ri, ri_group_size ri)\<rparr>) sv in
     bindE (update_topology_data uid (ri_group_rank ri) (cfg_local_sp_global_id (e_config e4))
              (cfg_local_sp_host_uid (e_config e4)) e4) (\<lambda>e5.
     Inr (sv1, e5))))))))))))"

text \<open>The callback of the server for ranks: it sends the cache of a group that became complete.\<close>

definition local_rank_connect_default_callback :: "transport \<Rightarrow> nat \<Rightarrow> server_state \<Rightarrow> server_state res" where
  "local_rank_connect_default_callback tr peer_id = (\<lambda>(sv, e).
     let ri = ci_rank_data (client_at peer_id sv); uid = ri_group_uid ri in
     if uid = INT_MAX then Inr (sv, e) else
     bindE (GET_GROUP_CACHE_INTERNAL uid (ri_group_size ri) e) (\<lambda>e1.
     bindE (gp_get uid e1) (\<lambda>g.
     bindE (assertE (gc_n_local_ranks_populated g \<le> gc_group_size g)) (\<lambda>_.
     if gc_group_size g = gc_num_local_entries g
     then bindE (send_gp_cache_to_host tr uid e1) (\<lambda>(rc, e2). Inr (sv, e2))
     else Inr (sv, e1)))))"

text \<open>The callback of the server for service processes.\<close>

definition client_service_proc_connected :: "nat \<Rightarrow> server_state \<Rightarrow> server_state res" where
  "client_service_proc_connected peer_id = (\<lambda>(sv, e).
     let r = ri_group_rank (ci_rank_data (client_at peer_id sv)) in
     bindE (assertE (sv_scope sv = SCOPE_INTER_SERVICE_PROCS \<and> e_on_dpu e)) (\<lambda>_.
     bindE (assertE (0 \<le> r \<and> nat r < e_num_service_procs e)) (\<lambda>_.
     bindE (nthE (e_service_procs e) (nat r)) (\<lambda>sp.
     bindE (assertE (nat r < cfg_local_sp_global_id (e_config e))) (\<lambda>_.
     Inr (sv, e\<lparr>e_service_procs := (e_service_procs e)[nat r := sp\<lparr>sp_econtext := Some CONTEXT_SERVER, sp_client_id := peer_id\<rparr>],
                e_num_connected_service_procs := Suc (e_num_connected_service_procs e)\<rparr>))))))"

definition connected_cb :: "transport \<Rightarrow> nat \<Rightarrow> server_state \<Rightarrow> server_state res" where
  "connected_cb tr idx s =
     (case sv_connected_cb (fst s) of
        No_connected_cb \<Rightarrow> Inr s
      | Local_rank_cb \<Rightarrow> local_rank_connect_default_callback tr idx s
      | Service_proc_cb \<Rightarrow> client_service_proc_connected idx s)"

text \<open>The counters of a connection that ends.\<close>

definition count_connected :: "nat \<Rightarrow> server_t \<Rightarrow> server_t" where
  "count_connected idx sv =
     (put_client idx (boot_upd (b_phase_update (\<lambda>_. BOOTSTRAP_DONE)) (client_at idx sv)) sv)
       \<lparr>sv_num_ongoing_connections := sv_num_ongoing_connections sv - 1,
        sv_num_connected_clients := Suc (sv_num_connected_clients sv),
        sv_num_total_connected_clients := Suc (sv_num_total_connected_clients sv)\<rparr>"

definition finalize_client_connection :: "transport \<Rightarrow> nat \<Rightarrow> server_state \<Rightarrow> server_state res" where
  "finalize_client_connection tr idx = (\<lambda>(sv, e).
     let sv1 = count_connected idx sv; e1 = share_clients sv1 e; ri = ci_rank_data (client_at idx sv1) in
     bindE (if e_on_dpu e1 \<and> sv_scope sv1 = SCOPE_HOST_DPU \<and> ri_group_uid ri \<noteq> INT_MAX \<and> ri_group_rank ri \<noteq> INVALID_RANK then
              bindE (add_cache_entry_for_new_client idx (sv1, e1)) (\<lambda>(sv2, e2).
              let e3 = (if e_host_id e2 = UINT64_MAX then e2\<lparr>e_host_id := ri_host_info ri\<rparr> else e2) in
              bindE (GROUP_CACHE_EXCHANGE tr (ri_group_uid ri) (nat (ri_n_local_ranks ri mod 2 ^ 64)) e3) (\<lambda>e4. Inr (sv2, e4)))
            else Inr (sv1, e1)) (connected_cb tr idx))"

section \<open>Progress of a server\<close>

text \<open>The steps of one client in one pass; the result is whether the pass goes on.  The last component is whether
  the connection is to be finalised.\<close>

definition clear_request :: "bool \<Rightarrow> ucx_request \<Rightarrow> ucx_request" where
  "clear_request complete req = (if complete \<and> req \<noteq> No_request then No_request else req)"

definition server_step12 :: "server_answers \<Rightarrow> client_info_t \<Rightarrow> (dpu_offload_status_t \<times> client_info_t) res" where
  "server_step12 sa ci =
     bindE (if \<not> b_addr_size_complete (ci_boot ci) \<and> b_addr_size_request (ci_boot ci) = No_request
            then oob_server_ucx_client_connection_step1 sa ci else Inr (DO_SUCCESS, ci)) (\<lambda>(rc, ci1).
     if rc \<noteq> DO_SUCCESS then Inr (rc, ci1) else
     let ci2 = boot_upd (\<lambda>b. b\<lparr>b_addr_size_request := clear_request (b_addr_size_complete b) (b_addr_size_request b)\<rparr>) ci1 in
     if b_addr_size_complete (ci_boot ci2) \<and> \<not> b_addr_complete (ci_boot ci2) \<and> b_addr_request (ci_boot ci2) = No_request
     then oob_server_ucx_client_connection_step2 sa ci2 else Inr (DO_SUCCESS, ci2))"

definition server_step123 :: "server_answers \<Rightarrow> client_info_t \<Rightarrow> (dpu_offload_status_t \<times> client_info_t) res" where
  "server_step123 sa ci =
     bindE (server_step12 sa ci) (\<lambda>(rc, ci1).
     if rc \<noteq> DO_SUCCESS then Inr (rc, ci1) else
     let ci2 = boot_upd (\<lambda>b. b\<lparr>b_addr_request := clear_request (b_addr_complete b) (b_addr_request b)\<rparr>) ci1 in
     Inr (if b_addr_complete (ci_boot ci2) \<and> \<not> b_rank_complete (ci_boot ci2) \<and> b_rank_request (ci_boot ci2) = No_request
          then oob_server_ucx_client_connection_step3 sa ci2 else (DO_SUCCESS, ci2)))"

text \<open>When the data about the rank was received: the endpoint of a service process is recorded, a rank is sent
  the data about the service process.\<close>

definition rank_received :: "server_answers \<Rightarrow> execution_scope_t \<Rightarrow> client_info_t \<times> offloading_engine_t
    \<Rightarrow> (dpu_offload_status_t \<times> client_info_t \<times> offloading_engine_t) res" where
  "rank_received sa scope = (\<lambda>(ci, e).
     let ci1 = boot_upd (\<lambda>b. b\<lparr>b_rank_request := No_request, b_phase := UCX_CONNECT_DONE, b_step4_complete := True\<rparr>) ci in
     if \<not> e_on_dpu e then Inr (DO_SUCCESS, ci1, e)
     else if scope = SCOPE_INTER_SERVICE_PROCS then
       let r = ri_group_rank (ci_rank_data ci1) in
       bindE (assertE (0 \<le> r \<and> nat r < e_num_service_procs e)) (\<lambda>_.
       bindE (nthE (e_service_procs e) (nat r)) (\<lambda>sp.
       Inr (DO_SUCCESS, ci1, e\<lparr>e_service_procs := (e_service_procs e)[nat r := sp\<lparr>sp_econtext := Some CONTEXT_SERVER\<rparr>]\<rparr>)))
     else if b_step4_posted (ci_boot ci1) then Inr (DO_SUCCESS, ci1, e)
     else
       bindE (oob_server_ucx_client_connection_step4 sa e (boot_upd (b_step4_complete_update (\<lambda>_. False)) ci1)) (\<lambda>(rc, ci2).
       if rc \<noteq> DO_SUCCESS then Inr (rc, ci2, e) else
       Inr (DO_SUCCESS, boot_upd (b_step4_posted_update (\<lambda>_. True)) ci2, e)))"

definition client_connecting :: "client_info_t \<Rightarrow> bool" where
  "client_connecting ci = (b_phase (ci_boot ci) = OOB_CONNECT_DONE \<or> b_phase (ci_boot ci) = UCX_CONNECT_DONE)"

definition progress_connecting_client :: "transport \<Rightarrow> server_answers \<Rightarrow> nat \<Rightarrow> server_state \<Rightarrow> (bool \<times> server_state) res" where
  "progress_connecting_client tr sa idx = (\<lambda>(sv, e).
     bindE (server_step123 sa (client_at idx sv)) (\<lambda>(rc, ci).
     if rc \<noteq> DO_SUCCESS then Inr (False, put_client idx ci sv, e) else
     bindE (if b_rank_complete (ci_boot ci) then rank_received sa (sv_scope sv) (ci, e) else Inr (DO_SUCCESS, ci, e)) (\<lambda>(rc, ci1, e1).
     if rc \<noteq> DO_SUCCESS then Inr (False, put_client idx ci1 sv, e1) else
     if b_step4_complete (ci_boot ci1)
     then bindE (finalize_client_connection tr idx
                   (put_client idx (boot_upd (b_step4_request_update (\<lambda>_. No_request)) ci1) sv, e1)) (\<lambda>s. Inr (True, s))
     else Inr (True, put_client idx ci1 sv, e1))))"

text \<open>The loop: \<open>i\<close> connections were handled, \<open>idx\<close> is the next client.  The bound on \<open>i\<close> is read anew in each
  round, and finalising a connection lowers it.\<close>

function progress_server_loop :: "transport \<Rightarrow> (nat \<Rightarrow> server_answers) \<Rightarrow> nat \<Rightarrow> nat \<Rightarrow> nat \<Rightarrow> server_state \<Rightarrow> server_state res" where
  "progress_server_loop tr env capacity i idx s =
     (if i < sv_num_ongoing_connections (fst s) \<and> idx < capacity then
        if client_connecting (client_at idx (fst s))
        then bindE (progress_connecting_client tr (env idx) idx s) (\<lambda>(go_on, s1).
             if go_on then progress_server_loop tr env capacity (Suc i) (Suc idx) s1 else Inr s1)
        else progress_server_loop tr env capacity i (Suc idx) s
      else Inr s)"
  by pat_completeness auto
termination
  by (relation "measure (\<lambda>(tr, env, capacity, i, idx, s). capacity - idx)") auto

declare progress_server_loop.simps [simp del]

definition progress_server_econtext :: "transport \<Rightarrow> (nat \<Rightarrow> server_answers) \<Rightarrow> server_state \<Rightarrow> server_state res" where
  "progress_server_econtext tr env s =
     (if 0 < sv_num_ongoing_connections (fst s)
      then progress_server_loop tr env (length (sv_clients (fst s))) 0 0 s else Inr s)"

section \<open>The exchange over the socket\<close>

text \<open>What the server writes to the socket.\<close>

record oob_hello =
  oh_addr :: "u8 list"
  oh_server_id :: nat
  oh_global_id :: nat
  oh_client_id :: nat

definition generate_unique_client_id :: "server_t \<Rightarrow> nat" where
  "generate_unique_client_id sv = sv_num_total_connected_clients sv + sv_num_ongoing_connections sv"

text \<open>The parameter is whether a client could be accepted.\<close>

definition oob_server_listen :: "bool \<Rightarrow> server_state \<Rightarrow> (dpu_offload_status_t \<times> oob_hello option \<times> server_state) res" where
  "oob_server_listen accepted = (\<lambda>(sv, e).
     if \<not> accepted then Inr (DO_ERROR, None, (sv, e)) else
     let client_id = generate_unique_client_id sv in
     bindE (assertE (e_on_dpu e \<and> sv_scope sv = SCOPE_INTER_SERVICE_PROCS \<longrightarrow> client_id < e_num_service_procs e)) (\<lambda>_.
     let ci = client_at client_id sv;
         ci1 = (boot_upd (b_phase_update (\<lambda>_. OOB_CONNECT_DONE)) ci)\<lparr>ci_id := client_id\<rparr>;
         sv1 = (put_client client_id ci1 sv)\<lparr>sv_num_ongoing_connections := Suc (sv_num_ongoing_connections sv)\<rparr> in
     Inr (DO_SUCCESS,
          Some \<lparr>oh_addr = sv_local_addr sv, oh_server_id = sv_id sv,
                oh_global_id = (if e_on_dpu e then cfg_local_sp_global_id (e_config e) else UINT64_MAX), oh_client_id = client_id\<rparr>,
          (sv1, e))))"

section \<open>Clients\<close>

record client_t =
  cl_boot :: bootstrapping_t
  cl_id :: nat
  cl_server_id :: nat
  cl_server_global_id :: nat
  cl_scope :: execution_scope_t
  cl_rank :: rank_info_t
  cl_ep :: bool
  cl_local_addr :: "u8 list"
  cl_peer_addr :: "u8 list option"
  cl_done :: bool
  cl_connected :: bool
  cl_sent :: "boot_msg list"

type_synonym client_state = "client_t \<times> offloading_engine_t"

text \<open>\<open>server_global_id\<close> is not reset: it is what the memory held.\<close>

definition RESET_CLIENT :: "execution_scope_t \<Rightarrow> rank_info_t \<Rightarrow> u8 list \<Rightarrow> nat \<Rightarrow> client_t" where
  "RESET_CLIENT scope ri addr old_server_global_id =
     \<lparr>cl_boot = RESET_BOOTSTRAPPING, cl_id = UINT64_MAX, cl_server_id = UINT64_MAX, cl_server_global_id = old_server_global_id,
      cl_scope = scope, cl_rank = ri, cl_ep = False, cl_local_addr = addr, cl_peer_addr = None, cl_done = False,
      cl_connected = False, cl_sent = []\<rparr>"

text \<open>The parameter is what was read from the socket, if the client could connect and allocate memory.\<close>

definition oob_connect :: "oob_hello option \<Rightarrow> client_t \<Rightarrow> dpu_offload_status_t \<times> client_t" where
  "oob_connect hello cl =
     (case hello of
        None \<Rightarrow> (DO_ERROR, cl)
      | Some h \<Rightarrow> (DO_SUCCESS, cl\<lparr>cl_peer_addr := Some (oh_addr h), cl_server_id := oh_server_id h,
            cl_server_global_id := oh_global_id h, cl_id := oh_client_id h,
            cl_boot := (cl_boot cl)\<lparr>b_phase := OOB_CONNECT_DONE\<rparr>\<rparr>))"

record client_answers =
  ca_ep_create :: bool
  ca_size :: "unit answer"
  ca_addr :: "unit answer"
  ca_rank :: "unit answer"
  ca_sp_data :: "service_proc_t answer"

definition cboot_upd :: "(bootstrapping_t \<Rightarrow> bootstrapping_t) \<Rightarrow> client_t \<Rightarrow> client_t" where
  "cboot_upd f cl = cl\<lparr>cl_boot := f (cl_boot cl)\<rparr>"

definition send_msg :: "boot_msg \<Rightarrow> client_t \<Rightarrow> client_t" where
  "send_msg m cl = cl\<lparr>cl_sent := cl_sent cl @ [m]\<rparr>"

definition client_ucx_bootstrap_step1 :: "client_answers \<Rightarrow> client_t \<Rightarrow> dpu_offload_status_t \<times> client_t" where
  "client_ucx_bootstrap_step1 ca cl =
     (if \<not> ca_ep_create ca then (DO_ERROR, cl) else
      let cl1 = cl\<lparr>cl_ep := True\<rparr>; sent = send_msg (Addr_size (length (cl_local_addr cl))) cl1 in
      case ca_size ca of
        Failed \<Rightarrow> (DO_ERROR, cboot_upd (b_addr_size_request_update (\<lambda>_. Error_request)) cl1)
      | Now _ \<Rightarrow> (DO_SUCCESS, cboot_upd (\<lambda>b. b\<lparr>b_addr_size_request := No_request, b_addr_size_complete := True\<rparr>) sent)
      | Later \<Rightarrow> (DO_SUCCESS, cboot_upd (b_addr_size_request_update (\<lambda>_. Request)) sent))"

definition client_ucx_bootstrap_step2 :: "client_answers \<Rightarrow> client_t \<Rightarrow> dpu_offload_status_t \<times> client_t" where
  "client_ucx_bootstrap_step2 ca cl =
     (let sent = send_msg (Addr (cl_local_addr cl)) cl in
      case ca_addr ca of
        Failed \<Rightarrow> (DO_ERROR, cboot_upd (b_addr_request_update (\<lambda>_. Error_request)) cl)
      | Now _ \<Rightarrow> (DO_SUCCESS, cboot_upd (\<lambda>b. b\<lparr>b_addr_request := No_request, b_addr_complete := True\<rparr>) sent)
      | Later \<Rightarrow> (DO_SUCCESS, cboot_upd (b_addr_request_update (\<lambda>_. Request)) sent))"

definition client_ucx_boostrap_step3 :: "client_answers \<Rightarrow> client_t \<Rightarrow> dpu_offload_status_t \<times> client_t" where
  "client_ucx_boostrap_step3 ca cl =
     (let sent = send_msg (Rank (cl_rank cl)) cl in
      case ca_rank ca of
        Failed \<Rightarrow> (DO_ERROR, cboot_upd (b_rank_request_update (\<lambda>_. Error_request)) cl)
      | Now _ \<Rightarrow> (DO_SUCCESS, cboot_upd (\<lambda>b. b\<lparr>b_rank_request := No_request, b_rank_complete := True,
                                              b_phase := UCX_CONNECT_DONE\<rparr>) sent)
      | Later \<Rightarrow> (DO_SUCCESS, cboot_upd (b_rank_request_update (\<lambda>_. Request)) sent))"

text \<open>The data about the service process is received into the configuration.\<close>

definition set_service_proc :: "service_proc_t \<Rightarrow> offloading_engine_t \<Rightarrow> offloading_engine_t" where
  "set_service_proc sp e = e\<lparr>e_config := (e_config e)\<lparr>cfg_local_sp_local_id := spr_local_id sp,
     cfg_local_sp_global_id := spr_global_id sp\<rparr>\<rparr>"

definition client_ucx_boostrap_step4 :: "client_answers \<Rightarrow> client_state \<Rightarrow> (dpu_offload_status_t \<times> client_state) res" where
  "client_ucx_boostrap_step4 ca = (\<lambda>(cl, e).
     case ca_sp_data ca of
       Failed \<Rightarrow> Inr (DO_ERROR, cboot_upd (b_step4_request_update (\<lambda>_. Error_request)) cl, e)
     | Now sp \<Rightarrow> Inr (DO_SUCCESS, cboot_upd (\<lambda>b. b\<lparr>b_step4_request := No_request, b_step4_complete := True,
                                                  b_step4_posted := True\<rparr>) cl, set_service_proc sp e)
     | Later \<Rightarrow> bindE (assertE (\<not> b_step4_complete (cl_boot cl))) (\<lambda>_.
         Inr (DO_SUCCESS, cboot_upd (\<lambda>b. b\<lparr>b_step4_request := Request, b_step4_posted := True\<rparr>) cl, e)))"

definition client_step12 :: "client_answers \<Rightarrow> client_t \<Rightarrow> dpu_offload_status_t \<times> client_t" where
  "client_step12 ca cl =
     (let (rc, cl1) = (if \<not> b_addr_size_complete (cl_boot cl) \<and> b_addr_size_request (cl_boot cl) = No_request
                       then client_ucx_bootstrap_step1 ca cl else (DO_SUCCESS, cl)) in
      if rc \<noteq> DO_SUCCESS then (rc, cl1) else
      let cl2 = cboot_upd (\<lambda>b. b\<lparr>b_addr_size_request := clear_request (b_addr_size_complete b) (b_addr_size_request b)\<rparr>) cl1 in
      if b_addr_size_complete (cl_boot cl2) \<and> \<not> b_addr_complete (cl_boot cl2) \<and> b_addr_request (cl_boot cl2) = No_request
      then client_ucx_bootstrap_step2 ca cl2 else (DO_SUCCESS, cl2))"

definition client_step123 :: "client_answers \<Rightarrow> client_t \<Rightarrow> dpu_offload_status_t \<times> client_t" where
  "client_step123 ca cl =
     (let (rc, cl1) = client_step12 ca cl in
      if rc \<noteq> DO_SUCCESS then (rc, cl1) else
      let cl2 = cboot_upd (\<lambda>b. b\<lparr>b_addr_request := clear_request (b_addr_complete b) (b_addr_request b)\<rparr>) cl1;
          (rc, cl3) = (if b_addr_complete (cl_boot cl2) \<and> \<not> b_rank_complete (cl_boot cl2) \<and> b_rank_request (cl_boot cl2) = No_request
                       then client_ucx_boostrap_step3 ca cl2 else (DO_SUCCESS, cl2)) in
      if rc \<noteq> DO_SUCCESS then (rc, cl3) else
      if b_rank_complete (cl_boot cl3) \<and> b_rank_request (cl_boot cl3) \<noteq> No_request
      then (DO_SUCCESS, cboot_upd (\<lambda>b. b\<lparr>b_rank_request := No_request, b_phase := UCX_CONNECT_DONE\<rparr>) cl3)
      else (DO_SUCCESS, cl3))"

text \<open>All the exchanges of a client are over.\<close>

definition exchanges_done :: "bootstrapping_t \<Rightarrow> bool" where
  "exchanges_done b =
     (b_addr_size_complete b \<and> b_addr_complete b \<and> b_rank_complete b \<and> b_addr_size_request b = No_request
      \<and> b_addr_request b = No_request \<and> b_rank_request b = No_request \<and> b_step4_complete b \<and> b_step4_request b = No_request)"

definition client_step4 :: "client_answers \<Rightarrow> client_state \<Rightarrow> (dpu_offload_status_t \<times> client_state) res" where
  "client_step4 ca = (\<lambda>(cl, e).
     if \<not> e_on_dpu e \<and> cl_scope cl = SCOPE_HOST_DPU then
       bindE (if b_rank_complete (cl_boot cl) \<and> \<not> b_step4_complete (cl_boot cl) \<and> \<not> b_step4_posted (cl_boot cl)
              then client_ucx_boostrap_step4 ca (cl, e) else Inr (DO_SUCCESS, cl, e)) (\<lambda>(rc, cl1, e1).
       if rc \<noteq> DO_SUCCESS then Inr (rc, cl1, e1) else
       Inr (DO_SUCCESS, cboot_upd (\<lambda>b. b\<lparr>b_step4_request := clear_request (b_step4_complete b) (b_step4_request b)\<rparr>) cl1, e1))
     else Inr (DO_SUCCESS, cboot_upd (b_step4_complete_update (\<lambda>_. True)) cl, e))"

text \<open>A client that finishes: a service process records the connection to the service process it is for, found in
  the list of clients (the parameter is its index, if it is in the list); a rank on the host adds itself to the
  cache of its group.\<close>

definition finalize_connection_to_remote_service_proc :: "nat \<Rightarrow> offloading_engine_t \<Rightarrow> offloading_engine_t res" where
  "finalize_connection_to_remote_service_proc remote_sp_idx e =
     bindE (nthE (e_service_procs e) remote_sp_idx) (\<lambda>sp.
     Inr (e\<lparr>e_service_procs := (e_service_procs e)[remote_sp_idx := sp\<lparr>sp_econtext := Some CONTEXT_CLIENT\<rparr>]\<rparr>))"

text \<open>The last step of the client.  That the callback for the connection ran is \<open>cl_connected\<close>; what
  \<open>connected_to_server_dpu\<close> does beyond, setting the default context of the peer and counting the connected service
  processes in \<open>num_connected_service_procs\<close>, is not modelled.\<close>

definition finish_client :: "nat option \<Rightarrow> client_state \<Rightarrow> client_state res" where
  "finish_client remote_sp = (\<lambda>(cl, e).
     let cl1 = cboot_upd (b_phase_update (\<lambda>_. BOOTSTRAP_DONE)) cl; ri = cl_rank cl1; uid = ri_group_uid ri in
     bindE (case remote_sp of
              Some k \<Rightarrow> if e_on_dpu e then finalize_connection_to_remote_service_proc k e else Inr e
            | None \<Rightarrow> Inr e) (\<lambda>e1.
     bindE (if uid \<noteq> INT_MAX \<and> ri_group_rank ri \<noteq> INVALID_RANK then
              bindE (assertE (cfg_local_sp_global_id (e_config e1) \<noteq> UINT64_MAX)) (\<lambda>_.
              bindE (GET_GROUP_CACHE_INTERNAL uid (ri_group_size ri) e1) (\<lambda>e2.
              bindE (if \<not> e_on_dpu e2 then host_add_local_rank_to_cache ri e2 else Inr e2) (\<lambda>e3.
              update_topology_data uid (ri_group_rank ri) (cfg_local_sp_global_id (e_config e3)) (ri_host_info ri) e3)))
            else Inr e1) (\<lambda>e4.
     Inr (cl1\<lparr>cl_connected := True\<rparr>, e4))))"

definition progress_client_econtext :: "nat option \<Rightarrow> client_answers \<Rightarrow> client_state \<Rightarrow> client_state res" where
  "progress_client_econtext remote_sp ca = (\<lambda>(cl, e).
     let (rc, cl1) = (if b_phase (cl_boot cl) = OOB_CONNECT_DONE then client_step123 ca cl else (DO_SUCCESS, cl)) in
     if rc \<noteq> DO_SUCCESS then Inr (cl1, e) else
     if b_phase (cl_boot cl1) = UCX_CONNECT_DONE then
       bindE (client_step4 ca (cl1, e)) (\<lambda>(rc, cl2, e2).
       if rc \<noteq> DO_SUCCESS then Inr (cl2, e2) else
       if exchanges_done (cl_boot cl2) then finish_client remote_sp (cl2, e2) else Inr (cl2, e2))
     else Inr (cl1, e))"

text \<open>The callbacks of UCX for operations of a client.\<close>

datatype boot_op = Op_size | Op_addr | Op_rank

fun ucx_client_bootstrap_send_cb :: "boot_op \<Rightarrow> client_t \<Rightarrow> client_t" where
  "ucx_client_bootstrap_send_cb Op_size cl = cboot_upd (b_addr_size_complete_update (\<lambda>_. True)) cl"
| "ucx_client_bootstrap_send_cb Op_addr cl = cboot_upd (b_addr_complete_update (\<lambda>_. True)) cl"
| "ucx_client_bootstrap_send_cb Op_rank cl = cboot_upd (b_rank_complete_update (\<lambda>_. True)) cl"

fun oob_recv_generic_handler :: "boot_msg \<Rightarrow> client_info_t \<Rightarrow> client_info_t" where
  "oob_recv_generic_handler (Addr_size n) ci = got_size n ci"
| "oob_recv_generic_handler (Addr a) ci = got_addr a ci"
| "oob_recv_generic_handler (Rank r) ci = got_rank r ci"
| "oob_recv_generic_handler (Sp_data _) ci = ci"

section \<open>The end of a connection\<close>

text \<open>A termination message on a server; the result is whether the server is done.\<close>

definition term_msg_server :: "nat \<Rightarrow> server_t \<Rightarrow> (bool \<times> server_t) res" where
  "term_msg_server client_id sv =
     (let sv1 = put_client client_id (boot_upd (b_phase_update (\<lambda>_. DISCONNECTED)) (client_at client_id sv)) sv in
      bindE (assertE (0 < sv_num_connected_clients sv1)) (\<lambda>_.
      let sv2 = sv1\<lparr>sv_num_connected_clients := sv_num_connected_clients sv1 - 1\<rparr> in
      if sv_num_connected_clients sv2 = 0 \<and> sv_num_ongoing_connections sv2 = 0
      then Inr (True, sv2\<lparr>sv_done := True\<rparr>) else Inr (False, sv2)))"

end
