(* ===== verification/Bootstrap_Server.thy ===== *)
theory Bootstrap_Server
imports Bootstrap
begin

text \<open>
  The clients of a server: their identifiers are the indices of their slots, unique and consecutive, and the
  counters of the server agree with the phases of its clients, as long as accepting a client and finalising a
  connection do not overlap.
\<close>

section \<open>Slots\<close>

lemma client_at_put [simp]: "client_at j (put_client i ci sv) = (if j = i then ci else client_at j sv)"
  by (simp add: client_at_def put_client_def arr_get_put)

lemma put_client_simps [simp]:
  "sv_num_total_connected_clients (put_client i ci sv) = sv_num_total_connected_clients sv"
  "sv_num_connected_clients (put_client i ci sv) = sv_num_connected_clients sv"
  "sv_num_ongoing_connections (put_client i ci sv) = sv_num_ongoing_connections sv"
  "sv_scope (put_client i ci sv) = sv_scope sv" "sv_connected_cb (put_client i ci sv) = sv_connected_cb sv"
  "sv_id (put_client i ci sv) = sv_id sv" "sv_done (put_client i ci sv) = sv_done sv"
  by (simp_all add: put_client_def)

lemma client_at_counts [simp]:
  "client_at i (sv_num_total_connected_clients_update f sv) = client_at i sv"
  "client_at i (sv_num_connected_clients_update f sv) = client_at i sv"
  "client_at i (sv_num_ongoing_connections_update f sv) = client_at i sv"
  "client_at i (sv_done_update g sv) = client_at i sv"
  by (simp_all add: client_at_def)

abbreviation phase_at :: "nat \<Rightarrow> server_t \<Rightarrow> bootstrap_phase_t" where
  "phase_at i sv \<equiv> b_phase (ci_boot (client_at i sv))"

text \<open>A slot that was never used.\<close>

definition unused_slot :: "client_info_t \<Rightarrow> bool" where
  "unused_slot ci = (ci_boot ci = RESET_BOOTSTRAPPING \<and> ci_received ci = [] \<and> ci_sent ci = [])"

definition connecting_ids :: "server_t \<Rightarrow> nat set" where
  "connecting_ids sv = {i. client_connecting (client_at i sv)}"

definition connected_ids :: "server_t \<Rightarrow> nat set" where
  "connected_ids sv = {i. phase_at i sv = BOOTSTRAP_DONE}"

definition server_wf :: "server_t \<Rightarrow> bool" where
  "server_wf sv =
     ((\<forall>i < generate_unique_client_id sv. ci_id (client_at i sv) = i \<and> phase_at i sv \<noteq> BOOTSTRAP_NOT_INITIATED)
      \<and> (\<forall>i \<ge> generate_unique_client_id sv. unused_slot (client_at i sv))
      \<and> card (connecting_ids sv) = sv_num_ongoing_connections sv
      \<and> card (connected_ids sv) = sv_num_connected_clients sv)"

lemma unused_phase: "unused_slot ci \<Longrightarrow> b_phase (ci_boot ci) = BOOTSTRAP_NOT_INITIATED \<and> \<not> client_connecting ci"
  by (simp add: unused_slot_def RESET_BOOTSTRAPPING_def client_connecting_def)

lemma ids_bounded:
  assumes "server_wf sv"
  shows "connecting_ids sv \<subseteq> {..<generate_unique_client_id sv}" "connected_ids sv \<subseteq> {..<generate_unique_client_id sv}"
    "finite (connecting_ids sv)" "finite (connected_ids sv)"
proof -
  have "i < generate_unique_client_id sv" if "client_connecting (client_at i sv) \<or> phase_at i sv = BOOTSTRAP_DONE" for i
    using assms that unused_phase[of "client_at i sv"] unfolding server_wf_def by (metis bootstrap_phase_t.distinct(5) not_le)
  then show b: "connecting_ids sv \<subseteq> {..<generate_unique_client_id sv}" "connected_ids sv \<subseteq> {..<generate_unique_client_id sv}"
    by (auto simp: connecting_ids_def connected_ids_def)
  show "finite (connecting_ids sv)" "finite (connected_ids sv)"
    using b by (auto intro: finite_subset)
qed

lemma server_init_wf: "server_wf (server_init_context i scope cb addr)"
proof -
  have "unused_slot (client_at j (server_init_context i scope cb addr))" for j
    by (simp add: client_at_def server_init_context_def arr_get_def unused_slot_def zero_client_info_def)
  moreover from this have "connecting_ids (server_init_context i scope cb addr) = {}" "connected_ids (server_init_context i scope cb addr) = {}"
    using unused_phase by (auto simp: connecting_ids_def connected_ids_def)
  ultimately show ?thesis
    by (simp add: server_wf_def generate_unique_client_id_def) (simp add: server_init_context_def)
qed

text \<open>Changing a client while it connects.\<close>

lemma server_wf_put:
  assumes "server_wf sv" "client_connecting (client_at i sv)" "client_connecting ci" "ci_id ci = ci_id (client_at i sv)"
  shows "server_wf (put_client i ci sv)"
proof -
  have "connecting_ids (put_client i ci sv) = connecting_ids sv" "connected_ids (put_client i ci sv) = connected_ids sv"
    using assms(2,3) by (auto simp: connecting_ids_def connected_ids_def client_connecting_def)
  moreover have "i < generate_unique_client_id sv"
    using ids_bounded(1)[OF assms(1)] assms(2) by (auto simp: connecting_ids_def)
  ultimately show ?thesis
    using assms by (auto simp: server_wf_def generate_unique_client_id_def client_connecting_def)
qed

text \<open>Changing a client while keeping its phase and its identifier.\<close>

lemma server_wf_put_same:
  assumes "server_wf sv" "b_phase (ci_boot ci) = phase_at i sv" "ci_id ci = ci_id (client_at i sv)" "i < generate_unique_client_id sv"
  shows "server_wf (put_client i ci sv)"
proof -
  have "connecting_ids (put_client i ci sv) = connecting_ids sv" "connected_ids (put_client i ci sv) = connected_ids sv"
    using assms(2) by (auto simp: connecting_ids_def connected_ids_def client_connecting_def)
  then show ?thesis
    using assms by (auto simp: server_wf_def generate_unique_client_id_def)
qed

section \<open>Operations keep the invariant\<close>

lemma count_connected_wf:
  assumes "server_wf sv" "client_connecting (client_at i sv)"
  shows "server_wf (count_connected i sv)" "generate_unique_client_id (count_connected i sv) = generate_unique_client_id sv"
proof -
  have i: "i \<in> connecting_ids sv" "i \<notin> connected_ids sv" "i < generate_unique_client_id sv"
    using assms ids_bounded(1)[OF assms(1)]
    by (auto simp: connecting_ids_def connected_ids_def client_connecting_def)
  have pos: "0 < sv_num_ongoing_connections sv"
    using assms(1) i(1) ids_bounded(3)[OF assms(1)] card_gt_0_iff[of "connecting_ids sv"] by (auto simp: server_wf_def)
  then show g: "generate_unique_client_id (count_connected i sv) = generate_unique_client_id sv"
    by (simp add: generate_unique_client_id_def count_connected_def)
  have "connecting_ids (count_connected i sv) = connecting_ids sv - {i}"
    "connected_ids (count_connected i sv) = insert i (connected_ids sv)"
    by (auto simp: connecting_ids_def connected_ids_def count_connected_def client_connecting_def boot_upd_def)
  moreover have "card (connecting_ids sv - {i}) = sv_num_ongoing_connections sv - 1"
    "card (insert i (connected_ids sv)) = Suc (sv_num_connected_clients sv)"
    using assms(1) i ids_bounded(3,4)[OF assms(1)] by (simp_all add: server_wf_def)
  ultimately show "server_wf (count_connected i sv)"
    using assms(1) i(3) unfolding server_wf_def g
    by (simp add: count_connected_def boot_upd_def)
qed

text \<open>Adding a client to the cache of its group fills its index of cache entries only; the callbacks leave the
  server alone.\<close>

definition index_set :: "nat \<Rightarrow> server_t \<Rightarrow> server_t \<Rightarrow> bool" where
  "index_set idx sv sv' = (sv' = sv \<or> (\<exists>x. sv' = put_client idx ((client_at idx sv)\<lparr>ci_index := x\<rparr>) sv))"

lemma index_setI: "index_set idx sv sv" "index_set idx sv (put_client idx ((client_at idx sv)\<lparr>ci_index := x\<rparr>) sv)"
  unfolding index_set_def by blast+

lemma holdsE_bindI: "holdsE Q m \<Longrightarrow> (\<And>a. Q a \<Longrightarrow> holdsE P (f a)) \<Longrightarrow> holdsE P (bindE m f)"
  by (cases m) (simp_all add: holdsE_def)

lemma holdsE_any: "(\<And>a. P a) \<Longrightarrow> holdsE P m"
  by (simp add: holdsE_iff)

lemma add_cache_entry_server: "holdsE (\<lambda>s. index_set idx sv (fst s)) (add_cache_entry_for_new_client idx (sv, e))"
  unfolding add_cache_entry_for_new_client_def Let_def prod.case
  by (rule wp | rule holdsE_any | simp only: fst_conv index_setI)+

lemma connected_cb_server: "holdsE (\<lambda>s. fst s = sv) (connected_cb tr idx (sv, e))"
proof -
  have "holdsE (\<lambda>s. fst s = sv) (local_rank_connect_default_callback tr idx (sv, e))"
    unfolding local_rank_connect_default_callback_def Let_def prod.case
    by (rule wp | rule holdsE_any | simp only: fst_conv)+
  moreover have "holdsE (\<lambda>s. fst s = sv) (client_service_proc_connected idx (sv, e))"
    unfolding client_service_proc_connected_def Let_def prod.case
    by (rule wp | simp only: fst_conv)+
  ultimately show ?thesis
    by (simp add: connected_cb_def holdsE_Inr split: connected_cb_t.split)
qed

text \<open>Finalising a connection changes the slot of the client only.\<close>

lemma finalize_server:
  "holdsE (\<lambda>s. index_set idx (count_connected idx sv) (fst s)) (finalize_client_connection tr idx (sv, e))"
proof -
  have cb: "holdsE (\<lambda>s. index_set idx sv0 (fst s)) (connected_cb tr idx t)" if "index_set idx sv0 (fst t)" for sv0 t
    using holdsE_mono[OF connected_cb_server[of "fst t" tr idx "snd t"]] that by (cases t) auto
  have add: "holdsE (\<lambda>a. holdsE P (f a)) (add_cache_entry_for_new_client idx (sv0, e0))"
    if "\<And>sv1 e1. index_set idx sv0 sv1 \<Longrightarrow> holdsE P (f (sv1, e1))" for sv0 e0 P and f :: "server_state \<Rightarrow> server_state res"
    by (rule holdsE_mono[OF add_cache_entry_server]) (use that in \<open>auto simp: split_paired_all\<close>)
  show ?thesis
    unfolding finalize_client_connection_def Let_def prod.case
    by (rule holdsE_bind holdsE_if add holdsE_Inr cb index_setI | simp only: prod.case fst_conv | rule holdsE_any)+
qed

lemma finalize_wf:
  assumes "server_wf sv" "client_connecting (client_at idx sv)" "finalize_client_connection tr idx (sv, e) = Inr s"
    "sv' = fst s"
  shows "server_wf sv' \<and> generate_unique_client_id sv' = generate_unique_client_id sv
         \<and> (\<forall>j. j \<noteq> idx \<longrightarrow> client_at j sv' = client_at j sv)
         \<and> ci_boot (client_at idx sv') = (ci_boot (client_at idx sv))\<lparr>b_phase := BOOTSTRAP_DONE\<rparr>
         \<and> ci_received (client_at idx sv') = ci_received (client_at idx sv)"
proof -
  note c = count_connected_wf[OF assms(1,2)]
  let ?c = "count_connected idx sv"
  have at: "client_at j ?c = (if j = idx then boot_upd (b_phase_update (\<lambda>_. BOOTSTRAP_DONE)) (client_at idx sv) else client_at j sv)" for j
    by (simp add: count_connected_def)
  have "idx < generate_unique_client_id ?c"
    unfolding c(2) using ids_bounded(1)[OF assms(1)] assms(2) by (auto simp: connecting_ids_def)
  then have "server_wf (put_client idx ((client_at idx ?c)\<lparr>ci_index := x\<rparr>) ?c)" for x
    by (intro server_wf_put_same[OF c(1)]) simp_all
  moreover have "generate_unique_client_id (put_client idx ci ?c) = generate_unique_client_id sv" for ci
    using c(2) by (simp add: generate_unique_client_id_def)
  ultimately show ?thesis
    using finalize_server[of idx sv tr e] assms(3,4) c by (auto simp: holdsE_iff index_set_def at boot_upd_def)
qed

section \<open>The data that was received\<close>

text \<open>The messages arrive in the order of the steps, and what is stored is what they carried; a client is past
  the exchange only when all of them arrived.\<close>

definition exchange_ok :: "client_info_t \<Rightarrow> bool" where
  "exchange_ok ci = (let b = ci_boot ci in
     (if \<not> b_addr_size_complete b
      then ci_received ci = [] \<and> \<not> b_addr_complete b \<and> b_addr_request b = No_request \<and> \<not> b_rank_complete b
           \<and> b_rank_request b = No_request
      else if \<not> b_addr_complete b
      then ci_received ci = [Addr_size (ci_addr_len ci)] \<and> \<not> b_rank_complete b \<and> b_rank_request b = No_request
      else ci_addr ci \<noteq> None \<and> ci_received ci = [Addr_size (ci_addr_len ci), Addr (the (ci_addr ci))]
             @ (if b_rank_complete b then [Rank (ci_rank_data ci)] else []))
     \<and> (b_phase b \<notin> {BOOTSTRAP_NOT_INITIATED, OOB_CONNECT_DONE} \<or> b_step4_complete b \<or> b_step4_request b \<noteq> No_request
         \<longrightarrow> b_rank_complete b))"

text \<open>What a step keeps of a client that connects.\<close>

definition step_ok :: "client_info_t \<Rightarrow> client_info_t \<Rightarrow> bool" where
  "step_ok ci ci' = (exchange_ok ci' \<and> b_phase (ci_boot ci') = b_phase (ci_boot ci) \<and> ci_id ci' = ci_id ci)"

lemmas slot_defs = exchange_ok_def step_ok_def boot_upd_def got_size_def got_addr_def got_rank_def clear_request_def Let_def

lemma step_ok_refl: "exchange_ok ci \<Longrightarrow> step_ok ci ci"
  by (simp add: step_ok_def)

lemma step_ok_trans: "step_ok a b \<Longrightarrow> step_ok b c \<Longrightarrow> step_ok a c"
  by (simp add: step_ok_def)

lemma step_ok_exchange: "step_ok a b \<Longrightarrow> exchange_ok b"
  by (simp add: step_ok_def)

lemma step1_ok:
  assumes "exchange_ok ci" "\<not> b_addr_size_complete (ci_boot ci)"
  shows "holdsE (\<lambda>(rc, ci'). step_ok ci ci') (oob_server_ucx_client_connection_step1 sa ci)"
  using assms by (cases "sa_size sa") (auto simp: oob_server_ucx_client_connection_step1_def assertE_def holdsE_Inr slot_defs)

lemma step2_ok:
  assumes "exchange_ok ci" "b_addr_size_complete (ci_boot ci)" "\<not> b_addr_complete (ci_boot ci)"
  shows "holdsE (\<lambda>(rc, ci'). step_ok ci ci') (oob_server_ucx_client_connection_step2 sa ci)"
  using assms by (cases "sa_addr sa") (auto simp: oob_server_ucx_client_connection_step2_def assertE_def holdsE_Inr slot_defs)

lemma step3_ok:
  assumes "exchange_ok ci" "b_addr_complete (ci_boot ci)" "\<not> b_rank_complete (ci_boot ci)"
  shows "case oob_server_ucx_client_connection_step3 sa ci of (rc, ci') \<Rightarrow> step_ok ci ci'"
  using assms by (cases "sa_rank sa") (auto simp: oob_server_ucx_client_connection_step3_def slot_defs split: option.splits if_splits)

lemma clear_ok:
  assumes "exchange_ok ci"
  shows "step_ok ci (boot_upd (\<lambda>b. b\<lparr>b_addr_size_request := clear_request (b_addr_size_complete b) (b_addr_size_request b)\<rparr>) ci)"
    "step_ok ci (boot_upd (\<lambda>b. b\<lparr>b_addr_request := clear_request (b_addr_complete b) (b_addr_request b)\<rparr>) ci)"
  using assms by (auto simp: slot_defs)

lemma server_step12_ok:
  assumes "exchange_ok ci"
  shows "holdsE (\<lambda>(rc, ci'). step_ok ci ci') (server_step12 sa ci)"
proof -
  let ?clr = "boot_upd (\<lambda>b. b\<lparr>b_addr_size_request := clear_request (b_addr_size_complete b) (b_addr_size_request b)\<rparr>)"
  have first: "holdsE (\<lambda>(rc, ci'). step_ok ci ci')
      (if \<not> b_addr_size_complete (ci_boot ci) \<and> b_addr_size_request (ci_boot ci) = No_request
       then oob_server_ucx_client_connection_step1 sa ci else Inr (DO_SUCCESS, ci))"
    using assms step1_ok by (auto intro: holdsE_Inr step_ok_refl)
  have second: "holdsE (\<lambda>(rc, ci'). step_ok ci ci') (oob_server_ucx_client_connection_step2 sa (?clr ci1))"
    if "step_ok ci ci1" "b_addr_size_complete (ci_boot (?clr ci1)) \<and> \<not> b_addr_complete (ci_boot (?clr ci1)) \<and> P" for ci1 P
    using that clear_ok(1)[of ci1] step2_ok[of "?clr ci1" sa]
    by (auto intro!: holdsE_mono[OF step2_ok] intro: step_ok_trans dest: step_ok_exchange)
  have "step_ok ci (?clr ci1)" if "step_ok ci ci1" for ci1
    using that clear_ok(1)[of ci1] by (blast intro: step_ok_trans step_ok_exchange)
  with second show ?thesis
    unfolding server_step12_def Let_def
    by (intro holdsE_bind holdsE_mono[OF first]) (auto intro!: holdsE_Inr)
qed

lemma server_step123_ok:
  assumes "exchange_ok ci"
  shows "holdsE (\<lambda>(rc, ci'). step_ok ci ci') (server_step123 sa ci)"
proof -
  let ?clr = "boot_upd (\<lambda>b. b\<lparr>b_addr_request := clear_request (b_addr_complete b) (b_addr_request b)\<rparr>)"
  have clr: "step_ok ci (?clr ci1)" if "step_ok ci ci1" for ci1
    using that clear_ok(2)[of ci1] by (blast intro: step_ok_trans step_ok_exchange)
  have "step_ok ci ci'"
    if "step_ok ci ci1" "b_addr_complete (ci_boot (?clr ci1))" "\<not> b_rank_complete (ci_boot (?clr ci1))"
      "oob_server_ucx_client_connection_step3 sa (?clr ci1) = (rc, ci')" for ci1 rc ci'
    using step3_ok[OF step_ok_exchange[OF clr[OF that(1)]] that(2,3), of sa] clr[OF that(1)] that(4) by (auto intro: step_ok_trans)
  with clr show ?thesis
    unfolding server_step123_def Let_def
    by (intro holdsE_bind holdsE_mono[OF server_step12_ok[OF assms]]) (auto intro!: holdsE_Inr)
qed

text \<open>After the data about the rank: the client is past the exchange.\<close>

lemma rank_received_ok:
  assumes "exchange_ok ci" "b_rank_complete (ci_boot ci)"
  shows "holdsE (\<lambda>(rc, ci', e'). exchange_ok ci' \<and> b_phase (ci_boot ci') = UCX_CONNECT_DONE \<and> ci_id ci' = ci_id ci)
           (rank_received sa scope (ci, e))"
  unfolding rank_received_def oob_server_ucx_client_connection_step4_def Let_def prod.case
  using assms
  by (cases "sa_sp_data sa") (auto simp: slot_defs holdsE_def bindE_def assertE_def nthE_def split: if_splits)

section \<open>A pass over the clients\<close>

definition server_inv :: "server_t \<Rightarrow> bool" where
  "server_inv sv = (server_wf sv \<and> (\<forall>i. exchange_ok (client_at i sv)))"

lemma server_inv_put:
  assumes "server_inv sv" "client_connecting (client_at i sv)" "exchange_ok ci" "client_connecting ci" "ci_id ci = ci_id (client_at i sv)"
  shows "server_inv (put_client i ci sv)"
  using assms server_wf_put by (auto simp: server_inv_def)

lemma finalize_inv:
  assumes "server_inv sv" "client_connecting (client_at idx sv)" "b_rank_complete (ci_boot (client_at idx sv))"
  shows "holdsE (\<lambda>s. server_inv (fst s)) (finalize_client_connection tr idx (sv, e))"
proof (rule holdsE_mono[OF finalize_server])
  fix s assume s: "finalize_client_connection tr idx (sv, e) = Inr s" "index_set idx (count_connected idx sv) (fst s)"
  have "server_wf (fst s)"
    using finalize_wf[OF _ assms(2) s(1)] assms(1) by (simp add: server_inv_def)
  moreover have "exchange_ok (client_at i (fst s))" for i
    using s(2) assms(1,3) unfolding index_set_def
    by (cases "i = idx") (auto simp: server_inv_def count_connected_def slot_defs split: if_splits)
  ultimately show "server_inv (fst s)"
    by (simp add: server_inv_def)
qed

lemma progress_connecting_client_inv:
  assumes "server_inv sv" "client_connecting (client_at idx sv)"
  shows "holdsE (\<lambda>(go_on, s). server_inv (fst s)) (progress_connecting_client tr sa idx (sv, e))"
proof -
  let ?ci = "client_at idx sv"
  let ?ok = "\<lambda>ci. exchange_ok ci \<and> client_connecting ci \<and> ci_id ci = ci_id ?ci"
  have ex: "exchange_ok ?ci"
    using assms(1) by (simp add: server_inv_def)
  have first: "holdsE (\<lambda>(rc, ci). ?ok ci) (server_step123 sa ?ci)"
    by (rule holdsE_mono[OF server_step123_ok[OF ex]]) (use assms(2) in \<open>auto simp: step_ok_def client_connecting_def\<close>)
  have second: "holdsE (\<lambda>(rc, ci', e'). ?ok ci')
      (if b_rank_complete (ci_boot ci) then rank_received sa (sv_scope sv) (ci, e) else Inr (DO_SUCCESS, ci, e))"
    if "?ok ci" for ci
  proof (cases "b_rank_complete (ci_boot ci)")
    case True
    then have "holdsE (\<lambda>(rc, ci', e'). ?ok ci') (rank_received sa (sv_scope sv) (ci, e))"
      by (intro holdsE_mono[OF rank_received_ok]) (use that in \<open>auto simp: client_connecting_def\<close>)
    with True show ?thesis
      by simp
  qed (use that in \<open>simp add: holdsE_Inr\<close>)
  have third: "holdsE (\<lambda>(go_on, s). server_inv (fst s))
      (bindE (finalize_client_connection tr idx (put_client idx (boot_upd (b_step4_request_update (\<lambda>_. No_request)) ci) sv, e'))
         (\<lambda>s. Inr (True, s)))" if "?ok ci" "b_step4_complete (ci_boot ci)" for ci e'
  proof -
    let ?ci = "boot_upd (b_step4_request_update (\<lambda>_. No_request)) ci"
    have "server_inv (put_client idx ?ci sv)" "client_connecting ?ci" "b_rank_complete (ci_boot ?ci)"
      using that by (auto intro!: server_inv_put assms simp: client_connecting_def slot_defs split: if_splits)
    then show ?thesis
      by (intro holdsE_bind holdsE_mono[OF finalize_inv]) (auto intro: holdsE_Inr)
  qed
  have put: "server_inv (put_client idx ci sv)" if "?ok ci" for ci
    using that by (intro server_inv_put assms) auto
  show ?thesis
    unfolding progress_connecting_client_def prod.case
  proof (rule holdsE_bindI[OF first], clarify)
    fix rc ci assume ci: "exchange_ok ci" "client_connecting ci" "ci_id ci = ci_id ?ci"
    show "holdsE (\<lambda>(go_on, s). server_inv (fst s))
       (if rc \<noteq> DO_SUCCESS then Inr (False, put_client idx ci sv, e) else
        bindE (if b_rank_complete (ci_boot ci) then rank_received sa (sv_scope sv) (ci, e) else Inr (DO_SUCCESS, ci, e)) (\<lambda>(rc, ci1, e1).
        if rc \<noteq> DO_SUCCESS then Inr (False, put_client idx ci1 sv, e1) else
        if b_step4_complete (ci_boot ci1)
        then bindE (finalize_client_connection tr idx
                      (put_client idx (boot_upd (b_step4_request_update (\<lambda>_. No_request)) ci1) sv, e1)) (\<lambda>s. Inr (True, s))
        else Inr (True, put_client idx ci1 sv, e1)))"
      by (rule holdsE_if, simp add: holdsE_Inr put ci, rule holdsE_bindI[OF second])
         (use ci third put in \<open>auto simp: holdsE_Inr\<close>)
  qed
qed

lemma progress_server_loop_inv:
  "server_inv (fst s) \<Longrightarrow> holdsE (\<lambda>s'. server_inv (fst s')) (progress_server_loop tr env capacity i idx s)"
proof (induction tr env capacity i idx s rule: progress_server_loop.induct)
  case (1 tr env capacity i idx s)
  let ?more = "i < sv_num_ongoing_connections (fst s) \<and> idx < capacity"
  show ?case
  proof (cases "?more \<and> client_connecting (client_at idx (fst s))")
    case True
    then have "holdsE (\<lambda>(go_on, s1). server_inv (fst s1)) (progress_connecting_client tr (env idx) idx s)"
      using progress_connecting_client_inv[of "fst s" idx tr "env idx" "snd s"] 1(3) by simp
    then have "holdsE (\<lambda>s'. server_inv (fst s')) (bindE (progress_connecting_client tr (env idx) idx s) (\<lambda>(go_on, s1).
             if go_on then progress_server_loop tr env capacity (Suc i) (Suc idx) s1 else Inr s1))"
      by (intro holdsE_bind, elim holdsE_mono) (use True 1(1) in \<open>auto intro!: holdsE_Inr\<close>)
    with True show ?thesis
      by (subst progress_server_loop.simps) simp
  next
    case False
    with 1(2,3) show ?thesis
      by (subst progress_server_loop.simps) (auto intro!: holdsE_Inr)
  qed
qed

end
