(* ===== verification/Bootstrap_Clients.thy ===== *)
theory Bootstrap_Clients
imports Bootstrap_Server
begin

text \<open>
  Histories of a server: it accepts clients, makes passes over them, its receives and sends complete, and connected
  clients leave.  Each of these steps is taken as a whole.  Then histories of a client, and what the two sides
  know of each other.
\<close>

section \<open>Histories of a server\<close>

text \<open>The receives that UCX can complete.\<close>

fun receive_pending :: "boot_msg \<Rightarrow> client_info_t \<Rightarrow> bool" where
  "receive_pending (Addr_size _) ci = (b_addr_size_request (ci_boot ci) = Request \<and> \<not> b_addr_size_complete (ci_boot ci))"
| "receive_pending (Addr _) ci = (b_addr_request (ci_boot ci) = Request \<and> \<not> b_addr_complete (ci_boot ci))"
| "receive_pending (Rank _) ci = (b_rank_request (ci_boot ci) = Request \<and> \<not> b_rank_complete (ci_boot ci))"
| "receive_pending (Sp_data _) ci = False"

definition step4_sent :: "client_info_t \<Rightarrow> client_info_t" where
  "step4_sent = boot_upd (b_step4_complete_update (\<lambda>_. True))"

text \<open>The engine is shared: between two steps of the server other components may change it.\<close>

inductive server_reachable :: "server_state \<Rightarrow> bool" where
  start: "server_reachable (server_init_context k scope cb addr, e)"
| engine: "server_reachable (sv, e) \<Longrightarrow> server_reachable (sv, e')"
| listen: "server_reachable s \<Longrightarrow> oob_server_listen accepted s = Inr (rc, hello, s') \<Longrightarrow> server_reachable s'"
| progress: "server_reachable s \<Longrightarrow> progress_server_econtext tr env s = Inr s' \<Longrightarrow> server_reachable s'"
| receive: "server_reachable (sv, e) \<Longrightarrow> receive_pending m (client_at i sv)
    \<Longrightarrow> server_reachable (put_client i (oob_recv_generic_handler m (client_at i sv)) sv, e)"
| sent: "server_reachable (sv, e) \<Longrightarrow> b_step4_request (ci_boot (client_at i sv)) = Request
    \<Longrightarrow> server_reachable (put_client i (step4_sent (client_at i sv)) sv, e)"
| leave: "server_reachable (sv, e) \<Longrightarrow> phase_at i sv = BOOTSTRAP_DONE \<Longrightarrow> term_msg_server i sv = Inr (server_done, sv')
    \<Longrightarrow> server_reachable (sv', e)"

lemma used_slot:
  assumes "server_wf sv" "ci_boot (client_at i sv) \<noteq> RESET_BOOTSTRAPPING"
  shows "i < generate_unique_client_id sv"
  using assms by (auto simp: server_wf_def unused_slot_def not_le[symmetric])

lemma server_inv_same:
  assumes "server_inv sv" "step_ok (client_at i sv) ci" "ci_boot (client_at i sv) \<noteq> RESET_BOOTSTRAPPING"
  shows "server_inv (put_client i ci sv)"
  using assms server_wf_put_same[of sv ci i] used_slot[of sv i] by (auto simp: server_inv_def step_ok_def)

lemma receive_ok:
  assumes "exchange_ok ci" "receive_pending m ci"
  shows "step_ok ci (oob_recv_generic_handler m ci)"
  using assms by (cases m) (auto simp: slot_defs split: if_splits)

lemma step4_sent_ok:
  assumes "exchange_ok ci" "b_step4_request (ci_boot ci) = Request"
  shows "step_ok ci (step4_sent ci)"
  using assms by (auto simp: step4_sent_def slot_defs split: if_splits)

text \<open>Accepting a client takes the next slot.\<close>

lemma listen_wf:
  assumes "server_inv sv" "oob_server_listen True (sv, e) = Inr (rc, Some h, (sv', e'))"
  shows "oh_client_id h = generate_unique_client_id sv" "server_inv sv'"
    "generate_unique_client_id sv' = Suc (generate_unique_client_id sv)"
    "\<forall>j. j \<noteq> oh_client_id h \<longrightarrow> client_at j sv' = client_at j sv" "e' = e"
proof -
  define n where "n = generate_unique_client_id sv"
  define ci where "ci = (boot_upd (b_phase_update (\<lambda>_. OOB_CONNECT_DONE)) (client_at n sv))\<lparr>ci_id := n\<rparr>"
  have sv': "sv' = (put_client n ci sv)\<lparr>sv_num_ongoing_connections := Suc (sv_num_ongoing_connections sv)\<rparr>" "e' = e"
    "oh_client_id h = n"
    using assms(2) by (auto simp: oob_server_listen_def Let_def res_simps n_def ci_def)
  then show "oh_client_id h = generate_unique_client_id sv" "e' = e"
    "generate_unique_client_id sv' = Suc (generate_unique_client_id sv)"
    "\<forall>j. j \<noteq> oh_client_id h \<longrightarrow> client_at j sv' = client_at j sv"
    by (simp_all add: n_def generate_unique_client_id_def)
  have wf: "server_wf sv" and u: "unused_slot (client_at n sv)"
    using assms(1) by (simp_all add: server_inv_def server_wf_def n_def)
  have at: "client_at j sv' = (if j = n then ci else client_at j sv)" for j
    by (simp add: sv')
  have "n \<notin> connecting_ids sv" "n \<notin> connected_ids sv"
    using unused_phase[OF u] by (auto simp: connecting_ids_def connected_ids_def)
  moreover have "connecting_ids sv' = insert n (connecting_ids sv)" "connected_ids sv' = connected_ids sv"
    using unused_phase[OF u]
    by (auto simp: connecting_ids_def connected_ids_def at ci_def client_connecting_def boot_upd_def)
  ultimately have "card (connecting_ids sv') = Suc (sv_num_ongoing_connections sv)" "card (connected_ids sv') = sv_num_connected_clients sv"
    using wf ids_bounded(3)[OF wf] by (simp_all add: server_wf_def)
  moreover have g: "generate_unique_client_id sv' = Suc n"
    by (simp add: sv' n_def generate_unique_client_id_def)
  ultimately have "server_wf sv'"
    using wf unfolding server_wf_def g by (auto simp: at sv' ci_def boot_upd_def n_def less_Suc_eq)
  moreover have "exchange_ok ci"
    using u by (auto simp: ci_def unused_slot_def RESET_BOOTSTRAPPING_def slot_defs)
  ultimately show "server_inv sv'"
    using assms(1) by (simp add: server_inv_def at)
qed

text \<open>A client leaves.\<close>

lemma leave_wf:
  assumes wf: "server_wf sv" and "phase_at i sv = BOOTSTRAP_DONE" "term_msg_server i sv = Inr (d, sv')"
  shows "client_at j sv' = (if j = i then boot_upd (b_phase_update (\<lambda>_. DISCONNECTED)) (client_at i sv) else client_at j sv)"
    "sv_num_ongoing_connections sv' = sv_num_ongoing_connections sv" "sv_num_connected_clients sv' = sv_num_connected_clients sv - 1"
    "server_wf sv'" "connected_ids sv' = connected_ids sv - {i}" "sv_scope sv' = sv_scope sv"
proof -
  let ?ci = "boot_upd (b_phase_update (\<lambda>_. DISCONNECTED)) (client_at i sv)"
  have sv': "client_at j sv' = (if j = i then ?ci else client_at j sv)" 
    "sv_num_ongoing_connections sv' = sv_num_ongoing_connections sv"
    "sv_num_connected_clients sv' = sv_num_connected_clients sv - 1"
    "generate_unique_client_id sv' = generate_unique_client_id sv" "sv_scope sv' = sv_scope sv" for j
    using assms(3) by (auto simp: term_msg_server_def Let_def res_simps generate_unique_client_id_def split: if_splits)
  have i: "i \<in> connected_ids sv"
    using assms(2) by (simp add: connected_ids_def)
  then have lt: "i < generate_unique_client_id sv"
    using ids_bounded(2)[OF wf] by auto
  have ids: "connecting_ids sv' = connecting_ids sv" "connected_ids sv' = connected_ids sv - {i}"
    using assms(2) by (auto simp: connecting_ids_def connected_ids_def sv' client_connecting_def boot_upd_def)
  then show "server_wf sv'" "connected_ids sv' = connected_ids sv - {i}"
    using wf lt i unfolding server_wf_def sv'(4) by (auto simp: sv' boot_upd_def)
  show "client_at j sv' = (if j = i then ?ci else client_at j sv)" "sv_num_ongoing_connections sv' = sv_num_ongoing_connections sv"
    "sv_num_connected_clients sv' = sv_num_connected_clients sv - 1" "sv_scope sv' = sv_scope sv"
    by (rule sv')+
qed

lemma leave_inv:
  assumes "server_inv sv" "phase_at i sv = BOOTSTRAP_DONE" "term_msg_server i sv = Inr (d, sv')"
  shows "server_inv sv'"
proof -
  have wf: "server_wf sv"
    using assms(1) by (simp add: server_inv_def)
  note l = leave_wf[OF wf assms(2,3)]
  have "exchange_ok (boot_upd (b_phase_update (\<lambda>_. DISCONNECTED)) (client_at i sv))"
    using assms(1,2) by (auto simp: server_inv_def slot_defs)
  then show ?thesis
    using assms(1) l(4) by (simp add: server_inv_def l(1))
qed

lemma progress_inv:
  assumes "server_inv (fst s)" "progress_server_econtext tr env s = Inr s'"
  shows "server_inv (fst s')"
  using assms progress_server_loop_inv[of s tr env "length (sv_clients (fst s))" 0 0]
  by (cases s') (auto simp: progress_server_econtext_def holdsE_iff split: if_splits)

lemma server_init_inv: "server_inv (server_init_context k scope cb addr)"
proof -
  have "exchange_ok (client_at j (server_init_context k scope cb addr))" for j
    by (simp add: client_at_def server_init_context_def arr_get_def zero_client_info_def exchange_ok_def RESET_BOOTSTRAPPING_def)
  then show ?thesis
    by (simp add: server_inv_def server_init_wf)
qed

lemma server_reachable_inv: "server_reachable s \<Longrightarrow> server_inv (fst s)"
proof (induction rule: server_reachable.induct)
  case (start k scope cb addr e)
  show ?case by (simp add: server_init_inv)
next
  case (engine sv e e')
  then show ?case by simp
next
  case (listen s accepted rc hello s')
  show ?case
  proof (cases accepted)
    case True
    moreover obtain sv e sv' e' where "s = (sv, e)" "s' = (sv', e')"
      by (cases s, cases s')
    moreover obtain h where "hello = Some h"
      using listen(2) True by (cases s) (auto simp: oob_server_listen_def Let_def res_simps)
    ultimately show ?thesis
      using listen listen_wf(2)[of sv e rc h sv' e'] by simp
  qed (use listen in \<open>auto simp: oob_server_listen_def split: prod.splits\<close>)
next
  case (progress s tr env s')
  then show ?case by (blast intro: progress_inv)
next
  case (receive sv e m i)
  then have "step_ok (client_at i sv) (oob_recv_generic_handler m (client_at i sv))"
    by (simp add: server_inv_def receive_ok)
  moreover have "ci_boot (client_at i sv) \<noteq> RESET_BOOTSTRAPPING"
    using receive(2) by (cases m) (auto simp: RESET_BOOTSTRAPPING_def)
  ultimately show ?case
    using receive by (simp add: server_inv_same)
next
  case (sent sv e i)
  then have "step_ok (client_at i sv) (step4_sent (client_at i sv))" "ci_boot (client_at i sv) \<noteq> RESET_BOOTSTRAPPING"
    by (auto simp: server_inv_def step4_sent_ok RESET_BOOTSTRAPPING_def)
  with sent show ?case
    by (simp add: server_inv_same)
next
  case (leave sv e i d sv')
  then show ?case by (simp add: leave_inv)
qed

section \<open>Histories of a client\<close>

definition size_msg :: "client_t \<Rightarrow> boot_msg" where "size_msg cl = Addr_size (length (cl_local_addr cl))"

text \<open>The sends that UCX can complete.\<close>

fun send_pending :: "boot_op \<Rightarrow> client_t \<Rightarrow> bool" where
  "send_pending Op_size cl = (b_addr_size_request (cl_boot cl) = Request \<and> \<not> b_addr_size_complete (cl_boot cl))"
| "send_pending Op_addr cl = (b_addr_request (cl_boot cl) = Request \<and> \<not> b_addr_complete (cl_boot cl))"
| "send_pending Op_rank cl = (b_rank_request (cl_boot cl) = Request \<and> \<not> b_rank_complete (cl_boot cl))"

text \<open>The receive of the data about the service process completes.\<close>

definition step4_received :: "service_proc_t \<Rightarrow> client_state \<Rightarrow> client_state" where
  "step4_received sp = (\<lambda>(cl, e). (cboot_upd (b_step4_complete_update (\<lambda>_. True)) cl, set_service_proc sp e))"

inductive client_reachable :: "client_state \<Rightarrow> bool" where
  start: "client_reachable (RESET_CLIENT scope ri addr gid, e)"
| engine: "client_reachable (cl, e) \<Longrightarrow> client_reachable (cl, e')"
| oob: "client_reachable (cl, e) \<Longrightarrow> oob_connect hello cl = (rc, cl') \<Longrightarrow> b_phase (cl_boot cl) = BOOTSTRAP_NOT_INITIATED
    \<Longrightarrow> client_reachable (cl', e)"
| progress: "client_reachable s \<Longrightarrow> progress_client_econtext remote_sp ca s = Inr s' \<Longrightarrow> client_reachable s'"
| sent: "client_reachable (cl, e) \<Longrightarrow> send_pending op cl \<Longrightarrow> client_reachable (ucx_client_bootstrap_send_cb op cl, e)"
| received: "client_reachable (cl, e) \<Longrightarrow> b_step4_request (cl_boot cl) = Request \<Longrightarrow> client_reachable (step4_received sp (cl, e))"

text \<open>What a client has sent so far.\<close>

definition sent_ok :: "client_t \<Rightarrow> bool" where
  "sent_ok cl = (let b = cl_boot cl in
     if \<not> b_addr_size_complete b
     then cl_sent cl = (if b_addr_size_request b = Request then [size_msg cl] else []) \<and> \<not> b_addr_complete b
          \<and> b_addr_request b = No_request \<and> \<not> b_rank_complete b \<and> b_rank_request b = No_request
     else if \<not> b_addr_complete b
     then cl_sent cl = size_msg cl # (if b_addr_request b = Request then [Addr (cl_local_addr cl)] else [])
          \<and> \<not> b_rank_complete b \<and> b_rank_request b = No_request
     else cl_sent cl = [size_msg cl, Addr (cl_local_addr cl)]
            @ (if b_rank_complete b \<or> b_rank_request b = Request then [Rank (cl_rank cl)] else []))"

lemmas client_defs = sent_ok_def size_msg_def cboot_upd_def send_msg_def clear_request_def Let_def

lemma client_step12_sent:
  assumes "sent_ok cl" "client_step12 ca cl = (rc, cl')"
  shows "sent_ok cl'"
proof -
  have 1: "sent_ok cl1" if "\<not> b_addr_size_complete (cl_boot cl)" "b_addr_size_request (cl_boot cl) = No_request"
    "client_ucx_bootstrap_step1 ca cl = (rc, cl1)" for rc cl1
    using assms(1) that by (cases "ca_size ca") (auto simp: client_ucx_bootstrap_step1_def client_defs split: if_splits)
  have 2: "sent_ok (cboot_upd (\<lambda>b. b\<lparr>b_addr_size_request := clear_request (b_addr_size_complete b) (b_addr_size_request b)\<rparr>) c)"
    if "sent_ok c" for c
    using that by (auto simp: client_defs)
  have 3: "sent_ok c'" if "b_addr_size_complete (cl_boot c)" "\<not> b_addr_complete (cl_boot c)" "b_addr_request (cl_boot c) = No_request"
    "client_ucx_bootstrap_step2 ca c = (rc, c')" "sent_ok c" for c c' rc
    using that by (cases "ca_addr ca") (auto simp: client_ucx_bootstrap_step2_def client_defs)
  show ?thesis
    using assms unfolding client_step12_def Let_def
    by (auto split: prod.splits if_splits dest: 1 intro: 2 3)
qed

lemma client_step123_sent:
  assumes "sent_ok cl" "client_step123 ca cl = (rc, cl')"
  shows "sent_ok cl'"
proof -
  have 1: "sent_ok (cboot_upd (\<lambda>b. b\<lparr>b_addr_request := clear_request (b_addr_complete b) (b_addr_request b)\<rparr>) c)"
    "b_rank_complete (cl_boot c) \<Longrightarrow> sent_ok (cboot_upd (\<lambda>b. b\<lparr>b_rank_request := No_request, b_phase := UCX_CONNECT_DONE\<rparr>) c)"
    if "sent_ok c" for c
    using that by (auto simp: client_defs split: if_splits)
  have 2: "sent_ok c'" if "b_addr_complete (cl_boot c)" "\<not> b_rank_complete (cl_boot c)" "b_rank_request (cl_boot c) = No_request"
    "client_ucx_boostrap_step3 ca c = (rc, c')" "sent_ok c" for c c' rc
    using that by (cases "ca_rank ca") (auto simp: client_ucx_boostrap_step3_def client_defs split: if_splits)
  show ?thesis
    using assms unfolding client_step123_def Let_def
    by (auto split: prod.splits if_splits dest: client_step12_sent intro: 1(1) intro!: 1(2) intro: 2)
qed

lemma client_step4_sent:
  assumes "sent_ok cl"
  shows "holdsE (\<lambda>(rc, cl', e'). sent_ok cl') (client_step4 ca (cl, e))"
  unfolding client_step4_def client_ucx_boostrap_step4_def prod.case
  using assms
  by (cases "ca_sp_data ca") (auto simp: holdsE_def bindE_def assertE_def client_defs split: if_splits)

lemma finish_client_sent:
  assumes "sent_ok cl"
  shows "holdsE (\<lambda>s. sent_ok (fst s)) (finish_client remote_sp (cl, e))"
proof -
  have "sent_ok ((cboot_upd (b_phase_update (\<lambda>_. BOOTSTRAP_DONE)) cl)\<lparr>cl_connected := True\<rparr>)"
    using assms by (auto simp: client_defs)
  then show ?thesis
    unfolding finish_client_def Let_def prod.case
    by (intro holdsE_bind holdsE_any holdsE_Inr) simp
qed

lemma progress_client_sent:
  assumes "sent_ok cl"
  shows "holdsE (\<lambda>s. sent_ok (fst s)) (progress_client_econtext remote_sp ca (cl, e))"
proof -
  obtain rc cl1 where 1: "(if b_phase (cl_boot cl) = OOB_CONNECT_DONE then client_step123 ca cl else (DO_SUCCESS, cl)) = (rc, cl1)"
    by (cases "if b_phase (cl_boot cl) = OOB_CONNECT_DONE then client_step123 ca cl else (DO_SUCCESS, cl)")
  then have "sent_ok cl1"
    using assms client_step123_sent by (auto split: if_splits)
  then have "holdsE (\<lambda>s. sent_ok (fst s)) (bindE (client_step4 ca (cl1, e)) (\<lambda>(rc, cl2, e2).
       if rc \<noteq> DO_SUCCESS then Inr (cl2, e2) else
       if exchanges_done (cl_boot cl2) then finish_client remote_sp (cl2, e2) else Inr (cl2, e2)))"
    by (rule holdsE_bindI[OF client_step4_sent]) (auto intro!: holdsE_Inr finish_client_sent)
  with \<open>sent_ok cl1\<close> show ?thesis
    unfolding progress_client_econtext_def Let_def prod.case 1 by (auto intro!: holdsE_Inr)
qed

lemma client_reachable_sent: "client_reachable s \<Longrightarrow> sent_ok (fst s)"
proof (induction rule: client_reachable.induct)
  case (start scope ri addr gid e)
  show ?case by (simp add: RESET_CLIENT_def RESET_BOOTSTRAPPING_def client_defs)
next
  case (engine cl e e')
  then show ?case by simp
next
  case (oob cl e hello rc cl')
  then show ?case by (cases hello) (auto simp: oob_connect_def client_defs split: if_splits)
next
  case (progress s remote_sp ca s')
  then show ?case using progress_client_sent[of "fst s" remote_sp ca "snd s"] by (simp add: holdsE_iff)
next
  case (sent cl e op)
  then show ?case by (cases op) (auto simp: client_defs split: if_splits)
next
  case (received cl e sp)
  then show ?case by (auto simp: step4_received_def client_defs)
qed

text \<open>Everything a client sends: a beginning of the three messages.\<close>

lemma client_sent:
  assumes "client_reachable (cl, e)"
  shows "\<exists>k. cl_sent cl = take k [size_msg cl, Addr (cl_local_addr cl), Rank (cl_rank cl)]"
proof -
  have "sent_ok cl"
    using client_reachable_sent[OF assms] by simp
  then have "cl_sent cl \<in> {[], [size_msg cl], [size_msg cl, Addr (cl_local_addr cl)], [size_msg cl, Addr (cl_local_addr cl), Rank (cl_rank cl)]}"
    by (auto simp: sent_ok_def Let_def split: if_splits)
  then show ?thesis
    by (auto intro: exI[of _ 0] exI[of _ 1] exI[of _ 2] exI[of _ 3])
qed

text \<open>When a client is past the exchange, the server has its address and its rank, provided that the server
  received, in order, messages that the client sent.\<close>

lemma exchange_data:
  assumes "server_reachable (sv, e)" "client_reachable (cl, ce)" "ci_received (client_at i sv) = take k (cl_sent cl)"
    "phase_at i sv \<in> {UCX_CONNECT_DONE, BOOTSTRAP_DONE}"
  shows "ci_addr_len (client_at i sv) = length (cl_local_addr cl) \<and> ci_addr (client_at i sv) = Some (cl_local_addr cl)
         \<and> ci_rank_data (client_at i sv) = cl_rank cl"
proof -
  have "exchange_ok (client_at i sv)"
    using server_reachable_inv[OF assms(1)] by (simp add: server_inv_def)
  then have r: "ci_addr (client_at i sv) \<noteq> None" "ci_received (client_at i sv) = [Addr_size (ci_addr_len (client_at i sv)),
      Addr (the (ci_addr (client_at i sv))), Rank (ci_rank_data (client_at i sv))]"
    using assms(4) by (auto simp: exchange_ok_def Let_def split: if_splits)
  obtain j where "cl_sent cl = take j [size_msg cl, Addr (cl_local_addr cl), Rank (cl_rank cl)]"
    using client_sent[OF assms(2)] by blast
  then have "ci_received (client_at i sv) = take (min k j) [size_msg cl, Addr (cl_local_addr cl), Rank (cl_rank cl)]"
    using assms(3) by (simp add: min.commute)
  with r(2) have eq: "take (min k j) [size_msg cl, Addr (cl_local_addr cl), Rank (cl_rank cl)]
      = [Addr_size (ci_addr_len (client_at i sv)), Addr (the (ci_addr (client_at i sv))), Rank (ci_rank_data (client_at i sv))]"
    by simp
  then have "length (take (min k j) [size_msg cl, Addr (cl_local_addr cl), Rank (cl_rank cl)]) = 3"
    by (simp only: list.size)
  then have "3 \<le> min k j"
    by (simp add: min_def split: if_splits)
  then have "take (min k j) [size_msg cl, Addr (cl_local_addr cl), Rank (cl_rank cl)] = [size_msg cl, Addr (cl_local_addr cl), Rank (cl_rank cl)]"
    by simp
  with eq r(1) show ?thesis
    by (auto simp: size_msg_def)
qed

end
