(* ===== verification/Bootstrap_Liveness.thy ===== *)
theory Bootstrap_Liveness
imports Bootstrap_Clients
begin

text \<open>
  A client whose operations do not fail is connected after at most five rounds, a round being a pass over the client
  and the completion of its pending operations: one round for each of the three messages, one for the data about
  the service process, and one to finish.
\<close>

definition no_failure :: "client_answers \<Rightarrow> bool" where
  "no_failure ca = (ca_ep_create ca \<and> ca_size ca \<noteq> Failed \<and> ca_addr ca \<noteq> Failed \<and> ca_rank ca \<noteq> Failed \<and> ca_sp_data ca \<noteq> Failed)"

text \<open>UCX completes the pending operations.\<close>

definition complete_send :: "boot_op \<Rightarrow> client_t \<Rightarrow> client_t" where
  "complete_send op cl = (if send_pending op cl then ucx_client_bootstrap_send_cb op cl else cl)"

definition complete_all :: "service_proc_t \<Rightarrow> client_state \<Rightarrow> client_state" where
  "complete_all sp = (\<lambda>(cl, e).
     let cl1 = complete_send Op_rank (complete_send Op_addr (complete_send Op_size cl)) in
     if b_step4_request (cl_boot cl1) = Request then step4_received sp (cl1, e) else (cl1, e))"

fun client_rounds :: "nat option \<Rightarrow> (nat \<Rightarrow> client_answers) \<Rightarrow> service_proc_t \<Rightarrow> nat \<Rightarrow> client_state \<Rightarrow> client_state res" where
  "client_rounds remote_sp env sp 0 s = Inr s"
| "client_rounds remote_sp env sp (Suc n) s =
     bindE (client_rounds remote_sp env sp n s) (\<lambda>s1.
     bindE (progress_client_econtext remote_sp (env n) s1) (\<lambda>s2. Inr (complete_all sp s2)))"

text \<open>A client after \<open>n\<close> rounds, during the exchange and after it.\<close>

definition exchanging :: "nat \<Rightarrow> bootstrapping_t \<Rightarrow> bool" where
  "exchanging n b =
     (b_phase b = OOB_CONNECT_DONE \<and> n < 4 \<and> \<not> b_step4_complete b \<and> \<not> b_step4_posted b \<and> b_step4_request b = No_request
      \<and> (b_addr_complete b \<longrightarrow> b_addr_size_complete b) \<and> (b_rank_complete b \<longrightarrow> b_addr_complete b \<and> b_rank_request b = Request)
      \<and> (\<not> b_addr_size_complete b \<longrightarrow> n < 1 \<and> b_addr_size_request b = No_request)
      \<and> (\<not> b_addr_complete b \<longrightarrow> n < 2 \<and> b_addr_request b = No_request)
      \<and> (\<not> b_rank_complete b \<longrightarrow> n < 3 \<and> b_rank_request b = No_request))"

definition exchanged :: "bootstrapping_t \<Rightarrow> bool" where
  "exchanged b = (b_phase b = UCX_CONNECT_DONE \<and> b_addr_size_complete b \<and> b_addr_complete b \<and> b_rank_complete b
     \<and> b_addr_size_request b = No_request \<and> b_addr_request b = No_request \<and> b_rank_request b = No_request)"

definition stage :: "bool \<Rightarrow> nat \<Rightarrow> bootstrapping_t \<Rightarrow> bool" where
  "stage on_host n b = (exchanging n b \<or> (exchanged b \<and> b_step4_complete b \<and> on_host \<and> n < 5) \<or> b_phase b = BOOTSTRAP_DONE)"

text \<open>Only ranks on the host wait for the data about the service process.\<close>

definition host_client :: "client_state \<Rightarrow> bool" where
  "host_client = (\<lambda>(cl, e). \<not> e_on_dpu e \<and> cl_scope cl = SCOPE_HOST_DPU)"

text \<open>Between the exchange and the completions of a round.\<close>

definition waiting :: "nat \<Rightarrow> bootstrapping_t \<Rightarrow> bool" where
  "waiting n b =
     (b_phase b = OOB_CONNECT_DONE \<and> n < 3 \<and> \<not> b_step4_complete b \<and> \<not> b_step4_posted b \<and> b_step4_request b = No_request
      \<and> (b_addr_complete b \<longrightarrow> b_addr_size_complete b) \<and> \<not> b_rank_complete b
      \<and> (b_addr_size_complete b \<or> n < 1 \<and> b_addr_size_request b = Request \<and> b_addr_request b = No_request \<and> b_rank_request b = No_request)
      \<and> (b_addr_complete b \<or> n < 2 \<and> b_rank_request b = No_request \<and> (b_addr_request b = Request \<or> \<not> b_addr_size_complete b))
      \<and> (b_addr_complete b \<longrightarrow> b_rank_request b = Request))"

lemma client_step123_waits:
  assumes "exchanging n (cl_boot cl)" "no_failure ca"
  shows "\<exists>cl'. client_step123 ca cl = (DO_SUCCESS, cl') \<and> cl_rank cl' = cl_rank cl \<and> cl_scope cl' = cl_scope cl
     \<and> (waiting n (cl_boot cl')
        \<or> exchanged (cl_boot cl') \<and> \<not> b_step4_complete (cl_boot cl') \<and> \<not> b_step4_posted (cl_boot cl') \<and> b_step4_request (cl_boot cl') = No_request)"
proof -
  consider "\<not> b_addr_size_complete (cl_boot cl)" | "b_addr_size_complete (cl_boot cl)" "\<not> b_addr_complete (cl_boot cl)"
    | "b_addr_complete (cl_boot cl)" "\<not> b_rank_complete (cl_boot cl)" | "b_rank_complete (cl_boot cl)"
    by blast
  then show ?thesis
    using assms
    by cases
      (cases "ca_size ca"; cases "ca_addr ca"; cases "ca_rank ca";
       auto simp: client_step123_def client_step12_def client_ucx_bootstrap_step1_def client_ucx_bootstrap_step2_def
         client_ucx_boostrap_step3_def no_failure_def exchanging_def exchanged_def waiting_def cboot_upd_def send_msg_def clear_request_def)+
qed

text \<open>Step 4 and the end of the connection; the client of a service process knows the service process it connects
  to, and a client that is in no group leaves the group cache alone.\<close>

definition peer_known :: "nat option \<Rightarrow> offloading_engine_t \<Rightarrow> bool" where
  "peer_known remote_sp e = (\<forall>k. remote_sp = Some k \<longrightarrow> k < length (e_service_procs e))"

lemma finish_client_connects:
  assumes "ri_group_uid (cl_rank cl) = INT_MAX" "peer_known remote_sp e"
  shows "\<exists>e'. finish_client remote_sp (cl, e) = Inr ((cboot_upd (b_phase_update (\<lambda>_. BOOTSTRAP_DONE)) cl)\<lparr>cl_connected := True\<rparr>, e')
           \<and> peer_known remote_sp e'"
  using assms
  by (auto simp: finish_client_def finalize_connection_to_remote_service_proc_def peer_known_def nthE_def cboot_upd_def Let_def
      split: option.splits)

lemma client_step4_waits:
  assumes "exchanged (cl_boot cl)" "no_failure ca"
    "b_step4_complete (cl_boot cl) \<and> host_client (cl, e) \<or>
     \<not> b_step4_complete (cl_boot cl) \<and> \<not> b_step4_posted (cl_boot cl) \<and> b_step4_request (cl_boot cl) = No_request"
  shows "\<exists>cl' e'. client_step4 ca (cl, e) = Inr (DO_SUCCESS, cl', e') \<and> cl_rank cl' = cl_rank cl \<and> exchanged (cl_boot cl')
     \<and> e_service_procs e' = e_service_procs e \<and> host_client (cl', e') = host_client (cl, e)
     \<and> (b_step4_complete (cl_boot cl') \<and> b_step4_request (cl_boot cl') = No_request
        \<or> \<not> b_step4_complete (cl_boot cl) \<and> \<not> b_step4_complete (cl_boot cl') \<and> b_step4_request (cl_boot cl') = Request
          \<and> host_client (cl, e))"
  using assms
  by (cases "ca_sp_data ca")
     (auto simp: client_step4_def client_ucx_boostrap_step4_def no_failure_def exchanged_def cboot_upd_def clear_request_def
       set_service_proc_def assertE_def host_client_def)

text \<open>After a pass: the client still exchanges, waits for step 4, or is connected.\<close>

definition after_pass :: "bool \<Rightarrow> nat \<Rightarrow> bootstrapping_t \<Rightarrow> bool" where
  "after_pass on_host n b =
     (waiting n b \<or> exchanged b \<and> \<not> b_step4_complete b \<and> b_step4_request b = Request \<and> on_host \<and> n < 4 \<or> b_phase b = BOOTSTRAP_DONE)"

definition client_kept :: "nat option \<Rightarrow> client_state \<Rightarrow> client_state \<Rightarrow> bool" where
  "client_kept remote_sp s s' =
     (cl_rank (fst s') = cl_rank (fst s) \<and> host_client s' = host_client s \<and> (peer_known remote_sp (snd s) \<longrightarrow> peer_known remote_sp (snd s')))"

lemma finish_or_wait:
  assumes "exchanged (cl_boot cl)" "ri_group_uid (cl_rank cl) = INT_MAX" "peer_known remote_sp e"
    "b_step4_complete (cl_boot cl) \<and> b_step4_request (cl_boot cl) = No_request
     \<or> \<not> b_step4_complete (cl_boot cl) \<and> b_step4_request (cl_boot cl) = Request \<and> host_client (cl, e) \<and> n < 4"
  shows "\<exists>s'. (if exchanges_done (cl_boot cl) then finish_client remote_sp (cl, e) else Inr (cl, e)) = Inr s'
     \<and> after_pass (host_client (cl, e)) n (cl_boot (fst s')) \<and> client_kept remote_sp (cl, e) s'"
proof (cases "b_step4_complete (cl_boot cl)")
  case True
  with assms(1,4) have "exchanges_done (cl_boot cl)"
    by (auto simp: exchanges_done_def exchanged_def)
  moreover obtain e' where "finish_client remote_sp (cl, e) = Inr ((cboot_upd (b_phase_update (\<lambda>_. BOOTSTRAP_DONE)) cl)\<lparr>cl_connected := True\<rparr>, e')"
    "peer_known remote_sp e'"
    using finish_client_connects[OF assms(2,3)] by blast
  moreover from this have "e_on_dpu e' = e_on_dpu e"
    using assms(2) by (auto simp: finish_client_def finalize_connection_to_remote_service_proc_def nthE_def cboot_upd_def Let_def res_simps
        split: option.splits if_splits)
  ultimately show ?thesis
    by (simp add: after_pass_def client_kept_def host_client_def cboot_upd_def)
next
  case False
  with assms show ?thesis
    by (auto simp: exchanges_done_def after_pass_def client_kept_def)
qed

lemma progress_client_pass:
  assumes "stage (host_client (cl, e)) n (cl_boot cl)" "no_failure ca" "ri_group_uid (cl_rank cl) = INT_MAX" "peer_known remote_sp e"
  shows "\<exists>s'. progress_client_econtext remote_sp ca (cl, e) = Inr s' \<and> after_pass (host_client (cl, e)) n (cl_boot (fst s'))
     \<and> client_kept remote_sp (cl, e) s'"
proof -
  have step4: "\<exists>s'. bindE (client_step4 ca (cl1, e)) (\<lambda>(rc, cl2, e2).
       if rc \<noteq> DO_SUCCESS then Inr (cl2, e2) else
       if exchanges_done (cl_boot cl2) then finish_client remote_sp (cl2, e2) else Inr (cl2, e2)) = Inr s'
     \<and> after_pass (host_client (cl, e)) n (cl_boot (fst s')) \<and> client_kept remote_sp (cl, e) s'"
    if c: "exchanged (cl_boot cl1)" "cl_rank cl1 = cl_rank cl" "cl_scope cl1 = cl_scope cl"
      "b_step4_complete (cl_boot cl1) \<and> host_client (cl1, e) \<or>
       \<not> b_step4_complete (cl_boot cl1) \<and> \<not> b_step4_posted (cl_boot cl1) \<and> b_step4_request (cl_boot cl1) = No_request \<and> n < 4" for cl1
  proof -
    have h: "host_client (cl1, e) = host_client (cl, e)"
      using c(3) by (simp add: host_client_def)
    obtain cl' e' where 4: "client_step4 ca (cl1, e) = Inr (DO_SUCCESS, cl', e')" "cl_rank cl' = cl_rank cl" "exchanged (cl_boot cl')"
      "e_service_procs e' = e_service_procs e" "host_client (cl', e') = host_client (cl, e)"
      "b_step4_complete (cl_boot cl') \<and> b_step4_request (cl_boot cl') = No_request
       \<or> \<not> b_step4_complete (cl_boot cl') \<and> b_step4_request (cl_boot cl') = Request \<and> host_client (cl', e') \<and> n < 4"
      using client_step4_waits[OF c(1) assms(2), of e] c(2,4) h by auto
    have "peer_known remote_sp e'"
      using assms(4) 4(4) by (simp add: peer_known_def)
    then obtain s' where "(if exchanges_done (cl_boot cl') then finish_client remote_sp (cl', e') else Inr (cl', e')) = Inr s'"
      "after_pass (host_client (cl', e')) n (cl_boot (fst s'))" "client_kept remote_sp (cl', e') s'"
      using finish_or_wait[OF 4(3) _ _ 4(6)] 4(2) assms(3) by metis
    with 4 assms(4) \<open>peer_known remote_sp e'\<close> show ?thesis
      by (auto simp: client_kept_def)
  qed
  from assms(1) consider "exchanging n (cl_boot cl)" | "exchanged (cl_boot cl)" "b_step4_complete (cl_boot cl)" "host_client (cl, e)" "n < 5"
    | "b_phase (cl_boot cl) = BOOTSTRAP_DONE"
    by (auto simp: stage_def)
  then show ?thesis
  proof cases
    case 1
    then have p: "b_phase (cl_boot cl) = OOB_CONNECT_DONE" "n < 4"
      by (simp_all add: exchanging_def)
    obtain cl1 where c: "client_step123 ca cl = (DO_SUCCESS, cl1)" "cl_rank cl1 = cl_rank cl" "cl_scope cl1 = cl_scope cl"
      "waiting n (cl_boot cl1) \<or> exchanged (cl_boot cl1) \<and> \<not> b_step4_complete (cl_boot cl1) \<and> \<not> b_step4_posted (cl_boot cl1)
         \<and> b_step4_request (cl_boot cl1) = No_request"
      using client_step123_waits[OF 1 assms(2)] by blast
    show ?thesis
    proof (cases "waiting n (cl_boot cl1)")
      case True
      then show ?thesis
        using p c by (simp add: progress_client_econtext_def waiting_def after_pass_def client_kept_def host_client_def)
    next
      case False
      with c(4) have "exchanged (cl_boot cl1)" by blast
      with step4[of cl1] False p c show ?thesis
        by (auto simp: progress_client_econtext_def exchanged_def)
    qed
  next
    case 2
    with step4[of cl] show ?thesis
      by (simp add: progress_client_econtext_def exchanged_def)
  next
    case 3
    then show ?thesis
      by (simp add: progress_client_econtext_def after_pass_def client_kept_def)
  qed
qed

text \<open>The completions of a round.\<close>

lemma complete_all_stage:
  assumes "after_pass (host_client s) n (cl_boot (fst s))"
  shows "stage (host_client s) (Suc n) (cl_boot (fst (complete_all sp s)))" "client_kept remote_sp s (complete_all sp s)"
proof -
  obtain cl e where s: "s = (cl, e)" by (cases s)
  show "stage (host_client s) (Suc n) (cl_boot (fst (complete_all sp s)))"
    using assms unfolding s after_pass_def
    by (auto simp: complete_all_def complete_send_def step4_received_def cboot_upd_def Let_def stage_def exchanging_def exchanged_def waiting_def)
  show "client_kept remote_sp s (complete_all sp s)"
    unfolding s
    by (auto simp: complete_all_def complete_send_def step4_received_def cboot_upd_def Let_def client_kept_def host_client_def
        set_service_proc_def peer_known_def)
qed

lemma client_rounds_stage:
  assumes "b_phase (cl_boot cl) = OOB_CONNECT_DONE" "cl_boot cl = RESET_BOOTSTRAPPING\<lparr>b_phase := OOB_CONNECT_DONE\<rparr>"
    "\<forall>n. no_failure (env n)" "ri_group_uid (cl_rank cl) = INT_MAX" "peer_known remote_sp e"
  shows "\<exists>s'. client_rounds remote_sp env sp n (cl, e) = Inr s' \<and> stage (host_client (cl, e)) n (cl_boot (fst s'))
     \<and> client_kept remote_sp (cl, e) s'"
proof (induction n)
  case 0
  show ?case
    using assms(2) by (simp add: stage_def exchanging_def RESET_BOOTSTRAPPING_def client_kept_def)
next
  case (Suc n)
  then obtain c1 e1 where 1: "client_rounds remote_sp env sp n (cl, e) = Inr (c1, e1)" "stage (host_client (c1, e1)) n (cl_boot c1)"
    "client_kept remote_sp (cl, e) (c1, e1)"
    by (auto simp: client_kept_def)
  then obtain s2 where 2: "progress_client_econtext remote_sp (env n) (c1, e1) = Inr s2" "after_pass (host_client s2) n (cl_boot (fst s2))"
    "client_kept remote_sp (c1, e1) s2"
    using progress_client_pass[OF 1(2) spec[OF assms(3), of n], of remote_sp] assms(4,5) by (auto simp: client_kept_def)
  show ?case
    using 1 2 complete_all_stage[OF 2(2)] by (auto simp: client_kept_def)
qed

end
