(* ===== verification/Bootstrap_Properties.thy ===== *)
theory Bootstrap_Properties
imports Bootstrap_Liveness Group_Topology
begin

text \<open>
  The properties of connections.  The last two are about steps that are not taken as a whole: a server that accepts a
  client while it finalises a connection, and a pass over a client whose data about the service process is still
  being sent.
\<close>

section \<open>Accepting a client during the end of a connection\<close>

text \<open>\<open>finalize_client_connection\<close> changes the counters one after the other, in the thread that progresses the
  engine; clients are accepted in \<open>connect_thread\<close>.\<close>

definition lower_ongoing :: "nat \<Rightarrow> server_t \<Rightarrow> server_t" where
  "lower_ongoing idx sv =
     (put_client idx (boot_upd (b_phase_update (\<lambda>_. BOOTSTRAP_DONE)) (client_at idx sv)) sv)
       \<lparr>sv_num_ongoing_connections := sv_num_ongoing_connections sv - 1\<rparr>"

definition raise_connected :: "server_t \<Rightarrow> server_t" where
  "raise_connected sv = sv\<lparr>sv_num_connected_clients := Suc (sv_num_connected_clients sv)\<rparr>"

definition raise_total :: "server_t \<Rightarrow> server_t" where
  "raise_total sv = sv\<lparr>sv_num_total_connected_clients := Suc (sv_num_total_connected_clients sv)\<rparr>"

lemma count_connected_steps: "count_connected idx sv = raise_total (raise_connected (lower_ongoing idx sv))"
  by (simp add: count_connected_def raise_total_def raise_connected_def lower_ongoing_def)

lemma connecting_ongoing:
  assumes "server_wf sv" "client_connecting (client_at i sv)"
  shows "0 < sv_num_ongoing_connections sv" "0 < generate_unique_client_id sv"
proof -
  have "i \<in> connecting_ids sv" "finite (connecting_ids sv)"
    using assms ids_bounded(3) by (auto simp: connecting_ids_def)
  then show "0 < sv_num_ongoing_connections sv"
    using assms(1) card_gt_0_iff[of "connecting_ids sv"] by (auto simp: server_wf_def)
  then show "0 < generate_unique_client_id sv"
    by (simp add: generate_unique_client_id_def)
qed

section \<open>The end of a connection of a client that is in no group\<close>

lemma count_connected_simps:
  "sv_connected_cb (count_connected i sv) = sv_connected_cb sv" "sv_scope (count_connected i sv) = sv_scope sv"
  "client_at i (count_connected i sv) = boot_upd (b_phase_update (\<lambda>_. BOOTSTRAP_DONE)) (client_at i sv)"
  by (simp_all add: count_connected_def)

lemma finalize_no_group:
  assumes "ri_group_uid (ci_rank_data (client_at i sv)) = INT_MAX" "sv_connected_cb sv \<noteq> Service_proc_cb"
  shows "finalize_client_connection tr i (sv, e) = Inr (count_connected i sv, share_clients (count_connected i sv) e)"
proof -
  have uid: "ri_group_uid (ci_rank_data (client_at i (count_connected i sv))) = INT_MAX"
    using assms(1) by (simp add: count_connected_simps boot_upd_def)
  then have "connected_cb tr i (count_connected i sv, e') = Inr (count_connected i sv, e')" for e'
    using assms(2) by (cases "sv_connected_cb sv")
      (simp_all add: connected_cb_def count_connected_simps(1), simp_all add: local_rank_connect_default_callback_def Let_def)
  with uid show ?thesis
    by (simp add: finalize_client_connection_def Let_def)
qed

section \<open>A server and a client\<close>

definition demo_server :: server_t where
  "demo_server = server_init_context 3 SCOPE_HOST_DPU No_connected_cb [9, 9]"

definition host_engine :: offloading_engine_t where
  "host_engine = (demo_engine 4)\<lparr>e_on_dpu := False\<rparr>"

definition demo_rank :: rank_info_t where
  "demo_rank = (RESET_RANK_INFO zero_rank_info)\<lparr>ri_group_rank := 2\<rparr>"

definition demo_hello :: oob_hello where
  "demo_hello = \<lparr>oh_addr = [9, 9], oh_server_id = 3, oh_global_id = UINT64_MAX, oh_client_id = 0\<rparr>"

definition demo_slot :: client_info_t where
  "demo_slot = zero_client_info\<lparr>ci_index_allocated := True, ci_boot := RESET_BOOTSTRAPPING\<lparr>b_phase := OOB_CONNECT_DONE\<rparr>\<rparr>"

definition demo_accepted :: server_t where
  "demo_accepted = (put_client 0 demo_slot demo_server)\<lparr>sv_num_ongoing_connections := 1\<rparr>"

lemma demo_server_simps:
  "generate_unique_client_id demo_server = 0" "sv_num_ongoing_connections demo_server = 0" "sv_num_total_connected_clients demo_server = 0"
  "sv_num_connected_clients demo_server = 0" "sv_scope demo_server = SCOPE_HOST_DPU" "sv_connected_cb demo_server = No_connected_cb"
  "sv_id demo_server = 3" "sv_local_addr demo_server = [9, 9]" "sv_done demo_server = False"
  "client_at 0 demo_server = zero_client_info\<lparr>ci_index_allocated := True\<rparr>" "length (sv_clients demo_server) = 256"
  by (simp_all add: demo_server_def server_init_context_def generate_unique_client_id_def client_at_def arr_get_def DEFAULT_MAX_NUM_CLIENTS_def)

lemma demo_listen: "oob_server_listen True (demo_server, host_engine) = Inr (DO_SUCCESS, Some demo_hello, (demo_accepted, host_engine))"
  by (simp add: oob_server_listen_def demo_server_simps Let_def host_engine_def demo_hello_def demo_accepted_def demo_slot_def
      boot_upd_def zero_client_info_def)

lemma demo_accepted_reachable: "server_reachable (demo_accepted, host_engine)"
  by (rule server_reachable.listen[OF server_reachable.start demo_listen[unfolded demo_server_def]])

text \<open>UCX answers at once.\<close>

definition demo_answers :: server_answers where
  "demo_answers = \<lparr>sa_size = Now 2, sa_malloc = True, sa_addr = Now [7, 8], sa_ep_create = True, sa_rank = Now demo_rank, sa_sp_data = Now ()\<rparr>"

definition demo_done :: server_t where
  "demo_done = count_connected 0 (put_client 0
     (demo_slot\<lparr>ci_boot := RESET_BOOTSTRAPPING\<lparr>b_phase := UCX_CONNECT_DONE, b_addr_size_complete := True, b_addr_complete := True,
                  b_rank_complete := True, b_step4_complete := True\<rparr>,
                ci_addr_len := 2, ci_addr := Some [7, 8], ci_ep := True, ci_rank_data := demo_rank,
                ci_received := [Addr_size 2, Addr [7, 8], Rank demo_rank]\<rparr>) demo_accepted)"

lemma demo_pass: "\<exists>e. progress_server_econtext async_transport (\<lambda>_. demo_answers) (demo_accepted, host_engine) = Inr (demo_done, e)"
proof -
  have n: "sv_num_ongoing_connections demo_accepted = 1" "sv_scope demo_accepted = SCOPE_HOST_DPU" "client_at 0 demo_accepted = demo_slot"
    "sv_connected_cb demo_accepted = No_connected_cb"
    by (simp_all add: demo_accepted_def demo_server_simps)
  have len: "0 < length (sv_clients demo_accepted)"
    by (simp add: demo_accepted_def put_client_def arr_put_def demo_server_simps)
  have 1: "server_step123 demo_answers demo_slot = Inr (DO_SUCCESS,
      demo_slot\<lparr>ci_boot := RESET_BOOTSTRAPPING\<lparr>b_phase := OOB_CONNECT_DONE, b_addr_size_complete := True, b_addr_complete := True,
                  b_rank_complete := True\<rparr>, ci_addr_len := 2, ci_addr := Some [7, 8], ci_ep := True, ci_rank_data := demo_rank,
                ci_received := [Addr_size 2, Addr [7, 8], Rank demo_rank]\<rparr>)"
    by (simp add: server_step123_def server_step12_def demo_slot_def RESET_BOOTSTRAPPING_def zero_client_info_def demo_answers_def
        oob_server_ucx_client_connection_step1_def oob_server_ucx_client_connection_step2_def oob_server_ucx_client_connection_step3_def
        boot_upd_def got_size_def got_addr_def got_rank_def clear_request_def Let_def)
  have 2: "rank_received demo_answers SCOPE_HOST_DPU (ci, host_engine)
      = Inr (DO_SUCCESS, boot_upd (\<lambda>b. b\<lparr>b_rank_request := No_request, b_phase := UCX_CONNECT_DONE, b_step4_complete := True\<rparr>) ci, host_engine)" for ci
    by (simp add: rank_received_def host_engine_def Let_def)
  have "\<exists>e. progress_connecting_client async_transport demo_answers 0 (demo_accepted, host_engine) = Inr (True, demo_done, e)"
    by (simp add: progress_connecting_client_def n 1 2 finalize_no_group demo_rank_def RESET_RANK_INFO_def boot_upd_def demo_done_def)
       (simp add: RESET_BOOTSTRAPPING_def demo_slot_def zero_client_info_def)
  moreover have "sv_num_ongoing_connections demo_done = 0"
    by (simp add: demo_done_def count_connected_def n)
  moreover have "client_connecting demo_slot"
    by (simp add: demo_slot_def client_connecting_def)
  ultimately show ?thesis
    unfolding progress_server_econtext_def using len
    by (auto simp: n progress_server_loop.simps)
qed

definition demo_client_answers :: client_answers where
  "demo_client_answers = \<lparr>ca_ep_create = True, ca_size = Now (), ca_addr = Later, ca_rank = Now (), ca_sp_data = Later\<rparr>"

definition demo_client :: client_t where
  "demo_client = (RESET_CLIENT SCOPE_INTER_SERVICE_PROCS demo_rank [7, 8] UINT64_MAX)
     \<lparr>cl_peer_addr := Some [9, 9], cl_server_id := 3, cl_id := 0, cl_boot := RESET_BOOTSTRAPPING\<lparr>b_phase := OOB_CONNECT_DONE\<rparr>\<rparr>"

lemma demo_oob: "oob_connect (Some demo_hello) (RESET_CLIENT SCOPE_INTER_SERVICE_PROCS demo_rank [7, 8] UINT64_MAX) = (DO_SUCCESS, demo_client)"
  by (simp add: oob_connect_def demo_hello_def demo_client_def RESET_CLIENT_def RESET_BOOTSTRAPPING_def)

lemma demo_client_reachable: "client_reachable (demo_client, demo_engine 4)"
  by (rule client_reachable.oob[OF client_reachable.start demo_oob]) (simp add: RESET_CLIENT_def RESET_BOOTSTRAPPING_def)

lemma demo_client_sent:
  "\<exists>cl e. client_reachable (cl, e) \<and> cl_sent cl = [Addr_size 2, Addr [7, 8], Rank demo_rank] \<and> cl_local_addr cl = [7, 8] \<and> cl_rank cl = demo_rank"
proof -
  let ?answers = "demo_client_answers\<lparr>ca_addr := Now ()\<rparr>"
  obtain s where "progress_client_econtext None ?answers (demo_client, demo_engine 4) = Inr s"
    "cl_sent (fst s) = [Addr_size 2, Addr [7, 8], Rank demo_rank]" "cl_local_addr (fst s) = [7, 8]" "cl_rank (fst s) = demo_rank"
    by (simp add: progress_client_econtext_def client_step123_def client_step12_def client_ucx_bootstrap_step1_def
        client_ucx_bootstrap_step2_def client_ucx_boostrap_step3_def demo_client_answers_def demo_client_def RESET_CLIENT_def
        RESET_BOOTSTRAPPING_def cboot_upd_def send_msg_def clear_request_def client_step4_def demo_engine_def exchanges_done_def
        finish_client_def demo_rank_def RESET_RANK_INFO_def Let_def)
  with client_reachable.progress[OF demo_client_reachable] show ?thesis
    by (metis surjective_pairing)
qed

section \<open>Properties\<close>

text \<open>C10: in every history of a server in which its steps do not overlap, its data is well formed: the clients have
  the identifiers \<open>0, 1, 2, \<dots>\<close> of their slots, the other slots are unused, and the two counters are the numbers of
  clients that are connecting and that are connected.  So an identifier is never given twice: the slot of a new
  client is unused, and accepting it leaves the other clients alone.\<close>

theorem client_ids_unique:
  assumes "server_reachable (sv, e)"
  shows "(\<forall>i < generate_unique_client_id sv. ci_id (client_at i sv) = i \<and> phase_at i sv \<noteq> BOOTSTRAP_NOT_INITIATED)
    \<and> (\<forall>i \<ge> generate_unique_client_id sv. phase_at i sv = BOOTSTRAP_NOT_INITIATED)
    \<and> card {i. client_connecting (client_at i sv)} = sv_num_ongoing_connections sv
    \<and> card {i. phase_at i sv = BOOTSTRAP_DONE} = sv_num_connected_clients sv
    \<and> (\<forall>rc h sv' e'. oob_server_listen True (sv, e) = Inr (rc, Some h, (sv', e')) \<longrightarrow>
         phase_at (oh_client_id h) sv = BOOTSTRAP_NOT_INITIATED \<and> ci_id (client_at (oh_client_id h) sv') = oh_client_id h
         \<and> (\<forall>j. j \<noteq> oh_client_id h \<longrightarrow> client_at j sv' = client_at j sv))"
proof -
  have inv: "server_inv sv" and wf: "server_wf sv"
    using server_reachable_inv[OF assms] by (simp_all add: server_inv_def)
  have "phase_at (oh_client_id h) sv = BOOTSTRAP_NOT_INITIATED \<and> ci_id (client_at (oh_client_id h) sv') = oh_client_id h
         \<and> (\<forall>j. j \<noteq> oh_client_id h \<longrightarrow> client_at j sv' = client_at j sv)"
    if l: "oob_server_listen True (sv, e) = Inr (rc, Some h, (sv', e'))" for rc h sv' e'
  proof -
    note w = listen_wf[OF inv l]
    have "unused_slot (client_at (oh_client_id h) sv)"
      using wf w(1) by (simp add: server_wf_def)
    moreover have "ci_id (client_at (oh_client_id h) sv') = oh_client_id h"
      using w(1,2,3) by (simp add: server_inv_def server_wf_def)
    ultimately show ?thesis
      using w(4) unused_phase by blast
  qed
  with wf show ?thesis
    using unused_phase by (simp add: server_wf_def connecting_ids_def connected_ids_def)
qed

theorem client_ids_unique_witness:
  "server_reachable (demo_accepted, host_engine) \<and> card {i. client_connecting (client_at i demo_accepted)} = 1
   \<and> ci_id (client_at 0 demo_accepted) = 0 \<and> phase_at 1 demo_accepted = BOOTSTRAP_NOT_INITIATED"
proof -
  have "generate_unique_client_id demo_accepted = 1" "sv_num_ongoing_connections demo_accepted = 1"
    by (simp_all add: generate_unique_client_id_def demo_accepted_def demo_server_simps)
  with client_ids_unique[OF demo_accepted_reachable] demo_accepted_reachable show ?thesis
    by simp
qed


text \<open>C4: a server knows its clients: when a client is past the exchange over UCX, the server has the length of its
  address, its address and its data about rank and group, as the client sent them.  UCX delivers messages of one
  sender with one tag in the order they were sent, so what the server received from the client is a beginning of
  what the client sent.\<close>

theorem server_knows_client:
  assumes "server_reachable (sv, e)" "client_reachable (cl, ce)"
    and fifo: "ci_received (client_at i sv) = take k (cl_sent cl)"
    and "phase_at i sv = UCX_CONNECT_DONE \<or> phase_at i sv = BOOTSTRAP_DONE"
  shows "ci_addr_len (client_at i sv) = length (cl_local_addr cl) \<and> ci_addr (client_at i sv) = Some (cl_local_addr cl)
    \<and> ci_rank_data (client_at i sv) = cl_rank cl"
  using exchange_data[OF assms(1,2) fifo] assms(4) by blast

theorem server_knows_client_witness:
  "\<exists>e. server_reachable (demo_done, e) \<and> phase_at 0 demo_done = BOOTSTRAP_DONE
     \<and> ci_addr (client_at 0 demo_done) = Some [7, 8] \<and> ci_rank_data (client_at 0 demo_done) = demo_rank"
proof -
  obtain e where r: "server_reachable (demo_done, e)"
    using demo_pass server_reachable.progress[OF demo_accepted_reachable] by blast
  obtain cl ce where c: "client_reachable (cl, ce)" "cl_sent cl = [Addr_size 2, Addr [7, 8], Rank demo_rank]" "cl_local_addr cl = [7, 8]"
    "cl_rank cl = demo_rank"
    using demo_client_sent by blast
  have p: "phase_at 0 demo_done = BOOTSTRAP_DONE" "ci_received (client_at 0 demo_done) = take 3 (cl_sent cl)"
    unfolding c(2) by (simp_all add: demo_done_def count_connected_simps boot_upd_def)
  with server_knows_client[OF r c(1) p(2)] r c(3,4) show ?thesis
    by auto
qed


text \<open>C30: a client that is in no group, as the ones between service processes, is connected after at most five
  passes, when no operation fails and UCX completes between two passes what is pending, whatever completes at
  once and whatever later.\<close>

theorem client_connects:
  assumes "cl_boot cl = RESET_BOOTSTRAPPING\<lparr>b_phase := OOB_CONNECT_DONE\<rparr>" "\<forall>n. no_failure (env n)"
    "ri_group_uid (cl_rank cl) = INT_MAX" "\<And>k. remote_sp = Some k \<Longrightarrow> k < length (e_service_procs e)"
  shows "\<exists>cl' e'. client_rounds remote_sp env sp 5 (cl, e) = Inr (cl', e') \<and> b_phase (cl_boot cl') = BOOTSTRAP_DONE"
proof -
  have "b_phase (cl_boot cl) = OOB_CONNECT_DONE" "peer_known remote_sp e"
    using assms(1,4) by (simp_all add: peer_known_def)
  from client_rounds_stage[OF this(1) assms(1,2,3) this(2), where sp = sp and n = 5] show ?thesis
    by (auto simp: stage_def exchanging_def)
qed

theorem client_connects_witness:
  "\<exists>cl' e'. client_rounds (Some 2) (\<lambda>_. demo_client_answers) \<lparr>spr_local_id = 0, spr_global_id = 0\<rparr> 5 (demo_client, demo_engine 4)
     = Inr (cl', e') \<and> b_phase (cl_boot cl') = BOOTSTRAP_DONE"
proof -
  have "cl_boot demo_client = RESET_BOOTSTRAPPING\<lparr>b_phase := OOB_CONNECT_DONE\<rparr>" "\<forall>n::nat. no_failure demo_client_answers"
    "ri_group_uid (cl_rank demo_client) = INT_MAX" "\<And>k. Some 2 = Some k \<Longrightarrow> k < length (e_service_procs (demo_engine 4))"
    by (simp_all add: demo_client_def no_failure_def demo_client_answers_def RESET_CLIENT_def demo_rank_def RESET_RANK_INFO_def demo_engine_def)
  from client_connects[OF this] show ?thesis .
qed


text \<open>C31: when a client is accepted between two updates of the counters at the end of a connection, it gets the
  identifier of the last client, and takes over its slot.\<close>

theorem accept_during_finalize:
  assumes "server_reachable (sv, e)" "client_connecting (client_at i sv)"
    "sv1 = lower_ongoing i sv \<or> sv1 = raise_connected (lower_ongoing i sv)"
    "oob_server_listen True (sv1, e) = Inr (rc, Some h, (sv', e'))"
  shows "oh_client_id h = generate_unique_client_id sv - 1 \<and> ci_id (client_at (oh_client_id h) sv) = oh_client_id h
    \<and> phase_at (oh_client_id h) sv \<noteq> BOOTSTRAP_NOT_INITIATED \<and> phase_at (oh_client_id h) sv' = OOB_CONNECT_DONE"
proof -
  have wf: "server_wf sv"
    using server_reachable_inv[OF assms(1)] by (simp add: server_inv_def)
  note pos = connecting_ongoing[OF wf assms(2)]
  have "generate_unique_client_id sv1 = generate_unique_client_id sv - 1"
    using assms(3) pos(1) by (auto simp: generate_unique_client_id_def lower_ongoing_def raise_connected_def)
  then have "oh_client_id h = generate_unique_client_id sv - 1" "phase_at (oh_client_id h) sv' = OOB_CONNECT_DONE"
    using assms(4) by (auto simp: oob_server_listen_def Let_def res_simps boot_upd_def)
  with wf pos(2) show ?thesis
    by (simp add: server_wf_def)
qed

theorem accept_during_finalize_witness:
  "client_connecting (client_at 0 demo_accepted) \<and>
   (\<exists>h s'. oob_server_listen True (lower_ongoing 0 demo_accepted, host_engine) = Inr (DO_SUCCESS, Some h, s') \<and> oh_client_id h = 0)"
proof -
  have c: "client_connecting (client_at 0 demo_accepted)"
    by (simp add: demo_accepted_def demo_slot_def client_connecting_def)
  obtain h sv' e' where l: "oob_server_listen True (lower_ongoing 0 demo_accepted, host_engine) = Inr (DO_SUCCESS, Some h, (sv', e'))"
    by (simp add: oob_server_listen_def Let_def host_engine_def)
  have "generate_unique_client_id demo_accepted = 1"
    by (simp add: generate_unique_client_id_def demo_accepted_def demo_server_simps)
  with accept_during_finalize[OF demo_accepted_reachable c _ l] c l show ?thesis
    by auto
qed


text \<open>A server on a DPU does not wait until the data about the service process was sent to a rank: in the next
  pass the connection is finalised, whatever UCX answers, and the request of the send is given up.\<close>

lemma step4_not_awaited:
  assumes "e_on_dpu e" "sv_scope sv = SCOPE_HOST_DPU" "sv_connected_cb sv \<noteq> Service_proc_cb"
    "phase_at i sv = UCX_CONNECT_DONE" "server_inv sv" "b_step4_posted (ci_boot (client_at i sv))"
    "b_step4_request (ci_boot (client_at i sv)) = Request" "\<not> b_step4_complete (ci_boot (client_at i sv))"
    "ri_group_uid (ci_rank_data (client_at i sv)) = INT_MAX"
  shows "\<exists>sv' e'. progress_connecting_client tr sa i (sv, e) = Inr (True, sv', e') \<and> phase_at i sv' = BOOTSTRAP_DONE
    \<and> b_step4_request (ci_boot (client_at i sv')) = No_request"
proof -
  define b where "b = ci_boot (client_at i sv)"
  have "exchange_ok (client_at i sv)"
    using assms(5) by (simp add: server_inv_def)
  then have c: "b_rank_complete b" "b_addr_complete b" "b_addr_size_complete b"
    using assms(4) unfolding exchange_ok_def Let_def b_def by (auto split: if_splits)
  define b1 where "b1 = b\<lparr>b_addr_size_request := clear_request True (b_addr_size_request b), b_addr_request := clear_request True (b_addr_request b)\<rparr>"
  define ci1 where "ci1 = (client_at i sv)\<lparr>ci_boot := b1\<rparr>"
  have 1: "server_step123 sa (client_at i sv) = Inr (DO_SUCCESS, ci1)"
    using c by (simp add: server_step123_def server_step12_def boot_upd_def b_def[symmetric] b1_def ci1_def Let_def)
  define ci2 where "ci2 = (client_at i sv)\<lparr>ci_boot := b1\<lparr>b_rank_request := No_request, b_phase := UCX_CONNECT_DONE, b_step4_complete := True\<rparr>\<rparr>"
  have "b_step4_posted b"
    using assms(6) by (simp add: b_def)
  then have 2: "rank_received sa (sv_scope sv) (ci1, e) = Inr (DO_SUCCESS, ci2, e)"
    using assms(1,2) by (simp add: rank_received_def Let_def ci1_def ci2_def boot_upd_def b1_def)
  define sv2 where "sv2 = count_connected i (put_client i (boot_upd (b_step4_request_update (\<lambda>_. No_request)) ci2) sv)"
  have at: "client_at i sv2 = (client_at i sv)\<lparr>ci_boot := (ci_boot ci2)\<lparr>b_step4_request := No_request, b_phase := BOOTSTRAP_DONE\<rparr>\<rparr>"
    by (simp add: sv2_def count_connected_def boot_upd_def ci2_def)
  have "finalize_client_connection tr i (put_client i (boot_upd (b_step4_request_update (\<lambda>_. No_request)) ci2) sv, e)
      = Inr (sv2, share_clients sv2 e)"
    using assms(3,9) unfolding sv2_def by (intro finalize_no_group) (simp_all add: boot_upd_def ci2_def)
  then have "progress_connecting_client tr sa i (sv, e) = Inr (True, sv2, share_clients sv2 e)"
    using 2 c unfolding progress_connecting_client_def prod.case 1 bindE_simps
    by (simp add: ci1_def ci2_def b1_def)
  with at show ?thesis
    by simp
qed

text \<open>The data about the service process is being sent to the client.\<close>

definition demo_sending :: server_t where
  "demo_sending = put_client 0 ((client_at 0 demo_done)\<lparr>ci_boot := (ci_boot (client_at 0 demo_done))
     \<lparr>b_phase := UCX_CONNECT_DONE, b_step4_posted := True, b_step4_request := Request, b_step4_complete := False\<rparr>\<rparr>) demo_accepted"

lemma step4_not_awaited_witness:
  "\<exists>sv' e'. progress_connecting_client async_transport demo_answers 0 (demo_sending, demo_engine 4) = Inr (True, sv', e')
     \<and> phase_at 0 sv' = BOOTSTRAP_DONE"
proof -
  have "server_inv demo_accepted"
    using server_reachable_inv[OF demo_accepted_reachable] by simp
  then have "server_inv demo_sending"
    unfolding demo_sending_def
    by (rule server_inv_put)
       (simp_all add: client_connecting_def demo_accepted_def demo_slot_def demo_done_def count_connected_simps boot_upd_def exchange_ok_def)
  moreover have "e_on_dpu (demo_engine 4)" "sv_scope demo_sending = SCOPE_HOST_DPU" "sv_connected_cb demo_sending \<noteq> Service_proc_cb"
    by (simp_all add: demo_engine_def demo_sending_def demo_accepted_def demo_server_simps)
  moreover have "phase_at 0 demo_sending = UCX_CONNECT_DONE" "b_step4_posted (ci_boot (client_at 0 demo_sending))"
    "b_step4_request (ci_boot (client_at 0 demo_sending)) = Request" "\<not> b_step4_complete (ci_boot (client_at 0 demo_sending))"
    "ri_group_uid (ci_rank_data (client_at 0 demo_sending)) = INT_MAX"
    by (simp_all add: demo_sending_def demo_done_def count_connected_simps boot_upd_def demo_rank_def RESET_RANK_INFO_def)
  ultimately show ?thesis
    using step4_not_awaited[of "demo_engine 4" demo_sending 0 async_transport demo_answers] by blast
qed


end
