(* ===== verification/Smart_Buffers.thy ===== *)
theory Smart_Buffers
imports Dyn_Structs C_Strings
begin

text \<open>
  Smart buffers (\<open>src/include/dynamic_structs.h\<close>): buffers for payloads, taken from buckets by size.  A bucket
  has a pool of chunks of its size; the descriptors of the chunks come from one dynamic list and name memory of a
  block of the heap.  Sizes are natural numbers below \<open>2 ^ 64\<close>, with the wrap-around of the arithmetic of the code
  written out.  The three dynamic arrays of the system are lists that grow on demand.
\<close>

definition wrap64 :: "nat \<Rightarrow> nat" where "wrap64 n = n mod 2 ^ 64"

section \<open>Chunks and buckets\<close>

text \<open>A buffer is a block and an offset in it; the block is missing when its allocation failed.  A chunk names its
  bucket by the index of the bucket.\<close>

record smart_chunk_t =
  sc_seq_num :: nat
  sc_bucket :: "nat option"
  sc_parent_chunk :: "ptr option"
  sc_prev :: "ptr option"
  sc_base :: "blk option \<times> nat"
  sc_size :: nat
  sc_in_use :: bool

definition RESET_SMART_CHUNK :: "smart_chunk_t \<Rightarrow> smart_chunk_t" where
  "RESET_SMART_CHUNK sc = sc\<lparr>sc_parent_chunk := None, sc_prev := None, sc_base := (None, 0), sc_size := 0,
     sc_in_use := False, sc_seq_num := 2 ^ 64 - 1\<rparr>"

definition zero_smart_chunk :: smart_chunk_t where
  "zero_smart_chunk = \<lparr>sc_seq_num = 0, sc_bucket = None, sc_parent_chunk = None, sc_prev = None, sc_base = (None, 0),
     sc_size = 0, sc_in_use = False\<rparr>"

text \<open>Of the pointer \<open>sys\<close> of a bucket only matters whether it is set.\<close>

record smart_bucket_t =
  bk_sys :: bool
  bk_initial_size :: nat
  bk_min_size :: nat
  bk_max_size :: nat
  bk_smart_chunks_seq_num :: nat
  bk_pool :: "ptr simple_list_t"

definition RESET_SMART_BUCKET :: smart_bucket_t where
  "RESET_SMART_BUCKET = \<lparr>bk_sys = False, bk_initial_size = 0, bk_min_size = 0, bk_max_size = 0,
     bk_smart_chunks_seq_num = 0, bk_pool = SIMPLE_LIST_INIT\<rparr>"

record smart_buffers_t =
  sb_num_buckets :: nat
  sb_num_base_mem_chunks :: nat
  sb_base_mem_chunks :: "mem_chunk_t list"
  sb_bucket_sizes :: "nat list"
  sb_buckets :: "smart_bucket_t list"
  sb_smart_chunk_desc_pool :: "smart_chunk_t dyn_list_t"

definition sizeof_smart_chunk_t :: u64 where
  "sizeof_smart_chunk_t = 72"

definition sc_write :: "ptr \<Rightarrow> (smart_chunk_t \<Rightarrow> smart_chunk_t) \<Rightarrow> smart_chunk_t dyn_list_t \<Rightarrow> smart_chunk_t dyn_list_t" where
  "sc_write p f dl = dl\<lparr>dl_elts := (dl_elts dl)(p := f (dl_elts dl p))\<rparr>"

definition bucket_at :: "nat \<Rightarrow> smart_buffers_t \<Rightarrow> smart_bucket_t" where
  "bucket_at k sys = arr_get k RESET_SMART_BUCKET (sb_buckets sys)"

definition put_bucket :: "nat \<Rightarrow> smart_bucket_t \<Rightarrow> smart_buffers_t \<Rightarrow> smart_buffers_t" where
  "put_bucket k b sys = sys\<lparr>sb_buckets := arr_put k RESET_SMART_BUCKET b (sb_buckets sys)\<rparr>"

text \<open>A bucket, the pool of descriptors and the heap, while chunks are added.\<close>

type_synonym adding = "smart_bucket_t \<times> smart_chunk_t dyn_list_t \<times> heap"

text \<open>What the loops that add chunks have in common: a descriptor is taken from the pool, reset and filled.\<close>

definition new_chunk :: "(smart_chunk_t \<Rightarrow> smart_chunk_t) \<Rightarrow> (ptr \<Rightarrow> ptr simple_list_t \<Rightarrow> ptr simple_list_t) \<Rightarrow> adding \<Rightarrow> (ptr \<times> adding) res" where
  "new_chunk fill link = (\<lambda>(b, dl, h).
     bindE (DYN_LIST_GET sizeof_smart_chunk_t dl h) (\<lambda>(p, dl1, h1).
     bindE (assertE (bk_smart_chunks_seq_num b \<noteq> 2 ^ 64 - 1)) (\<lambda>_.
     Inr (p, b\<lparr>bk_pool := link p (bk_pool b), bk_smart_chunks_seq_num := Suc (bk_smart_chunks_seq_num b)\<rparr>,
          sc_write p (\<lambda>sc. (fill (RESET_SMART_CHUNK sc))
              \<lparr>sc_size := bk_max_size b, sc_seq_num := bk_smart_chunks_seq_num b\<rparr>) dl1, h1))))"

section \<open>Initialisation\<close>

definition SMART_BUFFERS_DEFAULT_MEM_ALLOC_SIZE :: nat where
  "SMART_BUFFERS_DEFAULT_MEM_ALLOC_SIZE = 10 * 1024 * 1024"

definition alloc_smart_chunk :: "nat \<Rightarrow> blk option \<times> nat \<Rightarrow> nat \<Rightarrow> adding \<Rightarrow> adding res" where
  "alloc_smart_chunk k base i = (\<lambda>(b, dl, h).
     bindE (new_chunk (\<lambda>sc. sc\<lparr>sc_base := (fst base, snd base + i * bk_max_size b), sc_bucket := Some k\<rparr>)
              SIMPLE_LIST_APPEND (b, dl, h)) (\<lambda>(p, s). Inr s))"

definition SMART_BUFFERS_ALLOC_SMART_CHUNKS :: "nat \<Rightarrow> nat \<Rightarrow> blk option \<times> nat \<Rightarrow> adding \<Rightarrow> adding res" where
  "SMART_BUFFERS_ALLOC_SMART_CHUNKS k mem_size base = (\<lambda>(b, dl, h).
     bindE (assertE (0 < bk_max_size b)) (\<lambda>_.
     foldE (alloc_smart_chunk k base) [0..<mem_size div bk_max_size b] (b, dl, h)))"

definition SMART_BUFFS_HANDLE_INFO :: "nat list option \<Rightarrow> nat list" where
  "SMART_BUFFS_HANDLE_INFO info =
     (case info of None \<Rightarrow> [8, 16, 64, 128, 512, 1024, 4096, 8192, 65536] | Some buckets \<Rightarrow> buckets)"

text \<open>One bucket; its chunks lie in the \<open>k\<close>-th part of the memory.\<close>

definition init_bucket :: "nat list \<Rightarrow> blk option \<Rightarrow> nat \<Rightarrow> nat
    \<Rightarrow> nat \<times> smart_bucket_t list \<times> smart_chunk_t dyn_list_t \<times> heap
    \<Rightarrow> (nat \<times> smart_bucket_t list \<times> smart_chunk_t dyn_list_t \<times> heap) res" where
  "init_bucket sizes base mem_size k = (\<lambda>(min_size, bks, dl, h).
     bindE (nthE sizes k) (\<lambda>max_size.
     let b = RESET_SMART_BUCKET\<lparr>bk_sys := True, bk_min_size := min_size, bk_max_size := max_size\<rparr> in
     bindE (assertE (bk_max_size b \<noteq> 0)) (\<lambda>_.
     bindE (SMART_BUFFERS_ALLOC_SMART_CHUNKS k mem_size (base, k * mem_size) (b, dl, h)) (\<lambda>(b1, dl1, h1).
     Inr (Suc max_size, bks @ [b1\<lparr>bk_initial_size := mem_size div max_size\<rparr>], dl1, h1)))))"

definition SMART_BUFFS_INIT :: "nat list option \<Rightarrow> heap \<Rightarrow> (smart_buffers_t \<times> heap) res" where
  "SMART_BUFFS_INIT info h =
     (let sizes = SMART_BUFFS_HANDLE_INFO info; n = length sizes in
      bindE (DYN_LIST_ALLOC sizeof_smart_chunk_t (\<lambda>_. zero_smart_chunk) (of_nat (SMART_BUFFERS_DEFAULT_MEM_ALLOC_SIZE div 2)) h) (\<lambda>(r, h1).
      bindE (derefE r) (\<lambda>dl.
      case malloc (of_nat SMART_BUFFERS_DEFAULT_MEM_ALLOC_SIZE) h1 of (base, h2) \<Rightarrow>
      bindE (guardE Aborted (n \<noteq> 0)) (\<lambda>_.
      bindE (foldE (init_bucket sizes base (SMART_BUFFERS_DEFAULT_MEM_ALLOC_SIZE div n)) [0..<n] (0, [], dl, h2)) (\<lambda>(min_size, bks, dl1, h3).
      Inr (\<lparr>sb_num_buckets = n, sb_num_base_mem_chunks = 1,
            sb_base_mem_chunks = [\<lparr>mc_size = of_nat SMART_BUFFERS_DEFAULT_MEM_ALLOC_SIZE, mc_ptr = base\<rparr>],
            sb_bucket_sizes = sizes,
            sb_buckets = bks @ [RESET_SMART_BUCKET\<lparr>bk_min_size := min_size, bk_max_size := 2 ^ 64 - 1\<rparr>],
            sb_smart_chunk_desc_pool = dl1\<rparr>, h3))))))"

section \<open>Getting and returning buffers\<close>

text \<open>The first bucket whose sizes include the one that is asked for.\<close>

fun find_bucket :: "nat \<Rightarrow> smart_bucket_t list \<Rightarrow> nat option" where
  "find_bucket sz [] = None"
| "find_bucket sz (b # bs) =
     (if bk_min_size b \<le> sz \<and> sz \<le> bk_max_size b then Some 0 else map_option Suc (find_bucket sz bs))"

definition target_bucket :: "nat \<Rightarrow> smart_buffers_t \<Rightarrow> nat option" where
  "target_bucket sz sys = find_bucket sz (take (sb_num_buckets sys) (sb_buckets sys))"

text \<open>A step of the loop that adds chunks to a bucket; the chunks form a ring through \<open>prev\<close>.\<close>

definition grow_chunk :: "nat \<Rightarrow> blk \<Rightarrow> nat \<Rightarrow> ptr option \<times> ptr option \<times> adding \<Rightarrow> (ptr option \<times> ptr option \<times> adding) res" where
  "grow_chunk k mem i = (\<lambda>(first, prev, b, dl, h).
     bindE (new_chunk (\<lambda>sc. sc\<lparr>sc_base := (Some mem, i * bk_max_size b), sc_prev := prev, sc_bucket := Some k\<rparr>)
              SIMPLE_LIST_PREPEND (b, dl, h)) (\<lambda>(p, s).
     Inr (case first of None \<Rightarrow> Some p | Some f \<Rightarrow> Some f, Some p, s)))"

definition SMART_BUFFS_GROW_BUCKET :: "nat \<Rightarrow> smart_buffers_t \<times> heap \<Rightarrow> (smart_buffers_t \<times> heap) res" where
  "SMART_BUFFS_GROW_BUCKET k = (\<lambda>(sys, h).
     let b = bucket_at k sys; mem_size = wrap64 (bk_initial_size b * bk_max_size b) in
     case malloc (of_nat mem_size) h of
       (None, h1) \<Rightarrow> Inl Assert_failed
     | (Some mem, h1) \<Rightarrow>
         bindE (assertE (bk_initial_size b \<noteq> 0)) (\<lambda>_.
         bindE (guardE Null_deref (bk_sys b)) (\<lambda>_.
         let n = sb_num_base_mem_chunks sys in
         bindE (foldE (grow_chunk k mem) [0..<bk_initial_size b] (None, None, b, sb_smart_chunk_desc_pool sys, h1)) (\<lambda>(first, prev, b1, dl, h2).
         bindE (derefE first) (\<lambda>f.
         Inr ((put_bucket k b1 sys)
                \<lparr>sb_base_mem_chunks := arr_put n zero_mem_chunk \<lparr>mc_size = of_nat mem_size, mc_ptr = Some mem\<rparr> (sb_base_mem_chunks sys),
                 sb_num_base_mem_chunks := Suc n,
                 sb_smart_chunk_desc_pool := sc_write f (sc_prev_update (\<lambda>_. prev)) dl\<rparr>, h2))))))"

text \<open>A bucket for a size that is bigger than all buckets.\<close>

definition big_chunk :: "blk option \<Rightarrow> nat \<Rightarrow> adding \<Rightarrow> adding res" where
  "big_chunk mem i = (\<lambda>(b, dl, h).
     bindE (new_chunk (\<lambda>sc. sc\<lparr>sc_base := (mem, i * bk_max_size b)\<rparr>) SIMPLE_LIST_APPEND (b, dl, h)) (\<lambda>(p, s). Inr s))"

definition new_bucket_size :: "nat \<Rightarrow> nat \<Rightarrow> nat" where
  "new_bucket_size sz last_size = (let page = wrap64 ((sz div 4096 + 1) * 4096) in if page < wrap64 (last_size * 2) then wrap64 (last_size * 2) else page)"

definition add_bucket :: "nat \<Rightarrow> smart_buffers_t \<times> heap \<Rightarrow> (nat \<times> smart_buffers_t \<times> heap) res" where
  "add_bucket sz = (\<lambda>(sys, h).
     let n = sb_num_buckets sys; last_size = arr_get (n - 1) 0 (sb_bucket_sizes sys); max_size = new_bucket_size sz last_size in
     bindE (assertE (bk_smart_chunks_seq_num (bucket_at n sys) = 0)) (\<lambda>_.
     let b = (bucket_at n sys)\<lparr>bk_pool := SIMPLE_LIST_INIT, bk_min_size := wrap64 (last_size + 1), bk_max_size := max_size\<rparr>;
         mem_size = wrap64 (2 * max_size); m = sb_num_base_mem_chunks sys in
     bindE (assertE (0 < mem_size)) (\<lambda>_.
     case malloc (of_nat mem_size) h of (mem, h1) \<Rightarrow>
     bindE (foldE (big_chunk mem) [0..<Suc (mem_size div max_size)] (b, sb_smart_chunk_desc_pool sys, h1)) (\<lambda>(b1, dl, h2).
     Inr (n, (put_bucket n (b1\<lparr>bk_initial_size := Suc (mem_size div max_size)\<rparr>) sys)
            \<lparr>sb_bucket_sizes := arr_put n 0 max_size (sb_bucket_sizes sys),
             sb_base_mem_chunks := arr_put m zero_mem_chunk ((arr_get m zero_mem_chunk (sb_base_mem_chunks sys))\<lparr>mc_ptr := mem\<rparr>) (sb_base_mem_chunks sys),
             sb_num_base_mem_chunks := Suc m, sb_num_buckets := Suc n, sb_smart_chunk_desc_pool := dl\<rparr>, h2)))))"

definition take_chunk :: "nat \<Rightarrow> smart_buffers_t \<times> heap \<Rightarrow> (ptr \<times> smart_buffers_t \<times> heap) res" where
  "take_chunk k = (\<lambda>(sys, h).
     bindE (assertE (sl_length (bk_pool (bucket_at k sys)) \<noteq> 0)) (\<lambda>_.
     bindE (SIMPLE_LIST_EXTRACT_HEAD (bk_pool (bucket_at k sys))) (\<lambda>(p, l).
     let sys1 = (put_bucket k ((bucket_at k sys)\<lparr>bk_pool := l\<rparr>) sys)
                  \<lparr>sb_smart_chunk_desc_pool := sc_write p (sc_in_use_update (\<lambda>_. True)) (sb_smart_chunk_desc_pool sys)\<rparr> in
     bindE (assertE (sc_seq_num (dl_elts (sb_smart_chunk_desc_pool sys1) p) \<noteq> 2 ^ 64 - 1)) (\<lambda>_.
     Inr (p, sys1, h)))))"

definition SMART_BUFF_GET :: "nat \<Rightarrow> smart_buffers_t \<times> heap \<Rightarrow> (ptr \<times> smart_buffers_t \<times> heap) res" where
  "SMART_BUFF_GET sz = (\<lambda>(sys, h).
     bindE (case target_bucket sz sys of
              None \<Rightarrow> add_bucket sz (sys, h)
            | Some k \<Rightarrow>
                bindE (assertE (bk_smart_chunks_seq_num (bucket_at k sys) \<noteq> 2 ^ 64 - 1)) (\<lambda>_.
                if bk_max_size (bucket_at k sys) = 2 ^ 64 - 1 then add_bucket sz (sys, h) else Inr (k, sys, h))) (\<lambda>(k, s).
     bindE (if SIMPLE_LIST_IS_EMPTY (bk_pool (bucket_at k (fst s))) then SMART_BUFFS_GROW_BUCKET k s else Inr s) (take_chunk k)))"

definition SMART_BUFF_RETURN :: "nat \<Rightarrow> ptr \<Rightarrow> smart_buffers_t \<Rightarrow> smart_buffers_t res" where
  "SMART_BUFF_RETURN sz p sys =
     bindE (assertE (sc_in_use (dl_elts (sb_smart_chunk_desc_pool sys) p))) (\<lambda>_.
     bindE (assertE (target_bucket sz sys \<noteq> None)) (\<lambda>_.
     let k = the (target_bucket sz sys) in
     Inr ((put_bucket k ((bucket_at k sys)\<lparr>bk_pool := SIMPLE_LIST_PREPEND p (bk_pool (bucket_at k sys))\<rparr>) sys)
            \<lparr>sb_smart_chunk_desc_pool := sc_write p (sc_in_use_update (\<lambda>_. False)) (sb_smart_chunk_desc_pool sys)\<rparr>)))"

end
