(* ===== verification/Smart_Buffer_Safety.thy ===== *)
theory Smart_Buffer_Safety
imports Smart_Buffers
begin

text \<open>
  Buffers in use lie in memory of the system and do not overlap, and a buffer is at least as long as what was asked
  for, as long as the sizes that are asked for belong to the buckets of the initialisation.
\<close>

section \<open>Descriptors\<close>

lemma malloc_keeps: "malloc sz h = (r, h') \<Longrightarrow> e \<in> set (h_live h) \<Longrightarrow> e \<in> set (h_live h')"
  by (auto simp: malloc_def split: if_splits)

text \<open>Getting a descriptor keeps the blocks that are not part of the pool, with their sizes.\<close>

lemma GROW_DYN_LIST_keeps:
  assumes "GROW_DYN_LIST sz dl h = Inr (dl', h')" "wf_heap h" "dl_wf sz dl h" "e \<in> set (h_live h)" "fst e \<notin> pool_blks dl"
  shows "e \<in> set (h_live h')"
proof (cases "malloc (dl_allocation_size dl * sz) h")
  case (Pair r h1)
  note m = Pair
  show ?thesis
  proof (cases r)
    case None
    with assms(1,4) m malloc_keeps[OF m] show ?thesis
      by (simp add: GROW_DYN_LIST_def)
  next
    case (Some b)
    have c: "dl_chunks_wf sz dl h"
      using assms(3) by (simp add: dl_wf_def)
    have h1: "wf_heap h1" "e \<in> set (h_live h1)"
      using malloc_wf[OF assms(2) m] malloc_keeps[OF m assms(4)] by auto
    have a: "da_wf sizeof_mem_chunk_t (dl_mem_chunks dl) h1"
      using c malloc_keeps[OF m] by (auto simp: dl_chunks_wf_def da_wf_def)
    have al: "da_allocation_size (dl_mem_chunks dl) = DEFAULT_MEM_CHUNKS" "da_element_init_fn (dl_mem_chunks dl) = None"
      using c by (simp_all add: dl_chunks_wf_def)
    have nw: "(unat (dl_num_mem_chunks dl) + unat (da_allocation_size (dl_mem_chunks dl))) * unat sizeof_mem_chunk_t < 2 ^ 64"
      using dl_bounds(2)[OF assms(3)] by (simp add: al DEFAULT_MEM_CHUNKS_def sizeof_mem_chunk_t_def)
    obtain i a1 h2 where g: "DYN_ARRAY_GET_ELT sizeof_mem_chunk_t zero_mem_chunk (dl_num_mem_chunks dl) (dl_mem_chunks dl) h1 = Inr (i, a1, h2)"
      and h': "h' = h2"
      using assms(1) m Some by (auto simp: GROW_DYN_LIST_def Let_def res_simps)
    have "da_extends sizeof_mem_chunk_t zero_mem_chunk (dl_mem_chunks dl) h1 a1 h2"
      using DYN_ARRAY_GET_ELT_spec[OF h1(1) a al(2) nw, of zero_mem_chunk] g by auto
    then have "other_blks (da_blk a1) h2 = other_blks (da_blk (dl_mem_chunks dl)) h1"
      by (simp add: da_extends_def)
    from other_blks_mem[OF this h1(2)] assms(5) h' show ?thesis
      by (auto simp: pool_blks_def)
  qed
qed

text \<open>The state of the pool of descriptors.\<close>

definition descs_wf :: "smart_chunk_t dyn_list_t \<Rightarrow> heap \<Rightarrow> bool" where
  "descs_wf dl h = (dl_wf sizeof_smart_chunk_t dl h \<and> dl_element_init_cb dl = None)"

lemma pool_blks_live:
  assumes "dl_wf sz dl h"
  shows "pool_blks dl \<subseteq> live_blks h"
proof -
  have c: "dl_chunks_wf sz dl h"
    using assms by (simp add: dl_wf_def)
  have "b \<in> live_blks h" if "(b, n) \<in> set (h_live h)" for b n
    using that unfolding live_blks_def by (rule rev_image_eqI) simp
  then have "dl_blk dl \<in> live_blks h" "\<forall>b \<in> set (chunk_blks dl). b \<in> live_blks h"
    using c unfolding dl_chunks_wf_def by blast+
  moreover have "da_blk (dl_mem_chunks dl) \<in> live_blks h"
    using c by (intro da_wf_live[of sizeof_mem_chunk_t]) (simp add: dl_chunks_wf_def)
  ultimately show ?thesis
    by (auto simp: pool_blks_def)
qed

lemma get_desc:
  assumes w: "descs_wf dl h" and g: "DYN_LIST_GET sizeof_smart_chunk_t dl h = Inr (p, dl1, h1)"
    and dl2: "dl2 = sc_write p f dl1"
  shows "descs_wf dl2 h1" "p \<notin> dl_used dl" "dl_used dl2 = insert p (dl_used dl)"
    "\<And>q. q \<noteq> p \<Longrightarrow> dl_elts dl2 q = dl_elts dl q" "dl_elts dl2 p = f (dl_elts dl p)"
    "\<And>e. e \<in> set (h_live h) \<Longrightarrow> fst e \<notin> pool_blks dl \<Longrightarrow> e \<in> set (h_live h1) \<and> fst e \<notin> pool_blks dl2"
proof -
  have w': "dl_wf sizeof_smart_chunk_t dl h" "dl_element_init_cb dl = None"
    using w by (simp_all add: descs_wf_def)
  have same: "dl_wf sz dl2 h1 = dl_wf sz dl1 h1" "dl_used dl2 = dl_used dl1" "pool_blks dl2 = pool_blks dl1"
    "dl_element_init_cb dl2 = dl_element_init_cb dl1" for sz
    by (simp_all add: dl2 sc_write_def dl_wf_def dl_chunks_wf_def dl_used_def dl_items_def dl_free_def chunk_blks_def
        chunk_ptrs_def pool_blks_def)
  note s = dl_get_spec[of sizeof_smart_chunk_t "(dl, h)" p "(dl1, h1)", simplified, OF w'(1)]
  have s': "dl_wf sizeof_smart_chunk_t dl1 h1" "p \<notin> dl_used dl" "dl_used dl1 = insert p (dl_used dl)"
    "live_blks h1 - pool_blks dl1 = live_blks h - pool_blks dl"
    using s g by (simp_all add: dl_get_def)
  from DYN_LIST_GET_cases[OF w'(1) g] obtain dl0 l where c: "dl1 = dl0\<lparr>dl_list := l\<rparr>"
    "(dl0, h1) = (dl, h) \<or> (\<exists>b. dl_grown b dl dl0 \<and> b \<notin> live_blks h)"
    by metis
  then have elts: "dl_elts dl1 = dl_elts dl" "dl_element_init_cb dl1 = None"
    using w'(2) by (auto simp: dl_grown_def init_chunk_def fun_eq_iff)
  show "descs_wf dl2 h1" "p \<notin> dl_used dl" "dl_used dl2 = insert p (dl_used dl)"
    using s' elts same by (simp_all add: descs_wf_def)
  show "dl_elts dl2 q = dl_elts dl q" if "q \<noteq> p" for q
    using that elts by (simp add: dl2 sc_write_def)
  show "dl_elts dl2 p = f (dl_elts dl p)"
    using elts by (simp add: dl2 sc_write_def)
  show "e \<in> set (h_live h1) \<and> fst e \<notin> pool_blks dl2" if e: "e \<in> set (h_live h)" "fst e \<notin> pool_blks dl" for e
  proof -
    have "fst e \<in> live_blks h - pool_blks dl"
      using e by (auto simp: live_blks_def)
    then have n: "fst e \<notin> pool_blks dl1"
      using s'(4) by blast
    have "e \<in> set (h_live h1)"
    proof (cases "SIMPLE_LIST_IS_EMPTY (dl_list dl)")
      case True
      then obtain dl3 where "GROW_DYN_LIST sizeof_smart_chunk_t dl h = Inr (dl3, h1)"
        using g by (auto simp: DYN_LIST_GET_def res_simps)
      then show ?thesis
        by (rule GROW_DYN_LIST_keeps[OF _ _ w'(1) e]) (use w'(1) in \<open>simp add: dl_wf_def\<close>)
    next
      case False
      then show ?thesis
        using g e by (auto simp: DYN_LIST_GET_def res_simps)
    qed
    with n same show ?thesis
      by simp
  qed
qed

section \<open>Memory of chunks\<close>

text \<open>A chunk lies in a live block that does not belong to the pool of descriptors.\<close>

definition in_block :: "heap \<Rightarrow> smart_chunk_t dyn_list_t \<Rightarrow> smart_chunk_t \<Rightarrow> bool" where
  "in_block h dl sc = (\<exists>b n. fst (sc_base sc) = Some b \<and> b \<notin> pool_blks dl \<and> (b, n) \<in> set (h_live h)
     \<and> snd (sc_base sc) + sc_size sc \<le> n)"

definition apart :: "smart_chunk_t \<Rightarrow> smart_chunk_t \<Rightarrow> bool" where
  "apart a c = (fst (sc_base a) \<noteq> fst (sc_base c) \<or> snd (sc_base a) + sc_size a \<le> snd (sc_base c)
     \<or> snd (sc_base c) + sc_size c \<le> snd (sc_base a))"

lemma apart_sym: "apart a c = apart c a"
  by (auto simp: apart_def)

definition chunks_ok :: "smart_chunk_t dyn_list_t \<Rightarrow> heap \<Rightarrow> bool" where
  "chunks_ok dl h = (descs_wf dl h \<and> (\<forall>p \<in> dl_used dl. in_block h dl (dl_elts dl p))
     \<and> (\<forall>p \<in> dl_used dl. \<forall>q \<in> dl_used dl. p \<noteq> q \<longrightarrow> apart (dl_elts dl p) (dl_elts dl q)))"

text \<open>A pool of chunks; its counter cannot wrap around because there are fewer descriptors than addresses.\<close>

definition pool_ok :: "ptr simple_list_t \<Rightarrow> smart_chunk_t dyn_list_t \<Rightarrow> bool" where
  "pool_ok l dl = (distinct (internal_list l) \<and> sl_length l = of_nat (length (internal_list l))
     \<and> set (internal_list l) \<subseteq> dl_used dl)"

lemma pool_ok_wf:
  assumes "pool_ok l dl" "descs_wf dl h"
  shows "sl_wf l"
proof -
  have w: "dl_wf sizeof_smart_chunk_t dl h"
    using assms(2) by (simp add: descs_wf_def)
  have "length (internal_list l) = card (set (internal_list l))"
    using assms(1) by (simp add: pool_ok_def distinct_card)
  also have "\<dots> \<le> card (dl_items dl)"
    using assms(1) dl_items_card(1)[OF w] by (intro card_mono) (auto simp: pool_ok_def dl_used_def)
  also have "\<dots> < 2 ^ 64"
    using dl_bounds(1)[OF w] dl_items_card(2)[OF w] by linarith
  finally show ?thesis
    using assms(1) by (simp add: sl_wf_def pool_ok_def)
qed

text \<open>Adding a chunk in memory that no chunk has.\<close>

lemma chunks_ok_add:
  assumes ok: "chunks_ok dl h" and g: "DYN_LIST_GET sizeof_smart_chunk_t dl h = Inr (p, dl1, h1)"
    and dl2: "dl2 = sc_write p f dl1" and b: "in_block h dl (f (dl_elts dl p))"
    and a: "\<And>q. q \<in> dl_used dl \<Longrightarrow> apart (f (dl_elts dl p)) (dl_elts dl q)"
  shows "chunks_ok dl2 h1"
proof -
  have w: "descs_wf dl h"
    using ok by (simp add: chunks_ok_def)
  note d = get_desc[OF w g dl2]
  have blk: "in_block h1 dl2 sc" if i: "in_block h dl sc" for sc
  proof -
    obtain x n where x: "fst (sc_base sc) = Some x" "x \<notin> pool_blks dl" "(x, n) \<in> set (h_live h)" "snd (sc_base sc) + sc_size sc \<le> n"
      using i by (auto simp: in_block_def)
    then show ?thesis
      using d(6)[of "(x, n)"] by (auto simp: in_block_def)
  qed
  have e: "dl_elts dl2 q = (if q = p then f (dl_elts dl p) else dl_elts dl q)" for q
    using d(4,5) by simp
  show ?thesis
    unfolding chunks_ok_def
  proof (intro conjI ballI impI)
    show "descs_wf dl2 h1"
      by (rule d(1))
    show "in_block h1 dl2 (dl_elts dl2 q)" if "q \<in> dl_used dl2" for q
      using that ok b d(3) by (auto simp: e chunks_ok_def intro: blk)
    fix q r assume "q \<in> dl_used dl2" "r \<in> dl_used dl2" "q \<noteq> r"
    then show "apart (dl_elts dl2 q) (dl_elts dl2 r)"
      using ok a[of q] a[of r] d(2,3) apart_sym[of "dl_elts dl q"] by (auto simp: e chunks_ok_def)
  qed
qed

section \<open>Carving a block into chunks\<close>

text \<open>\<open>i\<close> chunks of \<open>m\<close> bytes were added to the chunks of \<open>dl0\<close>, in the memory of a block from \<open>off\<close> on.\<close>

definition carved :: "blk \<times> nat \<Rightarrow> nat \<Rightarrow> nat \<Rightarrow> nat \<Rightarrow> smart_chunk_t dyn_list_t \<Rightarrow> adding \<Rightarrow> bool" where
  "carved blk off m i dl0 = (\<lambda>(b, dl, h).
     chunks_ok dl h \<and> dl_used dl0 \<subseteq> dl_used dl \<and> (\<forall>p \<in> dl_used dl0. dl_elts dl p = dl_elts dl0 p)
     \<and> (\<forall>p \<in> dl_used dl - dl_used dl0. fst (sc_base (dl_elts dl p)) = Some (fst blk) \<and> off \<le> snd (sc_base (dl_elts dl p))
          \<and> snd (sc_base (dl_elts dl p)) + m \<le> off + i * m \<and> sc_size (dl_elts dl p) = m \<and> \<not> sc_in_use (dl_elts dl p))
     \<and> blk \<in> set (h_live h) \<and> fst blk \<notin> pool_blks dl \<and> bk_max_size b = m \<and> pool_ok (bk_pool b) dl)"

lemma carved_new:
  assumes "carved blk off m i dl0 (b, dl, h)" "p \<in> dl_used dl" "p \<notin> dl_used dl0"
  shows "fst (sc_base (dl_elts dl p)) = Some (fst blk)" "off \<le> snd (sc_base (dl_elts dl p))"
    "snd (sc_base (dl_elts dl p)) + m \<le> off + i * m" "sc_size (dl_elts dl p) = m" "\<not> sc_in_use (dl_elts dl p)"
  using assms unfolding carved_def by blast+

text \<open>The list of the bucket gets the new chunk.\<close>

definition links :: "(ptr \<Rightarrow> ptr simple_list_t \<Rightarrow> ptr simple_list_t) \<Rightarrow> bool" where
  "links link = (\<forall>p l. set (internal_list (link p l)) = insert p (set (internal_list l)) \<and> sl_length (link p l) = sl_length l + 1
     \<and> length (internal_list (link p l)) = Suc (length (internal_list l)) \<and> (distinct (internal_list l) \<and> p \<notin> set (internal_list l) \<longrightarrow> distinct (internal_list (link p l))))"

lemma links_list: "links SIMPLE_LIST_APPEND" "links SIMPLE_LIST_PREPEND"
  by (auto simp: links_def SIMPLE_LIST_APPEND_def SIMPLE_LIST_PREPEND_def)

lemma new_chunk_carved:
  assumes c: "carved blk off m i dl0 (b, dl, h)" and n: "new_chunk fill link (b, dl, h) = Inr (p, b', dl', h')"
    and l: "links link" and room: "off + Suc i * m \<le> snd blk"
    and old: "\<forall>q \<in> dl_used dl0. fst (sc_base (dl_elts dl0 q)) \<noteq> Some (fst blk) \<or> snd (sc_base (dl_elts dl0 q)) + sc_size (dl_elts dl0 q) \<le> off"
    and fill: "\<And>sc. sc_base (fill sc) = (Some (fst blk), off + i * m) \<and> sc_in_use (fill sc) = sc_in_use sc"
  shows "carved blk off m (Suc i) dl0 (b', dl', h')"
    "set (internal_list (bk_pool b')) = insert p (set (internal_list (bk_pool b)))" "p \<notin> dl_used dl" "dl_used dl' = insert p (dl_used dl)"
    "b' = b\<lparr>bk_pool := bk_pool b', bk_smart_chunks_seq_num := Suc (bk_smart_chunks_seq_num b)\<rparr>"
proof -
  let ?fill = "\<lambda>sc. (fill (RESET_SMART_CHUNK sc))\<lparr>sc_size := bk_max_size b, sc_seq_num := bk_smart_chunks_seq_num b\<rparr>"
  obtain dl1 where g: "DYN_LIST_GET sizeof_smart_chunk_t dl h = Inr (p, dl1, h')" "dl' = sc_write p ?fill dl1"
    "b' = b\<lparr>bk_pool := link p (bk_pool b), bk_smart_chunks_seq_num := Suc (bk_smart_chunks_seq_num b)\<rparr>"
    using n by (auto simp: new_chunk_def res_simps)
  have ok: "chunks_ok dl h" and w: "descs_wf dl h" and m: "bk_max_size b = m" and blk: "blk \<in> set (h_live h)" "fst blk \<notin> pool_blks dl"
    using c by (auto simp: carved_def chunks_ok_def)
  note d = get_desc[OF w g(1,2)]
  let ?sc = "?fill (dl_elts dl p)"
  have sc: "sc_base ?sc = (Some (fst blk), off + i * m)" "sc_size ?sc = m" "\<not> sc_in_use ?sc"
    using fill m by (simp_all add: RESET_SMART_CHUNK_def)
  have "in_block h dl ?sc"
    using sc blk room by (auto simp: in_block_def intro!: exI[of _ "snd blk"])
  moreover have "apart ?sc (dl_elts dl q)" if "q \<in> dl_used dl" for q
  proof (cases "q \<in> dl_used dl0")
    case True
    then have "dl_elts dl q = dl_elts dl0 q"
      using c by (auto simp: carved_def)
    then show ?thesis
      using old True sc by (auto simp: apart_def)
  next
    case False
    with that have "snd (sc_base (dl_elts dl q)) + m \<le> off + i * m" "sc_size (dl_elts dl q) = m"
      using c by (auto simp: carved_def)
    then show ?thesis
      using sc by (auto simp: apart_def)
  qed
  ultimately have ok': "chunks_ok dl' h'"
    by (rule chunks_ok_add[OF ok g(1,2)])
  have pool: "pool_ok (bk_pool b') dl'"
    using l[unfolded links_def, rule_format, of p "bk_pool b"] c d(2,3) by (auto simp: g(3) carved_def pool_ok_def)
  have e: "dl_elts dl' q = (if q = p then ?sc else dl_elts dl q)" for q
    using d(4,5) by simp
  have blk': "blk \<in> set (h_live h')" "fst blk \<notin> pool_blks dl'"
    using d(6)[OF blk] by auto
  have new: "fst (sc_base (dl_elts dl' q)) = Some (fst blk) \<and> off \<le> snd (sc_base (dl_elts dl' q))
          \<and> snd (sc_base (dl_elts dl' q)) + m \<le> off + Suc i * m \<and> sc_size (dl_elts dl' q) = m \<and> \<not> sc_in_use (dl_elts dl' q)"
    if "q \<in> dl_used dl' - dl_used dl0" for q
  proof (cases "q = p")
    case True
    then show ?thesis
      using sc by (simp add: e)
  next
    case False
    then have q: "q \<in> dl_used dl" "q \<notin> dl_used dl0" "dl_elts dl' q = dl_elts dl q"
      using that d(3) e by auto
    then show ?thesis
      using carved_new[OF c q(1,2)] by simp
  qed
  have "dl_used dl0 \<subseteq> dl_used dl'" "\<forall>q \<in> dl_used dl0. dl_elts dl' q = dl_elts dl0 q"
    using c d(2,3) by (auto simp: carved_def e)
  then show "carved blk off m (Suc i) dl0 (b', dl', h')"
    using ok' pool blk' new m unfolding carved_def by (simp add: g(3))
  show "set (internal_list (bk_pool b')) = insert p (set (internal_list (bk_pool b)))"
    using l[unfolded links_def, rule_format, of p "bk_pool b"] by (simp add: g(3))
  show "p \<notin> dl_used dl" "dl_used dl' = insert p (dl_used dl)"
    by (rule d(2), rule d(3))
  show "b' = b\<lparr>bk_pool := bk_pool b', bk_smart_chunks_seq_num := Suc (bk_smart_chunks_seq_num b)\<rparr>"
    by (simp add: g(3))
qed

lemma foldE_upt_inv:
  assumes "I 0 s" "\<And>i s s'. i < n \<Longrightarrow> I i s \<Longrightarrow> f i s = Inr s' \<Longrightarrow> I (Suc i) s'" "foldE f [0..<n] s = Inr t"
  shows "I n t"
  using assms(2,3)
proof (induction n arbitrary: t)
  case 0
  then show ?case using assms(1) by simp
next
  case (Suc n)
  obtain u where u: "foldE f [0..<n] s = Inr u" "f n u = Inr t"
    using Suc.prems(2) by (auto simp: foldE_append res_simps)
  have "I n u"
    by (rule Suc.IH[OF _ u(1)]) (use Suc.prems(1) in auto)
  with Suc.prems(1)[of n u t] u(2) show ?case by simp
qed

text \<open>The invariant of the loops over chunks.\<close>

definition filling :: "blk \<times> nat \<Rightarrow> nat \<Rightarrow> smart_bucket_t \<Rightarrow> smart_chunk_t dyn_list_t \<Rightarrow> nat \<Rightarrow> adding \<Rightarrow> bool" where
  "filling blk off b0 dl0 i = (\<lambda>(b, dl, h). carved blk off (bk_max_size b0) i dl0 (b, dl, h)
     \<and> set (internal_list (bk_pool b)) = set (internal_list (bk_pool b0)) \<union> (dl_used dl - dl_used dl0)
     \<and> b = b0\<lparr>bk_pool := bk_pool b, bk_smart_chunks_seq_num := bk_smart_chunks_seq_num b\<rparr>)"

text \<open>The chunks before lie elsewhere.\<close>

definition elsewhere :: "blk \<Rightarrow> nat \<Rightarrow> smart_chunk_t dyn_list_t \<Rightarrow> bool" where
  "elsewhere b off dl = (\<forall>q \<in> dl_used dl. fst (sc_base (dl_elts dl q)) \<noteq> Some b
     \<or> snd (sc_base (dl_elts dl q)) + sc_size (dl_elts dl q) \<le> off)"

lemma filling_start:
  assumes "chunks_ok dl h" "blk \<in> set (h_live h)" "fst blk \<notin> pool_blks dl" "pool_ok (bk_pool b) dl"
  shows "filling blk off b dl 0 (b, dl, h)"
  using assms by (simp add: filling_def carved_def)

lemma filling_step:
  assumes f: "filling blk off b0 dl0 i (b, dl, h)" and n: "new_chunk fill link (b, dl, h) = Inr (p, s')"
    and l: "links link" and room: "off + Suc i * bk_max_size b0 \<le> snd blk" and old: "elsewhere (fst blk) off dl0"
    and fill: "\<And>sc. sc_base (fill sc) = (Some (fst blk), off + i * bk_max_size b0) \<and> sc_in_use (fill sc) = sc_in_use sc"
  shows "filling blk off b0 dl0 (Suc i) s'" "p \<in> dl_used (fst (snd s')) - dl_used dl0" "dl_used dl \<subseteq> dl_used (fst (snd s'))"
proof -
  obtain b' dl' h' where s': "s' = (b', dl', h')" by (cases s')
  have c: "carved blk off (bk_max_size b0) i dl0 (b, dl, h)" and b: "b = b0\<lparr>bk_pool := bk_pool b, bk_smart_chunks_seq_num := bk_smart_chunks_seq_num b\<rparr>"
    and st: "set (internal_list (bk_pool b)) = set (internal_list (bk_pool b0)) \<union> (dl_used dl - dl_used dl0)"
    using f by (simp_all add: filling_def)
  note r = new_chunk_carved[OF c n[unfolded s'] l room old[unfolded elsewhere_def] fill]
  have "dl_used dl0 \<subseteq> dl_used dl"
    using c by (simp add: carved_def)
  then have "set (internal_list (bk_pool b')) = set (internal_list (bk_pool b0)) \<union> (dl_used dl' - dl_used dl0)"
    "p \<in> dl_used dl' - dl_used dl0"
    using r(2,3,4) st by auto
  moreover have "b' = b0\<lparr>bk_pool := bk_pool b', bk_smart_chunks_seq_num := bk_smart_chunks_seq_num b'\<rparr>"
    by (subst r(5), subst b, subst r(5)) simp
  ultimately show "filling blk off b0 dl0 (Suc i) s'" "p \<in> dl_used (fst (snd s')) - dl_used dl0"
    "dl_used dl \<subseteq> dl_used (fst (snd s'))"
    using r(1,4) by (auto simp: filling_def s')
qed

lemma alloc_chunks_filling:
  assumes "foldE (alloc_smart_chunk k (Some (fst blk), off)) [0..<n] (b, dl, h) = Inr s'"
    "filling blk off b dl 0 (b, dl, h)" "off + n * bk_max_size b \<le> snd blk" "elsewhere (fst blk) off dl"
  shows "filling blk off b dl n s'"
proof (rule foldE_upt_inv[where I = "filling blk off b dl", OF assms(2) _ assms(1)])
  fix i s t assume i: "i < n" and s: "filling blk off b dl i s" and t: "alloc_smart_chunk k (Some (fst blk), off) i s = Inr t"
  obtain b1 dl1 h1 where s1: "s = (b1, dl1, h1)" by (cases s)
  have m: "bk_max_size b1 = bk_max_size b"
    using s by (simp add: filling_def s1 carved_def)
  obtain p where p: "new_chunk (\<lambda>sc. sc\<lparr>sc_base := (Some (fst blk), off + i * bk_max_size b1), sc_bucket := Some k\<rparr>)
      SIMPLE_LIST_APPEND (b1, dl1, h1) = Inr (p, t)"
    using t by (auto simp: alloc_smart_chunk_def s1 res_simps)
  have "Suc i * bk_max_size b \<le> n * bk_max_size b"
    using i by (intro mult_le_mono1) simp
  then have "off + Suc i * bk_max_size b \<le> snd blk"
    using assms(3) by linarith
  from filling_step(1)[OF s[unfolded s1] p links_list(1) this assms(4)] m show "filling blk off b dl (Suc i) t"
    by simp
qed

text \<open>The loop that grows a bucket also returns its first chunk.\<close>

lemma grow_chunks_filling:
  assumes "foldE (grow_chunk k (fst blk)) [0..<n] (None, None, b, dl, h) = Inr (first, prev, s')"
    "filling blk 0 b dl 0 (b, dl, h)" "n * bk_max_size b \<le> snd blk" "elsewhere (fst blk) 0 dl"
  shows "filling blk 0 b dl n s'" "first = None \<or> the first \<in> dl_used (fst (snd s')) - dl_used dl"
proof -
  let ?I = "\<lambda>i s. filling blk 0 b dl i (snd (snd s)) \<and> (fst s = None \<or> the (fst s) \<in> dl_used (fst (snd (snd (snd s)))) - dl_used dl)"
  have "?I n (first, prev, s')"
  proof (rule foldE_upt_inv[where I = ?I, OF _ _ assms(1)])
    show "?I 0 (None, None, b, dl, h)"
      using assms(2) by simp
    fix i s t assume i: "i < n" and s: "?I i s" and t: "grow_chunk k (fst blk) i s = Inr t"
    obtain f q b1 dl1 h1 where s1: "s = (f, q, b1, dl1, h1)" by (cases s)
    have m: "bk_max_size b1 = bk_max_size b" and fl: "filling blk 0 b dl i (b1, dl1, h1)"
      using s by (simp_all add: filling_def s1 carved_def)
    obtain p u where p: "new_chunk (\<lambda>sc. sc\<lparr>sc_base := (Some (fst blk), i * bk_max_size b1), sc_prev := q, sc_bucket := Some k\<rparr>)
        SIMPLE_LIST_PREPEND (b1, dl1, h1) = Inr (p, u)" and t': "t = ((case f of None \<Rightarrow> Some p | Some f \<Rightarrow> Some f), Some p, u)"
      using t by (auto simp: grow_chunk_def s1 res_simps)
    have "Suc i * bk_max_size b \<le> n * bk_max_size b"
      using i by (intro mult_le_mono1) simp
    then have "0 + Suc i * bk_max_size b \<le> snd blk"
      using assms(3) by linarith
    note r = filling_step[OF fl p links_list(2) this assms(4), simplified m, simplified]
    have "f = None \<or> the f \<in> dl_used dl1 - dl_used dl"
      using s by (simp add: s1)
    with r(2,3) have "the (fst t) \<in> dl_used (fst (snd u)) - dl_used dl"
      by (cases f) (auto simp: t')
    with r(1) show "?I (Suc i) t"
      by (simp add: t' m)
  qed
  then show "filling blk 0 b dl n s'" "first = None \<or> the first \<in> dl_used (fst (snd s')) - dl_used dl"
    by auto
qed

section \<open>The invariant of the system\<close>

abbreviation descs :: "smart_buffers_t \<Rightarrow> smart_chunk_t dyn_list_t" where
  "descs sys \<equiv> sb_smart_chunk_desc_pool sys"

abbreviation chunk_at :: "smart_buffers_t \<Rightarrow> ptr \<Rightarrow> smart_chunk_t" where
  "chunk_at sys p \<equiv> dl_elts (descs sys) p"

abbreviation pool_set :: "smart_bucket_t \<Rightarrow> ptr set" where
  "pool_set b \<equiv> set (internal_list (bk_pool b))"

definition bucket_ok :: "smart_chunk_t dyn_list_t \<Rightarrow> smart_bucket_t \<Rightarrow> bool" where
  "bucket_ok dl b = (bk_sys b \<and> bk_initial_size b * bk_max_size b < 2 ^ 64 \<and> pool_ok (bk_pool b) dl
     \<and> (\<forall>p \<in> pool_set b. sc_size (dl_elts dl p) = bk_max_size b \<and> \<not> sc_in_use (dl_elts dl p)))"

definition sb_inv :: "smart_buffers_t \<times> heap \<Rightarrow> bool" where
  "sb_inv = (\<lambda>(sys, h). chunks_ok (descs sys) h \<and> sb_num_buckets sys < length (sb_buckets sys)
     \<and> (\<forall>k < sb_num_buckets sys. bucket_ok (descs sys) (bucket_at k sys))
     \<and> (\<forall>k < sb_num_buckets sys. \<forall>j < sb_num_buckets sys. k \<noteq> j \<longrightarrow> pool_set (bucket_at k sys) \<inter> pool_set (bucket_at j sys) = {}))"

lemma bucket_at_put [simp]: "bucket_at j (put_bucket k b sys) = (if j = k then b else bucket_at j sys)"
  by (simp add: bucket_at_def put_bucket_def arr_get_put)

lemma put_bucket_simps [simp]:
  "sb_num_buckets (put_bucket k b sys) = sb_num_buckets sys" "descs (put_bucket k b sys) = descs sys"
  "length (sb_buckets (put_bucket k b sys)) = max (length (sb_buckets sys)) (Suc k)"
  by (simp_all add: put_bucket_def)

lemma bucket_at_upd [simp]:
  "bucket_at j (sb_smart_chunk_desc_pool_update f sys) = bucket_at j sys"
  "bucket_at j (sb_num_base_mem_chunks_update g sys) = bucket_at j sys"
  "bucket_at j (sb_base_mem_chunks_update e sys) = bucket_at j sys"
  by (simp_all add: bucket_at_def)

text \<open>Writing other members of a chunk.\<close>

lemma sc_write_simps [simp]:
  "dl_used (sc_write p f dl) = dl_used dl" "pool_blks (sc_write p f dl) = pool_blks dl"
  "descs_wf (sc_write p f dl) h = descs_wf dl h"
  "dl_elts (sc_write p f dl) q = (if q = p then f (dl_elts dl p) else dl_elts dl q)"
  by (simp_all add: sc_write_def dl_wf_def dl_chunks_wf_def dl_used_def dl_items_def dl_free_def chunk_blks_def
      chunk_ptrs_def pool_blks_def descs_wf_def)

lemma pool_ok_write [simp]: "pool_ok l (sc_write p f dl) = pool_ok l dl"
  by (simp add: pool_ok_def)

lemma chunks_ok_write:
  assumes "chunks_ok dl h" "sc_base (f (dl_elts dl p)) = sc_base (dl_elts dl p)" "sc_size (f (dl_elts dl p)) = sc_size (dl_elts dl p)"
  shows "chunks_ok (sc_write p f dl) h"
proof -
  have e: "sc_base (dl_elts (sc_write p f dl) q) = sc_base (dl_elts dl q) \<and> sc_size (dl_elts (sc_write p f dl) q) = sc_size (dl_elts dl q)" for q
    using assms(2,3) by simp
  show ?thesis
    using assms(1) unfolding chunks_ok_def in_block_def apart_def e sc_write_simps(1,2,3) by (simp only: e simp_thms) blast
qed

lemma chunks_ok_malloc:
  assumes "chunks_ok dl h" "malloc sz h = (Some b, h')"
  shows "chunks_ok dl h'" "b \<notin> pool_blks dl" "elsewhere b off dl"
proof -
  have w: "wf_heap h" "dl_wf sizeof_smart_chunk_t dl h"
    using assms(1) by (simp_all add: chunks_ok_def descs_wf_def dl_wf_def)
  have keep: "set (h_live h) \<subseteq> set (h_live h')"
    using malloc_keeps[OF assms(2)] by blast
  have "dl_wf sizeof_smart_chunk_t dl h'"
    by (rule dl_wf_mono_heap[OF w(2) malloc_wf[OF w(1) assms(2)] keep])
  then show "chunks_ok dl h'"
    using assms(1) keep unfolding chunks_ok_def descs_wf_def in_block_def by blast
  have fresh: "b \<notin> live_blks h"
    by (rule malloc_fresh[OF w(1) assms(2)])
  then show "b \<notin> pool_blks dl"
    using pool_blks_live[OF w(2)] by blast
  have "fst (sc_base (dl_elts dl q)) \<noteq> Some b" if q: "q \<in> dl_used dl" for q
  proof -
    obtain c n where c: "fst (sc_base (dl_elts dl q)) = Some c" "(c, n) \<in> set (h_live h)"
      using assms(1) q unfolding chunks_ok_def in_block_def by blast
    have "c \<in> live_blks h"
      using c(2) unfolding live_blks_def by (rule rev_image_eqI) simp
    with fresh c(1) show ?thesis
      by auto
  qed
  then show "elsewhere b off dl"
    by (auto simp: elsewhere_def)
qed

lemma bucket_ok_mono:
  assumes "bucket_ok dl b" "dl_used dl \<subseteq> dl_used dl'" "\<forall>q \<in> dl_used dl. dl_elts dl' q = dl_elts dl q"
  shows "bucket_ok dl' b"
proof -
  have "dl_elts dl' p = dl_elts dl p" if "p \<in> pool_set b" for p
    using assms(1,3) that unfolding bucket_ok_def pool_ok_def by blast
  with assms(1,2) show ?thesis
    unfolding bucket_ok_def pool_ok_def by (metis order_trans)
qed

section \<open>Growing a bucket\<close>

text \<open>What an operation keeps: the chunks there were, and the sizes of the buckets.\<close>

definition sb_kept :: "smart_buffers_t \<Rightarrow> smart_buffers_t \<Rightarrow> bool" where
  "sb_kept sys sys' = (dl_used (descs sys) \<subseteq> dl_used (descs sys') \<and> sb_num_buckets sys' = sb_num_buckets sys
     \<and> (\<forall>k. bk_min_size (bucket_at k sys') = bk_min_size (bucket_at k sys) \<and> bk_max_size (bucket_at k sys') = bk_max_size (bucket_at k sys)))"

lemma grow_bucket_inv:
  assumes inv: "sb_inv (sys, h)" and k: "k < sb_num_buckets sys" and g: "SMART_BUFFS_GROW_BUCKET k (sys, h) = Inr (sys', h')"
  shows "sb_inv (sys', h')" "sb_kept sys sys'" "\<forall>q \<in> dl_used (descs sys). chunk_at sys' q = chunk_at sys q"
proof -
  define b where "b = bucket_at k sys"
  let ?n = "bk_initial_size b"
  have ok: "chunks_ok (descs sys) h" and bok: "bucket_ok (descs sys) b"
    using inv k by (auto simp: sb_inv_def b_def)
  define size where "size = ?n * bk_max_size b"
  have "size < 2 ^ 64"
    using bok by (simp add: bucket_ok_def size_def)
  then have size: "wrap64 size = size" "unat (of_nat size :: u64) = size"
    by (simp_all add: wrap64_def unat_of_nat_nowrap)
  from g obtain mem h1 first prev b1 dl h2 f where m: "malloc (of_nat size) h = (Some mem, h1)"
    and fold: "foldE (grow_chunk k mem) [0..<?n] (None, None, b, descs sys, h1) = Inr (first, prev, b1, dl, h2)"
    and f: "first = Some f" and h': "h' = h2"
    and sys': "descs sys' = sc_write f (sc_prev_update (\<lambda>_. prev)) dl" "\<And>j. bucket_at j sys' = (if j = k then b1 else bucket_at j sys)"
      "sb_num_buckets sys' = sb_num_buckets sys" "length (sb_buckets sys') = max (length (sb_buckets sys)) (Suc k)"
    unfolding SMART_BUFFS_GROW_BUCKET_def
    by (auto simp: Let_def b_def[symmetric] size_def[symmetric] size(1) res_simps split: prod.splits option.splits)
  note c1 = chunks_ok_malloc[OF ok m]
  have blk: "(mem, size) \<in> set (h_live h1)"
    using malloc_Some(3)[OF m] size(2) by simp
  have p0: "pool_ok (bk_pool b) (descs sys)"
    using bok by (simp add: bucket_ok_def)
  have start: "filling (mem, size) 0 b (descs sys) 0 (b, descs sys, h1)"
    using filling_start[OF c1(1) blk] c1(2) p0 by simp
  note fl = grow_chunks_filling[of k "(mem, size)", OF _ start, simplified, OF fold _ c1(3)[of 0]]
  have fl1: "filling (mem, size) 0 b (descs sys) ?n (b1, dl, h2)" and ff: "f \<in> dl_used dl" "f \<notin> dl_used (descs sys)"
    using fl f by (auto simp: size_def)
  have car: "carved (mem, size) 0 (bk_max_size b) ?n (descs sys) (b1, dl, h2)"
    and pset: "pool_set b1 = pool_set b \<union> (dl_used dl - dl_used (descs sys))"
    and b1: "b1 = b\<lparr>bk_pool := bk_pool b1, bk_smart_chunks_seq_num := bk_smart_chunks_seq_num b1\<rparr>"
    using fl1 by (simp_all add: filling_def)
  have sub: "dl_used (descs sys) \<subseteq> dl_used dl" and same: "\<And>q. q \<in> dl_used (descs sys) \<Longrightarrow> dl_elts dl q = chunk_at sys q"
    and okdl: "chunks_ok dl h2" and pok: "pool_ok (bk_pool b1) dl"
    using car by (auto simp: carved_def)
  show keep: "\<forall>q \<in> dl_used (descs sys). chunk_at sys' q = chunk_at sys q"
    using same ff by (auto simp: sys'(1))
  have mm: "bk_min_size b1 = bk_min_size b" "bk_max_size b1 = bk_max_size b" "bk_sys b1 = bk_sys b" "bk_initial_size b1 = bk_initial_size b"
    by (subst b1, simp)+
  show "sb_kept sys sys'"
    using sub mm by (simp add: sb_kept_def sys' b_def)
  have new: "sc_size (chunk_at sys' p) = bk_max_size b \<and> \<not> sc_in_use (chunk_at sys' p)" if "p \<in> dl_used dl" "p \<notin> dl_used (descs sys)" for p
    using carved_new(4,5)[OF car that] by (auto simp: sys'(1))
  have old: "sc_size (chunk_at sys' p) = bk_max_size b \<and> \<not> sc_in_use (chunk_at sys' p)" if "p \<in> pool_set b" for p
  proof -
    have "p \<in> dl_used (descs sys)"
      using that p0 by (auto simp: pool_ok_def)
    with that bok keep show ?thesis
      by (simp add: bucket_ok_def)
  qed
  have "\<forall>p \<in> pool_set b1. sc_size (chunk_at sys' p) = bk_max_size b1 \<and> \<not> sc_in_use (chunk_at sys' p)"
    unfolding mm pset using new old by blast
  moreover have "pool_ok (bk_pool b1) (descs sys')"
    by (simp add: sys'(1) pok)
  ultimately have "bucket_ok (descs sys') b1"
    using bok unfolding bucket_ok_def mm by simp
  moreover have "bucket_ok (descs sys') (bucket_at j sys)" if "j < sb_num_buckets sys" for j
    by (rule bucket_ok_mono[OF _ _ keep]) (use inv that sub in \<open>simp_all add: sb_inv_def sys'(1)\<close>)
  moreover have "pool_set b1 \<inter> pool_set (bucket_at j sys) = {}" if "j < sb_num_buckets sys" "j \<noteq> k" for j
  proof -
    have "pool_set (bucket_at j sys) \<subseteq> dl_used (descs sys)" "pool_set b \<inter> pool_set (bucket_at j sys) = {}"
      using inv that k by (auto simp: sb_inv_def bucket_ok_def pool_ok_def b_def)
    then show ?thesis
      unfolding pset by blast
  qed
  moreover have "chunks_ok (descs sys') h'"
    unfolding sys'(1) h' by (rule chunks_ok_write[OF okdl]) simp_all
  ultimately show "sb_inv (sys', h')"
    using inv k unfolding sb_inv_def by (simp add: sys' Int_commute)
qed

section \<open>Getting and returning\<close>

lemma find_bucket_Some:
  "find_bucket sz bs = Some k \<Longrightarrow> k < length bs \<and> bk_min_size (bs ! k) \<le> sz \<and> sz \<le> bk_max_size (bs ! k)"
  by (induction bs arbitrary: k) (auto split: if_splits)

lemma target_bucket_Some:
  assumes "target_bucket sz sys = Some k" "sb_num_buckets sys < length (sb_buckets sys)"
  shows "k < sb_num_buckets sys" "bk_min_size (bucket_at k sys) \<le> sz" "sz \<le> bk_max_size (bucket_at k sys)"
  using find_bucket_Some[of sz "take (sb_num_buckets sys) (sb_buckets sys)" k] assms
  by (auto simp: target_bucket_def bucket_at_def arr_get_def)

lemma find_bucket_cong:
  "length bs = length cs \<Longrightarrow> (\<And>k. k < length bs \<Longrightarrow> bk_min_size (bs ! k) = bk_min_size (cs ! k) \<and> bk_max_size (bs ! k) = bk_max_size (cs ! k))
   \<Longrightarrow> find_bucket sz bs = find_bucket sz cs"
proof (induction bs arbitrary: cs)
  case (Cons b bs)
  then obtain c cs' where cs: "cs = c # cs'"
    by (cases cs) auto
  have "find_bucket sz bs = find_bucket sz cs'"
    using Cons.prems(1) Cons.prems(2)[of "Suc _"] by (intro Cons.IH) (auto simp: cs)
  with Cons.prems(2)[of 0] show ?case
    by (simp add: cs)
qed simp

lemma target_bucket_kept:
  assumes "sb_kept sys sys'" "sb_num_buckets sys < length (sb_buckets sys)" "sb_num_buckets sys < length (sb_buckets sys')"
  shows "target_bucket sz sys' = target_bucket sz sys"
proof -
  have "bk_min_size (sb_buckets sys' ! k) = bk_min_size (sb_buckets sys ! k) \<and> bk_max_size (sb_buckets sys' ! k) = bk_max_size (sb_buckets sys ! k)"
    if "k < sb_num_buckets sys" for k
  proof -
    have "k < length (sb_buckets sys)" "k < length (sb_buckets sys')"
      using assms(2,3) that by linarith+
    then have "bucket_at k sys = sb_buckets sys ! k" "bucket_at k sys' = sb_buckets sys' ! k"
      by (simp_all add: bucket_at_def arr_get_def)
    with assms(1) show ?thesis
      unfolding sb_kept_def by metis
  qed
  with assms show ?thesis
    unfolding target_bucket_def by (intro find_bucket_cong) (auto simp: sb_kept_def)
qed

text \<open>Taking a chunk out of a pool, and putting it back.\<close>

lemma bucket_ok_write:
  assumes "bucket_ok dl b" "p \<notin> pool_set b"
  shows "bucket_ok (sc_write p f dl) b"
proof -
  have "q \<noteq> p" if "q \<in> pool_set b" for q
    using assms(2) that by metis
  with assms(1) show ?thesis
    by (simp add: bucket_ok_def)
qed

lemma take_chunk_inv:
  assumes inv: "sb_inv (sys, h)" and k: "k < sb_num_buckets sys" and t: "take_chunk k (sys, h) = Inr (p, sys', h')"
  shows "sb_inv (sys', h')" "sb_kept sys sys'" "p \<in> dl_used (descs sys)" "\<not> sc_in_use (chunk_at sys p)"
    "chunk_at sys' p = (chunk_at sys p)\<lparr>sc_in_use := True\<rparr>" "sc_size (chunk_at sys p) = bk_max_size (bucket_at k sys)"
    "\<And>q. q \<noteq> p \<Longrightarrow> chunk_at sys' q = chunk_at sys q"
proof -
  define b where "b = bucket_at k sys"
  have ok: "chunks_ok (descs sys) h" and bok: "bucket_ok (descs sys) b"
    using inv k by (auto simp: sb_inv_def b_def)
  have pok: "pool_ok (bk_pool b) (descs sys)" "descs_wf (descs sys) h"
    using bok ok by (simp_all add: bucket_ok_def chunks_ok_def)
  from t obtain l where x: "SIMPLE_LIST_EXTRACT_HEAD (bk_pool b) = Inr (p, l)" and h': "h' = h"
    and sys': "sys' = (put_bucket k (b\<lparr>bk_pool := l\<rparr>) sys)\<lparr>sb_smart_chunk_desc_pool := sc_write p (sc_in_use_update (\<lambda>_. True)) (descs sys)\<rparr>"
    by (auto simp: take_chunk_def b_def[symmetric] Let_def res_simps)
  have l: "internal_list (bk_pool b) = p # internal_list l" "sl_wf l"
    using sl_extract_head[OF pool_ok_wf[OF pok] x] by auto
  have at: "bucket_at j sys' = (if j = k then b\<lparr>bk_pool := l\<rparr> else bucket_at j sys)" for j
    by (simp add: sys')
  have d: "descs sys' = sc_write p (sc_in_use_update (\<lambda>_. True)) (descs sys)"
    by (simp add: sys')
  have n: "sb_num_buckets sys' = sb_num_buckets sys" "length (sb_buckets sys') = max (length (sb_buckets sys)) (Suc k)"
    by (simp_all add: sys')
  show "p \<in> dl_used (descs sys)" "\<not> sc_in_use (chunk_at sys p)" "sc_size (chunk_at sys p) = bk_max_size (bucket_at k sys)"
    using bok l(1) by (auto simp: bucket_ok_def pool_ok_def b_def)
  show "chunk_at sys' p = (chunk_at sys p)\<lparr>sc_in_use := True\<rparr>" "\<And>q. q \<noteq> p \<Longrightarrow> chunk_at sys' q = chunk_at sys q"
    by (simp_all add: d)
  show "sb_kept sys sys'"
    by (auto simp: sb_kept_def at d n b_def)
  have pl: "pool_set (b\<lparr>bk_pool := l\<rparr>) = pool_set b - {p}" "p \<notin> pool_set (b\<lparr>bk_pool := l\<rparr>)"
    using l(1) pok(1) by (auto simp: pool_ok_def)
  have "pool_ok l (descs sys)"
    using l pok(1) by (auto simp: pool_ok_def sl_wf_def)
  then have "bucket_ok (descs sys) (b\<lparr>bk_pool := l\<rparr>)"
    using bok l(1) by (auto simp: bucket_ok_def)
  then have "bucket_ok (descs sys') (b\<lparr>bk_pool := l\<rparr>)"
    unfolding d by (rule bucket_ok_write) (rule pl(2))
  moreover have "bucket_ok (descs sys') (bucket_at j sys)" if j: "j < sb_num_buckets sys" "j \<noteq> k" for j
  proof -
    have "bucket_ok (descs sys) (bucket_at j sys)" "pool_set b \<inter> pool_set (bucket_at j sys) = {}"
      using inv j k by (auto simp: sb_inv_def b_def)
    moreover have "p \<in> pool_set b"
      by (simp add: l(1))
    ultimately show ?thesis
      unfolding d by (intro bucket_ok_write) auto
  qed
  moreover have "pool_set (b\<lparr>bk_pool := l\<rparr>) \<inter> pool_set (bucket_at j sys) = {}" if j: "j < sb_num_buckets sys" "j \<noteq> k" for j
  proof -
    have "pool_set b \<inter> pool_set (bucket_at j sys) = {}"
      using inv j k by (auto simp: sb_inv_def b_def)
    then show ?thesis
      unfolding pl(1) by blast
  qed
  moreover have "chunks_ok (descs sys') h'"
    unfolding d h' by (rule chunks_ok_write[OF ok]) simp_all
  ultimately show "sb_inv (sys', h')"
    using inv k unfolding sb_inv_def by (simp add: at n Int_commute)
qed

lemma sb_kept_refl: "sb_kept sys sys"
  by (simp add: sb_kept_def)

lemma sb_kept_trans: "sb_kept a b \<Longrightarrow> sb_kept b c \<Longrightarrow> sb_kept a c"
  by (auto simp: sb_kept_def)

text \<open>Getting a buffer from one of the buckets.\<close>

lemma get_inv:
  assumes inv: "sb_inv (sys, h)" and t: "target_bucket sz sys = Some k" "bk_max_size (bucket_at k sys) \<noteq> 2 ^ 64 - 1"
    and g: "SMART_BUFF_GET sz (sys, h) = Inr (p, sys', h')"
  shows "sb_inv (sys', h')" "sb_kept sys sys'" "p \<in> dl_used (descs sys')" "sc_in_use (chunk_at sys' p)"
    "sc_size (chunk_at sys' p) = bk_max_size (bucket_at k sys)" "p \<in> dl_used (descs sys) \<Longrightarrow> \<not> sc_in_use (chunk_at sys p)"
    "\<And>q. q \<in> dl_used (descs sys) \<Longrightarrow> q \<noteq> p \<Longrightarrow> chunk_at sys' q = chunk_at sys q"
proof -
  have k: "k < sb_num_buckets sys"
    using target_bucket_Some(1)[OF t(1)] inv by (simp add: sb_inv_def)
  obtain sys1 h1 where s1: "(if SIMPLE_LIST_IS_EMPTY (bk_pool (bucket_at k sys)) then SMART_BUFFS_GROW_BUCKET k (sys, h) else Inr (sys, h)) = Inr (sys1, h1)"
    and tk: "take_chunk k (sys1, h1) = Inr (p, sys', h')"
    using g t by (auto simp: SMART_BUFF_GET_def res_simps)
  have 1: "sb_inv (sys1, h1)" "sb_kept sys sys1" "\<forall>q \<in> dl_used (descs sys). chunk_at sys1 q = chunk_at sys q"
    using s1 grow_bucket_inv[OF inv k] inv sb_kept_refl by (auto split: if_splits)
  have k1: "k < sb_num_buckets sys1"
    using 1(2) k by (simp add: sb_kept_def)
  note 2 = take_chunk_inv[OF 1(1) k1 tk]
  show "sb_inv (sys', h')"
    by (rule 2(1))
  show "sb_kept sys sys'"
    by (rule sb_kept_trans[OF 1(2) 2(2)])
  show "p \<in> dl_used (descs sys')"
    using 2(2,3) by (auto simp: sb_kept_def)
  show "sc_in_use (chunk_at sys' p)"
    by (simp add: 2(5))
  show "sc_size (chunk_at sys' p) = bk_max_size (bucket_at k sys)"
    using 1(2) 2(5,6) by (simp add: sb_kept_def)
  show "\<not> sc_in_use (chunk_at sys p)" if "p \<in> dl_used (descs sys)"
    using 1(3) 2(4) that by simp
  show "chunk_at sys' q = chunk_at sys q" if "q \<in> dl_used (descs sys)" "q \<noteq> p" for q
    using 1(3) 2(7)[OF that(2)] that(1) by simp
qed

text \<open>Returning a buffer to the bucket it comes from.\<close>

lemma return_inv:
  assumes inv: "sb_inv (sys, h)" and r: "SMART_BUFF_RETURN sz p sys = Inr sys'"
    and p: "p \<in> dl_used (descs sys)" "target_bucket sz sys = Some k" "sc_size (chunk_at sys p) = bk_max_size (bucket_at k sys)"
  shows "sb_inv (sys', h)" "sb_kept sys sys'" "sc_in_use (chunk_at sys p)" "\<not> sc_in_use (chunk_at sys' p)"
    "\<And>q. q \<noteq> p \<Longrightarrow> chunk_at sys' q = chunk_at sys q"
proof -
  define b where "b = bucket_at k sys"
  have k: "k < sb_num_buckets sys"
    using target_bucket_Some(1)[OF p(2)] inv by (simp add: sb_inv_def)
  have ok: "chunks_ok (descs sys) h" and bok: "bucket_ok (descs sys) b"
    using inv k by (auto simp: sb_inv_def b_def)
  have use: "sc_in_use (chunk_at sys p)"
    and sys': "sys' = (put_bucket k (b\<lparr>bk_pool := SIMPLE_LIST_PREPEND p (bk_pool b)\<rparr>) sys)
       \<lparr>sb_smart_chunk_desc_pool := sc_write p (sc_in_use_update (\<lambda>_. False)) (descs sys)\<rparr>"
    using r p(2) by (auto simp: SMART_BUFF_RETURN_def b_def Let_def res_simps)
  then show "sc_in_use (chunk_at sys p)" by simp
  let ?b = "b\<lparr>bk_pool := SIMPLE_LIST_PREPEND p (bk_pool b)\<rparr>"
  have at: "bucket_at j sys' = (if j = k then ?b else bucket_at j sys)" for j
    by (simp add: sys')
  have d: "descs sys' = sc_write p (sc_in_use_update (\<lambda>_. False)) (descs sys)"
    and n: "sb_num_buckets sys' = sb_num_buckets sys" "length (sb_buckets sys') = max (length (sb_buckets sys)) (Suc k)"
    by (simp_all add: sys')
  show "\<not> sc_in_use (chunk_at sys' p)" "\<And>q. q \<noteq> p \<Longrightarrow> chunk_at sys' q = chunk_at sys q"
    by (simp_all add: d)
  show "sb_kept sys sys'"
    by (auto simp: sb_kept_def at d n b_def)
  have nin: "p \<notin> pool_set (bucket_at j sys)" if "j < sb_num_buckets sys" for j
    using inv that use by (auto simp: sb_inv_def bucket_ok_def)
  have ps: "pool_set ?b = insert p (pool_set b)"
    by (simp add: SIMPLE_LIST_PREPEND_def)
  have "p \<notin> pool_set b"
    using nin[OF k] by (simp add: b_def)
  then have "pool_ok (bk_pool ?b) (descs sys')"
    using bok p(1) by (simp add: bucket_ok_def pool_ok_def d SIMPLE_LIST_PREPEND_def)
  moreover have "sc_size (chunk_at sys' q) = bk_max_size b \<and> \<not> sc_in_use (chunk_at sys' q)" if "q \<in> pool_set ?b" for q
    using that bok p(3) unfolding ps by (cases "q = p") (simp_all add: d bucket_ok_def b_def)
  ultimately have "bucket_ok (descs sys') ?b"
    using bok by (simp add: bucket_ok_def)
  moreover have "bucket_ok (descs sys') (bucket_at j sys)" if "j < sb_num_buckets sys" for j
    using inv that nin[OF that] unfolding d by (intro bucket_ok_write) (simp_all add: sb_inv_def)
  moreover have "pool_set ?b \<inter> pool_set (bucket_at j sys) = {}" if j: "j < sb_num_buckets sys" "j \<noteq> k" for j
  proof -
    have "pool_set b \<inter> pool_set (bucket_at j sys) = {}"
      using inv j k by (auto simp: sb_inv_def b_def)
    then show ?thesis
      using nin[OF j(1)] unfolding ps by blast
  qed
  moreover have "chunks_ok (descs sys') h"
    unfolding d by (rule chunks_ok_write[OF ok]) simp_all
  ultimately show "sb_inv (sys', h)"
    using inv k unfolding sb_inv_def by (simp add: at n Int_commute)
qed

section \<open>Initialisation\<close>

text \<open>The buckets that were initialised so far.\<close>

definition initialising :: "blk \<Rightarrow> nat \<Rightarrow> nat list \<Rightarrow> nat \<Rightarrow> nat \<times> smart_bucket_t list \<times> smart_chunk_t dyn_list_t \<times> heap \<Rightarrow> bool" where
  "initialising mem part sizes i = (\<lambda>(min_size, bks, dl, h).
     chunks_ok dl h \<and> elsewhere mem (i * part) dl \<and> (mem, SMART_BUFFERS_DEFAULT_MEM_ALLOC_SIZE) \<in> set (h_live h) \<and> mem \<notin> pool_blks dl
     \<and> length bks = i \<and> (\<forall>b \<in> set bks. bucket_ok dl b)
     \<and> (\<forall>k < i. \<forall>j < i. k \<noteq> j \<longrightarrow> pool_set (bks ! k) \<inter> pool_set (bks ! j) = {})
     \<and> (\<forall>k < i. bk_max_size (bks ! k) = sizes ! k \<and> bk_min_size (bks ! k) = (if k = 0 then 0 else Suc (sizes ! (k - 1))))
     \<and> min_size = (if i = 0 then 0 else Suc (sizes ! (i - 1))))"

lemma init_bucket_step:
  assumes s: "initialising mem part sizes i (min_size, bks, dl, h)" and t: "init_bucket sizes (Some mem) part i (min_size, bks, dl, h) = Inr t"
    and room: "Suc i * part \<le> SMART_BUFFERS_DEFAULT_MEM_ALLOC_SIZE"
  shows "initialising mem part sizes (Suc i) t"
proof -
  let ?A = "SMART_BUFFERS_DEFAULT_MEM_ALLOC_SIZE" and ?m = "sizes ! i"
  define b where "b = RESET_SMART_BUCKET\<lparr>bk_sys := True, bk_min_size := min_size, bk_max_size := ?m\<rparr>"
  define n where "n = part div ?m"
  obtain b1 dl1 h1 where fold: "foldE (alloc_smart_chunk i (Some mem, i * part)) [0..<n] (b, dl, h) = Inr (b1, dl1, h1)"
    and t': "t = (Suc ?m, bks @ [b1\<lparr>bk_initial_size := n\<rparr>], dl1, h1)"
    using t by (auto simp: init_bucket_def SMART_BUFFERS_ALLOC_SMART_CHUNKS_def Let_def res_simps b_def n_def)
  have ok: "chunks_ok dl h" and el: "elsewhere mem (i * part) dl" and blk: "(mem, ?A) \<in> set (h_live h)" "mem \<notin> pool_blks dl"
    and len: "length bks = i" and bks: "\<forall>b \<in> set bks. bucket_ok dl b"
    and dis: "\<forall>k < i. \<forall>j < i. k \<noteq> j \<longrightarrow> pool_set (bks ! k) \<inter> pool_set (bks ! j) = {}"
    and sz: "\<forall>k < i. bk_max_size (bks ! k) = sizes ! k \<and> bk_min_size (bks ! k) = (if k = 0 then 0 else Suc (sizes ! (k - 1)))"
      "min_size = (if i = 0 then 0 else Suc (sizes ! (i - 1)))"
    using s by (simp_all add: initialising_def)
  have nm: "n * ?m \<le> part"
    by (simp add: n_def)
  have p0: "pool_ok (bk_pool b) dl"
    by (simp add: b_def RESET_SMART_BUCKET_def pool_ok_def SIMPLE_LIST_INIT_def)
  have "i * part + n * bk_max_size b \<le> ?A"
    using room nm by (simp add: b_def)
  then have fl: "filling (mem, ?A) (i * part) b dl n (b1, dl1, h1)"
    using alloc_chunks_filling[of i "(mem, ?A)", simplified, OF fold _ _ el] filling_start[OF ok blk(1), of b "i * part"] blk(2) p0 by simp
  have car: "carved (mem, ?A) (i * part) ?m n dl (b1, dl1, h1)" and pset: "pool_set b1 = dl_used dl1 - dl_used dl"
    and b1: "b1 = b\<lparr>bk_pool := bk_pool b1, bk_smart_chunks_seq_num := bk_smart_chunks_seq_num b1\<rparr>"
    using fl by (simp_all add: filling_def b_def RESET_SMART_BUCKET_def SIMPLE_LIST_INIT_def)
  have mm: "bk_min_size b1 = min_size" "bk_max_size b1 = ?m" "bk_sys b1"
    by (subst b1, simp add: b_def)+
  have sub: "dl_used dl \<subseteq> dl_used dl1" and same: "\<forall>q \<in> dl_used dl. dl_elts dl1 q = dl_elts dl q" and ok1: "chunks_ok dl1 h1"
    and pok: "pool_ok (bk_pool b1) dl1" and blk1: "(mem, ?A) \<in> set (h_live h1)" "mem \<notin> pool_blks dl1"
    using car by (simp_all add: carved_def)
  note new = carved_new[OF car]
  have "elsewhere mem (Suc i * part) dl1"
    unfolding elsewhere_def
  proof
    fix q assume q: "q \<in> dl_used dl1"
    show "fst (sc_base (dl_elts dl1 q)) \<noteq> Some mem \<or> snd (sc_base (dl_elts dl1 q)) + sc_size (dl_elts dl1 q) \<le> Suc i * part"
    proof (cases "q \<in> dl_used dl")
      case True
      with el same show ?thesis
        unfolding elsewhere_def by (metis le_trans le_add2 mult_Suc)
    next
      case False
      have "snd (sc_base (dl_elts dl1 q)) + sc_size (dl_elts dl1 q) \<le> i * part + n * ?m"
        using new(3,4)[OF q False] by simp
      then show ?thesis
        using nm by simp
    qed
  qed
  moreover have "bucket_ok dl1 (b1\<lparr>bk_initial_size := n\<rparr>)"
  proof -
    have "n * ?m < 2 ^ 64"
      using nm room by (simp add: SMART_BUFFERS_DEFAULT_MEM_ALLOC_SIZE_def)
    moreover have "\<forall>p \<in> pool_set b1. sc_size (dl_elts dl1 p) = ?m \<and> \<not> sc_in_use (dl_elts dl1 p)"
      unfolding pset using new(4,5) by blast
    ultimately show ?thesis
      using mm pok by (simp add: bucket_ok_def)
  qed
  moreover have "\<forall>b \<in> set bks. bucket_ok dl1 b"
    using bks bucket_ok_mono[OF _ sub same] by blast
  moreover have "pool_set (bks ! k) \<inter> pool_set b1 = {}" if "k < i" for k
  proof -
    have "bks ! k \<in> set bks"
      using that len by simp
    then have "pool_set (bks ! k) \<subseteq> dl_used dl"
      using bks by (auto simp: bucket_ok_def pool_ok_def)
    then show ?thesis
      unfolding pset by blast
  qed
  ultimately show ?thesis
    using ok1 blk1 len dis sz mm unfolding t' initialising_def
    by (auto simp: nth_append less_Suc_eq)
qed

lemma init_inv:
  assumes h: "wf_heap h" and init: "SMART_BUFFS_INIT info h = Inr (sys, h')" and mem: "mc_ptr (sb_base_mem_chunks sys ! 0) \<noteq> None"
  shows "sb_inv (sys, h')" "sb_num_buckets sys = length (SMART_BUFFS_HANDLE_INFO info)"
    "\<forall>k < sb_num_buckets sys. bk_max_size (bucket_at k sys) = SMART_BUFFS_HANDLE_INFO info ! k
       \<and> bk_min_size (bucket_at k sys) = (if k = 0 then 0 else Suc (SMART_BUFFS_HANDLE_INFO info ! (k - 1)))"
    "sb_bucket_sizes sys = SMART_BUFFS_HANDLE_INFO info" "sb_num_base_mem_chunks sys = 1" "\<not> bk_sys (bucket_at (sb_num_buckets sys) sys)"
proof -
  let ?A = "SMART_BUFFERS_DEFAULT_MEM_ALLOC_SIZE" and ?sizes = "SMART_BUFFS_HANDLE_INFO info"
  define n where "n = length ?sizes"
  define part where "part = ?A div n"
  obtain r h1 where r: "DYN_LIST_ALLOC sizeof_smart_chunk_t (\<lambda>_. zero_smart_chunk) (of_nat (?A div 2)) h = Inr (r, h1)"
    using init by (auto simp: SMART_BUFFS_INIT_def Let_def res_simps)
  obtain base h2 where m: "malloc (of_nat ?A) h1 = (base, h2)"
    by (cases "malloc (of_nat ?A) h1")
  from init r m obtain dl min_size bks dl1 where d: "r = Some dl"
    and n0: "n \<noteq> 0" and fold: "foldE (init_bucket ?sizes base part) [0..<n] (0, [], dl, h2) = Inr (min_size, bks, dl1, h')"
    and sys: "sb_num_buckets sys = n" "sb_buckets sys = bks @ [RESET_SMART_BUCKET\<lparr>bk_min_size := min_size, bk_max_size := 2 ^ 64 - 1\<rparr>]"
      "descs sys = dl1" "sb_base_mem_chunks sys = [\<lparr>mc_size = of_nat ?A, mc_ptr = base\<rparr>]"
      "sb_bucket_sizes sys = ?sizes" "sb_num_base_mem_chunks sys = 1"
    by (auto simp: SMART_BUFFS_INIT_def Let_def res_simps n_def part_def)
  obtain mem where base: "base = Some mem"
    using mem by (auto simp: sys)
  have A2: "0 < (of_nat (?A div 2) :: u64)" "16 \<le> unat sizeof_smart_chunk_t" "unat (of_nat (?A div 2) :: u64) * unat sizeof_smart_chunk_t < 2 ^ 64"
    by (simp_all add: SMART_BUFFERS_DEFAULT_MEM_ALLOC_SIZE_def sizeof_smart_chunk_t_def)
  note al = DYN_LIST_ALLOC_spec[OF h A2 r[unfolded d]]
  have cb: "dl_element_init_cb dl = None"
    using dyn_list_alloc_spec[OF h A2, of "\<lambda>_. zero_smart_chunk" None dl h1] r by (simp add: DYN_LIST_ALLOC_def d)
  have ok: "chunks_ok dl h1"
    using al(1,2) cb by (simp add: chunks_ok_def descs_wf_def)
  note c2 = chunks_ok_malloc[OF ok m[unfolded base]]
  have "(mem, ?A) \<in> set (h_live h2)"
    using malloc_Some(3)[OF m[unfolded base]] by (simp add: SMART_BUFFERS_DEFAULT_MEM_ALLOC_SIZE_def)
  with c2 have start: "initialising mem part ?sizes 0 (0, [], dl, h2)"
    by (simp add: initialising_def)
  have fin: "initialising mem part ?sizes n (min_size, bks, dl1, h')"
  proof (rule foldE_upt_inv[where I = "initialising mem part ?sizes", OF start _ fold[unfolded base]])
    fix i s t assume i: "i < n" and s: "initialising mem part ?sizes i s" and t: "init_bucket ?sizes (Some mem) part i s = Inr t"
    have "Suc i * part \<le> n * part"
      using i by (intro mult_le_mono1) simp
    also have "\<dots> \<le> ?A"
      by (simp add: part_def)
    finally show "initialising mem part ?sizes (Suc i) t"
      using s t by (cases s) (auto intro: init_bucket_step)
  qed
  then have len: "length bks = n" by (simp add: initialising_def)
  have at: "bucket_at k sys = bks ! k" if "k < n" for k
    using that len by (simp add: bucket_at_def arr_get_def sys(2) nth_append)
  show "sb_num_buckets sys = length ?sizes" "sb_bucket_sizes sys = ?sizes" "sb_num_base_mem_chunks sys = 1"
    by (simp_all add: sys n_def)
  show "\<not> bk_sys (bucket_at (sb_num_buckets sys) sys)"
    using len by (simp add: bucket_at_def arr_get_def sys(1,2) nth_append RESET_SMART_BUCKET_def)
  show "\<forall>k < sb_num_buckets sys. bk_max_size (bucket_at k sys) = ?sizes ! k
       \<and> bk_min_size (bucket_at k sys) = (if k = 0 then 0 else Suc (?sizes ! (k - 1)))"
    using fin at by (simp add: initialising_def sys(1))
  have "\<forall>k < n. bucket_ok dl1 (bks ! k)"
    using fin len by (simp add: initialising_def)
  then show "sb_inv (sys, h')"
    using fin at len by (simp add: sb_inv_def initialising_def sys)
qed

section \<open>Histories\<close>

text \<open>The outstanding buffers with the sizes they were asked for.  Sizes belong to the buckets of the initialisation,
  and a buffer is returned with the size it was asked for.\<close>

inductive sb_history :: "smart_buffers_t \<times> heap \<Rightarrow> smart_buffers_t \<times> heap \<Rightarrow> (ptr \<times> nat) set \<Rightarrow> bool" for s0 where
  start: "sb_history s0 s0 {}"
| get: "sb_history s0 (sys, h) out \<Longrightarrow> target_bucket sz sys \<noteq> None \<Longrightarrow> SMART_BUFF_GET sz (sys, h) = Inr (p, sys', h')
    \<Longrightarrow> sb_history s0 (sys', h') (insert (p, sz) out)"
| return: "sb_history s0 (sys, h) out \<Longrightarrow> (p, sz) \<in> out \<Longrightarrow> SMART_BUFF_RETURN sz p sys = Inr sys'
    \<Longrightarrow> sb_history s0 (sys', h) (out - {(p, sz)})"

inductive_cases sb_history_emptyE: "sb_history s0 s {}"

definition outstanding_ok :: "smart_buffers_t \<Rightarrow> (ptr \<times> nat) set \<Rightarrow> bool" where
  "outstanding_ok sys out = ((\<forall>(p, sz) \<in> out. p \<in> dl_used (descs sys) \<and> sc_in_use (chunk_at sys p) \<and>
      (\<exists>k. target_bucket sz sys = Some k \<and> sc_size (chunk_at sys p) = bk_max_size (bucket_at k sys)))
     \<and> inj_on fst out)"

end
