(* ===== verification/Smart_Buffer_Properties.thy ===== *)
theory Smart_Buffer_Properties
imports Smart_Buffer_Safety
begin

text \<open>
  The properties of smart buffers: outstanding buffers are disjoint, in memory and long enough, and what goes wrong with
  sizes that are bigger than all buckets.
\<close>

section \<open>Histories keep the invariant\<close>

lemma outstanding_get:
  assumes o: "outstanding_ok sys out" and i: "sb_inv (sys, h)" and t: "target_bucket sz sys = Some k" "bk_max_size (bucket_at k sys) \<noteq> 2 ^ 64 - 1"
    and g: "SMART_BUFF_GET sz (sys, h) = Inr (p, sys', h')"
  shows "outstanding_ok sys' (insert (p, sz) out)"
proof -
  note r = get_inv[OF i t g]
  have tb: "target_bucket s sys' = target_bucket s sys" for s
    by (rule target_bucket_kept[OF r(2)]) (use i r(1,2) in \<open>simp_all add: sb_inv_def sb_kept_def\<close>)
  have mx: "bk_max_size (bucket_at j sys') = bk_max_size (bucket_at j sys)" for j
    using r(2) by (simp add: sb_kept_def)
  have old: "q \<noteq> p \<and> q \<in> dl_used (descs sys') \<and> chunk_at sys' q = chunk_at sys q" if "(q, s) \<in> out" for q s
  proof -
    have q: "q \<in> dl_used (descs sys)" "sc_in_use (chunk_at sys q)"
      using o that by (auto simp: outstanding_ok_def)
    then have "q \<noteq> p"
      using r(6) by metis
    with q r(7) r(2) show ?thesis
      by (auto simp: sb_kept_def)
  qed
  have "\<forall>x \<in> out. case x of (q, s) \<Rightarrow> q \<in> dl_used (descs sys') \<and> sc_in_use (chunk_at sys' q) \<and>
      (\<exists>k. target_bucket s sys' = Some k \<and> sc_size (chunk_at sys' q) = bk_max_size (bucket_at k sys'))"
  proof (clarify)
    fix q1 q2 s assume q: "((q1, q2), s) \<in> out"
    then have "sc_in_use (chunk_at sys (q1, q2)) \<and> (\<exists>k. target_bucket s sys = Some k \<and> sc_size (chunk_at sys (q1, q2)) = bk_max_size (bucket_at k sys))"
      using o unfolding outstanding_ok_def by fast
    with old[OF q] show "(q1, q2) \<in> dl_used (descs sys') \<and> sc_in_use (chunk_at sys' (q1, q2)) \<and>
      (\<exists>k. target_bucket s sys' = Some k \<and> sc_size (chunk_at sys' (q1, q2)) = bk_max_size (bucket_at k sys'))"
      by (simp add: tb mx)
  qed
  moreover have "p \<notin> fst ` out"
    using old by force
  moreover have "inj_on fst out"
    using o by (simp add: outstanding_ok_def)
  ultimately show ?thesis
    using r(3,4,5) t(1) by (auto simp: outstanding_ok_def tb mx)
qed

lemma outstanding_return:
  assumes o: "outstanding_ok sys out" and i: "sb_inv (sys, h)" and p: "(p, sz) \<in> out" and r: "SMART_BUFF_RETURN sz p sys = Inr sys'"
  shows "outstanding_ok sys' (out - {(p, sz)})" "sb_inv (sys', h)" "sb_kept sys sys'"
proof -
  obtain k where k: "target_bucket sz sys = Some k" "sc_size (chunk_at sys p) = bk_max_size (bucket_at k sys)" "p \<in> dl_used (descs sys)"
    using o p unfolding outstanding_ok_def by blast
  note v = return_inv[OF i r k(3,1,2)]
  show "sb_inv (sys', h)" "sb_kept sys sys'"
    by (rule v)+
  have tb: "target_bucket s sys' = target_bucket s sys" for s
    by (rule target_bucket_kept[OF v(2)]) (use i v(1,2) in \<open>simp_all add: sb_inv_def sb_kept_def\<close>)
  have mx: "bk_max_size (bucket_at j sys') = bk_max_size (bucket_at j sys)" for j
    using v(2) by (simp add: sb_kept_def)
  have "chunk_at sys' q = chunk_at sys q" if "(q, s) \<in> out - {(p, sz)}" for q s
  proof -
    have "q \<noteq> p"
      using o that p unfolding outstanding_ok_def inj_on_def by force
    then show ?thesis by (rule v(5))
  qed
  moreover have "dl_used (descs sys) \<subseteq> dl_used (descs sys')"
    using v(2) by (simp add: sb_kept_def)
  moreover have "inj_on fst (out - {(p, sz)})"
    using o by (auto simp: outstanding_ok_def intro: inj_on_subset)
  ultimately show "outstanding_ok sys' (out - {(p, sz)})"
    using o unfolding outstanding_ok_def tb mx by fastforce
qed

lemma history_inv:
  assumes "sb_history (sys0, h0) s out" "sb_inv (sys0, h0)" "\<forall>k < sb_num_buckets sys0. bk_max_size (bucket_at k sys0) \<noteq> 2 ^ 64 - 1"
  shows "sb_inv s \<and> sb_kept sys0 (fst s) \<and> outstanding_ok (fst s) out"
  using assms(1)
proof (induction rule: sb_history.induct)
  case start
  show ?case
    using assms(2) by (simp add: sb_kept_refl outstanding_ok_def)
next
  case (get sys h out sz p sys' h')
  then obtain k where k: "target_bucket sz sys = Some k" by blast
  have "k < sb_num_buckets sys"
    using target_bucket_Some(1)[OF k] get.IH by (simp add: sb_inv_def)
  then have m: "bk_max_size (bucket_at k sys) \<noteq> 2 ^ 64 - 1"
    using get.IH assms(3) by (simp add: sb_kept_def)
  have i: "sb_inv (sys, h)" and o: "outstanding_ok sys out" and kp: "sb_kept sys0 sys"
    using get.IH by simp_all
  show ?case
    using get_inv(1,2)[OF i k m get.hyps(3)] outstanding_get[OF o i k m get.hyps(3)] sb_kept_trans[OF kp] by simp
next
  case (return sys h out p sz sys')
  have i: "sb_inv (sys, h)" and o: "outstanding_ok sys out" and kp: "sb_kept sys0 sys"
    using return.IH by simp_all
  show ?case
    using outstanding_return[OF o i return.hyps(2,3)] sb_kept_trans[OF kp] by simp
qed

text \<open>C15: when the memory of the smart buffers could be allocated at their initialisation, for buckets of sizes below
  2^64 - 1, then after any history of getting buffers of sizes that belong to one of these buckets and returning each with
  the size it was asked for, an outstanding buffer is at least as long as what was asked for, lies within a live block of
  memory, and does not overlap with another outstanding buffer.  Sizes bigger than all the buckets are excluded: buffers for
  them need not lie within their block.\<close>

theorem smart_buffers_disjoint:
  assumes "wf_heap h" "SMART_BUFFS_INIT info h = Inr (sys0, h0)" "mc_ptr (sb_base_mem_chunks sys0 ! 0) \<noteq> None"
    "\<forall>max \<in> set (SMART_BUFFS_HANDLE_INFO info). max < 2 ^ 64 - 1"
    "sb_history (sys0, h0) (sys, h1) out" "(p, sz) \<in> out"
  shows "sz \<le> sc_size (chunk_at sys p)
    \<and> (\<exists>b n. fst (sc_base (chunk_at sys p)) = Some b \<and> (b, n) \<in> set (h_live h1) \<and> snd (sc_base (chunk_at sys p)) + sc_size (chunk_at sys p) \<le> n)
    \<and> (\<forall>q sz'. (q, sz') \<in> out \<longrightarrow> (q, sz') \<noteq> (p, sz) \<longrightarrow> apart (chunk_at sys p) (chunk_at sys q))"
proof -
  note i = init_inv[OF assms(1-3)]
  have "\<forall>k < sb_num_buckets sys0. bk_max_size (bucket_at k sys0) \<noteq> 2 ^ 64 - 1"
    using i(2,3) assms(4) by (simp add: all_set_conv_all_nth) (metis less_irrefl)
  from history_inv[OF assms(5) i(1) this] have v: "sb_inv (sys, h1)" "outstanding_ok sys out"
    by simp_all
  obtain k where k: "target_bucket sz sys = Some k" "sc_size (chunk_at sys p) = bk_max_size (bucket_at k sys)" "p \<in> dl_used (descs sys)"
    using v(2) assms(6) unfolding outstanding_ok_def by blast
  have "sz \<le> sc_size (chunk_at sys p)"
    using target_bucket_Some(3)[OF k(1)] k(2) v(1) by (simp add: sb_inv_def)
  moreover have "in_block h1 (descs sys) (chunk_at sys p)"
    using v(1) k(3) by (simp add: sb_inv_def chunks_ok_def)
  moreover have "apart (chunk_at sys p) (chunk_at sys q)" if q: "(q, s) \<in> out" "(q, s) \<noteq> (p, sz)" for q s
  proof -
    have "q \<noteq> p"
      using v(2) q assms(6) unfolding outstanding_ok_def inj_on_def by force
    moreover have "q \<in> dl_used (descs sys)"
      using v(2) q(1) unfolding outstanding_ok_def by blast
    ultimately show ?thesis
      using v(1) k(3) by (simp add: sb_inv_def chunks_ok_def)
  qed
  moreover obtain b n where "fst (sc_base (chunk_at sys p)) = Some b" "(b, n) \<in> set (h_live h1)"
    "snd (sc_base (chunk_at sys p)) + sc_size (chunk_at sys p) \<le> n"
    using \<open>in_block h1 (descs sys) (chunk_at sys p)\<close> by (auto simp: in_block_def)
  ultimately show ?thesis
    by blast
qed

section \<open>A system with two buffers\<close>

definition demo_descs :: "nat \<Rightarrow> ptr list \<Rightarrow> (ptr \<Rightarrow> smart_chunk_t) \<Rightarrow> smart_chunk_t dyn_list_t" where
  "demo_descs d free elts = \<lparr>dl_blk = 0, dl_capacity = of_nat d, dl_allocation_size = of_nat d,
     dl_list = \<lparr>internal_list = free, sl_length = of_nat (length free)\<rparr>, dl_element_init_cb = None, dl_num_mem_chunks = 1,
     dl_mem_chunks = \<lparr>da_base = Some (1, \<lparr>mc_size = of_nat d * 72, mc_ptr = Some 2\<rparr> # replicate 1023 zero_mem_chunk),
        da_capacity = 1024, da_allocation_size = 1024, da_type_size = 16, da_element_init_fn = None\<rparr>,
     dl_elts = elts\<rparr>"

definition demo_live :: "nat \<Rightarrow> heap" where
  "demo_live d = \<lparr>h_next = 3, h_live = [(2, d * 72), (1, 16384), (0, 96)], h_oom = (\<lambda>_. False)\<rparr>"

lemma demo_descs_alloc:
  assumes d: "0 < d" "d < 2 ^ 50"
  shows "DYN_LIST_ALLOC 72 elts (of_nat d) demo_heap = Inr (Some (demo_descs d (rev (map (Pair 2) [0..<d])) elts), demo_live d)"
proof -
  define w :: u64 where "w = of_nat d"
  have w: "unat w = d" "unat (w * 72) = d * 72" "0 < w"
    using d by (simp_all add: w_def unat_of_nat_nowrap unat_mult_nowrap word_less_nat_alt)
  have m: "malloc 96 demo_heap = (Some 0, \<lparr>h_next = 1, h_live = [(0, 96)], h_oom = (\<lambda>_. False)\<rparr>)"
    "malloc (1024 * 16) \<lparr>h_next = 1, h_live = [(0, 96)], h_oom = (\<lambda>_. False)\<rparr>
     = (Some 1, \<lparr>h_next = 2, h_live = [(1, 16384), (0, 96)], h_oom = (\<lambda>_. False)\<rparr>)"
    "malloc (w * 72) \<lparr>h_next = 2, h_live = [(1, 16384), (0, 96)], h_oom = (\<lambda>_. False)\<rparr> = (Some 2, demo_live d)"
    using d w by (simp_all add: malloc_def malloc_ok_def heap_bytes_def demo_heap_def demo_live_def)
  have fold: "foldE (grow_step 72 2 (w * 72)) [0..<d] dl =
      Inr (dl\<lparr>dl_list := \<lparr>internal_list = rev (map (Pair 2) [0..<d]) @ internal_list (dl_list dl), sl_length = sl_length (dl_list dl) + of_nat d\<rparr>,
              dl_elts := init_chunk (dl_element_init_cb dl) 2 d (dl_elts dl)\<rparr>)" for dl :: "smart_chunk_t dyn_list_t"
    using w by (intro grow_step_fold) simp
  have i: "init_chunk None b n f = f" for b n and f :: "ptr \<Rightarrow> smart_chunk_t"
    by (simp add: init_chunk_def fun_eq_iff)
  show ?thesis
    unfolding w_def[symmetric]
    by (simp add: DYN_LIST_ALLOC_def dyn_list_alloc_with_def DYN_ARRAY_ALLOC_def m[simplified]
        GROW_DYN_LIST_def DYN_ARRAY_GET_ELT_def da_write_def sizeof_dyn_list_t_def
        sizeof_mem_chunk_t_def DEFAULT_MEM_CHUNKS_def elts_in_def SIMPLE_LIST_INIT_def w fold i Let_def
        SIMPLE_LIST_LENGTH_def demo_descs_def replicate_1024 w_def[symmetric])
qed

text \<open>Getting a descriptor.\<close>

lemma demo_desc_get:
  assumes "length free < 2 ^ 64" "free \<noteq> []"
  shows "DYN_LIST_GET 72 (demo_descs d free elts) h = Inr (hd free, demo_descs d (tl free) elts, h)"
proof -
  have "(of_nat (length free) :: u64) \<noteq> 0"
    using assms by (simp add: of_nat_64_eq_0)
  with assms(2) show ?thesis
    by (cases free) (simp_all add: DYN_LIST_GET_def demo_descs_def SIMPLE_LIST_IS_EMPTY_def SIMPLE_LIST_EXTRACT_HEAD_def)
qed

definition demo_d :: nat where "demo_d = 5242878"

definition demo_free :: "ptr list" where
  "demo_free = rev (map (Pair 2) [0..<demo_d])"

lemma demo_free_descs: "rev (map (Pair 2) [0..<SMART_BUFFERS_DEFAULT_MEM_ALLOC_SIZE div 2]) = (2, Suc demo_d) # (2, demo_d) # demo_free"
proof -
  have "SMART_BUFFERS_DEFAULT_MEM_ALLOC_SIZE div 2 = Suc (Suc demo_d)"
    by (simp add: SMART_BUFFERS_DEFAULT_MEM_ALLOC_SIZE_def demo_d_def)
  then show ?thesis
    by (simp add: demo_free_def)
qed

lemma demo_free_length: "length demo_free = demo_d" "length demo_free < 100000000"
  by (simp_all add: demo_free_def demo_d_def)

definition demo_chunk :: "nat \<Rightarrow> nat \<Rightarrow> bool \<Rightarrow> smart_chunk_t" where
  "demo_chunk off seq used = \<lparr>sc_seq_num = seq, sc_bucket = Some 0, sc_parent_chunk = None, sc_prev = None, sc_base = (Some 3, off),
     sc_size = 5242880, sc_in_use = used\<rparr>"

definition demo_sys :: "ptr list \<Rightarrow> bool \<Rightarrow> bool \<Rightarrow> smart_buffers_t" where
  "demo_sys ps u1 u2 = \<lparr>sb_num_buckets = 1, sb_num_base_mem_chunks = 1, sb_base_mem_chunks = [\<lparr>mc_size = 10485760, mc_ptr = Some 3\<rparr>],
     sb_bucket_sizes = [5242880],
     sb_buckets = [\<lparr>bk_sys = True, bk_initial_size = 2, bk_min_size = 0, bk_max_size = 5242880, bk_smart_chunks_seq_num = 2,
                     bk_pool = \<lparr>internal_list = ps, sl_length = of_nat (length ps)\<rparr>\<rparr>,
                   RESET_SMART_BUCKET\<lparr>bk_min_size := 5242881, bk_max_size := 2 ^ 64 - 1\<rparr>],
     sb_smart_chunk_desc_pool = demo_descs (SMART_BUFFERS_DEFAULT_MEM_ALLOC_SIZE div 2) demo_free
       ((\<lambda>_. zero_smart_chunk)((2, Suc demo_d) := demo_chunk 0 0 u1, (2, demo_d) := demo_chunk 5242880 1 u2))\<rparr>"

definition demo_mem :: heap where
  "demo_mem = \<lparr>h_next = 4, h_live = (3, 10485760) # h_live (demo_live (SMART_BUFFERS_DEFAULT_MEM_ALLOC_SIZE div 2)), h_oom = (\<lambda>_. False)\<rparr>"

lemma demo_write: "sc_write p f (demo_descs d fr e) = demo_descs d fr (e(p := f (e p)))"
  by (simp add: sc_write_def demo_descs_def)

lemma demo_elts: "dl_elts (demo_descs d fr e) = e"
  by (simp add: demo_descs_def)

lemma demo_init: "SMART_BUFFS_INIT (Some [5242880]) demo_heap = Inr (demo_sys [(2, Suc demo_d), (2, demo_d)] False False, demo_mem)"
proof -
  let ?D = "SMART_BUFFERS_DEFAULT_MEM_ALLOC_SIZE div 2"
  have D: "0 < ?D" "?D < 2 ^ 50"
    by (simp_all add: SMART_BUFFERS_DEFAULT_MEM_ALLOC_SIZE_def)
  have m: "malloc (of_nat SMART_BUFFERS_DEFAULT_MEM_ALLOC_SIZE) (demo_live ?D) = (Some 3, demo_mem)"
    by (simp add: malloc_def malloc_ok_def heap_bytes_def demo_live_def demo_mem_def SMART_BUFFERS_DEFAULT_MEM_ALLOC_SIZE_def)
  have g1: "DYN_LIST_GET 72 (demo_descs d ((2, Suc demo_d) # (2, demo_d) # demo_free) e) h
      = Inr ((2, Suc demo_d), demo_descs d ((2, demo_d) # demo_free) e, h)" for d e h
    using demo_desc_get[of "(2, Suc demo_d) # (2, demo_d) # demo_free" d e h] demo_free_length(2) by simp
  have g2: "DYN_LIST_GET 72 (demo_descs d ((2, demo_d) # demo_free) e) h = Inr ((2, demo_d), demo_descs d demo_free e, h)" for d e h
    using demo_desc_get[of "(2, demo_d) # demo_free" d e h] demo_free_length(2) by simp
  have A: "SMART_BUFFERS_DEFAULT_MEM_ALLOC_SIZE = 10485760"
    by (simp add: SMART_BUFFERS_DEFAULT_MEM_ALLOC_SIZE_def)
  show ?thesis
    unfolding SMART_BUFFS_INIT_def Let_def SMART_BUFFS_HANDLE_INFO_def option.case sizeof_smart_chunk_t_def demo_descs_alloc[OF D]
      demo_free_descs bindE_simps prod.case derefE_def m
    by (simp add: guardE_def init_bucket_def nthE_def Let_def RESET_SMART_BUCKET_def SMART_BUFFERS_ALLOC_SMART_CHUNKS_def alloc_smart_chunk_def
        new_chunk_def g1 g2 demo_write sizeof_smart_chunk_t_def assertE_def A upt_rec[of 0] upt_rec[of "Suc 0"] SIMPLE_LIST_APPEND_def SIMPLE_LIST_INIT_def
        demo_sys_def demo_chunk_def RESET_SMART_CHUNK_def zero_smart_chunk_def fun_upd_def)
qed

lemmas demo_eval = SMART_BUFF_GET_def target_bucket_def demo_sys_def bucket_at_def arr_get_def put_bucket_def arr_put_def
  take_chunk_def SIMPLE_LIST_IS_EMPTY_def SIMPLE_LIST_EXTRACT_HEAD_def assertE_def Let_def demo_write demo_elts demo_chunk_def

lemma demo_get1:
  "SMART_BUFF_GET 100 (demo_sys [(2, Suc demo_d), (2, demo_d)] False False, demo_mem)
   = Inr ((2, Suc demo_d), demo_sys [(2, demo_d)] True False, demo_mem)"
  by (simp add: demo_eval fun_upd_twist)

lemma demo_get2:
  "SMART_BUFF_GET 200 (demo_sys [(2, demo_d)] True False, demo_mem) = Inr ((2, demo_d), demo_sys [] True True, demo_mem)"
  by (simp add: demo_eval fun_upd_twist)

text \<open>Two buffers are outstanding.\<close>

theorem smart_buffers_disjoint_witness:
  "SMART_BUFFS_INIT (Some [5242880]) demo_heap = Inr (demo_sys [(2, Suc demo_d), (2, demo_d)] False False, demo_mem)
   \<and> apart (chunk_at (demo_sys [] True True) (2, Suc demo_d)) (chunk_at (demo_sys [] True True) (2, demo_d))
   \<and> 100 \<le> sc_size (chunk_at (demo_sys [] True True) (2, Suc demo_d))"
proof -
  let ?s0 = "(demo_sys [(2, Suc demo_d), (2, demo_d)] False False, demo_mem)"
  have t: "target_bucket 100 (demo_sys ps u1 u2) \<noteq> None" "target_bucket 200 (demo_sys ps u1 u2) \<noteq> None" for ps u1 u2
    by (simp_all add: target_bucket_def demo_sys_def)
  have "sb_history ?s0 (demo_sys [] True True, demo_mem) {((2, demo_d), 200), ((2, Suc demo_d), 100)}"
    by (rule sb_history.get[OF sb_history.get[OF sb_history.start t(1) demo_get1] t(2) demo_get2])
  moreover have "mc_ptr (sb_base_mem_chunks (demo_sys ps u1 u2) ! 0) \<noteq> None" for ps u1 u2
    by (simp add: demo_sys_def)
  ultimately show ?thesis
    using smart_buffers_disjoint[OF demo_wf demo_init, of "demo_sys [] True True" demo_mem _ "(2, Suc demo_d)" 100] demo_init
    by (simp add: SMART_BUFFS_HANDLE_INFO_def)
qed

section \<open>Sizes bigger than all buckets\<close>

text \<open>The three chunks that are added to a new bucket.\<close>

lemma big_chunks:
  assumes w: "descs_wf dl h" and b: "bk_pool b = SIMPLE_LIST_INIT" "bk_smart_chunks_seq_num b = 0"
    and blk: "(mem, n) \<in> set (h_live h)" "mem \<notin> pool_blks dl"
    and f: "foldE (big_chunk (Some mem)) [0..<3] (b, dl, h) = Inr (b', dl', h')"
  obtains p0 p1 p2 where "bk_pool b' = \<lparr>internal_list = [p0, p1, p2], sl_length = 3\<rparr>" "p0 \<noteq> p1" "p0 \<noteq> p2" "p1 \<noteq> p2"
    "b' = b\<lparr>bk_pool := bk_pool b', bk_smart_chunks_seq_num := 3\<rparr>"
    "sc_base (dl_elts dl' p2) = (Some mem, 2 * bk_max_size b)" "sc_size (dl_elts dl' p2) = bk_max_size b"
    "sc_seq_num (dl_elts dl' p0) = 0" "sc_seq_num (dl_elts dl' p1) = 1" "sc_seq_num (dl_elts dl' p2) = 2"
    "(mem, n) \<in> set (h_live h')"
proof -
  let ?fill = "\<lambda>i sc. (RESET_SMART_CHUNK sc)\<lparr>sc_base := (Some mem, i * bk_max_size b), sc_size := bk_max_size b, sc_seq_num := i\<rparr>"
  have three: "[0..<3] = [0, 1, 2::nat]"
    by (simp add: upt_rec)
  from f obtain p0 d0 h0 p1 d1 h1 p2 d2 where
    0: "DYN_LIST_GET sizeof_smart_chunk_t dl h = Inr (p0, d0, h0)"
    and 1: "DYN_LIST_GET sizeof_smart_chunk_t (sc_write p0 (?fill 0) d0) h0 = Inr (p1, d1, h1)"
    and 2: "DYN_LIST_GET sizeof_smart_chunk_t (sc_write p1 (?fill 1) d1) h1 = Inr (p2, d2, h')"
    and dl': "dl' = sc_write p2 (?fill 2) d2"
    and b': "b' = b\<lparr>bk_pool := \<lparr>internal_list = [p0, p1, p2], sl_length = 3\<rparr>, bk_smart_chunks_seq_num := 3\<rparr>"
    unfolding three
    by (auto simp: big_chunk_def new_chunk_def res_simps b SIMPLE_LIST_APPEND_def SIMPLE_LIST_INIT_def numeral_3_eq_3 numeral_2_eq_2)
  note g0 = get_desc[where f = "?fill 0", OF w 0 refl]
  note g1 = get_desc[where f = "?fill 1", OF g0(1) 1 refl]
  note g2 = get_desc[OF g1(1) 2 dl']
  have ne: "p0 \<noteq> p1" "p0 \<noteq> p2" "p1 \<noteq> p2"
    using g0(3) g1(2,3) g2(2) by auto
  have "(mem, n) \<in> set (h_live h')"
    using g0(6)[OF blk(1)] g1(6)[of "(mem, n)"] g2(6)[of "(mem, n)"] blk(2) by auto
  moreover have "sc_seq_num (dl_elts dl' p0) = 0" "sc_seq_num (dl_elts dl' p1) = 1" "sc_seq_num (dl_elts dl' p2) = 2"
    using ne g0(5) g1(4,5) g2(4,5) by auto
  moreover have "sc_base (dl_elts dl' p2) = (Some mem, 2 * bk_max_size b)" "sc_size (dl_elts dl' p2) = bk_max_size b"
    using g2(5) by simp_all
  ultimately show thesis
    using ne by (intro that[of p0 p1 p2]) (simp_all add: b')
qed

lemma new_bucket_size_bounds:
  assumes "last_size < sz" "sz < 2 ^ 62"
  shows "sz < new_bucket_size sz last_size" "new_bucket_size sz last_size < 2 ^ 63"
proof -
  define q where "q = sz div 4096"
  define r where "r = sz mod 4096"
  have e: "q * 4096 + r = sz" "r < 4096"
    by (simp_all add: q_def r_def)
  have q: "sz < (q + 1) * 4096" "(q + 1) * 4096 < 2 ^ 63" "last_size * 2 < 2 ^ 63"
    using e assms by simp_all
  then have "wrap64 ((q + 1) * 4096) = (q + 1) * 4096" "wrap64 (last_size * 2) = last_size * 2"
    unfolding wrap64_def by (intro mod_less; simp)+
  with q show "sz < new_bucket_size sz last_size" "new_bucket_size sz last_size < 2 ^ 63"
    unfolding new_bucket_size_def Let_def q_def[symmetric] by (simp_all split: if_split)
qed

lemma find_bucket_None: "find_bucket sz bs = None \<longleftrightarrow> (\<forall>b \<in> set bs. \<not> (bk_min_size b \<le> sz \<and> sz \<le> bk_max_size b))"
  by (induction bs) (auto split: if_splits)

lemma find_bucket_append: "find_bucket sz bs = None \<Longrightarrow> bk_min_size b \<le> sz \<Longrightarrow> sz \<le> bk_max_size b \<Longrightarrow> find_bucket sz (bs @ [b]) = Some (length bs)"
  by (induction bs) (auto split: if_splits)

text \<open>The state after the bucket was added: three chunks, of which the last starts at the end of the block.\<close>

definition big_state :: "nat \<Rightarrow> nat \<Rightarrow> blk \<Rightarrow> nat \<Rightarrow> ptr list \<Rightarrow> smart_buffers_t \<times> heap \<Rightarrow> bool" where
  "big_state sz n mem m ps = (\<lambda>(sys, h).
     sb_num_buckets sys = Suc n \<and> target_bucket sz sys = Some n \<and> n < length (sb_buckets sys)
     \<and> \<not> bk_sys (bucket_at n sys) \<and> bk_max_size (bucket_at n sys) = m \<and> m < 2 ^ 63 \<and> bk_smart_chunks_seq_num (bucket_at n sys) = 3
     \<and> bk_pool (bucket_at n sys) = \<lparr>internal_list = ps, sl_length = of_nat (length ps)\<rparr> \<and> length ps \<le> 3 \<and> distinct ps
     \<and> (\<forall>p \<in> set ps. sc_seq_num (chunk_at sys p) < 3)
     \<and> (ps \<noteq> [] \<longrightarrow> sc_base (chunk_at sys (last ps)) = (Some mem, 2 * m)) \<and> (mem, 2 * m) \<in> set (h_live h))"

lemma add_bucket_big:
  assumes inv: "sb_inv (sys, h)" and t: "target_bucket sz sys = None" and sz: "arr_get (sb_num_buckets sys - 1) 0 (sb_bucket_sizes sys) < sz" "sz < 2 ^ 62"
    and b: "\<not> bk_sys (bucket_at (sb_num_buckets sys) sys)" and a: "add_bucket sz (sys, h) = Inr (n, sys', h')"
    and mem: "mc_ptr (arr_get (sb_num_base_mem_chunks sys) zero_mem_chunk (sb_base_mem_chunks sys')) = Some mem"
  shows "\<exists>ps. length ps = 3 \<and> big_state sz n mem (bk_max_size (bucket_at n sys')) ps (sys', h')" "n = sb_num_buckets sys"
proof -
  define k where "k = sb_num_buckets sys"
  define ls where "ls = arr_get (k - 1) 0 (sb_bucket_sizes sys)"
  define m where "m = new_bucket_size sz ls"
  note bd = new_bucket_size_bounds[OF sz[folded k_def, folded ls_def], folded m_def]
  have wr: "wrap64 (2 * m) = 2 * m" "(2 * m) div m = 2" "wrap64 (ls + 1) = Suc ls"
    using bd sz by (simp_all add: wrap64_def ls_def k_def)
  define b0 where "b0 = (bucket_at k sys)\<lparr>bk_pool := SIMPLE_LIST_INIT, bk_min_size := Suc ls, bk_max_size := m\<rparr>"
  obtain mem' h1 where mal: "malloc (of_nat (2 * m)) h = (mem', h1)"
    by (cases "malloc (of_nat (2 * m)) h")
  have three: "Suc (2 * m div m) = 3"
    using wr(2) by simp
  note a' = a[unfolded add_bucket_def prod.case Let_def, folded k_def, folded ls_def, folded m_def, unfolded wr(1,3) mal prod.case three, folded b0_def]
  from a' obtain b1 dl where sq: "bk_smart_chunks_seq_num (bucket_at k sys) = 0"
    and fold: "foldE (big_chunk mem') [0..<3] (b0, descs sys, h1) = Inr (b1, dl, h')" and n: "n = k"
    and sys': "descs sys' = dl" "sb_num_buckets sys' = Suc k" "\<And>j. bucket_at j sys' = (if j = k then b1\<lparr>bk_initial_size := 3\<rparr> else bucket_at j sys)"
      "sb_base_mem_chunks sys' = arr_put (sb_num_base_mem_chunks sys) zero_mem_chunk
         ((arr_get (sb_num_base_mem_chunks sys) zero_mem_chunk (sb_base_mem_chunks sys))\<lparr>mc_ptr := mem'\<rparr>) (sb_base_mem_chunks sys)"
      "length (sb_buckets sys') = max (length (sb_buckets sys)) (Suc k)" "\<And>j. j < k \<Longrightarrow> sb_buckets sys' ! j = sb_buckets sys ! j"
    using inv by (auto simp: res_simps put_bucket_def arr_put_def bucket_at_def arr_get_def nth_append k_def sb_inv_def split: if_splits)
  show "n = sb_num_buckets sys"
    by (simp add: n k_def)
  have mm: "mem' = Some mem"
    using mem by (simp add: sys'(4) arr_get_put)
  have ok: "chunks_ok (descs sys) h"
    using inv by (simp add: sb_inv_def)
  note c = chunks_ok_malloc[OF ok mal[unfolded mm]]
  have blk: "(mem, 2 * m) \<in> set (h_live h1)"
    using malloc_Some(3)[OF mal[unfolded mm]] bd(2) by (simp add: unat_of_nat_nowrap del: of_nat_mult)
  have w: "descs_wf (descs sys) h1" "bk_pool b0 = SIMPLE_LIST_INIT" "bk_smart_chunks_seq_num b0 = 0" "bk_max_size b0 = m" "bk_min_size b0 = Suc ls" "\<not> bk_sys b0"
    using c(1) sq b by (simp_all add: chunks_ok_def b0_def k_def)
  obtain p0 p1 p2 where p: "bk_pool b1 = \<lparr>internal_list = [p0, p1, p2], sl_length = 3\<rparr>" "p0 \<noteq> p1" "p0 \<noteq> p2" "p1 \<noteq> p2"
    "b1 = b0\<lparr>bk_pool := bk_pool b1, bk_smart_chunks_seq_num := 3\<rparr>"
    "sc_base (dl_elts dl p2) = (Some mem, 2 * m)"
    "sc_seq_num (dl_elts dl p0) = 0" "sc_seq_num (dl_elts dl p1) = 1" "sc_seq_num (dl_elts dl p2) = 2" "(mem, 2 * m) \<in> set (h_live h')"
    using big_chunks[OF w(1,2,3) blk c(2) fold[unfolded mm]] w(4) by metis
  have b1: "bk_max_size b1 = m" "bk_min_size b1 = Suc ls" "\<not> bk_sys b1" "bk_smart_chunks_seq_num b1 = 3"
    by (subst p(5), simp add: w)+
  have len: "k < length (sb_buckets sys)"
    using inv by (simp add: sb_inv_def k_def)
  have "take (Suc k) (sb_buckets sys') = take k (sb_buckets sys) @ [b1\<lparr>bk_initial_size := 3\<rparr>]"
  proof -
    have "sb_buckets sys' ! k = b1\<lparr>bk_initial_size := 3\<rparr>"
      using sys'(3)[of k] len sys'(5) by (simp add: bucket_at_def arr_get_def)
    moreover have "take k (sb_buckets sys') = take k (sb_buckets sys)"
      using sys'(5,6) len by (intro nth_equalityI) auto
    ultimately show ?thesis
      using len sys'(5) by (simp add: take_Suc_conv_app_nth)
  qed
  then have "target_bucket sz sys' = Some k"
    using find_bucket_append[of sz "take k (sb_buckets sys)" "b1\<lparr>bk_initial_size := 3\<rparr>"] t b1 bd(1) sz(1) len
    by (simp add: target_bucket_def sys'(2) k_def[symmetric] ls_def)
  then have "big_state sz n mem (bk_max_size (bucket_at n sys')) [p0, p1, p2] (sys', h')"
    using p b1 bd sys' len by (simp add: big_state_def n)
  then show "\<exists>ps. length ps = 3 \<and> big_state sz n mem (bk_max_size (bucket_at n sys')) ps (sys', h')"
    by (intro exI[of _ "[p0, p1, p2]"]) simp
qed

lemma big_take:
  assumes b: "big_state sz n mem m (p # ps) (sys, h)"
  shows "\<exists>sys'. take_chunk n (sys, h) = Inr (p, sys', h) \<and> big_state sz n mem m ps (sys', h) \<and> sc_base (chunk_at sys' p) = sc_base (chunk_at sys p)"
proof -
  define sys' where "sys' = (put_bucket n ((bucket_at n sys)\<lparr>bk_pool := \<lparr>internal_list = ps, sl_length = of_nat (length ps)\<rparr>\<rparr>) sys)
     \<lparr>sb_smart_chunk_desc_pool := sc_write p (sc_in_use_update (\<lambda>_. True)) (descs sys)\<rparr>"
  have pool: "bk_pool (bucket_at n sys) = \<lparr>internal_list = p # ps, sl_length = of_nat (length (p # ps))\<rparr>" "length (p # ps) \<le> 3"
    "sc_seq_num (chunk_at sys p) < 3"
    using b by (simp_all add: big_state_def)
  have ne: "(of_nat (length (p # ps)) :: u64) \<noteq> 0"
    using pool(2) by (intro notI) (subst (asm) of_nat_64_eq_0, simp_all)
  have t: "take_chunk n (sys, h) = Inr (p, sys', h)"
    using pool(1,3) ne by (simp add: take_chunk_def assertE_def SIMPLE_LIST_EXTRACT_HEAD_def Let_def sys'_def)
  have len: "n < length (sb_buckets sys)" "sb_num_buckets sys = Suc n"
    using b by (simp_all add: big_state_def)
  have at: "bucket_at j sys' = (if j = n then (bucket_at n sys)\<lparr>bk_pool := \<lparr>internal_list = ps, sl_length = of_nat (length ps)\<rparr>\<rparr> else bucket_at j sys)" for j
    by (simp add: sys'_def)
  have sh: "sb_num_buckets sys' = Suc n" "length (sb_buckets sys') = length (sb_buckets sys)"
    using len by (simp_all add: sys'_def)
  have "target_bucket sz sys' = target_bucket sz sys"
    unfolding target_bucket_def sh len
  proof (rule find_bucket_cong)
    show "length (take (Suc n) (sb_buckets sys')) = length (take (Suc n) (sb_buckets sys))"
      by (simp add: sh)
    fix j assume j: "j < length (take (Suc n) (sb_buckets sys'))"
    then have "bucket_at j sys' = sb_buckets sys' ! j" "bucket_at j sys = sb_buckets sys ! j"
      by (simp_all add: bucket_at_def arr_get_def sh)
    with at[of j] j show "bk_min_size (take (Suc n) (sb_buckets sys') ! j) = bk_min_size (take (Suc n) (sb_buckets sys) ! j)
        \<and> bk_max_size (take (Suc n) (sb_buckets sys') ! j) = bk_max_size (take (Suc n) (sb_buckets sys) ! j)"
      by (auto split: if_splits)
  qed
  moreover have "chunk_at sys' q = chunk_at sys q" if "q \<noteq> p" for q
    using that by (simp add: sys'_def)
  moreover have "sc_base (chunk_at sys' p) = sc_base (chunk_at sys p)" "p \<notin> set ps"
    using b by (simp_all add: sys'_def big_state_def)
  moreover from this have "last ps \<noteq> p" if "ps \<noteq> []"
    using that by (metis last_in_set)
  moreover have "q \<noteq> p" if "q \<in> set ps" for q
    using that \<open>p \<notin> set ps\<close> by metis
  ultimately have "big_state sz n mem m ps (sys', h)"
    using b by (simp add: big_state_def at sh) (cases "ps = []"; simp)
  with t show ?thesis
    by (simp add: sys'_def)
qed

lemma big_get:
  assumes b: "big_state sz n mem m (p # ps) (sys, h)"
  shows "SMART_BUFF_GET sz (sys, h) = take_chunk n (sys, h)"
proof -
  have "length (p # ps) \<le> 3"
    using b by (simp add: big_state_def)
  then have "(of_nat (length (p # ps)) :: u64) \<noteq> 0"
    by (intro notI) (subst (asm) of_nat_64_eq_0, simp_all)
  with b show ?thesis
    by (simp add: SMART_BUFF_GET_def big_state_def assertE_def SIMPLE_LIST_IS_EMPTY_def)
qed

lemma big_get_empty:
  assumes "big_state sz n mem m [] (sys, h)"
  shows "SMART_BUFF_GET sz (sys, h) = Inl Null_deref \<or> SMART_BUFF_GET sz (sys, h) = Inl Assert_failed"
  using assms
  by (auto simp: SMART_BUFF_GET_def big_state_def assertE_def guardE_def SIMPLE_LIST_IS_EMPTY_def SMART_BUFFS_GROW_BUCKET_def Let_def
      split: prod.splits option.splits)

lemma init_nonempty: "SMART_BUFFS_INIT info h = Inr r \<Longrightarrow> SMART_BUFFS_HANDLE_INFO info \<noteq> []"
  by (auto simp: SMART_BUFFS_INIT_def Let_def res_simps guardE_def split: prod.splits) (metis surj_pair)

text \<open>The first of the big buffers: the bucket is added and its first chunk taken.\<close>

lemma big_first:
  assumes inv: "sb_inv (sys, h)" and t: "target_bucket sz sys = None" and sz: "arr_get (sb_num_buckets sys - 1) 0 (sb_bucket_sizes sys) < sz" "sz < 2 ^ 62"
    and b: "\<not> bk_sys (bucket_at (sb_num_buckets sys) sys)" and g: "SMART_BUFF_GET sz (sys, h) = Inr (p, sys', h')"
    and mem: "mc_ptr (arr_get (sb_num_base_mem_chunks sys) zero_mem_chunk (sb_base_mem_chunks sys')) = Some mem"
  shows "\<exists>n m p2 p3. big_state sz n mem m [p2, p3] (sys', h')"
proof -
  from g t obtain k sysb hb s where a: "add_bucket sz (sys, h) = Inr (k, sysb, hb)"
    and gr: "(if SIMPLE_LIST_IS_EMPTY (bk_pool (bucket_at k sysb)) then SMART_BUFFS_GROW_BUCKET k (sysb, hb) else Inr (sysb, hb)) = Inr s"
    and tk: "take_chunk k s = Inr (p, sys', h')"
    by (auto simp: SMART_BUFF_GET_def bindE_Inr_iff)
  have n: "sb_num_base_mem_chunks sysb = Suc (sb_num_base_mem_chunks sys)"
    using a by (cases "malloc (of_nat (wrap64 (2 * new_bucket_size sz (arr_get (sb_num_buckets sys - 1) 0 (sb_bucket_sizes sys))))) h")
      (auto simp: add_bucket_def Let_def bindE_Inr_iff)
  have "sb_base_mem_chunks sys' = sb_base_mem_chunks (fst s)"
    using tk by (cases s) (auto simp: take_chunk_def Let_def bindE_Inr_iff put_bucket_def)
  moreover have "arr_get (sb_num_base_mem_chunks sys) zero_mem_chunk (sb_base_mem_chunks (fst s))
      = arr_get (sb_num_base_mem_chunks sys) zero_mem_chunk (sb_base_mem_chunks sysb)"
    using gr n by (auto simp: SMART_BUFFS_GROW_BUCKET_def Let_def bindE_Inr_iff arr_get_put split: prod.splits option.splits if_splits)
  ultimately have "mc_ptr (arr_get (sb_num_base_mem_chunks sys) zero_mem_chunk (sb_base_mem_chunks sysb)) = Some mem"
    using mem by simp
  from add_bucket_big(1)[OF inv t sz b a this] obtain ps m where ps: "length ps = 3" "big_state sz k mem m ps (sysb, hb)"
    by blast
  then obtain p1 p2 p3 where p: "big_state sz k mem m [p1, p2, p3] (sysb, hb)"
    by (auto simp: numeral_3_eq_3 length_Suc_conv)
  have "SMART_BUFF_GET sz (sysb, hb) = take_chunk k s"
  proof -
    have "s = (sysb, hb)"
      using gr p by (auto simp: big_state_def SIMPLE_LIST_IS_EMPTY_def)
    with big_get[OF p] show ?thesis
      by simp
  qed
  then have "take_chunk k (sysb, hb) = Inr (p, sys', h')"
    using big_get[OF p] tk by simp
  with big_take[OF p] have "big_state sz k mem m [p2, p3] (sys', h')"
    by auto
  then show ?thesis
    by blast
qed

text \<open>C32: a system that is asked three times for a size that is bigger than all its buckets hands out, the third time,
  a buffer that starts where its block of memory ends, and is aborted when it is asked a fourth time: the bucket that is
  added for the size has three chunks on the memory of two, and does not know its system.\<close>

theorem big_buffer_beyond_block:
  assumes "wf_heap h" "SMART_BUFFS_INIT info h = Inr (sys0, h0)" "mc_ptr (sb_base_mem_chunks sys0 ! 0) \<noteq> None"
    "\<forall>max \<in> set (SMART_BUFFS_HANDLE_INFO info). max < sz" "sz < 2 ^ 62"
    "SMART_BUFF_GET sz (sys0, h0) = Inr (p1, sys1, h1)" "mc_ptr (arr_get 1 zero_mem_chunk (sb_base_mem_chunks sys1)) = Some mem"
  shows "\<exists>p2 sys2 p3 sys3 n. SMART_BUFF_GET sz (sys1, h1) = Inr (p2, sys2, h1) \<and> SMART_BUFF_GET sz (sys2, h1) = Inr (p3, sys3, h1)
    \<and> sc_base (chunk_at sys3 p3) = (Some mem, n) \<and> (mem, n) \<in> set (h_live h1)
    \<and> (SMART_BUFF_GET sz (sys3, h1) = Inl Null_deref \<or> SMART_BUFF_GET sz (sys3, h1) = Inl Assert_failed)"
proof -
  note i = init_inv[OF assms(1-3)]
  let ?sizes = "SMART_BUFFS_HANDLE_INFO info"
  have len: "sb_num_buckets sys0 < length (sb_buckets sys0)"
    using i(1) by (simp add: sb_inv_def)
  have "find_bucket sz (take (sb_num_buckets sys0) (sb_buckets sys0)) = None"
    unfolding find_bucket_None
  proof
    fix b assume "b \<in> set (take (sb_num_buckets sys0) (sb_buckets sys0))"
    then obtain k where k: "k < sb_num_buckets sys0" "b = sb_buckets sys0 ! k"
      using len by (auto simp: in_set_conv_nth)
    then have "bk_max_size b = ?sizes ! k"
      using i(3) len by (simp add: bucket_at_def arr_get_def)
    with k(1) assms(4) i(2) show "\<not> (bk_min_size b \<le> sz \<and> sz \<le> bk_max_size b)"
      by (metis leD nth_mem)
  qed
  then have t: "target_bucket sz sys0 = None"
    by (simp add: target_bucket_def)
  have ls: "arr_get (sb_num_buckets sys0 - 1) 0 (sb_bucket_sizes sys0) < sz"
    using init_nonempty[OF assms(2)] assms(4) by (simp add: i(2,4) arr_get_def)
  obtain n m p2 p3 where s1: "big_state sz n mem m [p2, p3] (sys1, h1)"
    using big_first[OF i(1) t ls assms(5) i(6) assms(6)] assms(7) i(5) by auto
  obtain sys2 where g2: "take_chunk n (sys1, h1) = Inr (p2, sys2, h1)" and s2: "big_state sz n mem m [p3] (sys2, h1)"
    using big_take[OF s1] by blast
  obtain sys3 where g3: "take_chunk n (sys2, h1) = Inr (p3, sys3, h1)" and s3: "big_state sz n mem m [] (sys3, h1)"
    and p3: "sc_base (chunk_at sys3 p3) = sc_base (chunk_at sys2 p3)"
    using big_take[OF s2] by blast
  have "sc_base (chunk_at sys3 p3) = (Some mem, 2 * m)" "(mem, 2 * m) \<in> set (h_live h1)"
    using s2 p3 by (simp_all add: big_state_def)
  then show ?thesis
    using g2 g3 big_get[OF s1] big_get[OF s2] big_get_empty[OF s3] by metis
qed

text \<open>A system with one bucket, that is asked for six million bytes.\<close>

definition demo_more :: "ptr list" where
  "demo_more = rev (map (Pair 2) [0..<demo_d - 3])"

lemma demo_free_more: "demo_free = (2, 5242877) # (2, 5242876) # (2, 5242875) # demo_more"
proof -
  have "rev (map (Pair (2::nat)) [0..<Suc (Suc (Suc n))]) = (2, n + 2) # (2, n + 1) # (2, n) # rev (map (Pair 2) [0..<n])" for n
    by simp
  from this[of "demo_d - 3"] show ?thesis
    by (simp add: demo_free_def demo_more_def demo_d_def del: upt_Suc)
qed

lemma demo_big_get:
  "\<exists>p sys h. SMART_BUFF_GET 6000000 (demo_sys [(2, Suc demo_d), (2, demo_d)] False False, demo_mem) = Inr (p, sys, h)
     \<and> mc_ptr (arr_get 1 zero_mem_chunk (sb_base_mem_chunks sys)) = Some 4"
proof -
  have len: "length demo_more < 100000000"
    by (simp add: demo_more_def demo_d_def)
  have g: "DYN_LIST_GET 72 (demo_descs d (p # ps) e) h = Inr (p, demo_descs d ps e, h)" if "length ps < 200000000" for d p ps e h
    using demo_desc_get[of "p # ps" d e h] that by simp
  have three: "[0..<3] = [0, 1, 2::nat]"
    by (simp add: upt_rec)
  have sz: "new_bucket_size 6000000 5242880 = 10485760"
    by (simp add: new_bucket_size_def wrap64_def)
  have m: "malloc 20971520 demo_mem = (Some 4, \<lparr>h_next = 5, h_live = (4, 20971520) # h_live demo_mem, h_oom = (\<lambda>_. False)\<rparr>)"
    by (simp add: malloc_def malloc_ok_def heap_bytes_def demo_mem_def demo_live_def SMART_BUFFERS_DEFAULT_MEM_ALLOC_SIZE_def)
  have "\<exists>n sys h. add_bucket 6000000 (demo_sys [(2, Suc demo_d), (2, demo_d)] False False, demo_mem) = Inr (n, sys, h)
     \<and> mc_ptr (arr_get 1 zero_mem_chunk (sb_base_mem_chunks sys)) = Some 4
     \<and> bk_pool (bucket_at n sys) = \<lparr>internal_list = [(2, 5242877), (2, 5242876), (2, 5242875)], sl_length = 3\<rparr>
     \<and> sc_seq_num (dl_elts (sb_smart_chunk_desc_pool sys) (2, 5242877)) = 0"
    unfolding add_bucket_def prod.case Let_def demo_sys_def demo_free_more
    using len by (simp add: bucket_at_def arr_get_def RESET_SMART_BUCKET_def sz wrap64_def assertE_def m big_chunk_def new_chunk_def
        sizeof_smart_chunk_t_def g demo_write three put_bucket_def arr_put_def SIMPLE_LIST_APPEND_def SIMPLE_LIST_INIT_def demo_elts
        del: split_paired_Ex)
  then obtain n sys h where a: "add_bucket 6000000 (demo_sys [(2, Suc demo_d), (2, demo_d)] False False, demo_mem) = Inr (n, sys, h)"
    and s: "mc_ptr (arr_get 1 zero_mem_chunk (sb_base_mem_chunks sys)) = Some 4"
     "bk_pool (bucket_at n sys) = \<lparr>internal_list = [(2, 5242877), (2, 5242876), (2, 5242875)], sl_length = 3\<rparr>"
     "sc_seq_num (dl_elts (sb_smart_chunk_desc_pool sys) (2, 5242877)) = 0"
    by blast
  have t: "target_bucket 6000000 (demo_sys [(2, Suc demo_d), (2, demo_d)] False False) = None"
    by (simp add: target_bucket_def demo_sys_def)
  show ?thesis
    unfolding SMART_BUFF_GET_def prod.case t option.case a bindE_simps
    by (simp add: s s(1)[simplified] SIMPLE_LIST_IS_EMPTY_def take_chunk_def assertE_def SIMPLE_LIST_EXTRACT_HEAD_def Let_def sc_write_def put_bucket_def)
qed

theorem big_buffer_beyond_block_witness:
  "\<exists>s p2 p3 sys2 h1 sys3 n. SMART_BUFF_GET 6000000 s = Inr (p2, sys2, h1) \<and> SMART_BUFF_GET 6000000 (sys2, h1) = Inr (p3, sys3, h1)
     \<and> sc_base (chunk_at sys3 p3) = (Some 4, n) \<and> (4, n) \<in> set (h_live h1)"
proof -
  obtain p sys h where g: "SMART_BUFF_GET 6000000 (demo_sys [(2, Suc demo_d), (2, demo_d)] False False, demo_mem) = Inr (p, sys, h)"
    "mc_ptr (arr_get 1 zero_mem_chunk (sb_base_mem_chunks sys)) = Some 4"
    using demo_big_get by blast
  have "mc_ptr (sb_base_mem_chunks (demo_sys [(2, Suc demo_d), (2, demo_d)] False False) ! 0) \<noteq> None"
    by (simp add: demo_sys_def)
  from big_buffer_beyond_block[OF demo_wf demo_init this _ _ g] show ?thesis
    by (simp add: SMART_BUFFS_HANDLE_INFO_def del: split_paired_Ex) blast
qed

end
