(* ===== verification/SP_Data.thy ===== *)
theory SP_Data
imports Mimosa_Types C_Strings
begin

text \<open>
  What the hosts learn of the service processes of the job (\<open>src/src/dpu_offload_utils.c\<close>,
  \<open>src/src/dpu_offload_event_channels.c\<close>): a service process packs the addresses and the descriptions of all service
  processes in one buffer, a host unpacks it and creates endpoints from the addresses.  Buffers are lists of bytes;
  reading or writing outside of one is a fault.  The bytes of \<open>service_proc_t\<close> are copied as they are.
\<close>

section \<open>Buffers\<close>

text \<open>64-bit integers are stored with the lowest byte first.\<close>

primrec le_bytes :: "nat \<Rightarrow> nat \<Rightarrow> u8 list" where
  "le_bytes 0 n = []"
| "le_bytes (Suc k) n = of_nat (n mod 256) # le_bytes k (n div 256)"

primrec le_nat :: "u8 list \<Rightarrow> nat" where
  "le_nat [] = 0"
| "le_nat (b # bs) = unat b + 256 * le_nat bs"

definition read_at :: "nat \<Rightarrow> nat \<Rightarrow> u8 list \<Rightarrow> u8 list res" where
  "read_at off n buf = (if off + n \<le> length buf then Inr (take n (drop off buf)) else Inl Out_of_bounds)"

definition write_at :: "nat \<Rightarrow> u8 list \<Rightarrow> u8 list \<Rightarrow> u8 list res" where
  "write_at off bs buf =
     (if off + length bs \<le> length buf then Inr (take off buf @ bs @ drop (off + length bs) buf) else Inl Out_of_bounds)"

section \<open>Service processes\<close>

definition sizeof_uint64_t :: nat where "sizeof_uint64_t = 8"

definition sizeof_service_proc_t :: nat where "sizeof_service_proc_t = 40"

text \<open>The members of \<open>remote_service_proc_info_t\<close> that are used here; \<open>addr\<close> points into a block, of which the bytes from
  there to its end are kept.  Execution contexts and endpoints are numbers, NULL is \<open>None\<close>.\<close>

record sp_info_t =
  spi_addr :: "u8 list option"
  spi_addr_len :: nat
  spi_ep :: "nat option"
  spi_client_id :: nat
  spi_econtext :: "nat option"
  spi_service_proc :: "u8 list"

definition zero_sp_info :: sp_info_t where
  "zero_sp_info = \<lparr>spi_addr = None, spi_addr_len = 0, spi_ep = None, spi_client_id = 0,
     spi_econtext = None, spi_service_proc = replicate sizeof_service_proc_t 0\<rparr>"

record sp_engine_t =
  spe_on_dpu :: bool
  spe_num_service_procs :: nat
  spe_total_num_sps :: nat
  spe_host_dpu_data_initialized :: bool
  spe_buf_data_sps :: "u8 list option"
  spe_service_procs :: "sp_info_t list"
  spe_num_connected_service_procs :: nat
  spe_local_sp_global_id :: nat
  spe_self_econtext :: "nat option"

definition sp_at :: "nat \<Rightarrow> sp_engine_t \<Rightarrow> sp_info_t" where
  "sp_at i e = arr_get i zero_sp_info (spe_service_procs e)"

definition put_sp :: "nat \<Rightarrow> sp_info_t \<Rightarrow> sp_engine_t \<Rightarrow> sp_engine_t" where
  "put_sp i sp e = e\<lparr>spe_service_procs := arr_put i zero_sp_info sp (spe_service_procs e)\<rparr>"

definition RESET_HOST_ENGINE :: "sp_engine_t \<Rightarrow> sp_engine_t" where
  "RESET_HOST_ENGINE e = e\<lparr>spe_total_num_sps := 2 ^ 64 - 1, spe_host_dpu_data_initialized := True\<rparr>"

definition RESET_DPU_ENGINE :: "sp_engine_t \<Rightarrow> sp_engine_t" where
  "RESET_DPU_ENGINE e = e\<lparr>spe_host_dpu_data_initialized := True\<rparr>"

section \<open>Packing\<close>

definition get_list_sps_packed_size :: "sp_engine_t \<Rightarrow> nat" where
  "get_list_sps_packed_size e =
     (fold (\<lambda>idx packed_size. packed_size + spi_addr_len (sp_at idx e)) [0..<spe_num_service_procs e]
        (sizeof_uint64_t + spe_num_service_procs e * sizeof_uint64_t)
      + spe_num_service_procs e * sizeof_service_proc_t) mod 2 ^ 64"

type_synonym packing = "nat \<times> u8 list"

definition pack_len :: "sp_engine_t \<Rightarrow> nat \<Rightarrow> packing \<Rightarrow> packing res" where
  "pack_len e idx = (\<lambda>(offset, buf).
     bindE (assertE (0 < spi_addr_len (sp_at idx e))) (\<lambda>_.
     bindE (write_at offset (le_bytes 8 (spi_addr_len (sp_at idx e))) buf) (\<lambda>buf1.
     Inr (offset + sizeof_uint64_t, buf1))))"

definition pack_addr :: "sp_engine_t \<Rightarrow> nat \<Rightarrow> packing \<Rightarrow> packing res" where
  "pack_addr e idx = (\<lambda>(offset, buf).
     bindE (assertE (spi_addr (sp_at idx e) \<noteq> None)) (\<lambda>_.
     bindE (read_at 0 (spi_addr_len (sp_at idx e)) (the (spi_addr (sp_at idx e)))) (\<lambda>addr.
     bindE (write_at offset addr buf) (\<lambda>buf1.
     Inr (offset + spi_addr_len (sp_at idx e), buf1)))))"

definition pack_info :: "sp_engine_t \<Rightarrow> nat \<Rightarrow> packing \<Rightarrow> packing res" where
  "pack_info e idx = (\<lambda>(offset, buf).
     bindE (write_at offset (spi_service_proc (sp_at idx e)) buf) (\<lambda>buf1.
     Inr (offset + sizeof_service_proc_t, buf1)))"

text \<open>The bytes of the block that \<open>malloc\<close> returns are arbitrary; it may fail.\<close>

definition pack_data_sps :: "(nat \<Rightarrow> u8) option \<Rightarrow> sp_engine_t \<Rightarrow> (dpu_offload_status_t \<times> nat \<times> sp_engine_t) res" where
  "pack_data_sps mem e =
     bindE (assertE (spe_on_dpu e)) (\<lambda>_.
     bindE (assertE (spe_buf_data_sps e = None)) (\<lambda>_.
     let payload_size = get_list_sps_packed_size e; n = spe_num_service_procs e in
     bindE (assertE (0 < payload_size)) (\<lambda>_.
     bindE (assertE (mem \<noteq> None)) (\<lambda>_.
     bindE (write_at 0 (le_bytes 8 n) (map (the mem) [0..<payload_size])) (\<lambda>buf.
     bindE (foldE (pack_len e) [0..<n] (sizeof_uint64_t, buf)) (\<lambda>s1.
     bindE (foldE (pack_addr e) [0..<n] s1) (\<lambda>s2.
     bindE (foldE (pack_info e) [0..<n] s2) (\<lambda>(offset, buf3).
     bindE (assertE (offset = payload_size)) (\<lambda>_.
     Inr (DO_SUCCESS, payload_size, e\<lparr>spe_buf_data_sps := Some buf3\<rparr>))))))))))"

text \<open>What the event system answers: whether there is an event, and the status of the emission.  The result is the
  status, the payload of the notification, if it was emitted, and the engine.\<close>

definition send_sp_data_to_host :: "bool \<Rightarrow> (nat \<Rightarrow> u8) option \<Rightarrow> bool \<Rightarrow> sp_engine_t
    \<Rightarrow> (dpu_offload_status_t \<times> u8 list option \<times> sp_engine_t) res" where
  "send_sp_data_to_host event_get_ok mem emit_ok e =
     bindE (assertE (spe_on_dpu e)) (\<lambda>_.
     if \<not> event_get_ok then Inr (DO_ERROR, None, e)
     else
       bindE (if spe_buf_data_sps e = None
              then bindE (pack_data_sps mem e) (\<lambda>(rc, payload_size, e1). Inr (payload_size, e1))
              else Inr (get_list_sps_packed_size e, e)) (\<lambda>(payload_size, e1).
       bindE (assertE (0 < payload_size)) (\<lambda>_.
       bindE (assertE (spe_buf_data_sps e1 \<noteq> None)) (\<lambda>_.
       bindE (read_at 0 payload_size (the (spe_buf_data_sps e1))) (\<lambda>payload.
       Inr (if emit_ok then (DO_SUCCESS, Some payload, e1) else (DO_ERROR, None, e1)))))))"

section \<open>Unpacking\<close>

type_synonym unpacking = "nat \<times> sp_engine_t"

definition unpack_len :: "u8 list \<Rightarrow> nat \<Rightarrow> unpacking \<Rightarrow> unpacking res" where
  "unpack_len buf idx = (\<lambda>(offset, e).
     bindE (read_at offset 8 buf) (\<lambda>val.
     Inr (offset + sizeof_uint64_t, put_sp idx ((sp_at idx e)\<lparr>spi_addr_len := le_nat val, spi_ep := None\<rparr>) e)))"

definition unpack_addr :: "u8 list \<Rightarrow> nat \<Rightarrow> unpacking \<Rightarrow> unpacking res" where
  "unpack_addr buf idx = (\<lambda>(offset, e).
     Inr (offset + spi_addr_len (sp_at idx e), put_sp idx ((sp_at idx e)\<lparr>spi_addr := Some (drop offset buf)\<rparr>) e))"

definition unpack_info :: "u8 list \<Rightarrow> nat \<Rightarrow> unpacking \<Rightarrow> unpacking res" where
  "unpack_info buf idx = (\<lambda>(offset, e).
     bindE (read_at offset sizeof_service_proc_t buf) (\<lambda>recvd_sp_info.
     Inr (offset + sizeof_service_proc_t, put_sp idx ((sp_at idx e)\<lparr>spi_service_proc := recvd_sp_info\<rparr>) e)))"

definition unpack_data_sps :: "u8 list \<Rightarrow> sp_engine_t \<Rightarrow> (dpu_offload_status_t \<times> sp_engine_t) res" where
  "unpack_data_sps buf e =
     bindE (read_at 0 8 buf) (\<lambda>val.
     let num_sps = le_nat val;
         e1 = (if \<not> spe_on_dpu e then e\<lparr>spe_num_service_procs := num_sps, spe_total_num_sps := num_sps\<rparr> else e) in
     bindE (foldE (unpack_len buf) [0..<num_sps] (sizeof_uint64_t, e1)) (\<lambda>s1.
     bindE (foldE (unpack_addr buf) [0..<num_sps] s1) (\<lambda>s2.
     bindE (foldE (unpack_info buf) [0..<num_sps] s2) (\<lambda>(offset, e2).
     Inr (DO_SUCCESS, e2)))))"

definition sp_data_recv_cb :: "bool \<Rightarrow> u8 list option \<Rightarrow> nat \<Rightarrow> sp_engine_t \<Rightarrow> (dpu_offload_status_t \<times> sp_engine_t) res" where
  "sp_data_recv_cb malloc_ok buf data_len e =
     bindE (assertE (0 < data_len)) (\<lambda>_.
     bindE (assertE (buf \<noteq> None)) (\<lambda>_.
     bindE (assertE (\<not> spe_on_dpu e)) (\<lambda>_.
     if spe_total_num_sps e \<noteq> 2 ^ 64 - 1 then Inr (DO_SUCCESS, e)
     else
       bindE (assertE (spe_host_dpu_data_initialized e)) (\<lambda>_.
       bindE (assertE (spe_buf_data_sps e = None)) (\<lambda>_.
       bindE (assertE malloc_ok) (\<lambda>_.
       bindE (read_at 0 data_len (the buf)) (\<lambda>copy.
       bindE (unpack_data_sps copy (e\<lparr>spe_buf_data_sps := Some copy\<rparr>)) (\<lambda>(rc, e1).
       bindE (assertE (0 < spe_total_num_sps e1)) (\<lambda>_.
       bindE (assertE (spe_total_num_sps e1 \<noteq> 2 ^ 64 - 1)) (\<lambda>_.
       Inr (DO_SUCCESS, e1)))))))))))"

section \<open>Endpoints of service processes\<close>

text \<open>\<open>ucp_ep_create\<close> is given the address by a pointer, without its length; the result is the endpoint or a failure.\<close>

definition get_remote_sp_ep_by_id :: "(u8 list \<Rightarrow> nat option) \<Rightarrow> nat \<Rightarrow> sp_engine_t
    \<Rightarrow> (dpu_offload_status_t \<times> nat option \<times> sp_engine_t) res" where
  "get_remote_sp_ep_by_id ucp_ep_create sp_id e =
     bindE (assertE (spe_total_num_sps e \<noteq> 2 ^ 64 - 1)) (\<lambda>_.
     if (if spe_on_dpu e then spe_num_service_procs e \<le> sp_id else spe_total_num_sps e \<le> sp_id)
     then Inr (DO_ERROR, None, e)
     else
       let sp = sp_at sp_id e in
       case spi_ep sp of
         Some ep \<Rightarrow> Inr (DO_SUCCESS, Some ep, e)
       | None \<Rightarrow>
           (case spi_addr sp of
              None \<Rightarrow> Inr (DO_SUCCESS, None, e)
            | Some addr \<Rightarrow>
                (case ucp_ep_create addr of
                   None \<Rightarrow> Inr (DO_ERROR, None, e)
                 | Some ep \<Rightarrow> Inr (DO_SUCCESS, Some ep, put_sp sp_id (sp\<lparr>spi_ep := Some ep\<rparr>) e))))"

definition ECONTEXT_FOR_SERVICE_PROC_COMMUNICATION :: "nat \<Rightarrow> sp_engine_t \<Rightarrow> nat option res" where
  "ECONTEXT_FOR_SERVICE_PROC_COMMUNICATION idx e =
     bindE (assertE (spe_on_dpu e)) (\<lambda>_. Inr (spi_econtext (sp_at idx e)))"

text \<open>The result is \<open>None\<close> when the endpoint cannot be created: the macro then returns from the function that uses it.\<close>

definition CREATE_SP_EP_FROM_SP_INFO :: "(u8 list \<Rightarrow> nat option) \<Rightarrow> sp_info_t \<Rightarrow> sp_info_t option" where
  "CREATE_SP_EP_FROM_SP_INFO ucp_ep_create sp =
     (case spi_addr sp of
        None \<Rightarrow> Some sp
      | Some addr \<Rightarrow> map_option (\<lambda>ep. sp\<lparr>spi_ep := Some ep\<rparr>) (ucp_ep_create addr))"

definition GET_REMOTE_SERVICE_PROC_EP_FROM_SP :: "(u8 list \<Rightarrow> nat option) \<Rightarrow> nat \<Rightarrow> sp_engine_t
    \<Rightarrow> (nat option \<times> sp_engine_t) option res" where
  "GET_REMOTE_SERVICE_PROC_EP_FROM_SP ucp_ep_create idx e =
     bindE (assertE (spe_on_dpu e)) (\<lambda>_.
     if idx \<le> spe_num_connected_service_procs e
     then Inr (map_option (\<lambda>sp. (spi_ep sp, put_sp idx sp e))
            (if spi_ep (sp_at idx e) = None then CREATE_SP_EP_FROM_SP_INFO ucp_ep_create (sp_at idx e) else Some (sp_at idx e)))
     else Inr (Some (None, e)))"

text \<open>The list of the associated service processes of a host is not reached: the macro asserts that it runs on a DPU.\<close>

definition GET_REMOTE_SERVICE_PROC_EP :: "(u8 list \<Rightarrow> nat option) \<Rightarrow> nat \<Rightarrow> sp_engine_t
    \<Rightarrow> (nat option \<times> sp_engine_t) option res" where
  "GET_REMOTE_SERVICE_PROC_EP ucp_ep_create idx e =
     (if spe_on_dpu e then GET_REMOTE_SERVICE_PROC_EP_FROM_SP ucp_ep_create idx e else Inl Assert_failed)"

definition GET_REMOTE_SERVICE_PROC_ECONTEXT :: "nat \<Rightarrow> sp_engine_t \<Rightarrow> nat option \<times> sp_engine_t" where
  "GET_REMOTE_SERVICE_PROC_ECONTEXT idx e =
     (if idx \<le> spe_num_connected_service_procs e then
        let sp = sp_at idx e;
            sp1 = (if spi_econtext sp = None \<and> idx = spe_local_sp_global_id e then sp\<lparr>spi_econtext := spe_self_econtext e\<rparr> else sp)
        in (spi_econtext sp1, put_sp idx sp1 e)
      else (None, e))"

text \<open>The type of an execution context is given by a function.  On a host the function aborts before it looks at the
  execution context, so only the list of the service processes is read.\<close>

definition get_sp_ep_by_id :: "(u8 list \<Rightarrow> nat option) \<Rightarrow> (nat \<Rightarrow> econtext_type) \<Rightarrow> nat \<Rightarrow> sp_engine_t
    \<Rightarrow> (dpu_offload_status_t \<times> (nat \<times> nat \<times> nat) option \<times> sp_engine_t) res" where
  "get_sp_ep_by_id ucp_ep_create ctx_type sp_id e =
     (if spe_num_service_procs e \<le> sp_id then Inr (DO_ERROR, None, e)
      else
        bindE (GET_REMOTE_SERVICE_PROC_EP ucp_ep_create sp_id e) (\<lambda>r.
        case r of
          None \<Rightarrow> Inr (DO_ERROR, None, e)
        | Some (sp_ep, e1) \<Rightarrow>
            (case GET_REMOTE_SERVICE_PROC_ECONTEXT sp_id e1 of (ctx, e2) \<Rightarrow>
             bindE (derefE ctx) (\<lambda>econtext.
             let comm_id = (case ctx_type econtext of
                    CONTEXT_SERVER \<Rightarrow> spi_client_id (sp_at sp_id e2)
                  | CONTEXT_CLIENT \<Rightarrow> sp_id
                  | CONTEXT_SELF \<Rightarrow> 0
                  | CONTEXT_UNKOWN \<Rightarrow> 2 ^ 64 - 1) in
             bindE (assertE (sp_id = spe_local_sp_global_id e2 \<longrightarrow> ctx = spe_self_econtext e2)) (\<lambda>_.
             bindE (assertE (sp_id = spe_local_sp_global_id e2 \<longrightarrow> comm_id = 0)) (\<lambda>_.
             bindE (assertE (sp_ep \<noteq> None)) (\<lambda>_.
             bindE (assertE (comm_id \<noteq> 2 ^ 64 - 1)) (\<lambda>_.
             Inr (DO_SUCCESS, Some (the sp_ep, econtext, comm_id), e2)))))))))"

end
