(* ===== verification/SP_Data_Properties.thy ===== *)
theory SP_Data_Properties
imports SP_Data
begin

text \<open>
  A host that unpacks what a service process packed knows the addresses and the descriptions of all service processes of
  the job, and gets an endpoint for each of them.  Asking for an associated service process aborts on hosts.
\<close>

section \<open>Integers and buffers\<close>

lemma le_bytes_length [simp]: "length (le_bytes k n) = k"
  by (induction k arbitrary: n) simp_all

lemma le_nat_bytes: "n < 256 ^ k \<Longrightarrow> le_nat (le_bytes k n) = n"
proof (induction k arbitrary: n)
  case (Suc k)
  have "n div 256 < 256 ^ k"
    using Suc.prems by (simp add: less_mult_imp_div_less mult.commute)
  moreover have "unat (of_nat (n mod 256) :: u8) = n mod 256"
    by (simp add: unat_of_nat)
  ultimately show ?case
    using Suc.IH by simp
qed simp

lemma read_at_middle: "length bs = n \<Longrightarrow> off = length pre \<Longrightarrow> read_at off n (pre @ bs @ post) = Inr bs"
  by (simp add: read_at_def)

text \<open>A loop over indices that runs through.\<close>

lemma foldE_upt_total:
  assumes "I 0 s" "\<And>i s. i < n \<Longrightarrow> I i s \<Longrightarrow> \<exists>s'. f i s = Inr s' \<and> I (Suc i) s'"
  shows "\<exists>t. foldE f [0..<n] s = Inr t \<and> I n t"
  using assms(2)
proof (induction n)
  case 0
  then show ?case using assms(1) by simp
next
  case (Suc n)
  then obtain t where "foldE f [0..<n] s = Inr t" "I n t"
    by auto
  with Suc.prems[of n t] show ?case
    by (auto simp: foldE_append)
qed

lemma concat_upt_Suc: "concat (map g [0..<Suc i]) = concat (map g [0..<i]) @ g i"
  by simp

lemma concat_upt_split: "i < n \<Longrightarrow> concat (map g [0..<n]) = concat (map g [0..<i]) @ g i @ concat (map g [Suc i..<n])"
proof -
  assume "i < n"
  then have "[0..<n] = [0..<i] @ i # [Suc i..<n]"
    using upt_add_eq_append[of 0 i "n - i"] upt_conv_Cons[of i n] by simp
  then show ?thesis
    by simp
qed

text \<open>A buffer of which the first bytes are written.\<close>

definition written :: "nat \<Rightarrow> u8 list \<Rightarrow> packing \<Rightarrow> bool" where
  "written len pre = (\<lambda>(offset, buf). length buf = len \<and> offset = length pre \<and> take offset buf = pre)"

lemma write_at_written:
  assumes "written len pre (offset, buf)" "length pre + length bs \<le> len"
  shows "\<exists>buf'. write_at offset bs buf = Inr buf' \<and> written len (pre @ bs) (offset + length bs, buf')"
  using assms by (auto simp: written_def write_at_def)

lemma write_loop:
  assumes "written len pre s" "\<And>i offset buf. i < n \<Longrightarrow> f i (offset, buf) = bindE (write_at offset (g i) buf) (\<lambda>buf'. Inr (offset + length (g i), buf'))"
    and "length pre + length (concat (map g [0..<n])) \<le> len"
  shows "\<exists>t. foldE f [0..<n] s = Inr t \<and> written len (pre @ concat (map g [0..<n])) t"
proof (rule foldE_upt_total)
  show "written len (pre @ concat (map g [0..<0])) s"
    using assms(1) by simp
  fix i s assume i: "i < n" and w: "written len (pre @ concat (map g [0..<i])) s"
  obtain offset buf where s: "s = (offset, buf)" by (cases s)
  have "length (pre @ concat (map g [0..<i])) + length (g i) \<le> len"
    using assms(3) unfolding concat_upt_split[OF i] by simp
  from write_at_written[OF w[unfolded s] this] show "\<exists>s'. f i s = Inr s' \<and> written len (pre @ concat (map g [0..<Suc i])) s'"
    unfolding s assms(2)[OF i] concat_upt_Suc by auto
qed

section \<open>Packing\<close>

text \<open>The address of a service process, and what has to hold of the service processes of an engine.\<close>

definition sp_addr :: "sp_info_t \<Rightarrow> u8 list" where
  "sp_addr sp = take (spi_addr_len sp) (the (spi_addr sp))"

definition sp_ok :: "sp_info_t \<Rightarrow> bool" where
  "sp_ok sp = (0 < spi_addr_len sp \<and> (case spi_addr sp of None \<Rightarrow> False | Some a \<Rightarrow> spi_addr_len sp \<le> length a)
     \<and> length (spi_service_proc sp) = sizeof_service_proc_t)"

definition sps_size :: "sp_engine_t \<Rightarrow> nat" where
  "sps_size e = 8 + (\<Sum>i\<in>{..<spe_num_service_procs e}. 48 + spi_addr_len (sp_at i e))"

definition sps_ok :: "sp_engine_t \<Rightarrow> bool" where
  "sps_ok e = (0 < spe_num_service_procs e \<and> (\<forall>i < spe_num_service_procs e. sp_ok (sp_at i e)) \<and> sps_size e < 2 ^ 64)"

definition lens_of :: "sp_engine_t \<Rightarrow> u8 list" where
  "lens_of e = concat (map (\<lambda>i. le_bytes 8 (spi_addr_len (sp_at i e))) [0..<spe_num_service_procs e])"

definition addrs_of :: "sp_engine_t \<Rightarrow> u8 list" where
  "addrs_of e = concat (map (\<lambda>i. sp_addr (sp_at i e)) [0..<spe_num_service_procs e])"

definition infos_of :: "sp_engine_t \<Rightarrow> u8 list" where
  "infos_of e = concat (map (\<lambda>i. spi_service_proc (sp_at i e)) [0..<spe_num_service_procs e])"

text \<open>The message as a whole.\<close>

definition sps_bytes :: "sp_engine_t \<Rightarrow> u8 list" where
  "sps_bytes e = le_bytes 8 (spe_num_service_procs e) @ lens_of e @ addrs_of e @ infos_of e"

lemma sp_okD:
  assumes "sp_ok sp"
  shows "0 < spi_addr_len sp" "spi_addr sp \<noteq> None" "spi_addr_len sp \<le> length (the (spi_addr sp))"
    "length (sp_addr sp) = spi_addr_len sp" "length (spi_service_proc sp) = 40"
  using assms by (auto simp: sp_ok_def sp_addr_def sizeof_service_proc_t_def split: option.splits)

lemma length_concat_upt: "length (concat (map g [0..<n])) = (\<Sum>i\<in>{..<n}. length (g i))"
  by (induction n) simp_all

lemma part_lengths:
  assumes "sps_ok e"
  shows "length (lens_of e) = 8 * spe_num_service_procs e"
    "length (addrs_of e) = (\<Sum>i\<in>{..<spe_num_service_procs e}. spi_addr_len (sp_at i e))"
    "length (infos_of e) = 40 * spe_num_service_procs e"
  using assms by (simp_all add: lens_of_def addrs_of_def infos_of_def length_concat_upt sps_ok_def sp_okD)

lemma sps_size_sum: "sps_size e = 8 + 48 * spe_num_service_procs e + (\<Sum>i\<in>{..<spe_num_service_procs e}. spi_addr_len (sp_at i e))"
  by (simp add: sps_size_def sum.distrib)

lemma sps_bytes_length: "sps_ok e \<Longrightarrow> length (sps_bytes e) = sps_size e"
  by (simp add: sps_bytes_def part_lengths sps_size_sum)

lemma packed_size:
  assumes "sps_ok e"
  shows "get_list_sps_packed_size e = sps_size e"
proof -
  have "fold (\<lambda>idx sz. sz + f idx) [0..<n] s = s + (\<Sum>i\<in>{..<n}. f i)" for f :: "nat \<Rightarrow> nat" and n s
    by (induction n) simp_all
  then show ?thesis
    using assms by (simp add: get_list_sps_packed_size_def sizeof_uint64_t_def sizeof_service_proc_t_def sps_ok_def sps_size_sum)
qed

lemma pack_data_sps_spec:
  assumes ok: "sps_ok e" and e: "spe_on_dpu e" "spe_buf_data_sps e = None"
  shows "pack_data_sps (Some m) e = Inr (DO_SUCCESS, sps_size e, e\<lparr>spe_buf_data_sps := Some (sps_bytes e)\<rparr>)"
proof -
  let ?n = "spe_num_service_procs e" and ?S = "sps_size e"
  have sp: "sp_ok (sp_at i e)" if "i < ?n" for i
    using ok that by (simp add: sps_ok_def)
  note plen = part_lengths[OF ok] sps_size_sum[of e]
  have "written ?S [] (0, map m [0..<?S])"
    by (simp add: written_def)
  from write_at_written[OF this, of "le_bytes 8 ?n"] obtain buf where
    w: "write_at 0 (le_bytes 8 ?n) (map m [0..<?S]) = Inr buf" "written ?S (le_bytes 8 ?n) (8, buf)"
    by (auto simp: plen)
  obtain s1 where 1: "foldE (pack_len e) [0..<?n] (8, buf) = Inr s1" "written ?S (le_bytes 8 ?n @ lens_of e) s1"
    using write_loop[OF w(2), of ?n "pack_len e" "\<lambda>i. le_bytes 8 (spi_addr_len (sp_at i e))"] sp_okD[OF sp] plen
    by (auto simp: pack_len_def lens_of_def sizeof_uint64_t_def length_concat_upt)
  have "pack_addr e i (offset, b) = bindE (write_at offset (sp_addr (sp_at i e)) b) (\<lambda>b'. Inr (offset + length (sp_addr (sp_at i e)), b'))"
    if "i < ?n" for i offset b
    using sp_okD[OF sp[OF that]] by (simp add: pack_addr_def read_at_def sp_addr_def)
  from write_loop[OF 1(2), of ?n "pack_addr e" "\<lambda>i. sp_addr (sp_at i e)", OF this] obtain s2 where
    2: "foldE (pack_addr e) [0..<?n] s1 = Inr s2" "written ?S (le_bytes 8 ?n @ lens_of e @ addrs_of e) s2"
    using plen by (auto simp: addrs_of_def[symmetric])
  obtain s3 where 3: "foldE (pack_info e) [0..<?n] s2 = Inr s3" "written ?S (sps_bytes e) s3"
    using write_loop[OF 2(2), of ?n "pack_info e" "\<lambda>i. spi_service_proc (sp_at i e)"] sp_okD(5)[OF sp] plen
    by (auto simp: pack_info_def infos_of_def[symmetric] sizeof_service_proc_t_def sps_bytes_def)
  have s3: "s3 = (?S, sps_bytes e)"
    using 3(2) sps_bytes_length[OF ok] by (cases s3) (auto simp: written_def)
  have "0 < ?S"
    by (simp add: sps_size_def)
  then show ?thesis
    using e w(1) 1(1) 2(1) 3(1) s3 by (simp add: pack_data_sps_def packed_size[OF ok] sizeof_uint64_t_def)
qed

lemma send_sp_data_spec:
  assumes "sps_ok e" "spe_on_dpu e" "spe_buf_data_sps e = None \<or> spe_buf_data_sps e = Some (sps_bytes e)"
  shows "send_sp_data_to_host True (Some m) True e = Inr (DO_SUCCESS, Some (sps_bytes e), e\<lparr>spe_buf_data_sps := Some (sps_bytes e)\<rparr>)"
proof -
  have "0 < sps_size e" "read_at 0 (sps_size e) (sps_bytes e) = Inr (sps_bytes e)"
    using sps_bytes_length[OF assms(1)] by (simp_all add: sps_size_def read_at_def)
  then show ?thesis
    using assms by (auto simp: send_sp_data_to_host_def pack_data_sps_spec packed_size)
qed

section \<open>Unpacking\<close>

lemma sp_at_put [simp]: "sp_at j (put_sp i sp e) = (if j = i then sp else sp_at j e)"
  by (simp add: sp_at_def put_sp_def arr_get_put)

lemma put_sp_simps [simp]:
  "spe_on_dpu (put_sp i sp e) = spe_on_dpu e" "spe_num_service_procs (put_sp i sp e) = spe_num_service_procs e"
  "spe_total_num_sps (put_sp i sp e) = spe_total_num_sps e"
  by (simp_all add: put_sp_def)

text \<open>The first service processes have been read from a buffer, up to a member each.\<close>

definition lens_read :: "sp_engine_t \<Rightarrow> sp_engine_t \<Rightarrow> nat \<Rightarrow> unpacking \<Rightarrow> bool" where
  "lens_read e h1 k = (\<lambda>(offset, h). offset = 8 + 8 * k \<and> spe_num_service_procs h = spe_num_service_procs h1
     \<and> spe_total_num_sps h = spe_total_num_sps h1 \<and> spe_on_dpu h = spe_on_dpu h1
     \<and> (\<forall>i < k. spi_addr_len (sp_at i h) = spi_addr_len (sp_at i e) \<and> spi_ep (sp_at i h) = None))"

definition addrs_read :: "sp_engine_t \<Rightarrow> sp_engine_t \<Rightarrow> nat \<Rightarrow> unpacking \<Rightarrow> bool" where
  "addrs_read e h1 k = (\<lambda>(offset, h).
     offset = 8 + 8 * spe_num_service_procs e + length (concat (map (\<lambda>i. sp_addr (sp_at i e)) [0..<k]))
     \<and> (\<exists>off. lens_read e h1 (spe_num_service_procs e) (off, h)) \<and> (\<forall>i < k. sp_addr (sp_at i h) = sp_addr (sp_at i e) \<and> (\<exists>rest. spi_addr (sp_at i h) = Some (sp_addr (sp_at i e) @ rest))))"

definition infos_read :: "sp_engine_t \<Rightarrow> sp_engine_t \<Rightarrow> nat \<Rightarrow> unpacking \<Rightarrow> bool" where
  "infos_read e h1 k = (\<lambda>(offset, h). offset = 8 + 8 * spe_num_service_procs e + length (addrs_of e) + 40 * k
     \<and> (\<exists>off. addrs_read e h1 (spe_num_service_procs e) (off, h)) \<and> (\<forall>i < k. spi_service_proc (sp_at i h) = spi_service_proc (sp_at i e)))"

lemma unpack_lens:
  assumes ok: "sps_ok e" and s: "lens_read e h1 0 s"
  shows "\<exists>t. foldE (unpack_len (sps_bytes e)) [0..<spe_num_service_procs e] s = Inr t \<and> lens_read e h1 (spe_num_service_procs e) t"
proof (rule foldE_upt_total[where I = "lens_read e h1", OF s])
  let ?n = "spe_num_service_procs e" and ?g = "\<lambda>i. le_bytes 8 (spi_addr_len (sp_at i e))"
  fix k s assume k: "k < ?n" and r: "lens_read e h1 k s"
  obtain offset h where sh: "s = (offset, h)" by (cases s)
  have off: "offset = length (le_bytes 8 ?n @ concat (map ?g [0..<k]))"
    using r by (simp add: sh lens_read_def length_concat_upt)
  have "sps_bytes e = (le_bytes 8 ?n @ concat (map ?g [0..<k])) @ ?g k @ concat (map ?g [Suc k..<?n]) @ addrs_of e @ infos_of e"
    unfolding sps_bytes_def lens_of_def concat_upt_split[OF k] by simp
  then have rd: "read_at offset 8 (sps_bytes e) = Inr (?g k)"
    using read_at_middle[OF _ off, of "?g k" 8] by simp
  have "spi_addr_len (sp_at k e) \<le> sps_size e"
    using k member_le_sum[of k "{..<?n}" "\<lambda>i. spi_addr_len (sp_at i e)"] by (simp add: sps_size_sum)
  then have "le_nat (?g k) = spi_addr_len (sp_at k e)"
    using ok by (intro le_nat_bytes) (simp add: sps_ok_def)
  then show "\<exists>s'. unpack_len (sps_bytes e) k s = Inr s' \<and> lens_read e h1 (Suc k) s'"
    using r rd by (simp add: sh unpack_len_def lens_read_def sizeof_uint64_t_def less_Suc_eq)
qed

lemma unpack_addrs:
  assumes ok: "sps_ok e" and s: "lens_read e h1 (spe_num_service_procs e) s"
  shows "\<exists>t. foldE (unpack_addr (sps_bytes e)) [0..<spe_num_service_procs e] s = Inr t \<and> addrs_read e h1 (spe_num_service_procs e) t"
proof (rule foldE_upt_total[where I = "addrs_read e h1"])
  let ?n = "spe_num_service_procs e" and ?g = "\<lambda>i. sp_addr (sp_at i e)"
  show "addrs_read e h1 0 s"
    using s by (cases s) (auto simp: addrs_read_def lens_read_def)
  fix k s assume k: "k < ?n" and r: "addrs_read e h1 k s"
  obtain offset h where sh: "s = (offset, h)" by (cases s)
  define pre where "pre = le_bytes 8 ?n @ lens_of e @ concat (map ?g [0..<k])"
  define post where "post = concat (map ?g [Suc k..<?n]) @ infos_of e"
  have "sps_bytes e = pre @ ?g k @ post"
    unfolding sps_bytes_def addrs_of_def concat_upt_split[OF k] pre_def post_def by simp
  moreover have "offset = length pre"
    using r by (simp add: sh addrs_read_def pre_def part_lengths[OF ok])
  ultimately have drop: "drop offset (sps_bytes e) = ?g k @ post"
    by simp
  have len: "spi_addr_len (sp_at k h) = spi_addr_len (sp_at k e)" "length (?g k) = spi_addr_len (sp_at k e)"
    using r k ok by (auto simp: sh addrs_read_def lens_read_def sps_ok_def sp_okD)
  define h' where "h' = put_sp k ((sp_at k h)\<lparr>spi_addr := Some (drop offset (sps_bytes e))\<rparr>) h"
  have "addrs_read e h1 (Suc k) (offset + spi_addr_len (sp_at k h), h')"
    using r len k drop by (auto simp: sh addrs_read_def lens_read_def h'_def sp_addr_def[of "_\<lparr>spi_addr := _\<rparr>"] less_Suc_eq)
  then show "\<exists>s'. unpack_addr (sps_bytes e) k s = Inr s' \<and> addrs_read e h1 (Suc k) s'"
    by (simp add: sh unpack_addr_def h'_def)
qed

lemma unpack_infos:
  assumes ok: "sps_ok e" and s: "addrs_read e h1 (spe_num_service_procs e) s"
  shows "\<exists>t. foldE (unpack_info (sps_bytes e)) [0..<spe_num_service_procs e] s = Inr t \<and> infos_read e h1 (spe_num_service_procs e) t"
proof (rule foldE_upt_total[where I = "infos_read e h1"])
  let ?n = "spe_num_service_procs e" and ?g = "\<lambda>i. spi_service_proc (sp_at i e)"
  show "infos_read e h1 0 s"
    using s by (cases s) (auto simp: infos_read_def addrs_read_def addrs_of_def)
  fix k s assume k: "k < ?n" and r: "infos_read e h1 k s"
  obtain offset h where sh: "s = (offset, h)" by (cases s)
  define pre where "pre = le_bytes 8 ?n @ lens_of e @ addrs_of e @ concat (map ?g [0..<k])"
  have sp: "length (?g i) = 40" if "i < ?n" for i
    using ok that by (simp add: sps_ok_def sp_okD)
  have "sps_bytes e = pre @ ?g k @ concat (map ?g [Suc k..<?n])"
    unfolding sps_bytes_def infos_of_def concat_upt_split[OF k] pre_def by simp
  moreover have "offset = length pre"
    using r k sp by (simp add: sh infos_read_def pre_def part_lengths(1)[OF ok] length_concat_upt)
  ultimately have rd: "read_at offset 40 (sps_bytes e) = Inr (?g k)"
    using read_at_middle[of "?g k" 40 offset pre] sp[OF k] by simp
  define h' where "h' = put_sp k ((sp_at k h)\<lparr>spi_service_proc := ?g k\<rparr>) h"
  have "infos_read e h1 (Suc k) (offset + 40, h')"
    using r by (auto simp: sh infos_read_def addrs_read_def lens_read_def h'_def sp_addr_def[of "_\<lparr>spi_service_proc := _\<rparr>"] sp_addr_def less_Suc_eq)
  then show "\<exists>s'. unpack_info (sps_bytes e) k s = Inr s' \<and> infos_read e h1 (Suc k) s'"
    using rd by (simp add: sh unpack_info_def h'_def sizeof_service_proc_t_def)
qed

text \<open>What a host knows after it received the message of a service process.\<close>

definition knows_sps :: "sp_engine_t \<Rightarrow> sp_engine_t \<Rightarrow> bool" where
  "knows_sps e h = (spe_num_service_procs h = spe_num_service_procs e \<and> spe_total_num_sps h = spe_num_service_procs e
     \<and> (\<forall>i < spe_num_service_procs e. sp_addr (sp_at i h) = sp_addr (sp_at i e)
          \<and> spi_service_proc (sp_at i h) = spi_service_proc (sp_at i e) \<and> spi_ep (sp_at i h) = None
          \<and> (\<exists>rest. spi_addr (sp_at i h) = Some (sp_addr (sp_at i e) @ rest))))"

lemma sp_data_recv_spec:
  assumes ok: "sps_ok e" and h: "\<not> spe_on_dpu h" "spe_buf_data_sps h = None" "spe_host_dpu_data_initialized h" "spe_total_num_sps h = 2 ^ 64 - 1"
  shows "\<exists>h'. sp_data_recv_cb True (Some (sps_bytes e)) (length (sps_bytes e)) h = Inr (DO_SUCCESS, h') \<and> knows_sps e h' \<and> \<not> spe_on_dpu h'"
proof -
  let ?n = "spe_num_service_procs e" and ?b = "sps_bytes e"
  have n: "0 < ?n" "?n < 2 ^ 64 - 1"
    using ok by (auto simp: sps_ok_def sps_size_sum)
  define h1 where "h1 = h\<lparr>spe_buf_data_sps := Some ?b, spe_num_service_procs := ?n, spe_total_num_sps := ?n\<rparr>"
  have 0: "read_at 0 8 ?b = Inr (le_bytes 8 ?n)" "le_nat (le_bytes 8 ?n) = ?n"
    using n(2) by (simp_all add: sps_bytes_def read_at_def le_nat_bytes)
  have "lens_read e h1 0 (8, h1)"
    by (simp add: lens_read_def)
  from unpack_lens[OF ok this] obtain s1 where 1: "foldE (unpack_len ?b) [0..<?n] (8, h1) = Inr s1" "lens_read e h1 ?n s1"
    by blast
  from unpack_addrs[OF ok 1(2)] obtain s2 where 2: "foldE (unpack_addr ?b) [0..<?n] s1 = Inr s2" "addrs_read e h1 ?n s2"
    by blast
  from unpack_infos[OF ok 2(2)] obtain off h' where 3: "foldE (unpack_info ?b) [0..<?n] s2 = Inr (off, h')" "infos_read e h1 ?n (off, h')"
    by auto
  have u: "unpack_data_sps ?b (h\<lparr>spe_buf_data_sps := Some ?b\<rparr>) = Inr (DO_SUCCESS, h')"
    using 0 1(1) 2(1) 3(1) h(1) by (simp add: unpack_data_sps_def h1_def sizeof_uint64_t_def)
  have k: "knows_sps e h'" "\<not> spe_on_dpu h'"
    using 3(2) h(1) by (auto simp: infos_read_def addrs_read_def lens_read_def knows_sps_def h1_def)
  have "0 < length ?b" "read_at 0 (length ?b) ?b = Inr ?b"
    by (simp_all add: sps_bytes_def read_at_def)
  with u k n h show ?thesis
    by (auto simp: sp_data_recv_cb_def knows_sps_def)
qed

section \<open>Hosts reach every service process\<close>

lemma get_remote_sp_ep_known:
  assumes "knows_sps e h" "\<not> spe_on_dpu h" "i < spe_num_service_procs e" "spe_num_service_procs e < 2 ^ 64 - 1"
    and "\<forall>rest. ucp_ep_create (sp_addr (sp_at i e) @ rest) = Some ep"
  shows "\<exists>h'. get_remote_sp_ep_by_id ucp_ep_create i h = Inr (DO_SUCCESS, Some ep, h') \<and> get_remote_sp_ep_by_id other i h' = Inr (DO_SUCCESS, Some ep, h')"
proof -
  obtain rest where sp: "spi_ep (sp_at i h) = None" "spi_addr (sp_at i h) = Some (sp_addr (sp_at i e) @ rest)" "spe_total_num_sps h = spe_num_service_procs e"
    using assms(1,3) by (auto simp: knows_sps_def)
  with assms(2-5) show ?thesis
    by (simp add: get_remote_sp_ep_by_id_def Let_def)
qed

text \<open>C14: what a service process sends about the service processes of the job arrives: packing succeeds and is done once, a
  host that has not got the data yet unpacks the message and knows as many service processes as the sender, with
  the same addresses and descriptions, and when it asks for the endpoint of one of them the endpoint is created from the
  address that the sender has for it, and kept.  The addresses have to be such that their end can be found in them, as
  UCX is not told their length, and the message has to fit in 64 bits.\<close>

theorem host_reaches_every_sp:
  assumes "sps_ok e" "spe_on_dpu e" "spe_buf_data_sps e = None"
    and "\<not> spe_on_dpu h" "spe_buf_data_sps h = None" "spe_host_dpu_data_initialized h" "spe_total_num_sps h = 2 ^ 64 - 1"
  shows "\<exists>payload e' h'. send_sp_data_to_host True (Some mem) True e = Inr (DO_SUCCESS, Some payload, e')
    \<and> send_sp_data_to_host True (Some mem') True e' = Inr (DO_SUCCESS, Some payload, e')
    \<and> sp_data_recv_cb True (Some payload) (length payload) h = Inr (DO_SUCCESS, h')
    \<and> sp_data_recv_cb True (Some payload) (length payload) h' = Inr (DO_SUCCESS, h')
    \<and> spe_num_service_procs h' = spe_num_service_procs e
    \<and> (\<forall>i < spe_num_service_procs e. spi_service_proc (sp_at i h') = spi_service_proc (sp_at i e) \<and> sp_addr (sp_at i h') = sp_addr (sp_at i e)
         \<and> (\<forall>ucp_ep_create other ep. (\<forall>rest. ucp_ep_create (sp_addr (sp_at i e) @ rest) = Some ep)
              \<longrightarrow> (\<exists>h2. get_remote_sp_ep_by_id ucp_ep_create i h' = Inr (DO_SUCCESS, Some ep, h2)
                       \<and> get_remote_sp_ep_by_id other i h2 = Inr (DO_SUCCESS, Some ep, h2))))"
proof -
  define e' where "e' = e\<lparr>spe_buf_data_sps := Some (sps_bytes e)\<rparr>"
  have at: "sp_at i e' = sp_at i e" for i
    by (simp add: e'_def sp_at_def)
  have eq: "sps_bytes e' = sps_bytes e" "spe_num_service_procs e' = spe_num_service_procs e"
    unfolding sps_bytes_def lens_of_def addrs_of_def infos_of_def at by (simp_all add: e'_def)
  have e': "sps_ok e'" "sps_bytes e' = sps_bytes e" "spe_on_dpu e'" "spe_buf_data_sps e' = Some (sps_bytes e')"
    using assms(1,2) eq by (simp_all add: sps_ok_def sps_size_def at) (simp_all add: e'_def)
  have send: "send_sp_data_to_host True (Some mem) True e = Inr (DO_SUCCESS, Some (sps_bytes e), e')"
    "send_sp_data_to_host True (Some mem') True e' = Inr (DO_SUCCESS, Some (sps_bytes e), e')"
    using send_sp_data_spec[OF assms(1,2)] assms(3) send_sp_data_spec[OF e'(1,3)] e'(2,4) by (simp_all add: e'_def)
  from sp_data_recv_spec[OF assms(1,4-7)] obtain h' where
    h': "sp_data_recv_cb True (Some (sps_bytes e)) (length (sps_bytes e)) h = Inr (DO_SUCCESS, h')" "knows_sps e h'" "\<not> spe_on_dpu h'"
    by blast
  have n: "spe_num_service_procs e < 2 ^ 64 - 1"
    using assms(1) by (auto simp: sps_ok_def sps_size_sum)
  have "sp_data_recv_cb True (Some (sps_bytes e)) (length (sps_bytes e)) h' = Inr (DO_SUCCESS, h')"
    using h'(2,3) n by (simp add: sp_data_recv_cb_def knows_sps_def sps_bytes_def)
  moreover have "spe_num_service_procs h' = spe_num_service_procs e"
    "\<forall>i < spe_num_service_procs e. spi_service_proc (sp_at i h') = spi_service_proc (sp_at i e) \<and> sp_addr (sp_at i h') = sp_addr (sp_at i e)"
    using h'(2) by (simp_all add: knows_sps_def)
  ultimately show ?thesis
    using send h'(1) get_remote_sp_ep_known[OF h'(2,3) _ n] by blast
qed

text \<open>Two service processes, with addresses whose first byte is their length.\<close>

definition demo_sp :: "u8 list \<Rightarrow> u8 \<Rightarrow> sp_info_t" where
  "demo_sp a x = zero_sp_info\<lparr>spi_addr := Some a, spi_addr_len := length a, spi_service_proc := replicate 40 x\<rparr>"

definition demo_dpu :: sp_engine_t where
  "demo_dpu = \<lparr>spe_on_dpu = True, spe_num_service_procs = 2, spe_total_num_sps = 0, spe_host_dpu_data_initialized = True,
     spe_buf_data_sps = None, spe_service_procs = [demo_sp [2, 7] 5, demo_sp [3, 8, 9] 6],
     spe_num_connected_service_procs = 2, spe_local_sp_global_id = 0, spe_self_econtext = Some 0\<rparr>"

definition demo_host :: sp_engine_t where
  "demo_host = RESET_HOST_ENGINE \<lparr>spe_on_dpu = False, spe_num_service_procs = 0, spe_total_num_sps = 0, spe_host_dpu_data_initialized = False,
     spe_buf_data_sps = None, spe_service_procs = [], spe_num_connected_service_procs = 0, spe_local_sp_global_id = 0, spe_self_econtext = None\<rparr>"

definition demo_ep_create :: "u8 list \<Rightarrow> nat option" where
  "demo_ep_create bs = (case bs of [] \<Rightarrow> None | b # bs \<Rightarrow> Some (le_nat (take (unat b - 1) bs)))"

theorem host_reaches_every_sp_witness:
  "\<exists>payload e' h' h2. send_sp_data_to_host True (Some (\<lambda>_. 0)) True demo_dpu = Inr (DO_SUCCESS, Some payload, e')
     \<and> sp_data_recv_cb True (Some payload) (length payload) demo_host = Inr (DO_SUCCESS, h')
     \<and> get_remote_sp_ep_by_id demo_ep_create 1 h' = Inr (DO_SUCCESS, Some 2312, h2)"
proof -
  have at: "sp_at 0 demo_dpu = demo_sp [2, 7] 5" "sp_at (Suc 0) demo_dpu = demo_sp [3, 8, 9] 6"
    by (simp_all add: sp_at_def demo_dpu_def arr_get_def)
  have two: "spe_num_service_procs demo_dpu = Suc (Suc 0)"
    by (simp add: demo_dpu_def)
  have "sps_ok demo_dpu"
    unfolding sps_ok_def sps_size_sum two
    by (auto simp: at less_Suc_eq lessThan_Suc demo_sp_def sp_ok_def zero_sp_info_def sizeof_service_proc_t_def)
  moreover have "demo_ep_create (sp_addr (sp_at 1 demo_dpu) @ rest) = Some 2312" for rest
    by (simp add: at demo_sp_def sp_addr_def demo_ep_create_def)
  moreover have "spe_on_dpu demo_dpu" "spe_buf_data_sps demo_dpu = None" "\<not> spe_on_dpu demo_host" "spe_buf_data_sps demo_host = None"
    "spe_host_dpu_data_initialized demo_host" "spe_total_num_sps demo_host = 2 ^ 64 - 1" "1 < spe_num_service_procs demo_dpu"
    by (simp_all add: demo_dpu_def demo_host_def RESET_HOST_ENGINE_def)
  ultimately show ?thesis
    using host_reaches_every_sp[of demo_dpu demo_host "\<lambda>_. 0" "\<lambda>_. 0"] by blast
qed

end
