(* ===== verification/Termination.thy ===== *)
theory Termination
imports Bootstrap_Clients
begin

text \<open>
  How a job ends (\<open>src/src/dpu_offload_service_daemon.c\<close>, \<open>src/src/dpu_offload_event_channels.c\<close>,
  \<open>src/src/inter_dpus_comm.c\<close>): a client sends a termination message to its server and is done when the send
  completed; a server is done when its last client left.  When the server of the hosts of a service process is done,
  the service process leaves the servers of the other service processes.
\<close>

section \<open>State\<close>

datatype mimosa_engine_state_t = MIMOSA_ENGINE_STATE_INITIALIZED | MIMOSA_ENGINE_STATE_TERMINATED

text \<open>The client of an execution context: pointers are allocated or NULL; of the event of the termination message it
  is kept whether it is completed.\<close>

record term_client_t =
  tcl_listener :: bool
  tcl_server_ep :: bool
  tcl_sock :: int
  tcl_addr_msg_str :: bool
  tcl_peer_addr :: bool
  tcl_local_addr :: bool
  tcl_done :: bool
  tcl_term_ev :: "bool option"

text \<open>The execution contexts of clients: the one for bootstrapping on a host, and those for the other service processes on
  a DPU; NULL is \<open>None\<close>.  The servers of the list of the engine are never NULL.\<close>

record term_engine_t =
  te_on_dpu :: bool
  te_state :: mimosa_engine_state_t
  te_clients_num_active :: nat
  te_servers_num_active :: nat
  te_servers :: "server_t list"
  te_bootstrap :: "term_client_t option"
  te_inter_sp_clients :: "term_client_t option list"

datatype client_ref = Bootstrap_client | Inter_sp_client nat

fun client_of :: "client_ref \<Rightarrow> term_engine_t \<Rightarrow> term_client_t option" where
  "client_of Bootstrap_client e = te_bootstrap e"
| "client_of (Inter_sp_client i) e = (if i < length (te_inter_sp_clients e) then te_inter_sp_clients e ! i else None)"

fun put_client_of :: "client_ref \<Rightarrow> term_client_t option \<Rightarrow> term_engine_t \<Rightarrow> term_engine_t" where
  "put_client_of Bootstrap_client c e = e\<lparr>te_bootstrap := c\<rparr>"
| "put_client_of (Inter_sp_client i) c e = e\<lparr>te_inter_sp_clients := (te_inter_sp_clients e)[i := c]\<rparr>"

section \<open>The state of the engine\<close>

text \<open>The client and the execution context are freed; the entry is NULL afterwards.\<close>

definition free_inter_sp_client :: "nat \<Rightarrow> term_engine_t \<Rightarrow> term_engine_t res" where
  "free_inter_sp_client idx e =
     bindE (derefE (client_of (Inter_sp_client idx) e)) (\<lambda>_. Inr (put_client_of (Inter_sp_client idx) None e))"

definition update_engine_state :: "term_engine_t \<Rightarrow> term_engine_t res" where
  "update_engine_state e =
     (if te_clients_num_active e = 0 \<and> te_servers_num_active e = 0 then
        bindE (if te_on_dpu e then foldE free_inter_sp_client [0..<length (te_inter_sp_clients e)] e else Inr e) (\<lambda>e1.
        Inr (e1\<lparr>te_state := MIMOSA_ENGINE_STATE_TERMINATED\<rparr>))
      else Inr e)"

section \<open>Leaving a server\<close>

text \<open>What the event system answers: no event or a failed emission, or an event that is or is not yet completed.  The
  event is managed by the caller, so a send that completed is reported as in progress.\<close>

definition send_term_msg :: "unit answer \<Rightarrow> term_client_t \<Rightarrow> dpu_offload_status_t \<times> term_client_t" where
  "send_term_msg ans c =
     (case ans of
        Failed \<Rightarrow> (DO_ERROR, c)
      | Later \<Rightarrow> (DO_SUCCESS, c\<lparr>tcl_term_ev := Some False\<rparr>)
      | Now _ \<Rightarrow> (DO_SUCCESS, c\<lparr>tcl_term_ev := Some True\<rparr>))"

definition client_fini_nb :: "unit answer \<Rightarrow> client_ref \<Rightarrow> term_engine_t \<Rightarrow> term_engine_t res" where
  "client_fini_nb ans r e =
     bindE (derefE (client_of r e)) (\<lambda>c.
     case send_term_msg ans c of (rc, c1) \<Rightarrow>
       if rc \<noteq> DO_SUCCESS then Inr e
       else bindE (assertE (tcl_term_ev c1 \<noteq> None)) (\<lambda>_. Inr (put_client_of r (Some c1) e)))"

definition disconnect_to_service_procs :: "(nat \<Rightarrow> unit answer) \<Rightarrow> term_engine_t \<Rightarrow> term_engine_t res" where
  "disconnect_to_service_procs ans e =
     foldE (\<lambda>idx. client_fini_nb (ans idx) (Inter_sp_client idx)) [0..<length (te_inter_sp_clients e)] e"

text \<open>The part of \<open>term_notification_completed\<close> that frees what bootstrapping allocated.\<close>

definition release_bootstrap :: "term_client_t \<Rightarrow> term_client_t" where
  "release_bootstrap c =
     (let c1 = c\<lparr>tcl_server_ep := False\<rparr> in
      if tcl_listener c1 then c1
      else c1\<lparr>tcl_sock := (if 0 < tcl_sock c1 then -1 else tcl_sock c1), tcl_addr_msg_str := False,
              tcl_peer_addr := False, tcl_local_addr := False\<rparr>)"

definition term_notification_completed :: "client_ref \<Rightarrow> term_engine_t \<Rightarrow> term_engine_t res" where
  "term_notification_completed r e =
     bindE (derefE (client_of r e)) (\<lambda>c.
     bindE (assertE (0 < te_clients_num_active e)) (\<lambda>_.
     update_engine_state ((put_client_of r (Some ((release_bootstrap c)\<lparr>tcl_done := True\<rparr>)) e)
       \<lparr>te_clients_num_active := te_clients_num_active e - 1\<rparr>)))"

section \<open>Termination messages\<close>

definition term_msg_cb_server :: "(nat \<Rightarrow> unit answer) \<Rightarrow> nat \<Rightarrow> nat \<Rightarrow> term_engine_t \<Rightarrow> (dpu_offload_status_t \<times> term_engine_t) res" where
  "term_msg_cb_server ans s client_id e =
     bindE (nthE (te_servers e) s) (\<lambda>sv.
     bindE (term_msg_server client_id sv) (\<lambda>(server_done, sv1).
     let e1 = e\<lparr>te_servers := (te_servers e)[s := sv1]\<rparr> in
     if server_done then
       bindE (assertE (0 < te_servers_num_active e1)) (\<lambda>_.
       let e2 = e1\<lparr>te_servers_num_active := te_servers_num_active e1 - 1\<rparr> in
       bindE (if sv_scope sv1 = SCOPE_HOST_DPU
              then bindE (assertE (te_on_dpu e2)) (\<lambda>_. disconnect_to_service_procs ans e2)
              else update_engine_state e2) (\<lambda>e3.
       Inr (DO_SUCCESS, e3)))
     else Inr (DO_SUCCESS, e1)))"

definition term_msg_cb_client :: "client_ref \<Rightarrow> term_engine_t \<Rightarrow> (dpu_offload_status_t \<times> term_engine_t) res" where
  "term_msg_cb_client r e =
     bindE (derefE (client_of r e)) (\<lambda>c.
     bindE (assertE (0 < te_clients_num_active e)) (\<lambda>_.
     Inr (DO_SUCCESS, (put_client_of r (Some (c\<lparr>tcl_done := True\<rparr>)) e)\<lparr>te_clients_num_active := te_clients_num_active e - 1\<rparr>)))"

section \<open>Progress\<close>

text \<open>A pass over the execution context of a client, as far as termination is concerned: the progress of the UCX worker runs
  handlers, the progress of the sends may complete the termination message, and the completion is handled.  The pointer
  to the execution context is read before: if a handler freed it, the access is out of bounds.\<close>

definition execution_context_progress :: "(term_engine_t \<Rightarrow> term_engine_t res) \<Rightarrow> bool \<Rightarrow> client_ref \<Rightarrow> term_engine_t \<Rightarrow> term_engine_t res" where
  "execution_context_progress handlers completes r e =
     bindE (derefE (client_of r e)) (\<lambda>_.
     bindE (handlers e) (\<lambda>e1.
     bindE (guardE Out_of_bounds (client_of r e1 \<noteq> None)) (\<lambda>_.
     let c = the (client_of r e1);
         ev = (case tcl_term_ev c of None \<Rightarrow> None | Some b \<Rightarrow> Some (b \<or> completes)) in
     if ev = Some True
     then term_notification_completed r (put_client_of r (Some (c\<lparr>tcl_term_ev := None\<rparr>)) e1)
     else Inr (put_client_of r (Some (c\<lparr>tcl_term_ev := ev\<rparr>)) e1))))"

text \<open>The passes that \<open>offload_engine_progress\<close> makes over the clients: an entry that is NULL is skipped.  What happens in
  the pass over a client is given by its index.\<close>

definition progress_inter_sp_clients :: "(nat \<Rightarrow> (term_engine_t \<Rightarrow> term_engine_t res) \<times> bool) \<Rightarrow> term_engine_t \<Rightarrow> term_engine_t res" where
  "progress_inter_sp_clients passes e =
     foldE (\<lambda>c e'. if client_of (Inter_sp_client c) e' = None then Inr e'
                   else execution_context_progress (fst (passes c)) (snd (passes c)) (Inter_sp_client c) e')
       [0..<length (te_inter_sp_clients e)] e"

definition progress_bootstrap_client :: "(term_engine_t \<Rightarrow> term_engine_t res) \<Rightarrow> bool \<Rightarrow> term_engine_t \<Rightarrow> term_engine_t res" where
  "progress_bootstrap_client handlers completes e =
     (if te_bootstrap e = None then Inr e else execution_context_progress handlers completes Bootstrap_client e)"

text \<open>The loop of \<open>client_fini\<close> until the client is done; \<open>completes k\<close> is whether the termination message is completed in
  pass \<open>k\<close>, and \<open>n\<close> bounds the number of passes.\<close>

fun client_fini_loop :: "nat \<Rightarrow> (nat \<Rightarrow> bool) \<Rightarrow> nat \<Rightarrow> client_ref \<Rightarrow> term_engine_t \<Rightarrow> term_engine_t res" where
  "client_fini_loop n completes k r e =
     bindE (guardE Out_of_bounds (client_of r e \<noteq> None)) (\<lambda>_.
     if tcl_done (the (client_of r e)) then Inr e
     else (case n of 0 \<Rightarrow> Inl No_return
           | Suc n' \<Rightarrow> bindE (execution_context_progress Inr (completes k) r e) (client_fini_loop n' completes (Suc k) r)))"

declare client_fini_loop.simps [simp del]

definition client_fini :: "nat \<Rightarrow> unit answer \<Rightarrow> (nat \<Rightarrow> bool) \<Rightarrow> client_ref \<Rightarrow> term_engine_t \<Rightarrow> term_engine_t res" where
  "client_fini n ans completes r e =
     (if client_of r e = None then Inr e
      else
        bindE (client_fini_nb ans r e) (\<lambda>e1.
        bindE (client_fini_loop n completes 0 r e1) (\<lambda>e2.
        Inr (put_client_of r None e2))))"

end
