(* ===== verification/Shutdown.thy ===== *)
theory Shutdown
imports Termination
begin

text \<open>
  The end of a job on a service process: its clients leave its servers, and it leaves the servers of the other service
  processes, in any order.
\<close>

section \<open>Histories of the end of a job\<close>

text \<open>A client of a server leaves it, with the answers of the event system for the messages to the other service
  processes, or the message to another service process is completed.\<close>

datatype shutdown_event = Leave "nat \<Rightarrow> unit answer" nat nat | Sent nat

fun shutdown_enabled :: "shutdown_event \<Rightarrow> term_engine_t \<Rightarrow> bool" where
  "shutdown_enabled (Leave ans s k) e = ((\<forall>i. ans i \<noteq> Failed) \<and> s < length (te_servers e) \<and> k \<in> connected_ids (te_servers e ! s))"
| "shutdown_enabled (Sent i) e = (case client_of (Inter_sp_client i) e of None \<Rightarrow> False | Some c \<Rightarrow> tcl_term_ev c \<noteq> None)"

fun shutdown_do :: "shutdown_event \<Rightarrow> term_engine_t \<Rightarrow> term_engine_t res" where
  "shutdown_do (Leave ans s k) e = bindE (term_msg_cb_server ans s k e) (\<lambda>(rc, e'). Inr e')"
| "shutdown_do (Sent i) e = execution_context_progress Inr True (Inter_sp_client i) e"

inductive shutdown_history :: "term_engine_t \<Rightarrow> shutdown_event list \<Rightarrow> term_engine_t \<Rightarrow> bool" for e0 where
  start: "shutdown_history e0 [] e0"
| step: "shutdown_history e0 evs e \<Longrightarrow> shutdown_enabled ev e \<Longrightarrow> shutdown_do ev e = Inr e' \<Longrightarrow> shutdown_history e0 (evs @ [ev]) e'"

inductive_cases shutdown_history_snocE: "shutdown_history e0 (evs @ [ev]) e"

text \<open>A service process with all its connections: the server of the hosts has index \<open>h\<close>.\<close>

definition shutdown_start :: "nat \<Rightarrow> term_engine_t \<Rightarrow> bool" where
  "shutdown_start h e =
     (te_on_dpu e \<and> te_state e = MIMOSA_ENGINE_STATE_INITIALIZED
      \<and> (\<forall>c \<in> set (te_inter_sp_clients e). case c of None \<Rightarrow> False | Some x \<Rightarrow> \<not> tcl_done x \<and> tcl_term_ev x = None)
      \<and> te_clients_num_active e = length (te_inter_sp_clients e)
      \<and> (\<forall>sv \<in> set (te_servers e). server_wf sv \<and> sv_num_ongoing_connections sv = 0 \<and> 0 < sv_num_connected_clients sv \<and> \<not> sv_done sv)
      \<and> te_servers_num_active e = length (te_servers e)
      \<and> h < length (te_servers e) \<and> (\<forall>s < length (te_servers e). (sv_scope (te_servers e ! s) = SCOPE_HOST_DPU) = (s = h)))"

text \<open>The connections that are left: clients of the servers, and messages to the other service processes.\<close>

definition connections :: "term_engine_t \<Rightarrow> nat" where
  "connections e = sum_list (map sv_num_connected_clients (te_servers e)) + te_clients_num_active e"

section \<open>The invariant\<close>

definition pending :: "term_client_t option \<Rightarrow> bool" where
  "pending c = (case c of None \<Rightarrow> False | Some x \<Rightarrow> \<not> tcl_done x)"

definition server_ok :: "server_t \<Rightarrow> bool" where
  "server_ok sv = (server_wf sv \<and> sv_num_ongoing_connections sv = 0 \<and> sv_done sv = (sv_num_connected_clients sv = 0))"

definition client_ok :: "bool \<Rightarrow> term_client_t option \<Rightarrow> bool" where
  "client_ok hosts_left c = (case c of None \<Rightarrow> False | Some x \<Rightarrow>
     if tcl_done x then hosts_left \<and> tcl_term_ev x = None else (tcl_term_ev x \<noteq> None) = hosts_left)"

definition shutdown_inv :: "nat \<Rightarrow> term_engine_t \<Rightarrow> bool" where
  "shutdown_inv h e =
     (te_on_dpu e \<and> (\<forall>sv \<in> set (te_servers e). server_ok sv)
      \<and> te_servers_num_active e = length (filter (\<lambda>sv. \<not> sv_done sv) (te_servers e))
      \<and> h < length (te_servers e) \<and> (\<forall>s < length (te_servers e). (sv_scope (te_servers e ! s) = SCOPE_HOST_DPU) = (s = h))
      \<and> te_clients_num_active e = length (filter pending (te_inter_sp_clients e))
      \<and> (case te_state e of
           MIMOSA_ENGINE_STATE_INITIALIZED \<Rightarrow>
             (\<forall>c \<in> set (te_inter_sp_clients e). client_ok (sv_done (te_servers e ! h)) c)
             \<and> (te_inter_sp_clients e \<noteq> [] \<longrightarrow> \<not> (te_clients_num_active e = 0 \<and> te_servers_num_active e = 0))
         | MIMOSA_ENGINE_STATE_TERMINATED \<Rightarrow>
             te_servers_num_active e = 0 \<and> (\<forall>c \<in> set (te_inter_sp_clients e). c = None)))"

lemma shutdown_start_inv: "shutdown_start h e \<Longrightarrow> shutdown_inv h e"
proof -
  assume s: "shutdown_start h e"
  have "filter (\<lambda>sv. \<not> sv_done sv) (te_servers e) = te_servers e" "filter pending (te_inter_sp_clients e) = te_inter_sp_clients e"
    using s by (auto simp: shutdown_start_def pending_def split: option.splits intro!: filter_True)
  with s show ?thesis
    by (auto simp: shutdown_start_def shutdown_inv_def server_ok_def client_ok_def split: option.splits)
qed

lemma length_filter_update:
  assumes "i < length xs" "P (xs ! i)" "\<not> P y"
  shows "length (filter P (xs[i := y])) = length (filter P xs) - 1" "0 < length (filter P xs)"
proof -
  have xs: "xs = take i xs @ xs ! i # drop (Suc i) xs"
    using assms(1) by (rule id_take_nth_drop)
  have "length (filter P xs) = Suc (length (filter P (take i xs)) + length (filter P (drop (Suc i) xs)))"
    by (subst xs) (simp add: assms(2))
  moreover have "length (filter P (xs[i := y])) = length (filter P (take i xs)) + length (filter P (drop (Suc i) xs))"
    using assms(1,3) by (simp add: upd_conv_take_nth_drop)
  ultimately show "length (filter P (xs[i := y])) = length (filter P xs) - 1" "0 < length (filter P xs)"
    by simp_all
qed

lemma length_filter_same:
  assumes "i < length xs" "P y = P (xs ! i)"
  shows "length (filter P (xs[i := y])) = length (filter P xs)"
proof -
  have "length (filter P (xs[i := y])) = length (filter P (take i xs @ xs ! i # drop (Suc i) xs))"
    using assms by (simp add: upd_conv_take_nth_drop)
  then show ?thesis
    using id_take_nth_drop[OF assms(1)] by simp
qed

text \<open>Loops over the clients for the other service processes.\<close>

lemma clients_loop:
  fixes e :: term_engine_t
  assumes "\<And>i e'. i < length (te_inter_sp_clients e) \<Longrightarrow> length (te_inter_sp_clients e') = length (te_inter_sp_clients e)
      \<Longrightarrow> te_inter_sp_clients e' ! i = te_inter_sp_clients e ! i \<Longrightarrow> f i e' = Inr (put_client_of (Inter_sp_client i) (g i (te_inter_sp_clients e ! i)) e')"
  shows "foldE f [0..<length (te_inter_sp_clients e)] e
     = Inr (e\<lparr>te_inter_sp_clients := map (\<lambda>i. g i (te_inter_sp_clients e ! i)) [0..<length (te_inter_sp_clients e)]\<rparr>)"
proof -
  let ?xs = "te_inter_sp_clients e"
  have "foldE f [0..<k] e = Inr (e\<lparr>te_inter_sp_clients := map (\<lambda>i. g i (?xs ! i)) [0..<k] @ drop k ?xs\<rparr>)" if "k \<le> length ?xs" for k
    using that
  proof (induction k)
    case (Suc k)
    let ?e = "e\<lparr>te_inter_sp_clients := map (\<lambda>i. g i (?xs ! i)) [0..<k] @ drop k ?xs\<rparr>"
    have "f k ?e = Inr (put_client_of (Inter_sp_client k) (g k (?xs ! k)) ?e)"
      using Suc.prems by (intro assms) (simp_all add: nth_append)
    moreover have "(map (\<lambda>i. g i (?xs ! i)) [0..<k] @ drop k ?xs)[k := g k (?xs ! k)] = map (\<lambda>i. g i (?xs ! i)) [0..<Suc k] @ drop (Suc k) ?xs"
      using Suc.prems by (simp add: list_update_append Cons_nth_drop_Suc[symmetric])
    ultimately show ?case
      using Suc by (simp add: foldE_append)
  qed simp
  from this[of "length ?xs"] show ?thesis
    by simp
qed

lemma update_engine_state_spec:
  assumes "te_on_dpu e" "\<forall>c \<in> set (te_inter_sp_clients e). c \<noteq> None"
  shows "update_engine_state e = Inr (if te_clients_num_active e = 0 \<and> te_servers_num_active e = 0
    then e\<lparr>te_inter_sp_clients := replicate (length (te_inter_sp_clients e)) None, te_state := MIMOSA_ENGINE_STATE_TERMINATED\<rparr> else e)"
proof -
  have "foldE free_inter_sp_client [0..<length (te_inter_sp_clients e)] e
      = Inr (e\<lparr>te_inter_sp_clients := map (\<lambda>i. None) [0..<length (te_inter_sp_clients e)]\<rparr>)"
  proof (rule clients_loop)
    fix i and e' :: term_engine_t
    assume "i < length (te_inter_sp_clients e)" "length (te_inter_sp_clients e') = length (te_inter_sp_clients e)"
      "te_inter_sp_clients e' ! i = te_inter_sp_clients e ! i"
    moreover obtain y where "te_inter_sp_clients e ! i = Some y"
      using calculation(1) assms(2) nth_mem by blast
    ultimately show "free_inter_sp_client i e' = Inr (put_client_of (Inter_sp_client i) None e')"
      by (simp add: free_inter_sp_client_def)
  qed
  then show ?thesis
    using assms(1) by (simp add: update_engine_state_def map_replicate_const)
qed

lemma client_fini_nb_spec:
  "client_of r e = Some c \<Longrightarrow> ans \<noteq> Failed \<Longrightarrow> client_fini_nb ans r e = Inr (put_client_of r (Some (c\<lparr>tcl_term_ev := Some (ans \<noteq> Later)\<rparr>)) e)"
  by (cases ans) (simp_all add: client_fini_nb_def send_term_msg_def del: not_None_eq not_Some_eq)

lemma disconnect_spec:
  assumes "\<forall>c \<in> set (te_inter_sp_clients e). c \<noteq> None" "\<forall>i. ans i \<noteq> Failed"
  shows "disconnect_to_service_procs ans e = Inr (e\<lparr>te_inter_sp_clients :=
    map (\<lambda>i. Some ((the (te_inter_sp_clients e ! i))\<lparr>tcl_term_ev := Some (ans i \<noteq> Later)\<rparr>)) [0..<length (te_inter_sp_clients e)]\<rparr>)"
  unfolding disconnect_to_service_procs_def
proof (rule clients_loop)
  fix i and e' :: term_engine_t
  assume "i < length (te_inter_sp_clients e)" "length (te_inter_sp_clients e') = length (te_inter_sp_clients e)"
    "te_inter_sp_clients e' ! i = te_inter_sp_clients e ! i"
  moreover obtain y where "te_inter_sp_clients e ! i = Some y"
    using calculation(1) assms(1) nth_mem by blast
  ultimately show "client_fini_nb (ans i) (Inter_sp_client i) e' = Inr (put_client_of (Inter_sp_client i)
      (Some ((the (te_inter_sp_clients e ! i))\<lparr>tcl_term_ev := Some (ans i \<noteq> Later)\<rparr>)) e')"
    using assms(2) by (simp add: client_fini_nb_spec)
qed

section \<open>Steps\<close>

definition closes_one :: "nat \<Rightarrow> term_engine_t \<Rightarrow> term_engine_t \<Rightarrow> bool" where
  "closes_one h e e' = (shutdown_inv h e' \<and> connections e = Suc (connections e') \<and> length (te_inter_sp_clients e') = length (te_inter_sp_clients e))"

lemma leave_server:
  assumes "server_ok sv" "k \<in> connected_ids sv"
  shows "\<exists>sv'. term_msg_server k sv = Inr (sv_done sv', sv') \<and> server_ok sv' \<and> sv_scope sv' = sv_scope sv \<and> \<not> sv_done sv
    \<and> sv_num_connected_clients sv = Suc (sv_num_connected_clients sv')"
proof -
  have wf: "server_wf sv" and ph: "phase_at k sv = BOOTSTRAP_DONE"
    using assms by (simp_all add: server_ok_def connected_ids_def)
  have pos: "0 < sv_num_connected_clients sv"
    using assms(2) ids_bounded(4)[OF wf] wf card_gt_0_iff[of "connected_ids sv"] by (auto simp: server_wf_def)
  then have nd: "\<not> sv_done sv"
    using assms(1) by (simp add: server_ok_def)
  obtain d sv' where t: "term_msg_server k sv = Inr (d, sv')"
    using pos by (cases "term_msg_server k sv") (auto simp: term_msg_server_def Let_def split: if_splits)
  note l = leave_wf[OF wf ph t]
  have "d = (sv_num_connected_clients sv' = 0)" "sv_done sv' = d"
    using t assms(1) nd by (auto simp: term_msg_server_def Let_def res_simps server_ok_def split: if_splits)
  with t l assms(1) pos nd show ?thesis
    by (auto simp: server_ok_def)
qed

lemma connections_leave:
  assumes "s < length (te_servers e)" "sv_num_connected_clients (te_servers e ! s) = Suc (sv_num_connected_clients sv')"
    "te_servers e' = (te_servers e)[s := sv']" "te_clients_num_active e' = te_clients_num_active e"
  shows "connections e = Suc (connections e')"
proof -
  let ?m = "map sv_num_connected_clients (te_servers e)"
  have "Suc (sv_num_connected_clients sv') \<le> sum_list ?m"
    using assms(1,2) member_le_sum_list[of "?m ! s" ?m] nth_mem[of s ?m] by simp
  moreover have "map sv_num_connected_clients (te_servers e') = ?m[s := sv_num_connected_clients sv']"
    by (simp add: assms(3) map_update)
  ultimately show ?thesis
    using assms(1,2,4) by (simp add: connections_def sum_list_update)
qed

text \<open>The engine after the state was updated.\<close>

lemma update_engine_state_inv:
  assumes inv: "te_on_dpu e" "\<forall>sv \<in> set (te_servers e). server_ok sv"
      "te_servers_num_active e = length (filter (\<lambda>sv. \<not> sv_done sv) (te_servers e))"
      "h < length (te_servers e)" "\<forall>s < length (te_servers e). (sv_scope (te_servers e ! s) = SCOPE_HOST_DPU) = (s = h)"
      "te_clients_num_active e = length (filter pending (te_inter_sp_clients e))" "te_state e = MIMOSA_ENGINE_STATE_INITIALIZED"
      "\<forall>c \<in> set (te_inter_sp_clients e). client_ok (sv_done (te_servers e ! h)) c"
  shows "\<exists>e'. update_engine_state e = Inr e' \<and> shutdown_inv h e' \<and> te_servers e' = te_servers e
     \<and> te_clients_num_active e' = te_clients_num_active e \<and> length (te_inter_sp_clients e') = length (te_inter_sp_clients e)"
proof -
  have "\<forall>c \<in> set (te_inter_sp_clients e). c \<noteq> None"
    using inv(8) by (auto simp: client_ok_def split: option.splits)
  note u = update_engine_state_spec[OF inv(1) this]
  have "filter pending (replicate n None) = []" for n
    by (simp add: pending_def)
  then show ?thesis
    unfolding u using inv by (auto simp: shutdown_inv_def)
qed

lemma leave_step:
  assumes inv: "shutdown_inv h e" and en: "shutdown_enabled (Leave ans s k) e"
  shows "\<exists>e'. shutdown_do (Leave ans s k) e = Inr e' \<and> closes_one h e e'"
proof -
  let ?sv = "te_servers e ! s"
  have s: "s < length (te_servers e)" "k \<in> connected_ids ?sv" "\<forall>i. ans i \<noteq> Failed"
    using en by simp_all
  have ok: "server_ok ?sv"
    using inv s(1) by (simp add: shutdown_inv_def)
  obtain sv' where sv': "term_msg_server k ?sv = Inr (sv_done sv', sv')" "server_ok sv'" "sv_scope sv' = sv_scope ?sv" "\<not> sv_done ?sv"
    "sv_num_connected_clients ?sv = Suc (sv_num_connected_clients sv')"
    using leave_server[OF ok s(2)] by blast
  define e1 where "e1 = e\<lparr>te_servers := (te_servers e)[s := sv']\<rparr>"
  have srv: "\<forall>x \<in> set (te_servers e1). server_ok x" "h < length (te_servers e1)"
    "\<forall>j < length (te_servers e1). (sv_scope (te_servers e1 ! j) = SCOPE_HOST_DPU) = (j = h)"
    using inv sv'(2,3) s(1) by (auto simp: e1_def shutdown_inv_def nth_list_update dest!: subsetD[OF set_update_subset_insert])
  have pos: "te_servers_num_active e = length (filter (\<lambda>x. \<not> sv_done x) (te_servers e))" "0 < te_servers_num_active e"
    using inv length_filter_update(2)[of s "te_servers e" "\<lambda>x. \<not> sv_done x" "?sv\<lparr>sv_done := True\<rparr>"] s(1) sv'(4) by (simp_all add: shutdown_inv_def)
  then have st: "te_state e = MIMOSA_ENGINE_STATE_INITIALIZED" "\<forall>c \<in> set (te_inter_sp_clients e). client_ok (sv_done (te_servers e ! h)) c"
    using inv by (auto simp: shutdown_inv_def split: mimosa_engine_state_t.splits)
  show ?thesis
  proof (cases "sv_done sv'")
    case False
    then have same: "length (filter (\<lambda>x. \<not> sv_done x) (te_servers e1)) = te_servers_num_active e" "sv_done (te_servers e1 ! h) = sv_done (te_servers e ! h)"
      using length_filter_same[OF s(1), of "\<lambda>x. \<not> sv_done x" sv'] pos(1) sv'(4) s(1) by (auto simp: e1_def nth_list_update)
    have "shutdown_inv h e1"
      using inv srv same st by (auto simp: shutdown_inv_def) (simp_all add: e1_def)
    moreover have "shutdown_do (Leave ans s k) e = Inr e1"
      using s(1) sv'(1) False by (simp add: term_msg_cb_server_def e1_def)
    ultimately show ?thesis
      using connections_leave[OF s(1) sv'(5), of e1] by (simp add: closes_one_def e1_def)
  next
    case True
    define e2 where "e2 = e1\<lparr>te_servers_num_active := te_servers_num_active e - 1\<rparr>"
    have act: "te_servers_num_active e2 = length (filter (\<lambda>x. \<not> sv_done x) (te_servers e2))"
      using length_filter_update(1)[of s "te_servers e" "\<lambda>x. \<not> sv_done x" sv'] s(1) sv'(4) True pos(1) by (simp add: e2_def e1_def)
    have e2: "te_on_dpu e2" "te_clients_num_active e2 = length (filter pending (te_inter_sp_clients e2))" "te_state e2 = MIMOSA_ENGINE_STATE_INITIALIZED"
      "te_servers e2 = (te_servers e)[s := sv']" "te_inter_sp_clients e2 = te_inter_sp_clients e" "te_clients_num_active e2 = te_clients_num_active e"
      using inv st(1) by (simp_all add: e2_def e1_def shutdown_inv_def)
    have srv2: "\<forall>x \<in> set (te_servers e2). server_ok x" "h < length (te_servers e2)"
      "\<forall>j < length (te_servers e2). (sv_scope (te_servers e2 ! j) = SCOPE_HOST_DPU) = (j = h)"
      using srv by (simp_all add: e2_def)
    have cb: "shutdown_do (Leave ans s k) e = (if s = h then disconnect_to_service_procs ans e2 else update_engine_state e2)"
      using s(1) sv'(1,3) True pos(2) e2(1) inv unfolding shutdown_do.simps term_msg_cb_server_def
      by (simp add: Let_def e1_def[symmetric] e2_def bindE_assoc) (auto simp: e2_def e1_def shutdown_inv_def bindE_def split: sum.splits)
    show ?thesis
    proof (cases "s = h")
      case False
      then have "\<forall>c \<in> set (te_inter_sp_clients e2). client_ok (sv_done (te_servers e2 ! h)) c"
        using st(2) by (simp add: e2)
      from update_engine_state_inv[OF e2(1) srv2(1) act srv2(2,3) e2(2,3) this] obtain e3 where
        u: "update_engine_state e2 = Inr e3" "shutdown_inv h e3" "te_servers e3 = te_servers e2" "te_clients_num_active e3 = te_clients_num_active e2"
        "length (te_inter_sp_clients e3) = length (te_inter_sp_clients e2)"
        by blast
      then show ?thesis
        using connections_leave[OF s(1) sv'(5), of e3] False by (simp add: closes_one_def cb e2(4-6) del: shutdown_do.simps)
    next
      case True
      let ?xs = "te_inter_sp_clients e"
      have c: "pending x \<and> x \<noteq> None" if "x \<in> set ?xs" for x
        using st(2) that True sv'(4) by (auto simp: client_ok_def pending_def split: option.splits if_splits)
      define ys where "ys = map (\<lambda>i. Some ((the (?xs ! i))\<lparr>tcl_term_ev := Some (ans i \<noteq> Later)\<rparr>)) [0..<length ?xs]"
      have d: "disconnect_to_service_procs ans e2 = Inr (e2\<lparr>te_inter_sp_clients := ys\<rparr>)"
        using disconnect_spec[of e2 ans] c s(3) by (simp add: e2(5) ys_def)
      have nd: "\<not> tcl_done (the (?xs ! i))" if "i < length ?xs" for i
        using c[OF nth_mem[OF that]] by (auto simp: pending_def split: option.splits)
      have ys: "\<forall>x \<in> set ys. pending x \<and> client_ok True x"
        using nd by (auto simp: ys_def pending_def client_ok_def)
      then have "filter pending ys = ys" "filter pending ?xs = ?xs" "length ys = length ?xs"
        using c by (auto simp: ys_def intro!: filter_True)
      moreover have "sv_done (te_servers e2 ! h)"
        using \<open>sv_done sv'\<close> True s(1) by (simp add: e2(4))
      ultimately have "shutdown_inv h (e2\<lparr>te_inter_sp_clients := ys\<rparr>)"
        using e2 srv2 act ys by (auto simp: shutdown_inv_def)
      then show ?thesis
        using connections_leave[OF s(1) sv'(5), of "e2\<lparr>te_inter_sp_clients := ys\<rparr>"] True \<open>length ys = length ?xs\<close>
        by (intro exI[of _ "e2\<lparr>te_inter_sp_clients := ys\<rparr>"]) (simp add: closes_one_def cb[unfolded True] d e2(4-6) del: shutdown_do.simps)
    qed
  qed
qed

lemma sent_step:
  assumes inv: "shutdown_inv h e" and en: "shutdown_enabled (Sent i) e"
  shows "\<exists>e'. shutdown_do (Sent i) e = Inr e' \<and> closes_one h e e'"
proof -
  let ?xs = "te_inter_sp_clients e"
  obtain c where i: "i < length ?xs" "?xs ! i = Some c" "tcl_term_ev c \<noteq> None"
    using en by (auto split: option.splits if_splits)
  have st: "te_state e = MIMOSA_ENGINE_STATE_INITIALIZED" "\<forall>x \<in> set ?xs. client_ok (sv_done (te_servers e ! h)) x"
    using inv i nth_mem[OF i(1)] by (auto simp: shutdown_inv_def split: mimosa_engine_state_t.splits)
  have c: "\<not> tcl_done c" "sv_done (te_servers e ! h)"
    using st(2) nth_mem[OF i(1)] i(2,3) by (auto simp: client_ok_def split: if_splits)
  define c' where "c' = (release_bootstrap (c\<lparr>tcl_term_ev := None\<rparr>))\<lparr>tcl_done := True\<rparr>"
  have c': "client_ok True (Some c')" "\<not> pending (Some c')"
    by (simp_all add: c'_def client_ok_def pending_def release_bootstrap_def Let_def)
  define e1 where "e1 = e\<lparr>te_inter_sp_clients := ?xs[i := Some c'], te_clients_num_active := te_clients_num_active e - 1\<rparr>"
  have cnt: "te_clients_num_active e = length (filter pending ?xs)" "0 < te_clients_num_active e"
    "length (filter pending (?xs[i := Some c'])) = te_clients_num_active e - 1"
    using inv length_filter_update[of i ?xs pending "Some c'"] i(1,2) c(1) c'(2) by (simp_all add: shutdown_inv_def pending_def)
  have cl: "\<forall>x \<in> set (te_inter_sp_clients e1). client_ok (sv_done (te_servers e1 ! h)) x"
    using st(2) c(2) c'(1) set_update_subset_insert[of ?xs i "Some c'"] by (auto simp: e1_def)
  have "shutdown_do (Sent i) e = update_engine_state e1"
    using i cnt(2) by (auto simp: execution_context_progress_def term_notification_completed_def Let_def e1_def c'_def)
  moreover have "\<exists>e'. update_engine_state e1 = Inr e' \<and> shutdown_inv h e' \<and> te_servers e' = te_servers e1
      \<and> te_clients_num_active e' = te_clients_num_active e1 \<and> length (te_inter_sp_clients e') = length (te_inter_sp_clients e1)"
    using inv st(1) cnt cl by (intro update_engine_state_inv) (simp_all add: e1_def shutdown_inv_def)
  ultimately show ?thesis
    using cnt(2) by (auto simp: closes_one_def e1_def connections_def)
qed

lemma shutdown_step_ok: "shutdown_inv h e \<Longrightarrow> shutdown_enabled ev e \<Longrightarrow> \<exists>e'. shutdown_do ev e = Inr e' \<and> closes_one h e e'"
  by (cases ev) (simp_all only: leave_step sent_step)

section \<open>The end of the job\<close>

lemma shutdown_history_inv:
  assumes "shutdown_history e0 evs e" "shutdown_start h e0"
  shows "shutdown_inv h e \<and> connections e0 = length evs + connections e \<and> length (te_inter_sp_clients e) = length (te_inter_sp_clients e0)"
  using assms(1)
proof (induction rule: shutdown_history.induct)
  case start
  then show ?case
    using shutdown_start_inv[OF assms(2)] by simp
next
  case (step evs e ev e')
  then have "closes_one h e e'"
    using shutdown_step_ok[of h e ev] by auto
  with step.IH show ?case
    by (simp add: closes_one_def)
qed

text \<open>As long as there are connections, something can happen.\<close>

lemma shutdown_enabled_ex:
  assumes inv: "shutdown_inv h e" and "0 < connections e"
  shows "\<exists>ev. shutdown_enabled ev e"
proof (cases "\<exists>sv \<in> set (te_servers e). 0 < sv_num_connected_clients sv")
  case True
  then obtain s where s: "s < length (te_servers e)" "0 < sv_num_connected_clients (te_servers e ! s)"
    by (auto simp: in_set_conv_nth)
  then have "server_wf (te_servers e ! s)"
    using inv by (simp add: shutdown_inv_def server_ok_def)
  with s(2) obtain k where "k \<in> connected_ids (te_servers e ! s)"
    by (metis all_not_in_conv card.empty less_irrefl server_wf_def)
  with s(1) have "shutdown_enabled (Leave (\<lambda>_. Later) s k) e"
    by simp
  then show ?thesis ..
next
  case False
  then have "map sv_num_connected_clients (te_servers e) = map (\<lambda>_. 0) (te_servers e)"
    by simp
  then have "sum_list (map sv_num_connected_clients (te_servers e)) = 0"
    by (metis sum_list_0)
  with assms(2) have "te_clients_num_active e \<noteq> 0"
    unfolding connections_def by linarith
  then have "filter pending (te_inter_sp_clients e) \<noteq> []"
    using inv by (auto simp: shutdown_inv_def)
  then obtain i where i: "i < length (te_inter_sp_clients e)" "pending (te_inter_sp_clients e ! i)"
    by (auto simp: filter_empty_conv in_set_conv_nth)
  have h: "sv_done (te_servers e ! h)"
    using inv False by (simp add: shutdown_inv_def server_ok_def)
  have "client_ok True (te_inter_sp_clients e ! i)"
  proof (cases "te_state e")
    case MIMOSA_ENGINE_STATE_INITIALIZED
    then show ?thesis
      using inv h nth_mem[OF i(1)] by (simp add: shutdown_inv_def)
  next
    case MIMOSA_ENGINE_STATE_TERMINATED
    then have "te_inter_sp_clients e ! i = None"
      using inv nth_mem[OF i(1)] by (simp add: shutdown_inv_def)
    with i(2) show ?thesis
      by (simp add: pending_def)
  qed
  then have "shutdown_enabled (Sent i) e"
    using i by (auto simp: client_ok_def pending_def split: option.splits if_splits)
  then show ?thesis ..
qed

lemma connections_0: "shutdown_inv h e \<Longrightarrow> (connections e = 0) = (te_clients_num_active e = 0 \<and> te_servers_num_active e = 0)"
  by (auto simp: connections_def shutdown_inv_def server_ok_def filter_empty_conv)

text \<open>C5: the end of a job on a service process that is connected to others.  The clients of its servers leave and the
  messages to the other service processes complete, in any order, and no send fails: none of the handlers
  is aborted, the job never gets stuck, and the engine is terminated exactly after as many steps as there were
  connections, with every server done and the clients freed.\<close>

theorem orderly_shutdown:
  assumes "shutdown_start h e0" "te_inter_sp_clients e0 \<noteq> []" "shutdown_history e0 evs e"
  shows "length evs \<le> connections e0
    \<and> (te_state e = MIMOSA_ENGINE_STATE_TERMINATED) = (length evs = connections e0)
    \<and> (length evs < connections e0 \<longrightarrow> (\<exists>ev. shutdown_enabled ev e))
    \<and> (\<forall>ev. shutdown_enabled ev e \<longrightarrow> (\<exists>e'. shutdown_do ev e = Inr e'))
    \<and> (te_state e = MIMOSA_ENGINE_STATE_TERMINATED \<longrightarrow> (\<forall>sv \<in> set (te_servers e). sv_done sv) \<and> (\<forall>c \<in> set (te_inter_sp_clients e). c = None))"
proof -
  have i: "shutdown_inv h e" "connections e0 = length evs + connections e" "te_inter_sp_clients e \<noteq> []"
    using shutdown_history_inv[OF assms(3,1)] assms(2) by auto
  have "(te_state e = MIMOSA_ENGINE_STATE_TERMINATED) = (connections e = 0)"
    using i(1,3) unfolding connections_0[OF i(1)]
    by (cases "te_state e") (auto simp: shutdown_inv_def pending_def filter_empty_conv)
  moreover have "(\<forall>sv \<in> set (te_servers e). sv_done sv) \<and> (\<forall>c \<in> set (te_inter_sp_clients e). c = None)"
    if "te_state e = MIMOSA_ENGINE_STATE_TERMINATED"
    using i(1) that by (auto simp: shutdown_inv_def filter_empty_conv)
  moreover have "\<exists>e'. shutdown_do ev e = Inr e'" if "shutdown_enabled ev e" for ev
    using shutdown_step_ok[OF i(1) that] by blast
  ultimately show ?thesis
    using i(2) shutdown_enabled_ex[OF i(1)] by auto
qed

text \<open>A service process with one client for another one, and one host: the host leaves, and the message is completed.\<close>

definition demo_end_server :: "execution_scope_t \<Rightarrow> server_t" where
  "demo_end_server scope = (server_init_context 0 scope No_connected_cb [])
     \<lparr>sv_num_total_connected_clients := 1, sv_num_connected_clients := 1,
      sv_clients := [boot_upd (b_phase_update (\<lambda>_. BOOTSTRAP_DONE)) zero_client_info]\<rparr>"

definition demo_term_client :: term_client_t where
  "demo_term_client = \<lparr>tcl_listener = False, tcl_server_ep = True, tcl_sock = 5, tcl_addr_msg_str = True, tcl_peer_addr = True,
     tcl_local_addr = True, tcl_done = False, tcl_term_ev = None\<rparr>"

definition demo_engine_end :: "execution_scope_t list \<Rightarrow> nat \<Rightarrow> term_engine_t" where
  "demo_engine_end scopes n = \<lparr>te_on_dpu = True, te_state = MIMOSA_ENGINE_STATE_INITIALIZED, te_clients_num_active = n,
     te_servers_num_active = length scopes, te_servers = map demo_end_server scopes, te_bootstrap = None,
     te_inter_sp_clients = replicate n (Some demo_term_client)\<rparr>"

lemma demo_client_at: "client_at i (demo_end_server scope) = (if i = 0 then boot_upd (b_phase_update (\<lambda>_. BOOTSTRAP_DONE)) zero_client_info else zero_client_info)"
  by (simp add: demo_end_server_def client_at_def arr_get_def)

lemma demo_connected: "connected_ids (demo_end_server scope) = {0}" "connecting_ids (demo_end_server scope) = {}"
  by (auto simp: connected_ids_def connecting_ids_def demo_client_at client_connecting_def boot_upd_def zero_client_info_def RESET_BOOTSTRAPPING_def
      split: if_splits)

lemma demo_end_server_wf: "server_wf (demo_end_server scope)"
  unfolding server_wf_def demo_connected
  by (simp add: demo_client_at generate_unique_client_id_def)
    (simp add: demo_end_server_def server_init_context_def boot_upd_def zero_client_info_def unused_slot_def)

lemma demo_end_server_simps [simp]:
  "sv_num_ongoing_connections (demo_end_server scope) = 0" "sv_num_connected_clients (demo_end_server scope) = 1" "\<not> sv_done (demo_end_server scope)"
  "sv_scope (demo_end_server scope) = scope"
  by (simp_all add: demo_end_server_def server_init_context_def)

lemma demo_start: "shutdown_start 0 (demo_engine_end (SCOPE_HOST_DPU # replicate m SCOPE_INTER_SERVICE_PROCS) n)"
  by (auto simp: shutdown_start_def demo_engine_end_def demo_end_server_wf demo_term_client_def nth_Cons')

lemma demo_connections: "connections (demo_engine_end scopes n) = length scopes + n"
  by (simp add: connections_def demo_engine_end_def sum_list_triv comp_def)

theorem orderly_shutdown_witness:
  "\<exists>e evs. shutdown_history (demo_engine_end [SCOPE_HOST_DPU] 1) evs e \<and> length evs = 2 \<and> te_state e = MIMOSA_ENGINE_STATE_TERMINATED"
proof -
  let ?e0 = "demo_engine_end [SCOPE_HOST_DPU] 1" and ?l = "Leave (\<lambda>_. Later) 0 0"
  have start: "shutdown_start 0 ?e0" "te_inter_sp_clients ?e0 \<noteq> []"
    using demo_start[of 0 1] by (simp_all add: demo_engine_end_def)
  have "shutdown_enabled ?l ?e0"
    by (simp add: demo_engine_end_def demo_connected)
  then obtain e1 where 1: "shutdown_history ?e0 [?l] e1"
    using shutdown_step_ok[OF shutdown_start_inv[OF start(1)]] shutdown_history.step[OF shutdown_history.start] by fastforce
  then obtain ev where ev: "shutdown_enabled ev e1"
    using orderly_shutdown[OF start 1] by (auto simp: demo_connections)
  then obtain e2 where 2: "shutdown_history ?e0 ([?l] @ [ev]) e2"
    using orderly_shutdown[OF start 1] shutdown_history.step[OF 1] by blast
  then show ?thesis
    using orderly_shutdown[OF start 2] by (intro exI[of _ e2] exI[of _ "[?l, ev]"]) (simp add: demo_connections)
qed

section \<open>Ends that go wrong\<close>

lemma leave_host_server:
  assumes inv: "shutdown_inv h e" and no: "te_inter_sp_clients e = []" and en: "shutdown_enabled (Leave ans h k) e" and d: "shutdown_do (Leave ans h k) e = Inr e'"
  shows "te_state e' = MIMOSA_ENGINE_STATE_INITIALIZED"
proof -
  let ?sv = "te_servers e ! h"
  have h: "h < length (te_servers e)" "sv_scope ?sv = SCOPE_HOST_DPU" "server_ok ?sv" "k \<in> connected_ids ?sv" "te_on_dpu e"
    using inv en by (simp_all add: shutdown_inv_def)
  obtain sv' where sv': "term_msg_server k ?sv = Inr (sv_done sv', sv')" "sv_scope sv' = SCOPE_HOST_DPU" "\<not> sv_done ?sv"
    using leave_server[OF h(3,4)] h(2) by auto
  have "filter (\<lambda>sv. \<not> sv_done sv) (te_servers e) \<noteq> []"
    using h(1) sv'(3) nth_mem[OF h(1)] by (auto simp: filter_empty_conv)
  then have "te_state e = MIMOSA_ENGINE_STATE_INITIALIZED"
    using inv by (cases "te_state e") (auto simp: shutdown_inv_def)
  then show ?thesis
    using d h sv' no by (auto simp: term_msg_cb_server_def Let_def disconnect_to_service_procs_def assertE_def split: if_splits)
qed

text \<open>C34: on a service process that connects to no other one, an engine whose last client is one of the hosts is never
  terminated: all servers are done and nothing is left to happen, but the state was not updated.\<close>

theorem host_server_closed_last:
  assumes "shutdown_start h e0" "te_inter_sp_clients e0 = []" "shutdown_history e0 (evs @ [Leave ans h k]) e" "length (evs @ [Leave ans h k]) = connections e0"
  shows "te_state e = MIMOSA_ENGINE_STATE_INITIALIZED \<and> (\<forall>sv \<in> set (te_servers e). sv_done sv) \<and> (\<forall>ev. \<not> shutdown_enabled ev e)"
proof -
  obtain e1 where e1: "shutdown_history e0 evs e1" "shutdown_enabled (Leave ans h k) e1" "shutdown_do (Leave ans h k) e1 = Inr e"
    using assms(3) by (rule shutdown_history_snocE) auto
  note i1 = shutdown_history_inv[OF e1(1) assms(1)] and i = shutdown_history_inv[OF assms(3,1)]
  have 0: "connections e = 0" "shutdown_inv h e"
    using i assms(4) by simp_all
  then have "\<forall>sv \<in> set (te_servers e). sv_done sv"
    using connections_0[OF 0(2)] by (auto simp: shutdown_inv_def filter_empty_conv)
  moreover have "\<not> shutdown_enabled ev e" for ev
    using shutdown_step_ok[OF 0(2), of ev] 0(1) by (auto simp: closes_one_def)
  ultimately show ?thesis
    using leave_host_server[OF _ _ e1(2,3)] i1 assms(2) by simp
qed

theorem host_server_closed_last_witness:
  "\<exists>e. shutdown_history (demo_engine_end [SCOPE_HOST_DPU] 0) [Leave (\<lambda>_. Later) 0 0] e \<and> te_state e = MIMOSA_ENGINE_STATE_INITIALIZED"
proof -
  let ?e0 = "demo_engine_end [SCOPE_HOST_DPU] 0" and ?l = "Leave (\<lambda>_. Later) 0 0"
  have start: "shutdown_start 0 ?e0" "te_inter_sp_clients ?e0 = []"
    using demo_start[of 0 0] by (simp_all add: demo_engine_end_def)
  have "shutdown_enabled ?l ?e0"
    by (simp add: demo_engine_end_def demo_connected)
  then obtain e1 where "shutdown_history ?e0 ([] @ [?l]) e1"
    using shutdown_step_ok[OF shutdown_start_inv[OF start(1)]] shutdown_history.step[OF shutdown_history.start] by blast
  with host_server_closed_last[OF start, of "[]"] show ?thesis
    by (auto simp: demo_connections)
qed

text \<open>C35: when the last connection of a service process is one of its server for service processes, and the message of
  its client arrives while the UCX worker is progressed in the pass over a client for another service process, the
  handler frees the execution context of the pass, which is then accessed.\<close>

theorem pass_after_free:
  assumes "shutdown_start h e0" "shutdown_history e0 evs e" "connections e = 1"
    and "shutdown_enabled (Leave ans s k) e" "i < length (te_inter_sp_clients e)"
  shows "execution_context_progress (shutdown_do (Leave ans s k)) completes (Inter_sp_client i) e = Inl Out_of_bounds"
proof -
  have inv: "shutdown_inv h e"
    using shutdown_history_inv[OF assms(2,1)] by simp
  obtain e' where e': "shutdown_do (Leave ans s k) e = Inr e'" "shutdown_inv h e'" "connections e' = 0" "length (te_inter_sp_clients e') = length (te_inter_sp_clients e)"
    using shutdown_step_ok[OF inv assms(4)] assms(3) by (auto simp: closes_one_def)
  have "te_state e' = MIMOSA_ENGINE_STATE_TERMINATED"
    using connections_0[OF e'(2)] e'(2-4) assms(5) by (cases "te_state e'") (auto simp: shutdown_inv_def)
  then have none: "client_of (Inter_sp_client i) e' = None"
    using e'(2,4) assms(5) nth_mem[of i "te_inter_sp_clients e'"] by (auto simp: shutdown_inv_def)
  have "te_state e = MIMOSA_ENGINE_STATE_INITIALIZED"
    using connections_0[OF inv] inv assms(3) by (cases "te_state e") (auto simp: shutdown_inv_def pending_def filter_empty_conv)
  then obtain c where "client_of (Inter_sp_client i) e = Some c"
    using inv assms(5) nth_mem[of i "te_inter_sp_clients e"] by (fastforce simp: shutdown_inv_def client_ok_def split: option.splits)
  then show ?thesis
    unfolding execution_context_progress_def by (simp add: e'(1) none del: client_of.simps shutdown_do.simps)
qed

lemma demo_leave:
  "shutdown_enabled (Leave (\<lambda>_. Later) 0 0) (demo_engine_end (SCOPE_HOST_DPU # scopes) n)"
  by (simp add: demo_engine_end_def demo_connected)

text \<open>Two servers and a client: the host leaves, the message to the other service process completes, and the last message
  arrives in the pass over the client.\<close>

theorem pass_after_free_witness:
  "\<exists>e. shutdown_history (demo_engine_end [SCOPE_HOST_DPU, SCOPE_INTER_SERVICE_PROCS] 1) [Leave (\<lambda>_. Now ()) 0 0, Sent 0] e
     \<and> execution_context_progress (shutdown_do (Leave (\<lambda>_. Now ()) 1 0)) False (Inter_sp_client 0) e = Inl Out_of_bounds"
proof -
  let ?e0 = "demo_engine_end [SCOPE_HOST_DPU, SCOPE_INTER_SERVICE_PROCS] 1" and ?l = "Leave (\<lambda>_. Now ()) 0 0"
  have start: "shutdown_start 0 ?e0"
    using demo_start[of 1 1] by simp
  obtain sv' where t: "term_msg_server 0 (demo_end_server SCOPE_HOST_DPU) = Inr (True, sv')" "sv_scope sv' = SCOPE_HOST_DPU"
    by (auto simp: term_msg_server_def Let_def)
  have "shutdown_do ?l ?e0 = Inr (?e0\<lparr>te_servers := [sv', demo_end_server SCOPE_INTER_SERVICE_PROCS], te_servers_num_active := 1,
      te_inter_sp_clients := [Some (demo_term_client\<lparr>tcl_term_ev := Some True\<rparr>)]\<rparr>)"
    by (simp add: term_msg_cb_server_def t demo_engine_end_def disconnect_to_service_procs_def client_fini_nb_spec)
  then obtain e1 where e1: "shutdown_do ?l ?e0 = Inr e1" "te_inter_sp_clients e1 = [Some (demo_term_client\<lparr>tcl_term_ev := Some True\<rparr>)]"
    "te_servers e1 = [sv', demo_end_server SCOPE_INTER_SERVICE_PROCS]" "te_clients_num_active e1 = 1" "te_servers_num_active e1 = 1"
    by (auto simp: demo_engine_end_def)
  have "shutdown_enabled ?l ?e0"
    by (simp add: demo_engine_end_def demo_connected)
  from shutdown_history.step[OF shutdown_history.start this e1(1)] have h1: "shutdown_history ?e0 [?l] e1"
    by simp
  have "\<exists>e2. shutdown_do (Sent 0) e1 = Inr e2 \<and> te_servers e2 = te_servers e1"
    by (simp add: execution_context_progress_def e1 term_notification_completed_def update_engine_state_def)
  then obtain e2 where e2: "shutdown_do (Sent 0) e1 = Inr e2" "te_servers e2 = te_servers e1"
    by blast
  have "shutdown_enabled (Sent 0) e1"
    by (simp add: e1)
  from shutdown_history.step[OF h1 this e2(1)] have h2: "shutdown_history ?e0 [?l, Sent 0] e2"
    by simp
  have "connections e2 = 1" "length (te_inter_sp_clients e2) = 1"
    using shutdown_history_inv[OF h2 start] by (simp_all add: demo_connections) (simp add: demo_engine_end_def)
  moreover have "shutdown_enabled (Leave (\<lambda>_. Now ()) 1 0) e2"
    by (simp add: e2(2) e1(3) demo_connected)
  ultimately show ?thesis
    using pass_after_free[OF start h2] h2 by auto
qed

section \<open>Leaving a server and waiting for it\<close>

text \<open>The message is under way, and is completed in one of the passes.\<close>

lemma client_fini_loop_done:
  assumes "te_bootstrap e = Some c" "\<not> tcl_done c" "tcl_term_ev c = Some b" "0 < te_clients_num_active e" "\<not> te_on_dpu e"
    and "\<exists>m < n. completes (k + m)"
  shows "\<exists>e' c'. client_fini_loop n completes k Bootstrap_client e = Inr e' \<and> te_bootstrap e' = Some c' \<and> tcl_done c'
     \<and> te_clients_num_active e' = te_clients_num_active e - 1 \<and> te_servers_num_active e' = te_servers_num_active e
     \<and> te_state e' = (if te_clients_num_active e' = 0 \<and> te_servers_num_active e' = 0 then MIMOSA_ENGINE_STATE_TERMINATED else te_state e)"
  using assms
proof (induction n arbitrary: e c b k)
  case (Suc n)
  show ?case
  proof (cases "b \<or> completes k")
    case True
    let ?c = "(release_bootstrap (c\<lparr>tcl_term_ev := None\<rparr>))\<lparr>tcl_done := True\<rparr>"
    have "\<exists>e1. execution_context_progress Inr (completes k) Bootstrap_client e = Inr e1 \<and> te_bootstrap e1 = Some ?c
        \<and> te_clients_num_active e1 = te_clients_num_active e - 1 \<and> te_servers_num_active e1 = te_servers_num_active e
        \<and> te_state e1 = (if te_clients_num_active e1 = 0 \<and> te_servers_num_active e1 = 0 then MIMOSA_ENGINE_STATE_TERMINATED else te_state e)"
      using Suc.prems True by (auto simp: execution_context_progress_def Let_def term_notification_completed_def update_engine_state_def)
    then show ?thesis
      using Suc.prems by (subst client_fini_loop.simps) (auto simp: client_fini_loop.simps[of n])
  next
    case False
    define e1 where "e1 = e\<lparr>te_bootstrap := Some (c\<lparr>tcl_term_ev := Some False\<rparr>)\<rparr>"
    have p: "execution_context_progress Inr (completes k) Bootstrap_client e = Inr e1"
      using Suc.prems False by (simp add: execution_context_progress_def Let_def e1_def)
    obtain m where m: "m < Suc n" "completes (k + m)"
      using Suc.prems(6) by blast
    with False have "0 < m"
      by (cases m) auto
    with m have "\<exists>m < n. completes (Suc k + m)"
      by (intro exI[of _ "m - 1"]) auto
    with Suc.IH[of e1 "c\<lparr>tcl_term_ev := Some False\<rparr>" False "Suc k"] show ?thesis
      using Suc.prems p by (subst client_fini_loop.simps) (auto simp: e1_def)
  qed
qed simp

text \<open>No message is under way.\<close>

lemma client_fini_loop_stuck:
  assumes "te_bootstrap e = Some c" "\<not> tcl_done c" "tcl_term_ev c = None"
  shows "client_fini_loop n completes k Bootstrap_client e = Inl No_return"
  using assms
proof (induction n arbitrary: k)
  case 0
  then show ?case by (subst client_fini_loop.simps) simp
next
  case (Suc n)
  have "execution_context_progress Inr (completes k) Bootstrap_client e = Inr e"
    using Suc.prems by (cases e; cases c) (simp add: execution_context_progress_def Let_def)
  with Suc show ?case
    by (subst client_fini_loop.simps) simp
qed

text \<open>C33: a process on a host that leaves its server returns as soon as the termination message is completed, with its
  client freed, and the engine terminated when it was the last connection.  If the message cannot be sent it waits for
  ever: the failure is not reported to the loop.\<close>

theorem client_fini_returns:
  assumes "te_bootstrap e = Some c" "\<not> tcl_done c" "tcl_term_ev c = None" "0 < te_clients_num_active e" "\<not> te_on_dpu e"
  shows "(ans \<noteq> Failed \<longrightarrow> completes k \<longrightarrow> k < n \<longrightarrow> (\<exists>e'. client_fini n ans completes Bootstrap_client e = Inr e' \<and> te_bootstrap e' = None
        \<and> (te_clients_num_active e = 1 \<and> te_servers_num_active e = 0 \<longrightarrow> te_state e' = MIMOSA_ENGINE_STATE_TERMINATED)))
    \<and> client_fini n Failed completes Bootstrap_client e = Inl No_return"
proof (intro conjI impI)
  assume a: "ans \<noteq> Failed" "completes k" "k < n"
  then obtain b where nb: "client_fini_nb ans Bootstrap_client e = Inr (e\<lparr>te_bootstrap := Some (c\<lparr>tcl_term_ev := Some b\<rparr>)\<rparr>)"
    using client_fini_nb_spec[of Bootstrap_client e c ans] assms(1) by simp
  let ?e = "e\<lparr>te_bootstrap := Some (c\<lparr>tcl_term_ev := Some b\<rparr>)\<rparr>"
  have "\<exists>m < n. completes (0 + m)"
    using a(2,3) by auto
  from client_fini_loop_done[of ?e "c\<lparr>tcl_term_ev := Some b\<rparr>" b n completes 0, OF _ _ _ _ _ this] obtain e' where
    l: "client_fini_loop n completes 0 Bootstrap_client ?e = Inr e'"
      "te_clients_num_active e' = te_clients_num_active e - 1" "te_servers_num_active e' = te_servers_num_active e"
      "te_state e' = (if te_clients_num_active e' = 0 \<and> te_servers_num_active e' = 0 then MIMOSA_ENGINE_STATE_TERMINATED else te_state e)"
    using assms by auto
  show "\<exists>e'. client_fini n ans completes Bootstrap_client e = Inr e' \<and> te_bootstrap e' = None
      \<and> (te_clients_num_active e = 1 \<and> te_servers_num_active e = 0 \<longrightarrow> te_state e' = MIMOSA_ENGINE_STATE_TERMINATED)"
    using assms(1) nb l by (simp add: client_fini_def)
next
  have "client_fini_nb Failed Bootstrap_client e = Inr e"
    using assms(1) by (simp add: client_fini_nb_def send_term_msg_def)
  then show "client_fini n Failed completes Bootstrap_client e = Inl No_return"
    using assms(1) client_fini_loop_stuck[OF assms(1-3)] by (simp add: client_fini_def)
qed

theorem client_fini_returns_witness:
  "\<exists>e'. client_fini 4 Later (\<lambda>k. k = 3) Bootstrap_client
     ((demo_engine_end [] 0)\<lparr>te_on_dpu := False, te_clients_num_active := 1, te_bootstrap := Some demo_term_client\<rparr>) = Inr e'
   \<and> te_state e' = MIMOSA_ENGINE_STATE_TERMINATED"
  using client_fini_returns[of "(demo_engine_end [] 0)\<lparr>te_on_dpu := False, te_clients_num_active := 1, te_bootstrap := Some demo_term_client\<rparr>"
      demo_term_client Later "\<lambda>k. k = 3" 3 4]
  by (auto simp: demo_term_client_def demo_engine_end_def)

end
