(* ===== verification/Rendezvous.thy ===== *)
theory Rendezvous
imports Notifications Smart_Buffers Bootstrap
begin

text \<open>
  Big notifications (\<open>src/src/dpu_offload_event_channels.c\<close>): UCX announces the message, the library gives it a buffer
  to receive the payload in, and the notification is handled when the payload has arrived.  The buffer comes from the
  memory pool of the type of the notification, from the smart buffers or from the heap; the receive is described
  by an element of a pool.
\<close>

section \<open>State\<close>

datatype recv_buf = Pool_buf nat | Smart_buf ptr | Heap_buf blk

text \<open>The payload is what UCX will have stored in the buffer when the receive completes; \<open>hdr_len\<close> is only passed on and
  \<open>desc\<close> is not used.\<close>

record pending_am_rdv_recv_t =
  rdv_engine :: bool
  rdv_hdr :: "am_header_t option"
  rdv_req :: bool
  rdv_payload_size :: nat
  rdv_buff_size :: nat
  rdv_user_data :: "recv_buf option"
  rdv_pool :: notification_info_t
  rdv_smart_chunk :: "ptr option"
  rdv_payload :: "nat list"

definition RESET_PENDING_RDV_RECV :: "pending_am_rdv_recv_t \<Rightarrow> pending_am_rdv_recv_t" where
  "RESET_PENDING_RDV_RECV r = r\<lparr>rdv_engine := False, rdv_hdr := None, rdv_req := False, rdv_payload_size := 0, rdv_buff_size := 0,
     rdv_user_data := None, rdv_smart_chunk := None, rdv_pool := RESET_NOTIF_INFO (rdv_pool r)\<rparr>"

definition sizeof_pending_rdv_recv :: u64 where "sizeof_pending_rdv_recv = 152"

text \<open>The pool of descriptors is missing when the engine is being finalised; smart buffers are used when they are enabled, on a
  heap of their own.  Buffers of memory pools are handed out and returned by callbacks of the user; the buffers
  that were returned are recorded.\<close>

record rdv_engine_t =
  re_route :: route_engine_t
  re_ctxs :: "nat \<Rightarrow> notif_sys_t option"
  re_free_pending :: "pending_am_rdv_recv_t dyn_list_t option"
  re_heap :: heap
  re_smart :: "(smart_buffers_t \<times> heap) option"
  re_returned :: "nat list"

definition rdv_write :: "ptr \<Rightarrow> (pending_am_rdv_recv_t \<Rightarrow> pending_am_rdv_recv_t) \<Rightarrow> pending_am_rdv_recv_t dyn_list_t \<Rightarrow> pending_am_rdv_recv_t dyn_list_t" where
  "rdv_write p f dl = dl\<lparr>dl_elts := (dl_elts dl)(p := f (dl_elts dl p))\<rparr>"

text \<open>\<open>init_pending_am_rdv_recv_t\<close> initialises the elements of the pool.\<close>

definition init_pending_am_rdv_recv_t :: "pending_am_rdv_recv_t \<Rightarrow> pending_am_rdv_recv_t" where
  "init_pending_am_rdv_recv_t elt = RESET_PENDING_RDV_RECV elt"

text \<open>The part of \<open>offload_engine_init\<close> for these receives; the pool is missing when it cannot be allocated.\<close>

definition rdv_init :: "(ptr \<Rightarrow> pending_am_rdv_recv_t) \<Rightarrow> route_engine_t \<Rightarrow> (nat \<Rightarrow> notif_sys_t option) \<Rightarrow> (smart_buffers_t \<times> heap) option
    \<Rightarrow> heap \<Rightarrow> rdv_engine_t res" where
  "rdv_init mem route ctxs smart h =
     bindE (DYN_LIST_ALLOC_WITH_INIT_CALLBACK sizeof_pending_rdv_recv mem 32 init_pending_am_rdv_recv_t h) (\<lambda>(dl, h1).
     Inr \<lparr>re_route = route, re_ctxs = ctxs, re_free_pending = dl, re_heap = h1, re_smart = smart, re_returned = []\<rparr>)"

section \<open>The payload has arrived\<close>

text \<open>Giving the buffer back; only blocks of the heap can be freed.\<close>

definition free_user_data :: "recv_buf option \<Rightarrow> heap \<Rightarrow> heap res" where
  "free_user_data ud h = (case ud of None \<Rightarrow> Inr h | Some (Heap_buf b) \<Rightarrow> free_blk b h | Some _ \<Rightarrow> Inl Bad_free)"

definition return_pool_buf :: "recv_buf option \<Rightarrow> rdv_engine_t \<Rightarrow> rdv_engine_t" where
  "return_pool_buf ud e = (case ud of Some (Pool_buf b) \<Rightarrow> e\<lparr>re_returned := re_returned e @ [b]\<rparr> | _ \<Rightarrow> e)"

definition release_buf :: "ptr \<Rightarrow> pending_am_rdv_recv_t dyn_list_t \<Rightarrow> rdv_engine_t \<Rightarrow> (pending_am_rdv_recv_t dyn_list_t \<times> rdv_engine_t) res" where
  "release_buf p dl e =
     (let r = dl_elts dl p in
      case (ni_mem_pool (rdv_pool r), ni_return_buf (rdv_pool r), rdv_user_data r) of
        (Some _, True, ud) \<Rightarrow>
          Inr (rdv_write p (\<lambda>r. r\<lparr>rdv_pool := RESET_NOTIF_INFO (rdv_pool r)\<rparr>) dl,
               return_pool_buf ud e)
      | (_, _, ud) \<Rightarrow>
          (case re_smart e of
             Some (sys, hs) \<Rightarrow>
               bindE (derefE (rdv_smart_chunk r)) (\<lambda>c.
               bindE (SMART_BUFF_RETURN (rdv_payload_size r) c sys) (\<lambda>sys1.
               Inr (rdv_write p (\<lambda>r. r\<lparr>rdv_smart_chunk := None, rdv_user_data := None\<rparr>) dl, e\<lparr>re_smart := Some (sys1, hs)\<rparr>)))
           | None \<Rightarrow>
               bindE (free_user_data ud (re_heap e)) (\<lambda>h.
               Inr (rdv_write p (rdv_user_data_update (\<lambda>_. None)) dl, e\<lparr>re_heap := h\<rparr>))))"

definition am_rdv_recv_cb :: "nat \<Rightarrow> ptr \<Rightarrow> rdv_engine_t \<Rightarrow> rdv_engine_t res" where
  "am_rdv_recv_cb len p e =
     bindE (derefE (re_free_pending e)) (\<lambda>dl.
     let r = dl_elts dl p in
     bindE (assertE (rdv_engine r)) (\<lambda>_.
     bindE (derefE (rdv_hdr r)) (\<lambda>hdr.
     bindE (get_associated_econtext (re_route e) hdr) (\<lambda>ec.
     bindE (assertE (ec \<noteq> None)) (\<lambda>_.
     bindE (derefE (re_ctxs e (the ec))) (\<lambda>ns.
     bindE (handle_notif_msg (the ec) hdr (map_option (\<lambda>_. rdv_payload r) (rdv_user_data r)) ns) (\<lambda>(ok, ns1).
     let e1 = e\<lparr>re_ctxs := (re_ctxs e)(the ec \<mapsto> ns1)\<rparr> in
     if \<not> ok then Inr e1
     else
       bindE (if 0 < len then release_buf p dl e1 else Inr (dl, e1)) (\<lambda>(dl1, e2).
       Inr (e2\<lparr>re_free_pending := Some (DYN_LIST_RETURN p dl1)\<rparr>)))))))))"

section \<open>A message is announced\<close>

text \<open>The buffer for the payload.\<close>

definition take_buf :: "nat \<Rightarrow> u64 \<Rightarrow> notif_sys_t \<Rightarrow> pending_am_rdv_recv_t \<Rightarrow> rdv_engine_t
    \<Rightarrow> (notif_sys_t \<times> pending_am_rdv_recv_t \<times> rdv_engine_t) res" where
  "take_buf payload_size type ns r e =
     bindE (get_notif_callback_entry type ns) (\<lambda>(i, en, ns1).
     if ni_mem_pool (nc_info en) \<noteq> None then
       bindE (get_notif_buf type ns1) (\<lambda>(b, ns2).
       bindE (assertE (b \<noteq> None)) (\<lambda>_.
       Inr (ns2, r\<lparr>rdv_user_data := Some (Pool_buf (the b)), rdv_buff_size := payload_size, rdv_pool := COPY_NOTIF_INFO (nc_info en) (rdv_pool r)\<rparr>, e)))
     else
       case re_smart e of
         Some (sys, hs) \<Rightarrow>
           bindE (SMART_BUFF_GET payload_size (sys, hs)) (\<lambda>(c, sys1, hs1).
           Inr (ns1, r\<lparr>rdv_smart_chunk := Some c,
                  rdv_user_data := (case fst (sc_base (dl_elts (sb_smart_chunk_desc_pool sys1) c)) of None \<Rightarrow> None | Some _ \<Rightarrow> Some (Smart_buf c)),
                  rdv_buff_size := payload_size\<rparr>, e\<lparr>re_smart := Some (sys1, hs1)\<rparr>))
       | None \<Rightarrow>
           (case malloc (of_nat payload_size) (re_heap e) of (b, h) \<Rightarrow>
            Inr (ns1, r\<lparr>rdv_user_data := map_option Heap_buf b, rdv_buff_size := payload_size\<rparr>, e\<lparr>re_heap := h\<rparr>)))"

text \<open>What UCX answers: the payload is there already, will arrive later, or the receive failed.  The result is the descriptor,
  unless the message was dropped.  The header is kept by value, where the code keeps the pointer UCX passed to it; and when the
  payload is there already the code ends with \<open>ucp_request_free\<close> of a request that was never set, a call that is taken
  to do nothing.\<close>

definition am_notification_recv_rdv_msg :: "unit answer \<Rightarrow> am_header_t \<Rightarrow> nat list \<Rightarrow> rdv_engine_t \<Rightarrow> (ptr option \<times> rdv_engine_t) res" where
  "am_notification_recv_rdv_msg ans hdr payload e =
     (if re_free_pending e = None \<and> hdr_type hdr = AM_PEER_CACHE_ENTRIES_MSG_ID then Inr (None, e)
      else
        bindE (derefE (re_free_pending e)) (\<lambda>dl.
        bindE (DYN_LIST_GET sizeof_pending_rdv_recv dl (re_heap e)) (\<lambda>(p, dl1, h1).
        let r = RESET_PENDING_RDV_RECV (dl_elts dl1 p); e1 = e\<lparr>re_heap := h1\<rparr> in
        bindE (get_associated_econtext (re_route e) hdr) (\<lambda>ec.
        bindE (assertE (ec \<noteq> None)) (\<lambda>_.
        bindE (derefE (re_ctxs e (the ec))) (\<lambda>ns.
        bindE (take_buf (length payload) (of_nat (hdr_type hdr)) ns r e1) (\<lambda>(ns1, r1, e2).
        bindE (assertE (rdv_user_data r1 \<noteq> None)) (\<lambda>_.
        let r2 = r1\<lparr>rdv_hdr := Some hdr, rdv_engine := True, rdv_payload_size := length payload, rdv_payload := payload,
                   rdv_req := (ans = Later)\<rparr>;
            e3 = e2\<lparr>re_free_pending := Some (rdv_write p (\<lambda>_. r2) dl1), re_ctxs := (re_ctxs e2)(the ec \<mapsto> ns1)\<rparr> in
        case ans of
          Now _ \<Rightarrow>
            bindE (handle_notif_msg (the ec) hdr (Some payload) ns1) (\<lambda>(ok, ns2).
            Inr (Some p, e3\<lparr>re_ctxs := (re_ctxs e3)(the ec \<mapsto> ns2)\<rparr>))
        | _ \<Rightarrow> Inr (Some p, e3)))))))))"

section \<open>The end of the engine\<close>

text \<open>The part of \<open>offload_engine_fini\<close> for these receives: the descriptors are taken out of the pool one by one, as many as
  the pool has elements, and the buffers found in them are given back; then the pool is freed.  The loop may not end:
  the first argument bounds the number of iterations, no result is what is left when they are used up.\<close>

definition fini_rdv_step :: "rdv_engine_t \<Rightarrow> rdv_engine_t res" where
  "fini_rdv_step e =
     bindE (derefE (re_free_pending e)) (\<lambda>dl.
     bindE (DYN_LIST_GET sizeof_pending_rdv_recv dl (re_heap e)) (\<lambda>(p, dl1, h).
     let r = dl_elts dl1 p in
     if rdv_buff_size r = 0 then Inr (e\<lparr>re_free_pending := Some dl1, re_heap := h\<rparr>)
     else case rdv_user_data r of
       None \<Rightarrow> Inr (e\<lparr>re_free_pending := Some (rdv_write p (rdv_buff_size_update (\<lambda>_. 0)) dl1), re_heap := h\<rparr>)
     | Some ud \<Rightarrow>
         if ni_mem_pool (rdv_pool r) \<noteq> None \<and> ni_return_buf (rdv_pool r)
         then Inr (return_pool_buf (Some ud)
                (e\<lparr>re_free_pending := Some (rdv_write p (\<lambda>r. r\<lparr>rdv_pool := RESET_NOTIF_INFO (rdv_pool r), rdv_user_data := None,
                     rdv_buff_size := 0\<rparr>) dl1), re_heap := h\<rparr>))
         else
           bindE (free_user_data (Some ud) h) (\<lambda>h1.
           Inr (e\<lparr>re_free_pending := Some (rdv_write p (\<lambda>r. r\<lparr>rdv_user_data := None, rdv_buff_size := 0\<rparr>) dl1), re_heap := h1\<rparr>))))"

primrec fini_rdv_loop :: "nat \<Rightarrow> u64 \<Rightarrow> rdv_engine_t \<Rightarrow> rdv_engine_t option res" where
  "fini_rdv_loop 0 i e = Inr None"
| "fini_rdv_loop (Suc n) i e =
     bindE (derefE (re_free_pending e)) (\<lambda>dl.
     if i < dl_capacity dl then bindE (fini_rdv_step e) (fini_rdv_loop n (i + 1)) else Inr (Some e))"

definition fini_pending_rdv_recvs :: "nat \<Rightarrow> rdv_engine_t \<Rightarrow> rdv_engine_t option res" where
  "fini_pending_rdv_recvs n e =
     bindE (fini_rdv_loop n 0 e) (\<lambda>r.
     case r of
       None \<Rightarrow> Inr None
     | Some e1 \<Rightarrow>
         bindE (derefE (re_free_pending e1)) (\<lambda>dl.
         bindE (DYN_LIST_FREE dl (re_heap e1)) (\<lambda>h.
         Inr (Some (e1\<lparr>re_free_pending := None, re_heap := h\<rparr>)))))"

end
