(* ===== verification/Rendezvous_Properties.thy ===== *)
theory Rendezvous_Properties
imports Rendezvous Notification_Delivery Event_Invariants
begin

text \<open>
  What the receives of big notifications guarantee: every descriptor in use and every buffer of the heap belongs to a message
  whose payload has not arrived or whose receive was completed at once or failed, and every payload that arrived was
  handed over once.  What stops the engine from being finalised: receives that complete at once, and buffers of memory
  pools.
\<close>

section \<open>Buffers and descriptors\<close>

definition heap_bufs :: "pending_am_rdv_recv_t dyn_list_t \<Rightarrow> ptr set \<Rightarrow> blk set" where
  "heap_bufs dl ps = {b. \<exists>p \<in> ps. rdv_user_data (dl_elts dl p) = Some (Heap_buf b)}"

definition pend_ok :: "am_header_t \<times> nat list \<Rightarrow> pending_am_rdv_recv_t \<Rightarrow> bool" where
  "pend_ok m r =
     (rdv_engine r \<and> rdv_hdr r = Some (fst m) \<and> rdv_payload r = snd m \<and> rdv_payload_size r = length (snd m)
      \<and> rdv_buff_size r = length (snd m)
      \<and> ((\<exists>b. rdv_user_data r = Some (Heap_buf b)) \<and> ni_mem_pool (rdv_pool r) = None
         \<or> (\<exists>b. rdv_user_data r = Some (Pool_buf b)) \<and> ni_mem_pool (rdv_pool r) \<noteq> None))"

text \<open>A free descriptor has no buffer, or still points to a buffer that was returned to its memory pool.\<close>

definition free_ok :: "nat list \<Rightarrow> pending_am_rdv_recv_t \<Rightarrow> bool" where
  "free_ok ret r = (case rdv_user_data r of None \<Rightarrow> True | Some (Pool_buf b) \<Rightarrow> b \<in> set ret | Some _ \<Rightarrow> False)"

definition rdv_inv :: "blk set \<Rightarrow> rdv_engine_t \<Rightarrow> pending_am_rdv_recv_t dyn_list_t \<Rightarrow> (ptr \<rightharpoonup> am_header_t \<times> nat list) \<Rightarrow> bool" where
  "rdv_inv base e dl P =
     (re_free_pending e = Some dl \<and> re_smart e = None
      \<and> dl_wf sizeof_pending_rdv_recv dl (re_heap e) \<and> dl_element_init_cb dl = Some init_pending_am_rdv_recv_t
      \<and> dl_used dl = dom P \<and> (\<forall>p m. P p = Some m \<longrightarrow> pend_ok m (dl_elts dl p))
      \<and> (\<forall>q \<in> dl_free dl. free_ok (re_returned e) (dl_elts dl q))
      \<and> live_blks (re_heap e) - pool_blks dl = base \<union> heap_bufs dl (dom P) \<and> base \<inter> heap_bufs dl (dom P) = {}
      \<and> (\<forall>p q b. p \<in> dom P \<longrightarrow> q \<in> dom P \<longrightarrow> rdv_user_data (dl_elts dl p) = Some (Heap_buf b)
           \<longrightarrow> rdv_user_data (dl_elts dl q) = Some (Heap_buf b) \<longrightarrow> p = q))"

lemma pool_blks_elts [simp]: "pool_blks (dl_elts_update f dl) = pool_blks dl" "pool_blks (DYN_LIST_RETURN p dl) = pool_blks dl"
  by (simp_all add: pool_blks_def chunk_blks_def chunk_ptrs_def DYN_LIST_RETURN_def)

lemma rdv_write_simps [simp]:
  "dl_elts (rdv_write p f dl) = (dl_elts dl)(p := f (dl_elts dl p))" "dl_used (rdv_write p f dl) = dl_used dl"
  "dl_free (rdv_write p f dl) = dl_free dl" "dl_wf sz (rdv_write p f dl) h = dl_wf sz dl h"
  "pool_blks (rdv_write p f dl) = pool_blks dl" "dl_element_init_cb (rdv_write p f dl) = dl_element_init_cb dl"
  by (simp_all add: rdv_write_def)

lemma pool_blks_in_heap: "dl_wf sz dl h \<Longrightarrow> pool_blks dl \<subseteq> live_blks h"
  by (force simp: dl_wf_def dl_chunks_wf_def da_wf_def pool_blks_def live_blks_def)

lemma free_blk_dl_wf:
  assumes "dl_wf sz dl h" "b \<in> live_blks h" "b \<notin> pool_blks dl"
  shows "\<exists>h'. free_blk b h = Inr h' \<and> dl_wf sz dl h' \<and> live_blks h' = live_blks h - {b}"
proof -
  from free_blk_keeps[of h b] assms(1,2) obtain h' where h': "free_blk b h = Inr h'" "wf_heap h'"
      "live_blks h' = live_blks h - {b}" "set (h_live h') = {e \<in> set (h_live h). fst e \<noteq> b}"
    by (auto simp: dl_wf_def)
  have "dl_wf sz dl h'"
    using assms h'(2,4) by (auto simp: dl_wf_def dl_chunks_wf_def da_wf_def pool_blks_def)
  with h' show ?thesis
    by blast
qed

lemma free_ok_init: "free_ok ret (init_pending_am_rdv_recv_t r)"
  by (simp add: free_ok_def init_pending_am_rdv_recv_t_def RESET_PENDING_RDV_RECV_def)

lemma rdv_init_inv:
  assumes "wf_heap h" "rdv_init mem route ctxs None h = Inr e" "re_free_pending e \<noteq> None"
  shows "\<exists>dl. rdv_inv (live_blks h) e dl Map.empty" "re_ctxs e = ctxs" "re_route e = route" "re_returned e = []"
proof -
  obtain dl h1 where d: "dyn_list_alloc_with sizeof_pending_rdv_recv mem 32 (Some init_pending_am_rdv_recv_t) h = Inr (Some dl, h1)"
    and e: "e = \<lparr>re_route = route, re_ctxs = ctxs, re_free_pending = Some dl, re_heap = h1, re_smart = None, re_returned = []\<rparr>"
    using assms(2,3) by (auto simp: rdv_init_def DYN_LIST_ALLOC_WITH_INIT_CALLBACK_def res_simps)
  have "dl_wf sizeof_pending_rdv_recv dl h1 \<and> dl_used dl = {} \<and> dl_allocation_size dl = 32
         \<and> live_blks h1 - pool_blks dl = live_blks h \<and> dl_element_init_cb dl = Some init_pending_am_rdv_recv_t
         \<and> (\<forall>fn. Some init_pending_am_rdv_recv_t = Some fn \<longrightarrow> dl_elts dl ` dl_free dl \<subseteq> range fn)"
    by (rule dyn_list_alloc_spec[OF assms(1) _ _ _ d]) (simp_all add: sizeof_pending_rdv_recv_def)
  then have "rdv_inv (live_blks h) e dl Map.empty"
    using free_ok_init by (auto simp: rdv_inv_def e heap_bufs_def image_subset_iff)
  then show "\<exists>dl. rdv_inv (live_blks h) e dl Map.empty"
    by blast
  show "re_ctxs e = ctxs" "re_route e = route" "re_returned e = []"
    by (simp_all add: e)
qed

section \<open>A message is announced\<close>

text \<open>The buffer comes from the memory pool of the type or is a new block.\<close>

lemma take_buf_cases:
  assumes "take_buf n t ns r e = Inr (ns1, r1, e1)" "re_smart e = None" "ni_mem_pool (rdv_pool r) = None" "rdv_user_data r1 \<noteq> None"
  obtains (pool) b i where "e1 = e"
      "r1 = r\<lparr>rdv_user_data := Some (Pool_buf b), rdv_buff_size := n, rdv_pool := COPY_NOTIF_INFO i (rdv_pool r)\<rparr>" "ni_mem_pool i \<noteq> None"
    | (heap) b h where "malloc (of_nat n) (re_heap e) = (Some b, h)" "e1 = e\<lparr>re_heap := h\<rparr>"
      "r1 = r\<lparr>rdv_user_data := Some (Heap_buf b), rdv_buff_size := n\<rparr>"
proof -
  obtain i en ns2 where g: "get_notif_callback_entry t ns = Inr (i, en, ns2)"
    using assms(1) by (auto simp: take_buf_def res_simps)
  show thesis
  proof (cases "ni_mem_pool (nc_info en) = None")
    case False
    with assms(1) g obtain b where "e1 = e" "r1 = r\<lparr>rdv_user_data := Some (Pool_buf b), rdv_buff_size := n,
        rdv_pool := COPY_NOTIF_INFO (nc_info en) (rdv_pool r)\<rparr>"
      by (auto simp: take_buf_def res_simps)
    with False pool show thesis
      by blast
  next
    case True
    obtain b h where m: "malloc (of_nat n) (re_heap e) = (b, h)"
      by force
    with True assms(1,2) g have "e1 = e\<lparr>re_heap := h\<rparr>" "r1 = r\<lparr>rdv_user_data := map_option Heap_buf b, rdv_buff_size := n\<rparr>"
      by (auto simp: take_buf_def res_simps)
    with m assms(4) heap show thesis
      by (cases b) auto
  qed
qed

lemma take_buf_steps:
  assumes "ns_wf ns" "unat t < 2 ^ 32" "re_smart e = None" "take_buf n t ns r e = Inr (ns1, r1, e1)"
  shows "steps_to ns (\<lambda>_. []) ns1"
proof -
  obtain i en ns2 where g: "get_notif_callback_entry t ns = Inr (i, en, ns2)"
    using assms(4) by (auto simp: take_buf_def res_simps)
  note s = get_entry_step(1)[OF assms(1,2) g]
  show ?thesis
  proof (cases "ni_mem_pool (nc_info en) = None")
    case True
    with assms(3,4) g have "ns1 = ns2"
      by (auto simp: take_buf_def res_simps split: prod.splits)
    with s show ?thesis
      by simp
  next
    case False
    with assms(4) g obtain j en' where "get_notif_callback_entry t ns2 = Inr (j, en', ns1)"
      by (auto simp: take_buf_def get_notif_buf_def res_simps split: if_splits)
    from steps_to_trans[OF s get_entry_step(1)[OF _ assms(2) this]] s show ?thesis
      by (simp add: steps_to_def)
  qed
qed

text \<open>The descriptor of an announced message.\<close>

definition rdv_desc :: "unit answer \<Rightarrow> am_header_t \<Rightarrow> nat list \<Rightarrow> pending_am_rdv_recv_t \<Rightarrow> pending_am_rdv_recv_t" where
  "rdv_desc ans hdr pl r =
     r\<lparr>rdv_hdr := Some hdr, rdv_engine := True, rdv_payload_size := length pl, rdv_payload := pl, rdv_req := (ans = Later)\<rparr>"

lemma announce_cases:
  assumes "am_notification_recv_rdv_msg ans hdr pl e = Inr (Some p, e')" "re_free_pending e = Some dl"
  obtains dl1 h1 c ns ns1 r1 e2 ctxs where
    "DYN_LIST_GET sizeof_pending_rdv_recv dl (re_heap e) = Inr (p, dl1, h1)"
    "get_associated_econtext (re_route e) hdr = Inr (Some c)" "re_ctxs e c = Some ns"
    "take_buf (length pl) (of_nat (hdr_type hdr)) ns (RESET_PENDING_RDV_RECV (dl_elts dl1 p)) (e\<lparr>re_heap := h1\<rparr>) = Inr (ns1, r1, e2)"
    "rdv_user_data r1 \<noteq> None"
    "e' = e2\<lparr>re_free_pending := Some (rdv_write p (\<lambda>_. rdv_desc ans hdr pl r1) dl1), re_ctxs := ctxs\<rparr>"
    "ans \<noteq> Now () \<longrightarrow> ctxs = (re_ctxs e2)(c \<mapsto> ns1)"
    "ans = Now () \<longrightarrow> (\<exists>ok ns2. handle_notif_msg c hdr (Some pl) ns1 = Inr (ok, ns2) \<and> ctxs = (re_ctxs e2)(c \<mapsto> ns2))"
proof -
  obtain dl1 h1 where g: "DYN_LIST_GET sizeof_pending_rdv_recv dl (re_heap e) = Inr (p, dl1, h1)"
    using assms by (cases ans) (auto simp: am_notification_recv_rdv_msg_def res_simps Let_def)
  then obtain c ns where c: "get_associated_econtext (re_route e) hdr = Inr (Some c)" "re_ctxs e c = Some ns"
    using assms by (cases ans) (auto simp: am_notification_recv_rdv_msg_def res_simps Let_def)
  with g assms obtain ns1 r1 e2 where t: "take_buf (length pl) (of_nat (hdr_type hdr)) ns (RESET_PENDING_RDV_RECV (dl_elts dl1 p))
      (e\<lparr>re_heap := h1\<rparr>) = Inr (ns1, r1, e2)" "rdv_user_data r1 \<noteq> None"
    by (cases ans) (auto simp: am_notification_recv_rdv_msg_def res_simps Let_def)
  have "\<exists>ctxs. e' = e2\<lparr>re_free_pending := Some (rdv_write p (\<lambda>_. rdv_desc ans hdr pl r1) dl1), re_ctxs := ctxs\<rparr>
      \<and> (ans \<noteq> Now () \<longrightarrow> ctxs = (re_ctxs e2)(c \<mapsto> ns1))
      \<and> (ans = Now () \<longrightarrow> (\<exists>ok ns2. handle_notif_msg c hdr (Some pl) ns1 = Inr (ok, ns2) \<and> ctxs = (re_ctxs e2)(c \<mapsto> ns2)))"
    using assms g c t by (cases ans) (auto simp: am_notification_recv_rdv_msg_def res_simps Let_def rdv_desc_def)
  then obtain ctxs where
    "e' = e2\<lparr>re_free_pending := Some (rdv_write p (\<lambda>_. rdv_desc ans hdr pl r1) dl1), re_ctxs := ctxs\<rparr>"
    "ans \<noteq> Now () \<longrightarrow> ctxs = (re_ctxs e2)(c \<mapsto> ns1)"
    "ans = Now () \<longrightarrow> (\<exists>ok ns2. handle_notif_msg c hdr (Some pl) ns1 = Inr (ok, ns2) \<and> ctxs = (re_ctxs e2)(c \<mapsto> ns2))"
    by blast
  then show thesis
    by (rule that[OF g c t])
qed

text \<open>What the pool of descriptors is after a descriptor was taken.\<close>

lemma rdv_get:
  assumes "rdv_inv base e dl P" "DYN_LIST_GET sizeof_pending_rdv_recv dl (re_heap e) = Inr (p, dl1, h1)"
  shows "dl_wf sizeof_pending_rdv_recv dl1 h1" "p \<notin> dom P" "dl_used dl1 = insert p (dom P)"
    "live_blks h1 - pool_blks dl1 = live_blks (re_heap e) - pool_blks dl"
    "\<forall>q \<in> dom P. dl_elts dl1 q = dl_elts dl q" "\<forall>q \<in> dl_free dl1. free_ok (re_returned e) (dl_elts dl1 q)"
    "free_ok (re_returned e) (dl_elts dl1 p)"
    "dl_element_init_cb dl1 = Some init_pending_am_rdv_recv_t" "p \<notin> dl_free dl1"
    "heap_bufs dl1 (dom P) = heap_bufs dl (dom P)"
proof -
  have i: "dl_wf sizeof_pending_rdv_recv dl (re_heap e)" "dl_element_init_cb dl = Some init_pending_am_rdv_recv_t"
    "dl_used dl = dom P" "\<forall>q \<in> dl_free dl. free_ok (re_returned e) (dl_elts dl q)"
    using assms(1) by (simp_all add: rdv_inv_def)
  have s: "dl_wf sizeof_pending_rdv_recv dl1 h1" "p \<notin> dl_used dl" "dl_used dl1 = insert p (dl_used dl)"
      "live_blks h1 - pool_blks dl1 = live_blks (re_heap e) - pool_blks dl"
    using dl_get_spec[of sizeof_pending_rdv_recv "(dl, re_heap e)" p "(dl1, h1)"] i(1) assms(2) by (simp_all add: dl_get_def)
  then show "dl_wf sizeof_pending_rdv_recv dl1 h1" "p \<notin> dom P" "dl_used dl1 = insert p (dom P)"
    "live_blks h1 - pool_blks dl1 = live_blks (re_heap e) - pool_blks dl"
    using i(3) by simp_all
  have l: "free_ok (re_returned e) (dl_elts dl1 p) \<and> (\<forall>q \<in> dl_free dl1. free_ok (re_returned e) (dl_elts dl1 q))
      \<and> (\<forall>q \<in> dl_used dl. dl_elts dl1 q = dl_elts dl q) \<and> dl_element_init_cb dl1 = Some init_pending_am_rdv_recv_t"
    using free_ok_init i(4) by (intro dl_get_elts[OF i(1) assms(2) i(2)])
  then show "\<forall>q \<in> dom P. dl_elts dl1 q = dl_elts dl q" "\<forall>q \<in> dl_free dl1. free_ok (re_returned e) (dl_elts dl1 q)"
    "free_ok (re_returned e) (dl_elts dl1 p)" "dl_element_init_cb dl1 = Some init_pending_am_rdv_recv_t"
    using i(3) by blast+
  show "p \<notin> dl_free dl1"
    using s(3) by (auto simp: dl_used_def)
  show "heap_bufs dl1 (dom P) = heap_bufs dl (dom P)"
    using l i(3) by (simp add: heap_bufs_def)
qed

lemma reset_pool [simp]: "ni_mem_pool (rdv_pool (RESET_PENDING_RDV_RECV r)) = None"
  by (simp add: RESET_PENDING_RDV_RECV_def RESET_NOTIF_INFO_def)

definition new_bufs :: "pending_am_rdv_recv_t \<Rightarrow> blk set" where
  "new_bufs r = {b. rdv_user_data r = Some (Heap_buf b)}"

lemma rdv_inv_add:
  assumes i: "rdv_inv base e dl P" and p: "p \<notin> dom P"
    and e': "re_free_pending e' = Some dl'" "re_smart e' = None" "re_returned e' = re_returned e"
    and w: "dl_wf sizeof_pending_rdv_recv dl' (re_heap e')" "dl_element_init_cb dl' = Some init_pending_am_rdv_recv_t"
    and u: "dl_used dl' = insert p (dom P)" and same: "\<And>q. q \<in> dom P \<Longrightarrow> dl_elts dl' q = dl_elts dl q"
    and ok: "pend_ok m (dl_elts dl' p)" and free: "\<forall>q \<in> dl_free dl'. free_ok (re_returned e) (dl_elts dl' q)"
    and live: "live_blks (re_heap e') - pool_blks dl' = (live_blks (re_heap e) - pool_blks dl) \<union> new_bufs (dl_elts dl' p)"
    and new: "new_bufs (dl_elts dl' p) \<inter> (live_blks (re_heap e) - pool_blks dl) = {}"
  shows "rdv_inv base e' dl' (P(p \<mapsto> m))"
proof -
  let ?B = "heap_bufs dl (dom P)"
  have old: "live_blks (re_heap e) - pool_blks dl = base \<union> ?B" "base \<inter> ?B = {}"
    and inj: "\<And>q q' b. q \<in> dom P \<Longrightarrow> q' \<in> dom P \<Longrightarrow> rdv_user_data (dl_elts dl q) = Some (Heap_buf b)
           \<Longrightarrow> rdv_user_data (dl_elts dl q') = Some (Heap_buf b) \<Longrightarrow> q = q'"
    and pend: "\<And>q m. P q = Some m \<Longrightarrow> pend_ok m (dl_elts dl q)"
    using i unfolding rdv_inv_def by blast+
  have bufs: "heap_bufs dl' (insert p (dom P)) = ?B \<union> new_bufs (dl_elts dl' p)"
    using same by (auto simp: heap_bufs_def new_bufs_def)
  have "pend_ok m' (dl_elts dl' q)" if "(P(p \<mapsto> m)) q = Some m'" for q m'
    using that ok pend[of q m'] same[of q] by (cases "q = p") (auto simp: domIff)
  moreover have "q = q'" if "q \<in> insert p (dom P)" "q' \<in> insert p (dom P)" "rdv_user_data (dl_elts dl' q) = Some (Heap_buf b)"
      "rdv_user_data (dl_elts dl' q') = Some (Heap_buf b)" for q q' b
  proof -
    have "b \<notin> new_bufs (dl_elts dl' p) \<or> b \<notin> ?B"
      using new old(1) by blast
    moreover have "b \<in> ?B" if "r \<in> dom P" "rdv_user_data (dl_elts dl' r) = Some (Heap_buf b)" for r
      using that same[OF that(1)] unfolding heap_bufs_def by force
    ultimately have "q = p \<longleftrightarrow> q' = p"
      using that unfolding new_bufs_def by blast
    then show ?thesis
      using that same[of q] same[of q'] inj[of q q' b] by (cases "q = p") simp_all
  qed
  moreover have "live_blks (re_heap e') - pool_blks dl' = base \<union> heap_bufs dl' (insert p (dom P))"
    "base \<inter> heap_bufs dl' (insert p (dom P)) = {}"
    using live new old unfolding bufs by auto
  ultimately show ?thesis
    using e' w u free unfolding rdv_inv_def dom_fun_upd by simp
qed

text \<open>Whatever UCX answers, the message has a descriptor and a buffer of its own.\<close>

lemma announce_inv:
  assumes "rdv_inv base e dl P" "am_notification_recv_rdv_msg ans hdr pl e = Inr (Some p, e')"
  shows "\<exists>dl'. rdv_inv base e' dl' (P(p \<mapsto> (hdr, pl)))" "p \<notin> dom P" "re_route e' = re_route e" "re_returned e' = re_returned e"
proof -
  have e: "re_free_pending e = Some dl" "re_smart e = None"
    using assms(1) by (simp_all add: rdv_inv_def)
  from assms(2) e(1) obtain dl1 h1 c ns ns1 r1 e2 ctxs where a:
    "DYN_LIST_GET sizeof_pending_rdv_recv dl (re_heap e) = Inr (p, dl1, h1)"
    "take_buf (length pl) (of_nat (hdr_type hdr)) ns (RESET_PENDING_RDV_RECV (dl_elts dl1 p)) (e\<lparr>re_heap := h1\<rparr>) = Inr (ns1, r1, e2)"
    "rdv_user_data r1 \<noteq> None"
    "e' = e2\<lparr>re_free_pending := Some (rdv_write p (\<lambda>_. rdv_desc ans hdr pl r1) dl1), re_ctxs := ctxs\<rparr>"
    by (rule announce_cases)
  note g = rdv_get[OF assms(1) a(1)]
  define dl' where "dl' = rdv_write p (\<lambda>_. rdv_desc ans hdr pl r1) dl1"
  show "p \<notin> dom P"
    by (rule g)
  have same: "dl_elts dl' q = dl_elts dl q" if "q \<in> dom P" for q
    using that g(2,5) by (auto simp: dl'_def)
  have new: "dl_elts dl' p = rdv_desc ans hdr pl r1"
    by (simp add: dl'_def)
  have free: "\<forall>q \<in> dl_free dl'. free_ok (re_returned e) (dl_elts dl' q)"
    using g(6,9) by (auto simp: dl'_def)
  have e': "re_free_pending e' = Some dl'"
    by (simp add: a(4) dl'_def)
  have d: "dl_element_init_cb dl' = Some init_pending_am_rdv_recv_t" "dl_used dl' = insert p (dom P)" "pool_blks dl' = pool_blks dl1"
    using g(3,8) by (simp_all add: dl'_def)
  have "rdv_inv base e' dl' (P(p \<mapsto> (hdr, pl))) \<and> re_route e' = re_route e \<and> re_returned e' = re_returned e"
    using a(2) _ _ a(3)
  proof (rule take_buf_cases)
    show "re_smart (e\<lparr>re_heap := h1\<rparr>) = None" "ni_mem_pool (rdv_pool (RESET_PENDING_RDV_RECV (dl_elts dl1 p))) = None"
      using e(2) by simp_all
  next
    fix b i assume t: "e2 = e\<lparr>re_heap := h1\<rparr>" "r1 = (RESET_PENDING_RDV_RECV (dl_elts dl1 p))\<lparr>rdv_user_data := Some (Pool_buf b),
        rdv_buff_size := length pl, rdv_pool := COPY_NOTIF_INFO i (rdv_pool (RESET_PENDING_RDV_RECV (dl_elts dl1 p)))\<rparr>"
      "ni_mem_pool i \<noteq> None"
    have ok: "pend_ok (hdr, pl) (dl_elts dl' p)"
      using t(3) unfolding new by (simp add: pend_ok_def rdv_desc_def t(2) COPY_NOTIF_INFO_def)
    have "new_bufs (dl_elts dl' p) = {}"
      unfolding new by (simp add: rdv_desc_def t(2) new_bufs_def)
    then have "rdv_inv base e' dl' (P(p \<mapsto> (hdr, pl)))"
      using g(1,4) e(2) d by (intro rdv_inv_add[OF assms(1) g(2) e' _ _ _ _ _ same ok free]) (simp_all add: a(4) t(1) dl'_def)
    then show ?thesis
      by (auto simp: a(4) t(1))
  next
    fix b h assume "malloc (of_nat (length pl)) (re_heap (e\<lparr>re_heap := h1\<rparr>)) = (Some b, h)" and t: "e2 = e\<lparr>re_heap := h1, re_heap := h\<rparr>"
      "r1 = (RESET_PENDING_RDV_RECV (dl_elts dl1 p))\<lparr>rdv_user_data := Some (Heap_buf b), rdv_buff_size := length pl\<rparr>"
    then have m: "malloc (of_nat (length pl)) h1 = (Some b, h)"
      by simp
    have wf: "wf_heap h1"
      using g(1) by (simp add: dl_wf_def)
    have b: "b \<notin> live_blks h1" "live_blks h = insert b (live_blks h1)" "b \<notin> pool_blks dl1"
      using malloc_fresh[OF wf m] malloc_live(1)[OF m] pool_blks_in_heap[OF g(1)] by auto
    have w: "dl_wf sizeof_pending_rdv_recv dl1 h"
      using malloc_Some(3)[OF m] malloc_wf[OF wf m] by (intro dl_wf_mono_heap[OF g(1)]) auto
    have ok: "pend_ok (hdr, pl) (dl_elts dl' p)"
      unfolding new by (simp add: pend_ok_def rdv_desc_def t(2))
    have "new_bufs (dl_elts dl' p) = {b}"
      unfolding new by (simp add: rdv_desc_def t(2) new_bufs_def)
    then have "rdv_inv base e' dl' (P(p \<mapsto> (hdr, pl)))"
      using g(4) w b e(2) d by (intro rdv_inv_add[OF assms(1) g(2) e' _ _ _ _ _ same ok free]) (auto simp: a(4) t(1) dl'_def)
    then show ?thesis
      by (auto simp: a(4) t(1))
  qed
  then show "\<exists>dl'. rdv_inv base e' dl' (P(p \<mapsto> (hdr, pl)))" "re_route e' = re_route e" "re_returned e' = re_returned e"
    by blast+
qed

section \<open>The payload has arrived\<close>

lemma free_ok_mono: "free_ok ret r \<Longrightarrow> set ret \<subseteq> set ret' \<Longrightarrow> free_ok ret' r"
  by (auto simp: free_ok_def split: option.splits recv_buf.splits)

lemma rdv_inv_remove:
  assumes i: "rdv_inv base e dl P" and p: "p \<in> dom P"
    and e': "re_free_pending e' = Some dl'" "re_smart e' = None" "set (re_returned e) \<subseteq> set (re_returned e')"
    and w: "dl_wf sizeof_pending_rdv_recv dl' (re_heap e')" "dl_element_init_cb dl' = Some init_pending_am_rdv_recv_t"
    and u: "dl_used dl' = dom P - {p}" "dl_free dl' = insert p (dl_free dl)"
    and same: "\<And>q. q \<noteq> p \<Longrightarrow> dl_elts dl' q = dl_elts dl q"
    and ok: "free_ok (re_returned e') (dl_elts dl' p)"
    and live: "live_blks (re_heap e') - pool_blks dl' = (live_blks (re_heap e) - pool_blks dl) - new_bufs (dl_elts dl p)"
  shows "rdv_inv base e' dl' (P(p := None))"
proof -
  let ?B = "heap_bufs dl (dom P)"
  have old: "live_blks (re_heap e) - pool_blks dl = base \<union> ?B" "base \<inter> ?B = {}"
    and inj: "\<And>q q' b. q \<in> dom P \<Longrightarrow> q' \<in> dom P \<Longrightarrow> rdv_user_data (dl_elts dl q) = Some (Heap_buf b)
           \<Longrightarrow> rdv_user_data (dl_elts dl q') = Some (Heap_buf b) \<Longrightarrow> q = q'"
    and pend: "\<And>q m. P q = Some m \<Longrightarrow> pend_ok m (dl_elts dl q)"
    and free: "\<And>q. q \<in> dl_free dl \<Longrightarrow> free_ok (re_returned e) (dl_elts dl q)"
    using i unfolding rdv_inv_def by blast+
  have bufs: "heap_bufs dl' (dom P - {p}) = ?B - new_bufs (dl_elts dl p)"
  proof (intro set_eqI iffI)
    fix b assume "b \<in> heap_bufs dl' (dom P - {p})"
    then obtain q where q: "q \<in> dom P" "q \<noteq> p" "rdv_user_data (dl_elts dl q) = Some (Heap_buf b)"
      using same unfolding heap_bufs_def by force
    with inj[OF q(1) p q(3)] show "b \<in> ?B - new_bufs (dl_elts dl p)"
      unfolding heap_bufs_def new_bufs_def by blast
  next
    fix b assume "b \<in> ?B - new_bufs (dl_elts dl p)"
    then obtain q where q: "q \<in> dom P" "q \<noteq> p" "rdv_user_data (dl_elts dl q) = Some (Heap_buf b)"
      unfolding heap_bufs_def new_bufs_def by blast
    with same[OF q(2)] show "b \<in> heap_bufs dl' (dom P - {p})"
      unfolding heap_bufs_def by force
  qed
  have "new_bufs (dl_elts dl p) \<subseteq> ?B"
    using p unfolding new_bufs_def heap_bufs_def by blast
  then have "live_blks (re_heap e') - pool_blks dl' = base \<union> heap_bufs dl' (dom P - {p})"
    "base \<inter> heap_bufs dl' (dom P - {p}) = {}"
    using live old unfolding bufs by auto
  moreover have "pend_ok m (dl_elts dl' q)" if "(P(p := None)) q = Some m" for q m
    using that pend same[of q] by (cases "q = p") simp_all
  moreover have "free_ok (re_returned e') (dl_elts dl' q)" if "q \<in> dl_free dl'" for q
    using that ok free[of q] same[of q] free_ok_mono[OF _ e'(3)] unfolding u(2) by (cases "q = p") simp_all
  moreover have "q = q'" if "q \<in> dom P - {p}" "q' \<in> dom P - {p}" "rdv_user_data (dl_elts dl' q) = Some (Heap_buf b)"
      "rdv_user_data (dl_elts dl' q') = Some (Heap_buf b)" for q q' b
    using that same[of q] same[of q'] inj[of q q' b] by simp
  moreover have "dom (P(p := None)) = dom P - {p}"
    by simp
  ultimately show ?thesis
    using e' w u(1) unfolding rdv_inv_def by metis
qed

text \<open>The buffer goes back where it came from.\<close>

lemma release_buf_cases:
  assumes "rdv_inv base e dl P" "P p = Some m" "release_buf p dl (e\<lparr>re_ctxs := ctxs\<rparr>) = Inr (dl1, e1)"
  obtains (pool) b where "e1 = e\<lparr>re_ctxs := ctxs, re_returned := re_returned e @ [b]\<rparr>" "rdv_user_data (dl_elts dl p) = Some (Pool_buf b)"
      "dl1 = rdv_write p (\<lambda>r. r\<lparr>rdv_pool := RESET_NOTIF_INFO (rdv_pool r)\<rparr>) dl"
    | (heap) b h where "rdv_user_data (dl_elts dl p) = Some (Heap_buf b)" "free_blk b (re_heap e) = Inr h"
      "e1 = e\<lparr>re_ctxs := ctxs, re_heap := h\<rparr>" "dl1 = rdv_write p (rdv_user_data_update (\<lambda>_. None)) dl"
proof -
  have "pend_ok m (dl_elts dl p)" "re_smart e = None"
    using assms(1,2) unfolding rdv_inv_def by blast+
  then show thesis
    using assms(3) pool heap
    by (cases "ni_return_buf (rdv_pool (dl_elts dl p))")
       (auto simp: pend_ok_def release_buf_def return_pool_buf_def free_user_data_def res_simps Let_def)
qed

text \<open>A memory pool may come without a function that takes buffers back, its user then keeps track of them; but the
  buffer of such a pool is freed as if it were a block of the heap when the payload has arrived.\<close>

lemma release_buf_no_return:
  assumes "re_smart e = None" "rdv_user_data (dl_elts dl p) = Some (Pool_buf b)" "\<not> ni_return_buf (rdv_pool (dl_elts dl p))"
  shows "release_buf p dl e = Inl Bad_free"
  using assms by (cases "ni_mem_pool (rdv_pool (dl_elts dl p))") (simp_all add: release_buf_def free_user_data_def Let_def)

lemma arrive_cases:
  assumes "rdv_inv base e dl P" "P p = Some (hdr, pl)" "pl \<noteq> []" "hdr_type hdr < 2 ^ 32"
    and "\<And>c ns. re_ctxs e c = Some ns \<Longrightarrow> ns_wf ns" "am_rdv_recv_cb (length pl) p e = Inr e'"
  obtains c ns ns1 dl1 e1 where "get_associated_econtext (re_route e) hdr = Inr (Some c)" "re_ctxs e c = Some ns"
    "steps_to ns (\<lambda>t. if t = of_nat (hdr_type hdr) then [(Some hdr, Some pl)] else []) ns1"
    "release_buf p dl (e\<lparr>re_ctxs := (re_ctxs e)(c \<mapsto> ns1)\<rparr>) = Inr (dl1, e1)"
    "e' = e1\<lparr>re_free_pending := Some (DYN_LIST_RETURN p dl1)\<rparr>"
proof -
  have r: "re_free_pending e = Some dl" "pend_ok (hdr, pl) (dl_elts dl p)"
    using assms(1,2) unfolding rdv_inv_def by blast+
  then have ud: "map_option (\<lambda>_. pl) (rdv_user_data (dl_elts dl p)) = Some pl" "rdv_engine (dl_elts dl p)"
      "rdv_hdr (dl_elts dl p) = Some hdr" "rdv_payload (dl_elts dl p) = pl"
    by (auto simp: pend_ok_def)
  with assms(6) r(1) obtain c ns ok ns1 where c: "get_associated_econtext (re_route e) hdr = Inr (Some c)" "re_ctxs e c = Some ns"
      "handle_notif_msg c hdr (Some pl) ns = Inr (ok, ns1)"
    by (auto simp: am_rdv_recv_cb_def res_simps Let_def)
  from handle_notif_msg_step[OF assms(5)[OF c(2)] assms(4) c(3)] assms(3) have
    s: "steps_to ns (\<lambda>t. if t = of_nat (hdr_type hdr) then [(Some hdr, Some pl)] else []) ns1" "ok"
    by (simp_all cong: if_cong)
  with assms(3,6) r(1) ud c obtain dl1 e1 where "release_buf p dl (e\<lparr>re_ctxs := (re_ctxs e)(c \<mapsto> ns1)\<rparr>) = Inr (dl1, e1)"
      "e' = e1\<lparr>re_free_pending := Some (DYN_LIST_RETURN p dl1)\<rparr>"
    by (auto simp: am_rdv_recv_cb_def res_simps Let_def)
  with that c s show thesis
    by blast
qed

lemma arrive_inv:
  assumes "rdv_inv base e dl P" "P p = Some m" "release_buf p dl (e\<lparr>re_ctxs := ctxs\<rparr>) = Inr (dl1, e1)"
    and "e' = e1\<lparr>re_free_pending := Some (DYN_LIST_RETURN p dl1)\<rparr>"
  shows "\<exists>dl'. rdv_inv base e' dl' (P(p := None))" "re_ctxs e' = ctxs" "re_route e' = re_route e"
    "set (re_returned e) \<subseteq> set (re_returned e')"
proof -
  let ?dl = "DYN_LIST_RETURN p dl1"
  have i: "re_smart e = None" "dl_wf sizeof_pending_rdv_recv dl (re_heap e)" "dl_used dl = dom P"
      "dl_element_init_cb dl = Some init_pending_am_rdv_recv_t" "live_blks (re_heap e) - pool_blks dl = base \<union> heap_bufs dl (dom P)"
    using assms(1) unfolding rdv_inv_def by blast+
  have p: "p \<in> dom P" "p \<in> dl_used dl"
    using assms(2) i(3) by auto
  have "rdv_inv base e' ?dl (P(p := None)) \<and> re_ctxs e' = ctxs \<and> re_route e' = re_route e \<and> set (re_returned e) \<subseteq> set (re_returned e')"
    using assms(1-3)
  proof (cases rule: release_buf_cases)
    case (pool b)
    note r = dl_ret_spec[OF i(2) p(2)]
    have n: "new_bufs (dl_elts dl p) = {}"
      using pool(2) by (simp add: new_bufs_def)
    have "rdv_inv base e' ?dl (P(p := None))"
    proof (rule rdv_inv_remove[OF assms(1) p(1)])
      show "dl_wf sizeof_pending_rdv_recv ?dl (re_heap e')" "dl_used ?dl = dom P - {p}"
        using dl_ret_spec[of sizeof_pending_rdv_recv dl1 "re_heap e" p] i(2,3) p(2) by (simp_all add: pool(1,3) assms(4))
    qed (use i pool n in \<open>simp_all add: assms(4) free_ok_def subset_insertI\<close>)
    then show ?thesis
      by (auto simp: pool(1) assms(4))
  next
    case (heap b h)
    have "b \<in> heap_bufs dl (dom P)"
      using heap(1) p(1) unfolding heap_bufs_def by blast
    then have b: "b \<in> live_blks (re_heap e)" "b \<notin> pool_blks dl"
      using i(5) by blast+
    from free_blk_dl_wf[OF i(2) b] heap(2) have h: "dl_wf sizeof_pending_rdv_recv dl h" "live_blks h = live_blks (re_heap e) - {b}"
      by auto
    have "new_bufs (dl_elts dl p) = {b}"
      using heap(1) by (simp add: new_bufs_def)
    then have l: "live_blks h - pool_blks dl = (live_blks (re_heap e) - pool_blks dl) - new_bufs (dl_elts dl p)"
      using h(2) by auto
    have "rdv_inv base e' ?dl (P(p := None))"
    proof (rule rdv_inv_remove[OF assms(1) p(1)])
      show "dl_wf sizeof_pending_rdv_recv ?dl (re_heap e')" "dl_used ?dl = dom P - {p}"
        using dl_ret_spec[of sizeof_pending_rdv_recv dl1 h p] h(1) i(3) p(2) by (simp_all add: heap(3,4) assms(4))
    qed (use i heap l in \<open>simp_all add: assms(4) free_ok_def\<close>)
    then show ?thesis
      by (auto simp: heap(3) assms(4))
  qed
  then show "\<exists>dl'. rdv_inv base e' dl' (P(p := None))" "re_ctxs e' = ctxs" "re_route e' = re_route e"
    "set (re_returned e) \<subseteq> set (re_returned e')"
    by blast+
qed

section \<open>Histories of receives\<close>

text \<open>Messages are announced and their payloads arrive, in any order.  UCX starts a receive and reports it once when it is done,
  completes it at once, or fails to start it; in the last two cases the descriptor is not given back.  \<open>P\<close> are the
  descriptors of the receives under way, \<open>Q\<close> those that were kept, \<open>H\<close> the messages handed over.\<close>

inductive rdv_history :: "rdv_engine_t \<Rightarrow> rdv_engine_t \<Rightarrow> (ptr \<rightharpoonup> am_header_t \<times> nat list) \<Rightarrow> (ptr \<rightharpoonup> am_header_t \<times> nat list)
    \<Rightarrow> (am_header_t \<times> nat list) list \<Rightarrow> bool" for e0 where
  start: "rdv_history e0 e0 Map.empty Map.empty []"
| announce: "rdv_history e0 e' (P(p \<mapsto> (hdr, pl))) Q H"
    if "rdv_history e0 e P Q H" "pl \<noteq> []" "hdr_type hdr < 2 ^ 32" "am_notification_recv_rdv_msg Later hdr pl e = Inr (Some p, e')"
| immediate: "rdv_history e0 e' P (Q(p \<mapsto> (hdr, pl))) (H @ [(hdr, pl)])"
    if "rdv_history e0 e P Q H" "pl \<noteq> []" "hdr_type hdr < 2 ^ 32" "am_notification_recv_rdv_msg (Now ()) hdr pl e = Inr (Some p, e')"
| failed: "rdv_history e0 e' P (Q(p \<mapsto> (hdr, pl))) H"
    if "rdv_history e0 e P Q H" "pl \<noteq> []" "hdr_type hdr < 2 ^ 32" "am_notification_recv_rdv_msg Failed hdr pl e = Inr (Some p, e')"
| arrive: "rdv_history e0 e' (P(p := None)) Q (H @ [(hdr, pl)])"
    if "rdv_history e0 e P Q H" "P p = Some (hdr, pl)" "am_rdv_recv_cb (length pl) p e = Inr e'"

text \<open>What the event system of a context has to hand over for a type.\<close>

definition handed_to :: "route_engine_t \<Rightarrow> nat \<Rightarrow> u64 \<Rightarrow> (am_header_t \<times> nat list) list \<Rightarrow> (am_header_t option \<times> nat list option) list" where
  "handed_to re c t H =
     map (\<lambda>(hdr, pl). (Some hdr, Some pl))
       (filter (\<lambda>(hdr, pl). get_associated_econtext re hdr = Inr (Some c) \<and> of_nat (hdr_type hdr) = t) H)"

definition ctxs_inv :: "route_engine_t \<Rightarrow> (nat \<Rightarrow> notif_sys_t option) \<Rightarrow> (nat \<Rightarrow> notif_sys_t option) \<Rightarrow> (am_header_t \<times> nat list) list \<Rightarrow> bool" where
  "ctxs_inv re ctxs0 ctxs H =
     (\<forall>c. case ctxs0 c of
            None \<Rightarrow> ctxs c = None
          | Some ns0 \<Rightarrow> \<exists>ns. ctxs c = Some ns \<and> steps_to ns0 (\<lambda>t. handed_to re c t H) ns)"

lemma ctxs_inv_wf: "ctxs_inv re ctxs0 ctxs H \<Longrightarrow> ctxs c = Some ns \<Longrightarrow> ns_wf ns"
  by (auto simp: ctxs_inv_def steps_to_def dest: spec[of _ c] split: option.splits)

lemma ctxs_inv_step:
  assumes "ctxs_inv re ctxs0 ctxs H" "ctxs c = Some ns" "steps_to ns f ns1"
    and "\<And>t. handed_to re c t (H @ ms) = handed_to re c t H @ f t" "\<And>d t. d \<noteq> c \<Longrightarrow> handed_to re d t (H @ ms) = handed_to re d t H"
  shows "ctxs_inv re ctxs0 (ctxs(c \<mapsto> ns1)) (H @ ms)"
  unfolding ctxs_inv_def
proof
  fix d
  from assms(1) have d: "case ctxs0 d of None \<Rightarrow> ctxs d = None
      | Some ns0 \<Rightarrow> \<exists>ns. ctxs d = Some ns \<and> steps_to ns0 (\<lambda>t. handed_to re d t H) ns"
    unfolding ctxs_inv_def by blast
  show "case ctxs0 d of None \<Rightarrow> (ctxs(c \<mapsto> ns1)) d = None
      | Some ns0 \<Rightarrow> \<exists>ns. (ctxs(c \<mapsto> ns1)) d = Some ns \<and> steps_to ns0 (\<lambda>t. handed_to re d t (H @ ms)) ns"
  proof (cases "d = c")
    case True
    with d assms(2) obtain ns0 where "ctxs0 c = Some ns0" "steps_to ns0 (\<lambda>t. handed_to re c t H) ns"
      by (auto split: option.splits)
    with steps_to_trans[OF this(2) assms(3)] assms(4) True show ?thesis
      by simp
  qed (use d assms(5) in \<open>simp split: option.splits\<close>)
qed

lemma announce_step:
  assumes i: "rdv_inv base e dl M" and c: "ctxs_inv (re_route e) ctxs0 (re_ctxs e) H"
    and m: "pl \<noteq> []" "hdr_type hdr < 2 ^ 32" and a: "am_notification_recv_rdv_msg ans hdr pl e = Inr (Some p, e')"
  shows "ctxs_inv (re_route e) ctxs0 (re_ctxs e') (H @ (if ans = Now () then [(hdr, pl)] else []))"
proof -
  have f: "re_free_pending e = Some dl" "re_smart e = None"
    using i by (simp_all add: rdv_inv_def)
  from a f(1) obtain dl2 h2 c ns ns1 r1 e2 ctxs where
    "DYN_LIST_GET sizeof_pending_rdv_recv dl (re_heap e) = Inr (p, dl2, h2)"
    and r: "get_associated_econtext (re_route e) hdr = Inr (Some c)" "re_ctxs e c = Some ns"
      "take_buf (length pl) (of_nat (hdr_type hdr)) ns (RESET_PENDING_RDV_RECV (dl_elts dl2 p)) (e\<lparr>re_heap := h2\<rparr>)
      = Inr (ns1, r1, e2)" "rdv_user_data r1 \<noteq> None"
      "e' = e2\<lparr>re_free_pending := Some (rdv_write p (\<lambda>_. rdv_desc ans hdr pl r1) dl2), re_ctxs := ctxs\<rparr>"
      "ans \<noteq> Now () \<longrightarrow> ctxs = (re_ctxs e2)(c \<mapsto> ns1)"
      "ans = Now () \<longrightarrow> (\<exists>ok ns2. handle_notif_msg c hdr (Some pl) ns1 = Inr (ok, ns2) \<and> ctxs = (re_ctxs e2)(c \<mapsto> ns2))"
    by (rule announce_cases)
  have e2: "re_ctxs e2 = re_ctxs e"
    using r(3) _ _ r(4) by (rule take_buf_cases) (simp_all add: f(2))
  have "unat (of_nat (hdr_type hdr) :: u64) < 2 ^ 32"
    using m(2) by (simp add: unat_of_nat)
  then have s: "steps_to ns (\<lambda>_. []) ns1"
    using ctxs_inv_wf[OF c r(2)] r(3) f(2) by (intro take_buf_steps[where e = "e\<lparr>re_heap := h2\<rparr>"]) auto
  show ?thesis
  proof (cases "ans = Now ()")
    case True
    with r(7) obtain ok ns2 where n: "handle_notif_msg c hdr (Some pl) ns1 = Inr (ok, ns2)" "ctxs = (re_ctxs e2)(c \<mapsto> ns2)"
      by blast
    have "ns_wf ns1"
      using s by (simp add: steps_to_def)
    from handle_notif_msg_step[OF this m(2) n(1)] m(1)
    have "steps_to ns1 (\<lambda>t. if t = of_nat (hdr_type hdr) then [(Some hdr, Some pl)] else []) ns2"
      by (simp cong: if_cong)
    from steps_to_trans[OF s this] have
      "steps_to ns (\<lambda>t. if t = of_nat (hdr_type hdr) then [(Some hdr, Some pl)] else []) ns2"
      by simp
    then show ?thesis
      using True r(1,5) e2 n(2) by (auto intro!: ctxs_inv_step[OF c r(2)] simp: handed_to_def)
  next
    case False
    have "ctxs_inv (re_route e) ctxs0 ((re_ctxs e)(c \<mapsto> ns1)) (H @ [])"
      using s by (intro ctxs_inv_step[OF c r(2)]) auto
    with False r(5,6) e2 show ?thesis
      by simp
  qed
qed

definition rdv_state_ok :: "blk set \<Rightarrow> rdv_engine_t \<Rightarrow> rdv_engine_t \<Rightarrow> (ptr \<rightharpoonup> am_header_t \<times> nat list) \<Rightarrow> (ptr \<rightharpoonup> am_header_t \<times> nat list)
    \<Rightarrow> (am_header_t \<times> nat list) list \<Rightarrow> bool" where
  "rdv_state_ok base e0 e P Q H =
     ((\<exists>dl. rdv_inv base e dl (P ++ Q)) \<and> dom P \<inter> dom Q = {} \<and> ctxs_inv (re_route e0) (re_ctxs e0) (re_ctxs e) H
      \<and> re_route e = re_route e0 \<and> (\<forall>p \<in> dom P. case the (P p) of (hdr, pl) \<Rightarrow> pl \<noteq> [] \<and> hdr_type hdr < 2 ^ 32))"

lemma rdv_state_announce:
  assumes "rdv_state_ok base e0 e P Q H" "pl \<noteq> []" "hdr_type hdr < 2 ^ 32"
    and "am_notification_recv_rdv_msg ans hdr pl e = Inr (Some p, e')"
  shows "ans = Later \<Longrightarrow> rdv_state_ok base e0 e' (P(p \<mapsto> (hdr, pl))) Q H"
    "ans = Now () \<Longrightarrow> rdv_state_ok base e0 e' P (Q(p \<mapsto> (hdr, pl))) (H @ [(hdr, pl)])"
    "ans = Failed \<Longrightarrow> rdv_state_ok base e0 e' P (Q(p \<mapsto> (hdr, pl))) H"
proof -
  obtain dl where i: "rdv_inv base e dl (P ++ Q)" "ctxs_inv (re_route e) (re_ctxs e0) (re_ctxs e) H"
    and r: "re_route e = re_route e0"
    using assms(1) by (auto simp: rdv_state_ok_def)
  note a = announce_inv[OF i(1) assms(4)] and s = announce_step[OF i assms(2-4)]
  have m: "(P ++ Q)(p \<mapsto> (hdr, pl)) = P(p \<mapsto> (hdr, pl)) ++ Q" "(P ++ Q)(p \<mapsto> (hdr, pl)) = P ++ Q(p \<mapsto> (hdr, pl))"
    using a(2) by (auto simp: map_add_def fun_eq_iff split: option.splits)
  have d: "p \<notin> dom P" "p \<notin> dom Q" "dom P \<inter> dom Q = {}"
    using a(2) assms(1) by (auto simp: rdv_state_ok_def)
  have P: "\<forall>q \<in> dom P. case the (P q) of (hdr, pl) \<Rightarrow> pl \<noteq> [] \<and> hdr_type hdr < 2 ^ 32"
    using assms(1) by (simp add: rdv_state_ok_def)
  have re: "re_route e' = re_route e0"
    using a(3) r by simp
  show "rdv_state_ok base e0 e' (P(p \<mapsto> (hdr, pl))) Q H" if "ans = Later"
    unfolding rdv_state_ok_def
  proof (intro conjI)
    show "\<exists>dl. rdv_inv base e' dl (P(p \<mapsto> (hdr, pl)) ++ Q)"
      unfolding m(1)[symmetric] by (rule a(1))
    show "\<forall>q \<in> dom (P(p \<mapsto> (hdr, pl))). case the ((P(p \<mapsto> (hdr, pl))) q) of (hdr, pl) \<Rightarrow> pl \<noteq> [] \<and> hdr_type hdr < 2 ^ 32"
      using P assms(2,3) d(1) by simp
  qed (use d s re r that in simp_all)
  show "rdv_state_ok base e0 e' P (Q(p \<mapsto> (hdr, pl))) (H @ [(hdr, pl)])" if "ans = Now ()"
    unfolding rdv_state_ok_def m(2)[symmetric] using a(1) d s re r that P by (intro conjI) simp_all
  show "rdv_state_ok base e0 e' P (Q(p \<mapsto> (hdr, pl))) H" if "ans = Failed"
    unfolding rdv_state_ok_def m(2)[symmetric] using a(1) d s re r that P by (intro conjI) simp_all
qed

lemma rdv_state_arrive:
  assumes "rdv_state_ok base e0 e P Q H" "P p = Some (hdr, pl)" "am_rdv_recv_cb (length pl) p e = Inr e'"
  shows "rdv_state_ok base e0 e' (P(p := None)) Q (H @ [(hdr, pl)])"
proof -
  from assms(1) obtain dl1 where i: "rdv_inv base e dl1 (P ++ Q)"
    unfolding rdv_state_ok_def by (elim conjE exE)
  have ci: "ctxs_inv (re_route e0) (re_ctxs e0) (re_ctxs e) H" and re: "re_route e = re_route e0" and d: "dom P \<inter> dom Q = {}"
    and P: "\<forall>p \<in> dom P. case the (P p) of (hdr, pl) \<Rightarrow> pl \<noteq> [] \<and> hdr_type hdr < 2 ^ 32"
    using assms(1) unfolding rdv_state_ok_def by simp_all
  have m: "pl \<noteq> []" "hdr_type hdr < 2 ^ 32"
    using bspec[OF P domI[of P p, OF assms(2)]] assms(2) by simp_all
  have p: "(P ++ Q) p = Some (hdr, pl)" "(P ++ Q)(p := None) = P(p := None) ++ Q"
    using d assms(2) by (auto simp: map_add_def fun_eq_iff split: option.splits)
  from i p(1) m ctxs_inv_wf[OF ci] assms(3) obtain c ns ns1 dl2 e1 where
    c: "get_associated_econtext (re_route e) hdr = Inr (Some c)" "re_ctxs e c = Some ns"
      "steps_to ns (\<lambda>t. if t = of_nat (hdr_type hdr) then [(Some hdr, Some pl)] else []) ns1"
      "release_buf p dl1 (e\<lparr>re_ctxs := (re_ctxs e)(c \<mapsto> ns1)\<rparr>) = Inr (dl2, e1)"
      "e' = e1\<lparr>re_free_pending := Some (DYN_LIST_RETURN p dl2)\<rparr>"
    by (rule arrive_cases)
  note a = arrive_inv[OF i p(1) c(4,5)]
  have "ctxs_inv (re_route e0) (re_ctxs e0) ((re_ctxs e)(c \<mapsto> ns1)) (H @ [(hdr, pl)])"
    using c(1) re by (intro ctxs_inv_step[OF ci c(2,3)]) (auto simp: handed_to_def)
  then show ?thesis
    unfolding rdv_state_ok_def p(2)[symmetric] using a(1-3) re d P by (intro conjI) (simp_all, blast)
qed

lemma rdv_history_inv:
  assumes "rdv_history e0 e P Q H" "rdv_inv base e0 dl0 Map.empty" "\<And>c ns. re_ctxs e0 c = Some ns \<Longrightarrow> ns_wf ns"
  shows "rdv_state_ok base e0 e P Q H"
  using assms(1)
proof induction
  case start
  have "ctxs_inv (re_route e0) (re_ctxs e0) (re_ctxs e0) []"
    using assms(3) by (auto simp: ctxs_inv_def steps_to_def handed_to_def split: option.splits)
  with assms(2) show ?case
    by (auto simp: rdv_state_ok_def)
qed (blast intro: rdv_state_announce rdv_state_arrive)+

lemma rdv_run_inv:
  assumes "wf_heap h" "rdv_init mem route ctxs None h = Inr e0" "re_free_pending e0 \<noteq> None"
    and "\<forall>c ns. ctxs c = Some ns \<longrightarrow> ns_wf ns" "rdv_history e0 e P Q H"
  obtains dl where "rdv_inv (live_blks h) e dl (P ++ Q)" "ctxs_inv route ctxs (re_ctxs e) H" "dom P \<inter> dom Q = {}"
    "\<And>p hdr pl. P p = Some (hdr, pl) \<Longrightarrow> pl \<noteq> [] \<and> hdr_type hdr < 2 ^ 32"
proof -
  note i = rdv_init_inv[OF assms(1-3)]
  from i(1) obtain dl0 where "rdv_inv (live_blks h) e0 dl0 Map.empty"
    by blast
  from rdv_history_inv[OF assms(5) this] assms(4) i(2,3) have "rdv_state_ok (live_blks h) e0 e P Q H"
    by blast
  with i(2,3) have s: "\<exists>dl. rdv_inv (live_blks h) e dl (P ++ Q)" "ctxs_inv route ctxs (re_ctxs e) H" "dom P \<inter> dom Q = {}"
      "\<forall>p \<in> dom P. case the (P p) of (hdr, pl) \<Rightarrow> pl \<noteq> [] \<and> hdr_type hdr < 2 ^ 32"
    by (simp_all add: rdv_state_ok_def)
  have "pl \<noteq> [] \<and> hdr_type hdr < 2 ^ 32" if "P p = Some (hdr, pl)" for p hdr pl
    using bspec[OF s(4) domI[of P p, OF that]] that by simp
  with s(1-3) that show thesis
    by blast
qed

section \<open>The loop that empties the pool\<close>

lemma dl_capacity_card: "dl_wf sz dl h \<Longrightarrow> card (dl_items dl) = unat (dl_capacity dl)"
  using dl_bounds(1)[of sz dl h] dl_items_card(2)[of sz dl h]
  by (simp add: dl_wf_def unat_mult_nowrap mult.commute)

lemma dl_used_card: "dl_wf sz dl h \<Longrightarrow> card (dl_used dl) \<le> unat (dl_capacity dl)"
  using dl_capacity_card[of sz dl h] card_mono[of "dl_items dl" "dl_used dl"] by (auto simp: dl_used_def dl_items_def)

text \<open>The state of the pool while it is emptied: \<open>k\<close> elements were in use at the start, \<open>i\<close> were taken out since.\<close>

definition fini_inv :: "rdv_engine_t \<Rightarrow> pending_am_rdv_recv_t dyn_list_t \<Rightarrow> nat \<Rightarrow> bool" where
  "fini_inv e dl n =
     (re_free_pending e = Some dl \<and> dl_wf sizeof_pending_rdv_recv dl (re_heap e)
      \<and> dl_element_init_cb dl = Some init_pending_am_rdv_recv_t
      \<and> (\<forall>q \<in> dl_free dl. free_ok (re_returned e) (dl_elts dl q)) \<and> card (dl_used dl) = n)"

lemma fini_step_inv:
  assumes "fini_inv e dl n" "fini_rdv_step e = Inr e'"
  shows "\<exists>dl'. fini_inv e' dl' (Suc n)"
proof -
  have i: "re_free_pending e = Some dl" "dl_wf sizeof_pending_rdv_recv dl (re_heap e)"
      "dl_element_init_cb dl = Some init_pending_am_rdv_recv_t" "\<forall>q \<in> dl_free dl. free_ok (re_returned e) (dl_elts dl q)"
      "card (dl_used dl) = n"
    using assms(1) unfolding fini_inv_def by blast+
  obtain p dl1 h where g: "DYN_LIST_GET sizeof_pending_rdv_recv dl (re_heap e) = Inr (p, dl1, h)"
    using assms(2) i(1) by (auto simp: fini_rdv_step_def res_simps)
  have s: "dl_wf sizeof_pending_rdv_recv dl1 h" "p \<notin> dl_used dl" "dl_used dl1 = insert p (dl_used dl)"
    using dl_get_spec[of sizeof_pending_rdv_recv "(dl, re_heap e)" p "(dl1, h)"] i(2) g by (simp_all add: dl_get_def)
  have l: "free_ok (re_returned e) (dl_elts dl1 p) \<and> (\<forall>q \<in> dl_free dl1. free_ok (re_returned e) (dl_elts dl1 q))
      \<and> (\<forall>q \<in> dl_used dl. dl_elts dl1 q = dl_elts dl q) \<and> dl_element_init_cb dl1 = Some init_pending_am_rdv_recv_t"
    using free_ok_init i(4) by (intro dl_get_elts[OF i(2) g i(3)])
  have np: "p \<notin> dl_free dl1"
    using s(3) by (auto simp: dl_used_def)
  have "\<exists>f ret. e' = e\<lparr>re_free_pending := Some (rdv_write p f dl1), re_heap := h, re_returned := re_returned e @ ret\<rparr>"
  proof (cases "rdv_buff_size (dl_elts dl1 p) = 0")
    case True
    have "dl1 = rdv_write p id dl1"
      by (simp add: rdv_write_def)
    with True assms(2) i(1) g have "e' = e\<lparr>re_free_pending := Some (rdv_write p id dl1), re_heap := h, re_returned := re_returned e @ []\<rparr>"
      by (auto simp: fini_rdv_step_def)
    then show ?thesis
      by blast
  next
    case False
    show ?thesis
    proof (cases "rdv_user_data (dl_elts dl1 p)")
      case None
      with False assms(2) i(1) g have "e' = e\<lparr>re_free_pending := Some (rdv_write p (rdv_buff_size_update (\<lambda>_. 0)) dl1), re_heap := h,
          re_returned := re_returned e @ []\<rparr>"
        by (auto simp: fini_rdv_step_def)
      then show ?thesis
        by blast
    next
      case (Some ud)
      with l obtain b where "ud = Pool_buf b"
        by (auto simp: free_ok_def split: recv_buf.splits)
      with Some False assms(2) i(1) g have "e' = e\<lparr>re_free_pending := Some (rdv_write p (\<lambda>r. r\<lparr>rdv_pool := RESET_NOTIF_INFO (rdv_pool r),
          rdv_user_data := None, rdv_buff_size := 0\<rparr>) dl1), re_heap := h, re_returned := re_returned e @ [b]\<rparr>"
        by (auto simp: fini_rdv_step_def return_pool_buf_def free_user_data_def Let_def split: if_splits)
      then show ?thesis
        by blast
    qed
  qed
  then obtain f ret where e': "e' = e\<lparr>re_free_pending := Some (rdv_write p f dl1), re_heap := h, re_returned := re_returned e @ ret\<rparr>"
    by blast
  have "free_ok (re_returned e @ ret) (dl_elts (rdv_write p f dl1) q)" if "q \<in> dl_free dl1" for q
    using that l np free_ok_mono[of "re_returned e" "dl_elts dl1 q" "re_returned e @ ret"] by auto
  with s l i(5) have "fini_inv e' (rdv_write p f dl1) (Suc n)"
    by (simp add: fini_inv_def e' dl_used_finite)
  then show ?thesis
    by blast
qed

text \<open>As long as elements are in use the loop goes on: an element that is missing is replaced by growing the pool, which moves
  the bound of the loop.\<close>

lemma fini_loop_stuck:
  assumes "fini_inv e dl m" "unat i < m"
  shows "fini_rdv_loop n i e \<noteq> Inr (Some e')"
  using assms
proof (induction n arbitrary: i e dl m)
  case (Suc n)
  have w: "re_free_pending e = Some dl" "m \<le> unat (dl_capacity dl)"
    using Suc.prems(1) dl_used_card by (auto simp: fini_inv_def)
  with Suc.prems(2) have lt: "i < dl_capacity dl" "unat (i + 1) = Suc (unat i)"
    using unat_bound[of "dl_capacity dl"] by (auto simp: word_less_nat_alt intro!: unat_Suc_nowrap)
  show ?case
  proof (cases "fini_rdv_step e")
    case (Inr e1)
    with fini_step_inv[OF Suc.prems(1)] obtain dl1 where "fini_inv e1 dl1 (Suc m)"
      by blast
    from Suc.IH[OF this, of "i + 1"] lt(2) Suc.prems(2) Inr w(1) lt(1) show ?thesis
      by simp
  qed (use w(1) lt(1) in simp)
qed simp

text \<open>When no element is in use and none points to a buffer, the loop takes out every element once.\<close>

lemma fini_step_plain:
  assumes "fini_inv e dl n" "re_returned e = []" "n < unat (dl_capacity dl)"
  shows "\<exists>dl'. fini_inv (e\<lparr>re_free_pending := Some dl'\<rparr>) dl' (Suc n) \<and> fini_rdv_step e = Inr (e\<lparr>re_free_pending := Some dl'\<rparr>)
           \<and> dl_capacity dl' = dl_capacity dl \<and> pool_blks dl' = pool_blks dl"
proof -
  have i: "re_free_pending e = Some dl" "dl_wf sizeof_pending_rdv_recv dl (re_heap e)" "\<forall>q \<in> dl_free dl. free_ok [] (dl_elts dl q)"
      "card (dl_used dl) = n"
    using assms(1,2) unfolding fini_inv_def by auto
  have "dl_used dl \<noteq> dl_items dl"
    using assms(3) i(4) dl_capacity_card[OF i(2)] by auto
  then have "internal_list (dl_list dl) \<noteq> []"
    by (auto simp: dl_used_def dl_free_def)
  then obtain p ps where l: "internal_list (dl_list dl) = p # ps"
    by (cases "internal_list (dl_list dl)") auto
  define dl1 where "dl1 = dl\<lparr>dl_list := \<lparr>internal_list = ps, sl_length = sl_length (dl_list dl) - 1\<rparr>\<rparr>"
  have g: "DYN_LIST_GET sizeof_pending_rdv_recv dl (re_heap e) = Inr (p, dl1, re_heap e)"
    unfolding dl1_def by (rule dl_get_available[OF i(2) l])
  have "p \<in> dl_free dl" "dl_elts dl1 = dl_elts dl"
    by (simp_all add: l dl_free_def dl1_def)
  moreover have "free_ok [] r \<Longrightarrow> rdv_user_data r = None" for r
    by (auto simp: free_ok_def split: option.splits recv_buf.splits)
  ultimately have "rdv_user_data (dl_elts dl1 p) = None"
    using i(3) by auto
  then have "fini_rdv_step e = Inr (e\<lparr>re_free_pending := Some dl1\<rparr>) \<or>
      fini_rdv_step e = Inr (e\<lparr>re_free_pending := Some (rdv_write p (rdv_buff_size_update (\<lambda>_. 0)) dl1)\<rparr>)"
    using i(1) g by (auto simp: fini_rdv_step_def Let_def)
  then obtain dl' where s: "fini_rdv_step e = Inr (e\<lparr>re_free_pending := Some dl'\<rparr>)"
      "dl' = dl1 \<or> dl' = rdv_write p (rdv_buff_size_update (\<lambda>_. 0)) dl1"
    by blast
  from fini_step_inv[OF assms(1) s(1)] have "fini_inv (e\<lparr>re_free_pending := Some dl'\<rparr>) dl' (Suc n)"
    by (auto simp: fini_inv_def)
  moreover have "dl_capacity dl' = dl_capacity dl \<and> pool_blks dl' = pool_blks dl"
    using s(2) by (auto simp: rdv_write_def dl1_def pool_blks_def chunk_blks_def chunk_ptrs_def)
  ultimately show ?thesis
    using s(1) by blast
qed

lemma fini_loop_plain:
  assumes "fini_inv e dl (unat i)" "re_returned e = []" "unat i + n = unat (dl_capacity dl)"
  shows "\<exists>dl'. fini_rdv_loop (Suc n) i e = Inr (Some (e\<lparr>re_free_pending := Some dl'\<rparr>))
           \<and> dl_wf sizeof_pending_rdv_recv dl' (re_heap e) \<and> pool_blks dl' = pool_blks dl"
  using assms
proof (induction n arbitrary: i e dl)
  case 0
  have f: "re_free_pending e = Some dl" "dl_wf sizeof_pending_rdv_recv dl (re_heap e)"
    using "0.prems"(1) by (simp_all add: fini_inv_def)
  moreover have "\<not> i < dl_capacity dl"
    using "0.prems"(3) by (simp add: word_less_nat_alt)
  moreover have "e\<lparr>re_free_pending := Some dl\<rparr> = e"
    using f(1) by (cases e) simp
  ultimately show ?case
    by (intro exI[of _ dl]) simp
next
  case (Suc n)
  have lt: "i < dl_capacity dl" "unat (i + 1) = Suc (unat i)"
    using Suc.prems(3) unat_bound[of "dl_capacity dl"] by (auto simp: word_less_nat_alt intro!: unat_Suc_nowrap)
  from fini_step_plain[OF Suc.prems(1,2)] Suc.prems(3) obtain dl1 where
    s: "fini_inv (e\<lparr>re_free_pending := Some dl1\<rparr>) dl1 (Suc (unat i))" "fini_rdv_step e = Inr (e\<lparr>re_free_pending := Some dl1\<rparr>)"
      "dl_capacity dl1 = dl_capacity dl" "pool_blks dl1 = pool_blks dl"
    by auto
  have "re_free_pending e = Some dl"
    using Suc.prems(1) by (simp add: fini_inv_def)
  with Suc.IH[of "e\<lparr>re_free_pending := Some dl1\<rparr>" dl1 "i + 1"] s lt Suc.prems(2,3) show ?case
    by (simp del: fini_rdv_loop.simps(2) add: fini_rdv_loop.simps(2)[of "Suc n" i e])
qed

lemma rdv_inv_fini: "rdv_inv base e dl P \<Longrightarrow> fini_inv e dl (card (dom P))"
  unfolding rdv_inv_def fini_inv_def by simp

section \<open>Properties\<close>

text \<open>C16: Big notifications with payloads, of types below 2^32, are announced and their payloads arrive in any order and
  interleaving, without smart buffers.  UCX starts a receive and reports it once, completes it at once, or fails to start
  it.  At every moment the descriptors in use are those of the messages whose payload is still to come and those whose receive
  was completed at once or failed, which keep theirs; every block of the heap beyond those that were there before the engine
  (and the pool itself) is the buffer of exactly one of them; and the event system of every execution context has taken, for
  every type, exactly the messages addressed to it whose payload has arrived, in that order.  Types with a memory pool are
  included; without a function that takes buffers back the payload of their messages never arrives in such a history, as the
  buffer of the pool is then freed like a block of the heap.\<close>

theorem rdv_messages_accounted:
  assumes "wf_heap h" "rdv_init mem route ctxs None h = Inr e0" "re_free_pending e0 \<noteq> None"
    and "\<forall>c ns. ctxs c = Some ns \<longrightarrow> ns_wf ns" "rdv_history e0 e P Q H"
  shows "(\<exists>dl. re_free_pending e = Some dl \<and> dl_used dl = dom P \<union> dom Q \<and> dom P \<inter> dom Q = {}
           \<and> live_blks (re_heap e) - pool_blks dl = live_blks h \<union> heap_bufs dl (dom P \<union> dom Q)
           \<and> live_blks h \<inter> heap_bufs dl (dom P \<union> dom Q) = {}
           \<and> (\<forall>p m. (P ++ Q) p = Some m \<longrightarrow> pend_ok m (dl_elts dl p))
           \<and> (\<forall>p q b. p \<in> dom P \<union> dom Q \<longrightarrow> q \<in> dom P \<union> dom Q \<longrightarrow> rdv_user_data (dl_elts dl p) = Some (Heap_buf b)
                \<longrightarrow> rdv_user_data (dl_elts dl q) = Some (Heap_buf b) \<longrightarrow> p = q))
         \<and> (\<forall>c ns0. ctxs c = Some ns0 \<longrightarrow> (\<exists>ns. re_ctxs e c = Some ns \<and> (\<forall>t. taken t ns = taken t ns0 @ handed_to route c t H)))"
proof
  from assms obtain dl where dl: "rdv_inv (live_blks h) e dl (P ++ Q)" and c: "ctxs_inv route ctxs (re_ctxs e) H"
    and d: "dom P \<inter> dom Q = {}"
    by (rule rdv_run_inv)
  have "dom (P ++ Q) = dom P \<union> dom Q"
    by auto
  note dl = dl[unfolded rdv_inv_def this]
  show "\<exists>dl. re_free_pending e = Some dl \<and> dl_used dl = dom P \<union> dom Q \<and> dom P \<inter> dom Q = {}
           \<and> live_blks (re_heap e) - pool_blks dl = live_blks h \<union> heap_bufs dl (dom P \<union> dom Q)
           \<and> live_blks h \<inter> heap_bufs dl (dom P \<union> dom Q) = {}
           \<and> (\<forall>p m. (P ++ Q) p = Some m \<longrightarrow> pend_ok m (dl_elts dl p))
           \<and> (\<forall>p q b. p \<in> dom P \<union> dom Q \<longrightarrow> q \<in> dom P \<union> dom Q \<longrightarrow> rdv_user_data (dl_elts dl p) = Some (Heap_buf b)
                \<longrightarrow> rdv_user_data (dl_elts dl q) = Some (Heap_buf b) \<longrightarrow> p = q)"
    by (rule exI[of _ dl]) (insert dl d, elim conjE, intro conjI, assumption+)
  show "\<forall>c ns0. ctxs c = Some ns0 \<longrightarrow> (\<exists>ns. re_ctxs e c = Some ns \<and> (\<forall>t. taken t ns = taken t ns0 @ handed_to route c t H))"
  proof (intro allI impI)
    fix d ns0 assume d: "ctxs d = Some ns0"
    from c have "case ctxs d of None \<Rightarrow> re_ctxs e d = None
        | Some ns0 \<Rightarrow> \<exists>ns. re_ctxs e d = Some ns \<and> steps_to ns0 (\<lambda>t. handed_to route d t H) ns"
      unfolding ctxs_inv_def by blast
    with d show "\<exists>ns. re_ctxs e d = Some ns \<and> (\<forall>t. taken t ns = taken t ns0 @ handed_to route d t H)"
      by (auto simp: steps_to_def)
  qed
qed

text \<open>C36: Let every receive of a big notification have been started by UCX and reported later, none having been completed at
  once or failed, let all their payloads have arrived, and let no buffer of a memory pool have been used and returned (and smart
  buffers be off).  Then finalising the engine ends: the loop over the pool of descriptors makes exactly one iteration per
  element, the pool is freed, and the blocks of the heap are those that were there before the engine was created.\<close>

theorem rdv_fini_ends:
  assumes "wf_heap h" "rdv_init mem route ctxs None h = Inr e0" "re_free_pending e0 \<noteq> None"
    and "\<forall>c ns. ctxs c = Some ns \<longrightarrow> ns_wf ns" "rdv_history e0 e Map.empty Map.empty H" "re_returned e = []"
  shows "\<exists>dl e'. re_free_pending e = Some dl \<and> fini_pending_rdv_recvs (Suc (unat (dl_capacity dl))) e = Inr (Some e')
           \<and> re_free_pending e' = None \<and> live_blks (re_heap e') = live_blks h \<and> re_ctxs e' = re_ctxs e"
proof -
  from assms(1-5) obtain dl where dl: "rdv_inv (live_blks h) e dl Map.empty"
    by (rule rdv_run_inv) simp
  then have l: "re_free_pending e = Some dl" "live_blks (re_heap e) - pool_blks dl = live_blks h"
    by (simp_all add: rdv_inv_def heap_bufs_def)
  from fini_loop_plain[of e dl 0 "unat (dl_capacity dl)"] rdv_inv_fini[OF dl] assms(6) obtain dl' where
    f: "fini_rdv_loop (Suc (unat (dl_capacity dl))) 0 e = Inr (Some (e\<lparr>re_free_pending := Some dl'\<rparr>))"
      "dl_wf sizeof_pending_rdv_recv dl' (re_heap e)" "pool_blks dl' = pool_blks dl"
    by auto
  from DYN_LIST_FREE_spec[OF f(2)] obtain h' where "DYN_LIST_FREE dl' (re_heap e) = Inr h'" "live_blks h' = live_blks h"
    using f(3) l(2) by auto
  with f(1) l(1) show ?thesis
    by (simp add: fini_pending_rdv_recvs_def del: fini_rdv_loop.simps)
qed

text \<open>C37: When UCX completes the receive of a big notification at once, the notification is handed over, but its descriptor never
  goes back to the pool; from then on finalising the engine never returns: the loop over the pool grows the pool to make
  up for the missing element, and the bound of the loop with it, until the memory is exhausted.\<close>

theorem rdv_immediate_blocks_fini:
  assumes "wf_heap h" "rdv_init mem route ctxs None h = Inr e0" "re_free_pending e0 \<noteq> None"
    and "\<forall>c ns. ctxs c = Some ns \<longrightarrow> ns_wf ns" "rdv_history e0 e Map.empty Map.empty H" "pl \<noteq> []" "hdr_type hdr < 2 ^ 32"
    and "am_notification_recv_rdv_msg (Now ()) hdr pl e = Inr (Some p, e')"
  shows "(\<exists>dl. re_free_pending e' = Some dl \<and> dl_used dl = {p}) \<and> (\<forall>n e2. fini_pending_rdv_recvs n e' \<noteq> Inr (Some e2))"
proof -
  from assms(1-5) obtain dl where dl: "rdv_inv (live_blks h) e dl Map.empty"
    by (rule rdv_run_inv) simp
  from announce_inv(1)[OF dl assms(8)] obtain dl' where dl': "rdv_inv (live_blks h) e' dl' [p \<mapsto> (hdr, pl)]"
    by blast
  have f: "fini_rdv_loop n 0 e' \<noteq> Inr (Some e2)" for n e2
    by (rule fini_loop_stuck[OF rdv_inv_fini[OF dl']]) simp
  have "fini_pending_rdv_recvs n e' \<noteq> Inr (Some e2)" for n e2
  proof (cases "fini_rdv_loop n 0 e'")
    case (Inr r)
    with f[of n "the r"] show ?thesis
      by (cases r) (simp_all add: fini_pending_rdv_recvs_def)
  qed (simp add: fini_pending_rdv_recvs_def)
  with dl' show ?thesis
    by (auto simp: rdv_inv_def)
qed

text \<open>C38: A big notification whose type uses a memory pool leaves its descriptor pointing to the buffer it has returned to the pool;
  when the engine is finalised next, that buffer, which the heap knows nothing of (and which its pool may have handed out again),
  is freed.\<close>

theorem rdv_pool_buffer_freed_by_fini:
  assumes "wf_heap h" "rdv_init mem route ctxs None h = Inr e0" "re_free_pending e0 \<noteq> None"
    and "\<forall>c ns. ctxs c = Some ns \<longrightarrow> ns_wf ns" "rdv_history e0 e P Q H" "P p = Some (hdr, pl)"
    and "re_free_pending e = Some dl" "rdv_user_data (dl_elts dl p) = Some (Pool_buf b)" "am_rdv_recv_cb (length pl) p e = Inr e'"
  shows "re_returned e' = re_returned e @ [b] \<and> fini_pending_rdv_recvs (Suc n) e' = Inl Bad_free"
proof -
  from assms(1-5) obtain dl' where
    "rdv_inv (live_blks h) e dl' (P ++ Q)" "ctxs_inv route ctxs (re_ctxs e) H" "pl \<noteq> [] \<and> hdr_type hdr < 2 ^ 32" "dom P \<inter> dom Q = {}"
    by (rule rdv_run_inv) (use assms(6) in blast)
  moreover from this assms(7) have "dl' = dl"
    by (simp add: rdv_inv_def)
  moreover from \<open>dom P \<inter> dom Q = {}\<close> assms(6) have "(P ++ Q) p = Some (hdr, pl)"
    by (auto simp: map_add_def split: option.splits)
  ultimately have dl: "rdv_inv (live_blks h) e dl (P ++ Q)" and m: "pl \<noteq> []" "hdr_type hdr < 2 ^ 32"
    and wf: "\<And>c ns. re_ctxs e c = Some ns \<Longrightarrow> ns_wf ns" and pq: "(P ++ Q) p = Some (hdr, pl)"
    using ctxs_inv_wf by auto
  from dl pq m wf assms(9) obtain c ns ns1 dl1 e1 where
    r: "release_buf p dl (e\<lparr>re_ctxs := (re_ctxs e)(c \<mapsto> ns1)\<rparr>) = Inr (dl1, e1)" "e' = e1\<lparr>re_free_pending := Some (DYN_LIST_RETURN p dl1)\<rparr>"
    by (rule arrive_cases)
  from dl pq r(1) have b: "e1 = e\<lparr>re_ctxs := (re_ctxs e)(c \<mapsto> ns1), re_returned := re_returned e @ [b]\<rparr>"
      "dl1 = rdv_write p (\<lambda>r. r\<lparr>rdv_pool := RESET_NOTIF_INFO (rdv_pool r)\<rparr>) dl"
    by (atomize (full), cases rule: release_buf_cases) (use assms(8) in auto)
  have w: "dl_wf sizeof_pending_rdv_recv dl1 (re_heap e)" "p \<in> dl_used dl1"
    using dl pq by (auto simp: rdv_inv_def b(2))
  have "dl_wf sizeof_pending_rdv_recv (DYN_LIST_RETURN p dl1) (re_heap e)"
    using dl_ret_spec[OF w] by blast
  then have g: "DYN_LIST_GET sizeof_pending_rdv_recv (DYN_LIST_RETURN p dl1) (re_heap e)
      = Inr (p, (DYN_LIST_RETURN p dl1)\<lparr>dl_list := \<lparr>internal_list = internal_list (dl_list dl1),
            sl_length = sl_length (dl_list (DYN_LIST_RETURN p dl1)) - 1\<rparr>\<rparr>, re_heap e)"
    by (rule dl_get_available) (simp add: DYN_LIST_RETURN_def SIMPLE_LIST_PREPEND_def)
  have "card (dl_used dl1) \<noteq> 0"
    using w(2) dl_used_finite[of dl1] by auto
  then have cap: "0 < dl_capacity (DYN_LIST_RETURN p dl1)"
    using dl_used_card[OF w(1)] by (simp add: DYN_LIST_RETURN_def word_less_nat_alt)
  have "pend_ok (hdr, pl) (dl_elts dl p)"
    using dl[unfolded rdv_inv_def] pq by (elim conjE allE[of _ p] allE[of _ "(hdr, pl)"] mp) simp_all
  then have "rdv_buff_size (dl_elts dl1 p) \<noteq> 0" "rdv_user_data (dl_elts dl1 p) = Some (Pool_buf b)"
      "ni_mem_pool (rdv_pool (dl_elts dl1 p)) = None"
    using m(1) assms(8) by (simp_all add: pend_ok_def b(2) RESET_NOTIF_INFO_def)
  then have "fini_rdv_step e' = Inl Bad_free"
    using g by (simp add: fini_rdv_step_def r(2) b(1) free_user_data_def)
  with cap show ?thesis
    by (simp add: fini_pending_rdv_recvs_def r(2) b(1))
qed

section \<open>A short history\<close>

definition demo_rdv_mem :: pending_am_rdv_recv_t where
  "demo_rdv_mem = \<lparr>rdv_engine = False, rdv_hdr = None, rdv_req = False, rdv_payload_size = 0, rdv_buff_size = 0, rdv_user_data = None,
     rdv_pool = \<lparr>ni_get_buf = False, ni_return_buf = False, ni_mem_pool = None, ni_element_size = 0\<rparr>, rdv_smart_chunk = None,
     rdv_payload = []\<rparr>"

definition demo_route :: route_engine_t where
  "demo_route = \<lparr>re_on_dpu = False, re_servers = [], re_bootstrap_econtext = Some 0, re_client_lookup_table = Map.empty,
     re_global_id = 0, re_host_server = None\<rparr>"

definition demo_rdv :: "notif_sys_t \<Rightarrow> rdv_engine_t" where
  "demo_rdv ns =
     \<lparr>re_route = demo_route, re_ctxs = [0 \<mapsto> ns],
      re_free_pending = Some \<lparr>dl_blk = 0, dl_capacity = 32, dl_allocation_size = 32,
        dl_list = \<lparr>internal_list = (2, 31) # rev (map (Pair 2) [0..<31]), sl_length = 32\<rparr>,
        dl_element_init_cb = Some init_pending_am_rdv_recv_t, dl_num_mem_chunks = 1,
        dl_mem_chunks = \<lparr>da_base = Some (1, \<lparr>mc_size = 4864, mc_ptr = Some 2\<rparr> # replicate 1023 zero_mem_chunk),
           da_capacity = 1024, da_allocation_size = 1024, da_type_size = 16, da_element_init_fn = None\<rparr>,
        dl_elts = init_chunk (Some init_pending_am_rdv_recv_t) 2 32 (\<lambda>_. demo_rdv_mem)\<rparr>,
      re_heap = \<lparr>h_next = 3, h_live = [(2, 4864), (1, 16384), (0, 96)], h_oom = (\<lambda>_. False)\<rparr>, re_smart = None, re_returned = []\<rparr>"

lemma demo_rdv_init: "rdv_init (\<lambda>_. demo_rdv_mem) demo_route [0 \<mapsto> ns] None demo_heap = Inr (demo_rdv ns)"
proof -
  have m: "malloc 96 demo_heap = (Some 0, \<lparr>h_next = 1, h_live = [(0, 96)], h_oom = (\<lambda>_. False)\<rparr>)"
    "malloc (1024 * 16) \<lparr>h_next = 1, h_live = [(0, 96)], h_oom = (\<lambda>_. False)\<rparr>
     = (Some 1, \<lparr>h_next = 2, h_live = [(1, 16384), (0, 96)], h_oom = (\<lambda>_. False)\<rparr>)"
    "malloc (32 * 152) \<lparr>h_next = 2, h_live = [(1, 16384), (0, 96)], h_oom = (\<lambda>_. False)\<rparr>
     = (Some 2, re_heap (demo_rdv ns))"
    by (simp_all add: malloc_def malloc_ok_def heap_bytes_def demo_heap_def demo_rdv_def)
  have l: "rev (map (Pair (2 :: blk)) [0..<32]) = (2, 31) # rev (map (Pair 2) [0..<31])"
    using upt_Suc_append[of 0 31] by (simp del: upt_conv_Cons upt_Suc)
  show ?thesis
    by (simp add: rdv_init_def DYN_LIST_ALLOC_WITH_INIT_CALLBACK_def dyn_list_alloc_with_def DYN_ARRAY_ALLOC_def m[simplified]
        GROW_DYN_LIST_def DYN_ARRAY_GET_ELT_def da_write_def sizeof_dyn_list_t_def sizeof_mem_chunk_t_def
        DEFAULT_MEM_CHUNKS_def elts_in_def SIMPLE_LIST_INIT_def grow_step_fold SIMPLE_LIST_LENGTH_def
        sizeof_pending_rdv_recv_def replicate_1024 l
        del: upt_conv_Cons)
       (simp add: demo_rdv_def)
qed

text \<open>A type with a memory pool: its callback is registered with the functions of the pool.\<close>

definition demo_pool_info :: notification_info_t where
  "demo_pool_info = \<lparr>ni_get_buf = True, ni_return_buf = True, ni_mem_pool = Some 5, ni_element_size = 8\<rparr>"

definition demo_pool_ns :: notif_sys_t where
  "demo_pool_ns = demo_ns\<lparr>ns_callbacks := (ns_callbacks demo_ns)\<lparr>da_base := Some (0, demo_cbs[64 :=
     \<lparr>nc_set = True, nc_ev_sys = True, nc_cb = Some 9, nc_info = demo_pool_info\<rparr>])\<rparr>\<rparr>"

lemmas demo_rdv_eval = demo_rdv_def demo_ns_def am_notification_recv_rdv_msg_def DYN_LIST_GET_def SIMPLE_LIST_IS_EMPTY_def
  SIMPLE_LIST_EXTRACT_HEAD_def SIMPLE_LIST_LENGTH_def get_associated_econtext_def demo_route_def demo_msg_def take_buf_def
  get_notif_callback_entry_def DYN_ARRAY_GET_ELT_def da_read_def nthE_def demo_cbs_nth zero_cb_entry_def no_notif_info_def
  malloc_def malloc_ok_def heap_bytes_def am_rdv_recv_cb_def handle_notif_msg_def queue_notif_def pn_upd_def pn_of_def
  release_buf_def free_user_data_def free_blk_def rdv_write_def RESET_PENDING_RDV_RECV_def RESET_NOTIF_INFO_def Let_def

lemma demo_pool_register: "event_channel_register 64 (Some 9) (Some demo_pool_info) demo_ns = Inr (DO_SUCCESS, demo_pool_ns)"
  by (simp add: demo_rdv_eval event_channel_register_def set_entry_def da_write_def updE_def demo_pool_ns_def demo_pool_info_def
      RESET_NOTIF_CB_ENTRY_def COPY_NOTIF_INFO_def del: upt_conv_Cons upt_Suc)

lemma demo_ctxs_wf: "[0 \<mapsto> demo_ns] c = Some ns \<Longrightarrow> ns_wf ns" "[0 \<mapsto> demo_pool_ns] c = Some ns \<Longrightarrow> ns_wf ns"
proof -
  have w: "ns_wf demo_ns"
    by (rule notif_init_wf(1)[OF demo_wf demo_wf demo_ns_init])
  moreover have "ns_wf demo_pool_ns"
    using event_channel_register_step[OF w _ demo_pool_register] by (simp add: steps_to_def)
  ultimately show "[0 \<mapsto> demo_ns] c = Some ns \<Longrightarrow> ns_wf ns" "[0 \<mapsto> demo_pool_ns] c = Some ns \<Longrightarrow> ns_wf ns"
    by (simp_all split: if_splits)
qed

lemma demo_rdv_later:
  "\<exists>e1 e2 dl. am_notification_recv_rdv_msg Later (demo_msg 2) [7, 8] (demo_rdv demo_ns) = Inr (Some (2, 31), e1)
     \<and> am_rdv_recv_cb 2 (2, 31) e1 = Inr e2 \<and> re_free_pending e1 = Some dl \<and> ni_mem_pool (rdv_pool (dl_elts dl (2, 31))) = None
     \<and> re_returned e2 = []"
  by (simp add: demo_rdv_eval del: upt_conv_Cons upt_Suc)

lemma demo_rdv_now:
  "\<exists>e1 dl. am_notification_recv_rdv_msg (Now ()) (demo_msg 2) [7, 8] (demo_rdv demo_ns) = Inr (Some (2, 31), e1)
     \<and> re_free_pending e1 = Some dl \<and> ni_mem_pool (rdv_pool (dl_elts dl (2, 31))) = None"
  by (simp add: demo_rdv_eval del: upt_conv_Cons upt_Suc)

lemma demo_rdv_pool:
  "\<exists>e1 e2 dl. am_notification_recv_rdv_msg Later (demo_msg 2) [7, 8] (demo_rdv demo_pool_ns) = Inr (Some (2, 31), e1)
     \<and> am_rdv_recv_cb 2 (2, 31) e1 = Inr e2 \<and> re_free_pending e1 = Some dl \<and> ni_return_buf (rdv_pool (dl_elts dl (2, 31)))
     \<and> rdv_user_data (dl_elts dl (2, 31)) = Some (Pool_buf 5) \<and> re_returned e1 = []"
  by (simp add: demo_rdv_eval demo_pool_ns_def demo_pool_info_def get_notif_buf_def COPY_NOTIF_INFO_def return_pool_buf_def
      del: upt_conv_Cons upt_Suc)

text \<open>The message of the example is announced and arrives.\<close>

lemma demo_rdv_history:
  assumes "am_notification_recv_rdv_msg Later (demo_msg 2) [7, 8] (demo_rdv ns) = Inr (Some p, e1)"
  shows "rdv_history (demo_rdv ns) e1 [p \<mapsto> (demo_msg 2, [7, 8])] Map.empty []"
    "am_rdv_recv_cb 2 p e1 = Inr e2 \<Longrightarrow> rdv_history (demo_rdv ns) e2 Map.empty Map.empty [(demo_msg 2, [7, 8])]"
proof -
  show h: "rdv_history (demo_rdv ns) e1 [p \<mapsto> (demo_msg 2, [7, 8])] Map.empty []"
    using assms by (intro rdv_history.announce[OF rdv_history.start _ _ assms]) (auto simp: demo_msg_def)
  show "rdv_history (demo_rdv ns) e2 Map.empty Map.empty [(demo_msg 2, [7, 8])]" if "am_rdv_recv_cb 2 p e1 = Inr e2"
    using rdv_history.arrive[OF h, of p "demo_msg 2" "[7, 8]" e2] that by (simp add: numeral_2_eq_2)
qed

theorem rdv_messages_accounted_witness:
  "\<exists>e ns. rdv_history (demo_rdv demo_ns) e Map.empty Map.empty [(demo_msg 2, [7, 8])] \<and> re_ctxs e 0 = Some ns
     \<and> taken 64 ns = [(Some (demo_msg 2), Some [7, 8])]"
proof -
  from demo_rdv_later obtain e1 e2 dl where
    e: "am_notification_recv_rdv_msg Later (demo_msg 2) [7, 8] (demo_rdv demo_ns) = Inr (Some (2, 31), e1)"
      "am_rdv_recv_cb 2 (2, 31) e1 = Inr e2" "re_free_pending e1 = Some dl" "ni_mem_pool (rdv_pool (dl_elts dl (2, 31))) = None"
    by blast
  have h: "rdv_history (demo_rdv demo_ns) e2 Map.empty Map.empty [(demo_msg 2, [7, 8])]"
    by (rule demo_rdv_history(2)[OF e(1,2)])
  have t: "taken 64 demo_ns = []" "handed_to demo_route 0 64 [(demo_msg 2, [7, 8])] = [(Some (demo_msg 2), Some [7, 8])]"
    using notif_init_wf(2)[OF demo_wf demo_wf demo_ns_init]
    by (simp_all add: handed_to_def get_associated_econtext_def demo_route_def demo_msg_def)
  have "re_free_pending (demo_rdv demo_ns) \<noteq> None"
    by (simp add: demo_rdv_def)
  moreover have "\<forall>c ns. [0 \<mapsto> demo_ns] c = Some ns \<longrightarrow> ns_wf ns"
    using demo_ctxs_wf(1) by blast
  ultimately have "\<forall>c ns0. [0 \<mapsto> demo_ns] c = Some ns0 \<longrightarrow> (\<exists>ns. re_ctxs e2 c = Some ns
      \<and> (\<forall>t. taken t ns = taken t ns0 @ handed_to demo_route c t [(demo_msg 2, [7, 8])]))"
    using rdv_messages_accounted[OF demo_wf demo_rdv_init _ _ h] by blast
  then have "\<exists>ns. re_ctxs e2 0 = Some ns \<and> (\<forall>t. taken t ns = taken t demo_ns @ handed_to demo_route 0 t [(demo_msg 2, [7, 8])])"
    by simp
  then obtain ns where "re_ctxs e2 0 = Some ns" "taken 64 ns = taken 64 demo_ns @ handed_to demo_route 0 64 [(demo_msg 2, [7, 8])]"
    by blast
  with h t show ?thesis
    by auto
qed

theorem rdv_fini_ends_witness:
  "\<exists>e e'. rdv_history (demo_rdv demo_ns) e Map.empty Map.empty [(demo_msg 2, [7, 8])]
     \<and> (\<exists>n. fini_pending_rdv_recvs n e = Inr (Some e')) \<and> live_blks (re_heap e') = {}"
proof -
  from demo_rdv_later obtain e1 e2 dl where
    e: "am_notification_recv_rdv_msg Later (demo_msg 2) [7, 8] (demo_rdv demo_ns) = Inr (Some (2, 31), e1)"
      "am_rdv_recv_cb 2 (2, 31) e1 = Inr e2" "re_free_pending e1 = Some dl" "ni_mem_pool (rdv_pool (dl_elts dl (2, 31))) = None"
      "re_returned e2 = []"
    by blast
  have h: "rdv_history (demo_rdv demo_ns) e2 Map.empty Map.empty [(demo_msg 2, [7, 8])]"
    by (rule demo_rdv_history(2)[OF e(1,2)])
  have "re_free_pending (demo_rdv demo_ns) \<noteq> None" "live_blks demo_heap = {}"
    by (simp_all add: demo_rdv_def live_blks_def demo_heap_def)
  with rdv_fini_ends[OF demo_wf demo_rdv_init this(1) _ h e(5)] demo_ctxs_wf(1) h show ?thesis
    by blast
qed

theorem rdv_immediate_blocks_fini_witness:
  "\<exists>e. am_notification_recv_rdv_msg (Now ()) (demo_msg 2) [7, 8] (demo_rdv demo_ns) = Inr (Some (2, 31), e)
     \<and> (\<forall>n e2. fini_pending_rdv_recvs n e \<noteq> Inr (Some e2))"
proof -
  from demo_rdv_now obtain e1 dl where
    e: "am_notification_recv_rdv_msg (Now ()) (demo_msg 2) [7, 8] (demo_rdv demo_ns) = Inr (Some (2, 31), e1)"
      "re_free_pending e1 = Some dl" "ni_mem_pool (rdv_pool (dl_elts dl (2, 31))) = None"
    by blast
  have "re_free_pending (demo_rdv demo_ns) \<noteq> None" "hdr_type (demo_msg 2) < 2 ^ 32"
    by (simp_all add: demo_rdv_def demo_msg_def)
  with rdv_immediate_blocks_fini[OF demo_wf demo_rdv_init this(1) _ rdv_history.start _ this(2) e(1)] demo_ctxs_wf(1) e show ?thesis
    by auto
qed

theorem rdv_pool_buffer_freed_by_fini_witness:
  "\<exists>e1 e2. am_notification_recv_rdv_msg Later (demo_msg 2) [7, 8] (demo_rdv demo_pool_ns) = Inr (Some (2, 31), e1)
     \<and> am_rdv_recv_cb 2 (2, 31) e1 = Inr e2 \<and> re_returned e2 = [5] \<and> fini_pending_rdv_recvs 33 e2 = Inl Bad_free"
proof -
  from demo_rdv_pool obtain e1 e2 dl where
    e: "am_notification_recv_rdv_msg Later (demo_msg 2) [7, 8] (demo_rdv demo_pool_ns) = Inr (Some (2, 31), e1)"
      "am_rdv_recv_cb 2 (2, 31) e1 = Inr e2" "re_free_pending e1 = Some dl" "ni_return_buf (rdv_pool (dl_elts dl (2, 31)))"
      "rdv_user_data (dl_elts dl (2, 31)) = Some (Pool_buf 5)" "re_returned e1 = []"
    by blast
  have h: "rdv_history (demo_rdv demo_pool_ns) e1 [(2, 31) \<mapsto> (demo_msg 2, [7, 8])] Map.empty []"
    by (rule demo_rdv_history(1)[OF e(1)])
  have "re_free_pending (demo_rdv demo_pool_ns) \<noteq> None"
    by (simp add: demo_rdv_def)
  from rdv_pool_buffer_freed_by_fini[OF demo_wf demo_rdv_init this _ h _ e(3,5), of "demo_msg 2" "[7, 8]" e2 32] demo_ctxs_wf(2) e
  show ?thesis
    by (auto simp: numeral_2_eq_2 eval_nat_numeral(3)[symmetric] simp del: One_nat_def)
qed

end
