(* ===== verification/Contexts.thy ===== *)
theory Contexts
imports Bootstrap Inter_Dpus Notifications
begin

text \<open>
  Creating execution contexts (\<open>client_init\<close> and \<open>server_init\<close> of \<open>src/src/dpu_offload_service_daemon.c\<close>) and the connection manager
  of service processes (\<open>src/src/inter_dpus_comm.c\<close>).  Contexts and the handles of clients and servers are blocks of the heap; the
  engine keeps pointers to contexts.  What UCX, the sockets and the threads answer is a parameter.
\<close>

section \<open>State\<close>

text \<open>The union of a context and its handle: the block of the handle, the client or server, and its connection parameters.\<close>

datatype handle_t = No_handle | Client_handle blk client_t conn_params_t | Server_handle blk server_t conn_params_t

record econtext_t =
  ec_type :: econtext_type
  ec_scope :: execution_scope_t
  ec_rank :: rank_info_t
  ec_events :: "notif_sys_t option"
  ec_connected_cb :: bool
  ec_handle :: handle_t

definition RESET_ECONTEXT :: econtext_t where
  "RESET_ECONTEXT = \<lparr>ec_type = CONTEXT_UNKOWN, ec_scope = SCOPE_HOST_DPU, ec_rank = RESET_RANK_INFO zero_rank_info, ec_events = None,
     ec_connected_cb = False, ec_handle = No_handle\<rparr>"

text \<open>Of the parameters, \<open>id\<close> is \<open>Some\<close> when \<open>id_set\<close>.  The callbacks of servers are those of the library.\<close>

record init_params_t =
  ip_scope_id :: execution_scope_t
  ip_conn_params :: "conn_params_t option"
  ip_proc_info :: rank_info_t
  ip_worker :: "nat option"
  ip_ucp_context :: "nat option"
  ip_id :: "nat option"
  ip_num_sps :: nat
  ip_connected_cb :: connected_cb_t

text \<open>The arrays of servers and of clients for other service processes have a fixed size; UCX contexts that were cleaned up are recorded.\<close>

record ctx_engine_t =
  ce_base :: offloading_engine_t
  ce_host_index :: nat
  ce_host_dpu_data_initialized :: bool
  ce_total_num_sps :: nat
  ce_bootstrap :: "blk option"
  ce_clients_num_active :: nat
  ce_servers :: "blk option list"
  ce_servers_num :: nat
  ce_servers_num_active :: nat
  ce_inter :: "(blk \<times> nat) option list"
  ce_num_inter :: nat
  ce_lookup :: "u64 \<Rightarrow> blk option"
  ce_ucp_context :: "nat option"
  ce_ucp_context_allocated :: bool
  ce_worker :: "nat option"
  ce_worker_allocated :: bool
  ce_self_ep :: bool
  ce_notifs :: notif_engine_t
  ce_heap :: heap
  ce_ctxs :: "blk \<Rightarrow> econtext_t option"
  ce_cleaned :: "nat list"

definition DEFAULT_MAX_NUM_SERVERS :: nat where "DEFAULT_MAX_NUM_SERVERS = 256"

text \<open>What the environment answers: the context and the worker of UCX, the address of the worker, the event system \<open>ev_channels_init\<close>
  created, whether the handler of active messages was set, what was read from the socket, whether the thread was started, the
  environment variables, the hash of the hostname and what the memory of a client held.\<close>

record ctx_answers =
  aa_init_ucx :: nat
  aa_init_worker :: "nat option"
  aa_address :: "u8 list option"
  aa_events :: "notif_sys_t option"
  aa_am_handler :: bool
  aa_hello :: "oob_hello option"
  aa_thread :: bool
  aa_ep :: bool
  aa_getenv :: "string \<Rightarrow> string option"
  aa_hostname_hash :: nat
  aa_garbage :: nat

definition sizeof_execution_context_t :: u64 where "sizeof_execution_context_t = 136"
definition sizeof_dpu_offload_client_t :: u64 where "sizeof_dpu_offload_client_t = 1000"
definition sizeof_dpu_offload_server_t :: u64 where "sizeof_dpu_offload_server_t = 512"

definition ctx_at :: "blk \<Rightarrow> ctx_engine_t \<Rightarrow> econtext_t res" where
  "ctx_at b e = derefE (ce_ctxs e b)"

definition ctx_put :: "blk \<Rightarrow> econtext_t \<Rightarrow> ctx_engine_t \<Rightarrow> ctx_engine_t" where
  "ctx_put b c e = e\<lparr>ce_ctxs := (ce_ctxs e)(b \<mapsto> c)\<rparr>"

section \<open>Contexts\<close>

definition execution_context_init :: "econtext_type \<Rightarrow> ctx_engine_t \<Rightarrow> blk option \<times> ctx_engine_t" where
  "execution_context_init type e =
     (case malloc sizeof_execution_context_t (ce_heap e) of
        (None, h) \<Rightarrow> (None, e\<lparr>ce_heap := h\<rparr>)
      | (Some b, h) \<Rightarrow> (Some b, ctx_put b (RESET_ECONTEXT\<lparr>ec_type := type, ec_scope := SCOPE_HOST_DPU\<rparr>) (e\<lparr>ce_heap := h\<rparr>)))"

text \<open>\<open>free\<close> of a context: the block and what it held are gone, the handle and the event system are not freed with it.\<close>

definition free_ctx :: "blk \<Rightarrow> ctx_engine_t \<Rightarrow> ctx_engine_t res" where
  "free_ctx b e = bindE (free_blk b (ce_heap e)) (\<lambda>h. Inr (e\<lparr>ce_heap := h, ce_ctxs := (ce_ctxs e)(b := None)\<rparr>))"

definition init_context :: "ctx_answers \<Rightarrow> ctx_engine_t \<Rightarrow> nat option \<times> ctx_engine_t" where
  "init_context a e =
     (case aa_init_worker a of
        None \<Rightarrow> (None, e\<lparr>ce_cleaned := ce_cleaned e @ (case ce_ucp_context e of None \<Rightarrow> [] | Some c \<Rightarrow> [c])\<rparr>)
      | Some w \<Rightarrow> (Some w, e))"

text \<open>\<open>DO_INIT_WORKER\<close> makes the function that uses it return an error when the worker cannot be created.\<close>

definition DO_INIT_WORKER :: "ctx_answers \<Rightarrow> init_params_t option \<Rightarrow> ctx_engine_t \<Rightarrow> (dpu_offload_status_t \<times> ctx_engine_t) res" where
  "DO_INIT_WORKER a ip e =
     (case Option.bind ip ip_worker of
        None \<Rightarrow>
          let e1 = (if ce_ucp_context e = None then e\<lparr>ce_ucp_context := Some (aa_init_ucx a), ce_ucp_context_allocated := True\<rparr> else e) in
          if ce_worker e1 = None then
            case init_context a e1 of
              (None, e2) \<Rightarrow> Inr (DO_ERROR, e2)
            | (Some w, e2) \<Rightarrow> Inr (DO_SUCCESS, e2\<lparr>ce_worker := Some w, ce_worker_allocated := True\<rparr>)
          else Inr (DO_SUCCESS, e1)
      | Some w \<Rightarrow>
          let e1 = (if ce_ucp_context e = None then e\<lparr>ce_ucp_context := Option.bind ip ip_ucp_context\<rparr> else e) in
          if ce_worker e1 = None then Inr (DO_SUCCESS, e1\<lparr>ce_worker := Some w\<rparr>)
          else bindE (assertE (ce_worker e1 = Some w)) (\<lambda>_. Inr (DO_SUCCESS, e1)))"

text \<open>The handler of active messages is set on the worker, except for the context of the process itself.\<close>

definition event_channels_init :: "ctx_answers \<Rightarrow> blk \<Rightarrow> ctx_engine_t \<Rightarrow> (dpu_offload_status_t \<times> ctx_engine_t) res" where
  "event_channels_init a b e =
     bindE (ctx_at b e) (\<lambda>c.
     case aa_events a of
       None \<Rightarrow> Inr (DO_ERROR, e)
     | Some ns \<Rightarrow>
         let e1 = ctx_put b (c\<lparr>ec_events := Some ns\<rparr>) e in
         if ec_scope c = SCOPE_SELF then Inr (DO_SUCCESS, e1)
         else if ce_worker e1 = None \<or> \<not> aa_am_handler a then Inr (DO_ERROR, e1)
         else Inr (DO_SUCCESS, e1))"

text \<open>The notifications of the library, then those of the engine, are registered with a new context; a server looks at the result
  of the first before it goes on, a client after both.\<close>

definition register_notifs :: "bool \<Rightarrow> blk \<Rightarrow> ctx_engine_t \<Rightarrow> (dpu_offload_status_t \<times> ctx_engine_t) res" where
  "register_notifs is_server b e =
     bindE (ctx_at b e) (\<lambda>c.
     bindE (derefE (ec_events c)) (\<lambda>ns.
     bindE (register_default_notifications ns) (\<lambda>(rc, ns1).
     if is_server \<and> rc \<noteq> DO_SUCCESS then Inr (rc, ctx_put b (c\<lparr>ec_events := Some ns1\<rparr>) e) else
     bindE (ADD_DEFAULT_ENGINE_CALLBACKS (ce_notifs e) ns1) (\<lambda>(rc1, ns2).
     Inr (if rc1 \<noteq> DO_SUCCESS then rc1 else rc, ctx_put b (c\<lparr>ec_events := Some ns2\<rparr>) e)))))"

section \<open>Clients\<close>

definition client_init_context :: "ctx_answers \<Rightarrow> init_params_t option \<Rightarrow> blk \<Rightarrow> ctx_engine_t \<Rightarrow> (dpu_offload_status_t \<times> ctx_engine_t) res" where
  "client_init_context a ip b e =
     bindE (ctx_at b e) (\<lambda>c.
     case malloc sizeof_dpu_offload_client_t (ce_heap e) of
       (None, h) \<Rightarrow> Inr (DO_ERROR, e\<lparr>ce_heap := h\<rparr>)
     | (Some cb, h) \<Rightarrow>
         let cl = RESET_CLIENT (ec_scope c) (ec_rank c) [] (aa_garbage a);
             (rc, cp, cl1) = (case Option.bind ip ip_conn_params of
                None \<Rightarrow> (case get_env_config (aa_getenv a) RESET_CONN_PARAMS of (rc, cp) \<Rightarrow> (rc, cp, cl))
              | Some cp \<Rightarrow> if cp_addr_str cp = None then (DO_ERROR, RESET_CONN_PARAMS, cl)
                           else (DO_SUCCESS, cp, case Option.bind ip ip_id of None \<Rightarrow> cl | Some i \<Rightarrow> cl\<lparr>cl_id := i\<rparr>));
             e1 = ctx_put b (c\<lparr>ec_type := CONTEXT_CLIENT, ec_handle := Client_handle cb cl1 cp\<rparr>) (e\<lparr>ce_heap := h\<rparr>) in
         if rc \<noteq> DO_SUCCESS then Inr (DO_ERROR, e1) else
         bindE (DO_INIT_WORKER a ip e1) (\<lambda>(rc, e2).
         if rc \<noteq> DO_SUCCESS then Inr (DO_ERROR, e2) else
         bindE (assertE (ce_worker e2 \<noteq> None)) (\<lambda>_.
         let rank = (ec_rank c)\<lparr>ri_host_info := aa_hostname_hash a\<rparr>;
             rank1 = (case ip of
                None \<Rightarrow> rank
              | Some i \<Rightarrow> if ri_group_rank (ip_proc_info i) = INVALID_RANK then rank
                          else rank\<lparr>ri_group_uid := ri_group_uid (ip_proc_info i), ri_group_rank := ri_group_rank (ip_proc_info i)\<rparr>);
             cb_set = (case ip of None \<Rightarrow> False | Some i \<Rightarrow> ip_connected_cb i \<noteq> No_connected_cb);
             c1 = c\<lparr>ec_type := CONTEXT_CLIENT, ec_rank := rank1, ec_connected_cb := cb_set\<rparr> in
         case aa_address a of
           None \<Rightarrow> Inr (DO_ERROR, ctx_put b (c1\<lparr>ec_handle := Client_handle cb cl1 cp\<rparr>) e2)
         | Some addr \<Rightarrow>
             Inr (DO_SUCCESS, ctx_put b (c1\<lparr>ec_handle := Client_handle cb (cl1\<lparr>cl_rank := rank1, cl_local_addr := addr\<rparr>) cp\<rparr>) e2))))"

text \<open>The part of \<open>client_init\<close> that looks at the parameters: the rank of the process, its group and the number of service processes.
  \<open>None\<close> when the numbers of service processes differ.\<close>

definition client_rank :: "init_params_t \<Rightarrow> ctx_engine_t \<Rightarrow> rank_info_t" where
  "client_rank ip e =
     (let ri = ip_proc_info ip; cfg = e_config (ce_base e) in
      if ri_group_uid ri \<noteq> INT_MAX \<and> ri_host_info ri = UINT64_MAX
      then ri\<lparr>ri_host_info := hi_uid (arr_get (ce_host_index e) \<lparr>hi_hostname = [], hi_uid = 0, hi_idx = 0\<rparr> (cfg_hosts_config cfg))\<rparr>
      else ri)"

definition client_group :: "rank_info_t \<Rightarrow> offloading_engine_t \<Rightarrow> offloading_engine_t res" where
  "client_group ri e =
     (if ri_group_uid ri = INT_MAX then Inr e
      else
        bindE (GET_GROUP_CACHE_INTERNAL (ri_group_uid ri) (ri_group_size ri) e) (\<lambda>e1.
        gp_upd (ri_group_uid ri) (\<lambda>g. if gc_group_size g = 0
           then g\<lparr>gc_group_size := nat (ri_group_size ri), gc_n_local_ranks := nat (ri_n_local_ranks ri), gc_group_uid := ri_group_uid ri\<rparr>
           else g) e1))"

definition client_num_sps :: "init_params_t \<Rightarrow> offloading_engine_t \<Rightarrow> bool \<times> offloading_engine_t" where
  "client_num_sps ip e =
     (let e1 = (if 0 < ip_num_sps ip \<and> e_num_service_procs e = 0 then e\<lparr>e_num_service_procs := ip_num_sps ip\<rparr> else e) in
      (\<not> (0 < ip_num_sps ip \<and> 0 < e_num_service_procs e1 \<and> ip_num_sps ip \<noteq> e_num_service_procs e1), e1))"

text \<open>The end of \<open>client_init\<close>: the group of the rank is marked as in use.\<close>

definition client_mark_group :: "blk \<Rightarrow> ctx_engine_t \<Rightarrow> ctx_engine_t res" where
  "client_mark_group b e =
     bindE (ctx_at b e) (\<lambda>c.
     let ri = ec_rank c in
     if ri_group_uid ri = INT_MAX \<or> ri_group_rank ri = INVALID_RANK then Inr e else
     bindE (is_in_cache (ri_group_uid ri) (ri_group_rank ri) (ri_group_size ri) (ce_base e)) (\<lambda>(known, e1).
     if known then Inr (e\<lparr>ce_base := e1\<rparr>) else
     bindE (assertE (c_world_group (e_procs_cache e1) = ri_group_uid ri)) (\<lambda>_.
     bindE (GET_GROUP_CACHE_INTERNAL (ri_group_uid ri) (ri_group_size ri) e1) (\<lambda>e2.
     bindE (gp_get (ri_group_uid ri) e2) (\<lambda>g.
     bindE (assertE (p_num (gc_persistent g) = 0)) (\<lambda>_.
     Inr (ctx_put b (c\<lparr>ec_rank := ri\<lparr>ri_group_seq_num := 1\<rparr>\<rparr>)
       (e\<lparr>ce_base := gp_put (ri_group_uid ri) (g\<lparr>gc_persistent := (gc_persistent g)\<lparr>p_num := 1\<rparr>\<rparr>) e2\<rparr>))))))))"

text \<open>The exit on errors frees the context of the client the engine had.\<close>

definition client_init_error :: "ctx_engine_t \<Rightarrow> (blk option \<times> ctx_engine_t) res" where
  "client_init_error e =
     (case ce_bootstrap e of
        None \<Rightarrow> Inr (None, e)
      | Some b \<Rightarrow> bindE (free_ctx b e) (\<lambda>e1. Inr (None, e1\<lparr>ce_bootstrap := None\<rparr>)))"

definition client_oob_connect :: "ctx_answers \<Rightarrow> blk \<Rightarrow> ctx_engine_t \<Rightarrow> (dpu_offload_status_t \<times> ctx_engine_t) res" where
  "client_oob_connect a b e =
     bindE (ctx_at b e) (\<lambda>c.
     case ec_handle c of
       Client_handle cb cl cp \<Rightarrow>
         (case oob_connect (aa_hello a) cl of (rc, cl1) \<Rightarrow> Inr (rc, ctx_put b (c\<lparr>ec_handle := Client_handle cb cl1 cp\<rparr>) e))
     | _ \<Rightarrow> Inl Null_deref)"

definition client_init :: "ctx_answers \<Rightarrow> init_params_t option \<Rightarrow> ctx_engine_t \<Rightarrow> (blk option \<times> ctx_engine_t) res" where
  "client_init a ipo e =
     (if ce_bootstrap e \<noteq> None then client_init_error e
      else
        bindE (derefE ipo) (\<lambda>ip.
        bindE (derefE (ip_conn_params ip)) (\<lambda>cp.
        bindE (assertE (0 < cp_port cp)) (\<lambda>_.
        let e1 = (if \<not> e_on_dpu (ce_base e) \<and> \<not> ce_host_dpu_data_initialized e
                  then e\<lparr>ce_total_num_sps := UINT64_MAX, ce_host_dpu_data_initialized := True\<rparr> else e) in
        case execution_context_init CONTEXT_CLIENT e1 of
          (None, e2) \<Rightarrow> client_init_error e2
        | (Some b, e2) \<Rightarrow>
            let ri = client_rank ip e2 in
            bindE (ctx_at b e2) (\<lambda>c.
            bindE (client_group ri (ce_base e2)) (\<lambda>base.
            let (ok, base1) = client_num_sps ip base;
                e3 = ctx_put b (c\<lparr>ec_scope := ip_scope_id ip, ec_rank := COPY_RANK_INFO ri (ec_rank c)\<rparr>) (e2\<lparr>ce_base := base1\<rparr>) in
            if \<not> ok then client_init_error e3 else
            bindE (client_init_context a (Some ip) b e3) (\<lambda>(rc, e4).
            if rc \<noteq> DO_SUCCESS then client_init_error e4 else
            bindE (event_channels_init a b e4) (\<lambda>(rc, e5).
            if rc \<noteq> DO_SUCCESS then client_init_error e5 else
            bindE (client_oob_connect a b e5) (\<lambda>(rc, e6).
            if rc \<noteq> DO_SUCCESS then client_init_error e6 else
            bindE (register_notifs False b e6) (\<lambda>(rc, e7).
            if rc \<noteq> DO_SUCCESS then client_init_error e7 else
            bindE (client_mark_group b e7) (\<lambda>e8.
            Inr (Some b, e8))))))))))))"

section \<open>Servers\<close>

definition server_conn_params :: "ctx_answers \<Rightarrow> init_params_t option \<Rightarrow> econtext_t \<Rightarrow> dpu_offload_status_t \<times> conn_params_t \<times> econtext_t" where
  "server_conn_params a ipo c =
     (case Option.bind ipo ip_conn_params of
        None \<Rightarrow> (case get_env_config (aa_getenv a) RESET_CONN_PARAMS of (rc, cp) \<Rightarrow> (rc, cp, c))
      | Some cp \<Rightarrow> (DO_SUCCESS, cp, c\<lparr>ec_scope := ip_scope_id (the ipo)\<rparr>))"

definition server_cb :: "init_params_t option \<Rightarrow> connected_cb_t" where
  "server_cb ipo = (case ipo of None \<Rightarrow> No_connected_cb | Some ip \<Rightarrow> ip_connected_cb ip)"

definition server_ctx_init :: "ctx_answers \<Rightarrow> init_params_t option \<Rightarrow> blk \<Rightarrow> ctx_engine_t \<Rightarrow> (dpu_offload_status_t \<times> ctx_engine_t) res" where
  "server_ctx_init a ipo b e =
     bindE (ctx_at b e) (\<lambda>c.
     case malloc sizeof_dpu_offload_server_t (ce_heap e) of
       (None, h) \<Rightarrow> Inr (DO_ERROR, e\<lparr>ce_heap := h\<rparr>)
     | (Some sb, h) \<Rightarrow>
         let (rc, cp, c1) = server_conn_params a ipo (c\<lparr>ec_type := CONTEXT_SERVER\<rparr>);
             id = (case Option.bind ipo ip_id of None \<Rightarrow> UINT64_MAX | Some i \<Rightarrow> if ip_conn_params (the ipo) = None then UINT64_MAX else i);
             sv = (\<lambda>addr. server_init_context id (ec_scope c1) (server_cb ipo) addr);
             e1 = ctx_put b (c1\<lparr>ec_handle := Server_handle sb (sv []) cp\<rparr>) (e\<lparr>ce_heap := h\<rparr>) in
         if rc \<noteq> DO_SUCCESS then Inr (DO_ERROR, e1) else
         bindE (DO_INIT_WORKER a ipo e1) (\<lambda>(rc, e2).
         if rc \<noteq> DO_SUCCESS then Inr (DO_ERROR, e2) else
         bindE (assertE (ce_worker e2 \<noteq> None)) (\<lambda>_.
         case aa_address a of
           None \<Rightarrow> Inr (DO_ERROR, e2)
         | Some addr \<Rightarrow> Inr (DO_SUCCESS, ctx_put b (c1\<lparr>ec_handle := Server_handle sb (sv addr) cp\<rparr>) e2))))"

definition server_id :: "init_params_t option \<Rightarrow> ctx_engine_t \<Rightarrow> nat" where
  "server_id ipo e =
     (case ipo of
        None \<Rightarrow> ce_servers_num e
      | Some ip \<Rightarrow>
          if e_on_dpu (ce_base e) \<and> ip_scope_id ip = SCOPE_INTER_SERVICE_PROCS then cfg_local_sp_global_id (e_config (ce_base e))
          else (case ip_id ip of Some i \<Rightarrow> i | None \<Rightarrow> ce_servers_num e))"

definition add_server :: "init_params_t option \<Rightarrow> blk \<Rightarrow> ctx_engine_t \<Rightarrow> ctx_engine_t res" where
  "add_server ipo b e =
     bindE (ctx_at b e) (\<lambda>c.
     case ec_handle c of
       Server_handle sb sv cp \<Rightarrow>
         bindE (updE (ce_servers e) (ce_servers_num e) (Some b)) (\<lambda>l.
         Inr ((ctx_put b (c\<lparr>ec_handle := Server_handle sb (sv\<lparr>sv_id := server_id ipo e\<rparr>) cp\<rparr>) e)
           \<lparr>ce_servers := l, ce_servers_num := Suc (ce_servers_num e), ce_servers_num_active := Suc (ce_servers_num_active e)\<rparr>))
     | _ \<Rightarrow> Inl Null_deref)"

definition server_init_error :: "blk \<Rightarrow> ctx_engine_t \<Rightarrow> (blk option \<times> ctx_engine_t) res" where
  "server_init_error b e = bindE (free_ctx b e) (\<lambda>e1. Inr (None, e1))"

text \<open>When the context cannot be allocated, the exit on errors frees a pointer that was never set.\<close>

definition server_init :: "ctx_answers \<Rightarrow> init_params_t option \<Rightarrow> ctx_engine_t \<Rightarrow> (blk option \<times> ctx_engine_t) res" where
  "server_init a ipo e =
     (case execution_context_init CONTEXT_SERVER e of
        (None, e1) \<Rightarrow> Inl Bad_free
      | (Some b, e1) \<Rightarrow>
          bindE (server_ctx_init a ipo b e1) (\<lambda>(rc, e2).
          if rc \<noteq> DO_SUCCESS then server_init_error b e2 else
          bindE (add_server ipo b e2) (\<lambda>e3.
          bindE (event_channels_init a b e3) (\<lambda>(rc, e4).
          if rc \<noteq> DO_SUCCESS \<or> \<not> aa_thread a then server_init_error b e4 else
          bindE (case Option.bind ipo ip_conn_params of
                   None \<Rightarrow> Inr ()
                 | Some cp \<Rightarrow> assertE (cp_addr_str cp \<noteq> None \<and> 0 < cp_port cp)) (\<lambda>_.
          bindE (register_notifs True b e4) (\<lambda>(rc, e5).
          if rc \<noteq> DO_SUCCESS then server_init_error b e5 else Inr (Some b, e5)))))))"

text \<open>The end of a server: the endpoints of the connected clients are closed, the handle and the context are freed.  The engine still
  points to the context.\<close>

definition close_client_eps :: "server_t \<Rightarrow> server_t" where
  "close_client_eps sv = fold (\<lambda>i sv. put_client i ((client_at i sv)\<lparr>ci_ep := False\<rparr>) sv) [0..<sv_num_connected_clients sv] sv"

definition execution_context_fini :: "blk \<Rightarrow> ctx_engine_t \<Rightarrow> ctx_engine_t res" where
  "execution_context_fini b e = bindE (ctx_at b e) (\<lambda>c. free_ctx b (ctx_put b (c\<lparr>ec_events := None\<rparr>) e))"

definition server_fini :: "blk option \<Rightarrow> ctx_engine_t \<Rightarrow> ctx_engine_t res" where
  "server_fini bo e =
     (case bo of
        None \<Rightarrow> Inr e
      | Some b \<Rightarrow>
          bindE (ctx_at b e) (\<lambda>c.
          if ec_type c \<noteq> CONTEXT_SERVER then Inr e else
          case ec_handle c of
            Server_handle sb sv cp \<Rightarrow>
              let e1 = ctx_put b (c\<lparr>ec_handle := Server_handle sb (close_client_eps sv) cp\<rparr>) e in
              bindE (free_blk sb (ce_heap e1)) (\<lambda>h.
              execution_context_fini b (ctx_put b (c\<lparr>ec_handle := No_handle\<rparr>) (e1\<lparr>ce_heap := h\<rparr>)))
          | _ \<Rightarrow> Inl Null_deref))"

text \<open>What programs call after \<open>client_init\<close> and, as some daemons do, after \<open>server_init\<close>.\<close>

definition ADD_CLIENT_TO_ENGINE :: "blk \<Rightarrow> ctx_engine_t \<Rightarrow> ctx_engine_t" where
  "ADD_CLIENT_TO_ENGINE b e = e\<lparr>ce_bootstrap := Some b, ce_clients_num_active := Suc (ce_clients_num_active e)\<rparr>"

definition ADD_SERVER_TO_ENGINE :: "blk \<Rightarrow> ctx_engine_t \<Rightarrow> ctx_engine_t res" where
  "ADD_SERVER_TO_ENGINE b e =
     bindE (updE (ce_servers e) (ce_servers_num e) (Some b)) (\<lambda>l.
     Inr (e\<lparr>ce_servers := l, ce_servers_num_active := Suc (ce_servers_num_active e), ce_servers_num := Suc (ce_servers_num e)\<rparr>))"

section \<open>The connection manager of service processes\<close>

text \<open>The rank of a service process towards another one is its global identifier.\<close>

definition sp_init_params :: "nat \<Rightarrow> conn_params_t \<Rightarrow> init_params_t" where
  "sp_init_params gid cp =
     \<lparr>ip_scope_id = SCOPE_INTER_SERVICE_PROCS, ip_conn_params = Some cp,
      ip_proc_info = (RESET_RANK_INFO zero_rank_info)\<lparr>ri_group_rank := int gid\<rparr>, ip_worker = None, ip_ucp_context = None, ip_id = None,
      ip_num_sps = 0, ip_connected_cb = Service_proc_cb\<rparr>"

definition client_ids :: "blk \<Rightarrow> ctx_engine_t \<Rightarrow> (nat \<times> nat) res" where
  "client_ids b e =
     bindE (ctx_at b e) (\<lambda>c. case ec_handle c of Client_handle cb cl cp \<Rightarrow> Inr (cl_id cl, cl_server_global_id cl) | _ \<Rightarrow> Inl Null_deref)"

definition connect_to_remote_service_proc :: "ctx_answers \<Rightarrow> nat \<Rightarrow> config_t \<times> ctx_engine_t
    \<Rightarrow> (dpu_offload_status_t \<times> config_t \<times> ctx_engine_t) res" where
  "connect_to_remote_service_proc a target_sp_gid s =
     (case s of (c, e) \<Rightarrow>
      bindE (prepare_connection target_sp_gid c) (\<lambda>(cp, c1).
      bindE (client_init a (Some (sp_init_params (cfg_local_sp_global_id c) cp)) e) (\<lambda>(b, e1).
      case b of
        None \<Rightarrow> Inr (DO_ERROR, c1, e1)
      | Some b \<Rightarrow>
          bindE (updE (ce_inter e1) (ce_num_inter e1) (Some (b, target_sp_gid))) (\<lambda>l.
          bindE (client_ids b e1) (\<lambda>(id, gid).
          bindE (assertE (id \<noteq> UINT64_MAX \<and> gid \<noteq> UINT64_MAX)) (\<lambda>_.
          Inr (DO_SUCCESS, c1, e1\<lparr>ce_inter := l, ce_num_inter := Suc (ce_num_inter e1),
                 ce_clients_num_active := Suc (ce_clients_num_active e1),
                 ce_lookup := CLIENT_SERVER_ADD (of_nat id) (of_nat gid) b (ce_lookup e1)\<rparr>)))))))"

primrec connect_to_service_procs :: "(nat \<Rightarrow> ctx_answers) \<Rightarrow> nat list \<Rightarrow> config_t \<times> ctx_engine_t
    \<Rightarrow> (dpu_offload_status_t \<times> config_t \<times> ctx_engine_t) res" where
  "connect_to_service_procs as [] s = Inr (DO_SUCCESS, s)"
| "connect_to_service_procs as (gid # gids) s =
     bindE (connect_to_remote_service_proc (as gid) gid s) (\<lambda>(rc, s1).
     if rc \<noteq> DO_SUCCESS then Inr (DO_ERROR, s1) else connect_to_service_procs as gids s1)"

text \<open>The endpoint to the process itself; the endpoint is named by 0.  The address of the worker is kept in the entry of the
  process in the code (\<open>addr\<close>, \<open>addr_len\<close>) and read again only by the exchange of the data of service processes, which has
  a model of its own (\<open>SP_Data\<close>); it is not recorded here.\<close>

definition self_endpoint :: "ctx_answers \<Rightarrow> config_t \<times> ctx_engine_t \<Rightarrow> (dpu_offload_status_t \<times> config_t \<times> ctx_engine_t) res" where
  "self_endpoint a s =
     (case s of (c, e) \<Rightarrow>
      let e1 = (if ce_ucp_context e = None then e\<lparr>ce_ucp_context := Some (aa_init_ucx a), ce_ucp_context_allocated := True\<rparr> else e);
          e2 = (if ce_worker e1 = None then e1\<lparr>ce_worker := aa_init_worker a, ce_worker_allocated := True\<rparr> else e1);
          i = cfg_local_sp_global_id c; sp = arr_get i zero_sp_conf (cf_engine_sps c) in
      if aa_address a = None \<or> \<not> aa_ep a then Inr (DO_ERROR, c, e2)
      else
        bindE (assertE (i \<noteq> UINT64_MAX)) (\<lambda>_.
        Inr (DO_SUCCESS, c\<lparr>cf_self_ep := Some 0, cf_engine_sps := arr_put i zero_sp_conf (sp\<lparr>sc_ep := Some 0\<rparr>) (cf_engine_sps c)\<rparr>,
             e2\<lparr>ce_self_ep := True\<rparr>)))"

text \<open>The server other service processes connect to, if there are any.\<close>

definition sp_server_params :: "config_t \<Rightarrow> init_params_t" where
  "sp_server_params c =
     \<lparr>ip_scope_id = SCOPE_INTER_SERVICE_PROCS, ip_conn_params = Some (cf_inter_conn_params c), ip_proc_info = RESET_RANK_INFO zero_rank_info,
      ip_worker = None, ip_ucp_context = None, ip_id = cf_inter_id c, ip_num_sps = 0, ip_connected_cb = Service_proc_cb\<rparr>"

definition start_sp_server :: "ctx_answers \<Rightarrow> config_t \<Rightarrow> ctx_engine_t \<Rightarrow> (dpu_offload_status_t \<times> ctx_engine_t) res" where
  "start_sp_server a c e =
     (if 0 < cf_num_connecting_service_procs c then
        bindE (server_init a (Some (sp_server_params c)) e) (\<lambda>(b, e1).
        Inr (if b = None \<or> length (ce_servers e1) \<le> ce_servers_num e1 + 1 then DO_ERROR else DO_SUCCESS, e1))
      else Inr (DO_SUCCESS, e))"

definition inter_dpus_connect_mgr :: "ctx_answers \<Rightarrow> (nat \<Rightarrow> ctx_answers) \<Rightarrow> config_t \<times> ctx_engine_t
    \<Rightarrow> (dpu_offload_status_t \<times> config_t \<times> ctx_engine_t) res" where
  "inter_dpus_connect_mgr a as s =
     (case s of (c, e0) \<Rightarrow>
      let e = e0\<lparr>ce_base := (ce_base e0)\<lparr>e_on_dpu := True\<rparr>\<rparr> in
      bindE (assertE (0 < cp_port (cf_inter_conn_params c) \<and> 0 < cp_port (cf_host_conn_params c))) (\<lambda>_.
      bindE (self_endpoint a (c, e)) (\<lambda>(rc, c1, e1).
      if rc \<noteq> DO_SUCCESS then Inr (rc, c1, e1) else
      bindE (assertE (ce_servers_num e1 = 0)) (\<lambda>_.
      bindE (start_sp_server a c1 e1) (\<lambda>(rc, e2).
      if rc \<noteq> DO_SUCCESS then Inr (rc, c1, e2) else
      connect_to_service_procs as (cf_sps_connect_to c1) (c1, e2))))))"

end
