(* ===== verification/Contexts_Properties.thy ===== *)
theory Contexts_Properties
imports Contexts Notification_Delivery Group_Topology
begin

text \<open>
  What creating execution contexts guarantees: the connection manager of a service process ends with one server when others connect to
  it and with one client for each service process it has to connect to.  What goes wrong when a step fails.
\<close>

section \<open>Answers that are not errors\<close>

definition events_ok :: "notif_engine_t \<Rightarrow> ctx_answers \<Rightarrow> bool" where
  "events_ok ne a =
     (\<exists>ns ns1 ns2. aa_events a = Some ns \<and> register_default_notifications ns = Inr (DO_SUCCESS, ns1)
        \<and> ADD_DEFAULT_ENGINE_CALLBACKS ne ns1 = Inr (DO_SUCCESS, ns2))"

definition answers_ok :: "notif_engine_t \<Rightarrow> ctx_answers \<Rightarrow> bool" where
  "answers_ok ne a = (events_ok ne a \<and> aa_init_worker a \<noteq> None \<and> aa_address a \<noteq> None \<and> aa_am_handler a \<and> aa_thread a \<and> aa_ep a)"

definition hello_ok :: "ctx_answers \<Rightarrow> bool" where
  "hello_ok a = (\<exists>h. aa_hello a = Some h \<and> oh_client_id h \<noteq> UINT64_MAX \<and> oh_global_id h \<noteq> UINT64_MAX)"

text \<open>A heap that has room for some more contexts.\<close>

definition room :: "nat \<Rightarrow> heap \<Rightarrow> bool" where
  "room n h = (wf_heap h \<and> (\<forall>k. \<not> h_oom h k) \<and> heap_bytes h + n * 2000 < 2 ^ 64)"

lemma room_mono: "room n h \<Longrightarrow> m \<le> n \<Longrightarrow> room m h"
  unfolding room_def by (metis add_left_mono mult_le_mono1 order_le_less_trans)

lemma room_two:
  assumes "room (Suc n) h" "unat s1 + unat s2 \<le> 2000"
  obtains b h1 c h2 where "malloc s1 h = (Some b, h1)" "malloc s2 h1 = (Some c, h2)" "room n h2" "b \<noteq> c" "b \<notin> live_blks h" "c \<notin> live_blks h"
    "live_blks h2 = {b, c} \<union> live_blks h"
proof -
  have o: "malloc_ok s1 h"
    using assms by (simp add: room_def malloc_ok_def)
  define h1 where "h1 = h\<lparr>h_next := Suc (h_next h), h_live := (h_next h, unat s1) # h_live h\<rparr>"
  have m1: "malloc s1 h = (Some (h_next h), h1)"
    using o by (simp add: malloc_def h1_def)
  have o1: "malloc_ok s2 h1"
    using assms by (simp add: room_def malloc_ok_def h1_def heap_bytes_def)
  define h2 where "h2 = h1\<lparr>h_next := Suc (h_next h1), h_live := (h_next h1, unat s2) # h_live h1\<rparr>"
  have m2: "malloc s2 h1 = (Some (h_next h1), h2)"
    using o1 by (simp add: malloc_def h2_def)
  have w: "wf_heap h1" "wf_heap h2"
    using malloc_wf[OF _ m1] malloc_wf[OF _ m2] assms(1) by (auto simp: room_def)
  have "room n h2"
    using assms w(2) by (simp add: room_def h2_def h1_def heap_bytes_def)
  moreover have "h_next h \<notin> live_blks h" "h_next h1 \<notin> live_blks h1"
    using malloc_fresh[OF _ m1] malloc_fresh[OF w(1) m2] assms(1) by (auto simp: room_def)
  moreover have "live_blks h1 = insert (h_next h) (live_blks h)" "live_blks h2 = insert (h_next h1) (live_blks h1)"
    using malloc_live(1)[OF m1] malloc_live(1)[OF m2] by auto
  ultimately show thesis
    using that[OF m1 m2] by auto
qed

lemma ctx_put_simps [simp]:
  "ctx_at b (ctx_put b c e) = Inr c" "ctx_put b c (ctx_put b d e) = ctx_put b c e"
  "ce_worker (ctx_put b c e) = ce_worker e" "ce_ucp_context (ctx_put b c e) = ce_ucp_context e" "ce_base (ctx_put b c e) = ce_base e"
  "ce_notifs (ctx_put b c e) = ce_notifs e" "ce_bootstrap (ctx_put b c e) = ce_bootstrap e" "ce_heap (ctx_put b c e) = ce_heap e"
  "ce_servers (ctx_put b c e) = ce_servers e" "ce_servers_num (ctx_put b c e) = ce_servers_num e" "ce_host_index (ctx_put b c e) = ce_host_index e"
  "ce_servers_num_active (ctx_put b c e) = ce_servers_num_active e" "ce_ctxs (ctx_put b c e) = (ce_ctxs e)(b \<mapsto> c)"
  "(ctx_put b c e)\<lparr>ce_heap := h\<rparr> = ctx_put b c (e\<lparr>ce_heap := h\<rparr>)" "(ctx_put b c e)\<lparr>ce_base := k\<rparr> = ctx_put b c (e\<lparr>ce_base := k\<rparr>)"
  by (simp_all add: ctx_put_def ctx_at_def)

section \<open>A client for another service process\<close>

definition sp_client :: "nat \<Rightarrow> conn_params_t \<Rightarrow> ctx_answers \<Rightarrow> econtext_t \<Rightarrow> bool" where
  "sp_client gid cp a c =
     (ec_type c = CONTEXT_CLIENT \<and> ec_scope c = SCOPE_INTER_SERVICE_PROCS \<and> ri_group_rank (ec_rank c) = int gid \<and> ec_events c \<noteq> None
      \<and> (\<exists>cb cl. ec_handle c = Client_handle cb cl cp \<and> cl_id cl = oh_client_id (the (aa_hello a))
           \<and> cl_server_global_id cl = oh_global_id (the (aa_hello a)) \<and> b_phase (cl_boot cl) = OOB_CONNECT_DONE))"

lemma client_init_sp:
  assumes "ce_bootstrap e = None" "e_on_dpu (ce_base e)" "0 < cp_port cp" "cp_addr_str cp \<noteq> None" "answers_ok (ce_notifs e) a" "hello_ok a"
    and "ce_worker e \<noteq> None" "ce_ucp_context e \<noteq> None"
    and "malloc sizeof_execution_context_t (ce_heap e) = (Some b, h1)" "malloc sizeof_dpu_offload_client_t h1 = (Some cb, h2)"
  shows "\<exists>c. client_init a (Some (sp_init_params gid cp)) e = Inr (Some b, e\<lparr>ce_heap := h2, ce_ctxs := (ce_ctxs e)(b \<mapsto> c)\<rparr>) \<and> sp_client gid cp a c"
proof -
  obtain ns ns1 ns2 where ev: "aa_events a = Some ns" "register_default_notifications ns = Inr (DO_SUCCESS, ns1)"
      "ADD_DEFAULT_ENGINE_CALLBACKS (ce_notifs e) ns1 = Inr (DO_SUCCESS, ns2)"
    using assms(5) by (auto simp: answers_ok_def events_ok_def)
  obtain h addr w u where o: "aa_hello a = Some h" "aa_address a = Some addr" "ce_worker e = Some w" "ce_ucp_context e = Some u" "aa_am_handler a"
    using assms(5-8) by (auto simp: answers_ok_def hello_ok_def)
  obtain adr where adr: "cp_addr_str cp = Some adr"
    using assms(4) by auto
  let ?ip = "sp_init_params gid cp"
  define c0 where "c0 = RESET_ECONTEXT\<lparr>ec_type := CONTEXT_CLIENT, ec_scope := SCOPE_INTER_SERVICE_PROCS, ec_rank := COPY_RANK_INFO (ip_proc_info ?ip) (RESET_RANK_INFO zero_rank_info)\<rparr>"
  have r: "ri_group_uid (ip_proc_info ?ip) = INT_MAX"
    by (simp add: sp_init_params_def RESET_RANK_INFO_def)
  have x: "execution_context_init CONTEXT_CLIENT e = (Some b, ctx_put b (RESET_ECONTEXT\<lparr>ec_type := CONTEXT_CLIENT, ec_scope := SCOPE_HOST_DPU\<rparr>) (e\<lparr>ce_heap := h1\<rparr>))"
    by (simp add: execution_context_init_def assms(9))
  have g: "client_rank ?ip e' = ip_proc_info ?ip" "client_group (ip_proc_info ?ip) base = Inr base" "client_num_sps ?ip base = (True, base)" for e' base
    using r by (simp_all add: client_rank_def client_group_def client_num_sps_def Let_def) (simp add: sp_init_params_def)
  define rk where "rk = \<lparr>ri_group_uid = INT_MAX, ri_group_rank = int gid, ri_group_size = 0, ri_n_local_ranks = 0, ri_local_rank = - 1,
      ri_host_info = aa_hostname_hash a, ri_group_seq_num = 0\<rparr>"
  define cl where "cl = (RESET_CLIENT SCOPE_INTER_SERVICE_PROCS (ec_rank c0) [] (aa_garbage a))\<lparr>cl_rank := rk, cl_local_addr := addr\<rparr>"
  define c1 where "c1 = c0\<lparr>ec_rank := rk, ec_connected_cb := True, ec_handle := Client_handle cb cl cp\<rparr>"
  have i: "client_init_context a (Some ?ip) b (ctx_put b c0 (e\<lparr>ce_heap := h1\<rparr>)) = Inr (DO_SUCCESS, ctx_put b c1 (e\<lparr>ce_heap := h2\<rparr>))"
    using adr o(2-4) assms(10)
    by (simp add: client_init_context_def DO_INIT_WORKER_def Let_def c0_def c1_def cl_def rk_def sp_init_params_def COPY_RANK_INFO_def RESET_RANK_INFO_def
        INVALID_RANK_def RESET_CLIENT_def RESET_ECONTEXT_def)
  define cl2 where "cl2 = snd (oob_connect (aa_hello a) cl)"
  define c2 where "c2 = c1\<lparr>ec_events := Some ns2, ec_handle := Client_handle cb cl2 cp\<rparr>"
  have s: "ec_scope c1 = SCOPE_INTER_SERVICE_PROCS" "ec_handle c1 = Client_handle cb cl cp" "ec_rank c1 = rk"
    by (simp_all add: c1_def c0_def)
  have m: "client_mark_group b (ctx_put b c2 e') = Inr (ctx_put b c2 e')" for e'
    by (simp add: client_mark_group_def c2_def s(3) rk_def)
  have f: "event_channels_init a b (ctx_put b c1 (e\<lparr>ce_heap := h2\<rparr>)) = Inr (DO_SUCCESS, ctx_put b (c1\<lparr>ec_events := Some ns\<rparr>) (e\<lparr>ce_heap := h2\<rparr>))"
    using o(3,5) by (simp add: event_channels_init_def ev(1) s(1) Let_def)
  have q: "client_oob_connect a b (ctx_put b (c1\<lparr>ec_events := Some ns\<rparr>) (e\<lparr>ce_heap := h2\<rparr>))
      = Inr (DO_SUCCESS, ctx_put b (c1\<lparr>ec_events := Some ns, ec_handle := Client_handle cb cl2 cp\<rparr>) (e\<lparr>ce_heap := h2\<rparr>))"
    by (simp add: client_oob_connect_def s(2) cl2_def o(1) oob_connect_def)
  have n: "register_notifs False b (ctx_put b (c1\<lparr>ec_events := Some ns, ec_handle := Client_handle cb cl2 cp\<rparr>) (e\<lparr>ce_heap := h2\<rparr>))
      = Inr (DO_SUCCESS, ctx_put b c2 (e\<lparr>ce_heap := h2\<rparr>))"
    using ev(2,3) by (cases c1) (simp add: register_notifs_def c2_def)
  have ip: "ip_conn_params ?ip = Some cp" "ip_scope_id ?ip = SCOPE_INTER_SERVICE_PROCS"
    by (simp_all add: sp_init_params_def)
  have c0: "RESET_ECONTEXT\<lparr>ec_type := CONTEXT_CLIENT, ec_scope := SCOPE_INTER_SERVICE_PROCS,
      ec_rank := COPY_RANK_INFO (ip_proc_info ?ip) (ec_rank (RESET_ECONTEXT\<lparr>ec_type := CONTEXT_CLIENT, ec_scope := SCOPE_HOST_DPU\<rparr>))\<rparr> = c0"
    by (simp add: c0_def RESET_ECONTEXT_def)
  have "client_init a (Some ?ip) e = Inr (Some b, ctx_put b c2 (e\<lparr>ce_heap := h2\<rparr>))"
    using assms(1-3) c0 by (simp add: client_init_def x g ip i f q n m Let_def)
  moreover have "sp_client gid cp a c2"
    using o(1) by (simp add: sp_client_def c2_def c1_def c0_def cl2_def cl_def rk_def oob_connect_def RESET_CLIENT_def RESET_BOOTSTRAPPING_def)
  ultimately show ?thesis
    by (auto simp: ctx_put_def)
qed

section \<open>The server for other service processes\<close>

definition sp_server :: "nat \<Rightarrow> conn_params_t \<Rightarrow> econtext_t \<Rightarrow> bool" where
  "sp_server gid cp c =
     (ec_type c = CONTEXT_SERVER \<and> ec_scope c = SCOPE_INTER_SERVICE_PROCS \<and> ec_events c \<noteq> None
      \<and> (\<exists>sb sv. ec_handle c = Server_handle sb sv cp \<and> sv_id sv = gid \<and> sv_scope sv = SCOPE_INTER_SERVICE_PROCS
           \<and> sv_num_connected_clients sv = 0))"

lemma server_init_sp:
  assumes "ip_scope_id ip = SCOPE_INTER_SERVICE_PROCS" "ip_conn_params ip = Some cp" "ip_worker ip = None"
    and "e_on_dpu (ce_base e)" "0 < cp_port cp" "cp_addr_str cp \<noteq> None" "answers_ok (ce_notifs e) a" "ce_worker e \<noteq> None" "ce_ucp_context e \<noteq> None"
    and "ce_servers_num e < length (ce_servers e)"
    and "malloc sizeof_execution_context_t (ce_heap e) = (Some b, h1)" "malloc sizeof_dpu_offload_server_t h1 = (Some sb, h2)"
  shows "\<exists>c. server_init a (Some ip) e = Inr (Some b, e\<lparr>ce_heap := h2,
             ce_servers := (ce_servers e)[ce_servers_num e := Some b], ce_servers_num := Suc (ce_servers_num e),
             ce_servers_num_active := Suc (ce_servers_num_active e), ce_ctxs := (ce_ctxs e)(b \<mapsto> c)\<rparr>)
           \<and> sp_server (cfg_local_sp_global_id (e_config (ce_base e))) cp c"
proof -
  obtain ns ns1 ns2 where ev: "aa_events a = Some ns" "register_default_notifications ns = Inr (DO_SUCCESS, ns1)"
      "ADD_DEFAULT_ENGINE_CALLBACKS (ce_notifs e) ns1 = Inr (DO_SUCCESS, ns2)"
    using assms(7) by (auto simp: answers_ok_def events_ok_def)
  obtain addr w u adr where o: "aa_address a = Some addr" "ce_worker e = Some w" "ce_ucp_context e = Some u" "aa_am_handler a" "aa_thread a"
      "cp_addr_str cp = Some adr"
    using assms(6-9) by (auto simp: answers_ok_def)
  let ?id = "case ip_id ip of None \<Rightarrow> UINT64_MAX | Some i \<Rightarrow> i" and ?gid = "cfg_local_sp_global_id (e_config (ce_base e))"
  define c0 where "c0 = RESET_ECONTEXT\<lparr>ec_type := CONTEXT_SERVER, ec_scope := SCOPE_INTER_SERVICE_PROCS\<rparr>"
  define sv where "sv = server_init_context ?id SCOPE_INTER_SERVICE_PROCS (ip_connected_cb ip) addr"
  let ?e2 = "e\<lparr>ce_heap := h2\<rparr>"
  let ?e3 = "?e2\<lparr>ce_servers := (ce_servers e)[ce_servers_num e := Some b], ce_servers_num := Suc (ce_servers_num e),
      ce_servers_num_active := Suc (ce_servers_num_active e)\<rparr>"
  have x: "execution_context_init CONTEXT_SERVER e = (Some b, ctx_put b (RESET_ECONTEXT\<lparr>ec_type := CONTEXT_SERVER, ec_scope := SCOPE_HOST_DPU\<rparr>) (e\<lparr>ce_heap := h1\<rparr>))"
    by (simp add: execution_context_init_def assms(11))
  have i: "server_ctx_init a (Some ip) b (ctx_put b (RESET_ECONTEXT\<lparr>ec_type := CONTEXT_SERVER, ec_scope := SCOPE_HOST_DPU\<rparr>) (e\<lparr>ce_heap := h1\<rparr>))
      = Inr (DO_SUCCESS, ctx_put b (c0\<lparr>ec_handle := Server_handle sb sv cp\<rparr>) ?e2)"
    using o(1-3) assms(1-3,12)
    by (simp add: server_ctx_init_def server_conn_params_def server_cb_def DO_INIT_WORKER_def Let_def c0_def sv_def RESET_ECONTEXT_def split: option.splits)
  define c1 where "c1 = c0\<lparr>ec_handle := Server_handle sb (sv\<lparr>sv_id := ?gid\<rparr>) cp\<rparr>"
  have l: "add_server (Some ip) b (ctx_put b (c0\<lparr>ec_handle := Server_handle sb sv cp\<rparr>) ?e2) = Inr (ctx_put b c1 ?e3)"
    using assms(1,4,10) by (simp add: add_server_def server_id_def updE_def c1_def) (simp add: ctx_put_def)
  have f: "event_channels_init a b (ctx_put b c1 ?e3) = Inr (DO_SUCCESS, ctx_put b (c1\<lparr>ec_events := Some ns\<rparr>) ?e3)"
    using o(2,4) ev(1) by (simp add: event_channels_init_def Let_def c1_def c0_def)
  have n: "register_notifs True b (ctx_put b (c1\<lparr>ec_events := Some ns\<rparr>) ?e3) = Inr (DO_SUCCESS, ctx_put b (c1\<lparr>ec_events := Some ns2\<rparr>) ?e3)"
    using ev(2,3) by (simp add: register_notifs_def)
  have "server_init a (Some ip) e = Inr (Some b, ctx_put b (c1\<lparr>ec_events := Some ns2\<rparr>) ?e3)"
    using assms(2,5) o(5,6) by (simp add: server_init_def x i l f n)
  moreover have "sp_server ?gid cp (c1\<lparr>ec_events := Some ns2\<rparr>)"
    by (simp add: sp_server_def c1_def c0_def sv_def server_init_context_def)
  ultimately show ?thesis
    by (auto simp: ctx_put_def)
qed

section \<open>Connecting to all service processes\<close>

text \<open>What the configuration has to say about a service process, and the address and port it gives.\<close>

definition sp_ready :: "config_t \<Rightarrow> nat \<Rightarrow> bool" where
  "sp_ready c gid =
     (let sp = arr_get gid zero_sp_conf (cf_engine_sps c) in
      sc_global_id sp \<noteq> UINT64_MAX \<and> rd_hostname (arr_get (sc_dpu_idx sp) zero_dpu_info (cf_engine_dpus c)) \<noteq> None
      \<and> 0 < scf_intersp_port (arr_get (sc_global_id sp) zero_sp_config (cf_sps_config c))
      \<and> (case sc_conn_params sp of None \<Rightarrow> False | Some conn \<Rightarrow> cp_addr_str conn \<noteq> None \<and> cp_port conn \<noteq> - 1))"

definition sp_conn :: "config_t \<Rightarrow> nat \<Rightarrow> conn_params_t" where
  "sp_conn c gid =
     (let sp = arr_get gid zero_sp_conf (cf_engine_sps c) in
      (the (sc_conn_params sp))\<lparr>cp_port := scf_intersp_port (arr_get (sc_global_id sp) zero_sp_config (cf_sps_config c))\<rparr>)"

lemma prepare_ready:
  assumes "sp_ready c gid" "cfg_local_sp_global_id c \<noteq> UINT64_MAX"
  shows "\<exists>c1. prepare_connection gid c = Inr (sp_conn c gid, c1) \<and> sp_ready c1 = sp_ready c \<and> sp_conn c1 = sp_conn c
           \<and> cfg_local_sp_global_id c1 = cfg_local_sp_global_id c"
    and "0 < cp_port (sp_conn c gid)" "cp_addr_str (sp_conn c gid) \<noteq> None"
proof -
  define sp where "sp = arr_get gid zero_sp_conf (cf_engine_sps c)"
  obtain conn where conn: "sc_conn_params sp = Some conn" "cp_addr_str conn \<noteq> None" "cp_port conn \<noteq> - 1"
    using assms(1) by (auto simp: sp_ready_def Let_def sp_def split: option.splits)
  let ?port = "scf_intersp_port (arr_get (sc_global_id sp) zero_sp_config (cf_sps_config c))"
  have port: "0 < ?port" "rd_hostname (arr_get (sc_dpu_idx sp) zero_dpu_info (cf_engine_dpus c)) \<noteq> None" "sc_global_id sp \<noteq> UINT64_MAX"
    using assms(1) by (simp_all add: sp_ready_def Let_def sp_def)
  have cc: "sp_conn c gid = conn\<lparr>cp_port := ?port\<rparr>"
    using conn(1) by (simp add: sp_conn_def sp_def[symmetric])
  then show "0 < cp_port (sp_conn c gid)" "cp_addr_str (sp_conn c gid) \<noteq> None"
    using port(1) conn(2) by simp_all
  define c1 where "c1 = c\<lparr>cf_engine_sps := arr_put gid zero_sp_conf (sp\<lparr>sc_conn_params := Some (conn\<lparr>cp_port := ?port\<rparr>)\<rparr>) (cf_engine_sps c)\<rparr>"
  have p: "prepare_connection gid c = Inr (sp_conn c gid, c1)"
    using conn port assms(2) by (simp add: prepare_connection_def Let_def sp_def[symmetric] cc c1_def del: not_None_eq)
  have g: "arr_get g zero_sp_conf (cf_engine_sps c1)
      = (if g = gid then sp\<lparr>sc_conn_params := Some (conn\<lparr>cp_port := ?port\<rparr>)\<rparr> else arr_get g zero_sp_conf (cf_engine_sps c))" for g
    by (simp add: c1_def arr_get_put)
  have "sp_ready c1 g = sp_ready c g" "sp_conn c1 g = sp_conn c g" for g
    using port conn by (simp_all add: sp_ready_def sp_conn_def g Let_def) (simp_all add: c1_def sp_def[symmetric])
  then have "sp_ready c1 = sp_ready c" "sp_conn c1 = sp_conn c" "cfg_local_sp_global_id c1 = cfg_local_sp_global_id c"
    by (auto simp: c1_def)
  with p show "\<exists>c1. prepare_connection gid c = Inr (sp_conn c gid, c1) \<and> sp_ready c1 = sp_ready c \<and> sp_conn c1 = sp_conn c
           \<and> cfg_local_sp_global_id c1 = cfg_local_sp_global_id c"
    by blast
qed

text \<open>The clients an engine has for other service processes, with the service process each is for.\<close>

definition sp_links :: "ctx_engine_t \<Rightarrow> (blk \<times> nat) list" where
  "sp_links e = map the (take (ce_num_inter e) (ce_inter e))"

definition link_ok :: "(nat \<Rightarrow> ctx_answers) \<Rightarrow> config_t \<Rightarrow> ctx_engine_t \<Rightarrow> blk \<times> nat \<Rightarrow> bool" where
  "link_ok as c e l =
     (fst l \<in> live_blks (ce_heap e)
      \<and> (\<exists>ctx. ce_ctxs e (fst l) = Some ctx \<and> sp_client (cfg_local_sp_global_id c) (sp_conn c (snd l)) (as (snd l)) ctx))"

definition sp_links_ok :: "(nat \<Rightarrow> ctx_answers) \<Rightarrow> config_t \<Rightarrow> ctx_engine_t \<Rightarrow> bool" where
  "sp_links_ok as c e = (distinct (map fst (sp_links e)) \<and> (\<forall>l \<in> set (sp_links e). link_ok as c e l))"

text \<open>What of the engine the connections leave alone.\<close>

definition same_engine :: "ctx_engine_t \<Rightarrow> ctx_engine_t \<Rightarrow> bool" where
  "same_engine e e' =
     (ce_base e' = ce_base e \<and> ce_bootstrap e' = ce_bootstrap e \<and> ce_worker e' = ce_worker e \<and> ce_ucp_context e' = ce_ucp_context e
      \<and> ce_notifs e' = ce_notifs e \<and> ce_servers e' = ce_servers e \<and> ce_servers_num e' = ce_servers_num e
      \<and> ce_servers_num_active e' = ce_servers_num_active e \<and> length (ce_inter e') = length (ce_inter e)
      \<and> live_blks (ce_heap e) \<subseteq> live_blks (ce_heap e') \<and> (\<forall>b \<in> live_blks (ce_heap e). ce_ctxs e' b = ce_ctxs e b))"

lemma same_engine_trans: "same_engine e e1 \<Longrightarrow> same_engine e1 e2 \<Longrightarrow> same_engine e e2"
  unfolding same_engine_def by (auto simp: subset_iff)

lemma link_ok_mono: "same_engine e e' \<Longrightarrow> link_ok as c e l \<Longrightarrow> link_ok as c e' l"
  unfolding same_engine_def link_ok_def by auto

definition engine_ready :: "ctx_engine_t \<Rightarrow> bool" where
  "engine_ready e = (ce_bootstrap e = None \<and> e_on_dpu (ce_base e) \<and> ce_worker e \<noteq> None \<and> ce_ucp_context e \<noteq> None)"

lemma sizes_fit: "unat sizeof_execution_context_t + unat sizeof_dpu_offload_client_t \<le> 2000"
  "unat sizeof_execution_context_t + unat sizeof_dpu_offload_server_t \<le> 2000"
  by (simp_all add: sizeof_execution_context_t_def sizeof_dpu_offload_client_t_def sizeof_dpu_offload_server_t_def)

lemma connect_step:
  assumes "engine_ready e" "room (Suc n) (ce_heap e)" "ce_num_inter e < length (ce_inter e)" "sp_links_ok as c e"
    and "sp_ready c gid" "cfg_local_sp_global_id c \<noteq> UINT64_MAX" "answers_ok (ce_notifs e) (as gid)" "hello_ok (as gid)"
  shows "\<exists>c1 e1. connect_to_remote_service_proc (as gid) gid (c, e) = Inr (DO_SUCCESS, c1, e1) \<and> same_engine e e1 \<and> room n (ce_heap e1)
           \<and> ce_num_inter e1 = Suc (ce_num_inter e) \<and> map snd (sp_links e1) = map snd (sp_links e) @ [gid] \<and> sp_links_ok as c1 e1
           \<and> sp_ready c1 = sp_ready c \<and> sp_conn c1 = sp_conn c \<and> cfg_local_sp_global_id c1 = cfg_local_sp_global_id c
           \<and> ce_clients_num_active e1 = Suc (ce_clients_num_active e)"
proof -
  from assms(2) sizes_fit(1) obtain b h1 cb h2 where
    m: "malloc sizeof_execution_context_t (ce_heap e) = (Some b, h1)" "malloc sizeof_dpu_offload_client_t h1 = (Some cb, h2)"
      "room n h2" "b \<notin> live_blks (ce_heap e)" "live_blks h2 = {b, cb} \<union> live_blks (ce_heap e)"
    by (rule room_two)
  from prepare_ready[OF assms(5,6)] obtain c1 where p: "prepare_connection gid c = Inr (sp_conn c gid, c1)"
      "sp_ready c1 = sp_ready c" "sp_conn c1 = sp_conn c" "cfg_local_sp_global_id c1 = cfg_local_sp_global_id c"
      "0 < cp_port (sp_conn c gid)" "cp_addr_str (sp_conn c gid) \<noteq> None"
    by blast
  let ?e1 = "\<lambda>ctx. e\<lparr>ce_heap := h2, ce_ctxs := (ce_ctxs e)(b \<mapsto> ctx)\<rparr>"
  obtain ctx where i: "client_init (as gid) (Some (sp_init_params (cfg_local_sp_global_id c) (sp_conn c gid))) e = Inr (Some b, ?e1 ctx)"
      "sp_client (cfg_local_sp_global_id c) (sp_conn c gid) (as gid) ctx"
    using client_init_sp[OF _ _ p(5,6) assms(7,8) _ _ m(1,2)] assms(1) by (auto simp: engine_ready_def)
  obtain id g where ids: "client_ids b (?e1 ctx) = Inr (id, g)" "id \<noteq> UINT64_MAX" "g \<noteq> UINT64_MAX"
    using i(2) assms(8) by (auto simp: sp_client_def hello_ok_def client_ids_def ctx_at_def)
  define e1 where "e1 = (?e1 ctx)\<lparr>ce_inter := (ce_inter e)[ce_num_inter e := Some (b, gid)], ce_num_inter := Suc (ce_num_inter e),
      ce_clients_num_active := Suc (ce_clients_num_active e), ce_lookup := CLIENT_SERVER_ADD (of_nat id) (of_nat g) b (ce_lookup e)\<rparr>"
  have r: "connect_to_remote_service_proc (as gid) gid (c, e) = Inr (DO_SUCCESS, c1, e1)"
    using assms(3) ids by (simp add: connect_to_remote_service_proc_def p(1) i(1) updE_def e1_def)
  have l: "sp_links e1 = sp_links e @ [(b, gid)]"
    using assms(3) by (simp add: sp_links_def e1_def take_Suc_conv_app_nth)
  have same: "same_engine e e1"
    using m(4,5) by (auto simp: same_engine_def e1_def)
  have "b \<notin> fst ` set (sp_links e)"
    using assms(4) m(4) by (auto simp: sp_links_ok_def link_ok_def)
  then have "distinct (map fst (sp_links e1))"
    using assms(4) by (simp add: l sp_links_ok_def)
  moreover have "link_ok as c1 e1 k" if "k \<in> set (sp_links e1)" for k
  proof (cases "k = (b, gid)")
    case True
    with i(2) p(3,4) m(5) show ?thesis
      by (simp add: link_ok_def e1_def)
  next
    case False
    with that l have "link_ok as c e k"
      using assms(4) by (auto simp: sp_links_ok_def)
    from link_ok_mono[OF same this] p(3,4) show ?thesis
      by (simp add: link_ok_def)
  qed
  ultimately have "sp_links_ok as c1 e1"
    by (simp add: sp_links_ok_def)
  with r same m(3) l p(2-4) show ?thesis
    by (auto simp: e1_def)
qed

lemma connect_all:
  assumes "engine_ready e" "room (length gids) (ce_heap e)" "ce_num_inter e + length gids \<le> length (ce_inter e)" "sp_links_ok as c e"
    and "\<forall>g \<in> set gids. sp_ready c g \<and> answers_ok (ce_notifs e) (as g) \<and> hello_ok (as g)" "cfg_local_sp_global_id c \<noteq> UINT64_MAX"
  shows "\<exists>c1 e1. connect_to_service_procs as gids (c, e) = Inr (DO_SUCCESS, c1, e1) \<and> same_engine e e1
           \<and> map snd (sp_links e1) = map snd (sp_links e) @ gids \<and> sp_links_ok as c1 e1 \<and> sp_conn c1 = sp_conn c
           \<and> cfg_local_sp_global_id c1 = cfg_local_sp_global_id c \<and> ce_clients_num_active e1 = ce_clients_num_active e + length gids"
  using assms
proof (induction gids arbitrary: c e)
  case Nil
  then show ?case
    by (simp add: same_engine_def)
next
  case (Cons g gids)
  have lt: "ce_num_inter e < length (ce_inter e)"
    using Cons.prems(3) by simp
  have g: "sp_ready c g" "answers_ok (ce_notifs e) (as g)" "hello_ok (as g)"
    using Cons.prems(5) by simp_all
  from connect_step[OF Cons.prems(1) _ lt Cons.prems(4) g(1) Cons.prems(6) g(2,3), of "length gids"] Cons.prems(2) obtain c1 e1 where
    s: "connect_to_remote_service_proc (as g) g (c, e) = Inr (DO_SUCCESS, c1, e1)" "same_engine e e1" "room (length gids) (ce_heap e1)"
      "ce_num_inter e1 = Suc (ce_num_inter e)" "map snd (sp_links e1) = map snd (sp_links e) @ [g]" "sp_links_ok as c1 e1"
      "sp_ready c1 = sp_ready c" "sp_conn c1 = sp_conn c" "cfg_local_sp_global_id c1 = cfg_local_sp_global_id c"
      "ce_clients_num_active e1 = Suc (ce_clients_num_active e)"
    by auto
  have "engine_ready e1" "ce_num_inter e1 + length gids \<le> length (ce_inter e1)" "ce_notifs e1 = ce_notifs e"
    using Cons.prems(1,3) s(2,4) by (simp_all add: engine_ready_def same_engine_def)
  with Cons.IH[of e1 c1] Cons.prems(5,6) s obtain c2 e2 where "connect_to_service_procs as gids (c1, e1) = Inr (DO_SUCCESS, c2, e2)" "same_engine e1 e2"
      "map snd (sp_links e2) = map snd (sp_links e1) @ gids" "sp_links_ok as c2 e2" "sp_conn c2 = sp_conn c1"
      "cfg_local_sp_global_id c2 = cfg_local_sp_global_id c1" "ce_clients_num_active e2 = ce_clients_num_active e1 + length gids"
    by auto
  with s same_engine_trans[OF s(2)] show ?case
    by simp
qed

lemma self_endpoint_ok:
  assumes "answers_ok ne a" "cfg_local_sp_global_id c \<noteq> UINT64_MAX"
  shows "\<exists>c1 e1. self_endpoint a (c, e) = Inr (DO_SUCCESS, c1, e1) \<and> sp_ready c1 = sp_ready c \<and> sp_conn c1 = sp_conn c
           \<and> cfg_local_sp_global_id c1 = cfg_local_sp_global_id c \<and> cf_sps_connect_to c1 = cf_sps_connect_to c
           \<and> cf_num_connecting_service_procs c1 = cf_num_connecting_service_procs c \<and> cf_inter_conn_params c1 = cf_inter_conn_params c
           \<and> (\<exists>u ua w wa. e1 = e\<lparr>ce_ucp_context := Some u, ce_ucp_context_allocated := ua, ce_worker := Some w, ce_worker_allocated := wa, ce_self_ep := True\<rparr>)"
proof -
  let ?i = "cfg_local_sp_global_id c"
  define sp where "sp = arr_get ?i zero_sp_conf (cf_engine_sps c)"
  define c1 where "c1 = c\<lparr>cf_self_ep := Some 0, cf_engine_sps := arr_put ?i zero_sp_conf (sp\<lparr>sc_ep := Some 0\<rparr>) (cf_engine_sps c)\<rparr>"
  have g: "arr_get g zero_sp_conf (cf_engine_sps c1) = (if g = ?i then sp\<lparr>sc_ep := Some 0\<rparr> else arr_get g zero_sp_conf (cf_engine_sps c))" for g
    by (simp add: c1_def arr_get_put)
  have "sp_ready c1 g = sp_ready c g" "sp_conn c1 g = sp_conn c g" for g
    by (auto simp: sp_ready_def sp_conn_def g Let_def) (simp_all add: c1_def sp_def)
  then have f: "sp_ready c1 = sp_ready c" "sp_conn c1 = sp_conn c"
    by auto
  obtain w0 where w0: "aa_init_worker a = Some w0"
    using assms(1) by (auto simp: answers_ok_def)
  define e1 where "e1 = e\<lparr>ce_ucp_context := Some (case ce_ucp_context e of None \<Rightarrow> aa_init_ucx a | Some u \<Rightarrow> u),
      ce_ucp_context_allocated := (ce_ucp_context e = None \<or> ce_ucp_context_allocated e),
      ce_worker := Some (case ce_worker e of None \<Rightarrow> w0 | Some w \<Rightarrow> w), ce_worker_allocated := (ce_worker e = None \<or> ce_worker_allocated e),
      ce_self_ep := True\<rparr>"
  have "self_endpoint a (c, e) = Inr (DO_SUCCESS, c1, e1)"
    using assms w0 by (cases e; cases "ce_ucp_context e"; cases "ce_worker e")
      (auto simp: self_endpoint_def answers_ok_def Let_def c1_def sp_def e1_def)
  with f show ?thesis
    by (auto simp: c1_def e1_def)
qed

text \<open>The server is there when others connect to the service process.\<close>

definition server_up :: "config_t \<Rightarrow> ctx_engine_t \<Rightarrow> bool" where
  "server_up c e =
     (0 < cf_num_connecting_service_procs c \<longrightarrow>
        (\<exists>b ctx. ce_servers e ! 0 = Some b \<and> b \<in> live_blks (ce_heap e) \<and> ce_ctxs e b = Some ctx
           \<and> sp_server (cfg_local_sp_global_id c) (cf_inter_conn_params c) ctx))"

lemma server_up_same: "same_engine e e' \<Longrightarrow> server_up c e \<Longrightarrow> server_up c e'"
  unfolding server_up_def same_engine_def by (metis subsetD)

lemma start_sp_server_ok:
  assumes "engine_ready e" "ce_servers_num e = 0" "length (ce_servers e) = DEFAULT_MAX_NUM_SERVERS" "room (Suc n) (ce_heap e)"
    and "cfg_local_sp_global_id (e_config (ce_base e)) = cfg_local_sp_global_id c" "answers_ok (ce_notifs e) a"
    and "0 < cp_port (cf_inter_conn_params c)" "cp_addr_str (cf_inter_conn_params c) \<noteq> None"
  shows "\<exists>e1. start_sp_server a c e = Inr (DO_SUCCESS, e1) \<and> engine_ready e1 \<and> room n (ce_heap e1) \<and> ce_num_inter e1 = ce_num_inter e
           \<and> ce_inter e1 = ce_inter e \<and> ce_notifs e1 = ce_notifs e \<and> ce_clients_num_active e1 = ce_clients_num_active e
           \<and> ce_servers_num e1 = (if 0 < cf_num_connecting_service_procs c then 1 else 0) \<and> server_up c e1"
proof (cases "0 < cf_num_connecting_service_procs c")
  case False
  with assms(1,2) room_mono[OF assms(4), of n] show ?thesis
    by (simp add: start_sp_server_def server_up_def)
next
  case True
  let ?cp = "cf_inter_conn_params c"
  from assms(4) sizes_fit(2) obtain b h1 sb h2 where
    m: "malloc sizeof_execution_context_t (ce_heap e) = (Some b, h1)" "malloc sizeof_dpu_offload_server_t h1 = (Some sb, h2)"
      "room n h2" "live_blks h2 = {b, sb} \<union> live_blks (ce_heap e)"
    by (rule room_two)
  have ip: "ip_scope_id (sp_server_params c) = SCOPE_INTER_SERVICE_PROCS" "ip_conn_params (sp_server_params c) = Some ?cp" "ip_worker (sp_server_params c) = None"
    by (simp_all add: sp_server_params_def)
  obtain ctx where "server_init a (Some (sp_server_params c)) e = Inr (Some b, e\<lparr>ce_heap := h2, ce_servers := (ce_servers e)[0 := Some b], ce_servers_num := 1,
         ce_servers_num_active := Suc (ce_servers_num_active e), ce_ctxs := (ce_ctxs e)(b \<mapsto> ctx)\<rparr>)" "sp_server (cfg_local_sp_global_id c) ?cp ctx"
    using server_init_sp[OF ip _ assms(7,8,6) _ _ _ m(1,2)] assms(1-3,5) by (auto simp: engine_ready_def DEFAULT_MAX_NUM_SERVERS_def)
  with True assms(1,3) m(3,4) show ?thesis
    by (simp add: start_sp_server_def engine_ready_def server_up_def DEFAULT_MAX_NUM_SERVERS_def)
qed

section \<open>Properties\<close>

text \<open>C17: When nothing fails, the connection manager of a service process ends with exactly the connections of the configuration: a client
  for each service process it has to connect to, in that order, in contexts of their own that carry the address and the port of the
  configuration and the identifiers the other side sent; and a server under its global identifier if and only if others connect to
  it.\<close>

theorem connect_mgr_establishes:
  assumes "ce_bootstrap e = None" "ce_servers_num e = 0" "ce_num_inter e = 0" "length (ce_servers e) = DEFAULT_MAX_NUM_SERVERS"
    and "length (ce_inter e) = DEFAULT_MAX_NUM_SERVERS" "length (cf_sps_connect_to c) \<le> DEFAULT_MAX_NUM_SERVERS"
    and "cfg_local_sp_global_id (e_config (ce_base e)) = cfg_local_sp_global_id c" "cfg_local_sp_global_id c \<noteq> UINT64_MAX"
    and "0 < cp_port (cf_inter_conn_params c)" "0 < cp_port (cf_host_conn_params c)" "cp_addr_str (cf_inter_conn_params c) \<noteq> None"
    and "room (Suc (length (cf_sps_connect_to c))) (ce_heap e)" "answers_ok (ce_notifs e) a"
    and "\<forall>g \<in> set (cf_sps_connect_to c). sp_ready c g \<and> answers_ok (ce_notifs e) (as g) \<and> hello_ok (as g)"
  shows "\<exists>c' e'. inter_dpus_connect_mgr a as (c, e) = Inr (DO_SUCCESS, c', e')
           \<and> map snd (sp_links e') = cf_sps_connect_to c \<and> distinct (map fst (sp_links e')) \<and> (\<forall>l \<in> set (sp_links e'). link_ok as c e' l)
           \<and> ce_clients_num_active e' = ce_clients_num_active e + length (cf_sps_connect_to c)
           \<and> ce_servers_num e' = (if 0 < cf_num_connecting_service_procs c then 1 else 0) \<and> server_up c e'"
proof -
  define e0 where "e0 = e\<lparr>ce_base := (ce_base e)\<lparr>e_on_dpu := True\<rparr>\<rparr>"
  from self_endpoint_ok[OF assms(13,8), of e0] obtain c1 e1 u ua w wa where s: "self_endpoint a (c, e0) = Inr (DO_SUCCESS, c1, e1)"
      "sp_ready c1 = sp_ready c" "sp_conn c1 = sp_conn c" "cfg_local_sp_global_id c1 = cfg_local_sp_global_id c" "cf_sps_connect_to c1 = cf_sps_connect_to c"
      "cf_num_connecting_service_procs c1 = cf_num_connecting_service_procs c" "cf_inter_conn_params c1 = cf_inter_conn_params c"
      "e1 = e0\<lparr>ce_ucp_context := Some u, ce_ucp_context_allocated := ua, ce_worker := Some w, ce_worker_allocated := wa, ce_self_ep := True\<rparr>"
    by blast
  have e1: "engine_ready e1" "ce_servers_num e1 = 0" "length (ce_servers e1) = DEFAULT_MAX_NUM_SERVERS"
      "room (Suc (length (cf_sps_connect_to c))) (ce_heap e1)" "cfg_local_sp_global_id (e_config (ce_base e1)) = cfg_local_sp_global_id c1"
      "answers_ok (ce_notifs e1) a" "ce_num_inter e1 = 0" "ce_inter e1 = ce_inter e" "ce_clients_num_active e1 = ce_clients_num_active e" "ce_notifs e1 = ce_notifs e"
    using assms(1-4,7,12,13) s(4) by (simp_all add: s(8) e0_def engine_ready_def)
  from start_sp_server_ok[OF e1(1-6)] assms(9,11) s(7) obtain e2 where
    t: "start_sp_server a c1 e1 = Inr (DO_SUCCESS, e2)" "engine_ready e2" "room (length (cf_sps_connect_to c)) (ce_heap e2)" "ce_num_inter e2 = 0"
      "ce_inter e2 = ce_inter e" "ce_notifs e2 = ce_notifs e" "ce_clients_num_active e2 = ce_clients_num_active e"
      "ce_servers_num e2 = (if 0 < cf_num_connecting_service_procs c then 1 else 0)" "server_up c1 e2"
    unfolding e1(7-10) s(6,7) by blast
  have l0: "sp_links e2 = []" "sp_links_ok as c1 e2"
    using t(4) by (simp_all add: sp_links_ok_def sp_links_def)
  from connect_all[of e2 "cf_sps_connect_to c" as c1] obtain c3 e3 where
    f: "connect_to_service_procs as (cf_sps_connect_to c) (c1, e2) = Inr (DO_SUCCESS, c3, e3)" "same_engine e2 e3"
      "map snd (sp_links e3) = cf_sps_connect_to c" "sp_links_ok as c3 e3" "sp_conn c3 = sp_conn c" "cfg_local_sp_global_id c3 = cfg_local_sp_global_id c"
      "ce_clients_num_active e3 = ce_clients_num_active e + length (cf_sps_connect_to c)"
    using t l0 s(2-4) assms(5,6,8,14) by auto
  have "inter_dpus_connect_mgr a as (c, e) = Inr (DO_SUCCESS, c3, e3)"
    using assms(9,10) s(1,5) e1(2) t(1) f(1) by (simp add: inter_dpus_connect_mgr_def Let_def e0_def[symmetric])
  moreover have "link_ok as c e3 l" if "l \<in> set (sp_links e3)" for l
    using that f(4-6) by (auto simp: sp_links_ok_def link_ok_def)
  moreover have "server_up c e3"
    using server_up_same[OF f(2) t(9)] s(4,6,7) by (simp add: server_up_def)
  ultimately show ?thesis
    using f(2-4,7) t(8) by (auto simp: same_engine_def sp_links_ok_def)
qed

text \<open>C39: A program that calls \<open>client_init\<close> again while the engine has a client is told that this is an error, but the execution context
  of the client that is in use is freed, and the engine forgets the client while it still counts it as active.\<close>

theorem client_init_again_frees_client:
  assumes "ce_bootstrap e = Some b" "wf_heap (ce_heap e)" "b \<in> live_blks (ce_heap e)" "ce_ctxs e b = Some ctx"
  shows "\<exists>e'. client_init a ip e = Inr (None, e') \<and> ce_bootstrap e' = None \<and> b \<notin> live_blks (ce_heap e') \<and> ce_ctxs e' b = None
           \<and> ce_clients_num_active e' = ce_clients_num_active e"
proof -
  from free_blk_keeps[OF assms(2,3)] obtain h where "free_blk b (ce_heap e) = Inr h" "live_blks h = live_blks (ce_heap e) - {b}"
    by blast
  with assms(1) show ?thesis
    by (simp add: client_init_def client_init_error_def free_ctx_def)
qed

text \<open>C40: When the thread that accepts connections cannot be started, \<open>server_init\<close> frees the execution context of the server and reports
  an error, but the list of servers of the engine points to the freed context, which counts as an active server.\<close>

theorem server_init_error_dangling:
  assumes "ip_scope_id ip = SCOPE_INTER_SERVICE_PROCS" "ip_conn_params ip = Some cp" "ip_worker ip = None"
    and "e_on_dpu (ce_base e)" "aa_address a = Some addr" "aa_events a = Some ns" "aa_am_handler a" "\<not> aa_thread a" "ce_worker e = Some w" "ce_ucp_context e = Some u"
    and "ce_servers_num e < length (ce_servers e)" "room (Suc 0) (ce_heap e)"
  shows "\<exists>b e'. server_init a (Some ip) e = Inr (None, e') \<and> ce_servers_num e' = Suc (ce_servers_num e)
           \<and> ce_servers_num_active e' = Suc (ce_servers_num_active e) \<and> ce_servers e' ! ce_servers_num e = Some b
           \<and> b \<notin> live_blks (ce_heap e') \<and> ce_ctxs e' b = None"
proof -
  from assms(12) sizes_fit(2) obtain b h1 sb h2 where
    m: "malloc sizeof_execution_context_t (ce_heap e) = (Some b, h1)" "malloc sizeof_dpu_offload_server_t h1 = (Some sb, h2)"
      "room 0 h2" "live_blks h2 = {b, sb} \<union> live_blks (ce_heap e)" "b \<noteq> sb"
    by (rule room_two)
  have "wf_heap h2" "b \<in> live_blks h2"
    using m(3,4) by (auto simp: room_def)
  from free_blk_keeps[OF this] obtain h3 where h3: "free_blk b h2 = Inr h3" "live_blks h3 = live_blks h2 - {b}"
    by blast
  show ?thesis
    using assms m(1,2) h3
    by (simp add: server_init_def execution_context_init_def server_ctx_init_def server_conn_params_def server_cb_def DO_INIT_WORKER_def Let_def
        add_server_def server_id_def updE_def event_channels_init_def server_init_error_def free_ctx_def split: option.splits)
      (simp_all add: ctx_put_def ctx_at_def event_channels_init_def server_init_error_def free_ctx_def Let_def)
qed

section \<open>A service process with two peers\<close>

text \<open>The notifications of the library can be registered with a new event system.\<close>

definition fresh_events :: "notif_sys_t \<Rightarrow> bool" where
  "fresh_events ns =
     (\<exists>b ens. da_base (ns_callbacks ns) = Some (b, ens) \<and> length ens = 5000 \<and> da_capacity (ns_callbacks ns) = 5000 \<and> ns_pending ns = [])"

lemma register_fresh:
  assumes "fresh_events ns" "t < 5000"
  shows "\<exists>ns'. event_channel_register t (Some c) None ns = Inr (DO_SUCCESS, ns') \<and> fresh_events ns'"
proof -
  obtain b ens where f: "da_base (ns_callbacks ns) = Some (b, ens)" "length ens = 5000" "da_capacity (ns_callbacks ns) = 5000" "ns_pending ns = []"
    using assms(1) by (auto simp: fresh_events_def)
  have t: "unat t < 5000" "\<not> 5000 \<le> t"
    using assms(2) by (simp_all add: word_less_nat_alt word_le_nat_alt)
  have g: "get_notif_callback_entry t ns = Inr (unat t, ens ! unat t, ns)"
    using f t by (simp add: get_notif_callback_entry_def DYN_ARRAY_GET_ELT_def da_read_def nthE_def)
  show ?thesis
    using f t by (auto simp: event_channel_register_def g set_entry_def da_write_def updE_def fresh_events_def Let_def)
qed

lemma register_all_fresh:
  "fresh_events ns \<Longrightarrow> \<forall>t \<in> set ts. t < 5000 \<Longrightarrow> \<exists>ns'. register_all ts ns = Inr (DO_SUCCESS, ns')"
proof (induction ts arbitrary: ns)
  case (Cons t ts)
  from register_fresh[OF Cons.prems(1), of t "unat t"] Cons.prems(2) obtain ns1 where
    "event_channel_register t (Some (unat t)) None ns = Inr (DO_SUCCESS, ns1)" "fresh_events ns1"
    by auto
  with Cons.IH[of ns1] Cons.prems(2) show ?case
    by simp
qed simp

definition demo_notifs :: notif_engine_t where
  "demo_notifs = \<lparr>ne_default = demo_ns, ne_self = None, ne_num_default_notifications = 0\<rparr>"

definition demo_ctx_answers :: ctx_answers where
  "demo_ctx_answers = \<lparr>aa_init_ucx = 1, aa_init_worker = Some 2, aa_address = Some [7], aa_events = Some demo_ns, aa_am_handler = True,
     aa_hello = Some \<lparr>oh_addr = [8], oh_server_id = 0, oh_global_id = 0, oh_client_id = 1\<rparr>, aa_thread = True, aa_ep = True,
     aa_getenv = (\<lambda>_. None), aa_hostname_hash = 3, aa_garbage = 4\<rparr>"

lemma demo_ctx_answers_ok: "answers_ok demo_notifs demo_ctx_answers" "hello_ok demo_ctx_answers"
proof -
  have "fresh_events demo_ns"
    by (simp add: fresh_events_def demo_ns_def demo_cbs_nth)
  from register_all_fresh[OF this, of default_notification_types] obtain ns where "register_default_notifications demo_ns = Inr (DO_SUCCESS, ns)"
    by (auto simp: register_default_notifications_def default_notification_types_def)
  then show "answers_ok demo_notifs demo_ctx_answers"
    by (simp add: answers_ok_def events_ok_def demo_ctx_answers_def demo_notifs_def ADD_DEFAULT_ENGINE_CALLBACKS_def)
  show "hello_ok demo_ctx_answers"
    by (simp add: hello_ok_def demo_ctx_answers_def UINT64_MAX_def)
qed

definition demo_sp_config :: config_t where
  "demo_sp_config = INIT_DPU_CONFIG_DATA\<lparr>cfg_local_sp_global_id := 1, cf_num_connecting_service_procs := 1, cf_sps_connect_to := [0],
     cf_inter_conn_params := \<lparr>cp_addr_str = Some ''me'', cp_port = 70\<rparr>, cf_host_conn_params := \<lparr>cp_addr_str = Some ''me'', cp_port = 80\<rparr>,
     cf_engine_sps := [zero_sp_conf\<lparr>sc_global_id := 0, sc_conn_params := Some \<lparr>cp_addr_str = Some ''you'', cp_port = 90\<rparr>\<rparr>],
     cf_engine_dpus := [zero_dpu_info\<lparr>rd_hostname := Some ''dpu''\<rparr>], cf_sps_config := [zero_sp_config\<lparr>scf_intersp_port := 77\<rparr>]\<rparr>"

definition demo_ctx_engine :: ctx_engine_t where
  "demo_ctx_engine =
     \<lparr>ce_base = (demo_engine 4)\<lparr>e_on_dpu := True, e_config := (e_config (demo_engine 4))\<lparr>cfg_local_sp_global_id := 1\<rparr>\<rparr>, ce_host_index = 0,
      ce_host_dpu_data_initialized = False, ce_total_num_sps = 0, ce_bootstrap = None, ce_clients_num_active = 0, ce_servers = replicate 256 None,
      ce_servers_num = 0, ce_servers_num_active = 0, ce_inter = replicate 256 None, ce_num_inter = 0, ce_lookup = Map.empty,
      ce_ucp_context = None, ce_ucp_context_allocated = False, ce_worker = None, ce_worker_allocated = False, ce_self_ep = False,
      ce_notifs = demo_notifs, ce_heap = demo_heap, ce_ctxs = Map.empty, ce_cleaned = []\<rparr>"

lemma demo_room: "n < 1000 \<Longrightarrow> room n demo_heap"
  using demo_wf by (simp add: room_def demo_heap_def heap_bytes_def)

theorem connect_mgr_establishes_witness:
  "\<exists>c' e'. inter_dpus_connect_mgr demo_ctx_answers (\<lambda>_. demo_ctx_answers) (demo_sp_config, demo_ctx_engine) = Inr (DO_SUCCESS, c', e')
     \<and> map snd (sp_links e') = [0] \<and> ce_servers_num e' = 1"
proof -
  let ?c = demo_sp_config and ?e = demo_ctx_engine and ?a = demo_ctx_answers
  have 1: "ce_bootstrap ?e = None" "ce_servers_num ?e = 0" "ce_num_inter ?e = 0" "length (ce_servers ?e) = DEFAULT_MAX_NUM_SERVERS"
      "length (ce_inter ?e) = DEFAULT_MAX_NUM_SERVERS"
    by (simp_all add: demo_ctx_engine_def DEFAULT_MAX_NUM_SERVERS_def)
  have 2: "length (cf_sps_connect_to ?c) \<le> DEFAULT_MAX_NUM_SERVERS" "cfg_local_sp_global_id (e_config (ce_base ?e)) = cfg_local_sp_global_id ?c"
      "cfg_local_sp_global_id ?c \<noteq> UINT64_MAX" "0 < cp_port (cf_inter_conn_params ?c)" "0 < cp_port (cf_host_conn_params ?c)"
      "cp_addr_str (cf_inter_conn_params ?c) \<noteq> None"
    by (simp_all add: demo_sp_config_def demo_ctx_engine_def UINT64_MAX_def DEFAULT_MAX_NUM_SERVERS_def)
  have 3: "room (Suc (length (cf_sps_connect_to ?c))) (ce_heap ?e)" "answers_ok (ce_notifs ?e) ?a"
    using demo_room[of 2] demo_ctx_answers_ok(1) by (simp_all add: demo_sp_config_def demo_ctx_engine_def numeral_2_eq_2)
  have "sp_ready ?c 0"
    by (simp add: sp_ready_def demo_sp_config_def UINT64_MAX_def zero_sp_conf_def zero_dpu_info_def)
  then have 4: "\<forall>g \<in> set (cf_sps_connect_to ?c). sp_ready ?c g \<and> answers_ok (ce_notifs ?e) ?a \<and> hello_ok ?a"
    using 3(2) demo_ctx_answers_ok(2) by (simp add: demo_sp_config_def)
  have "cf_sps_connect_to ?c = [0]" "0 < cf_num_connecting_service_procs ?c"
    by (simp_all add: demo_sp_config_def)
  with connect_mgr_establishes[OF 1 2 3, of "\<lambda>_. demo_ctx_answers"] 4 show ?thesis
    by auto
qed

theorem client_init_again_frees_client_witness:
  "\<exists>e'. client_init demo_ctx_answers None (demo_ctx_engine\<lparr>ce_bootstrap := Some 0, ce_clients_num_active := 1, ce_ctxs := [0 \<mapsto> RESET_ECONTEXT],
        ce_heap := \<lparr>h_next = 1, h_live = [(0, 136)], h_oom = (\<lambda>_. False)\<rparr>\<rparr>) = Inr (None, e')
     \<and> ce_bootstrap e' = None \<and> ce_ctxs e' 0 = None \<and> ce_clients_num_active e' = 1"
proof -
  let ?h = "\<lparr>h_next = 1, h_live = [(0, 136)], h_oom = (\<lambda>_. False)\<rparr>"
  have "wf_heap ?h" "0 \<in> live_blks ?h"
    by (simp_all add: wf_heap_def heap_bytes_def live_blks_def)
  with client_init_again_frees_client[of "demo_ctx_engine\<lparr>ce_bootstrap := Some 0, ce_clients_num_active := 1, ce_ctxs := [0 \<mapsto> RESET_ECONTEXT],
      ce_heap := ?h\<rparr>" 0 RESET_ECONTEXT demo_ctx_answers None] show ?thesis
    by auto
qed

theorem server_init_error_dangling_witness:
  "\<exists>b e'. server_init (demo_ctx_answers\<lparr>aa_thread := False\<rparr>) (Some (sp_server_params demo_sp_config))
        (demo_ctx_engine\<lparr>ce_worker := Some 2, ce_ucp_context := Some 1\<rparr>) = Inr (None, e')
     \<and> ce_servers e' ! 0 = Some b \<and> ce_ctxs e' b = None"
proof -
  let ?e = "demo_ctx_engine\<lparr>ce_worker := Some 2, ce_ucp_context := Some 1\<rparr>" and ?a = "demo_ctx_answers\<lparr>aa_thread := False\<rparr>"
  have "ip_scope_id (sp_server_params demo_sp_config) = SCOPE_INTER_SERVICE_PROCS" "ip_conn_params (sp_server_params demo_sp_config)
      = Some (cf_inter_conn_params demo_sp_config)" "ip_worker (sp_server_params demo_sp_config) = None" "e_on_dpu (ce_base ?e)"
      "aa_address ?a = Some [7]" "aa_events ?a = Some demo_ns" "aa_am_handler ?a" "\<not> aa_thread ?a" "ce_worker ?e = Some 2" "ce_ucp_context ?e = Some 1"
      "ce_servers_num ?e < length (ce_servers ?e)" "room (Suc 0) (ce_heap ?e)"
    using demo_room[of "Suc 0"] by (simp_all add: sp_server_params_def demo_ctx_engine_def demo_ctx_answers_def)
  from server_init_error_dangling[OF this] show ?thesis
    by (auto simp: demo_ctx_engine_def)
qed

end
