(* ===== verification/Operations.thy ===== *)
theory Operations
imports Dyn_Structs
begin

text \<open>
  Operations (\<open>src/src/dpu_offload_ops.c\<close> and the handlers \<open>op_start_cb\<close> and \<open>op_completion_cb\<close> of
  \<open>src/src/dpu_offload_event_channels.c\<close>): programs register the functions of an algorithm, clients submit operations, service processes
  start and progress them.  Functions of programs are numbers and their calls a log.
\<close>

section \<open>State\<close>

record offload_op_t =
  op_alg_id :: u64
  op_init :: "nat option"
  op_complete :: "nat option"
  op_progress :: "nat option"
  op_fini :: "nat option"
  op_alg_data :: nat

text \<open>\<open>op_definition\<close> names the registered operation by its slot.\<close>

record op_desc_t =
  od_id :: u64
  od_op_definition :: "nat option"
  od_op_data :: "nat option"
  od_completed :: bool

definition RESET_OP_DESC :: "op_desc_t \<Rightarrow> op_desc_t" where
  "RESET_OP_DESC d = d\<lparr>od_id := 0, od_op_definition := None, od_op_data := None, od_completed := False\<rparr>"

definition sizeof_op_desc_t :: u64 where "sizeof_op_desc_t = 48"

text \<open>The array of registered operations is missing as long as no memory was given to it.  The context has the list of active operations;
  the notifications it sent and the functions of programs that were called are logs.\<close>

record ops_t =
  oe_registered_ops :: "offload_op_t list option"
  oe_num_registered_ops :: nat
  oe_free_op_descs :: "op_desc_t dyn_list_t"
  oe_heap :: heap
  oe_active_ops :: "ptr list"
  oe_sent :: "u64 list"
  oe_called :: "nat list"

definition od_write :: "ptr \<Rightarrow> (op_desc_t \<Rightarrow> op_desc_t) \<Rightarrow> ops_t \<Rightarrow> ops_t" where
  "od_write p f e = e\<lparr>oe_free_op_descs := (oe_free_op_descs e)\<lparr>dl_elts := (dl_elts (oe_free_op_descs e))(p := f (dl_elts (oe_free_op_descs e) p))\<rparr>\<rparr>"

definition od_at :: "ptr \<Rightarrow> ops_t \<Rightarrow> op_desc_t" where
  "od_at p e = dl_elts (oe_free_op_descs e) p"

section \<open>Registration and descriptors\<close>

definition register_new_op :: "offload_op_t option \<Rightarrow> ops_t \<Rightarrow> (dpu_offload_status_t \<times> nat \<times> ops_t) res" where
  "register_new_op op e =
     (case op of
        None \<Rightarrow> Inr (DO_ERROR, 0, e)
      | Some o1 \<Rightarrow>
          let slot = oe_num_registered_ops e in
          bindE (derefE (oe_registered_ops e)) (\<lambda>ops.
          bindE (updE ops slot o1) (\<lambda>ops1.
          Inr (DO_SUCCESS, slot, e\<lparr>oe_registered_ops := Some ops1, oe_num_registered_ops := Suc slot\<rparr>))))"

definition op_desc_get :: "u64 \<Rightarrow> nat \<Rightarrow> ops_t \<Rightarrow> (ptr option \<times> ops_t) res" where
  "op_desc_get did op_id e =
     (if oe_num_registered_ops e \<le> op_id then Inr (None, e)
      else
        bindE (DYN_LIST_GET sizeof_op_desc_t (oe_free_op_descs e) (oe_heap e)) (\<lambda>(p, dl, h).
        Inr (Some p, od_write p (od_id_update (\<lambda>_. did)) (e\<lparr>oe_free_op_descs := dl, oe_heap := h\<rparr>))))"

text \<open>Whether an event could be had and whether the notification could be sent are arguments; an operation whose notification failed
  stays on the list.\<close>

definition op_desc_submit :: "bool \<Rightarrow> bool \<Rightarrow> ptr \<Rightarrow> ops_t \<Rightarrow> dpu_offload_status_t \<times> ops_t" where
  "op_desc_submit got_event emitted p e =
     (if \<not> got_event then (DO_ERROR, e)
      else
        let e1 = e\<lparr>oe_active_ops := oe_active_ops e @ [p]\<rparr> in
        if emitted then (DO_SUCCESS, e1\<lparr>oe_sent := oe_sent e1 @ [od_id (od_at p e1)]\<rparr>) else (DO_ERROR, e1))"

definition op_desc_return :: "ptr \<Rightarrow> ops_t \<Rightarrow> ops_t" where
  "op_desc_return p e = e\<lparr>oe_free_op_descs := DYN_LIST_RETURN p (oe_free_op_descs e)\<rparr>"

section \<open>Progress and notifications\<close>

definition op_def_of :: "ptr \<Rightarrow> ops_t \<Rightarrow> offload_op_t res" where
  "op_def_of p e = bindE (derefE (od_op_definition (od_at p e))) (\<lambda>i. bindE (derefE (oe_registered_ops e)) (\<lambda>ops. nthE ops i))"

definition call_fn :: "nat option \<Rightarrow> ops_t \<Rightarrow> ops_t" where
  "call_fn f e = (case f of None \<Rightarrow> e | Some g \<Rightarrow> e\<lparr>oe_called := oe_called e @ [g]\<rparr>)"

definition progress_active_ops :: "ops_t \<Rightarrow> ops_t res" where
  "progress_active_ops e = foldE (\<lambda>p e1. bindE (op_def_of p e1) (\<lambda>d. Inr (call_fn (op_progress d) e1))) (oe_active_ops e) e"

definition op_completion_cb :: "u64 \<Rightarrow> ops_t \<Rightarrow> (dpu_offload_status_t \<times> ops_t) res" where
  "op_completion_cb did e =
     (case find (\<lambda>p. od_id (od_at p e) = did) (oe_active_ops e) of
        None \<Rightarrow> Inr (DO_ERROR, e)
      | Some p \<Rightarrow>
          let e1 = od_write p (od_completed_update (\<lambda>_. True)) e in
          bindE (op_def_of p e1) (\<lambda>d. Inr (DO_SUCCESS, call_fn (op_complete d) e1)))"

definition op_start_cb :: "u64 \<Rightarrow> ops_t \<Rightarrow> (dpu_offload_status_t \<times> ops_t) res" where
  "op_start_cb alg_id e =
     bindE (if oe_num_registered_ops e = 0 then Inr [] else bindE (derefE (oe_registered_ops e)) (\<lambda>ops. Inr (take (oe_num_registered_ops e) ops))) (\<lambda>ops.
     case find (\<lambda>d. op_alg_id d = alg_id) ops of
       None \<Rightarrow> Inr (DO_ERROR, e)
     | Some op_cfg \<Rightarrow>
         bindE (DYN_LIST_GET sizeof_op_desc_t (oe_free_op_descs e) (oe_heap e)) (\<lambda>(p, dl, h).
         let e1 = od_write p RESET_OP_DESC (e\<lparr>oe_free_op_descs := dl, oe_heap := h\<rparr>);
             e2 = e1\<lparr>oe_active_ops := oe_active_ops e1 @ [p]\<rparr> in
         bindE (derefE (op_init op_cfg)) (\<lambda>f. Inr (DO_SUCCESS, call_fn (Some f) e2))))"

section \<open>Operations that were started\<close>

text \<open>No operation can be registered with an engine as \<open>offload_engine_init\<close> leaves it, and the definition of an operation that is started is
  never set, so progress dereferences NULL.\<close>

lemma op_progress_frame [simp]:
  "od_at p (call_fn f e) = od_at p e" "oe_registered_ops (call_fn f e) = oe_registered_ops e"
  by (simp_all add: call_fn_def od_at_def split: option.splits)

lemma register_new_op_faults: "oe_registered_ops e = None \<Longrightarrow> register_new_op (Some o1) e = Inl Null_deref"
  by (simp add: register_new_op_def)

lemma progress_faults:
  assumes "p \<in> set ps" "od_op_definition (od_at p e) = None"
  shows "\<exists>f. foldE (\<lambda>p e1. bindE (op_def_of p e1) (\<lambda>d. Inr (call_fn (op_progress d) e1))) ps e = Inl f"
  using assms
proof (induction ps arbitrary: e)
  case (Cons q ps)
  show ?case
  proof (cases "op_def_of q e")
    case (Inr d)
    then have "q \<noteq> p"
      using Cons.prems(2) by (auto simp: op_def_of_def)
    then have "p \<in> set ps" "od_op_definition (od_at p (call_fn (op_progress d) e)) = None"
      using Cons.prems by auto
    from Cons.IH[OF this] Inr show ?thesis
      by simp
  qed simp
qed simp

lemma started_operation_faults:
  assumes "op_start_cb alg_id e = Inr (DO_SUCCESS, e')"
  shows "\<exists>f. progress_active_ops e' = Inl f"
proof -
  obtain p where "p \<in> set (oe_active_ops e')" "od_op_definition (od_at p e') = None"
  proof -
    from assms obtain p dl h f where "e' = call_fn (Some f) ((od_write p RESET_OP_DESC (e\<lparr>oe_free_op_descs := dl, oe_heap := h\<rparr>))
        \<lparr>oe_active_ops := oe_active_ops e @ [p]\<rparr>)"
      by (auto simp: op_start_cb_def res_simps Let_def od_write_def split: option.splits if_splits)
    then have "p \<in> set (oe_active_ops e')" "od_op_definition (od_at p e') = None"
      by (simp_all add: call_fn_def od_write_def od_at_def RESET_OP_DESC_def)
    then show thesis
      by (rule that)
  qed
  then show ?thesis
    unfolding progress_active_ops_def by (rule progress_faults)
qed

end
