(* ===== verification/Spec2Isabelle.thy ===== *)
theory Spec2Isabelle
imports Dyn_Structs Group_Bitset Tags_Hashes Group_Tables Group_Revoke Group_Invariants Group_Exchange Event_Properties Notification_Delivery Config_Properties Bootstrap_Properties Smart_Buffer_Properties SP_Data_Properties Shutdown Rendezvous_Properties Contexts_Properties Operations
begin

text \<open>
  A verification of the DPU offload service (\<open>src/\<close>), a C library that lets the processes of an MPI job
  use service processes (SPs) that run on DPUs.

  \<^bold>\<open>The program.\<close>  An offloading engine, one per process, owns execution contexts: a client per
  connection to a server, a server for those that connect, and one for notifications to itself.  On a DPU the SPs read
  the configuration of the platform, connect to each other as a mesh (\<open>src/src/inter_dpus_comm.c\<close>) and then run
  a server for the ranks of their hosts; ranks connect as clients (\<open>src/src/dpu_offload_service_daemon.c\<close>).
  All communication is by notifications: events with a header and a payload that an event system per context emits over
  UCX, tracks and gives back to its pools (\<open>src/src/dpu_offload_event_channels.c\<close>).  Over notifications run the group
  protocol, by which ranks join and leave groups (communicators), SPs exchange what they know of the groups, and
  everybody can ask which SP serves which rank (\<open>src/src/dpu_offload_group_cache.c\<close>,
  \<open>src/src/dpu_offload_utils.c\<close>), and the termination of the job.  Containers, pools and buffers are macros of
  \<open>src/include/dynamic_structs.h\<close>; the data types are in \<open>src/include/dpu_offload_types.h\<close>.

  \<^bold>\<open>Conventions.\<close>  C functions and function-like macros are HOL functions with the same names, on records with the
  members they use.  A result is a value of \<open>fault + 'a\<close>: a failed assertion, a NULL dereference, an access out
  of bounds, a bad free, an abort or a loop that does not return is \<open>Inl\<close>; an error code of the library is a value.  The
  model is the debug build (assertions are compiled in) with the active-message backend and without locks.
  Integers are words where the code relies on their width, or natural numbers with the wrap-around written out.
  Memory is a heap of blocks with their sizes where allocation matters; elsewhere dynamic arrays are lists that grow on
  demand and pools are lists.  What UCX, sockets, files, the environment and the callbacks of users answer are parameters
  of the definitions: \<open>transport\<close> for the sends of the group protocol, \<open>ev_env\<close> for the event system, records
  of answers for the steps of a connection.  Theorems quantify over them.

  \<^bold>\<open>Theories.\<close>

  \<^item> \<open>Mimosa_Prelude\<close>: faults, results and their sequencing, loops as \<open>foldE\<close>, partial correctness by \<open>holdsE\<close> with
  the collection \<open>wp\<close>, lemmas on lists and words.

  \<^item> \<open>Dyn_Structs\<close> (\<open>dynamic_structs.h\<close>): simple lists, dynamic arrays, dynamic lists (pools of elements) on a heap.
  The locale \<open>pool\<close> states what a pool promises and is interpreted on dynamic lists: no element is handed out
  twice, and a pool gives all its memory back.

  \<^item> \<open>Smart_Buffers\<close>, \<open>Smart_Buffer_Safety\<close>, \<open>Smart_Buffer_Properties\<close> (the same file): buffers by size.  Outstanding
  buffers are long enough, in memory and disjoint; sizes beyond the buckets go wrong.

  \<^item> \<open>Group_Bitset\<close> (\<open>dpu_offload_types.h\<close>): bitsets; the locale \<open>bitset\<close> is interpreted on them and
  gives the refinement of sets.

  \<^item> \<open>Tags_Hashes\<close> (\<open>dpu_offload_comms.h\<close>, \<open>dpu_offload_types.h\<close>): UCP tags, hashes, keys of groups, the lookup table of clients.

  \<^item> \<open>Mimosa_Types\<close>, \<open>Group_Cache\<close>, \<open>Group_Topology\<close>, \<open>Group_Tables\<close>: the group cache.  The hashes, bitsets and counters that
  \<open>update_topology_data\<close> keeps refine the list of associations of ranks, SPs and hosts; the lookup tables are built from
  them in order, and the queries on the tables are correct.

  \<^item> \<open>Group_Send\<close>, \<open>Group_Protocol\<close>, \<open>Group_Revoke\<close>, \<open>Group_Exchange\<close>, \<open>Group_Invariants\<close>
  (\<open>dpu_offload_event_channels.c\<close>, \<open>dpu_offload_utils.c\<close>, \<open>dpu_offload_group_cache.c\<close>): sends and handlers of the
  group protocol.  Revoke messages carry exactly the revoked ranks and are counted once; broadcasts end and carry
  exactly the local ranks; an invariant holds under every interleaving of notifications and completions.  The locale
  \<open>group_invariant\<close> says which primitive changes a property has to survive to be such an invariant, and is interpreted for
  the count of revokes and for queued revokes.

  \<^item> \<open>Event_System\<close>, \<open>Event_Invariants\<close>, \<open>Event_Steps\<close>, \<open>Event_Callbacks\<close>, \<open>Event_Properties\<close>: getting, emitting, progressing
  and returning events, with their pools, sub-events and payload buffers.  An invariant of all histories, fresh events, and
  progress that gives back the events that are finished.  Completion callbacks run in the middle of these functions: the theorems
  assume that they at most add events (\<open>adds_events\<close>), as the callbacks of the group cache do; a callback that progresses
  the context breaks the code (\<open>callback_that_progresses\<close>).  Handlers of notifications from others run between the steps of
  a history and may do whatever the steps allow, emitting included.

  \<^item> \<open>Notifications\<close>, \<open>Notification_Delivery\<close>: callbacks of types, pending notifications, dispatch.  Every notification
  is delivered once, in order, whether its callback was registered before or after it arrived.

  \<^item> \<open>C_Strings\<close>, \<open>Config_File\<close>, \<open>Inter_Dpus\<close>, \<open>Inter_Dpus_Mesh\<close>, \<open>Config_Properties\<close>: configuration files, environment
  variables and the list of DPUs.  The SPs of a job form a mesh in which each two are connected once, and the
  peers agree on addresses and ports.

  \<^item> \<open>Bootstrap\<close>, \<open>Bootstrap_Server\<close>, \<open>Bootstrap_Clients\<close>, \<open>Bootstrap_Liveness\<close>, \<open>Bootstrap_Properties\<close>: how clients and
  servers connect, over a socket and then in four steps over UCX.  Identifiers of clients are unique, the server gets what
  the client sent, and a client is connected after at most five passes.

  \<^item> \<open>SP_Data\<close>, \<open>SP_Data_Properties\<close>: the message by which hosts learn of all SPs, on the level of bytes, and endpoints.

  \<^item> \<open>Termination\<close>, \<open>Shutdown\<close>: how clients, servers and the engine end.  Any order of the messages ends with the
  engine terminated after one step per connection, with exceptions that are proved too.
  \<^item> \<open>Rendezvous\<close>, \<open>Rendezvous_Properties\<close>: big notifications (\<open>am_notification_recv_rdv_msg\<close> and \<open>am_rdv_recv_cb\<close> of
  \<open>dpu_offload_event_channels.c\<close>, and the parts of \<open>offload_engine_init\<close> and \<open>offload_engine_fini\<close> for their descriptors).  Descriptors and
  buffers belong to messages under way or to receives that completed at once or failed, whatever the order in which payloads
  arrive; the end of the engine returns, except after a receive that completed at once; it frees buffers of memory pools.

  \<^item> \<open>Contexts\<close>, \<open>Contexts_Properties\<close>: \<open>client_init\<close>, \<open>server_init\<close>, \<open>server_fini\<close> (\<open>dpu_offload_service_daemon.c\<close>) and the connection
  manager (\<open>inter_dpus_comm.c\<close>).  The manager ends with exactly the connections of the configuration; exits on errors free contexts
  that are in use.

  \<^item> \<open>Operations\<close>: registering, submitting, starting and progressing operations (\<open>dpu_offload_ops.c\<close>).  The definition of an
  operation is never set, so what is started cannot be progressed.

  \<^bold>\<open>Loops.\<close>  Loops over lists are structural.  The loop that grows an array is a \<open>partial_function\<close>, proved to return.
  \<open>progress_loop\<close> takes fuel; the length of the list of events is enough when the callbacks that run do not queue events.
  \<open>send_ranges\<close> and \<open>nth_set_bit\<close> take fuel that their theorems show to be enough.  \<open>fini_rdv_loop\<close> takes fuel: one more than the
  capacity of the pool is enough when no descriptor is in use, and no amount is when one is.  \<open>client_fini_loop\<close> is bounded by a number of passes; it
  returns with any bound beyond the pass in which the message is completed.

  \<^bold>\<open>Not modelled.\<close>  The backend that uses UCP tags instead of active messages (the other half of
  \<open>dpu_offload_comms.h\<close> and of the sends), which is not compiled in the default build.  Sockets, threads and the calls
  that create UCX objects: their answers are parameters.  Locks: the model has the atomicity of whole handlers and passes, except
  in the theorems on steps that interleave.  Splitting and recycling of smart chunks, smart arrays and smart lists: their
  macros use names that are not declared and are never expanded.  XGVMI (handlers that only return an error), requests
  for cache entries (the function that sends them aborts), the creation of the engine and the parts of its end that no other
  component has, the release of the configuration and of smart buffers, debug output, the allocation wrappers, the
  daemons (main programs over the library) and the tests.
\<close>

end
